(* ===== verification/Prelude.thy ===== *)
theory Prelude
  imports Complex_Main
begin

text \<open>
  Shared vocabulary of the development: keyed tables (lists of rows with the statements the
  query layer issues against them), transactions that either commit or leave the store as it was,
  decimal numerals as the source prints them, and the string helpers of the source's runtime.
  Nothing here models a particular file; the theories of the components build on it.
\<close>

named_theorems table_simps "lookups and updates on keyed tables"
named_theorems str_simps "strings and decimal numerals"

section \<open>Keyed tables\<close>

text \<open>
  A table is the list of its rows in insertion order. \<open>find_row\<close> is
  \<open>select ... where key = k limit 1\<close>, \<open>update_row\<close> is \<open>update ... where key = k\<close>.
\<close>

definition find_row :: "('r \<Rightarrow> 'k) \<Rightarrow> 'k \<Rightarrow> 'r list \<Rightarrow> 'r option" where
  "find_row key k rows = find (\<lambda>r. key r = k) rows"

definition update_row :: "('r \<Rightarrow> 'k) \<Rightarrow> 'k \<Rightarrow> ('r \<Rightarrow> 'r) \<Rightarrow> 'r list \<Rightarrow> 'r list" where
  "update_row key k f rows = map (\<lambda>r. if key r = k then f r else r) rows"

lemma find_row_Nil [simp]: "find_row key k [] = None"
  by (simp add: find_row_def)

lemma find_row_Cons [simp]:
  "find_row key k (r # rows) = (if key r = k then Some r else find_row key k rows)"
  by (simp add: find_row_def)

lemma find_row_append [table_simps]:
  "find_row key k (xs @ ys) =
     (case find_row key k xs of None \<Rightarrow> find_row key k ys | Some r \<Rightarrow> Some r)"
  by (induction xs) auto

lemma find_row_SomeD: "find_row key k rows = Some r \<Longrightarrow> r \<in> set rows \<and> key r = k"
  by (induction rows) (auto split: if_splits)

lemma find_row_None_iff: "find_row key k rows = None \<longleftrightarrow> k \<notin> key ` set rows"
  by (induction rows) auto

lemma find_row_distinct:
  "distinct (map key rows) \<Longrightarrow> r \<in> set rows \<Longrightarrow> find_row key (key r) rows = Some r"
  by (induction rows) (auto simp: rev_image_eqI)

lemma update_row_Nil [simp]: "update_row key k f [] = []"
  by (simp add: update_row_def)

lemma update_row_Cons [simp]:
  "update_row key k f (r # rows) = (if key r = k then f r else r) # update_row key k f rows"
  by (simp add: update_row_def)

lemma length_update_row [simp]: "length (update_row key k f rows) = length rows"
  by (simp add: update_row_def)

lemma set_update_row: "set (update_row key k f rows) = (\<lambda>r. if key r = k then f r else r) ` set rows"
  by (simp add: update_row_def)

text \<open>
  The contract an update has to keep so that the rows stay addressable: it must not write the
  key. Every statement of the query layer is an instance.
\<close>

locale keyed_table =
  fixes key :: "'r \<Rightarrow> 'k" and upd :: "'r \<Rightarrow> 'r"
  assumes upd_key: "key (upd r) = key r"
begin

lemma map_key_update: "map key (update_row key k upd rows) = map key rows"
  by (induction rows) (auto simp: upd_key)

lemma find_updated:
  "find_row key k' (update_row key k upd rows) =
     (if k' = k then map_option upd (find_row key k rows) else find_row key k' rows)"
  by (induction rows) (auto simp: upd_key)

lemma find_updated_same:
  "find_row key k rows = Some r \<Longrightarrow> find_row key k (update_row key k upd rows) = Some (upd r)"
  by (simp add: find_updated)

lemma distinct_update:
  "distinct (map key rows) \<Longrightarrow> distinct (map key (update_row key k upd rows))"
  by (simp add: map_key_update)

end

section \<open>Transactions\<close>

text \<open>
  Every operation of the query layer runs in one database transaction: it commits a new store or
  throws, and a throw rolls the store back. \<open>run_txns\<close> executes a sequence of them, a failed one
  leaving no trace.
\<close>

fun run_txns :: "('op \<Rightarrow> 's \<Rightarrow> 'e + 's) \<Rightarrow> 's \<Rightarrow> 'op list \<Rightarrow> 's" where
  "run_txns step s [] = s"
| "run_txns step s (x # xs) =
     (case step x s of Inl e \<Rightarrow> run_txns step s xs | Inr s' \<Rightarrow> run_txns step s' xs)"

locale txn_machine =
  fixes step :: "'op \<Rightarrow> 's \<Rightarrow> 'e + 's" and inv :: "'s \<Rightarrow> bool"
  assumes step_inv: "inv s \<Longrightarrow> step x s = Inr s' \<Longrightarrow> inv s'"
begin

lemma run_inv: "inv s \<Longrightarrow> inv (run_txns step s xs)"
  by (induction xs arbitrary: s) (auto split: sum.splits intro: step_inv)

end

text \<open>A machine whose steps also respect a preorder: what a store may only grow into.\<close>

locale monotone_machine = txn_machine step inv
  for step :: "'op \<Rightarrow> 's \<Rightarrow> 'e + 's" and inv :: "'s \<Rightarrow> bool" +
  fixes grows :: "'s \<Rightarrow> 's \<Rightarrow> bool"
  assumes grows_refl: "grows s s"
    and grows_trans: "grows s t \<Longrightarrow> grows t u \<Longrightarrow> grows s u"
    and step_grows: "inv s \<Longrightarrow> step x s = Inr s' \<Longrightarrow> grows s s'"
begin

lemma run_grows: "inv s \<Longrightarrow> grows s (run_txns step s xs)"
proof (induction xs arbitrary: s)
  case Nil
  show ?case by (simp add: grows_refl)
next
  case (Cons x xs)
  show ?case
  proof (cases "step x s")
    case (Inl e)
    with Cons show ?thesis by simp
  next
    case (Inr s')
    with Cons have "grows s' (run_txns step s' xs)" by (blast intro: step_inv)
    with Inr Cons.prems show ?thesis by (auto intro: grows_trans step_grows)
  qed
qed

end

section \<open>Decimal numerals\<close>

text \<open>\<open>String(n)\<close> for a whole number that is not negative.\<close>

fun digit_char :: "nat \<Rightarrow> char" where
  "digit_char d = char_of (48 + d)"

fun string_of_nat :: "nat \<Rightarrow> string" where
  "string_of_nat n =
     (if n < 10 then [digit_char n] else string_of_nat (n div 10) @ [digit_char (n mod 10)])"

declare string_of_nat.simps [simp del]

definition string_of_int :: "int \<Rightarrow> string" where
  "string_of_int i = (if i < 0 then CHR ''-'' # string_of_nat (nat (- i)) else string_of_nat (nat i))"

definition is_digit :: "char \<Rightarrow> bool" where
  "is_digit c \<longleftrightarrow> 48 \<le> (of_char c :: nat) \<and> (of_char c :: nat) \<le> 57"

definition digit_val :: "char \<Rightarrow> nat" where
  "digit_val c = of_char c - 48"

text \<open>\<open>Number(text)\<close> and \<open>Number.parseInt(text, 10)\<close> on a run of digits.\<close>

definition nat_of_string :: "string \<Rightarrow> nat" where
  "nat_of_string s = foldl (\<lambda>n c. 10 * n + digit_val c) 0 s"

lemma of_char_digit_char [str_simps]: "d < 10 \<Longrightarrow> (of_char (digit_char d) :: nat) = 48 + d"
  by (simp add: of_char_of take_bit_eq_mod)

lemma is_digit_digit_char [str_simps]: "d < 10 \<Longrightarrow> is_digit (digit_char d)"
  unfolding is_digit_def using of_char_digit_char [of d] by simp

lemma digit_val_digit_char [str_simps]: "d < 10 \<Longrightarrow> digit_val (digit_char d) = d"
  unfolding digit_val_def using of_char_digit_char [of d] by simp

lemma string_of_nat_digits: "c \<in> set (string_of_nat n) \<Longrightarrow> is_digit c"
proof (induction n rule: string_of_nat.induct)
  case (1 n)
  then show ?case
    by (subst (asm) string_of_nat.simps)
       (auto simp: is_digit_digit_char simp del: digit_char.simps split: if_splits)
qed

lemma string_of_nat_not_Nil [simp]: "string_of_nat n \<noteq> []"
  by (subst string_of_nat.simps) simp

lemma nat_of_string_snoc: "nat_of_string (s @ [c]) = 10 * nat_of_string s + digit_val c"
  by (simp add: nat_of_string_def)

lemma nat_of_string_of_nat [str_simps]: "nat_of_string (string_of_nat n) = n"
proof (induction n rule: string_of_nat.induct)
  case (1 n)
  show ?case
  proof (cases "n < 10")
    case True
    then have "nat_of_string [digit_char n] = n"
      by (simp add: nat_of_string_def digit_val_digit_char del: digit_char.simps)
    with True show ?thesis by (subst string_of_nat.simps) simp
  next
    case False
    with "1.IH" show ?thesis
      by (subst string_of_nat.simps)
         (simp add: nat_of_string_snoc digit_val_digit_char del: digit_char.simps)
  qed
qed

lemma string_of_nat_inj: "string_of_nat m = string_of_nat n \<longleftrightarrow> m = n"
  by (metis nat_of_string_of_nat)

lemma string_of_nat_no_minus: "string_of_nat m \<noteq> CHR ''-'' # s"
proof
  assume "string_of_nat m = CHR ''-'' # s"
  then have "is_digit (CHR ''-'')" using string_of_nat_digits [of "CHR ''-''" m] by simp
  then show False by (simp add: is_digit_def)
qed

lemma string_of_int_inj: "string_of_int i = string_of_int j \<longleftrightarrow> i = j"
  using string_of_nat_no_minus string_of_nat_no_minus [symmetric]
  by (auto simp: string_of_int_def string_of_nat_inj)

lemma string_of_int_chars: "c \<in> set (string_of_int i) \<Longrightarrow> is_digit c \<or> c = CHR ''-''"
  by (auto simp: string_of_int_def dest: string_of_nat_digits split: if_splits)

section \<open>Strings\<close>

text \<open>
  Strings are lists of code units; a \<open>char\<close> is a code unit below 256. White space is what the
  runtime's \<open>trim\<close> and \<open>\s\<close> accept in that range: tab, line feed, vertical tab, form feed,
  carriage return, space and the no-break space.
\<close>

definition is_space :: "char \<Rightarrow> bool" where
  "is_space c \<longleftrightarrow> (of_char c :: nat) \<in> {9, 10, 11, 12, 13, 32, 160}"

definition trim_start :: "string \<Rightarrow> string" where
  "trim_start s = dropWhile is_space s"

definition trim :: "string \<Rightarrow> string" where
  "trim s = rev (dropWhile is_space (rev (dropWhile is_space s)))"

text \<open>\<open>btrim(s)\<close> of the database, which takes off spaces only.\<close>

definition btrim :: "string \<Rightarrow> string" where
  "btrim s = rev (dropWhile (\<lambda>c. c = CHR '' '') (rev (dropWhile (\<lambda>c. c = CHR '' '') s)))"

definition starts_with :: "string \<Rightarrow> string \<Rightarrow> bool" where
  "starts_with p s \<longleftrightarrow> take (length p) s = p"

definition ends_with :: "string \<Rightarrow> string \<Rightarrow> bool" where
  "ends_with p s \<longleftrightarrow> length p \<le> length s \<and> drop (length s - length p) s = p"

definition lower_char :: "char \<Rightarrow> char" where
  "lower_char c =
     (let n = (of_char c :: nat) in
      if (65 \<le> n \<and> n \<le> 90) \<or> (192 \<le> n \<and> n \<le> 222 \<and> n \<noteq> 215) then char_of (n + 32) else c)"

definition to_lower :: "string \<Rightarrow> string" where
  "to_lower s = map lower_char s"

text \<open>\<open>text.split(sep)\<close> for a separator of one character; \<open>parts.join(sep)\<close>.\<close>

fun split_on :: "char \<Rightarrow> string \<Rightarrow> string list" where
  "split_on sep [] = [[]]"
| "split_on sep (c # cs) =
     (if c = sep then [] # split_on sep cs
      else case split_on sep cs of [] \<Rightarrow> [[c]] | p # ps \<Rightarrow> (c # p) # ps)"

fun join_with :: "string \<Rightarrow> string list \<Rightarrow> string" where
  "join_with sep [] = []"
| "join_with sep [p] = p"
| "join_with sep (p # q # ps) = p @ sep @ join_with sep (q # ps)"

lemma split_on_not_Nil [simp]: "split_on sep s \<noteq> []"
  by (induction s) (auto split: list.splits)

lemma split_on_no_sep: "sep \<notin> set s \<Longrightarrow> split_on sep s = [s]"
  by (induction s) auto

lemma split_on_append:
  "sep \<notin> set p \<Longrightarrow> split_on sep (p @ sep # s) = p # split_on sep s"
  by (induction p) auto

lemma split_join:
  "ps \<noteq> [] \<Longrightarrow> \<forall>p \<in> set ps. sep \<notin> set p \<Longrightarrow> split_on sep (join_with [sep] ps) = ps"
proof (induction "[sep]" ps rule: join_with.induct)
  case (3 p q ps)
  then show ?case by (simp add: split_on_append)
qed (auto simp: split_on_no_sep)

lemma trim_no_edges:
  assumes "trim s = s" and "s \<noteq> []"
  shows "\<not> is_space (hd s) \<and> \<not> is_space (last s)"
proof -
  have hd: "dropWhile is_space s = [] \<or> \<not> is_space (hd (dropWhile is_space s))" for s
    by (metis hd_dropWhile)
  let ?u = "dropWhile is_space s"
  have len: "length (trim s) \<le> length ?u"
    by (simp add: trim_def) (metis length_dropWhile_le length_rev)
  then have "length ?u = length s"
    using assms(1) length_dropWhile_le [of is_space s] by simp
  then have u: "?u = s"
    by (metis dropWhile_eq_drop length_drop diff_diff_cancel drop0 length_takeWhile_le
        add_diff_cancel_right' takeWhile_dropWhile_id length_append append_eq_conv_conj
        append_self_conv2 length_0_conv add_cancel_left_left)
  then have "\<not> is_space (hd s)" using hd [of s] assms(2) by simp
  moreover have "dropWhile is_space (rev s) = rev s"
    using assms(1) u by (simp add: trim_def) (metis rev_rev_ident)
  then have "\<not> is_space (hd (rev s))" using hd [of "rev s"] assms(2) by auto
  then have "\<not> is_space (last s)" using assms(2) by (simp add: hd_rev)
  ultimately show ?thesis by simp
qed

section \<open>Optional columns\<close>

text \<open>\<open>v ?? d\<close>.\<close>

definition or_default :: "'a \<Rightarrow> 'a option \<Rightarrow> 'a" where
  "or_default d v = (case v of None \<Rightarrow> d | Some x \<Rightarrow> x)"

lemma map_filter_append [simp]: "List.map_filter f (xs @ ys) = List.map_filter f xs @ List.map_filter f ys"
  by (simp add: List.map_filter_def)

lemma map_filter_one [simp]: "List.map_filter f [x] = (case f x of None \<Rightarrow> [] | Some y \<Rightarrow> [y])"
  by (simp add: List.map_filter_def split: option.splits)

lemma map_filter_set: "set (List.map_filter f xs) = {y. \<exists>x \<in> set xs. f x = Some y}"
  by (force simp: List.map_filter_def)

end
