(* ===== verification/OrderRules.thy ===== *)
theory OrderRules
  imports Prelude
begin

text \<open>
  What may happen to an order and who may make it happen (\<open>packages/core/src/orders.ts\<close>): the
  statuses, the actors, the transition table with its lookups, and the decision \<open>transition\<close>.
\<close>

datatype OrderStatus =
    Created | Paid | Shipped | Delivered | Completed | Cancelled | Refunded | Disputed

datatype OrderActor = Buyer | Seller | Admin | Stripe | System

definition ORDER_REASON_MAX_LENGTH :: nat where
  "ORDER_REASON_MAX_LENGTH = 280"

definition AUTO_COMPLETE_AFTER_DAYS :: int where
  "AUTO_COMPLETE_AFTER_DAYS = 7"

definition ORDER_STATUSES :: "OrderStatus list" where
  "ORDER_STATUSES =
     [Created, Paid, Shipped, Delivered, Completed, Cancelled, Refunded, Disputed]"

text \<open>The table, row by row, in the order the source writes the columns.\<close>

fun TABLE :: "OrderStatus \<Rightarrow> (OrderStatus \<times> OrderActor list) list" where
  "TABLE Created =
     [(Paid, [Stripe]),
      (Cancelled, [Buyer, Seller, Admin, System])]"
| "TABLE Paid =
     [(Shipped, [Seller]),
      (Refunded, [Stripe]),
      (Disputed, [Buyer, Admin, Stripe]),
      (Cancelled, [Admin])]"
| "TABLE Shipped =
     [(Delivered, [System, Admin]),
      (Refunded, [Stripe]),
      (Disputed, [Buyer, Admin, Stripe])]"
| "TABLE Delivered =
     [(Completed, [System, Admin]),
      (Refunded, [Stripe]),
      (Disputed, [Buyer, Admin, Stripe])]"
| "TABLE Completed =
     [(Disputed, [Buyer, Admin, Stripe]),
      (Refunded, [Stripe])]"
| "TABLE Disputed =
     [(Refunded, [Stripe]),
      (Completed, [Admin])]"
| "TABLE Cancelled = []"
| "TABLE Refunded = []"

text \<open>\<open>MOVES.get(from)?.get(to)\<close>.\<close>

definition moves :: "OrderStatus \<Rightarrow> OrderStatus \<Rightarrow> OrderActor list option" where
  "moves frm dst = map_of (TABLE frm) dst"

definition isTerminal :: "OrderStatus \<Rightarrow> bool" where
  "isTerminal status \<longleftrightarrow> length (TABLE status) = 0"

definition nextStates :: "OrderStatus \<Rightarrow> OrderStatus list" where
  "nextStates status = map fst (TABLE status)"

definition canTransition :: "OrderStatus \<Rightarrow> OrderStatus \<Rightarrow> OrderActor \<Rightarrow> bool" where
  "canTransition frm dst actor =
     (case moves frm dst of None \<Rightarrow> False | Some actors \<Rightarrow> actor \<in> set actors)"

definition actorsFor :: "OrderStatus \<Rightarrow> OrderStatus \<Rightarrow> OrderActor list" where
  "actorsFor frm dst = (case moves frm dst of None \<Rightarrow> [] | Some actors \<Rightarrow> actors)"

datatype illegal_reason = NotATransition | NotThisActor

datatype illegal_transition =
  IllegalTransitionError OrderStatus OrderStatus OrderActor illegal_reason

definition transition ::
  "OrderStatus \<Rightarrow> OrderStatus \<Rightarrow> OrderActor \<Rightarrow> illegal_transition + OrderStatus" where
  "transition frm dst actor =
     (case moves frm dst of
        None \<Rightarrow> Inl (IllegalTransitionError frm dst actor NotATransition)
      | Some allowed \<Rightarrow>
          if actor \<notin> set allowed
          then Inl (IllegalTransitionError frm dst actor NotThisActor)
          else Inr dst)"

definition moneyHasMoved :: "OrderStatus \<Rightarrow> bool" where
  "moneyHasMoved status \<longleftrightarrow> status \<noteq> Created \<and> status \<noteq> Cancelled"

subsection \<open>Lemmas\<close>

lemma transition_Inr_iff: "transition frm dst actor = Inr s \<longleftrightarrow> s = dst \<and> canTransition frm dst actor"
  by (auto simp: transition_def canTransition_def split: option.splits)

lemma canTransition_table [simp]:
  "canTransition frm Created actor = False"
  "canTransition frm Paid actor \<longleftrightarrow> frm = Created \<and> actor = Stripe"
  "canTransition frm Shipped actor \<longleftrightarrow> frm = Paid \<and> actor = Seller"
  "canTransition frm Delivered actor \<longleftrightarrow> frm = Shipped \<and> actor \<in> {System, Admin}"
  "canTransition frm Completed actor \<longleftrightarrow>
     frm = Delivered \<and> actor \<in> {System, Admin} \<or> frm = Disputed \<and> actor = Admin"
  "canTransition frm Cancelled actor \<longleftrightarrow>
     frm = Created \<and> actor \<noteq> Stripe \<or> frm = Paid \<and> actor = Admin"
  "canTransition frm Refunded actor \<longleftrightarrow>
     frm \<in> {Paid, Shipped, Delivered, Completed, Disputed} \<and> actor = Stripe"
  "canTransition frm Disputed actor \<longleftrightarrow>
     frm \<in> {Paid, Shipped, Delivered, Completed} \<and> actor \<in> {Buyer, Admin, Stripe}"
  by (cases frm; cases actor; simp add: canTransition_def moves_def)+

lemma canTransition_no_self: "\<not> canTransition s s actor"
  by (cases s) auto

lemma isTerminal_iff: "isTerminal s \<longleftrightarrow> s = Cancelled \<or> s = Refunded"
  by (cases s) (simp_all add: isTerminal_def)

lemma canTransition_from_terminal: "isTerminal frm \<Longrightarrow> \<not> canTransition frm dst actor"
  by (cases dst) (auto simp: isTerminal_iff)

lemma canTransition_nextStates:
  "dst \<in> set (nextStates frm) \<longleftrightarrow> (\<exists>actor. canTransition frm dst actor)"
  by (cases frm; cases dst) (auto simp: nextStates_def)

end
