(* ===== verification/JsNumber.thy ===== *)
theory JsNumber
  imports Prelude "HOL-Library.Log_Nat"
begin

text \<open>
  The language's only number type. A \<open>number\<close> that is not NaN or an infinity is a rational here,
  and every arithmetic operation rounds its exact result to 53 bits, ties to even, as IEEE 754
  doubles do. Magnitudes outside the double range (overflow to infinity, subnormals) and the sign
  of zero are not modelled: the money and counts of this program stay far inside it.

  What the program's arithmetic needs of the rounding is the interface \<open>double_rounding\<close>: it is
  monotone, and exact on 53-bit significands. \<open>dbl\<close> is the model's own rounding and provides it.
\<close>

datatype jsnum = Num rat | NaN | PosInf | NegInf

text \<open>\<open>Number.isInteger\<close>, and the comparisons, which are false on NaN.\<close>

fun is_integer :: "jsnum \<Rightarrow> bool" where
  "is_integer (Num q) = (snd (quotient_of q) = 1)"
| "is_integer _ = False"

fun js_less :: "jsnum \<Rightarrow> jsnum \<Rightarrow> bool" where
  "js_less (Num x) (Num y) = (x < y)"
| "js_less NaN _ = False"
| "js_less _ NaN = False"
| "js_less PosInf _ = False"
| "js_less _ NegInf = False"
| "js_less _ _ = True"

fun js_le :: "jsnum \<Rightarrow> jsnum \<Rightarrow> bool" where
  "js_le (Num x) (Num y) = (x \<le> y)"
| "js_le NaN _ = False"
| "js_le _ NaN = False"
| "js_le NegInf _ = True"
| "js_le _ PosInf = True"
| "js_le _ _ = False"

text \<open>The whole number a value that passed \<open>Number.isInteger\<close> stands for.\<close>

fun to_int :: "jsnum \<Rightarrow> int" where
  "to_int (Num q) = \<lfloor>q\<rfloor>"
| "to_int _ = 0"

definition int_num :: "int \<Rightarrow> jsnum" where
  "int_num i = Num (of_int i)"

lemma is_integer_int_num [simp]: "is_integer (int_num i)"
proof -
  have "quotient_of (Rat.of_int i) = (i, 1)" by (rule quotient_of_int)
  then show ?thesis by (simp add: int_num_def Rat.of_int_def)
qed

lemma to_int_int_num [simp]: "to_int (int_num i) = i"
  by (simp add: int_num_def)

lemma is_integer_iff: "is_integer x \<longleftrightarrow> (\<exists>i. x = int_num i)"
proof
  assume "is_integer x"
  then obtain q where x: "x = Num q" and q: "snd (quotient_of q) = 1"
    by (cases x) auto
  obtain n d where nd: "quotient_of q = (n, d)" by (cases "quotient_of q")
  with q have "q = of_int n" using quotient_of_div [OF nd] by simp
  then show "\<exists>i. x = int_num i" using x by (auto simp: int_num_def)
qed auto

lemma int_num_less [simp]: "js_less (int_num i) (int_num j) \<longleftrightarrow> i < j"
  by (simp add: int_num_def)

lemma int_num_le [simp]: "js_le (int_num i) (int_num j) \<longleftrightarrow> i \<le> j"
  by (simp add: int_num_def)

lemma int_num_inject [simp]: "int_num i = int_num j \<longleftrightarrow> i = j"
  by (simp add: int_num_def)

text \<open>\<open>Math.round\<close>: the nearest whole number, ties towards plus infinity.\<close>

definition math_round :: "rat \<Rightarrow> int" where
  "math_round x = \<lfloor>x + 1 / 2\<rfloor>"

section \<open>What the program relies on\<close>

locale double_rounding =
  fixes rnd :: "rat \<Rightarrow> rat"
  assumes rnd_mono: "x \<le> y \<Longrightarrow> rnd x \<le> rnd y"
    and rnd_exact: "\<bar>m\<bar> \<le> 2 ^ 53 \<Longrightarrow> rnd (of_int m / 2 ^ k) = of_int m / 2 ^ k"
begin

lemma rnd_int: "\<bar>m\<bar> \<le> 2 ^ 53 \<Longrightarrow> rnd (of_int m) = of_int m"
  using rnd_exact [of m 0] by simp

lemma rnd_zero: "rnd 0 = 0"
  using rnd_int [of 0] by simp

lemma rnd_nonneg: "0 \<le> x \<Longrightarrow> 0 \<le> rnd x"
  using rnd_mono [of 0 x] by (simp add: rnd_zero)

text \<open>
  Rounding a quotient by a denominator below \<open>2 ^ 14\<close> never moves it past a half: between the
  quotient and the next half lies a double.
\<close>

lemma math_round_rnd:
  fixes n d :: int
  assumes n: "0 \<le> n" and d: "0 < d" "d < 2 ^ 14" and q: "n < 2 ^ 37 * d"
  shows "math_round (rnd (of_int n / of_int d)) = math_round (of_int n / of_int d)"
proof -
  let ?q = "of_int n / of_int d :: rat"
  define k where "k = math_round ?q"
  have q0: "0 \<le> ?q" using n d by simp
  have k0: "0 \<le> k" unfolding k_def math_round_def using q0 by simp
  have q37: "?q < 2 ^ 37" using q d by (simp add: pos_divide_less_eq flip: of_int_less_iff)
  have lo: "of_int k - 1 / 2 \<le> ?q" and hi: "?q < of_int k + 1 / 2"
    unfolding k_def math_round_def by linarith+
  have "of_int k < (2 ^ 37 + 1 :: rat)" using lo q37 by linarith
  then have kb: "k < 2 ^ 37 + 1" by (simp flip: of_int_less_iff)
  have "rnd (of_int (2 * k - 1) / 2 ^ 1) = of_int (2 * k - 1) / 2 ^ 1"
    by (rule rnd_exact) (use k0 kb in auto)
  then have low: "of_int k - 1 / 2 \<le> rnd ?q"
    using rnd_mono [OF lo] by (simp add: field_simps)
  have "2 * of_int n < of_int d * (2 * of_int k + 1 :: rat)"
    using hi d by (simp add: field_simps)
  then have "2 * n < d * (2 * k + 1)"
    by (metis (mono_tags, lifting) of_int_1 of_int_add of_int_less_iff of_int_mult of_int_numeral)
  then have "2 * n + 1 \<le> d * (2 * k + 1)" by simp
  then have "2 * of_int n + 1 \<le> (of_int d * (2 * of_int k + 1) :: rat)"
    by (metis (mono_tags, lifting) of_int_1 of_int_add of_int_le_iff of_int_mult of_int_numeral)
  then have "?q + 1 / (2 * of_int d) \<le> of_int k + 1 / 2"
    using d by (simp add: field_simps)
  moreover have "1 / 2 ^ 15 \<le> (1 / (2 * of_int d) :: rat)"
  proof -
    have "(of_int d :: rat) \<le> 2 ^ 14" using d(2) by (simp flip: of_int_le_iff)
    then show ?thesis using d(1) by (simp add: field_simps)
  qed
  ultimately have "?q + 1 / 2 ^ 15 \<le> of_int k + 1 / 2" by linarith
  moreover have "of_int (2 ^ 15 * k + 2 ^ 14 - 1) / 2 ^ 15 = (of_int k + 1 / 2 - 1 / 2 ^ 15 :: rat)"
    by (simp add: field_simps)
  ultimately have up: "?q \<le> of_int (2 ^ 15 * k + 2 ^ 14 - 1) / 2 ^ 15" by linarith
  have "rnd (of_int (2 ^ 15 * k + 2 ^ 14 - 1) / 2 ^ 15) = of_int (2 ^ 15 * k + 2 ^ 14 - 1) / 2 ^ 15"
    by (rule rnd_exact) (use k0 kb in auto)
  with rnd_mono [OF up] have "rnd ?q \<le> of_int (2 ^ 15 * k + 2 ^ 14 - 1) / 2 ^ 15" by simp
  also have "\<dots> < of_int k + 1 / 2" by (simp add: field_simps)
  finally have high: "rnd ?q < of_int k + 1 / 2" .
  have "math_round (rnd ?q) = k"
    unfolding math_round_def using low high by linarith
  then show ?thesis by (simp add: k_def)
qed

text \<open>
  The same argument for the floor: below the next integer lies a double that the quotient does not
  pass, as long as numerator and denominator together leave room in 53 bits.
\<close>

lemma power_of_two_above: "0 < (d :: int) \<Longrightarrow> \<exists>k. d \<le> 2 ^ k \<and> 2 ^ k < 2 * d"
proof (induction "nat d" arbitrary: d rule: less_induct)
  case less
  show ?case
  proof (cases "d = 1")
    case True
    then show ?thesis by (intro exI [of _ 0]) simp
  next
    case False
    define h where "h = (d + 1) div 2"
    have "0 < h" "nat h < nat d" using less.prems False by (auto simp: h_def)
    then obtain k where k: "h \<le> 2 ^ k" "2 ^ k < 2 * h" using less.hyps by blast
    have "d \<le> 2 * h" "2 * h \<le> d + 1" by (auto simp: h_def)
    with k have up: "d \<le> 2 ^ Suc k" and "2 ^ k \<le> d" by auto
    show ?thesis
    proof (cases "2 ^ k = d")
      case True
      then show ?thesis using less.prems by (intro exI [of _ k]) auto
    next
      case False
      with \<open>2 ^ k \<le> d\<close> up show ?thesis by (intro exI [of _ "Suc k"]) auto
    qed
  qed
qed

lemma floor_rnd:
  fixes n d :: int
  assumes n: "0 \<le> n" and d: "0 < d" and room: "2 * (n + d) \<le> 2 ^ 53"
  shows "\<lfloor>rnd (of_int n / of_int d)\<rfloor> = n div d"
proof -
  let ?q = "of_int n / of_int d :: rat" and ?f = "n div d"
  obtain k where k: "d \<le> 2 ^ k" "2 ^ k < 2 * d" using power_of_two_above [OF d] by blast
  have f0: "0 \<le> ?f" using n d by (simp add: pos_imp_zdiv_nonneg_iff)
  have fd: "?f * d \<le> n" "n + 1 \<le> (?f + 1) * d"
    using div_mult_mod_eq [of n d] pos_mod_sign [OF d, of n] pos_mod_bound [OF d, of n]
    unfolding distrib_right by linarith+
  have "?f * 1 \<le> ?f * d" by (rule mult_left_mono) (use d f0 in auto)
  with fd have fn: "?f \<le> n" by simp
  have lo: "of_int ?f \<le> ?q"
    using fd(1) d by (simp add: field_simps flip: of_int_mult of_int_le_iff)
  have "rnd (of_int ?f) = of_int ?f"
    by (rule rnd_int) (use f0 fn room d in auto)
  with rnd_mono [OF lo] have low: "of_int ?f \<le> rnd ?q" by simp
  let ?m = "(?f + 1) * 2 ^ k - 1"
  have "?q \<le> of_int (?f + 1) - 1 / of_int d"
  proof -
    have "of_int (n + 1) \<le> (of_int ((?f + 1) * d) :: rat)" using fd(2) by (simp only: of_int_le_iff)
    then show ?thesis using d by (simp add: field_simps)
  qed
  also have "\<dots> \<le> of_int (?f + 1) - 1 / 2 ^ k"
  proof -
    have "(of_int d :: rat) \<le> of_int (2 ^ k)" using k(1) by (simp only: of_int_le_iff)
    then show ?thesis using d by (simp add: field_simps)
  qed
  also have "\<dots> = of_int ?m / 2 ^ k" by (simp add: field_simps)
  finally have up: "?q \<le> of_int ?m / 2 ^ k" .
  have "(?f + 1) * 2 ^ k \<le> (?f + 1) * (2 * d)"
    by (rule mult_left_mono) (use k(2) f0 in auto)
  then have "?m \<le> (?f + 1) * (2 * d)" by linarith
  also have "\<dots> \<le> 2 * (n + d)" using fd(1) by (simp add: algebra_simps)
  finally have "?m \<le> 2 ^ 53" using room by simp
  moreover have "0 \<le> ?m" using f0 by (simp add: mult_pos_pos)
  ultimately have "rnd (of_int ?m / 2 ^ k) = of_int ?m / 2 ^ k" by (intro rnd_exact) simp
  with rnd_mono [OF up] have "rnd ?q \<le> of_int ?m / 2 ^ k" by simp
  also have "\<dots> < of_int (?f + 1)" by (simp add: field_simps)
  finally show ?thesis using low by (simp add: floor_eq_iff)
qed

text \<open>The same for a quotient rounded half up, with room for the half.\<close>

lemma half_up_rnd:
  fixes n d :: int
  assumes n: "0 \<le> n" and d: "0 < d" and room: "4 * (n + d) \<le> 2 ^ 53"
  shows "math_round (rnd (of_int n / of_int d)) = (2 * n + d) div (2 * d)"
proof -
  let ?q = "of_int n / of_int d :: rat" and ?f = "(2 * n + d) div (2 * d)"
  obtain k where k: "d \<le> 2 ^ k" "2 ^ k < 2 * d" using power_of_two_above [OF d] by blast
  have d2: "0 < 2 * d" using d by simp
  have f0: "0 \<le> ?f" using n d by (simp add: pos_imp_zdiv_nonneg_iff)
  have fd: "?f * (2 * d) \<le> 2 * n + d" "2 * n + d + 1 \<le> (?f + 1) * (2 * d)"
    using div_mult_mod_eq [of "2 * n + d" "2 * d"] pos_mod_sign [OF d2, of "2 * n + d"]
      pos_mod_bound [OF d2, of "2 * n + d"]
    unfolding distrib_right by linarith+
  have "?f * 1 \<le> ?f * (2 * d)" by (rule mult_left_mono) (use d f0 in auto)
  with fd have fn: "?f \<le> 2 * n + d" by simp
  have "(2 * ?f - 1) * d \<le> 2 * n" using fd(1) by (simp add: algebra_simps)
  then have "of_int ((2 * ?f - 1) * d) \<le> (of_int (2 * n) :: rat)" by (simp only: of_int_le_iff)
  then have lo: "of_int (2 * ?f - 1) / 2 ^ 1 \<le> ?q" using d by (simp add: field_simps)
  have "\<bar>2 * g - 1\<bar> \<le> 2 ^ 53" if "0 \<le> g" "g \<le> 2 * n + d" for g
    using that room d n by (simp add: abs_le_iff)
  then have "rnd (of_int (2 * ?f - 1) / 2 ^ 1) = of_int (2 * ?f - 1) / 2 ^ 1"
    using f0 fn by (intro rnd_exact) blast
  with rnd_mono [OF lo] have low: "of_int (2 * ?f - 1) / 2 \<le> rnd ?q" by simp
  let ?m = "(2 * ?f + 1) * 2 ^ k - 1"
  have "2 * n + 1 \<le> (2 * ?f + 1) * d" using fd(2) by (simp add: algebra_simps)
  then have "of_int (2 * n + 1) \<le> (of_int ((2 * ?f + 1) * d) :: rat)" by (simp only: of_int_le_iff)
  then have "?q \<le> of_int (2 * ?f + 1) / 2 - 1 / (2 * of_int d)" using d by (simp add: field_simps)
  also have "\<dots> \<le> of_int (2 * ?f + 1) / 2 - 1 / 2 ^ (k + 1)"
  proof -
    have "(of_int d :: rat) \<le> of_int (2 ^ k)" using k(1) by (simp only: of_int_le_iff)
    then show ?thesis using d by (simp add: field_simps)
  qed
  also have "\<dots> = of_int ?m / 2 ^ (k + 1)" by (simp add: field_simps)
  finally have up: "?q \<le> of_int ?m / 2 ^ (k + 1)" .
  have "(2 * ?f + 1) * 2 ^ k \<le> (2 * ?f + 1) * (2 * d)"
    by (rule mult_left_mono) (use k(2) f0 in auto)
  also have "\<dots> \<le> 4 * (n + d)" using fd(1) by (simp add: algebra_simps)
  finally have "?m \<le> 2 ^ 53" using room by linarith
  moreover have "0 \<le> ?m" using f0 by (simp add: mult_pos_pos)
  ultimately have "rnd (of_int ?m / 2 ^ (k + 1)) = of_int ?m / 2 ^ (k + 1)" by (intro rnd_exact) simp
  with rnd_mono [OF up] have "rnd ?q \<le> of_int ?m / 2 ^ (k + 1)" by simp
  also have "\<dots> < of_int (2 * ?f + 1) / 2" by (simp add: field_simps)
  finally show ?thesis using low by (simp add: math_round_def floor_eq_iff field_simps)
qed

lemma math_round_rnd_nonneg: "0 \<le> x \<Longrightarrow> 0 \<le> math_round (rnd x)"
  using rnd_nonneg [of x] by (simp add: math_round_def)

end

section \<open>Rounding to 53 bits\<close>

definition round_even :: "rat \<Rightarrow> int" where
  "round_even x =
     (let f = \<lfloor>x\<rfloor>; r = x - of_int f in
      if r < 1 / 2 then f else if 1 / 2 < r then f + 1 else if even f then f else f + 1)"

text \<open>The binary exponent of a positive number: \<open>2 ^ e \<le> x < 2 ^ (e + 1)\<close>.\<close>

definition bin_exp :: "rat \<Rightarrow> int" where
  "bin_exp x =
     (case quotient_of x of (n, d) \<Rightarrow>
        let k = bitlen n - bitlen d in if 2 powi k \<le> x then k else k - 1)"

definition dbl_pos :: "rat \<Rightarrow> rat" where
  "dbl_pos x = (let e = bin_exp x - 52 in of_int (round_even (x * 2 powi (- e))) * 2 powi e)"

definition dbl :: "rat \<Rightarrow> rat" where
  "dbl x = (if x = 0 then 0 else if 0 < x then dbl_pos x else - dbl_pos (- x))"

lemma round_even_mono: "x \<le> y \<Longrightarrow> round_even x \<le> round_even y"
proof -
  assume xy: "x \<le> y"
  then have f: "\<lfloor>x\<rfloor> \<le> \<lfloor>y\<rfloor>" by (rule floor_mono)
  have up: "round_even x \<le> \<lfloor>x\<rfloor> + 1" and low: "\<lfloor>y\<rfloor> \<le> round_even y"
    by (auto simp: round_even_def Let_def)
  show ?thesis
  proof (cases "\<lfloor>x\<rfloor> = \<lfloor>y\<rfloor>")
    case True
    with xy show ?thesis by (auto simp: round_even_def Let_def)
  next
    case False
    with f up low show ?thesis by linarith
  qed
qed

lemma round_even_int [simp]: "round_even (of_int i) = i"
  by (simp add: round_even_def)

lemma powi_le_of_int: "2 ^ nat k \<le> n \<Longrightarrow> 0 \<le> k \<Longrightarrow> 2 powi k \<le> (of_int n :: rat)"
  by (simp add: power_int_def)

lemma of_int_less_powi: "n < 2 ^ nat k \<Longrightarrow> 0 \<le> k \<Longrightarrow> (of_int n :: rat) < 2 powi k"
  by (simp add: power_int_def)

lemma bin_exp_bounds:
  assumes x: "0 < x"
  shows "2 powi bin_exp x \<le> x" and "x < 2 powi (bin_exp x + 1)"
proof -
  obtain n d where nd: "quotient_of x = (n, d)" by (cases "quotient_of x")
  have d: "0 < d" using quotient_of_denom_pos [OF nd] .
  have xnd: "x = of_int n / of_int d" using quotient_of_div [OF nd] .
  with x d have n: "0 < n" by (simp add: zero_less_divide_iff)
  define a b where "a = bitlen n" and "b = bitlen d"
  have a1: "0 < a" and b1: "0 < b"
    using n d bitlen_nonneg [of n] bitlen_nonneg [of d] bitlen_eq_zero_iff [of n]
      bitlen_eq_zero_iff [of d] unfolding a_def b_def by linarith+
  have ni: "2 ^ nat (a - 1) \<le> n \<and> n < 2 ^ nat a"
    using bitlen_bounds [OF n] by (simp add: a_def)
  have di: "2 ^ nat (b - 1) \<le> d \<and> d < 2 ^ nat b"
    using bitlen_bounds [OF d] by (simp add: b_def)
  have nr: "2 powi (a - 1) \<le> (of_int n :: rat)" "(of_int n :: rat) < 2 powi a"
    using ni a1 by (auto intro: powi_le_of_int of_int_less_powi)
  have dr: "2 powi (b - 1) \<le> (of_int d :: rat)" "(of_int d :: rat) < 2 powi b"
    using di b1 by (auto intro: powi_le_of_int of_int_less_powi)
  have dpos: "(0 :: rat) < of_int d" using d by simp
  have "x \<ge> 2 powi (a - 1) / 2 powi b"
    unfolding xnd using nr(1) dr(2) dpos n by (intro frac_le) auto
  also have "2 powi (a - 1) / 2 powi b = (2 powi (a - b - 1) :: rat)"
    by (simp add: power_int_diff)
  finally have low: "2 powi (a - b - 1) \<le> x" .
  have "x < 2 powi a / 2 powi (b - 1)"
    unfolding xnd using nr dr(1) dpos n by (intro frac_less) auto
  also have "2 powi a / 2 powi (b - 1) = (2 powi (a - b + 1) :: rat)"
    by (simp add: power_int_diff power_int_add)
  finally have high: "x < 2 powi (a - b + 1)" .
  have be: "bin_exp x = (if 2 powi (a - b) \<le> x then a - b else a - b - 1)"
    by (simp add: bin_exp_def nd Let_def a_def b_def)
  show "2 powi bin_exp x \<le> x" using low by (simp add: be)
  show "x < 2 powi (bin_exp x + 1)" using high by (simp add: be)
qed

lemma bin_exp_mono: "0 < x \<Longrightarrow> x \<le> y \<Longrightarrow> bin_exp x \<le> bin_exp y"
proof (rule ccontr)
  assume x: "0 < x" and xy: "x \<le> y" and "\<not> bin_exp x \<le> bin_exp y"
  then have "bin_exp y + 1 \<le> bin_exp x" by simp
  then have "(2 :: rat) powi (bin_exp y + 1) \<le> 2 powi bin_exp x"
    by (intro power_int_increasing) auto
  also have "\<dots> \<le> x" by (rule bin_exp_bounds(1) [OF x])
  also have "\<dots> \<le> y" by (rule xy)
  also have "y < 2 powi (bin_exp y + 1)" using x xy by (intro bin_exp_bounds(2)) simp
  finally show False by simp
qed

lemma dbl_pos_bounds:
  assumes x: "0 < x"
  shows "2 powi bin_exp x \<le> dbl_pos x" and "dbl_pos x \<le> 2 powi (bin_exp x + 1)"
proof -
  define e where "e = bin_exp x - 52"
  have pe: "(0 :: rat) < 2 powi e" by simp
  have be: "bin_exp x = e + 52" by (simp add: e_def)
  have s: "x * 2 powi (- e) = x / 2 powi e" by (simp add: power_int_minus field_simps)
  have "(2 ^ 52 :: rat) \<le> x / 2 powi e"
    using bin_exp_bounds(1) [OF x] unfolding be by (simp add: power_int_add field_simps)
  then have "round_even (of_int (2 ^ 52)) \<le> round_even (x / 2 powi e)"
    by (intro round_even_mono) simp
  then have l: "2 ^ 52 \<le> round_even (x / 2 powi e)" by (simp only: round_even_int)
  have "x / 2 powi e \<le> (2 ^ 53 :: rat)"
    using bin_exp_bounds(2) [OF x] unfolding be by (simp add: power_int_add field_simps)
  then have "round_even (x / 2 powi e) \<le> round_even (of_int (2 ^ 53))"
    by (intro round_even_mono) simp
  then have u: "round_even (x / 2 powi e) \<le> 2 ^ 53" by (simp only: round_even_int)
  have dp: "dbl_pos x = of_int (round_even (x / 2 powi e)) * 2 powi e"
    by (simp add: dbl_pos_def Let_def s flip: e_def)
  have "(2 ^ 52 :: rat) \<le> of_int (round_even (x / 2 powi e))"
    using l by (metis of_int_le_iff of_int_numeral of_int_power)
  then show "2 powi bin_exp x \<le> dbl_pos x"
    unfolding dp be using pe by (simp add: power_int_add mult.commute)
  have "of_int (round_even (x / 2 powi e)) \<le> (2 ^ 53 :: rat)"
    using u by (metis of_int_le_iff of_int_numeral of_int_power)
  then show "dbl_pos x \<le> 2 powi (bin_exp x + 1)"
    unfolding dp be using pe by (simp add: power_int_add mult.commute)
qed

lemma dbl_pos_mono:
  assumes x: "0 < x" and xy: "x \<le> y"
  shows "dbl_pos x \<le> dbl_pos y"
proof (cases "bin_exp x = bin_exp y")
  case True
  have "round_even (x * 2 powi (- (bin_exp y - 52))) \<le> round_even (y * 2 powi (- (bin_exp y - 52)))"
    using xy by (intro round_even_mono mult_right_mono) auto
  then show ?thesis
    by (simp add: dbl_pos_def Let_def True mult_right_mono)
next
  case False
  with bin_exp_mono [OF x xy] have "bin_exp x + 1 \<le> bin_exp y" by simp
  then have "(2 :: rat) powi (bin_exp x + 1) \<le> 2 powi bin_exp y"
    by (intro power_int_increasing) auto
  with dbl_pos_bounds(2) [OF x] dbl_pos_bounds(1) [of y] x xy show ?thesis by linarith
qed

lemma dbl_pos_pos: "0 < x \<Longrightarrow> 0 < dbl_pos x"
  using dbl_pos_bounds(1) [of x] by (metis zero_less_numeral zero_less_power_int order_less_le_trans)

lemma dbl_mono:
  assumes "x \<le> y"
  shows "dbl x \<le> dbl y"
proof -
  consider "0 < x" | "y < 0" | "x \<le> 0" "0 \<le> y" by linarith
  then show ?thesis
  proof cases
    case 1
    with assms show ?thesis by (simp add: dbl_def dbl_pos_mono)
  next
    case 2
    with assms show ?thesis by (simp add: dbl_def dbl_pos_mono)
  next
    case 3
    then have "dbl x \<le> 0" and "0 \<le> dbl y"
      using dbl_pos_pos [of "- x"] dbl_pos_pos [of y] by (auto simp: dbl_def)
    then show ?thesis by linarith
  qed
qed

lemma dbl_pos_exact:
  fixes m :: int
  assumes m: "0 < m" "m \<le> 2 ^ 53"
  shows "dbl_pos (of_int m / 2 ^ k) = of_int m / 2 ^ k"
proof -
  define x :: rat where "x = of_int m / 2 ^ k"
  have x: "0 < x" using m by (simp add: x_def)
  define e where "e = bin_exp x - 52"
  have xk: "x = of_int m * 2 powi (- int k)" by (simp add: x_def power_int_minus field_simps)
  have "x \<le> 2 powi (53 - int k)"
    using m unfolding xk by (simp add: power_int_diff power_int_minus field_simps flip: of_int_le_iff)
  with bin_exp_bounds(1) [OF x] have "2 powi bin_exp x \<le> (2 powi (53 - int k) :: rat)" by linarith
  then have be: "bin_exp x \<le> 53 - int k" 
    using power_int_strict_increasing [of "53 - int k" "bin_exp x" "2 :: rat"]
    by (cases "bin_exp x \<le> 53 - int k") auto
  have "\<exists>i. x * 2 powi (- e) = of_int i"
  proof (cases "bin_exp x = 53 - int k")
    case True
    then have "2 powi (53 - int k) \<le> x" using bin_exp_bounds(1) [OF x] by simp
    with \<open>x \<le> 2 powi (53 - int k)\<close> have "x = 2 powi (53 - int k)" by simp
    moreover have "- e = int k - 1" using True by (simp add: e_def)
    ultimately have "x * 2 powi (- e) = 2 powi ((53 - int k) + (int k - 1))"
      using power_int_add [of "2 :: rat" "53 - int k" "int k - 1"] by simp
    also have "\<dots> = of_int (2 ^ 52)" by (simp add: power_int_def)
    finally show ?thesis by blast
  next
    case False
    with be have ge: "0 \<le> - int k - e" by (simp add: e_def)
    have "x * 2 powi (- e) = of_int m * 2 powi (- int k + - e)"
      unfolding xk mult.assoc by (subst power_int_add) auto
    also have "\<dots> = of_int (m * 2 ^ nat (- int k - e))"
      using ge by (simp add: power_int_def)
    finally show ?thesis by blast
  qed
  then obtain i where i: "x * 2 powi (- e) = of_int i" by blast
  have "dbl_pos x = of_int i * 2 powi e"
    unfolding dbl_pos_def Let_def using i by (simp flip: e_def)
  also have "\<dots> = x * (2 powi (- e) * 2 powi e)" using i by (simp add: mult.assoc)
  also have "\<dots> = x" by (simp flip: power_int_add)
  finally show ?thesis by (simp add: x_def)
qed

lemma dbl_exact:
  assumes "\<bar>m\<bar> \<le> 2 ^ 53"
  shows "dbl (of_int m / 2 ^ k) = of_int m / 2 ^ k"
proof -
  consider "m = 0" | "0 < m" | "m < 0" by linarith
  then show ?thesis
  proof cases
    case 1
    then show ?thesis by (simp add: dbl_def)
  next
    case 2
    with assms show ?thesis by (simp add: dbl_def dbl_pos_exact)
  next
    case 3
    with assms dbl_pos_exact [of "- m" k] show ?thesis
      by (simp add: dbl_def divide_less_0_iff zero_less_divide_iff)
  qed
qed

interpretation js: double_rounding dbl
  by unfold_locales (rule dbl_mono dbl_exact; assumption)+

end
