(* ===== verification/MarketRules.thy ===== *)
theory MarketRules
  imports JsNumber
begin

text \<open>
  The marketplace's pure rules: payout holds (\<open>packages/core/src/payouts.ts\<close>), velocity limits
  (\<open>packages/core/src/fraud.ts\<close>) and what a listing must satisfy (\<open>packages/core/src/market.ts\<close>).
  Instants and durations are milliseconds.
\<close>

definition DAY_MS :: int where
  "DAY_MS = 24 * 60 * 60 * 1000"

definition HOUR_MS :: int where
  "HOUR_MS = 60 * 60 * 1000"

section \<open>Payout holds\<close>

definition HOLD_RELEASE_AFTER_ORDERS :: int where
  "HOLD_RELEASE_AFTER_ORDERS = 3"

definition HOLD_RELEASE_AFTER_DAYS :: int where
  "HOLD_RELEASE_AFTER_DAYS = 7"

record HoldStatus =
  completedOrders :: int
  firstCompletedAt :: "int option"

datatype hold_reason = NoCompletedOrders | TooFewOrders | TooSoon

datatype HoldDecision = Release | Hold hold_reason

definition canReleaseHold :: "HoldStatus \<Rightarrow> int \<Rightarrow> HoldDecision" where
  "canReleaseHold status now =
     (case firstCompletedAt status of
        None \<Rightarrow> Hold NoCompletedOrders
      | Some first \<Rightarrow>
          if completedOrders status = 0 then Hold NoCompletedOrders
          else if completedOrders status < HOLD_RELEASE_AFTER_ORDERS then Hold TooFewOrders
          else if now - first < HOLD_RELEASE_AFTER_DAYS * DAY_MS then Hold TooSoon
          else Release)"

definition holdReviewableAt :: "HoldStatus \<Rightarrow> int option" where
  "holdReviewableAt status =
     (case firstCompletedAt status of
        None \<Rightarrow> None
      | Some first \<Rightarrow>
          if completedOrders status < HOLD_RELEASE_AFTER_ORDERS then None
          else Some (first + HOLD_RELEASE_AFTER_DAYS * DAY_MS))"

lemma canReleaseHold_iff:
  "canReleaseHold status now = Release \<longleftrightarrow>
     (\<exists>t. holdReviewableAt status = Some t \<and> t \<le> now)"
  by (auto simp: canReleaseHold_def holdReviewableAt_def HOLD_RELEASE_AFTER_ORDERS_def
      split: option.splits)

section \<open>Velocity and new-account limits\<close>

definition NEW_ACCOUNT_HOURS :: int where
  "NEW_ACCOUNT_HOURS = 24"

definition NEW_ACCOUNT_MAX_ORDER_CENTS :: int where
  "NEW_ACCOUNT_MAX_ORDER_CENTS = 15000"

definition NEW_ACCOUNT_MAX_ORDERS_PER_DAY :: int where
  "NEW_ACCOUNT_MAX_ORDERS_PER_DAY = 3"

definition MAX_ORDERS_PER_HOUR :: int where
  "MAX_ORDERS_PER_HOUR = 10"

definition MAX_LISTINGS_PER_HOUR :: int where
  "MAX_LISTINGS_PER_HOUR = 60"

datatype FraudRefusal =
    NewAccountOrderTooLarge | NewAccountDailyLimit | OrderVelocity | ListingVelocity

record PurchaseAttempt =
  accountAgeMs :: int
  attemptAmountCents :: int
  ordersLastDay :: int
  ordersLastHour :: int

definition checkPurchase :: "PurchaseAttempt \<Rightarrow> FraudRefusal option" where
  "checkPurchase attempt =
     (let isNew = accountAgeMs attempt < NEW_ACCOUNT_HOURS * HOUR_MS in
      if isNew \<and> attemptAmountCents attempt > NEW_ACCOUNT_MAX_ORDER_CENTS
      then Some NewAccountOrderTooLarge
      else if isNew \<and> ordersLastDay attempt \<ge> NEW_ACCOUNT_MAX_ORDERS_PER_DAY
      then Some NewAccountDailyLimit
      else if ordersLastHour attempt \<ge> MAX_ORDERS_PER_HOUR
      then Some OrderVelocity
      else None)"

definition checkListing :: "int \<Rightarrow> FraudRefusal option" where
  "checkListing listingsLastHour =
     (if listingsLastHour \<ge> MAX_LISTINGS_PER_HOUR then Some ListingVelocity else None)"

fun explainRefusal :: "FraudRefusal \<Rightarrow> string" where
  "explainRefusal NewAccountOrderTooLarge =
     ''new accounts are limited to smaller purchases for their first day''"
| "explainRefusal NewAccountDailyLimit =
     ''new accounts are limited to a few purchases on their first day''"
| "explainRefusal OrderVelocity =
     ''that is a lot of purchases in a short time; please try again shortly''"
| "explainRefusal ListingVelocity =
     ''that is a lot of listings in a short time; please try again shortly''"

text \<open>A refusal's wording never carries a digit, so it cannot tell where the line is.\<close>

lemma explainRefusal_no_digit: "c \<in> set (explainRefusal r) \<Longrightarrow> \<not> is_digit c"
  by (cases r) (auto simp: is_digit_def)

section \<open>What a listing must satisfy\<close>

definition PHOTO_REQUIRED_ABOVE_CENTS :: int where
  "PHOTO_REQUIRED_ABOVE_CENTS = 2500"

definition photosRequiredFor :: "int \<Rightarrow> bool" where
  "photosRequiredFor priceCents \<longleftrightarrow> priceCents > PHOTO_REQUIRED_ABOVE_CENTS"

definition MAX_LISTING_PRICE_CENTS :: int where
  "MAX_LISTING_PRICE_CENTS = 100000000"

definition MAX_LISTING_QUANTITY :: int where
  "MAX_LISTING_QUANTITY = 999"

definition MAX_PHOTOS_PER_LISTING :: int where
  "MAX_PHOTOS_PER_LISTING = 8"

datatype ListingError = PriceOutOfRange | QuantityOutOfRange | NotesTooLong | PhotosRequired

record ListingDraft =
  draftPriceCents :: jsnum
  draftQuantity :: jsnum
  draftNotes :: "string option"

definition validateListing :: "ListingDraft \<Rightarrow> ListingError option" where
  "validateListing draft =
     (if \<not> is_integer (draftPriceCents draft)
         \<or> js_le (draftPriceCents draft) (int_num 0)
         \<or> js_less (int_num MAX_LISTING_PRICE_CENTS) (draftPriceCents draft)
      then Some PriceOutOfRange
      else if \<not> is_integer (draftQuantity draft)
         \<or> js_less (draftQuantity draft) (int_num 1)
         \<or> js_less (int_num MAX_LISTING_QUANTITY) (draftQuantity draft)
      then Some QuantityOutOfRange
      else if length (case draftNotes draft of None \<Rightarrow> [] | Some n \<Rightarrow> n) > 500
      then Some NotesTooLong
      else None)"

definition canPublish :: "int \<Rightarrow> int \<Rightarrow> ListingError option" where
  "canPublish priceCents photoCount =
     (if photosRequiredFor priceCents \<and> photoCount = 0 then Some PhotosRequired else None)"

lemma validateListing_None_iff:
  "validateListing d = None \<longleftrightarrow>
     (\<exists>p q. draftPriceCents d = int_num p \<and> draftQuantity d = int_num q
        \<and> 1 \<le> p \<and> p \<le> MAX_LISTING_PRICE_CENTS \<and> 1 \<le> q \<and> q \<le> MAX_LISTING_QUANTITY
        \<and> (\<forall>n. draftNotes d = Some n \<longrightarrow> length n \<le> 500))"
  (is "?l \<longleftrightarrow> ?r")
proof
  assume l: ?l
  then have "is_integer (draftPriceCents d)" "is_integer (draftQuantity d)"
    by (auto simp: validateListing_def split: if_splits)
  then obtain p q where "draftPriceCents d = int_num p" "draftQuantity d = int_num q"
    by (auto simp: is_integer_iff)
  with l show ?r
    by (auto simp: validateListing_def split: if_splits option.splits)
next
  assume ?r
  then show ?l by (auto simp: validateListing_def split: option.splits)
qed

end
