(* ===== verification/MarketDb.thy ===== *)
theory MarketDb
  imports OrderRules MarketRules
begin

text \<open>
  The marketplace's tables (\<open>packages/db/src/schema/market.ts\<close>, migrations 0041 to 0046): rows,
  CHECK constraints, unique indexes, foreign keys and the row-level-security policies of the three
  database roles. A table is the list of its rows. A statement first applies the policy, then the
  constraints in the order the database evaluates them (CHECKs by name, then unique indexes, then
  foreign keys), and either fails with a \<open>db_error\<close> or returns the new table.

  Strings are character lists with one character per code unit, identifiers are strings, instants
  are milliseconds. The columns a session may write are those its statements name, so the column
  grants of migration 0043 and 0044 need no separate check.
\<close>

section \<open>Values, errors, sessions\<close>

datatype CardCondition = NM | LP | MP | HP | DMG

datatype ListingStatus = Draft | Active | Sold | Withdrawn

datatype PhotoStatus = Pending | Approved | Rejected

datatype db_error =
    UniqueViolation string
  | ForeignKeyViolation string
  | CheckViolation string
  | RowSecurity
  | OutOfRange

datatype session = AsUser string | Worker | ReadOnly

definition isUniqueViolation :: "db_error \<Rightarrow> string option \<Rightarrow> bool" where
  "isUniqueViolation e cname =
     (case e of
        UniqueViolation n \<Rightarrow> (case cname of None \<Rightarrow> True | Some c \<Rightarrow> n = c)
      | _ \<Rightarrow> False)"

definition isForeignKeyViolation :: "db_error \<Rightarrow> bool" where
  "isForeignKeyViolation e = (case e of ForeignKeyViolation _ \<Rightarrow> True | _ \<Rightarrow> False)"

definition isCheckViolation :: "db_error \<Rightarrow> bool" where
  "isCheckViolation e = (case e of CheckViolation _ \<Rightarrow> True | _ \<Rightarrow> False)"

definition isInsufficientPrivilege :: "db_error \<Rightarrow> bool" where
  "isInsufficientPrivilege e = (e = RowSecurity)"

definition int4 :: "int \<Rightarrow> bool" where
  "int4 x \<longleftrightarrow> - (2 ^ 31) \<le> x \<and> x < 2 ^ 31"

text \<open>The first constraint of a list that does not hold.\<close>

fun first_violated :: "(string \<times> bool) list \<Rightarrow> string option" where
  "first_violated [] = None"
| "first_violated ((n, ok) # cs) = (if ok then first_violated cs else Some n)"

definition in_range :: "char \<Rightarrow> char \<Rightarrow> char \<Rightarrow> bool" where
  "in_range lo hi c \<longleftrightarrow> (of_char lo :: nat) \<le> of_char c \<and> (of_char c :: nat) \<le> of_char hi"

text \<open>\<open>~ '^[A-Z]{3}$'\<close>.\<close>

definition iso_currency :: "string \<Rightarrow> bool" where
  "iso_currency s \<longleftrightarrow> length s = 3 \<and> list_all (in_range (CHR ''A'') (CHR ''Z'')) s"

section \<open>Rows\<close>

record User =
  uId :: string
  uCreatedAt :: int

record CardVariant =
  vId :: string
  vCardId :: string
  vFinish :: string
  vLanguage :: string

record Listing =
  lId :: string
  lSellerId :: string
  lCardVariantId :: string
  lCondition :: CardCondition
  lPriceCents :: int
  lCurrency :: string
  lQuantity :: int
  lStatus :: ListingStatus
  lPhotoRequired :: bool
  lNotes :: "string option"
  lCreatedAt :: int
  lUpdatedAt :: int

record ListingPhoto =
  pId :: string
  pListingId :: string
  pUploadKey :: string
  pObjectKey :: "string option"
  pStatus :: PhotoStatus
  pRejectionReason :: "string option"
  pContentType :: "string option"
  pByteSize :: "int option"
  pWidth :: "int option"
  pHeight :: "int option"
  pSha256 :: "string option"
  pScannedAt :: "int option"
  pPosition :: int
  pCreatedAt :: int
  pUpdatedAt :: int

record Order =
  oId :: string
  oBuyerId :: string
  oSellerId :: string
  oListingId :: "string option"
  oCardVariantId :: string
  oCondition :: CardCondition
  oQuantity :: int
  oStatus :: OrderStatus
  oAmountCents :: int
  oFeeCents :: int
  oTaxCents :: int
  oCurrency :: string
  oCheckoutId :: "string option"
  oPaymentIntentId :: "string option"
  oTrackingCarrier :: "string option"
  oTrackingNumber :: "string option"
  oPaidAt :: "int option"
  oShippedAt :: "int option"
  oDeliveredAt :: "int option"
  oCompletedAt :: "int option"
  oCreatedAt :: int
  oUpdatedAt :: int

record OrderEvent =
  eId :: string
  eOrderId :: string
  eFromStatus :: OrderStatus
  eToStatus :: OrderStatus
  eActor :: OrderActor
  eActorId :: "string option"
  eReason :: "string option"
  eAt :: int

record Rating =
  rId :: string
  rOrderId :: string
  rSellerId :: string
  rRaterId :: string
  rStars :: int
  rComment :: "string option"
  rCreatedAt :: int
  rUpdatedAt :: int

record SellerAccount =
  sId :: string
  sUserId :: string
  sStripeAccountId :: string
  sChargesEnabled :: bool
  sPayoutsEnabled :: bool
  sHoldUntil :: "int option"
  sDisplayName :: "string option"
  sCreatedAt :: int
  sUpdatedAt :: int

record WebhookEvent =
  wId :: string
  wProvider :: string
  wEventId :: string
  wType :: string
  wReceivedAt :: int
  wProcessedAt :: "int option"

record market_db =
  users :: "User list"
  cardVariants :: "CardVariant list"
  listings :: "Listing list"
  listingPhotos :: "ListingPhoto list"
  orders :: "Order list"
  orderEvents :: "OrderEvent list"
  orderRatings :: "Rating list"
  sellerAccounts :: "SellerAccount list"
  webhookEvents :: "WebhookEvent list"

section \<open>Orders\<close>

definition order_visible :: "session \<Rightarrow> Order \<Rightarrow> bool" where
  "order_visible s r =
     (case s of
        AsUser u \<Rightarrow> oBuyerId r = u \<or> oSellerId r = u
      | Worker \<Rightarrow> True
      | ReadOnly \<Rightarrow> False)"

definition order_insert_allowed :: "session \<Rightarrow> Order \<Rightarrow> bool" where
  "order_insert_allowed s r =
     (case s of
        AsUser u \<Rightarrow> oBuyerId r = u \<and> oStatus r = Created
      | Worker \<Rightarrow> True
      | ReadOnly \<Rightarrow> False)"

definition order_update_allowed :: "session \<Rightarrow> Order \<Rightarrow> bool" where
  "order_update_allowed s r =
     (case s of
        AsUser u \<Rightarrow> (oBuyerId r = u \<or> oSellerId r = u)
          \<and> oStatus r \<in> {Created, Shipped, Cancelled, Disputed}
      | Worker \<Rightarrow> True
      | ReadOnly \<Rightarrow> False)"

definition order_checks :: "Order \<Rightarrow> (string \<times> bool) list" where
  "order_checks r =
     [(''orders_amount_positive'', oAmountCents r > 0),
      (''orders_amount_sane'', oAmountCents r \<le> 100000000),
      (''orders_currency_iso'', iso_currency (oCurrency r)),
      (''orders_fee_non_negative'', oFeeCents r \<ge> 0),
      (''orders_fee_within_amount'', oFeeCents r \<le> oAmountCents r),
      (''orders_not_self_dealing'', oBuyerId r \<noteq> oSellerId r),
      (''orders_paid_has_payment'',
         oStatus r \<in> {Created, Cancelled} \<or> oPaymentIntentId r \<noteq> None),
      (''orders_quantity_positive'', oQuantity r \<ge> 1),
      (''orders_shipped_has_tracking'',
         oStatus r \<notin> {Shipped, Delivered, Completed}
           \<or> oTrackingCarrier r \<noteq> None \<and> oTrackingNumber r \<noteq> None),
      (''orders_tax_non_negative'', oTaxCents r \<ge> 0)]"

definition order_open :: "Order \<Rightarrow> bool" where
  "order_open r \<longleftrightarrow>
     oListingId r \<noteq> None
       \<and> oStatus r \<in> {Created, Paid, Shipped, Delivered, Completed, Disputed}"

text \<open>The unique index a row would break, given the other rows of the table.\<close>

definition order_unique_violation :: "Order \<Rightarrow> Order list \<Rightarrow> string option" where
  "order_unique_violation r others =
     first_violated
       [(''orders_pkey'', oId r \<notin> oId ` set others),
        (''orders_checkout_key'',
           oCheckoutId r = None \<or> oCheckoutId r \<notin> oCheckoutId ` set others),
        (''orders_payment_intent_key'',
           oPaymentIntentId r = None \<or> oPaymentIntentId r \<notin> oPaymentIntentId ` set others),
        (''orders_one_open_per_listing'',
           \<not> order_open r \<or> oListingId r \<notin> oListingId ` set (filter order_open others))]"

definition order_int4 :: "Order \<Rightarrow> bool" where
  "order_int4 r \<longleftrightarrow>
     int4 (oQuantity r) \<and> int4 (oAmountCents r) \<and> int4 (oFeeCents r) \<and> int4 (oTaxCents r)"

definition insert_order :: "session \<Rightarrow> Order \<Rightarrow> market_db \<Rightarrow> db_error + market_db" where
  "insert_order s r db =
     (if \<not> order_int4 r then Inl OutOfRange
      else if \<not> order_insert_allowed s r then Inl RowSecurity
      else case first_violated (order_checks r) of
        Some c \<Rightarrow> Inl (CheckViolation c)
      | None \<Rightarrow>
        case order_unique_violation r (orders db) of
          Some c \<Rightarrow> Inl (UniqueViolation c)
        | None \<Rightarrow>
          if oBuyerId r \<notin> uId ` set (users db) then
            Inl (ForeignKeyViolation ''orders_buyer_id_users_id_fk'')
          else if oSellerId r \<notin> uId ` set (users db) then
            Inl (ForeignKeyViolation ''orders_seller_id_users_id_fk'')
          else if oListingId r \<noteq> None \<and> the (oListingId r) \<notin> lId ` set (listings db) then
            Inl (ForeignKeyViolation ''orders_listing_id_listings_id_fk'')
          else if oCardVariantId r \<notin> vId ` set (cardVariants db) then
            Inl (ForeignKeyViolation ''orders_card_variant_id_card_variants_id_fk'')
          else Inr (db\<lparr>orders := orders db @ [r]\<rparr>))"

text \<open>
  \<open>update orders set ... where id = k returning *\<close>: a row the policy hides is not there.
\<close>

definition update_order ::
  "session \<Rightarrow> string \<Rightarrow> (Order \<Rightarrow> Order) \<Rightarrow> market_db \<Rightarrow> db_error + Order option \<times> market_db" where
  "update_order s k f db =
     (case find_row oId k (orders db) of
        None \<Rightarrow> Inr (None, db)
      | Some r \<Rightarrow>
        if \<not> order_visible s r then Inr (None, db)
        else if \<not> order_int4 (f r) then Inl OutOfRange
        else if \<not> order_update_allowed s (f r) then Inl RowSecurity
        else case first_violated (order_checks (f r)) of
          Some c \<Rightarrow> Inl (CheckViolation c)
        | None \<Rightarrow>
          case order_unique_violation (f r) (filter (\<lambda>x. oId x \<noteq> k) (orders db)) of
            Some c \<Rightarrow> Inl (UniqueViolation c)
          | None \<Rightarrow> Inr (Some (f r), db\<lparr>orders := update_row oId k f (orders db)\<rparr>))"

definition select_order :: "session \<Rightarrow> string \<Rightarrow> market_db \<Rightarrow> Order option" where
  "select_order s k db =
     (case find_row oId k (orders db) of
        None \<Rightarrow> None
      | Some r \<Rightarrow> if order_visible s r then Some r else None)"

section \<open>Order events\<close>

definition event_visible :: "session \<Rightarrow> market_db \<Rightarrow> OrderEvent \<Rightarrow> bool" where
  "event_visible s db e =
     (case s of
        Worker \<Rightarrow> True
      | ReadOnly \<Rightarrow> False
      | AsUser u \<Rightarrow> list_ex (\<lambda>r. oId r = eOrderId e \<and> order_visible s r) (orders db))"

definition event_checks :: "OrderEvent \<Rightarrow> (string \<times> bool) list" where
  "event_checks e =
     [(''order_events_actor_identified'',
         eActor e \<in> {Stripe, System} \<and> eActorId e = None \<or> eActor e \<in> {Buyer, Seller, Admin}),
      (''order_events_reason_length'',
         case eReason e of None \<Rightarrow> True | Some t \<Rightarrow> length t \<le> 280)]"

definition insert_event :: "session \<Rightarrow> OrderEvent \<Rightarrow> market_db \<Rightarrow> db_error + market_db" where
  "insert_event s e db =
     (if \<not> event_visible s db e then Inl RowSecurity
      else case first_violated (event_checks e) of
        Some c \<Rightarrow> Inl (CheckViolation c)
      | None \<Rightarrow>
        if eId e \<in> eId ` set (orderEvents db) then Inl (UniqueViolation ''order_events_pkey'')
        else if eOrderId e \<notin> oId ` set (orders db) then
          Inl (ForeignKeyViolation ''order_events_order_id_orders_id_fk'')
        else if eActorId e \<noteq> None \<and> the (eActorId e) \<notin> uId ` set (users db) then
          Inl (ForeignKeyViolation ''order_events_actor_id_users_id_fk'')
        else Inr (db\<lparr>orderEvents := orderEvents db @ [e]\<rparr>))"

section \<open>Listings\<close>

definition listing_visible :: "session \<Rightarrow> Listing \<Rightarrow> bool" where
  "listing_visible s r =
     (case s of
        AsUser u \<Rightarrow> lStatus r = Active \<or> lSellerId r = u
      | Worker \<Rightarrow> True
      | ReadOnly \<Rightarrow> lStatus r = Active)"

definition listing_editable :: "session \<Rightarrow> Listing \<Rightarrow> bool" where
  "listing_editable s r =
     (case s of AsUser u \<Rightarrow> lSellerId r = u | Worker \<Rightarrow> True | ReadOnly \<Rightarrow> False)"

definition listing_update_allowed :: "session \<Rightarrow> Listing \<Rightarrow> bool" where
  "listing_update_allowed s r =
     (case s of
        AsUser u \<Rightarrow> lSellerId r = u \<and> lStatus r \<noteq> Sold
      | Worker \<Rightarrow> True
      | ReadOnly \<Rightarrow> False)"

definition listing_checks :: "Listing \<Rightarrow> (string \<times> bool) list" where
  "listing_checks r =
     [(''listings_currency_iso'', iso_currency (lCurrency r)),
      (''listings_notes_length'', case lNotes r of None \<Rightarrow> True | Some t \<Rightarrow> length t \<le> 500),
      (''listings_price_positive'', lPriceCents r > 0),
      (''listings_price_sane'', lPriceCents r \<le> 100000000),
      (''listings_quantity_positive'', lQuantity r \<ge> 1),
      (''listings_quantity_sane'', lQuantity r \<le> 999)]"

definition listing_int4 :: "Listing \<Rightarrow> bool" where
  "listing_int4 r \<longleftrightarrow> int4 (lPriceCents r) \<and> int4 (lQuantity r)"

definition insert_listing :: "session \<Rightarrow> Listing \<Rightarrow> market_db \<Rightarrow> db_error + market_db" where
  "insert_listing s r db =
     (if \<not> listing_int4 r then Inl OutOfRange
      else if \<not> listing_editable s r then Inl RowSecurity
      else case first_violated (listing_checks r) of
        Some c \<Rightarrow> Inl (CheckViolation c)
      | None \<Rightarrow>
        if lId r \<in> lId ` set (listings db) then Inl (UniqueViolation ''listings_pkey'')
        else if lSellerId r \<notin> uId ` set (users db) then
          Inl (ForeignKeyViolation ''listings_seller_id_users_id_fk'')
        else if lCardVariantId r \<notin> vId ` set (cardVariants db) then
          Inl (ForeignKeyViolation ''listings_card_variant_id_card_variants_id_fk'')
        else Inr (db\<lparr>listings := listings db @ [r]\<rparr>))"

definition update_listing ::
  "session \<Rightarrow> (Listing \<Rightarrow> bool) \<Rightarrow> string \<Rightarrow> (Listing \<Rightarrow> Listing) \<Rightarrow> market_db
     \<Rightarrow> db_error + Listing option \<times> market_db" where
  "update_listing s cond k f db =
     (case find_row lId k (listings db) of
        None \<Rightarrow> Inr (None, db)
      | Some r \<Rightarrow>
        if \<not> (cond r \<and> listing_editable s r) then Inr (None, db)
        else if \<not> listing_int4 (f r) then Inl OutOfRange
        else if \<not> listing_update_allowed s (f r) then Inl RowSecurity
        else case first_violated (listing_checks (f r)) of
          Some c \<Rightarrow> Inl (CheckViolation c)
        | None \<Rightarrow> Inr (Some (f r), db\<lparr>listings := update_row lId k f (listings db)\<rparr>))"

text \<open>
  Deleting a listing nulls the orders that point at it and takes its photographs with it (the
  foreign keys' \<open>set null\<close> and \<open>cascade\<close>).
\<close>

definition unlink_listing :: "string \<Rightarrow> Order \<Rightarrow> Order" where
  "unlink_listing k r = (if oListingId r = Some k then r\<lparr>oListingId := None\<rparr> else r)"

definition delete_listing :: "string \<Rightarrow> market_db \<Rightarrow> market_db" where
  "delete_listing k db =
     db\<lparr>listings := filter (\<lambda>r. lId r \<noteq> k) (listings db),
        listingPhotos := filter (\<lambda>p. pListingId p \<noteq> k) (listingPhotos db),
        orders := map (unlink_listing k) (orders db)\<rparr>"

section \<open>Lemmas\<close>

named_theorems db_rules "what a successful statement establishes"

lemma first_violated_None_iff: "first_violated cs = None \<longleftrightarrow> (\<forall>(n, ok) \<in> set cs. ok)"
  by (induction cs rule: first_violated.induct) auto

lemma insert_order_Inr [db_rules]:
  "insert_order s r db = Inr db' \<Longrightarrow>
     order_insert_allowed s r \<and> first_violated (order_checks r) = None
       \<and> order_unique_violation r (orders db) = None
       \<and> (case oListingId r of None \<Rightarrow> True | Some l \<Rightarrow> l \<in> lId ` set (listings db))
       \<and> db' = db\<lparr>orders := orders db @ [r]\<rparr>"
  by (auto simp: insert_order_def split: if_splits option.splits)

lemma update_order_Inr [db_rules]:
  "update_order s k f db = Inr (Some r', db') \<Longrightarrow>
     \<exists>r. find_row oId k (orders db) = Some r \<and> order_visible s r \<and> r' = f r
       \<and> order_update_allowed s (f r) \<and> first_violated (order_checks (f r)) = None
       \<and> order_unique_violation (f r) (filter (\<lambda>x. oId x \<noteq> k) (orders db)) = None
       \<and> db' = db\<lparr>orders := update_row oId k f (orders db)\<rparr>"
  by (auto simp: update_order_def split: if_splits option.splits)

lemma update_order_None [db_rules]:
  "update_order s k f db = Inr (None, db') \<Longrightarrow> db' = db"
  by (auto simp: update_order_def split: if_splits option.splits)

lemma insert_event_Inr [db_rules]:
  "insert_event s e db = Inr db' \<Longrightarrow>
     event_visible s db e \<and> first_violated (event_checks e) = None
       \<and> eOrderId e \<in> oId ` set (orders db)
       \<and> db' = db\<lparr>orderEvents := orderEvents db @ [e]\<rparr>"
  by (auto simp: insert_event_def split: if_splits option.splits)

lemma insert_listing_Inr [db_rules]:
  "insert_listing s r db = Inr db' \<Longrightarrow>
     listing_editable s r \<and> first_violated (listing_checks r) = None
       \<and> lId r \<notin> lId ` set (listings db)
       \<and> db' = db\<lparr>listings := listings db @ [r]\<rparr>"
  by (auto simp: insert_listing_def split: if_splits option.splits)

lemma update_listing_Inr [db_rules]:
  "update_listing s cond k f db = Inr (Some r', db') \<Longrightarrow>
     \<exists>r. find_row lId k (listings db) = Some r \<and> cond r \<and> listing_editable s r \<and> r' = f r
       \<and> listing_update_allowed s (f r) \<and> first_violated (listing_checks (f r)) = None
       \<and> db' = db\<lparr>listings := update_row lId k f (listings db)\<rparr>"
  by (auto simp: update_listing_def split: if_splits option.splits)

lemma update_listing_None [db_rules]:
  "update_listing s cond k f db = Inr (None, db') \<Longrightarrow> db' = db"
  by (auto simp: update_listing_def split: if_splits option.splits)

lemma select_order_Some [db_rules]:
  "select_order s k db = Some r \<Longrightarrow> find_row oId k (orders db) = Some r \<and> order_visible s r"
  by (auto simp: select_order_def split: option.splits if_splits)

end
