(* ===== verification/OrderStore.thy ===== *)
theory OrderStore
  imports MarketDb
begin

text \<open>
  The order queries (\<open>packages/db/src/queries/orders.ts\<close>): creating an order, attaching its
  checkout session, the transitions a person causes (session role) and those a webhook or the
  clock causes (worker role), and the reads. Each function is one transaction; an error leaves the
  store as it was. \<open>now\<close> is the transaction's clock, \<open>newId\<close> and \<open>evId\<close> the identifiers
  the database draws.
\<close>

datatype party = BuyerParty | SellerParty

datatype order_error =
    ListingUnavailableError
  | OrderNotFoundError
  | WrongPartyError party
  | MissingReferenceError string
  | IllegalTransition illegal_transition
  | OrderDbError db_error
  | OrderVanished

record CreateOrderInput =
  coSellerId :: string
  coListingId :: string
  coCardVariantId :: string
  coCondition :: CardCondition
  coQuantity :: int
  coAmountCents :: int
  coFeeCents :: int
  coCurrency :: string

record OrderPaidInput =
  opOrderId :: string
  opPaymentIntentId :: string
  opCheckoutSessionId :: string
  opTaxCents :: "int option"

datatype OrderPaidResult = PaidApplied Order | AlreadyPaid | UnknownOrder

section \<open>Creating and paying\<close>

definition new_order :: "string \<Rightarrow> CreateOrderInput \<Rightarrow> string \<Rightarrow> int \<Rightarrow> Order" where
  "new_order buyerId input newId now =
     \<lparr>oId = newId, oBuyerId = buyerId, oSellerId = coSellerId input,
      oListingId = Some (coListingId input), oCardVariantId = coCardVariantId input,
      oCondition = coCondition input, oQuantity = coQuantity input, oStatus = Created,
      oAmountCents = coAmountCents input, oFeeCents = coFeeCents input, oTaxCents = 0,
      oCurrency = coCurrency input, oCheckoutId = None, oPaymentIntentId = None,
      oTrackingCarrier = None, oTrackingNumber = None, oPaidAt = None, oShippedAt = None,
      oDeliveredAt = None, oCompletedAt = None, oCreatedAt = now, oUpdatedAt = now\<rparr>"

definition createOrder ::
  "string \<Rightarrow> CreateOrderInput \<Rightarrow> string \<Rightarrow> int \<Rightarrow> market_db \<Rightarrow> order_error + Order \<times> market_db" where
  "createOrder buyerId input newId now db =
     (case insert_order (AsUser buyerId) (new_order buyerId input newId now) db of
        Inl e \<Rightarrow>
          if isUniqueViolation e (Some ''orders_one_open_per_listing'')
          then Inl ListingUnavailableError
          else if isForeignKeyViolation e then Inl (MissingReferenceError ''listing'')
          else Inl (OrderDbError e)
      | Inr db' \<Rightarrow>
          (case select_order (AsUser buyerId) newId db' of
             None \<Rightarrow> Inl OrderVanished
           | Some order \<Rightarrow> Inr (order, db')))"

definition attachCheckoutSession ::
  "string \<Rightarrow> string \<Rightarrow> string \<Rightarrow> int \<Rightarrow> market_db \<Rightarrow> order_error + market_db" where
  "attachCheckoutSession buyerId orderId checkoutSessionId now db =
     (case update_order (AsUser buyerId) orderId
             (\<lambda>r. r\<lparr>oCheckoutId := Some checkoutSessionId, oUpdatedAt := now\<rparr>) db of
        Inl e \<Rightarrow> Inl (OrderDbError e)
      | Inr (_, db') \<Rightarrow> Inr db')"

definition getOrder :: "string \<Rightarrow> string \<Rightarrow> market_db \<Rightarrow> Order option" where
  "getOrder viewerId k db = select_order (AsUser viewerId) k db"

definition listMyOrders :: "string \<Rightarrow> market_db \<Rightarrow> Order list" where
  "listMyOrders userId db =
     take 200 (sort_key (\<lambda>r. - oCreatedAt r) (filter (order_visible (AsUser userId)) (orders db)))"

definition paid_set :: "OrderPaidInput \<Rightarrow> OrderStatus \<Rightarrow> int \<Rightarrow> Order \<Rightarrow> Order" where
  "paid_set input st now r =
     r\<lparr>oStatus := st,
       oPaymentIntentId := Some (opPaymentIntentId input),
       oCheckoutId := Some (opCheckoutSessionId input),
       oTaxCents := (case opTaxCents input of None \<Rightarrow> oTaxCents r | Some t \<Rightarrow> t),
       oPaidAt := Some now, oUpdatedAt := now\<rparr>"

definition mark_listing_sold :: "string option \<Rightarrow> int \<Rightarrow> market_db \<Rightarrow> db_error + market_db" where
  "mark_listing_sold listing now db =
     (case listing of
        None \<Rightarrow> Inr db
      | Some l \<Rightarrow>
          (case update_listing Worker (\<lambda>_. True) l (\<lambda>x. x\<lparr>lStatus := Sold, lUpdatedAt := now\<rparr>) db of
             Inl e \<Rightarrow> Inl e
           | Inr (_, db') \<Rightarrow> Inr db'))"

definition markOrderPaid ::
  "OrderPaidInput \<Rightarrow> string \<Rightarrow> int \<Rightarrow> market_db \<Rightarrow> order_error + OrderPaidResult \<times> market_db" where
  "markOrderPaid input evId now db =
     (case select_order Worker (opOrderId input) db of
        None \<Rightarrow> Inr (UnknownOrder, db)
      | Some existing \<Rightarrow>
        if oStatus existing = Paid then Inr (AlreadyPaid, db)
        else case transition (oStatus existing) Paid Stripe of
          Inl e \<Rightarrow> Inl (IllegalTransition e)
        | Inr st \<Rightarrow>
          case update_order Worker (opOrderId input) (paid_set input st now) db of
            Inl e \<Rightarrow> Inl (OrderDbError e)
          | Inr (None, _) \<Rightarrow> Inl OrderVanished
          | Inr (Some updated, db1) \<Rightarrow>
            case insert_event Worker
                   \<lparr>eId = evId, eOrderId = opOrderId input, eFromStatus = oStatus existing,
                    eToStatus = st, eActor = Stripe, eActorId = None, eReason = None,
                    eAt = now\<rparr> db1 of
              Inl e \<Rightarrow> Inl (OrderDbError e)
            | Inr db2 \<Rightarrow>
              case mark_listing_sold (oListingId existing) now db2 of
                Inl e \<Rightarrow> Inl (OrderDbError e)
              | Inr db3 \<Rightarrow> Inr (PaidApplied updated, db3))"

section \<open>Moving an order\<close>

text \<open>The optional columns a transition writes; \<open>None\<close> leaves the column alone.\<close>

record TransitionSet =
  tsTrackingCarrier :: "string option"
  tsTrackingNumber :: "string option"
  tsShippedAt :: "int option"
  tsDeliveredAt :: "int option"
  tsCompletedAt :: "int option"

definition no_set :: TransitionSet where
  "no_set = \<lparr>tsTrackingCarrier = None, tsTrackingNumber = None, tsShippedAt = None,
             tsDeliveredAt = None, tsCompletedAt = None\<rparr>"

record MoveInput =
  mvOrderId :: string
  mvTo :: OrderStatus
  mvActor :: OrderActor
  mvActorId :: "string option"
  mvReason :: "string option"
  mvSet :: TransitionSet
  mvMustBe :: "party option"

definition set_or :: "'a option \<Rightarrow> 'a option \<Rightarrow> 'a option" where
  "set_or new old = (case new of None \<Rightarrow> old | Some x \<Rightarrow> Some x)"

definition move_set :: "TransitionSet \<Rightarrow> OrderStatus \<Rightarrow> int \<Rightarrow> Order \<Rightarrow> Order" where
  "move_set ts st now r =
     r\<lparr>oStatus := st,
       oTrackingCarrier := set_or (tsTrackingCarrier ts) (oTrackingCarrier r),
       oTrackingNumber := set_or (tsTrackingNumber ts) (oTrackingNumber r),
       oShippedAt := set_or (tsShippedAt ts) (oShippedAt r),
       oDeliveredAt := set_or (tsDeliveredAt ts) (oDeliveredAt r),
       oCompletedAt := set_or (tsCompletedAt ts) (oCompletedAt r),
       oUpdatedAt := now\<rparr>"

definition party_of :: "party \<Rightarrow> Order \<Rightarrow> string" where
  "party_of p r = (case p of BuyerParty \<Rightarrow> oBuyerId r | SellerParty \<Rightarrow> oSellerId r)"

definition move_event :: "MoveInput \<Rightarrow> OrderStatus \<Rightarrow> OrderStatus \<Rightarrow> string \<Rightarrow> int \<Rightarrow> OrderEvent" where
  "move_event input frm st evId now =
     \<lparr>eId = evId, eOrderId = mvOrderId input, eFromStatus = frm, eToStatus = st,
      eActor = mvActor input,
      eActorId = (if mvActor input = Stripe \<or> mvActor input = System then None
                  else mvActorId input),
      eReason = mvReason input, eAt = now\<rparr>"

definition move ::
  "session \<Rightarrow> MoveInput \<Rightarrow> string \<Rightarrow> int \<Rightarrow> market_db \<Rightarrow> order_error + Order \<times> market_db" where
  "move s input evId now db =
     (case select_order s (mvOrderId input) db of
        None \<Rightarrow> Inl OrderNotFoundError
      | Some existing \<Rightarrow>
        if mvMustBe input \<noteq> None
           \<and> Some (party_of (the (mvMustBe input)) existing) \<noteq> mvActorId input
        then Inl (WrongPartyError (the (mvMustBe input)))
        else case transition (oStatus existing) (mvTo input) (mvActor input) of
          Inl e \<Rightarrow> Inl (IllegalTransition e)
        | Inr st \<Rightarrow>
          case update_order s (mvOrderId input) (move_set (mvSet input) st now) db of
            Inl e \<Rightarrow> Inl (OrderDbError e)
          | Inr (None, _) \<Rightarrow> Inl OrderVanished
          | Inr (Some updated, db1) \<Rightarrow>
            case insert_event s (move_event input (oStatus existing) st evId now) db1 of
              Inl e \<Rightarrow> Inl (OrderDbError e)
            | Inr db2 \<Rightarrow> Inr (updated, db2))"

definition shipOrder ::
  "string \<Rightarrow> string \<Rightarrow> string \<Rightarrow> string \<Rightarrow> string \<Rightarrow> int \<Rightarrow> market_db
     \<Rightarrow> order_error + Order \<times> market_db" where
  "shipOrder sellerId orderId carrier trackingNumber evId now db =
     move (AsUser sellerId)
       \<lparr>mvOrderId = orderId, mvTo = Shipped, mvActor = Seller, mvActorId = Some sellerId,
        mvReason = None,
        mvSet = no_set\<lparr>tsTrackingCarrier := Some carrier,
                       tsTrackingNumber := Some trackingNumber, tsShippedAt := Some now\<rparr>,
        mvMustBe = Some SellerParty\<rparr> evId now db"

definition cancelOrder ::
  "string \<Rightarrow> string \<Rightarrow> string option \<Rightarrow> string \<Rightarrow> int \<Rightarrow> market_db
     \<Rightarrow> order_error + Order \<times> market_db" where
  "cancelOrder userId orderId reason evId now db =
     (case select_order (AsUser userId) orderId db of
        None \<Rightarrow> Inl OrderNotFoundError
      | Some existing \<Rightarrow>
          move (AsUser userId)
            \<lparr>mvOrderId = orderId, mvTo = Cancelled,
             mvActor = (if oBuyerId existing = userId then Buyer else Seller),
             mvActorId = Some userId, mvReason = reason, mvSet = no_set,
             mvMustBe = None\<rparr> evId now db)"

definition disputeOrder ::
  "string \<Rightarrow> string \<Rightarrow> string \<Rightarrow> string \<Rightarrow> int \<Rightarrow> market_db
     \<Rightarrow> order_error + Order \<times> market_db" where
  "disputeOrder buyerId orderId reason evId now db =
     move (AsUser buyerId)
       \<lparr>mvOrderId = orderId, mvTo = Disputed, mvActor = Buyer, mvActorId = Some buyerId,
        mvReason = Some reason, mvSet = no_set, mvMustBe = Some BuyerParty\<rparr> evId now db"

text \<open>Who confirms a delivery or completes an order on the worker role.\<close>

datatype confirmer = BySystem | ByAdmin

definition confirmer_actor :: "confirmer \<Rightarrow> OrderActor" where
  "confirmer_actor c = (case c of BySystem \<Rightarrow> System | ByAdmin \<Rightarrow> Admin)"

definition markOrderDelivered ::
  "string \<Rightarrow> confirmer \<Rightarrow> string option \<Rightarrow> string option \<Rightarrow> string \<Rightarrow> int \<Rightarrow> market_db
     \<Rightarrow> order_error + Order \<times> market_db" where
  "markOrderDelivered orderId actor actorId reason evId now db =
     move Worker
       \<lparr>mvOrderId = orderId, mvTo = Delivered, mvActor = confirmer_actor actor,
        mvActorId = actorId, mvReason = reason, mvSet = no_set\<lparr>tsDeliveredAt := Some now\<rparr>,
        mvMustBe = None\<rparr> evId now db"

definition completeOrder ::
  "string \<Rightarrow> confirmer \<Rightarrow> string option \<Rightarrow> string option \<Rightarrow> string \<Rightarrow> int \<Rightarrow> market_db
     \<Rightarrow> order_error + Order \<times> market_db" where
  "completeOrder orderId actor actorId reason evId now db =
     move Worker
       \<lparr>mvOrderId = orderId, mvTo = Completed, mvActor = confirmer_actor actor,
        mvActorId = actorId, mvReason = reason, mvSet = no_set\<lparr>tsCompletedAt := Some now\<rparr>,
        mvMustBe = None\<rparr> evId now db"

definition stripe_move :: "string \<Rightarrow> OrderStatus \<Rightarrow> string option \<Rightarrow> MoveInput" where
  "stripe_move orderId st reason =
     \<lparr>mvOrderId = orderId, mvTo = st, mvActor = Stripe, mvActorId = None, mvReason = reason,
      mvSet = no_set, mvMustBe = None\<rparr>"

definition markOrderRefunded ::
  "string \<Rightarrow> string option \<Rightarrow> string \<Rightarrow> int \<Rightarrow> market_db
     \<Rightarrow> order_error + Order option \<times> market_db" where
  "markOrderRefunded orderId reason evId now db =
     (case select_order Worker orderId db of
        None \<Rightarrow> Inr (None, db)
      | Some existing \<Rightarrow>
        if oStatus existing = Refunded then Inr (None, db)
        else case move Worker (stripe_move orderId Refunded reason) evId now db of
          Inl e \<Rightarrow> Inl e
        | Inr (order, db') \<Rightarrow> Inr (Some order, db'))"

definition getOrderByPaymentIntent :: "string \<Rightarrow> market_db \<Rightarrow> Order option" where
  "getOrderByPaymentIntent paymentIntentId db =
     find_row oPaymentIntentId (Some paymentIntentId) (orders db)"

text \<open>
  The default reason's typographic apostrophe is outside the character type; it is written as the
  ASCII one.
\<close>

definition CHARGEBACK_REASON :: string where
  "CHARGEBACK_REASON = ''chargeback opened with the buyer's bank''"

definition markOrderChargedBack ::
  "string \<Rightarrow> string option \<Rightarrow> string \<Rightarrow> int \<Rightarrow> market_db
     \<Rightarrow> order_error + Order option \<times> market_db" where
  "markOrderChargedBack paymentIntentId reason evId now db =
     (case getOrderByPaymentIntent paymentIntentId db of
        None \<Rightarrow> Inr (None, db)
      | Some existing \<Rightarrow>
        if oStatus existing = Disputed \<or> oStatus existing = Refunded then Inr (None, db)
        else case move Worker
                    (stripe_move (oId existing) Disputed
                       (Some (case reason of None \<Rightarrow> CHARGEBACK_REASON | Some t \<Rightarrow> t)))
                    evId now db of
          Inl e \<Rightarrow> Inl e
        | Inr (order, db') \<Rightarrow> Inr (Some order, db'))"

section \<open>Reads\<close>

definition listOrderEvents :: "string \<Rightarrow> string \<Rightarrow> market_db \<Rightarrow> OrderEvent list" where
  "listOrderEvents viewerId orderId db =
     sort_key eAt
       (filter (\<lambda>e. eOrderId e = orderId \<and> event_visible (AsUser viewerId) db e) (orderEvents db))"

definition ordersReadyToComplete :: "int \<Rightarrow> int \<Rightarrow> market_db \<Rightarrow> Order list" where
  "ordersReadyToComplete now afterDays db =
     (let cutoff = now - afterDays * 24 * 60 * 60 * 1000
      in take 200
           (sort_key (\<lambda>r. the (oDeliveredAt r))
             (filter (\<lambda>r. oStatus r = Delivered
                        \<and> (case oDeliveredAt r of None \<Rightarrow> False | Some t \<Rightarrow> t \<le> cutoff))
               (orders db))))"

definition getOrderById :: "string \<Rightarrow> market_db \<Rightarrow> Order option" where
  "getOrderById k db = select_order Worker k db"

record BuyerRisk =
  brAccountAgeMs :: int
  brOrdersLastDay :: int
  brOrdersLastHour :: int

definition getBuyerRisk :: "string \<Rightarrow> int \<Rightarrow> market_db \<Rightarrow> BuyerRisk" where
  "getBuyerRisk buyerId now db =
     (let dayAgo = now - 24 * 60 * 60 * 1000;
          hourAgo = now - 60 * 60 * 1000;
          mine = filter (\<lambda>r. oBuyerId r = buyerId \<and> order_visible (AsUser buyerId) r) (orders db)
      in \<lparr>brAccountAgeMs =
            (case find_row uId buyerId (users db) of
               None \<Rightarrow> 0
             | Some account \<Rightarrow> now - uCreatedAt account),
          brOrdersLastDay = int (length (filter (\<lambda>r. oCreatedAt r \<ge> dayAgo) mine)),
          brOrdersLastHour = int (length (filter (\<lambda>r. oCreatedAt r \<ge> hourAgo) mine))\<rparr>)"

section \<open>The updates leave the keys alone\<close>

interpretation paid_update: keyed_table oId "paid_set input st now" for input st now
  by unfold_locales (simp add: paid_set_def)

interpretation move_update: keyed_table oId "move_set ts st now" for ts st now
  by unfold_locales (simp add: move_set_def)

end
