(* ===== verification/OrderLedger.thy ===== *)
theory OrderLedger
  imports OrderStore
begin

text \<open>
  The abstract specification of the order tables: a ledger of orders and their events that moves
  by five kinds of step, and what every reachable ledger satisfies. The store refines it: each
  operation of \<open>OrderStore\<close> that succeeds is one step (\<open>*_ledger\<close>).
\<close>

type_synonym ledger = "Order list \<times> OrderEvent list"

definition ledger_of :: "market_db \<Rightarrow> ledger" where
  "ledger_of db = (orders db, orderEvents db)"

text \<open>What the two parties agreed: the columns no statement of the source ever writes again.\<close>

definition order_terms ::
  "Order \<Rightarrow> string \<times> string \<times> string \<times> string \<times> CardCondition \<times> int \<times> int \<times> int \<times> string \<times> int"
where
  "order_terms r =
     (oId r, oBuyerId r, oSellerId r, oCardVariantId r, oCondition r, oQuantity r,
      oAmountCents r, oFeeCents r, oCurrency r, oCreatedAt r)"

definition event_signed :: "session \<Rightarrow> Order \<Rightarrow> OrderEvent \<Rightarrow> bool" where
  "event_signed s r e \<longleftrightarrow>
     (case s of
        AsUser u \<Rightarrow> eActorId e = Some u
          \<and> (eActor e = Buyer \<and> oBuyerId r = u \<or> eActor e = Seller \<and> oSellerId r = u)
      | _ \<Rightarrow> eActor e \<in> {Stripe, System, Admin})"

inductive ledger_step :: "session \<Rightarrow> ledger \<Rightarrow> ledger \<Rightarrow> bool" where
  idle: "ledger_step s l l"
| born: "order_insert_allowed s r \<Longrightarrow> oStatus r = Created \<Longrightarrow>
    first_violated (order_checks r) = None \<Longrightarrow> order_unique_violation r os = None \<Longrightarrow>
    ledger_step s (os, es) (os @ [r], es)"
| noted: "find_row oId k os = Some r \<Longrightarrow> order_visible s r \<Longrightarrow>
    order_update_allowed s (f r) \<Longrightarrow> (\<And>x. order_terms (f x) = order_terms x) \<Longrightarrow>
    oListingId (f r) = oListingId r \<Longrightarrow> oStatus (f r) = oStatus r \<Longrightarrow>
    first_violated (order_checks (f r)) = None \<Longrightarrow>
    order_unique_violation (f r) (filter (\<lambda>x. oId x \<noteq> k) os) = None \<Longrightarrow>
    ledger_step s (os, es) (update_row oId k f os, es)"
| moved: "find_row oId k os = Some r \<Longrightarrow> order_visible s r \<Longrightarrow>
    order_update_allowed s (f r) \<Longrightarrow> (\<And>x. order_terms (f x) = order_terms x) \<Longrightarrow>
    oListingId (f r) = oListingId r \<Longrightarrow>
    canTransition (oStatus r) (oStatus (f r)) (eActor e) \<Longrightarrow>
    first_violated (order_checks (f r)) = None \<Longrightarrow>
    order_unique_violation (f r) (filter (\<lambda>x. oId x \<noteq> k) os) = None \<Longrightarrow>
    eOrderId e = k \<Longrightarrow> eFromStatus e = oStatus r \<Longrightarrow> eToStatus e = oStatus (f r) \<Longrightarrow>
    event_signed s r e \<Longrightarrow> first_violated (event_checks e) = None \<Longrightarrow>
    ledger_step s (os, es) (update_row oId k f os, es @ [e])"
| unlinked: "ledger_step s (os, es) (map (unlink_listing k) os, es)"

inductive_cases ledger_stepE: "ledger_step s (os, es) l'"

section \<open>What holds of every ledger\<close>

text \<open>Two rows that an index would not let coexist.\<close>

definition order_clash :: "Order \<Rightarrow> Order \<Rightarrow> bool" where
  "order_clash r x \<longleftrightarrow>
     oCheckoutId r \<noteq> None \<and> oCheckoutId r = oCheckoutId x
   \<or> oPaymentIntentId r \<noteq> None \<and> oPaymentIntentId r = oPaymentIntentId x
   \<or> order_open r \<and> order_open x \<and> oListingId r = oListingId x"

text \<open>The status an audit trail ends in, if every entry of it is a move of the table.\<close>

fun trail :: "OrderStatus \<Rightarrow> OrderEvent list \<Rightarrow> OrderStatus option" where
  "trail st [] = Some st"
| "trail st (e # es) =
     (if eFromStatus e = st \<and> canTransition st (eToStatus e) (eActor e)
      then trail (eToStatus e) es else None)"

definition events_of :: "string \<Rightarrow> OrderEvent list \<Rightarrow> OrderEvent list" where
  "events_of k es = filter (\<lambda>e. eOrderId e = k) es"

definition ledger_inv :: "ledger \<Rightarrow> bool" where
  "ledger_inv l \<longleftrightarrow>
     (case l of (os, es) \<Rightarrow>
        distinct (map oId os)
      \<and> (\<forall>r \<in> set os. first_violated (order_checks r) = None)
      \<and> (\<forall>r \<in> set os. \<forall>x \<in> set os. oId r \<noteq> oId x \<longrightarrow> \<not> order_clash r x)
      \<and> (\<forall>e \<in> set es. eOrderId e \<in> oId ` set os)
      \<and> (\<forall>r \<in> set os. trail Created (events_of (oId r) es) = Some (oStatus r)))"

lemma trail_append: "trail st (es @ fs) = (case trail st es of None \<Rightarrow> None | Some u \<Rightarrow> trail u fs)"
  by (induction es arbitrary: st) auto

text \<open>Where a trail ends, its last event points.\<close>

lemma trail_enters:
  "trail st es = Some fin \<Longrightarrow> st \<noteq> fin \<Longrightarrow> \<exists>e \<in> set es. eToStatus e = fin"
  by (induction es arbitrary: st) (auto split: if_splits)

text \<open>A status nothing leads back to, and the statuses an order passes at most once.\<close>

lemma trail_not_created:
  "trail st es = Some fin \<Longrightarrow> e \<in> set es \<Longrightarrow> eToStatus e \<noteq> Created"
  by (induction es arbitrary: st) (auto split: if_splits)

lemma trail_paid_from:
  "trail st es = Some fin \<Longrightarrow> st \<noteq> Created \<Longrightarrow> filter (\<lambda>e. eToStatus e = Paid) es = []"
proof (induction es arbitrary: st)
  case Nil
  then show ?case by simp
next
  case (Cons e es)
  then have "canTransition st (eToStatus e) (eActor e)" "trail (eToStatus e) es = Some fin"
    by (auto split: if_splits)
  moreover from this have "eToStatus e \<noteq> Created" "eToStatus e \<noteq> Paid"
    using Cons.prems(2) by auto
  ultimately show ?case using Cons.IH by simp
qed

lemma trail_paid_once:
  "trail Created es = Some fin \<Longrightarrow> length (filter (\<lambda>e. eToStatus e = Paid) es) \<le> 1"
proof (cases es)
  case (Cons e fs)
  assume a: "trail Created es = Some fin"
  with Cons have "canTransition Created (eToStatus e) (eActor e)" "trail (eToStatus e) fs = Some fin"
    by (auto split: if_splits)
  moreover from this have "eToStatus e \<noteq> Created" by auto
  ultimately show ?thesis using trail_paid_from Cons by simp
qed simp

lemma trail_terminal: "isTerminal st \<Longrightarrow> trail st es = Some fin \<Longrightarrow> es = []"
  by (cases es) (auto simp: canTransition_from_terminal split: if_splits)

lemma trail_refunded_once:
  "trail st es = Some fin \<Longrightarrow> length (filter (\<lambda>e. eToStatus e = Refunded) es) \<le> 1"
proof (induction es arbitrary: st)
  case Nil
  then show ?case by simp
next
  case (Cons e es)
  then have t: "trail (eToStatus e) es = Some fin" by (auto split: if_splits)
  then show ?case
    using Cons.IH [OF t] trail_terminal [of "eToStatus e" es fin] by (auto simp: isTerminal_iff)
qed

lemma events_of_append [simp]: "events_of k (es @ fs) = events_of k es @ events_of k fs"
  by (simp add: events_of_def)

lemma events_of_none: "k \<notin> eOrderId ` set es \<Longrightarrow> events_of k es = []"
  by (auto simp: events_of_def filter_empty_conv)

lemma order_clash_sym: "order_clash r x = order_clash x r"
  unfolding order_clash_def by metis

lemma unique_violation_None_iff:
  "order_unique_violation r others = None \<longleftrightarrow>
     (\<forall>x \<in> set others. oId x \<noteq> oId r \<and> \<not> order_clash r x)"
proof -
  let ?S = "set others"
  have ids: "oId r \<notin> oId ` ?S \<longleftrightarrow> (\<forall>x \<in> ?S. oId x \<noteq> oId r)"
    by (metis imageE image_eqI)
  have one: "(g r = None \<or> g r \<notin> g ` ?S) \<longleftrightarrow> (\<forall>x \<in> ?S. \<not> (g r \<noteq> None \<and> g r = g x))"
    for g :: "Order \<Rightarrow> string option" by (metis imageE image_eqI)
  have listing: "(\<not> order_open r \<or> oListingId r \<notin> oListingId ` set (filter order_open others)) \<longleftrightarrow>
      (\<forall>x \<in> ?S. \<not> (order_open r \<and> order_open x \<and> oListingId r = oListingId x))"
    by auto
  show ?thesis
    unfolding order_unique_violation_def first_violated_None_iff order_clash_def
    by (simp only: list.set ball_simps prod.case ids one listing) blast
qed

lemma terms_keep_id: "(\<And>x. order_terms (f x) = order_terms x) \<Longrightarrow> oId (f x) = oId x"
  by (simp add: order_terms_def)

lemma unlink_listing_fields [simp]:
  "oId (unlink_listing k r) = oId r" "oStatus (unlink_listing k r) = oStatus r"
  "order_terms (unlink_listing k r) = order_terms r"
  "order_checks (unlink_listing k r) = order_checks r"
  by (simp_all add: unlink_listing_def order_terms_def order_checks_def)

lemma clash_unlink: "order_clash (unlink_listing k r) (unlink_listing k x) \<Longrightarrow> order_clash r x"
  by (auto simp: order_clash_def unlink_listing_def order_open_def split: if_splits)

lemma ids_update:
  assumes "\<And>x. oId (f x) = oId x"
  shows "map oId (update_row oId k f os) = map oId os"
    and "oId ` set (update_row oId k f os) = oId ` set os"
proof -
  show ids: "map oId (update_row oId k f os) = map oId os"
    by (rule keyed_table.map_key_update) (simp add: keyed_table_def assms)
  then show "oId ` set (update_row oId k f os) = oId ` set os"
    by (metis set_map)
qed

text \<open>Replacing one row by a row the constraints accept keeps the tables consistent.\<close>

lemma rows_update:
  assumes dist: "distinct (map oId os)"
    and checks: "\<forall>r \<in> set os. first_violated (order_checks r) = None"
    and clash: "\<forall>r \<in> set os. \<forall>x \<in> set os. oId r \<noteq> oId x \<longrightarrow> \<not> order_clash r x"
    and row: "find_row oId k os = Some r"
    and keep: "\<And>x. oId (f x) = oId x"
    and ok: "first_violated (order_checks (f r)) = None"
    and uniq: "order_unique_violation (f r) (filter (\<lambda>x. oId x \<noteq> k) os) = None"
  shows "distinct (map oId (update_row oId k f os))"
    and "\<forall>r \<in> set (update_row oId k f os). first_violated (order_checks r) = None"
    and "\<forall>r \<in> set (update_row oId k f os). \<forall>x \<in> set (update_row oId k f os).
           oId r \<noteq> oId x \<longrightarrow> \<not> order_clash r x"
proof -
  show "distinct (map oId (update_row oId k f os))" using dist by (simp add: ids_update keep)
  have r: "r \<in> set os" "oId r = k" using find_row_SomeD [OF row] by auto
  have one: "x \<in> set os \<Longrightarrow> oId x = k \<Longrightarrow> x = r" for x
    using dist r by (auto simp: distinct_map inj_on_def)
  have mem: "y \<in> set (update_row oId k f os) \<Longrightarrow> y = f r \<or> y \<in> set os \<and> oId y \<noteq> k" for y
    using one by (auto simp: set_update_row split: if_splits)
  have fk: "oId (f r) = k" using keep r by simp
  show "\<forall>r \<in> set (update_row oId k f os). first_violated (order_checks r) = None"
    using mem checks ok by blast
  have far: "y \<in> set os \<Longrightarrow> oId y \<noteq> k \<Longrightarrow> \<not> order_clash (f r) y \<and> \<not> order_clash y (f r)" for y
    using uniq order_clash_sym by (auto simp: unique_violation_None_iff)
  show "\<forall>r \<in> set (update_row oId k f os). \<forall>x \<in> set (update_row oId k f os).
          oId r \<noteq> oId x \<longrightarrow> \<not> order_clash r x"
  proof (intro ballI impI)
    fix y x
    assume "y \<in> set (update_row oId k f os)" "x \<in> set (update_row oId k f os)" "oId y \<noteq> oId x"
    then show "\<not> order_clash y x"
      using mem [of y] mem [of x] far clash fk by auto
  qed
qed

lemma trail_rows_update:
  assumes trails: "\<forall>r \<in> set os. trail Created (events_of (oId r) es) = Some (oStatus r)"
    and row: "find_row oId k os = Some r" and dist: "distinct (map oId os)"
    and keep: "\<And>x. oId (f x) = oId x"
    and step: "trail (oStatus r) (events_of k new) = Some (oStatus (f r))"
    and other: "\<And>e. e \<in> set new \<Longrightarrow> eOrderId e = k"
  shows "\<forall>x \<in> set (update_row oId k f os).
           trail Created (events_of (oId x) (es @ new)) = Some (oStatus x)"
proof
  fix y assume y: "y \<in> set (update_row oId k f os)"
  have r: "r \<in> set os" "oId r = k" using find_row_SomeD [OF row] by auto
  have one: "x \<in> set os \<Longrightarrow> oId x = k \<Longrightarrow> x = r" for x
    using dist r by (auto simp: distinct_map inj_on_def)
  from y consider "y = f r" | "y \<in> set os" "oId y \<noteq> k"
    using one by (auto simp: set_update_row split: if_splits)
  then show "trail Created (events_of (oId y) (es @ new)) = Some (oStatus y)"
  proof cases
    case 1
    have "trail Created (events_of k es) = Some (oStatus r)" using trails r by blast
    with 1 step keep r show ?thesis by (simp add: trail_append)
  next
    case 2
    with other have "events_of (oId y) new = []" by (auto simp: events_of_def filter_empty_conv)
    with trails 2 show ?thesis by simp
  qed
qed

lemma ledger_inv_step:
  assumes inv: "ledger_inv (os, es)" and step: "ledger_step s (os, es) (os', es')"
  shows "ledger_inv (os', es')"
proof -
  from inv have dist: "distinct (map oId os)"
    and checks: "\<forall>r \<in> set os. first_violated (order_checks r) = None"
    and clash: "\<forall>r \<in> set os. \<forall>x \<in> set os. oId r \<noteq> oId x \<longrightarrow> \<not> order_clash r x"
    and refs: "\<forall>e \<in> set es. eOrderId e \<in> oId ` set os"
    and trails: "\<forall>r \<in> set os. trail Created (events_of (oId r) es) = Some (oStatus r)"
    by (auto simp: ledger_inv_def)
  from step show ?thesis
  proof cases
    case idle
    with inv show ?thesis by simp
  next
    case (born r)
    then have new: "\<forall>x \<in> set os. oId x \<noteq> oId r \<and> \<not> order_clash r x"
      by (simp add: unique_violation_None_iff)
    then have "oId r \<notin> eOrderId ` set es" using refs by (metis imageE)
    then have "events_of (oId r) es = []" by (rule events_of_none)
    with born new dist checks clash refs trails show ?thesis
      by (auto simp: ledger_inv_def order_clash_sym)
  next
    case (noted k r f)
    note keep = terms_keep_id [OF noted(6)]
    have rows: "distinct (map oId (update_row oId k f os))"
      "\<forall>r \<in> set (update_row oId k f os). first_violated (order_checks r) = None"
      "\<forall>r \<in> set (update_row oId k f os). \<forall>x \<in> set (update_row oId k f os).
           oId r \<noteq> oId x \<longrightarrow> \<not> order_clash r x"
      using rows_update [OF dist checks clash noted(3) keep noted(9,10)] by auto
    have "\<forall>x \<in> set (update_row oId k f os). trail Created (events_of (oId x) (es @ [])) = Some (oStatus x)"
      by (rule trail_rows_update [OF trails noted(3) dist keep])
         (use noted in \<open>simp_all add: events_of_def\<close>)
    moreover have "oId ` set (update_row oId k f os) = oId ` set os" using keep by (rule ids_update)
    ultimately show ?thesis using rows refs noted by (simp add: ledger_inv_def)
  next
    case (moved k r f e)
    note keep = terms_keep_id [OF moved(6)]
    have rows: "distinct (map oId (update_row oId k f os))"
      "\<forall>r \<in> set (update_row oId k f os). first_violated (order_checks r) = None"
      "\<forall>r \<in> set (update_row oId k f os). \<forall>x \<in> set (update_row oId k f os).
           oId r \<noteq> oId x \<longrightarrow> \<not> order_clash r x"
      using rows_update [OF dist checks clash moved(3) keep moved(9,10)] by auto
    have "\<forall>x \<in> set (update_row oId k f os). trail Created (events_of (oId x) (es @ [e])) = Some (oStatus x)"
      by (rule trail_rows_update [OF trails moved(3) dist keep])
         (use moved in \<open>simp_all add: events_of_def\<close>)
    moreover have "oId ` set (update_row oId k f os) = oId ` set os" using keep by (rule ids_update)
    moreover have "k \<in> oId ` set os" using find_row_SomeD [OF moved(3)] by auto
    ultimately show ?thesis using rows refs moved by (simp add: ledger_inv_def)
  next
    case (unlinked k)
    have "map (oId \<circ> unlink_listing k) os = map oId os" by simp
    then have "distinct (map (oId \<circ> unlink_listing k) os)" using dist by metis
    with unlinked dist checks clash refs trails show ?thesis
      by (auto simp: ledger_inv_def image_image dest: clash_unlink)
  qed
qed

section \<open>What a ledger only grows into\<close>

definition ledger_grows :: "ledger \<Rightarrow> ledger \<Rightarrow> bool" where
  "ledger_grows l l' \<longleftrightarrow>
     (\<exists>later. snd l' = snd l @ later)
   \<and> (\<forall>r \<in> set (fst l). \<exists>r' \<in> set (fst l').
        order_terms r' = order_terms r \<and> (isTerminal (oStatus r) \<longrightarrow> oStatus r' = oStatus r))"

lemma ledger_grows_refl: "ledger_grows l l"
  by (auto simp: ledger_grows_def)

lemma ledger_grows_trans: "ledger_grows a b \<Longrightarrow> ledger_grows b c \<Longrightarrow> ledger_grows a c"
  unfolding ledger_grows_def by (smt (verit, best) append_assoc)

lemma ledger_grows_update:
  assumes dist: "distinct (map oId os)" and row: "find_row oId k os = Some r"
    and keep: "\<And>x. order_terms (f x) = order_terms x"
    and fin: "isTerminal (oStatus r) \<Longrightarrow> oStatus (f r) = oStatus r"
  shows "ledger_grows (os, es) (update_row oId k f os, es @ later)"
proof -
  have r: "r \<in> set os" "oId r = k" using find_row_SomeD [OF row] by auto
  have one: "x \<in> set os \<Longrightarrow> oId x = k \<Longrightarrow> x = r" for x
    using dist r by (auto simp: distinct_map inj_on_def)
  have "\<exists>r' \<in> set (update_row oId k f os). order_terms r' = order_terms x
          \<and> (isTerminal (oStatus x) \<longrightarrow> oStatus r' = oStatus x)" if "x \<in> set os" for x
    using that one keep fin by (cases "oId x = k") (auto simp: set_update_row)
  then show ?thesis by (simp add: ledger_grows_def)
qed

lemma ledger_grows_step:
  assumes inv: "ledger_inv (os, es)" and step: "ledger_step s (os, es) (os', es')"
  shows "ledger_grows (os, es) (os', es')"
  using step
proof cases
  case (noted k r f)
  then show ?thesis using inv ledger_grows_update [of os k r f es "[]"] by (simp add: ledger_inv_def)
next
  case (moved k r f e)
  have "oStatus (f r) = oStatus r" if "isTerminal (oStatus r)"
    using canTransition_from_terminal [OF that] moved by blast
  then show ?thesis
    using moved inv ledger_grows_update [of os k r f es "[e]"] by (simp add: ledger_inv_def)
qed (auto simp: ledger_grows_def)

section \<open>The store refines the ledger\<close>

lemma ledger_of_frame:
  "orders db' = orders db \<Longrightarrow> orderEvents db' = orderEvents db \<Longrightarrow> ledger_of db' = ledger_of db"
  by (simp add: ledger_of_def)

lemma update_listing_ledger:
  "update_listing s cond k f db = Inr (res, db') \<Longrightarrow> ledger_of db' = ledger_of db"
  by (cases res) (auto simp: ledger_of_def dest!: update_listing_Inr update_listing_None)

lemma insert_order_ledger:
  assumes "insert_order s r db = Inr db'" "oStatus r = Created"
  shows "ledger_step s (ledger_of db) (ledger_of db')"
  using insert_order_Inr [OF assms(1)] assms(2)
  by (auto simp: ledger_of_def intro: ledger_step.born)

lemma createOrder_ledger:
  assumes "createOrder u input newId now db = Inr (r, db')"
  shows "ledger_step (AsUser u) (ledger_of db) (ledger_of db')"
  using assms by (auto simp: createOrder_def new_order_def split: sum.splits option.splits if_splits
      intro!: insert_order_ledger)

lemma attachCheckoutSession_ledger:
  assumes "attachCheckoutSession u k c now db = Inr db'"
  shows "ledger_step (AsUser u) (ledger_of db) (ledger_of db')"
proof -
  let ?f = "\<lambda>r. r\<lparr>oCheckoutId := Some c, oUpdatedAt := now\<rparr>"
  from assms obtain res where up: "update_order (AsUser u) k ?f db = Inr (res, db')"
    by (auto simp: attachCheckoutSession_def split: sum.splits)
  show ?thesis
  proof (cases res)
    case None
    with up show ?thesis by (auto dest: update_order_None intro: ledger_step.idle)
  next
    case (Some r')
    with up show ?thesis
      by (auto simp: ledger_of_def order_terms_def dest!: update_order_Inr intro!: ledger_step.noted)
  qed
qed

text \<open>The shape every status change has: one row updated, one event appended.\<close>

lemma update_and_event_ledger:
  assumes up: "update_order s k f db = Inr (Some r', db1)"
    and ev: "insert_event s e db1 = Inr db2"
    and sel: "find_row oId k (orders db) = Some r"
    and keep: "\<And>x. order_terms (f x) = order_terms x" "oListingId (f r) = oListingId r"
    and legal: "canTransition (oStatus r) (oStatus (f r)) (eActor e)"
    and e: "eOrderId e = k" "eFromStatus e = oStatus r" "eToStatus e = oStatus (f r)"
    and sig: "event_signed s r e"
  shows "ledger_step s (ledger_of db) (ledger_of db2)"
  using update_order_Inr [OF up] insert_event_Inr [OF ev] sel keep legal e sig
  by (auto simp: ledger_of_def intro!: ledger_step.moved)

lemma move_Inr:
  assumes "move s input evId now db = Inr (r', db')"
  obtains r db1 where "select_order s (mvOrderId input) db = Some r"
    "canTransition (oStatus r) (mvTo input) (mvActor input)"
    "mvMustBe input = None \<or> Some (party_of (the (mvMustBe input)) r) = mvActorId input"
    "update_order s (mvOrderId input) (move_set (mvSet input) (mvTo input) now) db = Inr (Some r', db1)"
    "insert_event s (move_event input (oStatus r) (mvTo input) evId now) db1 = Inr db'"
  using assms
  by (auto simp: move_def transition_Inr_iff split: option.splits sum.splits if_splits)

lemma move_ledger:
  assumes "move s input evId now db = Inr (r', db')"
    and sig: "\<And>r. order_visible s r \<Longrightarrow> select_order s (mvOrderId input) db = Some r \<Longrightarrow>
      mvMustBe input = None \<or> Some (party_of (the (mvMustBe input)) r) = mvActorId input \<Longrightarrow>
      event_signed s r (move_event input (oStatus r) (mvTo input) evId now)"
  shows "ledger_step s (ledger_of db) (ledger_of db')"
  using assms(1)
proof (rule move_Inr)
  fix r db1
  assume sel: "select_order s (mvOrderId input) db = Some r"
    and legal: "canTransition (oStatus r) (mvTo input) (mvActor input)"
    and who: "mvMustBe input = None \<or> Some (party_of (the (mvMustBe input)) r) = mvActorId input"
    and up: "update_order s (mvOrderId input) (move_set (mvSet input) (mvTo input) now) db
               = Inr (Some r', db1)"
    and ev: "insert_event s (move_event input (oStatus r) (mvTo input) evId now) db1 = Inr db'"
  from select_order_Some [OF sel]
  have row: "find_row oId (mvOrderId input) (orders db) = Some r" and vis: "order_visible s r" by auto
  show ?thesis
    by (rule update_and_event_ledger [OF up ev row])
       (use legal sig [OF vis sel who] in
         \<open>simp_all add: move_set_def order_terms_def move_event_def\<close>)
qed

lemma markOrderPaid_ledger:
  assumes "markOrderPaid input evId now db = Inr (res, db')"
  shows "ledger_step Worker (ledger_of db) (ledger_of db')"
proof -
  consider "db' = db"
    | existing db1 db2 updated where
      "select_order Worker (opOrderId input) db = Some existing"
      "canTransition (oStatus existing) Paid Stripe"
      "update_order Worker (opOrderId input) (paid_set input Paid now) db = Inr (Some updated, db1)"
      "insert_event Worker
         \<lparr>eId = evId, eOrderId = opOrderId input, eFromStatus = oStatus existing,
          eToStatus = Paid, eActor = Stripe, eActorId = None, eReason = None, eAt = now\<rparr> db1
        = Inr db2"
      "mark_listing_sold (oListingId existing) now db2 = Inr db'"
    using assms
    by (auto simp: markOrderPaid_def transition_Inr_iff split: option.splits sum.splits if_splits)
  then show ?thesis
  proof cases
    case 1
    then show ?thesis by (simp add: ledger_step.idle)
  next
    case (2 existing db1 db2 updated)
    have "ledger_of db' = ledger_of db2"
      using 2(5) by (auto simp: mark_listing_sold_def split: option.splits sum.splits
          dest: update_listing_ledger)
    moreover have "ledger_step Worker (ledger_of db) (ledger_of db2)"
      using 2(1,2) select_order_Some [OF 2(1)]
      by (intro update_and_event_ledger [OF 2(3,4)])
         (auto simp: paid_set_def order_terms_def event_signed_def)
    ultimately show ?thesis by simp
  qed
qed

lemma shipOrder_ledger:
  "shipOrder u k c t evId now db = Inr (r, db') \<Longrightarrow>
     ledger_step (AsUser u) (ledger_of db) (ledger_of db')"
  unfolding shipOrder_def
  by (erule move_ledger) (auto simp: event_signed_def move_event_def party_of_def)

lemma disputeOrder_ledger:
  "disputeOrder u k t evId now db = Inr (r, db') \<Longrightarrow>
     ledger_step (AsUser u) (ledger_of db) (ledger_of db')"
  unfolding disputeOrder_def
  by (erule move_ledger) (auto simp: event_signed_def move_event_def party_of_def)

lemma cancelOrder_ledger:
  assumes "cancelOrder u k t evId now db = Inr (r, db')"
  shows "ledger_step (AsUser u) (ledger_of db) (ledger_of db')"
  using assms unfolding cancelOrder_def
  by (auto split: option.splits
      elim!: move_ledger simp: event_signed_def move_event_def order_visible_def)

lemma markOrderDelivered_ledger:
  "markOrderDelivered k c a t evId now db = Inr (r, db') \<Longrightarrow>
     ledger_step Worker (ledger_of db) (ledger_of db')"
  unfolding markOrderDelivered_def
  by (erule move_ledger)
     (auto simp: event_signed_def move_event_def confirmer_actor_def split: confirmer.splits)

lemma completeOrder_ledger:
  "completeOrder k c a t evId now db = Inr (r, db') \<Longrightarrow>
     ledger_step Worker (ledger_of db) (ledger_of db')"
  unfolding completeOrder_def
  by (erule move_ledger)
     (auto simp: event_signed_def move_event_def confirmer_actor_def split: confirmer.splits)

lemma stripe_move_ledger:
  "move Worker (stripe_move k st t) evId now db = Inr (r, db') \<Longrightarrow>
     ledger_step Worker (ledger_of db) (ledger_of db')"
  by (erule move_ledger) (auto simp: event_signed_def move_event_def stripe_move_def)

lemma markOrderRefunded_ledger:
  "markOrderRefunded k t evId now db = Inr (r, db') \<Longrightarrow>
     ledger_step Worker (ledger_of db) (ledger_of db')"
  by (auto simp: markOrderRefunded_def split: option.splits if_splits sum.splits
      intro: stripe_move_ledger ledger_step.idle)

lemma markOrderChargedBack_ledger:
  "markOrderChargedBack p t evId now db = Inr (r, db') \<Longrightarrow>
     ledger_step Worker (ledger_of db) (ledger_of db')"
  by (auto simp: markOrderChargedBack_def split: option.splits if_splits sum.splits
      intro: stripe_move_ledger ledger_step.idle)

end
