(* ===== verification/ListingStore.thy ===== *)
theory ListingStore
  imports MarketDb
begin

text \<open>
  The listing queries (\<open>packages/db/src/queries/market.ts\<close>): creating, editing, publishing,
  withdrawing and deleting a listing on the session role, and what each role may read.
\<close>

datatype listing_error =
    InvalidListing ListingError
  | ListingNotFoundError
  | ListingMissingReference string
  | ListingDbError db_error

record CreateListingInput = ListingDraft +
  clCardVariantId :: string
  clCondition :: CardCondition
  clCurrency :: "string option"

record UpdateListingInput = ListingDraft +
  ulCondition :: "CardCondition option"

section \<open>Writes\<close>

definition new_listing :: "string \<Rightarrow> CreateListingInput \<Rightarrow> string \<Rightarrow> int \<Rightarrow> Listing" where
  "new_listing sellerId input newId now =
     \<lparr>lId = newId, lSellerId = sellerId, lCardVariantId = clCardVariantId input,
      lCondition = clCondition input, lPriceCents = to_int (draftPriceCents input),
      lCurrency = (case clCurrency input of None \<Rightarrow> ''USD'' | Some c \<Rightarrow> c),
      lQuantity = to_int (draftQuantity input), lStatus = Draft,
      lPhotoRequired = photosRequiredFor (to_int (draftPriceCents input)),
      lNotes = draftNotes input, lCreatedAt = now, lUpdatedAt = now\<rparr>"

definition createListing ::
  "string \<Rightarrow> CreateListingInput \<Rightarrow> string \<Rightarrow> int \<Rightarrow> market_db
     \<Rightarrow> listing_error + Listing \<times> market_db" where
  "createListing sellerId input newId now db =
     (case validateListing (ListingDraft.truncate input) of
        Some e \<Rightarrow> Inl (InvalidListing e)
      | None \<Rightarrow>
        (case insert_listing (AsUser sellerId) (new_listing sellerId input newId now) db of
           Inl e \<Rightarrow>
             if isForeignKeyViolation e then Inl (ListingMissingReference ''card'')
             else Inl (ListingDbError e)
         | Inr db' \<Rightarrow> Inr (new_listing sellerId input newId now, db')))"

definition own_listing :: "string \<Rightarrow> Listing \<Rightarrow> bool" where
  "own_listing sellerId r \<longleftrightarrow> lSellerId r = sellerId"

definition update_set :: "UpdateListingInput \<Rightarrow> int \<Rightarrow> Listing \<Rightarrow> Listing" where
  "update_set input now r =
     r\<lparr>lPriceCents := to_int (draftPriceCents input),
       lQuantity := to_int (draftQuantity input),
       lNotes := draftNotes input,
       lCondition := (case ulCondition input of None \<Rightarrow> lCondition r | Some c \<Rightarrow> c),
       lPhotoRequired := photosRequiredFor (to_int (draftPriceCents input)),
       lUpdatedAt := now\<rparr>"

definition updateListing ::
  "string \<Rightarrow> string \<Rightarrow> UpdateListingInput \<Rightarrow> int \<Rightarrow> market_db
     \<Rightarrow> listing_error + Listing \<times> market_db" where
  "updateListing sellerId k input now db =
     (case validateListing (ListingDraft.truncate input) of
        Some e \<Rightarrow> Inl (InvalidListing e)
      | None \<Rightarrow>
        (case update_listing (AsUser sellerId) (own_listing sellerId) k (update_set input now) db of
           Inl e \<Rightarrow> Inl (ListingDbError e)
         | Inr (None, _) \<Rightarrow> Inl ListingNotFoundError
         | Inr (Some row, db') \<Rightarrow> Inr (row, db')))"

text \<open>The argument's type has no \<open>sold\<close>; the policy has none either.\<close>

definition setListingStatus ::
  "string \<Rightarrow> string \<Rightarrow> ListingStatus \<Rightarrow> int \<Rightarrow> market_db
     \<Rightarrow> listing_error + Listing \<times> market_db" where
  "setListingStatus sellerId k st now db =
     (case update_listing (AsUser sellerId) (own_listing sellerId) k
             (\<lambda>r. r\<lparr>lStatus := st, lUpdatedAt := now\<rparr>) db of
        Inl e \<Rightarrow> Inl (ListingDbError e)
      | Inr (None, _) \<Rightarrow> Inl ListingNotFoundError
      | Inr (Some row, db') \<Rightarrow> Inr (row, db'))"

definition deleteDraftListing :: "string \<Rightarrow> string \<Rightarrow> market_db \<Rightarrow> bool \<times> market_db" where
  "deleteDraftListing sellerId k db =
     (case find_row lId k (listings db) of
        None \<Rightarrow> (False, db)
      | Some r \<Rightarrow>
          if lSellerId r = sellerId \<and> lStatus r = Draft then (True, delete_listing k db)
          else (False, db))"

section \<open>Reads\<close>

definition listMyListings :: "string \<Rightarrow> market_db \<Rightarrow> Listing list" where
  "listMyListings sellerId db =
     sort_key (\<lambda>r. - lCreatedAt r)
       (filter (\<lambda>r. lSellerId r = sellerId \<and> listing_visible (AsUser sellerId) r) (listings db))"

definition listActiveForVariant :: "session \<Rightarrow> string \<Rightarrow> nat \<Rightarrow> market_db \<Rightarrow> Listing list" where
  "listActiveForVariant s cardVariantId limit db =
     take limit
       (sort_key lPriceCents
         (filter (\<lambda>r. listing_visible s r \<and> lCardVariantId r = cardVariantId \<and> lStatus r = Active)
           (listings db)))"

text \<open>A viewer of \<open>None\<close> is the read-only role.\<close>

definition viewer_session :: "string option \<Rightarrow> session" where
  "viewer_session viewer = (case viewer of None \<Rightarrow> ReadOnly | Some u \<Rightarrow> AsUser u)"

definition getListing :: "string option \<Rightarrow> string \<Rightarrow> market_db \<Rightarrow> Listing option" where
  "getListing viewerId k db =
     (case find_row lId k (listings db) of
        None \<Rightarrow> None
      | Some r \<Rightarrow> if listing_visible (viewer_session viewerId) r then Some r else None)"

definition countSellerListingsSince :: "string \<Rightarrow> int \<Rightarrow> market_db \<Rightarrow> int" where
  "countSellerListingsSince sellerId since db =
     int (length (filter (\<lambda>r. lSellerId r = sellerId \<and> listing_visible (AsUser sellerId) r
                    \<and> lCreatedAt r \<ge> since) (listings db)))"

section \<open>Lemmas\<close>

lemma truncate_draft [simp]:
  "draftPriceCents (ListingDraft.truncate r) = draftPriceCents r"
  "draftQuantity (ListingDraft.truncate r) = draftQuantity r"
  "draftNotes (ListingDraft.truncate r) = draftNotes r"
  by (simp_all add: ListingDraft.truncate_def)

text \<open>What validation accepts, the CHECK constraints accept: the two statements of the rule agree.\<close>

lemma validated_listing_checks:
  assumes "validateListing d = None" "iso_currency (lCurrency r)"
    "lPriceCents r = to_int (draftPriceCents d)" "lQuantity r = to_int (draftQuantity d)"
    "lNotes r = draftNotes d"
  shows "first_violated (listing_checks r) = None" "listing_int4 r"
  using assms
  by (auto simp: validateListing_None_iff listing_checks_def listing_int4_def int4_def
      MAX_LISTING_PRICE_CENTS_def MAX_LISTING_QUANTITY_def split: option.splits)

lemma createListing_Inr:
  assumes "createListing u input newId now db = Inr (r, db')"
  shows "validateListing (ListingDraft.truncate input) = None
    \<and> r = new_listing u input newId now \<and> lId r \<notin> lId ` set (listings db)
    \<and> first_violated (listing_checks r) = None
    \<and> db' = db\<lparr>listings := listings db @ [r]\<rparr>"
  using assms by (auto simp: createListing_def split: option.splits sum.splits if_splits
      dest: insert_listing_Inr)

lemma setListingStatus_Inr:
  assumes "setListingStatus u k st now db = Inr (r', db')"
  shows "\<exists>r. find_row lId k (listings db) = Some r \<and> lSellerId r = u \<and> st \<noteq> Sold
    \<and> r' = r\<lparr>lStatus := st, lUpdatedAt := now\<rparr>
    \<and> db' = db\<lparr>listings := update_row lId k (\<lambda>r. r\<lparr>lStatus := st, lUpdatedAt := now\<rparr>) (listings db)\<rparr>"
  using assms by (fastforce simp: setListingStatus_def listing_update_allowed_def own_listing_def
      split: sum.splits option.splits dest!: update_listing_Inr)

lemma updateListing_Inr:
  assumes "updateListing u k input now db = Inr (r', db')"
  shows "\<exists>r. find_row lId k (listings db) = Some r \<and> lSellerId r = u \<and> lStatus r \<noteq> Sold
    \<and> r' = update_set input now r
    \<and> validateListing (ListingDraft.truncate input) = None
    \<and> first_violated (listing_checks r') = None
    \<and> db' = db\<lparr>listings := update_row lId k (update_set input now) (listings db)\<rparr>"
  using assms by (fastforce simp: updateListing_def listing_update_allowed_def own_listing_def update_set_def
      split: sum.splits option.splits dest!: update_listing_Inr)

text \<open>A listing somebody else wrote, or a sold one, cannot be edited by a session.\<close>

lemma listing_edit_refused:
  assumes "find_row lId k (listings db) = Some r" "lSellerId r \<noteq> u"
  shows "setListingStatus u k st now db = Inl ListingNotFoundError"
  using assms by (simp add: setListingStatus_def update_listing_def own_listing_def)

end
