(* ===== verification/PhotoStore.thy ===== *)
theory PhotoStore
  imports MarketDb
begin

text \<open>
  Photographs of a listing (\<open>packages/db/src/queries/photos.ts\<close> and \<open>coverPhotoKeys\<close> of
  \<open>market.ts\<close>): the seller's half on the session role, which can reserve, order and remove but
  not approve, and the pipeline's half on the worker role.
\<close>

datatype photo_error =
    ListingNotYoursError
  | PhotoLimitError
  | PhotoNotFoundError
  | PhotoDbError db_error

section \<open>The table's policies and constraints\<close>

definition photo_listing :: "market_db \<Rightarrow> ListingPhoto \<Rightarrow> Listing option" where
  "photo_listing db p = find_row lId (pListingId p) (listings db)"

definition photo_owned :: "string \<Rightarrow> market_db \<Rightarrow> ListingPhoto \<Rightarrow> bool" where
  "photo_owned u db p =
     (case photo_listing db p of None \<Rightarrow> False | Some l \<Rightarrow> lSellerId l = u)"

definition photo_public :: "market_db \<Rightarrow> ListingPhoto \<Rightarrow> bool" where
  "photo_public db p =
     (case photo_listing db p of
        None \<Rightarrow> False
      | Some l \<Rightarrow> lStatus l = Active \<and> pStatus p = Approved)"

definition photo_visible :: "session \<Rightarrow> market_db \<Rightarrow> ListingPhoto \<Rightarrow> bool" where
  "photo_visible s db p =
     (case s of
        AsUser u \<Rightarrow> photo_owned u db p \<or> photo_public db p
      | Worker \<Rightarrow> True
      | ReadOnly \<Rightarrow> photo_public db p)"

definition photo_writable :: "session \<Rightarrow> market_db \<Rightarrow> ListingPhoto \<Rightarrow> bool" where
  "photo_writable s db p =
     (case s of AsUser u \<Rightarrow> photo_owned u db p | Worker \<Rightarrow> True | ReadOnly \<Rightarrow> False)"

definition lower_hex :: "char \<Rightarrow> bool" where
  "lower_hex c \<longleftrightarrow> is_digit c \<or> in_range (CHR ''a'') (CHR ''f'') c"

definition opt_within :: "int \<Rightarrow> int \<Rightarrow> int option \<Rightarrow> bool" where
  "opt_within lo hi x = (case x of None \<Rightarrow> True | Some n \<Rightarrow> lo \<le> n \<and> n \<le> hi)"

definition photo_checks :: "ListingPhoto \<Rightarrow> (string \<times> bool) list" where
  "photo_checks p =
     [(''listing_photos_approved_is_complete'',
         pStatus p \<noteq> Approved
           \<or> pObjectKey p \<noteq> None \<and> pWidth p \<noteq> None \<and> pHeight p \<noteq> None
             \<and> pSha256 p \<noteq> None \<and> pScannedAt p \<noteq> None),
      (''listing_photos_dimensions_sane'',
         opt_within 1 8000 (pWidth p) \<and> opt_within 1 8000 (pHeight p)),
      (''listing_photos_position_sane'', 0 \<le> pPosition p \<and> pPosition p < 8),
      (''listing_photos_rejected_has_reason'',
         pStatus p \<noteq> Rejected \<or> pRejectionReason p \<noteq> None),
      (''listing_photos_sha256_hex'',
         case pSha256 p of None \<Rightarrow> True | Some h \<Rightarrow> length h = 64 \<and> list_all lower_hex h),
      (''listing_photos_size_sane'', opt_within 1 10485760 (pByteSize p))]"

definition photo_unique_violation :: "ListingPhoto \<Rightarrow> ListingPhoto list \<Rightarrow> string option" where
  "photo_unique_violation p others =
     first_violated
       [(''listing_photos_pkey'', pId p \<notin> pId ` set others),
        (''listing_photos_upload_key'', pUploadKey p \<notin> pUploadKey ` set others),
        (''listing_photos_object_key'',
           pObjectKey p = None \<or> pObjectKey p \<notin> pObjectKey ` set others)]"

definition opt_int4 :: "int option \<Rightarrow> bool" where
  "opt_int4 x = (case x of None \<Rightarrow> True | Some n \<Rightarrow> int4 n)"

definition photo_int4 :: "ListingPhoto \<Rightarrow> bool" where
  "photo_int4 p \<longleftrightarrow>
     int4 (pPosition p) \<and> opt_int4 (pWidth p) \<and> opt_int4 (pHeight p) \<and> opt_int4 (pByteSize p)"

definition insert_photo :: "session \<Rightarrow> ListingPhoto \<Rightarrow> market_db \<Rightarrow> db_error + market_db" where
  "insert_photo s p db =
     (if \<not> photo_int4 p then Inl OutOfRange
      else if \<not> (photo_writable s db p \<and> (pStatus p = Pending \<or> s = Worker)) then Inl RowSecurity
      else case first_violated (photo_checks p) of
        Some c \<Rightarrow> Inl (CheckViolation c)
      | None \<Rightarrow>
        case photo_unique_violation p (listingPhotos db) of
          Some c \<Rightarrow> Inl (UniqueViolation c)
        | None \<Rightarrow>
          if pListingId p \<notin> lId ` set (listings db)
          then Inl (ForeignKeyViolation ''listing_photos_listing_id_listings_id_fk'')
          else Inr (db\<lparr>listingPhotos := listingPhotos db @ [p]\<rparr>))"

definition update_photo ::
  "session \<Rightarrow> (ListingPhoto \<Rightarrow> bool) \<Rightarrow> string \<Rightarrow> (ListingPhoto \<Rightarrow> ListingPhoto) \<Rightarrow> market_db
     \<Rightarrow> db_error + ListingPhoto option \<times> market_db" where
  "update_photo s cond k f db =
     (case find_row pId k (listingPhotos db) of
        None \<Rightarrow> Inr (None, db)
      | Some p \<Rightarrow>
        if \<not> (cond p \<and> photo_writable s db p) then Inr (None, db)
        else if \<not> photo_int4 (f p) then Inl OutOfRange
        else case first_violated (photo_checks (f p)) of
          Some c \<Rightarrow> Inl (CheckViolation c)
        | None \<Rightarrow>
          case photo_unique_violation (f p) (filter (\<lambda>x. pId x \<noteq> k) (listingPhotos db)) of
            Some c \<Rightarrow> Inl (UniqueViolation c)
          | None \<Rightarrow> Inr (Some (f p), db\<lparr>listingPhotos := update_row pId k f (listingPhotos db)\<rparr>))"

section \<open>The seller's half\<close>

definition new_photo :: "string \<Rightarrow> string \<Rightarrow> string \<Rightarrow> int \<Rightarrow> string \<Rightarrow> int \<Rightarrow> ListingPhoto" where
  "new_photo listingId uploadKey contentType position newId now =
     \<lparr>pId = newId, pListingId = listingId, pUploadKey = uploadKey, pObjectKey = None,
      pStatus = Pending, pRejectionReason = None, pContentType = Some contentType,
      pByteSize = None, pWidth = None, pHeight = None, pSha256 = None, pScannedAt = None,
      pPosition = position, pCreatedAt = now, pUpdatedAt = now\<rparr>"

definition listing_photos_seen :: "session \<Rightarrow> string \<Rightarrow> market_db \<Rightarrow> ListingPhoto list" where
  "listing_photos_seen s listingId db =
     filter (\<lambda>p. pListingId p = listingId \<and> photo_visible s db p) (listingPhotos db)"

definition startPhotoUpload ::
  "string \<Rightarrow> string \<Rightarrow> string \<Rightarrow> string \<Rightarrow> string \<Rightarrow> int \<Rightarrow> market_db
     \<Rightarrow> photo_error + ListingPhoto \<times> market_db" where
  "startPhotoUpload sellerId listingId uploadKey contentType newId now db =
     (case find_row lId listingId (listings db) of
        None \<Rightarrow> Inl ListingNotYoursError
      | Some l \<Rightarrow>
        if lSellerId l \<noteq> sellerId then Inl ListingNotYoursError
        else
          let existing = int (length (listing_photos_seen (AsUser sellerId) listingId db))
          in if existing \<ge> MAX_PHOTOS_PER_LISTING then Inl PhotoLimitError
             else
               let p = new_photo listingId uploadKey contentType existing newId now
               in case insert_photo (AsUser sellerId) p db of
                    Inl e \<Rightarrow> Inl (PhotoDbError e)
                  | Inr db' \<Rightarrow> Inr (p, db'))"

definition listPhotos :: "string \<Rightarrow> string \<Rightarrow> market_db \<Rightarrow> ListingPhoto list" where
  "listPhotos viewerId listingId db =
     sort_key pPosition (listing_photos_seen (AsUser viewerId) listingId db)"

definition countApprovedPhotos :: "string \<Rightarrow> string \<Rightarrow> market_db \<Rightarrow> int" where
  "countApprovedPhotos viewerId listingId db =
     int (length (filter (\<lambda>p. pStatus p = Approved)
                    (listing_photos_seen (AsUser viewerId) listingId db)))"

definition deletePhoto :: "string \<Rightarrow> string \<Rightarrow> market_db \<Rightarrow> photo_error + ListingPhoto \<times> market_db" where
  "deletePhoto sellerId photoId db =
     (case find_row pId photoId (listingPhotos db) of
        None \<Rightarrow> Inl PhotoNotFoundError
      | Some p \<Rightarrow>
          if \<not> photo_writable (AsUser sellerId) db p then Inl PhotoNotFoundError
          else Inr (p, db\<lparr>listingPhotos := filter (\<lambda>x. pId x \<noteq> photoId) (listingPhotos db)\<rparr>))"

text \<open>The loop of \<open>reorderPhotos\<close>: one update per entry.\<close>

fun write_positions ::
  "string \<Rightarrow> int \<Rightarrow> int \<Rightarrow> string list \<Rightarrow> market_db \<Rightarrow> db_error + market_db" where
  "write_positions u now position [] db = Inr db"
| "write_positions u now position (k # ks) db =
     (case update_photo (AsUser u) (\<lambda>_. True) k
             (\<lambda>p. p\<lparr>pPosition := position, pUpdatedAt := now\<rparr>) db of
        Inl e \<Rightarrow> Inl e
      | Inr (_, db') \<Rightarrow> write_positions u now (position + 1) ks db')"

definition reorderPhotos ::
  "string \<Rightarrow> string \<Rightarrow> string list \<Rightarrow> int \<Rightarrow> market_db
     \<Rightarrow> photo_error + ListingPhoto list \<times> market_db" where
  "reorderPhotos sellerId listingId photoIds now db =
     (let known = remdups (map pId (listing_photos_seen (AsUser sellerId) listingId db));
          wanted = remdups photoIds
      in if length wanted \<noteq> length photoIds \<or> length wanted \<noteq> length known
         then Inl PhotoNotFoundError
         else if \<not> list_all (\<lambda>k. k \<in> set known) photoIds then Inl PhotoNotFoundError
         else case write_positions sellerId now 0 photoIds db of
           Inl e \<Rightarrow> Inl (PhotoDbError e)
         | Inr db' \<Rightarrow>
             Inr (sort_key pPosition (listing_photos_seen (AsUser sellerId) listingId db'), db'))"

section \<open>The pipeline's half\<close>

definition pendingPhotos :: "nat \<Rightarrow> market_db \<Rightarrow> ListingPhoto list" where
  "pendingPhotos limit db =
     take limit (sort_key pCreatedAt (filter (\<lambda>p. pStatus p = Pending) (listingPhotos db)))"

record ApprovedPhotoFacts =
  apObjectKey :: string
  apWidth :: int
  apHeight :: int
  apSha256 :: string
  apByteSize :: int
  apContentType :: string

definition approve_set :: "ApprovedPhotoFacts \<Rightarrow> int \<Rightarrow> ListingPhoto \<Rightarrow> ListingPhoto" where
  "approve_set facts now p =
     p\<lparr>pStatus := Approved, pObjectKey := Some (apObjectKey facts),
       pWidth := Some (apWidth facts), pHeight := Some (apHeight facts),
       pSha256 := Some (apSha256 facts), pByteSize := Some (apByteSize facts),
       pContentType := Some (apContentType facts), pRejectionReason := None,
       pScannedAt := Some now, pUpdatedAt := now\<rparr>"

definition approvePhoto ::
  "string \<Rightarrow> ApprovedPhotoFacts \<Rightarrow> int \<Rightarrow> market_db
     \<Rightarrow> photo_error + ListingPhoto option \<times> market_db" where
  "approvePhoto photoId facts now db =
     (case update_photo Worker (\<lambda>p. pStatus p \<noteq> Approved) photoId (approve_set facts now) db of
        Inl e \<Rightarrow> Inl (PhotoDbError e)
      | Inr res \<Rightarrow> Inr res)"

definition reject_set :: "string \<Rightarrow> int \<Rightarrow> ListingPhoto \<Rightarrow> ListingPhoto" where
  "reject_set reason now p =
     p\<lparr>pStatus := Rejected, pRejectionReason := Some reason, pObjectKey := None,
       pScannedAt := Some now, pUpdatedAt := now\<rparr>"

definition rejectPhoto ::
  "string \<Rightarrow> string \<Rightarrow> int \<Rightarrow> market_db \<Rightarrow> photo_error + ListingPhoto option \<times> market_db" where
  "rejectPhoto photoId reason now db =
     (case update_photo Worker (\<lambda>_. True) photoId (reject_set reason now) db of
        Inl e \<Rightarrow> Inl (PhotoDbError e)
      | Inr res \<Rightarrow> Inr res)"

definition listingsSharingPhoto :: "string \<Rightarrow> string \<Rightarrow> market_db \<Rightarrow> string list" where
  "listingsSharingPhoto sha exceptListingId db =
     remdups (map pListingId
       (filter (\<lambda>p. pSha256 p = Some sha \<and> pListingId p \<noteq> exceptListingId) (listingPhotos db)))"

text \<open>The loop that keeps the first row seen for each listing.\<close>

fun first_keys :: "ListingPhoto list \<Rightarrow> (string \<times> string) list \<Rightarrow> (string \<times> string) list" where
  "first_keys [] covers = covers"
| "first_keys (p # ps) covers =
     (case pObjectKey p of
        None \<Rightarrow> first_keys ps covers
      | Some k \<Rightarrow>
          if map_of covers (pListingId p) = None
          then first_keys ps (covers @ [(pListingId p, k)])
          else first_keys ps covers)"

definition coverPhotoKeys :: "session \<Rightarrow> string list \<Rightarrow> market_db \<Rightarrow> (string \<times> string) list" where
  "coverPhotoKeys s listingIds db =
     (let wanted = remdups listingIds
      in if wanted = [] then []
         else first_keys
           (sort_key pPosition
             (filter (\<lambda>p. photo_visible s db p \<and> pListingId p \<in> set wanted
                        \<and> pStatus p = Approved \<and> pObjectKey p \<noteq> None) (listingPhotos db)))
           [])"

end
