(* ===== verification/RatingStore.thy ===== *)
theory RatingStore
  imports MarketDb
begin

text \<open>
  Ratings (\<open>packages/db/src/queries/ratings.ts\<close>, migration 0045): a rating is a receipt for a
  completed order, and a seller's reputation is computed from the receipts. The average is the
  language's double arithmetic.
\<close>

datatype rating_error = NotRatableError | AlreadyRatedError | RatingDbError db_error

section \<open>The table's policies and constraints\<close>

definition rating_insert_allowed :: "string \<Rightarrow> market_db \<Rightarrow> Rating \<Rightarrow> bool" where
  "rating_insert_allowed u db r \<longleftrightarrow>
     rRaterId r = u
     \<and> list_ex (\<lambda>x. oId x = rOrderId r \<and> oBuyerId x = u \<and> oSellerId x = rSellerId r
                   \<and> oStatus x = Completed) (orders db)"

definition rating_checks :: "Rating \<Rightarrow> (string \<times> bool) list" where
  "rating_checks r =
     [(''order_ratings_comment_length'',
         case rComment r of None \<Rightarrow> True | Some t \<Rightarrow> length t \<le> 500),
      (''order_ratings_not_self'', rRaterId r \<noteq> rSellerId r),
      (''order_ratings_stars_range'', 1 \<le> rStars r \<and> rStars r \<le> 5)]"

definition insert_rating :: "string \<Rightarrow> Rating \<Rightarrow> market_db \<Rightarrow> db_error + market_db" where
  "insert_rating u r db =
     (if \<not> int4 (rStars r) then Inl OutOfRange
      else if \<not> rating_insert_allowed u db r then Inl RowSecurity
      else case first_violated (rating_checks r) of
        Some c \<Rightarrow> Inl (CheckViolation c)
      | None \<Rightarrow>
        if rId r \<in> rId ` set (orderRatings db) then Inl (UniqueViolation ''order_ratings_pkey'')
        else if rOrderId r \<in> rOrderId ` set (orderRatings db)
        then Inl (UniqueViolation ''order_ratings_order_key'')
        else Inr (db\<lparr>orderRatings := orderRatings db @ [r]\<rparr>))"

section \<open>Leaving and changing a rating\<close>

definition new_rating :: "string \<Rightarrow> string \<Rightarrow> string \<Rightarrow> int \<Rightarrow> string option \<Rightarrow> string \<Rightarrow> int \<Rightarrow> Rating" where
  "new_rating orderId sellerId raterId stars comment newId now =
     \<lparr>rId = newId, rOrderId = orderId, rSellerId = sellerId, rRaterId = raterId, rStars = stars,
      rComment = comment, rCreatedAt = now, rUpdatedAt = now\<rparr>"

definition rateOrder ::
  "string \<Rightarrow> string \<Rightarrow> int \<Rightarrow> string option \<Rightarrow> string \<Rightarrow> int \<Rightarrow> market_db
     \<Rightarrow> rating_error + Rating \<times> market_db" where
  "rateOrder raterId orderId stars comment newId now db =
     (case select_order (AsUser raterId) orderId db of
        None \<Rightarrow> Inl NotRatableError
      | Some order \<Rightarrow>
        let r = new_rating orderId (oSellerId order) raterId stars comment newId now
        in case insert_rating raterId r db of
             Inr db' \<Rightarrow> Inr (r, db')
           | Inl e \<Rightarrow>
               if isUniqueViolation e (Some ''order_ratings_order_key'') then Inl AlreadyRatedError
               else if isInsufficientPrivilege e then Inl NotRatableError
               else Inl (RatingDbError e))"

definition rating_set :: "int \<Rightarrow> string option \<Rightarrow> int \<Rightarrow> Rating \<Rightarrow> Rating" where
  "rating_set stars comment now r = r\<lparr>rStars := stars, rComment := comment, rUpdatedAt := now\<rparr>"

definition updateRating ::
  "string \<Rightarrow> string \<Rightarrow> int \<Rightarrow> string option \<Rightarrow> int \<Rightarrow> market_db
     \<Rightarrow> rating_error + Rating \<times> market_db" where
  "updateRating raterId ratingId stars comment now db =
     (case find_row rId ratingId (orderRatings db) of
        None \<Rightarrow> Inl NotRatableError
      | Some r \<Rightarrow>
        if rRaterId r \<noteq> raterId then Inl NotRatableError
        else if \<not> int4 stars then Inl (RatingDbError OutOfRange)
        else case first_violated (rating_checks (rating_set stars comment now r)) of
          Some c \<Rightarrow> Inl (RatingDbError (CheckViolation c))
        | None \<Rightarrow>
            Inr (rating_set stars comment now r,
                 db\<lparr>orderRatings :=
                      update_row rId ratingId (rating_set stars comment now) (orderRatings db)\<rparr>))"

definition getMyRating :: "string \<Rightarrow> string \<Rightarrow> market_db \<Rightarrow> Rating option" where
  "getMyRating raterId orderId db =
     find (\<lambda>r. rOrderId r = orderId \<and> rRaterId r = raterId) (orderRatings db)"

section \<open>Reputation\<close>

text \<open>What a stranger is shown: no rater.\<close>

record PublicRating =
  prId :: string
  prStars :: int
  prComment :: "string option"
  prCreatedAt :: int

definition listSellerRatings :: "string \<Rightarrow> nat \<Rightarrow> market_db \<Rightarrow> PublicRating list" where
  "listSellerRatings sellerId limit db =
     map (\<lambda>r. \<lparr>prId = rId r, prStars = rStars r, prComment = rComment r, prCreatedAt = rCreatedAt r\<rparr>)
       (take limit
         (sort_key (\<lambda>r. - rCreatedAt r) (filter (\<lambda>r. rSellerId r = sellerId) (orderRatings db))))"

definition averageStars :: "int \<Rightarrow> int \<Rightarrow> rat option" where
  "averageStars totalStars cnt =
     (if cnt = 0 then None
      else Some (dbl (of_int (math_round (dbl (dbl (of_int totalStars / of_int cnt) * 10))) / 10)))"

record Reputation =
  repSellerId :: string
  repAverage :: "rat option"
  repCount :: int
  repDistribution :: "int list"

text \<open>\<open>select stars, count(*) ... group by stars\<close>, one pair per value present.\<close>

definition star_groups :: "Rating list \<Rightarrow> (int \<times> int) list" where
  "star_groups rows =
     map (\<lambda>n. (n, int (length (filter (\<lambda>r. rStars r = n) rows)))) (remdups (map rStars rows))"

definition count_of :: "(int \<times> int) list \<Rightarrow> int \<Rightarrow> int" where
  "count_of counts n = (case map_of counts n of None \<Rightarrow> 0 | Some k \<Rightarrow> k)"

definition getReputation :: "string \<Rightarrow> market_db \<Rightarrow> Reputation" where
  "getReputation sellerId db =
     (let rows = star_groups (filter (\<lambda>r. rSellerId r = sellerId) (orderRatings db));
          total = foldl (\<lambda>t (stars, n). t + stars * n) 0 rows;
          cnt = foldl (\<lambda>c (stars, n). c + n) 0 rows
      in \<lparr>repSellerId = sellerId, repAverage = averageStars total cnt, repCount = cnt,
          repDistribution = map (count_of rows) [1, 2, 3, 4, 5]\<rparr>)"

definition reputationOf :: "string list \<Rightarrow> market_db \<Rightarrow> (string \<times> rat option \<times> int) list" where
  "reputationOf sellerIds db =
     (let wanted = remdups sellerIds;
          rated = filter (\<lambda>s. s \<in> rSellerId ` set (orderRatings db)) wanted
      in map (\<lambda>s.
            let rows = filter (\<lambda>r. rSellerId r = s) (orderRatings db)
            in (s, averageStars (sum_list (map rStars rows)) (int (length rows)), int (length rows)))
          rated)"

section \<open>Lemmas\<close>

lemma rateOrder_Inr:
  assumes "rateOrder u k stars comment newId now db = Inr (r, db')"
  shows "\<exists>x \<in> set (orders db). oId x = k \<and> oBuyerId x = u \<and> oSellerId x = rSellerId r
      \<and> oStatus x = Completed"
    and "r = new_rating k (rSellerId r) u stars comment newId now"
    and "first_violated (rating_checks r) = None"
    and "rId r \<notin> rId ` set (orderRatings db)" "rOrderId r \<notin> rOrderId ` set (orderRatings db)"
    and "db' = db\<lparr>orderRatings := orderRatings db @ [r]\<rparr>"
  using assms
  by (auto simp: rateOrder_def Let_def insert_rating_def rating_insert_allowed_def new_rating_def
      list_ex_iff split: option.splits sum.splits if_splits)

lemma updateRating_Inr:
  assumes "updateRating u k stars comment now db = Inr (r', db')"
  shows "\<exists>r. find_row rId k (orderRatings db) = Some r \<and> rRaterId r = u
    \<and> r' = rating_set stars comment now r \<and> first_violated (rating_checks r') = None
    \<and> db' = db\<lparr>orderRatings := update_row rId k (rating_set stars comment now) (orderRatings db)\<rparr>"
  using assms by (auto simp: updateRating_def split: option.splits if_splits)

text \<open>The groups carry each rating exactly once.\<close>

lemma group_sum:
  assumes "finite S" "rStars ` set rows \<subseteq> S"
  shows "(\<Sum>n \<in> S. g n * int (length (filter (\<lambda>r. rStars r = n) rows))) = (\<Sum>r \<leftarrow> rows. g (rStars r))"
  using assms(2)
proof (induction rows)
  case Nil
  show ?case by simp
next
  case (Cons r rows)
  have "(\<Sum>n \<in> S. g n * int (length (filter (\<lambda>x. rStars x = n) (r # rows)))) =
      (\<Sum>n \<in> S. (if n = rStars r then g n else 0) + g n * int (length (filter (\<lambda>x. rStars x = n) rows)))"
    by (rule sum.cong) (auto simp: algebra_simps)
  also have "\<dots> = g (rStars r) + (\<Sum>x \<leftarrow> rows. g (rStars x))"
    using Cons assms(1) by (simp add: sum.distrib)
  finally show ?case by simp
qed

lemma foldl_sum: "foldl (\<lambda>t x. t + (g x :: int)) a xs = a + (\<Sum>x \<leftarrow> xs. g x)"
  by (induction xs arbitrary: a) auto

lemma star_groups_sum:
  "(\<Sum>(n, k) \<leftarrow> star_groups rows. g n * k) = (\<Sum>r \<leftarrow> rows. g (rStars r))"
proof -
  have "(\<Sum>(n, k) \<leftarrow> star_groups rows. g n * k) =
      (\<Sum>n \<leftarrow> remdups (map rStars rows). g n * int (length (filter (\<lambda>r. rStars r = n) rows)))"
    by (simp add: star_groups_def comp_def)
  also have "\<dots> = (\<Sum>n \<in> rStars ` set rows. g n * int (length (filter (\<lambda>r. rStars r = n) rows)))"
    by (subst sum_list_distinct_conv_sum_set) auto
  finally show ?thesis by (simp add: group_sum)
qed

lemma count_of_groups:
  "count_of (star_groups rows) n = int (length (filter (\<lambda>r. rStars r = n) rows))"
  by (auto simp: count_of_def star_groups_def map_of_map_restrict restrict_map_def
      filter_empty_conv split: option.splits)

lemma getReputation_totals:
  "getReputation s db =
     (let rows = filter (\<lambda>r. rSellerId r = s) (orderRatings db)
      in \<lparr>repSellerId = s,
          repAverage = averageStars (sum_list (map rStars rows)) (int (length rows)),
          repCount = int (length rows),
          repDistribution = map (\<lambda>n. int (length (filter (\<lambda>r. rStars r = n) rows))) [1, 2, 3, 4, 5]\<rparr>)"
proof -
  let ?rows = "filter (\<lambda>r. rSellerId r = s) (orderRatings db)"
  have total: "foldl (\<lambda>t (stars, n). t + stars * n) 0 (star_groups ?rows) = sum_list (map rStars ?rows)"
    using star_groups_sum [of "\<lambda>n. n" ?rows] foldl_sum [of "\<lambda>(n, k). n * k" 0 "star_groups ?rows"]
    by (simp add: case_prod_unfold)
  have cnt: "foldl (\<lambda>c (stars, n). c + n) 0 (star_groups ?rows) = int (length ?rows)"
    using star_groups_sum [of "\<lambda>n. 1" ?rows] foldl_sum [of "\<lambda>(n, k). k" 0 "star_groups ?rows"]
    by (simp add: case_prod_unfold sum_list_triv)
  show ?thesis by (simp add: getReputation_def Let_def total cnt count_of_groups)
qed

end
