(* ===== verification/SellerStore.thy ===== *)
theory SellerStore
  imports MarketDb
begin

text \<open>
  Sellers' connected accounts (\<open>packages/db/src/queries/sellers.ts\<close>) and the webhook claims
  (\<open>packages/db/src/queries/webhooks.ts\<close>).
\<close>

datatype seller_error = DisplayNameTakenError | SellerDbError db_error | SellerVanished

section \<open>The table's policies and constraints\<close>

definition seller_visible :: "session \<Rightarrow> market_db \<Rightarrow> SellerAccount \<Rightarrow> bool" where
  "seller_visible s db a =
     (case s of
        AsUser u \<Rightarrow> sUserId a = u
          \<or> list_ex (\<lambda>l. lSellerId l = sUserId a \<and> lStatus l = Active) (listings db)
      | Worker \<Rightarrow> True
      | ReadOnly \<Rightarrow> sDisplayName a \<noteq> None)"

text \<open>The alphanumerics of the Latin-1 range.\<close>

definition alnum :: "char \<Rightarrow> bool" where
  "alnum c \<longleftrightarrow>
     is_digit c \<or> in_range (CHR ''A'') (CHR ''Z'') c \<or> in_range (CHR ''a'') (CHR ''z'') c
   \<or> c \<in> {CHR 0xAA, CHR 0xB5, CHR 0xBA}
   \<or> in_range (CHR 0xC0) (CHR 0xFF) c \<and> c \<notin> {CHR 0xD7, CHR 0xF7}"

definition ascii_alnum :: "char \<Rightarrow> bool" where
  "ascii_alnum c \<longleftrightarrow>
     is_digit c \<or> in_range (CHR ''A'') (CHR ''Z'') c \<or> in_range (CHR ''a'') (CHR ''z'') c"

definition stripe_account_shape :: "string \<Rightarrow> bool" where
  "stripe_account_shape s \<longleftrightarrow>
     starts_with ''acct_'' s \<and> length s > 5 \<and> list_all ascii_alnum (drop 5 s)"

definition display_name_shape :: "string \<Rightarrow> bool" where
  "display_name_shape s \<longleftrightarrow>
     2 \<le> length s \<and> length s \<le> 40 \<and> alnum (hd s) \<and> alnum (last s)
     \<and> list_all (\<lambda>c. alnum c \<or> c \<in> set '' ._'' \<or> c = CHR 0x27 \<or> c = CHR ''-'') s"

definition seller_checks :: "SellerAccount \<Rightarrow> (string \<times> bool) list" where
  "seller_checks a =
     [(''seller_accounts_display_name_shape'',
         case sDisplayName a of None \<Rightarrow> True | Some n \<Rightarrow> display_name_shape n),
      (''seller_accounts_stripe_id_format'', stripe_account_shape (sStripeAccountId a))]"

section \<open>Queries\<close>

definition getSellerByStripeAccount :: "string \<Rightarrow> market_db \<Rightarrow> SellerAccount option" where
  "getSellerByStripeAccount acct db = find_row sStripeAccountId acct (sellerAccounts db)"

definition getSellerPayoutTarget :: "string \<Rightarrow> string \<Rightarrow> market_db \<Rightarrow> SellerAccount option" where
  "getSellerPayoutTarget viewerId sellerId db =
     find (\<lambda>a. seller_visible (AsUser viewerId) db a \<and> sUserId a = sellerId) (sellerAccounts db)"

definition getSellerAccount :: "string \<Rightarrow> market_db \<Rightarrow> SellerAccount option" where
  "getSellerAccount userId db = getSellerPayoutTarget userId userId db"

definition new_seller :: "string \<Rightarrow> string \<Rightarrow> string \<Rightarrow> int \<Rightarrow> SellerAccount" where
  "new_seller userId acct newId now =
     \<lparr>sId = newId, sUserId = userId, sStripeAccountId = acct, sChargesEnabled = False,
      sPayoutsEnabled = False, sHoldUntil = None, sDisplayName = None, sCreatedAt = now,
      sUpdatedAt = now\<rparr>"

text \<open>
  \<open>on conflict (user_id) do nothing\<close>: only a conflict on the person is swallowed; the same
  Stripe account under another person is still a violation.
\<close>

definition recordSellerAccount ::
  "string \<Rightarrow> string \<Rightarrow> string \<Rightarrow> int \<Rightarrow> market_db \<Rightarrow> seller_error + SellerAccount \<times> market_db"
where
  "recordSellerAccount userId acct newId now db =
     (let a = new_seller userId acct newId now
      in case first_violated (seller_checks a) of
           Some c \<Rightarrow> Inl (SellerDbError (CheckViolation c))
         | None \<Rightarrow>
           (case getSellerAccount userId db of
              Some existing \<Rightarrow> Inr (existing, db)
            | None \<Rightarrow>
              if acct \<in> sStripeAccountId ` set (sellerAccounts db)
              then Inl (SellerDbError (UniqueViolation ''seller_accounts_stripe_key''))
              else if userId \<notin> uId ` set (users db)
              then Inl (SellerDbError (ForeignKeyViolation ''seller_accounts_user_id_users_id_fk''))
              else Inr (a, db\<lparr>sellerAccounts := sellerAccounts db @ [a]\<rparr>)))"

text \<open>The worker's updates address the Stripe account and say whether a row was there.\<close>

definition update_by_stripe ::
  "string \<Rightarrow> (SellerAccount \<Rightarrow> SellerAccount) \<Rightarrow> market_db \<Rightarrow> bool \<times> market_db" where
  "update_by_stripe acct f db =
     (getSellerByStripeAccount acct db \<noteq> None,
      db\<lparr>sellerAccounts := update_row sStripeAccountId acct f (sellerAccounts db)\<rparr>)"

definition updateSellerCapabilities ::
  "string \<Rightarrow> bool \<Rightarrow> bool \<Rightarrow> int \<Rightarrow> market_db \<Rightarrow> bool \<times> market_db" where
  "updateSellerCapabilities acct chargesEnabled payoutsEnabled now db =
     update_by_stripe acct
       (\<lambda>a. a\<lparr>sChargesEnabled := chargesEnabled, sPayoutsEnabled := payoutsEnabled,
              sUpdatedAt := now\<rparr>) db"

definition canSell :: "SellerAccount option \<Rightarrow> bool" where
  "canSell account =
     (case account of None \<Rightarrow> False | Some a \<Rightarrow> sChargesEnabled a \<and> sPayoutsEnabled a)"

record HeldSeller =
  hsUserId :: string
  hsStripeAccountId :: string
  hsCompletedOrders :: int
  hsFirstCompletedAt :: "int option"

definition min_opt :: "int list \<Rightarrow> int option" where
  "min_opt xs = (case xs of [] \<Rightarrow> None | y # ys \<Rightarrow> Some (foldl min y ys))"

definition heldSellers :: "nat \<Rightarrow> market_db \<Rightarrow> HeldSeller list" where
  "heldSellers limit db =
     map (\<lambda>a.
         let done = filter (\<lambda>r. oSellerId r = sUserId a \<and> oStatus r = Completed) (orders db)
         in \<lparr>hsUserId = sUserId a, hsStripeAccountId = sStripeAccountId a,
             hsCompletedOrders = int (length done),
             hsFirstCompletedAt = min_opt (List.map_filter oCompletedAt done)\<rparr>)
       (take limit (sort_key sCreatedAt (filter (\<lambda>a. sHoldUntil a \<noteq> None) (sellerAccounts db))))"

definition holdSellerPayouts :: "string \<Rightarrow> int \<Rightarrow> int \<Rightarrow> market_db \<Rightarrow> bool \<times> market_db" where
  "holdSellerPayouts acct hold now db =
     update_by_stripe acct (\<lambda>a. a\<lparr>sHoldUntil := Some hold, sUpdatedAt := now\<rparr>) db"

definition releaseSellerPayouts :: "string \<Rightarrow> int \<Rightarrow> market_db \<Rightarrow> bool \<times> market_db" where
  "releaseSellerPayouts acct now db =
     update_by_stripe acct (\<lambda>a. a\<lparr>sHoldUntil := None, sUpdatedAt := now\<rparr>) db"

definition name_set :: "string option \<Rightarrow> int \<Rightarrow> SellerAccount \<Rightarrow> SellerAccount" where
  "name_set displayName now a = a\<lparr>sDisplayName := displayName, sUpdatedAt := now\<rparr>"

definition name_taken :: "string option \<Rightarrow> SellerAccount list \<Rightarrow> bool" where
  "name_taken displayName others =
     (case displayName of
        None \<Rightarrow> False
      | Some n \<Rightarrow> list_ex (\<lambda>a. map_option to_lower (sDisplayName a) = Some (to_lower n)) others)"

definition setSellerDisplayName ::
  "string \<Rightarrow> string option \<Rightarrow> int \<Rightarrow> market_db
     \<Rightarrow> seller_error + SellerAccount option \<times> market_db" where
  "setSellerDisplayName userId displayName now db =
     (case find_row sUserId userId (sellerAccounts db) of
        None \<Rightarrow> Inr (None, db)
      | Some a \<Rightarrow>
        (case first_violated (seller_checks (name_set displayName now a)) of
           Some c \<Rightarrow> Inl (SellerDbError (CheckViolation c))
         | None \<Rightarrow>
           if name_taken displayName (filter (\<lambda>x. sUserId x \<noteq> userId) (sellerAccounts db))
           then Inl DisplayNameTakenError
           else Inr (Some (name_set displayName now a),
                     db\<lparr>sellerAccounts :=
                          update_row sUserId userId (name_set displayName now) (sellerAccounts db)\<rparr>)))"

definition clearSellerDisplayName :: "string \<Rightarrow> int \<Rightarrow> market_db \<Rightarrow> bool \<times> market_db" where
  "clearSellerDisplayName userId now db =
     (find_row sUserId userId (sellerAccounts db) \<noteq> None,
      db\<lparr>sellerAccounts := update_row sUserId userId (name_set None now) (sellerAccounts db)\<rparr>)"

section \<open>Webhook claims\<close>

datatype WebhookClaim = Claimed string | NotClaimed

definition claimWebhookEvent ::
  "string \<Rightarrow> string \<Rightarrow> string \<Rightarrow> string \<Rightarrow> int \<Rightarrow> market_db \<Rightarrow> WebhookClaim \<times> market_db" where
  "claimWebhookEvent provider eventId typ newId now db =
     (if list_ex (\<lambda>w. wProvider w = provider \<and> wEventId w = eventId \<or> wId w = newId)
           (webhookEvents db)
      then (NotClaimed, db)
      else (Claimed newId,
            db\<lparr>webhookEvents := webhookEvents db @
                 [\<lparr>wId = newId, wProvider = provider, wEventId = eventId, wType = typ,
                   wReceivedAt = now, wProcessedAt = None\<rparr>]\<rparr>))"

definition markWebhookProcessed :: "string \<Rightarrow> int \<Rightarrow> market_db \<Rightarrow> market_db" where
  "markWebhookProcessed k now db =
     db\<lparr>webhookEvents := update_row wId k (\<lambda>w. w\<lparr>wProcessedAt := Some now\<rparr>) (webhookEvents db)\<rparr>"

definition unprocessedWebhooks :: "string \<Rightarrow> market_db \<Rightarrow> (string \<times> string \<times> int) list" where
  "unprocessedWebhooks provider db =
     map (\<lambda>w. (wEventId w, wType w, wReceivedAt w))
       (sort_key wReceivedAt
         (filter (\<lambda>w. wProvider w = provider \<and> wProcessedAt w = None) (webhookEvents db)))"

section \<open>Lemmas\<close>

lemma claim_twice:
  assumes "\<exists>w \<in> set (webhookEvents db''). wProvider w = p \<and> wEventId w = e"
  shows "claimWebhookEvent p e t2 k2 now2 db'' = (NotClaimed, db'')"
  using assms by (auto simp: claimWebhookEvent_def list_ex_iff)

lemma claim_stays:
  assumes "claimWebhookEvent p e t k now db = (c, db')" "k \<notin> wId ` set (webhookEvents db)"
  shows "\<exists>w \<in> set (webhookEvents db'). wProvider w = p \<and> wEventId w = e"
  using assms by (auto simp: claimWebhookEvent_def list_ex_iff split: if_splits)

end
