(* ===== verification/MarketMachine.thy ===== *)
theory MarketMachine
  imports OrderLedger ListingStore PhotoStore RatingStore SellerStore
begin

text \<open>
  The marketplace as one machine: every operation of the stores that writes, run one transaction
  after another in any order by any session, the worker or the webhook. What the stores keep is
  an invariant of the machine, whatever the routes above them do.
\<close>

datatype order_op =
    CreateOrder string CreateOrderInput string int
  | AttachCheckout string string string int
  | MarkPaid OrderPaidInput string int
  | Ship string string string string string int
  | Cancel string string "string option" string int
  | Dispute string string string string int
  | MarkDelivered string confirmer "string option" "string option" string int
  | Complete string confirmer "string option" "string option" string int
  | MarkRefunded string "string option" string int
  | MarkChargedBack string "string option" string int

datatype listing_op =
    CreateListing string CreateListingInput string int
  | UpdateListing string string UpdateListingInput int
  | SetListingStatus string string ListingStatus int
  | DeleteDraft string string

datatype photo_op =
    StartUpload string string string string string int
  | DeletePhoto string string
  | ReorderPhotos string string "string list" int
  | ApprovePhoto string ApprovedPhotoFacts int
  | RejectPhoto string string int

datatype rating_op =
    RateOrder string string int "string option" string int
  | UpdateRating string string int "string option" int

datatype seller_op =
    RecordSeller string string string int
  | SetCapabilities string bool bool int
  | HoldPayouts string int int
  | ReleasePayouts string int
  | SetDisplayName string "string option" int
  | ClearDisplayName string int
  | ClaimWebhook string string string string int
  | FinishWebhook string int

datatype market_op =
    OrderOp order_op
  | ListingOp listing_op
  | PhotoOp photo_op
  | RatingOp rating_op
  | SellerOp seller_op

datatype market_error =
    OrderFailed order_error
  | ListingFailed listing_error
  | PhotoFailed photo_error
  | RatingFailed rating_error
  | SellerFailed seller_error

definition committed :: "('e \<Rightarrow> 'f) \<Rightarrow> 'e + 'a \<times> 's \<Rightarrow> 'f + 's" where
  "committed wrap res = (case res of Inl e \<Rightarrow> Inl (wrap e) | Inr (_, s) \<Rightarrow> Inr s)"

fun order_step :: "order_op \<Rightarrow> market_db \<Rightarrow> market_error + market_db" where
  "order_step (CreateOrder u i k now) db = committed OrderFailed (createOrder u i k now db)"
| "order_step (AttachCheckout u k c now) db =
     (case attachCheckoutSession u k c now db of
        Inl e \<Rightarrow> Inl (OrderFailed e) | Inr db' \<Rightarrow> Inr db')"
| "order_step (MarkPaid i ev now) db = committed OrderFailed (markOrderPaid i ev now db)"
| "order_step (Ship u k c t ev now) db = committed OrderFailed (shipOrder u k c t ev now db)"
| "order_step (Cancel u k t ev now) db = committed OrderFailed (cancelOrder u k t ev now db)"
| "order_step (Dispute u k t ev now) db = committed OrderFailed (disputeOrder u k t ev now db)"
| "order_step (MarkDelivered k c a t ev now) db =
     committed OrderFailed (markOrderDelivered k c a t ev now db)"
| "order_step (Complete k c a t ev now) db =
     committed OrderFailed (completeOrder k c a t ev now db)"
| "order_step (MarkRefunded k t ev now) db =
     committed OrderFailed (markOrderRefunded k t ev now db)"
| "order_step (MarkChargedBack p t ev now) db =
     committed OrderFailed (markOrderChargedBack p t ev now db)"

fun listing_step :: "listing_op \<Rightarrow> market_db \<Rightarrow> market_error + market_db" where
  "listing_step (CreateListing u i k now) db = committed ListingFailed (createListing u i k now db)"
| "listing_step (UpdateListing u k i now) db = committed ListingFailed (updateListing u k i now db)"
| "listing_step (SetListingStatus u k st now) db =
     committed ListingFailed (setListingStatus u k st now db)"
| "listing_step (DeleteDraft u k) db = Inr (snd (deleteDraftListing u k db))"

fun photo_step :: "photo_op \<Rightarrow> market_db \<Rightarrow> market_error + market_db" where
  "photo_step (StartUpload u l key ct k now) db =
     committed PhotoFailed (startPhotoUpload u l key ct k now db)"
| "photo_step (DeletePhoto u k) db = committed PhotoFailed (deletePhoto u k db)"
| "photo_step (ReorderPhotos u l ks now) db = committed PhotoFailed (reorderPhotos u l ks now db)"
| "photo_step (ApprovePhoto k facts now) db = committed PhotoFailed (approvePhoto k facts now db)"
| "photo_step (RejectPhoto k reason now) db = committed PhotoFailed (rejectPhoto k reason now db)"

fun rating_step :: "rating_op \<Rightarrow> market_db \<Rightarrow> market_error + market_db" where
  "rating_step (RateOrder u k stars c rk now) db =
     committed RatingFailed (rateOrder u k stars c rk now db)"
| "rating_step (UpdateRating u k stars c now) db =
     committed RatingFailed (updateRating u k stars c now db)"

fun seller_step :: "seller_op \<Rightarrow> market_db \<Rightarrow> market_error + market_db" where
  "seller_step (RecordSeller u acct k now) db =
     committed SellerFailed (recordSellerAccount u acct k now db)"
| "seller_step (SetCapabilities acct c p now) db = Inr (snd (updateSellerCapabilities acct c p now db))"
| "seller_step (HoldPayouts acct hold now) db = Inr (snd (holdSellerPayouts acct hold now db))"
| "seller_step (ReleasePayouts acct now) db = Inr (snd (releaseSellerPayouts acct now db))"
| "seller_step (SetDisplayName u n now) db =
     committed SellerFailed (setSellerDisplayName u n now db)"
| "seller_step (ClearDisplayName u now) db = Inr (snd (clearSellerDisplayName u now db))"
| "seller_step (ClaimWebhook p e t k now) db = Inr (snd (claimWebhookEvent p e t k now db))"
| "seller_step (FinishWebhook k now) db = Inr (markWebhookProcessed k now db)"

fun market_step :: "market_op \<Rightarrow> market_db \<Rightarrow> market_error + market_db" where
  "market_step (OrderOp x) db = order_step x db"
| "market_step (ListingOp x) db = listing_step x db"
| "market_step (PhotoOp x) db = photo_step x db"
| "market_step (RatingOp x) db = rating_step x db"
| "market_step (SellerOp x) db = seller_step x db"

text \<open>Whose session an order operation runs in; the others never write the ledger's statuses.\<close>

fun order_session :: "order_op \<Rightarrow> session" where
  "order_session (CreateOrder u _ _ _) = AsUser u"
| "order_session (AttachCheckout u _ _ _) = AsUser u"
| "order_session (Ship u _ _ _ _ _) = AsUser u"
| "order_session (Cancel u _ _ _ _) = AsUser u"
| "order_session (Dispute u _ _ _ _) = AsUser u"
| "order_session _ = Worker"

fun op_session :: "market_op \<Rightarrow> session" where
  "op_session (OrderOp x) = order_session x"
| "op_session _ = ReadOnly"

lemma committed_Inr: "committed wrap res = Inr s \<longleftrightarrow> (\<exists>a. res = Inr (a, s))"
  by (auto simp: committed_def split: sum.splits)

section \<open>Every operation is a step of the ledger\<close>

lemma update_photo_frame:
  "update_photo s cond k f db = Inr (res, db') \<Longrightarrow>
     \<exists>ps. db' = db\<lparr>listingPhotos := ps\<rparr>"
  by (auto simp: update_photo_def split: option.splits if_splits)
     (metis market_db.surjective market_db.update_convs(4))+

lemma write_positions_frame:
  "write_positions u now pos ks db = Inr db' \<Longrightarrow> \<exists>ps. db' = db\<lparr>listingPhotos := ps\<rparr>"
proof (induction ks arbitrary: pos db)
  case Nil
  then show ?case by (intro exI [of _ "listingPhotos db"]) simp
next
  case (Cons k ks)
  then obtain r db1 where up: "update_photo (AsUser u) (\<lambda>_. True) k
      (\<lambda>p. p\<lparr>pPosition := pos, pUpdatedAt := now\<rparr>) db = Inr (r, db1)"
    and rest: "write_positions u now (pos + 1) ks db1 = Inr db'"
    by (auto split: sum.splits)
  from update_photo_frame [OF up] Cons.IH [OF rest] show ?case by auto
qed

lemma photo_op_frame:
  "startPhotoUpload u l key ct k now db = Inr (p, db') \<Longrightarrow> \<exists>ps. db' = db\<lparr>listingPhotos := ps\<rparr>"
  "deletePhoto u k db = Inr (p, db') \<Longrightarrow> \<exists>ps. db' = db\<lparr>listingPhotos := ps\<rparr>"
  "reorderPhotos u l ks now db = Inr (pl, db') \<Longrightarrow> \<exists>ps. db' = db\<lparr>listingPhotos := ps\<rparr>"
  "approvePhoto k facts now db = Inr (po, db') \<Longrightarrow> \<exists>ps. db' = db\<lparr>listingPhotos := ps\<rparr>"
  "rejectPhoto k reason now db = Inr (po, db') \<Longrightarrow> \<exists>ps. db' = db\<lparr>listingPhotos := ps\<rparr>"
  by (auto simp: startPhotoUpload_def deletePhoto_def reorderPhotos_def approvePhoto_def
      rejectPhoto_def insert_photo_def Let_def
      split: option.splits if_splits sum.splits dest: update_photo_frame write_positions_frame)

lemma seller_op_frame:
  "recordSellerAccount u acct k now db = Inr (a, db') \<Longrightarrow> \<exists>ss. db' = db\<lparr>sellerAccounts := ss\<rparr>"
  "setSellerDisplayName u n now db = Inr (ao, db') \<Longrightarrow> \<exists>ss. db' = db\<lparr>sellerAccounts := ss\<rparr>"
  by (auto simp: recordSellerAccount_def setSellerDisplayName_def Let_def
      split: option.splits if_splits)
     (metis market_db.surjective market_db.update_convs(8))+

lemma order_step_ledger:
  "order_step x db = Inr db' \<Longrightarrow> ledger_step (order_session x) (ledger_of db) (ledger_of db')"
  by (cases x)
     (auto simp: committed_Inr split: sum.splits
       intro: createOrder_ledger attachCheckoutSession_ledger markOrderPaid_ledger
         shipOrder_ledger cancelOrder_ledger disputeOrder_ledger markOrderDelivered_ledger
         completeOrder_ledger markOrderRefunded_ledger markOrderChargedBack_ledger)

lemma listing_step_ledger:
  assumes "listing_step x db = Inr db'"
  shows "ledger_step s (ledger_of db) (ledger_of db')"
proof (cases x)
  case (DeleteDraft u k)
  then have "ledger_of db' = ledger_of db
      \<or> ledger_of db' = (map (unlink_listing k) (orders db), orderEvents db)"
    using assms by (auto simp: deleteDraftListing_def delete_listing_def ledger_of_def
        split: option.splits if_splits)
  then show ?thesis by (auto simp: ledger_of_def intro: ledger_step.intros)
qed (use assms in \<open>auto simp: committed_Inr ledger_of_def intro!: ledger_step.idle
       dest!: createListing_Inr updateListing_Inr setListingStatus_Inr\<close>)

lemma photo_step_frame: "photo_step x db = Inr db' \<Longrightarrow> \<exists>ps. db' = db\<lparr>listingPhotos := ps\<rparr>"
  by (cases x) (auto simp: committed_Inr intro: photo_op_frame)

lemma rating_step_frame: "rating_step x db = Inr db' \<Longrightarrow> \<exists>rs. db' = db\<lparr>orderRatings := rs\<rparr>"
  by (cases x) (auto simp: committed_Inr dest!: rateOrder_Inr(6) updateRating_Inr)

lemma seller_step_frame:
  "seller_step x db = Inr db' \<Longrightarrow>
     orders db' = orders db \<and> orderEvents db' = orderEvents db \<and> listings db' = listings db
       \<and> listingPhotos db' = listingPhotos db \<and> orderRatings db' = orderRatings db"
  by (cases x)
     (auto simp: committed_Inr updateSellerCapabilities_def holdSellerPayouts_def
       releaseSellerPayouts_def clearSellerDisplayName_def update_by_stripe_def
       markWebhookProcessed_def claimWebhookEvent_def
       dest!: seller_op_frame)

lemma market_step_ledger:
  "market_step x db = Inr db' \<Longrightarrow> ledger_step (op_session x) (ledger_of db) (ledger_of db')"
proof (cases x)
  case (OrderOp y)
  then show "market_step x db = Inr db' \<Longrightarrow> ?thesis" by (simp add: order_step_ledger)
next
  case (ListingOp y)
  then show "market_step x db = Inr db' \<Longrightarrow> ?thesis" by (simp add: listing_step_ledger)
qed (auto dest!: photo_step_frame rating_step_frame seller_step_frame
      simp: ledger_of_def ledger_step.idle)

section \<open>The other tables\<close>

text \<open>Rows with one key each, all of them accepted by the table's CHECK constraints.\<close>

definition rows_ok :: "('r \<Rightarrow> string) \<Rightarrow> ('r \<Rightarrow> (string \<times> bool) list) \<Rightarrow> 'r list \<Rightarrow> bool" where
  "rows_ok key chk rows \<longleftrightarrow>
     distinct (map key rows) \<and> (\<forall>r \<in> set rows. first_violated (chk r) = None)"

lemma rows_ok_insert:
  "rows_ok key chk rows \<Longrightarrow> key r \<notin> key ` set rows \<Longrightarrow> first_violated (chk r) = None \<Longrightarrow>
     rows_ok key chk (rows @ [r])"
  by (auto simp: rows_ok_def)

lemma rows_ok_filter: "rows_ok key chk rows \<Longrightarrow> rows_ok key chk (filter P rows)"
  by (auto simp: rows_ok_def distinct_map_filter)

lemma rows_ok_update:
  assumes ok: "rows_ok key chk rows" and row: "find_row key k rows = Some r"
    and keep: "\<And>x. key (f x) = key x" and chk: "first_violated (chk (f r)) = None"
  shows "rows_ok key chk (update_row key k f rows)"
proof -
  have "distinct (map key (update_row key k f rows))"
    by (rule keyed_table.distinct_update) (use ok keep in \<open>auto simp: keyed_table_def rows_ok_def\<close>)
  moreover have "first_violated (chk y) = None" if "y \<in> set (update_row key k f rows)" for y
  proof -
    from that obtain x where x: "x \<in> set rows" "y = (if key x = k then f x else x)"
      by (auto simp: set_update_row)
    have "x = r" if "key x = k"
      using ok x that find_row_distinct [of key rows x] row by (auto simp: rows_ok_def)
    with x chk ok show ?thesis by (auto simp: rows_ok_def)
  qed
  ultimately show ?thesis by (auto simp: rows_ok_def)
qed

text \<open>
  The rating is attached to an order its rater bought, its seller sold and whose history shows
  that it completed.
\<close>

definition rating_backed :: "ledger \<Rightarrow> Rating \<Rightarrow> bool" where
  "rating_backed l r \<longleftrightarrow>
     (\<exists>x \<in> set (fst l). oId x = rOrderId r \<and> oBuyerId x = rRaterId r \<and> oSellerId x = rSellerId r)
   \<and> (\<exists>e \<in> set (snd l). eOrderId e = rOrderId r \<and> eToStatus e = Completed)"

definition market_inv :: "market_db \<Rightarrow> bool" where
  "market_inv db \<longleftrightarrow>
     ledger_inv (ledger_of db)
   \<and> rows_ok lId listing_checks (listings db)
   \<and> rows_ok pId photo_checks (listingPhotos db)
   \<and> rows_ok rId rating_checks (orderRatings db)
   \<and> distinct (map rOrderId (orderRatings db))
   \<and> (\<forall>r \<in> set (orderRatings db). rating_backed (ledger_of db) r)"

lemma update_photo_ok:
  assumes "update_photo s cond k f db = Inr (res, db')" "rows_ok pId photo_checks (listingPhotos db)"
    "\<And>x. pId (f x) = pId x"
  shows "rows_ok pId photo_checks (listingPhotos db')"
  using assms by (auto simp: update_photo_def split: option.splits if_splits
      intro!: rows_ok_update)

lemma write_positions_ok:
  "write_positions u now pos ks db = Inr db' \<Longrightarrow> rows_ok pId photo_checks (listingPhotos db) \<Longrightarrow>
     rows_ok pId photo_checks (listingPhotos db')"
proof (induction ks arbitrary: pos db)
  case Nil
  then show ?case by simp
next
  case (Cons k ks)
  then obtain r db1 where up: "update_photo (AsUser u) (\<lambda>_. True) k
      (\<lambda>p. p\<lparr>pPosition := pos, pUpdatedAt := now\<rparr>) db = Inr (r, db1)"
    and rest: "write_positions u now (pos + 1) ks db1 = Inr db'"
    by (auto split: sum.splits)
  from Cons.IH [OF rest] update_photo_ok [OF up Cons.prems(2)] show ?case by simp
qed

lemma insert_photo_ok:
  "insert_photo s p db = Inr db' \<Longrightarrow> rows_ok pId photo_checks (listingPhotos db) \<Longrightarrow>
     rows_ok pId photo_checks (listingPhotos db')"
  by (auto simp: insert_photo_def photo_unique_violation_def split: option.splits if_splits
      intro!: rows_ok_insert)

lemma photo_op_ok:
  assumes "rows_ok pId photo_checks (listingPhotos db)"
  shows "startPhotoUpload u l key ct k now db = Inr (p, db') \<Longrightarrow> rows_ok pId photo_checks (listingPhotos db')"
    "deletePhoto u k db = Inr (p, db') \<Longrightarrow> rows_ok pId photo_checks (listingPhotos db')"
    "reorderPhotos u l ks now db = Inr (pl, db') \<Longrightarrow> rows_ok pId photo_checks (listingPhotos db')"
    "approvePhoto k facts now db = Inr (po, db') \<Longrightarrow> rows_ok pId photo_checks (listingPhotos db')"
    "rejectPhoto k reason now db = Inr (po, db') \<Longrightarrow> rows_ok pId photo_checks (listingPhotos db')"
  using assms
  by (auto simp: startPhotoUpload_def deletePhoto_def reorderPhotos_def approvePhoto_def
      rejectPhoto_def Let_def approve_set_def reject_set_def
      split: option.splits if_splits sum.splits
      intro: rows_ok_filter write_positions_ok insert_photo_ok elim!: update_photo_ok)

lemma rating_op_ok:
  assumes led: "ledger_inv (ledger_of db)"
    and inv: "rows_ok rId rating_checks (orderRatings db)" "distinct (map rOrderId (orderRatings db))"
    "\<forall>r \<in> set (orderRatings db). rating_backed (ledger_of db) r"
  shows "rateOrder u k stars c rk now db = Inr (r, db') \<Longrightarrow>
      rows_ok rId rating_checks (orderRatings db') \<and> distinct (map rOrderId (orderRatings db'))
        \<and> (\<forall>r \<in> set (orderRatings db'). rating_backed (ledger_of db') r)"
    and "updateRating u rk stars c now db = Inr (r, db') \<Longrightarrow>
      rows_ok rId rating_checks (orderRatings db') \<and> distinct (map rOrderId (orderRatings db'))
        \<and> (\<forall>r \<in> set (orderRatings db'). rating_backed (ledger_of db') r)"
proof -
  assume a: "rateOrder u k stars c rk now db = Inr (r, db')"
  note f = rateOrder_Inr [OF a]
  from f(1) obtain x where x: "x \<in> set (orders db)" "oId x = k" "oBuyerId x = u"
    "oSellerId x = rSellerId r" "oStatus x = Completed" by blast
  have "trail Created (events_of k (orderEvents db)) = Some Completed"
    using led x by (auto simp: ledger_inv_def ledger_of_def)
  from trail_enters [OF this] obtain e where
    e: "e \<in> set (orderEvents db)" "eOrderId e = k" "eToStatus e = Completed"
    by (auto simp: events_of_def)
  have "rOrderId r = k" "rRaterId r = u"
    by (subst f(2), simp add: new_rating_def)+
  with x e have "rating_backed (ledger_of db) r" by (auto simp: rating_backed_def ledger_of_def)
  with f(3-6) inv show "rows_ok rId rating_checks (orderRatings db') \<and> distinct (map rOrderId (orderRatings db'))
        \<and> (\<forall>r \<in> set (orderRatings db'). rating_backed (ledger_of db') r)"
    by (auto simp: ledger_of_def intro!: rows_ok_insert)
next
  assume a: "updateRating u rk stars c now db = Inr (r, db')"
  then obtain r0 where f: "find_row rId rk (orderRatings db) = Some r0" "r = rating_set stars c now r0"
    "first_violated (rating_checks r) = None"
    "db' = db\<lparr>orderRatings := update_row rId rk (rating_set stars c now) (orderRatings db)\<rparr>"
    using updateRating_Inr by blast
  have keep: "rId (rating_set stars c now y) = rId y" "rOrderId (rating_set stars c now y) = rOrderId y"
    "rating_backed (ledger_of db) (rating_set stars c now y) = rating_backed (ledger_of db) y" for y
    by (simp_all add: rating_set_def rating_backed_def)
  have same: "ledger_of db' = ledger_of db" using f(4) by (simp add: ledger_of_def)
  have "map rOrderId (update_row rId rk (rating_set stars c now) xs) = map rOrderId xs" for xs
    using keep by (induction xs) auto
  with f inv keep same show "rows_ok rId rating_checks (orderRatings db') \<and> distinct (map rOrderId (orderRatings db'))
        \<and> (\<forall>r \<in> set (orderRatings db'). rating_backed (ledger_of db') r)"
    by (auto simp: set_update_row intro!: rows_ok_update [OF _ f(1)])
qed

end
