(* ===== verification/MarketInvariant.thy ===== *)
theory MarketInvariant
  imports MarketMachine
begin

text \<open>
  What the marketplace keeps whatever is run: \<open>market_inv\<close> is preserved by every operation of
  the machine and the ledger only grows, so both hold after any sequence of transactions.
\<close>

section \<open>What the order operations leave alone\<close>

definition order_op_frame :: "market_db \<Rightarrow> market_db \<Rightarrow> bool" where
  "order_op_frame db db' \<longleftrightarrow>
     listingPhotos db' = listingPhotos db \<and> orderRatings db' = orderRatings db
   \<and> webhookEvents db' = webhookEvents db
   \<and> (rows_ok lId listing_checks (listings db) \<longrightarrow> rows_ok lId listing_checks (listings db'))"

lemma order_op_frame_refl: "order_op_frame db db"
  by (simp add: order_op_frame_def)

lemma order_op_frame_trans:
  "order_op_frame db db1 \<Longrightarrow> order_op_frame db1 db2 \<Longrightarrow> order_op_frame db db2"
  by (simp add: order_op_frame_def)

lemma insert_order_frame: "insert_order s r db = Inr db' \<Longrightarrow> order_op_frame db db'"
  by (auto simp: order_op_frame_def dest: insert_order_Inr)

lemma update_order_frame: "update_order s k f db = Inr (res, db') \<Longrightarrow> order_op_frame db db'"
  by (cases res) (auto simp: order_op_frame_def dest: update_order_Inr update_order_None)

lemma insert_event_frame: "insert_event s e db = Inr db' \<Longrightarrow> order_op_frame db db'"
  by (auto simp: order_op_frame_def dest: insert_event_Inr)

lemma mark_sold_frame: "mark_listing_sold l now db = Inr db' \<Longrightarrow> order_op_frame db db'"
proof -
  assume a: "mark_listing_sold l now db = Inr db'"
  show ?thesis
  proof (cases l)
    case None
    with a show ?thesis by (simp add: mark_listing_sold_def order_op_frame_refl)
  next
    case (Some k)
    with a obtain res where up: "update_listing Worker (\<lambda>_. True) k
        (\<lambda>x. x\<lparr>lStatus := Sold, lUpdatedAt := now\<rparr>) db = Inr (res, db')"
      by (auto simp: mark_listing_sold_def split: sum.splits)
    show ?thesis
    proof (cases res)
      case None
      with up have "db' = db" using update_listing_None by blast
    then show ?thesis by (simp add: order_op_frame_refl)
    next
      case (Some r')
      with update_listing_Inr [OF up [unfolded Some]] show ?thesis
        by (auto simp: order_op_frame_def intro!: rows_ok_update)
    qed
  qed
qed

lemma move_frame: "move s input evId now db = Inr (r, db') \<Longrightarrow> order_op_frame db db'"
  by (erule move_Inr) (blast intro: order_op_frame_trans update_order_frame insert_event_frame)

lemma order_ops_frame:
  "createOrder u i k now db = Inr (r, db') \<Longrightarrow> order_op_frame db db'"
  "attachCheckoutSession u k c now db = Inr db' \<Longrightarrow> order_op_frame db db'"
  "shipOrder u k c t ev now db = Inr (r, db') \<Longrightarrow> order_op_frame db db'"
  "cancelOrder u k rs ev now db = Inr (r, db') \<Longrightarrow> order_op_frame db db'"
  "disputeOrder u k t ev now db = Inr (r, db') \<Longrightarrow> order_op_frame db db'"
  "markOrderDelivered k cf a rs ev now db = Inr (r, db') \<Longrightarrow> order_op_frame db db'"
  "completeOrder k cf a rs ev now db = Inr (r, db') \<Longrightarrow> order_op_frame db db'"
  "markOrderRefunded k rs ev now db = Inr (ro, db') \<Longrightarrow> order_op_frame db db'"
  "markOrderChargedBack p rs ev now db = Inr (ro, db') \<Longrightarrow> order_op_frame db db'"
  by (auto simp: createOrder_def attachCheckoutSession_def shipOrder_def cancelOrder_def
      disputeOrder_def markOrderDelivered_def completeOrder_def markOrderRefunded_def
      markOrderChargedBack_def order_op_frame_refl
      split: sum.splits option.splits if_splits
      intro: insert_order_frame update_order_frame move_frame)

lemma markOrderPaid_frame: "markOrderPaid i ev now db = Inr (r, db') \<Longrightarrow> order_op_frame db db'"
  by (auto simp: markOrderPaid_def order_op_frame_refl split: sum.splits option.splits if_splits
      dest!: update_order_frame insert_event_frame mark_sold_frame)
     (metis order_op_frame_trans)+

section \<open>The invariant is preserved\<close>

lemma rating_backed_grows:
  assumes grows: "ledger_grows l l'" and "rating_backed l r"
  shows "rating_backed l' r"
proof -
  from assms(2) obtain x e where x: "x \<in> set (fst l)" "oId x = rOrderId r"
    "oBuyerId x = rRaterId r" "oSellerId x = rSellerId r"
    and e: "e \<in> set (snd l)" "eOrderId e = rOrderId r" "eToStatus e = Completed"
    by (auto simp: rating_backed_def)
  from grows x(1) obtain x' where "x' \<in> set (fst l')" "order_terms x' = order_terms x"
    by (auto simp: ledger_grows_def)
  moreover from grows e(1) have "e \<in> set (snd l')" by (auto simp: ledger_grows_def)
  ultimately show ?thesis using x e unfolding rating_backed_def by (auto simp: order_terms_def)
qed

lemma market_step_grows:
  assumes "market_inv db" "market_step x db = Inr db'"
  shows "ledger_inv (ledger_of db')" "ledger_grows (ledger_of db) (ledger_of db')"
  using assms ledger_inv_step [of "orders db" "orderEvents db"]
    ledger_grows_step [of "orders db" "orderEvents db"] market_step_ledger [OF assms(2)]
  by (auto simp: market_inv_def ledger_of_def)

text \<open>Tables other than those of the ledger, operation by operation.\<close>

definition tables_ok :: "market_db \<Rightarrow> bool" where
  "tables_ok db \<longleftrightarrow>
     rows_ok lId listing_checks (listings db)
   \<and> rows_ok pId photo_checks (listingPhotos db)
   \<and> rows_ok rId rating_checks (orderRatings db)
   \<and> distinct (map rOrderId (orderRatings db))"

lemma tables_ok_order_op: "order_op_frame db db' \<Longrightarrow> tables_ok db \<Longrightarrow> tables_ok db'"
  by (simp add: order_op_frame_def tables_ok_def)

lemma tables_ok_listing_op:
  assumes "tables_ok db"
  shows "createListing u ci k now db = Inr (l, db') \<Longrightarrow> tables_ok db'"
    and "updateListing u k ui now db = Inr (l, db') \<Longrightarrow> tables_ok db'"
    and "setListingStatus u k st now db = Inr (l, db') \<Longrightarrow> tables_ok db'"
    and "tables_ok (snd (deleteDraftListing u k db))"
proof -
  show "createListing u ci k now db = Inr (l, db') \<Longrightarrow> tables_ok db'"
    using assms by (auto simp: tables_ok_def dest!: createListing_Inr intro!: rows_ok_insert)
  show "updateListing u k ui now db = Inr (l, db') \<Longrightarrow> tables_ok db'"
    using assms by (auto simp: tables_ok_def update_set_def dest!: updateListing_Inr intro!: rows_ok_update)
  show "tables_ok (snd (deleteDraftListing u k db))"
    using assms by (auto simp: tables_ok_def deleteDraftListing_def delete_listing_def
        intro: rows_ok_filter split: option.splits)
  assume "setListingStatus u k st now db = Inr (l, db')"
  then obtain r where r: "find_row lId k (listings db) = Some r"
    and db': "db' = db\<lparr>listings := update_row lId k (\<lambda>r. r\<lparr>lStatus := st, lUpdatedAt := now\<rparr>) (listings db)\<rparr>"
    using setListingStatus_Inr by blast
  have "first_violated (listing_checks (r\<lparr>lStatus := st, lUpdatedAt := now\<rparr>)) = None"
    using find_row_SomeD [OF r] assms by (auto simp: tables_ok_def rows_ok_def listing_checks_def)
  with r db' assms show "tables_ok db'"
    by (auto simp: tables_ok_def intro!: rows_ok_update)
qed

lemma tables_ok_photos:
  "tables_ok db \<Longrightarrow> \<exists>ps. db' = db\<lparr>listingPhotos := ps\<rparr> \<Longrightarrow>
     rows_ok pId photo_checks (listingPhotos db') \<Longrightarrow> tables_ok db'"
  by (auto simp: tables_ok_def)

lemma tables_ok_photo_op:
  assumes ok: "tables_ok db"
  shows "startPhotoUpload u l key ct k now db = Inr (p, db') \<Longrightarrow> tables_ok db'"
    "deletePhoto u k db = Inr (p, db') \<Longrightarrow> tables_ok db'"
    "reorderPhotos u l ks now db = Inr (pl, db') \<Longrightarrow> tables_ok db'"
    "approvePhoto k facts now db = Inr (po, db') \<Longrightarrow> tables_ok db'"
    "rejectPhoto k reason now db = Inr (po, db') \<Longrightarrow> tables_ok db'"
proof -
  from ok have ps: "rows_ok pId photo_checks (listingPhotos db)" by (simp add: tables_ok_def)
  note rule = tables_ok_photos [OF ok photo_op_frame(1) photo_op_ok(1) [OF ps]]
    tables_ok_photos [OF ok photo_op_frame(2) photo_op_ok(2) [OF ps]]
    tables_ok_photos [OF ok photo_op_frame(3) photo_op_ok(3) [OF ps]]
    tables_ok_photos [OF ok photo_op_frame(4) photo_op_ok(4) [OF ps]]
    tables_ok_photos [OF ok photo_op_frame(5) photo_op_ok(5) [OF ps]]
  show "startPhotoUpload u l key ct k now db = Inr (p, db') \<Longrightarrow> tables_ok db'" by (rule rule(1))
  show "deletePhoto u k db = Inr (p, db') \<Longrightarrow> tables_ok db'" by (rule rule(2))
  show "reorderPhotos u l ks now db = Inr (pl, db') \<Longrightarrow> tables_ok db'" by (rule rule(3))
  show "approvePhoto k facts now db = Inr (po, db') \<Longrightarrow> tables_ok db'" by (rule rule(4))
  show "rejectPhoto k reason now db = Inr (po, db') \<Longrightarrow> tables_ok db'" by (rule rule(5))
qed

text \<open>Ratings stay attached: orders keep their terms, and only a rating operation adds one.\<close>

definition ratings_ok :: "market_db \<Rightarrow> bool" where
  "ratings_ok db \<longleftrightarrow> tables_ok db \<and> (\<forall>r \<in> set (orderRatings db). rating_backed (ledger_of db) r)"

lemma market_inv_split: "market_inv db \<longleftrightarrow> ledger_inv (ledger_of db) \<and> ratings_ok db"
  by (auto simp: market_inv_def ratings_ok_def tables_ok_def)

lemma order_step_frame: "order_step x db = Inr db' \<Longrightarrow> order_op_frame db db'"
  by (cases x)
     (auto simp: committed_Inr split: sum.splits intro: order_ops_frame markOrderPaid_frame)

lemma listing_step_tables:
  assumes "tables_ok db" "listing_step x db = Inr db'"
  shows "tables_ok db' \<and> orderRatings db' = orderRatings db"
proof
  show "tables_ok db'"
    using assms by (cases x) (auto simp: committed_Inr intro: tables_ok_listing_op [OF assms(1)])
  show "orderRatings db' = orderRatings db"
    using assms(2) by (cases x)
      (auto simp: committed_Inr deleteDraftListing_def delete_listing_def split: option.splits
        dest!: createListing_Inr updateListing_Inr setListingStatus_Inr)
qed

lemma photo_step_tables:
  assumes "tables_ok db" "photo_step x db = Inr db'"
  shows "tables_ok db' \<and> orderRatings db' = orderRatings db"
proof
  show "tables_ok db'"
    using assms by (cases x) (auto simp: committed_Inr intro: tables_ok_photo_op [OF assms(1)])
  show "orderRatings db' = orderRatings db"
    using photo_step_frame [OF assms(2)] by auto
qed

lemma market_step_inv:
  assumes inv: "market_inv db" and step: "market_step x db = Inr db'"
  shows "market_inv db'"
proof -
  note led = market_step_grows [OF inv step]
  from inv have ok: "tables_ok db" and backed: "\<forall>r \<in> set (orderRatings db). rating_backed (ledger_of db) r"
    by (auto simp: market_inv_split ratings_ok_def)
  from inv have led0: "ledger_inv (ledger_of db)" by (simp add: market_inv_def)
  have keep: "?thesis" if "tables_ok db'" "orderRatings db' = orderRatings db"
    using that led(1) rating_backed_grows [OF led(2)] backed
    by (auto simp: market_inv_split ratings_ok_def)
  show ?thesis
  proof (cases x)
    case (OrderOp y)
    with step have "order_op_frame db db'" by (simp add: order_step_frame)
    with ok keep tables_ok_order_op show ?thesis by (auto simp: order_op_frame_def)
  next
    case (ListingOp y)
    with step ok keep show ?thesis using listing_step_tables [of db y db'] by simp
  next
    case (PhotoOp y)
    with step ok keep show ?thesis using photo_step_tables [of db y db'] by simp
  next
    case (RatingOp y)
    from ok have "rows_ok rId rating_checks (orderRatings db)" "distinct (map rOrderId (orderRatings db))"
      by (simp_all add: tables_ok_def)
    note rating = rating_op_ok [OF led0 this backed]
    from RatingOp step have y: "rating_step y db = Inr db'" by simp
    have rat: "rows_ok rId rating_checks (orderRatings db') \<and> distinct (map rOrderId (orderRatings db'))
        \<and> (\<forall>r \<in> set (orderRatings db'). rating_backed (ledger_of db') r)"
    proof (cases y)
      case (RateOrder u k stars c rk now)
      with y obtain r where "rateOrder u k stars c rk now db = Inr (r, db')"
        by (auto simp: committed_Inr)
      then show ?thesis by (rule rating(1))
    next
      case (UpdateRating u k stars c now)
      with y obtain r where "updateRating u k stars c now db = Inr (r, db')"
        by (auto simp: committed_Inr)
      then show ?thesis by (rule rating(2))
    qed
    have "listings db' = listings db \<and> listingPhotos db' = listingPhotos db"
      using rating_step_frame [OF y] by auto
    with rat ok led(1) show ?thesis by (simp add: market_inv_split ratings_ok_def tables_ok_def)
  next
    case (SellerOp y)
    with step have "seller_step y db = Inr db'" by simp
    from seller_step_frame [OF this] ok keep show ?thesis by (simp add: tables_ok_def)
  qed
qed

text \<open>
  The machine keeps \<open>market_inv\<close> and its ledger only grows: the contract of a monotone
  transaction machine, discharged for the model.
\<close>

interpretation mkt: monotone_machine market_step market_inv "\<lambda>a b. ledger_grows (ledger_of a) (ledger_of b)"
proof unfold_locales
  show "market_inv s \<Longrightarrow> market_step x s = Inr s' \<Longrightarrow> market_inv s'" for s x s'
    by (rule market_step_inv)
  show "ledger_grows (ledger_of s) (ledger_of s)" for s by (rule ledger_grows_refl)
  show "ledger_grows (ledger_of s) (ledger_of t) \<Longrightarrow> ledger_grows (ledger_of t) (ledger_of u) \<Longrightarrow>
      ledger_grows (ledger_of s) (ledger_of u)" for s t u by (rule ledger_grows_trans)
  show "market_inv s \<Longrightarrow> market_step x s = Inr s' \<Longrightarrow> ledger_grows (ledger_of s) (ledger_of s')" for s x s'
    by (rule market_step_grows(2))
qed

section \<open>Webhook claims stay\<close>

definition claimed_in :: "market_db \<Rightarrow> string \<Rightarrow> string \<Rightarrow> bool" where
  "claimed_in db provider eventId \<longleftrightarrow>
     (\<exists>w \<in> set (webhookEvents db). wProvider w = provider \<and> wEventId w = eventId)"

lemma claimed_same: "webhookEvents db' = webhookEvents db \<Longrightarrow> claimed_in db p e \<Longrightarrow> claimed_in db' p e"
  by (simp add: claimed_in_def)

lemma seller_step_claims:
  assumes "seller_step x db = Inr db'" "claimed_in db p e"
  shows "claimed_in db' p e"
proof (cases x)
  case (FinishWebhook k now)
  from assms(2) obtain w where w: "w \<in> set (webhookEvents db)" "wProvider w = p" "wEventId w = e"
    by (auto simp: claimed_in_def)
  let ?w = "if wId w = k then w\<lparr>wProcessedAt := Some now\<rparr> else w"
  have "?w \<in> set (webhookEvents db')" "wProvider ?w = p" "wEventId ?w = e"
    using FinishWebhook assms(1) w by (auto simp: markWebhookProcessed_def set_update_row)
  then show ?thesis by (auto simp: claimed_in_def)
qed (use assms in \<open>auto simp: committed_Inr claimed_in_def claimWebhookEvent_def
       updateSellerCapabilities_def holdSellerPayouts_def releaseSellerPayouts_def
       clearSellerDisplayName_def update_by_stripe_def dest!: seller_op_frame\<close>)

lemma listing_step_claims: "listing_step x db = Inr db' \<Longrightarrow> webhookEvents db' = webhookEvents db"
  by (cases x) (auto simp: committed_Inr deleteDraftListing_def delete_listing_def
      split: option.splits dest!: createListing_Inr updateListing_Inr setListingStatus_Inr)

lemma market_step_claims:
  assumes "market_step x db = Inr db'" "claimed_in db p e"
  shows "claimed_in db' p e"
proof (cases x)
  case (OrderOp y)
  with assms(1) have "order_op_frame db db'" by (simp add: order_step_frame)
  then show ?thesis using assms(2) by (simp add: order_op_frame_def claimed_in_def)
next
  case (ListingOp y)
  then have "webhookEvents db' = webhookEvents db" using assms(1) listing_step_claims by simp
  then show ?thesis using assms(2) by (rule claimed_same)
next
  case (PhotoOp y)
  then have "webhookEvents db' = webhookEvents db" using assms(1) by (auto dest!: photo_step_frame)
  then show ?thesis using assms(2) by (rule claimed_same)
next
  case (RatingOp y)
  then have "webhookEvents db' = webhookEvents db" using assms(1) by (auto dest!: rating_step_frame)
  then show ?thesis using assms(2) by (rule claimed_same)
next
  case (SellerOp y)
  then show ?thesis using assms seller_step_claims by simp
qed

text \<open>A claim once made is never lost: the property every later delivery meets.\<close>

interpretation claims: txn_machine market_step "\<lambda>db. claimed_in db p e" for p e
  by unfold_locales (rule market_step_claims)

section \<open>Reachable stores\<close>

text \<open>A marketplace with people and cards and nothing for sale yet.\<close>

definition seed :: "User list \<Rightarrow> CardVariant list \<Rightarrow> market_db" where
  "seed us vs =
     \<lparr>users = us, cardVariants = vs, listings = [], listingPhotos = [], orders = [],
      orderEvents = [], orderRatings = [], sellerAccounts = [], webhookEvents = []\<rparr>"

definition market_run :: "User list \<Rightarrow> CardVariant list \<Rightarrow> market_op list \<Rightarrow> market_db" where
  "market_run us vs ops = run_txns market_step (seed us vs) ops"

lemma seed_inv: "market_inv (seed us vs)"
  by (simp add: market_inv_def seed_def ledger_of_def ledger_inv_def rows_ok_def)

lemma market_run_inv: "market_inv (market_run us vs ops)"
  unfolding market_run_def by (rule mkt.run_inv [OF seed_inv])

lemma run_txns_append: "run_txns step s (xs @ ys) = run_txns step (run_txns step s xs) ys"
  by (induction xs arbitrary: s) (auto split: sum.splits)

lemma market_run_grows:
  "ledger_grows (ledger_of (market_run us vs ops)) (ledger_of (market_run us vs (ops @ later)))"
  unfolding market_run_def run_txns_append
  by (rule mkt.run_grows) (rule market_run_inv [unfolded market_run_def])

text \<open>A sale from listing to delivery and its rating, as a run.\<close>

definition demo_users :: "User list" where
  "demo_users = [\<lparr>uId = ''ann'', uCreatedAt = 0\<rparr>, \<lparr>uId = ''bob'', uCreatedAt = 0\<rparr>]"

definition demo_cards :: "CardVariant list" where
  "demo_cards = [\<lparr>vId = ''v1'', vCardId = ''c1'', vFinish = ''normal'', vLanguage = ''en''\<rparr>]"

definition demo_listing :: CreateListingInput where
  "demo_listing =
     \<lparr>draftPriceCents = int_num 1000, draftQuantity = int_num 1, draftNotes = None,
      clCardVariantId = ''v1'', clCondition = NM, clCurrency = None\<rparr>"

definition demo_order :: CreateOrderInput where
  "demo_order =
     \<lparr>coSellerId = ''ann'', coListingId = ''l1'', coCardVariantId = ''v1'', coCondition = NM,
      coQuantity = 1, coAmountCents = 1000, coFeeCents = 80, coCurrency = ''USD''\<rparr>"

definition demo_paid :: OrderPaidInput where
  "demo_paid =
     \<lparr>opOrderId = ''o1'', opPaymentIntentId = ''pi_1'', opCheckoutSessionId = ''cs_1'',
      opTaxCents = Some 70\<rparr>"

definition demo_open :: "market_op list" where
  "demo_open =
     [ListingOp (CreateListing ''ann'' demo_listing ''l1'' 1),
      ListingOp (SetListingStatus ''ann'' ''l1'' Active 2),
      OrderOp (CreateOrder ''bob'' demo_order ''o1'' 3)]"

definition demo_sale :: "market_op list" where
  "demo_sale =
     demo_open @
     [OrderOp (MarkPaid demo_paid ''e1'' 4),
      OrderOp (Ship ''ann'' ''o1'' ''DHL'' ''123'' ''e2'' 5),
      OrderOp (MarkDelivered ''o1'' BySystem None None ''e3'' 6),
      OrderOp (Complete ''o1'' BySystem None None ''e4'' 7),
      RatingOp (RateOrder ''bob'' ''o1'' 5 None ''r1'' 8)]"

lemma demo_open_orders:
  "map (\<lambda>r. (oId r, oStatus r)) (orders (market_run demo_users demo_cards demo_open)) =
     [(''o1'', Created)]"
  by code_simp

lemma demo_sale_state:
  "map (\<lambda>r. (oId r, oStatus r)) (orders (market_run demo_users demo_cards demo_sale)) =
     [(''o1'', Completed)]"
  "map (\<lambda>r. (rId r, rStars r)) (orderRatings (market_run demo_users demo_cards demo_sale)) =
     [(''r1'', 5)]"
  by code_simp+

end
