(* ===== verification/MarketProps.thy ===== *)
theory MarketProps
  imports MarketInvariant
begin

text \<open>
  What the marketplace promises about orders, payments, ratings and photographs, after any run of
  its operations by anybody.
\<close>

section \<open>Orders\<close>

text \<open>After an update a row is the old one or its image.\<close>

lemma row_after:
  assumes dist: "distinct (map oId os)" and row: "find_row oId k os = Some n"
    and keep: "\<And>x. oId (f x) = oId x"
    and r: "r \<in> set os" "r' \<in> set (update_row oId k f os)" "oId r' = oId r"
  shows "n = r \<and> r' = f r \<or> r' = r"
proof -
  have one: "a = b" if "a \<in> set os" "b \<in> set os" "oId a = oId b" for a b
    using dist that by (auto simp: distinct_map inj_on_def)
  from r(2) obtain x where x: "x \<in> set os" "r' = (if oId x = k then f x else x)"
    by (auto simp: set_update_row)
  with r(3) keep have "oId x = oId r" by (auto split: if_splits)
  with one x(1) r(1) have "x = r" by blast
  moreover have "n = r" if "oId r = k" using one r(1) find_row_SomeD [OF row] that by simp
  ultimately show ?thesis using x(2) by (auto split: if_splits)
qed

lemma run_ledger_inv: "ledger_inv (ledger_of (market_run us vs ops))"
  using market_run_inv by (simp add: market_inv_def)

text \<open>C1: The audit trail of every order is complete and lawful: after any sequence of operations
  (some of which may fail), the events recorded for an order lead step by step from 'created' to
  its current status, and every step is a move the transition table grants to the actor who is
  recorded as having made it.\<close>

theorem order_audit_trail:
  assumes "r \<in> set (orders (market_run us vs ops))"
  shows "trail Created (events_of (oId r) (orderEvents (market_run us vs ops))) = Some (oStatus r)"
  using run_ledger_inv [of us vs ops] assms by (auto simp: ledger_inv_def ledger_of_def)

theorem order_audit_trail_witness:
  "\<exists>r \<in> set (orders (market_run demo_users demo_cards demo_sale)). oStatus r = Completed
     \<and> trail Created (events_of (oId r) (orderEvents (market_run demo_users demo_cards demo_sale)))
         = Some (oStatus r)"
proof -
  have "orders (market_run demo_users demo_cards demo_sale) \<noteq> []" using demo_sale_state by auto
  then obtain r rs where r: "orders (market_run demo_users demo_cards demo_sale) = r # rs"
    by (meson neq_Nil_conv)
  then have "oStatus r = Completed" using demo_sale_state by simp
  moreover have "r \<in> set (orders (market_run demo_users demo_cards demo_sale))" using r by simp
  ultimately show ?thesis using order_audit_trail by blast
qed

text \<open>C2: A session cannot move money or release a payout. If an operation run in a person's session
  changes an order's status, that person is a party to the order, the table grants the move to
  their role, and the new status is shipped, cancelled or disputed.\<close>

theorem session_cannot_move_money:
  assumes "market_inv db" "order_step x db = Inr db'" "order_session x = AsUser u"
    and "r \<in> set (orders db)" "r' \<in> set (orders db')" "oId r' = oId r" "oStatus r' \<noteq> oStatus r"
  shows "(oBuyerId r = u \<and> canTransition (oStatus r) (oStatus r') Buyer
        \<or> oSellerId r = u \<and> canTransition (oStatus r) (oStatus r') Seller)
      \<and> oStatus r' \<in> {Shipped, Cancelled, Disputed}"
proof -
  have dist: "distinct (map oId (orders db))"
    using assms(1) by (simp add: market_inv_def ledger_inv_def ledger_of_def)
  have one: "a = b" if "a \<in> set (orders db)" "b \<in> set (orders db)" "oId a = oId b" for a b
    using dist that by (auto simp: distinct_map inj_on_def)
  have "ledger_step (AsUser u) (orders db, orderEvents db) (orders db', orderEvents db')"
    using order_step_ledger [OF assms(2)] assms(3) by (simp add: ledger_of_def)
  then show ?thesis
  proof cases
    case idle
    then show ?thesis using one assms(4-7) by metis
  next
    case (born n)
    then have "oId n \<noteq> oId r" using assms(4) unique_violation_None_iff by metis
    then have "r' \<in> set (orders db)" using born assms(5,6) by auto
    then show ?thesis using one assms(4-7) by metis
  next
    case (noted k n f)
    then show ?thesis
      using row_after [OF dist noted(3) terms_keep_id [OF noted(6)] assms(4)] assms(5-7) by auto
  next
    case (moved k n f e)
    then have r': "r' = f n" "n = r"
      using row_after [OF dist moved(3) terms_keep_id [OF moved(6)] assms(4)] assms(5-7) by auto
    with moved have "oStatus r' \<in> {Created, Shipped, Cancelled, Disputed}"
      by (simp add: order_update_allowed_def)
    then show ?thesis
      using moved r' by (auto simp: event_signed_def)
  next
    case (unlinked k)
    then obtain n where "n \<in> set (orders db)" "r' = unlink_listing k n" using assms(5) by auto
    then show ?thesis using one assms(4,6,7) by auto
  qed
qed

theorem session_cannot_move_money_witness:
  "\<exists>r r' db'. order_step (Cancel ''bob'' ''o1'' None ''e9'' 9)
         (market_run demo_users demo_cards demo_open) = Inr db'
     \<and> r \<in> set (orders (market_run demo_users demo_cards demo_open))
     \<and> r' \<in> set (orders db') \<and> oStatus r' = Cancelled
     \<and> (oBuyerId r = ''bob'' \<or> oSellerId r = ''bob'')"
proof -
  let ?db = "market_run demo_users demo_cards demo_open"
  let ?x = "Cancel ''bob'' ''o1'' None ''e9'' 9"
  from demo_open_orders obtain r where r: "orders ?db = [r]" "oId r = ''o1''" "oStatus r = Created"
    by (auto simp: map_eq_Cons_conv)
  have "(case order_step ?x ?db of Inl _ \<Rightarrow> [] | Inr db' \<Rightarrow> map (\<lambda>r. (oId r, oStatus r)) (orders db'))
      = [(''o1'', Cancelled)]" by code_simp
  then obtain db' r' where db': "order_step ?x ?db = Inr db'"
    and r': "orders db' = [r']" "oId r' = ''o1''" "oStatus r' = Cancelled"
    by (auto simp: map_eq_Cons_conv split: sum.splits)
  have "r \<in> set (orders ?db)" "r' \<in> set (orders db')" "oId r' = oId r" "oStatus r' \<noteq> oStatus r"
    using r r' by simp_all
  from session_cannot_move_money [OF market_run_inv db' _ this, of "''bob''"]
  have "oBuyerId r = ''bob'' \<or> oSellerId r = ''bob''" by auto
  moreover have "r \<in> set (orders ?db)" "r' \<in> set (orders db')" using r r' by simp_all
  ultimately show ?thesis using r'(3) db' by blast
qed

text \<open>C3: A listing is never sold twice: at any moment at most one of the orders for it is open.\<close>

theorem one_open_order_per_listing:
  assumes "r \<in> set (orders (market_run us vs ops))" "x \<in> set (orders (market_run us vs ops))"
    and "order_open r" "order_open x" "oListingId r = oListingId x"
  shows "r = x"
proof -
  let ?os = "orders (market_run us vs ops)"
  have inv: "distinct (map oId ?os)"
    "\<forall>r \<in> set ?os. \<forall>x \<in> set ?os. oId r \<noteq> oId x \<longrightarrow> \<not> order_clash r x"
    using run_ledger_inv [of us vs ops] by (auto simp: ledger_inv_def ledger_of_def)
  have "order_clash r x" using assms(3-5) by (simp add: order_clash_def)
  then have "oId r = oId x" using inv(2) assms(1,2) by blast
  then show ?thesis using inv(1) assms(1,2) by (auto simp: distinct_map inj_on_def)
qed

theorem one_open_order_per_listing_witness:
  "\<exists>r x. r \<in> set (orders (market_run demo_users demo_cards demo_sale))
     \<and> x \<in> set (orders (market_run demo_users demo_cards demo_sale))
     \<and> order_open r \<and> order_open x \<and> oListingId r = oListingId x \<and> r = x"
proof -
  let ?db = "market_run demo_users demo_cards demo_sale"
  have "map order_open (orders ?db) = [True]" by code_simp
  then obtain r where r: "orders ?db = [r]" "order_open r" by (auto simp: map_eq_Cons_conv)
  then have "r = r" using one_open_order_per_listing [of r demo_users demo_cards demo_sale r] by simp
  with r show ?thesis by auto
qed

text \<open>The record only grows. Whatever is run next, an order is still there with the parties, the
  card, the amount, the fee and the currency it was opened with; a terminal status stays; and the
  event log keeps every entry it had, in its order.\<close>

theorem order_record_only_grows:
  assumes "r \<in> set (orders (market_run us vs ops))"
  shows "(\<exists>r' \<in> set (orders (market_run us vs (ops @ later))).
            order_terms r' = order_terms r \<and> (isTerminal (oStatus r) \<longrightarrow> oStatus r' = oStatus r))
       \<and> (\<exists>added. orderEvents (market_run us vs (ops @ later)) =
                    orderEvents (market_run us vs ops) @ added)"
  using market_run_grows [of us vs ops later] assms
  by (auto simp: ledger_grows_def ledger_of_def)

theorem order_record_only_grows_witness:
  "\<exists>r \<in> set (orders (market_run demo_users demo_cards demo_open)).
     \<exists>r' \<in> set (orders (market_run demo_users demo_cards (demo_open @
                [OrderOp (Cancel ''bob'' ''o1'' None ''e9'' 9)]))).
       order_terms r' = order_terms r"
proof -
  from demo_open_orders obtain r where
    "r \<in> set (orders (market_run demo_users demo_cards demo_open))"
    by (auto simp: map_eq_Cons_conv)
  then show ?thesis using order_record_only_grows by blast
qed

text \<open>What the money columns of any order can hold: a positive amount within the ceiling, a fee
  between nothing and the amount, nobody on both sides; once money has moved a payment is named,
  and from shipping on there is a parcel to look up.\<close>

theorem order_rows_sound:
  assumes "r \<in> set (orders (market_run us vs ops))"
  shows "0 < oAmountCents r \<and> oAmountCents r \<le> 100000000
       \<and> 0 \<le> oFeeCents r \<and> oFeeCents r \<le> oAmountCents r \<and> 0 \<le> oTaxCents r
       \<and> oBuyerId r \<noteq> oSellerId r
       \<and> (moneyHasMoved (oStatus r) \<longrightarrow> oPaymentIntentId r \<noteq> None)
       \<and> (oStatus r \<in> {Shipped, Delivered, Completed} \<longrightarrow>
            oTrackingCarrier r \<noteq> None \<and> oTrackingNumber r \<noteq> None)"
proof -
  have "first_violated (order_checks r) = None"
    using run_ledger_inv [of us vs ops] assms by (auto simp: ledger_inv_def ledger_of_def)
  then show ?thesis
    unfolding first_violated_None_iff order_checks_def moneyHasMoved_def by (simp, blast)
qed

theorem order_rows_sound_witness:
  "\<exists>r \<in> set (orders (market_run demo_users demo_cards demo_sale)).
     oStatus r = Completed \<and> oPaymentIntentId r \<noteq> None \<and> oTrackingNumber r \<noteq> None
     \<and> oFeeCents r \<le> oAmountCents r"
proof -
  from demo_sale_state obtain r where
    r: "r \<in> set (orders (market_run demo_users demo_cards demo_sale))" "oStatus r = Completed"
    by (auto simp: map_eq_Cons_conv)
  then show ?thesis using order_rows_sound [OF r(1)] by (auto simp: moneyHasMoved_def)
qed

text \<open>Payments are counted once: in the history of any order there is at most one payment and at
  most one refund, however often the webhooks are delivered.\<close>

theorem paid_and_refunded_at_most_once:
  "length (filter (\<lambda>e. eToStatus e = Paid)
       (events_of k (orderEvents (market_run us vs ops)))) \<le> 1
 \<and> length (filter (\<lambda>e. eToStatus e = Refunded)
       (events_of k (orderEvents (market_run us vs ops)))) \<le> 1"
proof (cases "k \<in> oId ` set (orders (market_run us vs ops))")
  case True
  then obtain r where "r \<in> set (orders (market_run us vs ops))" "oId r = k" by auto
  then have "trail Created (events_of k (orderEvents (market_run us vs ops))) = Some (oStatus r)"
    using run_ledger_inv [of us vs ops] by (auto simp: ledger_inv_def ledger_of_def)
  then show ?thesis using trail_paid_once trail_refunded_once by blast
next
  case False
  then have "k \<notin> eOrderId ` set (orderEvents (market_run us vs ops))"
    using run_ledger_inv [of us vs ops] by (auto simp: ledger_inv_def ledger_of_def)
  then show ?thesis by (simp add: events_of_none)
qed

text \<open>A payment webhook that is applied leaves the order paid under that payment and its listing
  sold; the same webhook delivered again answers 'already paid' and changes nothing.\<close>

theorem markOrderPaid_once:
  assumes "markOrderPaid input ev now db = Inr (PaidApplied r, db')"
  shows "getOrderById (opOrderId input) db' = Some r \<and> oStatus r = Paid
     \<and> oPaymentIntentId r = Some (opPaymentIntentId input)
     \<and> (\<forall>l. oListingId r = Some l \<longrightarrow> (\<forall>x \<in> set (listings db'). lId x = l \<longrightarrow> lStatus x = Sold))
     \<and> markOrderPaid input ev2 now2 db' = Inr (AlreadyPaid, db')"
proof -
  obtain existing db1 db2 where
      sel: "select_order Worker (opOrderId input) db = Some existing"
      and up: "update_order Worker (opOrderId input) (paid_set input Paid now) db = Inr (Some r, db1)"
      and ev: "insert_event Worker
         \<lparr>eId = ev, eOrderId = opOrderId input, eFromStatus = oStatus existing,
          eToStatus = Paid, eActor = Stripe, eActorId = None, eReason = None, eAt = now\<rparr> db1
        = Inr db2"
      and sold: "mark_listing_sold (oListingId existing) now db2 = Inr db'"
    using assms
    by (auto simp: markOrderPaid_def transition_Inr_iff split: option.splits sum.splits if_splits)
  from update_order_Inr [OF up] select_order_Some [OF sel]
  have r: "r = paid_set input Paid now existing" and row: "find_row oId (opOrderId input) (orders db) = Some existing"
    and db1: "db1 = db\<lparr>orders := update_row oId (opOrderId input) (paid_set input Paid now) (orders db)\<rparr>"
    by auto
  from paid_update.find_updated_same [OF row]
  have found: "find_row oId (opOrderId input) (orders db1) = Some r" by (simp add: db1 r)
  have db2: "orders db2 = orders db1" using insert_event_Inr [OF ev] by auto
  have split: "orders db' = orders db2 \<and>
      (\<forall>l. oListingId existing = Some l \<longrightarrow> (\<forall>x \<in> set (listings db'). lId x = l \<longrightarrow> lStatus x = Sold))"
  proof (cases "oListingId existing")
    case None
    with sold show ?thesis by (simp add: mark_listing_sold_def)
  next
    case (Some l)
    let ?f = "\<lambda>x. x\<lparr>lStatus := Sold, lUpdatedAt := now\<rparr>"
    from sold Some obtain res where lu: "update_listing Worker (\<lambda>_. True) l ?f db2 = Inr (res, db')"
      by (auto simp: mark_listing_sold_def split: sum.splits)
    show ?thesis
    proof (cases res)
      case None
      with lu have "find_row lId l (listings db2) = None"
        by (auto simp: update_listing_def listing_editable_def split: option.splits if_splits)
      moreover have "db' = db2" using lu None update_listing_None by blast
      ultimately show ?thesis using Some by (auto simp: find_row_None_iff)
    next
      case (Some y)
      from update_listing_Inr [OF lu [unfolded Some]]
      have db': "db' = db2\<lparr>listings := update_row lId l ?f (listings db2)\<rparr>" by blast
      have "lStatus x = Sold" if "x \<in> set (listings db')" "lId x = l" for x
      proof -
        from that(1) have "x \<in> set (update_row lId l ?f (listings db2))" unfolding db' by simp
        then obtain y where "x = (if lId y = l then ?f y else y)"
          unfolding set_update_row by (rule imageE)
        with that(2) show ?thesis by (cases "lId y = l") simp_all
      qed
      then show ?thesis using \<open>oListingId existing = Some l\<close> unfolding db' by simp
    qed
  qed
  from split found db2 have "select_order Worker (opOrderId input) db' = Some r"
    by (simp add: select_order_def order_visible_def)
  with split r show ?thesis
    by (simp add: getOrderById_def paid_set_def markOrderPaid_def)
qed

theorem markOrderPaid_once_witness:
  "\<exists>r db'. markOrderPaid demo_paid ''e1'' 4 (market_run demo_users demo_cards demo_open)
         = Inr (PaidApplied r, db')
     \<and> markOrderPaid demo_paid ''e2'' 5 db' = Inr (AlreadyPaid, db')
     \<and> oStatus r = Paid"
proof -
  let ?res = "markOrderPaid demo_paid ''e1'' 4 (market_run demo_users demo_cards demo_open)"
  have "(case ?res of Inr (PaidApplied r, db') \<Rightarrow> oId r = ''o1'' | _ \<Rightarrow> False)" by code_simp
  then obtain r db' where "?res = Inr (PaidApplied r, db')"
    by (auto split: sum.splits OrderPaidResult.splits prod.splits)
  from markOrderPaid_once [OF this, of "''e2''" 5] this show ?thesis by blast
qed

section \<open>Ratings and photographs\<close>

text \<open>C4: A rating is a receipt: every rating on file was left by the buyer of the order it names, about
  that order's seller, for an order whose history shows it completed; it has one to five stars
  and no other rating names the same order.\<close>

theorem rating_is_a_receipt:
  assumes "r \<in> set (orderRatings (market_run us vs ops))"
  shows "1 \<le> rStars r \<and> rStars r \<le> 5
     \<and> (\<exists>x \<in> set (orders (market_run us vs ops)).
          oId x = rOrderId r \<and> oBuyerId x = rRaterId r \<and> oSellerId x = rSellerId r)
     \<and> (\<exists>e \<in> set (orderEvents (market_run us vs ops)).
          eOrderId e = rOrderId r \<and> eToStatus e = Completed)
     \<and> (\<forall>q \<in> set (orderRatings (market_run us vs ops)). rOrderId q = rOrderId r \<longrightarrow> q = r)"
proof -
  note inv = market_run_inv [of us vs ops]
  then have "first_violated (rating_checks r) = None"
    and "rating_backed (ledger_of (market_run us vs ops)) r"
    using assms by (auto simp: market_inv_def rows_ok_def)
  then have "1 \<le> rStars r \<and> rStars r \<le> 5"
    unfolding first_violated_None_iff rating_checks_def by simp
  moreover have "\<forall>q \<in> set (orderRatings (market_run us vs ops)). rOrderId q = rOrderId r \<longrightarrow> q = r"
    using inv assms by (auto simp: market_inv_def distinct_map inj_on_def)
  ultimately show ?thesis
    using \<open>rating_backed _ r\<close> by (simp add: rating_backed_def ledger_of_def)
qed

theorem rating_is_a_receipt_witness:
  "\<exists>r \<in> set (orderRatings (market_run demo_users demo_cards demo_sale)).
     rStars r = 5 \<and> rStars r \<le> 5
     \<and> (\<exists>x \<in> set (orders (market_run demo_users demo_cards demo_sale)). oBuyerId x = rRaterId r)"
proof -
  from demo_sale_state(2) obtain r where
    r: "r \<in> set (orderRatings (market_run demo_users demo_cards demo_sale))" "rStars r = 5"
    by (auto simp: map_eq_Cons_conv)
  then show ?thesis using rating_is_a_receipt [OF r(1)] by auto
qed

end
