(* ===== verification/Sha256.thy ===== *)
theory Sha256
  imports Prelude "HOL-Library.Word"
begin

text \<open>
  The digest primitives of the platform that the source calls (\<open>crypto.subtle\<close> and
  \<open>node:crypto\<close>): SHA-256 and HMAC-SHA-256 over bytes (FIPS 180-4, RFC 2104), UTF-8 of a string
  and the hexadecimal rendering of bytes. They are written out on 32-bit words; what the
  components rely on is the interface \<open>digest\<close> at the end.
\<close>

unbundle bit_operations_syntax

type_synonym word32 = "32 word"
type_synonym bytes = "nat list"

section \<open>SHA-256\<close>

definition sha_k :: "word32 list" where
  "sha_k =
     [0x428a2f98, 0x71374491, 0xb5c0fbcf, 0xe9b5dba5, 0x3956c25b, 0x59f111f1,
      0x923f82a4, 0xab1c5ed5, 0xd807aa98, 0x12835b01, 0x243185be, 0x550c7dc3,
      0x72be5d74, 0x80deb1fe, 0x9bdc06a7, 0xc19bf174, 0xe49b69c1, 0xefbe4786,
      0x0fc19dc6, 0x240ca1cc, 0x2de92c6f, 0x4a7484aa, 0x5cb0a9dc, 0x76f988da,
      0x983e5152, 0xa831c66d, 0xb00327c8, 0xbf597fc7, 0xc6e00bf3, 0xd5a79147,
      0x06ca6351, 0x14292967, 0x27b70a85, 0x2e1b2138, 0x4d2c6dfc, 0x53380d13,
      0x650a7354, 0x766a0abb, 0x81c2c92e, 0x92722c85, 0xa2bfe8a1, 0xa81a664b,
      0xc24b8b70, 0xc76c51a3, 0xd192e819, 0xd6990624, 0xf40e3585, 0x106aa070,
      0x19a4c116, 0x1e376c08, 0x2748774c, 0x34b0bcb5, 0x391c0cb3, 0x4ed8aa4a,
      0x5b9cca4f, 0x682e6ff3, 0x748f82ee, 0x78a5636f, 0x84c87814, 0x8cc70208,
      0x90befffa, 0xa4506ceb, 0xbef9a3f7, 0xc67178f2]"

definition sha_init :: "word32 list" where
  "sha_init =
     [0x6a09e667, 0xbb67ae85, 0x3c6ef372, 0xa54ff53a,
      0x510e527f, 0x9b05688c, 0x1f83d9ab, 0x5be0cd19]"

definition sha_small :: "nat \<Rightarrow> nat \<Rightarrow> nat \<Rightarrow> word32 \<Rightarrow> word32" where
  "sha_small a b c x = word_rotr a x XOR word_rotr b x XOR drop_bit c x"

definition sha_big :: "nat \<Rightarrow> nat \<Rightarrow> nat \<Rightarrow> word32 \<Rightarrow> word32" where
  "sha_big a b c x = word_rotr a x XOR word_rotr b x XOR word_rotr c x"

text \<open>The message schedule, newest word first.\<close>

fun sha_extend :: "nat \<Rightarrow> word32 list \<Rightarrow> word32 list" where
  "sha_extend 0 ws = ws"
| "sha_extend (Suc n) ws =
     sha_extend n
       ((sha_small 17 19 10 (ws ! 1) + ws ! 6 + sha_small 7 18 3 (ws ! 14) + ws ! 15) # ws)"

definition sha_round :: "word32 list \<Rightarrow> word32 \<times> word32 \<Rightarrow> word32 list" where
  "sha_round st kw =
     (case st of
        [a, b, c, d, e, f, g, h] \<Rightarrow>
          let t1 = h + sha_big 6 11 25 e + ((e AND f) XOR (NOT e AND g)) + fst kw + snd kw;
              t2 = sha_big 2 13 22 a + ((a AND b) XOR (a AND c) XOR (b AND c))
          in [t1 + t2, a, b, c, d + t1, e, f, g]
      | _ \<Rightarrow> st)"

definition word_of_bytes :: "bytes \<Rightarrow> word32" where
  "word_of_bytes bs = of_nat (foldl (\<lambda>n b. 256 * n + b) 0 bs)"

fun chunks :: "nat \<Rightarrow> nat \<Rightarrow> 'a list \<Rightarrow> 'a list list" where
  "chunks 0 n xs = []"
| "chunks (Suc k) n xs = (if xs = [] then [] else take n xs # chunks k n (drop n xs))"

definition sha_block :: "word32 list \<Rightarrow> bytes \<Rightarrow> word32 list" where
  "sha_block st block =
     (let ws = rev (sha_extend 48 (rev (map word_of_bytes (chunks 16 4 block))))
      in map2 (+) st (foldl sha_round st (zip sha_k ws)))"

definition be_bytes :: "nat \<Rightarrow> nat \<Rightarrow> bytes" where
  "be_bytes n x = map (\<lambda>i. (x div 256 ^ (n - 1 - i)) mod 256) [0..<n]"

definition sha_pad :: "bytes \<Rightarrow> bytes" where
  "sha_pad m =
     m @ [128] @ replicate ((119 - length m mod 64) mod 64) 0 @ be_bytes 8 (8 * length m)"

definition sha256 :: "bytes \<Rightarrow> bytes" where
  "sha256 m =
     (let p = sha_pad m
      in concat (map (\<lambda>w. be_bytes 4 (unat w)) (foldl sha_block sha_init (chunks (length p) 64 p))))"

section \<open>HMAC\<close>

definition xor_byte :: "nat \<Rightarrow> nat \<Rightarrow> nat" where
  "xor_byte a b = a XOR b"

definition hmac_key :: "bytes \<Rightarrow> bytes" where
  "hmac_key k =
     (let k' = (if length k > 64 then sha256 k else k) in k' @ replicate (64 - length k') 0)"

definition hmac_sha256 :: "bytes \<Rightarrow> bytes \<Rightarrow> bytes" where
  "hmac_sha256 k m =
     sha256 (map (xor_byte 0x5c) (hmac_key k) @ sha256 (map (xor_byte 0x36) (hmac_key k) @ m))"

section \<open>Text\<close>

text \<open>\<open>TextEncoder\<close> on code units below 256: one byte up to 127, two above.\<close>

definition utf8_char :: "char \<Rightarrow> bytes" where
  "utf8_char c =
     (let n = (of_char c :: nat)
      in if n < 128 then [n] else [192 + n div 64, 128 + n mod 64])"

definition utf8 :: "string \<Rightarrow> bytes" where
  "utf8 s = concat (map utf8_char s)"

definition hex_digit :: "nat \<Rightarrow> char" where
  "hex_digit d = (if d < 10 then char_of (48 + d) else char_of (87 + d))"

definition hex_byte :: "nat \<Rightarrow> string" where
  "hex_byte b = [hex_digit (b div 16), hex_digit (b mod 16)]"

definition toHex :: "bytes \<Rightarrow> string" where
  "toHex bs = concat (map hex_byte bs)"

definition sha256Hex :: "string \<Rightarrow> string" where
  "sha256Hex s = toHex (sha256 (utf8 s))"

section \<open>Lengths\<close>

lemma length_be_bytes [simp]: "length (be_bytes n x) = n"
  by (simp add: be_bytes_def)

lemma length_sha_round: "length st = 8 \<Longrightarrow> length (sha_round st kw) = 8"
  by (auto simp: sha_round_def Let_def split: list.splits)

lemma length_sha_rounds: "length st = 8 \<Longrightarrow> length (foldl sha_round st kws) = 8"
  by (induction kws arbitrary: st) (auto simp: length_sha_round)

lemma length_sha_block: "length st = 8 \<Longrightarrow> length (sha_block st b) = 8"
  by (simp add: sha_block_def Let_def length_sha_rounds)

lemma length_sha_blocks: "length st = 8 \<Longrightarrow> length (foldl sha_block st bs) = 8"
  by (induction bs arbitrary: st) (auto simp: length_sha_block)

lemma length_concat_be: "length (concat (map (\<lambda>w. be_bytes 4 (unat w)) ws)) = 4 * length ws"
  by (induction ws) auto

lemma length_sha256: "length (sha256 m) = 32"
  unfolding sha256_def Let_def length_concat_be
  by (simp add: length_sha_blocks sha_init_def)

lemma sha256_bytes: "b \<in> set (sha256 m) \<Longrightarrow> b < 256"
  by (auto simp: sha256_def be_bytes_def Let_def)

lemma length_hmac: "length (hmac_sha256 k m) = 32"
  by (simp add: hmac_sha256_def length_sha256)

lemma hmac_bytes: "b \<in> set (hmac_sha256 k m) \<Longrightarrow> b < 256"
  unfolding hmac_sha256_def by (rule sha256_bytes)

lemma length_toHex: "length (toHex bs) = 2 * length bs"
  by (induction bs) (auto simp: toHex_def hex_byte_def)

lemma length_sha256Hex: "length (sha256Hex s) = 64"
  by (simp add: sha256Hex_def length_toHex length_sha256)

section \<open>The interface\<close>

text \<open>
  What the components use of a digest: a fixed length. Nothing is assumed about collisions; a
  statement that rests on their absence exhibits the two inputs that would collide.
\<close>

locale digest =
  fixes hash :: "string \<Rightarrow> string" and len :: nat
  assumes hash_length: "length (hash s) = len"
begin

text \<open>A fixed length makes a hash prefix separable from what follows it.\<close>

lemma prefix_separates: "hash a @ x = hash b @ y \<longleftrightarrow> hash a = hash b \<and> x = y"
  by (simp add: hash_length)

end

interpretation sha: digest sha256Hex 64
  by unfold_locales (rule length_sha256Hex)

end
