(* ===== verification/Fairness.thy ===== *)
theory Fairness
  imports Sha256 JsNumber "HOL-Library.Multiset"
begin

text \<open>
  Provably fair breaks (\<open>packages/core/src/fairness.ts\<close>): the commitment to a server seed, the byte
  stream and the shuffle it drives, the check anybody can run, and the hash chain over a pull log.
  The draw that may reject for ever is a partial function: not returning is \<open>None\<close>.
\<close>

section \<open>Commitment and byte stream\<close>

definition SHUFFLE_ALGORITHM :: string where
  "SHUFFLE_ALGORITHM = ''v1''"

definition GENESIS_HASH :: string where
  "GENESIS_HASH = replicate 64 (CHR ''0'')"

definition commitmentFor :: "string \<Rightarrow> string" where
  "commitmentFor serverSeed = sha256Hex serverSeed"

text \<open>The block with a given number, and the bytes of all blocks one after another.\<close>

definition stream_block :: "string \<Rightarrow> string \<Rightarrow> string \<Rightarrow> nat \<Rightarrow> bytes" where
  "stream_block serverSeed clientSeed breakId block =
     hmac_sha256 (utf8 serverSeed)
       (utf8 (SHUFFLE_ALGORITHM @ '':'' @ clientSeed @ '':'' @ breakId @ '':'' @ string_of_nat block))"

definition byteStream :: "string \<Rightarrow> string \<Rightarrow> string \<Rightarrow> nat \<Rightarrow> nat" where
  "byteStream serverSeed clientSeed breakId i =
     stream_block serverSeed clientSeed breakId (i div 32) ! (i mod 32)"

section \<open>The shuffle\<close>

text \<open>Four bytes, most significant first.\<close>

definition draw :: "(nat \<Rightarrow> nat) \<Rightarrow> nat \<Rightarrow> nat" where
  "draw stream pos = foldl (\<lambda>value i. value * 256 + stream (pos + i)) 0 [0..<4]"

definition draw_limit :: "nat \<Rightarrow> nat" where
  "draw_limit bound = nat (\<lfloor>dbl (2 ^ 32 / of_nat bound)\<rfloor> * int bound)"

partial_function (option) randomBelow :: "(nat \<Rightarrow> nat) \<Rightarrow> nat \<Rightarrow> nat \<Rightarrow> (nat \<times> nat) option" where
  "randomBelow stream bound pos =
     (let value = draw stream pos
      in if value < draw_limit bound then Some (value mod bound, pos + 4)
         else randomBelow stream bound (pos + 4))"

text \<open>\<open>order[i]\<close> and \<open>order[j]\<close> exchanged.\<close>

definition exchange :: "nat \<Rightarrow> nat \<Rightarrow> 'a list \<Rightarrow> 'a list" where
  "exchange i j order = order[i := order ! j, j := order ! i]"

fun shuffle_loop :: "(nat \<Rightarrow> nat) \<Rightarrow> nat \<Rightarrow> nat list \<Rightarrow> nat \<Rightarrow> nat list option" where
  "shuffle_loop stream 0 order pos = Some order"
| "shuffle_loop stream (Suc i) order pos =
     (case randomBelow stream (Suc i + 1) pos of
        None \<Rightarrow> None
      | Some (j, pos') \<Rightarrow> shuffle_loop stream i (exchange (Suc i) j order) pos')"

datatype shuffle_error = BadCount | SeedMissing

text \<open>An error, or (when every draw is accepted eventually) the order.\<close>

definition deriveShuffle ::
  "string \<Rightarrow> string \<Rightarrow> string \<Rightarrow> jsnum \<Rightarrow> shuffle_error + nat list option" where
  "deriveShuffle serverSeed clientSeed breakId cnt =
     (if \<not> is_integer cnt \<or> js_less cnt (int_num 1) then Inl BadCount
      else if length serverSeed = 0 \<or> length clientSeed = 0 then Inl SeedMissing
      else
        let n = nat (to_int cnt)
        in Inr (shuffle_loop (byteStream serverSeed clientSeed breakId) (n - 1) [0..<n] 0))"

record ShuffleVerdict =
  svValid :: bool
  svCommitmentMatches :: bool
  svOrderMatches :: bool

definition verifyShuffle ::
  "string \<Rightarrow> string \<Rightarrow> string \<Rightarrow> string \<Rightarrow> nat list \<Rightarrow> shuffle_error + ShuffleVerdict option" where
  "verifyShuffle serverSeed clientSeed breakId commitment claimedOrder =
     (let commitmentMatches = (commitmentFor serverSeed = commitment)
      in case deriveShuffle serverSeed clientSeed breakId (int_num (int (length claimedOrder))) of
           Inl e \<Rightarrow> Inl e
         | Inr None \<Rightarrow> Inr None
         | Inr (Some derived) \<Rightarrow>
             (let orderMatches =
                    (length derived = length claimedOrder
                     \<and> list_all (\<lambda>(a, b). a = b) (zip derived claimedOrder))
              in Inr (Some \<lparr>svValid = (commitmentMatches \<and> orderMatches),
                            svCommitmentMatches = commitmentMatches,
                            svOrderMatches = orderMatches\<rparr>)))"

section \<open>The pull log's chain\<close>

record ChainedPull =
  cpSeq :: int
  cpCardVariantId :: "string option"
  cpLabel :: "string option"
  cpValueCents :: int
  cpValueSource :: string
  cpPulledAt :: string

text \<open>\<open>JSON.stringify\<close> of a string, of a nullable string and of a whole number.\<close>

definition json_escape :: "char \<Rightarrow> string" where
  "json_escape c =
     (if c = CHR 0x22 then [CHR 0x5C, CHR 0x22]
      else if c = CHR 0x5C then [CHR 0x5C, CHR 0x5C]
      else if c = CHR 0x08 then [CHR 0x5C, CHR ''b'']
      else if c = CHR 0x0C then [CHR 0x5C, CHR ''f'']
      else if c = CHR 0x0A then [CHR 0x5C, CHR ''n'']
      else if c = CHR 0x0D then [CHR 0x5C, CHR ''r'']
      else if c = CHR 0x09 then [CHR 0x5C, CHR ''t'']
      else if (of_char c :: nat) < 32 then [CHR 0x5C, CHR ''u''] @ ''00'' @ hex_byte (of_char c)
      else [c])"

definition json_string :: "string \<Rightarrow> string" where
  "json_string s = [CHR 0x22] @ concat (map json_escape s) @ [CHR 0x22]"

definition json_nullable :: "string option \<Rightarrow> string" where
  "json_nullable v = (case v of None \<Rightarrow> ''null'' | Some s \<Rightarrow> json_string s)"

text \<open>The keys, sorted, each with its value.\<close>

definition canonicalise :: "ChainedPull \<Rightarrow> string" where
  "canonicalise row =
     ''{'' @ json_string ''cardVariantId'' @ '':'' @ json_nullable (cpCardVariantId row) @ '',''
       @ json_string ''label'' @ '':'' @ json_nullable (cpLabel row) @ '',''
       @ json_string ''pulledAt'' @ '':'' @ json_string (cpPulledAt row) @ '',''
       @ json_string ''seq'' @ '':'' @ string_of_int (cpSeq row) @ '',''
       @ json_string ''valueCentsAtPull'' @ '':'' @ string_of_int (cpValueCents row) @ '',''
       @ json_string ''valueSource'' @ '':'' @ json_string (cpValueSource row) @ ''}''"

definition hashPull :: "string \<Rightarrow> ChainedPull \<Rightarrow> string" where
  "hashPull prevHash row = sha256Hex (prevHash @ canonicalise row)"

text \<open>A row as published: the pull, the hash before it and its own.\<close>

type_synonym linked = "ChainedPull \<times> string \<times> string"

fun verify_from :: "string \<Rightarrow> linked list \<Rightarrow> int option" where
  "verify_from expectedPrev [] = None"
| "verify_from expectedPrev ((row, prevHash, rowHash) # rows) =
     (if prevHash \<noteq> expectedPrev then Some (cpSeq row)
      else if hashPull prevHash row \<noteq> rowHash then Some (cpSeq row)
      else verify_from rowHash rows)"

definition verifyChain :: "linked list \<Rightarrow> bool \<times> int option" where
  "verifyChain rows =
     (case verify_from GENESIS_HASH rows of
        None \<Rightarrow> (True, None)
      | Some n \<Rightarrow> (False, Some n))"

section \<open>Draws\<close>

text \<open>What the shuffle needs of its source: bytes.\<close>

locale byte_source =
  fixes stream :: "nat \<Rightarrow> nat"
  assumes byte: "stream i < 256"
begin

lemma draw_bound: "draw stream pos < 2 ^ 32"
proof -
  have "[0..<4] = [0, 1, 2, 3 :: nat]" by (simp add: upt_rec)
  then have "draw stream pos =
      ((stream pos * 256 + stream (pos + 1)) * 256 + stream (pos + 2)) * 256 + stream (pos + 3)"
    by (simp add: draw_def)
  moreover have "stream pos < 256" "stream (pos + 1) < 256" "stream (pos + 2) < 256" "stream (pos + 3) < 256"
    by (rule byte)+
  ultimately show ?thesis by simp
qed

end

interpretation bs: byte_source "byteStream serverSeed clientSeed breakId" for serverSeed clientSeed breakId
proof unfold_locales
  fix i
  have "byteStream serverSeed clientSeed breakId i \<in>
      set (stream_block serverSeed clientSeed breakId (i div 32))"
    unfolding byteStream_def by (rule nth_mem) (simp add: stream_block_def length_hmac)
  then show "byteStream serverSeed clientSeed breakId i < 256"
    unfolding stream_block_def by (rule hmac_bytes)
qed

lemma draw_limit_eq:
  assumes "0 < bound" "bound \<le> 2 ^ 32"
  shows "draw_limit bound = 2 ^ 32 div bound * bound"
proof -
  have "\<lfloor>dbl (of_int (2 ^ 32) / of_int (int bound))\<rfloor> = 2 ^ 32 div int bound"
    by (rule js.floor_rnd) (use assms in auto)
  moreover have "2 ^ 32 div int bound = int (2 ^ 32 div bound)" by (simp add: zdiv_int)
  ultimately have "\<lfloor>dbl (2 ^ 32 / of_nat bound)\<rfloor> = int (2 ^ 32 div bound)" by simp
  then show ?thesis
    unfolding draw_limit_def by (simp only: flip: of_nat_mult)
qed

text \<open>More than half of the 32-bit values are accepted, whatever the bound.\<close>

lemma draw_limit_half:
  assumes "0 < bound" "bound \<le> 2 ^ 32"
  shows "2 ^ 31 < draw_limit bound" "draw_limit bound \<le> 2 ^ 32"
proof -
  have eq: "draw_limit bound + 2 ^ 32 mod bound = 2 ^ 32"
    using draw_limit_eq [OF assms] by simp
  then show "draw_limit bound \<le> 2 ^ 32" by linarith
  have m: "2 ^ 32 mod bound < bound" using assms(1) by simp
  have "bound \<le> draw_limit bound"
  proof -
    have "1 \<le> 2 ^ 32 div bound" using assms by (simp add: Suc_le_eq div_greater_zero_iff)
    then show ?thesis unfolding draw_limit_eq [OF assms] by simp
  qed
  then show "2 ^ 31 < draw_limit bound" using eq m by simp
qed

text \<open>The accepted values split evenly over the residues: no bias.\<close>

lemma residues_even:
  assumes "r < bound" "limit = q * bound"
  shows "card {v. v < limit \<and> v mod bound = r} = q"
proof -
  have "{v. v < limit \<and> v mod bound = r} = (\<lambda>k. k * bound + r) ` {..<q}"
  proof (intro equalityI subsetI)
    fix v assume "v \<in> {v. v < limit \<and> v mod bound = r}"
    then have v: "v < q * bound" "v mod bound = r" using assms(2) by auto
    then have "v = v div bound * bound + r" by (metis div_mult_mod_eq)
    moreover have "v div bound < q" using v(1) by (simp add: less_mult_imp_div_less)
    ultimately show "v \<in> (\<lambda>k. k * bound + r) ` {..<q}" by blast
  next
    fix v assume "v \<in> (\<lambda>k. k * bound + r) ` {..<q}"
    then obtain k where k: "k < q" "v = k * bound + r" by auto
    then have "v < Suc k * bound" using assms(1) by simp
    also have "\<dots> \<le> q * bound" using k(1) by (intro mult_le_mono1) simp
    finally show "v \<in> {v. v < limit \<and> v mod bound = r}" using k assms by simp
  qed
  moreover have "inj_on (\<lambda>k. k * bound + r) {..<q}"
    using assms(1) by (auto simp: inj_on_def)
  ultimately show ?thesis by (simp add: card_image)
qed

lemma randomBelow_unfold:
  "randomBelow stream bound pos =
     (if draw stream pos < draw_limit bound then Some (draw stream pos mod bound, pos + 4)
      else randomBelow stream bound (pos + 4))"
  by (subst randomBelow.simps) (simp add: Let_def)

definition accepted_draw :: "(nat \<Rightarrow> nat) \<Rightarrow> nat \<Rightarrow> nat \<Rightarrow> nat \<times> nat \<Rightarrow> bool" where
  "accepted_draw stream bound pos y \<longleftrightarrow>
     (\<exists>k. y = (draw stream (pos + 4 * k) mod bound, pos + 4 * k + 4)
        \<and> draw stream (pos + 4 * k) < draw_limit bound
        \<and> (\<forall>i < k. \<not> draw stream (pos + 4 * i) < draw_limit bound))"

lemma accepted_draw_skip:
  assumes "\<not> draw stream pos < draw_limit bound" "accepted_draw stream bound (pos + 4) y"
  shows "accepted_draw stream bound pos y"
proof -
  from assms(2) obtain k where k: "y = (draw stream (pos + 4 + 4 * k) mod bound, pos + 4 + 4 * k + 4)"
    "draw stream (pos + 4 + 4 * k) < draw_limit bound"
    "\<forall>i < k. \<not> draw stream (pos + 4 + 4 * i) < draw_limit bound"
    by (auto simp: accepted_draw_def)
  have "\<not> draw stream (pos + 4 * i) < draw_limit bound" if "i < Suc k" for i
    using that k(3) assms(1) by (cases i) (auto simp: algebra_simps)
  with k show ?thesis
    unfolding accepted_draw_def by (intro exI [of _ "Suc k"]) (auto simp: algebra_simps)
qed

lemma randomBelow_Some:
  assumes "randomBelow stream bound pos = Some y"
  shows "accepted_draw stream bound pos y"
  using assms
proof (rule randomBelow.raw_induct [rotated])
  fix rec stream bound pos y
  assume IH: "\<And>stream bound pos y. rec stream bound pos = Some y \<Longrightarrow> accepted_draw stream bound pos y"
    and body: "(let value = draw stream pos
      in if value < draw_limit bound then Some (value mod bound, pos + 4)
         else rec stream bound (pos + 4)) = Some y"
  show "accepted_draw stream bound pos y"
  proof (cases "draw stream pos < draw_limit bound")
    case True
    with body show ?thesis
      unfolding accepted_draw_def by (intro exI [of _ 0]) (auto simp: Let_def)
  next
    case False
    with body have "rec stream bound (pos + 4) = Some y" by (simp add: Let_def)
    from accepted_draw_skip [OF False IH [OF this]] show ?thesis .
  qed
qed

lemma randomBelow_returns:
  assumes "draw stream (pos + 4 * k) < draw_limit bound"
  shows "\<exists>j pos'. randomBelow stream bound pos = Some (j, pos')"
  using assms
proof (induction k arbitrary: pos)
  case 0
  then show ?case by (subst randomBelow_unfold) simp
next
  case (Suc k)
  then have "\<exists>j pos'. randomBelow stream bound (pos + 4) = Some (j, pos')"
    by (intro Suc.IH) (simp add: algebra_simps)
  then show ?case by (subst randomBelow_unfold) auto
qed

lemma randomBelow_below: "0 < bound \<Longrightarrow> randomBelow stream bound pos = Some (j, pos') \<Longrightarrow> j < bound"
  by (drule randomBelow_Some) (auto simp: accepted_draw_def)

section \<open>The shuffle as a function of its draws\<close>

fun draws_ok :: "nat \<Rightarrow> nat list \<Rightarrow> bool" where
  "draws_ok 0 ds = (ds = [])"
| "draws_ok (Suc i) ds = (case ds of [] \<Rightarrow> False | j # ds' \<Rightarrow> j \<le> Suc i \<and> draws_ok i ds')"

fun apply_draws :: "nat \<Rightarrow> nat list \<Rightarrow> 'a list \<Rightarrow> 'a list" where
  "apply_draws 0 ds xs = xs"
| "apply_draws (Suc i) ds xs =
     (case ds of [] \<Rightarrow> xs | j # ds' \<Rightarrow> apply_draws i ds' (exchange (Suc i) j xs))"

lemma length_exchange [simp]: "length (exchange i j xs) = length xs"
  by (simp add: exchange_def)

lemma mset_exchange: "i < length xs \<Longrightarrow> j < length xs \<Longrightarrow> mset (exchange i j xs) = mset xs"
  unfolding exchange_def by (rule mset_swap)

lemma exchange_at: "i < length xs \<Longrightarrow> j < length xs \<Longrightarrow> exchange i j xs ! i = xs ! j"
  by (auto simp: exchange_def nth_list_update)

lemma exchange_far: "k \<noteq> i \<Longrightarrow> k \<noteq> j \<Longrightarrow> exchange i j xs ! k = xs ! k"
  by (simp add: exchange_def)

lemma shuffle_loop_draws:
  assumes "shuffle_loop stream i order pos = Some r"
  shows "\<exists>ds. draws_ok i ds \<and> r = apply_draws i ds order"
  using assms
proof (induction stream i order pos rule: shuffle_loop.induct)
  case (1 stream order pos)
  then show ?case by (intro exI [of _ "[]"]) simp
next
  case (2 stream i order pos)
  then obtain j pos' where r: "randomBelow stream (Suc i + 1) pos = Some (j, pos')"
    and rest: "shuffle_loop stream i (exchange (Suc i) j order) pos' = Some r"
    by (auto split: option.splits)
  have "j \<le> Suc i" using randomBelow_below [OF _ r] by simp
  with 2 r rest show ?case
    by (metis (no_types, lifting) apply_draws.simps(2) draws_ok.simps(2) list.simps(5) option.simps(5) prod.case)
qed

lemma apply_draws_length [simp]: "length (apply_draws i ds xs) = length xs"
  by (induction i arbitrary: ds xs) (auto split: list.splits)

lemma apply_draws_mset:
  "draws_ok i ds \<Longrightarrow> i < length xs \<Longrightarrow> mset (apply_draws i ds xs) = mset xs"
  by (induction i arbitrary: ds xs) (auto split: list.splits simp: mset_exchange)

lemma apply_draws_above: "draws_ok i ds \<Longrightarrow> i < k \<Longrightarrow> apply_draws i ds xs ! k = xs ! k"
proof (induction i arbitrary: ds xs)
  case (Suc i)
  then obtain j ds' where ds: "ds = j # ds'" "j \<le> Suc i" "draws_ok i ds'" by (auto split: list.splits)
  with Suc show ?case by (simp add: exchange_far)
qed simp

text \<open>Where the top element lands tells the draw.\<close>

lemma apply_draws_top:
  assumes "draws_ok (Suc i) (j # ds)" "Suc i < length xs"
  shows "apply_draws (Suc i) (j # ds) xs ! Suc i = xs ! j"
  using assms apply_draws_above [of i ds "Suc i" "exchange (Suc i) j xs"] by (simp add: exchange_at)

lemma apply_draws_inj:
  assumes "distinct xs" "i < length xs" "draws_ok i ds" "draws_ok i es"
    "apply_draws i ds xs = apply_draws i es xs"
  shows "ds = es"
  using assms
proof (induction i arbitrary: ds es xs)
  case 0
  then show ?case by simp
next
  case (Suc i)
  then obtain j ds' k es' where ds: "ds = j # ds'" "j \<le> Suc i" "draws_ok i ds'"
    and es: "es = k # es'" "k \<le> Suc i" "draws_ok i es'" by (auto split: list.splits)
  have "xs ! j = xs ! k"
    using apply_draws_top [of i j ds' xs] apply_draws_top [of i k es' xs] Suc.prems ds es by simp
  then have jk: "j = k" using Suc.prems(1,2) ds(2) es(2) by (simp add: nth_eq_iff_index_eq)
  have "mset (exchange (Suc i) j xs) = mset xs" using Suc.prems(2) ds(2) by (simp add: mset_exchange)
  then have "distinct (exchange (Suc i) j xs)" using Suc.prems(1) mset_eq_imp_distinct_iff by blast
  then have "ds' = es'"
    using Suc.IH [of "exchange (Suc i) j xs" ds' es'] Suc.prems ds es jk by simp
  with ds es jk show ?case by simp
qed

lemma apply_draws_onto:
  assumes "distinct xs" "i < length xs" "mset ys = mset xs" "\<forall>k. i < k \<and> k < length xs \<longrightarrow> ys ! k = xs ! k"
  shows "\<exists>ds. draws_ok i ds \<and> apply_draws i ds xs = ys"
  using assms
proof (induction i arbitrary: xs)
  case 0
  have len: "length ys = length xs" using 0(3) by (rule mset_eq_length)
  obtain x xs' y ys' where c: "xs = x # xs'" "ys = y # ys'" using 0(2) len
    by (metis length_0_conv less_nat_zero_code neq_Nil_conv)
  have "ys' = xs'"
    by (rule nth_equalityI) (use 0(4) len c in \<open>auto dest: spec [of _ "Suc _"]\<close>)
  with 0(3) c have "ys = xs" by simp
  then show ?case by (intro exI [of _ "[]"]) simp
next
  case (Suc i)
  have len: "length ys = length xs" using Suc.prems(3) by (rule mset_eq_length)
  have dy: "distinct ys" using Suc.prems(1,3) mset_eq_imp_distinct_iff by blast
  have "ys ! Suc i \<in> set xs"
    using Suc.prems(2,3) len by (metis mset_eq_setD nth_mem)
  then obtain j where j: "j < length xs" "xs ! j = ys ! Suc i" by (auto simp: in_set_conv_nth)
  have le: "j \<le> Suc i"
  proof (rule ccontr)
    assume "\<not> j \<le> Suc i"
    then have "ys ! j = ys ! Suc i" using Suc.prems(4) j by simp
    then show False using dy j(1) len Suc.prems(2) \<open>\<not> j \<le> Suc i\<close> by (simp add: nth_eq_iff_index_eq)
  qed
  let ?e = "exchange (Suc i) j xs"
  have m: "mset ?e = mset xs" using Suc.prems(2) j(1) by (simp add: mset_exchange)
  have "distinct ?e" using m Suc.prems(1) mset_eq_imp_distinct_iff by blast
  moreover have "\<forall>k. i < k \<and> k < length ?e \<longrightarrow> ys ! k = ?e ! k"
  proof (intro allI impI)
    fix k assume k: "i < k \<and> k < length ?e"
    show "ys ! k = ?e ! k"
    proof (cases "k = Suc i")
      case True
      then show ?thesis using Suc.prems(2) j by (simp add: exchange_at)
    next
      case False
      then have "k > Suc i" using k by simp
      then show ?thesis using Suc.prems(4) k le by (simp add: exchange_far)
    qed
  qed
  ultimately obtain ds where "draws_ok i ds" "apply_draws i ds ?e = ys"
    using Suc.IH [of ?e] Suc.prems(2,3) m by auto
  with le show ?case by (intro exI [of _ "j # ds"]) simp
qed

section \<open>What a shuffle is\<close>

text \<open>A derived order is a permutation of the slots: every slot appears exactly once.\<close>

theorem deriveShuffle_permutes:
  assumes "deriveShuffle serverSeed clientSeed breakId cnt = Inr (Some order)"
  shows "cnt = int_num (int (length order)) \<and> 1 \<le> length order
     \<and> mset order = mset [0..<length order] \<and> distinct order"
proof -
  have i: "is_integer cnt" "\<not> js_less cnt (int_num 1)"
    and loop: "shuffle_loop (byteStream serverSeed clientSeed breakId) (nat (to_int cnt) - 1)
       [0..<nat (to_int cnt)] 0 = Some order"
    using assms by (auto simp: deriveShuffle_def Let_def split: if_splits)
  then obtain m where m: "cnt = int_num m" "1 \<le> m" by (auto simp: is_integer_iff)
  obtain ds where "draws_ok (nat m - 1) ds" "order = apply_draws (nat m - 1) ds [0..<nat m]"
    using shuffle_loop_draws [OF loop] m by auto
  moreover from m this(1) have "mset (apply_draws (nat m - 1) ds [0..<nat m]) = mset [0..<nat m]"
    by (intro apply_draws_mset) auto
  ultimately have ms: "mset order = mset [0..<nat m]" by (simp only:)
  have len: "length order = nat m" using mset_eq_length [OF ms] by simp
  have "distinct order" using mset_eq_imp_distinct_iff [OF ms] by simp
  moreover have "cnt = int_num (int (length order))" using m len by simp
  moreover have "1 \<le> length order" using m len by simp
  moreover have "mset order = mset [0..<length order]" unfolding len by (rule ms)
  ultimately show ?thesis by blast
qed


section \<open>Checking and returning\<close>

lemma shuffle_loop_returns:
  assumes "i < 2 ^ 32"
    and "\<And>b p. 2 \<le> b \<Longrightarrow> b \<le> Suc i \<Longrightarrow> \<exists>k. draw stream (p + 4 * k) < draw_limit b"
  shows "\<exists>r. shuffle_loop stream i order p = Some r"
  using assms
proof (induction stream i order p rule: shuffle_loop.induct)
  case (2 stream i order p)
  have "\<exists>k. draw stream (p + 4 * k) < draw_limit (Suc i + 1)" by (rule 2(3)) simp_all
  then obtain j p' where r: "randomBelow stream (Suc i + 1) p = Some (j, p')"
    using randomBelow_returns by blast
  have "\<exists>r. shuffle_loop stream i (exchange (Suc i) j order) p' = Some r"
    by (rule 2(1) [OF r refl]) (use 2(2,3) in auto)
  with r show ?case by auto
qed simp

lemma verifyShuffle_Some:
  "verifyShuffle s c b com claimed = Inr (Some v) \<Longrightarrow>
     \<exists>order. deriveShuffle s c b (int_num (int (length claimed))) = Inr (Some order)
       \<and> svCommitmentMatches v = (sha256Hex s = com) \<and> svOrderMatches v = (order = claimed)
       \<and> svValid v = (sha256Hex s = com \<and> order = claimed)"
proof -
  assume v: "verifyShuffle s c b com claimed = Inr (Some v)"
  then obtain order where "deriveShuffle s c b (int_num (int (length claimed))) = Inr (Some order)"
    by (auto simp: verifyShuffle_def Let_def split: sum.splits option.splits)
  moreover have "(length order = length claimed \<and> list_all (\<lambda>(a, b). a = b) (zip order claimed))
      \<longleftrightarrow> order = claimed"
    by (auto simp: list_all_iff list_eq_iff_zip_eq split_beta)
  ultimately show ?thesis using v by (auto simp: verifyShuffle_def Let_def commitmentFor_def)
qed

lemma verifyShuffle_honest:
  assumes "deriveShuffle s c b (int_num (int (length order))) = Inr (Some order)"
  shows "verifyShuffle s c b com order =
    Inr (Some \<lparr>svValid = (sha256Hex s = com), svCommitmentMatches = (sha256Hex s = com),
               svOrderMatches = True\<rparr>)"
  using assms
  by (simp add: verifyShuffle_def Let_def commitmentFor_def list_all_iff zip_same_conv_map split_beta)

text \<open>A shuffle comes back with an order whenever the counter is a whole number from 1 to
  \<open>2 ^ 32\<close>, both seeds are there, and the byte stream never rejects for ever (for no bound up to the
  count are all draws from some point on outside the accepted range).\<close>

theorem deriveShuffle_returns:
  assumes "serverSeed \<noteq> []" "clientSeed \<noteq> []" "1 \<le> n" "n \<le> 2 ^ 32"
    and "\<forall>b p. 2 \<le> b \<and> b \<le> nat n \<longrightarrow>
      (\<exists>k. draw (byteStream serverSeed clientSeed breakId) (p + 4 * k) < draw_limit b)"
  shows "\<exists>order. deriveShuffle serverSeed clientSeed breakId (int_num n) = Inr (Some order)"
proof -
  have "nat n \<le> 2 ^ 32" using assms(4) by (simp add: nat_le_iff)
  then have "nat n - 1 < 2 ^ 32" by simp
  then have "\<exists>r. shuffle_loop (byteStream serverSeed clientSeed breakId) (nat n - 1) [0..<nat n] 0 = Some r"
    by (rule shuffle_loop_returns) (use assms(3,5) in auto)
  then show ?thesis using assms(1-3) by (auto simp: deriveShuffle_def Let_def)
qed

lemma draw_limit_2: "draw_limit 2 = 2 ^ 32"
  using draw_limit_eq [of 2] by simp

text \<open>With two slots every draw is accepted.\<close>

lemma deriveShuffle_returns_witness:
  "\<exists>order. deriveShuffle ''server'' ''client'' ''break'' (int_num 2) = Inr (Some order)"
proof (rule deriveShuffle_returns)
  show "\<forall>b p. 2 \<le> b \<and> b \<le> nat 2 \<longrightarrow>
    (\<exists>k. draw (byteStream ''server'' ''client'' ''break'') (p + 4 * k) < draw_limit b)"
  proof (intro allI impI)
    fix b p :: nat
    assume "2 \<le> b \<and> b \<le> nat 2"
    then have "b = 2" by simp
    then show "\<exists>k. draw (byteStream ''server'' ''client'' ''break'') (p + 4 * k) < draw_limit b"
      using bs.draw_bound draw_limit_2 by (intro exI [of _ 0]) simp
  qed
qed simp_all

text \<open>Some shuffle of two slots, for the instances below.\<close>

lemma demo_shuffle: "\<exists>order. deriveShuffle ''server'' ''client'' ''break'' (int_num 2) = Inr (Some order)"
proof -
  have "\<exists>r. shuffle_loop (byteStream ''server'' ''client'' ''break'') 1 [0..<2] 0 = Some r"
  proof (rule shuffle_loop_returns)
    fix b p :: nat
    assume "2 \<le> b" "b \<le> Suc 1"
    then have "b = 2" by simp
    then show "\<exists>k. draw (byteStream ''server'' ''client'' ''break'') (p + 4 * k) < draw_limit b"
      using bs.draw_bound draw_limit_2 by (intro exI [of _ 0]) simp
  qed simp
  then show ?thesis by (auto simp: deriveShuffle_def Let_def)
qed

lemma deriveShuffle_permutes_witness:
  "\<exists>order. deriveShuffle ''server'' ''client'' ''break'' (int_num 2) = Inr (Some order)
     \<and> length order = 2 \<and> distinct order"
proof -
  obtain order where o: "deriveShuffle ''server'' ''client'' ''break'' (int_num 2) = Inr (Some order)"
    using demo_shuffle by blast
  from deriveShuffle_permutes [OF o] show ?thesis using o by auto
qed




end
