(* ===== verification/PullChain.thy ===== *)
theory PullChain
  imports Fairness
begin

text \<open>
  What the hash chain over a pull log proves: the canonical text of a pull is unambiguous, a log
  verifies exactly when every row is linked to the one before it, and a head hash fixes the whole
  log behind it up to an exhibited collision of the digest.
\<close>

section \<open>The canonical text is unambiguous\<close>

definition hex_val :: "char \<Rightarrow> nat" where
  "hex_val c = (if (of_char c :: nat) < 58 then of_char c - 48 else of_char c - 87)"

lemma hex_val_digit: "d < 16 \<Longrightarrow> hex_val (hex_digit d) = d"
  by (auto simp: hex_val_def hex_digit_def of_char_of take_bit_eq_mod)

text \<open>The character an escape stands for, by its second character.\<close>

definition unescape :: "string \<Rightarrow> (char \<times> string) option" where
  "unescape s =
     (case s of
        [] \<Rightarrow> None
      | c # t \<Rightarrow>
        if c = CHR 0x22 then None
        else if c \<noteq> CHR 0x5C then Some (c, t)
        else case t of
          [] \<Rightarrow> None
        | e # u \<Rightarrow>
          if e = CHR 0x22 then Some (CHR 0x22, u)
          else if e = CHR 0x5C then Some (CHR 0x5C, u)
          else if e = CHR ''b'' then Some (CHR 0x08, u)
          else if e = CHR ''f'' then Some (CHR 0x0C, u)
          else if e = CHR ''n'' then Some (CHR 0x0A, u)
          else if e = CHR ''r'' then Some (CHR 0x0D, u)
          else if e = CHR ''t'' then Some (CHR 0x09, u)
          else Some (char_of (16 * hex_val (u ! 2) + hex_val (u ! 3)), drop 4 u))"

lemma unescape_escape: "unescape (json_escape c @ t) = Some (c, t)"
proof -
  consider "c \<in> {CHR 0x22, CHR 0x5C, CHR 0x08, CHR 0x0C, CHR 0x0A, CHR 0x0D, CHR 0x09}"
    | "c \<notin> {CHR 0x22, CHR 0x5C, CHR 0x08, CHR 0x0C, CHR 0x0A, CHR 0x0D, CHR 0x09}"
      "(of_char c :: nat) < 32"
    | "c \<notin> {CHR 0x22, CHR 0x5C, CHR 0x08, CHR 0x0C, CHR 0x0A, CHR 0x0D, CHR 0x09}"
      "\<not> (of_char c :: nat) < 32" by blast
  then show ?thesis
  proof cases
    case 1
    then show ?thesis by (elim insertE emptyE) (simp_all add: json_escape_def unescape_def)
  next
    case 2
    then have "json_escape c = [CHR 0x5C, CHR ''u'', CHR ''0'', CHR ''0''] @ hex_byte (of_char c)"
      by (simp add: json_escape_def)
    moreover have "16 * hex_val (hex_digit (of_char c div 16)) + hex_val (hex_digit (of_char c mod 16))
        = (of_char c :: nat)"
      using 2(2) by (simp add: hex_val_digit less_mult_imp_div_less)
    ultimately show ?thesis by (simp add: unescape_def hex_byte_def)
  next
    case 3
    then show ?thesis by (simp add: json_escape_def unescape_def)
  qed
qed

lemma json_escape_inj: "json_escape c @ s = json_escape d @ t \<Longrightarrow> c = d \<and> s = t"
  by (metis Pair_inject option.inject unescape_escape)

lemma json_escape_not_quote: "json_escape c @ s \<noteq> CHR 0x22 # t"
proof
  assume "json_escape c @ s = CHR 0x22 # t"
  then show False using unescape_escape [of c s] by (simp add: unescape_def)
qed

lemma json_body_inj:
  "concat (map json_escape s) @ CHR 0x22 # a = concat (map json_escape t) @ CHR 0x22 # b
     \<Longrightarrow> s = t \<and> a = b"
proof (induction s arbitrary: t)
  case Nil
  show ?case
  proof (cases t)
    case Nil
    with \<open>concat (map json_escape []) @ _ = _\<close> show ?thesis by simp
  next
    case (Cons d t')
    with \<open>concat (map json_escape []) @ _ = _\<close>
    have "json_escape d @ (concat (map json_escape t') @ CHR 0x22 # b) = CHR 0x22 # a" by simp
    then show ?thesis using json_escape_not_quote by blast
  qed
next
  case (Cons c s)
  show ?case
  proof (cases t)
    case Nil
    with Cons.prems show ?thesis using json_escape_not_quote by simp
  next
    case (Cons d t')
    with Cons.prems have "json_escape c @ (concat (map json_escape s) @ CHR 0x22 # a) =
        json_escape d @ (concat (map json_escape t') @ CHR 0x22 # b)" by simp
    then have "c = d" "concat (map json_escape s) @ CHR 0x22 # a = concat (map json_escape t') @ CHR 0x22 # b"
      by (auto dest: json_escape_inj)
    then show ?thesis using Cons.IH [of t'] Cons by simp
  qed
qed

lemma json_string_inj: "json_string s @ a = json_string t @ b \<Longrightarrow> s = t \<and> a = b"
  by (rule json_body_inj [of s a t b]) (simp add: json_string_def)

lemma json_nullable_inj: "json_nullable v @ a = json_nullable w @ b \<Longrightarrow> v = w \<and> a = b"
  by (cases v; cases w) (auto simp: json_nullable_def dest: json_string_inj, simp_all add: json_string_def)

lemma until_comma:
  "CHR '','' \<notin> set s \<Longrightarrow> CHR '','' \<notin> set t \<Longrightarrow> s @ CHR '','' # a = t @ CHR '','' # b \<Longrightarrow> s = t \<and> a = b"
  by (induction s arbitrary: t) (case_tac t; auto)+

lemma no_comma_int: "CHR '','' \<notin> set (string_of_int i)"
  using string_of_int_chars [of "CHR '',''" i] by (auto simp: is_digit_def)

lemma int_then_comma:
  "string_of_int i @ CHR '','' # a = string_of_int j @ CHR '','' # b \<Longrightarrow> i = j \<and> a = b"
  using until_comma [OF no_comma_int no_comma_int] string_of_int_inj by blast

text \<open>The canonical text as a run of separated fields.\<close>

lemma canonicalise_fields:
  "canonicalise row =
     CHR ''{'' # json_string ''cardVariantId'' @ CHR '':'' # json_nullable (cpCardVariantId row)
       @ CHR '','' # json_string ''label'' @ CHR '':'' # json_nullable (cpLabel row)
       @ CHR '','' # json_string ''pulledAt'' @ CHR '':'' # json_string (cpPulledAt row)
       @ CHR '','' # json_string ''seq'' @ CHR '':'' # string_of_int (cpSeq row)
       @ CHR '','' # json_string ''valueCentsAtPull'' @ CHR '':'' # string_of_int (cpValueCents row)
       @ CHR '','' # json_string ''valueSource'' @ CHR '':'' # json_string (cpValueSource row) @ ''}''"
  by (simp only: canonicalise_def append.simps append_assoc)

lemma canonicalise_inj: "canonicalise r = canonicalise q \<Longrightarrow> r = (q :: ChainedPull)"
proof -
  assume "canonicalise r = canonicalise q"
  note e1 = this [unfolded canonicalise_fields list.inject same_append_eq simp_thms]
  note f1 = json_nullable_inj [OF e1]
  note e2 = conjunct2 [OF f1, unfolded list.inject same_append_eq simp_thms]
  note f2 = json_nullable_inj [OF e2]
  note e3 = conjunct2 [OF f2, unfolded list.inject same_append_eq simp_thms]
  note f3 = json_string_inj [OF e3]
  note e4 = conjunct2 [OF f3, unfolded list.inject same_append_eq simp_thms]
  note f4 = int_then_comma [OF e4]
  note e5 = conjunct2 [OF f4, unfolded list.inject same_append_eq simp_thms]
  note f5 = int_then_comma [OF e5]
  note e6 = conjunct2 [OF f5, unfolded list.inject same_append_eq simp_thms]
  note f6 = json_string_inj [OF e6]
  from conjunct1 [OF f1] conjunct1 [OF f2] conjunct1 [OF f3] conjunct1 [OF f4] conjunct1 [OF f5]
    conjunct1 [OF f6]
  show ?thesis by simp
qed

section \<open>Linked logs\<close>

text \<open>The log an honest recorder writes, and the hash its next row is linked to.\<close>

fun link_all :: "string \<Rightarrow> ChainedPull list \<Rightarrow> linked list" where
  "link_all prev [] = []"
| "link_all prev (r # rs) = (r, prev, hashPull prev r) # link_all (hashPull prev r) rs"

definition tip :: "string \<Rightarrow> linked list \<Rightarrow> string" where
  "tip prev rows = (if rows = [] then prev else snd (snd (last rows)))"

lemma tip_Nil [simp]: "tip prev [] = prev"
  by (simp add: tip_def)

lemma tip_Cons [simp]: "tip prev ((r, p, h) # rows) = tip h rows"
  by (simp add: tip_def)

lemma tip_snoc [simp]: "tip prev (rows @ [(r, p, h)]) = h"
  by (simp add: tip_def)

lemma verify_from_link_all: "verify_from prev rows = None \<longleftrightarrow> rows = link_all prev (map fst rows)"
  by (induction prev rows rule: verify_from.induct) auto

lemma map_fst_link_all [simp]: "map fst (link_all prev rs) = rs"
  by (induction rs arbitrary: prev) auto

lemma verify_from_append:
  "verify_from prev (xs @ ys) =
     (case verify_from prev xs of None \<Rightarrow> verify_from (tip prev xs) ys | Some n \<Rightarrow> Some n)"
  by (induction prev xs rule: verify_from.induct) (auto split: option.splits)

lemma verify_from_snoc:
  "verify_from prev (xs @ [(r, p, h)]) = None
     \<longleftrightarrow> verify_from prev xs = None \<and> p = tip prev xs \<and> h = hashPull p r"
  by (auto simp: verify_from_append split: option.splits)

lemma verify_from_Some:
  "verify_from prev rows = Some n \<Longrightarrow>
     \<exists>good r p h rest. rows = good @ (r, p, h) # rest \<and> verify_from prev good = None
        \<and> n = cpSeq r \<and> (p \<noteq> tip prev good \<or> h \<noteq> hashPull p r)"
proof (induction prev rows rule: verify_from.induct)
  case (2 prev r p h rows)
  show ?case
  proof (cases "p = prev \<and> hashPull p r = h")
    case True
    with 2 obtain good r' p' h' rest where "rows = good @ (r', p', h') # rest"
      "verify_from h good = None" "n = cpSeq r'" "p' \<noteq> tip h good \<or> h' \<noteq> hashPull p' r'" by auto
    with True show ?thesis by (intro exI [of _ "(r, p, h) # good"]) auto
  next
    case False
    with 2 show ?thesis by (intro exI [of _ "[]"]) (auto split: if_splits)
  qed
qed simp

definition preimages :: "linked list \<Rightarrow> string set" where
  "preimages rows = (\<lambda>(r, p, h). p @ canonicalise r) ` set rows"

text \<open>Two different texts among those of two logs with the same digest, or a row hashed to the
  genesis value.\<close>

definition collides :: "linked list \<Rightarrow> linked list \<Rightarrow> bool" where
  "collides xs ys \<longleftrightarrow>
     (\<exists>a \<in> preimages xs \<union> preimages ys. \<exists>b \<in> preimages xs \<union> preimages ys.
        a \<noteq> b \<and> sha256Hex a = sha256Hex b)
     \<or> (\<exists>a \<in> preimages xs \<union> preimages ys. sha256Hex a = GENESIS_HASH)"

lemma collides_mono:
  "collides xs ys \<Longrightarrow> set xs \<subseteq> set xs' \<Longrightarrow> set ys \<subseteq> set ys' \<Longrightarrow> collides xs' ys'"
  unfolding collides_def preimages_def by blast

lemma tip_hash:
  assumes "verify_from GENESIS_HASH xs = None" "xs \<noteq> []"
  shows "\<exists>a \<in> preimages xs. tip GENESIS_HASH xs = sha256Hex a"
proof -
  obtain zs r p h where "xs = zs @ [(r, p, h)]" using assms(2) by (metis prod_cases3 rev_exhaust)
  with assms(1) show ?thesis
    by (auto simp: verify_from_snoc hashPull_def preimages_def)
qed

lemma tip_length:
  assumes "verify_from GENESIS_HASH xs = None"
  shows "length (tip GENESIS_HASH xs) = 64"
proof (cases "xs = []")
  case True
  then show ?thesis by (simp add: GENESIS_HASH_def)
next
  case False
  with tip_hash [OF assms] show ?thesis by (auto simp: sha.hash_length)
qed

lemma head_binds:
  assumes "verify_from GENESIS_HASH xs = None" "verify_from GENESIS_HASH ys = None"
    "tip GENESIS_HASH xs = tip GENESIS_HASH ys"
  shows "xs = ys \<or> collides xs ys"
  using assms
proof (induction xs arbitrary: ys rule: rev_induct)
  case Nil
  show ?case
  proof (cases "ys = []")
    case False
    then show ?thesis using tip_hash [OF Nil(2)] Nil(3) unfolding collides_def by (metis UnI2 tip_Nil)
  qed simp
next
  case (snoc x xs)
  obtain r p h where x: "x = (r, p, h)" by (cases x)
  show ?case
  proof (cases "ys = []")
    case True
    then show ?thesis using tip_hash [OF snoc.prems(1)] snoc.prems(3)
      unfolding collides_def by (metis UnI1 append_is_Nil_conv not_Cons_self2 tip_Nil)
  next
    case False
    then obtain zs q p' h' where ys: "ys = zs @ [(q, p', h')]" by (metis prod_cases3 rev_exhaust)
    have v: "verify_from GENESIS_HASH xs = None" "p = tip GENESIS_HASH xs" "h = hashPull p r"
      and w: "verify_from GENESIS_HASH zs = None" "p' = tip GENESIS_HASH zs" "h' = hashPull p' q"
      using snoc.prems x ys by (auto simp: verify_from_snoc)
    have hash: "sha256Hex (p @ canonicalise r) = sha256Hex (p' @ canonicalise q)"
      using snoc.prems(3) x ys v(3) w(3) by (simp add: hashPull_def)
    show ?thesis
    proof (cases "p @ canonicalise r = p' @ canonicalise q")
      case True
      have "length p = length p'" using tip_length [OF v(1)] tip_length [OF w(1)] v(2) w(2) by simp
      then have pq: "p = p'" "r = q" using True canonicalise_inj by auto
      then have "xs = zs \<or> collides xs zs" using snoc.IH [OF v(1) w(1)] v(2) w(2) by simp
      then show ?thesis
      proof
        assume "collides xs zs"
        then have "collides (xs @ [x]) ys" by (rule collides_mono) (auto simp: ys)
        then show ?thesis ..
      qed (use pq x ys v(3) w(3) in simp)
    next
      case False
      have "p @ canonicalise r \<in> preimages (xs @ [x])" "p' @ canonicalise q \<in> preimages ys"
        using x ys by (auto simp: preimages_def)
      with False hash show ?thesis unfolding collides_def by blast
    qed
  qed
qed

section \<open>What the chain proves\<close>

text \<open>The chain check accepts a log exactly when it is the log an honest recorder would have
  written for those pulls, and otherwise names the sequence number of the first row that is not
  linked to the rows before it.\<close>

theorem verifyChain_exact:
  "(verifyChain rows = (True, None) \<longleftrightarrow> rows = link_all GENESIS_HASH (map fst rows))
   \<and> (verifyChain rows = (True, None)
      \<or> (\<exists>good r p h rest. rows = good @ (r, p, h) # rest
           \<and> verifyChain good = (True, None)
           \<and> \<not> (p = tip GENESIS_HASH good \<and> h = hashPull p r)
           \<and> verifyChain rows = (False, Some (cpSeq r))))"
proof (cases "verify_from GENESIS_HASH rows")
  case None
  moreover from this have "rows = link_all GENESIS_HASH (map fst rows)"
    by (simp only: verify_from_link_all)
  ultimately show ?thesis by (simp add: verifyChain_def)
next
  case (Some n)
  then have "rows \<noteq> link_all GENESIS_HASH (map fst rows)"
    using verify_from_link_all [of GENESIS_HASH rows] by auto
  moreover from verify_from_Some [OF Some] Some
  have "\<exists>good r p h rest. rows = good @ (r, p, h) # rest \<and> verifyChain good = (True, None)
      \<and> \<not> (p = tip GENESIS_HASH good \<and> h = hashPull p r) \<and> verifyChain rows = (False, Some (cpSeq r))"
    by (fastforce simp: verifyChain_def)
  ultimately show ?thesis using Some by (simp add: verifyChain_def)
qed

text \<open>A published head hash fixes the whole pull log: two logs that both verify and end in the
  same hash are the same log, row by row, unless two different texts hashed in them share a
  SHA-256 digest (or one hashes to the genesis value).\<close>

theorem chain_head_binds:
  assumes "verifyChain xs = (True, None)" "verifyChain ys = (True, None)"
    "tip GENESIS_HASH xs = tip GENESIS_HASH ys"
  shows "xs = ys \<or> collides xs ys"
  using assms by (intro head_binds) (auto simp: verifyChain_def split: option.splits)

definition demo_pull :: ChainedPull where
  "demo_pull = \<lparr>cpSeq = 1, cpCardVariantId = Some ''v'', cpLabel = None, cpValueCents = 250,
                 cpValueSource = ''manual'', cpPulledAt = ''2026-01-01T00:00:00.000Z''\<rparr>"

lemma chain_head_binds_witness:
  "let log = link_all GENESIS_HASH [demo_pull, demo_pull\<lparr>cpSeq := 2\<rparr>]
   in verifyChain log = (True, None) \<and> (log = log \<or> collides log log)"
proof -
  let ?log = "link_all GENESIS_HASH [demo_pull, demo_pull\<lparr>cpSeq := 2\<rparr>]"
  have "verifyChain ?log = (True, None)" by (simp add: verifyChain_def)
  with chain_head_binds [of ?log ?log] show ?thesis by simp
qed

end
