(* ===== verification/BreakDb.thy ===== *)
theory BreakDb
  imports MarketDb PullChain
begin

text \<open>
  The tables of a break (\<open>packages/db/src/schema/breaks.ts\<close>, migrations 0010, 0011, 0018, 0019,
  0020, 0025, 0026): breaks, their pull logs, the VOD evidence beside a log and the commitments,
  with their CHECKs, unique indexes, foreign keys and row policies. The application roles have
  neither UPDATE nor DELETE on pulls and no DELETE on commitments (migrations 0011 and 0020), so
  there is no statement for those. The error kinds are the marketplace's.
\<close>

section \<open>Rows\<close>

datatype BreakStatus = BreakDraft | Live | Ended

datatype PullValueSource = Manual | FromIndex

record Break =
  bId :: string
  bCreatorId :: string
  bTitle :: string
  bSealedProductId :: "string option"
  bCostCents :: "int option"
  bPacksOpened :: "int option"
  bVodUrl :: "string option"
  bStatus :: BreakStatus
  bOverlayTokenHash :: string
  bOverlayTokenVersion :: int
  bStartedAt :: "int option"
  bEndedAt :: "int option"
  bCreatedAt :: int
  bUpdatedAt :: int

record BreakPull =
  plId :: string
  plBreakId :: string
  plCardVariantId :: "string option"
  plLabel :: "string option"
  plValueCents :: int
  plValueSource :: PullValueSource
  plPrevHash :: "string option"
  plRowHash :: "string option"
  plSeq :: int
  plPulledAt :: int

record PullEvidence =
  peId :: string
  pePullId :: string
  peOffsetSeconds :: int
  peVodUrl :: "string option"
  peUpdatedAt :: int

record Commitment =
  cmId :: string
  cmBreakId :: string
  cmCommitment :: string
  cmSeedEncrypted :: string
  cmClientSeed :: "string option"
  cmRevealedSeed :: "string option"
  cmSlotCount :: int
  cmAlgorithm :: string
  cmCommittedAt :: int
  cmRevealedAt :: "int option"

text \<open>The rows of other tables that a break's statements look up: a variant with its card's name, a
  published price.\<close>

record CatalogVariant =
  cvId :: string
  cvCardName :: string
  cvFinish :: string

record IndexRow =
  ixVariantId :: string
  ixCondition :: CardCondition
  ixCurrency :: string
  ixDay :: int
  ixMedianCents :: int

record break_db =
  accounts :: "string list"
  products :: "(string \<times> string) list"
  variants :: "CatalogVariant list"
  indexDaily :: "IndexRow list"
  breakRows :: "Break list"
  pullRows :: "BreakPull list"
  evidenceRows :: "PullEvidence list"
  commitmentRows :: "Commitment list"

text \<open>A transaction runs as a signed-in person, with an overlay's token hash, or with neither.\<close>

datatype viewer = Person string | Overlay string | Anyone

section \<open>Breaks\<close>

definition break_visible :: "viewer \<Rightarrow> Break \<Rightarrow> bool" where
  "break_visible v b \<longleftrightarrow>
     bStatus b \<noteq> BreakDraft
     \<or> (case v of Person u \<Rightarrow> bCreatorId b = u | Overlay h \<Rightarrow> bOverlayTokenHash b = h | Anyone \<Rightarrow> False)"

definition break_owned :: "string \<Rightarrow> Break \<Rightarrow> bool" where
  "break_owned u b \<longleftrightarrow> bCreatorId b = u"

text \<open>\<open>length(btrim(s)) > 0\<close>.\<close>

definition not_blank :: "string \<Rightarrow> bool" where
  "not_blank s \<longleftrightarrow> list_ex (\<lambda>c. c \<noteq> CHR '' '') s"

definition https_url :: "string option \<Rightarrow> bool" where
  "https_url u = (case u of None \<Rightarrow> True | Some t \<Rightarrow> starts_with ''https://'' t)"

definition break_checks :: "Break \<Rightarrow> (string \<times> bool) list" where
  "break_checks b =
     [(''breaks_cost_non_negative'', case bCostCents b of None \<Rightarrow> True | Some c \<Rightarrow> c \<ge> 0),
      (''breaks_packs_opened_range'',
         case bPacksOpened b of None \<Rightarrow> True | Some n \<Rightarrow> 1 \<le> n \<and> n \<le> 5000),
      (''breaks_timestamps_follow_status'',
         case bStatus b of
           BreakDraft \<Rightarrow> bStartedAt b = None \<and> bEndedAt b = None
         | Live \<Rightarrow> bStartedAt b \<noteq> None \<and> bEndedAt b = None
         | Ended \<Rightarrow> bStartedAt b \<noteq> None \<and> bEndedAt b \<noteq> None
             \<and> the (bEndedAt b) \<ge> the (bStartedAt b)),
      (''breaks_title_length'', length (bTitle b) \<le> 120),
      (''breaks_title_not_blank'', not_blank (bTitle b)),
      (''breaks_vod_url_https'', https_url (bVodUrl b))]"

definition break_unique_violation :: "Break \<Rightarrow> Break list \<Rightarrow> string option" where
  "break_unique_violation b others =
     first_violated
       [(''breaks_pkey'', bId b \<notin> bId ` set others),
        (''breaks_overlay_token_key'', bOverlayTokenHash b \<notin> bOverlayTokenHash ` set others)]"

definition break_int4 :: "Break \<Rightarrow> bool" where
  "break_int4 b \<longleftrightarrow>
     (case bCostCents b of None \<Rightarrow> True | Some c \<Rightarrow> int4 c)
     \<and> (case bPacksOpened b of None \<Rightarrow> True | Some n \<Rightarrow> int4 n)
     \<and> int4 (bOverlayTokenVersion b)"

definition insert_break :: "string \<Rightarrow> Break \<Rightarrow> break_db \<Rightarrow> db_error + break_db" where
  "insert_break u b db =
     (if \<not> break_int4 b then Inl OutOfRange
      else if \<not> break_owned u b then Inl RowSecurity
      else case first_violated (break_checks b) of
        Some c \<Rightarrow> Inl (CheckViolation c)
      | None \<Rightarrow>
        case break_unique_violation b (breakRows db) of
          Some c \<Rightarrow> Inl (UniqueViolation c)
        | None \<Rightarrow>
          if bCreatorId b \<notin> set (accounts db) then
            Inl (ForeignKeyViolation ''breaks_creator_id_users_id_fk'')
          else if bSealedProductId b \<noteq> None \<and> the (bSealedProductId b) \<notin> fst ` set (products db) then
            Inl (ForeignKeyViolation ''breaks_sealed_product_id_sealed_products_id_fk'')
          else Inr (db\<lparr>breakRows := breakRows db @ [b]\<rparr>))"

text \<open>\<open>update breaks set ... where id = k and creator_id = u returning *\<close>, as \<open>u\<close>.\<close>

definition update_break ::
  "string \<Rightarrow> string \<Rightarrow> (Break \<Rightarrow> Break) \<Rightarrow> break_db \<Rightarrow> db_error + Break option \<times> break_db" where
  "update_break u k f db =
     (case find_row bId k (breakRows db) of
        None \<Rightarrow> Inr (None, db)
      | Some b \<Rightarrow>
        if \<not> break_owned u b then Inr (None, db)
        else if \<not> break_int4 (f b) then Inl OutOfRange
        else if \<not> break_owned u (f b) then Inl RowSecurity
        else case first_violated (break_checks (f b)) of
          Some c \<Rightarrow> Inl (CheckViolation c)
        | None \<Rightarrow>
          case break_unique_violation (f b) (filter (\<lambda>x. bId x \<noteq> k) (breakRows db)) of
            Some c \<Rightarrow> Inl (UniqueViolation c)
          | None \<Rightarrow> Inr (Some (f b), db\<lparr>breakRows := update_row bId k f (breakRows db)\<rparr>))"

text \<open>\<open>select ... where id = k and creator_id = u limit 1\<close>, as \<open>u\<close>.\<close>

definition select_own_break :: "string \<Rightarrow> string \<Rightarrow> break_db \<Rightarrow> Break option" where
  "select_own_break u k db =
     (case find_row bId k (breakRows db) of
        None \<Rightarrow> None
      | Some b \<Rightarrow> if break_owned u b then Some b else None)"

section \<open>Pulls\<close>

definition pull_visible :: "viewer \<Rightarrow> break_db \<Rightarrow> BreakPull \<Rightarrow> bool" where
  "pull_visible v db p \<longleftrightarrow> list_ex (\<lambda>b. bId b = plBreakId p \<and> break_visible v b) (breakRows db)"

definition pull_insert_allowed :: "string \<Rightarrow> break_db \<Rightarrow> BreakPull \<Rightarrow> bool" where
  "pull_insert_allowed u db p \<longleftrightarrow>
     list_ex (\<lambda>b. bId b = plBreakId p \<and> bCreatorId b = u \<and> bStatus b = Live) (breakRows db)"

definition pull_checks :: "BreakPull \<Rightarrow> (string \<times> bool) list" where
  "pull_checks p =
     [(''break_pulls_chain_complete'', (plPrevHash p = None) = (plRowHash p = None)),
      (''break_pulls_identified'',
         plCardVariantId p \<noteq> None
           \<or> not_blank (case plLabel p of None \<Rightarrow> [] | Some l \<Rightarrow> l)),
      (''break_pulls_seq_positive'', plSeq p \<ge> 1),
      (''break_pulls_value_non_negative'', plValueCents p \<ge> 0)]"

definition pull_unique_violation :: "BreakPull \<Rightarrow> BreakPull list \<Rightarrow> string option" where
  "pull_unique_violation p others =
     first_violated
       [(''break_pulls_pkey'', plId p \<notin> plId ` set others),
        (''break_pulls_break_seq_key'',
           (plBreakId p, plSeq p) \<notin> (\<lambda>x. (plBreakId x, plSeq x)) ` set others)]"

definition insert_pull :: "string \<Rightarrow> BreakPull \<Rightarrow> break_db \<Rightarrow> db_error + break_db" where
  "insert_pull u p db =
     (if \<not> int4 (plValueCents p) \<or> \<not> int4 (plSeq p) then Inl OutOfRange
      else if \<not> pull_insert_allowed u db p then Inl RowSecurity
      else case first_violated (pull_checks p) of
        Some c \<Rightarrow> Inl (CheckViolation c)
      | None \<Rightarrow>
        case pull_unique_violation p (pullRows db) of
          Some c \<Rightarrow> Inl (UniqueViolation c)
        | None \<Rightarrow>
          if plCardVariantId p \<noteq> None \<and> the (plCardVariantId p) \<notin> cvId ` set (variants db) then
            Inl (ForeignKeyViolation ''break_pulls_card_variant_id_card_variants_id_fk'')
          else Inr (db\<lparr>pullRows := pullRows db @ [p]\<rparr>))"

text \<open>\<open>select ... where break_id = k order by seq\<close>.\<close>

definition select_pulls :: "viewer \<Rightarrow> string \<Rightarrow> break_db \<Rightarrow> BreakPull list" where
  "select_pulls v k db =
     sort_key plSeq (filter (\<lambda>p. plBreakId p = k \<and> pull_visible v db p) (pullRows db))"

text \<open>Deleting a card variant: the foreign key of a pull is \<open>on delete set null\<close>.\<close>

definition delete_card_variant :: "string \<Rightarrow> break_db \<Rightarrow> break_db" where
  "delete_card_variant k db =
     db\<lparr>variants := filter (\<lambda>v. cvId v \<noteq> k) (variants db),
        pullRows := map (\<lambda>p. if plCardVariantId p = Some k then p\<lparr>plCardVariantId := None\<rparr> else p)
          (pullRows db)\<rparr>"

section \<open>Evidence\<close>

text \<open>The pull belongs to a break of \<open>u\<close>.\<close>

definition evidence_owned :: "string \<Rightarrow> break_db \<Rightarrow> string \<Rightarrow> bool" where
  "evidence_owned u db pullId \<longleftrightarrow>
     list_ex (\<lambda>p. plId p = pullId
       \<and> list_ex (\<lambda>b. bId b = plBreakId p \<and> bCreatorId b = u) (breakRows db)) (pullRows db)"

definition evidence_checks :: "PullEvidence \<Rightarrow> (string \<times> bool) list" where
  "evidence_checks e =
     [(''pull_evidence_offset_range'', 0 \<le> peOffsetSeconds e \<and> peOffsetSeconds e \<le> 86400),
      (''pull_evidence_vod_url_https'', https_url (peVodUrl e))]"

text \<open>\<open>insert ... on conflict (break_pull_id) do update set offset, url, updated_at returning\<close>.\<close>

definition upsert_evidence :: "string \<Rightarrow> PullEvidence \<Rightarrow> break_db \<Rightarrow> db_error + break_db" where
  "upsert_evidence u e db =
     (if \<not> int4 (peOffsetSeconds e) then Inl OutOfRange
      else if \<not> evidence_owned u db (pePullId e) then Inl RowSecurity
      else case first_violated (evidence_checks e) of
        Some c \<Rightarrow> Inl (CheckViolation c)
      | None \<Rightarrow>
        if pePullId e \<in> pePullId ` set (evidenceRows db) then
          Inr (db\<lparr>evidenceRows := update_row pePullId (pePullId e)
                 (\<lambda>x. x\<lparr>peOffsetSeconds := peOffsetSeconds e, peVodUrl := peVodUrl e,
                        peUpdatedAt := peUpdatedAt e\<rparr>) (evidenceRows db)\<rparr>)
        else if peId e \<in> peId ` set (evidenceRows db) then Inl (UniqueViolation ''pull_evidence_pkey'')
        else Inr (db\<lparr>evidenceRows := evidenceRows db @ [e]\<rparr>))"

section \<open>Commitments\<close>

definition commitment_visible :: "viewer \<Rightarrow> break_db \<Rightarrow> Commitment \<Rightarrow> bool" where
  "commitment_visible v db c \<longleftrightarrow>
     list_ex (\<lambda>b. bId b = cmBreakId c \<and> break_visible v b) (breakRows db)"

definition commitment_owned :: "string \<Rightarrow> break_db \<Rightarrow> Commitment \<Rightarrow> bool" where
  "commitment_owned u db c \<longleftrightarrow>
     list_ex (\<lambda>b. bId b = cmBreakId c \<and> bCreatorId b = u) (breakRows db)"

definition hex64 :: "string \<Rightarrow> bool" where
  "hex64 s \<longleftrightarrow> length s = 64
     \<and> list_all (\<lambda>c. in_range (CHR ''0'') (CHR ''9'') c \<or> in_range (CHR ''a'') (CHR ''f'') c) s"

definition commitment_checks :: "Commitment \<Rightarrow> (string \<times> bool) list" where
  "commitment_checks c =
     [(''break_commitments_client_seed_first'', cmRevealedSeed c = None \<or> cmClientSeed c \<noteq> None),
      (''break_commitments_commitment_hex'', hex64 (cmCommitment c)),
      (''break_commitments_reveal_complete'', (cmRevealedSeed c = None) = (cmRevealedAt c = None)),
      (''break_commitments_slot_count'', 2 \<le> cmSlotCount c \<and> cmSlotCount c \<le> 1000)]"

text \<open>\<open>insert ... on conflict (break_id) do nothing returning\<close>: \<open>None\<close> when the break has one.\<close>

definition insert_commitment ::
  "string \<Rightarrow> Commitment \<Rightarrow> break_db \<Rightarrow> db_error + Commitment option \<times> break_db" where
  "insert_commitment u c db =
     (if \<not> int4 (cmSlotCount c) then Inl OutOfRange
      else if \<not> commitment_owned u db c then Inl RowSecurity
      else case first_violated (commitment_checks c) of
        Some n \<Rightarrow> Inl (CheckViolation n)
      | None \<Rightarrow>
        if cmBreakId c \<in> cmBreakId ` set (commitmentRows db) then Inr (None, db)
        else if cmId c \<in> cmId ` set (commitmentRows db) then
          Inl (UniqueViolation ''break_commitments_pkey'')
        else Inr (Some c, db\<lparr>commitmentRows := commitmentRows db @ [c]\<rparr>))"

text \<open>
  \<open>update break_commitments set ... where break_id = k and (still open) returning\<close>, as \<open>u\<close>. The
  statement names only the three columns migration 0020 grants.
\<close>

definition update_commitment ::
  "string \<Rightarrow> string \<Rightarrow> (Commitment \<Rightarrow> bool) \<Rightarrow> (Commitment \<Rightarrow> Commitment) \<Rightarrow> break_db
     \<Rightarrow> db_error + Commitment option \<times> break_db" where
  "update_commitment u k still_open f db =
     (case find_row cmBreakId k (commitmentRows db) of
        None \<Rightarrow> Inr (None, db)
      | Some c \<Rightarrow>
        if \<not> commitment_owned u db c \<or> \<not> still_open c then Inr (None, db)
        else case first_violated (commitment_checks (f c)) of
          Some n \<Rightarrow> Inl (CheckViolation n)
        | None \<Rightarrow> Inr (Some (f c), db\<lparr>commitmentRows := update_row cmBreakId k f (commitmentRows db)\<rparr>))"

definition select_commitment :: "viewer \<Rightarrow> string \<Rightarrow> break_db \<Rightarrow> Commitment option" where
  "select_commitment v k db =
     (case find_row cmBreakId k (commitmentRows db) of
        None \<Rightarrow> None
      | Some c \<Rightarrow> if commitment_visible v db c then Some c else None)"

end
