(* ===== verification/Json.thy ===== *)
theory Json
  imports JsNumber
begin

text \<open>
  JSON values as the source reads them (an event body, a key ring, a stored document): the text of
  a value is parsed by the platform, the components start from the value.
\<close>

datatype json =
    JUndefined | JNull | JBool bool | JNum jsnum | JStr string
  | JArr "json list" | JObj "(string \<times> json) list"

text \<open>\<open>obj.name\<close>, absent when the object has no such property.\<close>

definition field :: "(string \<times> json) list \<Rightarrow> string \<Rightarrow> json" where
  "field obj name = (case map_of obj name of None \<Rightarrow> JUndefined | Some v \<Rightarrow> v)"

text \<open>\<open>value?.name\<close> for a value that may be null or absent.\<close>

definition opt_field :: "json \<Rightarrow> string \<Rightarrow> json" where
  "opt_field v name = (case v of JObj obj \<Rightarrow> field obj name | _ \<Rightarrow> JUndefined)"

end
