(* ===== verification/Crypto.thy ===== *)
theory Crypto
  imports Sha256 Json
begin

text \<open>
  The security package's text formats: field encryption under a key ring
  (\<open>packages/security/src/crypto.ts\<close>), hashed bearer tokens (\<open>tokens.ts\<close>) and signed links
  (\<open>signed-link.ts\<close>). The platform's AES-256-GCM is the pair of parameters \<open>gcm_seal\<close> (key, nonce
  and text to ciphertext and tag) and \<open>gcm_open\<close> (key, nonce, ciphertext and tag to the text, or a
  refusal); HMAC-SHA-256 and base64url are written out. Random bytes are arguments.
\<close>

section \<open>Base64url\<close>

definition b64_char :: "nat \<Rightarrow> char" where
  "b64_char n =
     (if n < 26 then char_of (65 + n)
      else if n < 52 then char_of (71 + n)
      else if n < 62 then char_of (n - 4)
      else if n = 62 then CHR ''-'' else CHR ''_'')"

fun base64url :: "bytes \<Rightarrow> string" where
  "base64url [] = []"
| "base64url [a] = [b64_char (a div 4), b64_char (a mod 4 * 16)]"
| "base64url [a, b] = [b64_char (a div 4), b64_char (a mod 4 * 16 + b div 16), b64_char (b mod 16 * 4)]"
| "base64url (a # b # c # bs) =
     b64_char (a div 4) # b64_char (a mod 4 * 16 + b div 16) # b64_char (b mod 16 * 4 + c div 64)
       # b64_char (c mod 64) # base64url bs"

text \<open>The decoder takes both alphabets and passes over every other character.\<close>

definition b64_val :: "char \<Rightarrow> nat option" where
  "b64_val c =
     (let n = (of_char c :: nat)
      in if 65 \<le> n \<and> n \<le> 90 then Some (n - 65)
         else if 97 \<le> n \<and> n \<le> 122 then Some (n - 71)
         else if 48 \<le> n \<and> n \<le> 57 then Some (n + 4)
         else if n = 45 \<or> n = 43 then Some 62
         else if n = 95 \<or> n = 47 then Some 63
         else None)"

fun sextets :: "nat list \<Rightarrow> bytes" where
  "sextets (a # b # c # d # ss) =
     (a * 4 + b div 16) # (b mod 16 * 16 + c div 4) # (c mod 4 * 64 + d) # sextets ss"
| "sextets [a, b, c] = [a * 4 + b div 16, b mod 16 * 16 + c div 4]"
| "sextets [a, b] = [a * 4 + b div 16]"
| "sextets _ = []"

definition from_base64 :: "string \<Rightarrow> bytes" where
  "from_base64 s = sextets (List.map_filter b64_val s)"

lemma b64_val_char: "n < 64 \<Longrightarrow> b64_val (b64_char n) = Some n"
  by (auto simp: b64_val_def b64_char_def Let_def of_char_of take_bit_eq_mod)

lemma b64_char_not [simp]: "n < 64 \<Longrightarrow> b64_char n \<noteq> CHR '':''" "n < 64 \<Longrightarrow> b64_char n \<noteq> CHR ''.''"
  using b64_val_char [of n] by (auto simp: b64_val_def)

lemma map_filter_b64 [simp]:
  "n < 64 \<Longrightarrow> List.map_filter b64_val (b64_char n # s) = n # List.map_filter b64_val s"
  by (simp add: List.map_filter_simps b64_val_char)

lemma map_filter_Nil [simp]: "List.map_filter f [] = []"
  by (simp add: List.map_filter_simps)

lemma byte_parts:
  assumes "(a :: nat) < 256" "(b :: nat) < 256" "(c :: nat) < 256"
  shows "a div 4 < 64" "a mod 4 < 4" "b div 16 < 16" "b mod 16 < 16" "c div 64 < 4" "c mod 64 < 64"
  using assms by (simp_all add: div_less_iff_less_mult)

lemma byte_sextets:
  assumes "(a :: nat) < 256" "(b :: nat) < 256" "(c :: nat) < 256"
  shows "a div 4 < 64" "a mod 4 * 16 < 64" "a mod 4 * 16 + b div 16 < 64" "b mod 16 * 4 < 64"
    "b mod 16 * 4 + c div 64 < 64" "c mod 64 < 64"
  using byte_parts [OF assms] by linarith+

lemma sextet_split:
  "(y :: nat) < 16 \<Longrightarrow> (x * 16 + y) div 16 = x" "(y :: nat) < 16 \<Longrightarrow> (x * 16 + y) mod 16 = y"
  "(z :: nat) < 4 \<Longrightarrow> (x * 4 + z) div 4 = x" "(z :: nat) < 4 \<Longrightarrow> (x * 4 + z) mod 4 = z"
  by simp_all

lemma sextet_bytes:
  assumes "(a :: nat) < 256" "(b :: nat) < 256" "(c :: nat) < 256"
  shows "a div 4 * 4 + (a mod 4 * 16 + b div 16) div 16 = a"
    "(a mod 4 * 16 + b div 16) mod 16 * 16 + (b mod 16 * 4 + c div 64) div 4 = b"
    "(b mod 16 * 4 + c div 64) mod 4 * 64 + c mod 64 = c"
    "a div 4 * 4 + a mod 4 * 16 div 16 = a"
    "(a mod 4 * 16 + b div 16) mod 16 * 16 + b mod 16 * 4 div 4 = b"
  using byte_parts [OF assms] by (simp_all only: sextet_split div_mult_self_is_m zero_less_numeral
      nonzero_mult_div_cancel_right numeral_neq_zero div_mult_mod_eq simp_thms)

lemma from_base64_base64url: "\<forall>b \<in> set bs. b < 256 \<Longrightarrow> from_base64 (base64url bs) = bs"
  unfolding from_base64_def
proof (induction bs rule: base64url.induct)
  case 1
  then show ?case by (simp add: List.map_filter_simps)
next
  case (2 a)
  then show ?case using byte_sextets [of a 0 0] sextet_bytes [of a 0 0] by (simp add: b64_val_char)
next
  case (3 a b)
  then show ?case using byte_sextets [of a b 0] sextet_bytes [of a b 0] by (simp add: b64_val_char)
next
  case (4 a b c bs)
  then show ?case using byte_sextets [of a b c] sextet_bytes [of a b c] by (simp add: b64_val_char)
qed

lemma base64url_Nil [simp]: "base64url bs = [] \<longleftrightarrow> bs = []"
  by (cases bs rule: base64url.cases) auto

lemma base64url_chars:
  "\<forall>b \<in> set bs. b < 256 \<Longrightarrow> CHR '':'' \<notin> set (base64url bs) \<and> CHR ''.'' \<notin> set (base64url bs)"
proof (induction bs rule: base64url.induct)
  case (2 a)
  then show ?case using byte_sextets [of a 0 0] by (auto dest: sym)
next
  case (3 a b)
  then show ?case using byte_sextets [of a b 0] by (auto dest: sym)
next
  case (4 a b c bs)
  then show ?case using byte_sextets [of a b c] by (auto dest: sym)
qed simp

section \<open>Key rings\<close>

definition FORMAT :: string where "FORMAT = ''v1''"
definition IV_BYTES :: nat where "IV_BYTES = 12"
definition KEY_BYTES :: nat where "KEY_BYTES = 32"
definition TAG_BYTES :: nat where "TAG_BYTES = 16"

record KeyRing =
  ringKeys :: "(string \<times> bytes) list"
  ringActive :: string

datatype key_error =
    KeysNotJson | KeysNotObject | KeyNotString string | UnsafeKeyId string
  | WrongKeyLength string nat | NoKeys | ActiveKeyUnknown string

definition safe_kid :: "string \<Rightarrow> bool" where
  "safe_kid kid \<longleftrightarrow> 1 \<le> length kid \<and> length kid \<le> 64
     \<and> list_all (\<lambda>c. let n = (of_char c :: nat) in
          (65 \<le> n \<and> n \<le> 90) \<or> (97 \<le> n \<and> n \<le> 122) \<or> (48 \<le> n \<and> n \<le> 57) \<or> n = 95 \<or> n = 45) kid"

text \<open>\<open>map.set(k, v)\<close>: in place for a key the map has, at the end for a new one.\<close>

definition map_set :: "'k \<Rightarrow> 'v \<Rightarrow> ('k \<times> 'v) list \<Rightarrow> ('k \<times> 'v) list" where
  "map_set k v m =
     (if k \<in> fst ` set m then map (\<lambda>(k', v'). (k', if k' = k then v else v')) m else m @ [(k, v)])"

fun read_keys :: "(string \<times> json) list \<Rightarrow> (string \<times> bytes) list \<Rightarrow> key_error + (string \<times> bytes) list" where
  "read_keys [] keys = Inr keys"
| "read_keys ((kid, v) # entries) keys =
     (case v of
        JStr plain \<Rightarrow>
          if \<not> safe_kid kid then Inl (UnsafeKeyId kid)
          else if length (from_base64 plain) \<noteq> KEY_BYTES
            then Inl (WrongKeyLength kid (length (from_base64 plain)))
          else read_keys entries (map_set kid (from_base64 plain) keys)
      | _ \<Rightarrow> Inl (KeyNotString kid))"

text \<open>\<open>parsed\<close> is what \<open>JSON.parse(keysJson)\<close> returns, \<open>None\<close> when it throws.\<close>

definition buildKeyRing :: "json option \<Rightarrow> string \<Rightarrow> key_error + KeyRing" where
  "buildKeyRing parsed activeKid =
     (case parsed of
        None \<Rightarrow> Inl KeysNotJson
      | Some (JObj entries) \<Rightarrow>
          (case read_keys entries [] of
             Inl e \<Rightarrow> Inl e
           | Inr keys \<Rightarrow>
             if length keys = 0 then Inl NoKeys
             else if activeKid \<notin> fst ` set keys then Inl (ActiveKeyUnknown activeKid)
             else Inr \<lparr>ringKeys = keys, ringActive = activeKid\<rparr>)
      | Some _ \<Rightarrow> Inl KeysNotObject)"

section \<open>Fields\<close>

datatype field_error = ActiveKeyMissing | DecryptionError

definition encryptField ::
  "(bytes \<Rightarrow> bytes \<Rightarrow> string \<Rightarrow> bytes \<times> bytes) \<Rightarrow> KeyRing \<Rightarrow> bytes \<Rightarrow> string \<Rightarrow> field_error + string" where
  "encryptField gcm_seal ring iv plaintext =
     (case map_of (ringKeys ring) (ringActive ring) of
        None \<Rightarrow> Inl ActiveKeyMissing
      | Some key \<Rightarrow>
          let (ciphertext, tag) = gcm_seal key iv plaintext
          in Inr (join_with '':'' [FORMAT, ringActive ring, base64url iv, base64url tag, base64url ciphertext]))"

definition decryptField ::
  "(bytes \<Rightarrow> bytes \<Rightarrow> bytes \<Rightarrow> bytes \<Rightarrow> string option) \<Rightarrow> KeyRing \<Rightarrow> string \<Rightarrow> field_error + string" where
  "decryptField gcm_open ring encoded =
     (case split_on (CHR '':'') encoded of
        [fmt, kid, ivPart, tagPart, dataPart] \<Rightarrow>
          if fmt \<noteq> FORMAT then Inl DecryptionError
          else (case map_of (ringKeys ring) kid of
            None \<Rightarrow> Inl DecryptionError
          | Some key \<Rightarrow>
              let iv = from_base64 ivPart; tag = from_base64 tagPart
              in if length iv \<noteq> IV_BYTES \<or> length tag \<noteq> TAG_BYTES then Inl DecryptionError
                 else case gcm_open key iv (from_base64 dataPart) tag of
                   None \<Rightarrow> Inl DecryptionError
                 | Some plain \<Rightarrow> Inr plain)
      | _ \<Rightarrow> Inl DecryptionError)"

definition keyIdOf :: "string \<Rightarrow> string option" where
  "keyIdOf encoded =
     (let parts = split_on (CHR '':'') encoded
      in if length parts = 5 \<and> parts ! 0 = FORMAT then Some (parts ! 1) else None)"

section \<open>Tokens\<close>

definition MIN_TOKEN_BYTES :: nat where "MIN_TOKEN_BYTES = 16"
definition MIN_PEPPER_LENGTH :: nat where "MIN_PEPPER_LENGTH = 32"

datatype range_error = TokenTooShort | PepperTooShort | IdHasSeparator

text \<open>\<open>random\<close> are the bytes the platform draws.\<close>

definition generateToken :: "nat \<Rightarrow> bytes \<Rightarrow> range_error + string" where
  "generateToken n random = (if n < MIN_TOKEN_BYTES then Inl TokenTooShort else Inr (base64url random))"

definition hashToken :: "string \<Rightarrow> string \<Rightarrow> range_error + string" where
  "hashToken token pepper =
     (if length pepper < MIN_PEPPER_LENGTH then Inl PepperTooShort
      else Inr (toHex (hmac_sha256 (utf8 pepper) (utf8 token))))"

definition safeEqual :: "string \<Rightarrow> string \<Rightarrow> bool" where
  "safeEqual a b =
     (let left = utf8 a; right = utf8 b
      in if length left \<noteq> length right then False else left = right)"

definition verifyToken :: "string \<Rightarrow> string \<Rightarrow> string \<Rightarrow> range_error + bool" where
  "verifyToken token storedHash pepper =
     (case hashToken token pepper of Inl e \<Rightarrow> Inl e | Inr h \<Rightarrow> Inr (safeEqual h storedHash))"

section \<open>Signed links\<close>

definition mac :: "string \<Rightarrow> string \<Rightarrow> string \<Rightarrow> range_error + string" where
  "mac purpose link_id pepper =
     (if length pepper < 32 then Inl PepperTooShort
      else Inr (base64url (hmac_sha256 (utf8 pepper) (utf8 (purpose @ '':'' @ link_id)))))"

definition signLink :: "string \<Rightarrow> string \<Rightarrow> string \<Rightarrow> range_error + string" where
  "signLink purpose link_id pepper =
     (if CHR ''.'' \<in> set link_id then Inl IdHasSeparator
      else case mac purpose link_id pepper of Inl e \<Rightarrow> Inl e | Inr m \<Rightarrow> Inr (link_id @ ''.'' @ m))"

definition last_index_of :: "char \<Rightarrow> string \<Rightarrow> int" where
  "last_index_of c s =
     (if c \<in> set s then int (length s) - 1 - int (length (takeWhile (\<lambda>x. x \<noteq> c) (rev s))) else - 1)"

definition verifyLink :: "string \<Rightarrow> string \<Rightarrow> string \<Rightarrow> range_error + string option" where
  "verifyLink purpose v pepper =
     (let cut = last_index_of (CHR ''.'') v
      in if cut \<le> 0 \<or> cut = int (length v) - 1 then Inr None
         else
           let link_id = take (nat cut) v; presented = utf8 (drop (nat cut + 1) v)
           in case mac purpose link_id pepper of
                Inl e \<Rightarrow> Inl e
              | Inr m \<Rightarrow>
                  if length presented \<noteq> length (utf8 m) then Inr None
                  else if presented = utf8 m then Inr (Some link_id) else Inr None)"

section \<open>Key rings are well formed\<close>

lemma safe_kid_no_colon: "safe_kid kid \<Longrightarrow> CHR '':'' \<notin> set kid"
  by (auto simp: safe_kid_def list_all_iff Let_def)

lemma map_set_keys: "fst ` set (map_set k v m) = insert k (fst ` set m)"
  by (auto simp: map_set_def image_iff split: if_splits) force+

lemma map_set_snd: "x \<in> snd ` set (map_set k v m) \<Longrightarrow> x = v \<or> x \<in> snd ` set m"
  by (auto simp: map_set_def image_iff split: if_splits)

lemma read_keys_ok:
  "read_keys entries keys = Inr keys' \<Longrightarrow> \<forall>k \<in> fst ` set keys. safe_kid k
     \<Longrightarrow> \<forall>b \<in> snd ` set keys. length b = KEY_BYTES
     \<Longrightarrow> (\<forall>k \<in> fst ` set keys'. safe_kid k) \<and> (\<forall>b \<in> snd ` set keys'. length b = KEY_BYTES)"
proof (induction entries keys rule: read_keys.induct)
  case (2 kid v entries keys)
  then obtain plain where v: "v = JStr plain" "safe_kid kid" "length (from_base64 plain) = KEY_BYTES"
    "read_keys entries (map_set kid (from_base64 plain) keys) = Inr keys'"
    by (auto split: json.splits if_splits)
  have k: "\<forall>k \<in> fst ` set (map_set kid (from_base64 plain) keys). safe_kid k"
    using 2(3) v(2) by (simp add: map_set_keys)
  have b: "\<forall>b \<in> snd ` set (map_set kid (from_base64 plain) keys). length b = KEY_BYTES"
    using 2(4) v(3) map_set_snd by metis
  have s: "\<not> \<not> safe_kid kid" "\<not> length (from_base64 plain) \<noteq> KEY_BYTES" using v(2,3) by simp_all
  show ?case by (rule 2(1) [OF v(1) s v(4) k b])
qed simp

lemma buildKeyRing_ok:
  assumes "buildKeyRing parsed activeKid = Inr ring"
  shows "ringActive ring = activeKid" "safe_kid activeKid"
    "\<exists>key. map_of (ringKeys ring) activeKid = Some key"
    "\<forall>b \<in> snd ` set (ringKeys ring). length b = KEY_BYTES"
proof -
  obtain entries keys where k: "read_keys entries [] = Inr keys" "activeKid \<in> fst ` set keys"
    "ring = \<lparr>ringKeys = keys, ringActive = activeKid\<rparr>"
    using assms by (auto simp: buildKeyRing_def split: option.splits json.splits sum.splits if_splits)
  with read_keys_ok [OF k(1)] show "ringActive ring = activeKid" "safe_kid activeKid"
    "\<forall>b \<in> snd ` set (ringKeys ring). length b = KEY_BYTES" by auto
  show "\<exists>key. map_of (ringKeys ring) activeKid = Some key"
    using k(2,3) by (cases "map_of keys activeKid") (auto simp: map_of_eq_None_iff)
qed

section \<open>Encrypted fields\<close>

text \<open>What the code relies on of AES-256-GCM: opening undoes sealing, the tag has 16 bytes, and both
  outputs are bytes.\<close>

definition gcm_ok ::
  "(bytes \<Rightarrow> bytes \<Rightarrow> string \<Rightarrow> bytes \<times> bytes) \<Rightarrow> (bytes \<Rightarrow> bytes \<Rightarrow> bytes \<Rightarrow> bytes \<Rightarrow> string option) \<Rightarrow> bool" where
  "gcm_ok gcm_seal gcm_open \<longleftrightarrow>
     (\<forall>key iv plain. gcm_open key iv (fst (gcm_seal key iv plain)) (snd (gcm_seal key iv plain)) = Some plain
        \<and> length (snd (gcm_seal key iv plain)) = TAG_BYTES
        \<and> (\<forall>b \<in> set (fst (gcm_seal key iv plain)). b < 256)
        \<and> (\<forall>b \<in> set (snd (gcm_seal key iv plain)). b < 256))"

lemma split_five:
  assumes "CHR '':'' \<notin> set a" "CHR '':'' \<notin> set b" "CHR '':'' \<notin> set c" "CHR '':'' \<notin> set d" "CHR '':'' \<notin> set e"
  shows "split_on (CHR '':'') (join_with '':'' [a, b, c, d, e]) = [a, b, c, d, e]"
  by (rule split_join) (use assms in auto)

lemma encryptField_shape:
  assumes "map_of (ringKeys ring) (ringActive ring) = Some key" "safe_kid (ringActive ring)"
    "gcm_ok gcm_seal gcm_open" "\<forall>b \<in> set iv. b < 256"
  shows "\<exists>enc. encryptField gcm_seal ring iv plain = Inr enc
     \<and> split_on (CHR '':'') enc = [FORMAT, ringActive ring, base64url iv,
          base64url (snd (gcm_seal key iv plain)), base64url (fst (gcm_seal key iv plain))]"
proof -
  have "split_on (CHR '':'') (join_with '':'' [FORMAT, ringActive ring, base64url iv,
          base64url (snd (gcm_seal key iv plain)), base64url (fst (gcm_seal key iv plain))])
      = [FORMAT, ringActive ring, base64url iv,
          base64url (snd (gcm_seal key iv plain)), base64url (fst (gcm_seal key iv plain))]"
    by (rule split_five)
      (use assms(2-4) base64url_chars safe_kid_no_colon in \<open>simp_all add: FORMAT_def gcm_ok_def\<close>)
  then show ?thesis using assms(1) by (simp add: encryptField_def split_beta)
qed

lemma decrypt_encrypt:
  assumes "map_of (ringKeys ring) (ringActive ring) = Some key" "safe_kid (ringActive ring)"
    "gcm_ok gcm_seal gcm_open" "\<forall>b \<in> set iv. b < 256" "length iv = IV_BYTES"
    "encryptField gcm_seal ring iv plain = Inr enc" "map_of (ringKeys ring') (ringActive ring) = Some key"
  shows "decryptField gcm_open ring' enc = Inr plain" "keyIdOf enc = Some (ringActive ring)"
proof -
  from encryptField_shape [OF assms(1-4), of plain] assms(6)
  have sp: "split_on (CHR '':'') enc = [FORMAT, ringActive ring, base64url iv,
          base64url (snd (gcm_seal key iv plain)), base64url (fst (gcm_seal key iv plain))]" by auto
  then show "keyIdOf enc = Some (ringActive ring)" by (simp add: keyIdOf_def)
  have "from_base64 (base64url iv) = iv"
    "from_base64 (base64url (snd (gcm_seal key iv plain))) = snd (gcm_seal key iv plain)"
    "from_base64 (base64url (fst (gcm_seal key iv plain))) = fst (gcm_seal key iv plain)"
    using assms(3,4) by (auto intro!: from_base64_base64url simp: gcm_ok_def)
  then show "decryptField gcm_open ring' enc = Inr plain"
    using sp assms(3,5,7) by (simp add: decryptField_def gcm_ok_def Let_def)
qed

text \<open>Encrypted fields round-trip across rotations: a value encrypted under any validated key ring
  names the key that wrote it and decrypts to the same text under every ring that still holds
  that key, whichever key is active there.\<close>

theorem field_roundtrip:
  assumes "gcm_ok gcm_seal gcm_open" "buildKeyRing parsed kid = Inr ring"
    "\<forall>b \<in> set iv. b < 256" "length iv = 12"
    "map_of (ringKeys ring') kid = map_of (ringKeys ring) kid"
  shows "\<exists>enc. encryptField gcm_seal ring iv plain = Inr enc
     \<and> keyIdOf enc = Some kid \<and> decryptField gcm_open ring' enc = Inr plain"
proof -
  note ring = buildKeyRing_ok [OF assms(2)]
  obtain key where key: "map_of (ringKeys ring) kid = Some key" using ring(3) by blast
  from encryptField_shape [OF _ _ assms(1,3), of ring key plain] key ring
  obtain enc where enc: "encryptField gcm_seal ring iv plain = Inr enc" by auto
  have "decryptField gcm_open ring' enc = Inr plain" "keyIdOf enc = Some (ringActive ring)"
    by (rule decrypt_encrypt [OF _ _ assms(1,3) _ enc];
        use key ring assms(4,5) in \<open>simp add: IV_BYTES_def\<close>)+
  with enc ring(1) show ?thesis by simp
qed

text \<open>Nothing unauthenticated decrypts: a text comes back only if the value has the five parts of the
  format, names a key of the ring, carries a 12-byte nonce and a full 16-byte tag, and the cipher
  accepted that tag under that key; every other input is the one same error.\<close>

theorem decrypt_authenticated:
  "decryptField gcm_open ring encoded = Inl DecryptionError
   \<or> (\<exists>plain kid key iv tag data.
        decryptField gcm_open ring encoded = Inr plain
        \<and> split_on (CHR '':'') encoded = [FORMAT, kid, iv, tag, data]
        \<and> keyIdOf encoded = Some kid \<and> map_of (ringKeys ring) kid = Some key
        \<and> length (from_base64 iv) = 12 \<and> length (from_base64 tag) = 16
        \<and> gcm_open key (from_base64 iv) (from_base64 data) (from_base64 tag) = Some plain)"
proof (cases "decryptField gcm_open ring encoded")
  case (Inl e)
  then show ?thesis
    by (auto simp: decryptField_def Let_def split: list.splits if_splits option.splits)
next
  case (Inr plain)
  then obtain kid key iv tag data where "split_on (CHR '':'') encoded = [FORMAT, kid, iv, tag, data]"
    "map_of (ringKeys ring) kid = Some key" "length (from_base64 iv) = 12" "length (from_base64 tag) = 16"
    "gcm_open key (from_base64 iv) (from_base64 data) (from_base64 tag) = Some plain"
    by (auto simp: decryptField_def Let_def IV_BYTES_def TAG_BYTES_def
        split: list.splits if_splits option.splits)
  then show ?thesis using Inr by (simp add: keyIdOf_def)
qed

text \<open>A stand-in for the cipher, and a ring of one key.\<close>

definition demo_seal :: "bytes \<Rightarrow> bytes \<Rightarrow> string \<Rightarrow> bytes \<times> bytes" where
  "demo_seal key iv plain = (map of_char plain, replicate 16 0)"

definition demo_unseal :: "bytes \<Rightarrow> bytes \<Rightarrow> bytes \<Rightarrow> bytes \<Rightarrow> string option" where
  "demo_unseal key iv ciphertext tag =
     (if tag = replicate 16 0 then Some (map char_of ciphertext) else None)"

definition demo_ring :: KeyRing where
  "demo_ring = \<lparr>ringKeys = [(''k1'', replicate 32 0)], ringActive = ''k1''\<rparr>"

lemma demo_gcm_ok: "gcm_ok demo_seal demo_unseal"
  by (auto simp: gcm_ok_def demo_seal_def demo_unseal_def TAG_BYTES_def o_def)

lemma demo_ring_built: "buildKeyRing (Some (JObj [(''k1'', JStr (replicate 43 (CHR ''A'')))])) ''k1'' = Inr demo_ring"
  by code_simp

lemma field_roundtrip_witness:
  "\<exists>enc. encryptField demo_seal demo_ring (replicate 12 7) ''seed'' = Inr enc
     \<and> keyIdOf enc = Some ''k1'' \<and> decryptField demo_unseal demo_ring enc = Inr ''seed''"
  by (rule field_roundtrip [OF demo_gcm_ok demo_ring_built]) simp_all

section \<open>Tokens and links\<close>

lemma utf8_char_inj:
  assumes "utf8_char c @ s = utf8_char d @ t"
  shows "c = d \<and> s = t"
proof -
  have b: "(of_char c :: nat) < 256" "(of_char d :: nat) < 256" by simp_all
  have "(of_char c :: nat) = of_char d \<and> s = t"
  proof (cases "(of_char c :: nat) < 128"; cases "(of_char d :: nat) < 128")
    assume "\<not> (of_char c :: nat) < 128" "\<not> (of_char d :: nat) < 128"
    then have "(of_char c :: nat) div 64 = of_char d div 64" "(of_char c :: nat) mod 64 = of_char d mod 64" "s = t"
      using assms by (auto simp: utf8_char_def Let_def)
    then show ?thesis by (metis div_mult_mod_eq)
  qed (use assms in \<open>auto simp: utf8_char_def Let_def\<close>)
  then show ?thesis by simp
qed

lemma utf8_char_not_Nil: "utf8_char c @ s \<noteq> []"
  by (simp add: utf8_char_def Let_def)

lemma utf8_inj: "utf8 s = utf8 t \<Longrightarrow> s = t"
proof (induction s arbitrary: t)
  case Nil
  then show ?case by (cases t) (auto simp: utf8_def utf8_char_def Let_def split: if_splits)
next
  case (Cons c s)
  then have e: "utf8_char c @ utf8 s = utf8 t" by (simp add: utf8_def)
  show ?case
  proof (cases t)
    case Nil
    with e show ?thesis using utf8_char_not_Nil [of c "utf8 s"] by (simp add: utf8_def)
  next
    case (Cons d u)
    with e have "utf8_char c @ utf8 s = utf8_char d @ utf8 u" by (simp add: utf8_def)
    from utf8_char_inj [OF this] Cons.IH [of u] Cons show ?thesis by simp
  qed
qed

lemma safeEqual_eq: "safeEqual a b \<longleftrightarrow> a = b"
  by (auto simp: safeEqual_def Let_def dest: utf8_inj)

lemma last_index_of_append:
  "c \<notin> set m \<Longrightarrow> last_index_of c (i @ c # m) = int (length i)"
  by (simp add: last_index_of_def takeWhile_append)

lemma last_index_of_split:
  assumes "0 < last_index_of c v"
  shows "\<exists>i m. v = i @ c # m \<and> c \<notin> set m \<and> last_index_of c v = int (length i)"
proof -
  have "c \<in> set v" using assms by (auto simp: last_index_of_def split: if_splits)
  then obtain i m where "v = i @ c # m" "c \<notin> set m" using split_list_last by metis
  then show ?thesis using last_index_of_append by metis
qed

lemma mac_Inr: "32 \<le> length pepper \<Longrightarrow>
    mac purpose i pepper = Inr (base64url (hmac_sha256 (utf8 pepper) (utf8 (purpose @ '':'' @ i))))"
  by (simp add: mac_def)

lemma verifyLink_split:
  assumes "mac purpose i pepper = Inr m'" "CHR ''.'' \<notin> set m"
  shows "verifyLink purpose (i @ CHR ''.'' # m) pepper =
    (if i = [] \<or> m = [] then Inr None else if m = m' then Inr (Some i) else Inr None)"
proof -
  have "last_index_of (CHR ''.'') (i @ CHR ''.'' # m) = int (length i)"
    by (rule last_index_of_append [OF assms(2)])
  then show ?thesis using assms(1) by (auto simp: verifyLink_def Let_def dest: utf8_inj)
qed

lemma signature_shape:
  "CHR ''.'' \<notin> set (base64url (hmac_sha256 k m))" "base64url (hmac_sha256 k m) \<noteq> []"
proof -
  show "CHR ''.'' \<notin> set (base64url (hmac_sha256 k m))"
    using base64url_chars hmac_bytes by blast
  show "base64url (hmac_sha256 k m) \<noteq> []"
    using length_hmac [of k m] by (cases "hmac_sha256 k m" rule: base64url.cases) auto
qed

lemma verifyLink_Some_iff:
  assumes "32 \<le> length pepper"
  shows "verifyLink p v pepper = Inr (Some j) \<longleftrightarrow>
    j \<noteq> [] \<and> v = j @ CHR ''.'' # base64url (hmac_sha256 (utf8 pepper) (utf8 (p @ '':'' @ j)))"
proof
  assume a: "verifyLink p v pepper = Inr (Some j)"
  then have "0 < last_index_of (CHR ''.'') v"
    by (auto simp: verifyLink_def Let_def split: if_splits)
  then obtain k m where k: "v = k @ CHR ''.'' # m" "CHR ''.'' \<notin> set m"
    using last_index_of_split by blast
  from a verifyLink_split [OF mac_Inr [OF assms] k(2), of p k] k(1)
  show "j \<noteq> [] \<and> v = j @ CHR ''.'' # base64url (hmac_sha256 (utf8 pepper) (utf8 (p @ '':'' @ j)))"
    by (auto split: if_splits)
next
  assume "j \<noteq> [] \<and> v = j @ CHR ''.'' # base64url (hmac_sha256 (utf8 pepper) (utf8 (p @ '':'' @ j)))"
  then show "verifyLink p v pepper = Inr (Some j)"
    using verifyLink_split [OF mac_Inr [OF assms] signature_shape(1), of p j] signature_shape(2) by simp
qed

text \<open>A link proves what it refers to: with a long enough pepper a presented value is accepted for
  an id exactly when it is that id, a dot and the signature over the purpose and that id, so a
  link that was signed is accepted for its own id and an accepted link was minted for that id,
  or for another purpose only with two different texts of the same HMAC-SHA-256.\<close>

theorem verifyLink_exact:
  assumes "32 \<le> length pepper"
  shows "(verifyLink purpose v pepper = Inr (Some i) \<longleftrightarrow>
            i \<noteq> [] \<and> (\<exists>m. mac purpose i pepper = Inr m \<and> v = i @ ''.'' @ m))
    \<and> (signLink purpose' i' pepper = Inr v \<longrightarrow> i' \<noteq> [] \<longrightarrow>
         verifyLink purpose' v pepper = Inr (Some i')
         \<and> (\<forall>j. verifyLink purpose v pepper = Inr (Some j) \<longrightarrow>
              j = i' \<and> (purpose = purpose'
                \<or> base64url (hmac_sha256 (utf8 pepper) (utf8 (purpose @ '':'' @ j)))
                   = base64url (hmac_sha256 (utf8 pepper) (utf8 (purpose' @ '':'' @ j)))
                  \<and> utf8 (purpose @ '':'' @ j) \<noteq> utf8 (purpose' @ '':'' @ j))))"
proof -
  let ?m = "\<lambda>p j. base64url (hmac_sha256 (utf8 pepper) (utf8 (p @ '':'' @ j)))"
  note dot = signature_shape(1)
  have acc: "verifyLink p v pepper = Inr (Some j) \<longleftrightarrow> j \<noteq> [] \<and> v = j @ CHR ''.'' # ?m p j" for p j
    by (rule verifyLink_Some_iff [OF assms])
  have sep: "j = k" if "j @ CHR ''.'' # ?m p j = k @ CHR ''.'' # ?m q k" for j k p q
    using last_index_of_append [OF dot, of j] last_index_of_append [OF dot, of k] that
    by (metis append_eq_append_conv of_nat_eq_iff)
  have other: "j = i' \<and> (p = purpose' \<or> ?m p j = ?m purpose' j
      \<and> utf8 (p @ '':'' @ j) \<noteq> utf8 (purpose' @ '':'' @ j))"
    if "v = i' @ CHR ''.'' # ?m purpose' i'" "v = j @ CHR ''.'' # ?m p j" for p j
  proof -
    have j: "j = i'" using sep that by metis
    then have "?m p j = ?m purpose' j" using that by simp
    moreover have "p = purpose' \<or> utf8 (p @ '':'' @ j) \<noteq> utf8 (purpose' @ '':'' @ j)"
      using utf8_inj by force
    ultimately show ?thesis using j by blast
  qed
  have mint: "v = i' @ CHR ''.'' # ?m purpose' i'" if "signLink purpose' i' pepper = Inr v"
    using that mac_Inr [OF assms, of purpose' i'] by (auto simp: signLink_def split: if_splits)
  show ?thesis
  proof (intro conjI impI allI)
    show "verifyLink purpose v pepper = Inr (Some i) \<longleftrightarrow>
        i \<noteq> [] \<and> (\<exists>m. mac purpose i pepper = Inr m \<and> v = i @ ''.'' @ m)"
      unfolding acc mac_Inr [OF assms] by auto
  next
    assume "signLink purpose' i' pepper = Inr v" "i' \<noteq> []"
    then show "verifyLink purpose' v pepper = Inr (Some i')" using acc mint by blast
  next
    fix j
    assume s: "signLink purpose' i' pepper = Inr v" and "verifyLink purpose v pepper = Inr (Some j)"
    then have "v = j @ CHR ''.'' # ?m purpose j" using acc by blast
    with other [OF mint [OF s]] show "j = i'"
      and "purpose = purpose' \<or> ?m purpose j = ?m purpose' j
         \<and> utf8 (purpose @ '':'' @ j) \<noteq> utf8 (purpose' @ '':'' @ j)" by blast+
  qed
qed

lemma verifyLink_exact_witness:
  "\<exists>v. signLink ''unsubscribe:watch'' ''u|w'' (replicate 32 (CHR ''p'')) = Inr v
     \<and> verifyLink ''unsubscribe:watch'' v (replicate 32 (CHR ''p'')) = Inr (Some ''u|w'')"
proof -
  obtain v where v: "signLink ''unsubscribe:watch'' ''u|w'' (replicate 32 (CHR ''p'')) = Inr v"
    by (simp add: signLink_def mac_def)
  have "32 \<le> length (replicate 32 (CHR ''p''))" by (simp only: length_replicate)
  from verifyLink_exact [OF this, of "''unsubscribe:watch''" v "''u|w''" "''unsubscribe:watch''" "''u|w''"] v
  have "verifyLink ''unsubscribe:watch'' v (replicate 32 (CHR ''p'')) = Inr (Some ''u|w'')" by blast
  with v show ?thesis by blast
qed

lemma verifyToken_exact:
  "verifyToken token stored pepper = Inr True \<longleftrightarrow> hashToken token pepper = Inr stored"
  by (auto simp: verifyToken_def safeEqual_eq split: sum.splits)

end
