(* ===== verification/Vod.thy ===== *)
theory Vod
  imports JsNumber
begin

text \<open>
  VOD timestamps (\<open>packages/core/src/vod.ts\<close>): reading a duration, writing one, and pointing a link at
  a moment. The platform's URL type is a record of the parts the source reads and writes;
  \<open>parse_url\<close> and \<open>href\<close> are its constructor and its \<open>toString\<close>.
\<close>

section \<open>Durations\<close>

definition MAX_VOD_OFFSET_SECONDS :: int where "MAX_VOD_OFFSET_SECONDS = 24 * 60 * 60"

definition bounded :: "int \<Rightarrow> int option" where
  "bounded seconds = (if seconds < 0 \<or> seconds > MAX_VOD_OFFSET_SECONDS then None else Some seconds)"

definition number_of :: "string \<Rightarrow> int" where
  "number_of digits = int (nat_of_string digits)"

text \<open>\<open>/^\d{lo,hi}$/\<close>.\<close>

definition digits_between :: "nat \<Rightarrow> nat \<Rightarrow> string \<Rightarrow> bool" where
  "digits_between lo hi s \<longleftrightarrow> lo \<le> length s \<and> length s \<le> hi \<and> list_all is_digit s"

definition parseClock :: "string \<Rightarrow> int option" where
  "parseClock s =
     (let parts = split_on (CHR '':'') s
      in if length parts < 2 \<or> length parts > 3 then None
         else if \<not> list_all (digits_between 1 3) parts then None
         else
           let vals = map number_of parts
           in case (if length vals = 3 then vals else 0 # vals) of
                [hours, minutes, seconds] \<Rightarrow>
                  if minutes > 59 \<or> seconds > 59 then None
                  else bounded (hours * 3600 + minutes * 60 + seconds)
              | _ \<Rightarrow> None)"

definition unit_seconds :: "char \<Rightarrow> int option" where
  "unit_seconds c =
     (if c = CHR ''h'' then Some 3600 else if c = CHR ''m'' then Some 60
      else if c = CHR ''s'' then Some 1 else None)"

text \<open>The scan: what is left, the total, the digits read, the weight before (none is infinity) and
  whether a unit was seen.\<close>

fun scan_units :: "string \<Rightarrow> int \<Rightarrow> string \<Rightarrow> int option \<Rightarrow> bool \<Rightarrow> int option" where
  "scan_units [] tot digits previousWeight sawUnit =
     (if digits \<noteq> [] \<or> \<not> sawUnit then None else bounded tot)"
| "scan_units (c # cs) tot digits previousWeight sawUnit =
     (if is_digit c then scan_units cs tot (digits @ [c]) previousWeight sawUnit
      else case unit_seconds c of
        None \<Rightarrow> None
      | Some weight \<Rightarrow>
          if digits = [] \<or> (case previousWeight of None \<Rightarrow> False | Some p \<Rightarrow> weight \<ge> p) then None
          else scan_units cs (tot + number_of digits * weight) [] (Some weight) True)"

definition parseUnits :: "string \<Rightarrow> int option" where
  "parseUnits s = scan_units (to_lower s) 0 [] None False"

definition parseDurationToSeconds :: "string \<Rightarrow> int option" where
  "parseDurationToSeconds s =
     (let trimmed = trim s
      in if trimmed = [] then None
         else if list_all is_digit trimmed then bounded (number_of trimmed)
         else if CHR '':'' \<in> set trimmed then parseClock trimmed
         else parseUnits trimmed)"

section \<open>Writing one\<close>

definition pad_start :: "nat \<Rightarrow> string \<Rightarrow> string" where
  "pad_start n s = replicate (n - length s) (CHR ''0'') @ s"

text \<open>\<open>Math.floor(a / b)\<close>: the quotient is a double.\<close>

definition floor_quotient :: "int \<Rightarrow> int \<Rightarrow> int" where
  "floor_quotient a b = \<lfloor>dbl (of_int a / of_int b)\<rfloor>"

datatype vod_error = NotAUrl | NotHttps | BadVodOffset | OffsetOutOfRange

definition formatVodOffset :: "jsnum \<Rightarrow> vod_error + string" where
  "formatVodOffset seconds =
     (if \<not> is_integer seconds \<or> js_less seconds (int_num 0) then Inl BadVodOffset
      else
        let sec = to_int seconds; h = floor_quotient sec 3600; m = floor_quotient (sec mod 3600) 60;
            s = sec mod 60
        in Inr (if h > 0 then string_of_int h @ '':'' @ pad_start 2 (string_of_int m) @ '':''
                    @ pad_start 2 (string_of_int s)
                else string_of_int m @ '':'' @ pad_start 2 (string_of_int s)))"

section \<open>Links\<close>

record url =
  urlProtocol :: string
  urlHostname :: string
  urlHash :: string
  urlQuery :: "(string \<times> string) list"

text \<open>\<open>searchParams.set\<close>: the first pair of that name takes the value, later ones go.\<close>

fun drop_params :: "string \<Rightarrow> (string \<times> string) list \<Rightarrow> (string \<times> string) list" where
  "drop_params k [] = []"
| "drop_params k ((k', v') # ps) = (if k' = k then drop_params k ps else (k', v') # drop_params k ps)"

fun set_param :: "string \<Rightarrow> string \<Rightarrow> (string \<times> string) list \<Rightarrow> (string \<times> string) list" where
  "set_param k v [] = [(k, v)]"
| "set_param k v ((k', v') # ps) =
     (if k' = k then (k, v) # drop_params k ps else (k', v') # set_param k v ps)"

definition isHost :: "url \<Rightarrow> string \<Rightarrow> bool" where
  "isHost u suffix =
     (let host = to_lower (urlHostname u) in host = suffix \<or> ends_with (''.'' @ suffix) host)"

text \<open>The first of the query keys that holds a duration, then a \<open>#t=\<close> fragment.\<close>

fun query_offset :: "string list \<Rightarrow> url \<Rightarrow> int option" where
  "query_offset [] u = None"
| "query_offset (k # ks) u =
     (case map_of (urlQuery u) k of
        None \<Rightarrow> query_offset ks u
      | Some v \<Rightarrow> (case parseDurationToSeconds v of None \<Rightarrow> query_offset ks u | Some s \<Rightarrow> Some s))"

definition fragment_offset :: "string \<Rightarrow> int option" where
  "fragment_offset hash =
     (if starts_with ''#t='' hash \<and> drop 3 hash \<noteq> [] then parseDurationToSeconds (drop 3 hash) else None)"

definition parseVodOffset :: "(string \<Rightarrow> url option) \<Rightarrow> string \<Rightarrow> int option" where
  "parseVodOffset parse_url link =
     (case parse_url link of
        None \<Rightarrow> None
      | Some u \<Rightarrow>
          (case query_offset [''t'', ''start'', ''time_continue''] u of
             Some s \<Rightarrow> Some s
           | None \<Rightarrow> fragment_offset (urlHash u)))"

text \<open>What \<open>t\<close> is set to.\<close>

definition vod_t :: "url \<Rightarrow> int \<Rightarrow> string" where
  "vod_t u sec =
     (if isHost u ''twitch.tv'' then
        string_of_int (floor_quotient sec 3600) @ ''h''
          @ pad_start 2 (string_of_int (floor_quotient (sec mod 3600) 60)) @ ''m''
          @ pad_start 2 (string_of_int (sec mod 60)) @ ''s''
      else string_of_int sec)"

definition withVodOffset ::
  "(string \<Rightarrow> url option) \<Rightarrow> (url \<Rightarrow> string) \<Rightarrow> string \<Rightarrow> jsnum \<Rightarrow> vod_error + string" where
  "withVodOffset parse_url href link seconds =
     (case parse_url link of
        None \<Rightarrow> Inl NotAUrl
      | Some u \<Rightarrow>
        if urlProtocol u \<noteq> ''https:'' then Inl NotHttps
        else if \<not> is_integer seconds \<or> bounded (to_int seconds) = None then Inl OffsetOutOfRange
        else
          let u1 = u\<lparr>urlQuery := set_param ''t'' (vod_t u (to_int seconds)) (urlQuery u)\<rparr>
          in Inr (href (if starts_with ''#t='' (urlHash u1) then u1\<lparr>urlHash := []\<rparr> else u1)))"

definition isUsableVodUrl :: "(string \<Rightarrow> url option) \<Rightarrow> string \<Rightarrow> bool" where
  "isUsableVodUrl parse_url link =
     (case parse_url link of None \<Rightarrow> False | Some u \<Rightarrow> urlProtocol u = ''https:'')"

section \<open>Numerals of a timestamp\<close>

lemma floor_quotient_div: "0 \<le> a \<Longrightarrow> 0 < b \<Longrightarrow> a + b \<le> 2 ^ 52 \<Longrightarrow> floor_quotient a b = a div b"
  unfolding floor_quotient_def by (rule js.floor_rnd) simp_all

lemma trim_id: "s \<noteq> [] \<Longrightarrow> \<not> is_space (hd s) \<Longrightarrow> \<not> is_space (last s) \<Longrightarrow> trim s = s"
proof -
  assume a: "s \<noteq> []" "\<not> is_space (hd s)" "\<not> is_space (last s)"
  then have "dropWhile is_space s = s" by (cases s) auto
  moreover have "dropWhile is_space (rev s) = rev s"
    using a by (cases "rev s") (auto simp: last_rev hd_rev dest: sym [of "rev s"])
  ultimately show ?thesis by (simp add: trim_def)
qed

lemma digit_not_space: "is_digit c \<Longrightarrow> \<not> is_space c"
  by (auto simp: is_digit_def is_space_def)

lemma digit_not_letter:
  "is_digit c \<Longrightarrow> c \<noteq> CHR '':''" "is_digit c \<Longrightarrow> c \<noteq> CHR ''h''" "is_digit c \<Longrightarrow> c \<noteq> CHR ''m''"
  "is_digit c \<Longrightarrow> c \<noteq> CHR ''s''"
  by (auto simp: is_digit_def)

lemma lower_digit: "is_digit c \<Longrightarrow> lower_char c = c"
  by (auto simp: is_digit_def lower_char_def Let_def)

lemma nat_of_string_zeros: "nat_of_string (replicate k (CHR ''0'') @ s) = nat_of_string s"
proof -
  have "foldl (\<lambda>n c. 10 * n + digit_val c) 0 (replicate k (CHR ''0'')) = 0"
    by (induction k) (auto simp: digit_val_def)
  then show ?thesis by (simp add: nat_of_string_def)
qed

lemma zero_is_digit: "is_digit (CHR ''0'')"
  by (simp add: is_digit_def)

text \<open>A numeral that the parser reads back: digits only, at least one.\<close>

definition numeral_for :: "int \<Rightarrow> string \<Rightarrow> bool" where
  "numeral_for n t \<longleftrightarrow> t \<noteq> [] \<and> list_all is_digit t \<and> number_of t = n"

lemma numeral_string_of_int: "0 \<le> n \<Longrightarrow> numeral_for n (string_of_int n)"
  unfolding numeral_for_def
  by (auto simp: string_of_int_def number_of_def str_simps list_all_iff dest: string_of_nat_digits)

lemma numeral_pad: "numeral_for n t \<Longrightarrow> numeral_for n (pad_start k t)"
  by (auto simp: numeral_for_def pad_start_def number_of_def nat_of_string_zeros list_all_iff zero_is_digit)

lemma length_string_of_nat:
  "n < 10 \<Longrightarrow> length (string_of_nat n) = 1" "n < 100 \<Longrightarrow> length (string_of_nat n) \<le> 2"
proof -
  show 1: "length (string_of_nat n) = 1" if "n < 10" for n
    using that by (subst string_of_nat.simps) simp
  show "length (string_of_nat n) \<le> 2" if "n < 100"
  proof (cases "n < 10")
    case False
    then show ?thesis using that 1 [of "n div 10"] by (subst string_of_nat.simps) simp
  qed (simp add: 1)
qed

lemma length_two_digits: "0 \<le> n \<Longrightarrow> n < 100 \<Longrightarrow> length (string_of_int n) \<le> 2"
  by (simp add: string_of_int_def length_string_of_nat)

lemma length_two: "0 \<le> n \<Longrightarrow> n \<le> k \<Longrightarrow> k < 100 \<Longrightarrow> length (string_of_int n) \<le> 2"
  by (rule length_two_digits) auto

lemma digits_numeral: "numeral_for n t \<Longrightarrow> length t \<le> 3 \<Longrightarrow> digits_between 1 3 t"
  by (cases t) (auto simp: numeral_for_def digits_between_def)

lemma numeral_no_colon: "numeral_for n t \<Longrightarrow> CHR '':'' \<notin> set t"
  by (auto simp: numeral_for_def list_all_iff dest: digit_not_letter)

section \<open>Clocks\<close>

lemma clock_text:
  assumes "ps \<noteq> []" "\<forall>p \<in> set ps. p \<noteq> [] \<and> list_all is_digit p" "2 \<le> length ps"
  shows "parseDurationToSeconds (join_with '':'' ps) = parseClock (join_with '':'' ps)"
proof -
  obtain p q rs where ps: "ps = p # q # rs" using assms(3) by (cases ps; cases "tl ps") auto
  define t where "t = join_with '':'' ps"
  have t: "t = p @ CHR '':'' # join_with '':'' (q # rs)" by (simp add: t_def ps)
  have "p \<noteq> []" "list_all is_digit p" using assms(2) ps by auto
  then have h: "is_digit (hd t)" unfolding t by (cases p) auto
  have last_ok: "qs \<noteq> [] \<Longrightarrow> \<forall>p \<in> set qs. p \<noteq> [] \<and> list_all is_digit p
      \<Longrightarrow> join_with '':'' qs \<noteq> [] \<and> is_digit (last (join_with '':'' qs))" for qs
    by (induction "'':''" qs rule: join_with.induct) (auto simp: list_all_iff)
  have "t \<noteq> [] \<and> is_digit (last t)" unfolding t_def by (rule last_ok [OF assms(1,2)])
  with h have "trim t = t" by (intro trim_id) (auto dest: digit_not_space)
  moreover have "CHR '':'' \<in> set t" unfolding t by simp
  moreover from this have "\<not> list_all is_digit t" by (auto simp: list_all_iff dest: digit_not_letter)
  ultimately show ?thesis using \<open>t \<noteq> [] \<and> is_digit (last t)\<close>
    by (simp add: parseDurationToSeconds_def Let_def flip: t_def)
qed

lemma parse_clock_3:
  assumes "numeral_for h a" "numeral_for m b" "numeral_for s c"
    "length a \<le> 3" "length b \<le> 3" "length c \<le> 3" "m \<le> 59" "s \<le> 59"
  shows "parseDurationToSeconds (a @ '':'' @ b @ '':'' @ c) = bounded (h * 3600 + m * 60 + s)"
proof -
  have "split_on (CHR '':'') (join_with '':'' [a, b, c]) = [a, b, c]"
    by (rule split_join) (use assms numeral_no_colon in auto)
  moreover have "parseDurationToSeconds (join_with '':'' [a, b, c]) = parseClock (join_with '':'' [a, b, c])"
    by (rule clock_text) (use assms in \<open>auto simp: numeral_for_def\<close>)
  ultimately show ?thesis
    using assms digits_numeral by (simp add: parseClock_def Let_def numeral_for_def)
qed

lemma parse_clock_2:
  assumes "numeral_for m b" "numeral_for s c" "length b \<le> 3" "length c \<le> 3" "m \<le> 59" "s \<le> 59"
  shows "parseDurationToSeconds (b @ '':'' @ c) = bounded (m * 60 + s)"
proof -
  have "split_on (CHR '':'') (join_with '':'' [b, c]) = [b, c]"
    by (rule split_join) (use assms numeral_no_colon in auto)
  moreover have "parseDurationToSeconds (join_with '':'' [b, c]) = parseClock (join_with '':'' [b, c])"
    by (rule clock_text) (use assms in \<open>auto simp: numeral_for_def\<close>)
  moreover have "number_of ''0'' = 0" by (simp add: number_of_def nat_of_string_def digit_val_def)
  ultimately show ?thesis
    using assms digits_numeral by (simp add: parseClock_def Let_def numeral_for_def)
qed

section \<open>Units\<close>

lemma scan_digits:
  "list_all is_digit ds \<Longrightarrow> scan_units (ds @ cs) tot digs w saw = scan_units cs tot (digs @ ds) w saw"
  by (induction ds arbitrary: digs) auto

lemma scan_unit:
  assumes "numeral_for n t" "unit_seconds c = Some weight" "\<not> is_digit c"
    "case w of None \<Rightarrow> True | Some p \<Rightarrow> weight < p"
  shows "scan_units (t @ c # cs) tot [] w saw = scan_units cs (tot + n * weight) [] (Some weight) True"
proof -
  have "list_all is_digit t" "t \<noteq> []" "number_of t = n" using assms(1) by (auto simp: numeral_for_def)
  then show ?thesis using scan_digits [of t "c # cs" tot "[]" w saw] assms(2-4)
    by (auto split: option.splits)
qed

lemma lower_numeral: "numeral_for n t \<Longrightarrow> map lower_char t = t"
  by (auto simp: numeral_for_def list_all_iff lower_digit intro: map_idI)

lemma not_digit_letter: "\<not> is_digit (CHR ''h'')" "\<not> is_digit (CHR ''m'')" "\<not> is_digit (CHR ''s'')"
  by (simp_all add: is_digit_def)

lemma parse_units_3:
  assumes "numeral_for h a" "numeral_for m b" "numeral_for s c"
  shows "parseDurationToSeconds (a @ ''h'' @ b @ ''m'' @ c @ ''s'') = bounded (h * 3600 + m * 60 + s)"
proof -
  let ?t = "a @ ''h'' @ b @ ''m'' @ c @ ''s''"
  have h: "a \<noteq> []" "list_all is_digit a" using assms(1) by (auto simp: numeral_for_def)
  then have "\<not> is_space (hd ?t)" by (cases a) (auto dest: digit_not_space)
  then have "trim ?t = ?t" by (intro trim_id) (auto simp: is_space_def)
  moreover have "\<not> list_all is_digit ?t" by (simp add: not_digit_letter)
  moreover have "CHR '':'' \<notin> set ?t"
    using numeral_no_colon [OF assms(1)] numeral_no_colon [OF assms(2)] numeral_no_colon [OF assms(3)] by simp
  ultimately have "parseDurationToSeconds ?t = parseUnits ?t"
    by (simp add: parseDurationToSeconds_def Let_def not_digit_letter)
  also have "to_lower ?t = ?t"
    using assms by (simp add: to_lower_def lower_numeral lower_char_def)
  then have "parseUnits ?t = scan_units ?t 0 [] None False" by (simp add: parseUnits_def)
  also have "\<dots> = scan_units (b @ ''m'' @ c @ ''s'') (h * 3600) [] (Some 3600) True"
    using scan_unit [OF assms(1), of "CHR ''h''" 3600 None "b @ ''m'' @ c @ ''s''" 0 False]
    by (simp add: unit_seconds_def not_digit_letter)
  also have "\<dots> = scan_units (c @ ''s'') (h * 3600 + m * 60) [] (Some 60) True"
    using scan_unit [OF assms(2), of "CHR ''m''" 60 "Some 3600" "c @ ''s''" "h * 3600" True]
    by (simp add: unit_seconds_def not_digit_letter)
  also have "\<dots> = bounded (h * 3600 + m * 60 + s)"
    using scan_unit [OF assms(3), of "CHR ''s''" 1 "Some 60" "[]" "h * 3600 + m * 60" True]
    by (simp add: unit_seconds_def not_digit_letter)
  finally show ?thesis .
qed

lemma parse_plain: "numeral_for n t \<Longrightarrow> parseDurationToSeconds t = bounded n"
proof -
  assume a: "numeral_for n t"
  then have "t \<noteq> []" "list_all is_digit t" "number_of t = n" by (auto simp: numeral_for_def)
  moreover from this have "is_digit (hd t)" "is_digit (last t)" by (auto simp: list_all_iff)
  moreover from this \<open>t \<noteq> []\<close> have "trim t = t" by (intro trim_id) (auto dest: digit_not_space)
  ultimately show ?thesis by (simp add: parseDurationToSeconds_def Let_def)
qed

lemma hms_parts:
  assumes "0 \<le> s" "s \<le> (86400 :: int)"
  shows "floor_quotient s 3600 = s div 3600" "floor_quotient (s mod 3600) 60 = s mod 3600 div 60"
    "s div 3600 \<le> 24" "0 \<le> s div 3600" "s mod 3600 div 60 \<le> 59" "0 \<le> s mod 3600 div 60"
    "0 \<le> s mod 60" "s mod 60 \<le> 59" "s div 3600 * 3600 + s mod 3600 div 60 * 60 + s mod 60 = s"
proof -
  have m: "0 \<le> s mod 3600" "s mod 3600 < 3600" by simp_all
  show "floor_quotient s 3600 = s div 3600" by (rule floor_quotient_div) (use assms in auto)
  show "floor_quotient (s mod 3600) 60 = s mod 3600 div 60"
    by (rule floor_quotient_div) (use m in auto)
  have d: "s div 3600 * 3600 + s mod 3600 = s" by (rule div_mult_mod_eq)
  have e: "s mod 3600 div 60 * 60 + s mod 3600 mod 60 = s mod 3600" by (rule div_mult_mod_eq)
  have f: "s mod 3600 mod 60 = s mod 60" by (simp add: mod_mod_cancel)
  show "s div 3600 \<le> 24" "0 \<le> s div 3600" using assms m d by linarith+
  show g: "0 \<le> s mod 60" "s mod 60 \<le> 59" by simp_all
  show "s mod 3600 div 60 \<le> 59" "0 \<le> s mod 3600 div 60" using e f g m by linarith+
  show "s div 3600 * 3600 + s mod 3600 div 60 * 60 + s mod 60 = s" using d e f by linarith
qed

section \<open>Round trips\<close>

lemma length_pad: "length t \<le> 2 \<Longrightarrow> length (pad_start 2 t) \<le> 3"
  by (simp add: pad_start_def)

text \<open>What the player's clock shows reads back: every offset of a VOD is formatted, and parsing the
  formatted text gives the offset again.\<close>

theorem vod_offset_roundtrip:
  assumes "0 \<le> s" "s \<le> MAX_VOD_OFFSET_SECONDS"
  shows "\<exists>t. formatVodOffset (int_num s) = Inr t \<and> parseDurationToSeconds t = Some s"
proof -
  have s: "s \<le> 86400" using assms(2) by (simp add: MAX_VOD_OFFSET_SECONDS_def)
  let ?h = "s div 3600" and ?m = "s mod 3600 div 60" and ?s = "s mod 60"
  note p = hms_parts [OF assms(1) s]
  have b: "bounded s = Some s" using assms by (simp add: bounded_def)
  have n: "numeral_for ?h (string_of_int ?h)" "numeral_for ?m (string_of_int ?m)" "numeral_for ?s (string_of_int ?s)"
    "length (string_of_int ?h) \<le> 2" "length (string_of_int ?m) \<le> 2" "length (string_of_int ?s) \<le> 2"
    by (fact numeral_string_of_int [OF p(4)] numeral_string_of_int [OF p(6)] numeral_string_of_int [OF p(7)]
        length_two [OF p(4,3), simplified] length_two [OF p(6,5), simplified] length_two [OF p(7,8), simplified])+
  have "\<not> (\<not> is_integer (int_num s) \<or> js_less (int_num s) (int_num 0))" using assms(1) by simp
  then have f: "formatVodOffset (int_num s) =
      Inr (if 0 < ?h then string_of_int ?h @ '':'' @ pad_start 2 (string_of_int ?m) @ '':''
             @ pad_start 2 (string_of_int ?s)
           else string_of_int ?m @ '':'' @ pad_start 2 (string_of_int ?s))"
    by (simp only: formatVodOffset_def Let_def to_int_int_num p(1,2) if_False)
  show ?thesis
  proof (cases "?h > 0")
    case True
    have "parseDurationToSeconds (string_of_int ?h @ '':'' @ pad_start 2 (string_of_int ?m) @ '':''
        @ pad_start 2 (string_of_int ?s)) = bounded (?h * 3600 + ?m * 60 + ?s)"
      by (rule parse_clock_3 [OF n(1) numeral_pad [OF n(2)] numeral_pad [OF n(3)] le_trans [OF n(4)]
            length_pad [OF n(5)] length_pad [OF n(6)] p(5) p(8)]) simp
    also have "\<dots> = Some s" by (simp only: p(9) b)
    finally show ?thesis unfolding f if_P [OF True] by blast
  next
    case False
    then have "?h = 0" using p(4) by (simp only: not_less order_antisym)
    moreover have "parseDurationToSeconds (string_of_int ?m @ '':'' @ pad_start 2 (string_of_int ?s))
        = bounded (?m * 60 + ?s)"
      by (rule parse_clock_2 [OF n(2) numeral_pad [OF n(3)] le_trans [OF n(5)] length_pad [OF n(6)] p(5) p(8)]) simp
    moreover have "?m * 60 + ?s = s" using p(9) unfolding \<open>?h = 0\<close> mult_zero_left add_0 .
    ultimately have "parseDurationToSeconds (string_of_int ?m @ '':'' @ pad_start 2 (string_of_int ?s)) = Some s"
      by (simp only: b)
    then show ?thesis unfolding f if_not_P [OF False] by blast
  qed
qed

lemma vod_offset_roundtrip_witness: "\<exists>t. formatVodOffset (int_num 3723) = Inr t \<and> parseDurationToSeconds t = Some 3723"
  by (rule vod_offset_roundtrip) (simp_all add: MAX_VOD_OFFSET_SECONDS_def)

lemma map_of_set_param: "map_of (set_param k v ps) k = Some v"
  by (induction ps) auto

text \<open>A link pointed at a moment is an https link from which the same moment is read back, on the
  platforms that want \<open>1h02m03s\<close> and on the ones that want seconds, given that the platform parses
  back the URL it printed.\<close>

theorem vod_link_roundtrip:
  assumes "\<forall>u. l = href u \<longrightarrow> parse_url l = Some u"
    "withVodOffset parse_url href link seconds = Inr l"
  shows "\<exists>s. seconds = int_num s \<and> 0 \<le> s \<and> s \<le> MAX_VOD_OFFSET_SECONDS
     \<and> isUsableVodUrl parse_url l \<and> parseVodOffset parse_url l = Some s"
proof -
  obtain u s where u: "parse_url link = Some u" "urlProtocol u = ''https:''" "seconds = int_num s"
    "bounded s \<noteq> None"
    using assms(2) by (auto simp: withVodOffset_def is_integer_iff split: option.splits if_splits)
  then have s: "0 \<le> s" "s \<le> MAX_VOD_OFFSET_SECONDS" "bounded s = Some s"
    by (auto simp: bounded_def split: if_splits)
  then have le: "s \<le> 86400" by (simp add: MAX_VOD_OFFSET_SECONDS_def)
  let ?u1 = "u\<lparr>urlQuery := set_param ''t'' (vod_t u s) (urlQuery u)\<rparr>"
  let ?u2 = "if starts_with ''#t='' (urlHash u) then ?u1\<lparr>urlHash := []\<rparr> else ?u1"
  have "l = href ?u2" using assms(2) u by (simp add: withVodOffset_def Let_def)
  moreover have q: "urlProtocol ?u2 = ''https:''" "map_of (urlQuery ?u2) ''t'' = Some (vod_t u s)"
    using u(2) by (simp_all add: map_of_set_param)
  ultimately have l: "parse_url l = Some ?u2" using assms(1) by blast
  note p = hms_parts [OF s(1) le]
  have "parseDurationToSeconds (vod_t u s) = Some s"
  proof (cases "isHost u ''twitch.tv''")
    case True
    have "parseDurationToSeconds (string_of_int (s div 3600) @ ''h''
        @ pad_start 2 (string_of_int (s mod 3600 div 60)) @ ''m'' @ pad_start 2 (string_of_int (s mod 60)) @ ''s'')
      = bounded (s div 3600 * 3600 + s mod 3600 div 60 * 60 + s mod 60)"
      by (rule parse_units_3) (use p(4,6,7) in \<open>simp_all add: numeral_string_of_int numeral_pad\<close>)
    also have "\<dots> = Some s" by (simp only: p(9) s(3))
    finally show ?thesis using True p(1,2) by (simp add: vod_t_def)
  next
    case False
    then show ?thesis using parse_plain [OF numeral_string_of_int [OF s(1)]] s(3) by (simp add: vod_t_def)
  qed
  then have "parseVodOffset parse_url l = Some s"
    using l q(2) by (simp add: parseVodOffset_def)
  moreover have "isUsableVodUrl parse_url l" using l q(1) by (simp add: isUsableVodUrl_def)
  ultimately show ?thesis using u(3) s by blast
qed

definition demo_url :: url where
  "demo_url = \<lparr>urlProtocol = ''https:'', urlHostname = ''www.twitch.tv'', urlHash = ''#t=5'', urlQuery = [(''t'', ''5'')]\<rparr>"

definition demo_pointed :: url where
  "demo_pointed = demo_url\<lparr>urlQuery := [(''t'', ''1h02m03s'')], urlHash := []\<rparr>"

definition demo_parse_url :: "string \<Rightarrow> url option" where
  "demo_parse_url l = (if l = ''in'' then Some demo_url else if l = ''out'' then Some demo_pointed else None)"

definition demo_href :: "url \<Rightarrow> string" where
  "demo_href u = (if u = demo_pointed then ''out'' else ''other'')"

lemma vod_link_roundtrip_witness:
  "withVodOffset demo_parse_url demo_href ''in'' (int_num 3723) = Inr ''out''
   \<and> isUsableVodUrl demo_parse_url ''out'' \<and> parseVodOffset demo_parse_url ''out'' = Some 3723"
proof -
  have o: "withVodOffset demo_parse_url demo_href ''in'' (int_num 3723) = Inr ''out''" by code_simp
  have "\<forall>u. ''out'' = demo_href u \<longrightarrow> demo_parse_url ''out'' = Some u"
    by (simp add: demo_href_def demo_parse_url_def)
  from vod_link_roundtrip [OF this o] o show ?thesis by auto
qed

text \<open>The comment in \<open>parseClock\<close> says the leading field may exceed 59 and \<open>90:00\<close> is ninety minutes; the
  two-field form is read as zero hours, so its minutes are refused above 59.\<close>

lemma ninety_minutes_refused:
  "parseDurationToSeconds ''90:00'' = None \<and> parseDurationToSeconds ''59:00'' = Some 3540
   \<and> parseDurationToSeconds ''90:00:00'' = None \<and> parseDurationToSeconds ''90m'' = Some 5400"
  by code_simp

end
