(* ===== verification/JsDate.thy ===== *)
theory JsDate
  imports Prelude
begin

text \<open>
  Instants as the language prints and parses them: \<open>toISOString\<close>, and the dates of the form
  year-month-day that the schemas accept, in the proleptic Gregorian calendar.
\<close>

section \<open>Printing an instant\<close>

definition pad :: "nat \<Rightarrow> string \<Rightarrow> string" where
  "pad n s = replicate (n - length s) (CHR ''0'') @ s"

text \<open>Year, month and day of a day counted from 1970-01-01, in the proleptic Gregorian calendar.\<close>

definition civil :: "int \<Rightarrow> int \<times> int \<times> int" where
  "civil days =
     (let z = days + 719468; era = z div 146097; doe = z mod 146097;
          yoe = (doe - doe div 1460 + doe div 36524 - doe div 146096) div 365;
          doy = doe - (365 * yoe + yoe div 4 - yoe div 100);
          mp = (5 * doy + 2) div 153;
          d = doy - (153 * mp + 2) div 5 + 1;
          m = (if mp < 10 then mp + 3 else mp - 9)
      in (yoe + era * 400 + (if m \<le> 2 then 1 else 0), m, d))"

definition toISOString :: "int \<Rightarrow> string" where
  "toISOString ms =
     (let (y, m, d) = civil (ms div 86400000); t = ms mod 86400000;
          two = (\<lambda>n. pad 2 (string_of_int n))
      in (if 0 \<le> y \<and> y \<le> 9999 then pad 4 (string_of_int y)
          else (if y < 0 then ''-'' else ''+'') @ pad 6 (string_of_int \<bar>y\<bar>))
         @ ''-'' @ two m @ ''-'' @ two d @ ''T'' @ two (t div 3600000) @ '':''
         @ two (t div 60000 mod 60) @ '':'' @ two (t div 1000 mod 60) @ ''.''
         @ pad 3 (string_of_int (t mod 1000)) @ ''Z'')"

section \<open>The day of a date\<close>

definition leap_year :: "int \<Rightarrow> bool" where
  "leap_year y \<longleftrightarrow> y mod 4 = 0 \<and> (y mod 100 \<noteq> 0 \<or> y mod 400 = 0)"

definition days_in_month :: "int \<Rightarrow> int \<Rightarrow> int" where
  "days_in_month y m =
     (if m = 2 then (if leap_year y then 29 else 28) else if m \<in> {4, 6, 9, 11} then 30 else 31)"

text \<open>The day counted from 1970-01-01 that a year, month and day name.\<close>

definition day_number :: "int \<Rightarrow> int \<Rightarrow> int \<Rightarrow> int" where
  "day_number y m d =
     (let y' = (if m \<le> 2 then y - 1 else y); era = y' div 400; yoe = y' mod 400;
          mp = (m + 9) mod 12; doy = (153 * mp + 2) div 5 + d - 1;
          doe = yoe * 365 + yoe div 4 - yoe div 100 + doy
      in era * 146097 + doe - 719468)"

end
