(* ===== verification/BreakStore.thy ===== *)
theory BreakStore
  imports BreakDb Crypto Vod JsDate "HOL-Library.Char_ord" "HOL-Library.List_Lexorder"
begin

text \<open>
  The break queries (\<open>packages/db/src/queries/breaks.ts\<close> and \<open>packages/db/src/queries/fairness.ts\<close>):
  a break's life, its pull log, the VOD evidence, overlay tokens, and the commit and reveal of its
  shuffle. Each function is one transaction (the reveal is three, run one after the other); an
  error leaves the store as it was. Clocks, drawn identifiers and random bytes are arguments.
  \<open>parse_url\<close> and \<open>href\<close> are the platform's URL parser and printer (theory \<open>Vod\<close>), \<open>gcm_seal\<close> and
  \<open>gcm_open\<close> its cipher (theory \<open>Crypto\<close>).
\<close>

section \<open>Errors and inputs\<close>

definition MAX_BREAKS_PER_CREATOR :: nat where "MAX_BREAKS_PER_CREATOR = 200"
definition MAX_PULLS_PER_BREAK :: nat where "MAX_PULLS_PER_BREAK = 2000"
definition MAX_PACKS_PER_BREAK :: int where "MAX_PACKS_PER_BREAK = 5000"
definition INDEX_FILL_MAX_AGE_DAYS :: int where "INDEX_FILL_MAX_AGE_DAYS = 30"

datatype break_error =
    BreakNotFound | BreakNotLive | BadTransition BreakStatus BreakStatus
  | BadPackCount | BadOffset | OffsetTooLarge | VodNotHttps | PullNotFound
  | BreakLimit | PullLimit | PackLimit
  | MissingProduct | MissingCard
  | BreakDbError db_error

record CreateBreakInput =
  cbTitle :: string
  cbSealedProductId :: "string option"
  cbCostCents :: "int option"
  cbOverlayTokenHash :: string

record LogPullInput =
  lpCardVariantId :: "string option"
  lpLabel :: "string option"
  lpValueCentsAtPull :: "int option"

section \<open>A break's life\<close>

definition createBreak ::
  "string \<Rightarrow> CreateBreakInput \<Rightarrow> string \<Rightarrow> int \<Rightarrow> break_db \<Rightarrow> break_error + Break \<times> break_db" where
  "createBreak creatorId input newId now db =
     (let n = length (filter (\<lambda>b. bCreatorId b = creatorId) (breakRows db));
          row = \<lparr>bId = newId, bCreatorId = creatorId, bTitle = cbTitle input,
                 bSealedProductId = cbSealedProductId input, bCostCents = cbCostCents input,
                 bPacksOpened = None, bVodUrl = None, bStatus = BreakDraft,
                 bOverlayTokenHash = cbOverlayTokenHash input, bOverlayTokenVersion = 1,
                 bStartedAt = None, bEndedAt = None, bCreatedAt = now, bUpdatedAt = now\<rparr>
      in if n \<ge> MAX_BREAKS_PER_CREATOR then Inl BreakLimit
         else case insert_break creatorId row db of
           Inl e \<Rightarrow> Inl (if isForeignKeyViolation e then MissingProduct else BreakDbError e)
         | Inr db' \<Rightarrow> Inr (row, db'))"

definition listBreaks :: "string \<Rightarrow> break_db \<Rightarrow> Break list" where
  "listBreaks creatorId db =
     sort_key (\<lambda>b. - bCreatedAt b) (filter (\<lambda>b. bCreatorId b = creatorId) (breakRows db))"

definition getBreakForCreator :: "string \<Rightarrow> string \<Rightarrow> break_db \<Rightarrow> Break option" where
  "getBreakForCreator creatorId breakId db = select_own_break creatorId breakId db"

text \<open>The end of every statement that updates one break of its creator.\<close>

definition updated_break :: "db_error + Break option \<times> break_db \<Rightarrow> break_error + Break \<times> break_db" where
  "updated_break r =
     (case r of
        Inl e \<Rightarrow> Inl (BreakDbError e)
      | Inr (None, _) \<Rightarrow> Inl BreakNotFound
      | Inr (Some b, db) \<Rightarrow> Inr (b, db))"

definition status_set :: "BreakStatus \<Rightarrow> int \<Rightarrow> Break \<Rightarrow> Break" where
  "status_set nxt now b =
     (if nxt = Live then b\<lparr>bStatus := Live, bStartedAt := Some now, bUpdatedAt := now\<rparr>
      else b\<lparr>bStatus := Ended, bEndedAt := Some now, bUpdatedAt := now\<rparr>)"

definition setBreakStatus ::
  "string \<Rightarrow> string \<Rightarrow> BreakStatus \<Rightarrow> int \<Rightarrow> break_db \<Rightarrow> break_error + Break \<times> break_db" where
  "setBreakStatus creatorId breakId nxt now db =
     (case select_own_break creatorId breakId db of
        None \<Rightarrow> Inl BreakNotFound
      | Some current \<Rightarrow>
        let allowed = (if nxt = Live then bStatus current = BreakDraft else bStatus current = Live)
        in if \<not> allowed then Inl (BadTransition (bStatus current) nxt)
           else updated_break (update_break creatorId breakId (status_set nxt now) db))"

definition setPacksOpened ::
  "string \<Rightarrow> string \<Rightarrow> jsnum option \<Rightarrow> int \<Rightarrow> break_db \<Rightarrow> break_error + Break \<times> break_db" where
  "setPacksOpened creatorId breakId packsOpened now db =
     (case packsOpened of
        None \<Rightarrow>
          updated_break (update_break creatorId breakId
            (\<lambda>b. b\<lparr>bPacksOpened := None, bUpdatedAt := now\<rparr>) db)
      | Some n \<Rightarrow>
          if \<not> is_integer n \<or> js_less n (int_num 1) then Inl BadPackCount
          else if js_less (int_num MAX_PACKS_PER_BREAK) n then Inl PackLimit
          else updated_break (update_break creatorId breakId
            (\<lambda>b. b\<lparr>bPacksOpened := Some (to_int n), bUpdatedAt := now\<rparr>) db))"

definition rotateOverlayToken ::
  "string \<Rightarrow> string \<Rightarrow> string \<Rightarrow> int \<Rightarrow> break_db \<Rightarrow> break_error + Break \<times> break_db" where
  "rotateOverlayToken creatorId breakId newHash now db =
     updated_break (update_break creatorId breakId
       (\<lambda>b. b\<lparr>bOverlayTokenHash := newHash, bOverlayTokenVersion := bOverlayTokenVersion b + 1,
              bUpdatedAt := now\<rparr>) db)"

definition setBreakVodUrl ::
  "(string \<Rightarrow> url option) \<Rightarrow> string \<Rightarrow> string \<Rightarrow> string option \<Rightarrow> int \<Rightarrow> break_db
     \<Rightarrow> break_error + Break \<times> break_db" where
  "setBreakVodUrl parse_url creatorId breakId vodUrl now db =
     (if vodUrl \<noteq> None \<and> \<not> isUsableVodUrl parse_url (the vodUrl) then Inl VodNotHttps
      else updated_break (update_break creatorId breakId
        (\<lambda>b. b\<lparr>bVodUrl := vodUrl, bUpdatedAt := now\<rparr>) db))"

section \<open>The pull log\<close>

definition latestIndexValue :: "string \<Rightarrow> int \<Rightarrow> break_db \<Rightarrow> int option" where
  "latestIndexValue cardVariantId today db =
     (case sort_key (\<lambda>r. - ixDay r)
             (filter (\<lambda>r. ixVariantId r = cardVariantId \<and> ixCondition r = NM
                \<and> ixCurrency r = ''USD'' \<and> ixDay r \<ge> today - INDEX_FILL_MAX_AGE_DAYS) (indexDaily db)) of
        [] \<Rightarrow> None
      | r # _ \<Rightarrow> Some (ixMedianCents r))"

definition source_name :: "PullValueSource \<Rightarrow> string" where
  "source_name s = (case s of Manual \<Rightarrow> ''manual'' | FromIndex \<Rightarrow> ''index'')"

text \<open>The value to record and where it came from.\<close>

definition pull_value :: "LogPullInput \<Rightarrow> int \<Rightarrow> break_db \<Rightarrow> int \<times> PullValueSource" where
  "pull_value input today db =
     (case lpValueCentsAtPull input of
        Some v \<Rightarrow> (v, Manual)
      | None \<Rightarrow>
          (case lpCardVariantId input of
             None \<Rightarrow> (0, Manual)
           | Some c \<Rightarrow>
               if c = [] then (0, Manual)
               else ((case latestIndexValue c today db of None \<Rightarrow> 0 | Some m \<Rightarrow> m), FromIndex)))"

text \<open>The row after \<open>last_row\<close> in a break's log.\<close>

definition next_pull ::
  "string \<Rightarrow> LogPullInput \<Rightarrow> int \<times> PullValueSource \<Rightarrow> string \<Rightarrow> int \<Rightarrow> BreakPull option \<Rightarrow> BreakPull" where
  "next_pull breakId input val newId now last_row =
     (let sq = (case last_row of None \<Rightarrow> 0 | Some r \<Rightarrow> plSeq r) + 1;
          prevHash = (case last_row of None \<Rightarrow> GENESIS_HASH
             | Some r \<Rightarrow> (case plRowHash r of None \<Rightarrow> GENESIS_HASH | Some h \<Rightarrow> h));
          rowHash = hashPull prevHash
             \<lparr>cpSeq = sq, cpCardVariantId = lpCardVariantId input, cpLabel = lpLabel input,
              cpValueCents = fst val, cpValueSource = source_name (snd val),
              cpPulledAt = toISOString now\<rparr>
      in \<lparr>plId = newId, plBreakId = breakId, plCardVariantId = lpCardVariantId input,
          plLabel = lpLabel input, plValueCents = fst val, plValueSource = snd val,
          plPrevHash = Some prevHash, plRowHash = Some rowHash, plSeq = sq, plPulledAt = now\<rparr>)"

definition last_pull :: "BreakPull list \<Rightarrow> BreakPull option" where
  "last_pull ps = (if ps = [] then None else Some (last ps))"

definition logPull ::
  "string \<Rightarrow> string \<Rightarrow> LogPullInput \<Rightarrow> string \<Rightarrow> int \<Rightarrow> int \<Rightarrow> break_db
     \<Rightarrow> break_error + BreakPull \<times> break_db" where
  "logPull creatorId breakId input newId now today db =
     (case select_own_break creatorId breakId db of
        None \<Rightarrow> Inl BreakNotFound
      | Some owned \<Rightarrow>
        if bStatus owned \<noteq> Live then Inl BreakNotLive
        else
          let log = select_pulls (Person creatorId) breakId db
          in if length log \<ge> MAX_PULLS_PER_BREAK then Inl PullLimit
             else
               let row = next_pull breakId input (pull_value input today db) newId now (last_pull log)
               in case insert_pull creatorId row db of
                    Inl e \<Rightarrow> Inl (if isForeignKeyViolation e then MissingCard else BreakDbError e)
                  | Inr db' \<Rightarrow> Inr (row, db'))"

section \<open>Evidence\<close>

record PullEvidenceInput =
  eiOffsetSeconds :: jsnum
  eiVodUrl :: "string option"

definition setPullEvidence ::
  "(string \<Rightarrow> url option) \<Rightarrow> string \<Rightarrow> string \<Rightarrow> PullEvidenceInput \<Rightarrow> string \<Rightarrow> int \<Rightarrow> break_db
     \<Rightarrow> break_error + break_db" where
  "setPullEvidence parse_url creatorId breakPullId input newId now db =
     (if \<not> is_integer (eiOffsetSeconds input) \<or> js_less (eiOffsetSeconds input) (int_num 0)
      then Inl BadOffset
      else if js_less (int_num MAX_VOD_OFFSET_SECONDS) (eiOffsetSeconds input) then Inl OffsetTooLarge
      else if eiVodUrl input \<noteq> None \<and> \<not> isUsableVodUrl parse_url (the (eiVodUrl input))
      then Inl VodNotHttps
      else case upsert_evidence creatorId
             \<lparr>peId = newId, pePullId = breakPullId, peOffsetSeconds = to_int (eiOffsetSeconds input),
              peVodUrl = eiVodUrl input, peUpdatedAt = now\<rparr> db of
        Inl e \<Rightarrow> Inl (if e = RowSecurity then PullNotFound else BreakDbError e)
      | Inr db' \<Rightarrow> Inr db')"

definition clearPullEvidence :: "string \<Rightarrow> string \<Rightarrow> break_db \<Rightarrow> bool \<times> break_db" where
  "clearPullEvidence creatorId breakPullId db =
     (let gone = (\<lambda>e. pePullId e = breakPullId \<and> evidence_owned creatorId db (pePullId e))
      in (list_ex gone (evidenceRows db),
          db\<lparr>evidenceRows := filter (\<lambda>e. \<not> gone e) (evidenceRows db)\<rparr>))"

section \<open>Reads\<close>

record PublicPull =
  ppSeq :: int
  ppLabel :: string
  ppValueCentsAtPull :: int
  ppValueSource :: PullValueSource
  ppPulledAt :: int
  ppVodUrl :: "string option"
  ppVodOffsetSeconds :: "int option"

definition vodLinkFor ::
  "(string \<Rightarrow> url option) \<Rightarrow> (url \<Rightarrow> string) \<Rightarrow> string option \<Rightarrow> int option \<Rightarrow> string option \<times> int option" where
  "vodLinkFor parse_url href baseUrl offsetSeconds =
     (case (baseUrl, offsetSeconds) of
        (Some base, Some off) \<Rightarrow>
          (case withVodOffset parse_url href base (int_num off) of
             Inl e \<Rightarrow> (None, None)
           | Inr l \<Rightarrow> (Some l, Some off))
      | _ \<Rightarrow> (None, None))"

definition pull_label :: "break_db \<Rightarrow> BreakPull \<Rightarrow> string" where
  "pull_label db p =
     (let variant = (case plCardVariantId p of None \<Rightarrow> None | Some c \<Rightarrow> find_row cvId c (variants db))
      in case variant of
           Some v \<Rightarrow>
             if cvCardName v \<noteq> [] then
               cvCardName v @ (if cvFinish v = ''normal'' then [] else '' ('' @ cvFinish v @ '')'')
             else (case plLabel p of None \<Rightarrow> ''Unknown card'' | Some l \<Rightarrow> l)
         | None \<Rightarrow> (case plLabel p of None \<Rightarrow> ''Unknown card'' | Some l \<Rightarrow> l))"

definition listPulls ::
  "(string \<Rightarrow> url option) \<Rightarrow> (url \<Rightarrow> string) \<Rightarrow> viewer \<Rightarrow> string \<Rightarrow> break_db \<Rightarrow> PublicPull list" where
  "listPulls parse_url href v breakId db =
     map (\<lambda>p.
       let ev = find_row pePullId (plId p) (evidenceRows db);
           breakVod = (case find_row bId breakId (breakRows db) of None \<Rightarrow> None | Some b \<Rightarrow> bVodUrl b);
           base = (case ev of None \<Rightarrow> breakVod
                   | Some e \<Rightarrow> (case peVodUrl e of None \<Rightarrow> breakVod | Some l \<Rightarrow> Some l));
           link = vodLinkFor parse_url href base (map_option peOffsetSeconds ev)
       in \<lparr>ppSeq = plSeq p, ppLabel = pull_label db p, ppValueCentsAtPull = plValueCents p,
           ppValueSource = plValueSource p, ppPulledAt = plPulledAt p,
           ppVodUrl = fst link, ppVodOffsetSeconds = snd link\<rparr>)
       (select_pulls v breakId db)"

text \<open>The raw row a viewer hashes.\<close>

definition verifiable :: "BreakPull \<Rightarrow> ChainedPull \<times> string option \<times> string option" where
  "verifiable p =
     (\<lparr>cpSeq = plSeq p, cpCardVariantId = plCardVariantId p, cpLabel = plLabel p,
       cpValueCents = plValueCents p, cpValueSource = source_name (plValueSource p),
       cpPulledAt = toISOString (plPulledAt p)\<rparr>, plPrevHash p, plRowHash p)"

definition listVerifiablePulls ::
  "viewer \<Rightarrow> string \<Rightarrow> break_db \<Rightarrow> (ChainedPull \<times> string option \<times> string option) list" where
  "listVerifiablePulls v breakId db = map verifiable (select_pulls v breakId db)"

record PublicBreak =
  pbId :: string
  pbTitle :: string
  pbStatus :: BreakStatus
  pbCostCents :: "int option"
  pbProductName :: "string option"
  pbStartedAt :: "int option"
  pbEndedAt :: "int option"
  pbPulls :: "PublicPull list"
  pbTotalCents :: int
  pbVerification :: "(ChainedPull \<times> string option \<times> string option) list"

definition getPublicBreak ::
  "(string \<Rightarrow> url option) \<Rightarrow> (url \<Rightarrow> string) \<Rightarrow> viewer \<Rightarrow> string \<Rightarrow> break_db \<Rightarrow> PublicBreak option" where
  "getPublicBreak parse_url href v breakId db =
     (case find_row bId breakId (breakRows db) of
        None \<Rightarrow> None
      | Some b \<Rightarrow>
        if \<not> break_visible v b \<or> bStatus b = BreakDraft then None
        else
          let pulls = listPulls parse_url href v breakId db
          in Some \<lparr>pbId = bId b, pbTitle = bTitle b, pbStatus = bStatus b, pbCostCents = bCostCents b,
               pbProductName = (case bSealedProductId b of None \<Rightarrow> None | Some p \<Rightarrow> map_of (products db) p),
               pbStartedAt = bStartedAt b, pbEndedAt = bEndedAt b, pbPulls = pulls,
               pbTotalCents = sum_list (map ppValueCentsAtPull pulls),
               pbVerification = listVerifiablePulls v breakId db\<rparr>)"

definition findBreakByOverlayToken :: "string \<Rightarrow> break_db \<Rightarrow> (string \<times> BreakStatus) option" where
  "findBreakByOverlayToken tokenHash db =
     map_option (\<lambda>b. (bId b, bStatus b))
       (find (\<lambda>b. bOverlayTokenHash b = tokenHash \<and> break_visible (Overlay tokenHash) b) (breakRows db))"

record OverlayState =
  osId :: string
  osTitle :: string
  osCostCents :: "int option"
  osPulls :: "PublicPull list"
  osTotalCents :: int

definition getOverlayState ::
  "(string \<Rightarrow> url option) \<Rightarrow> (url \<Rightarrow> string) \<Rightarrow> string \<Rightarrow> break_db \<Rightarrow> OverlayState option" where
  "getOverlayState parse_url href tokenHash db =
     (case find (\<lambda>b. bOverlayTokenHash b = tokenHash \<and> break_visible (Overlay tokenHash) b) (breakRows db) of
        None \<Rightarrow> None
      | Some b \<Rightarrow>
        let pulls = listPulls parse_url href (Overlay tokenHash) (bId b) db
        in Some \<lparr>osId = bId b, osTitle = bTitle b, osCostCents = bCostCents b, osPulls = pulls,
             osTotalCents = sum_list (map ppValueCentsAtPull pulls)\<rparr>)"

end
