(* ===== verification/CommitReveal.thy ===== *)
theory CommitReveal
  imports BreakStore
begin

text \<open>
  Commit and reveal (\<open>packages/db/src/queries/fairness.ts\<close>): committing to a server seed before a
  break, recording the audience's seed, revealing and deriving the order, and re-checking the
  chains of pull logs. The reveal's three transactions run one after the other on one store.
\<close>

datatype commitment_error =
    CommitBreakNotFound | CommitTooLate | AlreadyCommitted
  | BadClientSeed | NoOpenCommitment
  | RevealTooEarly | NotCommitted | ClientSeedMissing
  | TokenFailed range_error | FieldFailed field_error | ShuffleFailed shuffle_error
  | CommitDbError db_error

text \<open>What anyone may see: every column but the encrypted seed.\<close>

record PublicCommitment =
  pcCommitment :: string
  pcClientSeed :: "string option"
  pcRevealedSeed :: "string option"
  pcSlotCount :: int
  pcAlgorithmVersion :: string
  pcCommittedAt :: int
  pcRevealedAt :: "int option"

definition publicColumns :: "Commitment \<Rightarrow> PublicCommitment" where
  "publicColumns c =
     \<lparr>pcCommitment = cmCommitment c, pcClientSeed = cmClientSeed c, pcRevealedSeed = cmRevealedSeed c,
      pcSlotCount = cmSlotCount c, pcAlgorithmVersion = cmAlgorithm c,
      pcCommittedAt = cmCommittedAt c, pcRevealedAt = cmRevealedAt c\<rparr>"

definition commitBreak ::
  "(bytes \<Rightarrow> bytes \<Rightarrow> string \<Rightarrow> bytes \<times> bytes) \<Rightarrow> string \<Rightarrow> string \<Rightarrow> int \<Rightarrow> KeyRing
     \<Rightarrow> bytes \<Rightarrow> bytes \<Rightarrow> string \<Rightarrow> int \<Rightarrow> break_db \<Rightarrow> commitment_error + PublicCommitment \<times> break_db" where
  "commitBreak gcm_seal creatorId breakId slotCount keyRing random iv newId now db =
     (case generateToken 32 random of
        Inl e \<Rightarrow> Inl (TokenFailed e)
      | Inr serverSeed \<Rightarrow>
        (case select_own_break creatorId breakId db of
           None \<Rightarrow> Inl CommitBreakNotFound
         | Some owned \<Rightarrow>
           if bStatus owned \<noteq> BreakDraft then Inl CommitTooLate
           else case encryptField gcm_seal keyRing iv serverSeed of
             Inl e \<Rightarrow> Inl (FieldFailed e)
           | Inr encrypted \<Rightarrow>
             case insert_commitment creatorId
                    \<lparr>cmId = newId, cmBreakId = breakId, cmCommitment = commitmentFor serverSeed,
                     cmSeedEncrypted = encrypted, cmClientSeed = None, cmRevealedSeed = None,
                     cmSlotCount = slotCount, cmAlgorithm = SHUFFLE_ALGORITHM,
                     cmCommittedAt = now, cmRevealedAt = None\<rparr> db of
               Inl e \<Rightarrow> Inl (CommitDbError e)
             | Inr (None, _) \<Rightarrow> Inl AlreadyCommitted
             | Inr (Some row, db') \<Rightarrow> Inr (publicColumns row, db')))"

definition setClientSeed ::
  "string \<Rightarrow> string \<Rightarrow> string \<Rightarrow> break_db \<Rightarrow> commitment_error + PublicCommitment \<times> break_db" where
  "setClientSeed creatorId breakId clientSeed db =
     (let trimmed = trim clientSeed
      in if length trimmed = 0 \<or> length trimmed > 200 then Inl BadClientSeed
         else case update_commitment creatorId breakId (\<lambda>c. cmClientSeed c = None)
                (\<lambda>c. c\<lparr>cmClientSeed := Some trimmed\<rparr>) db of
           Inl e \<Rightarrow> Inl (CommitDbError e)
         | Inr (None, _) \<Rightarrow> Inl NoOpenCommitment
         | Inr (Some row, db') \<Rightarrow> Inr (publicColumns row, db'))"

text \<open>The first transaction of a reveal: ownership and state, as the creator.\<close>

definition reveal_context :: "string \<Rightarrow> string \<Rightarrow> break_db \<Rightarrow> commitment_error + string \<times> int" where
  "reveal_context creatorId breakId db =
     (case select_own_break creatorId breakId db of
        None \<Rightarrow> Inl CommitBreakNotFound
      | Some owned \<Rightarrow>
        if bStatus owned \<noteq> Ended then Inl RevealTooEarly
        else case select_commitment (Person creatorId) breakId db of
          None \<Rightarrow> Inl NotCommitted
        | Some c \<Rightarrow>
            (case cmClientSeed c of
               None \<Rightarrow> Inl ClientSeedMissing
             | Some seed \<Rightarrow> Inr (seed, cmSlotCount c)))"

text \<open>The last one: write the seed unless it is written, and read the row.\<close>

definition publish_seed ::
  "string \<Rightarrow> string \<Rightarrow> string \<Rightarrow> int \<Rightarrow> break_db \<Rightarrow> commitment_error + PublicCommitment \<times> break_db" where
  "publish_seed creatorId breakId serverSeed now db =
     (case update_commitment creatorId breakId (\<lambda>c. cmRevealedSeed c = None)
             (\<lambda>c. c\<lparr>cmRevealedSeed := Some serverSeed, cmRevealedAt := Some now\<rparr>) db of
        Inl e \<Rightarrow> Inl (CommitDbError e)
      | Inr (Some row, db') \<Rightarrow> Inr (publicColumns row, db')
      | Inr (None, db') \<Rightarrow>
          (case select_commitment (Person creatorId) breakId db' of
             None \<Rightarrow> Inl NotCommitted
           | Some existing \<Rightarrow> Inr (publicColumns existing, db')))"

text \<open>\<open>None\<close> when the shuffle does not return.\<close>

definition revealBreak ::
  "(bytes \<Rightarrow> bytes \<Rightarrow> bytes \<Rightarrow> bytes \<Rightarrow> string option) \<Rightarrow> string \<Rightarrow> string \<Rightarrow> KeyRing \<Rightarrow> int \<Rightarrow> break_db
     \<Rightarrow> (commitment_error + (PublicCommitment \<times> nat list) \<times> break_db) option" where
  "revealBreak gcm_open creatorId breakId keyRing now db =
     (case reveal_context creatorId breakId db of
        Inl e \<Rightarrow> Some (Inl e)
      | Inr (clientSeed, slotCount) \<Rightarrow>
        (case find_row cmBreakId breakId (commitmentRows db) of
           None \<Rightarrow> Some (Inl NotCommitted)
         | Some secret \<Rightarrow>
           (case (case cmRevealedSeed secret of
                    Some s \<Rightarrow> Inr s
                  | None \<Rightarrow> decryptField gcm_open keyRing (cmSeedEncrypted secret)) of
              Inl e \<Rightarrow> Some (Inl (FieldFailed e))
            | Inr serverSeed \<Rightarrow>
              (case deriveShuffle serverSeed clientSeed breakId (int_num slotCount) of
                 Inl e \<Rightarrow> Some (Inl (ShuffleFailed e))
               | Inr None \<Rightarrow> None
               | Inr (Some order) \<Rightarrow>
                 (case publish_seed creatorId breakId serverSeed now db of
                    Inl e \<Rightarrow> Some (Inl e)
                  | Inr (row, db') \<Rightarrow> Some (Inr ((row, order), db')))))))"

definition getCommitment :: "viewer \<Rightarrow> string \<Rightarrow> break_db \<Rightarrow> PublicCommitment option" where
  "getCommitment v breakId db = map_option publicColumns (select_commitment v breakId db)"

section \<open>Re-checking chains\<close>

datatype ChainState = ChainValid | ChainInvalid | Unverifiable | ChainEmpty

record ChainStatus =
  csState :: ChainState
  csBrokenAtSeq :: "int option"
  csHead :: "string option"

text \<open>A row with both hashes, as the chain check takes it.\<close>

definition linked_row :: "BreakPull \<Rightarrow> linked" where
  "linked_row p =
     (fst (verifiable p),
      case plPrevHash p of None \<Rightarrow> ''null'' | Some h \<Rightarrow> h,
      case plRowHash p of None \<Rightarrow> ''null'' | Some h \<Rightarrow> h)"

definition statusOf :: "BreakPull list \<Rightarrow> ChainStatus" where
  "statusOf rows =
     (if rows = [] then \<lparr>csState = ChainEmpty, csBrokenAtSeq = None, csHead = None\<rparr>
      else if list_ex (\<lambda>r. plPrevHash r = None \<or> plRowHash r = None) rows
      then \<lparr>csState = Unverifiable, csBrokenAtSeq = None, csHead = None\<rparr>
      else
        let result = verifyChain (map linked_row rows)
        in \<lparr>csState = (if fst result then ChainValid else ChainInvalid),
            csBrokenAtSeq = snd result,
            csHead = (if fst result then plRowHash (last rows) else None)\<rparr>)"

text \<open>The rows grouped by break, in the order the breaks first appear.\<close>

fun group_rows :: "BreakPull list \<Rightarrow> (string \<times> BreakPull list) list \<Rightarrow> (string \<times> BreakPull list) list" where
  "group_rows [] grouped = grouped"
| "group_rows (r # rows) grouped =
     group_rows rows
       (case map_of grouped (plBreakId r) of
          Some bucket \<Rightarrow> map_set (plBreakId r) (bucket @ [r]) grouped
        | None \<Rightarrow> map_set (plBreakId r) [r] grouped)"

definition checkChains :: "viewer \<Rightarrow> string list \<Rightarrow> break_db \<Rightarrow> (string \<times> ChainStatus) list" where
  "checkChains v breakIds db =
     (if breakIds = [] then []
      else
        let rows = sort_key plBreakId (sort_key plSeq
              (filter (\<lambda>p. plBreakId p \<in> set breakIds \<and> pull_visible v db p) (pullRows db)))
        in map (\<lambda>(k, bucket). (k, statusOf bucket)) (group_rows rows []))"

definition checkChain :: "viewer \<Rightarrow> string \<Rightarrow> break_db \<Rightarrow> ChainStatus" where
  "checkChain v breakId db =
     (case map_of (checkChains v [breakId] db) breakId of
        None \<Rightarrow> \<lparr>csState = ChainEmpty, csBrokenAtSeq = None, csHead = None\<rparr>
      | Some s \<Rightarrow> s)"

definition chainTip :: "viewer \<Rightarrow> string \<Rightarrow> break_db \<Rightarrow> string" where
  "chainTip v breakId db =
     (case last_pull (select_pulls v breakId db) of
        None \<Rightarrow> GENESIS_HASH
      | Some r \<Rightarrow> (case plRowHash r of None \<Rightarrow> GENESIS_HASH | Some h \<Rightarrow> h))"

end
