(* ===== verification/BreakMachine.thy ===== *)
theory BreakMachine
  imports CommitReveal
begin

text \<open>
  The break store as one machine: every operation that changes it, run as a transaction, the
  invariant its runs keep and what may only grow. The parameters are the platform's URL parser and
  cipher and the server's key ring. Random bytes enter as numbers (\<open>be_bytes\<close> spells every byte
  string of the length drawn).
\<close>

section \<open>Operations\<close>

datatype break_op =
    CreateBreak string CreateBreakInput string int
  | SetBreakStatus string string BreakStatus int
  | SetPacksOpened string string "jsnum option" int
  | RotateOverlayToken string string string int
  | SetBreakVodUrl string string "string option" int
  | LogPull string string LogPullInput string int int
  | SetPullEvidence string string PullEvidenceInput string int
  | ClearPullEvidence string string
  | CommitBreak string string int nat nat string int
  | SetClientSeed string string string
  | RevealBreak string string int

definition commits :: "'e + 'a \<times> break_db \<Rightarrow> unit + break_db" where
  "commits r = (case r of Inl e \<Rightarrow> Inl () | Inr (x, db) \<Rightarrow> Inr db)"

lemma commits_Inr [simp]: "commits r = Inr db \<longleftrightarrow> (\<exists>x. r = Inr (x, db))"
  by (auto simp: commits_def split: sum.splits)

record platform =
  pfParseUrl :: "string \<Rightarrow> url option"
  pfSeal :: "bytes \<Rightarrow> bytes \<Rightarrow> string \<Rightarrow> bytes \<times> bytes"
  pfOpen :: "bytes \<Rightarrow> bytes \<Rightarrow> bytes \<Rightarrow> bytes \<Rightarrow> string option"
  pfRing :: KeyRing

definition break_step :: "platform \<Rightarrow> break_op \<Rightarrow> break_db \<Rightarrow> unit + break_db" where
  "break_step pf op db =
     (case op of
        CreateBreak u input newId now \<Rightarrow> commits (createBreak u input newId now db)
      | SetBreakStatus u k nxt now \<Rightarrow> commits (setBreakStatus u k nxt now db)
      | SetPacksOpened u k n now \<Rightarrow> commits (setPacksOpened u k n now db)
      | RotateOverlayToken u k h now \<Rightarrow> commits (rotateOverlayToken u k h now db)
      | SetBreakVodUrl u k l now \<Rightarrow> commits (setBreakVodUrl (pfParseUrl pf) u k l now db)
      | LogPull u k input newId now today \<Rightarrow> commits (logPull u k input newId now today db)
      | SetPullEvidence u p input newId now \<Rightarrow>
          (case setPullEvidence (pfParseUrl pf) u p input newId now db of
             Inl e \<Rightarrow> Inl () | Inr db' \<Rightarrow> Inr db')
      | ClearPullEvidence u p \<Rightarrow> Inr (snd (clearPullEvidence u p db))
      | CommitBreak u k n random iv newId now \<Rightarrow>
          commits (commitBreak (pfSeal pf) u k n (pfRing pf) (be_bytes 32 random) (be_bytes 12 iv) newId now db)
      | SetClientSeed u k seed \<Rightarrow> commits (setClientSeed u k seed db)
      | RevealBreak u k now \<Rightarrow>
          (case revealBreak (pfOpen pf) u k (pfRing pf) now db of
             None \<Rightarrow> Inl ()
           | Some r \<Rightarrow> commits r))"

section \<open>The invariant\<close>

text \<open>A break's log in the order it was written.\<close>

definition log_of :: "string \<Rightarrow> break_db \<Rightarrow> BreakPull list" where
  "log_of k db = filter (\<lambda>p. plBreakId p = k) (pullRows db)"

definition log_ok :: "BreakPull list \<Rightarrow> bool" where
  "log_ok rows \<longleftrightarrow>
     map plSeq rows = map int [1..<length rows + 1]
     \<and> (\<forall>p \<in> set rows. plPrevHash p \<noteq> None \<and> plRowHash p \<noteq> None \<and> plValueCents p \<ge> 0)
     \<and> verify_from GENESIS_HASH (map linked_row rows) = None"

definition find_break :: "break_db \<Rightarrow> string \<Rightarrow> Break option" where
  "find_break db k = find_row bId k (breakRows db)"

text \<open>A commitment is to the seed its ciphertext holds, and reveals that seed only after the end.\<close>

definition commitment_ok :: "platform \<Rightarrow> break_db \<Rightarrow> Commitment \<Rightarrow> bool" where
  "commitment_ok pf db c \<longleftrightarrow>
     (\<exists>s. decryptField (pfOpen pf) (pfRing pf) (cmSeedEncrypted c) = Inr s
        \<and> sha256Hex s = cmCommitment c
        \<and> (\<forall>r. cmRevealedSeed c = Some r \<longrightarrow> r = s))
     \<and> (\<exists>b. find_break db (cmBreakId c) = Some b
          \<and> (cmRevealedSeed c \<noteq> None \<longrightarrow> bStatus b = Ended \<and> cmClientSeed c \<noteq> None))
     \<and> 2 \<le> cmSlotCount c \<and> cmSlotCount c \<le> 1000"

definition platform_ok :: "platform \<Rightarrow> bool" where
  "platform_ok pf \<longleftrightarrow>
     gcm_ok (pfSeal pf) (pfOpen pf) \<and> (\<exists>parsed kid. buildKeyRing parsed kid = Inr (pfRing pf))"

definition break_inv :: "platform \<Rightarrow> break_db \<Rightarrow> bool" where
  "break_inv pf db \<longleftrightarrow>
     platform_ok pf
     \<and> distinct (map bId (breakRows db))
     \<and> distinct (map bOverlayTokenHash (breakRows db))
     \<and> (\<forall>b \<in> set (breakRows db). first_violated (break_checks b) = None)
     \<and> (\<forall>k. log_ok (log_of k db))
     \<and> (\<forall>p \<in> set (pullRows db). \<exists>b. find_break db (plBreakId p) = Some b \<and> bStatus b \<noteq> BreakDraft)
     \<and> distinct (map cmBreakId (commitmentRows db))
     \<and> (\<forall>c \<in> set (commitmentRows db). commitment_ok pf db c)"

section \<open>What only grows\<close>

fun status_rank :: "BreakStatus \<Rightarrow> nat" where
  "status_rank BreakDraft = 0"
| "status_rank Live = 1"
| "status_rank Ended = 2"

definition break_grows :: "Break \<Rightarrow> Break \<Rightarrow> bool" where
  "break_grows b b' \<longleftrightarrow>
     bId b' = bId b \<and> bCreatorId b' = bCreatorId b \<and> bTitle b' = bTitle b
     \<and> bSealedProductId b' = bSealedProductId b \<and> bCostCents b' = bCostCents b
     \<and> bCreatedAt b' = bCreatedAt b
     \<and> status_rank (bStatus b) \<le> status_rank (bStatus b')
     \<and> (bStatus b \<noteq> BreakDraft \<longrightarrow> bStartedAt b' = bStartedAt b)
     \<and> (bStatus b = Ended \<longrightarrow> bEndedAt b' = bEndedAt b)"

definition commitment_grows :: "Commitment \<Rightarrow> Commitment \<Rightarrow> bool" where
  "commitment_grows c c' \<longleftrightarrow>
     cmId c' = cmId c \<and> cmBreakId c' = cmBreakId c \<and> cmCommitment c' = cmCommitment c
     \<and> cmSeedEncrypted c' = cmSeedEncrypted c \<and> cmSlotCount c' = cmSlotCount c
     \<and> cmAlgorithm c' = cmAlgorithm c \<and> cmCommittedAt c' = cmCommittedAt c
     \<and> (cmClientSeed c \<noteq> None \<longrightarrow> cmClientSeed c' = cmClientSeed c)
     \<and> (cmRevealedSeed c \<noteq> None \<longrightarrow> cmRevealedSeed c' = cmRevealedSeed c \<and> cmRevealedAt c' = cmRevealedAt c)"

definition store_grows :: "break_db \<Rightarrow> break_db \<Rightarrow> bool" where
  "store_grows s t \<longleftrightarrow>
     (\<exists>new. pullRows t = pullRows s @ new)
     \<and> (\<forall>k b. find_break s k = Some b \<longrightarrow> (\<exists>b'. find_break t k = Some b' \<and> break_grows b b'
          \<and> (bStatus b = Ended \<longrightarrow> log_of k t = log_of k s)))
     \<and> (\<forall>k c. find_row cmBreakId k (commitmentRows s) = Some c \<longrightarrow>
          (\<exists>c'. find_row cmBreakId k (commitmentRows t) = Some c' \<and> commitment_grows c c'))"

end
