(* ===== verification/BreakInvariant.thy ===== *)
theory BreakInvariant
  imports BreakMachine
begin

text \<open>
  Every operation on breaks keeps the invariant of theory \<open>BreakMachine\<close> and only lets the store
  grow; the machine of break operations is a monotone machine.
\<close>

section \<open>What a lookup does not read\<close>

lemma find_break_other [simp]:
  "find_break (db\<lparr>commitmentRows := cs\<rparr>) = find_break db" "find_break (db\<lparr>pullRows := ps\<rparr>) = find_break db"
  "find_break (db\<lparr>evidenceRows := es\<rparr>) = find_break db"
  by (simp_all add: find_break_def fun_eq_iff)

lemma log_of_other [simp]:
  "log_of k (db\<lparr>commitmentRows := cs\<rparr>) = log_of k db" "log_of k (db\<lparr>breakRows := bs\<rparr>) = log_of k db"
  "log_of k (db\<lparr>evidenceRows := es\<rparr>) = log_of k db"
  by (simp_all add: log_of_def)

section \<open>Updates of a break\<close>

interpretation status_update: keyed_table bId "status_set nxt now" for nxt now
  by unfold_locales (simp add: status_set_def)

lemma update_break_InrD:
  assumes "update_break u k f db = Inr (Some b', db')"
  shows "\<exists>b. find_break db k = Some b \<and> bCreatorId b = u \<and> b' = f b
     \<and> first_violated (break_checks (f b)) = None
     \<and> break_unique_violation (f b) (filter (\<lambda>x. bId x \<noteq> k) (breakRows db)) = None
     \<and> db' = db\<lparr>breakRows := update_row bId k f (breakRows db)\<rparr>"
  using assms
  by (auto simp: update_break_def find_break_def break_owned_def split: option.splits if_splits)

lemma find_break_SomeD: "find_break db k = Some b \<Longrightarrow> b \<in> set (breakRows db) \<and> bId b = k"
  unfolding find_break_def by (rule find_row_SomeD)

lemma break_grows_refl [simp]: "break_grows b b"
  by (simp add: break_grows_def)

lemma commitment_grows_refl [simp]: "commitment_grows c c"
  by (simp add: commitment_grows_def)

lemma status_rank_Ended: "status_rank Ended \<le> status_rank s \<Longrightarrow> s = Ended"
  by (cases s) auto

lemma status_rank_Draft: "status_rank s \<le> status_rank BreakDraft \<Longrightarrow> s = BreakDraft"
  by (cases s) auto

lemma break_grows_trans: "break_grows a b \<Longrightarrow> break_grows b c \<Longrightarrow> break_grows a c"
  unfolding break_grows_def
  by (cases "bStatus a"; cases "bStatus b"; cases "bStatus c") auto

lemma commitment_grows_trans: "commitment_grows a b \<Longrightarrow> commitment_grows b c \<Longrightarrow> commitment_grows a c"
  unfolding commitment_grows_def by auto

lemma store_grows_refl: "store_grows s s"
  by (simp add: store_grows_def)

lemma break_grows_Ended: "break_grows b b' \<Longrightarrow> bStatus b = Ended \<Longrightarrow> bStatus b' = Ended"
  using status_rank_Ended by (auto simp: break_grows_def)

lemma store_grows_trans:
  assumes "store_grows s t" "store_grows t u"
  shows "store_grows s u"
  unfolding store_grows_def
proof (intro conjI allI impI)
  show "\<exists>new. pullRows u = pullRows s @ new"
    using assms unfolding store_grows_def by (metis append_assoc)
next
  fix k b assume "find_break s k = Some b"
  with assms(1) obtain b' where b': "find_break t k = Some b'" "break_grows b b'"
    "bStatus b = Ended \<longrightarrow> log_of k t = log_of k s" unfolding store_grows_def by blast
  with assms(2) obtain b'' where b'': "find_break u k = Some b''" "break_grows b' b''"
    "bStatus b' = Ended \<longrightarrow> log_of k u = log_of k t" unfolding store_grows_def by blast
  have "bStatus b = Ended \<longrightarrow> log_of k u = log_of k s"
    using b'(2,3) b''(3) break_grows_Ended by simp
  with b' b'' show "\<exists>b'. find_break u k = Some b' \<and> break_grows b b' \<and> (bStatus b = Ended \<longrightarrow> log_of k u = log_of k s)"
    using break_grows_trans by blast
next
  fix k c assume "find_row cmBreakId k (commitmentRows s) = Some c"
  with assms(1) obtain c' where c': "find_row cmBreakId k (commitmentRows t) = Some c'" "commitment_grows c c'"
    unfolding store_grows_def by blast
  with assms(2) obtain c'' where "find_row cmBreakId k (commitmentRows u) = Some c''" "commitment_grows c' c''"
    unfolding store_grows_def by blast
  with c' show "\<exists>c'. find_row cmBreakId k (commitmentRows u) = Some c' \<and> commitment_grows c c'"
    using commitment_grows_trans by blast
qed

lemma update_row_only:
  assumes "\<forall>r \<in> set rows. P r" "\<forall>r. key r = k \<longrightarrow> r \<in> set rows \<longrightarrow> P (f r)"
  shows "\<forall>r \<in> set (update_row key k f rows). P r"
  using assms by (auto simp: set_update_row)

lemma distinct_update_row_other:
  assumes "distinct (map key rows)" "distinct (map g rows)" "find_row key k rows = Some r"
    "g (f r) \<notin> g ` set (filter (\<lambda>x. key x \<noteq> k) rows)"
  shows "distinct (map g (update_row key k f rows))"
  using assms
proof (induction rows)
  case (Cons x xs)
  show ?case
  proof (cases "key x = k")
    case True
    then have "k \<notin> key ` set xs" using Cons.prems(1) by auto
    then have "update_row key k f xs = xs" "filter (\<lambda>x. key x \<noteq> k) xs = xs"
      unfolding update_row_def by (auto intro!: map_idI filter_True)
    with True Cons.prems show ?thesis by auto
  next
    case False
    then have x: "g x \<noteq> g (f r)" "g x \<notin> g ` set xs" using Cons.prems(2,4) by auto
    have "r \<in> set xs" "key r = k" using Cons.prems(3) False by (auto dest: find_row_SomeD)
    then have only: "y = r" if "y \<in> set xs" "key y = k" for y
      using Cons.prems(1) that by (auto simp: distinct_map dest: inj_onD)
    have "g x \<noteq> g (if key y = k then f y else y)" if "y \<in> set xs" for y
      using x only [OF that] that by (cases "key y = k") auto
    then have "g x \<notin> g ` set (update_row key k f xs)"
      unfolding set_update_row image_image by blast
    with False Cons show ?thesis by auto
  qed
qed simp

lemma find_break_update:
  assumes "\<forall>b. bId (f b) = bId b"
  shows "find_break (db\<lparr>breakRows := update_row bId k f (breakRows db)\<rparr>) k' =
    (if k' = k then map_option f (find_break db k) else find_break db k')"
proof -
  have kt: "keyed_table bId f" using assms by (simp add: keyed_table_def)
  show ?thesis by (simp add: find_break_def keyed_table.find_updated [OF kt])
qed

text \<open>A statement on breaks alone: the rows it leaves keep the constraints and every row only grew.\<close>

lemma breaks_change_keeps:
  assumes inv: "break_inv pf db"
    and same: "pullRows db' = pullRows db" "commitmentRows db' = commitmentRows db"
    and wf: "distinct (map bId (breakRows db'))" "distinct (map bOverlayTokenHash (breakRows db'))"
      "\<forall>b \<in> set (breakRows db'). first_violated (break_checks b) = None"
    and grown: "\<And>k x. find_break db k = Some x \<Longrightarrow> \<exists>y. find_break db' k = Some y \<and> break_grows x y"
  shows "break_inv pf db' \<and> store_grows db db'"
proof -
  have logs: "log_of k' db' = log_of k' db" for k' by (simp add: same log_of_def)
  have ended: "\<exists>y. find_break db' k' = Some y \<and> (bStatus x = Ended \<longrightarrow> bStatus y = Ended)
      \<and> (bStatus x \<noteq> BreakDraft \<longrightarrow> bStatus y \<noteq> BreakDraft)" if "find_break db k' = Some x" for k' x
    using grown [OF that] break_grows_Ended status_rank_Draft unfolding break_grows_def by metis
  have "break_inv pf db'"
    unfolding break_inv_def
  proof (intro conjI ballI allI)
    show "platform_ok pf" using inv by (simp add: break_inv_def)
    show "log_ok (log_of k' db')" for k' using inv logs by (simp add: break_inv_def)
    show "first_violated (break_checks x) = None" if "x \<in> set (breakRows db')" for x using that wf(3) by blast
    show "\<exists>y. find_break db' (plBreakId p) = Some y \<and> bStatus y \<noteq> BreakDraft" if "p \<in> set (pullRows db')" for p
    proof -
      from that inv obtain x where "find_break db (plBreakId p) = Some x" "bStatus x \<noteq> BreakDraft"
        by (auto simp: break_inv_def same)
      then show ?thesis using ended by blast
    qed
    show "distinct (map cmBreakId (commitmentRows db'))" using inv by (simp add: break_inv_def same)
    show "commitment_ok pf db' c" if "c \<in> set (commitmentRows db')" for c
    proof -
      have ok: "commitment_ok pf db c" using that inv by (simp add: break_inv_def same)
      then obtain x where x: "find_break db (cmBreakId c) = Some x"
        "cmRevealedSeed c \<noteq> None \<longrightarrow> bStatus x = Ended \<and> cmClientSeed c \<noteq> None"
        by (auto simp: commitment_ok_def)
      from ended [OF x(1)] x(2) ok show ?thesis unfolding commitment_ok_def by blast
    qed
  qed (fact wf(1,2))+
  moreover have "store_grows db db'"
    unfolding store_grows_def
  proof (intro conjI allI impI)
    show "\<exists>new. pullRows db' = pullRows db @ new" by (simp add: same)
    show "\<exists>y. find_break db' k' = Some y \<and> break_grows x y \<and> (bStatus x = Ended \<longrightarrow> log_of k' db' = log_of k' db)"
      if "find_break db k' = Some x" for k' x using grown [OF that] logs by blast
    show "\<exists>c'. find_row cmBreakId k' (commitmentRows db') = Some c' \<and> commitment_grows c c'"
      if "find_row cmBreakId k' (commitmentRows db) = Some c" for k' c using that by (simp add: same)
  qed
  ultimately show ?thesis ..
qed

lemma update_break_keeps:
  assumes inv: "break_inv pf db" and upd: "update_break u k f db = Inr (Some b', db')"
    and key: "\<forall>b. bId (f b) = bId b"
    and grow: "\<And>b. find_break db k = Some b \<Longrightarrow> bCreatorId b = u \<Longrightarrow> break_grows b (f b)"
  shows "break_inv pf db' \<and> store_grows db db'"
proof -
  from update_break_InrD [OF upd] obtain b where b: "find_break db k = Some b" "bCreatorId b = u"
    "first_violated (break_checks (f b)) = None"
    "break_unique_violation (f b) (filter (\<lambda>x. bId x \<noteq> k) (breakRows db)) = None"
    "db' = db\<lparr>breakRows := update_row bId k f (breakRows db)\<rparr>" by blast
  have g: "break_grows b (f b)" by (rule grow [OF b(1,2)])
  have fb: "find_break db' k' = (if k' = k then Some (f b) else find_break db k')" for k'
    using find_break_update [OF key, of k db k'] b(1,5) by simp
  have d: "distinct (map bId (breakRows db))" "distinct (map bOverlayTokenHash (breakRows db))"
    using inv by (auto simp: break_inv_def)
  have only: "r = b" if "r \<in> set (breakRows db)" "bId r = k" for r
    using find_row_distinct [OF d(1) that(1)] that(2) b(1) by (simp add: find_break_def)
  have row: "find_row bId k (breakRows db) = Some b" using b(1) by (simp add: find_break_def)
  show ?thesis
  proof (rule breaks_change_keeps [OF inv])
    show "distinct (map bId (breakRows db'))"
      using keyed_table.distinct_update [of bId f, OF _ d(1)] key by (simp add: b(5) keyed_table_def)
    show "distinct (map bOverlayTokenHash (breakRows db'))"
      using distinct_update_row_other [OF d row, of f] b(4,5)
      by (auto simp: break_unique_violation_def split: if_splits)
    show "\<forall>b \<in> set (breakRows db'). first_violated (break_checks b) = None"
      using only b(3,5) inv by (auto simp: set_update_row break_inv_def)
    show "\<exists>y. find_break db' k' = Some y \<and> break_grows x y" if "find_break db k' = Some x" for k' x
      using that fb g b(1) by (cases "k' = k") auto
  qed (simp_all add: b(5))
qed

section \<open>A break's life\<close>

lemma updated_break_Inr:
  "updated_break r = Inr (b, db') \<longleftrightarrow> r = Inr (Some b, db')"
  by (auto simp: updated_break_def split: sum.splits prod.splits option.splits)

lemma select_own_break_Some:
  "select_own_break u k db = Some b \<Longrightarrow> find_break db k = Some b \<and> bCreatorId b = u"
  by (auto simp: select_own_break_def find_break_def break_owned_def split: option.splits if_splits)

text \<open>Updates that leave the life cycle and the frozen columns alone.\<close>

lemma quiet_update_keeps:
  assumes "break_inv pf db" "update_break u k f db = Inr (Some b', db')" "\<And>b. break_grows b (f b)"
  shows "break_inv pf db' \<and> store_grows db db'"
  by (rule update_break_keeps [OF assms(1,2)]) (use assms(3) in \<open>auto simp: break_grows_def\<close>)

lemma setBreakStatus_keeps:
  assumes "break_inv pf db" "setBreakStatus u k nxt now db = Inr (b', db')"
  shows "break_inv pf db' \<and> store_grows db db'"
proof -
  obtain b where sel: "select_own_break u k db = Some b"
    and ok: "if nxt = Live then bStatus b = BreakDraft else bStatus b = Live"
    and upd: "update_break u k (status_set nxt now) db = Inr (Some b', db')"
    using assms(2) by (auto simp: setBreakStatus_def Let_def updated_break_Inr split: option.splits if_splits)
  show ?thesis
  proof (rule update_break_keeps [OF assms(1) upd])
    show "\<forall>b. bId (status_set nxt now b) = bId b" by (simp add: status_update.upd_key)
    fix x assume "find_break db k = Some x"
    then have "x = b" using select_own_break_Some [OF sel] by simp
    then show "break_grows x (status_set nxt now x)"
      using ok by (auto simp: break_grows_def status_set_def split: if_splits)
  qed
qed

lemma setPacksOpened_keeps:
  assumes "break_inv pf db" "setPacksOpened u k n now db = Inr (b', db')"
  shows "break_inv pf db' \<and> store_grows db db'"
proof -
  obtain m where "update_break u k (\<lambda>b. b\<lparr>bPacksOpened := m, bUpdatedAt := now\<rparr>) db = Inr (Some b', db')"
    using assms(2) by (auto simp: setPacksOpened_def updated_break_Inr split: option.splits if_splits)
  from quiet_update_keeps [OF assms(1) this] show ?thesis by (simp add: break_grows_def)
qed

lemma rotateOverlayToken_keeps:
  assumes "break_inv pf db" "rotateOverlayToken u k h now db = Inr (b', db')"
  shows "break_inv pf db' \<and> store_grows db db'"
  using quiet_update_keeps [OF assms(1) assms(2) [unfolded rotateOverlayToken_def updated_break_Inr]]
  by (simp add: break_grows_def)

lemma setBreakVodUrl_keeps:
  assumes "break_inv pf db" "setBreakVodUrl pu u k l now db = Inr (b', db')"
  shows "break_inv pf db' \<and> store_grows db db'"
proof -
  have "update_break u k (\<lambda>b. b\<lparr>bVodUrl := l, bUpdatedAt := now\<rparr>) db = Inr (Some b', db')"
    using assms(2) by (auto simp: setBreakVodUrl_def updated_break_Inr split: if_splits)
  from quiet_update_keeps [OF assms(1) this] show ?thesis by (simp add: break_grows_def)
qed

lemma insert_break_Inr:
  "insert_break u b db = Inr db' \<Longrightarrow>
     first_violated (break_checks b) = None \<and> break_unique_violation b (breakRows db) = None
     \<and> bCreatorId b = u \<and> db' = db\<lparr>breakRows := breakRows db @ [b]\<rparr>"
  by (auto simp: insert_break_def break_owned_def split: if_splits option.splits)

lemma find_break_append:
  "find_break (db\<lparr>breakRows := breakRows db @ [b]\<rparr>) k =
     (case find_break db k of None \<Rightarrow> if bId b = k then Some b else None | Some x \<Rightarrow> Some x)"
  by (simp add: find_break_def find_row_append split: option.splits)

lemma createBreak_keeps:
  assumes inv: "break_inv pf db" and new: "createBreak u input newId now db = Inr (b, db')"
  shows "break_inv pf db' \<and> store_grows db db'"
proof -
  have ins: "insert_break u b db = Inr db'"
    using new by (auto simp: createBreak_def Let_def split: if_splits sum.splits)
  note i = insert_break_Inr [OF ins]
  then have fresh: "bId b \<notin> bId ` set (breakRows db)" "bOverlayTokenHash b \<notin> bOverlayTokenHash ` set (breakRows db)"
    by (auto simp: break_unique_violation_def split: if_splits)
  have fb: "find_break db k = Some x \<Longrightarrow> find_break db' k = Some x" for k x
    using i find_break_append [of db b] by simp
  show ?thesis
    by (rule breaks_change_keeps [OF inv]) (use i fresh fb inv in \<open>auto simp: break_inv_def\<close>)
qed

section \<open>Evidence\<close>

lemma evidence_keeps:
  "break_inv pf db \<Longrightarrow> break_inv pf (db\<lparr>evidenceRows := e\<rparr>) \<and> store_grows db (db\<lparr>evidenceRows := e\<rparr>)"
  by (simp add: break_inv_def store_grows_def commitment_ok_def log_of_def find_break_def)

lemma setPullEvidence_evidence:
  "setPullEvidence pu u p input newId now db = Inr db' \<Longrightarrow> \<exists>e. db' = db\<lparr>evidenceRows := e\<rparr>"
  by (auto simp: setPullEvidence_def upsert_evidence_def split: if_splits sum.splits option.splits)

section \<open>Pulls\<close>

lemma log_seqs: "log_ok rows \<Longrightarrow> map plSeq rows = map int [1..<length rows + 1]"
  by (simp add: log_ok_def)

lemma log_sorted:
  assumes "log_ok rows"
  shows "sort_key plSeq rows = rows"
proof (rule sort_key_id_if_sorted)
  show "sorted (map plSeq rows)"
    unfolding log_seqs [OF assms] by (simp add: sorted_wrt_map sorted_wrt_iff_nth_less del: upt_Suc)
qed

lemma own_log:
  assumes "break_inv pf db" "find_break db k = Some b" "break_visible v b"
  shows "select_pulls v k db = log_of k db"
proof -
  have "pull_visible v db p" if "plBreakId p = k" for p
    using find_break_SomeD [OF assms(2)] assms(3) that by (auto simp: pull_visible_def list_ex_iff)
  then have "filter (\<lambda>p. plBreakId p = k \<and> pull_visible v db p) (pullRows db) = log_of k db"
    unfolding log_of_def by (intro filter_cong) auto
  then show ?thesis using log_sorted [of "log_of k db"] assms(1)
    by (simp add: select_pulls_def break_inv_def)
qed

lemma last_seq: "log_ok rows \<Longrightarrow> rows \<noteq> [] \<Longrightarrow> plSeq (last rows) = int (length rows)"
proof -
  assume a: "log_ok rows" "rows \<noteq> []"
  then have "map plSeq rows ! (length rows - 1) = map int [1..<length rows + 1] ! (length rows - 1)"
    by (simp only: log_seqs)
  with a(2) show ?thesis by (simp add: last_conv_nth del: upt_Suc)
qed

lemma log_ok_snoc:
  assumes ok: "log_ok rows" and val: "fst val \<ge> 0"
  shows "log_ok (rows @ [next_pull k input val newId now (last_pull rows)])"
proof -
  let ?row = "next_pull k input val newId now (last_pull rows)"
  have hashes: "\<forall>p \<in> set rows. plPrevHash p \<noteq> None \<and> plRowHash p \<noteq> None \<and> plValueCents p \<ge> 0"
    and ver: "verify_from GENESIS_HASH (map linked_row rows) = None"
    using ok by (auto simp: log_ok_def)
  define prev where "prev = (case last_pull rows of None \<Rightarrow> GENESIS_HASH
       | Some r \<Rightarrow> (case plRowHash r of None \<Rightarrow> GENESIS_HASH | Some h \<Rightarrow> h))"
  have tip: "tip GENESIS_HASH (map linked_row rows) = prev"
  proof (cases "rows = []")
    case False
    then obtain h where "plRowHash (last rows) = Some h" using hashes last_in_set by blast
    then show ?thesis using False
      by (simp add: tip_def prev_def last_pull_def linked_row_def last_map)
  qed (simp add: prev_def last_pull_def)
  have sq: "plSeq ?row = int (length rows) + 1"
    using last_seq [OF ok] by (auto simp: next_pull_def Let_def last_pull_def)
  have link: "linked_row ?row = (fst (linked_row ?row), prev, hashPull prev (fst (linked_row ?row)))"
    by (simp add: linked_row_def verifiable_def next_pull_def Let_def prev_def)
  have "verify_from GENESIS_HASH (map linked_row rows @ [linked_row ?row]) = None"
    using verify_from_snoc [of GENESIS_HASH "map linked_row rows" "fst (linked_row ?row)" prev
        "hashPull prev (fst (linked_row ?row))"] ver tip link by metis
  moreover have "map plSeq (rows @ [?row]) = map int [1..<length (rows @ [?row]) + 1]"
    using log_seqs [OF ok] sq by simp
  moreover have "plPrevHash ?row \<noteq> None \<and> plRowHash ?row \<noteq> None \<and> plValueCents ?row \<ge> 0"
    using val by (simp add: next_pull_def Let_def)
  ultimately show ?thesis using hashes by (auto simp: log_ok_def)
qed

lemma insert_pull_Inr:
  "insert_pull u p db = Inr db' \<Longrightarrow>
     pull_insert_allowed u db p \<and> first_violated (pull_checks p) = None
     \<and> db' = db\<lparr>pullRows := pullRows db @ [p]\<rparr>"
  by (auto simp: insert_pull_def split: if_splits option.splits)

lemma logPull_InrD:
  assumes "break_inv pf db" "logPull u k input newId now today db = Inr (row, db')"
  shows "\<exists>b. find_break db k = Some b \<and> bCreatorId b = u \<and> bStatus b = Live
     \<and> length (log_of k db) < MAX_PULLS_PER_BREAK
     \<and> row = next_pull k input (pull_value input today db) newId now (last_pull (log_of k db))
     \<and> fst (pull_value input today db) \<ge> 0
     \<and> db' = db\<lparr>pullRows := pullRows db @ [row]\<rparr>"
proof -
  obtain b where sel: "select_own_break u k db = Some b" and live: "bStatus b = Live"
    and len: "length (select_pulls (Person u) k db) < MAX_PULLS_PER_BREAK"
    and row: "row = next_pull k input (pull_value input today db) newId now (last_pull (select_pulls (Person u) k db))"
    and ins: "insert_pull u row db = Inr db'"
    using assms(2) by (auto simp: logPull_def Let_def split: option.splits if_splits sum.splits)
  have b: "find_break db k = Some b" "bCreatorId b = u" using select_own_break_Some [OF sel] by auto
  then have log: "select_pulls (Person u) k db = log_of k db"
    using own_log [OF assms(1)] by (simp add: break_visible_def)
  have "plValueCents row \<ge> 0" using insert_pull_Inr [OF ins] by (auto simp: pull_checks_def split: if_splits)
  moreover have "plValueCents row = fst (pull_value input today db)"
    by (simp add: row next_pull_def Let_def)
  ultimately show ?thesis using b live len row log insert_pull_Inr [OF ins] by auto
qed

lemma log_of_append:
  "log_of k' (db\<lparr>pullRows := pullRows db @ [row]\<rparr>) =
     (if plBreakId row = k' then log_of k' db @ [row] else log_of k' db)"
  by (simp add: log_of_def)

lemma logPull_keeps:
  assumes inv: "break_inv pf db" and pull: "logPull u k input newId now today db = Inr (row, db')"
  shows "break_inv pf db' \<and> store_grows db db'"
proof -
  from logPull_InrD [OF assms] obtain b where b: "find_break db k = Some b" "bStatus b = Live"
    "row = next_pull k input (pull_value input today db) newId now (last_pull (log_of k db))"
    "fst (pull_value input today db) \<ge> 0" "db' = db\<lparr>pullRows := pullRows db @ [row]\<rparr>" by blast
  have k: "plBreakId row = k" by (simp add: b(3) next_pull_def Let_def)
  have fb: "find_break db' = find_break db" by (simp add: b(5) find_break_def fun_eq_iff)
  have logs: "log_of k' db' = (if k' = k then log_of k db @ [row] else log_of k' db)" for k'
    using log_of_append [of k' db row] by (simp add: b(5) k)
  have "log_ok (log_of k' db')" for k'
    using inv log_ok_snoc [of "log_of k db" "pull_value input today db"] b(3,4)
    by (simp add: logs break_inv_def)
  moreover have "\<forall>p \<in> set (pullRows db'). \<exists>x. find_break db' (plBreakId p) = Some x \<and> bStatus x \<noteq> BreakDraft"
    using inv b(1,2,5) k fb by (auto simp: break_inv_def)
  moreover have "commitmentRows db' = commitmentRows db" "breakRows db' = breakRows db" by (simp_all add: b(5))
  ultimately have "break_inv pf db'" using inv fb unfolding break_inv_def commitment_ok_def by simp
  moreover have "store_grows db db'"
    unfolding store_grows_def using b(1,2) logs fb \<open>commitmentRows db' = commitmentRows db\<close>
    by (auto simp: b(5))
  ultimately show ?thesis ..
qed

section \<open>Commitments\<close>

lemma update_commitment_InrD:
  assumes "update_commitment u k still f db = Inr (Some c', db')"
  shows "\<exists>c. find_row cmBreakId k (commitmentRows db) = Some c \<and> still c \<and> c' = f c
     \<and> first_violated (commitment_checks (f c)) = None
     \<and> db' = db\<lparr>commitmentRows := update_row cmBreakId k f (commitmentRows db)\<rparr>"
  using assms by (auto simp: update_commitment_def split: option.splits if_splits)

lemma commitments_change_keeps:
  assumes inv: "break_inv pf db"
    and upd: "db' = db\<lparr>commitmentRows := update_row cmBreakId k f (commitmentRows db)\<rparr>"
    and key: "\<forall>c. cmBreakId (f c) = cmBreakId c"
    and row: "find_row cmBreakId k (commitmentRows db) = Some c"
    and grow: "commitment_grows c (f c)" and ok: "commitment_ok pf db (f c)"
  shows "break_inv pf db' \<and> store_grows db db'"
proof -
  have kt: "keyed_table cmBreakId f" using key by (simp add: keyed_table_def)
  have d: "distinct (map cmBreakId (commitmentRows db))" using inv by (simp add: break_inv_def)
  have only: "x = c" if "x \<in> set (commitmentRows db)" "cmBreakId x = k" for x
    using find_row_distinct [OF d that(1)] that(2) row by simp
  have same: "find_break db' = find_break db" "pullRows db' = pullRows db" "breakRows db' = breakRows db"
    by (simp_all add: upd find_break_def fun_eq_iff)
  have oks: "commitment_ok pf db' x" if "x \<in> set (commitmentRows db')" for x
  proof -
    have "commitment_ok pf db x"
      using that only ok inv by (auto simp: upd set_update_row break_inv_def)
    then show ?thesis by (simp add: commitment_ok_def same)
  qed
  have "distinct (map cmBreakId (commitmentRows db'))"
    using keyed_table.distinct_update [OF kt d, of k] by (simp add: upd)
  then have "break_inv pf db'"
    using inv oks by (simp add: break_inv_def same log_of_def)
  moreover have "store_grows db db'"
    unfolding store_grows_def using row grow
    by (auto simp: upd keyed_table.find_updated [OF kt])
  ultimately show ?thesis ..
qed

lemma setClientSeed_keeps:
  assumes inv: "break_inv pf db" and seed: "setClientSeed u k s db = Inr (p, db')"
  shows "break_inv pf db' \<and> store_grows db db'"
proof -
  let ?f = "\<lambda>c. c\<lparr>cmClientSeed := Some (trim s)\<rparr>"
  obtain c' where "update_commitment u k (\<lambda>c. cmClientSeed c = None) ?f db = Inr (Some c', db')"
    using seed by (auto simp: setClientSeed_def Let_def split: if_splits sum.splits option.splits)
  from update_commitment_InrD [OF this] obtain c where
    c: "find_row cmBreakId k (commitmentRows db) = Some c" "cmClientSeed c = None"
      "db' = db\<lparr>commitmentRows := update_row cmBreakId k ?f (commitmentRows db)\<rparr>" by blast
  have "commitment_ok pf db c" using inv find_row_SomeD [OF c(1)] by (auto simp: break_inv_def)
  then have "commitment_ok pf db (?f c)" by (auto simp: commitment_ok_def)
  then show ?thesis
    by (intro commitments_change_keeps [OF inv c(3) _ c(1)]) (auto simp: commitment_grows_def c(2))
qed

lemma commitBreak_keeps:
  assumes inv: "break_inv pf db"
    and com: "commitBreak (pfSeal pf) u k n (pfRing pf) (be_bytes 32 random) (be_bytes 12 iv) newId now db = Inr (p, db')"
  shows "break_inv pf db' \<and> store_grows db db'"
proof -
  let ?seed = "base64url (be_bytes 32 random)"
  obtain b enc c where b: "select_own_break u k db = Some b"
    and enc: "encryptField (pfSeal pf) (pfRing pf) (be_bytes 12 iv) ?seed = Inr enc"
    and c: "c = \<lparr>cmId = newId, cmBreakId = k, cmCommitment = commitmentFor ?seed,
                     cmSeedEncrypted = enc, cmClientSeed = None, cmRevealedSeed = None,
                     cmSlotCount = n, cmAlgorithm = SHUFFLE_ALGORITHM,
                     cmCommittedAt = now, cmRevealedAt = None\<rparr>"
    and ins: "insert_commitment u c db = Inr (Some c, db')"
    using com
    by (auto simp: commitBreak_def generateToken_def MIN_TOKEN_BYTES_def insert_commitment_def
        split: option.splits if_splits sum.splits)
  have i: "db' = db\<lparr>commitmentRows := commitmentRows db @ [c]\<rparr>" "cmBreakId c \<notin> cmBreakId ` set (commitmentRows db)"
    "2 \<le> cmSlotCount c \<and> cmSlotCount c \<le> 1000"
    using ins by (auto simp: insert_commitment_def commitment_checks_def split: if_splits)
  obtain parsed kid where gcm: "gcm_ok (pfSeal pf) (pfOpen pf)" and ring: "buildKeyRing parsed kid = Inr (pfRing pf)"
    using inv by (auto simp: break_inv_def platform_ok_def)
  obtain key where key: "map_of (ringKeys (pfRing pf)) (ringActive (pfRing pf)) = Some key"
    using buildKeyRing_ok [OF ring] by auto
  have "decryptField (pfOpen pf) (pfRing pf) enc = Inr ?seed"
    by (rule decrypt_encrypt(1) [OF key _ gcm _ _ enc key])
       (use buildKeyRing_ok [OF ring] in \<open>auto simp: IV_BYTES_def be_bytes_def\<close>)
  moreover have "find_break db k = Some b" using select_own_break_Some [OF b] by simp
  ultimately have ok: "commitment_ok pf db c" using i(3) by (simp add: commitment_ok_def c commitmentFor_def)
  have same: "find_break db' = find_break db" "pullRows db' = pullRows db" "breakRows db' = breakRows db"
    by (simp_all add: i(1) find_break_def fun_eq_iff)
  have "commitment_ok pf db' x" if "x \<in> set (commitmentRows db')" for x
    using that ok inv by (auto simp: commitment_ok_def break_inv_def i(1))
  then have "break_inv pf db'" using inv i(2) by (simp add: break_inv_def same log_of_def i(1))
  moreover have "store_grows db db'"
    unfolding store_grows_def by (auto simp: i(1) find_row_append)
  ultimately show ?thesis ..
qed

lemma revealBreak_InrD:
  assumes "revealBreak gcm_open u k ring now db = Some (Inr ((p, order), db'))"
  shows "\<exists>b c s clientSeed. find_break db k = Some b \<and> bCreatorId b = u \<and> bStatus b = Ended
     \<and> find_row cmBreakId k (commitmentRows db) = Some c
     \<and> cmClientSeed c = Some clientSeed
     \<and> (case cmRevealedSeed c of Some r \<Rightarrow> s = r | None \<Rightarrow> decryptField gcm_open ring (cmSeedEncrypted c) = Inr s)
     \<and> deriveShuffle s clientSeed k (int_num (cmSlotCount c)) = Inr (Some order)
     \<and> publish_seed u k s now db = Inr (p, db')"
proof -
  obtain clientSeed slots c s where ctx: "reveal_context u k db = Inr (clientSeed, slots)"
    and c: "find_row cmBreakId k (commitmentRows db) = Some c"
    and s: "(case cmRevealedSeed c of Some s \<Rightarrow> Inr s
               | None \<Rightarrow> decryptField gcm_open ring (cmSeedEncrypted c)) = Inr s"
    and d: "deriveShuffle s clientSeed k (int_num slots) = Inr (Some order)"
    and p: "publish_seed u k s now db = Inr (p, db')"
    using assms
    by (simp add: revealBreak_def split: sum.splits prod.splits option.splits)
  obtain b where b: "select_own_break u k db = Some b" "bStatus b = Ended" "cmClientSeed c = Some clientSeed"
    "slots = cmSlotCount c"
    using ctx c by (auto simp: reveal_context_def select_commitment_def split: option.splits if_splits)
  have "case cmRevealedSeed c of Some r \<Rightarrow> s = r | None \<Rightarrow> decryptField gcm_open ring (cmSeedEncrypted c) = Inr s"
    using s by (cases "cmRevealedSeed c") auto
  then show ?thesis using b c d p select_own_break_Some [OF b(1)] by blast
qed

lemma publish_seed_InrD:
  assumes "publish_seed u k s now db = Inr (p, db')" "find_row cmBreakId k (commitmentRows db) = Some c"
  shows "(cmRevealedSeed c = None \<and> p = publicColumns (c\<lparr>cmRevealedSeed := Some s, cmRevealedAt := Some now\<rparr>)
          \<and> db' = db\<lparr>commitmentRows := update_row cmBreakId k
                (\<lambda>c. c\<lparr>cmRevealedSeed := Some s, cmRevealedAt := Some now\<rparr>) (commitmentRows db)\<rparr>)
     \<or> (p = publicColumns c \<and> db' = db)"
  using assms
  by (auto simp: publish_seed_def update_commitment_def select_commitment_def
      split: sum.splits option.splits if_splits)

lemma revealBreak_keeps:
  assumes inv: "break_inv pf db"
    and rev: "revealBreak (pfOpen pf) u k (pfRing pf) now db = Some (Inr (q, db'))"
  shows "break_inv pf db' \<and> store_grows db db'"
proof -
  obtain p order where q: "q = (p, order)" by (cases q)
  let ?f = "\<lambda>s c. c\<lparr>cmRevealedSeed := Some s, cmRevealedAt := Some now\<rparr>"
  from revealBreak_InrD [OF rev [unfolded q]] obtain b c s cs where b: "find_break db k = Some b" "bStatus b = Ended"
    and c: "find_row cmBreakId k (commitmentRows db) = Some c" "cmClientSeed c = Some cs"
    and s: "case cmRevealedSeed c of Some r \<Rightarrow> s = r | None \<Rightarrow> decryptField (pfOpen pf) (pfRing pf) (cmSeedEncrypted c) = Inr s"
    and p: "publish_seed u k s now db = Inr (p, db')" by blast
  from publish_seed_InrD [OF p c(1)] show ?thesis
  proof (elim disjE conjE)
    assume none: "cmRevealedSeed c = None"
      and db': "db' = db\<lparr>commitmentRows := update_row cmBreakId k (?f s) (commitmentRows db)\<rparr>"
    have "commitment_ok pf db c" "cmBreakId c = k" using inv find_row_SomeD [OF c(1)] by (auto simp: break_inv_def)
    then have "commitment_ok pf db (?f s c)" using none s b c(2) by (auto simp: commitment_ok_def)
    then show ?thesis
      by (intro commitments_change_keeps [OF inv db' _ c(1)]) (auto simp: commitment_grows_def none)
  next
    assume "db' = db"
    then show ?thesis using inv store_grows_refl by simp
  qed
qed

section \<open>The machine\<close>

lemma break_step_keeps:
  assumes inv: "break_inv pf db" and step: "break_step pf op db = Inr db'"
  shows "break_inv pf db' \<and> store_grows db db'"
proof (cases op)
  case (SetPullEvidence u p input newId now)
  with step obtain e where "db' = db\<lparr>evidenceRows := e\<rparr>"
    using setPullEvidence_evidence by (fastforce simp: break_step_def split: sum.splits)
  then show ?thesis using evidence_keeps [OF inv] by simp
next
  case (ClearPullEvidence u p)
  with step show ?thesis
    using evidence_keeps [OF inv] by (auto simp: break_step_def clearPullEvidence_def Let_def)
next
  case (RevealBreak u k now)
  with step obtain q where "revealBreak (pfOpen pf) u k (pfRing pf) now db = Some (Inr (q, db'))"
    by (auto simp: break_step_def split: option.splits)
  then show ?thesis by (rule revealBreak_keeps [OF inv])
qed (use step in \<open>auto simp: break_step_def
       dest!: createBreak_keeps [OF inv] setBreakStatus_keeps [OF inv]
       setPacksOpened_keeps [OF inv] rotateOverlayToken_keeps [OF inv] setBreakVodUrl_keeps [OF inv]
       logPull_keeps [OF inv] commitBreak_keeps [OF inv] setClientSeed_keeps [OF inv]\<close>)

interpretation brk: monotone_machine "break_step pf" "break_inv pf" store_grows for pf
proof unfold_locales
  show "break_inv pf s \<Longrightarrow> break_step pf x s = Inr s' \<Longrightarrow> break_inv pf s'" for s x s'
    using break_step_keeps by blast
  show "store_grows s s" for s by (rule store_grows_refl)
  show "store_grows s t \<Longrightarrow> store_grows t u \<Longrightarrow> store_grows s u" for s t u by (rule store_grows_trans)
  show "break_inv pf s \<Longrightarrow> break_step pf x s = Inr s' \<Longrightarrow> store_grows s s'" for s x s'
    using break_step_keeps by blast
qed

text \<open>A store before any break: accounts and a catalogue.\<close>

definition no_breaks :: "string list \<Rightarrow> (string \<times> string) list \<Rightarrow> CatalogVariant list \<Rightarrow> IndexRow list \<Rightarrow> break_db" where
  "no_breaks us ps vs ix =
     \<lparr>accounts = us, products = ps, variants = vs, indexDaily = ix, breakRows = [], pullRows = [],
      evidenceRows = [], commitmentRows = []\<rparr>"

lemma no_breaks_inv: "platform_ok pf \<Longrightarrow> break_inv pf (no_breaks us ps vs ix)"
  by (simp add: break_inv_def no_breaks_def log_of_def log_ok_def)

end
