(* ===== verification/BreakDemo.thy ===== *)
theory BreakDemo
  imports BreakInvariant
begin

text \<open>
  One break from creation to its end on a concrete store, for the instances of the properties in
  theory \<open>BreakProps\<close>. The digests stay symbolic: nothing here computes SHA-256.
\<close>

definition demo_platform :: platform where
  "demo_platform = \<lparr>pfParseUrl = demo_parse_url, pfSeal = demo_seal, pfOpen = demo_unseal, pfRing = demo_ring\<rparr>"

definition demo_before :: break_db where
  "demo_before = no_breaks [''ann''] [] [\<lparr>cvId = ''v1'', cvCardName = ''Gundam'', cvFinish = ''normal''\<rparr>] []"

definition demo_break :: Break where
  "demo_break = \<lparr>bId = ''b1'', bCreatorId = ''ann'', bTitle = ''Case'', bSealedProductId = None,
     bCostCents = Some 9000, bPacksOpened = None, bVodUrl = None, bStatus = BreakDraft,
     bOverlayTokenHash = ''t1'', bOverlayTokenVersion = 1, bStartedAt = None, bEndedAt = None,
     bCreatedAt = 1, bUpdatedAt = 1\<rparr>"

definition demo_create :: break_op where
  "demo_create = CreateBreak ''ann'' \<lparr>cbTitle = ''Case'', cbSealedProductId = None, cbCostCents = Some 9000,
      cbOverlayTokenHash = ''t1''\<rparr> ''b1'' 1"

lemma step_create: "break_step demo_platform demo_create demo_before = Inr (demo_before\<lparr>breakRows := [demo_break]\<rparr>)"
  by code_simp

definition demo_seed :: string where "demo_seed = base64url (be_bytes 32 5)"
text \<open>A digest passes the column's format check.\<close>

lemma hex64_sha [simp]: "hex64 (sha256Hex s)"
proof -
  have d: "in_range (CHR ''0'') (CHR ''9'') (hex_digit n) \<or> in_range (CHR ''a'') (CHR ''f'') (hex_digit n)" if "n < 16" for n
    using that by (auto simp: in_range_def hex_digit_def of_char_of take_bit_eq_mod)
  have "b div 16 < 16" if "b < 256" for b :: nat using that by (simp add: div_less_iff_less_mult)
  then have "\<forall>c \<in> set (toHex bs). in_range (CHR ''0'') (CHR ''9'') c \<or> in_range (CHR ''a'') (CHR ''f'') c"
    if "\<forall>b \<in> set bs. b < 256" for bs
    using that d by (auto simp: toHex_def hex_byte_def)
  then have "\<forall>c \<in> set (sha256Hex s). in_range (CHR ''0'') (CHR ''9'') c \<or> in_range (CHR ''a'') (CHR ''f'') c"
    unfolding sha256Hex_def using sha256_bytes by blast
  then show ?thesis by (simp add: hex64_def list_all_iff length_sha256Hex)
qed

definition demo_enc :: string where
  "demo_enc = (case encryptField demo_seal demo_ring (be_bytes 12 6) demo_seed of Inl e \<Rightarrow> [] | Inr enc \<Rightarrow> enc)"

lemma demo_encrypted:
  "encryptField demo_seal demo_ring (be_bytes 12 6) demo_seed = Inr demo_enc"
  "decryptField demo_unseal demo_ring demo_enc = Inr demo_seed"
proof -
  show enc: "encryptField demo_seal demo_ring (be_bytes 12 6) demo_seed = Inr demo_enc"
    by (simp add: demo_enc_def encryptField_def demo_ring_def demo_seal_def)
  note ring = buildKeyRing_ok [OF demo_ring_built]
  obtain key where key: "map_of (ringKeys demo_ring) (ringActive demo_ring) = Some key" using ring by auto
  show "decryptField demo_unseal demo_ring demo_enc = Inr demo_seed"
    by (rule decrypt_encrypt(1) [OF key _ demo_gcm_ok _ _ enc key])
       (use ring in \<open>auto simp: IV_BYTES_def be_bytes_def\<close>)
qed

definition demo_commitment :: Commitment where
  "demo_commitment = \<lparr>cmId = ''m1'', cmBreakId = ''b1'', cmCommitment = sha256Hex demo_seed,
     cmSeedEncrypted = demo_enc, cmClientSeed = None, cmRevealedSeed = None, cmSlotCount = 2,
     cmAlgorithm = ''v1'', cmCommittedAt = 2, cmRevealedAt = None\<rparr>"

lemma step_commit:
  "break_step demo_platform (CommitBreak ''ann'' ''b1'' 2 5 6 ''m1'' 2) (demo_before\<lparr>breakRows := [demo_break]\<rparr>)
    = Inr (demo_before\<lparr>breakRows := [demo_break], commitmentRows := [demo_commitment]\<rparr>)"
  using demo_encrypted(1) [unfolded demo_seed_def]
  by (simp add: break_step_def commits_def commitBreak_def generateToken_def MIN_TOKEN_BYTES_def select_own_break_def
    break_owned_def demo_break_def demo_platform_def insert_commitment_def int4_def commitment_owned_def
    commitment_checks_def demo_before_def no_breaks_def commitmentFor_def demo_seed_def demo_commitment_def
    SHUFFLE_ALGORITHM_def)

definition demo_live :: Break where
  "demo_live = demo_break\<lparr>bStatus := Live, bStartedAt := Some 3, bUpdatedAt := 3\<rparr>"

definition demo_ended :: Break where
  "demo_ended = demo_live\<lparr>bStatus := Ended, bEndedAt := Some 9, bUpdatedAt := 9\<rparr>"

definition demo_input :: LogPullInput where
  "demo_input = \<lparr>lpCardVariantId = Some ''v1'', lpLabel = None, lpValueCentsAtPull = Some 250\<rparr>"

definition demo_row :: BreakPull where
  "demo_row = next_pull ''b1'' demo_input (250, Manual) ''p1'' 4 None"

lemma step_live: "break_step demo_platform (SetBreakStatus ''ann'' ''b1'' Live 3)
     (demo_before\<lparr>breakRows := [demo_break], commitmentRows := cs\<rparr>)
   = Inr (demo_before\<lparr>breakRows := [demo_live], commitmentRows := cs\<rparr>)"
  by (simp add: break_step_def commits_def setBreakStatus_def select_own_break_def break_owned_def updated_break_def
    update_break_def status_set_def demo_break_def demo_live_def break_int4_def int4_def break_checks_def https_url_def not_blank_def
    break_unique_violation_def)

lemma step_pull: "break_step demo_platform (LogPull ''ann'' ''b1'' demo_input ''p1'' 4 0)
     (demo_before\<lparr>breakRows := [demo_live], commitmentRows := cs\<rparr>)
   = Inr (demo_before\<lparr>breakRows := [demo_live], commitmentRows := cs, pullRows := [demo_row]\<rparr>)"
  by (simp add: break_step_def commits_def logPull_def Let_def select_own_break_def break_owned_def
    demo_break_def demo_live_def int4_def demo_row_def demo_before_def no_breaks_def select_pulls_def MAX_PULLS_PER_BREAK_def
    last_pull_def pull_value_def demo_input_def insert_pull_def next_pull_def pull_insert_allowed_def pull_checks_def pull_unique_violation_def)

lemma step_seed: "break_step demo_platform (SetClientSeed ''ann'' ''b1'' ''lucky'')
     (demo_before\<lparr>breakRows := [demo_live], commitmentRows := [demo_commitment], pullRows := ps\<rparr>)
   = Inr (demo_before\<lparr>breakRows := [demo_live],
        commitmentRows := [demo_commitment\<lparr>cmClientSeed := Some ''lucky''\<rparr>], pullRows := ps\<rparr>)"
proof -
  have "trim ''lucky'' = ''lucky''" by code_simp
  then show ?thesis
  by (simp add: break_step_def commits_def setClientSeed_def Let_def update_commitment_def commitment_owned_def
    demo_break_def demo_live_def demo_commitment_def commitment_checks_def)
qed

lemma step_end: "break_step demo_platform (SetBreakStatus ''ann'' ''b1'' Ended 9)
     (demo_before\<lparr>breakRows := [demo_live], commitmentRows := cs, pullRows := ps\<rparr>)
   = Inr (demo_before\<lparr>breakRows := [demo_ended], commitmentRows := cs, pullRows := ps\<rparr>)"
  by (simp add: break_step_def commits_def setBreakStatus_def select_own_break_def break_owned_def updated_break_def
    update_break_def status_set_def demo_break_def demo_live_def demo_ended_def break_int4_def int4_def break_checks_def https_url_def not_blank_def
    break_unique_violation_def)

lemma demo_platform_ok: "platform_ok demo_platform"
  using demo_gcm_ok demo_ring_built by (auto simp: platform_ok_def demo_platform_def)

definition demo_ops :: "break_op list" where
  "demo_ops =
     [demo_create, CommitBreak ''ann'' ''b1'' 2 5 6 ''m1'' 2, SetBreakStatus ''ann'' ''b1'' Live 3,
      LogPull ''ann'' ''b1'' demo_input ''p1'' 4 0, SetClientSeed ''ann'' ''b1'' ''lucky'',
      SetBreakStatus ''ann'' ''b1'' Ended 9]"

text \<open>The whole run.\<close>

definition demo_after :: break_db where
  "demo_after = demo_before\<lparr>breakRows := [demo_ended],
     commitmentRows := [demo_commitment\<lparr>cmClientSeed := Some ''lucky''\<rparr>], pullRows := [demo_row]\<rparr>"

lemma demo_run: "run_txns (break_step demo_platform) demo_before demo_ops = demo_after"
  by (simp add: demo_ops_def step_create step_commit step_live step_pull step_seed step_end demo_after_def)

end
