(* ===== verification/BreakProps.thy ===== *)
theory BreakProps
  imports BreakDemo
begin

text \<open>
  What the break machine promises: logs that verify, a history that is only appended to, a reveal
  that honours its commitment, a seed that stays hidden until the end, and an overlay token that
  dies when it is rotated.
\<close>

section \<open>Reachable stores\<close>

definition break_run :: "platform \<Rightarrow> break_db \<Rightarrow> break_op list \<Rightarrow> break_db" where
  "break_run pf db ops = run_txns (break_step pf) db ops"

lemma run_keeps:
  "platform_ok pf \<Longrightarrow> break_inv pf (break_run pf (no_breaks us ps vs ix) ops)"
  unfolding break_run_def by (rule brk.run_inv [OF no_breaks_inv])

lemma break_run_append: "break_run pf db (xs @ ys) = break_run pf (break_run pf db xs) ys"
  unfolding break_run_def by (induction xs arbitrary: db) (auto split: sum.splits)

lemma demo_reached: "break_run demo_platform demo_before demo_ops = demo_after"
  unfolding break_run_def by (rule demo_run)

lemma demo_after_break: "find_break demo_after ''b1'' = Some demo_ended"
  by (simp add: demo_after_def find_break_def demo_ended_def demo_live_def demo_break_def)

section \<open>Pull logs\<close>

lemma group_rows_same:
  "\<forall>r \<in> set rows. plBreakId r = k \<Longrightarrow> group_rows rows [(k, acc)] = [(k, acc @ rows)]"
  by (induction rows arbitrary: acc) (auto simp: map_set_def)

lemma group_rows_one:
  "\<forall>r \<in> set rows. plBreakId r = k \<Longrightarrow> rows \<noteq> [] \<Longrightarrow> group_rows rows [] = [(k, rows)]"
  by (cases rows) (auto simp: map_set_def group_rows_same)

lemma checkChain_statusOf: "checkChain v k db = statusOf (select_pulls v k db)"
proof -
  let ?rows = "select_pulls v k db"
  have ids: "\<forall>r \<in> set ?rows. plBreakId r = k" by (simp add: select_pulls_def)
  have "sort_key plBreakId ?rows = ?rows"
    by (rule sort_key_id_if_sorted) (use ids in \<open>auto simp: sorted_wrt_map sorted_wrt_iff_nth_less\<close>)
  then have c: "checkChains v [k] db = map (\<lambda>(k, bucket). (k, statusOf bucket)) (group_rows ?rows [])"
    by (simp add: checkChains_def select_pulls_def)
  show ?thesis
  proof (cases "?rows = []")
    case True
    then show ?thesis by (simp add: checkChain_def c statusOf_def)
  next
    case False
    then show ?thesis using group_rows_one [OF ids] by (simp add: checkChain_def c)
  qed
qed



section \<open>History\<close>

text \<open>History is only appended to: running any further operations keeps every row of every pull log
  exactly as it was, never turns a break back, never changes a started break's start, an ended
  break's end or its log, and never changes a commitment, an audience seed that was set or a seed
  that was revealed.\<close>

theorem break_history_append_only:
  assumes "platform_ok pf" "s = break_run pf (no_breaks us ps vs ix) ops" "t = break_run pf s more_ops"
  shows "(\<exists>new. pullRows t = pullRows s @ new)
    \<and> (\<forall>k b. find_break s k = Some b \<longrightarrow>
         (\<exists>b'. find_break t k = Some b' \<and> bCreatorId b' = bCreatorId b
            \<and> status_rank (bStatus b) \<le> status_rank (bStatus b')
            \<and> (bStatus b \<noteq> BreakDraft \<longrightarrow> bStartedAt b' = bStartedAt b)
            \<and> (bStatus b = Ended \<longrightarrow> bEndedAt b' = bEndedAt b \<and> log_of k t = log_of k s)))
    \<and> (\<forall>k c. find_row cmBreakId k (commitmentRows s) = Some c \<longrightarrow>
         (\<exists>c'. find_row cmBreakId k (commitmentRows t) = Some c'
            \<and> cmCommitment c' = cmCommitment c \<and> cmSeedEncrypted c' = cmSeedEncrypted c
            \<and> cmSlotCount c' = cmSlotCount c
            \<and> (cmClientSeed c \<noteq> None \<longrightarrow> cmClientSeed c' = cmClientSeed c)
            \<and> (cmRevealedSeed c \<noteq> None \<longrightarrow> cmRevealedSeed c' = cmRevealedSeed c)))"
proof -
  have "store_grows s t"
    unfolding assms(3) break_run_def
    by (rule brk.run_grows [where pf = pf]) (use run_keeps [OF assms(1)] assms(2) in simp)
  then show ?thesis
    unfolding store_grows_def break_grows_def commitment_grows_def by (elim conjE) (intro conjI; blast)
qed

lemma break_history_append_only_witness:
  "\<exists>new. pullRows (break_run demo_platform (break_run demo_platform demo_before demo_ops) demo_ops)
    = [demo_row] @ new"
proof -
  have "\<exists>new. pullRows (break_run demo_platform (break_run demo_platform demo_before demo_ops) demo_ops)
      = pullRows (break_run demo_platform demo_before demo_ops) @ new"
    unfolding demo_before_def by (rule conjunct1 [OF break_history_append_only [OF demo_platform_ok refl refl]])
  then show ?thesis by (simp add: demo_reached demo_after_def)
qed

section \<open>Commit and reveal\<close>

text \<open>C9: A reveal honours the commitment: the order it returns is the one the published check accepts for
  the revealed seed, the audience's seed and the commitment made before the break started; it
  happens only for a break of the caller that has ended, and what it publishes is the committed
  row.\<close>

theorem reveal_honours_commitment:
  assumes "platform_ok pf" "db = break_run pf (no_breaks us ps vs ix) ops"
    "revealBreak (pfOpen pf) u k (pfRing pf) now db = Some (Inr ((p, order), db'))"
  shows "\<exists>b c seed clientSeed.
      find_break db k = Some b \<and> bCreatorId b = u \<and> bStatus b = Ended
    \<and> find_row cmBreakId k (commitmentRows db) = Some c
    \<and> pcCommitment p = cmCommitment c \<and> pcSlotCount p = cmSlotCount c
    \<and> pcRevealedSeed p = Some seed \<and> pcClientSeed p = Some clientSeed
    \<and> commitmentFor seed = cmCommitment c \<and> int (length order) = cmSlotCount c
    \<and> verifyShuffle seed clientSeed k (pcCommitment p) order =
        Inr (Some \<lparr>svValid = True, svCommitmentMatches = True, svOrderMatches = True\<rparr>)"
proof -
  have inv: "break_inv pf db" unfolding assms(2) by (rule run_keeps [OF assms(1)])
  from revealBreak_InrD [OF assms(3)] obtain b c s cs where b: "find_break db k = Some b" "bCreatorId b = u" "bStatus b = Ended"
    and c: "find_row cmBreakId k (commitmentRows db) = Some c" "cmClientSeed c = Some cs"
    and s: "case cmRevealedSeed c of Some r \<Rightarrow> s = r | None \<Rightarrow> decryptField (pfOpen pf) (pfRing pf) (cmSeedEncrypted c) = Inr s"
    and d: "deriveShuffle s cs k (int_num (cmSlotCount c)) = Inr (Some order)"
    and p: "publish_seed u k s now db = Inr (p, db')" by blast
  have "commitment_ok pf db c" using inv find_row_SomeD [OF c(1)] by (auto simp: break_inv_def)
  then have sha: "sha256Hex s = cmCommitment c"
    using s by (auto simp: commitment_ok_def split: option.splits)
  have pc: "pcCommitment p = cmCommitment c" "pcSlotCount p = cmSlotCount c" "pcClientSeed p = Some cs"
    using publish_seed_InrD [OF p c(1)] c(2) by (auto simp: publicColumns_def)
  have "commitment_owned u db c"
    using find_break_SomeD [OF b(1)] b(2) find_row_SomeD [OF c(1)] by (auto simp: commitment_owned_def list_ex_iff)
  then have rev: "pcRevealedSeed p = Some s"
    using p c(1) s c(2) by (auto simp: publish_seed_def update_commitment_def select_commitment_def publicColumns_def
        split: sum.splits option.splits if_splits)
  obtain ds where "order = apply_draws (nat (cmSlotCount c) - 1) ds [0..<nat (cmSlotCount c)]"
    "1 \<le> cmSlotCount c"
    using d shuffle_loop_draws by (auto simp: deriveShuffle_def Let_def split: if_splits) blast
  then have len: "int (length order) = cmSlotCount c" by simp
  then have "verifyShuffle s cs k (pcCommitment p) order =
      Inr (Some \<lparr>svValid = True, svCommitmentMatches = True, svOrderMatches = True\<rparr>)"
    using verifyShuffle_honest [of s cs k order "pcCommitment p"] d sha pc(1) by simp
  with b c pc rev sha len show ?thesis by (auto simp: commitmentFor_def)
qed

lemma demo_shuffle_b1:
  "\<exists>order. deriveShuffle demo_seed ''lucky'' ''b1'' (int_num 2) = Inr (Some order)"
proof -
  have "\<exists>r. shuffle_loop (byteStream demo_seed ''lucky'' ''b1'') 1 [0..<2] 0 = Some r"
  proof (rule shuffle_loop_returns)
    fix b p :: nat
    assume "2 \<le> b" "b \<le> Suc 1"
    then have "b = 2" by simp
    then show "\<exists>k. draw (byteStream demo_seed ''lucky'' ''b1'') (p + 4 * k) < draw_limit b"
      using bs.draw_bound draw_limit_2 by (intro exI [of _ 0]) simp
  qed simp
  moreover have "be_bytes 32 5 \<noteq> []" using length_be_bytes [of 32 5] by (metis list.size(3) zero_neq_numeral)
  then have "length demo_seed \<noteq> 0" unfolding demo_seed_def length_0_conv base64url_Nil .
  ultimately show ?thesis by (auto simp: deriveShuffle_def Let_def)
qed

text \<open>The reveal of the demonstration break succeeds.\<close>

definition demo_revealed :: Commitment where
  "demo_revealed = demo_commitment\<lparr>cmClientSeed := Some ''lucky'', cmRevealedSeed := Some demo_seed,
     cmRevealedAt := Some 10\<rparr>"

lemma demo_publish:
  "publish_seed ''ann'' ''b1'' demo_seed 10 demo_after
     = Inr (publicColumns demo_revealed, demo_after\<lparr>commitmentRows := [demo_revealed]\<rparr>)"
  by (simp add: publish_seed_def update_commitment_def commitment_owned_def commitment_checks_def
      demo_after_def demo_ended_def demo_live_def demo_break_def demo_commitment_def demo_revealed_def)

lemma demo_reveal:
  "\<exists>order. revealBreak demo_unseal ''ann'' ''b1'' demo_ring 10 demo_after =
     Some (Inr ((publicColumns demo_revealed, order), demo_after\<lparr>commitmentRows := [demo_revealed]\<rparr>))"
proof -
  let ?c = "demo_commitment\<lparr>cmClientSeed := Some ''lucky''\<rparr>"
  obtain order where o: "deriveShuffle demo_seed ''lucky'' ''b1'' (int_num 2) = Inr (Some order)"
    using demo_shuffle_b1 by blast
  have ctx: "reveal_context ''ann'' ''b1'' demo_after = Inr (''lucky'', 2)"
    by (simp add: reveal_context_def select_own_break_def break_owned_def select_commitment_def commitment_visible_def
        break_visible_def demo_after_def demo_ended_def demo_live_def demo_break_def demo_commitment_def)
  have row: "find_row cmBreakId ''b1'' (commitmentRows demo_after) = Some ?c"
    by (simp add: demo_after_def demo_commitment_def)
  have dec: "decryptField demo_unseal demo_ring (cmSeedEncrypted ?c) = Inr demo_seed" "cmRevealedSeed ?c = None"
    by (simp_all add: demo_commitment_def demo_encrypted)
  show ?thesis using o ctx row dec demo_publish by (auto simp: revealBreak_def)
qed

lemma reveal_honours_commitment_witness:
  "\<exists>p order db'. revealBreak demo_unseal ''ann'' ''b1'' demo_ring 10 demo_after = Some (Inr ((p, order), db'))
     \<and> length order = 2 \<and> pcCommitment p = sha256Hex demo_seed"
proof -
  obtain p order db' where r: "revealBreak demo_unseal ''ann'' ''b1'' demo_ring 10 demo_after = Some (Inr ((p, order), db'))"
    using demo_reveal by blast
  have "demo_after = break_run demo_platform (no_breaks [''ann''] []
      [\<lparr>cvId = ''v1'', cvCardName = ''Gundam'', cvFinish = ''normal''\<rparr>] []) demo_ops"
    using demo_reached by (simp add: demo_before_def)
  from reveal_honours_commitment [OF demo_platform_ok this, of "''ann''" "''b1''" 10 p order db'] r
  obtain c where "find_row cmBreakId ''b1'' (commitmentRows demo_after) = Some c"
    "pcCommitment p = cmCommitment c" "int (length order) = cmSlotCount c"
    by (auto simp: demo_platform_def)
  then show ?thesis using r by (auto simp: demo_after_def demo_commitment_def)
qed

text \<open>C11: The seed stays secret until the break is over: whatever anybody reads of a commitment, at any
  time, it shows a seed only when its break has ended and the audience's seed was recorded, and
  then it shows the committed one.\<close>

theorem seed_secret_until_end:
  assumes "platform_ok pf" "db = break_run pf (no_breaks us ps vs ix) ops" "getCommitment v k db = Some p"
  shows "\<exists>b. find_break db k = Some b
     \<and> (pcRevealedSeed p = None
        \<or> bStatus b = Ended \<and> pcClientSeed p \<noteq> None \<and> commitmentFor (the (pcRevealedSeed p)) = pcCommitment p)"
proof -
  have inv: "break_inv pf db" unfolding assms(2) by (rule run_keeps [OF assms(1)])
  obtain c where c: "find_row cmBreakId k (commitmentRows db) = Some c" "p = publicColumns c"
    using assms(3) by (auto simp: getCommitment_def select_commitment_def split: option.splits if_splits)
  then have "commitment_ok pf db c" "cmBreakId c = k"
    using inv find_row_SomeD [OF c(1)] by (auto simp: break_inv_def)
  then show ?thesis using c(2)
    by (cases "cmRevealedSeed c") (auto simp: commitment_ok_def publicColumns_def commitmentFor_def)
qed

lemma seed_secret_until_end_witness:
  "getCommitment Anyone ''b1'' (break_run demo_platform demo_before (demo_ops @ [RevealBreak ''ann'' ''b1'' 10]))
     = Some (publicColumns demo_revealed)
   \<and> commitmentFor demo_seed = pcCommitment (publicColumns demo_revealed)"
proof -
  obtain order where r: "revealBreak demo_unseal ''ann'' ''b1'' demo_ring 10 demo_after =
     Some (Inr ((publicColumns demo_revealed, order), demo_after\<lparr>commitmentRows := [demo_revealed]\<rparr>))"
    using demo_reveal by blast
  have "break_run demo_platform demo_before (demo_ops @ [RevealBreak ''ann'' ''b1'' 10])
      = break_run demo_platform demo_after [RevealBreak ''ann'' ''b1'' 10]"
    by (simp only: break_run_append demo_reached)
  also have "\<dots> = demo_after\<lparr>commitmentRows := [demo_revealed]\<rparr>"
    using r by (simp add: break_run_def break_step_def demo_platform_def commits_def)
  finally have db: "break_run demo_platform demo_before (demo_ops @ [RevealBreak ''ann'' ''b1'' 10])
      = demo_after\<lparr>commitmentRows := [demo_revealed]\<rparr>" .
  have g: "getCommitment Anyone ''b1'' (demo_after\<lparr>commitmentRows := [demo_revealed]\<rparr>) = Some (publicColumns demo_revealed)"
    by (simp add: getCommitment_def select_commitment_def commitment_visible_def break_visible_def demo_revealed_def
        demo_commitment_def demo_after_def demo_ended_def demo_live_def demo_break_def)
  from seed_secret_until_end [OF demo_platform_ok db [unfolded demo_before_def, symmetric] g]
  have "commitmentFor demo_seed = pcCommitment (publicColumns demo_revealed)"
    by (auto simp: publicColumns_def demo_revealed_def)
  then show ?thesis using db g by simp
qed

section \<open>Overlay tokens\<close>

text \<open>Rotation kills the old overlay token at once: after it the old hash finds no break, draft or
  not, the new one finds exactly the rotated break, and the version went up by one.\<close>

theorem rotation_kills_old_token:
  assumes "platform_ok pf" "db = break_run pf (no_breaks us ps vs ix) ops" "find_break db k = Some b"
    "rotateOverlayToken u k h now db = Inr (b', db')" "h \<noteq> bOverlayTokenHash b"
  shows "findBreakByOverlayToken (bOverlayTokenHash b) db' = None
     \<and> getOverlayState parse_url href (bOverlayTokenHash b) db' = None
     \<and> findBreakByOverlayToken h db' = Some (k, bStatus b)
     \<and> bOverlayTokenVersion b' = bOverlayTokenVersion b + 1"
proof -
  have inv: "break_inv pf db" unfolding assms(2) by (rule run_keeps [OF assms(1)])
  let ?f = "\<lambda>b. b\<lparr>bOverlayTokenHash := h, bOverlayTokenVersion := bOverlayTokenVersion b + 1, bUpdatedAt := now\<rparr>"
  from update_break_InrD [OF assms(4) [unfolded rotateOverlayToken_def updated_break_Inr]] assms(3)
  have b': "b' = ?f b" and uniq: "break_unique_violation (?f b) (filter (\<lambda>x. bId x \<noteq> k) (breakRows db)) = None"
    and db': "db' = db\<lparr>breakRows := update_row bId k ?f (breakRows db)\<rparr>" by auto
  have d: "distinct (map bId (breakRows db))" "distinct (map bOverlayTokenHash (breakRows db))"
    using inv by (auto simp: break_inv_def)
  have bk: "b \<in> set (breakRows db)" "bId b = k" using find_break_SomeD [OF assms(3)] by auto
  have only: "x = b" if "x \<in> set (breakRows db)" "bId x = k" for x
    using find_row_distinct [OF d(1) that(1)] that(2) assms(3) by (simp add: find_break_def)
  have same: "x = b" if "x \<in> set (breakRows db)" "bOverlayTokenHash x = bOverlayTokenHash b" for x
    using d(2) that bk(1) by (auto simp: distinct_map dest: inj_onD)
  have rows: "set (breakRows db') = (\<lambda>x. if bId x = k then ?f b else x) ` set (breakRows db)"
    using only by (auto simp: db' set_update_row)
  have old: "bOverlayTokenHash x \<noteq> bOverlayTokenHash b" if "x \<in> set (breakRows db')" for x
    using that same bk assms(5) by (auto simp: rows)
  have new: "x = ?f b" if "x \<in> set (breakRows db')" "bOverlayTokenHash x = h" for x
    using that uniq by (auto simp: rows break_unique_violation_def split: if_splits)
  have mem: "?f b \<in> set (breakRows db')" using bk by (auto simp: rows image_iff)
  have "find (\<lambda>x. bOverlayTokenHash x = bOverlayTokenHash b \<and> break_visible (Overlay (bOverlayTokenHash b)) x) (breakRows db') = None"
    using old by (auto simp: find_None_iff)
  moreover have "find (\<lambda>x. bOverlayTokenHash x = h \<and> break_visible (Overlay h) x) (breakRows db') = Some (?f b)"
  proof -
    have "\<exists>x. find (\<lambda>x. bOverlayTokenHash x = h \<and> break_visible (Overlay h) x) (breakRows db') = Some x"
      using mem by (cases "find (\<lambda>x. bOverlayTokenHash x = h \<and> break_visible (Overlay h) x) (breakRows db')")
        (auto simp: find_None_iff break_visible_def)
    then show ?thesis using new by (metis (mono_tags, lifting) find_Some_iff nth_mem)
  qed
  ultimately show ?thesis
    using b' bk(2) by (simp add: findBreakByOverlayToken_def getOverlayState_def)
qed

lemma rotation_kills_old_token_witness:
  "case rotateOverlayToken ''ann'' ''b1'' ''t2'' 11 (break_run demo_platform demo_before demo_ops) of
     Inl e \<Rightarrow> False
   | Inr (b', db') \<Rightarrow> findBreakByOverlayToken ''t1'' db' = None
       \<and> findBreakByOverlayToken ''t2'' db' = Some (''b1'', Ended)"
proof -
  let ?b = "demo_ended\<lparr>bOverlayTokenHash := ''t2'', bOverlayTokenVersion := 2, bUpdatedAt := 11\<rparr>"
  have rot: "rotateOverlayToken ''ann'' ''b1'' ''t2'' 11 demo_after = Inr (?b, demo_after\<lparr>breakRows := [?b]\<rparr>)"
    by (simp add: rotateOverlayToken_def updated_break_def update_break_def break_owned_def break_int4_def int4_def
        break_checks_def https_url_def not_blank_def break_unique_violation_def
        demo_after_def demo_ended_def demo_live_def demo_break_def)
  have "demo_after = break_run demo_platform (no_breaks [''ann''] []
      [\<lparr>cvId = ''v1'', cvCardName = ''Gundam'', cvFinish = ''normal''\<rparr>] []) demo_ops"
    using demo_reached by (simp add: demo_before_def)
  from rotation_kills_old_token [OF demo_platform_ok this demo_after_break rot]
  show ?thesis by (simp add: demo_reached rot demo_ended_def demo_live_def demo_break_def)
qed

section \<open>Logging a pull\<close>

text \<open>The published price a blank is filled with: the most recent one in the window.\<close>

lemma latestIndexValue_Some:
  assumes "latestIndexValue c today db = Some m"
  shows "\<exists>r \<in> set (indexDaily db). ixVariantId r = c \<and> ixCondition r = NM \<and> ixCurrency r = ''USD''
     \<and> today - 30 \<le> ixDay r \<and> ixMedianCents r = m
     \<and> (\<forall>r' \<in> set (indexDaily db). ixVariantId r' = c \<and> ixCondition r' = NM \<and> ixCurrency r' = ''USD''
          \<longrightarrow> ixDay r' \<le> ixDay r)"
proof -
  let ?ok = "\<lambda>r. ixVariantId r = c \<and> ixCondition r = NM \<and> ixCurrency r = ''USD'' \<and> today - 30 \<le> ixDay r"
  let ?rows = "sort_key (\<lambda>r. - ixDay r) (filter ?ok (indexDaily db))"
  obtain r rs where rows: "?rows = r # rs" "m = ixMedianCents r"
    using assms by (auto simp: latestIndexValue_def INDEX_FILL_MAX_AGE_DAYS_def split: list.splits)
  have "sorted (map (\<lambda>r. - ixDay r) ?rows)" by (rule sorted_sort_key)
  then have top: "\<forall>x \<in> set ?rows. ixDay x \<le> ixDay r" unfolding rows(1) by auto
  have in_rows: "x \<in> set ?rows \<longleftrightarrow> x \<in> set (indexDaily db) \<and> ?ok x" for x by simp
  have r: "r \<in> set (indexDaily db) \<and> ?ok r" using rows(1) in_rows [of r] by simp
  have "ixDay r' \<le> ixDay r" if "r' \<in> set (indexDaily db)" "ixVariantId r' = c \<and> ixCondition r' = NM \<and> ixCurrency r' = ''USD''" for r'
    using that top in_rows [of r'] r by (cases "today - 30 \<le> ixDay r'") auto
  with r rows(2) show ?thesis by blast
qed

text \<open>Logging a pull appends one row and touches nothing else: only the owner of a live break below
  the limit can, the row continues the numbering and is linked to the current tip, a value the
  creator typed is recorded as typed, a blank for a named card is recorded as coming from the
  index (with the latest published near-mint price of the last 30 days, or zero), and the log it
  leaves still verifies.\<close>

theorem logPull_appends:
  assumes "platform_ok pf" "db = break_run pf (no_breaks us ps vs ix) ops"
    "logPull u k input newId now today db = Inr (row, db')"
  shows "pullRows db' = pullRows db @ [row] \<and> breakRows db' = breakRows db \<and> commitmentRows db' = commitmentRows db
    \<and> (\<exists>b. find_break db k = Some b \<and> bCreatorId b = u \<and> bStatus b = Live)
    \<and> length (log_of k db) < 2000
    \<and> plBreakId row = k \<and> plSeq row = int (length (log_of k db)) + 1
    \<and> plPrevHash row = Some (chainTip (Person u) k db)
    \<and> (plValueCents row, plValueSource row) =
        (case (lpValueCentsAtPull input, lpCardVariantId input) of
           (Some v, _) \<Rightarrow> (v, Manual)
         | (None, None) \<Rightarrow> (0, Manual)
         | (None, Some c) \<Rightarrow>
             if c = [] then (0, Manual)
             else ((case latestIndexValue c today db of None \<Rightarrow> 0 | Some m \<Rightarrow> m), FromIndex))
    \<and> log_ok (log_of k db')"
proof -
  have inv: "break_inv pf db" unfolding assms(2) by (rule run_keeps [OF assms(1)])
  from logPull_InrD [OF inv assms(3)] obtain b where b: "find_break db k = Some b" "bCreatorId b = u" "bStatus b = Live"
    "length (log_of k db) < MAX_PULLS_PER_BREAK"
    "row = next_pull k input (pull_value input today db) newId now (last_pull (log_of k db))"
    "db' = db\<lparr>pullRows := pullRows db @ [row]\<rparr>" by blast
  have ok: "log_ok (log_of k db)" using inv by (simp add: break_inv_def)
  have sel: "select_pulls (Person u) k db = log_of k db"
    using own_log [OF inv b(1)] b(2) by (simp add: break_visible_def)
  have "plSeq row = int (length (log_of k db)) + 1"
    using last_seq [OF ok] by (auto simp: b(5) next_pull_def Let_def last_pull_def)
  moreover have "plPrevHash row = Some (chainTip (Person u) k db)"
    by (simp add: b(5) next_pull_def Let_def chainTip_def sel)
  moreover have "(plValueCents row, plValueSource row) = pull_value input today db" "plBreakId row = k"
    by (simp_all add: b(5) next_pull_def Let_def)
  moreover have "log_ok (log_of k db')"
    using logPull_keeps [OF inv assms(3)] by (simp add: break_inv_def)
  ultimately show ?thesis
    using b(1-4) by (auto simp: b(6) pull_value_def MAX_PULLS_PER_BREAK_def split: option.splits)
qed

definition demo_live_ops :: "break_op list" where
  "demo_live_ops =
     [demo_create, CommitBreak ''ann'' ''b1'' 2 5 6 ''m1'' 2, SetBreakStatus ''ann'' ''b1'' Live 3]"

lemma logPull_appends_witness:
  "\<exists>row db'. logPull ''ann'' ''b1'' demo_input ''p1'' 4 0 (break_run demo_platform demo_before demo_live_ops) = Inr (row, db')
     \<and> pullRows db' = [row] \<and> plValueCents row = 250 \<and> plPrevHash row = Some GENESIS_HASH"
proof -
  have db: "break_run demo_platform demo_before demo_live_ops
      = demo_before\<lparr>breakRows := [demo_live], commitmentRows := [demo_commitment]\<rparr>"
    by (simp add: break_run_def demo_live_ops_def step_create step_commit step_live)
  obtain row db' where l: "logPull ''ann'' ''b1'' demo_input ''p1'' 4 0 (break_run demo_platform demo_before demo_live_ops) = Inr (row, db')"
    using step_pull [of "[demo_commitment]"] by (auto simp: db break_step_def)
  have tip: "chainTip (Person ''ann'') ''b1'' (break_run demo_platform demo_before demo_live_ops) = GENESIS_HASH"
    unfolding db by (simp add: chainTip_def select_pulls_def last_pull_def demo_before_def no_breaks_def)
  have none: "pullRows (break_run demo_platform demo_before demo_live_ops) = []"
    unfolding db by (simp add: demo_before_def no_breaks_def)
  from logPull_appends [OF demo_platform_ok refl l [unfolded demo_before_def], folded demo_before_def] l tip none
  show ?thesis by (auto simp: demo_input_def)
qed

lemma verify_from_all:
  "verify_from prev xs = None \<Longrightarrow> (r, p, h) \<in> set xs \<Longrightarrow> h = hashPull p r"
  by (induction prev xs rule: verify_from.induct) (auto split: if_splits)

text \<open>An honest log does not survive the catalogue: the chain commits to the card of every pull, the
  foreign key sets it to null when the card's variant is deleted, and from then on the log is
  reported as altered, unless the text of a pull and the same text without its card happen to
  have the same digest.\<close>

theorem deleting_a_variant_breaks_the_chain:
  assumes "platform_ok pf" "db = break_run pf (no_breaks us ps vs ix) ops"
    "find_break db k = Some b" "break_visible v b"
    "p \<in> set (log_of k db)" "plCardVariantId p = Some c"
  shows "csState (checkChain v k db) = ChainValid
     \<and> (csState (checkChain v k (delete_card_variant c db)) = ChainInvalid
        \<or> hashPull (the (plPrevHash p)) (fst (verifiable p))
          = hashPull (the (plPrevHash p)) (fst (verifiable (p\<lparr>plCardVariantId := None\<rparr>))))"
proof -
  have inv: "break_inv pf db" unfolding assms(2) by (rule run_keeps [OF assms(1)])
  let ?f = "\<lambda>p. if plCardVariantId p = Some c then p\<lparr>plCardVariantId := None\<rparr> else p"
  let ?rows = "log_of k db" and ?db = "delete_card_variant c db"
  have ok: "log_ok ?rows" using inv by (simp add: break_inv_def)
  then have hashes: "\<forall>p \<in> set ?rows. plPrevHash p \<noteq> None \<and> plRowHash p \<noteq> None"
    and ver: "verify_from GENESIS_HASH (map linked_row ?rows) = None" by (auto simp: log_ok_def)
  have ne: "?rows \<noteq> []" using assms(5) by auto
  have vis: "pull_visible v ?db q" if "plBreakId q = k" for q
    using find_break_SomeD [OF assms(3)] assms(4) that
    by (auto simp: pull_visible_def list_ex_iff delete_card_variant_def)
  have "filter (\<lambda>q. plBreakId q = k \<and> pull_visible v ?db q) (pullRows ?db) = filter (\<lambda>q. plBreakId q = k) (pullRows ?db)"
    using vis by (intro filter_cong) auto
  also have "\<dots> = map ?f ?rows"
    unfolding log_of_def delete_card_variant_def by (simp add: filter_map comp_def if_distrib [of plBreakId])
  finally have "select_pulls v k ?db = sort_key plSeq (map ?f ?rows)" by (simp add: select_pulls_def)
  moreover have "map plSeq (map ?f ?rows) = map plSeq ?rows" by simp
  then have "sort_key plSeq (map ?f ?rows) = map ?f ?rows"
    using log_seqs [OF ok]
    by (intro sort_key_id_if_sorted) (simp add: sorted_wrt_map sorted_wrt_iff_nth_less del: upt_Suc map_map)
  ultimately have sel: "select_pulls v k ?db = map ?f ?rows" by simp
  have full: "\<not> list_ex (\<lambda>r. plPrevHash r = None \<or> plRowHash r = None) (map ?f ?rows)"
    using hashes by (auto simp: list_ex_iff)
  have "csState (checkChain v k ?db) = ChainInvalid
      \<or> verify_from GENESIS_HASH (map linked_row (map ?f ?rows)) = None"
    unfolding checkChain_statusOf sel statusOf_def
    using ne full by (auto simp: Let_def verifyChain_def split: option.splits)
  moreover have "hashPull (the (plPrevHash p)) (fst (verifiable p))
          = hashPull (the (plPrevHash p)) (fst (verifiable (p\<lparr>plCardVariantId := None\<rparr>)))"
    if "verify_from GENESIS_HASH (map linked_row (map ?f ?rows)) = None"
  proof -
    obtain prev h where ph: "plPrevHash p = Some prev" "plRowHash p = Some h" using hashes assms(5) by blast
    have "linked_row p \<in> set (map linked_row ?rows)" using assms(5) by simp
    then have 1: "h = hashPull prev (fst (verifiable p))"
      using verify_from_all [OF ver, of "fst (verifiable p)" prev h] ph by (simp add: linked_row_def)
    have "linked_row (?f p) \<in> set (map linked_row (map ?f ?rows))" using assms(5) by (simp only: set_map) blast
    then have "h = hashPull prev (fst (verifiable (p\<lparr>plCardVariantId := None\<rparr>)))"
      using verify_from_all [OF that, of "fst (verifiable (p\<lparr>plCardVariantId := None\<rparr>))" prev h] ph assms(6)
      by (simp add: linked_row_def)
    with 1 ph show ?thesis by simp
  qed
  moreover have "csState (checkChain v k db) = ChainValid"
  proof -
    have "select_pulls v k db = ?rows" by (rule own_log [OF inv assms(3,4)])
    moreover have "\<not> list_ex (\<lambda>r. plPrevHash r = None \<or> plRowHash r = None) ?rows"
      using hashes by (auto simp: list_ex_iff)
    ultimately show ?thesis using ne ver by (simp add: checkChain_statusOf statusOf_def verifyChain_def Let_def)
  qed
  ultimately show ?thesis by blast
qed

lemma deleting_a_variant_breaks_the_chain_witness:
  "csState (checkChain Anyone ''b1'' demo_after) = ChainValid
   \<and> (csState (checkChain Anyone ''b1'' (delete_card_variant ''v1'' demo_after)) = ChainInvalid
      \<or> hashPull GENESIS_HASH (fst (verifiable demo_row))
        = hashPull GENESIS_HASH (fst (verifiable (demo_row\<lparr>plCardVariantId := None\<rparr>))))"
proof -
  have d: "demo_after = break_run demo_platform (no_breaks [''ann''] []
      [\<lparr>cvId = ''v1'', cvCardName = ''Gundam'', cvFinish = ''normal''\<rparr>] []) demo_ops"
    using demo_reached by (simp add: demo_before_def)
  have v: "break_visible Anyone demo_ended" by (simp add: break_visible_def demo_ended_def)
  have p: "demo_row \<in> set (log_of ''b1'' demo_after)" "plCardVariantId demo_row = Some ''v1''"
    "plPrevHash demo_row = Some GENESIS_HASH"
    by (simp_all add: log_of_def demo_after_def demo_row_def next_pull_def Let_def demo_input_def)
  from deleting_a_variant_breaks_the_chain [OF demo_platform_ok d demo_after_break v p(1,2)] p(3)
  show ?thesis by simp
qed

end
