(* ===== verification/ImageInspect.thy ===== *)
theory ImageInspect
  imports Prelude "HOL-Library.Word"
begin

unbundle bit_operations_syntax

text \<open>
  What an uploaded photo is, decided from its bytes (\<open>packages/security/src/images.ts\<close>). A
  \<open>Uint8Array\<close> is a list of 8-bit words; a \<open>DataView\<close> read outside it raises, so every read
  returns a sum and the loops that walk a file return the error when a read does. The second half
  describes JPEG and PNG files as the sequence of their segments and chunks and shows that the
  walks read exactly that structure.
\<close>

type_synonym octets = "8 word list"

datatype view_error = ViewRange

section \<open>Reading bytes\<close>

definition byte_at :: "octets \<Rightarrow> nat \<Rightarrow> 8 word option" where
  "byte_at bytes i = (if i < length bytes then Some (bytes ! i) else None)"

definition big_endian :: "octets \<Rightarrow> nat" where
  "big_endian bytes = foldl (\<lambda>n b. n * 256 + unat b) 0 bytes"

definition view_read :: "nat \<Rightarrow> octets \<Rightarrow> nat \<Rightarrow> view_error + nat" where
  "view_read n bytes i =
     (if i + n \<le> length bytes then Inr (big_endian (take n (drop i bytes))) else Inl ViewRange)"

definition getUint16 :: "octets \<Rightarrow> nat \<Rightarrow> view_error + nat" where
  "getUint16 = view_read 2"

definition getUint32 :: "octets \<Rightarrow> nat \<Rightarrow> view_error + nat" where
  "getUint32 = view_read 4"

definition startsWith :: "octets \<Rightarrow> octets \<Rightarrow> bool" where
  "startsWith bytes pre \<longleftrightarrow>
     \<not> length bytes < length pre
       \<and> list_all (\<lambda>i. byte_at bytes i = Some (pre ! i)) [0..<length pre]"

definition endsWith :: "octets \<Rightarrow> octets \<Rightarrow> bool" where
  "endsWith bytes suf \<longleftrightarrow>
     \<not> length bytes < length suf
       \<and> list_all (\<lambda>i. byte_at bytes (length bytes - length suf + i) = Some (suf ! i)) [0..<length suf]"

section \<open>Limits, types and rejections\<close>

datatype ImageType = Jpeg | Png

definition MAX_PHOTO_BYTES :: nat where "MAX_PHOTO_BYTES = 10 * 1024 * 1024"
definition MAX_PHOTO_DIMENSION :: nat where "MAX_PHOTO_DIMENSION = 8000"
definition MAX_PHOTO_PIXELS :: nat where "MAX_PHOTO_PIXELS = 24000000"
definition MIN_PHOTO_DIMENSION :: nat where "MIN_PHOTO_DIMENSION = 200"

datatype ImageRejection =
    Not_an_image
  | Type_mismatch
  | Too_large
  | Too_small
  | Dimensions_too_large
  | Too_many_pixels
  | Malformed
  | Trailing_data

definition JPEG_SOI :: octets where "JPEG_SOI = [0xff, 0xd8]"

definition PNG_SIGNATURE :: octets where
  "PNG_SIGNATURE = [0x89, 0x50, 0x4e, 0x47, 0x0d, 0x0a, 0x1a, 0x0a]"

definition PNG_IEND :: octets where
  "PNG_IEND = [0x00, 0x00, 0x00, 0x00, 0x49, 0x45, 0x4e, 0x44, 0xae, 0x42, 0x60, 0x82]"

definition sniffImageType :: "octets \<Rightarrow> ImageType option" where
  "sniffImageType bytes =
     (if startsWith bytes PNG_SIGNATURE then Some Png
      else if startsWith bytes JPEG_SOI then Some Jpeg
      else None)"

section \<open>Dimensions\<close>

record ImageHeader =
  ihType :: ImageType
  ihWidth :: nat
  ihHeight :: nat

definition readPngHeader :: "octets \<Rightarrow> view_error + ImageHeader option" where
  "readPngHeader bytes =
     (if length bytes < 24 then Inr None
      else case getUint32 bytes 12 of
        Inl e \<Rightarrow> Inl e
      | Inr ct \<Rightarrow>
        if ct \<noteq> 0x49484452 then Inr None
        else (case getUint32 bytes 16 of
          Inl e \<Rightarrow> Inl e
        | Inr w \<Rightarrow> (case getUint32 bytes 20 of
            Inl e \<Rightarrow> Inl e
          | Inr h \<Rightarrow> Inr (Some \<lparr>ihType = Png, ihWidth = w, ihHeight = h\<rparr>))))"

definition standalone :: "8 word \<Rightarrow> bool" where
  "standalone marker \<longleftrightarrow> marker = 0xd8 \<or> marker = 0xd9 \<or> (0xd0 \<le> marker \<and> marker \<le> 0xd7)"

definition isFrameHeader :: "8 word \<Rightarrow> bool" where
  "isFrameHeader marker \<longleftrightarrow>
     0xc0 \<le> marker \<and> marker \<le> 0xcf \<and> marker \<noteq> 0xc4 \<and> marker \<noteq> 0xc8 \<and> marker \<noteq> 0xcc"

function jpeg_walk :: "octets \<Rightarrow> nat \<Rightarrow> view_error + ImageHeader option" where
  "jpeg_walk bytes offset =
     (if offset + 3 < length bytes then
        if byte_at bytes offset \<noteq> Some 0xff then Inr None
        else case byte_at bytes (offset + 1) of
          None \<Rightarrow> Inr None
        | Some marker \<Rightarrow>
          if marker = 0xff then jpeg_walk bytes (offset + 1)
          else if standalone marker then jpeg_walk bytes (offset + 2)
          else if marker = 0xda then Inr None
          else case getUint16 bytes (offset + 2) of
            Inl e \<Rightarrow> Inl e
          | Inr len \<Rightarrow>
            if len < 2 then Inr None
            else if isFrameHeader marker then
              if offset + 9 \<ge> length bytes then Inr None
              else (case getUint16 bytes (offset + 5) of
                Inl e \<Rightarrow> Inl e
              | Inr h \<Rightarrow> (case getUint16 bytes (offset + 7) of
                  Inl e \<Rightarrow> Inl e
                | Inr w \<Rightarrow> Inr (Some \<lparr>ihType = Jpeg, ihWidth = w, ihHeight = h\<rparr>)))
            else jpeg_walk bytes (offset + (2 + len))
      else Inr None)"
  by pat_completeness auto
termination
  by (relation "measure (\<lambda>(bytes, offset). length bytes - offset)") auto

declare jpeg_walk.simps [simp del]

definition readJpegHeader :: "octets \<Rightarrow> view_error + ImageHeader option" where
  "readJpegHeader bytes = jpeg_walk bytes 2"

definition readImageHeader :: "octets \<Rightarrow> view_error + ImageHeader option" where
  "readImageHeader bytes =
     (case sniffImageType bytes of
        Some Png \<Rightarrow> readPngHeader bytes
      | Some Jpeg \<Rightarrow> readJpegHeader bytes
      | None \<Rightarrow> Inr None)"

definition endsCleanly :: "octets \<Rightarrow> bool" where
  "endsCleanly bytes =
     (case sniffImageType bytes of
        Some Png \<Rightarrow> endsWith bytes PNG_IEND
      | Some Jpeg \<Rightarrow> endsWith bytes [0xff, 0xd9]
      | None \<Rightarrow> False)"

section \<open>EXIF\<close>

function exif_walk :: "octets \<Rightarrow> nat \<Rightarrow> view_error + bool" where
  "exif_walk bytes offset =
     (if offset + 3 < length bytes then
        if byte_at bytes offset \<noteq> Some 0xff then Inr False
        else case byte_at bytes (offset + 1) of
          None \<Rightarrow> Inr False
        | Some marker \<Rightarrow>
          if marker = 0xff then exif_walk bytes (offset + 1)
          else if standalone marker then exif_walk bytes (offset + 2)
          else if marker = 0xda then Inr False
          else case getUint16 bytes (offset + 2) of
            Inl e \<Rightarrow> Inl e
          | Inr len \<Rightarrow>
            if len < 2 then Inr False
            else if marker = 0xe1 \<and> offset + 8 < length bytes then
              (case getUint32 bytes (offset + 4) of
                 Inl e \<Rightarrow> Inl e
               | Inr name \<Rightarrow> if name = 0x45786966 then Inr True
                            else exif_walk bytes (offset + (2 + len)))
            else exif_walk bytes (offset + (2 + len))
      else Inr False)"
  by pat_completeness auto
termination
  by (relation "measure (\<lambda>(bytes, offset). length bytes - offset)") auto

declare exif_walk.simps [simp del]

definition findJpegApp1Exif :: "octets \<Rightarrow> view_error + bool" where
  "findJpegApp1Exif bytes = exif_walk bytes 2"

definition chunkType :: "string \<Rightarrow> 32 word" where
  "chunkType name = foldl (\<lambda>w c. push_bit 8 w OR word_of_nat (of_char c)) 0 name"

function chunk_walk :: "octets \<Rightarrow> nat \<Rightarrow> nat \<Rightarrow> view_error + bool" where
  "chunk_walk bytes wanted offset =
     (if offset + 8 \<le> length bytes then
        case getUint32 bytes offset of
          Inl e \<Rightarrow> Inl e
        | Inr len \<Rightarrow> (case getUint32 bytes (offset + 4) of
            Inl e \<Rightarrow> Inl e
          | Inr name \<Rightarrow>
            if name = wanted then Inr True
            else let nxt = offset + (12 + len) in
              if nxt \<le> offset \<or> nxt > length bytes then Inr False
              else chunk_walk bytes wanted nxt)
      else Inr False)"
  by pat_completeness auto
termination
  by (relation "measure (\<lambda>(bytes, wanted, offset). length bytes - offset)") auto

declare chunk_walk.simps [simp del]

definition findPngTextChunk :: "octets \<Rightarrow> string \<Rightarrow> view_error + bool" where
  "findPngTextChunk bytes name = chunk_walk bytes (unat (chunkType name)) 8"

definition hasExif :: "octets \<Rightarrow> view_error + bool" where
  "hasExif bytes =
     (case sniffImageType bytes of
        Some Jpeg \<Rightarrow> findJpegApp1Exif bytes
      | Some Png \<Rightarrow> findPngTextChunk bytes ''eXIf''
      | None \<Rightarrow> Inr False)"

section \<open>The inspection\<close>

datatype inspect_error = ImageRejectedError ImageRejection | InspectRange

record InspectOptions =
  declaredType :: "ImageType option"
  maxBytes :: "nat option"

definition inspectImage :: "octets \<Rightarrow> InspectOptions \<Rightarrow> inspect_error + ImageHeader" where
  "inspectImage bytes options =
     (let limit = (case maxBytes options of None \<Rightarrow> MAX_PHOTO_BYTES | Some n \<Rightarrow> n) in
      if length bytes > limit then Inl (ImageRejectedError Too_large)
      else case sniffImageType bytes of
        None \<Rightarrow> Inl (ImageRejectedError Not_an_image)
      | Some typ \<Rightarrow>
        if declaredType options \<noteq> None \<and> declaredType options \<noteq> Some typ
        then Inl (ImageRejectedError Type_mismatch)
        else case readImageHeader bytes of
          Inl _ \<Rightarrow> Inl InspectRange
        | Inr None \<Rightarrow> Inl (ImageRejectedError Malformed)
        | Inr (Some header) \<Rightarrow>
          if ihWidth header < MIN_PHOTO_DIMENSION \<or> ihHeight header < MIN_PHOTO_DIMENSION
          then Inl (ImageRejectedError Too_small)
          else if ihWidth header > MAX_PHOTO_DIMENSION \<or> ihHeight header > MAX_PHOTO_DIMENSION
          then Inl (ImageRejectedError Dimensions_too_large)
          else if ihWidth header * ihHeight header > MAX_PHOTO_PIXELS
          then Inl (ImageRejectedError Too_many_pixels)
          else if \<not> endsCleanly bytes then Inl (ImageRejectedError Trailing_data)
          else Inr header)"

section \<open>No read leaves the file\<close>

lemma view_read_Inl [simp]: "view_read n bytes i = Inl e \<longleftrightarrow> length bytes < i + n"
  by (cases e) (simp add: view_read_def not_le)

lemma jpeg_walk_safe: "jpeg_walk bytes offset \<noteq> Inl e"
proof (induction bytes offset rule: jpeg_walk.induct)
  case (1 bytes offset)
  show ?case
    using 1 by (subst jpeg_walk.simps) (simp add: getUint16_def split: option.split sum.split)
qed

lemma exif_walk_safe: "exif_walk bytes offset \<noteq> Inl e"
proof (induction bytes offset rule: exif_walk.induct)
  case (1 bytes offset)
  show ?case
    using 1 by (subst exif_walk.simps)
      (simp add: getUint16_def getUint32_def split: option.split sum.split)
qed

lemma chunk_walk_safe: "chunk_walk bytes wanted offset \<noteq> Inl e"
proof (induction bytes wanted offset rule: chunk_walk.induct)
  case (1 bytes wanted offset)
  show ?case
    by (subst chunk_walk.simps)
      (auto simp: getUint32_def Let_def 1 [unfolded getUint32_def] split: sum.split)
qed

lemma png_header_safe: "readPngHeader bytes \<noteq> Inl e"
  by (auto simp: readPngHeader_def getUint32_def split: sum.split)

lemma header_safe: "readImageHeader bytes \<noteq> Inl e"
  by (simp add: readImageHeader_def readJpegHeader_def jpeg_walk_safe png_header_safe
      split: option.split ImageType.split)

lemma exif_safe: "hasExif bytes \<noteq> Inl e"
  by (simp add: hasExif_def findJpegApp1Exif_def findPngTextChunk_def exif_walk_safe
      chunk_walk_safe split: option.split ImageType.split)

text \<open>C14: No file, however it is cut or forged, makes the inspection or the EXIF search read
  outside its bytes: neither ever ends in the range error a \<open>DataView\<close> raises, so an upload is
  either accepted or refused with one of the listed reasons.\<close>

theorem inspection_never_out_of_range:
  "inspectImage bytes options \<noteq> Inl InspectRange \<and> hasExif bytes \<noteq> Inl ViewRange"
  using header_safe [of bytes]
  by (auto simp: inspectImage_def Let_def exif_safe split: option.splits if_splits sum.splits)

section \<open>JPEG and PNG files as sequences of their parts\<close>

text \<open>
  A JPEG file is the start marker, padding bytes, standalone markers and segments with a
  two-byte length that counts itself, and then the scan. A PNG file is the signature and a
  sequence of chunks: length, type, data, checksum.
\<close>

datatype jpeg_part = Fill | Standalone "8 word" | Segment "8 word" octets

record png_chunk =
  ctype :: octets
  cdata :: octets
  ccrc :: octets

datatype photo_file = JpegFile "jpeg_part list" octets | PngFile "png_chunk list"

primrec be_octets :: "nat \<Rightarrow> nat \<Rightarrow> octets" where
  "be_octets 0 x = []"
| "be_octets (Suc n) x = be_octets n (x div 256) @ [word_of_nat (x mod 256)]"

fun part_bytes :: "jpeg_part \<Rightarrow> octets" where
  "part_bytes Fill = [0xff]"
| "part_bytes (Standalone m) = [0xff, m]"
| "part_bytes (Segment m payload) = [0xff, m] @ be_octets 2 (length payload + 2) @ payload"

fun part_ok :: "jpeg_part \<Rightarrow> bool" where
  "part_ok Fill = True"
| "part_ok (Standalone m) = standalone m"
| "part_ok (Segment m payload) =
     (m \<noteq> 0xff \<and> \<not> standalone m \<and> m \<noteq> 0xda \<and> length payload + 2 < 2 ^ 16
        \<and> (isFrameHeader m \<longrightarrow> 5 \<le> length payload))"

definition chunk_bytes :: "png_chunk \<Rightarrow> octets" where
  "chunk_bytes c = be_octets 4 (length (cdata c)) @ ctype c @ cdata c @ ccrc c"

definition chunk_ok :: "png_chunk \<Rightarrow> bool" where
  "chunk_ok c \<longleftrightarrow> length (ctype c) = 4 \<and> length (ccrc c) = 4 \<and> length (cdata c) < 2 ^ 32"

fun file_bytes :: "photo_file \<Rightarrow> octets" where
  "file_bytes (JpegFile parts scan) = JPEG_SOI @ concat (map part_bytes parts) @ scan"
| "file_bytes (PngFile chunks) = PNG_SIGNATURE @ concat (map chunk_bytes chunks)"

fun well_formed :: "photo_file \<Rightarrow> bool" where
  "well_formed (JpegFile parts scan) =
     (list_all part_ok parts \<and> take 2 scan = [0xff, 0xda] \<and> 4 \<le> length scan)"
| "well_formed (PngFile chunks) =
     (list_all chunk_ok chunks
        \<and> (case chunks of [] \<Rightarrow> False
            | c # _ \<Rightarrow> ctype c = [0x49, 0x48, 0x44, 0x52] \<and> 8 \<le> length (cdata c)))"

fun frame_of :: "jpeg_part list \<Rightarrow> ImageHeader option" where
  "frame_of [] = None"
| "frame_of (Segment m p # parts) =
     (if isFrameHeader m
      then Some \<lparr>ihType = Jpeg, ihWidth = big_endian (take 2 (drop 3 p)),
                 ihHeight = big_endian (take 2 (drop 1 p))\<rparr>
      else frame_of parts)"
| "frame_of (_ # parts) = frame_of parts"

fun file_header :: "photo_file \<Rightarrow> ImageHeader option" where
  "file_header (JpegFile parts scan) = frame_of parts"
| "file_header (PngFile []) = None"
| "file_header (PngFile (c # _)) =
     Some \<lparr>ihType = Png, ihWidth = big_endian (take 4 (cdata c)),
           ihHeight = big_endian (take 4 (drop 4 (cdata c)))\<rparr>"

fun is_exif :: "jpeg_part \<Rightarrow> bool" where
  "is_exif (Segment m p) = (m = 0xe1 \<and> take 4 p = [0x45, 0x78, 0x69, 0x66])"
| "is_exif _ = False"

fun carries_exif :: "photo_file \<Rightarrow> bool" where
  "carries_exif (JpegFile parts scan) = list_ex is_exif parts"
| "carries_exif (PngFile chunks) = list_ex (\<lambda>c. ctype c = [0x65, 0x58, 0x49, 0x66]) chunks"

section \<open>The walks follow the parts\<close>

lemma big_endian_snoc [simp]: "big_endian (xs @ [b]) = big_endian xs * 256 + unat b"
  by (simp add: big_endian_def)

lemma big_endian_Nil [simp]: "big_endian [] = 0"
  by (simp add: big_endian_def)

lemma unat_byte: "unat (b :: 8 word) < 256"
  using unsigned_less [of b] by simp

lemma big_endian_inj: "length xs = length ys \<Longrightarrow> big_endian xs = big_endian ys \<Longrightarrow> xs = ys"
proof (induction xs arbitrary: ys rule: rev_induct)
  case (snoc x xs)
  then obtain zs z where ys: "ys = zs @ [z]"
    by (cases ys rule: rev_cases) auto
  then have eq: "big_endian xs * 256 + unat x = big_endian zs * 256 + unat z"
    using snoc.prems by simp
  then have "(big_endian xs * 256 + unat x) div 256 = (big_endian zs * 256 + unat z) div 256"
    "(big_endian xs * 256 + unat x) mod 256 = (big_endian zs * 256 + unat z) mod 256"
    by simp_all
  then have "big_endian xs = big_endian zs" "unat x = unat z"
    using unat_byte [of x] unat_byte [of z] by simp_all
  then show ?case
    using snoc.IH [of zs] snoc.prems ys by (auto simp: word_unat_eq_iff)
qed simp

lemma length_be_octets [simp]: "length (be_octets n x) = n"
  by (induction n arbitrary: x) auto

lemma big_endian_be: "x < 256 ^ n \<Longrightarrow> big_endian (be_octets n x) = x"
proof (induction n arbitrary: x)
  case (Suc n)
  then have "big_endian (be_octets n (x div 256)) = x div 256"
    by (intro Suc.IH) (simp add: less_mult_imp_div_less mult.commute)
  moreover have "unat (word_of_nat (x mod 256) :: 8 word) = x mod 256"
    by (simp add: unat_of_nat)
  ultimately show ?case
    by simp
qed simp

lemma byte_at_drop:
  "drop offset bytes = ys \<Longrightarrow> k < length ys \<Longrightarrow> byte_at bytes (offset + k) = Some (ys ! k)"
  by (auto simp: byte_at_def)

lemma view_read_drop:
  "drop offset bytes = ys \<Longrightarrow> k + n \<le> length ys \<Longrightarrow> 0 < n \<Longrightarrow>
   view_read n bytes (offset + k) = Inr (big_endian (take n (drop k ys)))"
  by (auto simp: view_read_def add.commute)

lemma length_drop_le: "drop offset bytes = ys \<Longrightarrow> offset \<le> length bytes \<Longrightarrow> length bytes = offset + length ys"
  by auto

lemma length_of_drop: "drop offset bytes = ys \<Longrightarrow> ys \<noteq> [] \<Longrightarrow> length bytes = offset + length ys"
  by (metis drop_eq_Nil le_add_diff_inverse length_drop linear)

lemma be_octets_2: "be_octets 2 n = [word_of_nat (n div 256 mod 256), word_of_nat (n mod 256)]"
  by (simp add: numeral_2_eq_2)

text \<open>What the walks see at a part: its two marker bytes and, for a segment, its length.\<close>

lemma at_segment:
  assumes "drop offset bytes = part_bytes (Segment m p) @ rest" "length p + 2 < 2 ^ 16"
  shows "offset + 3 < length bytes" "byte_at bytes offset = Some 0xff"
    "byte_at bytes (offset + 1) = Some m" "getUint16 bytes (offset + 2) = Inr (length p + 2)"
proof -
  have d: "drop offset bytes = 0xff # m # be_octets 2 (length p + 2) @ p @ rest"
    using assms(1) by simp
  show "offset + 3 < length bytes"
    using length_of_drop [OF d] by simp
  show "byte_at bytes offset = Some 0xff" "byte_at bytes (offset + 1) = Some m"
    using byte_at_drop [OF d, of 0] byte_at_drop [OF d, of 1] by simp_all
  show "getUint16 bytes (offset + 2) = Inr (length p + 2)"
    using view_read_drop [OF d, of 2 2] big_endian_be [of "length p + 2" 2] assms(2)
    by (simp add: getUint16_def)
qed

lemma at_short:
  assumes "drop offset bytes = 0xff # m # rest" "2 \<le> length rest"
  shows "offset + 3 < length bytes" "byte_at bytes offset = Some 0xff"
    "byte_at bytes (offset + 1) = Some m"
  using length_of_drop [OF assms(1)] byte_at_drop [OF assms(1), of 0]
    byte_at_drop [OF assms(1), of 1] assms(2) by simp_all

definition part_start :: "octets \<Rightarrow> bool" where
  "part_start rest \<longleftrightarrow> take 1 rest = [0xff] \<and> 3 \<le> length rest"

lemma part_startE: "part_start rest \<Longrightarrow> \<exists>m more. rest = 0xff # m # more \<and> 1 \<le> length more"
  by (cases rest; cases "tl rest") (auto simp: part_start_def)

lemma part_start_parts:
  "part_start scan \<Longrightarrow> part_start (concat (map part_bytes parts) @ scan)"
proof (induction parts)
  case (Cons p parts)
  then show ?case
    by (cases p) (auto simp: part_start_def)
qed simp

lemma jpeg_walk_part:
  assumes "drop offset bytes = part_bytes p @ rest" "part_ok p" "part_start rest"
    and "\<And>m q. p = Segment m q \<Longrightarrow> \<not> isFrameHeader m"
  shows "jpeg_walk bytes offset = jpeg_walk bytes (offset + length (part_bytes p))"
proof (cases p)
  case Fill
  obtain m more where r: "rest = 0xff # m # more" "1 \<le> length more"
    using part_startE [OF assms(3)] by blast
  show ?thesis
    using at_short [of offset bytes "0xff" "m # more"] assms(1) Fill r
    by (subst jpeg_walk.simps) simp
next
  case (Standalone m)
  have m: "standalone m" "m \<noteq> 0xff"
    using assms(2) Standalone by (auto simp: standalone_def)
  show ?thesis
    using at_short [of offset bytes m rest] assms(1,3) Standalone m
    by (subst jpeg_walk.simps) (simp add: part_start_def)
next
  case (Segment m q)
  have ok: "m \<noteq> 0xff" "\<not> standalone m" "m \<noteq> 0xda" "length q + 2 < 2 ^ 16" "\<not> isFrameHeader m"
    using assms(2,4) Segment by auto
  show ?thesis
    using at_segment [of offset bytes m q rest] assms(1) ok unfolding Segment
    by (subst jpeg_walk.simps) (simp add: add.commute add.left_commute)
qed

lemma jpeg_walk_frame:
  assumes "drop offset bytes = part_bytes (Segment m p) @ rest" "part_ok (Segment m p)"
    and "part_start rest" "isFrameHeader m"
  shows "jpeg_walk bytes offset =
     Inr (Some \<lparr>ihType = Jpeg, ihWidth = big_endian (take 2 (drop 3 p)),
                ihHeight = big_endian (take 2 (drop 1 p))\<rparr>)"
proof -
  have d: "drop offset bytes = 0xff # m # be_octets 2 (length p + 2) @ p @ rest"
    using assms(1) by simp
  have ok: "m \<noteq> 0xff" "\<not> standalone m" "m \<noteq> 0xda" "length p + 2 < 2 ^ 16" "5 \<le> length p"
    using assms(2,4) by auto
  have "getUint16 bytes (offset + 5) = Inr (big_endian (take 2 (drop 1 p)))"
    "getUint16 bytes (offset + 7) = Inr (big_endian (take 2 (drop 3 p)))"
    using view_read_drop [OF d, of 5 2] view_read_drop [OF d, of 7 2] ok(5)
    by (simp_all add: getUint16_def)
  moreover have "\<not> length bytes \<le> offset + 9"
    using length_of_drop [OF d] ok(5) assms(3) by (simp add: part_start_def)
  ultimately show ?thesis
    using at_segment [OF assms(1) ok(4)] ok assms(4)
    by (subst jpeg_walk.simps) simp
qed

lemma jpeg_walk_scan:
  assumes "drop offset bytes = scan" "take 2 scan = [0xff, 0xda]" "4 \<le> length scan"
  shows "jpeg_walk bytes offset = Inr None"
proof -
  obtain more where scan: "scan = 0xff # 0xda # more" "2 \<le> length more"
    using assms(2,3) by (cases scan; cases "tl scan") auto
  show ?thesis
    using at_short [of offset bytes "0xda" more] assms(1) scan
    by (subst jpeg_walk.simps) (simp add: standalone_def)
qed

lemma jpeg_walk_parts:
  assumes "take 2 scan = [0xff, 0xda]" "4 \<le> length scan"
  shows "drop offset bytes = concat (map part_bytes parts) @ scan \<Longrightarrow> list_all part_ok parts \<Longrightarrow>
    jpeg_walk bytes offset = Inr (frame_of parts)"
proof (induction parts arbitrary: offset)
  case Nil
  then show ?case
    using jpeg_walk_scan [OF _ assms] by simp
next
  case (Cons p parts)
  have start: "part_start (concat (map part_bytes parts) @ scan)"
    using assms by (intro part_start_parts) (cases scan; auto simp: part_start_def)
  have d: "drop offset bytes = part_bytes p @ concat (map part_bytes parts) @ scan"
    using Cons.prems by simp
  then have rest: "drop (offset + length (part_bytes p)) bytes = concat (map part_bytes parts) @ scan"
    by (metis add.commute append_eq_conv_conj drop_drop)
  show ?case
  proof (cases "\<exists>m q. p = Segment m q \<and> isFrameHeader m")
    case True
    then show ?thesis
      using jpeg_walk_frame [of offset bytes] d start Cons.prems(2) by auto
  next
    case False
    then have "jpeg_walk bytes offset = jpeg_walk bytes (offset + length (part_bytes p))"
      using jpeg_walk_part [OF d _ start] Cons.prems(2) by auto
    moreover have "frame_of (p # parts) = frame_of parts"
      using False by (cases p) auto
    ultimately show ?thesis
      using Cons.IH [OF rest] Cons.prems(2) by simp
  qed
qed

lemma exif_name:
  "length name = 4 \<Longrightarrow> big_endian name = 0x45786966 \<longleftrightarrow> name = [0x45, 0x78, 0x69, 0x66]"
  using big_endian_inj [of name "[0x45, 0x78, 0x69, 0x66]"] by (auto simp: big_endian_def)

lemma exif_prefix:
  assumes "part_start rest"
  shows "take 4 (p @ rest) = [0x45, 0x78, 0x69, 0x66] \<longleftrightarrow> take 4 p = [0x45, 0x78, 0x69, 0x66]"
proof -
  obtain m more where r: "rest = 0xff # m # more"
    using part_startE [OF assms] by blast
  consider "p = []" | a where "p = [a]" | a b where "p = [a, b]" | a b c where "p = [a, b, c]"
    | "4 \<le> length p"
    by (cases p; cases "tl p"; cases "tl (tl p)"; cases "tl (tl (tl p))") auto
  then show ?thesis
    by cases (simp_all add: r)
qed

lemma exif_walk_part:
  assumes "drop offset bytes = part_bytes p @ rest" "part_ok p" "part_start rest"
  shows "exif_walk bytes offset =
     (if is_exif p then Inr True else exif_walk bytes (offset + length (part_bytes p)))"
proof (cases p)
  case Fill
  obtain m more where r: "rest = 0xff # m # more" "1 \<le> length more"
    using part_startE [OF assms(3)] by blast
  show ?thesis
    using at_short [of offset bytes "0xff" "m # more"] assms(1) Fill r
    by (subst exif_walk.simps) simp
next
  case (Standalone m)
  have m: "standalone m" "m \<noteq> 0xff"
    using assms(2) Standalone by (auto simp: standalone_def)
  show ?thesis
    using at_short [of offset bytes m rest] assms(1,3) Standalone m
    by (subst exif_walk.simps) (simp add: part_start_def)
next
  case (Segment m q)
  have ok: "m \<noteq> 0xff" "\<not> standalone m" "m \<noteq> 0xda" "length q + 2 < 2 ^ 16"
    using assms(2) Segment by auto
  have d: "drop offset bytes = 0xff # m # be_octets 2 (length q + 2) @ q @ rest"
    using assms(1) Segment by simp
  note seg = at_segment [of offset bytes m q rest]
  show ?thesis
  proof (cases "offset + 8 < length bytes")
    case True
    then have len: "4 < length (q @ rest)"
      using length_of_drop [OF d] by simp
    then have "getUint32 bytes (offset + 4) = Inr (big_endian (take 4 (q @ rest)))"
      using view_read_drop [OF d, of 4 4] by (simp add: getUint32_def)
    moreover have "big_endian (take 4 (q @ rest)) = 0x45786966 \<longleftrightarrow> take 4 q = [0x45, 0x78, 0x69, 0x66]"
      using exif_name [of "take 4 (q @ rest)"] exif_prefix [OF assms(3), of q] len by simp
    ultimately obtain name where "getUint32 bytes (offset + 4) = Inr name"
      "name = 0x45786966 \<longleftrightarrow> take 4 q = [0x45, 0x78, 0x69, 0x66]"
      by blast
    then show ?thesis
      using seg assms(1) ok True unfolding Segment
      by (subst exif_walk.simps) (simp add: add.commute add.left_commute)
  next
    case False
    then have "length q < 4"
      using length_of_drop [OF d] assms(3) by (simp add: part_start_def)
    then have "take 4 q \<noteq> [0x45, 0x78, 0x69, 0x66]"
      by (auto dest: arg_cong [where f = length])
    then show ?thesis
      using seg assms(1) ok False unfolding Segment
      by (subst exif_walk.simps) (simp add: add.commute add.left_commute)
  qed
qed

lemma exif_walk_parts:
  assumes "take 2 scan = [0xff, 0xda]" "4 \<le> length scan"
  shows "drop offset bytes = concat (map part_bytes parts) @ scan \<Longrightarrow> list_all part_ok parts \<Longrightarrow>
    exif_walk bytes offset = Inr (list_ex is_exif parts)"
proof (induction parts arbitrary: offset)
  case Nil
  obtain more where scan: "scan = 0xff # 0xda # more" "2 \<le> length more"
    using assms by (cases scan; cases "tl scan") auto
  show ?case
    using at_short [of offset bytes "0xda" more] Nil scan
    by (subst exif_walk.simps) (simp add: standalone_def)
next
  case (Cons p parts)
  have start: "part_start (concat (map part_bytes parts) @ scan)"
    using assms by (intro part_start_parts) (cases scan; auto simp: part_start_def)
  have d: "drop offset bytes = part_bytes p @ concat (map part_bytes parts) @ scan"
    using Cons.prems by simp
  then have rest: "drop (offset + length (part_bytes p)) bytes = concat (map part_bytes parts) @ scan"
    by (metis add.commute append_eq_conv_conj drop_drop)
  show ?case
    using exif_walk_part [OF d _ start] Cons.IH [OF rest] Cons.prems(2) by simp
qed

lemma chunk_walk_chunks:
  assumes "length name = 4" "wanted = big_endian name"
  shows "drop offset bytes = concat (map chunk_bytes chunks) \<Longrightarrow> list_all chunk_ok chunks \<Longrightarrow>
    offset \<le> length bytes \<Longrightarrow>
    chunk_walk bytes wanted offset = Inr (list_ex (\<lambda>c. ctype c = name) chunks)"
proof (induction chunks arbitrary: offset)
  case Nil
  then show ?case
    by (subst chunk_walk.simps) simp
next
  case (Cons c chunks)
  have d: "drop offset bytes = be_octets 4 (length (cdata c)) @ ctype c @ cdata c @ ccrc c @
      concat (map chunk_bytes chunks)"
    using Cons.prems(1) by (simp add: chunk_bytes_def [of c])
  have ok: "length (ctype c) = 4" "length (ccrc c) = 4" "length (cdata c) < 2 ^ 32"
    using Cons.prems(2) by (simp_all add: chunk_ok_def)
  have len: "length bytes = offset + 12 + length (cdata c) + length (concat (map chunk_bytes chunks))"
    using length_drop_le [OF d Cons.prems(3)] ok by simp
  have u: "getUint32 bytes offset = Inr (length (cdata c))"
    "getUint32 bytes (offset + 4) = Inr (big_endian (ctype c))"
    using view_read_drop [OF d, of 0 4] view_read_drop [OF d, of 4 4] ok
      big_endian_be [of "length (cdata c)" 4]
    by (simp_all add: getUint32_def)
  have rest: "drop (offset + (12 + length (cdata c))) bytes = concat (map chunk_bytes chunks)"
    using arg_cong [OF d, of "drop (12 + length (cdata c))"] ok by (simp add: add.commute)
  have "big_endian (ctype c) = wanted \<longleftrightarrow> ctype c = name"
    using big_endian_inj [of "ctype c" name] assms ok by auto
  then show ?case
    using Cons.IH [OF rest] Cons.prems(2) len u
    by (subst chunk_walk.simps) (simp add: Let_def)
qed

lemma startsWith_take: "startsWith bytes pre \<longleftrightarrow> take (length pre) bytes = pre"
proof
  assume "startsWith bytes pre"
  then have "length pre \<le> length bytes" "\<forall>i < length pre. bytes ! i = pre ! i"
    by (auto simp: startsWith_def byte_at_def list_all_iff)
  then show "take (length pre) bytes = pre"
    by (intro nth_equalityI) auto
next
  assume t: "take (length pre) bytes = pre"
  then have "length pre \<le> length bytes"
    by (metis length_take min.cobounded1)
  moreover have "bytes ! i = pre ! i" if "i < length pre" for i
    using t that by (metis nth_take)
  ultimately show "startsWith bytes pre"
    by (simp add: startsWith_def byte_at_def list_all_iff)
qed

lemma endsWith_append: "endsWith bytes suf \<Longrightarrow> \<exists>pre. bytes = pre @ suf"
proof -
  assume "endsWith bytes suf"
  then have "length suf \<le> length bytes"
    "\<forall>i < length suf. bytes ! (length bytes - length suf + i) = suf ! i"
    unfolding endsWith_def byte_at_def list_all_iff by (force split: if_splits)+
  then have "drop (length bytes - length suf) bytes = suf"
    by (intro nth_equalityI) auto
  then show "\<exists>pre. bytes = pre @ suf"
    by (metis append_take_drop_id)
qed

lemma sniff_jpeg [simp]: "sniffImageType (JPEG_SOI @ rest) = Some Jpeg"
  by (simp add: sniffImageType_def startsWith_take JPEG_SOI_def PNG_SIGNATURE_def)

lemma sniff_png [simp]: "sniffImageType (PNG_SIGNATURE @ rest) = Some Png"
  by (simp add: sniffImageType_def startsWith_take)

lemma exif_chunk: "unat (chunkType ''eXIf'') = big_endian [0x65, 0x58, 0x49, 0x66]"
  by (simp add: chunkType_def big_endian_def)

lemma png_header_read:
  assumes "chunk_ok c" "ctype c = [0x49, 0x48, 0x44, 0x52]" "8 \<le> length (cdata c)"
  shows "readPngHeader (PNG_SIGNATURE @ chunk_bytes c @ rest) =
    Inr (Some \<lparr>ihType = Png, ihWidth = big_endian (take 4 (cdata c)),
               ihHeight = big_endian (take 4 (drop 4 (cdata c)))\<rparr>)"
proof -
  let ?bytes = "PNG_SIGNATURE @ chunk_bytes c @ rest"
  have d: "drop 12 ?bytes = [0x49, 0x48, 0x44, 0x52] @ cdata c @ ccrc c @ rest"
    by (simp add: PNG_SIGNATURE_def chunk_bytes_def assms(2))
  have "getUint32 ?bytes 12 = Inr 0x49484452"
    "getUint32 ?bytes 16 = Inr (big_endian (take 4 (cdata c)))"
    "getUint32 ?bytes 20 = Inr (big_endian (take 4 (drop 4 (cdata c))))"
    using view_read_drop [OF d, of 0 4] view_read_drop [OF d, of 4 4] view_read_drop [OF d, of 8 4]
      assms(3) by (simp_all add: getUint32_def big_endian_def)
  moreover have "24 \<le> length ?bytes"
    using length_of_drop [OF d] assms(3) by simp
  ultimately show ?thesis
    by (simp add: readPngHeader_def)
qed

lemma png_type: "readPngHeader bytes = Inr (Some h) \<Longrightarrow> ihType h = Png"
  by (auto simp: readPngHeader_def split: if_splits sum.splits)

lemma jpeg_type: "ihType h \<noteq> Jpeg \<Longrightarrow> jpeg_walk bytes offset \<noteq> Inr (Some h)"
proof (induction bytes offset rule: jpeg_walk.induct)
  case (1 bytes offset)
  show ?case
    using 1 by (subst jpeg_walk.simps) (auto split: option.split sum.split)
qed

lemma read_structure:
  assumes "well_formed f"
  shows "readImageHeader (file_bytes f) = Inr (file_header f)
    \<and> hasExif (file_bytes f) = Inr (carries_exif f)"
proof (cases f)
  case (JpegFile parts scan)
  have w: "take 2 scan = [0xff, 0xda]" "4 \<le> length scan" "list_all part_ok parts"
    using assms JpegFile by simp_all
  have d: "drop 2 (file_bytes f) = concat (map part_bytes parts) @ scan"
    by (simp add: JpegFile JPEG_SOI_def)
  show ?thesis
    using jpeg_walk_parts [OF w(1,2) d w(3)] exif_walk_parts [OF w(1,2) d w(3)]
    by (simp add: JpegFile readImageHeader_def readJpegHeader_def hasExif_def findJpegApp1Exif_def)
next
  case (PngFile chunks)
  obtain c cs where c: "chunks = c # cs"
    using assms PngFile by (cases chunks) auto
  have w: "list_all chunk_ok chunks" "chunk_ok c" "ctype c = [0x49, 0x48, 0x44, 0x52]"
    "8 \<le> length (cdata c)"
    using assms PngFile c by simp_all
  have d: "drop 8 (file_bytes f) = concat (map chunk_bytes chunks)"
    by (simp add: PngFile PNG_SIGNATURE_def)
  have "8 \<le> length (file_bytes f)"
    by (simp add: PngFile PNG_SIGNATURE_def)
  then have "chunk_walk (file_bytes f) (unat (chunkType ''eXIf'')) 8 =
      Inr (list_ex (\<lambda>c. ctype c = [0x65, 0x58, 0x49, 0x66]) chunks)"
    using chunk_walk_chunks [OF _ exif_chunk d w(1)] by simp
  then show ?thesis
    using png_header_read [OF w(2,3,4), of "concat (map chunk_bytes cs)"] c
    by (simp add: PngFile readImageHeader_def hasExif_def findPngTextChunk_def)
qed

text \<open>C13: The header and EXIF walks read the structure of the file. For every JPEG made of padding,
  standalone markers, segments and a scan, and every PNG made of chunks with IHDR first, the
  dimensions read are those of the first frame header (never those of a Huffman table, a thumbnail
  inside a segment, or an arithmetic-coding table) or of IHDR, and EXIF is reported exactly when a
  segment or chunk carries it.\<close>

theorem walks_read_the_structure:
  assumes "well_formed f"
  shows "readImageHeader (file_bytes f) = Inr (file_header f)
    \<and> hasExif (file_bytes f) = Inr (carries_exif f)"
  using read_structure [OF assms] by simp

definition demo_jpeg :: photo_file where
  "demo_jpeg = JpegFile
     [Segment 0xe1 [0x45, 0x78, 0x69, 0x66, 0, 0], Fill, Segment 0xc4 [9, 9, 9, 9, 9, 9],
      Segment 0xc0 [8, 0x02, 0x58, 0x03, 0x20, 3]]
     [0xff, 0xda, 0, 8, 1, 2, 3, 0xff, 0xd9]"

lemma demo_jpeg_ok: "well_formed demo_jpeg"
  by (simp add: demo_jpeg_def standalone_def isFrameHeader_def)

lemma demo_jpeg_header:
  "file_header demo_jpeg = Some \<lparr>ihType = Jpeg, ihWidth = 800, ihHeight = 600\<rparr>"
  by (simp add: demo_jpeg_def isFrameHeader_def big_endian_def)

theorem walks_read_the_structure_witness:
  "well_formed demo_jpeg
    \<and> readImageHeader (file_bytes demo_jpeg)
        = Inr (Some \<lparr>ihType = Jpeg, ihWidth = 800, ihHeight = 600\<rparr>)
    \<and> hasExif (file_bytes demo_jpeg) = Inr True"
  using walks_read_the_structure [OF demo_jpeg_ok] demo_jpeg_ok
  by (simp add: demo_jpeg_header) (simp add: demo_jpeg_def)

text \<open>An accepted upload is small to decode. Whatever the file says, acceptance means: its size
  is within the limit, it is of the declared type, both sides are between 200 and 8000, at most
  24 million pixels (96 MB of RGBA) and it ends in its format's terminator; and if the file has a
  segment structure at all, the accepted dimensions are the ones its frame header states.\<close>

theorem accepted_photo_is_bounded:
  assumes "inspectImage bytes options = Inr header"
  shows "length bytes \<le> (case maxBytes options of None \<Rightarrow> 10485760 | Some n \<Rightarrow> n)
    \<and> declaredType options \<in> {None, Some (ihType header)}
    \<and> sniffImageType bytes = Some (ihType header)
    \<and> {ihWidth header, ihHeight header} \<subseteq> {200..8000}
    \<and> 4 * (ihWidth header * ihHeight header) \<le> 96000000
    \<and> (\<exists>pre. bytes = pre @ (case ihType header of Jpeg \<Rightarrow> [0xff, 0xd9] | Png \<Rightarrow> PNG_IEND))
    \<and> {f. well_formed f \<and> file_bytes f = bytes} \<subseteq> {f. file_header f = Some header}"
proof -
  obtain ty where ty: "sniffImageType bytes = Some ty" "readImageHeader bytes = Inr (Some header)"
    "declaredType options \<in> {None, Some ty}" "endsCleanly bytes"
    and lim: "length bytes \<le> (case maxBytes options of None \<Rightarrow> 10485760 | Some n \<Rightarrow> n)"
    "\<not> ihWidth header < 200" "\<not> ihHeight header < 200" "\<not> 8000 < ihWidth header"
    "\<not> 8000 < ihHeight header" "\<not> 24000000 < ihWidth header * ihHeight header"
    using assms
    by (auto simp: inspectImage_def Let_def MAX_PHOTO_BYTES_def MAX_PHOTO_DIMENSION_def
        MIN_PHOTO_DIMENSION_def MAX_PHOTO_PIXELS_def
        split: option.splits if_splits sum.splits)
  have "ihType header = ty"
    using ty(1,2) png_type [of bytes header] jpeg_type [of header bytes 2]
    by (auto simp: readImageHeader_def readJpegHeader_def split: ImageType.splits)
  moreover have "file_header f = Some header" if "well_formed f" "file_bytes f = bytes" for f
    using read_structure [OF that(1)] that(2) ty(2) by simp
  moreover have "4 * (ihWidth header * ihHeight header) \<le> 96000000"
    using lim(6) by linarith
  moreover have "\<exists>pre. bytes = pre @ (case ty of Jpeg \<Rightarrow> [0xff, 0xd9] | Png \<Rightarrow> PNG_IEND)"
    using ty(1,4) by (auto simp: endsCleanly_def split: ImageType.splits dest: endsWith_append)
  ultimately show ?thesis
    using ty lim(1-5) by (intro conjI) auto
qed

definition demo_header :: ImageHeader where
  "demo_header = \<lparr>ihType = Jpeg, ihWidth = 800, ihHeight = 600\<rparr>"

lemma demo_jpeg_accepted:
  "inspectImage (file_bytes demo_jpeg) \<lparr>declaredType = Some Jpeg, maxBytes = None\<rparr> = Inr demo_header"
proof -
  have "sniffImageType (file_bytes demo_jpeg) = Some Jpeg"
    by (simp add: demo_jpeg_def)
  moreover have "length (file_bytes demo_jpeg) \<le> MAX_PHOTO_BYTES"
    by (simp add: demo_jpeg_def JPEG_SOI_def MAX_PHOTO_BYTES_def)
  moreover have "endsCleanly (file_bytes demo_jpeg)"
    by code_simp
  ultimately show ?thesis
    using read_structure [OF demo_jpeg_ok]
    by (simp add: inspectImage_def demo_jpeg_header demo_header_def MAX_PHOTO_DIMENSION_def
        MIN_PHOTO_DIMENSION_def MAX_PHOTO_PIXELS_def)
qed

theorem accepted_photo_is_bounded_witness:
  "sniffImageType (file_bytes demo_jpeg) = Some Jpeg
    \<and> {ihWidth demo_header, ihHeight demo_header} \<subseteq> {200..8000}
    \<and> {f. well_formed f \<and> file_bytes f = file_bytes demo_jpeg} \<subseteq> {f. file_header f = Some demo_header}"
  using accepted_photo_is_bounded [OF demo_jpeg_accepted]
  by (simp add: demo_header_def)

text \<open>
  What the terminator check does not see: a file glued on after the image that ends in the same
  two bytes.
\<close>

lemma payload_with_its_own_terminator_passes:
  "endsCleanly (JPEG_SOI @ img @ [0xff, 0xd9] @ payload @ [0xff, 0xd9])"
proof -
  have "endsWith (JPEG_SOI @ img @ [0xff, 0xd9] @ payload @ [0xff, 0xd9]) [0xff, 0xd9]"
    by (simp add: endsWith_def byte_at_def nth_append upt_rec JPEG_SOI_def)
  then show ?thesis
    by (simp add: endsCleanly_def)
qed

end
