(* ===== verification/Reencode.thy ===== *)
theory Reencode
  imports ImageInspect JsNumber
begin

text \<open>
  Rebuilding an upload from its pixels (\<open>packages/photos/src/reencode.ts\<close>). The decoders of
  \<open>jpeg-js\<close> and \<open>pngjs\<close> and the JPEG encoder are parameters; the size rule and the box filter
  between them are modelled in double arithmetic. A decoder answers with the pixels it read or
  nothing when it throws.
\<close>

definition DISPLAY_MAX_DIMENSION :: nat where "DISPLAY_MAX_DIMENSION = 1600"
definition DISPLAY_JPEG_QUALITY :: nat where "DISPLAY_JPEG_QUALITY = 82"

datatype ReencodeFailure = Unsupported_format | Undecodable | Empty_image

datatype reencode_error = ReencodeError ReencodeFailure | PixelRange

record Pixels =
  pxWidth :: nat
  pxHeight :: nat
  pxData :: octets

record Reencoded =
  reBytes :: octets
  reWidth :: nat
  reHeight :: nat
  reContentType :: string

record codecs =
  png_read :: "octets \<Rightarrow> Pixels option"
  jpeg_decode :: "octets \<Rightarrow> Pixels option"
  jpeg_encode :: "Pixels \<Rightarrow> nat \<Rightarrow> octets"

section \<open>Decoding\<close>

definition isPng :: "octets \<Rightarrow> bool" where
  "isPng bytes =
     list_all (\<lambda>(i, b). byte_at bytes i = Some b)
       (enumerate 0 [0x89, 0x50, 0x4e, 0x47, 0x0d, 0x0a, 0x1a, 0x0a])"

definition isJpeg :: "octets \<Rightarrow> bool" where
  "isJpeg bytes \<longleftrightarrow> byte_at bytes 0 = Some 0xff \<and> byte_at bytes 1 = Some 0xd8"

definition decode_photo :: "codecs \<Rightarrow> octets \<Rightarrow> ReencodeFailure + Pixels" where
  "decode_photo cs bytes =
     (if isPng bytes then
        (case png_read cs bytes of None \<Rightarrow> Inl Undecodable | Some px \<Rightarrow> Inr px)
      else if isJpeg bytes then
        (case jpeg_decode cs bytes of None \<Rightarrow> Inl Undecodable | Some px \<Rightarrow> Inr px)
      else Inl Unsupported_format)"

section \<open>The size of the stored copy\<close>

definition displaySize :: "nat \<Rightarrow> nat \<Rightarrow> nat \<Rightarrow> nat \<times> nat" where
  "displaySize width height mx =
     (let longest = max width height in
      if longest \<le> mx then (width, height)
      else let scale = dbl (of_nat mx / of_nat longest) in
        (nat (max 1 (math_round (dbl (of_nat width * scale)))),
         nat (max 1 (math_round (dbl (of_nat height * scale))))))"

section \<open>The box filter\<close>

text \<open>One channel of one source pixel, over white.\<close>

definition alpha_of :: "8 word \<Rightarrow> rat" where
  "alpha_of a = dbl (of_nat (unat a) / 255)"

definition on_white :: "8 word \<Rightarrow> 8 word \<Rightarrow> rat" where
  "on_white c a =
     dbl (dbl (of_nat (unat c) * alpha_of a) + dbl (255 * dbl (1 - alpha_of a)))"

definition getUint8 :: "octets \<Rightarrow> nat \<Rightarrow> view_error + 8 word" where
  "getUint8 bytes i = (case byte_at bytes i of None \<Rightarrow> Inl ViewRange | Some b \<Rightarrow> Inr b)"

text \<open>The four reads of a source pixel, alpha first, as the loop makes them.\<close>

definition read_pixel :: "octets \<Rightarrow> nat \<Rightarrow> view_error + (8 word \<times> 8 word \<times> 8 word \<times> 8 word)" where
  "read_pixel bytes i =
     (case getUint8 bytes (i + 3) of Inl e \<Rightarrow> Inl e | Inr a \<Rightarrow>
      case getUint8 bytes i of Inl e \<Rightarrow> Inl e | Inr r \<Rightarrow>
      case getUint8 bytes (i + 1) of Inl e \<Rightarrow> Inl e | Inr g \<Rightarrow>
      case getUint8 bytes (i + 2) of Inl e \<Rightarrow> Inl e | Inr b \<Rightarrow> Inr (r, g, b, a))"

fun box_sum :: "octets \<Rightarrow> nat list \<Rightarrow> rat \<times> rat \<times> rat \<times> nat \<Rightarrow> view_error + rat \<times> rat \<times> rat \<times> nat" where
  "box_sum bytes [] acc = Inr acc"
| "box_sum bytes (i # ixs) (sr, sg, sb, n) =
     (case read_pixel bytes i of
        Inl e \<Rightarrow> Inl e
      | Inr (r, g, b, a) \<Rightarrow>
          box_sum bytes ixs
            (dbl (sr + on_white r a), dbl (sg + on_white g a), dbl (sb + on_white b a), n + 1))"

text \<open>The source interval behind one destination coordinate, cut off at the source's edge.\<close>

definition src_span :: "nat \<Rightarrow> nat \<Rightarrow> nat \<Rightarrow> nat list" where
  "src_span src dst x =
     (let ratio = dbl (of_nat src / of_nat dst);
          x0 = nat \<lfloor>dbl (of_nat x * ratio)\<rfloor>;
          x1 = max (x0 + 1) (nat \<lfloor>dbl (of_nat (x + 1) * ratio)\<rfloor>)
      in [x0..<min x1 src])"

text \<open>
  The stored channel: \<open>Math.round\<close> of the mean. With no source pixel the mean is NaN, which a byte
  array stores as 0.
\<close>

definition mean_byte :: "rat \<Rightarrow> nat \<Rightarrow> 8 word" where
  "mean_byte s n = (if n = 0 then 0 else word_of_int (math_round (dbl (s / of_nat n))))"

definition box_pixel :: "Pixels \<Rightarrow> nat list \<Rightarrow> nat list \<Rightarrow> view_error + octets" where
  "box_pixel source rows cols =
     (case box_sum (pxData source)
             (concat (map (\<lambda>sy. map (\<lambda>sx. (sy * pxWidth source + sx) * 4) cols) rows)) (0, 0, 0, 0) of
        Inl e \<Rightarrow> Inl e
      | Inr (r, g, b, n) \<Rightarrow> Inr [mean_byte r n, mean_byte g n, mean_byte b n, 255])"

fun collect :: "(view_error + octets) list \<Rightarrow> view_error + octets" where
  "collect [] = Inr []"
| "collect (p # ps) =
     (case p of
        Inl e \<Rightarrow> Inl e
      | Inr bytes \<Rightarrow> (case collect ps of Inl e \<Rightarrow> Inl e | Inr rest \<Rightarrow> Inr (bytes @ rest)))"

definition resample :: "Pixels \<Rightarrow> nat \<Rightarrow> nat \<Rightarrow> view_error + Pixels" where
  "resample source width height =
     (case collect
             (concat (map (\<lambda>y. map (\<lambda>x. box_pixel source (src_span (pxHeight source) height y)
                                               (src_span (pxWidth source) width x)) [0..<width])
                [0..<height])) of
        Inl e \<Rightarrow> Inl e
      | Inr bytes \<Rightarrow> Inr \<lparr>pxWidth = width, pxHeight = height, pxData = bytes\<rparr>)"

section \<open>Rebuilding\<close>

definition reencodePhoto :: "codecs \<Rightarrow> octets \<Rightarrow> reencode_error + Reencoded" where
  "reencodePhoto cs bytes =
     (case decode_photo cs bytes of
        Inl e \<Rightarrow> Inl (ReencodeError e)
      | Inr decoded \<Rightarrow>
        if pxWidth decoded < 1 \<or> pxHeight decoded < 1 \<or> pxData decoded = []
        then Inl (ReencodeError Empty_image)
        else let target = displaySize (pxWidth decoded) (pxHeight decoded) DISPLAY_MAX_DIMENSION in
          case resample decoded (fst target) (snd target) of
            Inl _ \<Rightarrow> Inl PixelRange
          | Inr pixels \<Rightarrow>
              Inr \<lparr>reBytes = jpeg_encode cs pixels DISPLAY_JPEG_QUALITY, reWidth = pxWidth pixels,
                   reHeight = pxHeight pixels, reContentType = ''image/jpeg''\<rparr>)"

section \<open>The rebuild neither divides by zero nor reads outside the pixels\<close>

lemma dbl_le: "x \<le> of_int m / 2 ^ k \<Longrightarrow> \<bar>m\<bar> \<le> 2 ^ 53 \<Longrightarrow> dbl x \<le> of_int m / 2 ^ k"
  using js.rnd_mono [of x "of_int m / 2 ^ k"] js.rnd_exact [of m k] by simp

lemma ratio_le:
  assumes "0 < d" "n < 2 ^ 16" "n \<le> 2 ^ 16 * d"
  shows "dbl (of_nat n / of_nat d) \<le> of_nat n / of_nat d + 1 / 2 ^ 30"
proof -
  define m where "m = \<lfloor>of_nat n / of_nat d * (2 ^ 30 :: rat)\<rfloor> + 1"
  have "(of_nat n :: rat) \<le> of_nat (2 ^ 16 * d)"
    using assms(3) by (simp only: of_nat_le_iff)
  then have q: "(of_nat n / of_nat d :: rat) \<le> 2 ^ 16" "0 \<le> (of_nat n / of_nat d :: rat)"
    using assms(1) by (simp_all add: divide_le_eq)
  have lo: "of_nat n / of_nat d * (2 ^ 30 :: rat) \<le> of_int m"
    and hi: "of_int m \<le> of_nat n / of_nat d * (2 ^ 30 :: rat) + 1"
    unfolding m_def by linarith+
  have "0 \<le> m"
    unfolding m_def using q(2) by simp
  moreover have "of_int m \<le> (of_int (2 ^ 53) :: rat)"
    using hi mult_right_mono [OF q(1), of "2 ^ 30"] by simp
  ultimately have "\<bar>m\<bar> \<le> 2 ^ 53"
    by (simp only: of_int_le_iff abs_of_nonneg)
  then have "dbl (of_nat n / of_nat d) \<le> of_int m / 2 ^ 30"
    using lo by (intro dbl_le) (simp_all add: le_divide_eq)
  also have "\<dots> \<le> of_nat n / of_nat d + 1 / 2 ^ 30"
    using hi by (simp add: field_simps)
  finally show ?thesis .
qed

lemma src_span_start:
  assumes "x < dst" "dst \<le> src" "src < 2 ^ 16"
  shows "nat \<lfloor>dbl (of_nat x * dbl (of_nat src / of_nat dst))\<rfloor> < src"
proof -
  let ?q = "of_nat src / of_nat dst :: rat"
  have d: "0 < dst" using assms by simp
  have q1: "1 \<le> ?q" using assms d by simp
  have r: "dbl ?q \<le> ?q + 1 / 2 ^ 30"
    using assms d by (intro ratio_le) auto
  have "(of_nat (x + 1) :: rat) \<le> of_nat dst" "(of_nat x :: rat) \<le> of_nat (2 ^ 16)"
    using assms by (simp_all only: of_nat_le_iff)
  then have x: "(of_nat x :: rat) \<le> of_nat dst - 1" "(of_nat x :: rat) \<le> 2 ^ 16"
    by simp_all
  have "of_nat x * dbl ?q \<le> of_nat x * (?q + 1 / 2 ^ 30)"
    using r by (intro mult_left_mono) auto
  also have "\<dots> = of_nat x * ?q + of_nat x / 2 ^ 30"
    by (simp add: distrib_left)
  also have "\<dots> \<le> (of_nat dst - 1) * ?q + 1 / 2"
    using mult_right_mono [OF x(1), of ?q] q1 x(2) by simp
  also have "\<dots> = of_nat src - ?q + 1 / 2"
    using d by (simp add: field_simps)
  also have "\<dots> \<le> of_nat src - 1 + 1 / 2"
    using q1 by linarith
  also have "\<dots> = of_int (2 * int src - 1) / 2 ^ 1"
    by (simp add: field_simps)
  finally have "dbl (of_nat x * dbl ?q) \<le> of_int (2 * int src - 1) / 2 ^ 1"
    by (rule dbl_le) (use assms in auto)
  then have "\<lfloor>dbl (of_nat x * dbl ?q)\<rfloor> < int src"
    by (simp add: floor_less_iff)
  then show ?thesis
    using assms by linarith
qed

lemma src_span_ok:
  assumes "x < dst" "dst \<le> src" "src < 2 ^ 16"
  shows "src_span src dst x \<noteq> []" and "\<forall>i \<in> set (src_span src dst x). i < src"
  using src_span_start [OF assms] by (auto simp: src_span_def Let_def)

lemma display_side:
  fixes side longest :: nat
  assumes "1 \<le> side" "side \<le> longest" "1600 < longest" "longest < 2 ^ 16"
  shows "max 1 (math_round (dbl (of_nat side * dbl (of_nat 1600 / of_nat longest)))) \<le> int (min 1600 side)"
proof -
  let ?q = "of_nat 1600 / of_nat longest :: rat"
  have l: "0 < longest" using assms by simp
  have q: "0 \<le> ?q" "?q \<le> 1" using assms by simp_all
  have r: "dbl ?q \<le> ?q + 1 / 2 ^ 30"
    using assms by (intro ratio_le) auto
  have r1: "dbl ?q \<le> 1"
    using dbl_le [of ?q 1 0] q(2) by simp
  have "of_nat side * dbl ?q \<le> of_nat side * 1"
    using r1 by (intro mult_left_mono) auto
  then have a: "dbl (of_nat side * dbl ?q) \<le> of_nat side"
    using dbl_le [of "of_nat side * dbl ?q" "int side" 0] assms by simp
  have "(of_nat side :: rat) \<le> of_nat longest" "(of_nat side :: rat) \<le> of_nat (2 ^ 16)"
    using assms by (simp_all only: of_nat_le_iff)
  then have s: "(of_nat side :: rat) \<le> of_nat longest" "(of_nat side :: rat) \<le> 2 ^ 16"
    by simp_all
  have "of_nat side * dbl ?q \<le> of_nat side * (?q + 1 / 2 ^ 30)"
    using r by (intro mult_left_mono) auto
  also have "\<dots> = of_nat side * ?q + of_nat side / 2 ^ 30"
    by (simp add: distrib_left)
  also have "\<dots> \<le> 1600 + 1 / 4"
    using mult_right_mono [OF s(1) q(1)] s(2) l by simp
  also have "\<dots> = of_int 6401 / 2 ^ 2"
    by simp
  finally have b: "dbl (of_nat side * dbl ?q) \<le> of_int 6401 / 2 ^ 2"
    by (rule dbl_le) simp
  have "math_round (dbl (of_nat side * dbl ?q)) \<le> int side"
    using a by (simp add: math_round_def floor_le_iff)
  moreover have "math_round (dbl (of_nat side * dbl ?q)) \<le> 1600"
    using b by (simp add: math_round_def floor_le_iff)
  ultimately show ?thesis
    using assms by simp
qed

lemma displaySize_bounds:
  assumes "1 \<le> w" "1 \<le> h" "w < 2 ^ 16" "h < 2 ^ 16" "displaySize w h 1600 = (w', h')"
  shows "1 \<le> w' \<and> w' \<le> min 1600 w \<and> 1 \<le> h' \<and> h' \<le> min 1600 h"
proof (cases "max w h \<le> 1600")
  case True
  then show ?thesis
    using assms by (simp add: displaySize_def)
next
  case False
  then have "w' = nat (max 1 (math_round (dbl (of_nat w * dbl (of_nat 1600 / of_nat (max w h))))))"
    "h' = nat (max 1 (math_round (dbl (of_nat h * dbl (of_nat 1600 / of_nat (max w h))))))"
    using assms(5) unfolding displaySize_def Let_def if_not_P [OF False] by (simp_all only: prod.inject)
  then show ?thesis
    using display_side [of w "max w h"] display_side [of h "max w h"] False assms
    by (simp del: of_nat_numeral) linarith
qed

lemma box_sum_ok:
  "\<forall>i \<in> set ixs. i + 3 < length bytes \<Longrightarrow>
   \<exists>r g b. box_sum bytes ixs (r0, g0, b0, n) = Inr (r, g, b, n + length ixs)"
proof (induction ixs arbitrary: r0 g0 b0 n)
  case (Cons i ixs)
  have "\<exists>r g b a. read_pixel bytes i = Inr (r, g, b, a)"
    using Cons.prems by (simp add: read_pixel_def getUint8_def byte_at_def)
  then show ?case
    using Cons.IH [of _ _ _ "n + 1"] Cons.prems by fastforce
qed simp

definition pixels_ok :: "Pixels \<Rightarrow> bool" where
  "pixels_ok px \<longleftrightarrow>
     pxWidth px < 2 ^ 16 \<and> pxHeight px < 2 ^ 16 \<and> length (pxData px) = 4 * (pxWidth px * pxHeight px)"

lemma pixel_index:
  assumes "sx < w" "sy < h"
  shows "(sy * w + sx) * 4 + 3 < 4 * (w * h :: nat)"
proof -
  have "sy * w + w \<le> h * w"
    using assms(2) by (metis Suc_leI add.commute mult_Suc mult_le_mono1)
  then show ?thesis
    using assms(1) by (simp add: mult.commute)
qed

lemma box_pixel_ok:
  assumes "pixels_ok px" "\<forall>sy \<in> set rows. sy < pxHeight px" "\<forall>sx \<in> set cols. sx < pxWidth px"
  shows "\<exists>r g b. box_pixel px rows cols = Inr [r, g, b, 255]"
proof -
  let ?ixs = "concat (map (\<lambda>sy. map (\<lambda>sx. (sy * pxWidth px + sx) * 4) cols) rows)"
  have "\<forall>i \<in> set ?ixs. i + 3 < length (pxData px)"
    using assms pixel_index unfolding pixels_ok_def by auto
  then show ?thesis
    using box_sum_ok [of ?ixs "pxData px" 0 0 0 0] by (auto simp: box_pixel_def)
qed

lemma collect_ok:
  "\<forall>p \<in> set ps. \<exists>bytes. p = Inr bytes \<and> length bytes = k \<Longrightarrow>
   \<exists>bytes. collect ps = Inr bytes \<and> length bytes = k * length ps"
proof (induction ps)
  case (Cons p ps)
  then show ?case by fastforce
qed simp

lemma resample_ok:
  assumes px: "pixels_ok px" and w: "width \<le> pxWidth px" and h: "height \<le> pxHeight px"
  shows "\<exists>out. resample px width height = Inr out \<and> pxWidth out = width \<and> pxHeight out = height
    \<and> length (pxData out) = 4 * (width * height)"
proof -
  let ?ps = "concat (map (\<lambda>y. map (\<lambda>x. box_pixel px (src_span (pxHeight px) height y)
      (src_span (pxWidth px) width x)) [0..<width]) [0..<height])"
  have "\<exists>bytes. p = Inr bytes \<and> length bytes = 4" if p: "p \<in> set ?ps" for p
  proof -
    obtain x y where xy: "x < width" "y < height"
      and p': "p = box_pixel px (src_span (pxHeight px) height y) (src_span (pxWidth px) width x)"
      using p by auto
    show ?thesis
      using box_pixel_ok [OF px src_span_ok(2) [OF xy(2) h] src_span_ok(2) [OF xy(1) w]] px p'
      by (auto simp: pixels_ok_def)
  qed
  then have "\<exists>bytes. collect ?ps = Inr bytes \<and> length bytes = 4 * length ?ps"
    by (intro collect_ok) auto
  moreover have "length ?ps = width * height"
    by (simp add: length_concat comp_def sum_list_triv)
  ultimately show ?thesis
    by (auto simp: resample_def)
qed

text \<open>What the decoders answer: RGBA pixels, four bytes each, of a picture with 16-bit sides.\<close>

definition codecs_ok :: "codecs \<Rightarrow> bool" where
  "codecs_ok cs \<longleftrightarrow>
     (\<forall>bytes px. png_read cs bytes = Some px \<or> jpeg_decode cs bytes = Some px \<longrightarrow> pixels_ok px)"

lemma decode_ok: "codecs_ok cs \<Longrightarrow> decode_photo cs bytes = Inr px \<Longrightarrow> pixels_ok px"
  by (auto simp: decode_photo_def codecs_ok_def split: if_splits option.splits)

lemma reencode_cases:
  assumes "codecs_ok cs" "decode_photo cs bytes = Inr px" "1 \<le> pxWidth px" "1 \<le> pxHeight px"
  obtains out where "reencodePhoto cs bytes =
      Inr \<lparr>reBytes = jpeg_encode cs out 82, reWidth = pxWidth out, reHeight = pxHeight out,
           reContentType = ''image/jpeg''\<rparr>"
    and "1 \<le> pxWidth out" "pxWidth out \<le> min 1600 (pxWidth px)"
    and "1 \<le> pxHeight out" "pxHeight out \<le> min 1600 (pxHeight px)"
    and "length (pxData out) = 4 * (pxWidth out * pxHeight out)"
proof -
  have px: "pixels_ok px"
    by (rule decode_ok [OF assms(1,2)])
  obtain w h where wh: "displaySize (pxWidth px) (pxHeight px) 1600 = (w, h)"
    by fastforce
  have b: "1 \<le> w \<and> w \<le> min 1600 (pxWidth px) \<and> 1 \<le> h \<and> h \<le> min 1600 (pxHeight px)"
    using displaySize_bounds [OF assms(3,4) _ _ wh] px by (simp add: pixels_ok_def)
  obtain out where out: "resample px w h = Inr out" "pxWidth out = w" "pxHeight out = h"
    "length (pxData out) = 4 * (w * h)"
    using resample_ok [OF px, of w h] b by auto
  have "pxData px \<noteq> []"
    using px assms(3,4) by (auto simp: pixels_ok_def)
  then have "reencodePhoto cs bytes =
      Inr \<lparr>reBytes = jpeg_encode cs out 82, reWidth = pxWidth out, reHeight = pxHeight out,
           reContentType = ''image/jpeg''\<rparr>"
    using assms(2-4) wh out
    by (simp add: reencodePhoto_def Let_def DISPLAY_MAX_DIMENSION_def DISPLAY_JPEG_QUALITY_def)
  then show thesis
    using that [of out] out b by simp
qed


text \<open>A decoder of one picture: two pixels, red and half-transparent black.\<close>

definition demo_pixels :: Pixels where
  "demo_pixels = \<lparr>pxWidth = 2, pxHeight = 1, pxData = [255, 0, 0, 255, 0, 0, 0, 0]\<rparr>"

definition demo_codecs :: codecs where
  "demo_codecs =
     \<lparr>png_read = (\<lambda>_. None), jpeg_decode = (\<lambda>_. Some demo_pixels),
      jpeg_encode = (\<lambda>px q. [0xff, 0xd8] @ pxData px @ [0xff, 0xd9])\<rparr>"

lemma demo_codecs_ok: "codecs_ok demo_codecs"
  by (simp add: codecs_ok_def demo_codecs_def demo_pixels_def pixels_ok_def)

lemma demo_rebuilt: "\<exists>r. reencodePhoto demo_codecs [0xff, 0xd8] = Inr r"
proof -
  have "decode_photo demo_codecs [0xff, 0xd8] = Inr demo_pixels"
    by (simp add: decode_photo_def isPng_def isJpeg_def byte_at_def demo_codecs_def)
  then show ?thesis
    using reencode_cases [OF demo_codecs_ok, of "[0xff, 0xd8]" demo_pixels]
    by (auto simp: demo_pixels_def)
qed


end
