(* ===== verification/Webhook.thy ===== *)
theory Webhook
  imports MarketInvariant Json
begin

text \<open>
  Stripe's webhooks (\<open>apps/api/src/routes/stripe-webhook.ts\<close>): the two endpoints, the claim that
  makes a delivery happen once, and the handlers that turn a checkout, a refund, a dispute or an
  account event into the worker's operations. The payment library's signature check is the
  parameter \<open>verify\<close> (the event, if the signature verifies), and its account status call is
  \<open>account_status\<close>. The rate limit and the logs are not modelled.
\<close>

section \<open>Events\<close>

record StripeEvent =
  evId :: string
  evType :: string
  evObject :: "(string \<times> json) list"

record StripeV2Event =
  ev2Id :: string
  ev2Type :: string
  ev2RelatedId :: "string option"
  ev2RelatedType :: "string option"

record AuditEntry =
  auActorId :: "string option"
  auAction :: string
  auTargetType :: string
  auTargetId :: string

type_synonym api = "market_db \<times> AuditEntry list"

definition writeAuditLog :: "AuditEntry \<Rightarrow> api \<Rightarrow> api" where
  "writeAuditLog entry s = (fst s, snd s @ [entry])"

definition machine_audit :: "string \<Rightarrow> string \<Rightarrow> string \<Rightarrow> AuditEntry" where
  "machine_audit action typ target =
     \<lparr>auActorId = None, auAction = action, auTargetType = typ, auTargetId = target\<rparr>"

section \<open>The handlers\<close>

definition paymentIntentOf :: "(string \<times> json) list \<Rightarrow> string option" where
  "paymentIntentOf charge =
     (case field charge ''payment_intent'' of
        JStr s \<Rightarrow> Some s
      | JObj obj \<Rightarrow> (case field obj ''id'' of JStr s \<Rightarrow> Some s | _ \<Rightarrow> None)
      | _ \<Rightarrow> None)"

text \<open>A refund counts only when both amounts are numbers and all of the charge came back.\<close>

definition full_refund :: "(string \<times> json) list \<Rightarrow> bool" where
  "full_refund charge =
     (case (field charge ''amount'', field charge ''amount_refunded'') of
        (JNum a, JNum r) \<Rightarrow> \<not> js_less r a
      | _ \<Rightarrow> False)"

definition chargeRefunded ::
  "StripeEvent \<Rightarrow> string \<Rightarrow> int \<Rightarrow> api \<Rightarrow> order_error + api" where
  "chargeRefunded event newEv now s =
     (case paymentIntentOf (evObject event) of
        None \<Rightarrow> Inr s
      | Some paymentIntentId \<Rightarrow>
        if \<not> full_refund (evObject event) then Inr s
        else case getOrderByPaymentIntent paymentIntentId (fst s) of
          None \<Rightarrow> Inr s
        | Some order \<Rightarrow>
          case markOrderRefunded (oId order) (Some ''refunded by Stripe'') newEv now (fst s) of
            Inl (IllegalTransition e) \<Rightarrow>
              Inr (writeAuditLog (machine_audit ''order.refund_refused'' ''order'' (oId order)) s)
          | Inl e \<Rightarrow> Inl e
          | Inr (None, db') \<Rightarrow> Inr (db', snd s)
          | Inr (Some _, db') \<Rightarrow>
              Inr (writeAuditLog (machine_audit ''order.refunded'' ''order'' (oId order)) (db', snd s)))"

definition chargeDisputed ::
  "StripeEvent \<Rightarrow> string \<Rightarrow> int \<Rightarrow> api \<Rightarrow> order_error + api" where
  "chargeDisputed event newEv now s =
     (case paymentIntentOf (evObject event) of
        None \<Rightarrow> Inr s
      | Some paymentIntentId \<Rightarrow>
        let reason = (case field (evObject event) ''reason'' of
                        JStr t \<Rightarrow> ''chargeback:'' @ t
                      | _ \<Rightarrow> ''chargeback opened'')
        in case markOrderChargedBack paymentIntentId (Some reason) newEv now (fst s) of
             Inl (IllegalTransition e) \<Rightarrow> Inr s
           | Inl e \<Rightarrow> Inl e
           | Inr (None, db') \<Rightarrow> Inr (db', snd s)
           | Inr (Some order, db') \<Rightarrow>
               Inr (writeAuditLog (machine_audit ''order.chargeback'' ''order'' (oId order)) (db', snd s)))"

definition tax_of :: "json \<Rightarrow> int option" where
  "tax_of v = (case v of JNum n \<Rightarrow> if is_integer n then Some (to_int n) else None | _ \<Rightarrow> None)"

definition checkoutCompleted ::
  "StripeEvent \<Rightarrow> string \<Rightarrow> int \<Rightarrow> api \<Rightarrow> order_error + api" where
  "checkoutCompleted event newEv now s =
     (let session = evObject event in
      if field session ''payment_status'' \<noteq> JStr ''paid'' then Inr s
      else case (opt_field (field session ''metadata'') ''orderId'',
                 field session ''payment_intent'', field session ''id'') of
        (JStr orderId, JStr paymentIntentId, JStr sessionId) \<Rightarrow>
          (case markOrderPaid
                  \<lparr>opOrderId = orderId, opPaymentIntentId = paymentIntentId,
                   opCheckoutSessionId = sessionId,
                   opTaxCents = tax_of (opt_field (field session ''total_details'') ''amount_tax'')\<rparr>
                  newEv now (fst s) of
             Inl (IllegalTransition e) \<Rightarrow>
               Inr (writeAuditLog (machine_audit ''order.payment_refused'' ''order'' orderId) s)
           | Inl e \<Rightarrow> Inl e
           | Inr (PaidApplied order, db') \<Rightarrow>
               Inr (writeAuditLog (machine_audit ''order.paid'' ''order'' (oId order)) (db', snd s))
           | Inr (_, db') \<Rightarrow> Inr (db', snd s))
      | _ \<Rightarrow> Inr s)"

definition handle :: "StripeEvent \<Rightarrow> string \<Rightarrow> int \<Rightarrow> api \<Rightarrow> order_error + api" where
  "handle event newEv now s =
     (if evType event = ''checkout.session.completed'' then checkoutCompleted event newEv now s
      else if evType event = ''charge.refunded'' then chargeRefunded event newEv now s
      else if evType event = ''charge.dispute.created'' then chargeDisputed event newEv now s
      else Inr s)"

definition handleV2 ::
  "(string \<Rightarrow> string \<times> string) \<Rightarrow> StripeV2Event \<Rightarrow> int \<Rightarrow> api \<Rightarrow> api" where
  "handleV2 account_status event now s =
     (if ev2RelatedType event \<noteq> Some ''v2.core.account'' \<or> ev2RelatedId event = None then s
      else
        let accountId = the (ev2RelatedId event);
            (transfers, payouts) = account_status accountId;
            chargesEnabled = (transfers = ''active'');
            payoutsEnabled = (payouts = ''active'');
            (updated, db') =
              updateSellerCapabilities accountId chargesEnabled payoutsEnabled now (fst s)
        in if \<not> updated then (db', snd s)
           else writeAuditLog
             (machine_audit (if chargesEnabled then ''seller.enabled'' else ''seller.disabled'')
               ''seller_account'' accountId) (db', snd s))"

section \<open>The endpoints\<close>

datatype webhook_reply =
    MissingSignature | InvalidSignature | Received | ReceivedDuplicate | InternalError

text \<open>
  One transaction: claim, handle, mark processed. A handler that throws takes the claim with it,
  so the next delivery starts afresh.
\<close>

definition webhookPost ::
  "(string \<Rightarrow> string \<Rightarrow> StripeEvent option) \<Rightarrow> string \<Rightarrow> string option \<Rightarrow> string \<Rightarrow> string
     \<Rightarrow> int \<Rightarrow> api \<Rightarrow> webhook_reply \<times> api" where
  "webhookPost verify body signature newClaim newEv now s =
     (case signature of
        None \<Rightarrow> (MissingSignature, s)
      | Some sig \<Rightarrow>
        (case verify body sig of
           None \<Rightarrow> (InvalidSignature, s)
         | Some event \<Rightarrow>
           (case claimWebhookEvent ''stripe'' (evId event) (evType event) newClaim now (fst s) of
              (NotClaimed, _) \<Rightarrow> (ReceivedDuplicate, s)
            | (Claimed k, db1) \<Rightarrow>
              (case handle event newEv now (db1, snd s) of
                 Inl e \<Rightarrow> (InternalError, s)
               | Inr (db2, audit) \<Rightarrow> (Received, (markWebhookProcessed k now db2, audit))))))"

definition webhookV2Post ::
  "(string \<Rightarrow> string \<Rightarrow> StripeV2Event option) \<Rightarrow> (string \<Rightarrow> string \<times> string) \<Rightarrow> string
     \<Rightarrow> string option \<Rightarrow> string \<Rightarrow> int \<Rightarrow> api \<Rightarrow> webhook_reply \<times> api" where
  "webhookV2Post verify account_status body signature newClaim now s =
     (case signature of
        None \<Rightarrow> (MissingSignature, s)
      | Some sig \<Rightarrow>
        (case verify body sig of
           None \<Rightarrow> (InvalidSignature, s)
         | Some event \<Rightarrow>
           (case claimWebhookEvent ''stripe'' (ev2Id event) (ev2Type event) newClaim now (fst s) of
              (NotClaimed, _) \<Rightarrow> (ReceivedDuplicate, s)
            | (Claimed k, db1) \<Rightarrow>
              (let (db2, audit) = handleV2 account_status event now (db1, snd s)
               in (Received, (markWebhookProcessed k now db2, audit))))))"

section \<open>What a delivery does\<close>

text \<open>
  A delivery acts on the store only through the machine's operations: the claim, at most one order
  operation of the worker, and the mark.
\<close>

lemma chargeRefunded_Inr:
  assumes "chargeRefunded event newEv now s = Inr s'"
  shows "fst s' = fst s \<or>
    (\<exists>order r. full_refund (evObject event)
       \<and> (\<exists>p. paymentIntentOf (evObject event) = Some p \<and> getOrderByPaymentIntent p (fst s) = Some order)
       \<and> markOrderRefunded (oId order) (Some ''refunded by Stripe'') newEv now (fst s) = Inr (r, fst s'))"
  using assms
  by (auto simp: chargeRefunded_def writeAuditLog_def
      split: if_splits option.splits sum.splits order_error.splits prod.splits)

lemma chargeDisputed_Inr:
  assumes "chargeDisputed event newEv now s = Inr s'"
  shows "fst s' = fst s \<or>
    (\<exists>p t r. markOrderChargedBack p t newEv now (fst s) = Inr (r, fst s'))"
  using assms
  by (auto simp: chargeDisputed_def writeAuditLog_def Let_def
      split: option.splits sum.splits order_error.splits prod.splits)

lemma checkoutCompleted_Inr:
  assumes "checkoutCompleted event newEv now s = Inr s'"
  shows "fst s' = fst s \<or>
    (\<exists>i r. field (evObject event) ''payment_status'' = JStr ''paid''
       \<and> opt_field (field (evObject event) ''metadata'') ''orderId'' = JStr (opOrderId i)
       \<and> field (evObject event) ''payment_intent'' = JStr (opPaymentIntentId i)
       \<and> markOrderPaid i newEv now (fst s) = Inr (r, fst s'))"
  using assms
  by (auto simp: checkoutCompleted_def writeAuditLog_def Let_def
      split: if_splits json.splits sum.splits order_error.splits OrderPaidResult.splits prod.splits)

lemma one_of_four:
  "(if a then w else if b then x else if c then y else z) = r \<Longrightarrow> w = r \<or> x = r \<or> y = r \<or> z = r"
  by (simp split: if_splits)

text \<open>The order operation a handled event runs, if it runs one.\<close>

lemma handle_step:
  assumes "handle event newEv now s = Inr s'"
  shows "fst s' = fst s \<or> (\<exists>x. order_session x = Worker \<and> market_step (OrderOp x) (fst s) = Inr (fst s'))"
proof -
  have paid: "?thesis" if "markOrderPaid i newEv now (fst s) = Inr (r, fst s')" for i r
    using that by (intro disjI2 exI [of _ "MarkPaid i newEv now"]) (auto simp: committed_Inr)
  have refunded: "?thesis" if "markOrderRefunded k t newEv now (fst s) = Inr (r, fst s')" for k t r
    using that by (intro disjI2 exI [of _ "MarkRefunded k t newEv now"]) (auto simp: committed_Inr)
  have disputed: "?thesis" if "markOrderChargedBack k t newEv now (fst s) = Inr (r, fst s')" for k t r
    using that by (intro disjI2 exI [of _ "MarkChargedBack k t newEv now"]) (auto simp: committed_Inr)
  consider "checkoutCompleted event newEv now s = Inr s'" | "chargeRefunded event newEv now s = Inr s'"
    | "chargeDisputed event newEv now s = Inr s'" | "s' = s"
    using one_of_four [OF assms [unfolded handle_def]] by blast
  then show ?thesis
  proof cases
    case 1
    from checkoutCompleted_Inr [OF this] paid show ?thesis by blast
  next
    case 2
    from chargeRefunded_Inr [OF this] refunded show ?thesis by blast
  next
    case 3
    from chargeDisputed_Inr [OF this] disputed show ?thesis by blast
  qed simp
qed

definition delivery_ops :: "market_op list \<Rightarrow> bool" where
  "delivery_ops ops \<longleftrightarrow>
     list_all (\<lambda>x. case x of OrderOp y \<Rightarrow> order_session y = Worker | SellerOp _ \<Rightarrow> True | _ \<Rightarrow> False) ops"


text \<open>A webhook happens exactly once: after a delivery was received, every later delivery of the same
  event, whatever ran in between, is answered as a duplicate and changes nothing.\<close>

theorem webhook_exactly_once:
  assumes "webhookPost verify body (Some sig) newClaim newEv now s = (Received, s')"
    and "verify body sig = Some event" "verify body2 sig2 = Some event2" "evId event2 = evId event"
    and "newClaim \<notin> wId ` set (webhookEvents (fst s))"
  shows "webhookPost verify body2 (Some sig2) c2 e2 now2 (run_txns market_step (fst s') ops, audit)
       = (ReceivedDuplicate, (run_txns market_step (fst s') ops, audit))"
proof -
  obtain db1 s2 k where
      claim: "claimWebhookEvent ''stripe'' (evId event) (evType event) newClaim now (fst s) = (Claimed k, db1)"
    and hand: "handle event newEv now (db1, snd s) = Inr s2"
    and fin: "s' = (markWebhookProcessed k now (fst s2), snd s2)"
    using assms(1,2)
    by (auto simp: webhookPost_def split: option.splits prod.splits WebhookClaim.splits sum.splits)
  have "claimed_in db1 ''stripe'' (evId event)"
    using claim_stays [OF claim assms(5)] by (simp add: claimed_in_def)
  then have "claimed_in (fst s2) ''stripe'' (evId event)"
    using handle_step [OF hand] market_step_claims by (metis fst_conv)
  then have "claimed_in (fst s') ''stripe'' (evId event)"
    using market_step_claims [of "SellerOp (FinishWebhook k now)" "fst s2"] fin by simp
  then have "claimed_in (run_txns market_step (fst s') ops) ''stripe'' (evId event)"
    by (rule claims.run_inv)
  then have "claimWebhookEvent ''stripe'' (evId event2) (evType event2) c2 now2
      (run_txns market_step (fst s') ops) = (NotClaimed, run_txns market_step (fst s') ops)"
    using assms(4) by (auto simp: claimed_in_def claimWebhookEvent_def list_ex_iff)
  then show ?thesis using assms(3) by (simp add: webhookPost_def)
qed

text \<open>Which rows an operation can have written.\<close>

lemma update_order_rows:
  assumes "update_order s k f db = Inr (Some r, db')" "x \<in> set (orders db')"
  shows "x \<in> set (orders db) \<or> (\<exists>y. oId y = k \<and> x = f y)"
  using update_order_Inr [OF assms(1)] assms(2) by (auto simp: set_update_row split: if_splits)

lemma mark_sold_orders: "mark_listing_sold l now db = Inr db' \<Longrightarrow> orders db' = orders db"
  using update_listing_ledger
  by (fastforce simp: mark_listing_sold_def ledger_of_def split: option.splits sum.splits)

lemma markOrderPaid_rows:
  assumes "markOrderPaid i ev now db = Inr (res, db')" "x \<in> set (orders db')"
  shows "x \<in> set (orders db) \<or> oId x = opOrderId i"
proof -
  consider "db' = db"
    | r db1 db2 l e where "update_order Worker (opOrderId i) (paid_set i Paid now) db = Inr (Some r, db1)"
      "insert_event Worker e db1 = Inr db2" "mark_listing_sold l now db2 = Inr db'"
    using assms(1)
    by (auto simp: markOrderPaid_def transition_Inr_iff split: option.splits sum.splits if_splits)
  then show ?thesis
  proof cases
    case 1
    then show ?thesis using assms(2) by simp
  next
    case (2 r db1 db2 l e)
    then have "x \<in> set (orders db1)"
      using assms(2) mark_sold_orders [OF 2(3)] insert_event_Inr [OF 2(2)] by auto
    from update_order_rows [OF 2(1) this] show ?thesis by (auto simp: paid_set_def)
  qed
qed

lemma move_rows:
  assumes "move s input ev now db = Inr (r, db')" "x \<in> set (orders db')"
  shows "x \<in> set (orders db) \<or> oStatus x = mvTo input"
  using assms(1)
proof (rule move_Inr)
  fix r0 db1
  assume up: "update_order s (mvOrderId input) (move_set (mvSet input) (mvTo input) now) db = Inr (Some r, db1)"
    and ev: "insert_event s (move_event input (oStatus r0) (mvTo input) ev now) db1 = Inr db'"
  have "x \<in> set (orders db1)" using assms(2) insert_event_Inr [OF ev] by auto
  from update_order_rows [OF up this] show ?thesis by (auto simp: move_set_def)
qed

lemma refund_dispute_rows:
  "markOrderRefunded k t ev now db = Inr (r, db') \<Longrightarrow> x \<in> set (orders db') \<Longrightarrow>
     x \<in> set (orders db) \<or> oStatus x = Refunded"
  "markOrderChargedBack p t ev now db = Inr (r, db') \<Longrightarrow> x \<in> set (orders db') \<Longrightarrow>
     x \<in> set (orders db) \<or> oStatus x = Disputed"
  by (auto simp: markOrderRefunded_def markOrderChargedBack_def
      split: option.splits if_splits sum.splits dest!: move_rows)
     (simp_all add: stripe_move_def)

lemma handle_paid_rows:
  assumes "handle event newEv now s = Inr s'" "x \<in> set (orders (fst s'))" "oStatus x = Paid"
  shows "x \<in> set (orders (fst s))
    \<or> evType event = ''checkout.session.completed''
      \<and> field (evObject event) ''payment_status'' = JStr ''paid''
      \<and> opt_field (field (evObject event) ''metadata'') ''orderId'' = JStr (oId x)"
proof (cases "evType event = ''checkout.session.completed''")
  case True
  then have "checkoutCompleted event newEv now s = Inr s'"
    using assms(1) unfolding handle_def by (simp only: simp_thms if_True)
  from checkoutCompleted_Inr [OF this] show ?thesis
  proof
    assume "fst s' = fst s"
    then show ?thesis using assms(2) by simp
  next
    assume "\<exists>i r. field (evObject event) ''payment_status'' = JStr ''paid''
       \<and> opt_field (field (evObject event) ''metadata'') ''orderId'' = JStr (opOrderId i)
       \<and> field (evObject event) ''payment_intent'' = JStr (opPaymentIntentId i)
       \<and> markOrderPaid i newEv now (fst s) = Inr (r, fst s')"
    then show ?thesis using markOrderPaid_rows assms(2) True by metis
  qed
next
  case False
  then have "chargeRefunded event newEv now s = Inr s' \<or> chargeDisputed event newEv now s = Inr s' \<or> s' = s"
    using one_of_four [OF assms(1) [unfolded handle_def]] assms(1)
    unfolding handle_def by (simp only: if_False) (metis Inr_inject)
  then show ?thesis
  proof (elim disjE)
    assume "chargeRefunded event newEv now s = Inr s'"
    from chargeRefunded_Inr [OF this] show ?thesis
      using refund_dispute_rows(1) assms(2,3) by (metis OrderStatus.distinct(23))
  next
    assume "chargeDisputed event newEv now s = Inr s'"
    from chargeDisputed_Inr [OF this] show ?thesis
      using refund_dispute_rows(2) assms(2,3) by (metis OrderStatus.distinct(25))
  next
    assume "s' = s"
    then show ?thesis using assms(2) by simp
  qed
qed

text \<open>A payment of the sale of \<open>demo_open\<close>, delivered.\<close>

definition demo_event :: StripeEvent where
  "demo_event =
     \<lparr>evId = ''evt_1'', evType = ''checkout.session.completed'',
      evObject = [(''id'', JStr ''cs_1''), (''payment_status'', JStr ''paid''),
                  (''payment_intent'', JStr ''pi_1''),
                  (''metadata'', JObj [(''orderId'', JStr ''o1'')])]\<rparr>"

definition demo_verify :: "string \<Rightarrow> string \<Rightarrow> StripeEvent option" where
  "demo_verify body sig = (if sig = ''good'' then Some demo_event else None)"

definition demo_delivery :: "webhook_reply \<times> api" where
  "demo_delivery =
     webhookPost demo_verify ''{}'' (Some ''good'') ''w1'' ''e1'' 4
       (market_run demo_users demo_cards demo_open, [])"

lemma demo_delivery_state:
  "fst demo_delivery = Received"
  "map (\<lambda>r. (oId r, oStatus r)) (orders (fst (snd demo_delivery))) = [(''o1'', Paid)]"
  by code_simp+


theorem webhook_exactly_once_witness:
  "webhookPost demo_verify ''{}'' (Some ''good'') ''w2'' ''e2'' 9 (fst (snd demo_delivery), [])
     = (ReceivedDuplicate, (fst (snd demo_delivery), []))"
proof -
  have one: "webhookPost demo_verify ''{}'' (Some ''good'') ''w1'' ''e1'' 4
      (market_run demo_users demo_cards demo_open, []) = (Received, snd demo_delivery)"
    using demo_delivery_state(1) by (simp add: demo_delivery_def prod_eq_iff)
  have fresh: "''w1'' \<notin> wId ` set (webhookEvents (fst (market_run demo_users demo_cards demo_open, [])))"
    by code_simp
  have ver: "demo_verify ''{}'' ''good'' = Some demo_event" by (simp add: demo_verify_def)
  from webhook_exactly_once [OF one ver ver refl fresh, of "''w2''" "''e2''" 9 "[]" "[]"]
  show ?thesis by simp
qed

text \<open>An order becomes paid through a webhook only if the delivered event, its signature verified, is a
  completed checkout session whose payment status is 'paid' and whose metadata names that order.\<close>

theorem paid_only_by_completed_checkout:
  assumes "webhookPost verify body signature newClaim newEv now s = (reply, s')"
    and "x \<in> set (orders (fst s'))" "oStatus x = Paid" "x \<notin> set (orders (fst s))"
  shows "\<exists>sig event. signature = Some sig \<and> verify body sig = Some event
     \<and> evType event = ''checkout.session.completed''
     \<and> field (evObject event) ''payment_status'' = JStr ''paid''
     \<and> opt_field (field (evObject event) ''metadata'') ''orderId'' = JStr (oId x)"
proof -
  have "s' \<noteq> s" using assms(2,4) by auto
  then obtain sig event db1 s2 k where ev: "signature = Some sig" "verify body sig = Some event"
    and claim: "claimWebhookEvent ''stripe'' (evId event) (evType event) newClaim now (fst s) = (Claimed k, db1)"
    and hand: "handle event newEv now (db1, snd s) = Inr s2"
    and fin: "s' = (markWebhookProcessed k now (fst s2), snd s2)"
    using assms(1)
    by (auto simp: webhookPost_def split: option.splits prod.splits WebhookClaim.splits sum.splits)
  have "orders db1 = orders (fst s)" using claim by (auto simp: claimWebhookEvent_def split: if_splits)
  moreover have "orders (fst s') = orders (fst s2)" using fin by (simp add: markWebhookProcessed_def)
  ultimately show ?thesis
    using handle_paid_rows [OF hand, of x] assms(2-4) ev by auto
qed

theorem paid_only_by_completed_checkout_witness:
  "\<exists>x \<in> set (orders (fst (snd demo_delivery))). oStatus x = Paid
     \<and> opt_field (field (evObject demo_event) ''metadata'') ''orderId'' = JStr (oId x)"
proof -
  have one: "webhookPost demo_verify ''{}'' (Some ''good'') ''w1'' ''e1'' 4
      (market_run demo_users demo_cards demo_open, []) = (Received, snd demo_delivery)"
    using demo_delivery_state(1) by (simp add: demo_delivery_def prod_eq_iff)
  from demo_delivery_state(2) obtain x where
    x: "x \<in> set (orders (fst (snd demo_delivery)))" "oStatus x = Paid" by (auto simp: map_eq_Cons_conv)
  moreover have "x \<notin> set (orders (fst (market_run demo_users demo_cards demo_open, [] :: AuditEntry list)))"
    using demo_open_orders x(2) by (auto simp: map_eq_Cons_conv)
  ultimately show ?thesis
    using paid_only_by_completed_checkout [OF one x] by (auto simp: demo_verify_def)
qed

end
