(* ===== verification/Access.thy ===== *)
theory Access
  imports Prelude
begin

text \<open>
  Who may do what (\<open>packages/auth/src/authorize.ts\<close>): roles, actions, the grant of each role and
  the check every route makes before it acts.
\<close>

datatype Role = RUser | RCreator | RSeller | RAdmin

datatype Action =
    CatalogRead | CatalogWrite | AccountRead | AccountWrite | WatchRead | WatchWrite
  | CollectionRead | CollectionWrite | BreakRead | BreakWrite | ProfileWrite
  | LiveSaleRead | LiveSaleWrite | ListingRead | ListingWrite | OrderRead | OrderWrite
  | AdminAccess

datatype AuthMethod = Passkey | MagicLink | Discord

record Subject =
  subUserId :: string
  subRole :: Role
  subAuthenticatedAt :: "int option"
  subAuthMethod :: "AuthMethod option"
  subSessionId :: "string option"

definition BASE_ACTIONS :: "Action list" where
  "BASE_ACTIONS =
     [CatalogRead, AccountRead, AccountWrite, WatchRead, WatchWrite, CollectionRead,
      CollectionWrite, ListingRead, ListingWrite, OrderRead, OrderWrite]"

definition CREATOR_ACTIONS :: "Action list" where
  "CREATOR_ACTIONS = [BreakRead, BreakWrite, ProfileWrite]"

definition SELLER_ACTIONS :: "Action list" where
  "SELLER_ACTIONS = [LiveSaleRead, LiveSaleWrite]"

fun grantsFor :: "Role \<Rightarrow> Action list" where
  "grantsFor RUser = BASE_ACTIONS"
| "grantsFor RCreator = BASE_ACTIONS @ CREATOR_ACTIONS @ SELLER_ACTIONS"
| "grantsFor RSeller = BASE_ACTIONS @ SELLER_ACTIONS"
| "grantsFor RAdmin =
     BASE_ACTIONS @ CREATOR_ACTIONS @ SELLER_ACTIONS @ [CatalogWrite, AdminAccess]"

definition can :: "Subject option \<Rightarrow> Action \<Rightarrow> string option \<Rightarrow> bool" where
  "can subject action owner =
     (case subject of
        None \<Rightarrow> False
      | Some s \<Rightarrow>
          if action \<notin> set (grantsFor (subRole s)) then False
          else if owner \<noteq> None \<and> subRole s \<noteq> RAdmin \<and> owner \<noteq> Some (subUserId s) then False
          else True)"

text \<open>\<open>authorize\<close>: the action refused, or nothing.\<close>

definition authorize :: "Subject option \<Rightarrow> Action \<Rightarrow> string option \<Rightarrow> Action option" where
  "authorize subject action owner = (if can subject action owner then None else Some action)"

lemma authorize_None_iff:
  "authorize subject action owner = None \<longleftrightarrow> can subject action owner"
  by (simp add: authorize_def)

text \<open>More of a role never means less: the grants are ordered user, seller, creator, admin.\<close>

lemma grants_monotone:
  "set (grantsFor RUser) \<subseteq> set (grantsFor RSeller)"
  "set (grantsFor RSeller) \<subseteq> set (grantsFor RCreator)"
  "set (grantsFor RCreator) \<subseteq> set (grantsFor RAdmin)"
  by auto

text \<open>Nobody but an admin is granted administration or the catalogue, an anonymous request is
  granted nothing, and below admin an owned resource is only ever its owner's.\<close>

theorem only_admin_administers:
  "can None action owner = False
 \<and> (can (Some s) AdminAccess owner \<longrightarrow> subRole s = RAdmin)
 \<and> (can (Some s) CatalogWrite owner \<longrightarrow> subRole s = RAdmin)
 \<and> (can (Some s) action (Some o') \<longrightarrow> subRole s = RAdmin \<or> o' = subUserId s)"
  by (cases "subRole s")
     (auto simp: can_def BASE_ACTIONS_def CREATOR_ACTIONS_def SELLER_ACTIONS_def split: if_splits)

theorem only_admin_administers_witness:
  "can (Some \<lparr>subUserId = ''root'', subRole = RAdmin, subAuthenticatedAt = None,
              subAuthMethod = None, subSessionId = None\<rparr>) AdminAccess (Some ''ann'')
   \<and> subRole \<lparr>subUserId = ''root'', subRole = RAdmin, subAuthenticatedAt = None,
              subAuthMethod = None, subSessionId = None\<rparr> = RAdmin"
  using only_admin_administers [of AdminAccess "Some ''ann''"
      "\<lparr>subUserId = ''root'', subRole = RAdmin, subAuthenticatedAt = None,
        subAuthMethod = None, subSessionId = None\<rparr>" "''ann''"]
  by (simp add: can_def)

end
