(* ===== verification/Fees.thy ===== *)
theory Fees
  imports JsNumber
begin

text \<open>
  The platform's fee (\<open>packages/core/src/fees.ts\<close>): integer cents and basis points in, integer
  cents out. The arguments are the language's numbers, so the validation branches are real; the
  arithmetic is double arithmetic (\<open>dbl\<close>).
\<close>

definition BPS_PER_PERCENT :: int where
  "BPS_PER_PERCENT = 100"

datatype fee_error = BadAmount | BadRate

definition applicationFeeCents :: "jsnum \<Rightarrow> jsnum \<Rightarrow> fee_error + int" where
  "applicationFeeCents amountCents feeBps =
     (if \<not> is_integer amountCents \<or> js_less amountCents (int_num 0) then Inl BadAmount
      else if \<not> is_integer feeBps \<or> js_less feeBps (int_num 0) \<or> js_less (int_num 10000) feeBps
      then Inl BadRate
      else
        let fee = math_round (dbl (dbl (of_int (to_int amountCents) * of_int (to_int feeBps)) / 10000))
        in Inr (min fee (to_int amountCents)))"

definition sellerProceedsCents :: "jsnum \<Rightarrow> jsnum \<Rightarrow> fee_error + int" where
  "sellerProceedsCents amountCents feeBps =
     (case applicationFeeCents amountCents feeBps of
        Inl e \<Rightarrow> Inl e
      | Inr fee \<Rightarrow> Inr (to_int amountCents - fee))"

subsection \<open>Lemmas\<close>

lemma applicationFeeCents_cases:
  assumes "applicationFeeCents a b = Inr fee"
  obtains x y where "a = int_num x" "b = int_num y" "0 \<le> x" "0 \<le> y" "y \<le> 10000"
    "fee = min (math_round (dbl (dbl (of_int x * of_int y) / 10000))) x"
proof -
  from assms have ia: "is_integer a" and ib: "is_integer b"
    by (auto simp: applicationFeeCents_def split: if_splits)
  then obtain x y where xy: "a = int_num x" "b = int_num y" by (auto simp: is_integer_iff)
  with assms have "0 \<le> x" "0 \<le> y" "y \<le> 10000"
    "fee = min (math_round (dbl (dbl (of_int x * of_int y) / 10000))) x"
    by (auto simp: applicationFeeCents_def Let_def split: if_splits)
  with xy that show thesis by blast
qed

lemma fee_in_range:
  assumes "applicationFeeCents a b = Inr fee"
  shows "0 \<le> fee \<and> fee \<le> to_int a"
proof -
  from assms obtain x y where "a = int_num x" "0 \<le> x" "0 \<le> y"
    and fee: "fee = min (math_round (dbl (dbl (of_int x * of_int y) / 10000))) x"
    by (rule applicationFeeCents_cases) 
  then have "0 \<le> (of_int x * of_int y :: rat)" by simp
  then have "0 \<le> dbl (of_int x * of_int y) / 10000" using js.rnd_nonneg by simp
  then have "0 \<le> math_round (dbl (dbl (of_int x * of_int y) / 10000))"
    by (rule js.math_round_rnd_nonneg)
  with fee \<open>a = int_num x\<close> \<open>0 \<le> x\<close> show ?thesis by simp
qed

text \<open>
  Up to \<open>2 ^ 37\<close> ten-thousandths of a cent times ten thousand, that is up to 1.3 billion dollars,
  the doubles compute the exact quotient rounded half up.
\<close>

lemma math_round_bps:
  assumes "0 \<le> n"
  shows "math_round (of_int n / 10000) = (n + 5000) div 10000"
proof -
  have "(of_int n / 10000 + 1 / 2 :: rat) = of_int (n + 5000) / of_int 10000"
    by simp
  then show ?thesis
    unfolding math_round_def by (simp only: floor_divide_of_int_eq)
qed

lemma fee_double_exact:
  assumes "0 \<le> x" "0 \<le> y" "x * y < 2 ^ 37 * 10000"
  shows "math_round (dbl (dbl (of_int x * of_int y) / 10000)) = (x * y + 5000) div 10000"
proof -
  have xy: "0 \<le> x * y" using assms by simp
  have "dbl (of_int (x * y)) = of_int (x * y)"
    by (rule js.rnd_int) (use xy assms in auto)
  then have "dbl (of_int x * of_int y) = of_int (x * y)" by simp
  moreover have "math_round (dbl (of_int (x * y) / of_int 10000)) =
      math_round (of_int (x * y) / of_int 10000)"
    by (rule js.math_round_rnd) (use xy assms in auto)
  ultimately show ?thesis using math_round_bps [OF xy] by simp
qed

lemma fee_half_up_le:
  assumes "0 \<le> (x :: int)" "0 \<le> y" "y \<le> 10000"
  shows "(x * y + 5000) div 10000 \<le> x"
proof -
  have "x * y \<le> x * 10000" using assms by (intro mult_left_mono) auto
  then show ?thesis by linarith
qed

end
