(* ===== verification/MarketRoutes.thy ===== *)
theory MarketRoutes
  imports Webhook Access Fees
begin

text \<open>
  The marketplace's request handlers (\<open>apps/api/src/routes/market.ts\<close>, \<open>checkout.ts\<close>,
  \<open>fulfilment.ts\<close>): who is asking, what the body must satisfy, which queries run in which order
  and which refusal each failure becomes. A handler is a function of the subject the session
  resolved to, the parsed request and the store, and returns the reply with the new store; a
  thrown error that no handler catches is the error handler's reply. Each query commits on its
  own, so a failure after one leaves what was written. Rate limits, logs and response bodies
  other than the error tag are not modelled.
\<close>

section \<open>Replies and request bodies\<close>

datatype reply = Reply nat string

definition unauthenticated :: reply where "unauthenticated = Reply 401 ''unauthenticated''"
definition forbidden :: reply where "forbidden = Reply 403 ''forbidden''"
definition invalid_request :: reply where "invalid_request = Reply 400 ''invalid_request''"
definition not_found :: reply where "not_found = Reply 404 ''not_found''"
definition internal_error :: reply where "internal_error = Reply 500 ''internal_error''"

text \<open>\<open>z.int().positive()\<close>: a safe integer above zero.\<close>

definition z_positive_int :: "jsnum \<Rightarrow> bool" where
  "z_positive_int n \<longleftrightarrow> is_integer n \<and> 0 < to_int n \<and> to_int n \<le> 2 ^ 53 - 1"

definition z_max :: "nat \<Rightarrow> string option \<Rightarrow> bool" where
  "z_max n t \<longleftrightarrow> (case t of None \<Rightarrow> True | Some s \<Rightarrow> length s \<le> n)"

definition createSchema :: "CreateListingInput \<Rightarrow> bool" where
  "createSchema body \<longleftrightarrow>
     z_positive_int (draftPriceCents body) \<and> z_positive_int (draftQuantity body)
       \<and> z_max 500 (draftNotes body) \<and> clCurrency body = None"

definition updateSchema :: "UpdateListingInput \<Rightarrow> bool" where
  "updateSchema body \<longleftrightarrow>
     z_positive_int (draftPriceCents body) \<and> z_positive_int (draftQuantity body)
       \<and> z_max 500 (draftNotes body)"

definition statusSchema :: "ListingStatus \<Rightarrow> bool" where
  "statusSchema st \<longleftrightarrow> st \<in> {Draft, Active, Withdrawn}"

definition user_audit :: "string \<Rightarrow> string \<Rightarrow> string \<Rightarrow> string \<Rightarrow> AuditEntry" where
  "user_audit actor action typ target =
     \<lparr>auActorId = Some actor, auAction = action, auTargetType = typ, auTargetId = target\<rparr>"

definition listing_error_tag :: "ListingError \<Rightarrow> string" where
  "listing_error_tag e =
     (case e of
        PriceOutOfRange \<Rightarrow> ''price_out_of_range''
      | QuantityOutOfRange \<Rightarrow> ''quantity_out_of_range''
      | NotesTooLong \<Rightarrow> ''notes_too_long''
      | PhotosRequired \<Rightarrow> ''photos_required'')"

definition refusal_tag :: "FraudRefusal \<Rightarrow> string" where
  "refusal_tag r =
     (case r of
        NewAccountOrderTooLarge \<Rightarrow> ''new_account_order_too_large''
      | NewAccountDailyLimit \<Rightarrow> ''new_account_daily_limit''
      | OrderVelocity \<Rightarrow> ''order_velocity''
      | ListingVelocity \<Rightarrow> ''listing_velocity'')"

section \<open>Listings\<close>

definition postListing ::
  "Subject option \<Rightarrow> CreateListingInput \<Rightarrow> string \<Rightarrow> int \<Rightarrow> api \<Rightarrow> reply \<times> api" where
  "postListing subject body newId now s =
     (case subject of
        None \<Rightarrow> (unauthenticated, s)
      | Some u \<Rightarrow>
        if authorize subject ListingWrite None \<noteq> None then (forbidden, s)
        else if \<not> createSchema body then (invalid_request, s)
        else
          let listingsLastHour =
                countSellerListingsSince (subUserId u) (now - 60 * 60 * 1000) (fst s)
          in case checkListing listingsLastHour of
               Some refusal \<Rightarrow>
                 (Reply 403 (refusal_tag refusal),
                  writeAuditLog (user_audit (subUserId u) ''listing.refused'' ''user'' (subUserId u)) s)
             | None \<Rightarrow>
               (case createListing (subUserId u) body newId now (fst s) of
                  Inl (InvalidListing e) \<Rightarrow> (Reply 400 (listing_error_tag e), s)
                | Inl (ListingMissingReference _) \<Rightarrow> (not_found, s)
                | Inl _ \<Rightarrow> (internal_error, s)
                | Inr (listing, db') \<Rightarrow>
                    (Reply 201 ''created'',
                     writeAuditLog (user_audit (subUserId u) ''listing.created'' ''listing'' (lId listing))
                       (db', snd s))))"

definition patchListing ::
  "Subject option \<Rightarrow> string \<Rightarrow> UpdateListingInput \<Rightarrow> int \<Rightarrow> api \<Rightarrow> reply \<times> api" where
  "patchListing subject k body now s =
     (case subject of
        None \<Rightarrow> (unauthenticated, s)
      | Some u \<Rightarrow>
        if authorize subject ListingWrite None \<noteq> None then (forbidden, s)
        else if \<not> updateSchema body then (invalid_request, s)
        else case updateListing (subUserId u) k body now (fst s) of
          Inl ListingNotFoundError \<Rightarrow> (not_found, s)
        | Inl (InvalidListing e) \<Rightarrow> (Reply 400 (listing_error_tag e), s)
        | Inl _ \<Rightarrow> (internal_error, s)
        | Inr (listing, db') \<Rightarrow> (Reply 200 ''ok'', (db', snd s)))"

definition status_tag :: "ListingStatus \<Rightarrow> string" where
  "status_tag st =
     (case st of Draft \<Rightarrow> ''draft'' | Active \<Rightarrow> ''active'' | Sold \<Rightarrow> ''sold'' | Withdrawn \<Rightarrow> ''withdrawn'')"

definition postListingStatus ::
  "Subject option \<Rightarrow> string \<Rightarrow> ListingStatus \<Rightarrow> int \<Rightarrow> api \<Rightarrow> reply \<times> api" where
  "postListingStatus subject k st now s =
     (case subject of
        None \<Rightarrow> (unauthenticated, s)
      | Some u \<Rightarrow>
        if authorize subject ListingWrite None \<noteq> None then (forbidden, s)
        else if \<not> statusSchema st then (invalid_request, s)
        else case getListing (Some (subUserId u)) k (fst s) of
          None \<Rightarrow> (not_found, s)
        | Some existing \<Rightarrow>
          if lSellerId existing \<noteq> subUserId u then (not_found, s)
          else case (if st = Active
                     then canPublish (lPriceCents existing) (countApprovedPhotos (subUserId u) k (fst s))
                     else None) of
            Some e \<Rightarrow> (Reply 409 (listing_error_tag e), s)
          | None \<Rightarrow>
            case setListingStatus (subUserId u) k st now (fst s) of
              Inl ListingNotFoundError \<Rightarrow> (not_found, s)
            | Inl _ \<Rightarrow> (internal_error, s)
            | Inr (listing, db') \<Rightarrow>
                (Reply 200 ''ok'',
                 writeAuditLog (user_audit (subUserId u) (''listing.'' @ status_tag st) ''listing'' (lId listing))
                   (db', snd s)))"

definition deleteListing :: "Subject option \<Rightarrow> string \<Rightarrow> api \<Rightarrow> reply \<times> api" where
  "deleteListing subject k s =
     (case subject of
        None \<Rightarrow> (unauthenticated, s)
      | Some u \<Rightarrow>
        if authorize subject ListingWrite None \<noteq> None then (forbidden, s)
        else case deleteDraftListing (subUserId u) k (fst s) of
          (False, _) \<Rightarrow> (not_found, s)
        | (True, db') \<Rightarrow>
            (Reply 204 '''',
             writeAuditLog (user_audit (subUserId u) ''listing.deleted'' ''listing'' k) (db', snd s)))"

section \<open>Buying\<close>

text \<open>
  \<open>stripe\<close> is the payment client's \<open>createCheckoutSession\<close>: the order, the connected account, the
  unit amount, the quantity and the fee in, the session's identifier out, or a failure.
\<close>

definition buyListing ::
  "(string \<Rightarrow> string \<Rightarrow> int \<Rightarrow> int \<Rightarrow> int \<Rightarrow> string option) \<Rightarrow> bool \<Rightarrow> jsnum
     \<Rightarrow> Subject option \<Rightarrow> string \<Rightarrow> string \<Rightarrow> int \<Rightarrow> api \<Rightarrow> reply \<times> api" where
  "buyListing stripe checkoutEnabled feeBps subject k newId now s =
     (case subject of
        None \<Rightarrow> (unauthenticated, s)
      | Some u \<Rightarrow>
        let buyerId = subUserId u in
        if authorize subject OrderWrite None \<noteq> None then (forbidden, s)
        else if \<not> checkoutEnabled then (Reply 503 ''checkout_unavailable'', s)
        else case getListing (Some buyerId) k (fst s) of
          None \<Rightarrow> (not_found, s)
        | Some listing \<Rightarrow>
          if lStatus listing \<noteq> Active then (Reply 409 ''listing_unavailable'', s)
          else if lSellerId listing = buyerId then (Reply 409 ''cannot_buy_own_listing'', s)
          else
            let seller = getSellerPayoutTarget buyerId (lSellerId listing) (fst s) in
            if \<not> canSell seller then (Reply 409 ''seller_not_ready'', s)
            else
              let amountCents = lPriceCents listing * lQuantity listing in
              case applicationFeeCents (int_num amountCents) feeBps of
                Inl _ \<Rightarrow> (internal_error, s)
              | Inr feeCents \<Rightarrow>
                let risk = getBuyerRisk buyerId now (fst s) in
                case checkPurchase
                       \<lparr>accountAgeMs = brAccountAgeMs risk, attemptAmountCents = amountCents,
                        ordersLastDay = brOrdersLastDay risk, ordersLastHour = brOrdersLastHour risk\<rparr> of
                  Some refusal \<Rightarrow>
                    (Reply 403 (refusal_tag refusal),
                     writeAuditLog (user_audit buyerId ''order.refused'' ''listing'' (lId listing)) s)
                | None \<Rightarrow>
                  case createOrder buyerId
                         \<lparr>coSellerId = lSellerId listing, coListingId = lId listing,
                          coCardVariantId = lCardVariantId listing, coCondition = lCondition listing,
                          coQuantity = lQuantity listing, coAmountCents = amountCents,
                          coFeeCents = feeCents, coCurrency = lCurrency listing\<rparr> newId now (fst s) of
                    Inl ListingUnavailableError \<Rightarrow> (Reply 409 ''listing_unavailable'', s)
                  | Inl (MissingReferenceError _) \<Rightarrow> (not_found, s)
                  | Inl _ \<Rightarrow> (internal_error, s)
                  | Inr (order, db1) \<Rightarrow>
                    case stripe (oId order) (sStripeAccountId (the seller)) (lPriceCents listing)
                           (lQuantity listing) feeCents of
                      None \<Rightarrow> (internal_error, (db1, snd s))
                    | Some sessionId \<Rightarrow>
                      case attachCheckoutSession buyerId (oId order) sessionId now db1 of
                        Inl _ \<Rightarrow> (internal_error, (db1, snd s))
                      | Inr db2 \<Rightarrow>
                          (Reply 201 (oId order),
                           writeAuditLog (user_audit buyerId ''order.created'' ''order'' (oId order))
                             (db2, snd s)))"

section \<open>Fulfilment\<close>

text \<open>\<open>refused\<close>: the answer to an order error, or none for one that is not expected.\<close>

definition refused :: "order_error \<Rightarrow> reply option" where
  "refused e =
     (case e of
        OrderNotFoundError \<Rightarrow> Some not_found
      | WrongPartyError _ \<Rightarrow> Some (Reply 403 ''wrong_party'')
      | IllegalTransition _ \<Rightarrow> Some (Reply 409 ''illegal_transition'')
      | _ \<Rightarrow> None)"

definition fulfil ::
  "Subject option \<Rightarrow> bool \<Rightarrow> (string \<Rightarrow> market_db \<Rightarrow> order_error + Order \<times> market_db) \<Rightarrow> string \<Rightarrow> api
     \<Rightarrow> reply \<times> api" where
  "fulfil subject bodyOk query action s =
     (case subject of
        None \<Rightarrow> (unauthenticated, s)
      | Some u \<Rightarrow>
        if authorize subject OrderWrite None \<noteq> None then (forbidden, s)
        else if \<not> bodyOk then (invalid_request, s)
        else case query (subUserId u) (fst s) of
          Inl e \<Rightarrow> ((case refused e of None \<Rightarrow> internal_error | Some r \<Rightarrow> r), s)
        | Inr (order, db') \<Rightarrow>
            (Reply 200 ''ok'',
             writeAuditLog (user_audit (subUserId u) action ''order'' (oId order)) (db', snd s)))"

definition shipSchema :: "string \<Rightarrow> string \<Rightarrow> bool" where
  "shipSchema carrier trackingNumber \<longleftrightarrow>
     2 \<le> length carrier \<and> length carrier \<le> 64
       \<and> 4 \<le> length trackingNumber \<and> length trackingNumber \<le> 64"

definition postShip ::
  "Subject option \<Rightarrow> string \<Rightarrow> string \<Rightarrow> string \<Rightarrow> string \<Rightarrow> int \<Rightarrow> api \<Rightarrow> reply \<times> api" where
  "postShip subject k carrier trackingNumber evid now s =
     fulfil subject (shipSchema carrier trackingNumber)
       (\<lambda>u. shipOrder u k carrier trackingNumber evid now) ''order.shipped'' s"

definition postCancel ::
  "Subject option \<Rightarrow> string \<Rightarrow> string option \<Rightarrow> string \<Rightarrow> int \<Rightarrow> api \<Rightarrow> reply \<times> api" where
  "postCancel subject k reason evid now s =
     fulfil subject (z_max ORDER_REASON_MAX_LENGTH reason)
       (\<lambda>u. cancelOrder u k reason evid now) ''order.cancelled'' s"

definition postDispute ::
  "Subject option \<Rightarrow> string \<Rightarrow> string \<Rightarrow> string \<Rightarrow> int \<Rightarrow> api \<Rightarrow> reply \<times> api" where
  "postDispute subject k reason evid now s =
     fulfil subject (reason \<noteq> [] \<and> length reason \<le> ORDER_REASON_MAX_LENGTH)
       (\<lambda>u. disputeOrder u k reason evid now) ''order.disputed'' s"

section \<open>What a purchase opens\<close>

lemma buyListing_created:
  assumes "buyListing stripe enabled feeBps subject k newId now s = (Reply 201 oid, s')"
  obtains u listing seller fee order db1 sess db2 where
    "subject = Some u" "getListing (Some (subUserId u)) k (fst s) = Some listing"
    "lStatus listing = Active" "lSellerId listing \<noteq> subUserId u"
    "getSellerPayoutTarget (subUserId u) (lSellerId listing) (fst s) = Some seller"
    "sChargesEnabled seller" "sPayoutsEnabled seller"
    "applicationFeeCents (int_num (lPriceCents listing * lQuantity listing)) feeBps = Inr fee"
    "createOrder (subUserId u)
       \<lparr>coSellerId = lSellerId listing, coListingId = lId listing,
        coCardVariantId = lCardVariantId listing, coCondition = lCondition listing,
        coQuantity = lQuantity listing, coAmountCents = lPriceCents listing * lQuantity listing,
        coFeeCents = fee, coCurrency = lCurrency listing\<rparr> newId now (fst s) = Inr (order, db1)"
    "stripe (oId order) (sStripeAccountId seller) (lPriceCents listing) (lQuantity listing) fee
       = Some sess"
    "attachCheckoutSession (subUserId u) (oId order) sess now db1 = Inr db2"
    "oid = oId order" "fst s' = db2"
  using assms
  by (auto simp: buyListing_def Let_def canSell_def unauthenticated_def forbidden_def not_found_def
      internal_error_def writeAuditLog_def
      split: option.splits if_splits sum.splits order_error.splits prod.splits)

lemma createOrder_Inr:
  assumes "createOrder u input newId now db = Inr (r, db')"
  shows "r = new_order u input newId now \<and> find_row oId newId (orders db') = Some r
    \<and> first_violated (order_checks r) = None"
proof -
  let ?n = "new_order u input newId now"
  from assms have ins: "insert_order (AsUser u) ?n db = Inr db'"
    and sel: "select_order (AsUser u) newId db' = Some r"
    by (auto simp: createOrder_def split: sum.splits option.splits if_splits)
  from insert_order_Inr [OF ins] have db': "db' = db\<lparr>orders := orders db @ [?n]\<rparr>"
    and chk: "first_violated (order_checks ?n) = None"
    and uniq: "order_unique_violation ?n (orders db) = None" by auto
  have "oId ?n = newId" by (simp add: new_order_def)
  then have "newId \<notin> oId ` set (orders db)"
    using uniq unique_violation_None_iff [of ?n "orders db"] by auto
  then have "find_row oId newId (orders db) = None" by (simp add: find_row_None_iff)
  then have "find_row oId newId (orders db') = Some ?n"
    using \<open>oId ?n = newId\<close> by (simp add: db' find_row_append)
  then show ?thesis using select_order_Some [OF sel] chk by simp
qed

lemma attach_row:
  assumes "attachCheckoutSession u k c now db = Inr db'" "find_row oId k (orders db) = Some r"
    "oBuyerId r = u"
  shows "find_row oId k (orders db') = Some (r\<lparr>oCheckoutId := Some c, oUpdatedAt := now\<rparr>)"
proof -
  let ?f = "\<lambda>r. r\<lparr>oCheckoutId := Some c, oUpdatedAt := now\<rparr>"
  from assms(1) obtain res where up: "update_order (AsUser u) k ?f db = Inr (res, db')"
    by (auto simp: attachCheckoutSession_def split: sum.splits)
  with assms(2,3) have "res \<noteq> None"
    by (auto simp: update_order_def order_visible_def split: if_splits option.splits)
  then obtain r' where "update_order (AsUser u) k ?f db = Inr (Some r', db')" using up by auto
  from update_order_Inr [OF this] have "orders db' = update_row oId k ?f (orders db)" by auto
  moreover have "keyed_table oId ?f" by (simp add: keyed_table_def)
  ultimately show ?thesis using keyed_table.find_updated_same assms(2) by metis
qed

text \<open>The fee in doubles is the exact quotient rounded half up, for every amount an order may have.\<close>

lemma order_fee_exact:
  assumes "applicationFeeCents (int_num x) (int_num y) = Inr fee" "x \<le> 100000000"
  shows "fee = (x * y + 5000) div 10000"
proof -
  from assms(1) obtain x' y' where xy: "int_num x = int_num x'" "int_num y = int_num y'" "0 \<le> x'"
    "0 \<le> y'" "y' \<le> 10000"
    and fee: "fee = min (math_round (dbl (dbl (of_int x' * of_int y') / 10000))) x'"
    by (rule applicationFeeCents_cases)
  have "x * y \<le> 100000000 * 10000" using xy assms(2) by (intro mult_mono) auto
  then have "math_round (dbl (dbl (of_int x * of_int y) / 10000)) = (x * y + 5000) div 10000"
    using xy by (intro fee_double_exact) auto
  then show ?thesis using fee xy fee_half_up_le [of x y] by simp
qed

text \<open>C6: A purchase that answers 201 opened exactly the order the listing describes: the buyer is the
  session's user and not the seller, the listing was on sale, the seller may take and be paid
  money, the amount is price times quantity, the fee is that amount's basis points rounded half
  up, the payment page charges the same unit price, quantity and fee to that seller's account,
  and the order is filed under its session.\<close>

theorem purchase_is_what_was_listed:
  assumes "buyListing stripe enabled (int_num bps) subject k newId now s = (Reply 201 oid, s')"
  shows "\<exists>u listing seller r sess.
      subject = Some u \<and> getListing (Some (subUserId u)) k (fst s) = Some listing
    \<and> lStatus listing = Active
    \<and> getSellerPayoutTarget (subUserId u) (lSellerId listing) (fst s) = Some seller
    \<and> sChargesEnabled seller \<and> sPayoutsEnabled seller
    \<and> find_row oId oid (orders (fst s')) = Some r
    \<and> oStatus r = Created \<and> oBuyerId r = subUserId u \<and> oSellerId r = lSellerId listing
    \<and> oBuyerId r \<noteq> oSellerId r \<and> oListingId r = Some (lId listing)
    \<and> oAmountCents r = lPriceCents listing * lQuantity listing
    \<and> oFeeCents r = (oAmountCents r * bps + 5000) div 10000
    \<and> stripe oid (sStripeAccountId seller) (lPriceCents listing) (lQuantity listing) (oFeeCents r)
        = Some sess
    \<and> oCheckoutId r = Some sess"
  using assms
proof (rule buyListing_created)
  fix u listing seller fee order db1 sess db2
  assume u: "subject = Some u" and l: "getListing (Some (subUserId u)) k (fst s) = Some listing"
    "lStatus listing = Active" "lSellerId listing \<noteq> subUserId u"
    and seller: "getSellerPayoutTarget (subUserId u) (lSellerId listing) (fst s) = Some seller"
      "sChargesEnabled seller" "sPayoutsEnabled seller"
    and fee: "applicationFeeCents (int_num (lPriceCents listing * lQuantity listing)) (int_num bps) = Inr fee"
    and order: "createOrder (subUserId u)
       \<lparr>coSellerId = lSellerId listing, coListingId = lId listing,
        coCardVariantId = lCardVariantId listing, coCondition = lCondition listing,
        coQuantity = lQuantity listing, coAmountCents = lPriceCents listing * lQuantity listing,
        coFeeCents = fee, coCurrency = lCurrency listing\<rparr> newId now (fst s) = Inr (order, db1)"
    and stripe: "stripe (oId order) (sStripeAccountId seller) (lPriceCents listing) (lQuantity listing) fee
       = Some sess"
    and att: "attachCheckoutSession (subUserId u) (oId order) sess now db1 = Inr db2"
    and fin: "oid = oId order" "fst s' = db2"
  note co = createOrder_Inr [OF order]
  then have id: "oId order = newId" by (auto simp: new_order_def)
  have "oBuyerId order = subUserId u" using co by (simp add: new_order_def)
  with attach_row [OF att] co id
  have row: "find_row oId oid (orders (fst s')) =
      Some (order\<lparr>oCheckoutId := Some sess, oUpdatedAt := now\<rparr>)" by (simp add: fin)
  from co have chk: "first_violated (order_checks order) = None" by blast
  have "oAmountCents order \<le> 100000000"
    using chk unfolding first_violated_None_iff order_checks_def by simp
  then have "lPriceCents listing * lQuantity listing \<le> 100000000"
    using co by (simp add: new_order_def)
  from order_fee_exact [OF fee this]
  have fee': "fee = (lPriceCents listing * lQuantity listing * bps + 5000) div 10000" .
  show ?thesis
    apply (rule exI [of _ u], rule exI [of _ listing], rule exI [of _ seller])
    apply (rule exI [of _ "order\<lparr>oCheckoutId := Some sess, oUpdatedAt := now\<rparr>"], rule exI [of _ sess])
    using u l seller row co stripe fin fee' by (simp add: new_order_def)
qed

text \<open>A shop that may take money, and a buyer at its till.\<close>

definition demo_shop :: market_db where
  "demo_shop = market_run demo_users demo_cards
     [SellerOp (RecordSeller ''ann'' ''acct_1'' ''s1'' 0),
      SellerOp (SetCapabilities ''acct_1'' True True 0),
      ListingOp (CreateListing ''ann'' demo_listing ''l1'' 1),
      ListingOp (SetListingStatus ''ann'' ''l1'' Active 2)]"

definition demo_buyer :: Subject where
  "demo_buyer = \<lparr>subUserId = ''bob'', subRole = RUser, subAuthenticatedAt = None,
                 subAuthMethod = None, subSessionId = None\<rparr>"

definition demo_purchase :: "reply \<times> api" where
  "demo_purchase =
     buyListing (\<lambda>_ _ _ _ _. Some ''cs_1'') True (int_num 800) (Some demo_buyer) ''l1'' ''o1'' 3
       (demo_shop, [])"

lemma demo_purchase_state: "fst demo_purchase = Reply 201 ''o1''"
  by code_simp

theorem purchase_is_what_was_listed_witness:
  "\<exists>r. find_row oId ''o1'' (orders (fst (snd demo_purchase))) = Some r
     \<and> oFeeCents r = (oAmountCents r * 800 + 5000) div 10000 \<and> oCheckoutId r = Some ''cs_1''"
proof -
  have "buyListing (\<lambda>_ _ _ _ _. Some ''cs_1'') True (int_num 800) (Some demo_buyer) ''l1'' ''o1'' 3
      (demo_shop, []) = (Reply 201 ''o1'', snd demo_purchase)"
    using demo_purchase_state by (simp add: demo_purchase_def prod_eq_iff)
  from purchase_is_what_was_listed [OF this] show ?thesis by auto
qed

text \<open>A listing goes on sale only by its own seller and, above $25, only with a photograph the
  pipeline approved.\<close>

theorem publish_needs_photo:
  assumes "postListingStatus subject k Active now s = (Reply 200 tag, s')"
  shows "\<exists>u listing. subject = Some u \<and> getListing (Some (subUserId u)) k (fst s) = Some listing
    \<and> lSellerId listing = subUserId u
    \<and> (lPriceCents listing > 2500 \<longrightarrow>
         (\<exists>p \<in> set (listingPhotos (fst s)). pListingId p = k \<and> pStatus p = Approved))"
proof -
  obtain u listing where u: "subject = Some u"
    and l: "getListing (Some (subUserId u)) k (fst s) = Some listing" "lSellerId listing = subUserId u"
    and pub: "canPublish (lPriceCents listing) (countApprovedPhotos (subUserId u) k (fst s)) = None"
    using assms
    by (auto simp: postListingStatus_def unauthenticated_def forbidden_def not_found_def
        invalid_request_def internal_error_def split: option.splits if_splits)
  have "\<exists>p \<in> set (listingPhotos (fst s)). pListingId p = k \<and> pStatus p = Approved"
    if "lPriceCents listing > 2500"
  proof -
    have "countApprovedPhotos (subUserId u) k (fst s) \<noteq> 0"
      using pub that by (auto simp: canPublish_def photosRequiredFor_def PHOTO_REQUIRED_ABOVE_CENTS_def
          split: if_splits)
    then have "filter (\<lambda>p. pStatus p = Approved)
        (listing_photos_seen (AsUser (subUserId u)) k (fst s)) \<noteq> []"
      by (auto simp: countApprovedPhotos_def)
    then show ?thesis by (auto simp: filter_empty_conv listing_photos_seen_def)
  qed
  with u l show ?thesis by blast
qed

definition demo_seller :: Subject where
  "demo_seller = \<lparr>subUserId = ''ann'', subRole = RUser, subAuthenticatedAt = None,
                  subAuthMethod = None, subSessionId = None\<rparr>"

definition demo_publish :: "reply \<times> api" where
  "demo_publish = postListingStatus (Some demo_seller) ''l1'' Active 9
     (market_run demo_users demo_cards [ListingOp (CreateListing ''ann'' demo_listing ''l1'' 1)], [])"

theorem publish_needs_photo_witness:
  "\<exists>listing. getListing (Some ''ann'') ''l1''
       (market_run demo_users demo_cards [ListingOp (CreateListing ''ann'' demo_listing ''l1'' 1)])
       = Some listing \<and> lSellerId listing = ''ann''"
proof -
  have "fst demo_publish = Reply 200 ''ok''" by code_simp
  then have "demo_publish = (Reply 200 ''ok'', snd demo_publish)" by (simp add: prod_eq_iff)
  from publish_needs_photo [OF this [unfolded demo_publish_def]]
  show ?thesis by (auto simp: demo_seller_def)
qed

text \<open>Nothing the marketplace's routes do happens for a request without a session.\<close>

lemma anonymous_requests_change_nothing:
  "snd (postListing None ci newId now s) = s \<and> snd (patchListing None k ui now s) = s
 \<and> snd (postListingStatus None k st now s) = s \<and> snd (deleteListing None k s) = s
 \<and> snd (buyListing stripe on feeBps None k newId now s) = s
 \<and> snd (postShip None k carrier nr ev now s) = s \<and> snd (postCancel None k rs ev now s) = s
 \<and> snd (postDispute None k reason ev now s) = s"
  by (simp add: postListing_def patchListing_def postListingStatus_def deleteListing_def
      buyListing_def postShip_def postCancel_def postDispute_def fulfil_def)

section \<open>Where the code and its comments part\<close>

definition demo_raise :: UpdateListingInput where
  "demo_raise = \<lparr>draftPriceCents = int_num 8000, draftQuantity = int_num 1, draftNotes = None,
                 ulCondition = None\<rparr>"

text \<open>The comment on \<open>updateListing\<close> says that a seller who lists at $10 and raises the price to $80
  has to show the card. Raising the price of a listing that is already on sale recomputes the flag
  and leaves it on sale: it is now offered at $80, marked as requiring a photograph, with none.\<close>

lemma raised_listing_stays_on_sale_without_photo:
  "map (\<lambda>l. (lStatus l, lPriceCents l, lPhotoRequired l))
     (listings (fst (snd (patchListing (Some demo_seller) ''l1'' demo_raise 9
        (market_run demo_users demo_cards demo_open, []))))) = [(Active, 8000, True)]
   \<and> countApprovedPhotos ''ann'' ''l1''
       (fst (snd (patchListing (Some demo_seller) ''l1'' demo_raise 9
          (market_run demo_users demo_cards demo_open, [])))) = 0"
  by (rule conjI) code_simp+

text \<open>The route that deletes a listing says only a draft goes, because an order may point at a listing
  that has been on sale. A seller can turn a sold listing back into a draft and then delete it:
  the paid order is left pointing at nothing.\<close>

lemma sold_listing_can_be_deleted:
  "map (\<lambda>r. (oStatus r, oListingId r))
     (orders (fst (snd (deleteListing (Some demo_seller) ''l1''
       (snd (postListingStatus (Some demo_seller) ''l1'' Draft 9
          (snd demo_delivery))))))) = [(Paid, None)]
   \<and> map lStatus (listings (fst (snd demo_delivery))) = [Sold]"
  by (rule conjI) code_simp+

end
