(* ===== verification/PhotoPipeline.thy ===== *)
theory PhotoPipeline
  imports Reencode Sha256 MarketRoutes
begin

text \<open>
  What happens to an uploaded file (\<open>packages/photos/src/pipeline.ts\<close>, \<open>scanner.ts\<close>, the object
  store of \<open>storage.ts\<close> and the handlers of \<open>apps/api/src/routes/photos.ts\<close>). The bucket is a map
  from keys to bytes; whether a call to it fails, what clamd answers and what the image codecs
  produce are the environment's.
\<close>

section \<open>The virus scanner's protocol\<close>

datatype ScanVerdict = Clean | Infected string

definition CHUNK_BYTES :: nat where "CHUNK_BYTES = 64 * 1024"

definition octets_of :: "string \<Rightarrow> octets" where
  "octets_of s = map (\<lambda>c. word_of_nat (of_char c)) s"

definition command_bytes :: "string \<Rightarrow> octets" where
  "command_bytes name = octets_of (''z'' @ name @ [CHR 0x00])"

text \<open>Each piece of the file goes out behind its length; a zero length ends the stream.\<close>

function frames :: "octets \<Rightarrow> nat \<Rightarrow> octets" where
  "frames bytes pos =
     (if pos < length bytes then
        let piece = take (min (pos + CHUNK_BYTES) (length bytes) - pos) (drop pos bytes)
        in be_octets 4 (length piece) @ piece @ frames bytes (pos + CHUNK_BYTES)
      else be_octets 4 0)"
  by pat_completeness auto
termination
  by (relation "measure (\<lambda>(bytes, pos). length bytes - pos)") (auto simp: CHUNK_BYTES_def)

declare frames.simps [simp del]

definition instream :: "octets \<Rightarrow> octets" where
  "instream bytes = command_bytes ''INSTREAM'' @ frames bytes 0"

text \<open>The reading end of the stream, and that it reads the file and nothing else.\<close>

function unframe :: "octets \<Rightarrow> octets option" where
  "unframe stream =
     (if length stream < 4 then None
      else let n = big_endian (take 4 stream) in
        if n = 0 then Some []
        else if length stream < 4 + n then None
        else map_option ((@) (take n (drop 4 stream))) (unframe (drop (4 + n) stream)))"
  by pat_completeness auto
termination
  by (relation "measure length") auto

declare unframe.simps [simp del]

lemma unframe_frame:
  assumes "0 < length piece" "length piece < 2 ^ 32"
  shows "unframe (be_octets 4 (length piece) @ piece @ rest) = map_option ((@) piece) (unframe rest)"
proof -
  have "big_endian (be_octets 4 (length piece)) = length piece"
    using assms(2) by (intro big_endian_be) simp
  then show ?thesis
    using assms(1) by (subst unframe.simps) (simp add: Let_def)
qed

lemma clamd_reads_the_file: "unframe (frames bytes pos) = Some (drop pos bytes)"
proof (induction bytes pos rule: frames.induct)
  case (1 bytes pos)
  show ?case
  proof (cases "pos < length bytes")
    case True
    define piece where "piece = take (min (pos + CHUNK_BYTES) (length bytes) - pos) (drop pos bytes)"
    have "length piece = min (pos + CHUNK_BYTES) (length bytes) - pos"
      using True by (simp add: piece_def)
    then have len: "0 < length piece" "length piece < 2 ^ 32"
      using True by (simp_all only:) (auto simp: CHUNK_BYTES_def)
    have "piece = take CHUNK_BYTES (drop pos bytes)"
      using True by (simp add: piece_def min_def)
    then have all: "piece @ drop (pos + CHUNK_BYTES) bytes = drop pos bytes"
      by (metis add.commute append_take_drop_id drop_drop)
    have "frames bytes pos = be_octets 4 (length piece) @ piece @ frames bytes (pos + CHUNK_BYTES)"
      using True by (subst frames.simps) (simp add: piece_def Let_def)
    then show ?thesis
      using unframe_frame [OF len] 1 [OF True] all by (simp add: piece_def)
  next
    case False
    then show ?thesis
      using big_endian_be [of 0 4] by (subst frames.simps, subst unframe.simps) simp
  qed
qed

definition strip_nuls :: "string \<Rightarrow> string" where
  "strip_nuls s = rev (dropWhile (\<lambda>c. c = CHR 0x00) (rev s))"

text \<open>\<open>reply.replace(/^stream:\s*/u, '').replace(/\s*FOUND$/u, '')\<close>.\<close>

definition signature_of :: "string \<Rightarrow> string" where
  "signature_of reply =
     (let s = (if starts_with reply ''stream:'' then trim_start (drop 7 reply) else reply)
      in if ends_with s ''FOUND''
         then rev (trim_start (rev (take (length s - 5) s))) else s)"

text \<open>\<open>scan\<close>: nothing is the scanner being unavailable.\<close>

definition scan :: "(octets \<Rightarrow> string option) \<Rightarrow> octets \<Rightarrow> ScanVerdict option" where
  "scan clamd bytes =
     (case clamd (instream bytes) of
        None \<Rightarrow> None
      | Some raw \<Rightarrow>
          let reply = trim (strip_nuls raw) in
          if ends_with reply ''OK'' then Some Clean
          else if ends_with reply ''FOUND'' then Some (Infected (signature_of reply))
          else None)"

section \<open>The bucket\<close>

datatype storage_call = GetObject string | PutObject string | DeleteObject string

type_synonym bucket = "string \<Rightarrow> octets option"

record photo_env =
  clamd :: "(octets \<Rightarrow> string option) option"
  image_codecs :: codecs
  down :: "storage_call \<Rightarrow> bool"

definition uploadKeyFor :: "string \<Rightarrow> string" where
  "uploadKeyFor token = ''uploads/'' @ token"

definition displayKeyFor :: "string \<Rightarrow> string" where
  "displayKeyFor photoId = ''photos/'' @ photoId @ ''.jpg''"

definition getObject :: "photo_env \<Rightarrow> string \<Rightarrow> bucket \<Rightarrow> octets option" where
  "getObject env key objects = (if down env (GetObject key) then None else objects key)"

definition putObject :: "photo_env \<Rightarrow> string \<Rightarrow> octets \<Rightarrow> bucket \<Rightarrow> bucket option" where
  "putObject env key body objects =
     (if down env (PutObject key) then None else Some (objects(key \<mapsto> body)))"

definition deleteObject :: "photo_env \<Rightarrow> string \<Rightarrow> bucket \<Rightarrow> bucket option" where
  "deleteObject env key objects =
     (if down env (DeleteObject key) then None else Some (objects(key := None)))"

section \<open>The pipeline\<close>

record PhotoFacts =
  factObjectKey :: string
  factWidth :: nat
  factHeight :: nat
  factSha256 :: string
  factByteSize :: nat
  factContentType :: string

datatype PipelineOutcome = Approve PhotoFacts | Refuse string

datatype pipeline_error = PipelineUnavailableError | StorageError | PipelineBug

definition rejection_code :: "ImageRejection \<Rightarrow> string" where
  "rejection_code r =
     (case r of
        Not_an_image \<Rightarrow> ''not_an_image''
      | Type_mismatch \<Rightarrow> ''type_mismatch''
      | Too_large \<Rightarrow> ''too_large''
      | Too_small \<Rightarrow> ''too_small''
      | Dimensions_too_large \<Rightarrow> ''dimensions_too_large''
      | Too_many_pixels \<Rightarrow> ''too_many_pixels''
      | Malformed \<Rightarrow> ''malformed''
      | Trailing_data \<Rightarrow> ''trailing_data'')"

definition failure_code :: "ReencodeFailure \<Rightarrow> string" where
  "failure_code f =
     (case f of
        Unsupported_format \<Rightarrow> ''unsupported_format''
      | Undecodable \<Rightarrow> ''undecodable''
      | Empty_image \<Rightarrow> ''empty_image'')"

text \<open>
  The judgement of the bytes, which touches nothing: inspect, scan if a scanner is configured,
  rebuild. The left sum is an error that propagates.
\<close>

datatype judgement = Bad string | Rebuilt Reencoded

definition judge :: "photo_env \<Rightarrow> octets \<Rightarrow> pipeline_error + judgement" where
  "judge env original =
     (case inspectImage original \<lparr>declaredType = None, maxBytes = None\<rparr> of
        Inl (ImageRejectedError r) \<Rightarrow> Inr (Bad (rejection_code r))
      | Inl InspectRange \<Rightarrow> Inl PipelineBug
      | Inr _ \<Rightarrow>
        (let verdict = (case clamd env of None \<Rightarrow> Some Clean | Some c \<Rightarrow> scan c original) in
         case verdict of
           None \<Rightarrow> Inl PipelineUnavailableError
         | Some (Infected signature) \<Rightarrow> Inr (Bad (''malware:'' @ signature))
         | Some Clean \<Rightarrow>
           (case reencodePhoto (image_codecs env) original of
              Inl (ReencodeError f) \<Rightarrow> Inr (Bad (failure_code f))
            | Inl PixelRange \<Rightarrow> Inl PipelineBug
            | Inr rebuilt \<Rightarrow> Inr (Rebuilt rebuilt))))"

definition sha256_of :: "octets \<Rightarrow> string" where
  "sha256_of bytes = toHex (sha256 (map unat bytes))"

definition facts_of :: "string \<Rightarrow> Reencoded \<Rightarrow> PhotoFacts" where
  "facts_of photoId rebuilt =
     \<lparr>factObjectKey = displayKeyFor photoId, factWidth = reWidth rebuilt,
      factHeight = reHeight rebuilt, factSha256 = sha256_of (reBytes rebuilt),
      factByteSize = length (reBytes rebuilt), factContentType = reContentType rebuilt\<rparr>"

definition processUpload ::
  "photo_env \<Rightarrow> string \<Rightarrow> string \<Rightarrow> bucket \<Rightarrow> (pipeline_error + PipelineOutcome) \<times> bucket" where
  "processUpload env photoId uploadKey objects =
     (case getObject env uploadKey objects of
        None \<Rightarrow> (Inl PipelineUnavailableError, objects)
      | Some original \<Rightarrow>
        case judge env original of
          Inl e \<Rightarrow> (Inl e, objects)
        | Inr (Bad reason) \<Rightarrow>
          (case deleteObject env uploadKey objects of
             None \<Rightarrow> (Inl StorageError, objects)
           | Some objects1 \<Rightarrow> (Inr (Refuse reason), objects1))
        | Inr (Rebuilt rebuilt) \<Rightarrow>
          (case putObject env (displayKeyFor photoId) (reBytes rebuilt) objects of
             None \<Rightarrow> (Inl StorageError, objects)
           | Some objects1 \<Rightarrow>
             (case deleteObject env uploadKey objects1 of
                None \<Rightarrow> (Inl StorageError, objects1)
              | Some objects2 \<Rightarrow> (Inr (Approve (facts_of photoId rebuilt)), objects2))))"

section \<open>The handlers\<close>

definition MAX_UPLOAD_BYTES :: int where "MAX_UPLOAD_BYTES = 10 * 1024 * 1024"

definition startSchema :: "string \<Rightarrow> jsnum \<Rightarrow> bool" where
  "startSchema contentType contentLength \<longleftrightarrow>
     contentType \<in> {''image/jpeg'', ''image/png''}
       \<and> z_positive_int contentLength \<and> to_int contentLength \<le> MAX_UPLOAD_BYTES"

definition presignUpload :: "int \<Rightarrow> string \<Rightarrow> string option" where
  "presignUpload contentLength key =
     (if contentLength \<le> 0 \<or> contentLength > MAX_UPLOAD_BYTES then None else Some key)"

definition postPhoto ::
  "Subject option \<Rightarrow> string \<Rightarrow> string \<Rightarrow> jsnum \<Rightarrow> string \<Rightarrow> string \<Rightarrow> int \<Rightarrow> api
     \<Rightarrow> (reply \<times> string option) \<times> api" where
  "postPhoto subject listingId contentType contentLength token newId now s =
     (case subject of
        None \<Rightarrow> ((unauthenticated, None), s)
      | Some u \<Rightarrow>
        if authorize subject ListingWrite None \<noteq> None then ((forbidden, None), s)
        else if \<not> startSchema contentType contentLength then ((invalid_request, None), s)
        else
          case startPhotoUpload (subUserId u) listingId (uploadKeyFor token) contentType newId now (fst s) of
            Inl ListingNotYoursError \<Rightarrow> ((not_found, None), s)
          | Inl PhotoLimitError \<Rightarrow> ((Reply 409 ''photo_limit'', None), s)
          | Inl _ \<Rightarrow> ((internal_error, None), s)
          | Inr (photo, db') \<Rightarrow>
            (case presignUpload (to_int contentLength) (pUploadKey photo) of
               None \<Rightarrow> ((internal_error, None), (db', snd s))
             | Some key \<Rightarrow> ((Reply 201 (pId photo), Some key), (db', snd s))))"

definition approved_facts :: "PhotoFacts \<Rightarrow> ApprovedPhotoFacts" where
  "approved_facts f =
     \<lparr>apObjectKey = factObjectKey f, apWidth = int (factWidth f), apHeight = int (factHeight f),
      apSha256 = factSha256 f, apByteSize = int (factByteSize f), apContentType = factContentType f\<rparr>"

text \<open>What the handler does with the pipeline's outcome, on the worker role.\<close>

definition record_refusal :: "string \<Rightarrow> string \<Rightarrow> int \<Rightarrow> api \<Rightarrow> reply \<times> api" where
  "record_refusal photoId reason now s =
     (case rejectPhoto photoId reason now (fst s) of
        Inl _ \<Rightarrow> (internal_error, s)
      | Inr (_, db') \<Rightarrow>
          (Reply 422 reason,
           writeAuditLog (machine_audit ''photo.rejected'' ''listing_photo'' photoId) (db', snd s)))"

definition record_approval :: "ListingPhoto \<Rightarrow> PhotoFacts \<Rightarrow> int \<Rightarrow> api \<Rightarrow> reply \<times> api" where
  "record_approval photo facts now s =
     (case approvePhoto (pId photo) (approved_facts facts) now (fst s) of
        Inl _ \<Rightarrow> (internal_error, s)
      | Inr (None, db') \<Rightarrow> (Reply 409 ''already_processed'', (db', snd s))
      | Inr (Some approved, db') \<Rightarrow>
          (let shared = listingsSharingPhoto (factSha256 facts) (pListingId photo) db';
               s' = (db', snd s)
           in (Reply 200 ''approved'',
               if shared = [] then s'
               else writeAuditLog
                      (machine_audit ''photo.duplicate_detected'' ''listing_photo'' (pId photo)) s')))"

definition pipeline_refusal :: "pipeline_error \<Rightarrow> reply" where
  "pipeline_refusal e =
     (case e of
        PipelineUnavailableError \<Rightarrow> Reply 503 ''processing_unavailable''
      | _ \<Rightarrow> internal_error)"

definition findPhoto :: "string \<Rightarrow> string \<Rightarrow> string \<Rightarrow> market_db \<Rightarrow> ListingPhoto option" where
  "findPhoto u listingId photoId db = find (\<lambda>p. pId p = photoId) (listPhotos u listingId db)"

definition postComplete ::
  "photo_env \<Rightarrow> Subject option \<Rightarrow> string \<Rightarrow> string \<Rightarrow> int \<Rightarrow> api \<times> bucket \<Rightarrow> reply \<times> api \<times> bucket" where
  "postComplete env subject listingId photoId now w =
     (case subject of
        None \<Rightarrow> (unauthenticated, w)
      | Some u \<Rightarrow>
        if authorize subject ListingWrite None \<noteq> None then (forbidden, w)
        else case findPhoto (subUserId u) listingId photoId (fst (fst w)) of
          None \<Rightarrow> (not_found, w)
        | Some photo \<Rightarrow>
          if pStatus photo \<noteq> Pending then (Reply 409 ''already_processed'', w)
          else case processUpload env (pId photo) (pUploadKey photo) (snd w) of
            (Inl e, objects) \<Rightarrow> (pipeline_refusal e, (fst w, objects))
          | (Inr (Refuse reason), objects) \<Rightarrow>
              (let (r, s) = record_refusal (pId photo) reason now (fst w) in (r, (s, objects)))
          | (Inr (Approve facts), objects) \<Rightarrow>
              (let (r, s) = record_approval photo facts now (fst w) in (r, (s, objects))))"

text \<open>One entry of the gallery: the signed link is for the processed copy, when there is one.\<close>

record PhotoItem =
  itemId :: string
  itemStatus :: PhotoStatus
  itemView :: "string option"

definition getPhotos :: "Subject option \<Rightarrow> string \<Rightarrow> api \<Rightarrow> reply + PhotoItem list" where
  "getPhotos subject listingId s =
     (case subject of
        None \<Rightarrow> Inl unauthenticated
      | Some u \<Rightarrow>
        if authorize subject ListingRead None \<noteq> None then Inl forbidden
        else Inr (map (\<lambda>p. \<lparr>itemId = pId p, itemStatus = pStatus p, itemView = pObjectKey p\<rparr>)
                    (listPhotos (subUserId u) listingId (fst s))))"

definition reorderSchema :: "string list \<Rightarrow> bool" where
  "reorderSchema photoIds \<longleftrightarrow> 1 \<le> length photoIds \<and> int (length photoIds) \<le> MAX_PHOTOS_PER_LISTING"

definition patchPhotos ::
  "Subject option \<Rightarrow> string \<Rightarrow> string list \<Rightarrow> int \<Rightarrow> api \<Rightarrow> reply \<times> api" where
  "patchPhotos subject listingId photoIds now s =
     (case subject of
        None \<Rightarrow> (unauthenticated, s)
      | Some u \<Rightarrow>
        if authorize subject ListingWrite None \<noteq> None then (forbidden, s)
        else if \<not> reorderSchema photoIds then (invalid_request, s)
        else case reorderPhotos (subUserId u) listingId photoIds now (fst s) of
          Inl PhotoNotFoundError \<Rightarrow> (not_found, s)
        | Inl _ \<Rightarrow> (internal_error, s)
        | Inr (items, db') \<Rightarrow> (Reply 200 ''ok'', (db', snd s)))"

text \<open>The loop over the removed row's keys: a failed delete is logged and passed over.\<close>

fun remove_objects :: "photo_env \<Rightarrow> string option list \<Rightarrow> bucket \<Rightarrow> bucket" where
  "remove_objects env [] objects = objects"
| "remove_objects env (None # keys) objects = remove_objects env keys objects"
| "remove_objects env (Some key # keys) objects =
     remove_objects env keys
       (case deleteObject env key objects of None \<Rightarrow> objects | Some objects' \<Rightarrow> objects')"

definition deletePhotoRoute ::
  "photo_env \<Rightarrow> Subject option \<Rightarrow> string \<Rightarrow> api \<times> bucket \<Rightarrow> reply \<times> api \<times> bucket" where
  "deletePhotoRoute env subject photoId w =
     (case subject of
        None \<Rightarrow> (unauthenticated, w)
      | Some u \<Rightarrow>
        if authorize subject ListingWrite None \<noteq> None then (forbidden, w)
        else case deletePhoto (subUserId u) photoId (fst (fst w)) of
          Inl PhotoNotFoundError \<Rightarrow> (not_found, w)
        | Inl _ \<Rightarrow> (internal_error, w)
        | Inr (removed, db') \<Rightarrow>
            (Reply 204 '''',
             (writeAuditLog (user_audit (subUserId u) ''photo.deleted'' ''listing_photo'' (pId removed))
                (db', snd (fst w)),
              remove_objects env [Some (pUploadKey removed), pObjectKey removed] (snd w))))"

section \<open>A completion as the steps it is made of\<close>

text \<open>
  The handler awaits between its steps, and other requests run in between. A job is a completion
  that stands at one of its awaits.
\<close>

datatype job =
    Fetching ListingPhoto
  | Judging ListingPhoto octets
  | Discarding ListingPhoto string
  | Rejecting ListingPhoto string
  | Storing ListingPhoto Reencoded
  | Cleaning ListingPhoto Reencoded
  | Approving ListingPhoto PhotoFacts
  | Finished reply

fun job_step :: "photo_env \<Rightarrow> int \<Rightarrow> job \<times> api \<times> bucket \<Rightarrow> job \<times> api \<times> bucket" where
  "job_step env now (Fetching p, s, objects) =
     (case getObject env (pUploadKey p) objects of
        None \<Rightarrow> (Finished (pipeline_refusal PipelineUnavailableError), s, objects)
      | Some original \<Rightarrow> (Judging p original, s, objects))"
| "job_step env now (Judging p original, s, objects) =
     (case judge env original of
        Inl e \<Rightarrow> (Finished (pipeline_refusal e), s, objects)
      | Inr (Bad reason) \<Rightarrow> (Discarding p reason, s, objects)
      | Inr (Rebuilt rebuilt) \<Rightarrow> (Storing p rebuilt, s, objects))"
| "job_step env now (Discarding p reason, s, objects) =
     (case deleteObject env (pUploadKey p) objects of
        None \<Rightarrow> (Finished (pipeline_refusal StorageError), s, objects)
      | Some objects' \<Rightarrow> (Rejecting p reason, s, objects'))"
| "job_step env now (Rejecting p reason, s, objects) =
     (let (r, s') = record_refusal (pId p) reason now s in (Finished r, s', objects))"
| "job_step env now (Storing p rebuilt, s, objects) =
     (case putObject env (displayKeyFor (pId p)) (reBytes rebuilt) objects of
        None \<Rightarrow> (Finished (pipeline_refusal StorageError), s, objects)
      | Some objects' \<Rightarrow> (Cleaning p rebuilt, s, objects'))"
| "job_step env now (Cleaning p rebuilt, s, objects) =
     (case deleteObject env (pUploadKey p) objects of
        None \<Rightarrow> (Finished (pipeline_refusal StorageError), s, objects)
      | Some objects' \<Rightarrow> (Approving p (facts_of (pId p) rebuilt), s, objects'))"
| "job_step env now (Approving p facts, s, objects) =
     (let (r, s') = record_approval p facts now s in (Finished r, s', objects))"
| "job_step env now (Finished r, s, objects) = (Finished r, s, objects)"

text \<open>Undisturbed, five steps are the handler.\<close>

lemma completion_is_its_steps:
  assumes "authorize (Some u) ListingWrite None = None"
    and "findPhoto (subUserId u) listingId photoId (fst s) = Some p" "pStatus p = Pending"
  shows "(job_step env now ^^ 5) (Fetching p, s, objects) =
    (let (r, w) = postComplete env (Some u) listingId photoId now (s, objects) in (Finished r, w))"
  using assms
  by (simp add: postComplete_def processUpload_def numeral_eq_Suc pipeline_refusal_def
      split: option.split sum.split judgement.split prod.split)

end
