(* ===== verification/PhotoRace.thy ===== *)
theory PhotoRace
  imports PhotoPipeline MarketInvariant
begin

text \<open>
  Uploads, completions, deletions and the rest of the marketplace running at the same time: a
  completion holds at every await of \<open>processUpload\<close> and of its handler, and any other request, or
  the browser's signed PUT, may come in between. The invariant says what a served object can be;
  the last section is an interleaving after which the served picture is not the approved one.
\<close>

type_synonym photo_world = "api \<times> bucket \<times> job list"

inductive world_step ::
  "(octets \<Rightarrow> string option) option \<Rightarrow> codecs \<Rightarrow> photo_world \<Rightarrow> photo_world \<Rightarrow> bool"
  for scanner :: "(octets \<Rightarrow> string option) option" and cs :: codecs where
  trade: "world_step scanner cs (s, objects, js) ((db', snd s), objects, js)"
    if "market_step x (fst s) = Inr db'" "\<forall>y. x \<noteq> PhotoOp y"
| upload_start: "world_step scanner cs (s, objects, js) (s', objects, js)"
    if "snd (postPhoto subject listingId contentType contentLength token newId now s) = s'"
| browser_put: "world_step scanner cs (s, objects, js) (s, objects(uploadKeyFor token \<mapsto> bytes), js)"
| reorder: "world_step scanner cs (s, objects, js) (s', objects, js)"
    if "snd (patchPhotos subject listingId photoIds now s) = s'"
| remove: "world_step scanner cs (s, objects, js) (s', objects', js)"
    if "snd (deletePhotoRoute env subject photoId (s, objects)) = (s', objects')"
| complete_begin: "world_step scanner cs (s, objects, js) (s, objects, js @ [Fetching p])"
    if "findPhoto u listingId photoId (fst s) = Some p" "pStatus p = Pending"
| complete_step: "world_step scanner cs (s, objects, js) (s', objects', js[i := j])"
    if "i < length js" "clamd env = scanner" "image_codecs env = cs"
      "job_step env now (js ! i, s, objects) = (j, s', objects')"

definition photo_reachable ::
  "(octets \<Rightarrow> string option) option \<Rightarrow> codecs \<Rightarrow> photo_world \<Rightarrow> bool" where
  "photo_reachable scanner cs w \<longleftrightarrow>
     (\<exists>us vs. (world_step scanner cs)\<^sup>*\<^sup>* ((seed us vs, []), \<lambda>_. None, []) w)"

section \<open>What the bucket can hold\<close>

text \<open>A clean rebuild: its original passed the inspection, the scan if there is one, and the codecs.\<close>

definition clean :: "(octets \<Rightarrow> string option) option \<Rightarrow> codecs \<Rightarrow> Reencoded \<Rightarrow> bool" where
  "clean scanner cs r \<longleftrightarrow>
     (\<exists>original header.
        inspectImage original \<lparr>declaredType = None, maxBytes = None\<rparr> = Inr header
        \<and> (case scanner of None \<Rightarrow> True | Some c \<Rightarrow> scan c original = Some Clean)
        \<and> reencodePhoto cs original = Inr r)"

definition row_ok :: "(octets \<Rightarrow> string option) option \<Rightarrow> codecs \<Rightarrow> ListingPhoto \<Rightarrow> bool" where
  "row_ok scanner cs p \<longleftrightarrow>
     pObjectKey p \<in> {None, Some (displayKeyFor (pId p))}
     \<and> (pStatus p = Approved \<longrightarrow>
          (\<exists>r. clean scanner cs r \<and> pSha256 p = Some (sha256_of (reBytes r))
             \<and> pWidth p = Some (int (reWidth r)) \<and> pHeight p = Some (int (reHeight r))))"

definition bucket_ok :: "(octets \<Rightarrow> string option) option \<Rightarrow> codecs \<Rightarrow> bucket \<Rightarrow> bool" where
  "bucket_ok scanner cs objects \<longleftrightarrow>
     (\<forall>key bytes. objects key = Some bytes \<longrightarrow>
        key \<in> range uploadKeyFor \<or> (\<exists>r. clean scanner cs r \<and> bytes = reBytes r))"

fun job_ok :: "(octets \<Rightarrow> string option) option \<Rightarrow> codecs \<Rightarrow> job \<Rightarrow> bool" where
  "job_ok scanner cs (Storing p r) = clean scanner cs r"
| "job_ok scanner cs (Cleaning p r) = clean scanner cs r"
| "job_ok scanner cs (Approving p f) = (\<exists>r. clean scanner cs r \<and> f = facts_of (pId p) r)"
| "job_ok scanner cs _ = True"

definition world_ok :: "(octets \<Rightarrow> string option) option \<Rightarrow> codecs \<Rightarrow> photo_world \<Rightarrow> bool" where
  "world_ok scanner cs w =
     (case w of (s, objects, js) \<Rightarrow>
        (\<forall>p \<in> set (listingPhotos (fst s)). row_ok scanner cs p)
        \<and> bucket_ok scanner cs objects \<and> list_all (job_ok scanner cs) js)"

lemma display_not_upload: "displayKeyFor k \<notin> range uploadKeyFor"
  by (auto simp: displayKeyFor_def uploadKeyFor_def)

lemma judge_clean:
  "judge env original = Inr (Rebuilt r) \<Longrightarrow> clean (clamd env) (image_codecs env) r"
  by (auto simp: judge_def clean_def Let_def
      split: sum.splits inspect_error.splits option.splits ScanVerdict.splits reencode_error.splits)

lemma bucket_ok_delete:
  "bucket_ok scanner cs objects \<Longrightarrow> deleteObject env key objects = Some objects' \<Longrightarrow>
   bucket_ok scanner cs objects'"
  by (simp add: bucket_ok_def deleteObject_def split: if_splits) (clarsimp, metis option.distinct(1))

lemma bucket_ok_put:
  "bucket_ok scanner cs objects \<Longrightarrow> clean scanner cs r \<Longrightarrow>
   putObject env key (reBytes r) objects = Some objects' \<Longrightarrow> bucket_ok scanner cs objects'"
  by (simp add: bucket_ok_def putObject_def split: if_splits) (clarsimp, metis option.inject)

lemma bucket_ok_remove:
  "bucket_ok scanner cs objects \<Longrightarrow> bucket_ok scanner cs (remove_objects env keys objects)"
  by (induction env keys objects rule: remove_objects.induct)
    (auto dest: bucket_ok_delete split: option.splits)

section \<open>Rows\<close>

abbreviation rows_okay :: "(octets \<Rightarrow> string option) option \<Rightarrow> codecs \<Rightarrow> market_db \<Rightarrow> bool" where
  "rows_okay scanner cs db \<equiv> \<forall>p \<in> set (listingPhotos db). row_ok scanner cs p"

lemma update_photo_rows:
  assumes "update_photo s cond k f db = Inr (res, db')" "rows_okay scanner cs db"
    and "\<And>p. row_ok scanner cs p \<Longrightarrow> pId p = k \<Longrightarrow> row_ok scanner cs (f p)"
  shows "rows_okay scanner cs db'"
  using assms by (auto simp: update_photo_def set_update_row split: option.splits if_splits)

lemma write_positions_rows:
  "write_positions u now pos ks db = Inr db' \<Longrightarrow> rows_okay scanner cs db \<Longrightarrow> rows_okay scanner cs db'"
proof (induction ks arbitrary: pos db)
  case (Cons k ks)
  then obtain r db1 where up: "update_photo (AsUser u) (\<lambda>_. True) k
      (\<lambda>p. p\<lparr>pPosition := pos, pUpdatedAt := now\<rparr>) db = Inr (r, db1)"
    and rest: "write_positions u now (pos + 1) ks db1 = Inr db'"
    by (auto split: sum.splits)
  have "rows_okay scanner cs db1"
    by (rule update_photo_rows [OF up Cons.prems(2)]) (simp add: row_ok_def)
  then show ?case
    by (rule Cons.IH [OF rest])
qed simp

lemma start_rows:
  "startPhotoUpload u l key ct k now db = Inr (p, db') \<Longrightarrow> rows_okay scanner cs db \<Longrightarrow>
   rows_okay scanner cs db'"
  by (auto simp: startPhotoUpload_def Let_def insert_photo_def new_photo_def row_ok_def
      split: option.splits if_splits sum.splits)

lemma delete_rows:
  "deletePhoto u k db = Inr (p, db') \<Longrightarrow> rows_okay scanner cs db \<Longrightarrow> rows_okay scanner cs db'"
  by (auto simp: deletePhoto_def split: option.splits if_splits)

lemma delete_route_ok:
  assumes "snd (deletePhotoRoute env subject photoId (s, objects)) = (s', objects')"
    and "rows_okay scanner cs (fst s)" "bucket_ok scanner cs objects"
  shows "rows_okay scanner cs (fst s') \<and> bucket_ok scanner cs objects'"
proof (cases "\<exists>u p db'. subject = Some u \<and> authorize subject ListingWrite None = None
    \<and> deletePhoto (subUserId u) photoId (fst s) = Inr (p, db')")
  case True
  then obtain u p db' where "subject = Some u" "authorize subject ListingWrite None = None"
    and del: "deletePhoto (subUserId u) photoId (fst s) = Inr (p, db')"
    by blast
  then have "fst s' = db'" "objects' = remove_objects env [Some (pUploadKey p), pObjectKey p] objects"
    using assms(1) by (auto simp: deletePhotoRoute_def writeAuditLog_def simp del: remove_objects.simps)
  then show ?thesis
    using delete_rows [OF del assms(2)] bucket_ok_remove [OF assms(3)]
    by (simp del: remove_objects.simps)
next
  case False
  then have "s' = s \<and> objects' = objects"
    using assms(1) by (auto simp: deletePhotoRoute_def
        split: option.splits if_splits sum.splits photo_error.splits)
  then show ?thesis
    using assms(2,3) by simp
qed

lemma reorder_rows:
  "reorderPhotos u l ks now db = Inr (ps, db') \<Longrightarrow> rows_okay scanner cs db \<Longrightarrow>
   rows_okay scanner cs db'"
  by (auto simp: reorderPhotos_def Let_def split: if_splits sum.splits dest: write_positions_rows)

lemma reject_rows:
  assumes "rejectPhoto k reason now db = Inr (po, db')" "rows_okay scanner cs db"
  shows "rows_okay scanner cs db'"
proof -
  have up: "update_photo Worker (\<lambda>_. True) k (reject_set reason now) db = Inr (po, db')"
    using assms(1) by (auto simp: rejectPhoto_def split: sum.splits)
  show ?thesis
    by (rule update_photo_rows [OF up assms(2)]) (simp add: row_ok_def reject_set_def)
qed

lemma approve_rows:
  assumes "approvePhoto k (approved_facts (facts_of k r)) now db = Inr (po, db')"
    and "clean scanner cs r" "rows_okay scanner cs db"
  shows "rows_okay scanner cs db'"
proof -
  have up: "update_photo Worker (\<lambda>p. pStatus p \<noteq> Approved) k
      (approve_set (approved_facts (facts_of k r)) now) db = Inr (po, db')"
    using assms(1) by (auto simp: approvePhoto_def split: sum.splits)
  show ?thesis
    by (rule update_photo_rows [OF up assms(3)])
      (use assms(2) in \<open>auto simp: row_ok_def approve_set_def approved_facts_def facts_of_def\<close>)
qed

lemma trade_photos:
  assumes "market_step x db = Inr db'" "\<forall>y. x \<noteq> PhotoOp y"
  shows "set (listingPhotos db') \<subseteq> set (listingPhotos db)"
proof (cases x)
  case (OrderOp y)
  then show ?thesis
    using order_step_frame [of y db db'] assms by (auto simp: order_op_frame_def)
next
  case (ListingOp y)
  then show ?thesis
    using assms by (cases y) (auto simp: committed_Inr deleteDraftListing_def delete_listing_def
        dest!: createListing_Inr updateListing_Inr setListingStatus_Inr
        split: option.splits if_splits)
next
  case (RatingOp y)
  then show ?thesis
    using rating_step_frame [of y db db'] assms by auto
next
  case (SellerOp y)
  then show ?thesis
    using seller_step_frame [of y db db'] assms by auto
qed (use assms in auto)

section \<open>The invariant\<close>

lemma job_step_ok:
  assumes "job_step env now (j, s, objects) = (j', s', objects')"
    and "world_ok (clamd env) (image_codecs env) (s, objects, [j])"
  shows "world_ok (clamd env) (image_codecs env) (s', objects', [j'])"
proof (cases j)
  case (Judging p original)
  then show ?thesis
    using assms judge_clean [of env original]
    by (auto simp: world_ok_def split: sum.splits judgement.splits)
next
  case (Storing p r)
  then show ?thesis
    using assms by (auto simp: world_ok_def split: option.splits intro: bucket_ok_put)
next
  case (Approving p f)
  then obtain r where "clean (clamd env) (image_codecs env) r" "f = facts_of (pId p) r"
    using assms(2) by (auto simp: world_ok_def)
  then show ?thesis
    using assms Approving approve_rows [of "pId p" r now "fst s"]
    by (auto simp: world_ok_def record_approval_def Let_def writeAuditLog_def
        split: sum.splits prod.splits option.splits if_splits)
next
  case (Rejecting p reason)
  then show ?thesis
    using assms reject_rows [of "pId p" reason now "fst s"]
    by (auto simp: world_ok_def record_refusal_def Let_def writeAuditLog_def
        split: sum.splits prod.splits)
qed (use assms in \<open>auto simp: world_ok_def split: option.splits intro: bucket_ok_delete\<close>)

lemma world_step_ok:
  assumes "world_step scanner cs w w'" "world_ok scanner cs w"
  shows "world_ok scanner cs w'"
  using assms
proof cases
  case (trade x s db' objects js)
  then show ?thesis
    using assms(2) trade_photos [of x "fst s" db'] by (auto simp: world_ok_def)
next
  case (upload_start subject listingId contentType contentLength token newId now s s' objects js)
  then show ?thesis
    using assms(2) by (auto simp: world_ok_def postPhoto_def dest: start_rows
        split: option.splits if_splits sum.splits photo_error.splits)
next
  case (browser_put s objects js token bytes)
  then show ?thesis
    using assms(2) by (auto simp: world_ok_def bucket_ok_def)
next
  case (reorder subject listingId photoIds now s s' objects js)
  then show ?thesis
    using assms(2) by (auto simp: world_ok_def patchPhotos_def dest: reorder_rows
        split: option.splits if_splits sum.splits photo_error.splits)
next
  case (remove env subject photoId s objects s' objects' js)
  then show ?thesis
    using assms(2) delete_route_ok [of env subject photoId s objects s' objects' scanner cs]
    by (auto simp: world_ok_def)
next
  case (complete_begin u listingId photoId s p objects js)
  then show ?thesis
    using assms(2) by (simp add: world_ok_def)
next
  case (complete_step i js env now s objects j s' objects')
  then show ?thesis
    using assms(2) job_step_ok [of env now "js ! i" s objects j s' objects']
    by (auto simp: world_ok_def list_all_iff dest!: set_update_subset_insert [THEN subsetD])
qed

lemma photo_reachable_ok: "photo_reachable scanner cs w \<Longrightarrow> world_ok scanner cs w"
proof -
  assume "photo_reachable scanner cs w"
  then obtain us vs where "(world_step scanner cs)\<^sup>*\<^sup>* ((seed us vs, []), \<lambda>_. None, []) w"
    by (auto simp: photo_reachable_def)
  then show ?thesis
  proof (induction rule: rtranclp_induct)
    case base
    then show ?case
      by (simp add: world_ok_def bucket_ok_def seed_def)
  qed (rule world_step_ok)
qed

text \<open>C12: Whatever a view link can show was rebuilt here. Under every interleaving of uploads,
  overlapping completions, deletions and trade, with any storage call failing at any moment, a
  photo's link points outside the uploads, the bytes behind it are the re-encoder's output for an
  original that passed the inspection and, where a scanner is configured, was found clean, and an
  approved row records the digest and size of such an output.\<close>

theorem served_pictures_are_rebuilt:
  assumes "photo_reachable scanner cs (s, objects, js)" "p \<in> set (listingPhotos (fst s))"
    and "pObjectKey p = Some key"
  shows "key \<notin> range uploadKeyFor
    \<and> {bytes. objects key = Some bytes} \<subseteq> {bytes. \<exists>original header r.
          inspectImage original \<lparr>declaredType = None, maxBytes = None\<rparr> = Inr header
          \<and> (case scanner of None \<Rightarrow> True | Some c \<Rightarrow> scan c original = Some Clean)
          \<and> reencodePhoto cs original = Inr r \<and> bytes = reBytes r}
    \<and> (\<exists>r. pStatus p \<noteq> Approved \<or> clean scanner cs r
          \<and> pSha256 p = Some (sha256_of (reBytes r)) \<and> pWidth p = Some (int (reWidth r)))"
proof -
  have ok: "row_ok scanner cs p" "bucket_ok scanner cs objects"
    using photo_reachable_ok [OF assms(1)] assms(2) by (auto simp: world_ok_def)
  have key: "key = displayKeyFor (pId p)"
    using ok(1) assms(3) by (auto simp: row_ok_def)
  moreover have "\<exists>r. clean scanner cs r \<and> bytes = reBytes r" if "objects key = Some bytes" for bytes
    using ok(2) that key display_not_upload [of "pId p"] by (auto simp: bucket_ok_def)
  then have "{bytes. objects key = Some bytes} \<subseteq> {bytes. \<exists>original header r.
          inspectImage original \<lparr>declaredType = None, maxBytes = None\<rparr> = Inr header
          \<and> (case scanner of None \<Rightarrow> True | Some c \<Rightarrow> scan c original = Some Clean)
          \<and> reencodePhoto cs original = Inr r \<and> bytes = reBytes r}"
    unfolding clean_def by blast
  moreover have "\<exists>r. pStatus p \<noteq> Approved \<or> clean scanner cs r
      \<and> pSha256 p = Some (sha256_of (reBytes r)) \<and> pWidth p = Some (int (reWidth r))"
    using ok(1) by (auto simp: row_ok_def)
  ultimately show ?thesis
    using display_not_upload [of "pId p"] by (simp only: key simp_thms)
qed

section \<open>A served picture that was never approved\<close>

text \<open>
  Two completions of one photo: both read the row while it is pending, the browser replaces the
  upload between their reads, the first is approved, and the second stores its copy over the first
  under the same key before it is told that the photo was already processed.
\<close>

definition race_env :: "(octets \<Rightarrow> string option) option \<Rightarrow> codecs \<Rightarrow> photo_env" where
  "race_env scanner cs = \<lparr>clamd = scanner, image_codecs = cs, down = \<lambda>_. False\<rparr>"

definition race_db :: market_db where
  "race_db = market_run demo_users demo_cards [ListingOp (CreateListing ''ann'' demo_listing ''l1'' 1)]"

definition race_photo :: ListingPhoto where
  "race_photo = new_photo ''l1'' (uploadKeyFor ''t1'') ''image/jpeg'' 0 ''p1'' 2"

definition race_pending :: market_db where
  "race_pending = race_db\<lparr>listingPhotos := [race_photo]\<rparr>"

definition ann :: Subject where
  "ann = \<lparr>subUserId = ''ann'', subRole = RSeller, subAuthenticatedAt = None, subAuthMethod = None,
          subSessionId = None\<rparr>"

lemma race_created:
  "market_step (ListingOp (CreateListing ''ann'' demo_listing ''l1'' 1)) (seed demo_users demo_cards)
     = Inr race_db"
  by code_simp

lemma race_started:
  "postPhoto (Some ann) ''l1'' ''image/jpeg'' (int_num 5000) ''t1'' ''p1'' 2 (race_db, []) =
     ((Reply 201 ''p1'', Some (uploadKeyFor ''t1'')), (race_pending, []))"
  by code_simp

lemma race_found: "findPhoto ''ann'' ''l1'' ''p1'' race_pending = Some race_photo"
  by code_simp

lemma reach_step:
  "photo_reachable scanner cs w \<Longrightarrow> world_step scanner cs w w' \<Longrightarrow> photo_reachable scanner cs w'"
  by (auto simp: photo_reachable_def intro: rtranclp.rtrancl_into_rtrancl)

lemma reach_job:
  assumes "photo_reachable scanner cs (s, objects, js)" "i < length js"
    and "job_step (race_env scanner cs) now (js ! i, s, objects) = (j, s', objects')"
  shows "photo_reachable scanner cs (s', objects', js[i := j])"
  by (rule reach_step [OF assms(1) complete_step [OF assms(2) _ _ assms(3)]])
    (simp_all add: race_env_def)

lemma reach_put:
  "photo_reachable scanner cs (s, objects, js) \<Longrightarrow>
   photo_reachable scanner cs (s, objects(uploadKeyFor token \<mapsto> bytes), js)"
  by (rule reach_step [OF _ browser_put])

lemma lower_hex_digit: "n < 16 \<Longrightarrow> lower_hex (hex_digit n)"
  by (auto simp: hex_digit_def lower_hex_def is_digit_def in_range_def)

lemma sha256_of_hex: "length (sha256_of bytes) = 64" "list_all lower_hex (sha256_of bytes)"
proof -
  show "length (sha256_of bytes) = 64"
    by (simp add: sha256_of_def length_toHex length_sha256)
  have "lower_hex (hex_digit (b div 16))" "lower_hex (hex_digit (b mod 16))"
    if "b \<in> set (sha256 (map unat bytes))" for b
    using sha256_bytes [OF that] by (simp_all add: lower_hex_digit)
  then show "list_all lower_hex (sha256_of bytes)"
    by (simp add: sha256_of_def toHex_def hex_byte_def list_all_iff)
qed

text \<open>A rebuild the table can record.\<close>

definition storable :: "Reencoded \<Rightarrow> bool" where
  "storable r \<longleftrightarrow>
     {reWidth r, reHeight r} \<subseteq> {1..8000} \<and> length (reBytes r) \<in> {1..10485760}"

definition approved_row :: "Reencoded \<Rightarrow> ListingPhoto" where
  "approved_row r = approve_set (approved_facts (facts_of ''p1'' r)) 9 race_photo"

lemma race_photo_fields:
  "pId race_photo = ''p1''" "pStatus race_photo = Pending" "pUploadKey race_photo = uploadKeyFor ''t1''"
  "pListingId race_photo = ''l1''" "pPosition race_photo = 0"
  by (simp_all add: race_photo_def new_photo_def)

lemma race_approved:
  assumes "storable r"
  shows "record_approval race_photo (facts_of ''p1'' r) 9 (race_pending, []) =
    (Reply 200 ''approved'', (race_pending\<lparr>listingPhotos := [approved_row r]\<rparr>, []))"
proof -
  have row: "listingPhotos race_pending = [race_photo]"
    by (simp add: race_pending_def)
  have "photo_int4 (approved_row r)" "first_violated (photo_checks (approved_row r)) = None"
    using assms sha256_of_hex [of "reBytes r"]
    by (simp_all add: storable_def approved_row_def approve_set_def approved_facts_def facts_of_def
        photo_int4_def opt_int4_def int4_def photo_checks_def opt_within_def race_photo_fields)
  then have "approvePhoto ''p1'' (approved_facts (facts_of ''p1'' r)) 9 race_pending =
      Inr (Some (approved_row r), race_pending\<lparr>listingPhotos := [approved_row r]\<rparr>)"
    by (simp add: approvePhoto_def update_photo_def row race_photo_fields photo_writable_def
        approved_row_def photo_unique_violation_def)
  moreover have "listingsSharingPhoto h ''l1'' (race_pending\<lparr>listingPhotos := [approved_row r]\<rparr>) = []" for h
    by (simp add: listingsSharingPhoto_def approved_row_def approve_set_def race_photo_fields)
  ultimately show ?thesis
    by (simp add: record_approval_def race_photo_fields)
qed

lemma swap_reached:
  assumes "judge (race_env scanner cs) o1 = Inr (Rebuilt r1)" "storable r1"
    and "judge (race_env scanner cs) o2 = Inr (Rebuilt r2)" "reBytes r2 \<noteq> reBytes r1"
  shows "\<exists>s objects js p key. photo_reachable scanner cs (s, objects, js)
    \<and> p \<in> set (listingPhotos (fst s)) \<and> pStatus p = Approved \<and> pObjectKey p = Some key
    \<and> pSha256 p = Some (sha256_of (reBytes r1)) \<and> objects key = Some (reBytes r2)"
proof -
  let ?up = "uploadKeyFor ''t1''" and ?show = "displayKeyFor ''p1''"
  let ?env = "race_env scanner cs"
  have r0: "photo_reachable scanner cs ((seed demo_users demo_cards, []), \<lambda>_. None, [])"
    unfolding photo_reachable_def by blast
  have r1: "photo_reachable scanner cs ((race_db, []), \<lambda>_. None, [])"
    using reach_step [OF r0 trade [of "ListingOp (CreateListing ''ann'' demo_listing ''l1'' 1)"
        "(seed demo_users demo_cards, [])" race_db]] race_created by simp
  have r2: "photo_reachable scanner cs ((race_pending, []), \<lambda>_. None, [])"
    by (rule reach_step [OF r1 upload_start [of "Some ann" "''l1''" "''image/jpeg''" "int_num 5000"
        "''t1''" "''p1''" 2]]) (simp add: race_started)
  have r3: "photo_reachable scanner cs ((race_pending, []), (\<lambda>_. None)(?up \<mapsto> o1), [])"
    by (rule reach_put [OF r2])
  have r4: "photo_reachable scanner cs ((race_pending, []), (\<lambda>_. None)(?up \<mapsto> o1),
      [Fetching race_photo])"
    using reach_step [OF r3 complete_begin [of "''ann''" "''l1''" "''p1''"]] race_found
    by (simp add: race_photo_fields)
  have r5: "photo_reachable scanner cs ((race_pending, []), (\<lambda>_. None)(?up \<mapsto> o1),
      [Fetching race_photo, Fetching race_photo])"
    using reach_step [OF r4 complete_begin [of "''ann''" "''l1''" "''p1''"]] race_found
    by (simp add: race_photo_fields)
  have r6: "photo_reachable scanner cs ((race_pending, []), (\<lambda>_. None)(?up \<mapsto> o1),
      [Judging race_photo o1, Fetching race_photo])"
    using reach_job [OF r5, of 0 0] by (simp add: getObject_def race_env_def race_photo_fields)
  have r7: "photo_reachable scanner cs ((race_pending, []), (\<lambda>_. None)(?up \<mapsto> o2),
      [Judging race_photo o1, Fetching race_photo])"
    using reach_put [OF r6, of "''t1''" o2] by simp
  have r8: "photo_reachable scanner cs ((race_pending, []), (\<lambda>_. None)(?up \<mapsto> o2),
      [Judging race_photo o1, Judging race_photo o2])"
    using reach_job [OF r7, of 1 0] by (simp add: getObject_def race_env_def race_photo_fields)
  have r9: "photo_reachable scanner cs ((race_pending, []), (\<lambda>_. None)(?up \<mapsto> o2),
      [Storing race_photo r1, Judging race_photo o2])"
    using reach_job [OF r8, of 0 0] assms(1) by simp
  have r10: "photo_reachable scanner cs ((race_pending, []), (\<lambda>_. None)(?up \<mapsto> o2),
      [Storing race_photo r1, Storing race_photo r2])"
    using reach_job [OF r9, of 1 0] assms(3) by simp
  have r11: "photo_reachable scanner cs
      ((race_pending, []), (\<lambda>_. None)(?up \<mapsto> o2, ?show \<mapsto> reBytes r1),
      [Cleaning race_photo r1, Storing race_photo r2])"
    using reach_job [OF r10, of 0 0] by (simp add: putObject_def race_env_def race_photo_fields)
  have r12: "photo_reachable scanner cs
      ((race_pending, []), ((\<lambda>_. None)(?up \<mapsto> o2, ?show \<mapsto> reBytes r1))(?up := None),
      [Approving race_photo (facts_of ''p1'' r1), Storing race_photo r2])"
    using reach_job [OF r11, of 0 0] by (simp add: deleteObject_def race_env_def race_photo_fields)
  have r13: "photo_reachable scanner cs
      ((race_pending\<lparr>listingPhotos := [approved_row r1]\<rparr>, []),
       ((\<lambda>_. None)(?up \<mapsto> o2, ?show \<mapsto> reBytes r1))(?up := None),
      [Finished (Reply 200 ''approved''), Storing race_photo r2])"
    using reach_job [OF r12, of 0 9] race_approved [OF assms(2)] by simp
  have r14: "photo_reachable scanner cs
      ((race_pending\<lparr>listingPhotos := [approved_row r1]\<rparr>, []),
       (((\<lambda>_. None)(?up \<mapsto> o2, ?show \<mapsto> reBytes r1))(?up := None))(?show \<mapsto> reBytes r2),
      [Finished (Reply 200 ''approved''), Cleaning race_photo r2])"
    using reach_job [OF r13, of 1 9] by (simp add: putObject_def race_env_def race_photo_fields)
  show ?thesis
    by (rule exI, rule exI, rule exI, rule exI [of _ "approved_row r1"], rule exI [of _ ?show],
        rule conjI [OF r14])
      (simp add: approved_row_def approve_set_def approved_facts_def facts_of_def)
qed

text \<open>C16: The picture behind an approved photo can be one that was never approved. Two overlapping
  completions of a pending photo share the display key, which is derived from the photo's id alone:
  the second one's copy replaces the first one's after the row was approved, so the row's digest,
  which the duplicate check compares, is not the digest of what is served.\<close>

theorem approved_picture_can_be_swapped:
  assumes "judge (race_env scanner cs) o1 = Inr (Rebuilt r1)" "storable r1"
    and "judge (race_env scanner cs) o2 = Inr (Rebuilt r2)" "reBytes r2 \<noteq> reBytes r1"
  shows "\<exists>s objects js p key. photo_reachable scanner cs (s, objects, js)
    \<and> p \<in> set (listingPhotos (fst s)) \<and> pStatus p = Approved \<and> pObjectKey p = Some key
    \<and> pSha256 p = Some (sha256_of (reBytes r1)) \<and> objects key = Some (reBytes r2)"
  by (rule swap_reached [OF assms])

section \<open>Two uploads of a concrete seller\<close>

definition race_codecs :: codecs where
  "race_codecs =
     \<lparr>png_read = (\<lambda>_. None),
      jpeg_decode = (\<lambda>bytes. Some (if length bytes < 60
        then \<lparr>pxWidth = 1, pxHeight = 1, pxData = [0, 0, 0, 255]\<rparr>
        else \<lparr>pxWidth = 2, pxHeight = 1, pxData = [0, 0, 0, 255, 9, 9, 9, 255]\<rparr>)),
      jpeg_encode = (\<lambda>px q. replicate (pxWidth px) 0xff)\<rparr>"

definition race_upload :: "nat \<Rightarrow> octets" where
  "race_upload n = file_bytes (JpegFile [Segment 0xc0 [8, 0x02, 0x58, 0x03, 0x20, 3]]
     ([0xff, 0xda, 0, 8] @ replicate n 7 @ [0xff, 0xd9]))"

lemma endsWith_self: "endsWith (pre @ suf) suf"
  by (simp add: endsWith_def byte_at_def list_all_iff nth_append)

lemma race_upload_accepted:
  assumes "n < 1000"
  shows "inspectImage (race_upload n) \<lparr>declaredType = None, maxBytes = None\<rparr> = Inr demo_header"
proof -
  let ?f = "JpegFile [Segment 0xc0 [8, 0x02, 0x58, 0x03, 0x20, 3]]
     ([0xff, 0xda, 0, 8] @ replicate n 7 @ [0xff, 0xd9])"
  have "well_formed ?f"
    by (simp add: standalone_def isFrameHeader_def)
  moreover have "file_header ?f = Some demo_header"
    by (simp add: isFrameHeader_def big_endian_def demo_header_def)
  ultimately have "readImageHeader (race_upload n) = Inr (Some demo_header)"
    using read_structure [of ?f] by (simp add: race_upload_def)
  moreover have "sniffImageType (race_upload n) = Some Jpeg"
    by (simp add: race_upload_def)
  moreover have "endsCleanly (race_upload n)"
    using endsWith_self [of "JPEG_SOI @ part_bytes (Segment 0xc0 [8, 0x02, 0x58, 0x03, 0x20, 3])
        @ [0xff, 0xda, 0, 8] @ replicate n 7" "[0xff, 0xd9]"]
    by (simp add: endsCleanly_def race_upload_def)
  moreover have "length (race_upload n) \<le> MAX_PHOTO_BYTES"
    using assms by (simp add: race_upload_def JPEG_SOI_def MAX_PHOTO_BYTES_def)
  ultimately show ?thesis
    by (simp add: inspectImage_def demo_header_def MAX_PHOTO_DIMENSION_def
        MIN_PHOTO_DIMENSION_def MAX_PHOTO_PIXELS_def)
qed

lemma race_judged:
  assumes "n < 1000"
  shows "\<exists>r. judge (race_env None race_codecs) (race_upload n) = Inr (Rebuilt r)
    \<and> storable r \<and> reBytes r = replicate (if n < 42 then 1 else 2) 0xff"
proof -
  obtain px where px: "decode_photo race_codecs (race_upload n) = Inr px" "pixels_ok px"
    "pxWidth px = (if n < 42 then 1 else 2)" "pxHeight px = 1" "pxData px \<noteq> []"
    by (cases "n < 42")
      (simp_all add: decode_photo_def isPng_def isJpeg_def race_codecs_def race_upload_def JPEG_SOI_def
        byte_at_def pixels_ok_def)
  have size: "displaySize (pxWidth px) (pxHeight px) 1600 = (pxWidth px, pxHeight px)"
    using px by (simp add: displaySize_def)
  obtain out where out: "resample px (pxWidth px) (pxHeight px) = Inr out"
    "pxWidth out = pxWidth px" "pxHeight out = pxHeight px"
    using resample_ok [OF px(2), of "pxWidth px" "pxHeight px"] by auto
  have "reencodePhoto race_codecs (race_upload n) =
      Inr \<lparr>reBytes = replicate (pxWidth px) 0xff, reWidth = pxWidth px, reHeight = 1,
           reContentType = ''image/jpeg''\<rparr>"
    using px size out
    by (simp add: reencodePhoto_def Let_def DISPLAY_MAX_DIMENSION_def race_codecs_def split: if_splits)
  then show ?thesis
    using race_upload_accepted [OF assms] px(3)
    by (auto simp: judge_def Let_def race_env_def storable_def)
qed

theorem approved_picture_can_be_swapped_witness:
  "\<exists>s objects js p key. photo_reachable None race_codecs (s, objects, js)
    \<and> p \<in> set (listingPhotos (fst s)) \<and> pStatus p = Approved \<and> pObjectKey p = Some key
    \<and> pSha256 p = Some (sha256_of [0xff]) \<and> objects key = Some [0xff, 0xff]"
proof -
  obtain r1 where r1: "judge (race_env None race_codecs) (race_upload 0) = Inr (Rebuilt r1)"
    "storable r1" "reBytes r1 = [0xff]"
    using race_judged [of 0] by auto
  obtain r2 where r2: "judge (race_env None race_codecs) (race_upload 80) = Inr (Rebuilt r2)"
    "reBytes r2 = [0xff, 0xff]"
    using race_judged [of 80] by (auto simp: numeral_2_eq_2)
  show ?thesis
    using approved_picture_can_be_swapped [OF r1(1,2) r2(1)] r1(3) r2(2) by simp
qed

lemma race_served:
  "\<exists>s objects js p key. photo_reachable None race_codecs (s, objects, js)
    \<and> p \<in> set (listingPhotos (fst s)) \<and> pStatus p = Approved \<and> pObjectKey p = Some key
    \<and> objects key = Some [0xff, 0xff]"
proof -
  obtain r1 where r1: "judge (race_env None race_codecs) (race_upload 0) = Inr (Rebuilt r1)"
    "storable r1" "reBytes r1 = [0xff]"
    using race_judged [of 0] by auto
  obtain r2 where r2: "judge (race_env None race_codecs) (race_upload 80) = Inr (Rebuilt r2)"
    "reBytes r2 = [0xff, 0xff]"
    using race_judged [of 80] by (auto simp: numeral_2_eq_2)
  show ?thesis
    using swap_reached [OF r1(1,2) r2(1)] r1(3) r2(2) by simp blast
qed

theorem served_pictures_are_rebuilt_witness:
  "\<exists>s objects js p key. photo_reachable None race_codecs (s, objects, js)
    \<and> p \<in> set (listingPhotos (fst s)) \<and> pStatus p = Approved \<and> pObjectKey p = Some key
    \<and> key \<notin> range uploadKeyFor \<and> objects key = Some [0xff, 0xff]
    \<and> (\<exists>original r. reencodePhoto race_codecs original = Inr r \<and> [0xff, 0xff] = reBytes r)"
proof -
  obtain s objects js p key where w: "photo_reachable None race_codecs (s, objects, js)"
    "p \<in> set (listingPhotos (fst s))" "pStatus p = Approved" "pObjectKey p = Some key"
    "objects key = Some [0xff, 0xff]"
    using race_served by blast
  then show ?thesis
    using served_pictures_are_rebuilt [OF w(1,2,4)] by blast
qed

end
