(* ===== verification/Csv.thy ===== *)
theory Csv
  imports Prelude "HOL-Library.Word" "HOL-Library.AList"
begin

text \<open>
  CSV documents (\<open>packages/security/src/csv.ts\<close>): the writer with its formula guard, the parser with
  its caps, and rows as records. Texts are UTF-16, as the language has them: lists of 16-bit words,
  so that the byte-order mark, the size in bytes and the white space of \<open>trim\<close> are what they are.
\<close>

type_synonym utf16 = "16 word list"

definition js :: "string \<Rightarrow> utf16" where
  "js s = map (\<lambda>c. word_of_nat (of_char c)) s"

definition unit :: "char \<Rightarrow> 16 word" where
  "unit c = word_of_nat (of_char c)"

section \<open>Text\<close>

definition js_space :: "16 word \<Rightarrow> bool" where
  "js_space u \<longleftrightarrow>
     (9 \<le> u \<and> u \<le> 13) \<or> u = 32 \<or> u = 0xa0 \<or> u = 0x1680 \<or> (0x2000 \<le> u \<and> u \<le> 0x200a)
       \<or> u = 0x2028 \<or> u = 0x2029 \<or> u = 0x202f \<or> u = 0x205f \<or> u = 0x3000 \<or> u = 0xfeff"

definition js_trim :: "utf16 \<Rightarrow> utf16" where
  "js_trim s = rev (dropWhile js_space (rev (dropWhile js_space s)))"

text \<open>\<open>Buffer.byteLength\<close>: a surrogate pair is four bytes, a lone surrogate its replacement's three.\<close>

fun byte_length :: "utf16 \<Rightarrow> nat" where
  "byte_length [] = 0"
| "byte_length [u] = (if u < 0x80 then 1 else if u < 0x800 then 2 else 3)"
| "byte_length (u # v # s) =
     (if u < 0x80 then 1 + byte_length (v # s)
      else if u < 0x800 then 2 + byte_length (v # s)
      else if 0xd800 \<le> u \<and> u \<le> 0xdbff \<and> 0xdc00 \<le> v \<and> v \<le> 0xdfff then 4 + byte_length s
      else 3 + byte_length (v # s))"

section \<open>Writing\<close>

definition FORMULA_PREFIXES :: "16 word set" where
  "FORMULA_PREFIXES = {unit (CHR ''=''), unit (CHR ''+''), unit (CHR ''-''), unit (CHR ''@''), 9, 13}"

text \<open>
  A cell's value, by the cases of \<open>csvCell\<close>: nothing, a string, or what the language's own
  \<open>toString\<close>, \<open>toISOString\<close> or \<open>JSON.stringify\<close> makes of it.
\<close>

datatype csv_value = CsvNull | CsvText utf16 | CsvInt int | CsvBool bool | CsvOther utf16

definition raw_text :: "csv_value \<Rightarrow> utf16" where
  "raw_text v =
     (case v of
        CsvNull \<Rightarrow> []
      | CsvText s \<Rightarrow> s
      | CsvInt i \<Rightarrow> js (string_of_int i)
      | CsvBool b \<Rightarrow> js (if b then ''true'' else ''false'')
      | CsvOther s \<Rightarrow> s)"

definition guard_formula :: "utf16 \<Rightarrow> utf16" where
  "guard_formula raw =
     (case raw of [] \<Rightarrow> [] | u # _ \<Rightarrow> if u \<in> FORMULA_PREFIXES then unit (CHR 0x27) # raw else raw)"

abbreviation quote :: "16 word" where "quote \<equiv> unit (CHR 0x22)"

definition double_quotes :: "utf16 \<Rightarrow> utf16" where
  "double_quotes s = concat (map (\<lambda>u. if u = quote then [quote, quote] else [u]) s)"

definition csvCell :: "csv_value \<Rightarrow> utf16" where
  "csvCell v =
     (if v = CsvNull then [quote, quote]
      else [quote] @ double_quotes (guard_formula (raw_text v)) @ [quote])"

fun join_units :: "utf16 \<Rightarrow> utf16 list \<Rightarrow> utf16" where
  "join_units sep [] = []"
| "join_units sep [s] = s"
| "join_units sep (s # t # ss) = s @ sep @ join_units sep (t # ss)"

definition csvRow :: "csv_value list \<Rightarrow> utf16" where
  "csvRow values = join_units [unit (CHR '','')] (map csvCell values)"

definition toCsv :: "utf16 list \<Rightarrow> csv_value list list \<Rightarrow> utf16" where
  "toCsv header rows = join_units [13, 10] (csvRow (map CsvText header) # map csvRow rows)"

section \<open>Reading\<close>

datatype csv_error = CsvLimitError | CsvFormatError

record CsvDocument =
  csvHeader :: "utf16 list"
  csvRows :: "utf16 list list"

text \<open>What the loop carries: the finished rows, the current row and field, and the quoting.\<close>

record csv_state =
  stRows :: "utf16 list list"
  stRow :: "utf16 list"
  stField :: utf16
  stQuoted :: bool

definition endField :: "csv_state \<Rightarrow> csv_state" where
  "endField st = st\<lparr>stRow := stRow st @ [stField st], stField := []\<rparr>"

definition endRow :: "nat \<Rightarrow> csv_state \<Rightarrow> csv_error + csv_state" where
  "endRow maxRows st =
     (let st1 = endField st;
          rows = (if stRow st1 = [[]] then stRows st1 else stRows st1 @ [stRow st1]);
          st2 = st1\<lparr>stRows := rows, stRow := []\<rparr>
      in if length rows > maxRows + 1 then Inl CsvLimitError else Inr st2)"

function csv_loop :: "nat \<Rightarrow> utf16 \<Rightarrow> csv_state \<Rightarrow> csv_error + csv_state" where
  "csv_loop maxRows [] st = Inr st"
| "csv_loop maxRows (u # s) st =
     (if stQuoted st then
        if u = quote then
          if s \<noteq> [] \<and> hd s = quote
          then csv_loop maxRows (tl s) (st\<lparr>stField := stField st @ [quote]\<rparr>)
          else csv_loop maxRows s (st\<lparr>stQuoted := False\<rparr>)
        else csv_loop maxRows s (st\<lparr>stField := stField st @ [u]\<rparr>)
      else if u = quote then
        if stField st \<noteq> [] then Inl CsvFormatError
        else csv_loop maxRows s (st\<lparr>stQuoted := True\<rparr>)
      else if u = unit (CHR '','') then csv_loop maxRows s (endField st)
      else if u = 10 then
        (case endRow maxRows st of Inl e \<Rightarrow> Inl e | Inr st' \<Rightarrow> csv_loop maxRows s st')
      else if u = 13 then
        (case endRow maxRows st of
           Inl e \<Rightarrow> Inl e
         | Inr st' \<Rightarrow> csv_loop maxRows (if s \<noteq> [] \<and> hd s = 10 then tl s else s) st')
      else csv_loop maxRows s (st\<lparr>stField := stField st @ [u]\<rparr>))"
  by pat_completeness auto
termination
  by (relation "measure (\<lambda>(maxRows, s, st). length s)") (auto simp: neq_Nil_conv)

definition parseCsv :: "utf16 \<Rightarrow> nat \<Rightarrow> nat \<Rightarrow> csv_error + CsvDocument" where
  "parseCsv doc maxRows maxBytes =
     (if byte_length doc > maxBytes then Inl CsvLimitError
      else
        let input = (if doc \<noteq> [] \<and> hd doc = 0xfeff then tl doc else doc) in
        case csv_loop maxRows input \<lparr>stRows = [], stRow = [], stField = [], stQuoted = False\<rparr> of
          Inl e \<Rightarrow> Inl e
        | Inr st \<Rightarrow>
          if stQuoted st then Inl CsvFormatError
          else case (if input \<noteq> [] \<and> (stField st \<noteq> [] \<or> stRow st \<noteq> []) then endRow maxRows st
                     else Inr st) of
            Inl e \<Rightarrow> Inl e
          | Inr st' \<Rightarrow>
            (case stRows st' of
               [] \<Rightarrow> Inl CsvFormatError
             | header # rows \<Rightarrow>
                 if length rows > maxRows then Inl CsvLimitError
                 else Inr \<lparr>csvHeader = map js_trim header, csvRows = rows\<rparr>))"

definition DEFAULT_MAX_ROWS :: nat where "DEFAULT_MAX_ROWS = 5000"
definition DEFAULT_MAX_BYTES :: nat where "DEFAULT_MAX_BYTES = 2 * 1024 * 1024"

text \<open>\<open>Object.fromEntries\<close>: a later entry of the same name replaces the earlier one.\<close>

fun from_entries :: "('k \<times> 'v) list \<Rightarrow> ('k \<times> 'v) list \<Rightarrow> ('k \<times> 'v) list" where
  "from_entries [] acc = acc"
| "from_entries ((k, v) # es) acc = from_entries es (AList.update k v acc)"

record csv_mapping =
  mapRecords :: "(utf16 \<times> utf16) list list"
  mapRowNumbers :: "nat list"
  mapErrors :: "(nat \<times> nat \<times> nat) list"

text \<open>An error is the row number with the columns expected and found.\<close>

fun map_rows :: "utf16 list \<Rightarrow> nat \<Rightarrow> utf16 list list \<Rightarrow> csv_mapping \<Rightarrow> csv_mapping" where
  "map_rows header index [] m = m"
| "map_rows header index (cells # rest) m =
     (let rowNumber = index + 2 in
      map_rows header (index + 1) rest
        (if length cells \<noteq> length header
         then m\<lparr>mapErrors := mapErrors m @ [(rowNumber, length header, length cells)]\<rparr>
         else m\<lparr>mapRecords := mapRecords m @ [from_entries (zip header (map js_trim cells)) []],
                mapRowNumbers := mapRowNumbers m @ [rowNumber]\<rparr>))"

definition mapCsvRows :: "CsvDocument \<Rightarrow> csv_mapping" where
  "mapCsvRows doc =
     map_rows (csvHeader doc) 0 (csvRows doc) \<lparr>mapRecords = [], mapRowNumbers = [], mapErrors = []\<rparr>"

section \<open>What is written is read\<close>

text \<open>The text a reader recovers from a cell, and the row it recovers from a list of values.\<close>

definition shown :: "csv_value \<Rightarrow> utf16" where
  "shown v = guard_formula (raw_text v)"

definition shown_row :: "csv_value list \<Rightarrow> utf16 list" where
  "shown_row vs = (if vs = [] then [[]] else map shown vs)"

definition finish :: "nat \<Rightarrow> csv_state \<Rightarrow> csv_error + csv_state" where
  "finish maxRows st = (if stField st \<noteq> [] \<or> stRow st \<noteq> [] then endRow maxRows st else Inr st)"

lemma quote_not_special [simp]:
  "quote \<noteq> unit (CHR '','')" "unit (CHR '','') \<noteq> quote" "quote \<noteq> 10" "quote \<noteq> 13"
  "unit (CHR '','') \<noteq> 10" "unit (CHR '','') \<noteq> 13" "13 \<noteq> quote" "10 \<noteq> quote"
  by (simp_all add: unit_def)

lemma csvCell_shown: "csvCell v = quote # double_quotes (shown v) @ [quote]"
  by (simp add: csvCell_def shown_def raw_text_def guard_formula_def double_quotes_def)

lemma loop_quoted:
  "stQuoted st \<Longrightarrow> rest = [] \<or> hd rest \<noteq> quote \<Longrightarrow>
   csv_loop mx (double_quotes s @ quote # rest) st =
     csv_loop mx rest (st\<lparr>stField := stField st @ s, stQuoted := False\<rparr>)"
proof (induction s arbitrary: st)
  case Nil
  then show ?case
    by (auto simp: double_quotes_def)
next
  case (Cons u s)
  then show ?case
    by (cases "u = quote") (simp_all add: double_quotes_def)
qed

lemma loop_cell:
  assumes "\<not> stQuoted st" "stField st = []" "rest = [] \<or> hd rest \<noteq> quote"
  shows "csv_loop mx (csvCell v @ rest) st = csv_loop mx rest (st\<lparr>stField := shown v\<rparr>)"
proof -
  have "csv_loop mx (csvCell v @ rest) st =
      csv_loop mx (double_quotes (shown v) @ quote # rest) (st\<lparr>stQuoted := True\<rparr>)"
    using assms(1,2) by (simp add: csvCell_shown)
  also have "\<dots> = csv_loop mx rest (st\<lparr>stQuoted := True, stField := shown v, stQuoted := False\<rparr>)"
    using loop_quoted [of "st\<lparr>stQuoted := True\<rparr>" rest mx "shown v"] assms by simp
  also have "st\<lparr>stQuoted := True, stField := shown v, stQuoted := False\<rparr> = st\<lparr>stField := shown v\<rparr>"
    using assms(1) by (cases st) simp
  finally show ?thesis .
qed

lemma loop_row:
  "\<not> stQuoted st \<Longrightarrow> stField st = [] \<Longrightarrow> rest = [] \<or> hd rest \<noteq> quote \<Longrightarrow>
   csv_loop mx (csvRow (v # vs) @ rest) st =
     csv_loop mx rest (st\<lparr>stRow := stRow st @ map shown (butlast (v # vs)),
                          stField := shown (last (v # vs))\<rparr>)"
proof (induction vs arbitrary: v st)
  case Nil
  then show ?case
    by (simp add: csvRow_def loop_cell)
next
  case (Cons w vs)
  have "csvRow (v # w # vs) @ rest = csvCell v @ unit (CHR '','') # csvRow (w # vs) @ rest"
    by (simp add: csvRow_def)
  then have "csv_loop mx (csvRow (v # w # vs) @ rest) st =
      csv_loop mx (csvRow (w # vs) @ rest) (endField (st\<lparr>stField := shown v\<rparr>))"
    using Cons.prems by (simp add: loop_cell)
  then show ?case
    using Cons.IH [of "endField (st\<lparr>stField := shown v\<rparr>)" w] Cons.prems
    by (simp add: endField_def)
qed

lemma end_of_row:
  assumes "\<not> stQuoted st" "stRow st = []" "stField st = []" "length (stRows st) \<le> mx"
  shows "csv_loop mx (csvRow vs @ 13 # 10 # rest) st =
    csv_loop mx rest (st\<lparr>stRows := stRows st @ filter (\<lambda>r. r \<noteq> [[]]) [shown_row vs]\<rparr>)"
proof (cases vs)
  case Nil
  then show ?thesis
    using assms by (cases st) (simp add: csvRow_def endRow_def endField_def shown_row_def)
next
  case (Cons w ws)
  have "map shown (butlast (w # ws)) @ [shown (last (w # ws))] = map shown (w # ws)"
    by (metis append_butlast_last_id list.distinct(1) list.simps(8,9) map_append)
  then show ?thesis
    using assms Cons loop_row [of st "13 # 10 # rest" mx w ws]
    by (cases st) (auto simp: endRow_def endField_def shown_row_def Let_def)
qed

lemma finish_row:
  assumes "\<not> stQuoted st" "stRow st = []" "stField st = []" "length (stRows st) \<le> mx"
  shows "\<exists>st'. csv_loop mx (csvRow vs) st = Inr st' \<and> \<not> stQuoted st'
    \<and> (\<exists>st2. finish mx st' = Inr st2
          \<and> stRows st2 = stRows st @ filter (\<lambda>r. r \<noteq> [[]]) [shown_row vs])"
proof (cases vs)
  case Nil
  then show ?thesis
    using assms by (simp add: csvRow_def finish_def shown_row_def)
next
  case (Cons w ws)
  have "map shown (butlast (w # ws)) @ [shown (last (w # ws))] = map shown (w # ws)"
    by (metis append_butlast_last_id list.distinct(1) list.simps(8,9) map_append)
  then show ?thesis
    using assms Cons loop_row [of st "[]" mx w ws]
    by (auto simp: finish_def endRow_def endField_def shown_row_def Let_def)
qed

lemma loop_rows:
  "\<not> stQuoted st \<Longrightarrow> stRow st = [] \<Longrightarrow> stField st = [] \<Longrightarrow>
   length (stRows st) + length rs \<le> mx \<Longrightarrow>
   \<exists>st'. csv_loop mx (join_units [13, 10] (map csvRow (r # rs))) st = Inr st' \<and> \<not> stQuoted st'
     \<and> (\<exists>st2. finish mx st' = Inr st2
          \<and> stRows st2 = stRows st @ filter (\<lambda>r. r \<noteq> [[]]) (map shown_row (r # rs)))"
proof (induction rs arbitrary: r st)
  case Nil
  then show ?case
    using finish_row [of st mx r] by simp
next
  case (Cons q rs)
  let ?st = "st\<lparr>stRows := stRows st @ filter (\<lambda>r. r \<noteq> [[]]) [shown_row r]\<rparr>"
  have "csv_loop mx (join_units [13, 10] (map csvRow (r # q # rs))) st =
      csv_loop mx (join_units [13, 10] (map csvRow (q # rs))) ?st"
    using end_of_row [of st mx r "join_units [13, 10] (map csvRow (q # rs))"] Cons.prems by simp
  moreover have "length (stRows ?st) + length rs \<le> mx"
    using Cons.prems by simp
  ultimately show ?case
    using Cons.IH [of ?st q] Cons.prems by auto
qed

lemma hd_join: "s \<noteq> [] \<Longrightarrow> hd (join_units sep (s # ss)) = hd s \<and> join_units sep (s # ss) \<noteq> []"
  by (cases ss) auto

lemma no_byte_order_mark: "hd (toCsv header rows) = 0xfeff \<Longrightarrow> toCsv header rows = []"
proof (cases header)
  case Nil
  then show "hd (toCsv header rows) = 0xfeff \<Longrightarrow> ?thesis"
    by (cases rows) (simp_all add: toCsv_def csvRow_def)
next
  case (Cons h hs)
  then have "hd (csvRow (map CsvText header)) = quote \<and> csvRow (map CsvText header) \<noteq> []"
    using hd_join [of "csvCell (CsvText h)" "[unit (CHR '','')]" "map csvCell (map CsvText hs)"]
    by (simp add: csvRow_def csvCell_shown)
  then have "hd (toCsv header rows) = quote"
    using hd_join [of "csvRow (map CsvText header)" "[13, 10]" "map csvRow rows"]
    by (simp add: toCsv_def)
  then show "hd (toCsv header rows) = 0xfeff \<Longrightarrow> ?thesis"
    by (simp add: unit_def)
qed

lemma guard_safe: "shown v = [] \<or> hd (shown v) \<notin> FORMULA_PREFIXES"
  by (auto simp: shown_def guard_formula_def FORMULA_PREFIXES_def unit_def split: list.splits)

lemma parse_written:
  assumes "byte_length (toCsv header rows) \<le> maxBytes" "length rows \<le> maxRows"
    and "shown_row (map CsvText header) \<noteq> [[]]"
  shows "parseCsv (toCsv header rows) maxRows maxBytes =
    Inr \<lparr>csvHeader = map (\<lambda>h. js_trim (guard_formula h)) header,
         csvRows = filter (\<lambda>r. r \<noteq> [[]]) (map shown_row rows)\<rparr>"
proof -
  let ?st = "\<lparr>stRows = [], stRow = [], stField = [], stQuoted = False\<rparr>"
  have doc: "toCsv header rows = join_units [13, 10] (map csvRow (map CsvText header # rows))"
    by (simp add: toCsv_def)
  obtain st' st2 where run: "csv_loop maxRows (toCsv header rows) ?st = Inr st'" "\<not> stQuoted st'"
    "finish maxRows st' = Inr st2"
    "stRows st2 = filter (\<lambda>r. r \<noteq> [[]]) (map shown_row (map CsvText header # rows))"
    using loop_rows [of ?st rows maxRows "map CsvText header"] assms(2) unfolding doc by auto
  have input: "(if toCsv header rows \<noteq> [] \<and> hd (toCsv header rows) = 0xfeff
      then tl (toCsv header rows) else toCsv header rows) = toCsv header rows"
    using no_byte_order_mark by auto
  have empty: "toCsv header rows = [] \<Longrightarrow> st' = ?st"
    using run(1) by simp
  have last: "(if toCsv header rows \<noteq> [] \<and> (stField st' \<noteq> [] \<or> stRow st' \<noteq> [])
      then endRow maxRows st' else Inr st') = Inr st2"
    using run(3) empty by (auto simp: finish_def)
  have head: "map shown (map CsvText header) = map guard_formula header" "header \<noteq> []"
    using assms(3) by (auto simp: shown_def raw_text_def shown_row_def)
  have rows: "stRows st2 = map guard_formula header # filter (\<lambda>r. r \<noteq> [[]]) (map shown_row rows)"
    using run(4) assms(3) head by (simp add: shown_row_def del: map_map)
  have "length (filter (\<lambda>r. r \<noteq> [[]]) (map shown_row rows)) \<le> maxRows"
    using assms(2) by (metis length_filter_le length_map le_trans)
  then show ?thesis
    using assms(1) run(1,2) last rows
    unfolding parseCsv_def Let_def input by simp
qed

text \<open>C17: A document written with \<open>toCsv\<close> reads back as what it was written from, except for what
  the format guards and drops: a cell starting with a formula character gains one apostrophe, so
  no cell any reader recovers is a formula; header names are trimmed; and a row whose only cell is
  empty is lost. Quotes, commas and line breaks in the data never move a cell.\<close>

theorem csv_roundtrip:
  assumes "byte_length (toCsv header rows) \<le> maxBytes" "length rows \<le> maxRows"
    and "shown_row (map CsvText header) \<noteq> [[]]"
  shows "parseCsv (toCsv header rows) maxRows maxBytes =
      Inr \<lparr>csvHeader = map (\<lambda>h. js_trim (guard_formula h)) header,
           csvRows = filter (\<lambda>r. r \<noteq> [[]]) (map shown_row rows)\<rparr>
    \<and> (\<forall>v. shown v = [] \<or> hd (shown v) \<notin> FORMULA_PREFIXES)
    \<and> (\<forall>v. shown v \<in> {raw_text v, unit (CHR 0x27) # raw_text v})"
  using parse_written [OF assms] guard_safe
  by (auto simp: shown_def guard_formula_def split: list.split)

definition demo_rows :: "csv_value list list" where
  "demo_rows = [[CsvText (js ''=cmd,''), CsvInt (- 5)], [CsvText (js ''say ''), CsvNull]]"

theorem csv_roundtrip_witness:
  "parseCsv (toCsv [js ''name'', js ''count''] demo_rows) 10 1000 =
     Inr \<lparr>csvHeader = [js ''name'', js ''count''],
          csvRows = [[unit (CHR 0x27) # js ''=cmd,'', unit (CHR 0x27) # js ''-5''], [js ''say '', []]]\<rparr>"
proof -
  have size: "byte_length (toCsv [js ''name'', js ''count''] demo_rows) \<le> 1000"
    by code_simp
  have "map (\<lambda>h. js_trim (guard_formula h)) [js ''name'', js ''count''] = [js ''name'', js ''count'']"
    "filter (\<lambda>r. r \<noteq> [[]]) (map shown_row demo_rows) =
       [[unit (CHR 0x27) # js ''=cmd,'', unit (CHR 0x27) # js ''-5''], [js ''say '', []]]"
    by code_simp+
  then show ?thesis
    using csv_roundtrip [OF size, of 10]
    by (simp add: demo_rows_def shown_row_def shown_def raw_text_def guard_formula_def js_def
        FORMULA_PREFIXES_def unit_def)
qed

text \<open>
  A blank line shifts the row numbers: the parser drops it, and \<open>mapCsvRows\<close> counts the rows that
  are left. The bad row is the third line of this file and is reported as row 2.
\<close>

lemma blank_line_shifts_the_row_number:
  "(case parseCsv (js ''a'' @ [10, 10] @ js ''1,2'') 10 1000 of
      Inl _ \<Rightarrow> [] | Inr doc \<Rightarrow> mapErrors (mapCsvRows doc)) = [(2, 1, 2)]"
  by code_simp

end
