(* ===== verification/CollectionCsv.thy ===== *)
theory CollectionCsv
  imports Csv JsDate JsNumber MarketDb
begin

text \<open>
  The collection file (\<open>packages/core/src/collections.ts\<close>): its columns, what a row must satisfy,
  and money written the way people write it, without ever becoming a float. The schema's own
  errors are the column they are about. Lower case is that of ASCII letters: no other letter's
  lower case is one of the column names.
\<close>

section \<open>Columns\<close>

definition COLLECTION_CSV_COLUMNS :: "string list" where
  "COLLECTION_CSV_COLUMNS =
     [''set'', ''number'', ''finish'', ''language'', ''condition'', ''quantity'',
      ''acquired_price'', ''currency'', ''acquired_at'', ''notes'']"

definition COLLECTION_CSV_REQUIRED_COLUMNS :: "string list" where
  "COLLECTION_CSV_REQUIRED_COLUMNS = [''set'', ''number'', ''quantity'']"

definition CARD_FINISHES :: "string list" where
  "CARD_FINISHES = [''normal'', ''parallel'', ''alt_art'', ''promo'']"

definition CARD_LANGUAGES :: "string list" where
  "CARD_LANGUAGES = [''en'', ''ja'']"

definition CARD_CONDITIONS :: "string list" where
  "CARD_CONDITIONS = [''nm'', ''lp'', ''mp'', ''hp'', ''dmg'']"

definition condition_named :: "string \<Rightarrow> CardCondition option" where
  "condition_named s =
     map_of [(''nm'', NM), (''lp'', LP), (''mp'', MP), (''hp'', HP), (''dmg'', DMG)] s"

definition condition_name :: "CardCondition \<Rightarrow> string" where
  "condition_name c =
     (case c of NM \<Rightarrow> ''nm'' | LP \<Rightarrow> ''lp'' | MP \<Rightarrow> ''mp'' | HP \<Rightarrow> ''hp'' | DMG \<Rightarrow> ''dmg'')"

definition ascii_lower :: "utf16 \<Rightarrow> utf16" where
  "ascii_lower s = map (\<lambda>u. if 65 \<le> u \<and> u \<le> 90 then u + 32 else u) s"

definition ascii_upper :: "utf16 \<Rightarrow> utf16" where
  "ascii_upper s = map (\<lambda>u. if 97 \<le> u \<and> u \<le> 122 then u - 32 else u) s"

text \<open>The text of ASCII units as a plain string.\<close>

definition unjs :: "utf16 \<Rightarrow> string" where
  "unjs s = map (\<lambda>u. char_of (unat u)) s"

section \<open>Money\<close>

definition digit_unit :: "16 word \<Rightarrow> bool" where
  "digit_unit u \<longleftrightarrow> 48 \<le> u \<and> u \<le> 57"

definition digits_upto :: "nat \<Rightarrow> utf16 \<Rightarrow> bool" where
  "digits_upto n s \<longleftrightarrow> 1 \<le> length s \<and> length s \<le> n \<and> list_all digit_unit s"

definition parse_int :: "utf16 \<Rightarrow> nat" where
  "parse_int s = foldl (\<lambda>n u. 10 * n + (unat u - 48)) 0 s"

fun split_units :: "16 word \<Rightarrow> utf16 \<Rightarrow> utf16 list" where
  "split_units sep [] = [[]]"
| "split_units sep (u # s) =
     (if u = sep then [] # split_units sep s
      else case split_units sep s of [] \<Rightarrow> [[u]] | p # ps \<Rightarrow> (u # p) # ps)"

definition currency_sign :: "16 word \<Rightarrow> bool" where
  "currency_sign u \<longleftrightarrow> u = unit (CHR ''$'') \<or> u = 0xa3 \<or> u = 0x20ac \<or> u = 0xa5"

definition pad_end :: "nat \<Rightarrow> utf16 \<Rightarrow> utf16" where
  "pad_end n s = s @ replicate (n - length s) 48"

definition parseMoneyToCents :: "utf16 \<Rightarrow> int option" where
  "parseMoneyToCents input =
     (let t = js_trim input;
          signless = (if t \<noteq> [] \<and> currency_sign (hd t) then tl t else t);
          cleaned = filter (\<lambda>u. u \<noteq> unit (CHR '','')) signless
      in case split_units (unit (CHR ''.'')) cleaned of
           [whole] \<Rightarrow>
             if digits_upto 9 whole then Some (int (parse_int whole) * 100 + int (parse_int (pad_end 2 [])))
             else None
         | [whole, fraction] \<Rightarrow>
             if \<not> digits_upto 9 whole then None
             else if \<not> digits_upto 2 fraction then None
             else Some (int (parse_int whole) * 100 + int (parse_int (pad_end 2 fraction)))
         | _ \<Rightarrow> None)"

definition formatCentsAsAmount :: "int \<Rightarrow> string" where
  "formatCentsAsAmount cents =
     (let n = \<bar>cents\<bar>
      in (if cents < 0 then ''-'' else []) @ string_of_int \<lfloor>dbl (of_int n / 100)\<rfloor> @ ''.''
           @ pad 2 (string_of_int (n mod 100)))"

section \<open>A row\<close>

record CollectionCsvRow =
  crSet :: utf16
  crNumber :: utf16
  crFinish :: "string option"
  crLanguage :: "string option"
  crCondition :: "CardCondition option"
  crQuantity :: int
  crAcquiredPrice :: "int option"
  crCurrency :: "string option"
  crAcquiredAt :: "int option"
  crNotes :: "utf16 option"

type_synonym csv_record = "(utf16 \<times> utf16) list"

definition column :: "csv_record \<Rightarrow> string \<Rightarrow> utf16 option" where
  "column r name = map_of r (js name)"

definition optionalText :: "utf16 option \<Rightarrow> utf16 option" where
  "optionalText v =
     (case v of None \<Rightarrow> None | Some s \<Rightarrow> let t = js_trim s in if t = [] then None else Some t)"

text \<open>A column that must be there, trimmed, of 1 to 32 units.\<close>

definition code_column :: "utf16 option \<Rightarrow> utf16 option" where
  "code_column v =
     (case v of
        None \<Rightarrow> None
      | Some s \<Rightarrow> let t = js_trim s in if 1 \<le> length t \<and> length t \<le> 32 then Some t else None)"

text \<open>An optional column: absent, or what \<open>f\<close> makes of it, or wrong.\<close>

definition optional_column :: "(utf16 \<Rightarrow> 'a option) \<Rightarrow> utf16 option \<Rightarrow> 'a option option" where
  "optional_column f v =
     (case optionalText v of None \<Rightarrow> Some None | Some t \<Rightarrow> map_option Some (f t))"

definition one_of :: "string list \<Rightarrow> utf16 \<Rightarrow> string option" where
  "one_of names t = find (\<lambda>n. js n = t) names"

definition quantity_column :: "utf16 option \<Rightarrow> int option" where
  "quantity_column v =
     (case v of
        None \<Rightarrow> None
      | Some s \<Rightarrow>
          let t = js_trim s; n = int (parse_int t)
          in if digits_upto 6 t \<and> 1 \<le> n \<and> n \<le> 100000 then Some n else None)"

definition currency_of :: "utf16 \<Rightarrow> string option" where
  "currency_of t =
     (if length t = 3 \<and> list_all (\<lambda>u. 65 \<le> u \<and> u \<le> 90 \<or> 97 \<le> u \<and> u \<le> 122) t
      then Some (unjs (ascii_upper t)) else None)"

text \<open>\<open>z.iso.date()\<close> and the midnight it stands for.\<close>

definition iso_date :: "utf16 \<Rightarrow> int option" where
  "iso_date t =
     (case split_units (unit (CHR ''-'')) t of
        [ys, ms, ds] \<Rightarrow>
          let y = int (parse_int ys); m = int (parse_int ms); d = int (parse_int ds)
          in if length ys = 4 \<and> length ms = 2 \<and> length ds = 2
                \<and> list_all digit_unit ys \<and> list_all digit_unit ms \<and> list_all digit_unit ds
                \<and> 1 \<le> m \<and> m \<le> 12 \<and> 1 \<le> d \<and> d \<le> days_in_month y m
             then Some (day_number y m d * 86400000) else None
      | _ \<Rightarrow> None)"

definition notes_of :: "utf16 \<Rightarrow> utf16 option" where
  "notes_of t = (if length t \<le> 500 then Some t else None)"

text \<open>The columns that are wrong, in the schema's order, or the row.\<close>

definition wrong :: "string \<Rightarrow> 'a option \<Rightarrow> string list" where
  "wrong name v = (case v of None \<Rightarrow> [name] | Some _ \<Rightarrow> [])"

definition collectionCsvRowSchema :: "csv_record \<Rightarrow> string list + CollectionCsvRow" where
  "collectionCsvRowSchema r =
     (let st = code_column (column r ''set''); nr = code_column (column r ''number'');
          fin = optional_column (one_of CARD_FINISHES) (column r ''finish'');
          lang = optional_column (one_of CARD_LANGUAGES) (column r ''language'');
          cond = optional_column (\<lambda>t. Option.bind (one_of CARD_CONDITIONS t) condition_named)
                   (column r ''condition'');
          qty = quantity_column (column r ''quantity'');
          price = optional_column parseMoneyToCents (column r ''acquired_price'');
          cur = optional_column currency_of (column r ''currency'');
          acq = optional_column iso_date (column r ''acquired_at'');
          note = optional_column notes_of (column r ''notes'');
          issues = wrong ''set'' st @ wrong ''number'' nr @ wrong ''finish'' fin
            @ wrong ''language'' lang @ wrong ''condition'' cond @ wrong ''quantity'' qty
            @ wrong ''acquired_price'' price @ wrong ''currency'' cur @ wrong ''acquired_at'' acq
            @ wrong ''notes'' note
      in if issues \<noteq> [] then Inl issues
         else Inr \<lparr>crSet = the st, crNumber = the nr, crFinish = the fin, crLanguage = the lang,
                   crCondition = the cond, crQuantity = the qty, crAcquiredPrice = the price,
                   crCurrency = the cur, crAcquiredAt = the acq, crNotes = the note\<rparr>)"

section \<open>The header\<close>

datatype header_problem = UnknownColumn utf16 | DuplicateColumn utf16 | MissingColumn string

fun check_columns :: "utf16 list \<Rightarrow> utf16 list \<Rightarrow> header_problem list \<times> utf16 list" where
  "check_columns [] seen = ([], seen)"
| "check_columns (name # names) seen =
     (let c = ascii_lower (js_trim name);
          here = (if c \<notin> set (map js COLLECTION_CSV_COLUMNS) then [UnknownColumn name]
                  else if c \<in> set seen then [DuplicateColumn c] else []);
          (rest, seen') = check_columns names (c # seen)
      in (here @ rest, seen'))"

definition validateCollectionCsvHeader :: "utf16 list \<Rightarrow> header_problem list" where
  "validateCollectionCsvHeader header =
     (let (problems, seen) = check_columns header []
      in problems @ map MissingColumn
           (filter (\<lambda>c. js c \<notin> set seen) COLLECTION_CSV_REQUIRED_COLUMNS))"

section \<open>Money is read as it is written\<close>

lemma of_char_lt: "(of_char c :: nat) < 256"
  by (metis char_of_mod_256 mod_less_divisor of_char_of of_char_mod_256 zero_less_numeral)

lemma unat_unit: "unat (unit c) = of_char c"
proof -
  have "(of_char c :: nat) mod 65536 = of_char c"
    by (rule mod_less) (use of_char_lt [of c] in linarith)
  then show ?thesis
    by (simp add: unit_def unat_of_nat)
qed

lemma js_append [simp]: "js (s @ t) = js s @ js t"
  by (simp add: js_def)

lemma js_Cons: "js (c # s) = unit c # js s"
  by (simp add: js_def unit_def)

lemma length_js [simp]: "length (js s) = length s"
  by (simp add: js_def)

lemma digit_unit_unit: "digit_unit (unit c) \<longleftrightarrow> is_digit c"
  by (simp add: digit_unit_def is_digit_def word_le_nat_alt unat_unit)

lemma digits_js: "list_all is_digit s \<Longrightarrow> list_all digit_unit (js s)"
  by (induction s) (auto simp: js_Cons digit_unit_unit, simp add: js_def)

lemma parse_int_js: "parse_int (js s) = nat_of_string s"
proof -
  have "foldl (\<lambda>n u. 10 * n + (unat u - 48)) a (js s) = foldl (\<lambda>n c. 10 * n + digit_val c) a s" for a
    by (induction s arbitrary: a) (simp_all add: js_Cons unat_unit digit_val_def, simp add: js_def)
  then show ?thesis
    by (simp add: parse_int_def nat_of_string_def)
qed

lemma digit_unit_facts:
  "digit_unit u \<Longrightarrow> \<not> js_space u" "digit_unit u \<Longrightarrow> \<not> currency_sign u"
  "digit_unit u \<Longrightarrow> u \<noteq> unit (CHR '','')" "digit_unit u \<Longrightarrow> u \<noteq> unit (CHR ''.'')"
  unfolding digit_unit_def js_space_def currency_sign_def unit_def word_le_nat_alt word_unat_eq_iff
  by simp_all

lemma split_units_none: "sep \<notin> set s \<Longrightarrow> split_units sep s = [s]"
  by (induction s) auto

lemma split_units_two:
  "sep \<notin> set s \<Longrightarrow> sep \<notin> set t \<Longrightarrow> split_units sep (s @ sep # t) = [s, t]"
  by (induction s) (auto simp: split_units_none)

lemma js_trim_id: "s \<noteq> [] \<Longrightarrow> \<not> js_space (hd s) \<Longrightarrow> \<not> js_space (last s) \<Longrightarrow> js_trim s = s"
proof -
  assume s: "s \<noteq> []" "\<not> js_space (hd s)" "\<not> js_space (last s)"
  have "dropWhile js_space s = s"
    using s by (cases s) auto
  moreover have "dropWhile js_space (rev s) = rev s"
    using s by (cases s rule: rev_cases) auto
  ultimately show ?thesis
    by (simp add: js_trim_def)
qed

lemma length_numeral: "n < 10 ^ k \<Longrightarrow> 1 \<le> k \<Longrightarrow> length (string_of_nat n) \<le> k"
proof (induction k arbitrary: n)
  case (Suc k)
  show ?case
  proof (cases "n < 10")
    case False
    then have "n div 10 < 10 ^ k" "1 \<le> k"
      using Suc.prems by (auto simp: less_mult_imp_div_less mult.commute Suc_le_eq intro!: Nat.gr0I)
    then show ?thesis
      using False Suc.IH [of "n div 10"] by (subst string_of_nat.simps) simp
  qed (subst string_of_nat.simps, simp)
qed simp

lemma numeral_digits: "list_all is_digit (string_of_nat n)"
  by (auto simp: list_all_iff dest: string_of_nat_digits)

lemma pad_digits: "list_all is_digit s \<Longrightarrow> list_all is_digit (pad k s)"
  by (auto simp: pad_def list_all_iff is_digit_def)

lemma nat_of_string_pad: "nat_of_string (pad k s) = nat_of_string s"
proof -
  have "nat_of_string (replicate n (CHR ''0'') @ s) = nat_of_string s" for n
    by (induction n) (simp_all add: nat_of_string_def digit_val_def)
  then show ?thesis
    by (simp add: pad_def)
qed

lemma format_parts:
  assumes "0 \<le> cents" "cents < 10 ^ 11"
  shows "formatCentsAsAmount cents =
    string_of_nat (nat (cents div 100)) @ ''.'' @ pad 2 (string_of_nat (nat (cents mod 100)))"
proof -
  have "\<lfloor>dbl (of_int cents / of_int 100)\<rfloor> = cents div 100"
    by (rule js.floor_rnd) (use assms in auto)
  moreover have "\<not> cents div 100 < 0" "\<not> cents mod 100 < 0"
    using assms by (auto simp: not_less pos_imp_zdiv_nonneg_iff)
  ultimately show ?thesis
    using assms by (simp add: formatCentsAsAmount_def string_of_int_def del: floor_less_zero)
qed

lemma parse_amount:
  assumes "list_all is_digit s" "1 \<le> length s" "length s \<le> 9"
    and "list_all is_digit t" "length t = 2"
  shows "parseMoneyToCents (js (s @ ''.'' @ t)) =
    Some (int (nat_of_string s) * 100 + int (nat_of_string t))"
proof -
  let ?a = "js s" and ?b = "js t" and ?dot = "unit (CHR ''.'')"
  have ab: "list_all digit_unit ?a" "list_all digit_unit ?b"
    using assms digits_js by auto
  have whole: "js (s @ ''.'' @ t) = ?a @ ?dot # ?b"
    by (simp add: js_def unit_def)
  have ne: "?a \<noteq> []" "?b \<noteq> []"
    using assms by (auto simp: js_def)
  have hd: "digit_unit (hd (?a @ ?dot # ?b))" and lst: "digit_unit (last (?a @ ?dot # ?b))"
    using ab ne by (auto simp: list_all_iff)
  have "js_trim (?a @ ?dot # ?b) = ?a @ ?dot # ?b"
    using hd lst digit_unit_facts(1) by (intro js_trim_id) auto
  moreover have "\<not> currency_sign (hd (?a @ ?dot # ?b))"
    using hd digit_unit_facts(2) by blast
  moreover have "filter (\<lambda>u. u \<noteq> unit (CHR '','')) (?a @ ?dot # ?b) = ?a @ ?dot # ?b"
    using ab digit_unit_facts(3) by (auto simp: list_all_iff filter_id_conv unit_def)
  moreover have "split_units ?dot (?a @ ?dot # ?b) = [?a, ?b]"
    using ab digit_unit_facts(4) by (intro split_units_two) (auto simp: list_all_iff)
  moreover have "digits_upto 9 ?a" "digits_upto 2 ?b" "pad_end 2 ?b = ?b"
    using ab assms by (simp_all add: digits_upto_def pad_end_def)
  ultimately show ?thesis
    unfolding parseMoneyToCents_def Let_def whole by (simp add: parse_int_js)
qed

lemma money_roundtrip:
  assumes "0 \<le> cents" "cents < 10 ^ 11"
  shows "parseMoneyToCents (js (formatCentsAsAmount cents)) = Some cents"
proof -
  let ?s = "string_of_nat (nat (cents div 100))" and ?t = "pad 2 (string_of_nat (nat (cents mod 100)))"
  have "nat (cents div 100) < 10 ^ 9"
    using assms by simp
  then have "length ?s \<le> 9"
    by (rule length_numeral) simp
  moreover have "1 \<le> length ?s"
    by (simp add: Suc_le_eq)
  moreover have "length (string_of_nat (nat (cents mod 100))) \<le> 2"
    by (rule length_numeral) (use pos_mod_bound [of 100 cents] in auto)
  then have "length ?t = 2"
    by (simp add: pad_def)
  ultimately have "parseMoneyToCents (js (?s @ ''.'' @ ?t)) =
      Some (int (nat_of_string ?s) * 100 + int (nat_of_string ?t))"
    by (intro parse_amount numeral_digits pad_digits)
  moreover have "0 \<le> cents div 100" "0 \<le> cents mod 100"
    using assms by (simp_all add: pos_imp_zdiv_nonneg_iff)
  ultimately show ?thesis
    using assms by (simp only: format_parts nat_of_string_pad nat_of_string_of_nat int_nat_eq if_True
        div_mult_mod_eq)
qed

end
