(* ===== verification/CollectionStore.thy ===== *)
theory CollectionStore
  imports CollectionCsv BreakDb
begin

text \<open>
  Collections (\<open>packages/db/src/queries/collections.ts\<close>, \<open>schema/collections.ts\<close>, migration 0015):
  the two tables with their CHECKs, unique index, foreign keys and policies, and the operations.
  A transaction runs as the user id given to \<open>set_config\<close>, the empty string for an anonymous
  viewer. Names and notes are UTF-16 texts that the connection can carry (no NUL, no lone surrogate);
  the catalogue's codes and names too. Numbers added up in the program are doubles.
\<close>

section \<open>Rows\<close>

datatype CollectionVisibility = Private | Unlisted | Public

record Collection =
  coId :: string
  coOwnerId :: string
  coName :: utf16
  coVisibility :: CollectionVisibility
  coCreatedAt :: int
  coUpdatedAt :: int

record CollectionItem =
  ciId :: string
  ciCollectionId :: string
  ciCardVariantId :: string
  ciCondition :: CardCondition
  ciQuantity :: int
  ciAcquiredPriceCents :: "int option"
  ciCurrency :: string
  ciAcquiredAt :: "int option"
  ciNotes :: "utf16 option"
  ciCreatedAt :: int
  ciUpdatedAt :: int

text \<open>The catalogue's side: a set's code, a card's number and name, a variant of a card.\<close>

record CardSet =
  setId :: string
  setCode :: utf16

record Card =
  cardId :: string
  cardSetId :: string
  cardNumber :: utf16
  cardName :: utf16

record collection_db =
  cUsers :: "string list"
  cSets :: "CardSet list"
  cCards :: "Card list"
  cVariants :: "CardVariant list"
  cIndex :: "IndexRow list"
  cCollections :: "Collection list"
  cItems :: "CollectionItem list"

text \<open>\<open>length\<close> counts characters: a surrogate pair is one.\<close>

fun pg_length :: "utf16 \<Rightarrow> nat" where
  "pg_length [] = 0"
| "pg_length [u] = 1"
| "pg_length (u # v # s) =
     (if 0xd800 \<le> u \<and> u \<le> 0xdbff \<and> 0xdc00 \<le> v \<and> v \<le> 0xdfff then 1 + pg_length s
      else 1 + pg_length (v # s))"

section \<open>Collections\<close>

definition collection_visible :: "string \<Rightarrow> Collection \<Rightarrow> bool" where
  "collection_visible v c \<longleftrightarrow> coOwnerId c = v \<or> coVisibility c \<noteq> Private"

definition collection_checks :: "Collection \<Rightarrow> (string \<times> bool) list" where
  "collection_checks c =
     [(''collections_name_length'', pg_length (coName c) \<le> 80),
      (''collections_name_not_blank'', list_ex (\<lambda>u. u \<noteq> 32) (coName c))]"

definition insert_collection ::
  "string \<Rightarrow> Collection \<Rightarrow> collection_db \<Rightarrow> db_error + collection_db" where
  "insert_collection v c db =
     (if coOwnerId c \<noteq> v then Inl RowSecurity
      else case first_violated (collection_checks c) of
        Some n \<Rightarrow> Inl (CheckViolation n)
      | None \<Rightarrow>
          if coId c \<in> coId ` set (cCollections db) then Inl (UniqueViolation ''collections_pkey'')
          else if coOwnerId c \<notin> set (cUsers db) then
            Inl (ForeignKeyViolation ''collections_owner_id_users_id_fk'')
          else Inr (db\<lparr>cCollections := cCollections db @ [c]\<rparr>))"

text \<open>The update policy lets the owner alone change a row, and only into a row still theirs.\<close>

definition update_collection ::
  "string \<Rightarrow> string \<Rightarrow> (Collection \<Rightarrow> Collection) \<Rightarrow> collection_db
     \<Rightarrow> db_error + Collection option \<times> collection_db" where
  "update_collection v k f db =
     (case find_row coId k (cCollections db) of
        None \<Rightarrow> Inr (None, db)
      | Some c \<Rightarrow>
          if coOwnerId c \<noteq> v then Inr (None, db)
          else if coOwnerId (f c) \<noteq> v then Inl RowSecurity
          else case first_violated (collection_checks (f c)) of
            Some n \<Rightarrow> Inl (CheckViolation n)
          | None \<Rightarrow> Inr (Some (f c), db\<lparr>cCollections := update_row coId k f (cCollections db)\<rparr>))"

definition select_collection :: "string \<Rightarrow> string \<Rightarrow> collection_db \<Rightarrow> Collection option" where
  "select_collection v k db =
     (case find_row coId k (cCollections db) of
        None \<Rightarrow> None
      | Some c \<Rightarrow> if collection_visible v c then Some c else None)"

section \<open>Items\<close>

text \<open>An item is seen where its collection is seen, and written by its collection's owner alone.\<close>

definition item_visible :: "string \<Rightarrow> collection_db \<Rightarrow> CollectionItem \<Rightarrow> bool" where
  "item_visible v db i \<longleftrightarrow>
     list_ex (\<lambda>c. coId c = ciCollectionId i \<and> collection_visible v c) (cCollections db)"

definition item_owned :: "string \<Rightarrow> collection_db \<Rightarrow> CollectionItem \<Rightarrow> bool" where
  "item_owned v db i \<longleftrightarrow>
     list_ex (\<lambda>c. coId c = ciCollectionId i \<and> coOwnerId c = v) (cCollections db)"

definition item_checks :: "CollectionItem \<Rightarrow> (string \<times> bool) list" where
  "item_checks i =
     [(''collection_items_currency_iso'', iso_currency (ciCurrency i)),
      (''collection_items_notes_length'',
         case ciNotes i of None \<Rightarrow> True | Some n \<Rightarrow> pg_length n \<le> 500),
      (''collection_items_price_non_negative'',
         case ciAcquiredPriceCents i of None \<Rightarrow> True | Some p \<Rightarrow> 0 \<le> p),
      (''collection_items_quantity_positive'', 1 \<le> ciQuantity i),
      (''collection_items_quantity_sane'', ciQuantity i \<le> 100000)]"

definition item_int4 :: "CollectionItem \<Rightarrow> bool" where
  "item_int4 i \<longleftrightarrow>
     int4 (ciQuantity i) \<and> (case ciAcquiredPriceCents i of None \<Rightarrow> True | Some p \<Rightarrow> int4 p)"

text \<open>\<open>collection_items_unique_line\<close>: one line per variant per condition.\<close>

definition item_line :: "CollectionItem \<Rightarrow> string \<times> string \<times> CardCondition" where
  "item_line i = (ciCollectionId i, ciCardVariantId i, ciCondition i)"

definition item_foreign_keys :: "CollectionItem \<Rightarrow> collection_db \<Rightarrow> string option" where
  "item_foreign_keys i db =
     first_violated
       [(''collection_items_collection_id_collections_id_fk'',
           ciCollectionId i \<in> coId ` set (cCollections db)),
        (''collection_items_card_variant_id_card_variants_id_fk'',
           ciCardVariantId i \<in> vId ` set (cVariants db))]"

definition insert_item ::
  "string \<Rightarrow> CollectionItem \<Rightarrow> collection_db \<Rightarrow> db_error + collection_db" where
  "insert_item v i db =
     (if \<not> item_int4 i then Inl OutOfRange
      else if \<not> item_owned v db i then Inl RowSecurity
      else case first_violated (item_checks i) of
        Some n \<Rightarrow> Inl (CheckViolation n)
      | None \<Rightarrow>
          if ciId i \<in> ciId ` set (cItems db) then Inl (UniqueViolation ''collection_items_pkey'')
          else if item_line i \<in> item_line ` set (cItems db) then
            Inl (UniqueViolation ''collection_items_unique_line'')
          else case item_foreign_keys i db of
            Some n \<Rightarrow> Inl (ForeignKeyViolation n)
          | None \<Rightarrow> Inr (db\<lparr>cItems := cItems db @ [i]\<rparr>))"

definition update_item_row ::
  "string \<Rightarrow> string \<Rightarrow> (CollectionItem \<Rightarrow> CollectionItem) \<Rightarrow> collection_db
     \<Rightarrow> db_error + CollectionItem option \<times> collection_db" where
  "update_item_row v k f db =
     (case find_row ciId k (cItems db) of
        None \<Rightarrow> Inr (None, db)
      | Some i \<Rightarrow>
          if \<not> item_owned v db i then Inr (None, db)
          else if \<not> item_int4 (f i) then Inl OutOfRange
          else if \<not> item_owned v db (f i) then Inl RowSecurity
          else case first_violated (item_checks (f i)) of
            Some n \<Rightarrow> Inl (CheckViolation n)
          | None \<Rightarrow>
              if item_line (f i) \<in> item_line ` set (filter (\<lambda>x. ciId x \<noteq> k) (cItems db)) then
                Inl (UniqueViolation ''collection_items_unique_line'')
              else case item_foreign_keys (f i) db of
                Some n \<Rightarrow> Inl (ForeignKeyViolation n)
              | None \<Rightarrow> Inr (Some (f i), db\<lparr>cItems := update_row ciId k f (cItems db)\<rparr>))"

section \<open>Operations on collections\<close>

datatype collection_error =
    CollectionLimitError
  | MissingReferenceError string
  | CollectionFault
  | CollectionDbError db_error

definition MAX_COLLECTIONS_PER_USER :: nat where "MAX_COLLECTIONS_PER_USER = 25"

text \<open>\<open>asViewer\<close>: nobody is the empty user id.\<close>

definition asViewer :: "string option \<Rightarrow> string" where
  "asViewer viewerId = (case viewerId of None \<Rightarrow> [] | Some u \<Rightarrow> u)"

definition visible_collections :: "string \<Rightarrow> collection_db \<Rightarrow> Collection list" where
  "visible_collections v db = filter (collection_visible v) (cCollections db)"

definition createCollection ::
  "string \<Rightarrow> utf16 \<Rightarrow> CollectionVisibility option \<Rightarrow> string \<Rightarrow> int \<Rightarrow> collection_db
     \<Rightarrow> collection_error + Collection \<times> collection_db" where
  "createCollection ownerId name visibility newId now db =
     (if MAX_COLLECTIONS_PER_USER
           \<le> length (filter (\<lambda>c. coOwnerId c = ownerId) (visible_collections ownerId db))
      then Inl CollectionLimitError
      else let c = \<lparr>coId = newId, coOwnerId = ownerId, coName = js_trim name,
                    coVisibility = (case visibility of None \<Rightarrow> Private | Some x \<Rightarrow> x),
                    coCreatedAt = now, coUpdatedAt = now\<rparr>
           in case insert_collection ownerId c db of
                Inl e \<Rightarrow> Inl (CollectionDbError e)
              | Inr db' \<Rightarrow> Inr (c, db'))"

definition listCollections :: "string \<Rightarrow> collection_db \<Rightarrow> Collection list" where
  "listCollections ownerId db =
     sort_key (\<lambda>c. - coUpdatedAt c)
       (filter (\<lambda>c. coOwnerId c = ownerId) (visible_collections ownerId db))"

definition listPublicCollections :: "nat \<Rightarrow> collection_db \<Rightarrow> Collection list" where
  "listPublicCollections limit db =
     take limit (sort_key (\<lambda>c. - coUpdatedAt c)
       (filter (\<lambda>c. coVisibility c = Public) (visible_collections (asViewer None) db)))"

definition getCollection :: "string option \<Rightarrow> string \<Rightarrow> collection_db \<Rightarrow> Collection option" where
  "getCollection viewerId k db = select_collection (asViewer viewerId) k db"

definition collection_patch ::
  "utf16 option \<Rightarrow> CollectionVisibility option \<Rightarrow> int \<Rightarrow> Collection \<Rightarrow> Collection" where
  "collection_patch name visibility now c =
     c\<lparr>coName := (case name of None \<Rightarrow> coName c | Some n \<Rightarrow> js_trim n),
       coVisibility := (case visibility of None \<Rightarrow> coVisibility c | Some x \<Rightarrow> x),
       coUpdatedAt := now\<rparr>"

definition updateCollection ::
  "string \<Rightarrow> string \<Rightarrow> utf16 option \<Rightarrow> CollectionVisibility option \<Rightarrow> int \<Rightarrow> collection_db
     \<Rightarrow> collection_error + Collection option \<times> collection_db" where
  "updateCollection ownerId k name visibility now db =
     (case update_collection ownerId k (collection_patch name visibility now) db of
        Inl e \<Rightarrow> Inl (CollectionDbError e)
      | Inr r \<Rightarrow> Inr r)"

text \<open>Deleting a collection deletes its items with it.\<close>

definition deleteCollection :: "string \<Rightarrow> string \<Rightarrow> collection_db \<Rightarrow> bool \<times> collection_db" where
  "deleteCollection ownerId k db =
     (let gone = (\<lambda>c. coId c = k \<and> coOwnerId c = ownerId)
      in if list_ex gone (cCollections db)
         then (True, db\<lparr>cCollections := filter (\<lambda>c. \<not> gone c) (cCollections db),
                        cItems := filter (\<lambda>i. ciCollectionId i \<noteq> k) (cItems db)\<rparr>)
         else (False, db))"

definition touchCollection ::
  "string \<Rightarrow> string \<Rightarrow> int \<Rightarrow> collection_db \<Rightarrow> collection_error + collection_db" where
  "touchCollection v k now db =
     (case update_collection v k (\<lambda>c. c\<lparr>coUpdatedAt := now\<rparr>) db of
        Inl e \<Rightarrow> Inl (CollectionDbError e)
      | Inr (r, db') \<Rightarrow> Inr db')"

section \<open>Operations on items\<close>

record CollectionItemInput =
  iiCardVariantId :: string
  iiCondition :: "CardCondition option"
  iiQuantity :: "int option"
  iiAcquiredPriceCents :: "int option"
  iiCurrency :: "string option"
  iiAcquiredAt :: "int option"
  iiNotes :: "utf16 option"

datatype write_mode = Add | Replace

text \<open>
  \<open>weightedAverageCents\<close> in doubles. Quantities are at least one on both sides (a CHECK on the line,
  the schema on the input), so the divisor is not zero.
\<close>

definition weightedAverageCents ::
  "int \<times> int option \<Rightarrow> int \<times> int option \<Rightarrow> int option" where
  "weightedAverageCents a b =
     (case (snd a, snd b) of
        (Some ua, Some ub) \<Rightarrow>
          let total = dbl (dbl (of_int (fst a) * of_int ua) + dbl (of_int (fst b) * of_int ub))
          in Some (math_round (dbl (total / dbl (of_int (fst a) + of_int (fst b)))))
      | _ \<Rightarrow> None)"

definition or_else :: "'a option \<Rightarrow> 'a option \<Rightarrow> 'a option" where
  "or_else a b = (case a of None \<Rightarrow> b | Some x \<Rightarrow> Some x)"

definition new_item :: "string \<Rightarrow> CollectionItemInput \<Rightarrow> string \<Rightarrow> int \<Rightarrow> CollectionItem" where
  "new_item k input newId now =
     \<lparr>ciId = newId, ciCollectionId = k, ciCardVariantId = iiCardVariantId input,
      ciCondition = or_default NM (iiCondition input), ciQuantity = or_default 1 (iiQuantity input),
      ciAcquiredPriceCents = iiAcquiredPriceCents input,
      ciCurrency = or_default ''USD'' (iiCurrency input), ciAcquiredAt = iiAcquiredAt input,
      ciNotes = iiNotes input, ciCreatedAt = now, ciUpdatedAt = now\<rparr>"

text \<open>What \<open>replace\<close> leaves of the line that was there: its id and its creation.\<close>

definition replace_item ::
  "string \<Rightarrow> CollectionItemInput \<Rightarrow> int \<Rightarrow> CollectionItem \<Rightarrow> CollectionItem" where
  "replace_item k input now i =
     (new_item k input (ciId i) now)\<lparr>ciCreatedAt := ciCreatedAt i\<rparr>"

definition merge_item :: "CollectionItemInput \<Rightarrow> int \<Rightarrow> CollectionItem \<Rightarrow> CollectionItem" where
  "merge_item input now i =
     i\<lparr>ciQuantity := ciQuantity i + or_default 1 (iiQuantity input),
       ciAcquiredPriceCents :=
         weightedAverageCents (ciQuantity i, ciAcquiredPriceCents i)
           (or_default 1 (iiQuantity input), iiAcquiredPriceCents input),
       ciNotes := or_else (ciNotes i) (iiNotes input),
       ciUpdatedAt := now\<rparr>"

definition find_line ::
  "string \<Rightarrow> string \<times> string \<times> CardCondition \<Rightarrow> collection_db \<Rightarrow> CollectionItem option" where
  "find_line v line db = find (\<lambda>i. item_line i = line \<and> item_visible v db i) (cItems db)"

text \<open>A foreign key that fails is a missing card; a write that touches no row is a plain error.\<close>

definition write_error :: "db_error \<Rightarrow> collection_error" where
  "write_error e =
     (if isForeignKeyViolation e then MissingReferenceError ''card'' else CollectionDbError e)"

definition returned_row ::
  "(db_error \<Rightarrow> collection_error) \<Rightarrow> db_error + CollectionItem option \<times> collection_db
     \<Rightarrow> collection_error + CollectionItem \<times> collection_db" where
  "returned_row f r =
     (case r of
        Inl e \<Rightarrow> Inl (f e)
      | Inr (None, _) \<Rightarrow> Inl CollectionFault
      | Inr (Some i, db') \<Rightarrow> Inr (i, db'))"

definition upsertItem ::
  "string \<Rightarrow> string \<Rightarrow> CollectionItemInput \<Rightarrow> write_mode \<Rightarrow> string \<Rightarrow> int \<Rightarrow> collection_db
     \<Rightarrow> collection_error + CollectionItem \<times> collection_db" where
  "upsertItem v k input mode newId now db =
     (case find_line v (k, iiCardVariantId input, or_default NM (iiCondition input)) db of
        None \<Rightarrow>
          (let i = new_item k input newId now in
           case insert_item v i db of
             Inl e \<Rightarrow> Inl (write_error e)
           | Inr db' \<Rightarrow> Inr (i, db'))
      | Some existing \<Rightarrow>
          if mode = Replace then
            returned_row write_error
              (update_item_row v (ciId existing) (replace_item k input now) db)
          else if ciCurrency existing \<noteq> or_default ''USD'' (iiCurrency input) then Inl CollectionFault
          else returned_row CollectionDbError
                 (update_item_row v (ciId existing) (merge_item input now) db))"

definition addItem ::
  "string \<Rightarrow> string \<Rightarrow> CollectionItemInput \<Rightarrow> string \<Rightarrow> int \<Rightarrow> collection_db
     \<Rightarrow> collection_error + CollectionItem \<times> collection_db" where
  "addItem ownerId k input newId now db =
     (case upsertItem ownerId k input Add newId now db of
        Inl e \<Rightarrow> Inl e
      | Inr (i, db1) \<Rightarrow>
          (case touchCollection ownerId k now db1 of
             Inl e \<Rightarrow> Inl e
           | Inr db2 \<Rightarrow> Inr (i, db2)))"

record ItemPatch =
  ipQuantity :: "int option"
  ipAcquiredPriceCents :: "int option option"
  ipAcquiredAt :: "int option option"
  ipNotes :: "utf16 option option"

definition item_patch :: "ItemPatch \<Rightarrow> int \<Rightarrow> CollectionItem \<Rightarrow> CollectionItem" where
  "item_patch p now i =
     i\<lparr>ciQuantity := or_default (ciQuantity i) (ipQuantity p),
       ciAcquiredPriceCents := or_default (ciAcquiredPriceCents i) (ipAcquiredPriceCents p),
       ciAcquiredAt := or_default (ciAcquiredAt i) (ipAcquiredAt p),
       ciNotes := or_default (ciNotes i) (ipNotes p),
       ciUpdatedAt := now\<rparr>"

definition updateItem ::
  "string \<Rightarrow> string \<Rightarrow> ItemPatch \<Rightarrow> int \<Rightarrow> collection_db
     \<Rightarrow> collection_error + CollectionItem option \<times> collection_db" where
  "updateItem ownerId itemId p now db =
     (case update_item_row ownerId itemId (item_patch p now) db of
        Inl e \<Rightarrow> Inl (CollectionDbError e)
      | Inr (None, db1) \<Rightarrow> Inr (None, db1)
      | Inr (Some i, db1) \<Rightarrow>
          (case touchCollection ownerId (ciCollectionId i) now db1 of
             Inl e \<Rightarrow> Inl e
           | Inr db2 \<Rightarrow> Inr (Some i, db2)))"

definition removeItem ::
  "string \<Rightarrow> string \<Rightarrow> int \<Rightarrow> collection_db \<Rightarrow> collection_error + bool \<times> collection_db" where
  "removeItem ownerId itemId now db =
     (let gone = (\<lambda>i. ciId i = itemId \<and> item_owned ownerId db i)
      in case filter gone (cItems db) of
           [] \<Rightarrow> Inr (False, db)
         | i # _ \<Rightarrow>
             (case touchCollection ownerId (ciCollectionId i) now
                     (db\<lparr>cItems := filter (\<lambda>i. \<not> gone i) (cItems db)\<rparr>) of
                Inl e \<Rightarrow> Inl e
              | Inr db' \<Rightarrow> Inr (True, db')))"

definition collectionItemCount :: "string option \<Rightarrow> string \<Rightarrow> collection_db \<Rightarrow> nat" where
  "collectionItemCount viewerId k db =
     length (filter (\<lambda>i. ciCollectionId i = k \<and> item_visible (asViewer viewerId) db i) (cItems db))"

end
