(* ===== verification/CollectionViews.thy ===== *)
theory CollectionViews
  imports CollectionStore
begin

text \<open>
  What is read out of a collection and what a file puts into it
  (\<open>packages/db/src/queries/collections.ts\<close>): the item list, the valuation against the published
  index, the export and the import. The database's collation and the case mapping of Unicode are
  parameters (\<open>order_by\<close>, \<open>lower\<close>); sums of the valuation are sums of doubles.
\<close>

section \<open>The item list\<close>

record CollectionItemView =
  ivId :: string
  ivCardVariantId :: string
  ivSetCode :: utf16
  ivCardNumber :: utf16
  ivCardName :: utf16
  ivFinish :: string
  ivLanguage :: string
  ivCondition :: CardCondition
  ivQuantity :: int
  ivAcquiredPriceCents :: "int option"
  ivCurrency :: string
  ivAcquiredAt :: "int option"
  ivNotes :: "utf16 option"

text \<open>\<open>case when col.owner_id = current_setting(...) then x end\<close>.\<close>

definition owners_eyes :: "string \<Rightarrow> Collection \<Rightarrow> 'a option \<Rightarrow> 'a option" where
  "owners_eyes v col x = (if coOwnerId col = v then x else None)"

definition item_view ::
  "string \<Rightarrow> collection_db \<Rightarrow> CollectionItem \<Rightarrow> CollectionItemView option" where
  "item_view v db i =
     (case select_collection v (ciCollectionId i) db of
        None \<Rightarrow> None
      | Some col \<Rightarrow>
        (case find_row vId (ciCardVariantId i) (cVariants db) of
           None \<Rightarrow> None
         | Some variant \<Rightarrow>
           (case find_row cardId (vCardId variant) (cCards db) of
              None \<Rightarrow> None
            | Some cd \<Rightarrow>
              (case find_row setId (cardSetId cd) (cSets db) of
                 None \<Rightarrow> None
               | Some st \<Rightarrow>
                   Some \<lparr>ivId = ciId i, ivCardVariantId = ciCardVariantId i, ivSetCode = setCode st,
                         ivCardNumber = cardNumber cd, ivCardName = cardName cd,
                         ivFinish = vFinish variant, ivLanguage = vLanguage variant,
                         ivCondition = ciCondition i, ivQuantity = ciQuantity i,
                         ivAcquiredPriceCents = owners_eyes v col (ciAcquiredPriceCents i),
                         ivCurrency = ciCurrency i,
                         ivAcquiredAt = owners_eyes v col (ciAcquiredAt i),
                         ivNotes = owners_eyes v col (ciNotes i)\<rparr>))))"

definition listItems ::
  "(CollectionItemView list \<Rightarrow> CollectionItemView list) \<Rightarrow> string option \<Rightarrow> string \<Rightarrow> collection_db
     \<Rightarrow> CollectionItemView list" where
  "listItems order_by viewerId k db =
     order_by (List.map_filter (item_view (asViewer viewerId) db)
       (filter (\<lambda>i. ciCollectionId i = k \<and> item_visible (asViewer viewerId) db i) (cItems db)))"

section \<open>Valuation\<close>

record CollectionValuation =
  cvCurrency :: string
  cvLines :: nat
  cvCards :: int
  cvValuedCards :: int
  cvCurrentValueCents :: int
  cvCostBasisCents :: int
  cvComparableValueCents :: int
  cvGainLossCents :: int
  cvUnpricedLines :: int
  cvUnpricedCards :: int
  cvOtherCurrencyLines :: int
  cvOldestPriceDay :: "int option"

text \<open>Sums and products of whole numbers, as doubles make them.\<close>

definition num_add :: "int \<Rightarrow> int \<Rightarrow> int" where "num_add a b = \<lfloor>dbl (of_int (a + b))\<rfloor>"
definition num_mult :: "int \<Rightarrow> int \<Rightarrow> int" where "num_mult a b = \<lfloor>dbl (of_int (a * b))\<rfloor>"

text \<open>The latest published price of an item's card in its condition and currency, within the window.
  Days are counted from an epoch, in the order of their text.\<close>

definition price_rows :: "int \<Rightarrow> int \<Rightarrow> CollectionItem \<Rightarrow> collection_db \<Rightarrow> IndexRow list" where
  "price_rows today maxAgeDays i db =
     filter (\<lambda>d. ixVariantId d = ciCardVariantId i \<and> ixCondition d = ciCondition i
         \<and> ixCurrency d = ciCurrency i \<and> today - maxAgeDays \<le> ixDay d) (cIndex db)"

definition latest_price ::
  "int \<Rightarrow> int \<Rightarrow> CollectionItem \<Rightarrow> collection_db \<Rightarrow> IndexRow option" where
  "latest_price today maxAgeDays i db =
     (case sort_key (\<lambda>d. - ixDay d) (price_rows today maxAgeDays i db) of
        [] \<Rightarrow> None | d # _ \<Rightarrow> Some d)"

record value_row =
  vrQuantity :: int
  vrAcquiredPriceCents :: "int option"
  vrCurrency :: string
  vrPrice :: "(int \<times> int) option"

definition value_rows ::
  "string \<Rightarrow> string \<Rightarrow> int \<Rightarrow> int \<Rightarrow> collection_db \<Rightarrow> value_row list" where
  "value_rows v k today maxAgeDays db =
     List.map_filter (\<lambda>i. case select_collection v (ciCollectionId i) db of
         None \<Rightarrow> None
       | Some col \<Rightarrow>
           Some \<lparr>vrQuantity = ciQuantity i,
                 vrAcquiredPriceCents = owners_eyes v col (ciAcquiredPriceCents i),
                 vrCurrency = ciCurrency i,
                 vrPrice = map_option (\<lambda>d. (ixMedianCents d, ixDay d))
                             (latest_price today maxAgeDays i db)\<rparr>)
       (filter (\<lambda>i. ciCollectionId i = k \<and> item_visible v db i) (cItems db))"

definition value_step :: "CollectionValuation \<Rightarrow> value_row \<Rightarrow> CollectionValuation" where
  "value_step s r =
     (let s1 = s\<lparr>cvCards := num_add (cvCards s) (vrQuantity r)\<rparr> in
      if vrCurrency r \<noteq> cvCurrency s then
        s1\<lparr>cvOtherCurrencyLines := cvOtherCurrencyLines s + 1\<rparr>
      else case vrPrice r of
        None \<Rightarrow> s1\<lparr>cvUnpricedLines := cvUnpricedLines s + 1,
                   cvUnpricedCards := num_add (cvUnpricedCards s) (vrQuantity r)\<rparr>
      | Some (median, day) \<Rightarrow>
          let lineValue = num_mult median (vrQuantity r);
              s2 = s1\<lparr>cvValuedCards := num_add (cvValuedCards s) (vrQuantity r),
                      cvCurrentValueCents := num_add (cvCurrentValueCents s) lineValue,
                      cvOldestPriceDay :=
                        (case cvOldestPriceDay s of
                           None \<Rightarrow> Some day
                         | Some d \<Rightarrow> if day < d then Some day else Some d)\<rparr>
          in case vrAcquiredPriceCents r of
               None \<Rightarrow> s2
             | Some paid \<Rightarrow>
                 s2\<lparr>cvCostBasisCents := num_add (cvCostBasisCents s) (num_mult paid (vrQuantity r)),
                    cvComparableValueCents := num_add (cvComparableValueCents s) lineValue\<rparr>)"

definition empty_valuation :: "string \<Rightarrow> nat \<Rightarrow> CollectionValuation" where
  "empty_valuation currency n =
     \<lparr>cvCurrency = currency, cvLines = n, cvCards = 0, cvValuedCards = 0, cvCurrentValueCents = 0,
      cvCostBasisCents = 0, cvComparableValueCents = 0, cvGainLossCents = 0, cvUnpricedLines = 0,
      cvUnpricedCards = 0, cvOtherCurrencyLines = 0, cvOldestPriceDay = None\<rparr>"

definition valueCollection ::
  "string option \<Rightarrow> string \<Rightarrow> string option \<Rightarrow> int option \<Rightarrow> int \<Rightarrow> collection_db
     \<Rightarrow> CollectionValuation" where
  "valueCollection viewerId k currency maxAgeDays today db =
     (let rows = value_rows (asViewer viewerId) k today (or_default 30 maxAgeDays) db;
          s = foldl value_step (empty_valuation (or_default ''USD'' currency) (length rows)) rows
      in s\<lparr>cvGainLossCents := num_add (cvComparableValueCents s) (- cvCostBasisCents s)\<rparr>)"

section \<open>Export\<close>

definition export_row :: "CollectionItemView \<Rightarrow> csv_value list" where
  "export_row i =
     [CsvText (ivSetCode i), CsvText (ivCardNumber i), CsvText (js (ivFinish i)),
      CsvText (js (ivLanguage i)), CsvText (js (condition_name (ivCondition i))),
      CsvInt (ivQuantity i),
      CsvText (case ivAcquiredPriceCents i of None \<Rightarrow> [] | Some p \<Rightarrow> js (formatCentsAsAmount p)),
      CsvText (js (ivCurrency i)),
      CsvText (case ivAcquiredAt i of None \<Rightarrow> [] | Some t \<Rightarrow> js (take 10 (toISOString t))),
      CsvText (case ivNotes i of None \<Rightarrow> [] | Some n \<Rightarrow> n)]"

definition exportCollectionCsv ::
  "(CollectionItemView list \<Rightarrow> CollectionItemView list) \<Rightarrow> string option \<Rightarrow> string \<Rightarrow> collection_db
     \<Rightarrow> utf16" where
  "exportCollectionCsv order_by viewerId k db =
     toCsv (map js COLLECTION_CSV_COLUMNS) (map export_row (listItems order_by viewerId k db))"

section \<open>Import\<close>

text \<open>The messages of a report, by what they say.\<close>

datatype import_message =
    BadFile csv_error
  | BadHeader header_problem
  | BadWidth nat nat
  | BadColumn string
  | NoSuchCard utf16 utf16
  | DuplicatesRow nat

record ImportReport =
  irDryRun :: bool
  irRows :: nat
  irValid :: nat
  irCreated :: nat
  irUpdated :: nat
  irCardsAdded :: int
  irErrors :: "(nat \<times> import_message) list"

type_synonym resolved_row = "nat \<times> string \<times> CollectionCsvRow"

definition variantKey ::
  "(utf16 \<Rightarrow> utf16) \<Rightarrow> utf16 \<Rightarrow> utf16 \<Rightarrow> string option \<Rightarrow> string option \<Rightarrow> utf16" where
  "variantKey lower set_code nr fin lang =
     join_units [0] [lower (js_trim set_code), lower (js_trim nr), js (or_default ''normal'' fin),
                     js (or_default ''en'' lang)]"

text \<open>One query for all the set codes of the file; a later row of the same key replaces an earlier.\<close>

definition variant_entry ::
  "(utf16 \<Rightarrow> utf16) \<Rightarrow> utf16 list \<Rightarrow> collection_db \<Rightarrow> CardVariant \<Rightarrow> (utf16 \<times> string) option" where
  "variant_entry lower codes db variant =
     (case find_row cardId (vCardId variant) (cCards db) of
        None \<Rightarrow> None
      | Some cd \<Rightarrow>
        (case find_row setId (cardSetId cd) (cSets db) of
           None \<Rightarrow> None
         | Some st \<Rightarrow>
             if lower (setCode st) \<in> set codes
             then Some (variantKey lower (lower (setCode st)) (lower (cardNumber cd))
                          (Some (vFinish variant)) (Some (vLanguage variant)), vId variant)
             else None))"

definition lookupVariants ::
  "(utf16 \<Rightarrow> utf16) \<Rightarrow> CollectionCsvRow list \<Rightarrow> collection_db \<Rightarrow> (utf16 \<times> string) list" where
  "lookupVariants lower rows db =
     from_entries (List.map_filter
       (variant_entry lower (map (\<lambda>r. lower (js_trim (crSet r))) rows) db) (cVariants db)) []"

definition checked_rows ::
  "csv_mapping \<Rightarrow> (nat \<times> (string list + CollectionCsvRow)) list" where
  "checked_rows m = zip (mapRowNumbers m) (map collectionCsvRowSchema (mapRecords m))"

definition row_errors :: "(nat \<times> (string list + CollectionCsvRow)) list \<Rightarrow> (nat \<times> import_message) list" where
  "row_errors rows =
     concat (map (\<lambda>(n, r). case r of Inl cols \<Rightarrow> map (\<lambda>c. (n, BadColumn c)) cols | Inr _ \<Rightarrow> []) rows)"

definition row_parses :: "(nat \<times> (string list + CollectionCsvRow)) list \<Rightarrow> (nat \<times> CollectionCsvRow) list" where
  "row_parses rows =
     List.map_filter (\<lambda>(n, r). case r of Inl _ \<Rightarrow> None | Inr p \<Rightarrow> Some (n, p)) rows"

fun resolve_rows ::
  "(utf16 \<Rightarrow> utf16) \<Rightarrow> (utf16 \<times> string) list \<Rightarrow> (nat \<times> CollectionCsvRow) list
     \<Rightarrow> ((string \<times> CardCondition) \<times> nat) list
     \<Rightarrow> (nat \<times> import_message) list \<times> resolved_row list" where
  "resolve_rows lower found [] seen = ([], [])"
| "resolve_rows lower found ((n, p) # rows) seen =
     (case map_of found
         (variantKey lower (crSet p) (crNumber p) (crFinish p) (crLanguage p)) of
        None \<Rightarrow>
          (let (es, rs) = resolve_rows lower found rows seen
           in ((n, NoSuchCard (crNumber p) (crSet p)) # es, rs))
      | Some variantId \<Rightarrow>
          (let line = (variantId, or_default NM (crCondition p)) in
           case map_of seen line of
             Some first \<Rightarrow>
               (let (es, rs) = resolve_rows lower found rows seen
                in ((n, DuplicatesRow first) # es, rs))
           | None \<Rightarrow>
               (let (es, rs) = resolve_rows lower found rows ((line, n) # seen)
                in (es, (n, variantId, p) # rs))))"

definition row_input :: "string \<Rightarrow> CollectionCsvRow \<Rightarrow> CollectionItemInput" where
  "row_input variantId p =
     \<lparr>iiCardVariantId = variantId, iiCondition = Some (or_default NM (crCondition p)),
      iiQuantity = Some (crQuantity p), iiAcquiredPriceCents = crAcquiredPrice p,
      iiCurrency = Some (or_default ''USD'' (crCurrency p)), iiAcquiredAt = crAcquiredAt p,
      iiNotes = crNotes p\<rparr>"

fun import_rows ::
  "string \<Rightarrow> string \<Rightarrow> write_mode \<Rightarrow> (nat \<Rightarrow> string) \<Rightarrow> int \<Rightarrow> resolved_row list
     \<Rightarrow> ImportReport \<times> collection_db \<Rightarrow> collection_error + ImportReport \<times> collection_db" where
  "import_rows v k mode newId now [] (rep, db) = Inr (rep, db)"
| "import_rows v k mode newId now ((n, variantId, p) # rows) (rep, db) =
     (let existing = find_line v (k, variantId, or_default NM (crCondition p)) db in
      case upsertItem v k (row_input variantId p) mode (newId n) now db of
        Inl e \<Rightarrow> Inl e
      | Inr (_, db1) \<Rightarrow>
          import_rows v k mode newId now rows
            ((if existing \<noteq> None then rep\<lparr>irUpdated := irUpdated rep + 1\<rparr>
              else rep\<lparr>irCreated := irCreated rep + 1\<rparr>)
               \<lparr>irCardsAdded := irCardsAdded rep + crQuantity p\<rparr>, db1))"

definition empty_report :: "bool \<Rightarrow> ImportReport" where
  "empty_report dryRun =
     \<lparr>irDryRun = dryRun, irRows = 0, irValid = 0, irCreated = 0, irUpdated = 0, irCardsAdded = 0,
      irErrors = []\<rparr>"

text \<open>The report of a file before anything is written, with the rows that would be.\<close>

definition read_file ::
  "(utf16 \<Rightarrow> utf16) \<Rightarrow> utf16 \<Rightarrow> bool \<Rightarrow> collection_db \<Rightarrow> ImportReport \<times> resolved_row list" where
  "read_file lower doc dryRun db =
     (case parseCsv doc DEFAULT_MAX_ROWS DEFAULT_MAX_BYTES of
        Inl e \<Rightarrow> ((empty_report dryRun)\<lparr>irErrors := [(0, BadFile e)]\<rparr>, [])
      | Inr parsed \<Rightarrow>
          let problems = validateCollectionCsvHeader (csvHeader parsed) in
          if problems \<noteq> [] then
            ((empty_report dryRun)\<lparr>irErrors := map (\<lambda>p. (0, BadHeader p)) problems\<rparr>, [])
          else
            let m = mapCsvRows \<lparr>csvHeader = map ascii_lower (csvHeader parsed),
                                csvRows = csvRows parsed\<rparr>;
                widths = map (\<lambda>(n, expected, found). (n, BadWidth expected found)) (mapErrors m);
                checked = checked_rows m;
                rep = (empty_report dryRun)\<lparr>irRows := length (csvRows parsed),
                                           irErrors := widths @ row_errors checked\<rparr>
            in if row_parses checked = [] then (rep, [])
               else
                 let (es, rs) = resolve_rows lower
                       (lookupVariants lower (map snd (row_parses checked)) db)
                       (row_parses checked) []
                 in (rep\<lparr>irValid := length rs, irErrors := irErrors rep @ es\<rparr>, rs))"

definition importCollectionCsv ::
  "(utf16 \<Rightarrow> utf16) \<Rightarrow> string \<Rightarrow> string \<Rightarrow> utf16 \<Rightarrow> bool \<Rightarrow> write_mode \<Rightarrow> (nat \<Rightarrow> string) \<Rightarrow> int
     \<Rightarrow> collection_db \<Rightarrow> collection_error + ImportReport \<times> collection_db" where
  "importCollectionCsv lower ownerId k doc dryRun mode newId now db =
     (let (rep, resolved) = read_file lower doc dryRun db in
      if dryRun \<or> resolved = [] then Inr (rep, db)
      else case import_rows ownerId k mode newId now resolved (rep, db) of
             Inl e \<Rightarrow> Inl e
           | Inr (rep', db1) \<Rightarrow>
               (case touchCollection ownerId k now db1 of
                  Inl e \<Rightarrow> Inl e
                | Inr db2 \<Rightarrow> Inr (rep', db2)))"

end
