(* ===== verification/CollectionInvariant.thy ===== *)
theory CollectionInvariant
  imports CollectionViews
begin

text \<open>
  Every collection operation as a sequence of statements of one session, the invariant of the two
  tables, and the part of the store that belongs to one person, which nobody else's statements touch.
\<close>

section \<open>Statements\<close>

inductive statement :: "string \<Rightarrow> collection_db \<Rightarrow> collection_db \<Rightarrow> bool" for v where
  InsertCollection:
    "insert_collection v c db = Inr db' \<Longrightarrow>
     length (filter (\<lambda>c. coOwnerId c = v) (visible_collections v db)) < MAX_COLLECTIONS_PER_USER \<Longrightarrow>
     statement v db db'"
| UpdateCollection:
    "update_collection v k f db = Inr (r, db') \<Longrightarrow> (\<And>c. coId (f c) = coId c) \<Longrightarrow>
     (\<And>c. coOwnerId (f c) = coOwnerId c) \<Longrightarrow> statement v db db'"
| DeleteCollection: "statement v db (snd (deleteCollection v k db))"
| InsertItem: "insert_item v i db = Inr db' \<Longrightarrow> statement v db db'"
| UpdateItem:
    "update_item_row v k f db = Inr (r, db') \<Longrightarrow>
     (\<And>i. find_row ciId k (cItems db) = Some i \<Longrightarrow>
        ciId (f i) = ciId i \<and> ciCollectionId (f i) = ciCollectionId i) \<Longrightarrow>
     statement v db db'"
| DeleteItem:
    "statement v db
       (db\<lparr>cItems := filter (\<lambda>i. \<not> (ciId i = k \<and> item_owned v db i)) (cItems db)\<rparr>)"

abbreviation statements :: "string \<Rightarrow> collection_db \<Rightarrow> collection_db \<Rightarrow> bool" where
  "statements v \<equiv> (statement v)\<^sup>*\<^sup>*"

lemma touch_statement: "touchCollection v k now db = Inr db' \<Longrightarrow> statement v db db'"
  by (auto simp: touchCollection_def split: sum.splits
      intro: UpdateCollection [where f = "\<lambda>c. c\<lparr>coUpdatedAt := now\<rparr>"])

lemma create_statement: "createCollection v name vis newId now db = Inr (c, db') \<Longrightarrow> statement v db db'"
  by (auto simp: createCollection_def Let_def not_le split: if_splits sum.splits
      intro: InsertCollection)

lemma update_statement: "updateCollection v k name vis now db = Inr (r, db') \<Longrightarrow> statement v db db'"
  by (auto simp: updateCollection_def collection_patch_def split: sum.splits
      intro: UpdateCollection [where f = "collection_patch name vis now"])

lemma find_line_item:
  "find_line v line db = Some i \<Longrightarrow> i \<in> set (cItems db) \<and> item_line i = line \<and> item_visible v db i"
  by (auto simp: find_line_def find_Some_iff)

lemma find_row_distinct_mem:
  "distinct (map key rows) \<Longrightarrow> r \<in> set rows \<Longrightarrow> find_row key (key r) rows = Some r"
  by (induction rows) auto

lemma upsert_statement:
  assumes "distinct (map ciId (cItems db))" "upsertItem v k input mode newId now db = Inr (i, db')"
  shows "statement v db db'"
proof (cases "find_line v (k, iiCardVariantId input, or_default NM (iiCondition input)) db")
  case None
  with assms(2) show ?thesis
    by (auto simp: upsertItem_def Let_def split: sum.splits intro: InsertItem)
next
  case (Some old)
  then have old: "old \<in> set (cItems db)" "ciCollectionId old = k"
    using find_line_item by (fastforce simp: item_line_def)+
  have found: "find_row ciId (ciId old) (cItems db) = Some i \<Longrightarrow> i = old" for i
    using find_row_distinct_mem [OF assms(1) old(1)] by simp
  have keeps: "find_row ciId (ciId old) (cItems db) = Some i \<Longrightarrow>
      ciId (f i) = ciId i \<and> ciCollectionId (f i) = ciCollectionId i"
    if "f = replace_item k input now \<or> f = merge_item input now" for f i
    using that old(2) by (auto dest: found simp: replace_item_def merge_item_def new_item_def)
  show ?thesis
  proof (cases "mode = Replace")
    case True
    with assms(2) Some obtain r where
      "update_item_row v (ciId old) (replace_item k input now) db = Inr (r, db')"
      by (auto simp: upsertItem_def returned_row_def split: sum.splits if_splits option.splits)
    then show ?thesis by (rule UpdateItem) (rule keeps, simp_all)
  next
    case False
    with assms(2) Some obtain r where
      "update_item_row v (ciId old) (merge_item input now) db = Inr (r, db')"
      by (auto simp: upsertItem_def returned_row_def split: sum.splits if_splits option.splits)
    then show ?thesis by (rule UpdateItem) (rule keeps, simp_all)
  qed
qed

section \<open>The invariant\<close>

definition coll_inv :: "collection_db \<Rightarrow> bool" where
  "coll_inv db \<longleftrightarrow>
     distinct (map coId (cCollections db)) \<and> distinct (map ciId (cItems db))
     \<and> distinct (map item_line (cItems db))
     \<and> (\<forall>c \<in> set (cCollections db).
          first_violated (collection_checks c) = None \<and> coOwnerId c \<in> set (cUsers db))
     \<and> (\<forall>i \<in> set (cItems db).
          item_int4 i \<and> first_violated (item_checks i) = None \<and> ciCollectionId i \<in> coId ` set (cCollections db))
     \<and> (\<forall>u. length (filter (\<lambda>c. coOwnerId c = u) (cCollections db)) \<le> MAX_COLLECTIONS_PER_USER)"

lemma own_are_visible:
  "filter (\<lambda>c. coOwnerId c = v) (visible_collections v db) = filter (\<lambda>c. coOwnerId c = v) (cCollections db)"
  by (auto simp: visible_collections_def collection_visible_def intro: filter_cong)

lemma insert_collection_Inr:
  "insert_collection v c db = Inr db' \<Longrightarrow>
   coOwnerId c = v \<and> first_violated (collection_checks c) = None \<and> coId c \<notin> coId ` set (cCollections db)
   \<and> coOwnerId c \<in> set (cUsers db) \<and> db' = db\<lparr>cCollections := cCollections db @ [c]\<rparr>"
  by (auto simp: insert_collection_def split: if_splits option.splits)

lemma update_collection_Inr:
  "update_collection v k f db = Inr (r, db') \<Longrightarrow>
   db' = db \<or> (\<exists>c. find_row coId k (cCollections db) = Some c \<and> coOwnerId c = v
     \<and> first_violated (collection_checks (f c)) = None
     \<and> db' = db\<lparr>cCollections := update_row coId k f (cCollections db)\<rparr>)"
  by (auto simp: update_collection_def split: option.splits if_splits)

lemma insert_item_Inr:
  "insert_item v i db = Inr db' \<Longrightarrow>
   item_int4 i \<and> item_owned v db i \<and> first_violated (item_checks i) = None \<and> ciId i \<notin> ciId ` set (cItems db)
   \<and> item_line i \<notin> item_line ` set (cItems db) \<and> ciCollectionId i \<in> coId ` set (cCollections db)
   \<and> ciCardVariantId i \<in> vId ` set (cVariants db) \<and> db' = db\<lparr>cItems := cItems db @ [i]\<rparr>"
  by (auto simp: insert_item_def item_foreign_keys_def split: if_splits option.splits)

lemma update_item_Inr:
  "update_item_row v k f db = Inr (r, db') \<Longrightarrow>
   db' = db \<or> (\<exists>i. find_row ciId k (cItems db) = Some i \<and> item_owned v db i \<and> item_int4 (f i)
     \<and> item_owned v db (f i) \<and> first_violated (item_checks (f i)) = None
     \<and> item_line (f i) \<notin> item_line ` set (filter (\<lambda>x. ciId x \<noteq> k) (cItems db))
     \<and> ciCollectionId (f i) \<in> coId ` set (cCollections db)
     \<and> r = Some (f i) \<and> db' = db\<lparr>cItems := update_row ciId k f (cItems db)\<rparr>)"
  by (auto simp: update_item_row_def item_foreign_keys_def split: option.splits if_splits)

text \<open>With distinct keys an update is a change of the one row found.\<close>

lemma update_row_found:
  "distinct (map key rows) \<Longrightarrow> find_row key k rows = Some r \<Longrightarrow>
   update_row key k f rows = map (\<lambda>x. if x = r then f r else x) rows"
  unfolding update_row_def
  by (rule map_cong) (auto simp: distinct_map inj_on_def dest: find_row_SomeD)

lemma find_key_unique:
  "distinct (map key rows) \<Longrightarrow> find_row key k rows = Some r \<Longrightarrow> x \<in> set rows \<Longrightarrow> key x = k \<Longrightarrow> x = r"
  by (auto simp: distinct_map inj_on_def dest: find_row_SomeD)

lemma coll_invD:
  assumes "coll_inv db"
  shows "distinct (map coId (cCollections db))" "distinct (map ciId (cItems db))"
    "distinct (map item_line (cItems db))"
    "\<And>i. i \<in> set (cItems db) \<Longrightarrow> ciCollectionId i \<in> coId ` set (cCollections db)"
    "\<And>i. i \<in> set (cItems db) \<Longrightarrow> item_int4 i \<and> first_violated (item_checks i) = None"
  using assms by (auto simp: coll_inv_def)

text \<open>The tables apart: what each statement has to keep.\<close>

lemma coll_inv_tables:
  assumes "coll_inv db" "distinct (map coId cols)" "distinct (map ciId rows)" "distinct (map item_line rows)"
    and "\<And>c. c \<in> set cols \<Longrightarrow>
           first_violated (collection_checks c) = None \<and> coOwnerId c \<in> set (cUsers db)"
    and "\<And>i. i \<in> set rows \<Longrightarrow> item_int4 i \<and> first_violated (item_checks i) = None
           \<and> ciCollectionId i \<in> coId ` set cols"
    and "\<And>u. length (filter (\<lambda>c. coOwnerId c = u) cols) \<le> MAX_COLLECTIONS_PER_USER"
  shows "coll_inv (db\<lparr>cCollections := cols, cItems := rows\<rparr>)"
  using assms unfolding coll_inv_def by simp

lemma coll_inv_items:
  assumes "coll_inv db" "distinct (map ciId rows)" "distinct (map item_line rows)"
    and "\<And>i. i \<in> set rows \<Longrightarrow> item_int4 i \<and> first_violated (item_checks i) = None
           \<and> ciCollectionId i \<in> coId ` set (cCollections db)"
  shows "coll_inv (db\<lparr>cItems := rows\<rparr>)"
  using assms unfolding coll_inv_def by simp

lemma coll_inv_insert:
  assumes "coll_inv db" "insert_collection v c db = Inr db'"
    and "length (filter (\<lambda>c. coOwnerId c = v) (visible_collections v db)) < MAX_COLLECTIONS_PER_USER"
  shows "coll_inv db'"
proof -
  note new = insert_collection_Inr [OF assms(2)]
  from assms(3) have "length (filter (\<lambda>c. coOwnerId c = v) (cCollections db)) < MAX_COLLECTIONS_PER_USER"
    by (simp add: own_are_visible)
  then show ?thesis
    using assms(1) new unfolding coll_inv_def by auto
qed

lemma coll_inv_update:
  assumes inv: "coll_inv db" and up: "update_collection v k f db = Inr (r, db')"
    and f: "\<And>c. coId (f c) = coId c" "\<And>c. coOwnerId (f c) = coOwnerId c"
  shows "coll_inv db'"
proof (cases "db' = db")
  case False
  with update_collection_Inr [OF up] obtain c where c: "find_row coId k (cCollections db) = Some c"
    "first_violated (collection_checks (f c)) = None"
    and db': "db' = db\<lparr>cCollections := update_row coId k f (cCollections db)\<rparr>" by auto
  have rows: "update_row coId k f (cCollections db) = map (\<lambda>x. if x = c then f c else x) (cCollections db)"
    by (rule update_row_found) (use inv c in \<open>auto simp: coll_inv_def\<close>)
  let ?g = "\<lambda>x. if x = c then f c else x"
  have g: "coId (?g x) = coId x" "coOwnerId (?g x) = coOwnerId x" for x using f by auto
  have ids: "map coId (map ?g (cCollections db)) = map coId (cCollections db)"
    using g(1) by simp
  have "filter (\<lambda>c. coOwnerId c = u) (map ?g (cCollections db)) =
      map ?g (filter (\<lambda>c. coOwnerId c = u) (cCollections db))" for u
    using g(2) by (simp add: filter_map o_def)
  then have cap: "length (filter (\<lambda>c. coOwnerId c = u) (map ?g (cCollections db))) =
      length (filter (\<lambda>c. coOwnerId c = u) (cCollections db))" for u
    by simp
  have imgs: "coId ` set (map ?g (cCollections db)) = coId ` set (cCollections db)"
    using ids by (metis list.set_map)
  have rowok: "first_violated (collection_checks x) = None \<and> coOwnerId x \<in> set (cUsers db)"
    if "x \<in> set (map ?g (cCollections db))" for x
    using that inv c f(2) find_row_SomeD [OF c(1)] unfolding coll_inv_def by auto
  have "coll_inv (db\<lparr>cCollections := map ?g (cCollections db), cItems := cItems db\<rparr>)"
    by (rule coll_inv_tables [OF inv], unfold ids imgs cap)
      (use inv rowok coll_invD [OF inv] in \<open>auto simp: coll_inv_def simp del: set_map\<close>)
  then show ?thesis
    unfolding db' rows by simp
qed (use inv in simp)

lemma length_filter_twice: "length (filter P (filter Q xs)) \<le> length (filter P xs)"
  by (induction xs) auto

lemma coll_inv_delete:
  assumes "coll_inv db"
  shows "coll_inv (snd (deleteCollection v k db))"
proof (cases "list_ex (\<lambda>c. coId c = k \<and> coOwnerId c = v) (cCollections db)")
  case True
  let ?rows = "filter (\<lambda>c. \<not> (coId c = k \<and> coOwnerId c = v)) (cCollections db)"
  have "length (filter (\<lambda>c. coOwnerId c = u) ?rows) \<le> length (filter (\<lambda>c. coOwnerId c = u) (cCollections db))"
    for u by (rule length_filter_twice)
  moreover have "length (filter (\<lambda>c. coOwnerId c = u) (cCollections db)) \<le> MAX_COLLECTIONS_PER_USER" for u
    using assms by (simp add: coll_inv_def)
  moreover have "first_violated (collection_checks c) = None \<and> coOwnerId c \<in> set (cUsers db)"
    if "c \<in> set ?rows" for c using that assms by (simp add: coll_inv_def)
  moreover note D = coll_invD [OF assms]
  have keep: "coId c \<noteq> k \<Longrightarrow> c \<in> set (cCollections db) \<Longrightarrow> coId c \<in> coId ` set ?rows" for c
    by auto
  have "item_int4 i \<and> first_violated (item_checks i) = None \<and> ciCollectionId i \<in> coId ` set ?rows"
    if "i \<in> set (filter (\<lambda>i. ciCollectionId i \<noteq> k) (cItems db))" for i
  proof -
    from that have i: "i \<in> set (cItems db)" "ciCollectionId i \<noteq> k" by auto
    from D(4) [OF i(1)] obtain c where "c \<in> set (cCollections db)" "coId c = ciCollectionId i" by auto
    with i keep [of c] D(5) [OF i(1)] show ?thesis by simp
  qed
  ultimately have "coll_inv (db\<lparr>cCollections := ?rows, cItems := filter (\<lambda>i. ciCollectionId i \<noteq> k) (cItems db)\<rparr>)"
    using D(1-3) by (intro coll_inv_tables [OF assms] distinct_map_filter) (blast intro: order_trans)+
  then show ?thesis
    using True by (simp add: deleteCollection_def)
qed (use assms in \<open>auto simp: deleteCollection_def\<close>)

lemma coll_inv_insert_item:
  assumes "coll_inv db" "insert_item v i db = Inr db'"
  shows "coll_inv db'"
  using insert_item_Inr [OF assms(2)] coll_invD [OF assms(1)]
  by (auto intro!: coll_inv_items [OF assms(1)])

lemma coll_inv_update_item:
  assumes inv: "coll_inv db" and up: "update_item_row v k f db = Inr (r, db')"
    and f: "\<And>i. find_row ciId k (cItems db) = Some i \<Longrightarrow>
              ciId (f i) = ciId i \<and> ciCollectionId (f i) = ciCollectionId i"
  shows "coll_inv db'"
proof (cases "db' = db")
  case False
  with update_item_Inr [OF up] obtain i where i: "find_row ciId k (cItems db) = Some i"
    "item_int4 (f i)" "first_violated (item_checks (f i)) = None"
    "item_line (f i) \<notin> item_line ` set (filter (\<lambda>x. ciId x \<noteq> k) (cItems db))"
    "ciCollectionId (f i) \<in> coId ` set (cCollections db)"
    and db': "db' = db\<lparr>cItems := update_row ciId k f (cItems db)\<rparr>" by auto
  note D = coll_invD [OF inv]
  let ?g = "\<lambda>x. if x = i then f i else x"
  have rows: "update_row ciId k f (cItems db) = map ?g (cItems db)"
    by (rule update_row_found [OF D(2) i(1)])
  have ids: "map ciId (map ?g (cItems db)) = map ciId (cItems db)"
    using f [OF i(1)] by simp
  have other: "x \<in> set (cItems db) \<Longrightarrow> x \<noteq> i \<Longrightarrow> item_line (f i) \<noteq> item_line x" for x
    using i(4) find_key_unique [OF D(2) i(1), of x] by auto
  have "distinct (map item_line (map ?g (cItems db)))"
  proof -
    have "inj_on (\<lambda>x. item_line (?g x)) (set (cItems db))"
      using D(3) other unfolding inj_on_def distinct_map by (metis (full_types))
    then show ?thesis
      using D(3) by (simp add: distinct_map o_def)
  qed
  then show ?thesis
    unfolding db' rows using i D(4,5)
    by (intro coll_inv_items [OF inv]) (auto simp only: ids D(2), auto split: if_splits)
qed (use inv in simp)

lemma statement_inv: "statement v db db' \<Longrightarrow> coll_inv db \<Longrightarrow> coll_inv db'"
proof (induction rule: statement.induct)
  case (DeleteItem db k)
  then show ?case
    using coll_invD [OF DeleteItem] by (intro coll_inv_items) (auto simp: distinct_map_filter)
qed (auto intro: coll_inv_insert coll_inv_update coll_inv_delete coll_inv_insert_item coll_inv_update_item)

lemma statements_inv: "statements v db db' \<Longrightarrow> coll_inv db \<Longrightarrow> coll_inv db'"
  by (induction rule: rtranclp_induct) (auto intro: statement_inv)

section \<open>What belongs to one person\<close>

definition owned_part :: "string \<Rightarrow> collection_db \<Rightarrow> Collection list \<times> CollectionItem list" where
  "owned_part u db =
     (filter (\<lambda>c. coOwnerId c = u) (cCollections db), filter (item_owned u db) (cItems db))"

lemma item_owned_iff:
  "item_owned u db i \<longleftrightarrow> (\<exists>c \<in> set (cCollections db). coId c = ciCollectionId i \<and> coOwnerId c = u)"
  by (auto simp: item_owned_def list_ex_iff)

lemma item_owned_unique:
  "coll_inv db \<Longrightarrow> item_owned u db i \<Longrightarrow> item_owned v db i \<Longrightarrow> u = v"
  by (auto simp: item_owned_iff coll_inv_def distinct_map inj_on_def)

lemma item_owned_other_tables [simp]:
  "item_owned u (db\<lparr>cItems := rows\<rparr>) = item_owned u db"
  by (simp add: item_owned_def fun_eq_iff)

lemma filter_map_unchanged:
  "(\<And>x. x \<in> set xs \<Longrightarrow> P (g x) = P x) \<Longrightarrow> (\<And>x. x \<in> set xs \<Longrightarrow> P x \<Longrightarrow> g x = x) \<Longrightarrow>
   filter P (map g xs) = filter P xs"
  by (induction xs) auto

lemma owned_update:
  assumes inv: "coll_inv db" and up: "update_collection v k f db = Inr (r, db')"
    and f: "\<And>c. coId (f c) = coId c" "\<And>c. coOwnerId (f c) = coOwnerId c" and uv: "v \<noteq> u"
  shows "owned_part u db' = owned_part u db"
proof (cases "db' = db")
  case False
  with update_collection_Inr [OF up] obtain c where c: "find_row coId k (cCollections db) = Some c"
    "coOwnerId c = v" and db': "db' = db\<lparr>cCollections := update_row coId k f (cCollections db)\<rparr>" by auto
  have rows: "update_row coId k f (cCollections db) = map (\<lambda>x. if x = c then f c else x) (cCollections db)"
    by (rule update_row_found) (use inv c in \<open>auto simp: coll_inv_def\<close>)
  define g where "g = (\<lambda>x. if x = c then f c else x)"
  have g: "coId (g x) = coId x" "coOwnerId (g x) = coOwnerId x" "coOwnerId x = u \<Longrightarrow> g x = x" for x
    using f c(2) uv by (auto simp: g_def)
  have db'': "db' = db\<lparr>cCollections := map g (cCollections db)\<rparr>"
    unfolding db' rows g_def ..
  have "filter (\<lambda>c. coOwnerId c = u) (map g (cCollections db)) = filter (\<lambda>c. coOwnerId c = u) (cCollections db)"
    by (rule filter_map_unchanged) (use g in auto)
  moreover have "item_owned u db' = item_owned u db"
    by (simp add: fun_eq_iff item_owned_iff db'' g(1,2))
  ultimately show ?thesis
    by (simp add: owned_part_def db'')
qed simp

lemma owned_delete:
  assumes inv: "coll_inv db" and uv: "v \<noteq> u"
  shows "owned_part u (snd (deleteCollection v k db)) = owned_part u db"
proof (cases "list_ex (\<lambda>c. coId c = k \<and> coOwnerId c = v) (cCollections db)")
  case True
  then obtain c where c: "c \<in> set (cCollections db)" "coId c = k" "coOwnerId c = v"
    by (auto simp: list_ex_iff)
  let ?db = "snd (deleteCollection v k db)"
  have db: "?db = db\<lparr>cCollections := filter (\<lambda>c. \<not> (coId c = k \<and> coOwnerId c = v)) (cCollections db),
      cItems := filter (\<lambda>i. ciCollectionId i \<noteq> k) (cItems db)\<rparr>"
    using True by (simp add: deleteCollection_def)
  have "filter (\<lambda>c. coOwnerId c = u) (cCollections ?db) = filter (\<lambda>c. coOwnerId c = u) (cCollections db)"
    using uv by (auto simp: db intro!: filter_cong)
  moreover have owned: "item_owned u ?db i = item_owned u db i" for i
    using uv by (auto simp: db item_owned_iff)
  have "ciCollectionId i \<noteq> k" if own: "item_owned u db i" for i
  proof
    assume "ciCollectionId i = k"
    with c have "item_owned v db i" by (auto simp: item_owned_iff)
    with item_owned_unique [OF inv own] uv show False by simp
  qed
  then have "filter (item_owned u db) (cItems ?db) = filter (item_owned u db) (cItems db)"
    by (auto simp: db intro!: filter_cong)
  ultimately show ?thesis
    using owned by (simp add: owned_part_def cong: filter_cong)
qed (simp add: deleteCollection_def)

lemma owned_update_item:
  assumes inv: "coll_inv db" and up: "update_item_row v k f db = Inr (r, db')" and uv: "v \<noteq> u"
  shows "owned_part u db' = owned_part u db"
proof (cases "db' = db")
  case False
  with update_item_Inr [OF up] obtain i where i: "find_row ciId k (cItems db) = Some i"
    "item_owned v db i" "item_owned v db (f i)"
    and db': "db' = db\<lparr>cItems := update_row ciId k f (cItems db)\<rparr>" by auto
  then have "\<not> item_owned u db i" "\<not> item_owned u db (f i)"
    using item_owned_unique [OF inv] uv by blast+
  moreover have "update_row ciId k f (cItems db) = map (\<lambda>x. if x = i then f i else x) (cItems db)"
    by (rule update_row_found [OF coll_invD(2) [OF inv] i(1)])
  ultimately have "filter (item_owned u db) (update_row ciId k f (cItems db)) = filter (item_owned u db) (cItems db)"
    by (simp only:) (rule filter_map_unchanged, auto split: if_splits)
  then show ?thesis
    by (simp add: owned_part_def db')
qed simp

lemma statement_other:
  assumes "statement v db db'" "coll_inv db" "v \<noteq> u"
  shows "owned_part u db' = owned_part u db"
  using assms
proof (induction rule: statement.induct)
  case (InsertCollection c db db')
  then have "db' = db\<lparr>cCollections := cCollections db @ [c]\<rparr>" "coOwnerId c \<noteq> u"
    using insert_collection_Inr by blast+
  moreover from this have "item_owned u db' = item_owned u db"
    by (auto simp: item_owned_iff fun_eq_iff)
  ultimately show ?case
    by (simp add: owned_part_def)
next
  case (InsertItem i db db')
  then have "\<not> item_owned u db i"
    using insert_item_Inr item_owned_unique by blast
  then show ?case
    using insert_item_Inr [OF InsertItem(1)] by (auto simp: owned_part_def)
next
  case (DeleteItem db k)
  then show ?case
    using item_owned_unique [OF DeleteItem(1)] by (auto simp: owned_part_def intro!: filter_cong)
qed (auto intro: owned_update owned_delete owned_update_item)

lemma statements_other:
  "statements v db db' \<Longrightarrow> coll_inv db \<Longrightarrow> v \<noteq> u \<Longrightarrow> owned_part u db' = owned_part u db"
  by (induction rule: rtranclp_induct) (auto dest: statement_other statements_inv)

section \<open>The operations\<close>

datatype collection_op =
    OpCreate string utf16 "CollectionVisibility option" string int
  | OpUpdate string string "utf16 option" "CollectionVisibility option" int
  | OpDelete string string
  | OpAddItem string string CollectionItemInput string int
  | OpUpdateItem string string ItemPatch int
  | OpRemoveItem string string int
  | OpImport string string utf16 bool write_mode "nat \<Rightarrow> string" int

fun op_actor :: "collection_op \<Rightarrow> string" where
  "op_actor (OpCreate u _ _ _ _) = u"
| "op_actor (OpUpdate u _ _ _ _) = u"
| "op_actor (OpDelete u _) = u"
| "op_actor (OpAddItem u _ _ _ _) = u"
| "op_actor (OpUpdateItem u _ _ _) = u"
| "op_actor (OpRemoveItem u _ _) = u"
| "op_actor (OpImport u _ _ _ _ _ _) = u"

fun coll_step ::
  "(utf16 \<Rightarrow> utf16) \<Rightarrow> collection_op \<Rightarrow> collection_db \<Rightarrow> collection_error + collection_db" where
  "coll_step lower (OpCreate u name vis newId now) db =
     map_sum id snd (createCollection u name vis newId now db)"
| "coll_step lower (OpUpdate u k name vis now) db =
     map_sum id snd (updateCollection u k name vis now db)"
| "coll_step lower (OpDelete u k) db = Inr (snd (deleteCollection u k db))"
| "coll_step lower (OpAddItem u k input newId now) db = map_sum id snd (addItem u k input newId now db)"
| "coll_step lower (OpUpdateItem u k p now) db = map_sum id snd (updateItem u k p now db)"
| "coll_step lower (OpRemoveItem u k now) db = map_sum id snd (removeItem u k now db)"
| "coll_step lower (OpImport u k doc dryRun mode newId now) db =
     map_sum id snd (importCollectionCsv lower u k doc dryRun mode newId now db)"

lemma map_sum_Inr_iff: "map_sum id snd x = Inr db' \<longleftrightarrow> (\<exists>r. x = Inr (r, db'))"
  by (cases x) auto

lemma upsert_statements:
  "coll_inv db \<Longrightarrow> upsertItem v k input mode newId now db = Inr (i, db') \<Longrightarrow> statement v db db'"
  by (rule upsert_statement) (auto simp: coll_inv_def)

lemma import_rows_statements:
  "import_rows v k mode newId now rows (rep, db) = Inr (rep', db') \<Longrightarrow> coll_inv db \<Longrightarrow> statements v db db'"
proof (induction v k mode newId now rows "(rep, db)" arbitrary: rep db rule: import_rows.induct)
  case (2 v k mode newId now n variantId p rows rep db)
  from 2(2) obtain i db1 rep1 where up: "upsertItem v k (row_input variantId p) mode (newId n) now db = Inr (i, db1)"
    and rest: "import_rows v k mode newId now rows (rep1, db1) = Inr (rep', db')"
    by (auto simp: Let_def split: sum.splits)
  have s: "statement v db db1"
    using upsert_statements [OF 2(3) up] .
  have "statements v db1 db'"
    using 2(2) up statement_inv [OF s 2(3)] by (auto simp: Let_def intro!: 2(1) [OF refl up])
  with s show ?case
    by (rule converse_rtranclp_into_rtranclp)
qed simp

lemma removeItem_statements:
  assumes "removeItem v k now db = Inr (r, db')"
  shows "statements v db db'"
proof (cases "filter (\<lambda>i. ciId i = k \<and> item_owned v db i) (cItems db)")
  case (Cons i others)
  with assms have "touchCollection v (ciCollectionId i) now
      (db\<lparr>cItems := filter (\<lambda>i. \<not> (ciId i = k \<and> item_owned v db i)) (cItems db)\<rparr>) = Inr db'"
    by (auto simp: removeItem_def Let_def split: sum.splits)
  then show ?thesis
    using DeleteItem [of v db k] touch_statement by (meson r_into_rtranclp rtranclp.rtrancl_into_rtrancl)
qed (use assms in \<open>simp add: removeItem_def\<close>)

lemma addItem_statements:
  "coll_inv db \<Longrightarrow> addItem v k input newId now db = Inr (r, db') \<Longrightarrow> statements v db db'"
  by (auto simp: addItem_def split: sum.splits prod.splits dest!: upsert_statements touch_statement)

lemma updateItem_statements:
  "updateItem v k p now db = Inr (r, db') \<Longrightarrow> statements v db db'"
proof -
  assume a: "updateItem v k p now db = Inr (r, db')"
  then obtain r1 db1 where 1: "update_item_row v k (item_patch p now) db = Inr (r1, db1)"
    and 2: "db' = db1 \<or> (\<exists>c. touchCollection v c now db1 = Inr db')"
    by (auto simp: updateItem_def split: sum.splits option.splits prod.splits)
  have "statement v db db1"
    using 1 by (rule UpdateItem) (auto simp: item_patch_def)
  with 2 show ?thesis
    by (auto dest: touch_statement intro: rtranclp.rtrancl_into_rtrancl)
qed

lemma import_statements:
  "importCollectionCsv lower v k doc dryRun mode newId now db = Inr (r, db') \<Longrightarrow> coll_inv db \<Longrightarrow>
   statements v db db'"
  by (auto simp: importCollectionCsv_def Let_def split: prod.splits sum.splits if_splits
      dest!: import_rows_statements touch_statement)

lemma coll_step_statements:
  "coll_inv db \<Longrightarrow> coll_step lower x db = Inr db' \<Longrightarrow> statements (op_actor x) db db'"
  by (cases x) (auto simp: map_sum_Inr_iff intro: DeleteCollection r_into_rtranclp create_statement
      update_statement addItem_statements updateItem_statements removeItem_statements import_statements)

interpretation coll: txn_machine "coll_step lower" coll_inv for lower
  by unfold_locales (auto dest: coll_step_statements statements_inv)

lemma run_other:
  assumes "coll_inv db" "u \<notin> op_actor ` set ops"
  shows "owned_part u (run_txns (coll_step lower) db ops) = owned_part u db"
  using assms
proof (induction ops arbitrary: db)
  case (Cons x xs)
  show ?case
  proof (cases "coll_step lower x db")
    case (Inr db')
    with Cons.prems have "statements (op_actor x) db db'" by (simp add: coll_step_statements)
    then have "owned_part u db' = owned_part u db" "coll_inv db'"
      using Cons.prems statements_other [of "op_actor x" db db' u] statements_inv by auto
    with Cons Inr show ?thesis by simp
  qed (use Cons in simp)
qed simp

end
