(* ===== verification/CollectionProps.thy ===== *)
theory CollectionProps
  imports CollectionInvariant
begin

text \<open>
  What collections promise: other people's operations change nothing of theirs, lines stay well
  formed, a visitor learns only what is shared, the valuation is the sum over the cards it speaks
  for, and an import does to the lines what its file says.
\<close>

section \<open>A small store\<close>

definition demo_catalogue :: collection_db where
  "demo_catalogue =
     \<lparr>cUsers = [''ann'', ''bob''],
      cSets = [\<lparr>setId = ''s1'', setCode = js ''GD01''\<rparr>],
      cCards = [\<lparr>cardId = ''c1'', cardSetId = ''s1'', cardNumber = js ''001'', cardName = js ''Gundam''\<rparr>],
      cVariants = [\<lparr>vId = ''v1'', vCardId = ''c1'', vFinish = ''normal'', vLanguage = ''en''\<rparr>],
      cIndex = [\<lparr>ixVariantId = ''v1'', ixCondition = NM, ixCurrency = ''USD'', ixDay = 99, ixMedianCents = 500\<rparr>],
      cCollections = [], cItems = []\<rparr>"

definition demo_item :: CollectionItemInput where
  "demo_item =
     \<lparr>iiCardVariantId = ''v1'', iiCondition = None, iiQuantity = Some 2,
      iiAcquiredPriceCents = Some 300, iiCurrency = None, iiAcquiredAt = None,
      iiNotes = Some (js ''trade'')\<rparr>"

definition demo_ops :: "collection_op list" where
  "demo_ops =
     [OpCreate ''ann'' (js ''Mine'') (Some Public) ''k1'' 1,
      OpAddItem ''ann'' ''k1'' demo_item ''i1'' 2]"

definition demo_collections :: collection_db where
  "demo_collections =
     demo_catalogue\<lparr>
       cCollections := [\<lparr>coId = ''k1'', coOwnerId = ''ann'', coName = js ''Mine'', coVisibility = Public,
                         coCreatedAt = 1, coUpdatedAt = 2\<rparr>],
       cItems := [new_item ''k1'' demo_item ''i1'' 2]\<rparr>"

lemma empty_inv: "coll_inv (db\<lparr>cCollections := [], cItems := []\<rparr>)"
  by (simp add: coll_inv_def)

lemma demo_catalogue_inv: "coll_inv demo_catalogue"
  using empty_inv [of demo_catalogue] by (simp add: demo_catalogue_def)

lemma collection_demo_run: "run_txns (coll_step id) demo_catalogue demo_ops = demo_collections"
  by code_simp

lemma demo_inv: "coll_inv demo_collections"
  using coll.run_inv [OF demo_catalogue_inv, of id demo_ops] by (simp add: collection_demo_run)

section \<open>Other people's operations\<close>

text \<open>Whatever sequence of operations other people run, with whatever arguments, every collection
  a person owns and every line in it is afterwards exactly what it was: a shared collection is
  readable by everyone and writable by one person.\<close>

theorem others_change_nothing:
  assumes "coll_inv db" "u \<notin> op_actor ` set ops"
  shows "owned_part u (run_txns (coll_step lower) db ops) = owned_part u db"
  using assms by (rule run_other)

definition demo_attack :: "collection_op list" where
  "demo_attack =
     [OpUpdate ''bob'' ''k1'' (Some (js ''Hacked'')) (Some Private) 5, OpDelete ''bob'' ''k1'',
      OpAddItem ''bob'' ''k1'' demo_item ''i9'' 6, OpRemoveItem ''bob'' ''i1'' 7,
      OpUpdateItem ''bob'' ''i1''
        \<lparr>ipQuantity = Some 1, ipAcquiredPriceCents = None, ipAcquiredAt = None, ipNotes = None\<rparr> 8]"

theorem others_change_nothing_witness:
  "owned_part ''ann'' (run_txns (coll_step id) demo_collections demo_attack) =
     (cCollections demo_collections, cItems demo_collections)"
proof -
  have "''ann'' \<notin> op_actor ` set demo_attack"
    by (simp add: demo_attack_def)
  from others_change_nothing [OF demo_inv this, of id] show ?thesis
    by (simp add: owned_part_def demo_collections_def item_owned_def new_item_def)
qed

section \<open>The lines of a collection\<close>

text \<open>After any sequence of operations from empty tables, one card in one condition has one line
  per collection; every line holds between 1 and 100000 cards, at no negative cost, in a currency
  code, in a collection that exists; names are 1 to 80 characters; nobody owns more than 25
  collections.\<close>

theorem collection_tables_sound:
  "let s = run_txns (coll_step lower) (db\<lparr>cCollections := [], cItems := []\<rparr>) ops in
     distinct (map item_line (cItems s)) \<and> distinct (map ciId (cItems s)) \<and> distinct (map coId (cCollections s))
   \<and> list_all (\<lambda>i. ciQuantity i \<in> {1..100000} \<and> iso_currency (ciCurrency i)
         \<and> ciAcquiredPriceCents i \<notin> Some ` {..<0}
         \<and> ciCollectionId i \<in> coId ` set (cCollections s)) (cItems s)
   \<and> list_all (\<lambda>c. pg_length (coName c) \<in> {1..80} \<and> coOwnerId c \<in> set (cUsers s)
         \<and> length (filter (\<lambda>d. coOwnerId d = coOwnerId c) (cCollections s)) \<le> 25) (cCollections s)"
proof -
  let ?s = "run_txns (coll_step lower) (db\<lparr>cCollections := [], cItems := []\<rparr>) ops"
  have inv: "coll_inv ?s"
    by (rule coll.run_inv) (rule empty_inv)
  have pg: "1 \<le> pg_length s" if "list_ex (\<lambda>u. u \<noteq> 32) s" for s
    using that by (induction s rule: pg_length.induct) auto
  have item: "ciQuantity i \<in> {1..100000} \<and> iso_currency (ciCurrency i) \<and> ciAcquiredPriceCents i \<notin> Some ` {..<0}"
    if "first_violated (item_checks i) = None" for i
    using that by (auto simp: item_checks_def split: if_splits)
  have collection: "pg_length (coName c) \<in> {1..80}" if "first_violated (collection_checks c) = None" for c
    using that pg by (auto simp: collection_checks_def split: if_splits)
  show ?thesis
    unfolding Let_def list_all_iff
    using inv item collection unfolding coll_inv_def MAX_COLLECTIONS_PER_USER_def by blast
qed

section \<open>What a visitor learns\<close>

text \<open>The store as a viewer is meant to know it: private collections of others gone with their lines,
  and on every other line not the viewer's own no cost, no date and no note.\<close>

definition hide_costs :: "string \<Rightarrow> collection_db \<Rightarrow> CollectionItem \<Rightarrow> CollectionItem" where
  "hide_costs v db i =
     (if item_owned v db i then i
      else i\<lparr>ciAcquiredPriceCents := None, ciAcquiredAt := None, ciNotes := None\<rparr>)"

definition shared_part :: "string \<Rightarrow> collection_db \<Rightarrow> collection_db" where
  "shared_part v db =
     db\<lparr>cCollections := filter (collection_visible v) (cCollections db),
        cItems := map (hide_costs v db) (filter (item_visible v db) (cItems db))\<rparr>"

lemma hide_costs_same [simp]:
  "ciId (hide_costs v db i) = ciId i" "ciCollectionId (hide_costs v db i) = ciCollectionId i"
  "ciCardVariantId (hide_costs v db i) = ciCardVariantId i"
  "ciCondition (hide_costs v db i) = ciCondition i" "ciQuantity (hide_costs v db i) = ciQuantity i"
  "ciCurrency (hide_costs v db i) = ciCurrency i"
  by (simp_all add: hide_costs_def)

lemma map_filter_hidden:
  assumes "\<And>i. i \<in> set xs \<Longrightarrow> vis i \<Longrightarrow> f' (b i) = f i \<and> P' (b i) = P i"
    and "\<And>i. i \<in> set xs \<Longrightarrow> P i \<Longrightarrow> vis i"
  shows "List.map_filter f' (filter P' (map b (filter vis xs))) = List.map_filter f (filter P xs)"
  using assms by (induction xs) (auto simp: List.map_filter_simps split: option.splits)

lemma item_visible_shared: "item_visible v (shared_part v db) = item_visible v db"
  by (auto simp: fun_eq_iff item_visible_def shared_part_def list_ex_iff)

lemma item_visible_hidden [simp]: "item_visible v db (hide_costs w db' i) = item_visible v db i"
  by (simp add: item_visible_def)

lemma catalogue_shared [simp]:
  "cVariants (shared_part v db) = cVariants db" "cCards (shared_part v db) = cCards db"
  "cSets (shared_part v db) = cSets db"
  by (simp_all add: shared_part_def)

lemma select_shared:
  assumes "distinct (map coId (cCollections db))"
  shows "select_collection v k (shared_part v db) = select_collection v k db"
proof (cases "find_row coId k (cCollections db)")
  case None
  then have "find_row coId k (filter (collection_visible v) (cCollections db)) = None"
    by (auto simp: find_row_None_iff)
  with None show ?thesis
    by (simp add: select_collection_def shared_part_def)
next
  case (Some c)
  note only = find_key_unique [OF assms Some]
  have c: "c \<in> set (cCollections db)" "coId c = k"
    using find_row_SomeD [OF Some] by auto
  show ?thesis
  proof (cases "collection_visible v c")
    case True
    then have "find_row coId k (filter (collection_visible v) (cCollections db)) = Some c"
      using c assms find_row_distinct_mem [of coId "filter (collection_visible v) (cCollections db)" c]
      by (simp add: distinct_map_filter)
    with Some True show ?thesis
      by (simp add: select_collection_def shared_part_def)
  next
    case False
    then have "find_row coId k (filter (collection_visible v) (cCollections db)) = None"
      using only by (auto simp: find_row_None_iff)
    with Some False show ?thesis
      by (simp add: select_collection_def shared_part_def)
  qed
qed

lemma owner_of_visible:
  assumes "distinct (map coId (cCollections db))" "select_collection v (ciCollectionId i) db = Some col"
  shows "item_owned v db i \<longleftrightarrow> coOwnerId col = v"
proof -
  have "find_row coId (ciCollectionId i) (cCollections db) = Some col"
    using assms(2) by (auto simp: select_collection_def split: option.splits if_splits)
  then show ?thesis
    using find_key_unique [OF assms(1)] find_row_SomeD by (fastforce simp: item_owned_iff)
qed

lemma owners_eyes_hidden:
  assumes "distinct (map coId (cCollections db))" "select_collection v (ciCollectionId i) db = Some col"
  shows "owners_eyes v col (ciAcquiredPriceCents (hide_costs v db i)) = owners_eyes v col (ciAcquiredPriceCents i)"
    "owners_eyes v col (ciAcquiredAt (hide_costs v db i)) = owners_eyes v col (ciAcquiredAt i)"
    "owners_eyes v col (ciNotes (hide_costs v db i)) = owners_eyes v col (ciNotes i)"
  using owner_of_visible [OF assms] by (simp_all add: owners_eyes_def hide_costs_def)

lemma item_view_shared:
  assumes "distinct (map coId (cCollections db))"
  shows "item_view v (shared_part v db) (hide_costs v db i) = item_view v db i"
  using owners_eyes_hidden [OF assms]
  by (auto simp: item_view_def select_shared [OF assms] split: option.splits)

lemma items_shared: "cItems (shared_part v db) = map (hide_costs v db) (filter (item_visible v db) (cItems db))"
  by (simp add: shared_part_def)

lemma latest_price_shared:
  "latest_price today age (hide_costs v db i) (shared_part v db) = latest_price today age i db"
  by (simp add: latest_price_def price_rows_def shared_part_def)

lemma listItems_shared:
  assumes "distinct (map coId (cCollections db))"
  shows "listItems ord viewer k (shared_part (asViewer viewer) db) = listItems ord viewer k db"
  unfolding listItems_def items_shared
  by (rule arg_cong [where f = ord], rule map_filter_hidden)
    (auto simp: item_view_shared [OF assms] item_visible_shared)

lemma value_rows_shared:
  assumes "distinct (map coId (cCollections db))"
  shows "value_rows v k today age (shared_part v db) = value_rows v k today age db"
  unfolding value_rows_def items_shared
  by (rule map_filter_hidden)
    (auto simp: select_shared [OF assms] item_visible_shared latest_price_shared owners_eyes_hidden [OF assms]
      split: option.splits)

lemma count_shared:
  "collectionItemCount viewer k (shared_part (asViewer viewer) db) = collectionItemCount viewer k db"
  unfolding collectionItemCount_def items_shared
  by (auto simp: filter_map o_def item_visible_shared intro!: arg_cong [where f = length] filter_cong)



section \<open>The valuation\<close>

text \<open>What a valuation means: sums over the lines in the currency asked for, those of them with a
  published price, and those of these with a known cost.\<close>

definition line_value :: "value_row \<Rightarrow> int" where
  "line_value r = fst (the (vrPrice r)) * vrQuantity r"

definition line_cost :: "value_row \<Rightarrow> int" where
  "line_cost r = the (vrAcquiredPriceCents r) * vrQuantity r"

definition quantities :: "value_row list \<Rightarrow> int" where
  "quantities rows = sum_list (map vrQuantity rows)"

definition oldest_day :: "int list \<Rightarrow> int option" where
  "oldest_day days = (case days of [] \<Rightarrow> None | d # ds \<Rightarrow> Some (foldl min d ds))"

definition valuation_of :: "string \<Rightarrow> value_row list \<Rightarrow> CollectionValuation" where
  "valuation_of currency rows =
     (let mine = filter (\<lambda>r. vrCurrency r = currency) rows;
          priced = filter (\<lambda>r. vrPrice r \<noteq> None) mine;
          unpriced = filter (\<lambda>r. vrPrice r = None) mine;
          comparable = filter (\<lambda>r. vrAcquiredPriceCents r \<noteq> None) priced
      in \<lparr>cvCurrency = currency, cvLines = length rows, cvCards = quantities rows,
          cvValuedCards = quantities priced, cvCurrentValueCents = sum_list (map line_value priced),
          cvCostBasisCents = sum_list (map line_cost comparable),
          cvComparableValueCents = sum_list (map line_value comparable),
          cvGainLossCents = sum_list (map (\<lambda>r. line_value r - line_cost r) comparable),
          cvUnpricedLines = int (length unpriced), cvUnpricedCards = quantities unpriced,
          cvOtherCurrencyLines = int (length (filter (\<lambda>r. vrCurrency r \<noteq> currency) rows)),
          cvOldestPriceDay = oldest_day (map (\<lambda>r. snd (the (vrPrice r))) priced)\<rparr>)"

text \<open>How much a row can add to any of the sums.\<close>

definition row_weight :: "value_row \<Rightarrow> int" where
  "row_weight r =
     \<bar>vrQuantity r\<bar> + (case vrPrice r of None \<Rightarrow> 0 | Some (m, _) \<Rightarrow> \<bar>m * vrQuantity r\<bar>)
       + (case vrAcquiredPriceCents r of None \<Rightarrow> 0 | Some p \<Rightarrow> \<bar>p * vrQuantity r\<bar>)"

lemma num_add_exact: "\<bar>a + b\<bar> \<le> 2 ^ 53 \<Longrightarrow> num_add a b = a + b"
  by (simp only: num_add_def js.rnd_int floor_of_int)

lemma num_mult_exact: "\<bar>a * b\<bar> \<le> 2 ^ 53 \<Longrightarrow> num_mult a b = a * b"
  by (simp only: num_mult_def js.rnd_int floor_of_int)

lemma row_weight_nonneg: "0 \<le> row_weight r"
  by (auto simp: row_weight_def split: option.splits)

lemma weights_nonneg: "0 \<le> sum_list (map row_weight rows)"
  by (auto intro!: sum_list_nonneg simp: row_weight_nonneg)

text \<open>The sum of a part of the rows, each term within its row's weight, is within the whole weight.\<close>

lemma part_within:
  assumes "\<And>r. r \<in> set rows \<Longrightarrow> P r \<Longrightarrow> \<bar>f r\<bar> \<le> row_weight r"
  shows "\<bar>sum_list (map f (filter P rows))\<bar> \<le> sum_list (map row_weight rows)"
  using assms
proof (induction rows)
  case (Cons r rows)
  then have "\<bar>sum_list (map f (filter P rows))\<bar> \<le> sum_list (map row_weight rows)" by auto
  moreover have "P r \<Longrightarrow> \<bar>f r\<bar> \<le> row_weight r" using Cons.prems by simp
  ultimately show ?case using row_weight_nonneg [of r] by (cases "P r") auto
qed simp

lemma foldl_min_snoc: "oldest_day (ds @ [d]) = Some (case oldest_day ds of None \<Rightarrow> d | Some e \<Rightarrow> min e d)"
  by (auto simp: oldest_day_def split: list.splits)

text \<open>The step of the loop over exact numbers.\<close>

definition exact_step :: "CollectionValuation \<Rightarrow> value_row \<Rightarrow> CollectionValuation" where
  "exact_step s r =
     (let s1 = s\<lparr>cvCards := cvCards s + vrQuantity r\<rparr> in
      if vrCurrency r \<noteq> cvCurrency s then s1\<lparr>cvOtherCurrencyLines := cvOtherCurrencyLines s + 1\<rparr>
      else if vrPrice r = None then
        s1\<lparr>cvUnpricedLines := cvUnpricedLines s + 1, cvUnpricedCards := cvUnpricedCards s + vrQuantity r\<rparr>
      else
        let s2 = s1\<lparr>cvValuedCards := cvValuedCards s + vrQuantity r,
                    cvCurrentValueCents := cvCurrentValueCents s + line_value r,
                    cvOldestPriceDay := Some (case cvOldestPriceDay s of
                        None \<Rightarrow> snd (the (vrPrice r)) | Some d \<Rightarrow> min d (snd (the (vrPrice r))))\<rparr>
        in if vrAcquiredPriceCents r = None then s2
           else s2\<lparr>cvCostBasisCents := cvCostBasisCents s + line_cost r,
                   cvComparableValueCents := cvComparableValueCents s + line_value r\<rparr>)"

definition sums_below :: "int \<Rightarrow> CollectionValuation \<Rightarrow> bool" where
  "sums_below w s \<longleftrightarrow>
     \<bar>cvCards s\<bar> \<le> w \<and> \<bar>cvValuedCards s\<bar> \<le> w \<and> \<bar>cvCurrentValueCents s\<bar> \<le> w
     \<and> \<bar>cvCostBasisCents s\<bar> \<le> w \<and> \<bar>cvComparableValueCents s\<bar> \<le> w \<and> \<bar>cvUnpricedCards s\<bar> \<le> w"

lemma value_step_exact:
  assumes "sums_below w s" "w + row_weight r \<le> 2 ^ 53"
  shows "value_step s r = exact_step s r"
proof -
  have w: "0 \<le> w" and q: "\<bar>vrQuantity r\<bar> \<le> row_weight r"
    using assms(1) by (auto simp: sums_below_def row_weight_def split: option.splits)
  have sums: "num_add a x = a + x" if "\<bar>a\<bar> \<le> w" "\<bar>x\<bar> \<le> row_weight r" for a x
    using that assms(2) by (intro num_add_exact) linarith
  have price: "\<bar>m * vrQuantity r\<bar> \<le> row_weight r" if "vrPrice r = Some (m, d)" for m d
    using that by (auto simp: row_weight_def split: option.splits)
  have cost: "\<bar>p * vrQuantity r\<bar> \<le> row_weight r" if "vrAcquiredPriceCents r = Some p" for p
    using that by (auto simp: row_weight_def split: option.splits)
  have products: "num_mult a b = a * b" if "\<bar>a * b\<bar> \<le> row_weight r" for a b
    using that assms(2) w by (intro num_mult_exact) linarith
  have facts: "num_add (cvCards s) (vrQuantity r) = cvCards s + vrQuantity r"
    "num_add (cvUnpricedCards s) (vrQuantity r) = cvUnpricedCards s + vrQuantity r"
    "num_add (cvValuedCards s) (vrQuantity r) = cvValuedCards s + vrQuantity r"
    using assms(1) q by (auto simp: sums_below_def intro: sums)
  have money: "num_add (cvCurrentValueCents s) (m * vrQuantity r) = cvCurrentValueCents s + m * vrQuantity r"
    "num_add (cvComparableValueCents s) (m * vrQuantity r) = cvComparableValueCents s + m * vrQuantity r"
    "num_mult m (vrQuantity r) = m * vrQuantity r"
    if "vrPrice r = Some (m, d)" for m d
    using assms(1) price [OF that] by (auto simp: sums_below_def intro: sums products)
  have paid: "num_add (cvCostBasisCents s) (p * vrQuantity r) = cvCostBasisCents s + p * vrQuantity r"
    "num_mult p (vrQuantity r) = p * vrQuantity r"
    if "vrAcquiredPriceCents r = Some p" for p
    using assms(1) cost [OF that] by (auto simp: sums_below_def intro: sums products)
  show ?thesis
    by (cases "vrPrice r"; cases "vrAcquiredPriceCents r"; cases "cvOldestPriceDay s")
      (auto simp: value_step_def exact_step_def Let_def facts money paid line_value_def line_cost_def min_def)
qed

lemma valuation_snoc:
  "(valuation_of cur (rows @ [r]))\<lparr>cvLines := n, cvGainLossCents := 0\<rparr> =
   exact_step ((valuation_of cur rows)\<lparr>cvLines := n, cvGainLossCents := 0\<rparr>) r"
  by (simp add: valuation_of_def exact_step_def quantities_def foldl_min_snoc Let_def)

lemma valuation_within: "sums_below (sum_list (map row_weight rows)) (valuation_of cur rows)"
proof -
  have q: "\<bar>vrQuantity r\<bar> \<le> row_weight r" for r
    by (auto simp: row_weight_def split: option.splits)
  have v: "vrPrice r \<noteq> None \<Longrightarrow> \<bar>line_value r\<bar> \<le> row_weight r" for r
    by (auto simp: row_weight_def line_value_def split: option.splits)
  have c: "vrAcquiredPriceCents r \<noteq> None \<Longrightarrow> \<bar>line_cost r\<bar> \<le> row_weight r" for r
    by (auto simp: row_weight_def line_cost_def split: option.splits)
  have all: "\<bar>quantities rows\<bar> \<le> sum_list (map row_weight rows)"
    using part_within [of rows "\<lambda>_. True" vrQuantity] q by (simp add: quantities_def)
  show ?thesis
    unfolding sums_below_def valuation_of_def Let_def
    using all by (auto simp: quantities_def intro!: part_within q v c)
qed

lemma loop_is_exact:
  assumes "sum_list (map row_weight rows) \<le> 2 ^ 53"
  shows "foldl value_step (empty_valuation cur n) rows =
    (valuation_of cur rows)\<lparr>cvLines := n, cvGainLossCents := 0\<rparr>"
  using assms
proof (induction rows rule: rev_induct)
  case Nil
  show ?case by (simp add: empty_valuation_def valuation_of_def quantities_def oldest_day_def)
next
  case (snoc r rows)
  then have "sum_list (map row_weight rows) + row_weight r \<le> 2 ^ 53" by simp
  moreover from this have "foldl value_step (empty_valuation cur n) rows =
      (valuation_of cur rows)\<lparr>cvLines := n, cvGainLossCents := 0\<rparr>"
    using row_weight_nonneg [of r] by (intro snoc.IH) linarith
  moreover have "sums_below (sum_list (map row_weight rows)) ((valuation_of cur rows)\<lparr>cvLines := n, cvGainLossCents := 0\<rparr>)"
    using valuation_within [of rows cur] by (simp add: sums_below_def)
  ultimately show ?case
    by (simp add: value_step_exact valuation_snoc)
qed

lemma gain_is_a_difference:
  "cvGainLossCents (valuation_of cur rows) =
     cvComparableValueCents (valuation_of cur rows) - cvCostBasisCents (valuation_of cur rows)"
  by (simp add: valuation_of_def Let_def sum_list_subtractf)

lemma gain_within:
  "\<bar>cvGainLossCents (valuation_of cur rows)\<bar> \<le> sum_list (map row_weight rows)"
proof -
  have "vrPrice r \<noteq> None \<Longrightarrow> vrAcquiredPriceCents r \<noteq> None \<Longrightarrow> \<bar>line_value r - line_cost r\<bar> \<le> row_weight r" for r
    by (auto simp: row_weight_def line_value_def line_cost_def split: option.splits)
  then show ?thesis
    by (auto simp: valuation_of_def Let_def intro!: part_within)
qed

text \<open>C19: The valuation is what its rules say: the value sums latest median times quantity over the
  lines in the currency asked for that have a published price inside the window, gain and loss
  compare value and cost over the lines that have both, the rest is counted and never priced, and
  the oldest day is the least one used - as long as all amounts together stay below 2 to the 53,
  where the doubles the loop adds up in are exact.\<close>

theorem valuation_is_its_definition:
  assumes "sum_list (map row_weight (value_rows (asViewer viewer) k today (or_default 30 age) db)) \<le> 2 ^ 53"
  shows "valueCollection viewer k cur age today db =
    valuation_of (or_default ''USD'' cur) (value_rows (asViewer viewer) k today (or_default 30 age) db)"
proof -
  let ?rows = "value_rows (asViewer viewer) k today (or_default 30 age) db"
  let ?v = "valuation_of (or_default ''USD'' cur) ?rows"
  have "num_add (cvComparableValueCents ?v) (- cvCostBasisCents ?v) = cvGainLossCents ?v"
    using gain_within [of "or_default ''USD'' cur" ?rows] assms
    by (subst num_add_exact) (simp_all add: gain_is_a_difference)
  then show ?thesis
    unfolding valueCollection_def Let_def loop_is_exact [OF assms]
    by (simp add: valuation_of_def Let_def)
qed

theorem valuation_is_its_definition_witness:
  "valueCollection (Some ''ann'') ''k1'' None None 100 demo_collections =
     \<lparr>cvCurrency = ''USD'', cvLines = 1, cvCards = 2, cvValuedCards = 2, cvCurrentValueCents = 1000,
      cvCostBasisCents = 600, cvComparableValueCents = 1000, cvGainLossCents = 400, cvUnpricedLines = 0,
      cvUnpricedCards = 0, cvOtherCurrencyLines = 0, cvOldestPriceDay = Some 99\<rparr>"
proof -
  have rows: "value_rows ''ann'' ''k1'' 100 30 demo_collections =
      [\<lparr>vrQuantity = 2, vrAcquiredPriceCents = Some 300, vrCurrency = ''USD'', vrPrice = Some (500, 99)\<rparr>]"
    by code_simp
  show ?thesis
    using valuation_is_its_definition [of "Some ''ann''" "''k1''" 100 None demo_collections None]
    by (simp add: asViewer_def or_default_def rows row_weight_def valuation_of_def quantities_def
        line_value_def line_cost_def oldest_day_def)
qed

section \<open>What an import does\<close>

text \<open>How many cards a line holds: none where there is no line.\<close>

definition quantity_at :: "collection_db \<Rightarrow> string \<times> string \<times> CardCondition \<Rightarrow> int" where
  "quantity_at db line =
     (case find (\<lambda>i. item_line i = line) (cItems db) of None \<Rightarrow> 0 | Some i \<Rightarrow> ciQuantity i)"

definition after_write :: "write_mode \<Rightarrow> int \<Rightarrow> int \<Rightarrow> int" where
  "after_write mode old q = (if mode = Replace then q else old + q)"

lemma find_in_distinct:
  "distinct (map key xs) \<Longrightarrow> x \<in> set xs \<Longrightarrow> find (\<lambda>y. key y = key x) xs = Some x"
  by (induction xs) auto

lemma find_map_same_key:
  "(\<And>x. x \<in> set xs \<Longrightarrow> key (g x) = key x) \<Longrightarrow>
   find (\<lambda>y. key y = k) (map g xs) = map_option g (find (\<lambda>y. key y = k) xs)"
  by (induction xs) auto

lemma find_key_None: "k \<notin> key ` set xs \<Longrightarrow> find (\<lambda>x. key x = k) xs = None"
  by (induction xs) auto

lemma find_key_Some: "find (\<lambda>x. key x = k) xs = Some x \<Longrightarrow> x \<in> set xs \<and> key x = k"
  by (induction xs) (auto split: if_splits)

lemma find_append_new:
  "find P (xs @ [x]) = (case find P xs of None \<Rightarrow> if P x then Some x else None | Some y \<Rightarrow> Some y)"
  by (induction xs) auto

lemma quantity_changed:
  assumes inv: "coll_inv db" and old: "old \<in> set (cItems db)" "item_line (f old) = item_line old"
    and up: "update_item_row v (ciId old) f db = Inr (Some i, db')"
  shows "quantity_at db' line = (if line = item_line old then ciQuantity (f old) else quantity_at db line)"
proof -
  note D = coll_invD [OF inv]
  have "find_row ciId (ciId old) (cItems db) = Some old"
    by (rule find_row_distinct_mem [OF D(2) old(1)])
  then have "cItems db' = update_row ciId (ciId old) f (cItems db)"
    using up by (auto simp: update_item_row_def split: if_splits option.splits)
  also have "\<dots> = map (\<lambda>x. if x = old then f old else x) (cItems db)"
    by (rule update_row_found [OF D(2)]) fact
  finally have found: "find (\<lambda>i. item_line i = line) (cItems db') =
      map_option (\<lambda>x. if x = old then f old else x) (find (\<lambda>i. item_line i = line) (cItems db))"
    using old(2) by (simp add: find_map_same_key)
  show ?thesis
  proof (cases "find (\<lambda>i. item_line i = line) (cItems db)")
    case None
    then have "line \<noteq> item_line old"
      using find_in_distinct [OF D(3) old(1)] by auto
    with None found show ?thesis by (simp add: quantity_at_def)
  next
    case (Some j)
    have "j = old" if "line = item_line old"
      using Some unfolding that find_in_distinct [OF D(3) old(1)] by simp
    moreover have "line = item_line old" if "j = old"
      using find_key_Some [OF Some] that by simp
    ultimately have "line = item_line old \<longleftrightarrow> j = old" by blast
    with Some found show ?thesis by (simp add: quantity_at_def)
  qed
qed

lemma upsert_quantity:
  assumes inv: "coll_inv db" and up: "upsertItem v k input mode newId now db = Inr (i, db')"
  shows "quantity_at db' line =
    (if line = (k, iiCardVariantId input, or_default NM (iiCondition input))
     then after_write mode (quantity_at db line) (or_default 1 (iiQuantity input)) else quantity_at db line)"
    (is "_ = (if line = ?line then _ else _)")
proof (cases "find_line v ?line db")
  case None
  let ?i = "new_item k input newId now"
  have item: "item_line ?i = ?line" "ciQuantity ?i = or_default 1 (iiQuantity input)"
    by (simp_all add: new_item_def item_line_def)
  from up None have ins: "insert_item v ?i db = Inr db'"
    by (auto simp: upsertItem_def Let_def split: sum.splits)
  then have "cItems db' = cItems db @ [?i]" "?line \<notin> item_line ` set (cItems db)"
    using insert_item_Inr [OF ins] item by auto
  moreover from this have "find (\<lambda>i. item_line i = ?line) (cItems db) = None"
    by (intro find_key_None)
  ultimately show ?thesis
    using item by (auto simp: quantity_at_def find_append_new after_write_def split: option.splits)
next
  case (Some old)
  note old = find_line_item [OF Some]
  have here: "quantity_at db ?line = ciQuantity old"
    using find_in_distinct [OF coll_invD(3) [OF inv], of old] old by (simp add: quantity_at_def)
  show ?thesis
  proof (cases "mode = Replace")
    case True
    let ?f = "replace_item k input now"
    from up Some True have "update_item_row v (ciId old) ?f db = Inr (Some i, db')"
      by (auto simp: upsertItem_def returned_row_def split: sum.splits option.splits)
    with quantity_changed [OF inv, of old ?f] show ?thesis
      using old True by (auto simp: replace_item_def new_item_def item_line_def after_write_def)
  next
    case False
    let ?f = "merge_item input now"
    from up Some False have "update_item_row v (ciId old) ?f db = Inr (Some i, db')"
      by (auto simp: upsertItem_def returned_row_def split: sum.splits option.splits if_splits)
    with quantity_changed [OF inv, of old ?f] show ?thesis
      using old False here by (auto simp: merge_item_def item_line_def after_write_def)
  qed
qed

lemma touch_quantity: "touchCollection v k now db = Inr db' \<Longrightarrow> quantity_at db' = quantity_at db"
  by (auto simp: touchCollection_def fun_eq_iff quantity_at_def dest!: update_collection_Inr split: sum.splits)

definition row_line :: "string \<Rightarrow> resolved_row \<Rightarrow> string \<times> string \<times> CardCondition" where
  "row_line k r = (k, fst (snd r), or_default NM (crCondition (snd (snd r))))"

abbreviation row_quantity :: "resolved_row \<Rightarrow> int" where
  "row_quantity r \<equiv> crQuantity (snd (snd r))"

text \<open>The rows kept are for distinct lines, none of them among those seen before.\<close>

lemma resolved_distinct:
  "resolve_rows lower found rows seen = (es, rs) \<Longrightarrow>
   distinct (map (row_line k) rs) \<and> (\<forall>r \<in> set rs. snd (row_line k r) \<notin> fst ` set seen)"
proof (induction rows arbitrary: seen es rs)
  case (Cons row rows)
  obtain n p where row: "row = (n, p)" by force
  let ?key = "variantKey lower (crSet p) (crNumber p) (crFinish p) (crLanguage p)"
  show ?case
  proof (cases "map_of found ?key")
    case None
    with Cons.prems row obtain es' where "resolve_rows lower found rows seen = (es', rs)"
      by (auto split: prod.splits)
    then show ?thesis by (rule Cons.IH)
  next
    case (Some vid)
    let ?line = "(vid, or_default NM (crCondition p))"
    show ?thesis
    proof (cases "map_of seen ?line")
      case None
      with Cons.prems row Some obtain rs' where
        rest: "resolve_rows lower found rows ((?line, n) # seen) = (es, rs')" and rs: "rs = (n, vid, p) # rs'"
        by (auto simp: Let_def split: prod.splits)
      from Cons.IH [OF rest] show ?thesis
        using None by (auto simp: rs row_line_def map_of_eq_None_iff)
    next
      case (Some first)
      with Cons.prems row \<open>map_of found ?key = Some vid\<close> obtain es' where
        "resolve_rows lower found rows seen = (es', rs)"
        by (auto simp: Let_def split: prod.splits)
      then show ?thesis by (rule Cons.IH)
    qed
  qed
qed auto

lemma import_rows_effect:
  assumes "import_rows v k mode newId now rows (rep, db) = Inr (rep', db')" "coll_inv db"
    and "distinct (map (row_line k) rows)"
  shows "quantity_at db' line =
      (case find (\<lambda>r. row_line k r = line) rows of
         None \<Rightarrow> quantity_at db line
       | Some r \<Rightarrow> after_write mode (quantity_at db line) (row_quantity r))
    \<and> irCreated rep' + irUpdated rep' = irCreated rep + irUpdated rep + length rows
    \<and> irCardsAdded rep' = irCardsAdded rep + sum_list (map row_quantity rows)
    \<and> irErrors rep' = irErrors rep \<and> irValid rep' = irValid rep \<and> irRows rep' = irRows rep"
  using assms
proof (induction rows arbitrary: rep db)
  case (Cons row rows)
  obtain n vid p where row: "row = (n, vid, p)" by (cases row) auto
  let ?e = "find_line v (k, vid, or_default NM (crCondition p)) db"
  let ?rep = "(if ?e \<noteq> None then rep\<lparr>irUpdated := irUpdated rep + 1\<rparr>
      else rep\<lparr>irCreated := irCreated rep + 1\<rparr>)\<lparr>irCardsAdded := irCardsAdded rep + crQuantity p\<rparr>"
  from Cons.prems(1) row obtain i db1 where
    up: "upsertItem v k (row_input vid p) mode (newId n) now db = Inr (i, db1)"
    and rest: "import_rows v k mode newId now rows (?rep, db1) = Inr (rep', db')"
    by (auto simp: Let_def split: sum.splits)
  have "coll_inv db1"
    using statement_inv [OF upsert_statements [OF Cons.prems(2) up] Cons.prems(2)] .
  note IH = Cons.IH [OF rest this]
  have here: "quantity_at db1 line = (if line = row_line k row
      then after_write mode (quantity_at db line) (crQuantity p) else quantity_at db line)"
    using upsert_quantity [OF Cons.prems(2) up, of line] by (simp add: row_input_def row_line_def row or_default_def)
  have "find (\<lambda>r. row_line k r = line) rows = None" if "line = row_line k row"
    using that Cons.prems(3) by (intro find_key_None) simp
  then show ?case
    using IH Cons.prems(3) here by (auto simp: row split: option.splits)
qed simp

lemma read_file_dry:
  "read_file lower doc dryRun db =
     map_prod (\<lambda>rep. rep\<lparr>irDryRun := dryRun\<rparr>) id (read_file lower doc False db)"
  by (auto simp: read_file_def empty_report_def Let_def split: sum.splits prod.splits)

lemma read_file_rows:
  assumes "read_file lower doc dryRun db = (rep, rs)"
  shows "irValid rep = length rs \<and> irCreated rep = 0 \<and> irUpdated rep = 0 \<and> irCardsAdded rep = 0
    \<and> distinct (map (row_line k) rs)"
  using assms resolved_distinct
  by (fastforce simp: read_file_def empty_report_def Let_def split: sum.splits prod.splits if_splits)

text \<open>C20: An import that is applied does to every line exactly what the file's valid rows say: adds the
  row's quantity to what the line held, or in replace mode sets it, and leaves every line no row
  names; two rows are never for one line; created, updated and cards added count what was done; and
  the same file as a dry run changes nothing and reports the same rows and the same errors.\<close>

theorem import_does_what_the_file_says:
  assumes "coll_inv db" "importCollectionCsv lower u k doc False mode newId now db = Inr (rep, db')"
  shows "let rows = snd (read_file lower doc False db) in
      distinct (map (row_line k) rows)
    \<and> quantity_at db' = (\<lambda>line. case find (\<lambda>r. row_line k r = line) rows of
          None \<Rightarrow> quantity_at db line
        | Some r \<Rightarrow> after_write mode (quantity_at db line) (row_quantity r))
    \<and> irValid rep = length rows \<and> irCreated rep + irUpdated rep = length rows
    \<and> irCardsAdded rep = sum_list (map row_quantity rows)
    \<and> (\<exists>preview. importCollectionCsv lower u k doc True mode newId now db = Inr (preview, db)
          \<and> irRows preview = irRows rep \<and> irValid preview = irValid rep \<and> irErrors preview = irErrors rep)"
proof -
  obtain rep0 rs where readf: "read_file lower doc False db = (rep0, rs)" by force
  note rows = read_file_rows [OF readf]
  have preview: "importCollectionCsv lower u k doc True mode newId now db = Inr (rep0\<lparr>irDryRun := True\<rparr>, db)"
    by (simp add: importCollectionCsv_def read_file_dry [of _ _ True] readf)
  have "quantity_at db' = (\<lambda>line. case find (\<lambda>r. row_line k r = line) rs of
          None \<Rightarrow> quantity_at db line
        | Some r \<Rightarrow> after_write mode (quantity_at db line) (row_quantity r))
      \<and> irCreated rep + irUpdated rep = length rs \<and> irCardsAdded rep = sum_list (map row_quantity rs)
      \<and> irErrors rep = irErrors rep0 \<and> irValid rep = irValid rep0 \<and> irRows rep = irRows rep0"
  proof (cases "rs = []")
    case True
    with assms(2) readf rows show ?thesis by (simp add: importCollectionCsv_def)
  next
    case False
    with assms(2) readf obtain db1 where
      "import_rows u k mode newId now rs (rep0, db) = Inr (rep, db1)" "quantity_at db' = quantity_at db1"
      by (auto simp: importCollectionCsv_def split: sum.splits prod.splits dest: touch_quantity)
    with import_rows_effect [of u k mode newId now rs rep0 db rep db1] assms(1) rows show ?thesis
      by (simp add: fun_eq_iff)
  qed
  then show ?thesis
    using rows [of k] preview by (simp add: readf)
qed

definition demo_file :: utf16 where
  "demo_file = toCsv (map js [''set'', ''number'', ''quantity''])
     [[CsvText (js ''gd01''), CsvText (js ''001''), CsvInt 3],
      [CsvText (js ''gd01''), CsvText (js ''002''), CsvInt 1],
      [CsvText (js ''gd01''), CsvText (js ''001''), CsvInt 9]]"

definition demo_document :: CsvDocument where
  "demo_document =
     \<lparr>csvHeader = map js [''set'', ''number'', ''quantity''],
      csvRows = [[js ''gd01'', js ''001'', js ''3''], [js ''gd01'', js ''002'', js ''1''],
                 [js ''gd01'', js ''001'', js ''9'']]\<rparr>"

lemma demo_parse: "parseCsv demo_file DEFAULT_MAX_ROWS DEFAULT_MAX_BYTES = Inr demo_document"
proof -
  have "byte_length demo_file \<le> 1000"
    by code_simp
  then have size: "byte_length demo_file \<le> DEFAULT_MAX_BYTES"
    by (simp add: DEFAULT_MAX_BYTES_def)
  let ?rows = "[[CsvText (js ''gd01''), CsvText (js ''001''), CsvInt 3],
      [CsvText (js ''gd01''), CsvText (js ''002''), CsvInt 1],
      [CsvText (js ''gd01''), CsvText (js ''001''), CsvInt 9]]"
  have "map (\<lambda>h. js_trim (guard_formula h)) (map js [''set'', ''number'', ''quantity'']) = csvHeader demo_document"
    "filter (\<lambda>r. r \<noteq> [[]]) (map shown_row ?rows) = csvRows demo_document"
    by code_simp+
  moreover have "shown_row (map CsvText (map js [''set'', ''number'', ''quantity''])) \<noteq> [[]]"
    by code_simp
  ultimately show ?thesis
    using parse_written [OF size [unfolded demo_file_def], of DEFAULT_MAX_ROWS]
    by (simp add: demo_file_def DEFAULT_MAX_ROWS_def del: list.map)
qed

lemma demo_read: "read_file ascii_lower demo_file False demo_collections =
  ((empty_report False)\<lparr>irRows := 3, irValid := 1,
     irErrors := [(3, NoSuchCard (js ''002'') (js ''gd01'')), (4, DuplicatesRow 2)]\<rparr>,
   [(2, ''v1'', \<lparr>crSet = js ''gd01'', crNumber = js ''001'', crFinish = None, crLanguage = None,
      crCondition = None, crQuantity = 3, crAcquiredPrice = None, crCurrency = None,
      crAcquiredAt = None, crNotes = None\<rparr>)])"
  unfolding read_file_def demo_parse sum.case
  by code_simp

lemma demo_import:
  "map_sum id (irErrors \<circ> fst) (importCollectionCsv ascii_lower ''ann'' ''k1'' demo_file False Add (\<lambda>n. ''n'') 9 demo_collections) =
     Inr [(3, NoSuchCard (js ''002'') (js ''gd01'')), (4, DuplicatesRow 2)]"
  unfolding importCollectionCsv_def demo_read
  by code_simp
theorem import_does_what_the_file_says_witness:
  "\<exists>rep db'. importCollectionCsv ascii_lower ''ann'' ''k1'' demo_file False Add (\<lambda>n. ''n'') 9 demo_collections
      = Inr (rep, db')
    \<and> irErrors rep = [(3, NoSuchCard (js ''002'') (js ''gd01'')), (4, DuplicatesRow 2)]
    \<and> irCreated rep + irUpdated rep = 1 \<and> irCardsAdded rep = 3
    \<and> quantity_at db' (''k1'', ''v1'', NM) = 5"
proof -
  obtain rep db' where run: "importCollectionCsv ascii_lower ''ann'' ''k1'' demo_file False Add (\<lambda>n. ''n'') 9
      demo_collections = Inr (rep, db')"
    and errors: "irErrors rep = [(3, NoSuchCard (js ''002'') (js ''gd01'')), (4, DuplicatesRow 2)]"
    using demo_import
    by (cases "importCollectionCsv ascii_lower ''ann'' ''k1'' demo_file False Add (\<lambda>n. ''n'') 9 demo_collections") auto
  have old: "quantity_at demo_collections (''k1'', ''v1'', NM) = 2"
    by code_simp
  show ?thesis
    using import_does_what_the_file_says [OF demo_inv run] old run errors
    by (simp add: demo_read Let_def after_write_def row_line_def or_default_def)
qed

section \<open>Adding to a line\<close>

lemma average_half_up:
  assumes "1 \<le> qa" "1 \<le> qb" "0 \<le> ua" "0 \<le> ub" "4 * (qa * ua + qb * ub + (qa + qb)) \<le> 2 ^ 53"
  shows "weightedAverageCents (qa, Some ua) (qb, Some ub) =
    Some ((2 * (qa * ua + qb * ub) + (qa + qb)) div (2 * (qa + qb)))"
proof -
  have p: "0 \<le> qa * ua" "0 \<le> qb * ub" using assms by simp_all
  have room: "4 * A \<le> 2 ^ 53 \<and> 4 * B \<le> 2 ^ 53 \<and> 4 * (A + B) \<le> 2 ^ 53 \<and> 4 * (qa + qb) \<le> 2 ^ 53"
    if "0 \<le> A" "0 \<le> B" "4 * (A + B + (qa + qb)) \<le> 2 ^ 53" for A B
    using that assms(1,2) by simp
  have small: "dbl (of_int x) = of_int x" if "0 \<le> x" "4 * x \<le> 2 ^ 53" for x
    using that by (intro js.rnd_int) simp
  note room = room [OF p assms(5)]
  have "dbl (of_int (qa * ua)) = of_int (qa * ua)" "dbl (of_int (qb * ub)) = of_int (qb * ub)"
    using small p room by blast+
  moreover have "dbl (of_int (qa * ua + qb * ub)) = of_int (qa * ua + qb * ub)"
    using small room add_nonneg_nonneg [OF p] by blast
  moreover have "dbl (of_int (qa + qb)) = of_int (qa + qb)"
    using room assms(1,2) by (intro small) auto
  ultimately have "weightedAverageCents (qa, Some ua) (qb, Some ub) =
      Some (math_round (dbl (of_int (qa * ua + qb * ub) / of_int (qa + qb))))"
    by (simp only: weightedAverageCents_def fst_conv snd_conv option.case prod.case Let_def flip: of_int_mult of_int_add)
  also have "\<dots> = Some ((2 * (qa * ua + qb * ub) + (qa + qb)) div (2 * (qa + qb)))"
    using p assms by (subst js.half_up_rnd) simp_all
  finally show ?thesis .
qed

lemma average_unknown: "ua = None \<or> ub = None \<Longrightarrow> weightedAverageCents (qa, ua) (qb, ub) = None"
  by (auto simp: weightedAverageCents_def split: option.splits)

text \<open>Adding cards to a collection either opens the line for that card and condition as asked, or
  adds them to the one that is there: the quantities add up, the note already there is kept, the
  currency was the same, and the unit cost is the exact quantity-weighted average of both costs,
  rounded half up to a cent - or unknown as soon as either is unknown, never averaged with zero.\<close>

theorem added_lot_costs_its_average:
  assumes "coll_inv db" "addItem u k input newId now db = Inr (i, db')"
    and "or_default 1 (iiQuantity input) \<in> {1..100000}" "set_option (iiAcquiredPriceCents input) \<subseteq> {0..100000000}"
  shows "item_line i = (k, iiCardVariantId input, or_default NM (iiCondition input))
    \<and> (case find (\<lambda>x. item_line x = item_line i) (cItems db) of
         None \<Rightarrow> i = new_item k input newId now
       | Some old \<Rightarrow>
           let q = or_default 1 (iiQuantity input); n = ciQuantity old + q in
           ciId i = ciId old \<and> ciCurrency old = or_default ''USD'' (iiCurrency input)
         \<and> ciQuantity i = n \<and> ciNotes i = or_else (ciNotes old) (iiNotes input)
         \<and> ciAcquiredPriceCents i =
             (case (ciAcquiredPriceCents old, iiAcquiredPriceCents input) of
                (Some a, Some b) \<Rightarrow> Some ((2 * (ciQuantity old * a + q * b) + n) div (2 * n))
              | _ \<Rightarrow> None))"
proof -
  let ?line = "(k, iiCardVariantId input, or_default NM (iiCondition input))"
  from assms(2) obtain db1 where up: "upsertItem u k input Add newId now db = Inr (i, db1)"
    by (auto simp: addItem_def split: sum.splits)
  show ?thesis
  proof (cases "find_line u ?line db")
    case None
    with up have i: "i = new_item k input newId now" "insert_item u i db = Inr db1"
      by (auto simp: upsertItem_def Let_def split: sum.splits)
    have "find (\<lambda>x. item_line x = item_line i) (cItems db) = None"
      by (rule find_key_None) (use insert_item_Inr [OF i(2)] in blast)
    moreover have "item_line i = ?line"
      by (simp add: i(1) new_item_def item_line_def)
    ultimately show ?thesis
      using i(1) by simp
  next
    case (Some old)
    note old = find_line_item [OF Some]
    from up Some have cur: "ciCurrency old = or_default ''USD'' (iiCurrency input)"
      and "update_item_row u (ciId old) (merge_item input now) db = Inr (Some i, db1)"
      by (auto simp: upsertItem_def returned_row_def split: sum.splits option.splits if_splits)
    then have i: "i = merge_item input now old"
      using find_row_distinct_mem [OF coll_invD(2) [OF assms(1)], of old] old
      by (auto simp: update_item_row_def split: if_splits option.splits)
    then have line: "item_line i = ?line" "find (\<lambda>x. item_line x = item_line i) (cItems db) = Some old"
      using old find_in_distinct [OF coll_invD(3) [OF assms(1)], of old]
      by (simp_all add: merge_item_def item_line_def)
    let ?q = "or_default 1 (iiQuantity input)"
    have sound: "item_int4 old" "first_violated (item_checks old) = None"
      using coll_invD(5) [OF assms(1)] old by auto
    then have qty: "1 \<le> ciQuantity old" "ciQuantity old \<le> 100000"
      by (auto simp: item_checks_def split: if_splits)
    have "weightedAverageCents (ciQuantity old, Some a) (?q, Some b) =
        Some ((2 * (ciQuantity old * a + ?q * b) + (ciQuantity old + ?q)) div (2 * (ciQuantity old + ?q)))"
      if ab: "ciAcquiredPriceCents old = Some a" "iiAcquiredPriceCents input = Some b" for a b
    proof (rule average_half_up)
      have "0 \<le> a" "a \<le> 2 ^ 31"
        using sound ab by (auto simp: item_checks_def item_int4_def int4_def split: if_splits)
      moreover have "0 \<le> b" "b \<le> 100000000"
        using assms(4) ab by auto
      moreover have "ciQuantity old * a \<le> 100000 * 2 ^ 31"
        by (rule mult_mono) (use qty \<open>0 \<le> a\<close> \<open>a \<le> 2 ^ 31\<close> in auto)
      moreover have "?q * b \<le> 100000 * 100000000"
        by (rule mult_mono) (use assms(3) \<open>0 \<le> b\<close> \<open>b \<le> 100000000\<close> in auto)
      ultimately show "0 \<le> a" "0 \<le> b" "4 * (ciQuantity old * a + ?q * b + (ciQuantity old + ?q)) \<le> 2 ^ 53"
        using qty assms(3) by auto
    qed (use qty assms(3) in auto)
    moreover have "ciId i = ciId old" "ciQuantity i = ciQuantity old + ?q"
      "ciNotes i = or_else (ciNotes old) (iiNotes input)"
      "ciAcquiredPriceCents i =
         weightedAverageCents (ciQuantity old, ciAcquiredPriceCents old) (?q, iiAcquiredPriceCents input)"
      by (simp_all add: i merge_item_def)
    ultimately show ?thesis
      using line(1) cur average_unknown by (auto simp: line(2) [unfolded line(1)] Let_def split: option.splits)
  qed
qed


theorem added_lot_costs_its_average_witness:
  "\<exists>i db'. addItem ''ann'' ''k1'' (demo_item\<lparr>iiQuantity := None, iiAcquiredPriceCents := Some 400\<rparr>) ''i2'' 5
      demo_collections = Inr (i, db')
    \<and> ciId i = ''i1'' \<and> ciQuantity i = 3 \<and> ciAcquiredPriceCents i = Some 333"
proof -
  let ?input = "demo_item\<lparr>iiQuantity := None, iiAcquiredPriceCents := Some 400\<rparr>"
  have "case addItem ''ann'' ''k1'' ?input ''i2'' 5 demo_collections of Inl e \<Rightarrow> False | Inr r \<Rightarrow> True"
    by code_simp
  then obtain i db' where add: "addItem ''ann'' ''k1'' ?input ''i2'' 5 demo_collections = Inr (i, db')"
    by (auto split: sum.splits)
  have "or_default 1 (iiQuantity ?input) \<in> {1..100000}" "set_option (iiAcquiredPriceCents ?input) \<subseteq> {0..100000000}"
    by (simp_all add: or_default_def)
  from added_lot_costs_its_average [OF demo_inv add this] show ?thesis
    using add by (auto simp: demo_item_def demo_collections_def new_item_def item_line_def or_default_def or_else_def)
qed

end
