(* ===== verification/SignInLimits.thy ===== *)
theory SignInLimits
  imports Crypto JsDate
begin

text \<open>
  How often one address may be asked for a sign-in link
  (\<open>packages/auth/src/identifier-limit.ts\<close>). The limiter's \<open>Map\<close> is the list of its entries in
  insertion order; the clock is an argument.
\<close>

section \<open>The limiter\<close>

record IdentifierLimitOptions =
  liMax :: nat
  liWindowMs :: int
  liMaxEntries :: nat

definition default_limits :: IdentifierLimitOptions where
  "default_limits = \<lparr>liMax = 5, liWindowMs = 60000, liMaxEntries = 10000\<rparr>"

text \<open>\<open>keyFor\<close> digests the spelling; its base64 has the alphabet with \<open>+\<close> and \<open>/\<close> and is padded.\<close>

definition base64 :: "bytes \<Rightarrow> string" where
  "base64 bs =
     (let s = map (\<lambda>c. if c = CHR ''-'' then CHR ''+'' else if c = CHR ''_'' then CHR ''/'' else c) (base64url bs)
      in s @ replicate ((4 - length s mod 4) mod 4) (CHR ''=''))"

definition keyFor :: "string \<Rightarrow> string" where
  "keyFor identifier = base64 (sha256 (utf8 (to_lower (trim identifier))))"

record limit_entry =
  leCount :: nat
  leResetAt :: int

type_synonym 'k limit_map = "('k \<times> limit_entry) list"

definition sweep :: "int \<Rightarrow> 'k limit_map \<Rightarrow> 'k limit_map" where
  "sweep now seen = filter (\<lambda>(k, e). \<not> leResetAt e \<le> now) seen"

definition make_room :: "IdentifierLimitOptions \<Rightarrow> int \<Rightarrow> 'k limit_map \<Rightarrow> 'k limit_map" where
  "make_room opt now seen =
     (if length seen \<ge> liMaxEntries opt then
        let swept = sweep now seen
        in if length swept \<ge> liMaxEntries opt then tl swept else swept
      else seen)"

definition take_key ::
  "IdentifierLimitOptions \<Rightarrow> int \<Rightarrow> 'k \<Rightarrow> 'k limit_map \<Rightarrow> bool \<times> 'k limit_map" where
  "take_key opt now key seen =
     (case map_of seen key of
        Some e \<Rightarrow>
          if leResetAt e > now then
            if leCount e \<ge> liMax opt then (False, seen)
            else (True, map_set key (e\<lparr>leCount := leCount e + 1\<rparr>) seen)
          else (True, map_set key \<lparr>leCount = 1, leResetAt = now + liWindowMs opt\<rparr> (make_room opt now seen))
      | None \<Rightarrow>
          (True, map_set key \<lparr>leCount = 1, leResetAt = now + liWindowMs opt\<rparr> (make_room opt now seen)))"

definition take_identifier ::
  "IdentifierLimitOptions \<Rightarrow> int \<Rightarrow> string \<Rightarrow> string limit_map \<Rightarrow> bool \<times> string limit_map" where
  "take_identifier opt now identifier = take_key opt now (keyFor identifier)"

text \<open>A run: the requests in their order, with the ones let through, newest first.\<close>

fun limiter_run ::
  "IdentifierLimitOptions \<Rightarrow> (int \<times> 'k) list \<Rightarrow> (int \<times> 'k) list \<times> 'k limit_map
     \<Rightarrow> (int \<times> 'k) list \<times> 'k limit_map" where
  "limiter_run opt [] (passed, seen) = (passed, seen)"
| "limiter_run opt ((now, key) # requests) (passed, seen) =
     (case take_key opt now key seen of
        (True, seen') \<Rightarrow> limiter_run opt requests ((now, key) # passed, seen')
      | (False, seen') \<Rightarrow> limiter_run opt requests (passed, seen'))"

section \<open>What the limiter keeps\<close>

text \<open>The requests of a key let through no earlier than a given instant.\<close>

definition passed_since :: "'k \<Rightarrow> int \<Rightarrow> (int \<times> 'k) list \<Rightarrow> nat" where
  "passed_since key since passed = length (filter (\<lambda>(t, k). k = key \<and> since \<le> t) passed)"

text \<open>The state after requests up to an instant: one entry per key, no more than the cap, each
  counting requests that were let through since its window opened.\<close>

definition limiter_inv ::
  "IdentifierLimitOptions \<Rightarrow> int \<Rightarrow> (int \<times> 'k) list \<times> 'k limit_map \<Rightarrow> bool" where
  "limiter_inv opt now s \<longleftrightarrow>
     distinct (map fst (snd s)) \<and> length (snd s) \<le> max 1 (liMaxEntries opt)
     \<and> (\<forall>(k, e) \<in> set (snd s). leResetAt e - liWindowMs opt \<le> now
          \<and> leCount e \<le> passed_since k (leResetAt e - liWindowMs opt) (fst s))"

lemma map_set_distinct: "distinct (map fst m) \<Longrightarrow> distinct (map fst (map_set k v m))"
  by (auto simp: map_set_def comp_def case_prod_unfold image_iff)

lemma map_set_mem: "(k', v') \<in> set (map_set k v m) \<Longrightarrow> (k', v') \<in> set m \<and> k' \<noteq> k \<or> k' = k \<and> v' = v"
  by (auto simp: map_set_def image_iff split: if_splits)

lemma set_tl_subset: "set (tl xs) \<subseteq> set xs"
  by (cases xs) auto

lemma make_room_subset: "set (make_room opt now seen) \<subseteq> set seen"
  using set_tl_subset [of "sweep now seen"] by (auto simp: make_room_def sweep_def Let_def)

lemma make_room_distinct: "distinct (map fst seen) \<Longrightarrow> distinct (map fst (make_room opt now seen))"
  by (auto simp: make_room_def sweep_def Let_def map_tl intro: distinct_tl distinct_map_filter)

lemma make_room_length:
  "length seen \<le> max 1 (liMaxEntries opt) \<Longrightarrow> length (make_room opt now seen) < max 1 (liMaxEntries opt)"
proof -
  assume "length seen \<le> max 1 (liMaxEntries opt)"
  moreover define w where "w = length (sweep now seen)"
  moreover from this have "w \<le> length seen" by (simp add: sweep_def)
  ultimately show ?thesis
    by (auto simp: make_room_def Let_def w_def [symmetric] max_def split: if_splits)
qed

lemma map_set_length: "length (map_set k v m) \<le> length m + 1"
  by (simp add: map_set_def)

lemma map_set_length_known: "k \<in> fst ` set m \<Longrightarrow> length (map_set k v m) = length m"
  by (simp add: map_set_def)

lemma passed_since_Cons:
  "passed_since k s ((t, k') # passed) = passed_since k s passed + (if k' = k \<and> s \<le> t then 1 else 0)"
  by (simp add: passed_since_def)

lemma passed_since_mono: "s' \<le> s \<Longrightarrow> passed_since k s passed \<le> passed_since k s' passed"
  by (induction passed) (auto simp: passed_since_def)

lemma take_key_cases:
  obtains (fresh) "take_key opt now key seen =
      (True, map_set key \<lparr>leCount = 1, leResetAt = now + liWindowMs opt\<rparr> (make_room opt now seen))"
    "\<And>e. map_of seen key = Some e \<Longrightarrow> leResetAt e \<le> now"
  | (again) e where "map_of seen key = Some e" "leResetAt e > now" "leCount e < liMax opt"
      "take_key opt now key seen = (True, map_set key (e\<lparr>leCount := leCount e + 1\<rparr>) seen)"
  | (refused) e where "map_of seen key = Some e" "leResetAt e > now" "leCount e \<ge> liMax opt"
      "take_key opt now key seen = (False, seen)"
proof (cases "\<exists>e. map_of seen key = Some e \<and> leResetAt e > now")
  case False
  then show ?thesis by (intro fresh) (auto simp: take_key_def split: option.splits)
next
  case True
  then obtain e where e: "map_of seen key = Some e" "leResetAt e > now" by auto
  then show ?thesis by (cases "leCount e < liMax opt") (auto simp: take_key_def intro: again refused)
qed

lemma take_key_inv:
  assumes inv: "limiter_inv opt t (passed, seen)" and later: "t \<le> now"
    and run: "take_key opt now key seen = (ok, seen')"
  shows "limiter_inv opt now (if ok then (now, key) # passed else passed, seen')"
proof -
  have D: "distinct (map fst seen)" "length seen \<le> max 1 (liMaxEntries opt)"
    and T: "\<And>k e. (k, e) \<in> set seen \<Longrightarrow> leResetAt e - liWindowMs opt \<le> now"
    and C: "\<And>k e. (k, e) \<in> set seen \<Longrightarrow> leCount e \<le> passed_since k (leResetAt e - liWindowMs opt) passed"
    using inv later by (force simp: limiter_inv_def)+
  show ?thesis
  proof (cases rule: take_key_cases [of opt now key seen])
    case fresh
    let ?m = "map_set key \<lparr>leCount = 1, leResetAt = now + liWindowMs opt\<rparr> (make_room opt now seen)"
    have "length ?m \<le> max 1 (liMaxEntries opt)"
      by (rule order_trans [OF map_set_length]) (use make_room_length [OF D(2), of now] in linarith)
    moreover have "leResetAt e - liWindowMs opt \<le> now
        \<and> leCount e \<le> passed_since k (leResetAt e - liWindowMs opt) ((now, key) # passed)"
      if "(k, e) \<in> set ?m" for k e
      using map_set_mem [OF that] C [of k e] T [of k e] make_room_subset [of opt now seen]
      by (auto simp: passed_since_Cons)
    ultimately show ?thesis
      using fresh(1) run make_room_distinct [OF D(1)] by (auto simp: limiter_inv_def intro: map_set_distinct)
  next
    case (again e)
    then have mem: "(key, e) \<in> set seen" by (auto dest: map_of_SomeD)
    let ?m = "map_set key (e\<lparr>leCount := leCount e + 1\<rparr>) seen"
    have "leResetAt x - liWindowMs opt \<le> now
        \<and> leCount x \<le> passed_since k (leResetAt x - liWindowMs opt) ((now, key) # passed)"
      if "(k, x) \<in> set ?m" for k x
      using map_set_mem [OF that] C [of k x] T [of k x] C [OF mem] T [OF mem] by (auto simp: passed_since_Cons)
    moreover have "length ?m = length seen"
      by (rule map_set_length_known) (use mem in force)
    ultimately show ?thesis
      using again(4) run D by (auto simp: limiter_inv_def intro: map_set_distinct)
  next
    case (refused e)
    with run D T C show ?thesis by (auto simp: limiter_inv_def)
  qed
qed

lemma limiter_run_inv:
  assumes "limiter_inv opt t s" "sorted (t # map fst requests)"
  shows "limiter_inv opt (last (t # map fst requests)) (limiter_run opt requests s)"
  using assms
proof (induction opt requests s arbitrary: t rule: limiter_run.induct)
  case (2 opt now key requests passed seen)
  obtain ok seen' where run: "take_key opt now key seen = (ok, seen')" by force
  have "t \<le> now" "sorted (now # map fst requests)" using 2(4) by auto
  with take_key_inv [OF 2(3) _ run] 2(1,2) run show ?case
    by (cases ok) auto
qed simp

lemma start_inv: "limiter_inv opt t ([], [])"
  by (simp add: limiter_inv_def)

text \<open>C21: A sign-in address is refused only while it is being served: whatever requests came before, for
  whatever addresses, a refusal means that this very address was let through its full allowance
  within the last window. So an address nobody was served for during one window is let in again,
  and a flood of other addresses, which can only cost entries their place, shuts nobody out; and the
  table never grows past its cap.\<close>

theorem refusals_are_deserved_and_end:
  assumes "sorted (map fst requests @ [now])" "limiter_run opt requests ([], []) = (passed, seen)"
  shows "length seen \<le> max 1 (liMaxEntries opt)
    \<and> (fst (take_key opt now key seen)
         \<or> liMax opt \<le> passed_since key (now - liWindowMs opt + 1) passed)"
proof -
  let ?t = "case requests of [] \<Rightarrow> now | r # _ \<Rightarrow> fst r"
  have times: "sorted (?t # map fst requests)" "last (?t # map fst requests) \<le> now"
  proof -
    show "sorted (?t # map fst requests)"
      using assms(1) by (cases requests) (force simp: sorted_append)+
    have "x \<le> now" if "x \<in> set (?t # map fst requests)" for x
      using assms(1) that by (cases requests) (force simp: sorted_append)+
    moreover have "last (?t # map fst requests) \<in> set (?t # map fst requests)"
      by (rule last_in_set) simp
    ultimately show "last (?t # map fst requests) \<le> now" by blast
  qed
  have inv: "limiter_inv opt (last (?t # map fst requests)) (passed, seen)"
    using limiter_run_inv [OF start_inv times(1), of opt] assms(2) by simp
  show ?thesis
  proof (cases rule: take_key_cases [of opt now key seen])
    case (refused e)
    then have "(key, e) \<in> set seen" by (auto dest: map_of_SomeD)
    then have "leCount e \<le> passed_since key (leResetAt e - liWindowMs opt) passed"
      using inv by (auto simp: limiter_inv_def)
    also have "\<dots> \<le> passed_since key (now - liWindowMs opt + 1) passed"
      using refused(2) by (intro passed_since_mono) simp
    finally show ?thesis using refused inv by (auto simp: limiter_inv_def)
  qed (use inv in \<open>auto simp: limiter_inv_def\<close>)
qed

definition demo_limits :: IdentifierLimitOptions where
  "demo_limits = \<lparr>liMax = 2, liWindowMs = 100, liMaxEntries = 3\<rparr>"

theorem refusals_are_deserved_and_end_witness:
  "let s = limiter_run demo_limits [(0, ''a''), (10, ''b''), (20, ''a''), (30, ''a'')] ([], []) in
     \<not> fst (take_key demo_limits 40 ''a'' (snd s)) \<and> 2 \<le> passed_since ''a'' (- 59) (fst s)
   \<and> fst (take_key demo_limits 101 ''a'' (snd s))"
proof -
  let ?s = "limiter_run demo_limits [(0, ''a''), (10, ''b''), (20, ''a''), (30, ''a'')] ([], [])"
  have "sorted (map fst [(0 :: int, ''a''), (10, ''b''), (20, ''a''), (30, ''a'')] @ [40])" by simp
  moreover have "\<not> fst (take_key demo_limits 40 ''a'' (snd ?s))" "fst (take_key demo_limits 101 ''a'' (snd ?s))"
    by code_simp+
  moreover have "?s = (fst ?s, snd ?s)" by simp
  ultimately show ?thesis
    using refusals_are_deserved_and_end [of "[(0, ''a''), (10, ''b''), (20, ''a''), (30, ''a'')]" 40 demo_limits
        "fst ?s" "snd ?s" "''a''"]
    by (simp add: Let_def demo_limits_def)
qed

section \<open>The allowance\<close>

definition counted :: "int \<Rightarrow> IdentifierLimitOptions \<Rightarrow> (int \<times> 'k) list \<times> 'k limit_map \<Rightarrow> bool" where
  "counted t0 opt s \<longleftrightarrow>
     distinct (map fst (snd s))
     \<and> (\<forall>k. passed_since k t0 (fst s) = (case map_of (snd s) k of None \<Rightarrow> 0 | Some e \<Rightarrow> leCount e))
     \<and> (\<forall>(k, e) \<in> set (snd s). t0 + liWindowMs opt \<le> leResetAt e \<and> leCount e \<le> liMax opt)"

lemma map_of_map_set: "map_of (map_set k v m) k' = (if k' = k then Some v else map_of m k')"
proof (cases "k \<in> fst ` set m")
  case True
  then obtain w where w: "map_of m k = Some w"
    by (cases "map_of m k") (simp_all add: map_of_eq_None_iff)
  have "map_of (map (\<lambda>(a, b). (a, if a = k then v else b)) m) x =
      map_option (\<lambda>b. if x = k then v else b) (map_of m x)" for x
    by (induction m) (simp_all add: case_prod_unfold)
  with True w show ?thesis by (simp add: map_set_def option.map_ident)
next
  case False
  then have "map_of m k = None" by (simp add: map_of_eq_None_iff)
  with False show ?thesis by (simp add: map_set_def map_add_def split: option.split)
qed

lemma take_key_counted:
  assumes inv: "counted t0 opt (passed, seen)" and now: "t0 \<le> now" "now < t0 + liWindowMs opt"
    and room: "key \<notin> fst ` set seen \<longrightarrow> length seen < liMaxEntries opt" and one: "1 \<le> liMax opt"
    and run: "take_key opt now key seen = (ok, seen')"
  shows "counted t0 opt (if ok then (now, key) # passed else passed, seen')
    \<and> fst ` set seen' = insert key (fst ` set seen)"
proof (cases rule: take_key_cases [of opt now key seen])
  case fresh
  have "key \<notin> fst ` set seen"
  proof
    assume "key \<in> fst ` set seen"
    then obtain e where "map_of seen key = Some e" by (cases "map_of seen key") (auto simp: map_of_eq_None_iff)
    with fresh(2) [OF this] inv now show False by (auto simp: counted_def dest!: map_of_SomeD)
  qed
  moreover from this room have "make_room opt now seen = seen" "map_of seen key = None"
    by (simp_all add: make_room_def map_of_eq_None_iff)
  ultimately show ?thesis
    using fresh(1) run inv now one
    by (auto simp: counted_def map_of_map_set passed_since_Cons map_set_keys
        dest!: map_set_mem intro: map_set_distinct)
next
  case (again e)
  then have mem: "(key, e) \<in> set seen" by (auto dest: map_of_SomeD)
  then have "fst ` set seen = insert key (fst ` set seen)" by force
  then show ?thesis
    using again run inv now mem
    by (auto simp: counted_def map_of_map_set passed_since_Cons map_set_keys
        dest!: map_set_mem intro: map_set_distinct split: option.splits)
next
  case (refused e)
  with run inv show ?thesis by (force dest: map_of_SomeD)
qed

lemma run_counted:
  assumes "counted t0 opt (passed, seen)" "\<forall>(t, k) \<in> set requests. t0 \<le> t \<and> t < t0 + liWindowMs opt"
    and "card (fst ` set seen \<union> snd ` set requests) \<le> liMaxEntries opt" "1 \<le> liMax opt"
  shows "counted t0 opt (limiter_run opt requests (passed, seen))"
  using assms
proof (induction opt requests "(passed, seen)" arbitrary: passed seen rule: limiter_run.induct)
  case (2 opt now key requests passed seen)
  obtain ok seen' where run: "take_key opt now key seen = (ok, seen')" by force
  have len: "length seen = card (fst ` set seen)"
    using 2(3) by (metis counted_def distinct_card length_map list.set_map snd_conv)
  have "card (insert key (fst ` set seen)) \<le> liMaxEntries opt"
    by (rule le_trans [OF card_mono 2(5)]) auto
  then have room: "key \<notin> fst ` set seen \<longrightarrow> length seen < liMaxEntries opt"
    using len by (auto simp: card_insert_if)
  have now: "t0 \<le> now" "now < t0 + liWindowMs opt" using 2(4) by auto
  note step = take_key_counted [OF 2(3) now room 2(6) run]
  have "card (fst ` set seen' \<union> snd ` set requests) \<le> liMaxEntries opt"
    using 2(5) step by simp
  with 2(1,2) [OF run [symmetric]] 2(4,6) step run show ?case
    by (cases ok) auto
qed simp

text \<open>Within one window an address is let through at most its allowance - five links a minute as
  configured - as long as no more addresses are named in it than the table holds.\<close>

theorem allowance_is_kept:
  assumes "\<forall>(t, k) \<in> set requests. t0 \<le> t \<and> t < t0 + liWindowMs opt"
    and "card (snd ` set requests) \<le> liMaxEntries opt" "1 \<le> liMax opt"
  shows "passed_since key t0 (fst (limiter_run opt requests ([], []))) \<le> liMax opt"
proof -
  have "counted t0 opt (limiter_run opt requests ([], []))"
    by (rule run_counted) (use assms in \<open>auto simp: counted_def passed_since_def\<close>)
  then show ?thesis
    by (auto simp: counted_def split: option.splits dest: map_of_SomeD)
qed

theorem allowance_is_kept_witness:
  "passed_since ''a'' 0 (fst (limiter_run demo_limits [(0, ''a''), (1, ''a''), (2, ''b''), (3, ''a'')] ([], []))) \<le> 2"
proof -
  have "\<forall>(t, k) \<in> set [(0, ''a''), (1, ''a''), (2, ''b''), (3 :: int, ''a'')]. 0 \<le> t \<and> t < 0 + liWindowMs demo_limits"
    "card (snd ` set [(0, ''a''), (1, ''a''), (2, ''b''), (3 :: int, ''a'')]) \<le> liMaxEntries demo_limits"
    "1 \<le> liMax demo_limits"
    by (simp_all add: demo_limits_def card_insert_if)
  from allowance_is_kept [OF this, of "''a''"] show ?thesis
    by (simp only: demo_limits_def IdentifierLimitOptions.simps)
qed

text \<open>Renewing an expired entry keeps its place in the map, so when the map is full the entry that makes
  room can be the one renewed last.\<close>

lemma renewed_entry_is_dropped_first:
  "snd (limiter_run demo_limits [(0, ''a''), (90, ''b''), (100, ''a''), (110, ''c''), (120, ''d'')] ([], [])) =
     [(''b'', \<lparr>leCount = 1, leResetAt = 190\<rparr>), (''c'', \<lparr>leCount = 1, leResetAt = 210\<rparr>),
      (''d'', \<lparr>leCount = 1, leResetAt = 220\<rparr>)]"
  by code_simp

end
