(* ===== verification/PriceRules.thy ===== *)
theory PriceRules
  imports JsNumber "HOL-Library.Multiset"
begin

text \<open>
  The price index's arithmetic (\<open>packages/core/src/pricing.ts\<close>): the trim, interpolated
  percentiles in doubles, the summary of a day, outliers and the weights of the sources.
\<close>

section \<open>The rules\<close>

definition MIN_OBSERVATIONS :: nat where "MIN_OBSERVATIONS = 3"
definition TRIM_FRACTION :: rat where "TRIM_FRACTION = dbl (1 / 10)"

datatype price_error = NotInteger jsnum | Negative jsnum | PriceRangeError

record PriceSummary =
  psMedianCents :: int
  psP25Cents :: int
  psP75Cents :: int
  psCount :: nat
  psTrimmedCount :: nat
  psLowCents :: int
  psHighCents :: int

text \<open>A trim fraction is not negative.\<close>

definition trimCount :: "nat \<Rightarrow> rat \<Rightarrow> nat" where
  "trimCount n fraction =
     (if n \<le> 2 then 0 else min (nat \<lfloor>dbl (of_nat n * fraction)\<rfloor>) ((n - 1) div 2))"

definition at_index :: "'a list \<Rightarrow> int \<Rightarrow> 'a option" where
  "at_index xs i = (if 0 \<le> i \<and> i < int (length xs) then Some (xs ! nat i) else None)"

definition percentileCents :: "int list \<Rightarrow> rat \<Rightarrow> price_error + int" where
  "percentileCents sorted_cents p =
     (if sorted_cents = [] then Inl PriceRangeError
      else if p < 0 \<or> p > 1 then Inl PriceRangeError
      else if length sorted_cents = 1 then Inr (hd sorted_cents)
      else
        let position = dbl (of_nat (length sorted_cents - 1) * p);
            lower = \<lfloor>position\<rfloor>; upper = \<lceil>position\<rceil>
        in case (at_index sorted_cents lower, at_index sorted_cents upper) of
             (Some low, Some high) \<Rightarrow>
               if lower = upper then Inr low
               else Inr (math_round (dbl (of_int low
                      + dbl (dbl (of_int (high - low)) * dbl (position - of_int lower)))))
           | _ \<Rightarrow> Inl PriceRangeError)"

fun check_prices :: "jsnum list \<Rightarrow> price_error option" where
  "check_prices [] = None"
| "check_prices (x # xs) =
     (if \<not> is_integer x then Some (NotInteger x)
      else if js_less x (int_num 0) then Some (Negative x)
      else check_prices xs)"

definition keep_middle :: "nat \<Rightarrow> 'a list \<Rightarrow> 'a list" where
  "keep_middle d xs = (if d = 0 then xs else take (length xs - d - d) (drop d xs))"

definition summarisePrices ::
  "jsnum list \<Rightarrow> nat \<Rightarrow> rat \<Rightarrow> price_error + PriceSummary option" where
  "summarisePrices observations minObservations fraction =
     (case check_prices observations of
        Some e \<Rightarrow> Inl e
      | None \<Rightarrow>
          let cnt = length observations in
          if cnt < minObservations then Inr None
          else
            let sorted_cents = sort (map to_int observations);
                d = trimCount cnt fraction;
                kept = keep_middle d sorted_cents
            in if sorted_cents = [] then Inl PriceRangeError
               else case (percentileCents kept (1/2), percentileCents kept (1/4),
                          percentileCents kept (3/4)) of
                 (Inr median, Inr p25, Inr p75) \<Rightarrow>
                   Inr (Some \<lparr>psMedianCents = median, psP25Cents = p25, psP75Cents = p75, psCount = cnt,
                              psTrimmedCount = d * 2, psLowCents = hd sorted_cents,
                              psHighCents = last sorted_cents\<rparr>)
               | (Inl e, _, _) \<Rightarrow> Inl e
               | (_, Inl e, _) \<Rightarrow> Inl e
               | (_, _, Inl e) \<Rightarrow> Inl e)"

definition isOutlier :: "int \<Rightarrow> int \<Rightarrow> int \<Rightarrow> int \<Rightarrow> bool" where
  "isOutlier cents p25 p75 multiplier =
     (let iqr = p75 - p25 in
      if iqr = 0 then cents < p25 \<or> cents > p75
      else cents < p25 - multiplier * iqr \<or> cents > p75 + multiplier * iqr)"

datatype PriceSourceKind = Break_pull | Live_sale | Ebay_api | Walmart_api | User_report

fun SOURCE_WEIGHTS :: "PriceSourceKind \<Rightarrow> nat" where
  "SOURCE_WEIGHTS Break_pull = 3"
| "SOURCE_WEIGHTS Live_sale = 3"
| "SOURCE_WEIGHTS Ebay_api = 2"
| "SOURCE_WEIGHTS Walmart_api = 2"
| "SOURCE_WEIGHTS User_report = 1"

definition applySourceWeights :: "(int \<times> PriceSourceKind) list \<Rightarrow> int list" where
  "applySourceWeights observations =
     concat (map (\<lambda>(cents, source). replicate (SOURCE_WEIGHTS source) cents) observations)"

section \<open>Percentiles stay in order\<close>

lemma dbl_int: "\<bar>i\<bar> \<le> 2 ^ 53 \<Longrightarrow> dbl (of_int i) = of_int i"
  by (rule js.rnd_int)

lemma dbl_nat: "n \<le> 2 ^ 53 \<Longrightarrow> dbl (of_nat n) = of_nat n"
  using dbl_int [of "int n"] by simp

text \<open>What the interpolation makes of a position between 0 and the last index.\<close>

definition interpolated :: "int list \<Rightarrow> rat \<Rightarrow> int" where
  "interpolated s x =
     (let low = s ! nat \<lfloor>x\<rfloor>; high = s ! nat \<lceil>x\<rceil>
      in if \<lfloor>x\<rfloor> = \<lceil>x\<rceil> then low
         else math_round (dbl (of_int low + dbl (dbl (of_int (high - low)) * dbl (x - of_int \<lfloor>x\<rfloor>)))))"

definition cents_ok :: "int list \<Rightarrow> bool" where
  "cents_ok s \<longleftrightarrow> sorted s \<and> (\<forall>c \<in> set s. 0 \<le> c \<and> c \<le> 2 ^ 52)"

lemma cents_ok_nth:
  "cents_ok s \<Longrightarrow> i \<le> j \<Longrightarrow> j < length s \<Longrightarrow> s ! i \<le> s ! j \<and> 0 \<le> s ! i \<and> s ! j \<le> 2 ^ 52"
  by (auto simp: cents_ok_def sorted_iff_nth_mono)

lemma math_round_mono: "x \<le> y \<Longrightarrow> math_round x \<le> math_round y"
  by (simp add: math_round_def floor_mono)

lemma math_round_int [simp]: "math_round (of_int i) = i"
  by (simp add: math_round_def floor_eq_iff)

text \<open>Between two neighbours the result is between them, and grows with the position.\<close>

lemma step_bounds:
  assumes "0 \<le> low" "low \<le> high" "high \<le> 2 ^ 52" "0 \<le> f" "f \<le> (1 :: rat)"
  shows "low \<le> math_round (dbl (of_int low + dbl (dbl (of_int (high - low)) * f)))"
    "math_round (dbl (of_int low + dbl (dbl (of_int (high - low)) * f))) \<le> high"
proof -
  let ?d = "of_int (high - low) :: rat"
  have d: "dbl ?d = ?d" by (rule dbl_int) (use assms in auto)
  have d0: "0 \<le> ?d" using assms(2) by simp
  have "?d * f \<le> ?d * 1" by (rule mult_left_mono) (use assms d0 in auto)
  then have "dbl (?d * f) \<le> dbl ?d" by (intro js.rnd_mono) simp
  then have up: "of_int low + dbl (?d * f) \<le> of_int high" using d by simp
  have "0 \<le> dbl (?d * f)" using assms d0 by (intro js.rnd_nonneg) simp
  then have lo: "of_int low \<le> of_int low + dbl (?d * f)" by simp
  have "dbl (of_int low) = of_int low" "dbl (of_int high) = of_int high"
    by (rule dbl_int; use assms in auto)+
  then have "of_int low \<le> dbl (of_int low + dbl (dbl ?d * f))" "dbl (of_int low + dbl (dbl ?d * f)) \<le> of_int high"
    using js.rnd_mono [OF lo] js.rnd_mono [OF up] d by simp_all
  then show "low \<le> math_round (dbl (of_int low + dbl (dbl ?d * f)))"
    "math_round (dbl (of_int low + dbl (dbl ?d * f))) \<le> high"
    using math_round_mono math_round_int by metis+
qed

lemma step_mono:
  assumes "low \<le> high" "high - low \<le> 2 ^ 52" "f \<le> (g :: rat)"
  shows "math_round (dbl (of_int low + dbl (dbl (of_int (high - low)) * f)))
    \<le> math_round (dbl (of_int low + dbl (dbl (of_int (high - low)) * g)))"
proof -
  have "dbl (of_int (high - low)) = of_int (high - low)"
    by (rule dbl_int) (use assms in auto)
  then have "dbl (of_int (high - low)) * f \<le> dbl (of_int (high - low)) * g"
    using assms by (intro mult_left_mono) simp_all
  then show ?thesis
    by (intro math_round_mono js.rnd_mono add_left_mono)
qed

lemma fraction_bounds: "0 \<le> dbl (x - of_int \<lfloor>x\<rfloor>)" "dbl (x - of_int \<lfloor>x\<rfloor>) \<le> 1"
proof -
  show "0 \<le> dbl (x - of_int \<lfloor>x\<rfloor>)" by (rule js.rnd_nonneg) simp
  have "x - of_int \<lfloor>x\<rfloor> \<le> 1" using floor_correct [of x] by linarith
  then have "dbl (x - of_int \<lfloor>x\<rfloor>) \<le> dbl 1" by (rule js.rnd_mono)
  then show "dbl (x - of_int \<lfloor>x\<rfloor>) \<le> 1" using dbl_int [of 1] by simp
qed

lemma position_indices:
  assumes "0 \<le> x" "x \<le> of_nat (length s - 1)" "s \<noteq> []"
  shows "nat \<lfloor>x\<rfloor> \<le> nat \<lceil>x\<rceil>" "nat \<lceil>x\<rceil> < length s" "0 \<le> \<lfloor>x\<rfloor>" "\<lceil>x\<rceil> < int (length s)"
proof -
  show "nat \<lfloor>x\<rfloor> \<le> nat \<lceil>x\<rceil>" by (intro nat_mono floor_le_ceiling)
  have "\<lceil>x\<rceil> \<le> int (length s - 1)" using assms(2) by (simp add: ceiling_le_iff)
  then show "\<lceil>x\<rceil> < int (length s)" using assms(3) by (cases s) auto
  moreover show f: "0 \<le> \<lfloor>x\<rfloor>" using assms(1) by simp
  moreover have "\<lfloor>x\<rfloor> \<le> \<lceil>x\<rceil>" by (rule floor_le_ceiling)
  ultimately show "nat \<lceil>x\<rceil> < length s" by (simp add: nat_less_iff)
qed

lemma interpolated_bounds:
  assumes "cents_ok s" "0 \<le> x" "x \<le> of_nat (length s - 1)" "s \<noteq> []"
  shows "s ! nat \<lfloor>x\<rfloor> \<le> interpolated s x" "interpolated s x \<le> s ! nat \<lceil>x\<rceil>"
proof -
  note p = position_indices [OF assms(2-4)]
  have b: "s ! nat \<lfloor>x\<rfloor> \<le> s ! nat \<lceil>x\<rceil>" "0 \<le> s ! nat \<lfloor>x\<rfloor>" "s ! nat \<lceil>x\<rceil> \<le> 2 ^ 52"
    using cents_ok_nth [OF assms(1) p(1,2)] by auto
  show "s ! nat \<lfloor>x\<rfloor> \<le> interpolated s x" "interpolated s x \<le> s ! nat \<lceil>x\<rceil>"
    using step_bounds [OF b(2,1,3) fraction_bounds] b(1) by (simp_all add: interpolated_def Let_def)
qed

lemma interpolated_mono:
  assumes "cents_ok s" "0 \<le> x" "x \<le> y" "y \<le> of_nat (length s - 1)" "s \<noteq> []"
  shows "interpolated s x \<le> interpolated s y"
proof (cases "\<lfloor>x\<rfloor> = \<lfloor>y\<rfloor> \<and> \<lceil>x\<rceil> = \<lceil>y\<rceil>")
  case True
  have x: "x \<le> of_nat (length s - 1)" and y: "0 \<le> y" using assms by auto
  note p = position_indices [OF assms(2) x assms(5)]
  have "s ! nat \<lfloor>x\<rfloor> \<le> s ! nat \<lceil>x\<rceil>" "s ! nat \<lceil>x\<rceil> - s ! nat \<lfloor>x\<rfloor> \<le> 2 ^ 52"
    using cents_ok_nth [OF assms(1) p(1,2)] by auto
  moreover have "dbl (x - of_int \<lfloor>x\<rfloor>) \<le> dbl (y - of_int \<lfloor>x\<rfloor>)"
    using assms(3) by (intro js.rnd_mono) simp
  ultimately show ?thesis
    using True step_mono by (auto simp: interpolated_def Let_def)
next
  case False
  have "\<lceil>x\<rceil> \<le> \<lfloor>y\<rfloor>"
  proof -
    have "\<lfloor>x\<rfloor> \<le> \<lfloor>y\<rfloor>" "\<lceil>x\<rceil> \<le> \<lceil>y\<rceil>" using assms(3) by (auto intro: floor_mono ceiling_mono)
    then show ?thesis
      using False ceiling_altdef [of x] ceiling_altdef [of y] by (auto split: if_splits)
  qed
  have y: "0 \<le> y" and x: "x \<le> of_nat (length s - 1)" using assms by auto
  have "interpolated s x \<le> s ! nat \<lceil>x\<rceil>"
    by (rule interpolated_bounds) (use assms x in auto)
  also have "\<dots> \<le> s ! nat \<lfloor>y\<rfloor>"
    using cents_ok_nth [OF assms(1), of "nat \<lceil>x\<rceil>" "nat \<lfloor>y\<rfloor>"] \<open>\<lceil>x\<rceil> \<le> \<lfloor>y\<rfloor>\<close>
      position_indices [OF y assms(4,5)] by (auto intro: nat_mono)
  also have "\<dots> \<le> interpolated s y"
    by (rule interpolated_bounds) (use assms y in auto)
  finally show ?thesis .
qed

section \<open>The summary\<close>

lemma position_bounds:
  assumes "s \<noteq> []" "length s \<le> 2 ^ 53" "0 \<le> p" "p \<le> (1 :: rat)"
  shows "0 \<le> dbl (of_nat (length s - 1) * p)" "dbl (of_nat (length s - 1) * p) \<le> of_nat (length s - 1)"
proof -
  show "0 \<le> dbl (of_nat (length s - 1) * p)" using assms by (intro js.rnd_nonneg) simp
  have "of_nat (length s - 1) * p \<le> of_nat (length s - 1) * (1 :: rat)"
    by (rule mult_left_mono) (use assms in auto)
  then have "dbl (of_nat (length s - 1) * p) \<le> dbl (of_nat (length s - 1))"
    by (intro js.rnd_mono) simp
  then show "dbl (of_nat (length s - 1) * p) \<le> of_nat (length s - 1)"
    using dbl_nat [of "length s - 1"] assms(2) by simp
qed

lemma percentile_interpolates:
  assumes "s \<noteq> []" "length s \<le> 2 ^ 53" "0 \<le> p" "p \<le> 1"
  shows "percentileCents s p = Inr (interpolated s (dbl (of_nat (length s - 1) * p)))"
proof -
  let ?x = "dbl (of_nat (length s - 1) * p)"
  note b = position_bounds [OF assms]
  note i = position_indices [OF b assms(1)]
  have "at_index s \<lfloor>?x\<rfloor> = Some (s ! nat \<lfloor>?x\<rfloor>)" "at_index s \<lceil>?x\<rceil> = Some (s ! nat \<lceil>?x\<rceil>)"
    using i floor_le_ceiling [of ?x] by (auto simp: at_index_def)
  then show ?thesis
    using assms by (cases s) (auto simp: percentileCents_def interpolated_def Let_def js.rnd_zero)
qed

lemma interpolated_in_range:
  assumes "cents_ok s" "s \<noteq> []" "length s \<le> 2 ^ 53" "0 \<le> p" "p \<le> 1"
  shows "hd s \<le> interpolated s (dbl (of_nat (length s - 1) * p))"
    "interpolated s (dbl (of_nat (length s - 1) * p)) \<le> last s"
proof -
  let ?x = "dbl (of_nat (length s - 1) * p)"
  note b = position_bounds [OF assms(2-5)]
  note i = position_indices [OF b assms(2)] and bounds = interpolated_bounds [OF assms(1) b assms(2)]
  have "hd s \<le> s ! nat \<lfloor>?x\<rfloor>" "s ! nat \<lceil>?x\<rceil> \<le> last s"
    using cents_ok_nth [OF assms(1), of 0 "nat \<lfloor>?x\<rfloor>"] cents_ok_nth [OF assms(1), of "nat \<lceil>?x\<rceil>" "length s - 1"]
      i assms(2) by (auto simp: hd_conv_nth last_conv_nth)
  with bounds show "hd s \<le> interpolated s ?x" "interpolated s ?x \<le> last s" by linarith+
qed

lemma keep_middle_length: "length (keep_middle d s) = length s - d - d"
  by (auto simp: keep_middle_def)

lemma keep_middle_nth:
  "i < length s - d - d \<Longrightarrow> keep_middle d s ! i = s ! (d + i)"
  by (auto simp: keep_middle_def)

lemma trim_leaves_some: "s \<noteq> [] \<Longrightarrow> 2 * trimCount (length s) f < length s"
  by (cases s) (auto simp: trimCount_def Let_def)

lemma keep_middle_ok: "cents_ok s \<Longrightarrow> cents_ok (keep_middle d s)"
  by (auto simp: cents_ok_def keep_middle_def intro: sorted_wrt_take sorted_wrt_drop
      dest: in_set_takeD in_set_dropD)

lemma check_prices_ints: "\<forall>c \<in> set cs. 0 \<le> c \<Longrightarrow> check_prices (map int_num cs) = None"
  by (induction cs) (auto simp: not_less)

lemma to_int_ints [simp]: "map (to_int \<circ> int_num) cs = cs"
  by (simp add: comp_def)

text \<open>A summary of whole prices, in terms of the kept ones.\<close>

lemma summary_of_ints:
  fixes f :: rat
  assumes "\<forall>c \<in> set cs. 0 \<le> c \<and> c \<le> 2 ^ 52" "cs \<noteq> []" "mn \<le> length cs" "length cs \<le> 2 ^ 53"
  defines "s \<equiv> sort cs" and "d \<equiv> trimCount (length cs) f"
  defines "kept \<equiv> keep_middle d s"
  shows "summarisePrices (map int_num cs) mn f =
      Inr (Some \<lparr>psMedianCents = interpolated kept (dbl (of_nat (length kept - 1) * (1/2))),
                 psP25Cents = interpolated kept (dbl (of_nat (length kept - 1) * (1/4))),
                 psP75Cents = interpolated kept (dbl (of_nat (length kept - 1) * (3/4))),
                 psCount = length cs, psTrimmedCount = d * 2, psLowCents = hd s, psHighCents = last s\<rparr>)"
    "cents_ok s" "s \<noteq> []" "cents_ok kept" "kept \<noteq> []" "length kept \<le> 2 ^ 53"
proof -
  show s: "cents_ok s" "s \<noteq> []"
    using assms(1,2) set_empty [of "sort cs"] by (auto simp: cents_ok_def s_def simp del: set_empty)
  show kept: "cents_ok kept" unfolding kept_def by (rule keep_middle_ok [OF s(1)])
  have len: "length s = length cs" by (simp add: s_def)
  have "2 * d < length s" using trim_leaves_some [of cs f] assms(2) len by (simp add: d_def)
  then have "0 < length kept" by (simp add: kept_def keep_middle_length)
  then show ne: "kept \<noteq> []" by auto
  show small: "length kept \<le> 2 ^ 53" using assms(4) len by (simp add: kept_def keep_middle_length)
  have "check_prices (map int_num cs) = None" by (rule check_prices_ints) (use assms(1) in auto)
  then show "summarisePrices (map int_num cs) mn f =
      Inr (Some \<lparr>psMedianCents = interpolated kept (dbl (of_nat (length kept - 1) * (1/2))),
                 psP25Cents = interpolated kept (dbl (of_nat (length kept - 1) * (1/4))),
                 psP75Cents = interpolated kept (dbl (of_nat (length kept - 1) * (3/4))),
                 psCount = length cs, psTrimmedCount = d * 2, psLowCents = hd s, psHighCents = last s\<rparr>)"
    using s(2) assms(3) percentile_interpolates [OF ne small]
    by (simp add: summarisePrices_def Let_def flip: s_def d_def kept_def)
qed

text \<open>Every kept price has at least \<open>d\<close> others at or below it and \<open>d\<close> at or above.\<close>

lemma kept_between:
  assumes "sorted s" "x \<in> set (keep_middle d s)"
  shows "d < length (filter (\<lambda>c. c \<le> x) s)" "d < length (filter (\<lambda>c. x \<le> c) s)"
proof -
  from assms(2) obtain i where i: "i < length s - d - d" "x = s ! (d + i)"
    by (auto simp: in_set_conv_nth keep_middle_length keep_middle_nth)
  have below: "{..d + i} \<subseteq> {j. j < length s \<and> s ! j \<le> x}"
    and above: "{d + i..<length s} \<subseteq> {j. j < length s \<and> x \<le> s ! j}"
    using assms(1) i by (auto simp: sorted_iff_nth_mono)
  have "card {..d + i} \<le> length (filter (\<lambda>c. c \<le> x) s)"
    unfolding length_filter_conv_card by (rule card_mono [OF _ below]) simp
  then show "d < length (filter (\<lambda>c. c \<le> x) s)" by simp
  have "card {d + i..<length s} \<le> length (filter (\<lambda>c. x \<le> c) s)"
    unfolding length_filter_conv_card by (rule card_mono [OF _ above]) simp
  then show "d < length (filter (\<lambda>c. x \<le> c) s)" using i by simp
qed

lemma keep_middle_subset: "set (keep_middle d s) \<subseteq> set s"
  by (auto simp: keep_middle_def dest: in_set_takeD in_set_dropD)

lemma sorted_ends: "sorted s \<Longrightarrow> x \<in> set s \<Longrightarrow> hd s \<le> x \<and> x \<le> last s"
  by (induction s) (auto simp: order_trans)

text \<open>The published figures of a summary are in order, and its ends are the lowest and highest price.\<close>

lemma summary_ordered:
  fixes f :: rat
  assumes "\<forall>c \<in> set cs. 0 \<le> c \<and> c \<le> 2 ^ 52" "cs \<noteq> []" "mn \<le> length cs" "length cs \<le> 2 ^ 53"
  defines "kept \<equiv> keep_middle (trimCount (length cs) f) (sort cs)"
  shows "\<exists>r. summarisePrices (map int_num cs) mn f = Inr (Some r)
    \<and> psLowCents r = hd (sort cs) \<and> psHighCents r = last (sort cs)
    \<and> psLowCents r \<le> psP25Cents r \<and> psP25Cents r \<le> psMedianCents r
    \<and> psMedianCents r \<le> psP75Cents r \<and> psP75Cents r \<le> psHighCents r
    \<and> hd kept \<le> psP25Cents r \<and> psP75Cents r \<le> last kept"
proof -
  note S = summary_of_ints (1) [OF assms(1-4), of f, folded kept_def]
    summary_of_ints (2,3) [OF assms(1-4)]
    summary_of_ints (4,5,6) [OF assms(1-4), of f, folded kept_def]
  let ?at = "\<lambda>p. interpolated kept (dbl (of_nat (length kept - 1) * p))"
  have at_mono: "?at p \<le> ?at q" if "0 \<le> p" "p \<le> q" "q \<le> 1" for p q
  proof (rule interpolated_mono [OF S(4)])
    show "dbl (of_nat (length kept - 1) * p) \<le> dbl (of_nat (length kept - 1) * q)"
      using that by (intro js.rnd_mono mult_left_mono) auto
  qed (use that position_bounds [OF S(5,6)] S(5) in auto)
  have sub: "set kept \<subseteq> set (sort cs)"
    unfolding kept_def by (rule keep_middle_subset)
  have ends: "hd kept \<in> set kept" "last kept \<in> set kept" using S(5) by auto
  then have low: "hd (sort cs) \<le> hd kept" and high: "last kept \<le> last (sort cs)"
    using sorted_ends [OF sorted_sort] sub by auto
  have "hd kept \<le> ?at (1/4)" "?at (3/4) \<le> last kept"
    by (rule interpolated_in_range [OF S(4-6)]; simp)+
  then show ?thesis
    using S(1) low high at_mono [of "1/4" "1/2"] at_mono [of "1/2" "3/4"] by auto
qed

text \<open>C23: A summary of whole prices exists and is in order: the lowest price is at most the 25th
  percentile, that at most the median, that at most the 75th, that at most the highest - although
  the interpolation is done in doubles. And it withstands outliers: when at most as many of the
  prices are false as the trim takes from each end, all three published figures stay between the
  lowest and the highest of the true ones, whatever the false ones are.\<close>

theorem summary_is_ordered_and_robust:
  assumes "\<forall>c \<in> set (true_prices @ false_prices). 0 \<le> c \<and> c \<le> 2 ^ 52" "true_prices \<noteq> []"
    and "mset cs = mset (true_prices @ false_prices)" "mn \<le> length cs" "length cs \<le> 2 ^ 53"
    and "length false_prices \<le> trimCount (length cs) f"
  shows "\<exists>r. summarisePrices (map int_num cs) mn f = Inr (Some r)
    \<and> psLowCents r \<le> psP25Cents r \<and> psP25Cents r \<le> psMedianCents r
    \<and> psMedianCents r \<le> psP75Cents r \<and> psP75Cents r \<le> psHighCents r
    \<and> Min (set true_prices) \<le> psP25Cents r \<and> psP75Cents r \<le> Max (set true_prices)"
proof -
  have sets: "set cs = set (true_prices @ false_prices)"
    using assms(3) by (metis mset_eq_setD)
  have cs: "\<forall>c \<in> set cs. 0 \<le> c \<and> c \<le> 2 ^ 52" "cs \<noteq> []"
    using assms(1,2) sets by auto
  define s d where "s = sort cs" and "d = trimCount (length cs) f"
  define kept where "kept = keep_middle d s"
  have ne: "kept \<noteq> []"
    using summary_of_ints (5) [OF cs assms(4,5), of f] by (simp add: kept_def d_def s_def)
  have counts: "length (filter P s) = length (filter P true_prices) + length (filter P false_prices)" for P
  proof -
    have "mset s = mset (true_prices @ false_prices)" using assms(3) by (simp add: s_def)
    then have "size (filter_mset P (mset s)) = size (filter_mset P (mset (true_prices @ false_prices)))" by simp
    then show ?thesis by (simp flip: mset_filter)
  qed
  have "\<exists>t \<in> set true_prices. t \<le> x" "\<exists>t \<in> set true_prices. x \<le> t" if "x \<in> set kept" for x
  proof -
    have "sorted s" by (simp add: s_def)
    note b = kept_between [OF this that [unfolded kept_def]]
    have "length (filter P false_prices) \<le> d" for P
      unfolding d_def by (rule le_trans [OF length_filter_le assms(6)])
    then have "filter (\<lambda>c. c \<le> x) true_prices \<noteq> []" "filter (\<lambda>c. x \<le> c) true_prices \<noteq> []"
      using b unfolding counts by (metis add_0 leD list.size(3))+
    then show "\<exists>t \<in> set true_prices. t \<le> x" "\<exists>t \<in> set true_prices. x \<le> t"
      by (auto simp: filter_empty_conv)
  qed
  then have "Min (set true_prices) \<le> hd kept" "last kept \<le> Max (set true_prices)"
    using ne by (meson List.finite_set Min_le Max_ge order_trans hd_in_set last_in_set)+
  then show ?thesis
    using summary_ordered [OF cs assms(4,5), of f] by (fastforce simp: kept_def d_def s_def)
qed

theorem summary_is_ordered_and_robust_witness:
  "\<exists>r. summarisePrices (map int_num [1, 300, 400, 450, 500]) 3 (1 / 4) = Inr (Some r)
    \<and> 300 \<le> psP25Cents r \<and> psMedianCents r \<le> psP75Cents r \<and> psP75Cents r \<le> 500"
proof -
  have "dbl (of_int 5 / 2 ^ 2) = of_int 5 / 2 ^ 2"
    by (rule js.rnd_exact) simp
  then have "1 \<le> \<lfloor>dbl (5 / 4)\<rfloor>" by (simp add: le_floor_iff)
  then have trim: "length [1 :: int] \<le> trimCount (length [1 :: int, 300, 400, 450, 500]) (1 / 4)"
    by (simp add: trimCount_def le_nat_iff)
  have prices: "\<forall>c \<in> set ([300, 400, 450, 500] @ [1]). 0 \<le> c \<and> c \<le> (2 :: int) ^ 52"
    by simp
  have "mset [1, 300, 400, 450, 500 :: int] = mset ([300, 400, 450, 500] @ [1])" "[300, 400, 450, 500 :: int] \<noteq> []"
    "3 \<le> length [1, 300, 400, 450, 500 :: int]" "length [1, 300, 400, 450, 500 :: int] \<le> 2 ^ 53"
    by simp_all
  from summary_is_ordered_and_robust [OF prices this(2,1,3,4) trim] show ?thesis
    by auto
qed

end
