(* ===== verification/PriceDb.thy ===== *)
theory PriceDb
  imports PriceRules BreakDb
begin

text \<open>
  The tables behind the price index (\<open>packages/db/src/schema/pricing.ts\<close>, \<open>schema/live-sales.ts\<close>,
  migrations 0013, 0024, 0027): observations, the published index and the sales logged live, with
  their CHECKs, keys and the policies of the web tier and the worker. Days are counted from an epoch;
  a published day's text is in the order of the count.
\<close>

section \<open>Rows\<close>

datatype SaleType = SoldPrice | ListedPrice

record PriceObservation =
  poId :: string
  poCardVariantId :: string
  poSource :: PriceSourceKind
  poSaleType :: SaleType
  poCondition :: CardCondition
  poPriceCents :: int
  poCurrency :: string
  poObservedAt :: int
  poEvidenceRef :: "string option"
  poReporterId :: "string option"
  poBreakPullId :: "string option"
  poApprovedAt :: "int option"
  poRejectedAt :: "int option"
  poFlaggedAt :: "int option"
  poCreatedAt :: int

record PriceIndexRow =
  pxCardVariantId :: string
  pxCondition :: CardCondition
  pxDay :: int
  pxMedianCents :: int
  pxP25Cents :: int
  pxP75Cents :: int
  pxLowCents :: int
  pxHighCents :: int
  pxObservationCount :: int
  pxCurrency :: string
  pxComputedAt :: int

record LiveSale =
  lsId :: string
  lsSellerId :: string
  lsCardVariantId :: "string option"
  lsLabel :: "string option"
  lsCondition :: CardCondition
  lsPriceCents :: int
  lsCurrency :: string
  lsSoldAt :: int
  lsStreamRef :: "string option"
  lsBuyerHandleEncrypted :: "string option"
  lsHasBuyerHandle :: bool
  lsPriceObservationId :: "string option"
  lsCreatedAt :: int
  lsUpdatedAt :: int

text \<open>The tables, with the ones other statements write: people, variants with their card, breaks.\<close>

record price_db =
  pdUsers :: "string list"
  pdVariants :: "CardVariant list"
  pdBreaks :: break_db
  pdObservations :: "PriceObservation list"
  pdIndex :: "PriceIndexRow list"
  pdSales :: "LiveSale list"

text \<open>The database roles: a session of the web tier and the worker.\<close>

datatype role = WebUser string | WorkerRole

section \<open>Observations\<close>

text \<open>A session may only file an unapproved report of its own; the worker anything but a report.\<close>

definition observation_insert_allowed :: "role \<Rightarrow> PriceObservation \<Rightarrow> bool" where
  "observation_insert_allowed r o1 =
     (case r of
        WebUser u \<Rightarrow> poSource o1 = User_report \<and> poReporterId o1 = Some u \<and> poApprovedAt o1 = None
      | WorkerRole \<Rightarrow> poSource o1 \<noteq> User_report)"

text \<open>Only the worker decides, and never leaves a row both rejected and held.\<close>

definition observation_decision_allowed :: "PriceObservation \<Rightarrow> bool" where
  "observation_decision_allowed o1 \<longleftrightarrow> \<not> (poRejectedAt o1 \<noteq> None \<and> poFlaggedAt o1 \<noteq> None)"

definition observation_checks :: "PriceObservation \<Rightarrow> (string \<times> bool) list" where
  "observation_checks o1 =
     [(''price_observations_currency_iso'', iso_currency (poCurrency o1)),
      (''price_observations_not_both_decisions'', poApprovedAt o1 = None \<or> poRejectedAt o1 = None),
      (''price_observations_price_non_negative'', 0 \<le> poPriceCents o1),
      (''price_observations_price_sane'', poPriceCents o1 \<le> 100000000),
      (''price_observations_reporter_required'',
         poSource o1 \<noteq> User_report \<or> poReporterId o1 \<noteq> None \<or> poApprovedAt o1 \<noteq> None)]"

definition observation_unique_violation :: "PriceObservation \<Rightarrow> PriceObservation list \<Rightarrow> string option" where
  "observation_unique_violation o1 others =
     first_violated
       [(''price_observations_pkey'', poId o1 \<notin> poId ` set others),
        (''price_observations_break_pull_key'',
           poBreakPullId o1 = None \<or> poBreakPullId o1 \<notin> poBreakPullId ` set others)]"

definition observation_foreign_keys :: "PriceObservation \<Rightarrow> price_db \<Rightarrow> string option" where
  "observation_foreign_keys o1 db =
     first_violated
       [(''price_observations_card_variant_id_card_variants_id_fk'',
           poCardVariantId o1 \<in> vId ` set (pdVariants db)),
        (''price_observations_reporter_id_users_id_fk'',
           poReporterId o1 = None \<or> the (poReporterId o1) \<in> set (pdUsers db)),
        (''price_observations_break_pull_id_break_pulls_id_fk'',
           poBreakPullId o1 = None \<or> the (poBreakPullId o1) \<in> plId ` set (pullRows (pdBreaks db)))]"

definition insert_observation :: "role \<Rightarrow> PriceObservation \<Rightarrow> price_db \<Rightarrow> db_error + price_db" where
  "insert_observation r o1 db =
     (if \<not> int4 (poPriceCents o1) then Inl OutOfRange
      else if \<not> observation_insert_allowed r o1 then Inl RowSecurity
      else case first_violated (observation_checks o1) of
        Some n \<Rightarrow> Inl (CheckViolation n)
      | None \<Rightarrow>
        case observation_unique_violation o1 (pdObservations db) of
          Some n \<Rightarrow> Inl (UniqueViolation n)
        | None \<Rightarrow>
          case observation_foreign_keys o1 db of
            Some n \<Rightarrow> Inl (ForeignKeyViolation n)
          | None \<Rightarrow> Inr (db\<lparr>pdObservations := pdObservations db @ [o1]\<rparr>))"

text \<open>The decision columns of the rows that satisfy \<open>P\<close>, written by the worker.\<close>

definition decide_observations ::
  "(PriceObservation \<Rightarrow> bool) \<Rightarrow> (PriceObservation \<Rightarrow> PriceObservation) \<Rightarrow> price_db
     \<Rightarrow> db_error + nat \<times> price_db" where
  "decide_observations P f db =
     (let hit = filter P (pdObservations db) in
      if \<not> list_all (\<lambda>o1. observation_decision_allowed (f o1)) hit then Inl RowSecurity
      else case map_option fst (find (\<lambda>(n, ok). \<not> ok) (concat (map (\<lambda>o1. observation_checks (f o1)) hit))) of
        Some n \<Rightarrow> Inl (CheckViolation n)
      | None \<Rightarrow>
          Inr (length hit,
               db\<lparr>pdObservations := map (\<lambda>o1. if P o1 then f o1 else o1) (pdObservations db)\<rparr>))"

section \<open>The index\<close>

definition index_checks :: "PriceIndexRow \<Rightarrow> (string \<times> bool) list" where
  "index_checks x =
     [(''price_index_daily_min_observations'', 3 \<le> pxObservationCount x),
      (''price_index_daily_ordered'', pxP25Cents x \<le> pxMedianCents x \<and> pxMedianCents x \<le> pxP75Cents x),
      (''price_index_daily_range'', pxLowCents x \<le> pxP25Cents x \<and> pxP75Cents x \<le> pxHighCents x)]"

definition index_key :: "PriceIndexRow \<Rightarrow> string \<times> CardCondition \<times> int \<times> string" where
  "index_key x = (pxCardVariantId x, pxCondition x, pxDay x, pxCurrency x)"

definition index_int4 :: "PriceIndexRow \<Rightarrow> bool" where
  "index_int4 x \<longleftrightarrow>
     int4 (pxMedianCents x) \<and> int4 (pxP25Cents x) \<and> int4 (pxP75Cents x) \<and> int4 (pxLowCents x)
     \<and> int4 (pxHighCents x) \<and> int4 (pxObservationCount x)"

text \<open>\<open>insert ... on conflict (key) do update\<close> of every other column.\<close>

definition upsert_index :: "PriceIndexRow \<Rightarrow> price_db \<Rightarrow> db_error + price_db" where
  "upsert_index x db =
     (if \<not> index_int4 x then Inl OutOfRange
      else case first_violated (index_checks x) of
        Some n \<Rightarrow> Inl (CheckViolation n)
      | None \<Rightarrow>
          if index_key x \<in> index_key ` set (pdIndex db)
          then Inr (db\<lparr>pdIndex := map (\<lambda>y. if index_key y = index_key x then x else y) (pdIndex db)\<rparr>)
          else if pxCardVariantId x \<notin> vId ` set (pdVariants db) then
            Inl (ForeignKeyViolation ''price_index_daily_card_variant_id_card_variants_id_fk'')
          else Inr (db\<lparr>pdIndex := pdIndex db @ [x]\<rparr>))"

section \<open>Live sales\<close>

definition sale_checks :: "LiveSale \<Rightarrow> (string \<times> bool) list" where
  "sale_checks s =
     [(''live_sales_currency_iso'', iso_currency (lsCurrency s)),
      (''live_sales_handle_encrypted'',
         case lsBuyerHandleEncrypted s of None \<Rightarrow> True | Some e \<Rightarrow> starts_with ''v1:'' e),
      (''live_sales_handle_flag_matches'', lsHasBuyerHandle s = (lsBuyerHandleEncrypted s \<noteq> None)),
      (''live_sales_identified'',
         lsCardVariantId s \<noteq> None \<or> (case lsLabel s of None \<Rightarrow> False | Some l \<Rightarrow> not_blank l)),
      (''live_sales_price_non_negative'', 0 \<le> lsPriceCents s),
      (''live_sales_price_sane'', lsPriceCents s \<le> 100000000),
      (''live_sales_stream_ref_https'', https_url (lsStreamRef s))]"

definition insert_sale :: "string \<Rightarrow> LiveSale \<Rightarrow> price_db \<Rightarrow> db_error + price_db" where
  "insert_sale u s db =
     (if \<not> int4 (lsPriceCents s) then Inl OutOfRange
      else if lsSellerId s \<noteq> u then Inl RowSecurity
      else case first_violated (sale_checks s) of
        Some n \<Rightarrow> Inl (CheckViolation n)
      | None \<Rightarrow>
          if lsId s \<in> lsId ` set (pdSales db) then Inl (UniqueViolation ''live_sales_pkey'')
          else if lsPriceObservationId s \<noteq> None
               \<and> lsPriceObservationId s \<in> lsPriceObservationId ` set (pdSales db) then
            Inl (UniqueViolation ''live_sales_price_observation_id_unique'')
          else if lsSellerId s \<notin> set (pdUsers db) then
            Inl (ForeignKeyViolation ''live_sales_seller_id_users_id_fk'')
          else if lsCardVariantId s \<noteq> None \<and> the (lsCardVariantId s) \<notin> vId ` set (pdVariants db) then
            Inl (ForeignKeyViolation ''live_sales_card_variant_id_card_variants_id_fk'')
          else Inr (db\<lparr>pdSales := pdSales db @ [s]\<rparr>))"

text \<open>A seller deletes their own entry, before it has been ingested.\<close>

definition sale_deletable :: "string \<Rightarrow> LiveSale \<Rightarrow> bool" where
  "sale_deletable u s \<longleftrightarrow> lsSellerId s = u \<and> lsPriceObservationId s = None"

end
