(* ===== verification/PriceStore.thy ===== *)
theory PriceStore
  imports PriceDb
begin

text \<open>
  The price index's statements (\<open>packages/db/src/queries/pricing.ts\<close>): reports, the observations
  of logged pulls, moderation, the daily rollup and the reads of the published index. An observation
  falls on the day \<open>observed_at div DAY_MS\<close>; \<open>current_date\<close> is the day of \<open>now\<close> in UTC. Each write
  of the rollup commits on its own, so the rollup returns the store beside its result.
\<close>

section \<open>Reports\<close>

definition MAX_PENDING_REPORTS_PER_USER :: nat where "MAX_PENDING_REPORTS_PER_USER = 20"

datatype report_error =
    ReportLimitError
  | ReportMissingReference string
  | ReportDbError db_error

record UserPriceReport =
  rpCardVariantId :: string
  rpCondition :: CardCondition
  rpPriceCents :: int
  rpSaleType :: "SaleType option"
  rpCurrency :: "string option"
  rpObservedAt :: "int option"
  rpEvidenceRef :: "string option"

definition pending_decision :: "PriceObservation \<Rightarrow> bool" where
  "pending_decision o1 \<longleftrightarrow> poApprovedAt o1 = None \<and> poRejectedAt o1 = None"

definition reported_row :: "string \<Rightarrow> int \<Rightarrow> string \<Rightarrow> UserPriceReport \<Rightarrow> PriceObservation" where
  "reported_row newId now reporterId input =
     \<lparr>poId = newId, poCardVariantId = rpCardVariantId input, poSource = User_report,
      poSaleType = or_default SoldPrice (rpSaleType input), poCondition = rpCondition input,
      poPriceCents = rpPriceCents input, poCurrency = or_default ''USD'' (rpCurrency input),
      poObservedAt = or_default now (rpObservedAt input), poEvidenceRef = rpEvidenceRef input,
      poReporterId = Some reporterId, poBreakPullId = None, poApprovedAt = None,
      poRejectedAt = None, poFlaggedAt = None, poCreatedAt = now\<rparr>"

definition reportPrice ::
  "string \<Rightarrow> int \<Rightarrow> string \<Rightarrow> UserPriceReport \<Rightarrow> price_db \<Rightarrow> report_error + price_db" where
  "reportPrice newId now reporterId input db =
     (let n = length (filter (\<lambda>o1. poReporterId o1 = Some reporterId \<and> pending_decision o1)
                        (pdObservations db))
      in if n \<ge> MAX_PENDING_REPORTS_PER_USER then Inl ReportLimitError
         else case insert_observation (WebUser reporterId) (reported_row newId now reporterId input) db of
           Inl e \<Rightarrow> Inl (if isForeignKeyViolation e then ReportMissingReference ''card''
                        else ReportDbError e)
         | Inr db' \<Rightarrow> Inr db')"

definition moderateObservation ::
  "int \<Rightarrow> string \<Rightarrow> bool \<Rightarrow> price_db \<Rightarrow> db_error + bool \<times> price_db" where
  "moderateObservation now observationId approve db =
     (case decide_observations
         (\<lambda>o1. poId o1 = observationId \<and> poSource o1 = User_report
              \<and> poApprovedAt o1 = None \<and> poRejectedAt o1 = None)
         (\<lambda>o1. o1\<lparr>poApprovedAt := (if approve then Some now else None),
                 poRejectedAt := (if approve then None else Some now)\<rparr>) db of
        Inl e \<Rightarrow> Inl e
      | Inr (n, db') \<Rightarrow> Inr (0 < n, db'))"

definition listPendingReports :: "nat \<Rightarrow> price_db \<Rightarrow> PriceObservation list" where
  "listPendingReports limit db =
     take limit (sort_key poCreatedAt
       (filter (\<lambda>o1. poSource o1 = User_report \<and> poApprovedAt o1 = None \<and> poRejectedAt o1 = None)
          (pdObservations db)))"

section \<open>Pulls\<close>

definition pull_observation :: "(string \<Rightarrow> string) \<Rightarrow> int \<Rightarrow> BreakPull \<Rightarrow> string \<Rightarrow> PriceObservation" where
  "pull_observation newId now p cardVariantId =
     \<lparr>poId = newId (plId p), poCardVariantId = cardVariantId, poSource = Break_pull,
      poSaleType = SoldPrice, poCondition = NM, poPriceCents = plValueCents p, poCurrency = ''USD'',
      poObservedAt = plPulledAt p, poEvidenceRef = None, poReporterId = None,
      poBreakPullId = Some (plId p), poApprovedAt = Some now, poRejectedAt = None,
      poFlaggedAt = None, poCreatedAt = now\<rparr>"

text \<open>A pull's observation, when its break ran and a person typed its value.\<close>

definition ingestible :: "break_db \<Rightarrow> BreakPull \<Rightarrow> string option" where
  "ingestible bdb p =
     (if plValueSource p = Manual
         \<and> list_ex (\<lambda>b. bId b = plBreakId p \<and> bStatus b \<noteq> BreakDraft) (breakRows bdb)
      then plCardVariantId p else None)"

text \<open>\<open>insert ... select ... on conflict (break_pull_id) do nothing\<close>, one statement.\<close>

fun insert_pulls ::
  "(string \<Rightarrow> string) \<Rightarrow> int \<Rightarrow> BreakPull list \<Rightarrow> price_db \<Rightarrow> db_error + nat \<times> price_db" where
  "insert_pulls newId now [] db = Inr (0, db)"
| "insert_pulls newId now (p # ps) db =
     (case ingestible (pdBreaks db) p of
        None \<Rightarrow> insert_pulls newId now ps db
      | Some v \<Rightarrow>
          (case insert_observation WorkerRole (pull_observation newId now p v) db of
             Inl e \<Rightarrow>
               if e = UniqueViolation ''price_observations_break_pull_key''
               then insert_pulls newId now ps db else Inl e
           | Inr db' \<Rightarrow>
               (case insert_pulls newId now ps db' of
                  Inl e \<Rightarrow> Inl e
                | Inr (n, db2) \<Rightarrow> Inr (Suc n, db2))))"

definition ingestBreakPulls :: "(string \<Rightarrow> string) \<Rightarrow> int \<Rightarrow> price_db \<Rightarrow> db_error + nat \<times> price_db" where
  "ingestBreakPulls newId now db = insert_pulls newId now (pullRows (pdBreaks db)) db"

section \<open>The rollup\<close>

datatype rollup_error = RollupPrice price_error | RollupDb db_error

type_synonym price_group = "string \<times> CardCondition \<times> string"

definition group_key :: "PriceObservation \<Rightarrow> price_group" where
  "group_key o1 = (poCardVariantId o1, poCondition o1, poCurrency o1)"

text \<open>Pushing onto the bucket of a key; a new key's bucket goes last, as in a \<open>Map\<close>.\<close>

fun push_bucket :: "'k \<Rightarrow> 'v \<Rightarrow> ('k \<times> 'v list) list \<Rightarrow> ('k \<times> 'v list) list" where
  "push_bucket k v [] = [(k, [v])]"
| "push_bucket k v ((k1, bucket) # groups) =
     (if k1 = k then (k1, bucket @ [v]) # groups else (k1, bucket) # push_bucket k v groups)"

definition buckets :: "('v \<Rightarrow> 'k) \<Rightarrow> 'v list \<Rightarrow> ('k \<times> 'v list) list" where
  "buckets key rows = fold (\<lambda>r groups. push_bucket (key r) r groups) rows []"

definition counts_now :: "PriceObservation \<Rightarrow> bool" where
  "counts_now o1 \<longleftrightarrow> poApprovedAt o1 \<noteq> None \<and> poFlaggedAt o1 = None"

definition day_rows :: "int \<Rightarrow> price_db \<Rightarrow> PriceObservation list" where
  "day_rows dayStart db =
     filter (\<lambda>o1. dayStart \<le> poObservedAt o1 \<and> poObservedAt o1 \<le> dayStart + DAY_MS \<and> counts_now o1)
       (pdObservations db)"

definition index_row :: "int \<Rightarrow> int \<Rightarrow> price_group \<Rightarrow> nat \<Rightarrow> PriceSummary \<Rightarrow> PriceIndexRow" where
  "index_row now isoDay k n summary =
     (case k of (cardVariantId, condition, currency) \<Rightarrow>
        \<lparr>pxCardVariantId = cardVariantId, pxCondition = condition, pxDay = isoDay,
         pxMedianCents = psMedianCents summary, pxP25Cents = psP25Cents summary,
         pxP75Cents = psP75Cents summary, pxLowCents = psLowCents summary,
         pxHighCents = psHighCents summary, pxObservationCount = int n, pxCurrency = currency,
         pxComputedAt = now\<rparr>)"

definition weighted_summary :: "PriceObservation list \<Rightarrow> price_error + PriceSummary option" where
  "weighted_summary bucket =
     summarisePrices
       (map int_num (applySourceWeights (map (\<lambda>r. (poPriceCents r, poSource r)) bucket)))
       1 TRIM_FRACTION"

text \<open>The loop over the groups: written, skipped and the store it leaves.\<close>

fun roll_groups ::
  "int \<Rightarrow> int \<Rightarrow> (price_group \<times> PriceObservation list) list \<Rightarrow> nat \<Rightarrow> nat \<Rightarrow> price_db
     \<Rightarrow> (rollup_error + nat \<times> nat) \<times> price_db" where
  "roll_groups now isoDay [] written skipped db = (Inr (written, skipped), db)"
| "roll_groups now isoDay ((k, bucket) # groups) written skipped db =
     (if length bucket < MIN_OBSERVATIONS then roll_groups now isoDay groups written (skipped + 1) db
      else case weighted_summary bucket of
        Inl e \<Rightarrow> (Inl (RollupPrice e), db)
      | Inr None \<Rightarrow> roll_groups now isoDay groups written (skipped + 1) db
      | Inr (Some summary) \<Rightarrow>
          (case upsert_index (index_row now isoDay k (length bucket) summary) db of
             Inl e \<Rightarrow> (Inl (RollupDb e), db)
           | Inr db' \<Rightarrow> roll_groups now isoDay groups (written + 1) skipped db'))"

definition rollUpDay :: "int \<Rightarrow> int \<Rightarrow> price_db \<Rightarrow> (rollup_error + nat \<times> nat) \<times> price_db" where
  "rollUpDay now day db =
     (let isoDay = day div DAY_MS
      in roll_groups now isoDay (buckets group_key (day_rows (isoDay * DAY_MS) db)) 0 0 db)"

section \<open>Reading the index\<close>

definition latestPrice :: "string \<Rightarrow> CardCondition \<Rightarrow> price_db \<Rightarrow> PriceIndexRow option" where
  "latestPrice cardVariantId condition db =
     (case sort_key (\<lambda>x. - pxDay x)
         (filter (\<lambda>x. pxCardVariantId x = cardVariantId \<and> pxCondition x = condition) (pdIndex db)) of
        [] \<Rightarrow> None
      | x # _ \<Rightarrow> Some x)"

definition condition_matches :: "CardCondition option \<Rightarrow> CardCondition \<Rightarrow> bool" where
  "condition_matches wanted c \<longleftrightarrow> (case wanted of None \<Rightarrow> True | Some w \<Rightarrow> c = w)"

definition priceHistory ::
  "int \<Rightarrow> string \<Rightarrow> CardCondition option \<Rightarrow> int option \<Rightarrow> price_db \<Rightarrow> PriceIndexRow list" where
  "priceHistory now cardVariantId condition days db =
     (let since = (now - or_default 30 days * DAY_MS) div DAY_MS
      in sort_key pxDay
           (filter (\<lambda>x. pxCardVariantId x = cardVariantId \<and> condition_matches condition (pxCondition x)
                      \<and> since \<le> pxDay x) (pdIndex db)))"

text \<open>One row per published price of a card's printings; \<open>order_by\<close> orders finish, language, condition
  and day.\<close>

definition priceHistoryForCard ::
  "((CardVariant \<times> PriceIndexRow) list \<Rightarrow> (CardVariant \<times> PriceIndexRow) list) \<Rightarrow> int \<Rightarrow> string
     \<Rightarrow> CardCondition option \<Rightarrow> int option \<Rightarrow> price_db \<Rightarrow> (CardVariant \<times> PriceIndexRow) list" where
  "priceHistoryForCard order_by now cardId condition days db =
     order_by
       [(v, d). d \<leftarrow> pdIndex db, v \<leftarrow> pdVariants db,
          vId v = pxCardVariantId d \<and> vCardId v = cardId
          \<and> now div DAY_MS - or_default 30 days \<le> pxDay d
          \<and> condition_matches condition (pxCondition d)]"

text \<open>The enum's order.\<close>

definition sources :: "PriceSourceKind list" where
  "sources = [Break_pull, Live_sale, User_report, Ebay_api, Walmart_api]"

definition priceSourceMix ::
  "int \<Rightarrow> string \<Rightarrow> CardCondition option \<Rightarrow> int option \<Rightarrow> price_db \<Rightarrow> (PriceSourceKind \<times> nat) list" where
  "priceSourceMix now cardId condition days db =
     (let since = (now div DAY_MS - or_default 30 days) * DAY_MS;
          rows = filter (\<lambda>o1. list_ex (\<lambda>v. vId v = poCardVariantId o1 \<and> vCardId v = cardId) (pdVariants db)
                            \<and> counts_now o1 \<and> since \<le> poObservedAt o1
                            \<and> condition_matches condition (poCondition o1)) (pdObservations db)
      in sort_key (\<lambda>(s, n). - int n)
           (filter (\<lambda>(s, n). 0 < n)
              (map (\<lambda>s. (s, length (filter (\<lambda>o1. poSource o1 = s) rows))) sources)))"

section \<open>Midnight\<close>

text \<open>A day's window is closed at both ends: what is observed at midnight counts for two days.\<close>

lemma midnight_counts_twice:
  assumes "o1 \<in> set (pdObservations db)" "counts_now o1" "poObservedAt o1 = (d + 1) * DAY_MS"
  shows "o1 \<in> set (day_rows (d * DAY_MS) db) \<and> o1 \<in> set (day_rows ((d + 1) * DAY_MS) db)"
  using assms by (simp add: day_rows_def DAY_MS_def distrib_right)

end
