(* ===== verification/LiveSaleStore.thy ===== *)
theory LiveSaleStore
  imports PriceStore Crypto
begin

text \<open>
  Sales logged live (\<open>packages/core/src/live-sales.ts\<close>, \<open>packages/db/src/queries/live-sales.ts\<close>):
  the buyer's handle and its retention, the seller's log, the worker's ingestion into price
  observations and the review of the ones it held back. A batch's rows are read by one statement;
  each row is then written in a transaction of its own.
\<close>

section \<open>Handles\<close>

definition BUYER_HANDLE_RETENTION_DAYS :: int where "BUYER_HANDLE_RETENTION_DAYS = 90"
definition MAX_LIVE_SALES_PER_DAY :: nat where "MAX_LIVE_SALES_PER_DAY = 500"

datatype handle_error = HandleTooLong | HandleControlCharacter

text \<open>\<open>replace(/\s+/g, ' ')\<close>.\<close>

fun collapse_spaces :: "string \<Rightarrow> string" where
  "collapse_spaces [] = []"
| "collapse_spaces (c # cs) =
     (if is_space c
      then (case cs of [] \<Rightarrow> [CHR '' '']
                     | d # _ \<Rightarrow> if is_space d then collapse_spaces cs else CHR '' '' # collapse_spaces cs)
      else c # collapse_spaces cs)"

definition control_char :: "char \<Rightarrow> bool" where
  "control_char c \<longleftrightarrow> (of_char c :: nat) \<le> 31 \<or> (of_char c :: nat) = 127"

definition normaliseBuyerHandle :: "string option \<Rightarrow> handle_error + string option" where
  "normaliseBuyerHandle raw =
     (case raw of
        None \<Rightarrow> Inr None
      | Some r \<Rightarrow>
          let collapsed = collapse_spaces (trim r) in
          if collapsed = [] then Inr None
          else
            let withoutSigil = (if starts_with ''@'' collapsed then trim (drop 1 collapsed) else collapsed)
            in if withoutSigil = [] then Inr None
               else if length withoutSigil > 64 then Inl HandleTooLong
               else if list_ex control_char withoutSigil then Inl HandleControlCharacter
               else Inr (Some withoutSigil))"

definition buyerHandleExpiryFrom :: "int \<Rightarrow> int" where
  "buyerHandleExpiryFrom soldAt = soldAt + BUYER_HANDLE_RETENTION_DAYS * 24 * 60 * 60 * 1000"

definition buyerHandleExpired :: "int \<Rightarrow> int \<Rightarrow> bool" where
  "buyerHandleExpired soldAt now \<longleftrightarrow> now \<ge> buyerHandleExpiryFrom soldAt"

section \<open>The seller's log\<close>

datatype live_sale_error =
    LiveSaleState
  | BuyerHandleError handle_error
  | LiveSaleLimitError
  | LiveSaleMissingReference string
  | LiveSaleField field_error
  | LiveSaleDb db_error

record LogLiveSaleInput =
  liCardVariantId :: "string option"
  liLabel :: "string option"
  liCondition :: "CardCondition option"
  liPriceCents :: jsnum
  liCurrency :: "string option"
  liSoldAt :: "int option"
  liStreamRef :: "string option"
  liBuyerHandle :: "string option"

text \<open>What a request may use: the ring, when one is configured, a nonce and the cipher.\<close>

record field_crypto =
  fcRing :: "KeyRing option"
  fcIv :: bytes
  fcSeal :: "bytes \<Rightarrow> bytes \<Rightarrow> string \<Rightarrow> bytes \<times> bytes"
  fcOpen :: "bytes \<Rightarrow> bytes \<Rightarrow> bytes \<Rightarrow> bytes \<Rightarrow> string option"

definition countLiveSalesToday :: "int \<Rightarrow> string \<Rightarrow> price_db \<Rightarrow> nat" where
  "countLiveSalesToday now sellerId db =
     length (filter (\<lambda>s. lsSellerId s = sellerId \<and> lsSoldAt s \<ge> now - 24 * 60 * 60 * 1000) (pdSales db))"

definition logged_row ::
  "string \<Rightarrow> int \<Rightarrow> string \<Rightarrow> LogLiveSaleInput \<Rightarrow> string option \<Rightarrow> LiveSale" where
  "logged_row newId now sellerId input enc =
     \<lparr>lsId = newId, lsSellerId = sellerId, lsCardVariantId = liCardVariantId input,
      lsLabel = liLabel input, lsCondition = or_default NM (liCondition input),
      lsPriceCents = to_int (liPriceCents input), lsCurrency = or_default ''USD'' (liCurrency input),
      lsSoldAt = or_default now (liSoldAt input), lsStreamRef = liStreamRef input,
      lsBuyerHandleEncrypted = enc, lsHasBuyerHandle = (enc \<noteq> None),
      lsPriceObservationId = None, lsCreatedAt = now, lsUpdatedAt = now\<rparr>"

definition seal_handle :: "field_crypto \<Rightarrow> string option \<Rightarrow> live_sale_error + string option" where
  "seal_handle fc handle =
     (case handle of
        None \<Rightarrow> Inr None
      | Some h \<Rightarrow>
          (case fcRing fc of
             None \<Rightarrow> Inl LiveSaleState
           | Some ring \<Rightarrow>
               (case encryptField (fcSeal fc) ring (fcIv fc) h of
                  Inl e \<Rightarrow> Inl (LiveSaleField e)
                | Inr enc \<Rightarrow> Inr (Some enc))))"

definition logLiveSale ::
  "string \<Rightarrow> int \<Rightarrow> string \<Rightarrow> LogLiveSaleInput \<Rightarrow> field_crypto \<Rightarrow> price_db \<Rightarrow> live_sale_error + price_db" where
  "logLiveSale newId now sellerId input fc db =
     (if \<not> is_integer (liPriceCents input) \<or> js_less (liPriceCents input) (int_num 0) then Inl LiveSaleState
      else case normaliseBuyerHandle (liBuyerHandle input) of
        Inl e \<Rightarrow> Inl (BuyerHandleError e)
      | Inr handle \<Rightarrow>
          if handle \<noteq> None \<and> fcRing fc = None then Inl LiveSaleState
          else if countLiveSalesToday now sellerId db \<ge> MAX_LIVE_SALES_PER_DAY then Inl LiveSaleLimitError
          else case seal_handle fc handle of
            Inl e \<Rightarrow> Inl e
          | Inr enc \<Rightarrow>
              (case insert_sale sellerId (logged_row newId now sellerId input enc) db of
                 Inl e \<Rightarrow> Inl (if isForeignKeyViolation e then LiveSaleMissingReference ''card''
                              else LiveSaleDb e)
               | Inr db' \<Rightarrow> Inr db'))"

record SellerLiveSale =
  slId :: string
  slCardVariantId :: "string option"
  slLabel :: string
  slCondition :: CardCondition
  slPriceCents :: int
  slCurrency :: string
  slSoldAt :: int
  slStreamRef :: "string option"
  slBuyerHandle :: "string option"
  slPublished :: bool
  slFlagged :: bool

definition sale_label :: "price_db \<Rightarrow> LiveSale \<Rightarrow> string" where
  "sale_label db s =
     (case Option.bind (lsCardVariantId s) (\<lambda>v. find_row cvId v (variants (pdBreaks db))) of
        Some v \<Rightarrow> cvCardName v @ (if cvFinish v = ''normal'' then [] else '' ('' @ cvFinish v @ '')'')
      | None \<Rightarrow> or_default ''Unknown card'' (lsLabel s))"

definition open_handle :: "field_crypto \<Rightarrow> LiveSale \<Rightarrow> field_error + string option" where
  "open_handle fc s =
     (case (lsBuyerHandleEncrypted s, fcRing fc) of
        (Some enc, Some ring) \<Rightarrow>
          (case decryptField (fcOpen fc) ring enc of Inl e \<Rightarrow> Inl e | Inr h \<Rightarrow> Inr (Some h))
      | _ \<Rightarrow> Inr None)"

definition sale_view :: "field_crypto \<Rightarrow> price_db \<Rightarrow> LiveSale \<Rightarrow> field_error + SellerLiveSale" where
  "sale_view fc db s =
     (case open_handle fc s of
        Inl e \<Rightarrow> Inl e
      | Inr handle \<Rightarrow>
          Inr \<lparr>slId = lsId s, slCardVariantId = lsCardVariantId s, slLabel = sale_label db s,
               slCondition = lsCondition s, slPriceCents = lsPriceCents s, slCurrency = lsCurrency s,
               slSoldAt = lsSoldAt s, slStreamRef = lsStreamRef s, slBuyerHandle = handle,
               slPublished = (lsPriceObservationId s \<noteq> None),
               slFlagged = (case Option.bind (lsPriceObservationId s)
                                  (\<lambda>i. find_row poId i (pdObservations db)) of
                              Some o1 \<Rightarrow> poFlaggedAt o1 \<noteq> None | None \<Rightarrow> False)\<rparr>)"

fun map_all :: "('a \<Rightarrow> 'e + 'b) \<Rightarrow> 'a list \<Rightarrow> 'e + 'b list" where
  "map_all f [] = Inr []"
| "map_all f (x # xs) =
     (case f x of Inl e \<Rightarrow> Inl e
      | Inr y \<Rightarrow> (case map_all f xs of Inl e \<Rightarrow> Inl e | Inr ys \<Rightarrow> Inr (y # ys)))"

definition own_sales :: "string \<Rightarrow> price_db \<Rightarrow> LiveSale list" where
  "own_sales sellerId db =
     sort_key (\<lambda>s. - lsSoldAt s) (filter (\<lambda>s. lsSellerId s = sellerId) (pdSales db))"

definition listLiveSales ::
  "string \<Rightarrow> field_crypto \<Rightarrow> int \<Rightarrow> price_db \<Rightarrow> field_error + SellerLiveSale list" where
  "listLiveSales sellerId fc limit db =
     map_all (sale_view fc db) (take (nat (min (max limit 1) 500)) (own_sales sellerId db))"

definition latestLiveSale :: "string \<Rightarrow> price_db \<Rightarrow> LiveSale option" where
  "latestLiveSale sellerId db = (case own_sales sellerId db of [] \<Rightarrow> None | s # _ \<Rightarrow> Some s)"

definition deleteLiveSale :: "string \<Rightarrow> string \<Rightarrow> price_db \<Rightarrow> bool \<times> price_db" where
  "deleteLiveSale sellerId k db =
     (let gone = (\<lambda>s. lsId s = k \<and> lsSellerId s = sellerId \<and> sale_deletable sellerId s)
      in (list_ex gone (pdSales db), db\<lparr>pdSales := filter (\<lambda>s. \<not> gone s) (pdSales db)\<rparr>))"

section \<open>Ingestion\<close>

definition OUTLIER_BASELINE_MAX_AGE_DAYS :: int where "OUTLIER_BASELINE_MAX_AGE_DAYS = 30"
definition OUTLIER_IQR_MULTIPLIER :: int where "OUTLIER_IQR_MULTIPLIER = 3"

record LiveSaleIngestResult =
  irIngested :: nat
  irFlagged :: nat
  irUnpriceable :: nat

text \<open>The most recent published spread of the sale's printing, when the index has a fresh one.\<close>

definition baseline :: "int \<Rightarrow> price_db \<Rightarrow> LiveSale \<Rightarrow> PriceIndexRow option" where
  "baseline now db s =
     (case sort_key (\<lambda>x. - pxDay x)
         (filter (\<lambda>x. Some (pxCardVariantId x) = lsCardVariantId s \<and> pxCondition x = lsCondition s
                    \<and> pxCurrency x = lsCurrency s
                    \<and> pxDay x \<ge> now div DAY_MS - OUTLIER_BASELINE_MAX_AGE_DAYS) (pdIndex db)) of
        [] \<Rightarrow> None
      | x # _ \<Rightarrow> Some x)"

definition pending_sales :: "int \<Rightarrow> nat \<Rightarrow> price_db \<Rightarrow> (LiveSale \<times> PriceIndexRow option) list" where
  "pending_sales now batchSize db =
     map (\<lambda>s. (s, baseline now db s))
       (take batchSize (sort_key lsSoldAt (filter (\<lambda>s. lsPriceObservationId s = None) (pdSales db))))"

definition held_back :: "LiveSale \<Rightarrow> PriceIndexRow option \<Rightarrow> bool" where
  "held_back s spread =
     (case spread of
        None \<Rightarrow> False
      | Some x \<Rightarrow> isOutlier (lsPriceCents s) (pxP25Cents x) (pxP75Cents x) OUTLIER_IQR_MULTIPLIER)"

definition sale_observation :: "string \<Rightarrow> int \<Rightarrow> LiveSale \<Rightarrow> string \<Rightarrow> bool \<Rightarrow> PriceObservation" where
  "sale_observation newId now s cardVariantId isFlagged =
     \<lparr>poId = newId, poCardVariantId = cardVariantId, poSource = Live_sale, poSaleType = SoldPrice,
      poCondition = lsCondition s, poPriceCents = lsPriceCents s, poCurrency = lsCurrency s,
      poObservedAt = lsSoldAt s, poEvidenceRef = lsStreamRef s, poReporterId = None,
      poBreakPullId = None, poApprovedAt = Some now, poRejectedAt = None,
      poFlaggedAt = (if isFlagged then Some now else None), poCreatedAt = now\<rparr>"

text \<open>One row's transaction: the observation and the link, or neither when another run linked the
  sale first (the \<open>AlreadyLinked\<close> rollback, swallowed).\<close>

definition ingest_sale :: "string \<Rightarrow> int \<Rightarrow> LiveSale \<Rightarrow> string \<Rightarrow> bool \<Rightarrow> price_db \<Rightarrow> db_error + price_db" where
  "ingest_sale newId now s cardVariantId isFlagged db =
     (case insert_observation WorkerRole (sale_observation newId now s cardVariantId isFlagged) db of
        Inl e \<Rightarrow> Inl e
      | Inr db' \<Rightarrow>
          let unlinked = (\<lambda>r. lsId r = lsId s \<and> lsPriceObservationId r = None) in
          if \<not> list_ex unlinked (pdSales db') then Inr db
          else if Some newId \<in> lsPriceObservationId ` set (pdSales db') then
            Inl (UniqueViolation ''live_sales_price_observation_id_unique'')
          else Inr (db'\<lparr>pdSales :=
                 map (\<lambda>r. if unlinked r then r\<lparr>lsPriceObservationId := Some newId, lsUpdatedAt := now\<rparr>
                          else r) (pdSales db')\<rparr>))"

text \<open>The loop over a batch; a database error ends it and keeps the rows already written. \<open>newId\<close>
  gives the fresh identifier drawn for a sale.\<close>

fun ingest_rows ::
  "(string \<Rightarrow> string) \<Rightarrow> int \<Rightarrow> (LiveSale \<times> PriceIndexRow option) list \<Rightarrow> LiveSaleIngestResult
     \<Rightarrow> price_db \<Rightarrow> (db_error + LiveSaleIngestResult) \<times> price_db" where
  "ingest_rows newId now [] r db = (Inr r, db)"
| "ingest_rows newId now ((s, spread) # rows) r db =
     (case lsCardVariantId s of
        None \<Rightarrow> ingest_rows newId now rows (r\<lparr>irUnpriceable := irUnpriceable r + 1\<rparr>) db
      | Some v \<Rightarrow>
          let isFlagged = held_back s spread in
          (case ingest_sale (newId (lsId s)) now s v isFlagged db of
             Inl e \<Rightarrow> (Inl e, db)
           | Inr db' \<Rightarrow>
               ingest_rows newId now rows
                 (r\<lparr>irIngested := irIngested r + 1,
                    irFlagged := irFlagged r + (if isFlagged then 1 else 0)\<rparr>) db'))"

definition ingestLiveSales ::
  "(string \<Rightarrow> string) \<Rightarrow> int \<Rightarrow> nat \<Rightarrow> price_db \<Rightarrow> (db_error + LiveSaleIngestResult) \<times> price_db" where
  "ingestLiveSales newId now batchSize db =
     ingest_rows newId now (pending_sales now batchSize db)
       \<lparr>irIngested = 0, irFlagged = 0, irUnpriceable = 0\<rparr> db"

section \<open>Retention and review\<close>

text \<open>The CHECKs read only the columns written, so the statement cannot fail.\<close>

definition purgeable :: "int \<Rightarrow> LiveSale \<Rightarrow> bool" where
  "purgeable now s \<longleftrightarrow>
     lsHasBuyerHandle s \<and> lsSoldAt s < now - BUYER_HANDLE_RETENTION_DAYS * DAY_MS"

definition purgeExpiredBuyerHandles :: "int \<Rightarrow> price_db \<Rightarrow> nat \<times> price_db" where
  "purgeExpiredBuyerHandles now db =
     (length (filter (purgeable now) (pdSales db)),
      db\<lparr>pdSales := map (\<lambda>s. if purgeable now s
                             then s\<lparr>lsBuyerHandleEncrypted := None, lsHasBuyerHandle := False, lsUpdatedAt := now\<rparr>
                             else s) (pdSales db)\<rparr>)"

record FlaggedObservation =
  fgId :: string
  fgCardVariantId :: string
  fgCardName :: "string option"
  fgSource :: PriceSourceKind
  fgCondition :: CardCondition
  fgPriceCents :: int
  fgCurrency :: string
  fgObservedAt :: int
  fgFlaggedAt :: int
  fgMedianCents :: "int option"
  fgEvidenceRef :: "string option"

definition flagged_view :: "price_db \<Rightarrow> PriceObservation \<Rightarrow> FlaggedObservation" where
  "flagged_view db o1 =
     \<lparr>fgId = poId o1, fgCardVariantId = poCardVariantId o1,
      fgCardName = map_option cvCardName (find_row cvId (poCardVariantId o1) (variants (pdBreaks db))),
      fgSource = poSource o1, fgCondition = poCondition o1, fgPriceCents = poPriceCents o1,
      fgCurrency = poCurrency o1, fgObservedAt = poObservedAt o1, fgFlaggedAt = the (poFlaggedAt o1),
      fgMedianCents =
        (case sort_key (\<lambda>x. - pxDay x)
            (filter (\<lambda>x. pxCardVariantId x = poCardVariantId o1 \<and> pxCondition x = poCondition o1
                       \<and> pxCurrency x = poCurrency o1) (pdIndex db)) of
           [] \<Rightarrow> None | x # _ \<Rightarrow> Some (pxMedianCents x)),
      fgEvidenceRef = poEvidenceRef o1\<rparr>"

definition listFlaggedObservations :: "int \<Rightarrow> price_db \<Rightarrow> FlaggedObservation list" where
  "listFlaggedObservations limit db =
     map (flagged_view db) (take (nat (min (max limit 1) 200))
       (sort_key (\<lambda>o1. the (poFlaggedAt o1))
          (filter (\<lambda>o1. poFlaggedAt o1 \<noteq> None \<and> poRejectedAt o1 = None) (pdObservations db))))"

definition reviewFlaggedObservation ::
  "int \<Rightarrow> string \<Rightarrow> bool \<Rightarrow> price_db \<Rightarrow> db_error + bool \<times> price_db" where
  "reviewFlaggedObservation now observationId reject db =
     (case decide_observations
         (\<lambda>o1. poId o1 = observationId \<and> poFlaggedAt o1 \<noteq> None)
         (\<lambda>o1. o1\<lparr>poFlaggedAt := None,
                 poRejectedAt := (if reject then Some now else None),
                 poApprovedAt := (if reject then None
                                  else if poApprovedAt o1 = None then Some now else poApprovedAt o1)\<rparr>) db of
        Inl e \<Rightarrow> Inl e
      | Inr (n, db') \<Rightarrow> Inr (0 < n, db'))"

section \<open>What the daily limit counts\<close>

text \<open>The limit counts the entries \<^emph>\<open>dated\<close> in the last day, and the date is the seller's to give: an entry
  dated earlier never counts, so any number of them passes.\<close>

lemma backdated_entries_escape_the_limit:
  assumes "liSoldAt input = Some t" "t < now - 24 * 60 * 60 * 1000" "logLiveSale i now u input fc db = Inr db'"
  shows "countLiveSalesToday now v db' = countLiveSalesToday now v db"
proof -
  obtain enc where "insert_sale u (logged_row i now u input enc) db = Inr db'"
    using assms(3) by (auto simp: logLiveSale_def split: sum.splits if_splits)
  then have "pdSales db' = pdSales db @ [logged_row i now u input enc]"
    by (auto simp: insert_sale_def split: option.splits if_splits)
  then show ?thesis using assms(1,2) by (simp add: countLiveSalesToday_def logged_row_def or_default_def)
qed

end
