(* ===== verification/PriceInvariant.thy ===== *)
theory PriceInvariant
  imports LiveSaleStore
begin

text \<open>
  What the price index's operations keep: every row passes its CHECKs, one observation per pull and
  per ingested sale, every published row in order and within its key; the rollup in terms of the
  groups of a day's observations.
\<close>

section \<open>Statements that succeed\<close>

named_theorems price_rules

lemma first_violated_concat:
  "map_option fst (find (\<lambda>(n, ok). \<not> ok) cs) = None \<longleftrightarrow> (\<forall>(n, ok) \<in> set cs. ok)"
  by (induction cs) auto

definition observation_ok :: "PriceObservation \<Rightarrow> bool" where
  "observation_ok o1 \<longleftrightarrow>
     iso_currency (poCurrency o1) \<and> (poApprovedAt o1 = None \<or> poRejectedAt o1 = None)
     \<and> 0 \<le> poPriceCents o1 \<and> poPriceCents o1 \<le> 100000000
     \<and> (poSource o1 \<noteq> User_report \<or> poReporterId o1 \<noteq> None \<or> poApprovedAt o1 \<noteq> None)"

lemma observation_checks_all:
  "(\<forall>(n, ok) \<in> set (observation_checks o1). ok) \<longleftrightarrow> observation_ok o1"
  by (auto simp: observation_checks_def observation_ok_def)

lemma observation_checks_iff: "first_violated (observation_checks o1) = None \<longleftrightarrow> observation_ok o1"
  unfolding first_violated_None_iff by (rule observation_checks_all)

lemma observation_unique_iff:
  "observation_unique_violation o1 rows = None \<longleftrightarrow>
     poId o1 \<notin> poId ` set rows \<and> (poBreakPullId o1 = None \<or> poBreakPullId o1 \<notin> poBreakPullId ` set rows)"
  by (simp add: observation_unique_violation_def first_violated_None_iff)

lemma insert_observation_Inr [price_rules]:
  "insert_observation r o1 db = Inr db' \<longleftrightarrow>
     db' = db\<lparr>pdObservations := pdObservations db @ [o1]\<rparr>
     \<and> int4 (poPriceCents o1) \<and> observation_insert_allowed r o1 \<and> observation_ok o1
     \<and> (poId o1 \<notin> poId ` set (pdObservations db)
        \<and> (poBreakPullId o1 = None \<or> poBreakPullId o1 \<notin> poBreakPullId ` set (pdObservations db)))
     \<and> observation_foreign_keys o1 db = None"
  unfolding insert_observation_def observation_unique_iff [symmetric] observation_checks_iff [symmetric]
  by (auto split: option.splits if_splits)

lemma observation_variant: "observation_foreign_keys o1 db = None \<Longrightarrow> poCardVariantId o1 \<in> vId ` set (pdVariants db)"
  by (simp add: observation_foreign_keys_def first_violated_None_iff split: if_splits)

lemma decide_observations_Inr:
  "decide_observations P f db = Inr (n, db') \<Longrightarrow>
     db' = db\<lparr>pdObservations := map (\<lambda>o1. if P o1 then f o1 else o1) (pdObservations db)\<rparr>
     \<and> (\<forall>o1 \<in> set (pdObservations db). P o1 \<longrightarrow> observation_ok (f o1))"
  by (auto simp: decide_observations_def Let_def find_None_iff observation_checks_all [symmetric]
      split: option.splits if_splits)

section \<open>The published index\<close>

definition published :: "price_db \<Rightarrow> string \<times> CardCondition \<times> int \<times> string \<Rightarrow> PriceIndexRow option" where
  "published db k = find_row index_key k (pdIndex db)"

definition index_ok :: "PriceIndexRow \<Rightarrow> bool" where
  "index_ok x \<longleftrightarrow>
     3 \<le> pxObservationCount x \<and> pxLowCents x \<le> pxP25Cents x \<and> pxP25Cents x \<le> pxMedianCents x
     \<and> pxMedianCents x \<le> pxP75Cents x \<and> pxP75Cents x \<le> pxHighCents x"

lemma index_checks_iff: "first_violated (index_checks x) = None \<longleftrightarrow> index_ok x"
  by (auto simp: first_violated_None_iff index_checks_def index_ok_def)

text \<open>The rows after an upsert.\<close>

definition put_index :: "PriceIndexRow \<Rightarrow> PriceIndexRow list \<Rightarrow> PriceIndexRow list" where
  "put_index x rows =
     (if index_key x \<in> index_key ` set rows
      then map (\<lambda>y. if index_key y = index_key x then x else y) rows else rows @ [x])"

lemma find_row_replace:
  "find_row index_key k (map (\<lambda>y. if index_key y = index_key x then x else y) rows) =
     (if k = index_key x \<and> k \<in> index_key ` set rows then Some x else find_row index_key k rows)"
  by (induction rows) auto

lemma find_put_index:
  "find_row index_key k (put_index x rows) = (if k = index_key x then Some x else find_row index_key k rows)"
proof (cases "index_key x \<in> index_key ` set rows")
  case False
  then have "find_row index_key (index_key x) rows = None" by (simp add: find_row_None_iff)
  then show ?thesis using False by (auto simp: put_index_def table_simps split: option.splits)
qed (auto simp: put_index_def find_row_replace)

lemma put_index_rows:
  "set (put_index x rows) \<subseteq> insert x (set rows)"
  "distinct (map index_key rows) \<Longrightarrow> distinct (map index_key (put_index x rows))"
proof -
  have keys: "map index_key (map (\<lambda>y. if index_key y = index_key x then x else y) ys) = map index_key ys"
    for ys by (induction ys) auto
  show "distinct (map index_key rows) \<Longrightarrow> distinct (map index_key (put_index x rows))"
    unfolding put_index_def by (simp only: keys split: if_split) auto
  show "set (put_index x rows) \<subseteq> insert x (set rows)" by (auto simp: put_index_def)
qed

lemma upsert_index_Inr [price_rules]:
  "upsert_index x db = Inr db' \<Longrightarrow> db' = db\<lparr>pdIndex := put_index x (pdIndex db)\<rparr> \<and> index_ok x"
  by (auto simp: upsert_index_def put_index_def index_checks_iff split: option.splits if_splits)

lemma upsert_index_succeeds:
  assumes "index_int4 x" "index_ok x" "pxCardVariantId x \<in> vId ` set (pdVariants db)"
  shows "upsert_index x db = Inr (db\<lparr>pdIndex := put_index x (pdIndex db)\<rparr>)"
  using assms index_checks_iff [of x]
  by (simp add: upsert_index_def put_index_def del: index_checks_iff)

section \<open>Groups\<close>

lemma push_bucket_keys: "fst ` set (push_bucket k v gs) = insert k (fst ` set gs)"
  by (induction k v gs rule: push_bucket.induct) auto

lemma push_bucket_distinct: "distinct (map fst gs) \<Longrightarrow> distinct (map fst (push_bucket k v gs))"
  by (induction k v gs rule: push_bucket.induct) (auto simp: push_bucket_keys)

lemma push_bucket_lookup:
  "map_of (push_bucket k v gs) j =
     (if j = k then Some ((case map_of gs k of None \<Rightarrow> [] | Some b \<Rightarrow> b) @ [v]) else map_of gs j)"
  by (induction k v gs rule: push_bucket.induct) auto

text \<open>The groups of a list of rows are the rows of each key, in their order.\<close>

lemma buckets_lookup:
  "distinct (map fst (buckets key rows)) \<and>
   map_of (buckets key rows) k =
     (if filter (\<lambda>r. key r = k) rows = [] then None else Some (filter (\<lambda>r. key r = k) rows))"
  by (induction rows rule: rev_induct)
    (auto simp: buckets_def push_bucket_distinct push_bucket_lookup)

lemma buckets_mem:
  "(k, b) \<in> set (buckets key rows) \<Longrightarrow> b = filter (\<lambda>r. key r = k) rows \<and> b \<noteq> []"
  using buckets_lookup [of key rows k]
  by (auto dest!: map_of_is_SomeI split: if_splits)

section \<open>A group's summary\<close>

lemma weights_pos: "0 < SOURCE_WEIGHTS src" "SOURCE_WEIGHTS src \<le> 3"
  by (cases src; simp)+

lemma applySourceWeights_set: "set (applySourceWeights obs) = fst ` set obs"
proof (induction obs)
  case (Cons x xs)
  then show ?case
    using weights_pos(1) [of "snd x"] by (cases x) (auto simp: applySourceWeights_def)
qed (simp add: applySourceWeights_def)

lemma applySourceWeights_length:
  "length obs \<le> length (applySourceWeights obs) \<and> length (applySourceWeights obs) \<le> 3 * length obs"
proof (induction obs)
  case (Cons x xs)
  then show ?case
    using weights_pos [of "snd x"] by (cases x) (simp add: applySourceWeights_def)
qed (simp add: applySourceWeights_def)

text \<open>What a group's prices publish, as a function: the summary is always there.\<close>

definition group_summary :: "PriceObservation list \<Rightarrow> PriceSummary" where
  "group_summary bucket =
     (case weighted_summary bucket of Inr (Some r) \<Rightarrow> r | _ \<Rightarrow> undefined)"

lemma weighted_summary_ok:
  assumes "bucket \<noteq> []" "\<forall>o1 \<in> set bucket. observation_ok o1" "length bucket \<le> 2147483647"
  shows "weighted_summary bucket = Inr (Some (group_summary bucket))"
    "0 \<le> psLowCents (group_summary bucket)" "psHighCents (group_summary bucket) \<le> 100000000"
    "psLowCents (group_summary bucket) \<le> psP25Cents (group_summary bucket)"
    "psP25Cents (group_summary bucket) \<le> psMedianCents (group_summary bucket)"
    "psMedianCents (group_summary bucket) \<le> psP75Cents (group_summary bucket)"
    "psP75Cents (group_summary bucket) \<le> psHighCents (group_summary bucket)"
proof -
  define cs where "cs = applySourceWeights (map (\<lambda>r. (poPriceCents r, poSource r)) bucket)"
  have set: "set cs = poPriceCents ` set bucket"
    by (simp add: cs_def applySourceWeights_set image_image)
  have prices: "\<forall>c \<in> set cs. 0 \<le> c \<and> c \<le> 100000000"
    using assms(2) by (auto simp: set observation_ok_def)
  have len: "1 \<le> length cs" "length cs \<le> 2 ^ 53"
    using applySourceWeights_length [of "map (\<lambda>r. (poPriceCents r, poSource r)) bucket"] assms(1,3)
    by (cases bucket; simp add: cs_def)+
  then have ne: "cs \<noteq> []" by auto
  have big: "\<forall>c \<in> set cs. 0 \<le> c \<and> c \<le> 2 ^ 52" using prices by fastforce
  from summary_ordered [OF big ne len, of TRIM_FRACTION]
  obtain r where r: "weighted_summary bucket = Inr (Some r)"
    "psLowCents r = hd (sort cs)" "psHighCents r = last (sort cs)"
    "psLowCents r \<le> psP25Cents r" "psP25Cents r \<le> psMedianCents r"
    "psMedianCents r \<le> psP75Cents r" "psP75Cents r \<le> psHighCents r"
    by (auto simp: weighted_summary_def cs_def)
  have "sort cs \<noteq> []" using len(1) by (metis length_sort list.size(3) not_one_le_zero)
  then have "hd (sort cs) \<in> set (sort cs)" "last (sort cs) \<in> set (sort cs)"
    using hd_in_set [of "sort cs"] last_in_set [of "sort cs"] by blast+
  then have "psLowCents r \<in> set cs" "psHighCents r \<in> set cs" unfolding r set_sort by auto
  with prices have ends: "0 \<le> psLowCents r" "psHighCents r \<le> 100000000" by auto
  have g: "group_summary bucket = r" by (simp add: group_summary_def r(1))
  show "weighted_summary bucket = Inr (Some (group_summary bucket))"
    "0 \<le> psLowCents (group_summary bucket)" "psHighCents (group_summary bucket) \<le> 100000000"
    "psLowCents (group_summary bucket) \<le> psP25Cents (group_summary bucket)"
    "psP25Cents (group_summary bucket) \<le> psMedianCents (group_summary bucket)"
    "psMedianCents (group_summary bucket) \<le> psP75Cents (group_summary bucket)"
    "psP75Cents (group_summary bucket) \<le> psHighCents (group_summary bucket)"
    unfolding g by (fact r ends)+
qed

lemma index_row_ok:
  assumes "3 \<le> length bucket" "\<forall>o1 \<in> set bucket. observation_ok o1" "length bucket \<le> 2147483647"
  shows "index_ok (index_row now d k (length bucket) (group_summary bucket))"
    "index_int4 (index_row now d k (length bucket) (group_summary bucket))"
proof -
  have ne: "bucket \<noteq> []" using assms(1) by auto
  note w = weighted_summary_ok (2-7) [OF ne assms(2,3)]
  show "index_ok (index_row now d k (length bucket) (group_summary bucket))"
    using w assms(1) by (simp add: index_ok_def index_row_def split: prod.splits)
  show "index_int4 (index_row now d k (length bucket) (group_summary bucket))"
    using w assms(3) by (simp add: index_int4_def index_row_def int4_def split: prod.splits)
qed

section \<open>The rollup\<close>

definition key_of :: "price_group \<Rightarrow> int \<Rightarrow> string \<times> CardCondition \<times> int \<times> string" where
  "key_of k d = (fst k, fst (snd k), d, snd (snd k))"

lemma index_row_key: "index_key (index_row now d k n r) = key_of k d"
  by (simp add: index_key_def index_row_def key_of_def split: prod.splits)

lemma key_of_inj: "key_of k d = key_of j e \<longleftrightarrow> k = j \<and> d = e"
  by (auto simp: key_of_def prod_eq_iff)

text \<open>The index a list of groups leaves.\<close>

fun rolled :: "int \<Rightarrow> int \<Rightarrow> (price_group \<times> PriceObservation list) list \<Rightarrow> PriceIndexRow list \<Rightarrow> PriceIndexRow list" where
  "rolled now d [] rows = rows"
| "rolled now d ((k, bucket) # groups) rows =
     rolled now d groups
       (if length bucket < MIN_OBSERVATIONS then rows
        else put_index (index_row now d k (length bucket) (group_summary bucket)) rows)"

lemma roll_groups_rolled:
  assumes "\<forall>(k, bucket) \<in> set groups. bucket \<noteq> [] \<and> length bucket \<le> 2147483647
      \<and> (\<forall>o1 \<in> set bucket. observation_ok o1) \<and> fst k \<in> vId ` set (pdVariants db)"
  shows "\<exists>w s. roll_groups now d groups written skipped db =
       (Inr (written + w, skipped + s), db\<lparr>pdIndex := rolled now d groups (pdIndex db)\<rparr>)
     \<and> w + s = length groups"
  using assms
proof (induction groups arbitrary: written skipped db)
  case (Cons g groups)
  obtain k bucket where g: "g = (k, bucket)" by (cases g)
  note IH = Cons.IH
  show ?case
  proof (cases "length bucket < MIN_OBSERVATIONS")
    case True
    obtain w s where "roll_groups now d groups written (skipped + 1) db =
        (Inr (written + w, skipped + 1 + s), db\<lparr>pdIndex := rolled now d groups (pdIndex db)\<rparr>)"
      "w + s = length groups"
      using IH [of db written "skipped + 1"] Cons.prems by (auto simp: g)
    then have "roll_groups now d (g # groups) written skipped db =
        (Inr (written + w, skipped + Suc s), db\<lparr>pdIndex := rolled now d (g # groups) (pdIndex db)\<rparr>)
      \<and> w + Suc s = length (g # groups)"
      using True by (simp add: g)
    then show ?thesis by blast
  next
    case False
    let ?x = "index_row now d k (length bucket) (group_summary bucket)"
    let ?db = "db\<lparr>pdIndex := put_index ?x (pdIndex db)\<rparr>"
    have fine: "bucket \<noteq> []" "length bucket \<le> 2147483647" "\<forall>o1 \<in> set bucket. observation_ok o1"
      "fst k \<in> vId ` set (pdVariants db)" and three: "3 \<le> length bucket"
      using Cons.prems False by (auto simp: g MIN_OBSERVATIONS_def)
    have up: "upsert_index ?x db = Inr ?db"
      by (rule upsert_index_succeeds)
        (use index_row_ok [OF three fine(3,2)] fine(4) in \<open>auto simp: index_row_def split: prod.splits\<close>)
    obtain w s where "roll_groups now d groups (written + 1) skipped ?db =
        (Inr (written + 1 + w, skipped + s), ?db\<lparr>pdIndex := rolled now d groups (pdIndex ?db)\<rparr>)"
      "w + s = length groups"
      using IH [of ?db "written + 1" skipped] Cons.prems by (auto simp: g)
    then have "roll_groups now d (g # groups) written skipped db =
        (Inr (written + Suc w, skipped + s), db\<lparr>pdIndex := rolled now d (g # groups) (pdIndex db)\<rparr>)
      \<and> Suc w + s = length (g # groups)"
      using False up weighted_summary_ok(1) [OF fine(1,3,2)] by (simp add: g)
    then show ?thesis by blast
  qed
qed simp

lemma rolled_other:
  "\<forall>(k, bucket) \<in> set groups. 3 \<le> length bucket \<longrightarrow> key \<noteq> key_of k d
   \<Longrightarrow> find_row index_key key (rolled now d groups rows) = find_row index_key key rows"
  by (induction now d groups rows rule: rolled.induct)
    (auto simp: find_put_index index_row_key MIN_OBSERVATIONS_def)

lemma rolled_hit:
  "distinct (map fst groups) \<Longrightarrow> (k, bucket) \<in> set groups \<Longrightarrow> 3 \<le> length bucket
   \<Longrightarrow> find_row index_key (key_of k d) (rolled now d groups rows) =
       Some (index_row now d k (length bucket) (group_summary bucket))"
proof (induction now d groups rows rule: rolled.induct)
  case (2 now d k1 b1 groups rows)
  show ?case
  proof (cases "(k, bucket) \<in> set groups")
    case True
    with 2 show ?thesis by simp
  next
    case False
    then have eq: "k1 = k" "b1 = bucket" using 2 by auto
    have "find_row index_key (key_of k d) (rolled now d groups rs) = find_row index_key (key_of k d) rs" for rs
      by (rule rolled_other) (use 2(2) eq in \<open>auto simp: key_of_inj rev_image_eqI\<close>)
    then show ?thesis
      using 2(4) eq by (simp add: find_put_index index_row_key MIN_OBSERVATIONS_def)
  qed
qed simp

lemma rolled_rows:
  "\<forall>(k, bucket) \<in> set groups. (\<forall>o1 \<in> set bucket. observation_ok o1) \<and> length bucket \<le> 2147483647
   \<Longrightarrow> distinct (map index_key rows) \<Longrightarrow> \<forall>x \<in> set rows. index_ok x
   \<Longrightarrow> distinct (map index_key (rolled now d groups rows)) \<and> (\<forall>x \<in> set (rolled now d groups rows). index_ok x)"
proof (induction now d groups rows rule: rolled.induct)
  case (2 now d k bucket groups rows)
  let ?x = "index_row now d k (length bucket) (group_summary bucket)"
  let ?rows = "if length bucket < MIN_OBSERVATIONS then rows else put_index ?x rows"
  have "index_ok ?x" if "\<not> length bucket < MIN_OBSERVATIONS"
    using that 2(2) by (intro index_row_ok) (auto simp: MIN_OBSERVATIONS_def)
  then have "distinct (map index_key ?rows)" "\<forall>x \<in> set ?rows. index_ok x"
    using 2(3,4) put_index_rows(1) [of ?x rows] put_index_rows(2) [of rows ?x] by auto
  moreover have "\<forall>(k, bucket) \<in> set groups. (\<forall>o1 \<in> set bucket. observation_ok o1) \<and> length bucket \<le> 2147483647"
    using 2(2) by auto
  ultimately show ?case using 2(1) by simp
qed auto

section \<open>What every operation keeps\<close>

definition price_inv :: "price_db \<Rightarrow> bool" where
  "price_inv db \<longleftrightarrow>
     (\<forall>o1 \<in> set (pdObservations db). observation_ok o1 \<and> poCardVariantId o1 \<in> vId ` set (pdVariants db))
     \<and> distinct (map poId (pdObservations db))
     \<and> distinct (List.map_filter poBreakPullId (pdObservations db))
     \<and> distinct (map lsId (pdSales db))
     \<and> distinct (List.map_filter lsPriceObservationId (pdSales db))
     \<and> set (List.map_filter lsPriceObservationId (pdSales db))
        = set (map poId (filter (\<lambda>o1. poSource o1 = Live_sale) (pdObservations db)))
     \<and> distinct (map index_key (pdIndex db)) \<and> (\<forall>x \<in> set (pdIndex db). index_ok x)"

lemma day_groups_fine:
  assumes "price_inv db" "length (pdObservations db) \<le> 2147483647"
  shows "\<forall>(k, bucket) \<in> set (buckets group_key (day_rows s db)).
      bucket \<noteq> [] \<and> length bucket \<le> 2147483647
      \<and> (\<forall>o1 \<in> set bucket. observation_ok o1) \<and> fst k \<in> vId ` set (pdVariants db)"
proof (clarify, intro conjI ballI)
  fix c1 c2 c3 bucket
  assume "((c1, c2, c3), bucket) \<in> set (buckets group_key (day_rows s db))"
  from buckets_mem [OF this]
  have b: "bucket = filter (\<lambda>r. group_key r = (c1, c2, c3)) (day_rows s db)" "bucket \<noteq> []" by auto
  show "bucket \<noteq> []" by (fact b)
  have sub: "set bucket \<subseteq> set (pdObservations db)" by (auto simp: b day_rows_def)
  have "length bucket \<le> length (pdObservations db)"
    unfolding b day_rows_def by (meson le_trans length_filter_le)
  then show "length bucket \<le> 2147483647" using assms(2) by simp
  show "observation_ok o1" if "o1 \<in> set bucket" for o1
    using that sub assms(1) by (auto simp: price_inv_def)
  obtain o1 where o1: "o1 \<in> set bucket" using b(2) by (cases bucket) auto
  then have "poCardVariantId o1 = c1" by (simp add: b group_key_def)
  then show "fst (c1, c2, c3) \<in> vId ` set (pdVariants db)"
    using o1 sub assms(1) by (auto simp: price_inv_def)
qed

lemma rollUpDay_rolled:
  fixes day :: int
  assumes "price_inv db" "length (pdObservations db) \<le> 2147483647"
  defines "groups \<equiv> buckets group_key (day_rows (day div DAY_MS * DAY_MS) db)"
  shows "\<exists>w s. rollUpDay now day db =
      (Inr (w, s), db\<lparr>pdIndex := rolled now (day div DAY_MS) groups (pdIndex db)\<rparr>) \<and> w + s = length groups"
  using roll_groups_rolled [OF day_groups_fine [OF assms(1,2), of "day div DAY_MS * DAY_MS"],
      of now "day div DAY_MS" 0 0]
  by (simp add: rollUpDay_def groups_def Let_def)

section \<open>The machine\<close>

text \<open>Every statement of the two query modules, by a session, the worker or a moderator; \<open>Elsewhere\<close>
  is what other modules write: people, the break tables and new variants.\<close>

datatype price_op =
    OpReport string int string UserPriceReport
  | OpLogSale string int string LogLiveSaleInput field_crypto
  | OpDeleteSale string string
  | OpIngestPulls "string \<Rightarrow> string" int
  | OpIngestSales "string \<Rightarrow> string" int nat
  | OpModerate int string bool
  | OpReview int string bool
  | OpRollUp int int
  | OpPurge int
  | OpElsewhere "string list" "CardVariant list" break_db

definition or_fail :: "'e + 'b \<Rightarrow> unit + 'b" where
  "or_fail r = (case r of Inl _ \<Rightarrow> Inl () | Inr x \<Rightarrow> Inr x)"

fun price_step :: "price_op \<Rightarrow> price_db \<Rightarrow> unit + price_db" where
  "price_step (OpReport i now u input) db = or_fail (reportPrice i now u input db)"
| "price_step (OpLogSale i now u input fc) db = or_fail (logLiveSale i now u input fc db)"
| "price_step (OpDeleteSale u k) db = Inr (snd (deleteLiveSale u k db))"
| "price_step (OpIngestPulls newId now) db = or_fail (map_sum id snd (ingestBreakPulls newId now db))"
| "price_step (OpIngestSales newId now n) db = Inr (snd (ingestLiveSales newId now n db))"
| "price_step (OpModerate now k d) db = or_fail (map_sum id snd (moderateObservation now k d db))"
| "price_step (OpReview now k d) db = or_fail (map_sum id snd (reviewFlaggedObservation now k d db))"
| "price_step (OpRollUp now day) db = Inr (snd (rollUpDay now day db))"
| "price_step (OpPurge now) db = Inr (snd (purgeExpiredBuyerHandles now db))"
| "price_step (OpElsewhere us vs bdb) db =
     Inr (db\<lparr>pdUsers := us, pdVariants := pdVariants db @ vs, pdBreaks := bdb\<rparr>)"

lemma or_fail_Inr: "or_fail r = Inr x \<longleftrightarrow> r = Inr x"
  by (simp add: or_fail_def split: sum.splits)

text \<open>An observation of another source.\<close>

lemma inv_insert_observation:
  assumes "price_inv db" "insert_observation r o1 db = Inr db'" "poSource o1 \<noteq> Live_sale"
  shows "price_inv db'"
proof -
  note i = assms(2) [unfolded insert_observation_Inr]
  have "distinct (List.map_filter poBreakPullId (pdObservations db @ [o1]))"
    using assms(1) i by (auto simp: price_inv_def map_filter_set image_iff split: option.splits)
  then show ?thesis
    using assms(1,3) i observation_variant [of o1 db] by (auto simp: price_inv_def)
qed

lemma inv_decide:
  assumes "price_inv db" "decide_observations P f db = Inr (n, db')"
    and "\<And>o1. poId (f o1) = poId o1 \<and> poSource (f o1) = poSource o1 \<and> poBreakPullId (f o1) = poBreakPullId o1
      \<and> poCardVariantId (f o1) = poCardVariantId o1"
  shows "price_inv db'"
proof -
  let ?f = "\<lambda>o1. if P o1 then f o1 else o1"
  have "map poId (map ?f rows) = map poId rows"
    "List.map_filter poBreakPullId (map ?f rows) = List.map_filter poBreakPullId rows"
    "map poId (filter (\<lambda>o1. poSource o1 = Live_sale) (map ?f rows))
      = map poId (filter (\<lambda>o1. poSource o1 = Live_sale) rows)" for rows
    by (induction rows) (simp_all add: List.map_filter_def assms(3))
  note same = this
  note d = decide_observations_Inr [OF assms(2)]
  have "\<forall>o1 \<in> set (map ?f (pdObservations db)).
      observation_ok o1 \<and> poCardVariantId o1 \<in> vId ` set (pdVariants db)"
    using assms(1,3) d by (auto simp: price_inv_def)
  then show ?thesis
    using assms(1) d same by (simp add: price_inv_def del: map_map set_map)
qed

lemma insert_sale_Inr [price_rules]:
  "insert_sale u s db = Inr db' \<Longrightarrow>
     db' = db\<lparr>pdSales := pdSales db @ [s]\<rparr> \<and> lsId s \<notin> lsId ` set (pdSales db) \<and> lsSellerId s = u"
  by (auto simp: insert_sale_def split: option.splits if_splits)

lemma inv_insert_sale:
  "price_inv db \<Longrightarrow> insert_sale u s db = Inr db' \<Longrightarrow> lsPriceObservationId s = None \<Longrightarrow> price_inv db'"
  using insert_sale_Inr [of u s db db'] by (auto simp: price_inv_def)

lemma insert_pulls_step:
  assumes "price_inv db" "insert_pulls newId now ps db = Inr (n, db')"
  shows "price_inv db'"
  using assms
proof (induction newId now ps db arbitrary: n db' rule: insert_pulls.induct)
  case (2 newId now p ps db)
  show ?case
  proof (cases "ingestible (pdBreaks db) p")
    case None
    then show ?thesis using 2 by simp
  next
    case (Some v)
    show ?thesis
    proof (cases "insert_observation WorkerRole (pull_observation newId now p v) db")
      case (Inl e)
      then show ?thesis using 2 Some by (auto split: if_splits)
    next
      case (Inr db1)
      have "price_inv db1"
        by (rule inv_insert_observation [OF 2(4) Inr]) (simp add: pull_observation_def)
      then show ?thesis using 2(3) [OF Some Inr] 2(5) Some Inr by (auto split: sum.splits)
    qed
  qed
qed simp

lemma link_one:
  fixes now :: int
  assumes "distinct (map lsId sales)" "list_ex unlinked sales"
    and "unlinked = (\<lambda>r. lsId r = k \<and> lsPriceObservationId r = None)"
    and "n \<notin> set (List.map_filter lsPriceObservationId sales)"
    and "distinct (List.map_filter lsPriceObservationId sales)"
  defines "linked \<equiv> map (\<lambda>r. if unlinked r then r\<lparr>lsPriceObservationId := Some n, lsUpdatedAt := now\<rparr> else r) sales"
  shows "set (List.map_filter lsPriceObservationId linked) = insert n (set (List.map_filter lsPriceObservationId sales))"
    "distinct (List.map_filter lsPriceObservationId linked)" "map lsId linked = map lsId sales"
proof -
  have other: "map (\<lambda>r. if unlinked r then r\<lparr>lsPriceObservationId := Some n, lsUpdatedAt := now\<rparr> else r) rows = rows"
    if "k \<notin> lsId ` set rows" for rows
    using that by (intro map_idI) (auto simp: assms(3))
  obtain r where r: "r \<in> set sales" "unlinked r" using assms(2) by (auto simp: list_ex_iff)
  then obtain xs ys where split: "sales = xs @ r # ys" by (meson split_list)
  then have "k \<notin> lsId ` set xs" "k \<notin> lsId ` set ys"
    using assms(1) r(2) by (auto simp: assms(3))
  then have eq: "linked = xs @ r\<lparr>lsPriceObservationId := Some n, lsUpdatedAt := now\<rparr> # ys"
    using r(2) other [of xs] other [of ys] by (simp add: linked_def split)
  have none: "lsPriceObservationId r = None" using r(2) by (simp add: assms(3))
  show "set (List.map_filter lsPriceObservationId linked) = insert n (set (List.map_filter lsPriceObservationId sales))"
    "distinct (List.map_filter lsPriceObservationId linked)"
    using assms(4,5) none by (auto simp: eq split List.map_filter_def)
  show "map lsId linked = map lsId sales" by (simp add: eq split)
qed

lemma inv_ingest_sale:
  assumes "price_inv db" "ingest_sale newId now s v fl db = Inr db'"
  shows "price_inv db'"
proof -
  let ?o = "sale_observation newId now s v fl"
  let ?unlinked = "\<lambda>r. lsId r = lsId s \<and> lsPriceObservationId r = None"
  let ?db1 = "db\<lparr>pdObservations := pdObservations db @ [?o]\<rparr>"
  obtain db1 where ins: "insert_observation WorkerRole ?o db = Inr db1"
    using assms(2) by (auto simp: ingest_sale_def split: sum.splits)
  note i = ins [unfolded insert_observation_Inr]
  consider "db' = db"
    | "list_ex ?unlinked (pdSales db)" "Some newId \<notin> lsPriceObservationId ` set (pdSales db)"
      "db' = ?db1\<lparr>pdSales := map (\<lambda>r. if ?unlinked r
            then r\<lparr>lsPriceObservationId := Some newId, lsUpdatedAt := now\<rparr> else r) (pdSales db)\<rparr>"
    using assms(2) i by (auto simp: ingest_sale_def Let_def ins split: if_splits)
  then show ?thesis
  proof cases
    case 2
    have "newId \<notin> set (List.map_filter lsPriceObservationId (pdSales db))"
      using 2(2) by (force simp: map_filter_set)
    note l = link_one [OF _ 2(1) refl this, of now]
    define sales where "sales = map (\<lambda>r. if ?unlinked r
            then r\<lparr>lsPriceObservationId := Some newId, lsUpdatedAt := now\<rparr> else r) (pdSales db)"
    have sales: "set (List.map_filter lsPriceObservationId sales)
        = insert newId (set (List.map_filter lsPriceObservationId (pdSales db)))"
      "distinct (List.map_filter lsPriceObservationId sales)" "map lsId sales = map lsId (pdSales db)"
      using l assms(1) unfolding sales_def price_inv_def by blast+
    have o1: "poId ?o = newId" "poSource ?o = Live_sale" "poCardVariantId ?o = v" "poBreakPullId ?o = None"
      by (simp_all add: sale_observation_def)
    show ?thesis
      using sales assms(1) i observation_variant [of ?o db] o1
      unfolding 2(3) sales_def [symmetric] price_inv_def by simp
  qed (use assms(1) in simp)
qed

lemma inv_ingest_rows:
  "price_inv db \<Longrightarrow> price_inv (snd (ingest_rows newId now rows r db))"
proof (induction newId now rows r db rule: ingest_rows.induct)
  case (2 newId now s spread rows r db)
  show ?case
  proof (cases "lsCardVariantId s")
    case None
    then show ?thesis using 2(1,3) by simp
  next
    case (Some v)
    show ?thesis
    proof (cases "ingest_sale (newId (lsId s)) now s v (held_back s spread) db")
      case (Inl e)
      then show ?thesis using Some 2(3) by simp
    next
      case (Inr db1)
      have "price_inv db1" by (rule inv_ingest_sale [OF 2(3) Inr])
      then show ?thesis using 2(2) [OF Some refl Inr] Some Inr by simp
    qed
  qed
qed simp

lemma roll_groups_keeps:
  assumes "\<And>x db db'. Q db \<Longrightarrow> upsert_index x db = Inr db' \<Longrightarrow> Q db'" "Q db"
  shows "Q (snd (roll_groups now d groups w s db))"
  using assms(2)
proof (induction now d groups w s db rule: roll_groups.induct)
  case (2 now d k bucket groups w s db)
  show ?case
  proof (cases "length bucket < MIN_OBSERVATIONS")
    case False
    show ?thesis
    proof (cases "weighted_summary bucket")
      case (Inr r)
      then show ?thesis
        using 2 False assms(1) [OF 2(4)] by (auto split: option.splits sum.splits)
    qed (use 2 False in simp)
  qed (use 2 in simp)
qed simp

lemma inv_upsert: "price_inv db \<Longrightarrow> upsert_index x db = Inr db' \<Longrightarrow> price_inv db'"
  using upsert_index_Inr [of x db db'] put_index_rows(1) [of x "pdIndex db"]
    put_index_rows(2) [of "pdIndex db" x]
  by (auto simp: price_inv_def)

lemma inv_report: "price_inv db \<Longrightarrow> reportPrice i now u input db = Inr db' \<Longrightarrow> price_inv db'"
  by (auto simp: reportPrice_def Let_def reported_row_def split: sum.splits if_splits
      intro: inv_insert_observation)

lemma logLiveSale_Inr:
  "logLiveSale i now u input fc db = Inr db' \<Longrightarrow>
     \<exists>enc. insert_sale u (logged_row i now u input enc) db = Inr db'"
  by (auto simp: logLiveSale_def split: sum.splits if_splits)

lemma inv_log_sale: "price_inv db \<Longrightarrow> logLiveSale i now u input fc db = Inr db' \<Longrightarrow> price_inv db'"
  by (auto dest!: logLiveSale_Inr intro: inv_insert_sale simp: logged_row_def)

lemma inv_delete_sale: "price_inv db \<Longrightarrow> price_inv (snd (deleteLiveSale u k db))"
proof -
  let ?gone = "\<lambda>s. lsId s = k \<and> lsSellerId s = u \<and> sale_deletable u s"
  have links: "List.map_filter lsPriceObservationId (filter (\<lambda>s. \<not> ?gone s) rows)
      = List.map_filter lsPriceObservationId rows" for rows
    by (induction rows) (auto simp: List.map_filter_def sale_deletable_def)
  show "price_inv db \<Longrightarrow> ?thesis"
    unfolding price_inv_def deleteLiveSale_def Let_def snd_conv
    using links by (simp add: distinct_map_filter)
qed

lemma inv_purge: "price_inv db \<Longrightarrow> price_inv (snd (purgeExpiredBuyerHandles now db))"
proof -
  let ?f = "\<lambda>s. if purgeable now s
      then s\<lparr>lsBuyerHandleEncrypted := None, lsHasBuyerHandle := False, lsUpdatedAt := now\<rparr> else s"
  have same: "List.map_filter lsPriceObservationId (map ?f rows) = List.map_filter lsPriceObservationId rows"
    "map lsId (map ?f rows) = map lsId rows" for rows
    by (induction rows) (simp_all add: List.map_filter_def)
  show "price_inv db \<Longrightarrow> ?thesis"
    unfolding price_inv_def purgeExpiredBuyerHandles_def snd_conv
    using same by (simp del: map_map set_map)
qed

lemma step_keeps_inv: "price_inv db \<Longrightarrow> price_step x db = Inr db' \<Longrightarrow> price_inv db'"
proof (cases x)
  case (OpElsewhere us vs bdb)
  then show "price_inv db \<Longrightarrow> price_step x db = Inr db' \<Longrightarrow> ?thesis"
    by (auto simp: price_inv_def image_Un)
next
  case (OpModerate now k d)
  then show "price_inv db \<Longrightarrow> price_step x db = Inr db' \<Longrightarrow> ?thesis"
    by (auto simp: or_fail_Inr moderateObservation_def split: sum.splits elim: inv_decide)
next
  case (OpReview now k d)
  then show "price_inv db \<Longrightarrow> price_step x db = Inr db' \<Longrightarrow> ?thesis"
    by (auto simp: or_fail_Inr reviewFlaggedObservation_def split: sum.splits elim: inv_decide)
next
  case (OpRollUp now day)
  then show "price_inv db \<Longrightarrow> price_step x db = Inr db' \<Longrightarrow> ?thesis"
    by (auto simp: rollUpDay_def Let_def intro!: roll_groups_keeps [of price_inv] elim: inv_upsert)
next
  case (OpIngestPulls newId now)
  then show "price_inv db \<Longrightarrow> price_step x db = Inr db' \<Longrightarrow> ?thesis"
    by (cases "ingestBreakPulls newId now db")
      (auto simp: or_fail_Inr ingestBreakPulls_def elim: insert_pulls_step)
next
  case (OpReport i now u input)
  then show "price_inv db \<Longrightarrow> price_step x db = Inr db' \<Longrightarrow> ?thesis"
    by (simp add: or_fail_Inr) (rule inv_report)
next
  case (OpLogSale i now u input fc)
  then show "price_inv db \<Longrightarrow> price_step x db = Inr db' \<Longrightarrow> ?thesis"
    by (simp add: or_fail_Inr) (rule inv_log_sale)
next
  case (OpDeleteSale u k)
  then show "price_inv db \<Longrightarrow> price_step x db = Inr db' \<Longrightarrow> ?thesis"
    using inv_delete_sale by auto
next
  case (OpIngestSales newId now n)
  then show "price_inv db \<Longrightarrow> price_step x db = Inr db' \<Longrightarrow> ?thesis"
    using inv_ingest_rows by (auto simp: ingestLiveSales_def)
next
  case (OpPurge now)
  then show "price_inv db \<Longrightarrow> price_step x db = Inr db' \<Longrightarrow> ?thesis"
    using inv_purge by auto
qed

interpretation price: txn_machine price_step price_inv
  by unfold_locales (rule step_keeps_inv)

text \<open>A store whose price tables are empty.\<close>

definition price_start :: "price_db \<Rightarrow> bool" where
  "price_start db \<longleftrightarrow> pdObservations db = [] \<and> pdIndex db = [] \<and> pdSales db = []"

lemma price_start_inv: "price_start db \<Longrightarrow> price_inv db"
  by (simp add: price_start_def price_inv_def List.map_filter_def)

lemmas reached_inv = price.run_inv [OF price_start_inv]

end
