(* ===== verification/KeyRotation.thy ===== *)
theory KeyRotation
  imports LiveSaleStore "HOL-Library.List_Lexorder" "HOL-Library.Char_ord"
begin

text \<open>
  Re-encrypting every encrypted field under the active key (\<open>packages/db/src/queries/key-rotation.ts\<close>):
  the sealed seeds of breaks and the buyers' handles, account by account. Each account is one
  transaction. The nonce drawn for a row is \<open>rtIv\<close> of its identifier.
\<close>

section \<open>The operation\<close>

datatype rotation_error = RotationField field_error | NotRoundTripped

record tally =
  tlCounts :: "(string \<times> nat) list"
  tlReencrypted :: nat
  tlFailed :: nat

definition emptyField :: tally where
  "emptyField = \<lparr>tlCounts = [], tlReencrypted = 0, tlFailed = 0\<rparr>"

record rotator =
  rtRing :: KeyRing
  rtIv :: "string \<Rightarrow> bytes"
  rtSeal :: "bytes \<Rightarrow> bytes \<Rightarrow> string \<Rightarrow> bytes \<times> bytes"
  rtOpen :: "bytes \<Rightarrow> bytes \<Rightarrow> bytes \<Rightarrow> bytes \<Rightarrow> string option"
  rtDryRun :: bool

text \<open>The state of a run: one field's tally, the keys still needed and the store.\<close>

type_synonym 'db rotation = "tally \<times> string list \<times> 'db"

definition set_add :: "'a \<Rightarrow> 'a list \<Rightarrow> 'a list" where
  "set_add k ks = (if k \<in> set ks then ks else ks @ [k])"

definition value_kid :: "string \<Rightarrow> string" where
  "value_kid v = (case keyIdOf v of Some kid \<Rightarrow> kid | None \<Rightarrow> ''(unrecognised)'')"

definition count_value :: "string \<Rightarrow> tally \<Rightarrow> tally" where
  "count_value kid t =
     t\<lparr>tlCounts := map_set kid ((case map_of (tlCounts t) kid of None \<Rightarrow> 0 | Some n \<Rightarrow> n) + 1) (tlCounts t)\<rparr>"

definition rotateValue ::
  "rotator \<Rightarrow> (string \<Rightarrow> string \<Rightarrow> string \<Rightarrow> 'db \<Rightarrow> bool \<times> 'db) \<Rightarrow> string \<times> string \<Rightarrow> 'db rotation
     \<Rightarrow> rotation_error + 'db rotation" where
  "rotateValue rt write row st =
     (case (row, st) of ((k, v), (t0, stillNeeded, db)) \<Rightarrow>
        let kid = value_kid v; t = count_value kid t0 in
        if kid = ringActive (rtRing rt) then Inr (t, stillNeeded, db)
        else case decryptField (rtOpen rt) (rtRing rt) v of
          Inl _ \<Rightarrow> Inr (t\<lparr>tlFailed := tlFailed t + 1\<rparr>, set_add kid stillNeeded, db)
        | Inr plaintext \<Rightarrow>
            if rtDryRun rt then Inr (t, set_add kid stillNeeded, db)
            else case encryptField (rtSeal rt) (rtRing rt) (rtIv rt k) plaintext of
              Inl e \<Rightarrow> Inl (RotationField e)
            | Inr next_value \<Rightarrow>
                (case decryptField (rtOpen rt) (rtRing rt) next_value of
                   Inl e \<Rightarrow> Inl (RotationField e)
                 | Inr again \<Rightarrow>
                     if again \<noteq> plaintext then Inl NotRoundTripped
                     else case write k v next_value db of
                       (True, db') \<Rightarrow> Inr (t\<lparr>tlReencrypted := tlReencrypted t + 1\<rparr>, stillNeeded, db')
                     | (False, db') \<Rightarrow> Inr (t, set_add kid stillNeeded, db')))"

fun rotate_rows ::
  "rotator \<Rightarrow> (string \<Rightarrow> string \<Rightarrow> string \<Rightarrow> 'db \<Rightarrow> bool \<times> 'db) \<Rightarrow> (string \<times> string) list \<Rightarrow> 'db rotation
     \<Rightarrow> rotation_error + 'db rotation" where
  "rotate_rows rt write [] st = Inr st"
| "rotate_rows rt write (row # rows) st =
     (case rotateValue rt write row st of Inl e \<Rightarrow> Inl e | Inr st' \<Rightarrow> rotate_rows rt write rows st')"

text \<open>\<open>update ... set value = to where id = k and value = from returning id\<close>, for both tables.\<close>

definition seedWriter :: "string \<Rightarrow> string \<Rightarrow> string \<Rightarrow> price_db \<Rightarrow> bool \<times> price_db" where
  "seedWriter k from_value to_value db =
     (let hit = (\<lambda>c. cmId c = k \<and> cmSeedEncrypted c = from_value) in
      (list_ex hit (commitmentRows (pdBreaks db)),
       db\<lparr>pdBreaks := (pdBreaks db)\<lparr>commitmentRows :=
         map (\<lambda>c. if hit c then c\<lparr>cmSeedEncrypted := to_value\<rparr> else c) (commitmentRows (pdBreaks db))\<rparr>\<rparr>))"

definition handleWriter :: "string \<Rightarrow> string \<Rightarrow> string \<Rightarrow> price_db \<Rightarrow> bool \<times> price_db" where
  "handleWriter k from_value to_value db =
     (let hit = (\<lambda>s. lsId s = k \<and> lsBuyerHandleEncrypted s = Some from_value) in
      (list_ex hit (pdSales db),
       db\<lparr>pdSales := map (\<lambda>s. if hit s then s\<lparr>lsBuyerHandleEncrypted := Some to_value\<rparr> else s) (pdSales db)\<rparr>))"

definition seed_rows :: "string \<Rightarrow> price_db \<Rightarrow> (string \<times> string) list" where
  "seed_rows userId db =
     map (\<lambda>c. (cmId c, cmSeedEncrypted c))
       (filter (\<lambda>c. list_ex (\<lambda>b. bId b = cmBreakId c \<and> bCreatorId b = userId) (breakRows (pdBreaks db)))
         (commitmentRows (pdBreaks db)))"

definition handle_rows :: "string \<Rightarrow> price_db \<Rightarrow> (string \<times> string) list" where
  "handle_rows userId db =
     List.map_filter
       (\<lambda>s. if lsSellerId s = userId then map_option (\<lambda>v. (lsId s, v)) (lsBuyerHandleEncrypted s) else None)
       (pdSales db)"

text \<open>One account's transaction: both fields' tallies, the keys needed and the store.\<close>

definition rotate_account ::
  "rotator \<Rightarrow> string \<Rightarrow> tally \<times> tally \<times> string list \<times> price_db
     \<Rightarrow> rotation_error + tally \<times> tally \<times> string list \<times> price_db" where
  "rotate_account rt userId st =
     (case st of (seeds, handles, stillNeeded, db) \<Rightarrow>
        case rotate_rows rt seedWriter (seed_rows userId db) (seeds, stillNeeded, db) of
          Inl e \<Rightarrow> Inl e
        | Inr (seeds', stillNeeded1, db1) \<Rightarrow>
            (case rotate_rows rt handleWriter (handle_rows userId db1) (handles, stillNeeded1, db1) of
               Inl e \<Rightarrow> Inl e
             | Inr (handles', stillNeeded2, db2) \<Rightarrow> Inr (seeds', handles', stillNeeded2, db2)))"

text \<open>An account that fails ends the run; the accounts before it are committed.\<close>

fun rotate_accounts ::
  "rotator \<Rightarrow> string list \<Rightarrow> tally \<times> tally \<times> string list \<times> price_db
     \<Rightarrow> (rotation_error + tally \<times> tally \<times> string list) \<times> price_db" where
  "rotate_accounts rt [] (seeds, handles, stillNeeded, db) = (Inr (seeds, handles, stillNeeded), db)"
| "rotate_accounts rt (userId # rest) (seeds, handles, stillNeeded, db) =
     (case rotate_account rt userId (seeds, handles, stillNeeded, db) of
        Inl e \<Rightarrow> (Inl e, db)
      | Inr st \<Rightarrow> rotate_accounts rt rest st)"

record RotationReport =
  rrActiveKid :: string
  rrDryRun :: bool
  rrSeeds :: tally
  rrHandles :: tally
  rrStillNeeded :: "string list"

definition rotateEncryptedFields :: "rotator \<Rightarrow> price_db \<Rightarrow> (rotation_error + RotationReport) \<times> price_db" where
  "rotateEncryptedFields rt db =
     (case rotate_accounts rt (pdUsers db) (emptyField, emptyField, [ringActive (rtRing rt)], db) of
        (Inl e, db') \<Rightarrow> (Inl e, db')
      | (Inr (seeds, handles, stillNeeded), db') \<Rightarrow>
          (Inr \<lparr>rrActiveKid = ringActive (rtRing rt), rrDryRun = rtDryRun rt, rrSeeds = seeds,
                rrHandles = handles, rrStillNeeded = sort stillNeeded\<rparr>, db'))"

section \<open>One value\<close>

text \<open>What the run relies on: the cipher's contract, a validated active key and nonces of 12 bytes.\<close>

definition rotator_ok :: "rotator \<Rightarrow> bool" where
  "rotator_ok rt \<longleftrightarrow>
     gcm_ok (rtSeal rt) (rtOpen rt) \<and> safe_kid (ringActive (rtRing rt))
     \<and> ringActive (rtRing rt) \<in> fst ` set (ringKeys (rtRing rt))
     \<and> (\<forall>k. length (rtIv rt k) = IV_BYTES \<and> (\<forall>b \<in> set (rtIv rt k). b < 256))"

text \<open>The value a run leaves for a stored one.\<close>

definition new_value :: "rotator \<Rightarrow> string \<Rightarrow> string \<Rightarrow> string" where
  "new_value rt k v =
     (if value_kid v = ringActive (rtRing rt) \<or> rtDryRun rt then v
      else case decryptField (rtOpen rt) (rtRing rt) v of
        Inl _ \<Rightarrow> v
      | Inr plaintext \<Rightarrow>
          (case encryptField (rtSeal rt) (rtRing rt) (rtIv rt k) plaintext of Inl _ \<Rightarrow> v | Inr enc \<Rightarrow> enc))"

text \<open>The ring without the keys that are not in a list.\<close>

definition retire :: "KeyRing \<Rightarrow> string list \<Rightarrow> KeyRing" where
  "retire ring kids = ring\<lparr>ringKeys := filter (\<lambda>(k, _). k \<in> set kids) (ringKeys ring)\<rparr>"

lemma retire_key: "k \<in> set kids \<Longrightarrow> map_of (ringKeys (retire ring kids)) k = map_of (ringKeys ring) k"
proof -
  have "k \<in> set kids \<Longrightarrow> map_of (filter (\<lambda>(k, _). k \<in> set kids) xs) k = map_of xs k" for xs :: "(string \<times> bytes) list"
    by (induction xs) auto
  then show "k \<in> set kids \<Longrightarrow> ?thesis" by (simp add: retire_def)
qed

lemma decrypt_names_key:
  "decryptField gcm_open ring v = Inr plain \<Longrightarrow> keyIdOf v = Some (value_kid v)"
  by (auto simp: decryptField_def keyIdOf_def value_kid_def Let_def split: list.splits if_splits)

lemma decrypt_same_key:
  assumes "map_of (ringKeys ring') (value_kid v) = map_of (ringKeys ring) (value_kid v)"
    "decryptField gcm_open ring v = Inr plain"
  shows "decryptField gcm_open ring' v = Inr plain"
  using assms(2) decrypt_names_key [OF assms(2)] assms(1)
  by (auto simp: decryptField_def keyIdOf_def Let_def split: list.splits if_splits option.splits)

lemma reencrypted:
  assumes "rotator_ok rt" "decryptField (rtOpen rt) (rtRing rt) v = Inr plain"
  obtains enc where "encryptField (rtSeal rt) (rtRing rt) (rtIv rt k) plain = Inr enc"
    "decryptField (rtOpen rt) (rtRing rt) enc = Inr plain" "value_kid enc = ringActive (rtRing rt)"
proof -
  obtain key where key: "map_of (ringKeys (rtRing rt)) (ringActive (rtRing rt)) = Some key"
    using assms(1) by (cases "map_of (ringKeys (rtRing rt)) (ringActive (rtRing rt))")
      (auto simp: rotator_ok_def map_of_eq_None_iff)
  have ok: "gcm_ok (rtSeal rt) (rtOpen rt)" "safe_kid (ringActive (rtRing rt))"
    "\<forall>b \<in> set (rtIv rt k). b < 256" "length (rtIv rt k) = IV_BYTES"
    using assms(1) by (auto simp: rotator_ok_def)
  from encryptField_shape [OF key ok(2,1,3), of plain] obtain enc where
    enc: "encryptField (rtSeal rt) (rtRing rt) (rtIv rt k) plain = Inr enc" by blast
  from decrypt_encrypt [OF key ok(2,1,3,4) enc key] enc that show thesis
    by (simp add: value_kid_def)
qed

lemma new_value_settled:
  assumes "rotator_ok rt"
  shows "new_value rt k (new_value rt k v) = new_value rt k v"
proof (cases "decryptField (rtOpen rt) (rtRing rt) v")
  case (Inr plain)
  from reencrypted [OF assms Inr, of k] show ?thesis
    by (metis (no_types, lifting) Inr new_value_def sum.case(2))
qed (simp add: new_value_def)

section \<open>A column of encrypted values\<close>

text \<open>What a field's writer promises: the cells are the stored values by row, a write of a cell's own
  value replaces that cell and nothing else, and any other write does nothing.\<close>

locale encrypted_column =
  fixes cells :: "price_db \<Rightarrow> (string \<times> string) list"
    and others :: "price_db \<Rightarrow> price_db"
    and put :: "string \<Rightarrow> string \<Rightarrow> string \<Rightarrow> price_db \<Rightarrow> bool \<times> price_db"
  assumes write_cell: "(k, v) \<in> set (cells db) \<Longrightarrow> distinct (map fst (cells db)) \<Longrightarrow>
      fst (put k v w db) \<and> cells (snd (put k v w db)) = map (\<lambda>(i, x). (i, if i = k then w else x)) (cells db)"
    and write_stale: "(k, v) \<notin> set (cells db) \<Longrightarrow> put k v w db = (False, db)"
    and write_others: "others (snd (put k v w db)) = others db"
begin

text \<open>A row of a run: its value becomes the new one, and a key that can no longer be spared is noted.\<close>

lemma rotate_one:
  assumes "rotator_ok rt" "(k, v) \<in> set (cells db)" "distinct (map fst (cells db))"
  shows "\<exists>t' needed' db'. rotateValue rt put (k, v) (t, needed, db) = Inr (t', needed', db')
    \<and> cells db' = map (\<lambda>(i, x). (i, if i = k then new_value rt k v else x)) (cells db)
    \<and> others db' = others db \<and> set needed \<subseteq> set needed'
    \<and> (new_value rt k v = v \<longrightarrow> value_kid v \<in> insert (ringActive (rtRing rt)) (set needed'))"
proof -
  have same: "map (\<lambda>(i, x). (i, if i = k then v else x)) (cells db) = cells db"
    using assms(2,3) by (intro map_idI) (auto dest: eq_key_imp_eq_value)
  show ?thesis
  proof (cases "value_kid v = ringActive (rtRing rt)")
    case True
    then have "new_value rt k v = v" by (simp add: new_value_def)
    then show ?thesis unfolding \<open>new_value rt k v = v\<close> same using True by (auto simp: rotateValue_def Let_def)
  next
    case False
    show ?thesis
    proof (cases "decryptField (rtOpen rt) (rtRing rt) v")
      case (Inl e)
      then have "new_value rt k v = v" by (simp add: new_value_def)
      then show ?thesis unfolding \<open>new_value rt k v = v\<close> same using False Inl
        by (auto simp: rotateValue_def Let_def set_add_def)
    next
      case (Inr plain)
      obtain enc where enc: "encryptField (rtSeal rt) (rtRing rt) (rtIv rt k) plain = Inr enc"
        "decryptField (rtOpen rt) (rtRing rt) enc = Inr plain" "value_kid enc = ringActive (rtRing rt)"
        using reencrypted [OF assms(1) Inr] by blast
      show ?thesis
      proof (cases "rtDryRun rt")
        case True
        then have "new_value rt k v = v" by (simp add: new_value_def)
        then show ?thesis unfolding \<open>new_value rt k v = v\<close> same using False Inr True
          by (auto simp: rotateValue_def Let_def set_add_def)
      next
        case wet: False
        obtain db' where w: "put k v enc db = (True, db')"
          "cells db' = map (\<lambda>(i, x). (i, if i = k then enc else x)) (cells db)" "others db' = others db"
          using write_cell [OF assms(2,3), of enc] write_others [of k v enc db]
          by (cases "put k v enc db") auto
        have new: "new_value rt k v = enc" "enc \<noteq> v"
          using False Inr wet enc by (auto simp: new_value_def)
        show ?thesis unfolding new(1)
          using w False Inr enc wet new(2) by (simp add: rotateValue_def Let_def)
      qed
    qed
  qed
qed

lemma rotate_all:
  assumes "rotator_ok rt" "set rows \<subseteq> set (cells db)" "distinct (map fst rows)" "distinct (map fst (cells db))"
  shows "\<exists>t' needed' db'. rotate_rows rt put rows (t, needed, db) = Inr (t', needed', db')
    \<and> cells db' = map (\<lambda>(i, x). (i, if i \<in> fst ` set rows then new_value rt i x else x)) (cells db)
    \<and> others db' = others db \<and> set needed \<subseteq> set needed'
    \<and> (\<forall>(i, x) \<in> set rows. new_value rt i x = x \<longrightarrow> value_kid x \<in> insert (ringActive (rtRing rt)) (set needed'))"
  using assms(2-4)
proof (induction rows arbitrary: t needed db)
  case (Cons row rows)
  obtain k v where row: "row = (k, v)" by (cases row)
  have mem: "(k, v) \<in> set (cells db)" using Cons.prems(1) row by simp
  from rotate_one [OF assms(1) mem Cons.prems(3), of t needed] obtain t1 needed1 db1 where
    one: "rotateValue rt put (k, v) (t, needed, db) = Inr (t1, needed1, db1)"
      "cells db1 = map (\<lambda>(i, x). (i, if i = k then new_value rt k v else x)) (cells db)"
      "others db1 = others db" "set needed \<subseteq> set needed1"
      "new_value rt k v = v \<longrightarrow> value_kid v \<in> insert (ringActive (rtRing rt)) (set needed1)" by blast
  have keys: "map fst (cells db1) = map fst (cells db)" by (simp add: one(2) case_prod_beta)
  have "set rows \<subseteq> set (cells db1)"
  proof
    fix r assume r: "r \<in> set rows"
    then have "fst r \<noteq> k" using Cons.prems(2) row by force
    moreover have "r \<in> set (cells db)" using r Cons.prems(1) by auto
    ultimately show "r \<in> set (cells db1)" by (cases r) (force simp: one(2) image_iff)
  qed
  from Cons.IH [OF this, of t1 needed1] Cons.prems(2,3) keys obtain t2 needed2 db2 where
    two: "rotate_rows rt put rows (t1, needed1, db1) = Inr (t2, needed2, db2)"
      "cells db2 = map (\<lambda>(i, x). (i, if i \<in> fst ` set rows then new_value rt i x else x)) (cells db1)"
      "others db2 = others db1" "set needed1 \<subseteq> set needed2"
      "\<forall>(i, x) \<in> set rows. new_value rt i x = x \<longrightarrow> value_kid x \<in> insert (ringActive (rtRing rt)) (set needed2)"
    by auto
  have "k \<notin> fst ` set rows" using Cons.prems(2) row by simp
  moreover have "x = v" if "(k, x) \<in> set (cells db)" for x
    using that mem Cons.prems(3) eq_key_imp_eq_value by fast
  ultimately have "cells db2 = map (\<lambda>(i, x). (i, if i \<in> fst ` set (row # rows) then new_value rt i x else x)) (cells db)"
    unfolding two(2) one(2) row by (auto simp: case_prod_beta)
  moreover have "\<forall>(i, x) \<in> set (row # rows). new_value rt i x = x \<longrightarrow>
      value_kid x \<in> insert (ringActive (rtRing rt)) (set needed2)"
    using two(4,5) one(5) row by auto
  ultimately show ?case
    using one two row by auto
qed auto

end

text \<open>The seeds and the handles are such columns.\<close>

definition seed_cells :: "price_db \<Rightarrow> (string \<times> string) list" where
  "seed_cells db = map (\<lambda>c. (cmId c, cmSeedEncrypted c)) (commitmentRows (pdBreaks db))"

definition without_seeds :: "price_db \<Rightarrow> price_db" where
  "without_seeds db = db\<lparr>pdBreaks := (pdBreaks db)\<lparr>commitmentRows :=
     map (\<lambda>c. c\<lparr>cmSeedEncrypted := []\<rparr>) (commitmentRows (pdBreaks db))\<rparr>\<rparr>"

definition handle_cells :: "price_db \<Rightarrow> (string \<times> string) list" where
  "handle_cells db =
     List.map_filter (\<lambda>s. map_option (\<lambda>v. (lsId s, v)) (lsBuyerHandleEncrypted s)) (pdSales db)"

definition without_handles :: "price_db \<Rightarrow> price_db" where
  "without_handles db = db\<lparr>pdSales :=
     map (\<lambda>s. s\<lparr>lsBuyerHandleEncrypted := map_option (\<lambda>_. []) (lsBuyerHandleEncrypted s)\<rparr>) (pdSales db)\<rparr>"

interpretation seeds: encrypted_column seed_cells without_seeds seedWriter
proof
  fix k v w db
  show "(k, v) \<in> set (seed_cells db) \<Longrightarrow> distinct (map fst (seed_cells db)) \<Longrightarrow>
      fst (seedWriter k v w db)
      \<and> seed_cells (snd (seedWriter k v w db)) = map (\<lambda>(i, x). (i, if i = k then w else x)) (seed_cells db)"
    by (auto simp: seed_cells_def seedWriter_def Let_def list_ex_iff comp_def distinct_map inj_on_def)
  show "(k, v) \<notin> set (seed_cells db) \<Longrightarrow> seedWriter k v w db = (False, db)"
  proof -
    assume "(k, v) \<notin> set (seed_cells db)"
    then have none: "\<forall>c \<in> set (commitmentRows (pdBreaks db)). \<not> (cmId c = k \<and> cmSeedEncrypted c = v)"
      by (auto simp: seed_cells_def)
    then have "map (\<lambda>c. if cmId c = k \<and> cmSeedEncrypted c = v then c\<lparr>cmSeedEncrypted := w\<rparr> else c)
        (commitmentRows (pdBreaks db)) = commitmentRows (pdBreaks db)"
      by (intro map_idI) auto
    then show ?thesis using none by (simp add: seedWriter_def Let_def list_ex_iff del: map_eq_conv)
  qed
  show "without_seeds (snd (seedWriter k v w db)) = without_seeds db"
    by (auto simp: without_seeds_def seedWriter_def Let_def comp_def intro!: map_cong)
qed

interpretation handles: encrypted_column handle_cells without_handles handleWriter
proof
  fix k v w db
  let ?hit = "\<lambda>s. lsId s = k \<and> lsBuyerHandleEncrypted s = Some v"
  let ?upd = "\<lambda>s. if ?hit s then s\<lparr>lsBuyerHandleEncrypted := Some w\<rparr> else s"
  have cells: "List.map_filter (\<lambda>s. map_option (\<lambda>v. (lsId s, v)) (lsBuyerHandleEncrypted s)) (map ?upd rows)
      = map (\<lambda>(i, x). (i, if i = k \<and> x = v then w else x))
          (List.map_filter (\<lambda>s. map_option (\<lambda>v. (lsId s, v)) (lsBuyerHandleEncrypted s)) rows)" for rows
    by (induction rows) (auto simp: List.map_filter_def)
  show "fst (handleWriter k v w db)
      \<and> handle_cells (snd (handleWriter k v w db)) = map (\<lambda>(i, x). (i, if i = k then w else x)) (handle_cells db)"
    if kv: "(k, v) \<in> set (handle_cells db)" and d: "distinct (map fst (handle_cells db))"
  proof
    show "fst (handleWriter k v w db)"
      using kv by (auto simp: handle_cells_def handleWriter_def Let_def list_ex_iff map_filter_set)
    have "x = v" if "(k, x) \<in> set (handle_cells db)" for x
      using that kv d eq_key_imp_eq_value by fast
    then have "map (\<lambda>(i, x). (i, if i = k \<and> x = v then w else x)) (handle_cells db)
        = map (\<lambda>(i, x). (i, if i = k then w else x)) (handle_cells db)" by auto
    then show "handle_cells (snd (handleWriter k v w db)) = map (\<lambda>(i, x). (i, if i = k then w else x)) (handle_cells db)"
      using cells [of "pdSales db"] by (simp add: handleWriter_def Let_def flip: handle_cells_def)
        (simp add: handle_cells_def)
  qed
  show "handleWriter k v w db = (False, db)" if "(k, v) \<notin> set (handle_cells db)"
  proof -
    from that have none: "\<forall>s \<in> set (pdSales db). \<not> ?hit s"
      by (auto simp: handle_cells_def map_filter_set)
    then have "map ?upd (pdSales db) = pdSales db" by (intro map_idI) auto
    then show ?thesis using none by (simp add: handleWriter_def Let_def list_ex_iff del: map_eq_conv)
  qed
  show "without_handles (snd (handleWriter k v w db)) = without_handles db"
    by (auto simp: without_handles_def handleWriter_def Let_def comp_def intro!: map_cong)
qed

section \<open>Accounts\<close>

definition renew :: "rotator \<Rightarrow> string set \<Rightarrow> (string \<times> string) list \<Rightarrow> (string \<times> string) list" where
  "renew rt ids cells = map (\<lambda>(i, x). (i, if i \<in> ids then new_value rt i x else x)) cells"

text \<open>Every value of some rows is under a key that is active or still needed.\<close>

definition keys_noted :: "rotator \<Rightarrow> string list \<Rightarrow> string set \<Rightarrow> (string \<times> string) list \<Rightarrow> bool" where
  "keys_noted rt needed ids cells \<longleftrightarrow>
     (\<forall>(i, x) \<in> set cells. i \<in> ids \<longrightarrow> value_kid x \<in> insert (ringActive (rtRing rt)) (set needed))"

lemma renew_ids [simp]: "map fst (renew rt ids cells) = map fst cells"
  by (simp add: renew_def case_prod_beta)

lemma renew_renew: "rotator_ok rt \<Longrightarrow> renew rt S (renew rt T cells) = renew rt (T \<union> S) cells"
  by (simp add: renew_def case_prod_beta new_value_settled)

lemma new_value_kid:
  "rotator_ok rt \<Longrightarrow> new_value rt k v \<noteq> v \<Longrightarrow> value_kid (new_value rt k v) = ringActive (rtRing rt)"
  by (cases "decryptField (rtOpen rt) (rtRing rt) v")
    (auto simp: new_value_def split: if_splits elim: reencrypted [of rt v _ k])

lemma keys_noted_renew:
  assumes "rotator_ok rt" "keys_noted rt needed S cells" "set needed \<subseteq> set needed'"
    "\<forall>(i, x) \<in> set cells. i \<in> T \<longrightarrow> new_value rt i x = x \<longrightarrow> value_kid x \<in> insert (ringActive (rtRing rt)) (set needed')"
  shows "keys_noted rt needed' (S \<union> T) (renew rt T cells)"
proof -
  have "value_kid y \<in> insert (ringActive (rtRing rt)) (set needed')"
    if "(i, y) \<in> set (renew rt T cells)" and i: "i \<in> S \<union> T" for i y
  proof -
    from that obtain x where x: "(i, x) \<in> set cells" "y = (if i \<in> T then new_value rt i x else x)"
    by (auto simp: renew_def)
    show ?thesis
    proof (cases "i \<in> T \<and> new_value rt i x \<noteq> x")
      case True
      then show ?thesis using new_value_kid [OF assms(1)] x(2) by simp
    next
      case False
      then show ?thesis using x i assms(2-4) by (auto simp: keys_noted_def)
    qed
  qed
  then show ?thesis unfolding keys_noted_def by blast
qed

lemma seed_rows_subset: "set (seed_rows u db) \<subseteq> set (seed_cells db)"
  by (auto simp: seed_rows_def seed_cells_def)

lemma handle_cells_as_list:
  "handle_cells db = map (\<lambda>s. (lsId s, the (lsBuyerHandleEncrypted s)))
     (filter (\<lambda>s. lsBuyerHandleEncrypted s \<noteq> None) (pdSales db))"
proof -
  have "List.map_filter (\<lambda>s. map_option (\<lambda>v. (lsId s, v)) (lsBuyerHandleEncrypted s)) rows
      = map (\<lambda>s. (lsId s, the (lsBuyerHandleEncrypted s))) (filter (\<lambda>s. lsBuyerHandleEncrypted s \<noteq> None) rows)"
    for rows by (induction rows) (auto simp: List.map_filter_def)
  then show ?thesis by (simp add: handle_cells_def)
qed

lemma handle_rows_as_list:
  "handle_rows u db = map (\<lambda>s. (lsId s, the (lsBuyerHandleEncrypted s)))
     (filter (\<lambda>s. lsSellerId s = u \<and> lsBuyerHandleEncrypted s \<noteq> None) (pdSales db))"
proof -
  have "List.map_filter (\<lambda>s. if lsSellerId s = u then map_option (\<lambda>v. (lsId s, v)) (lsBuyerHandleEncrypted s) else None) rows
      = map (\<lambda>s. (lsId s, the (lsBuyerHandleEncrypted s)))
          (filter (\<lambda>s. lsSellerId s = u \<and> lsBuyerHandleEncrypted s \<noteq> None) rows)"
    for rows by (induction rows) (auto simp: List.map_filter_def)
  then show ?thesis by (simp add: handle_rows_def)
qed

lemma handle_rows_subset: "set (handle_rows u db) \<subseteq> set (handle_cells db)"
  by (auto simp: handle_rows_as_list handle_cells_as_list)

lemma seed_rows_distinct: "distinct (map fst (seed_cells db)) \<Longrightarrow> distinct (map fst (seed_rows u db))"
  by (auto simp: seed_rows_def seed_cells_def comp_def intro: distinct_map_filter)

lemma handle_rows_distinct:
  "distinct (map fst (handle_cells db)) \<Longrightarrow> distinct (map fst (handle_rows u db))"
proof -
  have "handle_rows u db = map (\<lambda>s. (lsId s, the (lsBuyerHandleEncrypted s)))
      (filter (\<lambda>s. lsSellerId s = u) (filter (\<lambda>s. lsBuyerHandleEncrypted s \<noteq> None) (pdSales db)))"
    by (simp add: handle_rows_as_list conj_commute)
  then show "distinct (map fst (handle_cells db)) \<Longrightarrow> ?thesis"
    by (simp add: handle_cells_as_list comp_def distinct_map_filter del: filter_filter)
qed

text \<open>Whose row a cell is, and the other column, do not depend on the values of a column.\<close>

lemma without_seeds_fixes:
  assumes "without_seeds db = without_seeds db'"
  shows "fst ` set (seed_rows u db) = fst ` set (seed_rows u db')" "handle_cells db = handle_cells db'"
    "handle_rows u db = handle_rows u db'" "without_handles (without_seeds db) = without_handles (without_seeds db')"
    "pdUsers db = pdUsers db'"
proof -
  have "map fst (seed_rows u d) = map fst (seed_rows u (without_seeds d))" for d
    by (simp add: seed_rows_def without_seeds_def filter_map comp_def)
  then have "map fst (seed_rows u db) = map fst (seed_rows u db')" using assms by metis
  then show "fst ` set (seed_rows u db) = fst ` set (seed_rows u db')" by (metis list.set_map)
  have sales: "pdSales d = pdSales (without_seeds d)" "pdUsers d = pdUsers (without_seeds d)" for d
    by (simp_all add: without_seeds_def)
  then have "pdSales db = pdSales db'" using assms by metis
  then show "handle_cells db = handle_cells db'" "handle_rows u db = handle_rows u db'"
    by (simp_all add: handle_cells_def handle_rows_def)
  show "pdUsers db = pdUsers db'" using assms sales by metis
qed (use assms in simp)

lemma without_handles_fixes:
  assumes "without_handles db = without_handles db'"
  shows "fst ` set (handle_rows u db) = fst ` set (handle_rows u db')" "seed_cells db = seed_cells db'"
    "seed_rows u db = seed_rows u db'" "without_handles (without_seeds db) = without_handles (without_seeds db')"
    "pdUsers db = pdUsers db'"
proof -
  have "map fst (handle_rows u d) = map fst (handle_rows u (without_handles d))" for d
    by (simp add: handle_rows_as_list without_handles_def filter_map comp_def)
  then have "map fst (handle_rows u db) = map fst (handle_rows u db')" using assms by metis
  then show "fst ` set (handle_rows u db) = fst ` set (handle_rows u db')" by (metis list.set_map)
  have other: "pdBreaks d = pdBreaks (without_handles d)" "pdUsers d = pdUsers (without_handles d)" for d
    by (simp_all add: without_handles_def)
  then have "pdBreaks db = pdBreaks db'" using assms by metis
  then show "seed_cells db = seed_cells db'" "seed_rows u db = seed_rows u db'"
    by (simp_all add: seed_cells_def seed_rows_def)
  show "pdUsers db = pdUsers db'" using assms other by metis
  have "without_handles (without_seeds d) = without_seeds (without_handles d)" for d
    by (simp add: without_handles_def without_seeds_def)
  then show "without_handles (without_seeds db) = without_handles (without_seeds db')" using assms by metis
qed

lemma rotate_account_ok:
  assumes "rotator_ok rt" "distinct (map fst (seed_cells db))" "distinct (map fst (handle_cells db))"
    "keys_noted rt needed S (seed_cells db)" "keys_noted rt needed H (handle_cells db)"
  shows "\<exists>sd' hn' needed' db'. rotate_account rt u (sd, hn, needed, db) = Inr (sd', hn', needed', db')
    \<and> seed_cells db' = renew rt (fst ` set (seed_rows u db)) (seed_cells db)
    \<and> handle_cells db' = renew rt (fst ` set (handle_rows u db)) (handle_cells db)
    \<and> without_handles (without_seeds db') = without_handles (without_seeds db)
    \<and> (\<forall>w. fst ` set (seed_rows w db') = fst ` set (seed_rows w db)
         \<and> fst ` set (handle_rows w db') = fst ` set (handle_rows w db))
    \<and> set needed \<subseteq> set needed'
    \<and> keys_noted rt needed' (S \<union> fst ` set (seed_rows u db)) (seed_cells db')
    \<and> keys_noted rt needed' (H \<union> fst ` set (handle_rows u db)) (handle_cells db')"
proof -
  let ?noted = "\<lambda>needed rows. \<forall>(i, x) \<in> set rows. new_value rt i x = x \<longrightarrow>
      value_kid x \<in> insert (ringActive (rtRing rt)) (set needed)"
  have cells: "\<forall>(i, x) \<in> set cs. i \<in> fst ` set rows \<longrightarrow> new_value rt i x = x \<longrightarrow>
      value_kid x \<in> insert (ringActive (rtRing rt)) (set needed)"
    if "?noted needed rows" "set rows \<subseteq> set cs" "distinct (map fst cs)" for needed rows cs
  proof -
    have "x = y" if "(i, x) \<in> set cs" "(i, y) \<in> set rows" for i x y
      using that \<open>set rows \<subseteq> set cs\<close> \<open>distinct (map fst cs)\<close> by (meson eq_key_imp_eq_value subsetD)
    then show ?thesis using \<open>?noted needed rows\<close> by fastforce
  qed
  from seeds.rotate_all [OF assms(1) seed_rows_subset [of u] seed_rows_distinct [OF assms(2)] assms(2), of sd needed]
  obtain sd' needed1 db1 where
    one: "rotate_rows rt seedWriter (seed_rows u db) (sd, needed, db) = Inr (sd', needed1, db1)"
      "seed_cells db1 = renew rt (fst ` set (seed_rows u db)) (seed_cells db)"
      "without_seeds db1 = without_seeds db" "set needed \<subseteq> set needed1" "?noted needed1 (seed_rows u db)"
    unfolding renew_def by blast
  note fix1 = without_seeds_fixes [OF one(3)]
  have d1: "distinct (map fst (handle_cells db1))" using assms(3) fix1(2) by simp
  from handles.rotate_all [OF assms(1) handle_rows_subset [of u db1] handle_rows_distinct [OF d1] d1, of hn needed1]
  obtain hn' needed2 db2 where
    two: "rotate_rows rt handleWriter (handle_rows u db1) (hn, needed1, db1) = Inr (hn', needed2, db2)"
      "handle_cells db2 = renew rt (fst ` set (handle_rows u db1)) (handle_cells db1)"
      "without_handles db2 = without_handles db1" "set needed1 \<subseteq> set needed2" "?noted needed2 (handle_rows u db1)"
    unfolding renew_def by blast
  note fix2 = without_handles_fixes [OF two(3)]
  have grow: "keys_noted rt needed1 X c \<Longrightarrow> keys_noted rt needed2 X c" for X c
    using two(4) by (fastforce simp: keys_noted_def)
  have "keys_noted rt needed2 (S \<union> fst ` set (seed_rows u db)) (seed_cells db2)"
    unfolding fix2(2) one(2)
    by (rule grow, rule keys_noted_renew [OF assms(1,4) one(4) cells [OF one(5) seed_rows_subset assms(2)]])
  moreover have "keys_noted rt needed2 (H \<union> fst ` set (handle_rows u db)) (handle_cells db2)"
    using keys_noted_renew [OF assms(1,5) subset_trans [OF one(4) two(4)]
        cells [OF two(5) handle_rows_subset d1, unfolded fix1(2,3)]] two(2) fix1(2,3) by simp
  moreover have "rotate_account rt u (sd, hn, needed, db) = Inr (sd', hn', needed2, db2)"
    by (simp add: rotate_account_def one(1) two(1))
  moreover have "set needed \<subseteq> set needed2" using one(4) two(4) by blast
  moreover have "fst ` set (seed_rows w db2) = fst ` set (seed_rows w db)
      \<and> fst ` set (handle_rows w db2) = fst ` set (handle_rows w db)" for w
    using without_seeds_fixes(1,3) [OF one(3)] without_handles_fixes(1,3) [OF two(3)] by simp
  ultimately show ?thesis
    using one(2) two(2) fix1(2,3) fix2(2) without_seeds_fixes(4) [OF one(3)] fix2(4) by auto
qed

lemma rotate_accounts_ok:
  assumes "rotator_ok rt" "distinct (map fst (seed_cells db))" "distinct (map fst (handle_cells db))"
    "keys_noted rt needed S (seed_cells db)" "keys_noted rt needed H (handle_cells db)"
  shows "\<exists>sd' hn' needed' db'. rotate_accounts rt us (sd, hn, needed, db) = (Inr (sd', hn', needed'), db')
    \<and> seed_cells db' = renew rt (\<Union>u \<in> set us. fst ` set (seed_rows u db)) (seed_cells db)
    \<and> handle_cells db' = renew rt (\<Union>u \<in> set us. fst ` set (handle_rows u db)) (handle_cells db)
    \<and> without_handles (without_seeds db') = without_handles (without_seeds db)
    \<and> set needed \<subseteq> set needed'
    \<and> keys_noted rt needed' (S \<union> (\<Union>u \<in> set us. fst ` set (seed_rows u db))) (seed_cells db')
    \<and> keys_noted rt needed' (H \<union> (\<Union>u \<in> set us. fst ` set (handle_rows u db))) (handle_cells db')"
  using assms(2-5)
proof (induction us arbitrary: sd hn needed db S H)
  case Nil
  have "renew rt {} cells = cells" for cells by (simp add: renew_def case_prod_beta)
  then show ?case using Nil by simp
next
  case (Cons u us)
  let ?S = "\<lambda>db. fst ` set (seed_rows u db)" and ?H = "\<lambda>db. fst ` set (handle_rows u db)"
  from rotate_account_ok [OF assms(1) Cons.prems, of u sd hn]
  obtain sd1 hn1 needed1 db1 where
    one: "rotate_account rt u (sd, hn, needed, db) = Inr (sd1, hn1, needed1, db1)"
      "seed_cells db1 = renew rt (?S db) (seed_cells db)"
      "handle_cells db1 = renew rt (?H db) (handle_cells db)"
      "without_handles (without_seeds db1) = without_handles (without_seeds db)"
      "\<forall>w. fst ` set (seed_rows w db1) = fst ` set (seed_rows w db)
         \<and> fst ` set (handle_rows w db1) = fst ` set (handle_rows w db)"
      "set needed \<subseteq> set needed1"
      "keys_noted rt needed1 (S \<union> ?S db) (seed_cells db1)"
      "keys_noted rt needed1 (H \<union> ?H db) (handle_cells db1)"
    by (elim exE conjE) (rule that; assumption)
  have d: "distinct (map fst (seed_cells db1))" "distinct (map fst (handle_cells db1))"
    using Cons.prems(1,2) one(2,3) by simp_all
  from Cons.IH [OF d one(7,8), of sd1 hn1]
  obtain sd2 hn2 needed2 db2 where
    two: "rotate_accounts rt us (sd1, hn1, needed1, db1) = (Inr (sd2, hn2, needed2), db2)"
      "seed_cells db2 = renew rt (\<Union>u \<in> set us. fst ` set (seed_rows u db1)) (seed_cells db1)"
      "handle_cells db2 = renew rt (\<Union>u \<in> set us. fst ` set (handle_rows u db1)) (handle_cells db1)"
      "without_handles (without_seeds db2) = without_handles (without_seeds db1)"
      "set needed1 \<subseteq> set needed2"
      "keys_noted rt needed2 (S \<union> ?S db \<union> (\<Union>u \<in> set us. fst ` set (seed_rows u db1))) (seed_cells db2)"
      "keys_noted rt needed2 (H \<union> ?H db \<union> (\<Union>u \<in> set us. fst ` set (handle_rows u db1))) (handle_cells db2)"
    by (elim exE conjE) (rule that; assumption)
  have un: "(\<Union>u \<in> set us. fst ` set (seed_rows u db1)) = (\<Union>u \<in> set us. fst ` set (seed_rows u db))"
    "(\<Union>u \<in> set us. fst ` set (handle_rows u db1)) = (\<Union>u \<in> set us. fst ` set (handle_rows u db))"
    using one(5) by (metis (no_types, lifting))+
  have split: "(\<Union>u \<in> set (u # us). f u) = f u \<union> (\<Union>u \<in> set us. f u)" for f :: "string \<Rightarrow> string set"
    by simp
  have "rotate_accounts rt (u # us) (sd, hn, needed, db) = (Inr (sd2, hn2, needed2), db2)"
    by (simp add: one(1) two(1))
  moreover have "seed_cells db2 = renew rt (\<Union>u \<in> set (u # us). fst ` set (seed_rows u db)) (seed_cells db)"
    unfolding two(2) one(2) un split by (rule renew_renew [OF assms(1)])
  moreover have "handle_cells db2 = renew rt (\<Union>u \<in> set (u # us). fst ` set (handle_rows u db)) (handle_cells db)"
    unfolding two(3) one(3) un split by (rule renew_renew [OF assms(1)])
  moreover have "without_handles (without_seeds db2) = without_handles (without_seeds db)"
    unfolding two(4) by (rule one(4))
  moreover have "set needed \<subseteq> set needed2" by (rule subset_trans [OF one(6) two(5)])
  moreover have "keys_noted rt needed2 (S \<union> (\<Union>u \<in> set (u # us). fst ` set (seed_rows u db))) (seed_cells db2)"
    "keys_noted rt needed2 (H \<union> (\<Union>u \<in> set (u # us). fst ` set (handle_rows u db))) (handle_cells db2)"
    unfolding split using two(6,7) unfolding un Un_assoc by blast+
  ultimately show ?case by (intro exI conjI)
qed

section \<open>No value is lost\<close>

text \<open>A stored value and the one a run leaves: readable with the keys still needed when it was readable
  with the whole ring, and then under the active key unless the run was a rehearsal; untouched when
  no key of the ring reads it.\<close>

definition carried :: "rotator \<Rightarrow> string list \<Rightarrow> string \<times> string \<Rightarrow> string \<times> string \<Rightarrow> bool" where
  "carried rt kids cell cell' \<longleftrightarrow>
     fst cell' = fst cell
     \<and> (case decryptField (rtOpen rt) (rtRing rt) (snd cell) of
          Inl _ \<Rightarrow> snd cell' = snd cell
        | Inr plain \<Rightarrow>
            decryptField (rtOpen rt) (retire (rtRing rt) kids) (snd cell') = Inr plain
            \<and> (if rtDryRun rt then snd cell' = snd cell
               else keyIdOf (snd cell') = Some (ringActive (rtRing rt))))"

lemma new_value_carried:
  assumes "rotator_ok rt" "value_kid (new_value rt i x) \<in> set kids"
  shows "carried rt kids (i, x) (i, new_value rt i x)"
proof (cases "decryptField (rtOpen rt) (rtRing rt) x")
  case (Inl e)
  then show ?thesis by (simp add: carried_def new_value_def)
next
  case (Inr plain)
  obtain enc where enc: "encryptField (rtSeal rt) (rtRing rt) (rtIv rt i) plain = Inr enc"
    "decryptField (rtOpen rt) (rtRing rt) enc = Inr plain" "value_kid enc = ringActive (rtRing rt)"
    using reencrypted [OF assms(1) Inr] by blast
  have "new_value rt i x = (if value_kid x = ringActive (rtRing rt) \<or> rtDryRun rt then x else enc)"
    using Inr enc(1) by (simp add: new_value_def)
  then have "decryptField (rtOpen rt) (rtRing rt) (new_value rt i x) = Inr plain"
    "if rtDryRun rt then new_value rt i x = x else value_kid (new_value rt i x) = ringActive (rtRing rt)"
    using Inr enc(2,3) by (cases "value_kid x = ringActive (rtRing rt)"; simp)+
  then have "decryptField (rtOpen rt) (retire (rtRing rt) kids) (new_value rt i x) = Inr plain"
    "keyIdOf (new_value rt i x) = Some (value_kid (new_value rt i x))"
    "if rtDryRun rt then new_value rt i x = x else value_kid (new_value rt i x) = ringActive (rtRing rt)"
    using decrypt_same_key [OF retire_key [OF assms(2)]] decrypt_names_key by blast+
  then show ?thesis by (simp add: carried_def Inr)
qed

lemma renewed_carried:
  assumes "rotator_ok rt" "keys_noted rt needed ids (renew rt ids cells)" "fst ` set cells \<subseteq> ids"
    "insert (ringActive (rtRing rt)) (set needed) = set kids"
  shows "list_all2 (carried rt kids) cells (renew rt ids cells)"
proof -
  have all: "renew rt ids cells = map (\<lambda>(i, x). (i, new_value rt i x)) cells"
    using assms(3) by (force simp: renew_def)
  have "carried rt kids c ((\<lambda>(i, x). (i, new_value rt i x)) c)" if "c \<in> set cells" for c
  proof -
    obtain i x where c: "c = (i, x)" by (cases c)
    then have "i \<in> ids" "(i, new_value rt i x) \<in> set (renew rt ids cells)"
      using that assms(3) unfolding all by force+
    then have "value_kid (new_value rt i x) \<in> set kids"
      using assms(2,4) by (auto simp: keys_noted_def)
    then show ?thesis using new_value_carried [OF assms(1)] by (simp add: c)
  qed
  then show ?thesis unfolding all by (auto simp: list_all2_conv_all_nth)
qed

text \<open>C27: Rotating the keys loses nothing, and the keys it reports as spare can be destroyed. With a
  validated ring a run always completes; it changes no column but the two encrypted ones; and in both,
  every value that some key of the ring could read still reads as the same text with only the keys
  reported as still needed - after a real run, from under the active key - while a value no key
  could read is left exactly as it was.\<close>

theorem rotation_loses_nothing:
  assumes "rotator_ok rt" "distinct (map fst (seed_cells db))" "distinct (map fst (handle_cells db))"
    and "\<forall>c \<in> set (commitmentRows (pdBreaks db)). \<exists>b \<in> set (breakRows (pdBreaks db)).
           bId b = cmBreakId c \<and> bCreatorId b \<in> set (pdUsers db)"
    and "\<forall>s \<in> set (pdSales db). lsSellerId s \<in> set (pdUsers db)"
  shows "\<exists>report db'. rotateEncryptedFields rt db = (Inr report, db')
    \<and> list_all2 (carried rt (rrStillNeeded report)) (seed_cells db) (seed_cells db')
    \<and> list_all2 (carried rt (rrStillNeeded report)) (handle_cells db) (handle_cells db')
    \<and> without_handles (without_seeds db') = without_handles (without_seeds db)"
proof -
  let ?S = "\<Union>u \<in> set (pdUsers db). fst ` set (seed_rows u db)"
  let ?H = "\<Union>u \<in> set (pdUsers db). fst ` set (handle_rows u db)"
  have none: "keys_noted rt [ringActive (rtRing rt)] {} cells" for cells by (simp add: keys_noted_def)
  from rotate_accounts_ok [OF assms(1-3) none none, of "pdUsers db" emptyField emptyField]
  obtain sd hn needed db' where
    run: "rotate_accounts rt (pdUsers db) (emptyField, emptyField, [ringActive (rtRing rt)], db) = (Inr (sd, hn, needed), db')"
      "seed_cells db' = renew rt ?S (seed_cells db)" "handle_cells db' = renew rt ?H (handle_cells db)"
      "without_handles (without_seeds db') = without_handles (without_seeds db)"
      "ringActive (rtRing rt) \<in> set needed"
      "keys_noted rt needed ?S (renew rt ?S (seed_cells db))"
      "keys_noted rt needed ?H (renew rt ?H (handle_cells db))"
    by auto
  have "i \<in> ?S" if "i \<in> fst ` set (seed_cells db)" for i
  proof -
    from that obtain c where c: "c \<in> set (commitmentRows (pdBreaks db))" "i = cmId c" by (auto simp: seed_cells_def)
    from assms(4) c(1) obtain b where b: "b \<in> set (breakRows (pdBreaks db))" "bId b = cmBreakId c"
      "bCreatorId b \<in> set (pdUsers db)" by blast
    then have "(i, cmSeedEncrypted c) \<in> set (seed_rows (bCreatorId b) db)"
      using c by (auto simp: seed_rows_def list_ex_iff)
    then show ?thesis using b(3) by force
  qed
  moreover have "i \<in> ?H" if "i \<in> fst ` set (handle_cells db)" for i
  proof -
    from that obtain r where r: "r \<in> set (pdSales db)" "i = lsId r" "lsBuyerHandleEncrypted r \<noteq> None"
      by (auto simp: handle_cells_as_list)
    then have "(i, the (lsBuyerHandleEncrypted r)) \<in> set (handle_rows (lsSellerId r) db)"
      by (simp add: handle_rows_as_list)
    then show ?thesis using r(1) assms(5) by force
  qed
  ultimately have cover: "fst ` set (seed_cells db) \<subseteq> ?S" "fst ` set (handle_cells db) \<subseteq> ?H" by blast+
  have kids: "insert (ringActive (rtRing rt)) (set needed) = set (sort needed)" using run(5) by auto
  show ?thesis
    using renewed_carried [OF assms(1) run(6) cover(1) kids]
      renewed_carried [OF assms(1) run(7) cover(2) kids] run(2-4)
    by (simp add: rotateEncryptedFields_def run(1))
qed

section \<open>A run\<close>

definition two_keys :: KeyRing where
  "two_keys = \<lparr>ringKeys = [(''k1'', replicate 32 0), (''k2'', replicate 32 1)], ringActive = ''k2''\<rparr>"

definition demo_rotator :: rotator where
  "demo_rotator = \<lparr>rtRing = two_keys, rtIv = (\<lambda>_. replicate 12 7), rtSeal = demo_seal,
     rtOpen = demo_unseal, rtDryRun = False\<rparr>"

definition old_handle :: string where
  "old_handle = (case encryptField demo_seal demo_ring (replicate 12 5) ''bob'' of Inl _ \<Rightarrow> [] | Inr enc \<Rightarrow> enc)"

definition demo_vault :: price_db where
  "demo_vault = \<lparr>pdUsers = [''ann''], pdVariants = [],
     pdBreaks = \<lparr>accounts = [''ann''], products = [], variants = [], indexDaily = [], breakRows = [], pullRows = [],
               evidenceRows = [], commitmentRows = []\<rparr>,
     pdObservations = [], pdIndex = [],
     pdSales = [\<lparr>lsId = ''s'', lsSellerId = ''ann'', lsCardVariantId = None, lsLabel = Some ''promo'',
       lsCondition = NM, lsPriceCents = 500, lsCurrency = ''USD'', lsSoldAt = 1, lsStreamRef = None,
       lsBuyerHandleEncrypted = Some old_handle, lsHasBuyerHandle = True, lsPriceObservationId = None,
       lsCreatedAt = 1, lsUpdatedAt = 1\<rparr>]\<rparr>"

lemma demo_rotator_ok: "rotator_ok demo_rotator"
proof -
  have "safe_kid ''k2''" by code_simp
  then show ?thesis
    using demo_gcm_ok by (simp add: rotator_ok_def demo_rotator_def two_keys_def IV_BYTES_def)
qed

lemma rotation_demo_run:
  "decryptField demo_unseal two_keys old_handle = Inr ''bob''" "value_kid old_handle = ''k1''"
  "map_sum id rrStillNeeded (fst (rotateEncryptedFields demo_rotator demo_vault)) = Inr [''k2'']"
  by code_simp+

theorem rotation_loses_nothing_witness:
  "\<exists>report db' w. rotateEncryptedFields demo_rotator demo_vault = (Inr report, db')
     \<and> handle_cells db' = [(''s'', w)] \<and> decryptField demo_unseal (retire two_keys [''k2'']) w = Inr ''bob''"
proof -
  have cells: "seed_cells demo_vault = []" "handle_cells demo_vault = [(''s'', old_handle)]"
    by (simp_all add: seed_cells_def handle_cells_as_list demo_vault_def)
  have fks: "\<forall>c \<in> set (commitmentRows (pdBreaks demo_vault)). \<exists>b \<in> set (breakRows (pdBreaks demo_vault)).
      bId b = cmBreakId c \<and> bCreatorId b \<in> set (pdUsers demo_vault)"
    "\<forall>s \<in> set (pdSales demo_vault). lsSellerId s \<in> set (pdUsers demo_vault)"
    by (simp_all add: demo_vault_def)
  from rotation_loses_nothing [OF demo_rotator_ok _ _ fks] cells obtain report db' where
    r: "rotateEncryptedFields demo_rotator demo_vault = (Inr report, db')"
      "list_all2 (carried demo_rotator (rrStillNeeded report)) [(''s'', old_handle)] (handle_cells db')" by auto
  have kids: "rrStillNeeded report = [''k2'']" using rotation_demo_run(3) r(1) by simp
  from r(2) obtain cell where cell: "handle_cells db' = [cell]"
    "carried demo_rotator [''k2''] (''s'', old_handle) cell"
    unfolding kids by (auto simp: list_all2_Cons1)
  then have "fst cell = ''s''" "decryptField demo_unseal (retire two_keys [''k2'']) (snd cell) = Inr ''bob''"
    using rotation_demo_run(1) by (simp_all add: carried_def demo_rotator_def)
  then show ?thesis using r(1) cell(1) by (cases cell) auto
qed

end
