(* ===== verification/SignInRecords.thy ===== *)
theory SignInRecords
  imports SignInLimits Access Json
begin

text \<open>
  What a sign-in leaves behind and is judged by: the admin step-up
  (\<open>packages/auth/src/step-up.ts\<close>), refused attempts (\<open>failed-attempts.ts\<close>), addresses as hashes of
  the day (\<open>ip-hash.ts\<close>), the names of devices (\<open>devices.ts\<close>), who may end whose session
  (\<open>sessions.ts\<close>) and the passkey policy (\<open>passkeys.ts\<close>). \<open>isIP\<close> and the reading of a redirect's
  query are the platform's and the parsing of authenticator data a package's: arguments.
\<close>

section \<open>Step-up\<close>

definition ADMIN_STEP_UP_MAX_AGE_MS :: int where
  "ADMIN_STEP_UP_MAX_AGE_MS = 12 * 60 * 60 * 1000"

datatype step_up_error = PasskeyRequiredError | StepUpRequiredError int

definition isFreshSession :: "Subject option \<Rightarrow> int \<Rightarrow> int \<Rightarrow> bool" where
  "isFreshSession subject maxAgeMs now =
     (case Option.bind subject subAuthenticatedAt of
        None \<Rightarrow> False
      | Some t \<Rightarrow>
          let age = now - t in if age < - 30000 then False else age \<le> maxAgeMs)"

definition requireFreshSession :: "Subject option \<Rightarrow> int \<Rightarrow> int \<Rightarrow> step_up_error option" where
  "requireFreshSession subject maxAgeMs now =
     (if \<not> isFreshSession subject maxAgeMs now then Some (StepUpRequiredError maxAgeMs) else None)"

definition requireAdminStepUp :: "Subject option \<Rightarrow> int \<Rightarrow> int \<Rightarrow> step_up_error option" where
  "requireAdminStepUp subject maxAgeMs now =
     (if Option.bind subject subAuthMethod \<noteq> Some Passkey then Some PasskeyRequiredError
      else requireFreshSession subject maxAgeMs now)"

section \<open>Addresses\<close>

definition IP_HASH_PREFIX :: string where "IP_HASH_PREFIX = ''iph1''"

definition normalizeIp :: "(string \<Rightarrow> int) \<Rightarrow> string option \<Rightarrow> string option" where
  "normalizeIp isIP raw =
     (case raw of
        None \<Rightarrow> None
      | Some r \<Rightarrow>
          if r = [] then None
          else
            let ip = to_lower (trim r);
                ip' = (if starts_with ''::ffff:'' ip \<and> isIP (drop 7 ip) = 4 then drop 7 ip else ip)
            in if isIP ip' = 0 then None else Some ip')"

definition hash_day :: "int \<Rightarrow> string" where
  "hash_day now = take 10 (toISOString now)"

definition hashIp :: "(string \<Rightarrow> int) \<Rightarrow> string option \<Rightarrow> string \<Rightarrow> int \<Rightarrow> string option" where
  "hashIp isIP raw secret now =
     (case normalizeIp isIP raw of
        None \<Rightarrow> None
      | Some ip \<Rightarrow>
          let day = hash_day now;
              dayKey = hmac_sha256 (utf8 secret) (utf8 (''gth:ip-hash:v1:'' @ day));
              digest = base64url (take 16 (hmac_sha256 dayKey (utf8 ip)))
          in Some (IP_HASH_PREFIX @ '':'' @ day @ '':'' @ digest))"

section \<open>Refused attempts\<close>

definition AUTH_FAILURE_ACTION :: string where "AUTH_FAILURE_ACTION = ''auth.sign_in_failed''"
definition AUTH_RATE_LIMIT_ACTION :: string where "AUTH_RATE_LIMIT_ACTION = ''auth.rate_limited''"

definition WATCHED_PREFIXES :: "string list" where
  "WATCHED_PREFIXES = [''/sign-in/'', ''/magic-link/verify'', ''/passkey/verify-authentication'', ''/callback/'']"

definition isAuthAttemptPath :: "string \<Rightarrow> bool" where
  "isAuthAttemptPath path = list_ex (\<lambda>p. starts_with p path) WATCHED_PREFIXES"

text \<open>\<open>headers.get\<close>; no headers at all is \<open>None\<close>.\<close>

definition clientIp :: "(string \<Rightarrow> string option) option \<Rightarrow> bool \<Rightarrow> string option" where
  "clientIp headers trustProxyHeaders =
     (if \<not> trustProxyHeaders then None
      else case Option.bind headers (\<lambda>get. get ''x-forwarded-for'') of
        None \<Rightarrow> None
      | Some forwarded \<Rightarrow> Some (trim (hd (split_on (CHR '','') forwarded))))"

record AttemptOutcome =
  aoStatus :: jsnum
  aoCode :: "string option"

text \<open>What an endpoint returned, read structurally: its status, the code of its body, its Location.\<close>

record returned =
  reStatusCode :: json
  reBodyCode :: json
  reLocation :: "string option"

definition at_least :: "jsnum \<Rightarrow> int \<Rightarrow> bool" where
  "at_least x i \<longleftrightarrow> x = int_num i \<or> js_less (int_num i) x"

text \<open>\<open>redirect_error\<close>: the \<open>error\<close> of a Location's query, the outer \<open>None\<close> when it does not parse.\<close>

definition describeFailure ::
  "(string \<Rightarrow> string option option) \<Rightarrow> returned option \<Rightarrow> AttemptOutcome option" where
  "describeFailure redirect_error ret =
     (case ret of
        None \<Rightarrow> None
      | Some r \<Rightarrow>
          (case reStatusCode r of
             JNum status \<Rightarrow>
               if at_least status 400 then
                 Some \<lparr>aoStatus = status, aoCode = (case reBodyCode r of JStr c \<Rightarrow> Some c | _ \<Rightarrow> None)\<rparr>
               else if at_least status 300 then
                 (case reLocation r of
                    None \<Rightarrow> None
                  | Some location \<Rightarrow>
                      (case redirect_error location of
                         Some (Some code) \<Rightarrow> Some \<lparr>aoStatus = status, aoCode = Some code\<rparr>
                       | _ \<Rightarrow> None))
               else None
           | _ \<Rightarrow> None))"

record AuditRow =
  auActorId :: "string option"
  auAction :: string
  auTargetType :: string
  auTargetId :: "string option"
  auIpHash :: "string option"
  auStatus :: jsnum
  auCode :: "string option"

text \<open>The row a refused attempt leaves; the insert that fails leaves none and is swallowed.\<close>

definition recordFailedAttempt ::
  "(string \<Rightarrow> int) \<Rightarrow> string \<Rightarrow> bool \<Rightarrow> string \<Rightarrow> AttemptOutcome \<Rightarrow> (string \<Rightarrow> string option) option \<Rightarrow> int
     \<Rightarrow> bool \<Rightarrow> AuditRow list \<Rightarrow> AuditRow list" where
  "recordFailedAttempt isIP secret trustProxyHeaders path failure headers now inserts log_rows =
     (let ipHash = hashIp isIP (clientIp headers trustProxyHeaders) secret now;
          row = \<lparr>auActorId = None,
                 auAction = (if aoStatus failure = int_num 429 then AUTH_RATE_LIMIT_ACTION else AUTH_FAILURE_ACTION),
                 auTargetType = ''auth'', auTargetId = Some path, auIpHash = ipHash,
                 auStatus = aoStatus failure, auCode = aoCode failure\<rparr>
      in if inserts then log_rows @ [row] else log_rows)"

section \<open>Devices\<close>

definition word_char :: "char \<Rightarrow> bool" where
  "word_char c \<longleftrightarrow> (let n = (of_char c :: nat) in
     (65 \<le> n \<and> n \<le> 90) \<or> (97 \<le> n \<and> n \<le> 122) \<or> (48 \<le> n \<and> n \<le> 57) \<or> n = 95)"

text \<open>\<open>\b\<close>, a literal, and \<open>\b\<close> again when \<open>ends\<close>; every literal starts and, when ends, ends in a
  word character. \<open>prev\<close> tells whether a word character comes before.\<close>

fun has_word :: "bool \<Rightarrow> string \<Rightarrow> bool \<Rightarrow> string \<Rightarrow> bool" where
  "has_word ends lit prev [] = False"
| "has_word ends lit prev (c # cs) =
     ((\<not> prev \<and> starts_with lit (c # cs)
        \<and> (ends \<longrightarrow> (case drop (length lit) (c # cs) of [] \<Rightarrow> True | d # _ \<Rightarrow> \<not> word_char d)))
      \<or> has_word ends lit (word_char c) cs)"

text \<open>\<open>/\bVersion\/[\d.]+.*\bSafari\//\<close>: the rest of the line after a version number that starts there.\<close>

definition digit_or_dot :: "char \<Rightarrow> bool" where
  "digit_or_dot c \<longleftrightarrow> is_digit c \<or> c = CHR ''.''"

definition line_end :: "char \<Rightarrow> bool" where
  "line_end c \<longleftrightarrow> (of_char c :: nat) \<in> {10, 13}"

fun has_safari :: "bool \<Rightarrow> string \<Rightarrow> bool" where
  "has_safari prev [] = False"
| "has_safari prev (c # cs) =
     ((\<not> prev \<and> starts_with ''Version/'' (c # cs)
        \<and> (case drop 7 cs of
             [] \<Rightarrow> False
           | d # ds \<Rightarrow> digit_or_dot d \<and> has_word False ''Safari/'' (word_char d) (takeWhile (\<lambda>e. \<not> line_end e) ds)))
      \<or> has_safari (word_char c) cs)"

definition begins :: "string \<Rightarrow> string \<Rightarrow> bool" where "begins lit ua = has_word False lit False ua"
definition whole :: "string \<Rightarrow> string \<Rightarrow> bool" where "whole lit ua = has_word True lit False ua"

definition BROWSERS :: "((string \<Rightarrow> bool) \<times> string) list" where
  "BROWSERS =
     [(\<lambda>ua. begins ''Edg/'' ua \<or> begins ''Edge/'' ua \<or> begins ''EdgA/'' ua \<or> begins ''EdgiOS/'' ua, ''Edge''),
      (\<lambda>ua. begins ''OPR/'' ua \<or> whole ''Opera'' ua, ''Opera''),
      (\<lambda>ua. begins ''SamsungBrowser/'' ua, ''Samsung Internet''),
      (\<lambda>ua. begins ''Firefox/'' ua \<or> begins ''FxiOS/'' ua, ''Firefox''),
      (\<lambda>ua. begins ''Chrome/'' ua \<or> begins ''CriOS/'' ua \<or> begins ''Chromium/'' ua, ''Chrome''),
      (\<lambda>ua. has_safari False ua, ''Safari'')]"

definition SYSTEMS :: "((string \<Rightarrow> bool) \<times> string) list" where
  "SYSTEMS =
     [(\<lambda>ua. whole ''iPhone'' ua \<or> whole ''iPod'' ua, ''iPhone''), (whole ''iPad'', ''iPad''),
      (whole ''Android'', ''Android''), (whole ''CrOS'', ''ChromeOS''), (whole ''Windows'', ''Windows''),
      (\<lambda>ua. whole ''Mac OS X'' ua \<or> whole ''Macintosh'' ua, ''macOS''), (whole ''Linux'', ''Linux'')]"

definition MAX_USER_AGENT_LENGTH :: nat where "MAX_USER_AGENT_LENGTH = 512"

fun first_match :: "((string \<Rightarrow> bool) \<times> string) list \<Rightarrow> string \<Rightarrow> string option" where
  "first_match [] ua = None"
| "first_match ((p, name) # rest) ua = (if p ua then Some name else first_match rest ua)"

definition describeDevice :: "string option \<Rightarrow> string" where
  "describeDevice userAgent =
     (case userAgent of
        None \<Rightarrow> ''Unknown device''
      | Some raw \<Rightarrow>
          if raw = [] then ''Unknown device''
          else
            let ua = take MAX_USER_AGENT_LENGTH raw in
            case (first_match BROWSERS ua, first_match SYSTEMS ua) of
              (Some b, Some s) \<Rightarrow> b @ '' on '' @ s
            | (Some b, None) \<Rightarrow> b
            | (None, Some s) \<Rightarrow> s
            | (None, None) \<Rightarrow> ''Unknown device'')"

lemma describeDevice_examples:
  "describeDevice (Some ''Mozilla/5.0 (Windows NT 10.0) Chrome/126.0 Safari/537.36 Edg/126.0'') = ''Edge on Windows''"
  "describeDevice (Some ''Mozilla/5.0 (iPhone; CPU iPhone OS 17_5 like Mac OS X) Version/17.5 Mobile/15E148 Safari/604.1'') = ''Safari on iPhone''"
  "describeDevice (Some ''curl/8.0'') = ''Unknown device''"
  by code_simp+

section \<open>Passkeys\<close>

definition mayRevoke :: "AuthMethod option \<Rightarrow> AuthMethod option \<Rightarrow> bool" where
  "mayRevoke current target \<longleftrightarrow> target \<noteq> Some Passkey \<or> current = Some Passkey"

datatype policy_code =
    Malformed_credential | User_presence_required | User_verification_required
  | Passkey_session_required | Session_not_fresh

record Flags =
  flUp :: bool
  flUv :: bool

definition b64url_char :: "char \<Rightarrow> bool" where
  "b64url_char c \<longleftrightarrow> word_char c \<or> c = CHR ''-''"

text \<open>\<open>/^[A-Za-z0-9_-]+={0,2}$/\<close>.\<close>

definition base64url_text :: "string \<Rightarrow> bool" where
  "base64url_text s \<longleftrightarrow>
     (let body = takeWhile b64url_char s; padding = dropWhile b64url_char s
      in body \<noteq> [] \<and> length padding \<le> 2 \<and> list_all (\<lambda>c. c = CHR ''='') padding)"

definition bytesFromBase64Url :: "json \<Rightarrow> policy_code + bytes" where
  "bytesFromBase64Url v =
     (case v of
        JStr s \<Rightarrow>
          if s = [] \<or> length s > 16384 then Inl Malformed_credential
          else if \<not> base64url_text s then Inl Malformed_credential
          else Inr (from_base64 s)
      | _ \<Rightarrow> Inl Malformed_credential)"

text \<open>The flags inside the bytes; \<open>parse\<close> is the package's parser, \<open>None\<close> when it throws.\<close>

definition assertionFlags :: "(bytes \<Rightarrow> Flags option) \<Rightarrow> json \<Rightarrow> policy_code + Flags" where
  "assertionFlags parse v =
     (case bytesFromBase64Url v of
        Inl e \<Rightarrow> Inl e
      | Inr bytes \<Rightarrow> (case parse bytes of None \<Rightarrow> Inl Malformed_credential | Some fl \<Rightarrow> Inr fl))"

definition registrationFlags :: "(bytes \<Rightarrow> Flags option) \<Rightarrow> json \<Rightarrow> policy_code + Flags" where
  "registrationFlags parse v =
     (case bytesFromBase64Url v of
        Inl e \<Rightarrow> Inl e
      | Inr bytes \<Rightarrow> (case parse bytes of None \<Rightarrow> Inl Malformed_credential | Some fl \<Rightarrow> Inr fl))"

definition requireVerifiedUser :: "Flags \<Rightarrow> policy_code option" where
  "requireVerifiedUser flags =
     (if \<not> flUp flags then Some User_presence_required
      else if \<not> flUv flags then Some User_verification_required else None)"

definition authMethodForPath :: "string option \<Rightarrow> AuthMethod option" where
  "authMethodForPath path =
     (if path = Some ''/passkey/verify-authentication'' then Some Passkey
      else if path = Some ''/magic-link/verify'' then Some MagicLink
      else case path of
        Some p \<Rightarrow> if starts_with ''/callback/discord'' p then Some Discord else None
      | None \<Rightarrow> None)"

end
