(* ===== verification/AccountGuard.thy ===== *)
theory AccountGuard
  imports SignInRecords
begin

text \<open>
  How an account is entered, and what keeps it: the hooks around the sign-in library
  (\<open>packages/auth/src/auth.ts\<close>), sessions and devices (\<open>packages/db/src/queries/sessions.ts\<close>,
  \<open>queries/passkeys.ts\<close>), the subject of a request (\<open>apps/api/src/plugins/auth.ts\<close>) and the routes
  that end sessions, hand out or delete an account (\<open>routes/sessions.ts\<close>, \<open>account-data.ts\<close>,
  \<open>account.ts\<close>). The library itself is not here: what it does to the tables after a hook lets a
  request pass is a step of the machine below, which may or may not happen.
\<close>

section \<open>Tables\<close>

record AccountRow =
  acId :: string
  acEmail :: string
  acRole :: Role
  acDisplayName :: "string option"

record SessionRow =
  snId :: string
  snUserId :: string
  snExpiresAt :: int
  snIpAddress :: "string option"
  snUserAgent :: "string option"
  snAuthMethod :: "AuthMethod option"
  snCreatedAt :: int

record PasskeyRow =
  pkId :: string
  pkUserId :: string
  pkCredential :: string

record DeviceRow =
  dvUserId :: string
  dvDevice :: string
  dvLastSeenAt :: int

record account_db =
  acUsers :: "AccountRow list"
  acSessions :: "SessionRow list"
  acPasskeys :: "PasskeyRow list"
  acDevices :: "DeviceRow list"

definition countPasskeys :: "string \<Rightarrow> account_db \<Rightarrow> nat" where
  "countPasskeys userId db = length (filter (\<lambda>p. pkUserId p = userId) (acPasskeys db))"

definition getSelfProfile :: "string \<Rightarrow> account_db \<Rightarrow> AccountRow option" where
  "getSelfProfile userId db = find_row acId userId (acUsers db)"

definition updateDisplayName :: "string \<Rightarrow> string option \<Rightarrow> account_db \<Rightarrow> AccountRow option \<times> account_db" where
  "updateDisplayName userId displayName db =
     (let db' = db\<lparr>acUsers := update_row acId userId (\<lambda>a. a\<lparr>acDisplayName := displayName\<rparr>) (acUsers db)\<rparr>
      in (find_row acId userId (acUsers db'), db'))"

definition listActiveSessions :: "string \<Rightarrow> int \<Rightarrow> account_db \<Rightarrow> SessionRow list" where
  "listActiveSessions userId now db =
     sort_key (\<lambda>s. - snCreatedAt s)
       (filter (\<lambda>s. snUserId s = userId \<and> snExpiresAt s > now) (acSessions db))"

definition findOwnSession :: "string \<Rightarrow> string \<Rightarrow> account_db \<Rightarrow> SessionRow option" where
  "findOwnSession userId sessionId db =
     find (\<lambda>s. snId s = sessionId \<and> snUserId s = userId) (acSessions db)"

definition deleteOwnSession :: "string \<Rightarrow> string \<Rightarrow> account_db \<Rightarrow> bool \<times> account_db" where
  "deleteOwnSession userId sessionId db =
     (let gone = (\<lambda>s. snId s = sessionId \<and> snUserId s = userId)
      in (list_ex gone (acSessions db), db\<lparr>acSessions := filter (\<lambda>s. \<not> gone s) (acSessions db)\<rparr>))"

definition deleteOtherSessions :: "string \<Rightarrow> string \<Rightarrow> bool \<Rightarrow> account_db \<Rightarrow> nat \<times> account_db" where
  "deleteOtherSessions userId keepSessionId includePasskey db =
     (let gone = (\<lambda>s. snUserId s = userId \<and> snId s \<noteq> keepSessionId
                     \<and> (includePasskey \<or> snAuthMethod s \<noteq> Some Passkey))
      in (length (filter gone (acSessions db)),
          db\<lparr>acSessions := filter (\<lambda>s. \<not> gone s) (acSessions db)\<rparr>))"

definition countOtherPasskeySessions :: "string \<Rightarrow> string \<Rightarrow> int \<Rightarrow> account_db \<Rightarrow> nat" where
  "countOtherPasskeySessions userId keepSessionId now db =
     length (filter (\<lambda>s. snUserId s = userId \<and> snId s \<noteq> keepSessionId
                       \<and> snAuthMethod s = Some Passkey \<and> snExpiresAt s > now) (acSessions db))"

text \<open>Whether the device is new to the account, and how many others it knew.\<close>

definition recordSignInDevice :: "string \<Rightarrow> string \<Rightarrow> int \<Rightarrow> account_db \<Rightarrow> (bool \<times> nat) \<times> account_db" where
  "recordSignInDevice userId device now db =
     (let same = (\<lambda>d. dvUserId d = userId \<and> dvDevice d = device) in
      if list_ex same (acDevices db) then
        ((False, 0), db\<lparr>acDevices := map (\<lambda>d. if same d then d\<lparr>dvLastSeenAt := now\<rparr> else d) (acDevices db)\<rparr>)
      else
        ((True, length (filter (\<lambda>d. dvUserId d = userId \<and> dvDevice d \<noteq> device) (acDevices db))),
         db\<lparr>acDevices := acDevices db @ [\<lparr>dvUserId = userId, dvDevice = device, dvLastSeenAt = now\<rparr>]\<rparr>))"

section \<open>The hooks\<close>

definition DISABLED_PATHS :: "string list" where
  "DISABLED_PATHS = [''/list-sessions'', ''/revoke-session'', ''/revoke-sessions'', ''/revoke-other-sessions'']"

definition REGISTRATION_PATHS :: "string list" where
  "REGISTRATION_PATHS = [''/passkey/generate-register-options'', ''/passkey/verify-registration'']"

definition PASSKEY_CHANGE_MAX_AGE_S :: int where "PASSKEY_CHANGE_MAX_AGE_S = 60 * 10"

text \<open>A path of own properties through an untrusted body.\<close>

fun body_field :: "json \<Rightarrow> string list \<Rightarrow> json" where
  "body_field v [] = v"
| "body_field (JObj props) (key # path) = body_field (field props key) path"
| "body_field (JArr xs) (key # path) =
     (case find (\<lambda>(i, x). string_of_nat i = key) (enumerate 0 xs) of
        Some (i, x) \<Rightarrow> body_field x path | None \<Rightarrow> body_field JUndefined path)"
| "body_field _ (key # path) = JUndefined"

datatype refusal = NotFoundRefusal | TooManyRequests | PolicyRefusal policy_code

text \<open>The status a policy refusal is sent with.\<close>

definition refuse_status :: "policy_code \<Rightarrow> nat" where
  "refuse_status e = (if e = Passkey_session_required \<or> e = Session_not_fresh then 403 else 400)"

text \<open>The parsers of the ceremonies' data and the limiter's options.\<close>

record policy_env =
  peLimits :: IdentifierLimitOptions
  peAssertion :: "bytes \<Rightarrow> Flags option"
  peAttestation :: "bytes \<Rightarrow> Flags option"

definition verified_flags :: "policy_code + Flags \<Rightarrow> policy_code option" where
  "verified_flags r = (case r of Inl e \<Rightarrow> Some e | Inr flags \<Rightarrow> requireVerifiedUser flags)"

text \<open>The passkey policy of the \<open>before\<close> hook; \<open>sess\<close> is the session of the request, if any.\<close>

definition passkey_policy ::
  "policy_env \<Rightarrow> int \<Rightarrow> string \<Rightarrow> json \<Rightarrow> SessionRow option \<Rightarrow> account_db \<Rightarrow> policy_code option" where
  "passkey_policy env now path body sess db =
     (if path = ''/passkey/verify-authentication'' then
        verified_flags (assertionFlags (peAssertion env)
          (body_field body [''response'', ''response'', ''authenticatorData'']))
      else if path \<in> set REGISTRATION_PATHS then
        (case sess of
           None \<Rightarrow> None
         | Some s \<Rightarrow>
             if countPasskeys (snUserId s) db > 0 \<and> snAuthMethod s \<noteq> Some Passkey
             then Some Passkey_session_required
             else if path = ''/passkey/verify-registration'' then
               verified_flags (registrationFlags (peAttestation env)
                 (body_field body [''response'', ''response'', ''attestationObject'']))
             else None)
      else if path = ''/passkey/delete-passkey'' then
        (case sess of
           None \<Rightarrow> None
         | Some s \<Rightarrow>
             if snAuthMethod s \<noteq> Some Passkey then Some Passkey_session_required
             else if now - snCreatedAt s > PASSKEY_CHANGE_MAX_AGE_S * 1000 then Some Session_not_fresh
             else None)
      else None)"

definition before_hook ::
  "policy_env \<Rightarrow> int \<Rightarrow> string \<Rightarrow> json \<Rightarrow> SessionRow option \<Rightarrow> account_db \<Rightarrow> string limit_map
     \<Rightarrow> refusal option \<times> string limit_map" where
  "before_hook env now path body sess db seen =
     (if path \<in> set DISABLED_PATHS then (Some NotFoundRefusal, seen)
      else
        let policy = (\<lambda>seen. (map_option PolicyRefusal (passkey_policy env now path body sess db), seen)) in
        if path = ''/sign-in/magic-link'' then
          (case body_field body [''email''] of
             JStr email \<Rightarrow>
               if email \<noteq> [] then
                 (case take_identifier (peLimits env) now email seen of
                    (False, seen') \<Rightarrow> (Some TooManyRequests, seen')
                  | (True, seen') \<Rightarrow> policy seen')
               else policy seen
           | _ \<Rightarrow> policy seen)
        else policy seen)"

text \<open>The session row as the \<open>session.create\<close> hook lets it be written.\<close>

definition session_create_before ::
  "(string \<Rightarrow> int) \<Rightarrow> string \<Rightarrow> int \<Rightarrow> string option \<Rightarrow> SessionRow \<Rightarrow> SessionRow" where
  "session_create_before isIP secret now path session =
     session\<lparr>snAuthMethod := authMethodForPath path,
             snIpAddress := hashIp isIP (snIpAddress session) secret now\<rparr>"

datatype notice =
    Passkey_added string | Passkey_removed string
  | New_sign_in string string "AuthMethod option" int

text \<open>The email about a new device, unless it is the account's first or nobody listens.\<close>

definition noticeIfNewDevice :: "bool \<Rightarrow> int \<Rightarrow> SessionRow \<Rightarrow> account_db \<Rightarrow> notice option \<times> account_db" where
  "noticeIfNewDevice listening now session db =
     (if \<not> listening then (None, db)
      else
        let device = describeDevice (snUserAgent session) in
        case recordSignInDevice (snUserId session) device now db of
          ((isNew, otherDevices), db') \<Rightarrow>
            if \<not> isNew \<or> otherDevices = 0 then (None, db')
            else case getSelfProfile (snUserId session) db' of
              None \<Rightarrow> (None, db')
            | Some user \<Rightarrow> (Some (New_sign_in (acEmail user) device (snAuthMethod session) now), db'))"

text \<open>The notice of the \<open>after\<close> hook: a passkey added or removed, when the call succeeded.\<close>

definition after_notice :: "string \<Rightarrow> bool \<Rightarrow> SessionRow option \<Rightarrow> account_db \<Rightarrow> notice option" where
  "after_notice path failed sess db =
     (let event = (if path = ''/passkey/verify-registration'' then Some Passkey_added
                   else if path = ''/passkey/delete-passkey'' then Some Passkey_removed else None)
      in case event of
           None \<Rightarrow> None
         | Some ev \<Rightarrow>
             if failed then None
             else (case Option.bind sess (\<lambda>s. getSelfProfile (snUserId s) db) of
                     None \<Rightarrow> None
                   | Some user \<Rightarrow> Some (ev (acEmail user))))"

section \<open>Requests\<close>

text \<open>The subject of a request with a session.\<close>

definition subject_of :: "SessionRow \<Rightarrow> account_db \<Rightarrow> Subject option" where
  "subject_of s db =
     map_option (\<lambda>user. \<lparr>subUserId = acId user, subRole = acRole user,
                         subAuthenticatedAt = Some (snCreatedAt s), subAuthMethod = snAuthMethod s,
                         subSessionId = Some (snId s)\<rparr>)
       (find_row acId (snUserId s) (acUsers db))"

datatype account_reply =
    Unauthenticated | Forbidden Action | StepUp step_up_error | NotFound | BadRequest | Mismatch
  | PasskeySessionRequired | AdminCannotSelfDelete | Done

text \<open>\<open>POST /v1/account/sessions/:id/revoke\<close>; \<open>id_ok\<close> is the schema's answer.\<close>

definition revoke_session :: "Subject option \<Rightarrow> bool \<Rightarrow> string \<Rightarrow> account_db \<Rightarrow> account_reply \<times> account_db" where
  "revoke_session subject id_ok sessionId db =
     (case subject of
        None \<Rightarrow> (Unauthenticated, db)
      | Some who \<Rightarrow>
          (case authorize subject AccountWrite None of
             Some act \<Rightarrow> (Forbidden act, db)
           | None \<Rightarrow>
               if \<not> id_ok then (NotFound, db)
               else case findOwnSession (subUserId who) sessionId db of
                 None \<Rightarrow> (NotFound, db)
               | Some target \<Rightarrow>
                   if \<not> mayRevoke (subAuthMethod who) (snAuthMethod target) then (PasskeySessionRequired, db)
                   else (Done, snd (deleteOwnSession (subUserId who) (snId target) db))))"

text \<open>\<open>POST /v1/account/sessions/revoke-others\<close>: the reply with how many ended and how many stayed.\<close>

definition revoke_others ::
  "Subject option \<Rightarrow> int \<Rightarrow> account_db \<Rightarrow> (account_reply \<times> nat \<times> nat) \<times> account_db" where
  "revoke_others subject now db =
     (case subject of
        None \<Rightarrow> ((Unauthenticated, 0, 0), db)
      | Some who \<Rightarrow>
          (case authorize subject AccountWrite None of
             Some act \<Rightarrow> ((Forbidden act, 0, 0), db)
           | None \<Rightarrow>
               (case subSessionId who of
                  None \<Rightarrow> ((Unauthenticated, 0, 0), db)
                | Some current \<Rightarrow>
                    let includePasskey = (subAuthMethod who = Some Passkey) in
                    (case deleteOtherSessions (subUserId who) current includePasskey db of
                       (revoked, db') \<Rightarrow>
                         ((Done, revoked,
                           if includePasskey then 0
                           else countOtherPasskeySessions (subUserId who) current now db'), db')))))"

definition ACCOUNT_DATA_MAX_AGE_MS :: int where
  "ACCOUNT_DATA_MAX_AGE_MS = PASSKEY_CHANGE_MAX_AGE_S * 1000"

text \<open>Deleting the row of a person takes their sessions, passkeys and devices along.\<close>

definition deleteAccount :: "string \<Rightarrow> account_db \<Rightarrow> string option \<times> account_db" where
  "deleteAccount userId db =
     (map_option acEmail (find_row acId userId (acUsers db)),
      db\<lparr>acUsers := filter (\<lambda>a. acId a \<noteq> userId) (acUsers db),
         acSessions := filter (\<lambda>s. snUserId s \<noteq> userId) (acSessions db),
         acPasskeys := filter (\<lambda>p. pkUserId p \<noteq> userId) (acPasskeys db),
         acDevices := filter (\<lambda>d. dvUserId d \<noteq> userId) (acDevices db)\<rparr>)"

text \<open>\<open>POST /v1/account/delete\<close>; \<open>confirm\<close> is the body's text, absent when the schema refuses it.\<close>

definition delete_account :: "Subject option \<Rightarrow> string option \<Rightarrow> int \<Rightarrow> account_db \<Rightarrow> account_reply \<times> account_db" where
  "delete_account subject confirm now db =
     (case subject of
        None \<Rightarrow> (Unauthenticated, db)
      | Some who \<Rightarrow>
          (case authorize subject AccountWrite None of
             Some act \<Rightarrow> (Forbidden act, db)
           | None \<Rightarrow>
               (case confirm of
                  None \<Rightarrow> (BadRequest, db)
                | Some typed \<Rightarrow>
                    (case getSelfProfile (subUserId who) db of
                       None \<Rightarrow> (NotFound, db)
                     | Some self \<Rightarrow>
                         if to_lower (trim typed) \<noteq> to_lower (acEmail self) then (Mismatch, db)
                         else if subRole who = RAdmin then (AdminCannotSelfDelete, db)
                         else (case requireFreshSession subject ACCOUNT_DATA_MAX_AGE_MS now of
                           Some e \<Rightarrow> (StepUp e, db)
                         | None \<Rightarrow>
                             if countPasskeys (subUserId who) db > 0 \<and> subAuthMethod who \<noteq> Some Passkey
                             then (StepUp PasskeyRequiredError, db)
                             else (case deleteAccount (subUserId who) db of
                                     (None, db') \<Rightarrow> (NotFound, db')
                                   | (Some _, db') \<Rightarrow> (Done, db')))))))"

text \<open>What every admin route asks before anything else, and \<open>GET /v1/account/export\<close>'s question.\<close>

definition admin_guard :: "Subject option \<Rightarrow> int \<Rightarrow> account_reply + string" where
  "admin_guard subject now =
     (case subject of
        None \<Rightarrow> Inl Unauthenticated
      | Some who \<Rightarrow>
          (case authorize subject AdminAccess None of
             Some act \<Rightarrow> Inl (Forbidden act)
           | None \<Rightarrow>
               (case requireAdminStepUp subject ADMIN_STEP_UP_MAX_AGE_MS now of
                  Some e \<Rightarrow> Inl (StepUp e)
                | None \<Rightarrow> Inr (subUserId who))))"

definition export_guard :: "Subject option \<Rightarrow> int \<Rightarrow> account_reply" where
  "export_guard subject now =
     (case subject of
        None \<Rightarrow> Unauthenticated
      | Some who \<Rightarrow>
          (case authorize subject AccountRead None of
             Some act \<Rightarrow> Forbidden act
           | None \<Rightarrow> (case requireFreshSession subject ACCOUNT_DATA_MAX_AGE_MS now of
                       Some e \<Rightarrow> StepUp e | None \<Rightarrow> Done)))"

end
