(* ===== verification/AccountProps.thy ===== *)
theory AccountProps
  imports AccountGuard
begin

text \<open>
  What a passkey protects. Two people act on accounts: the owner of one account and an intruder who
  reads its inbox and holds its Discord, but none of its passkeys. Every request goes through the
  hooks and routes; what the sign-in library then does to the tables is a step of its own, so a
  check and the write it allowed may be apart.
\<close>

section \<open>Steps\<close>

datatype actor = Owner | Intruder

text \<open>The world: the tables, who opened each session, the registrations that passed the hook and are
  not written yet, and the limiter.\<close>

record world =
  woDb :: account_db
  woOpener :: "(string \<times> actor) list"
  woTickets :: "(string \<times> string) list"
  woLimiter :: "string limit_map"

datatype account_op =
    SignIn actor string string string int
  | SignInPasskey actor string json string int
  | BeginRegistration actor string string json int
  | FinishRegistration string string string
  | RemovePasskey actor string string int
  | Revoke actor string string
  | RevokeOthers actor string int
  | DeleteAccount actor string "string option" int

text \<open>A session an actor holds.\<close>

definition held :: "actor \<Rightarrow> string \<Rightarrow> world \<Rightarrow> SessionRow option" where
  "held who sid w =
     (if map_of (woOpener w) sid = Some who then find_row snId sid (acSessions (woDb w)) else None)"

definition held_subject :: "actor \<Rightarrow> string \<Rightarrow> world \<Rightarrow> Subject option" where
  "held_subject who sid w = Option.bind (held who sid w) (\<lambda>s. subject_of s (woDb w))"

text \<open>What the library writes for a sign-in, through the \<open>session.create\<close> hook; session identifiers are
  unique.\<close>

definition open_session ::
  "(string \<Rightarrow> int) \<Rightarrow> string \<Rightarrow> actor \<Rightarrow> string \<Rightarrow> string \<Rightarrow> string \<Rightarrow> int \<Rightarrow> world \<Rightarrow> world" where
  "open_session isIP secret who path user sid now w =
     (if sid \<in> snId ` set (acSessions (woDb w)) \<union> fst ` set (woOpener w) then w
      else w\<lparr>woDb := (woDb w)\<lparr>acSessions := acSessions (woDb w) @
               [session_create_before isIP secret now (Some path)
                  \<lparr>snId = sid, snUserId = user, snExpiresAt = now + 2592000000, snIpAddress = None,
                   snUserAgent = None, snAuthMethod = None, snCreatedAt = now\<rparr>]\<rparr>,
             woOpener := (sid, who) # woOpener w\<rparr>)"

text \<open>The library accepts an assertion only of a registered credential, from the device that holds it;
  \<open>holder\<close> says who has which credential's device.\<close>

fun account_step ::
  "policy_env \<Rightarrow> (string \<Rightarrow> int) \<Rightarrow> string \<Rightarrow> (string \<Rightarrow> actor) \<Rightarrow> account_op \<Rightarrow> world \<Rightarrow> world" where
  "account_step env isIP secret holder (SignIn who path user sid now) w =
     (if path = ''/passkey/verify-authentication'' \<or> user \<notin> acId ` set (acUsers (woDb w)) then w
      else open_session isIP secret who path user sid now w)"
| "account_step env isIP secret holder (SignInPasskey who credential body sid now) w =
     (case before_hook env now ''/passkey/verify-authentication'' body None (woDb w) (woLimiter w) of
        (None, seen) \<Rightarrow>
          (case find (\<lambda>p. pkCredential p = credential) (acPasskeys (woDb w)) of
             Some p \<Rightarrow>
               if holder credential = who
               then open_session isIP secret who ''/passkey/verify-authentication'' (pkUserId p) sid now
                      (w\<lparr>woLimiter := seen\<rparr>)
               else w\<lparr>woLimiter := seen\<rparr>
           | None \<Rightarrow> w\<lparr>woLimiter := seen\<rparr>)
      | (Some _, seen) \<Rightarrow> w\<lparr>woLimiter := seen\<rparr>)"
| "account_step env isIP secret holder (BeginRegistration who sid credential body now) w =
     (case held who sid w of
        None \<Rightarrow> w
      | Some s \<Rightarrow>
          (case before_hook env now ''/passkey/verify-registration'' body (Some s) (woDb w) (woLimiter w) of
             (None, seen) \<Rightarrow>
               if holder credential = who
               then w\<lparr>woTickets := (snUserId s, credential) # woTickets w, woLimiter := seen\<rparr> else w
           | (Some _, seen) \<Rightarrow> w\<lparr>woLimiter := seen\<rparr>))"
| "account_step env isIP secret holder (FinishRegistration user credential newId) w =
     (if (user, credential) \<in> set (woTickets w) \<and> user \<in> acId ` set (acUsers (woDb w))
         \<and> credential \<notin> pkCredential ` set (acPasskeys (woDb w)) \<and> newId \<notin> pkId ` set (acPasskeys (woDb w))
      then w\<lparr>woDb := (woDb w)\<lparr>acPasskeys := acPasskeys (woDb w) @
               [\<lparr>pkId = newId, pkUserId = user, pkCredential = credential\<rparr>]\<rparr>\<rparr>
      else w)"
| "account_step env isIP secret holder (RemovePasskey who sid passkeyId now) w =
     (case held who sid w of
        None \<Rightarrow> w
      | Some s \<Rightarrow>
          (case before_hook env now ''/passkey/delete-passkey'' JUndefined (Some s) (woDb w) (woLimiter w) of
             (None, seen) \<Rightarrow>
               w\<lparr>woDb := (woDb w)\<lparr>acPasskeys :=
                    filter (\<lambda>p. \<not> (pkId p = passkeyId \<and> pkUserId p = snUserId s)) (acPasskeys (woDb w))\<rparr>\<rparr>
           | (Some _, seen) \<Rightarrow> w))"
| "account_step env isIP secret holder (Revoke who sid target) w =
     w\<lparr>woDb := snd (revoke_session (held_subject who sid w) True target (woDb w))\<rparr>"
| "account_step env isIP secret holder (RevokeOthers who sid now) w =
     w\<lparr>woDb := snd (revoke_others (held_subject who sid w) now (woDb w))\<rparr>"
| "account_step env isIP secret holder (DeleteAccount who sid confirm now) w =
     w\<lparr>woDb := snd (delete_account (held_subject who sid w) confirm now (woDb w))\<rparr>"

definition account_run ::
  "policy_env \<Rightarrow> (string \<Rightarrow> int) \<Rightarrow> string \<Rightarrow> (string \<Rightarrow> actor) \<Rightarrow> account_op list \<Rightarrow> world \<Rightarrow> world" where
  "account_run env isIP secret holder ops w = fold (account_step env isIP secret holder) ops w"

section \<open>An account with a passkey\<close>

text \<open>The account has a passkey, and everything that opens or could open the passkey door is the
  owner's: the credentials, the registrations under way and the passkey sessions.\<close>

definition guarded :: "(string \<Rightarrow> actor) \<Rightarrow> string \<Rightarrow> world \<Rightarrow> bool" where
  "guarded holder u w \<longleftrightarrow>
     u \<in> acId ` set (acUsers (woDb w))
     \<and> (\<exists>p \<in> set (acPasskeys (woDb w)). pkUserId p = u)
     \<and> (\<forall>p \<in> set (acPasskeys (woDb w)). pkUserId p = u \<longrightarrow> holder (pkCredential p) = Owner)
     \<and> (\<forall>(v, c) \<in> set (woTickets w). v = u \<longrightarrow> holder c = Owner)
     \<and> (\<forall>s \<in> set (acSessions (woDb w)). snUserId s = u \<longrightarrow> snAuthMethod s = Some Passkey
          \<longrightarrow> map_of (woOpener w) (snId s) = Some Owner)
     \<and> distinct (map snId (acSessions (woDb w)))
     \<and> (\<forall>s \<in> set (acSessions (woDb w)). snId s \<in> fst ` set (woOpener w))"

text \<open>Steps of the intruder, and the owner's that add and do not take away.\<close>

fun takes_nothing :: "account_op \<Rightarrow> bool" where
  "takes_nothing (RemovePasskey who _ _ _) = (who = Intruder)"
| "takes_nothing (Revoke who _ _) = (who = Intruder)"
| "takes_nothing (RevokeOthers who _ _) = (who = Intruder)"
| "takes_nothing (DeleteAccount who _ _ _) = (who = Intruder)"
| "takes_nothing _ = True"

text \<open>What the owner has: the account's passkeys and its passkey sessions.\<close>

definition passkeys_of :: "string \<Rightarrow> world \<Rightarrow> PasskeyRow set" where
  "passkeys_of u w = {p \<in> set (acPasskeys (woDb w)). pkUserId p = u}"

definition passkey_sessions_of :: "string \<Rightarrow> world \<Rightarrow> SessionRow set" where
  "passkey_sessions_of u w =
     {s \<in> set (acSessions (woDb w)). snUserId s = u \<and> snAuthMethod s = Some Passkey}"

definition keeps :: "(string \<Rightarrow> actor) \<Rightarrow> string \<Rightarrow> world \<Rightarrow> world \<Rightarrow> bool" where
  "keeps holder u w w' \<longleftrightarrow>
     guarded holder u w' \<and> passkeys_of u w \<subseteq> passkeys_of u w' \<and> passkey_sessions_of u w \<subseteq> passkey_sessions_of u w'"

lemma held_D: "held who sid w = Some s \<Longrightarrow>
    s \<in> set (acSessions (woDb w)) \<and> snId s = sid \<and> map_of (woOpener w) sid = Some who"
  by (auto simp: held_def dest: find_row_SomeD split: if_splits)

text \<open>The intruder's sessions on the account were not opened with a passkey.\<close>

lemma intruder_session:
  "guarded holder u w \<Longrightarrow> held Intruder sid w = Some s \<Longrightarrow> snUserId s = u \<Longrightarrow> snAuthMethod s \<noteq> Some Passkey"
  by (auto dest!: held_D simp: guarded_def)

lemma has_passkeys: "guarded holder u w \<Longrightarrow> countPasskeys u (woDb w) > 0"
  by (auto simp: guarded_def countPasskeys_def filter_empty_conv)

lemma authMethod_not_passkey:
  "path \<noteq> ''/passkey/verify-authentication'' \<Longrightarrow> authMethodForPath (Some path) \<noteq> Some Passkey"
  by (simp add: authMethodForPath_def)

lemma keeps_refl: "guarded holder u w \<Longrightarrow> keeps holder u w w"
  by (simp add: keeps_def)

lemma keeps_open_session:
  assumes "guarded holder u w" "user = u \<longrightarrow> who = Owner \<or> path \<noteq> ''/passkey/verify-authentication''"
  shows "keeps holder u w (open_session isIP secret who path user sid now w)"
  using assms authMethod_not_passkey [of path]
  by (auto simp: keeps_def guarded_def open_session_def passkeys_of_def passkey_sessions_of_def
      session_create_before_def image_iff)

lemma guarded_limiter [simp]: "guarded holder u (w\<lparr>woLimiter := seen\<rparr>) = guarded holder u w"
  by (simp add: guarded_def)

lemma keeps_limiter [simp]: "keeps holder u (w\<lparr>woLimiter := seen\<rparr>) w' = keeps holder u w w'"
  by (simp add: keeps_def passkeys_of_def passkey_sessions_of_def)

text \<open>The four routes and calls that take something away, in the intruder's hands.\<close>

lemma before_hook_policy:
  "before_hook env now path body sess db seen = (None, seen') \<Longrightarrow> passkey_policy env now path body sess db = None"
  by (auto simp: before_hook_def Let_def split: if_splits json.splits bool.splits prod.splits)

lemma subject_of_SomeD:
  "subject_of s db = Some who \<Longrightarrow> subUserId who = snUserId s \<and> subAuthMethod who = snAuthMethod s
     \<and> subSessionId who = Some (snId s) \<and> subAuthenticatedAt who = Some (snCreatedAt s)"
  by (auto simp: subject_of_def dest: find_row_SomeD)

lemma keeps_sessions:
  assumes "guarded holder u w"
    "\<forall>s \<in> set (acSessions (woDb w)). snUserId s = u \<longrightarrow> snAuthMethod s = Some Passkey \<longrightarrow> P s"
  shows "keeps holder u w (w\<lparr>woDb := (woDb w)\<lparr>acSessions := filter P (acSessions (woDb w))\<rparr>\<rparr>)"
  using assms by (auto simp: keeps_def guarded_def passkeys_of_def passkey_sessions_of_def distinct_map_filter)

lemma held_subject_D:
  assumes "held_subject Intruder sid w = Some who" "guarded holder u w" "subUserId who = u"
  shows "subAuthMethod who \<noteq> Some Passkey"
  using assms intruder_session [OF assms(2)]
  by (auto simp: held_subject_def bind_eq_Some_conv dest: subject_of_SomeD)

lemma keeps_revoke:
  assumes "guarded holder u w"
  shows "keeps holder u w (w\<lparr>woDb := snd (revoke_session (held_subject Intruder sid w) True target (woDb w))\<rparr>)"
proof (cases "snd (revoke_session (held_subject Intruder sid w) True target (woDb w)) = woDb w")
  case False
  then obtain who t where t: "held_subject Intruder sid w = Some who"
    "findOwnSession (subUserId who) target (woDb w) = Some t" "mayRevoke (subAuthMethod who) (snAuthMethod t)"
    "snd (revoke_session (held_subject Intruder sid w) True target (woDb w)) = snd (deleteOwnSession (subUserId who) (snId t) (woDb w))"
    by (auto simp: revoke_session_def split: option.splits if_splits)
  from t(2) have mem: "t \<in> set (acSessions (woDb w))" "snUserId t = subUserId who"
    by (auto simp: findOwnSession_def find_Some_iff)
  have "\<not> (snId s = snId t \<and> snUserId s = subUserId who)"
    if s: "s \<in> set (acSessions (woDb w))" "snUserId s = u" "snAuthMethod s = Some Passkey" for s
  proof
    assume a: "snId s = snId t \<and> snUserId s = subUserId who"
    then have "s = t" using s(1) mem(1) assms by (auto simp: guarded_def distinct_map inj_on_def)
    then show False
      using held_subject_D [OF t(1) assms] a s t(3) by (auto simp: mayRevoke_def)
  qed
  then show ?thesis
    unfolding t(4) deleteOwnSession_def Let_def snd_conv by (intro keeps_sessions [OF assms]) blast
qed (use keeps_refl [OF assms] in simp)

lemma revoke_others_cases:
  "snd (revoke_others subject now db) = db \<or>
   (\<exists>who current. subject = Some who \<and> snd (revoke_others subject now db)
      = snd (deleteOtherSessions (subUserId who) current (subAuthMethod who = Some Passkey) db))"
proof (cases subject)
  case (Some who)
  then show ?thesis
    by (cases "authorize (Some who) AccountWrite None"; cases "subSessionId who")
      (auto simp: revoke_others_def Let_def case_prod_beta)
qed (simp add: revoke_others_def)

lemma keeps_revoke_others:
  assumes "guarded holder u w"
  shows "keeps holder u w (w\<lparr>woDb := snd (revoke_others (held_subject Intruder sid w) now (woDb w))\<rparr>)"
proof (cases "snd (revoke_others (held_subject Intruder sid w) now (woDb w)) = woDb w")
  case False
  then obtain who current where t: "held_subject Intruder sid w = Some who"
    "snd (revoke_others (held_subject Intruder sid w) now (woDb w))
      = snd (deleteOtherSessions (subUserId who) current (subAuthMethod who = Some Passkey) (woDb w))"
    using revoke_others_cases [of "held_subject Intruder sid w" now "woDb w"] by blast
  show ?thesis
    unfolding t(2) deleteOtherSessions_def Let_def snd_conv
    by (intro keeps_sessions [OF assms]) (use held_subject_D [OF t(1) assms] in auto)
qed (use keeps_refl [OF assms] in simp)

lemma keeps_delete_account:
  assumes "guarded holder u w"
  shows "keeps holder u w (w\<lparr>woDb := snd (delete_account (held_subject Intruder sid w) confirm now (woDb w))\<rparr>)"
proof (cases "snd (delete_account (held_subject Intruder sid w) confirm now (woDb w)) = woDb w")
  case False
  then obtain who where t: "held_subject Intruder sid w = Some who"
    "\<not> (countPasskeys (subUserId who) (woDb w) > 0 \<and> subAuthMethod who \<noteq> Some Passkey)"
    "snd (delete_account (held_subject Intruder sid w) confirm now (woDb w)) = snd (deleteAccount (subUserId who) (woDb w))"
    by (auto simp: delete_account_def split: option.splits if_splits prod.splits)
  have "subUserId who \<noteq> u"
    using held_subject_D [OF t(1) assms] has_passkeys [OF assms] t(2) by auto
  then show ?thesis
    unfolding t(3) using assms
    by (auto simp: deleteAccount_def keeps_def guarded_def passkeys_of_def passkey_sessions_of_def distinct_map_filter)
qed (use keeps_refl [OF assms] in simp)

lemma keeps_remove_passkey:
  assumes "guarded holder u w" "held Intruder sid w = Some s"
    "before_hook env now ''/passkey/delete-passkey'' body (Some s) (woDb w) seen = (None, seen')"
  shows "keeps holder u w (w\<lparr>woDb := (woDb w)\<lparr>acPasskeys :=
      filter (\<lambda>p. \<not> (pkId p = k \<and> pkUserId p = snUserId s)) (acPasskeys (woDb w))\<rparr>\<rparr>)"
proof -
  have "snAuthMethod s = Some Passkey"
    using before_hook_policy [OF assms(3)]
    by (auto simp: passkey_policy_def REGISTRATION_PATHS_def split: if_splits)
  then have "snUserId s \<noteq> u" using intruder_session [OF assms(1,2)] by blast
  then show ?thesis
    using assms(1) by (auto simp: keeps_def guarded_def passkeys_of_def passkey_sessions_of_def)
qed

lemma keeps_begin_registration:
  assumes "guarded holder u w" "held who sid w = Some s" "holder credential = who"
    "before_hook env now ''/passkey/verify-registration'' body (Some s) (woDb w) seen = (None, seen')"
  shows "keeps holder u w (w\<lparr>woTickets := (snUserId s, credential) # woTickets w, woLimiter := seen'\<rparr>)"
proof -
  have "snUserId s = u \<longrightarrow> holder credential = Owner"
  proof
    assume s: "snUserId s = u"
    have "snAuthMethod s = Some Passkey"
      using before_hook_policy [OF assms(4)] has_passkeys [OF assms(1)] s
      by (auto simp: passkey_policy_def REGISTRATION_PATHS_def split: if_splits)
    then show "holder credential = Owner"
      using intruder_session [OF assms(1), of sid s] assms(2,3) s by (cases who) auto
  qed
  then show ?thesis
    using assms(1) by (auto simp: keeps_def guarded_def passkeys_of_def passkey_sessions_of_def)
qed

lemma step_keeps:
  assumes "guarded holder u w" "takes_nothing x"
  shows "keeps holder u w (account_step env isIP secret holder x w)"
proof (cases x)
  case (SignIn who path user sid now)
  then show ?thesis using keeps_refl [OF assms(1)] keeps_open_session [OF assms(1)] by simp
next
  case (SignInPasskey who credential body sid now)
  show ?thesis
  proof (cases "find (\<lambda>p. pkCredential p = credential) (acPasskeys (woDb w))")
    case None
    then show ?thesis
      using SignInPasskey keeps_refl [OF assms(1)] by (auto simp: keeps_def passkeys_of_def passkey_sessions_of_def split: prod.splits option.splits)
  next
    case (Some p)
    then have p: "p \<in> set (acPasskeys (woDb w))" "pkCredential p = credential" by (auto simp: find_Some_iff)
    have g: "guarded holder u (w\<lparr>woLimiter := seen\<rparr>)" for seen using assms(1) by simp
    have "keeps holder u w (open_session isIP secret who path (pkUserId p) sid now (w\<lparr>woLimiter := seen\<rparr>))"
      if "holder credential = who" for path seen
      using keeps_open_session [OF g, of "pkUserId p" who path] that p assms(1)
      by (auto simp: guarded_def)
    moreover have "keeps holder u w (w\<lparr>woLimiter := seen\<rparr>)" for seen
      using keeps_refl [OF g [of seen]] by simp
    ultimately show ?thesis using SignInPasskey Some by (auto split: prod.splits option.splits)
  qed
next
  case (BeginRegistration who sid credential body now)
  have lim: "keeps holder u w (w\<lparr>woLimiter := seen\<rparr>)" for seen
    using keeps_refl [of holder u "w\<lparr>woLimiter := seen\<rparr>"] assms(1) by simp
  show ?thesis
    using BeginRegistration keeps_refl [OF assms(1)] lim keeps_begin_registration [OF assms(1)]
    by (auto split: option.splits prod.splits)
next
  case (FinishRegistration user credential newId)
  then show ?thesis
    using assms(1) keeps_refl [OF assms(1)]
    by (auto simp: keeps_def guarded_def passkeys_of_def passkey_sessions_of_def)
next
  case (RemovePasskey who sid k now)
  then show ?thesis
    using assms(2) keeps_refl [OF assms(1)] keeps_remove_passkey [OF assms(1)]
    by (auto split: option.splits prod.splits)
qed (use assms keeps_revoke keeps_revoke_others keeps_delete_account in auto)

lemma account_run_keeps:
  "guarded holder u w \<Longrightarrow> \<forall>x \<in> set ops. takes_nothing x \<Longrightarrow> keeps holder u w (account_run env isIP secret holder ops w)"
proof (induction ops arbitrary: w)
  case (Cons x ops)
  have one: "keeps holder u w (account_step env isIP secret holder x w)"
    by (rule step_keeps [OF Cons.prems(1)]) (use Cons.prems(2) in simp)
  then have "keeps holder u (account_step env isIP secret holder x w) (account_run env isIP secret holder (x # ops) w)"
    using Cons.IH [of "account_step env isIP secret holder x w"] Cons.prems(2)
    by (simp add: keeps_def account_run_def)
  then show ?case using one by (auto simp: keeps_def)
qed (simp add: account_run_def keeps_refl)

text \<open>C22: An account with a passkey is safe from whoever holds its inbox. From any state in which its
  passkeys are the owner's, nothing an intruder does - signing in by email or Discord, enrolling or
  removing passkeys, ending sessions, deleting the account, interleaved with the owner's sign-ins and
  enrolments and with the writes a check allowed coming late - adds a passkey the owner does not
  hold, removes one, ends a session the owner opened with one or deletes the account; and no
  session of the intruder's on it passes the gate of the admin routes.\<close>

theorem inbox_never_takes_a_passkey_account:
  assumes "guarded holder u w" "\<forall>x \<in> set ops. takes_nothing x"
    and "w' = account_run env isIP secret holder ops w"
  shows "guarded holder u w'
    \<and> passkeys_of u w \<subseteq> passkeys_of u w' \<and> passkey_sessions_of u w \<subseteq> passkey_sessions_of u w'
    \<and> (\<forall>sid s now. held Intruder sid w' = Some s \<and> snUserId s = u
         \<longrightarrow> isl (admin_guard (subject_of s (woDb w')) now))"
proof -
  have k: "keeps holder u w w'" unfolding assms(3) by (rule account_run_keeps [OF assms(1,2)])
  have "isl (admin_guard (subject_of s (woDb w')) now)"
    if "held Intruder sid w' = Some s" "snUserId s = u" for sid s now
  proof (cases "subject_of s (woDb w')")
    case (Some who)
    have "subAuthMethod who \<noteq> Some Passkey"
      using subject_of_SomeD [OF Some] intruder_session [of holder u w', OF _ that] k by (simp add: keeps_def)
    then show ?thesis by (simp add: Some admin_guard_def requireAdminStepUp_def split: option.splits)
  qed (simp add: admin_guard_def)
  then show ?thesis using k by (auto simp: keeps_def)
qed

definition demo_world :: world where
  "demo_world = \<lparr>woDb = \<lparr>acUsers = [\<lparr>acId = ''u'', acEmail = ''u@x'', acRole = RAdmin, acDisplayName = None\<rparr>],
      acSessions = [], acPasskeys = [\<lparr>pkId = ''p'', pkUserId = ''u'', pkCredential = ''c''\<rparr>], acDevices = []\<rparr>,
     woOpener = [], woTickets = [], woLimiter = []\<rparr>"

definition demo_holder :: "string \<Rightarrow> actor" where
  "demo_holder c = (if c = ''c'' then Owner else Intruder)"

definition demo_env :: policy_env where
  "demo_env = \<lparr>peLimits = default_limits, peAssertion = (\<lambda>_. Some \<lparr>flUp = True, flUv = True\<rparr>),
     peAttestation = (\<lambda>_. Some \<lparr>flUp = True, flUv = True\<rparr>)\<rparr>"

definition inbox_attack :: "account_op list" where
  "inbox_attack =
     [SignInPasskey Owner ''c''
        (JObj [(''response'', JObj [(''response'', JObj [(''authenticatorData'', JStr ''AA'')])])]) ''own'' 1,
      SignIn Intruder ''/magic-link/verify'' ''u'' ''mail'' 2,
      BeginRegistration Intruder ''mail'' ''evil''
        (JObj [(''response'', JObj [(''response'', JObj [(''attestationObject'', JStr ''AA'')])])]) 3,
      FinishRegistration ''u'' ''evil'' ''q'', RemovePasskey Intruder ''mail'' ''p'' 4,
      Revoke Intruder ''mail'' ''own'', RevokeOthers Intruder ''mail'' 5]"

text \<open>In the run the owner's passkey session and the intruder's email session are both open.\<close>

lemma inbox_attack_run:
  "map (\<lambda>s. (snId s, snAuthMethod s)) (acSessions (woDb (account_run demo_env (\<lambda>_. 0) ''s'' demo_holder inbox_attack demo_world)))
     = [(''own'', Some Passkey), (''mail'', Some MagicLink)]"
  by code_simp

theorem inbox_never_takes_a_passkey_account_witness:
  "passkeys_of ''u'' demo_world \<noteq> {} \<and> passkeys_of ''u'' demo_world
     \<subseteq> passkeys_of ''u'' (account_run demo_env (\<lambda>_. 0) ''s'' demo_holder inbox_attack demo_world)"
proof -
  have g: "guarded demo_holder ''u'' demo_world"
    by (simp add: guarded_def demo_world_def demo_holder_def)
  have ops: "\<forall>x \<in> set inbox_attack. takes_nothing x" by (simp add: inbox_attack_def)
  have "passkeys_of ''u'' demo_world
     \<subseteq> passkeys_of ''u'' (account_run demo_env (\<lambda>_. 0) ''s'' demo_holder inbox_attack demo_world)"
    using inbox_never_takes_a_passkey_account [OF g ops refl]
    by blast
  then show ?thesis by (auto simp: passkeys_of_def demo_world_def)
qed

text \<open>The count is read when the hook runs and the passkey is written when the library is done: a first
  registration begun by email before the owner's is written after it, and the account has both.\<close>

lemma registration_begun_before_slips_in:
  "map (\<lambda>p. (pkUserId p, pkCredential p)) (acPasskeys (woDb (account_run demo_env (\<lambda>_. 0) ''s'' demo_holder
     [SignIn Intruder ''/magic-link/verify'' ''u'' ''mail'' 1, SignIn Owner ''/magic-link/verify'' ''u'' ''own'' 1,
      BeginRegistration Intruder ''mail'' ''evil''
        (JObj [(''response'', JObj [(''response'', JObj [(''attestationObject'', JStr ''AA'')])])]) 2,
      BeginRegistration Owner ''own'' ''c''
        (JObj [(''response'', JObj [(''response'', JObj [(''attestationObject'', JStr ''AA'')])])]) 2,
      FinishRegistration ''u'' ''c'' ''p'', FinishRegistration ''u'' ''evil'' ''q'']
     (demo_world\<lparr>woDb := (woDb demo_world)\<lparr>acPasskeys := []\<rparr>\<rparr>))))
   = [(''u'', ''c''), (''u'', ''evil'')]"
  by code_simp

end
