(* ===== verification/WatchStore.thy ===== *)
theory WatchStore
  imports MarketRoutes Crypto
begin

text \<open>
  Restock watches (\<open>packages/db/src/schema/watches.ts\<close>, migration 0004, \<open>queries/watches.ts\<close>, the
  handlers of \<open>routes/watches.ts\<close> and \<open>routes/unsubscribe.ts\<close>) and the rest of the alert tables
  (\<open>schema/ingest.ts\<close>, the retail part of \<open>schema/catalog.ts\<close>).
\<close>

section \<open>Tables\<close>

datatype AlertChannel = EmailAlert | DiscordDm | DiscordWebhook | WebPush

record AlertUser =
  auUserId :: string
  auEmail :: string
  auDisplayName :: "string option"

record SealedProduct =
  spId :: string
  spSlug :: string
  spName :: string

record Retailer =
  reId :: string
  reName :: string
  reDomain :: string
  reEnabled :: bool

record RetailerProduct =
  rpId :: string
  rpRetailerId :: string
  rpSealedProductId :: string
  rpUrl :: string

record Watch =
  waId :: string
  waUserId :: string
  waSealedProductId :: "string option"
  waRetailerProductId :: "string option"
  waChannels :: "AlertChannel list"
  waCreatedAt :: int
  waUpdatedAt :: int

record StockSnapshot =
  ssId :: string
  ssRetailerProductId :: string
  ssInStock :: bool
  ssPriceCents :: "int option"
  ssCurrency :: string
  ssRawHash :: "string option"
  ssCheckedAt :: int

record RestockEvent =
  reEventId :: string
  reRetailerProductId :: string
  reSnapshotId :: string
  rePriceCents :: "int option"
  reCurrency :: string
  reDetectedAt :: int

datatype DeliveryStatus = DeliveryPending | DeliverySent | DeliveryFailed | DeliverySkipped

record AlertDelivery =
  deId :: string
  deEventId :: string
  deSubscriptionId :: string
  deChannel :: AlertChannel
  deStatus :: DeliveryStatus
  deAttempts :: int
  deLastError :: "string option"
  deSentAt :: "int option"
  deCreatedAt :: int

record alert_db =
  adUsers :: "AlertUser list"
  adSealed :: "SealedProduct list"
  adRetailers :: "Retailer list"
  adListings :: "RetailerProduct list"
  adWatches :: "Watch list"
  adSnapshots :: "StockSnapshot list"
  adEvents :: "RestockEvent list"
  adDeliveries :: "AlertDelivery list"

section \<open>Watch statements\<close>

definition watch_checks :: "Watch \<Rightarrow> (string \<times> bool) list" where
  "watch_checks w =
     [(''watch_subscriptions_channels_not_empty'', 1 \<le> length (waChannels w)),
      (''watch_subscriptions_exactly_one_target'',
         (waSealedProductId w = None) \<noteq> (waRetailerProductId w = None))]"

definition watch_unique_violation :: "Watch \<Rightarrow> Watch list \<Rightarrow> string option" where
  "watch_unique_violation w others =
     first_violated
       [(''watch_subscriptions_pkey'', waId w \<notin> waId ` set others),
        (''watch_subscriptions_user_product_key'',
           waSealedProductId w = None
           \<or> (waUserId w, waSealedProductId w) \<notin> (\<lambda>x. (waUserId x, waSealedProductId x)) ` set others),
        (''watch_subscriptions_user_listing_key'',
           waRetailerProductId w = None
           \<or> (waUserId w, waRetailerProductId w) \<notin> (\<lambda>x. (waUserId x, waRetailerProductId x)) ` set others)]"

definition watch_foreign_keys :: "Watch \<Rightarrow> alert_db \<Rightarrow> string option" where
  "watch_foreign_keys w db =
     first_violated
       [(''watch_subscriptions_user_id_users_id_fk'', waUserId w \<in> auUserId ` set (adUsers db)),
        (''watch_subscriptions_sealed_product_id_sealed_products_id_fk'',
           case waSealedProductId w of None \<Rightarrow> True | Some p \<Rightarrow> p \<in> spId ` set (adSealed db)),
        (''watch_subscriptions_retailer_product_id_retailer_products_id_fk'',
           case waRetailerProductId w of None \<Rightarrow> True | Some p \<Rightarrow> p \<in> rpId ` set (adListings db))]"

text \<open>A row is its owner's, to read and to write; the worker reads all of them and writes none.\<close>

definition watch_visible :: "session \<Rightarrow> Watch \<Rightarrow> bool" where
  "watch_visible s w = (case s of AsUser u \<Rightarrow> waUserId w = u | Worker \<Rightarrow> True | ReadOnly \<Rightarrow> False)"

definition watch_owned :: "session \<Rightarrow> Watch \<Rightarrow> bool" where
  "watch_owned s w = (case s of AsUser u \<Rightarrow> waUserId w = u | _ \<Rightarrow> False)"

definition insert_watch :: "session \<Rightarrow> Watch \<Rightarrow> alert_db \<Rightarrow> db_error + alert_db" where
  "insert_watch s w db =
     (if \<not> watch_owned s w then Inl RowSecurity
      else case first_violated (watch_checks w) of
        Some n \<Rightarrow> Inl (CheckViolation n)
      | None \<Rightarrow>
        case watch_unique_violation w (adWatches db) of
          Some n \<Rightarrow> Inl (UniqueViolation n)
        | None \<Rightarrow>
          case watch_foreign_keys w db of
            Some n \<Rightarrow> Inl (ForeignKeyViolation n)
          | None \<Rightarrow> Inr (db\<lparr>adWatches := adWatches db @ [w]\<rparr>))"

text \<open>An update of the rows the session may write that satisfy \<open>P\<close>; none of them changes a key.\<close>

definition update_watches ::
  "session \<Rightarrow> (Watch \<Rightarrow> bool) \<Rightarrow> (Watch \<Rightarrow> Watch) \<Rightarrow> alert_db \<Rightarrow> db_error + nat \<times> alert_db" where
  "update_watches s P f db =
     (let hit = (\<lambda>w. watch_owned s w \<and> P w) in
      case List.map_filter (\<lambda>w. first_violated (watch_checks (f w))) (filter hit (adWatches db)) of
        n # _ \<Rightarrow> Inl (CheckViolation n)
      | [] \<Rightarrow> Inr (length (filter hit (adWatches db)),
                  db\<lparr>adWatches := map (\<lambda>w. if hit w then f w else w) (adWatches db)\<rparr>))"

text \<open>Deleting a watch takes its deliveries with it.\<close>

definition delete_watches :: "session \<Rightarrow> (Watch \<Rightarrow> bool) \<Rightarrow> alert_db \<Rightarrow> nat \<times> alert_db" where
  "delete_watches s P db =
     (let gone = filter (\<lambda>w. watch_owned s w \<and> P w) (adWatches db) in
      (length gone,
       db\<lparr>adWatches := filter (\<lambda>w. \<not> (watch_owned s w \<and> P w)) (adWatches db),
          adDeliveries := filter (\<lambda>d. deSubscriptionId d \<notin> waId ` set gone) (adDeliveries db)\<rparr>))"

section \<open>Operations\<close>

definition MAX_WATCHES_PER_USER :: nat where "MAX_WATCHES_PER_USER = 50"

datatype watch_error = WatchLimitError | DuplicateWatchError | WatchMissingReference string | WatchDb db_error

record WatchInput =
  wiSealedProductId :: "string option"
  wiRetailerProductId :: "string option"
  wiChannels :: "AlertChannel list"

definition listWatches :: "string \<Rightarrow> alert_db \<Rightarrow> Watch list" where
  "listWatches userId db =
     rev (sort_key waCreatedAt
       (rev (filter (\<lambda>w. watch_visible (AsUser userId) w \<and> waUserId w = userId) (adWatches db))))"

definition countWatches :: "string \<Rightarrow> alert_db \<Rightarrow> nat" where
  "countWatches userId db =
     length (filter (\<lambda>w. watch_visible (AsUser userId) w \<and> waUserId w = userId) (adWatches db))"

definition new_watch :: "string \<Rightarrow> int \<Rightarrow> string \<Rightarrow> WatchInput \<Rightarrow> Watch" where
  "new_watch newId now userId input =
     \<lparr>waId = newId, waUserId = userId, waSealedProductId = wiSealedProductId input,
      waRetailerProductId = wiRetailerProductId input, waChannels = wiChannels input,
      waCreatedAt = now, waUpdatedAt = now\<rparr>"

definition createWatch ::
  "string \<Rightarrow> int \<Rightarrow> string \<Rightarrow> WatchInput \<Rightarrow> alert_db \<Rightarrow> watch_error + Watch \<times> alert_db" where
  "createWatch newId now userId input db =
     (if countWatches userId db \<ge> MAX_WATCHES_PER_USER then Inl WatchLimitError
      else
        let w = new_watch newId now userId input in
        case insert_watch (AsUser userId) w db of
          Inl e \<Rightarrow>
            Inl (if isUniqueViolation e None then DuplicateWatchError
                 else if isForeignKeyViolation e then WatchMissingReference ''product or listing''
                 else WatchDb e)
        | Inr db' \<Rightarrow> Inr (w, db'))"

text \<open>
  The email channel goes; a watch whose only channel it was goes with it. \<open>channels =
  array['email']\<close> is exactly one entry.
\<close>

definition unsubscribeEmail :: "string \<Rightarrow> string \<Rightarrow> int \<Rightarrow> alert_db \<Rightarrow> watch_error + bool \<times> alert_db" where
  "unsubscribeEmail userId watchId now db =
     (case update_watches (AsUser userId)
             (\<lambda>w. waId w = watchId \<and> waUserId w = userId \<and> EmailAlert \<in> set (waChannels w)
                  \<and> 1 < length (waChannels w))
             (\<lambda>w. w\<lparr>waChannels := removeAll EmailAlert (waChannels w), waUpdatedAt := now\<rparr>) db of
        Inl e \<Rightarrow> Inl (WatchDb e)
      | Inr (removed, db') \<Rightarrow>
          if 0 < removed then Inr (True, db')
          else Inr (True, snd (delete_watches (AsUser userId)
                 (\<lambda>w. waId w = watchId \<and> waUserId w = userId \<and> waChannels w = [EmailAlert]) db')))"

definition deleteWatch :: "string \<Rightarrow> string \<Rightarrow> alert_db \<Rightarrow> bool \<times> alert_db" where
  "deleteWatch userId k db =
     (case delete_watches (AsUser userId) (\<lambda>w. waId w = k \<and> waUserId w = userId) db of
        (n, db') \<Rightarrow> (0 < n, db'))"

section \<open>Handlers\<close>

type_synonym alert_api = "alert_db \<times> AuditEntry list"

definition alert_audit :: "AuditEntry \<Rightarrow> alert_api \<Rightarrow> alert_api" where
  "alert_audit entry s = (fst s, snd s @ [entry])"

text \<open>What the body's schema asks, past the shape of its fields.\<close>

definition createWatchSchema :: "WatchInput \<Rightarrow> bool" where
  "createWatchSchema body \<longleftrightarrow>
     1 \<le> length (wiChannels body) \<and> length (wiChannels body) \<le> 4
     \<and> (wiSealedProductId body \<noteq> None) \<noteq> (wiRetailerProductId body \<noteq> None)"

definition getWatches :: "Subject option \<Rightarrow> alert_api \<Rightarrow> reply \<times> Watch list" where
  "getWatches subject s =
     (case subject of
        None \<Rightarrow> (unauthenticated, [])
      | Some u \<Rightarrow>
          if authorize subject WatchRead None \<noteq> None then (forbidden, [])
          else (Reply 200 ''ok'', listWatches (subUserId u) (fst s)))"

definition postWatch ::
  "Subject option \<Rightarrow> WatchInput \<Rightarrow> string \<Rightarrow> int \<Rightarrow> alert_api \<Rightarrow> reply \<times> alert_api" where
  "postWatch subject body newId now s =
     (case subject of
        None \<Rightarrow> (unauthenticated, s)
      | Some u \<Rightarrow>
          if authorize subject WatchWrite None \<noteq> None then (forbidden, s)
          else if \<not> createWatchSchema body then (invalid_request, s)
          else case createWatch newId now (subUserId u) body (fst s) of
            Inl WatchLimitError \<Rightarrow> (Reply 409 ''watch_limit_reached'', s)
          | Inl DuplicateWatchError \<Rightarrow> (Reply 409 ''watch_exists'', s)
          | Inl (WatchMissingReference _) \<Rightarrow> (not_found, s)
          | Inl (WatchDb _) \<Rightarrow> (internal_error, s)
          | Inr (w, db') \<Rightarrow>
              (Reply 201 ''created'',
               alert_audit (user_audit (subUserId u) ''watch.created'' ''watch_subscription'' (waId w))
                 (db', snd s)))"

definition deleteWatchRoute :: "Subject option \<Rightarrow> string \<Rightarrow> alert_api \<Rightarrow> reply \<times> alert_api" where
  "deleteWatchRoute subject k s =
     (case subject of
        None \<Rightarrow> (unauthenticated, s)
      | Some u \<Rightarrow>
          if authorize subject WatchWrite None \<noteq> None then (forbidden, s)
          else case deleteWatch (subUserId u) k (fst s) of
            (removed, db') \<Rightarrow>
              if \<not> removed then (not_found, (db', snd s))
              else (Reply 204 '''',
                    alert_audit (user_audit (subUserId u) ''watch.deleted'' ''watch_subscription'' k)
                      (db', snd s)))"

section \<open>Unsubscribing from a mail\<close>

definition UNSUBSCRIBE_PURPOSE :: string where "UNSUBSCRIBE_PURPOSE = ''unsubscribe:watch''"

text \<open>The token of the link in a mail; the address around it only carries it.\<close>

definition unsubscribe_token :: "string \<Rightarrow> string \<Rightarrow> string \<Rightarrow> range_error + string" where
  "unsubscribe_token pepper userId subscriptionId =
     signLink UNSUBSCRIBE_PURPOSE (userId @ ''|'' @ subscriptionId) pepper"

definition readToken :: "string \<Rightarrow> string \<Rightarrow> range_error + (string \<times> string) option" where
  "readToken token pepper =
     (case verifyLink UNSUBSCRIBE_PURPOSE token pepper of
        Inl e \<Rightarrow> Inl e
      | Inr None \<Rightarrow> Inr None
      | Inr (Some v) \<Rightarrow>
          let cut = length (takeWhile (\<lambda>c. c \<noteq> CHR ''|'') v) in
          if CHR ''|'' \<notin> set v \<or> cut = 0 \<or> cut = length v - 1 then Inr None
          else Inr (Some (take cut v, drop (cut + 1) v)))"

text \<open>The token of a request: the query's, or the form's when the query has none.\<close>

definition tokenOf :: "string option \<Rightarrow> string option \<Rightarrow> string option" where
  "tokenOf fromQuery fromBody =
     (case fromQuery of
        Some (c # cs) \<Rightarrow> Some (c # cs)
      | _ \<Rightarrow> (case fromBody of Some (c # cs) \<Rightarrow> Some (c # cs) | _ \<Rightarrow> None))"

definition getUnsubscribe :: "string \<Rightarrow> string option \<Rightarrow> string option \<Rightarrow> reply" where
  "getUnsubscribe pepper fromQuery fromBody =
     (case tokenOf fromQuery fromBody of
        None \<Rightarrow> Reply 404 ''That link is not valid''
      | Some token \<Rightarrow>
          (case readToken token pepper of
             Inl e \<Rightarrow> internal_error
           | Inr None \<Rightarrow> Reply 404 ''That link is not valid''
           | Inr (Some ids) \<Rightarrow> Reply 200 ''Unsubscribe''))"

text \<open>
  The watch id of a link is cast to a uuid by the database, which refuses other texts; \<open>is_uuid\<close>
  is its parser.
\<close>

definition postUnsubscribe ::
  "(string \<Rightarrow> bool) \<Rightarrow> string \<Rightarrow> string option \<Rightarrow> string option \<Rightarrow> int \<Rightarrow> alert_api \<Rightarrow> reply \<times> alert_api" where
  "postUnsubscribe is_uuid pepper fromQuery fromBody now s =
     (case (case tokenOf fromQuery fromBody of None \<Rightarrow> Inr None | Some token \<Rightarrow> readToken token pepper) of
        Inl e \<Rightarrow> (internal_error, s)
      | Inr None \<Rightarrow> (Reply 200 ''Unsubscribed'', s)
      | Inr (Some (userId, watchId)) \<Rightarrow>
          if \<not> is_uuid watchId then (internal_error, s)
          else case unsubscribeEmail userId watchId now (fst s) of
            Inl e \<Rightarrow> (internal_error, s)
          | Inr (_, db') \<Rightarrow> (Reply 200 ''Unsubscribed'', (db', snd s)))"

end
