(* ===== verification/AlertStore.thy ===== *)
theory AlertStore
  imports WatchStore Vod
begin

text \<open>
  Stock reports and alert deliveries (\<open>packages/db/src/queries/ingest.ts\<close>, \<open>listings.ts\<close>,
  \<open>messages.ts\<close>). A report's transaction locks nothing between reading the previous snapshot and
  writing its own, so the two halves are definitions of their own and \<open>recordStockReport\<close> is one
  after the other.
\<close>

section \<open>Stock reports\<close>

record StockReportInput =
  siRetailerProductId :: string
  siInStock :: bool
  siPriceCents :: "int option"
  siCurrency :: "string option"
  siRawHash :: "string option"

record IngestResult =
  irSnapshotId :: string
  irEvent :: "RestockEvent option"
  irFirstSighting :: bool

definition snapshot_checks :: "StockSnapshot \<Rightarrow> (string \<times> bool) list" where
  "snapshot_checks s =
     [(''stock_snapshots_currency_iso'', iso_currency (ssCurrency s)),
      (''stock_snapshots_price_nonneg'', case ssPriceCents s of None \<Rightarrow> True | Some p \<Rightarrow> 0 \<le> p)]"

definition insert_snapshot :: "StockSnapshot \<Rightarrow> alert_db \<Rightarrow> db_error + alert_db" where
  "insert_snapshot s db =
     (if \<not> (case ssPriceCents s of None \<Rightarrow> True | Some p \<Rightarrow> int4 p) then Inl OutOfRange
      else case first_violated (snapshot_checks s) of
        Some n \<Rightarrow> Inl (CheckViolation n)
      | None \<Rightarrow>
          if ssId s \<in> ssId ` set (adSnapshots db) then Inl (UniqueViolation ''stock_snapshots_pkey'')
          else if ssRetailerProductId s \<notin> rpId ` set (adListings db) then
            Inl (ForeignKeyViolation ''stock_snapshots_retailer_product_id_retailer_products_id_fk'')
          else Inr (db\<lparr>adSnapshots := adSnapshots db @ [s]\<rparr>))"

definition insert_restock :: "RestockEvent \<Rightarrow> alert_db \<Rightarrow> db_error + alert_db" where
  "insert_restock e db =
     (if \<not> (case rePriceCents e of None \<Rightarrow> True | Some p \<Rightarrow> int4 p) then Inl OutOfRange
      else if reEventId e \<in> reEventId ` set (adEvents db) then Inl (UniqueViolation ''restock_events_pkey'')
      else if reSnapshotId e \<in> reSnapshotId ` set (adEvents db) then
        Inl (UniqueViolation ''restock_events_snapshot_key'')
      else if reRetailerProductId e \<notin> rpId ` set (adListings db) then
        Inl (ForeignKeyViolation ''restock_events_retailer_product_id_retailer_products_id_fk'')
      else if reSnapshotId e \<notin> ssId ` set (adSnapshots db) then
        Inl (ForeignKeyViolation ''restock_events_snapshot_id_stock_snapshots_id_fk'')
      else Inr (db\<lparr>adEvents := adEvents db @ [e]\<rparr>))"

text \<open>The newest snapshot of a listing; of two of the same instant, the one written last.\<close>

definition previous_state :: "string \<Rightarrow> alert_db \<Rightarrow> bool option" where
  "previous_state l db =
     (case sort_key ssCheckedAt (filter (\<lambda>s. ssRetailerProductId s = l) (adSnapshots db)) of
        [] \<Rightarrow> None
      | s # ss \<Rightarrow> Some (ssInStock (last (s # ss))))"

definition new_snapshot :: "string \<Rightarrow> int \<Rightarrow> StockReportInput \<Rightarrow> StockSnapshot" where
  "new_snapshot newId now r =
     \<lparr>ssId = newId, ssRetailerProductId = siRetailerProductId r, ssInStock = siInStock r,
      ssPriceCents = siPriceCents r, ssCurrency = or_default ''USD'' (siCurrency r),
      ssRawHash = siRawHash r, ssCheckedAt = now\<rparr>"

definition new_event :: "string \<Rightarrow> string \<Rightarrow> int \<Rightarrow> StockReportInput \<Rightarrow> RestockEvent" where
  "new_event newId snapId now r =
     \<lparr>reEventId = newId, reRetailerProductId = siRetailerProductId r, reSnapshotId = snapId,
      rePriceCents = siPriceCents r, reCurrency = or_default ''USD'' (siCurrency r), reDetectedAt = now\<rparr>"

definition write_report ::
  "string \<Rightarrow> string \<Rightarrow> int \<Rightarrow> StockReportInput \<Rightarrow> bool option \<Rightarrow> alert_db \<Rightarrow> db_error + IngestResult \<times> alert_db" where
  "write_report snapId eventId now r previous db =
     (case insert_snapshot (new_snapshot snapId now r) db of
        Inl e \<Rightarrow> Inl e
      | Inr db1 \<Rightarrow>
          let firstSighting = (previous = None);
              isTransition = (previous = Some False \<and> siInStock r) in
          if \<not> isTransition
          then Inr (\<lparr>irSnapshotId = snapId, irEvent = None, irFirstSighting = firstSighting\<rparr>, db1)
          else case insert_restock (new_event eventId snapId now r) db1 of
            Inl e \<Rightarrow> Inl e
          | Inr db2 \<Rightarrow>
              Inr (\<lparr>irSnapshotId = snapId, irEvent = Some (new_event eventId snapId now r),
                    irFirstSighting = firstSighting\<rparr>, db2))"

definition recordStockReport ::
  "string \<Rightarrow> string \<Rightarrow> int \<Rightarrow> StockReportInput \<Rightarrow> alert_db \<Rightarrow> db_error + IngestResult \<times> alert_db" where
  "recordStockReport snapId eventId now r db =
     write_report snapId eventId now r (previous_state (siRetailerProductId r) db) db"

section \<open>Deliveries\<close>

record FanOutTarget =
  ftSubscriptionId :: string
  ftUserId :: string
  ftEmail :: string
  ftDisplayName :: "string option"
  ftChannels :: "AlertChannel list"

definition fan_out_target :: "alert_db \<Rightarrow> Watch \<Rightarrow> FanOutTarget option" where
  "fan_out_target db w =
     map_option (\<lambda>u. \<lparr>ftSubscriptionId = waId w, ftUserId = waUserId w, ftEmail = auEmail u,
                      ftDisplayName = auDisplayName u, ftChannels = waChannels w\<rparr>)
       (find_row auUserId (waUserId w) (adUsers db))"

definition findFanOutTargets :: "string \<Rightarrow> alert_db \<Rightarrow> FanOutTarget list" where
  "findFanOutTargets l db =
     (case find_row rpId l (adListings db) of
        None \<Rightarrow> []
      | Some listing \<Rightarrow>
          List.map_filter (fan_out_target db)
            (filter (\<lambda>w. watch_visible Worker w
                         \<and> (waRetailerProductId w = Some l
                            \<or> waSealedProductId w = Some (rpSealedProductId listing)))
               (adWatches db)))"

definition slot :: "AlertDelivery \<Rightarrow> string \<times> string \<times> AlertChannel" where
  "slot d = (deEventId d, deSubscriptionId d, deChannel d)"

definition new_delivery :: "string \<Rightarrow> int \<Rightarrow> string \<times> string \<times> AlertChannel \<Rightarrow> AlertDelivery" where
  "new_delivery newId now k =
     (case k of (eventId, subId, ch) \<Rightarrow>
       \<lparr>deId = newId, deEventId = eventId, deSubscriptionId = subId, deChannel = ch,
        deStatus = DeliveryPending, deAttempts = 0, deLastError = None, deSentAt = None,
        deCreatedAt = now\<rparr>)"

text \<open>
  \<open>insert ... on conflict do nothing returning\<close>: a row that clashes with one of the table or of the
  same statement is passed over; a row whose event or watch is gone fails the statement.
\<close>

fun insert_deliveries ::
  "int \<Rightarrow> (string \<times> string \<times> string \<times> AlertChannel) list \<Rightarrow> alert_db
     \<Rightarrow> db_error + AlertDelivery list \<times> alert_db" where
  "insert_deliveries now [] db = Inr ([], db)"
| "insert_deliveries now ((newId, k) # rows) db =
     (if newId \<in> deId ` set (adDeliveries db) \<or> k \<in> slot ` set (adDeliveries db)
      then insert_deliveries now rows db
      else if fst k \<notin> reEventId ` set (adEvents db) then
        Inl (ForeignKeyViolation ''alert_deliveries_event_id_restock_events_id_fk'')
      else if fst (snd k) \<notin> waId ` set (adWatches db) then
        Inl (ForeignKeyViolation ''alert_deliveries_subscription_id_watch_subscriptions_id_fk'')
      else case insert_deliveries now rows (db\<lparr>adDeliveries := adDeliveries db @ [new_delivery newId now k]\<rparr>) of
        Inl e \<Rightarrow> Inl e
      | Inr (ds, db') \<Rightarrow> Inr (new_delivery newId now k # ds, db'))"

definition delivery_slots :: "string \<Rightarrow> FanOutTarget list \<Rightarrow> (string \<times> string \<times> AlertChannel) list" where
  "delivery_slots eventId targets =
     concat (map (\<lambda>t. map (\<lambda>ch. (eventId, ftSubscriptionId t, ch)) (ftChannels t)) targets)"

text \<open>\<open>ids n\<close> is the identifier the database draws for the statement's row \<open>n\<close>.\<close>

definition claimDeliveries ::
  "(nat \<Rightarrow> string) \<Rightarrow> int \<Rightarrow> string \<Rightarrow> FanOutTarget list \<Rightarrow> alert_db
     \<Rightarrow> db_error + AlertDelivery list \<times> alert_db" where
  "claimDeliveries ids now eventId targets db =
     (let rows = delivery_slots eventId targets in
      insert_deliveries now (zip (map ids [0..<length rows]) rows) db)"

definition update_delivery :: "string \<Rightarrow> (AlertDelivery \<Rightarrow> AlertDelivery) \<Rightarrow> alert_db \<Rightarrow> alert_db" where
  "update_delivery k f db = db\<lparr>adDeliveries := update_row deId k f (adDeliveries db)\<rparr>"

definition sent_set :: "int \<Rightarrow> AlertDelivery \<Rightarrow> AlertDelivery" where
  "sent_set now d = d\<lparr>deStatus := DeliverySent, deSentAt := Some now, deAttempts := deAttempts d + 1\<rparr>"

definition failed_set :: "string \<Rightarrow> DeliveryStatus \<Rightarrow> AlertDelivery \<Rightarrow> AlertDelivery" where
  "failed_set reason st d =
     d\<lparr>deStatus := st, deLastError := Some (take 300 reason), deAttempts := deAttempts d + 1\<rparr>"

definition abandon_set :: "string \<Rightarrow> AlertDelivery \<Rightarrow> AlertDelivery" where
  "abandon_set reason d = d\<lparr>deStatus := DeliveryFailed, deLastError := Some (take 300 reason)\<rparr>"

definition markDeliverySent :: "int \<Rightarrow> string \<Rightarrow> alert_db \<Rightarrow> alert_db" where
  "markDeliverySent now k db = update_delivery k (sent_set now) db"

definition markDeliveryFailed :: "string \<Rightarrow> string \<Rightarrow> DeliveryStatus \<Rightarrow> alert_db \<Rightarrow> alert_db" where
  "markDeliveryFailed k reason st db = update_delivery k (failed_set reason st) db"

definition abandonDelivery :: "string \<Rightarrow> string \<Rightarrow> alert_db \<Rightarrow> alert_db" where
  "abandonDelivery k reason db = update_delivery k (abandon_set reason) db"

record RetryOptions =
  roMaxAttempts :: int
  roStaleAfterSeconds :: int
  roEventWithinHours :: int
  roLimit :: nat

definition default_retry :: RetryOptions where
  "default_retry = \<lparr>roMaxAttempts = 5, roStaleAfterSeconds = 120, roEventWithinHours = 24, roLimit = 200\<rparr>"

record RetryableDelivery =
  rdId :: string
  rdEventId :: string
  rdSubscriptionId :: string
  rdChannel :: AlertChannel
  rdAttempts :: int
  rdRetailerProductId :: string
  rdPriceCents :: "int option"
  rdCurrency :: string
  rdDetectedAt :: int

definition retryable_view :: "alert_db \<Rightarrow> AlertDelivery \<Rightarrow> RetryableDelivery option" where
  "retryable_view db d =
     map_option (\<lambda>e. \<lparr>rdId = deId d, rdEventId = deEventId d, rdSubscriptionId = deSubscriptionId d,
                      rdChannel = deChannel d, rdAttempts = deAttempts d,
                      rdRetailerProductId = reRetailerProductId e, rdPriceCents = rePriceCents e,
                      rdCurrency = reCurrency e, rdDetectedAt = reDetectedAt e\<rparr>)
       (find_row reEventId (deEventId d) (adEvents db))"

definition owed :: "RetryOptions \<Rightarrow> int \<Rightarrow> alert_db \<Rightarrow> AlertDelivery \<Rightarrow> bool" where
  "owed opts now db d \<longleftrightarrow>
     deStatus d = DeliveryPending \<and> deAttempts d < roMaxAttempts opts
     \<and> deCreatedAt d < now - roStaleAfterSeconds opts * 1000
     \<and> (case find_row reEventId (deEventId d) (adEvents db) of
          None \<Rightarrow> False
        | Some e \<Rightarrow> reDetectedAt e > now - roEventWithinHours opts * 3600000)"

text \<open>
  The query runs outside a transaction and writes nothing: the locks of \<open>for update\<close> are gone when it
  returns, so it is a read.
\<close>

definition claimRetryableDeliveries :: "RetryOptions \<Rightarrow> int \<Rightarrow> alert_db \<Rightarrow> RetryableDelivery list" where
  "claimRetryableDeliveries opts now db =
     List.map_filter (retryable_view db)
       (take (roLimit opts) (sort_key deCreatedAt (filter (owed opts now db) (adDeliveries db))))"

definition listDeliveriesForEvent :: "string \<Rightarrow> alert_db \<Rightarrow> AlertDelivery list" where
  "listDeliveriesForEvent eventId db = filter (\<lambda>d. deEventId d = eventId) (adDeliveries db)"

section \<open>Listings\<close>

definition MAX_LISTINGS_PER_PRODUCT_RETAILER :: nat where "MAX_LISTINGS_PER_PRODUCT_RETAILER = 20"

datatype ResolveFailure =
  Unknown_product | Unknown_retailer | Retailer_not_enabled | Url_host_mismatch | Listing_limit_reached

text \<open>\<open>toLowerCase().replace(/\.$/, '')\<close>.\<close>

definition strip_dot :: "string \<Rightarrow> string" where
  "strip_dot h = (if h \<noteq> [] \<and> last h = CHR ''.'' then butlast h else h)"

definition hostMatchesDomain :: "string \<Rightarrow> string \<Rightarrow> bool" where
  "hostMatchesDomain host domain =
     (let h = strip_dot (to_lower host); d = to_lower domain in h = d \<or> ends_with (''.'' @ d) h)"

definition find_listing :: "string \<Rightarrow> string \<Rightarrow> alert_db \<Rightarrow> RetailerProduct option" where
  "find_listing retailerId u db =
     find (\<lambda>l. rpRetailerId l = retailerId \<and> rpUrl l = u) (adListings db)"

text \<open>The insert of a listing by the worker; a clash inserts nothing.\<close>

definition insert_shop_listing :: "RetailerProduct \<Rightarrow> alert_db \<Rightarrow> db_error + RetailerProduct option \<times> alert_db" where
  "insert_shop_listing l db =
     (if \<not> starts_with ''https://'' (rpUrl l) then Inl (CheckViolation ''retailer_products_url_https'')
      else if rpId l \<in> rpId ` set (adListings db) \<or> find_listing (rpRetailerId l) (rpUrl l) db \<noteq> None
      then Inr (None, db)
      else if rpRetailerId l \<notin> reId ` set (adRetailers db) then
        Inl (ForeignKeyViolation ''retailer_products_retailer_id_retailers_id_fk'')
      else if rpSealedProductId l \<notin> spId ` set (adSealed db) then
        Inl (ForeignKeyViolation ''retailer_products_sealed_product_id_sealed_products_id_fk'')
      else Inr (Some l, db\<lparr>adListings := adListings db @ [l]\<rparr>))"

text \<open>\<open>parse_url\<close> is the platform's URL parser. A resolved report is the listing and whether it is new.\<close>

definition resolveListing ::
  "(string \<Rightarrow> url option) \<Rightarrow> string \<Rightarrow> string \<Rightarrow> string \<Rightarrow> string \<Rightarrow> alert_db
     \<Rightarrow> db_error + (ResolveFailure + string \<times> bool) \<times> alert_db" where
  "resolveListing parse_url newId productSlug retailerDomain u db =
     (case find_row spSlug productSlug (adSealed db) of
        None \<Rightarrow> Inr (Inl Unknown_product, db)
      | Some product \<Rightarrow>
        case find_row reDomain retailerDomain (adRetailers db) of
          None \<Rightarrow> Inr (Inl Unknown_retailer, db)
        | Some retailer \<Rightarrow>
          if \<not> reEnabled retailer then Inr (Inl Retailer_not_enabled, db)
          else case parse_url u of
            None \<Rightarrow> Inr (Inl Url_host_mismatch, db)
          | Some parsed \<Rightarrow>
            if urlProtocol parsed \<noteq> ''https:'' then Inr (Inl Url_host_mismatch, db)
            else if \<not> hostMatchesDomain (urlHostname parsed) (reDomain retailer)
            then Inr (Inl Url_host_mismatch, db)
            else case find_listing (reId retailer) u db of
              Some existing \<Rightarrow> Inr (Inr (rpId existing, False), db)
            | None \<Rightarrow>
                if length (filter (\<lambda>l. rpRetailerId l = reId retailer \<and> rpSealedProductId l = spId product)
                             (adListings db)) \<ge> MAX_LISTINGS_PER_PRODUCT_RETAILER
                then Inr (Inl Listing_limit_reached, db)
                else case insert_shop_listing \<lparr>rpId = newId, rpRetailerId = reId retailer,
                         rpSealedProductId = spId product, rpUrl = u\<rparr> db of
                  Inl e \<Rightarrow> Inl e
                | Inr (Some l, db') \<Rightarrow> Inr (Inr (rpId l, True), db')
                | Inr (None, db') \<Rightarrow>
                    (case find_listing (reId retailer) u db' of
                       Some raced \<Rightarrow> Inr (Inr (rpId raced, False), db')
                     | None \<Rightarrow> Inr (Inl Unknown_retailer, db')))"

section \<open>What a message says about a listing\<close>

record RestockContext =
  rcProductName :: string
  rcRetailerName :: string
  rcUrl :: string

definition getRestockContext :: "string \<Rightarrow> alert_db \<Rightarrow> RestockContext option" where
  "getRestockContext l db =
     (case find_row rpId l (adListings db) of
        None \<Rightarrow> None
      | Some listing \<Rightarrow>
          (case (find_row reId (rpRetailerId listing) (adRetailers db),
                 find_row spId (rpSealedProductId listing) (adSealed db)) of
             (Some retailer, Some product) \<Rightarrow>
               Some \<lparr>rcProductName = spName product, rcRetailerName = reName retailer, rcUrl = rpUrl listing\<rparr>
           | _ \<Rightarrow> None))"

end
