(* ===== verification/AlertDispatch.thy ===== *)
theory AlertDispatch
  imports AlertStore
begin

text \<open>
  Sending alerts (\<open>packages/alerts/src\<close>, \<open>apps/api/src/routes/ingest.ts\<close>, \<open>job-alert-retry.ts\<close>): the
  transports, the fan-out of one restock and the retry of what is still owed. Both runs hold at each
  of their awaits: a delivery is first sent, by a transport that is a parameter, and then marked.
\<close>

section \<open>Messages and transports\<close>

datatype DeliveryOutcome = Delivered | Refused string bool | Skipped string

record RestockMessage =
  rmProductName :: string
  rmRetailerName :: string
  rmUrl :: string
  rmPriceCents :: "int option"
  rmCurrency :: string
  rmDetectedAt :: int

record Recipient =
  rpEmail :: string
  rpDisplayName :: "string option"
  rpUserId :: string
  rpSubscriptionId :: string

type_synonym transport = "RestockMessage \<Rightarrow> Recipient \<Rightarrow> DeliveryOutcome"
type_synonym transports = "AlertChannel \<Rightarrow> transport option"

fun channel_tag :: "AlertChannel \<Rightarrow> string" where
  "channel_tag EmailAlert = ''email''"
| "channel_tag DiscordDm = ''discord_dm''"
| "channel_tag DiscordWebhook = ''discord_webhook''"
| "channel_tag WebPush = ''web_push''"

record web_url = url + urlPathname :: string

definition DISCORD_WEBHOOK_HOSTS :: "string list" where
  "DISCORD_WEBHOOK_HOSTS = [''discord.com'', ''discordapp.com'', ''ptb.discord.com'']"

definition isAllowedDiscordWebhook :: "(string \<Rightarrow> web_url option) \<Rightarrow> string \<Rightarrow> bool" where
  "isAllowedDiscordWebhook parse_url rawUrl =
     (case parse_url rawUrl of
        None \<Rightarrow> False
      | Some u \<Rightarrow>
          if urlProtocol u \<noteq> ''https:'' then False
          else if urlHostname u \<notin> set DISCORD_WEBHOOK_HOSTS then False
          else starts_with ''/api/webhooks/'' (urlPathname u))"

text \<open>\<open>(cents / 100).toFixed(2)\<close> of a whole number of cents that is not negative, as the column's CHECK
  and the report's schema have it.\<close>

definition formatPrice :: "int option \<Rightarrow> string \<Rightarrow> string" where
  "formatPrice priceCents currency =
     (case priceCents of
        None \<Rightarrow> ''price unknown''
      | Some c \<Rightarrow>
          string_of_int (c div 100) @ ''.'' @ [digit_char (nat (c mod 100 div 10)), digit_char (nat (c mod 10))]
            @ '' '' @ currency)"

definition buildPlainText :: "RestockMessage \<Rightarrow> string option \<Rightarrow> string" where
  "buildPlainText message unsubscribeUrl =
     join_with [char_of (10 :: nat)]
       ([''Back in stock: '' @ rmProductName message,
         ''Retailer: '' @ rmRetailerName message,
         ''Price: '' @ formatPrice (rmPriceCents message) (rmCurrency message),
         ''Link: '' @ rmUrl message,
         '''',
         ''You are receiving this because you set up a restock watch.'']
        @ (case unsubscribeUrl of
             None \<Rightarrow> []
           | Some u \<Rightarrow> [''Stop emails about '' @ rmProductName message @ '': '' @ u]))"

text \<open>What a request to Discord comes back with: a status, or an exception with its name.\<close>

datatype http_answer = HttpStatus nat | HttpThrew "string option"

definition discord_transport ::
  "(string \<Rightarrow> web_url option) \<Rightarrow> string \<Rightarrow> (string \<Rightarrow> string \<Rightarrow> http_answer) \<Rightarrow> transport" where
  "discord_transport parse_url webhookUrl post message recipient =
     (if \<not> isAllowedDiscordWebhook parse_url webhookUrl
      then Refused ''webhook url rejected by allowlist'' False
      else case post webhookUrl (buildPlainText message None) of
        HttpStatus n \<Rightarrow>
          if 200 \<le> n \<and> n \<le> 299 then Delivered
          else Refused (''discord responded '' @ string_of_nat n) (n = 429 \<or> n \<ge> 500)
      | HttpThrew name \<Rightarrow> Refused (or_default ''discord request failed'' name) True)"

text \<open>The ops channel takes a text of its own, cut to what Discord accepts.\<close>

definition ops_notify ::
  "(string \<Rightarrow> web_url option) \<Rightarrow> string \<Rightarrow> (string \<Rightarrow> string \<Rightarrow> http_answer) \<Rightarrow> string \<Rightarrow> DeliveryOutcome" where
  "ops_notify parse_url webhookUrl post txt =
     (if \<not> isAllowedDiscordWebhook parse_url webhookUrl
      then Refused ''webhook url rejected by allowlist'' False
      else case post webhookUrl (take 1900 txt) of
        HttpStatus n \<Rightarrow>
          if 200 \<le> n \<and> n \<le> 299 then Delivered
          else Refused (''discord responded '' @ string_of_nat n) (n = 429 \<or> n \<ge> 500)
      | HttpThrew name \<Rightarrow> Refused (or_default ''discord request failed'' name) True)"

record mail =
  mlTo :: string
  mlFrom :: string
  mlSubject :: string
  mlText :: string
  mlHeaders :: "(string \<times> string) list"

text \<open>\<open>deliver\<close> is the mail library: an exception with its message, or nothing.\<close>

definition email_transport ::
  "string \<Rightarrow> (string \<Rightarrow> string \<Rightarrow> string) \<Rightarrow> (mail \<Rightarrow> string option option) \<Rightarrow> transport" where
  "email_transport sender unsubscribeUrl deliver message recipient =
     (let unsubscribe = unsubscribeUrl (rpUserId recipient) (rpSubscriptionId recipient) in
      case deliver \<lparr>mlTo = rpEmail recipient, mlFrom = sender,
                    mlSubject = ''Back in stock: '' @ rmProductName message,
                    mlText = buildPlainText message (Some unsubscribe),
                    mlHeaders = [(''List-Unsubscribe'', ''<'' @ unsubscribe @ ''>''),
                                 (''List-Unsubscribe-Post'', ''List-Unsubscribe=One-Click'')]\<rparr> of
        None \<Rightarrow> Delivered
      | Some err \<Rightarrow> Refused (case err of Some m \<Rightarrow> take 200 m | None \<Rightarrow> ''smtp send failed'') True)"

definition unsupported_transport :: "string \<Rightarrow> transport" where
  "unsupported_transport channel message recipient = Skipped (channel @ '' not implemented yet'')"

definition message_of :: "RestockContext \<Rightarrow> int option \<Rightarrow> string \<Rightarrow> int \<Rightarrow> RestockMessage" where
  "message_of c priceCents currency detectedAt =
     \<lparr>rmProductName = rcProductName c, rmRetailerName = rcRetailerName c, rmUrl = rcUrl c,
      rmPriceCents = priceCents, rmCurrency = currency, rmDetectedAt = detectedAt\<rparr>"

definition buildMessage :: "string \<Rightarrow> int option \<Rightarrow> string \<Rightarrow> int \<Rightarrow> alert_db \<Rightarrow> RestockMessage option" where
  "buildMessage l priceCents currency detectedAt db =
     map_option (\<lambda>c. message_of c priceCents currency detectedAt) (getRestockContext l db)"

definition recipient_of :: "FanOutTarget \<Rightarrow> string \<Rightarrow> Recipient" where
  "recipient_of t subscriptionId =
     \<lparr>rpEmail = ftEmail t, rpDisplayName = ftDisplayName t, rpUserId = ftUserId t,
      rpSubscriptionId = subscriptionId\<rparr>"

definition find_target :: "string \<Rightarrow> FanOutTarget list \<Rightarrow> FanOutTarget option" where
  "find_target subscriptionId targets = find_row ftSubscriptionId subscriptionId (rev targets)"

section \<open>The fan-out\<close>

record DispatchResult =
  dpClaimed :: nat
  dpSent :: nat
  dpFailed :: nat
  dpSkipped :: nat
  dpRetryable :: nat

datatype fan_verdict = NoTarget | NoTransport | Answered DeliveryOutcome

definition fan_decide ::
  "transports \<Rightarrow> FanOutTarget list \<Rightarrow> RestockMessage \<Rightarrow> AlertDelivery \<Rightarrow> fan_verdict" where
  "fan_decide tr targets message d =
     (case find_target (deSubscriptionId d) targets of
        None \<Rightarrow> NoTarget
      | Some target \<Rightarrow>
          (case tr (deChannel d) of
             None \<Rightarrow> NoTransport
           | Some send \<Rightarrow> Answered (send message (recipient_of target (deSubscriptionId d)))))"

definition fan_mark ::
  "int \<Rightarrow> AlertDelivery \<Rightarrow> fan_verdict \<Rightarrow> DispatchResult \<times> alert_db \<Rightarrow> DispatchResult \<times> alert_db" where
  "fan_mark now d v s =
     (case s of (res, db) \<Rightarrow>
        case v of
          NoTarget \<Rightarrow>
            (res\<lparr>dpSkipped := dpSkipped res + 1\<rparr>,
             markDeliveryFailed (deId d) ''subscription vanished'' DeliverySkipped db)
        | NoTransport \<Rightarrow>
            (res\<lparr>dpSkipped := dpSkipped res + 1\<rparr>,
             markDeliveryFailed (deId d) (''no transport for '' @ channel_tag (deChannel d)) DeliverySkipped db)
        | Answered Delivered \<Rightarrow>
            (res\<lparr>dpSent := dpSent res + 1\<rparr>, markDeliverySent now (deId d) db)
        | Answered (Skipped reason) \<Rightarrow>
            (res\<lparr>dpSkipped := dpSkipped res + 1\<rparr>, markDeliveryFailed (deId d) reason DeliverySkipped db)
        | Answered (Refused reason retryable) \<Rightarrow>
            (res\<lparr>dpFailed := dpFailed res + 1,
                 dpRetryable := dpRetryable res + (if retryable then 1 else 0)\<rparr>,
             markDeliveryFailed (deId d) reason
               (if retryable then DeliveryPending else DeliveryFailed) db))"

text \<open>A running fan-out: its targets are read, then its slots claimed, then each delivery decided and
  marked.\<close>

datatype fan_job =
    FanFound string RestockMessage "FanOutTarget list"
  | FanLoop RestockMessage "FanOutTarget list" "AlertDelivery list" DispatchResult
  | FanMark RestockMessage "FanOutTarget list" AlertDelivery fan_verdict "AlertDelivery list" DispatchResult
  | FanDone DispatchResult
  | FanThrew db_error

definition fan_start :: "string \<Rightarrow> string \<Rightarrow> RestockMessage \<Rightarrow> alert_db \<Rightarrow> fan_job" where
  "fan_start eventId retailerProductId message db =
     FanFound eventId message (findFanOutTargets retailerProductId db)"

fun fan_step :: "transports \<Rightarrow> (nat \<Rightarrow> string) \<Rightarrow> int \<Rightarrow> fan_job \<times> alert_db \<Rightarrow> fan_job \<times> alert_db" where
  "fan_step tr ids now (FanFound eventId message targets, db) =
     (case claimDeliveries ids now eventId targets db of
        Inl e \<Rightarrow> (FanThrew e, db)
      | Inr (claimed, db') \<Rightarrow>
          (FanLoop message targets claimed
             \<lparr>dpClaimed = length claimed, dpSent = 0, dpFailed = 0, dpSkipped = 0, dpRetryable = 0\<rparr>, db'))"
| "fan_step tr ids now (FanLoop message targets (d # ds) res, db) =
     (FanMark message targets d (fan_decide tr targets message d) ds res, db)"
| "fan_step tr ids now (FanLoop message targets [] res, db) = (FanDone res, db)"
| "fan_step tr ids now (FanMark message targets d v ds res, db) =
     (case fan_mark now d v (res, db) of (res', db') \<Rightarrow> (FanLoop message targets ds res', db'))"
| "fan_step tr ids now (FanDone res, db) = (FanDone res, db)"
| "fan_step tr ids now (FanThrew e, db) = (FanThrew e, db)"

text \<open>A fan-out that nothing interrupts.\<close>

fun fan_rest ::
  "transports \<Rightarrow> int \<Rightarrow> RestockMessage \<Rightarrow> FanOutTarget list \<Rightarrow> AlertDelivery list
     \<Rightarrow> DispatchResult \<times> alert_db \<Rightarrow> DispatchResult \<times> alert_db" where
  "fan_rest tr now message targets [] s = s"
| "fan_rest tr now message targets (d # ds) s =
     fan_rest tr now message targets ds (fan_mark now d (fan_decide tr targets message d) s)"

definition dispatchRestockEvent ::
  "transports \<Rightarrow> (nat \<Rightarrow> string) \<Rightarrow> int \<Rightarrow> string \<Rightarrow> string \<Rightarrow> RestockMessage \<Rightarrow> alert_db
     \<Rightarrow> db_error + DispatchResult \<times> alert_db" where
  "dispatchRestockEvent tr ids now eventId retailerProductId message db =
     (let targets = findFanOutTargets retailerProductId db in
      case claimDeliveries ids now eventId targets db of
        Inl e \<Rightarrow> Inl e
      | Inr (claimed, db') \<Rightarrow>
          Inr (fan_rest tr now message targets claimed
                 (\<lparr>dpClaimed = length claimed, dpSent = 0, dpFailed = 0, dpSkipped = 0, dpRetryable = 0\<rparr>,
                  db')))"

section \<open>The retry\<close>

record RetryResult =
  rrConsidered :: nat
  rrSent :: nat
  rrStillOwed :: nat
  rrAbandoned :: nat
  rrSwitchedOff :: bool

text \<open>The two maps of a run, from the listing to what was read of it.\<close>

type_synonym retry_maps = "(string \<times> RestockMessage option) list \<times> (string \<times> FanOutTarget list) list"

datatype retry_verdict = Gone string | Tried DeliveryOutcome

definition retry_decide :: "transports \<Rightarrow> retry_maps \<Rightarrow> RetryableDelivery \<Rightarrow> retry_verdict" where
  "retry_decide tr maps r =
     (let message = Option.bind (map_of (fst maps) (rdRetailerProductId r)) (\<lambda>m. m);
          target = Option.bind (map_of (snd maps) (rdRetailerProductId r)) (find_target (rdSubscriptionId r))
      in case message of
           None \<Rightarrow> Gone ''listing gone''
         | Some m \<Rightarrow>
             (case target of
                None \<Rightarrow> Gone ''watch gone''
              | Some t \<Rightarrow>
                  (case tr (rdChannel r) of
                     None \<Rightarrow> Gone (''no transport for '' @ channel_tag (rdChannel r))
                   | Some send \<Rightarrow> Tried (send m (recipient_of t (rdSubscriptionId r))))))"

definition worthAnother :: "int \<Rightarrow> RetryableDelivery \<Rightarrow> DeliveryOutcome \<Rightarrow> bool" where
  "worthAnother maxAttempts r outcome =
     (case outcome of Refused reason retryable \<Rightarrow> retryable \<and> rdAttempts r + 1 < maxAttempts | _ \<Rightarrow> False)"

definition retry_mark ::
  "int \<Rightarrow> int \<Rightarrow> RetryableDelivery \<Rightarrow> retry_verdict \<Rightarrow> RetryResult \<times> alert_db \<Rightarrow> RetryResult \<times> alert_db" where
  "retry_mark maxAttempts now r v s =
     (case s of (res, db) \<Rightarrow>
        case v of
          Gone reason \<Rightarrow> (res\<lparr>rrAbandoned := rrAbandoned res + 1\<rparr>, abandonDelivery (rdId r) reason db)
        | Tried Delivered \<Rightarrow> (res\<lparr>rrSent := rrSent res + 1\<rparr>, markDeliverySent now (rdId r) db)
        | Tried outcome \<Rightarrow>
            let reason = (case outcome of Refused t _ \<Rightarrow> t | Skipped t \<Rightarrow> t | Delivered \<Rightarrow> '''')
            in if worthAnother maxAttempts r outcome
               then (res\<lparr>rrStillOwed := rrStillOwed res + 1\<rparr>,
                     markDeliveryFailed (rdId r) reason DeliveryPending db)
               else (res\<lparr>rrAbandoned := rrAbandoned res + 1\<rparr>,
                     markDeliveryFailed (rdId r) reason DeliveryFailed db))"

datatype retry_job =
    RetryLoop "RetryableDelivery list" retry_maps RetryResult
  | RetryFound "RetryableDelivery list" retry_maps RetryResult
  | RetryMark RetryableDelivery retry_verdict "RetryableDelivery list" retry_maps RetryResult
  | RetryDone RetryResult

definition switched_off :: RetryResult where
  "switched_off =
     \<lparr>rrConsidered = 0, rrSent = 0, rrStillOwed = 0, rrAbandoned = 0, rrSwitchedOff = True\<rparr>"

definition considered :: "RetryableDelivery list \<Rightarrow> RetryResult" where
  "considered rows =
     \<lparr>rrConsidered = length rows, rrSent = 0, rrStillOwed = 0, rrAbandoned = 0, rrSwitchedOff = False\<rparr>"

definition retry_start :: "bool \<Rightarrow> RetryOptions \<Rightarrow> int \<Rightarrow> alert_db \<Rightarrow> retry_job" where
  "retry_start sendingEnabled opts now db =
     (if \<not> sendingEnabled then RetryDone switched_off
      else let rows = claimRetryableDeliveries opts now db in RetryLoop rows ([], []) (considered rows))"

text \<open>
  A delivery whose listing has not been met: its message is built, from this delivery's event, and then
  its targets are read.
\<close>

fun retry_step :: "transports \<Rightarrow> int \<Rightarrow> int \<Rightarrow> retry_job \<times> alert_db \<Rightarrow> retry_job \<times> alert_db" where
  "retry_step tr maxAttempts now (RetryLoop (r # rs) maps res, db) =
     (if map_of (fst maps) (rdRetailerProductId r) = None
      then (RetryFound (r # rs)
              ((rdRetailerProductId r,
                buildMessage (rdRetailerProductId r) (rdPriceCents r) (rdCurrency r) (rdDetectedAt r) db)
                 # fst maps, snd maps) res, db)
      else (RetryMark r (retry_decide tr maps r) rs maps res, db))"
| "retry_step tr maxAttempts now (RetryLoop [] maps res, db) = (RetryDone res, db)"
| "retry_step tr maxAttempts now (RetryFound (r # rs) maps res, db) =
     (RetryLoop (r # rs)
        (fst maps, (rdRetailerProductId r, findFanOutTargets (rdRetailerProductId r) db) # snd maps) res, db)"
| "retry_step tr maxAttempts now (RetryFound [] maps res, db) = (RetryDone res, db)"
| "retry_step tr maxAttempts now (RetryMark r v rs maps res, db) =
     (case retry_mark maxAttempts now r v (res, db) of (res', db') \<Rightarrow> (RetryLoop rs maps res', db'))"
| "retry_step tr maxAttempts now (RetryDone res, db) = (RetryDone res, db)"

text \<open>A run that nothing interrupts.\<close>

definition meet_listing :: "alert_db \<Rightarrow> RetryableDelivery \<Rightarrow> retry_maps \<Rightarrow> retry_maps" where
  "meet_listing db r maps =
     (if map_of (fst maps) (rdRetailerProductId r) = None
      then ((rdRetailerProductId r,
             buildMessage (rdRetailerProductId r) (rdPriceCents r) (rdCurrency r) (rdDetectedAt r) db)
              # fst maps,
            (rdRetailerProductId r, findFanOutTargets (rdRetailerProductId r) db) # snd maps)
      else maps)"

fun retry_rest ::
  "transports \<Rightarrow> int \<Rightarrow> int \<Rightarrow> RetryableDelivery list \<Rightarrow> retry_maps \<Rightarrow> RetryResult \<times> alert_db
     \<Rightarrow> RetryResult \<times> alert_db" where
  "retry_rest tr maxAttempts now [] maps s = s"
| "retry_rest tr maxAttempts now (r # rs) maps s =
     (let maps' = meet_listing (snd s) r maps in
      retry_rest tr maxAttempts now rs maps' (retry_mark maxAttempts now r (retry_decide tr maps' r) s))"

definition retryOwedDeliveries ::
  "transports \<Rightarrow> bool \<Rightarrow> RetryOptions \<Rightarrow> int \<Rightarrow> alert_db \<Rightarrow> RetryResult \<times> alert_db" where
  "retryOwedDeliveries tr sendingEnabled opts now db =
     (if \<not> sendingEnabled then (switched_off, db)
      else
        let rows = claimRetryableDeliveries opts now db in
        retry_rest tr (roMaxAttempts opts) now rows ([], []) (considered rows, db))"

definition alertRetryJob ::
  "transports \<Rightarrow> bool \<Rightarrow> RetryOptions \<Rightarrow> int \<Rightarrow> alert_db \<Rightarrow> string list \<times> alert_db" where
  "alertRetryJob tr sendingEnabled opts now db =
     (case retryOwedDeliveries tr sendingEnabled opts now db of
        (result, db') \<Rightarrow>
          (if rrSwitchedOff result
           then [''alert delivery is switched off (alerts.enabled); nothing sent'']
           else if rrConsidered result = 0 then [''no alerts owed'']
           else [''considered '' @ string_of_nat (rrConsidered result),
                 ''sent '' @ string_of_nat (rrSent result),
                 ''still owed '' @ string_of_nat (rrStillOwed result),
                 ''abandoned '' @ string_of_nat (rrAbandoned result)], db'))"

end
