(* ===== verification/AlertRuns.thy ===== *)
theory AlertRuns
  imports AlertDispatch
begin

text \<open>
  Fan-outs and retries running at the same time as everything else that touches the alert tables. Both
  kinds of run meet one contract, \<open>alert_run\<close>: a step either does nothing to the deliveries, sends the
  next one it waits for, or marks the one it has just sent. The invariant of all runs is proved once
  from the contract; when retries do not overlap, an alert is told at most once.
\<close>

section \<open>What a run holds\<close>

type_synonym sends = "(string \<times> DeliveryOutcome) list"

fun fan_waiting :: "fan_job \<Rightarrow> string list" where
  "fan_waiting (FanLoop message targets ds res) = map deId ds"
| "fan_waiting (FanMark message targets d v ds res) = map deId ds"
| "fan_waiting _ = []"

fun fan_marking :: "fan_job \<Rightarrow> (string \<times> bool) option" where
  "fan_marking (FanMark message targets d v ds res) = Some (deId d, v = Answered Delivered)"
| "fan_marking _ = None"

fun fan_sent :: "fan_job \<Rightarrow> sends" where
  "fan_sent (FanMark message targets d (Answered outcome) ds res) = [(deId d, outcome)]"
| "fan_sent _ = []"

fun retry_waiting :: "retry_job \<Rightarrow> string list" where
  "retry_waiting (RetryLoop rs maps res) = map rdId rs"
| "retry_waiting (RetryFound rs maps res) = map rdId rs"
| "retry_waiting (RetryMark r v rs maps res) = map rdId rs"
| "retry_waiting (RetryDone res) = []"

fun retry_marking :: "retry_job \<Rightarrow> (string \<times> bool) option" where
  "retry_marking (RetryMark r v rs maps res) = Some (rdId r, v = Tried Delivered)"
| "retry_marking _ = None"

fun retry_sent :: "retry_job \<Rightarrow> sends" where
  "retry_sent (RetryMark r (Tried outcome) rs maps res) = [(rdId r, outcome)]"
| "retry_sent _ = []"

section \<open>The contract of a run\<close>

text \<open>What one step of a run may do: \<open>(waiting, marking, rows)\<close> before, what it sends, and after.\<close>

inductive run_move ::
  "string list \<times> (string \<times> bool) option \<times> AlertDelivery list \<Rightarrow> sends
     \<Rightarrow> string list \<times> (string \<times> bool) option \<times> AlertDelivery list \<Rightarrow> bool" where
  idle: "run_move (ks, None, rows) [] (ks, None, rows)"
| decide: "run_move (k # ks, None, rows) sent (ks, Some (k, told), rows)"
    if "sent = [] \<and> \<not> told \<or> (\<exists>outcome. sent = [(k, outcome)] \<and> told = (outcome = Delivered))"
| mark: "run_move (ks, Some (k, told), rows) [] (ks, None, update_row deId k f rows)"
    if "\<forall>d. deId (f d) = deId d \<and> slot (f d) = slot d \<and> deAttempts (f d) \<le> deAttempts d + 1"
      "\<forall>d. deStatus (f d) \<noteq> (if told then DeliveryPending else DeliverySent)"

inductive_cases run_moveE: "run_move s sent t"

text \<open>Everything of the store but the deliveries.\<close>

definition other_tables :: "alert_db \<Rightarrow> alert_db" where
  "other_tables db = db\<lparr>adDeliveries := []\<rparr>"

locale alert_run =
  fixes step :: "transports \<Rightarrow> int \<Rightarrow> 'j \<times> alert_db \<Rightarrow> 'j \<times> alert_db"
    and active :: "'j \<Rightarrow> bool"
    and waiting :: "'j \<Rightarrow> string list"
    and marking :: "'j \<Rightarrow> (string \<times> bool) option"
    and sent :: "'j \<Rightarrow> sends"
  assumes step_move: "active j \<Longrightarrow> step tr now (j, db) = (j', db') \<Longrightarrow>
      run_move (waiting j, marking j, adDeliveries db) (sent j') (waiting j', marking j', adDeliveries db')
      \<and> other_tables db' = other_tables db"
    and active_step: "active j \<Longrightarrow> active (fst (step tr now (j, db)))"

fun fan_active :: "fan_job \<Rightarrow> bool" where
  "fan_active (FanFound eventId message targets) = False"
| "fan_active _ = True"

lemma fan_mark_updates:
  "\<exists>f. adDeliveries (snd (fan_mark now d v (res, db))) = update_row deId (deId d) f (adDeliveries db)
     \<and> other_tables (snd (fan_mark now d v (res, db))) = other_tables db
     \<and> (\<forall>x. deId (f x) = deId x \<and> slot (f x) = slot x \<and> deAttempts (f x) \<le> deAttempts x + 1)
     \<and> (\<forall>x. deStatus (f x) \<noteq> (if v = Answered Delivered then DeliveryPending else DeliverySent))"
proof -
  note defs = fan_mark_def markDeliverySent_def markDeliveryFailed_def update_delivery_def
    sent_set_def failed_set_def other_tables_def slot_def
  show ?thesis
  proof (cases v)
    case (Answered outcome)
    then show ?thesis by (cases outcome) (force simp: defs)+
  qed (force simp: defs)+
qed

lemma retry_mark_updates:
  "\<exists>f. adDeliveries (snd (retry_mark m now r v (res, db))) = update_row deId (rdId r) f (adDeliveries db)
     \<and> other_tables (snd (retry_mark m now r v (res, db))) = other_tables db
     \<and> (\<forall>x. deId (f x) = deId x \<and> slot (f x) = slot x \<and> deAttempts (f x) \<le> deAttempts x + 1)
     \<and> (\<forall>x. deStatus (f x) \<noteq> (if v = Tried Delivered then DeliveryPending else DeliverySent))"
proof -
  note defs = retry_mark_def markDeliverySent_def markDeliveryFailed_def abandonDelivery_def
    update_delivery_def sent_set_def failed_set_def abandon_set_def other_tables_def slot_def Let_def
  show ?thesis
  proof (cases v)
    case (Tried outcome)
    then show ?thesis by (cases outcome) (force simp: defs)+
  qed (force simp: defs)
qed

lemma fan_step_move:
  assumes "fan_active j" "fan_step tr ids now (j, db) = (j', db')"
  shows "run_move (fan_waiting j, fan_marking j, adDeliveries db) (fan_sent j')
           (fan_waiting j', fan_marking j', adDeliveries db')
         \<and> other_tables db' = other_tables db"
proof (cases j)
  case (FanLoop message targets ds res)
  then show ?thesis
  proof (cases ds)
    case (Cons d rest)
    with FanLoop assms(2) have "j' = FanMark message targets d (fan_decide tr targets message d) rest res" "db' = db"
      by auto
    with FanLoop Cons show ?thesis
      by (cases "fan_decide tr targets message d") (auto intro!: run_move.decide)
  qed (use assms(2) in \<open>auto intro!: run_move.idle\<close>)
next
  case (FanMark message targets d v ds res)
  obtain f where f: "adDeliveries (snd (fan_mark now d v (res, db))) = update_row deId (deId d) f (adDeliveries db)"
    "other_tables (snd (fan_mark now d v (res, db))) = other_tables db"
    "\<forall>x. deId (f x) = deId x \<and> slot (f x) = slot x \<and> deAttempts (f x) \<le> deAttempts x + 1"
    "\<forall>x. deStatus (f x) \<noteq> (if v = Answered Delivered then DeliveryPending else DeliverySent)"
    using fan_mark_updates by blast
  have "j' = FanLoop message targets ds (fst (fan_mark now d v (res, db)))" "db' = snd (fan_mark now d v (res, db))"
    using assms(2) FanMark by (auto split: prod.splits)
  then show ?thesis
    using FanMark f(1,2) run_move.mark [OF f(3), of "v = Answered Delivered" "map deId ds" "deId d"] f(4) by simp
qed (use assms in \<open>auto intro!: run_move.idle\<close>)

lemma retry_step_move:
  assumes "retry_step tr m now (j, db) = (j', db')"
  shows "run_move (retry_waiting j, retry_marking j, adDeliveries db) (retry_sent j')
           (retry_waiting j', retry_marking j', adDeliveries db')
         \<and> other_tables db' = other_tables db"
proof (cases j)
  case (RetryLoop rs maps res)
  then show ?thesis
  proof (cases rs)
    case (Cons r rest)
    show ?thesis
    proof (cases "map_of (fst maps) (rdRetailerProductId r) = None")
      case False
      with RetryLoop Cons assms have "j' = RetryMark r (retry_decide tr maps r) rest maps res" "db' = db" by auto
      with RetryLoop Cons show ?thesis
        by (cases "retry_decide tr maps r") (auto intro!: run_move.decide)
    qed (use RetryLoop Cons assms in \<open>auto intro!: run_move.idle\<close>)
  qed (use assms in \<open>auto intro!: run_move.idle\<close>)
next
  case (RetryFound rs maps res)
  then show ?thesis using assms by (cases rs) (auto intro!: run_move.idle)
next
  case (RetryMark r v rs maps res)
  obtain f where f: "adDeliveries (snd (retry_mark m now r v (res, db))) = update_row deId (rdId r) f (adDeliveries db)"
    "other_tables (snd (retry_mark m now r v (res, db))) = other_tables db"
    "\<forall>x. deId (f x) = deId x \<and> slot (f x) = slot x \<and> deAttempts (f x) \<le> deAttempts x + 1"
    "\<forall>x. deStatus (f x) \<noteq> (if v = Tried Delivered then DeliveryPending else DeliverySent)"
    using retry_mark_updates by blast
  have "j' = RetryLoop rs maps (fst (retry_mark m now r v (res, db)))" "db' = snd (retry_mark m now r v (res, db))"
    using assms RetryMark by (auto split: prod.splits)
  then show ?thesis
    using RetryMark f(1,2) run_move.mark [OF f(3), of "v = Tried Delivered" "map rdId rs" "rdId r"] f(4) by simp
qed (use assms in \<open>auto intro!: run_move.idle\<close>)

section \<open>The invariant of all runs\<close>

text \<open>A run as the others see it: what it waits for and what it is marking.\<close>

type_synonym run_view = "string list \<times> (string \<times> bool) option"

fun holds :: "run_view \<Rightarrow> string list" where
  "holds (ks, None) = ks"
| "holds (ks, Some (k, told)) = k # ks"

definition told :: "sends \<Rightarrow> string \<Rightarrow> nat" where
  "told ss k = length (filter (\<lambda>x. x = (k, Delivered)) ss)"

definition losses :: "string list \<Rightarrow> string \<Rightarrow> nat" where
  "losses lost k = length (filter (\<lambda>x. x = k) lost)"

lemma told_simps [simp]:
  "told [] k = 0" "told (ss @ ts) k = told ss k + told ts k"
  "told [(i, outcome)] k = (if i = k \<and> outcome = Delivered then 1 else 0)"
  by (auto simp: told_def)

lemma losses_simps [simp]:
  "losses [] k = 0" "losses (xs @ ys) k = losses xs k + losses ys k" "losses [i] k = (if i = k then 1 else 0)"
  by (auto simp: losses_def)

text \<open>
  No delivery is held twice; one that a run waits for, or that is owed and not just being marked as
  told, has been told no more often than a run died between telling and marking; the attempts of
  whatever is held are below the limit.
\<close>

definition ids_ok :: "AlertDelivery list \<Rightarrow> run_view list \<Rightarrow> sends \<Rightarrow> string set \<Rightarrow> bool" where
  "ids_ok rows vs ss used \<longleftrightarrow>
     distinct (map deId rows) \<and> deId ` set rows \<subseteq> used \<and> fst ` set ss \<subseteq> used
     \<and> set (concat (map holds vs)) \<subseteq> used \<and> distinct (concat (map holds vs))"

definition quits_told :: "sends \<Rightarrow> string list \<Rightarrow> string \<Rightarrow> bool" where
  "quits_told ss lost k \<longleftrightarrow> told ss k \<le> losses lost k"

definition waits_ok :: "AlertDelivery list \<Rightarrow> run_view list \<Rightarrow> sends \<Rightarrow> string list \<Rightarrow> bool" where
  "waits_ok rows vs ss lost \<longleftrightarrow>
     (\<forall>v \<in> set vs. \<forall>k \<in> set (fst v). quits_told ss lost k
        \<and> (\<forall>d \<in> set rows. deId d = k \<longrightarrow> deStatus d = DeliveryPending))"

definition tries_ok :: "int \<Rightarrow> AlertDelivery list \<Rightarrow> run_view list \<Rightarrow> bool" where
  "tries_ok m rows vs \<longleftrightarrow>
     (\<forall>d \<in> set rows. deAttempts d \<le> m \<and> (deId d \<in> set (concat (map holds vs)) \<longrightarrow> deAttempts d < m))"

definition marks_ok :: "run_view list \<Rightarrow> sends \<Rightarrow> string list \<Rightarrow> bool" where
  "marks_ok vs ss lost \<longleftrightarrow> (\<forall>v \<in> set vs. \<forall>k. snd v = Some (k, False) \<longrightarrow> quits_told ss lost k)"

definition owed_ok :: "AlertDelivery list \<Rightarrow> run_view list \<Rightarrow> sends \<Rightarrow> string list \<Rightarrow> bool" where
  "owed_ok rows vs ss lost \<longleftrightarrow>
     (\<forall>d \<in> set rows. deStatus d = DeliveryPending \<longrightarrow>
        (\<forall>v \<in> set vs. snd v \<noteq> Some (deId d, True)) \<longrightarrow> quits_told ss lost (deId d))"

definition sent_ok :: "AlertDelivery list \<Rightarrow> run_view list \<Rightarrow> sends \<Rightarrow> bool" where
  "sent_ok rows vs ss \<longleftrightarrow>
     (\<forall>d \<in> set rows. deStatus d = DeliverySent \<longrightarrow> 1 \<le> told ss (deId d))
     \<and> (\<forall>v \<in> set vs. \<forall>k. snd v = Some (k, True) \<longrightarrow> 1 \<le> told ss k)"

definition told_ok :: "sends \<Rightarrow> string list \<Rightarrow> bool" where
  "told_ok ss lost \<longleftrightarrow> (\<forall>k. told ss k \<le> losses lost k + 1)"

definition runs_inv ::
  "int \<Rightarrow> AlertDelivery list \<Rightarrow> run_view list \<Rightarrow> sends \<Rightarrow> string list \<Rightarrow> string set \<Rightarrow> bool" where
  "runs_inv m rows vs ss lost used \<longleftrightarrow>
     ids_ok rows vs ss used \<and> waits_ok rows vs ss lost \<and> tries_ok m rows vs \<and> marks_ok vs ss lost
     \<and> owed_ok rows vs ss lost \<and> told_ok ss lost \<and> sent_ok rows vs ss"

lemma runs_invI:
  assumes "ids_ok rows vs ss used" "waits_ok rows vs ss lost" "tries_ok m rows vs" "marks_ok vs ss lost"
    "owed_ok rows vs ss lost" "told_ok ss lost" "sent_ok rows vs ss"
  shows "runs_inv m rows vs ss lost used"
  using assms by (simp add: runs_inv_def)

lemma runs_invD:
  assumes "runs_inv m rows vs ss lost used"
  shows "ids_ok rows vs ss used" "waits_ok rows vs ss lost" "tries_ok m rows vs" "marks_ok vs ss lost"
    "owed_ok rows vs ss lost" "told_ok ss lost" "sent_ok rows vs ss"
  using assms by (simp_all add: runs_inv_def)

lemma told_fresh: "k \<notin> fst ` set ss \<Longrightarrow> told ss k = 0"
  by (induction ss) (auto simp: told_def)

text \<open>Rows that go take nothing with them but themselves.\<close>

lemma runs_inv_fewer:
  assumes inv: "runs_inv m rows vs ss lost used" and d: "distinct (map deId rows')" and sub: "set rows' \<subseteq> set rows"
  shows "runs_inv m rows' vs ss lost used"
proof (rule runs_invI)
  note parts = runs_invD [OF inv]
  show "ids_ok rows' vs ss used" using parts(1) d sub unfolding ids_ok_def by blast
  show "waits_ok rows' vs ss lost" using parts(2) sub unfolding waits_ok_def by blast
  show "tries_ok m rows' vs" using parts(3) sub unfolding tries_ok_def by blast
  show "owed_ok rows' vs ss lost" using parts(5) sub unfolding owed_ok_def by blast
  show "sent_ok rows' vs ss" using parts(7) sub unfolding sent_ok_def by blast
qed (use runs_invD [OF inv] in blast)+

lemma runs_inv_used:
  assumes "runs_inv m rows vs ss lost used" "used \<subseteq> used'"
  shows "runs_inv m rows vs ss lost used'"
proof -
  have "ids_ok rows vs ss used'" using runs_invD(1) [OF assms(1)] assms(2) unfolding ids_ok_def by blast
  then show ?thesis using assms(1) by (simp add: runs_inv_def)
qed

lemma marked_not_waiting:
  assumes "runs_inv m rows (xs @ (ks, Some (k, t)) # ys) ss lost used"
  shows "k \<notin> set ks" "\<forall>v \<in> set xs \<union> set ys. k \<notin> set (holds v)"
proof -
  have "distinct (concat (map holds (xs @ (ks, Some (k, t)) # ys)))"
    using runs_invD(1) [OF assms] by (simp add: ids_ok_def)
  then show "k \<notin> set ks" "\<forall>v \<in> set xs \<union> set ys. k \<notin> set (holds v)" by auto
qed

lemma in_holds: "k \<in> set (fst v) \<Longrightarrow> k \<in> set (holds v)" "snd v = Some (k, t) \<Longrightarrow> k \<in> set (holds v)"
  by (cases v rule: holds.cases; auto)+

lemma held_mem: "v \<in> set vs \<Longrightarrow> k \<in> set (fst v) \<Longrightarrow> k \<in> set (concat (map holds vs))"
  by simp (blast intro: in_holds(1))

lemma held_mark: "v \<in> set vs \<Longrightarrow> snd v = Some (k, t) \<Longrightarrow> k \<in> set (concat (map holds vs))"
  by simp (blast intro: in_holds(2))

section \<open>Every move keeps it\<close>

lemma decide_inv:
  assumes inv: "runs_inv m rows (xs @ (k # ks, None) # ys) ss lost used"
    and sent: "sent = [] \<and> \<not> t \<or> (\<exists>outcome. sent = [(k, outcome)] \<and> t = (outcome = Delivered))"
  shows "runs_inv m rows (xs @ (ks, Some (k, t)) # ys) (ss @ sent) lost used"
proof (rule runs_invI)
  note parts = runs_invD [OF inv]
  let ?vs = "xs @ (k # ks, None) # ys" and ?vs' = "xs @ (ks, Some (k, t)) # ys"
  have same: "concat (map holds ?vs') = concat (map holds ?vs)" by simp
  have held: "distinct (concat (map holds ?vs))" using parts(1) unfolding ids_ok_def by blast
  have alone: "k \<notin> set ks" "\<And>v. v \<in> set xs \<union> set ys \<Longrightarrow> k \<notin> set (holds v)" using held by auto
  have q: "quits_told ss lost k" using parts(2) unfolding waits_ok_def by auto
  have t1: "told sent i = (if i = k \<and> t then 1 else 0)" for i using sent by auto
  have keep: "quits_told (ss @ sent) lost i" if "quits_told ss lost i" "i \<noteq> k \<or> \<not> t" for i
    using that by (auto simp: quits_told_def t1)
  show "ids_ok rows ?vs' (ss @ sent) used"
    using parts(1) sent unfolding ids_ok_def same by auto
  show "waits_ok rows ?vs' (ss @ sent) lost"
    unfolding waits_ok_def
  proof (intro ballI)
    fix v i assume v: "v \<in> set ?vs'" "i \<in> set (fst v)"
    have "i \<noteq> k"
    proof (cases "v \<in> set xs \<union> set ys")
      case True then show ?thesis using alone(2) in_holds(1) [OF v(2)] by metis
    qed (use v alone(1) in auto)
    moreover have "\<exists>w \<in> set ?vs. i \<in> set (fst w)" using v by auto
    ultimately show "quits_told (ss @ sent) lost i
        \<and> (\<forall>d \<in> set rows. deId d = i \<longrightarrow> deStatus d = DeliveryPending)"
      using parts(2) keep unfolding waits_ok_def by blast
  qed
  show "tries_ok m rows ?vs'" using parts(3) unfolding tries_ok_def same .
  show "marks_ok ?vs' (ss @ sent) lost"
    unfolding marks_ok_def
  proof (intro ballI allI impI)
    fix v i assume v: "v \<in> set ?vs'" "snd v = Some (i, False)"
    show "quits_told (ss @ sent) lost i"
    proof (cases "v \<in> set xs \<union> set ys")
      case True
      then have "i \<noteq> k" using alone(2) in_holds(2) [OF v(2)] by blast
      moreover have "quits_told ss lost i" using parts(4) True v(2) unfolding marks_ok_def by auto
      ultimately show ?thesis using keep by blast
    qed (use v q keep in auto)
  qed
  show "owed_ok rows ?vs' (ss @ sent) lost"
    unfolding owed_ok_def
  proof (intro ballI impI)
    fix d assume d: "d \<in> set rows" "deStatus d = DeliveryPending" "\<forall>v \<in> set ?vs'. snd v \<noteq> Some (deId d, True)"
    then have "\<forall>v \<in> set ?vs. snd v \<noteq> Some (deId d, True)" "deId d \<noteq> k \<or> \<not> t" by auto
    then show "quits_told (ss @ sent) lost (deId d)"
      using parts(5) d(1,2) keep unfolding owed_ok_def by blast
  qed
  show "told_ok (ss @ sent) lost"
    using parts(6) q by (auto simp: told_ok_def quits_told_def t1)
  show "sent_ok rows ?vs' (ss @ sent)"
    using parts(7) by (auto simp: sent_ok_def t1 trans_le_add1)
qed

lemma mark_inv:
  assumes inv: "runs_inv m rows (xs @ (ks, Some (k, t)) # ys) ss lost used"
    and f: "\<forall>d. deId (f d) = deId d \<and> slot (f d) = slot d \<and> deAttempts (f d) \<le> deAttempts d + 1"
    and closes: "\<forall>d. deStatus (f d) \<noteq> (if t then DeliveryPending else DeliverySent)"
  shows "runs_inv m (update_row deId k f rows) (xs @ (ks, None) # ys) ss lost used"
proof (rule runs_invI)
  note parts = runs_invD [OF inv]
  let ?vs = "xs @ (ks, Some (k, t)) # ys" and ?vs' = "xs @ (ks, None) # ys"
  let ?rows = "update_row deId k f rows"
  have held: "set (concat (map holds ?vs)) = insert k (set (concat (map holds ?vs')))" by auto
  have d: "distinct (concat (map holds ?vs))" using parts(1) unfolding ids_ok_def by blast
  have gone: "k \<notin> set (concat (map holds ?vs'))" using d by auto
  have ids: "map deId ?rows = map deId rows" using f by (induction rows) auto
  have rows': "e \<in> set ?rows \<Longrightarrow> e \<in> set rows \<and> deId e \<noteq> k \<or> (\<exists>d \<in> set rows. deId d = k \<and> e = f d)" for e
    by (auto simp: set_update_row)
  show "ids_ok ?rows ?vs' ss used"
    unfolding ids_ok_def
  proof (intro conjI)
    have "deId ` set ?rows = deId ` set rows" using ids by (metis set_map)
    then show "deId ` set ?rows \<subseteq> used" using parts(1) unfolding ids_ok_def by simp
    show "set (concat (map holds ?vs')) \<subseteq> used" using parts(1) held unfolding ids_ok_def by blast
    show "distinct (concat (map holds ?vs'))" using d by auto
  qed (use parts(1) in \<open>simp_all add: ids_ok_def ids\<close>)
  show "waits_ok ?rows ?vs' ss lost"
    unfolding waits_ok_def
  proof (intro ballI)
    fix v i assume v: "v \<in> set ?vs'" "i \<in> set (fst v)"
    then have "i \<noteq> k" using gone held_mem by metis
    moreover have "\<exists>w \<in> set ?vs. i \<in> set (fst w)" using v by auto
    ultimately show "quits_told ss lost i \<and> (\<forall>d \<in> set ?rows. deId d = i \<longrightarrow> deStatus d = DeliveryPending)"
      using parts(2) rows' f unfolding waits_ok_def by metis
  qed
  show "tries_ok m ?rows ?vs'"
    unfolding tries_ok_def
  proof (intro ballI)
    fix e assume "e \<in> set ?rows"
    then consider "e \<in> set rows" "deId e \<noteq> k" | d where "d \<in> set rows" "deId d = k" "e = f d"
      using rows' by blast
    then show "deAttempts e \<le> m \<and> (deId e \<in> set (concat (map holds ?vs')) \<longrightarrow> deAttempts e < m)"
    proof cases
      case 1 then show ?thesis using parts(3) unfolding tries_ok_def held by blast
    next
      case 2
      then have "deAttempts d < m" using parts(3) unfolding tries_ok_def held by blast
      then have "deAttempts (f d) \<le> m" using f by (smt (verit))
      then show ?thesis using 2 f gone by simp
    qed
  qed
  show "marks_ok ?vs' ss lost" using parts(4) unfolding marks_ok_def by auto
  show "owed_ok ?rows ?vs' ss lost"
    unfolding owed_ok_def
  proof (intro ballI impI)
    fix e assume e: "e \<in> set ?rows" "deStatus e = DeliveryPending" "\<forall>v \<in> set ?vs'. snd v \<noteq> Some (deId e, True)"
    from rows' [OF e(1)] show "quits_told ss lost (deId e)"
    proof (elim disjE bexE conjE)
      assume "e \<in> set rows" "deId e \<noteq> k"
      then show ?thesis using parts(5) e(2,3) unfolding owed_ok_def by auto
    next
      fix d assume "deId d = k" "e = f d"
      then have "\<not> t" "deId e = k" using closes e(2) f by auto
      then show ?thesis using parts(4) unfolding marks_ok_def by simp
    qed
  qed
  show "sent_ok ?rows ?vs' ss"
    unfolding sent_ok_def
  proof (intro conjI ballI allI impI)
    fix e assume e: "e \<in> set ?rows" "deStatus e = DeliverySent"
    from rows' [OF e(1)] show "1 \<le> told ss (deId e)"
    proof (elim disjE bexE conjE)
      assume "e \<in> set rows"
      then show ?thesis using parts(7) e(2) unfolding sent_ok_def by blast
    next
      fix d assume "deId d = k" "e = f d"
      then have "t" "deId e = k" using closes [rule_format, of d] e(2) f by (auto split: if_splits)
      then show ?thesis using parts(7) unfolding sent_ok_def by auto
    qed
  qed (use parts(7) in \<open>auto simp: sent_ok_def\<close>)
qed (use runs_invD [OF inv] in blast)

lemma run_move_inv:
  assumes "run_move (ks, mk, rows) sent (ks', mk', rows')" "runs_inv m rows (xs @ (ks, mk) # ys) ss lost used"
  shows "runs_inv m rows' (xs @ (ks', mk') # ys) (ss @ sent) lost used"
  using assms by (auto elim!: run_moveE intro: decide_inv mark_inv)

lemma claim_inv:
  assumes inv: "runs_inv m rows (xs @ ([], None) # ys) ss lost used" and m: "0 < m"
    and ds: "distinct (map deId ds)" "deId ` set ds \<inter> used = {}"
      "\<forall>d \<in> set ds. deStatus d = DeliveryPending \<and> deAttempts d = 0"
  shows "runs_inv m (rows @ ds) (xs @ (map deId ds, None) # ys) ss lost (used \<union> deId ` set ds)"
proof (rule runs_invI)
  note parts = runs_invD [OF inv]
  let ?vs = "xs @ ([], None) # ys" and ?vs' = "xs @ (map deId ds, None) # ys"
  have held: "set (concat (map holds ?vs')) = set (concat (map holds ?vs)) \<union> deId ` set ds" by auto
  have used: "deId ` set rows \<subseteq> used" "set (concat (map holds ?vs)) \<subseteq> used" "fst ` set ss \<subseteq> used"
    using parts(1) unfolding ids_ok_def by blast+
  have fresh: "quits_told ss lost k" if "k \<in> deId ` set ds" for k
  proof -
    have "k \<notin> fst ` set ss" using that ds(2) used(3) by blast
    then show ?thesis by (simp add: quits_told_def told_fresh)
  qed
  show "ids_ok (rows @ ds) ?vs' ss (used \<union> deId ` set ds)"
    unfolding ids_ok_def
  proof (intro conjI)
    show "distinct (map deId (rows @ ds))"
      using parts(1) ds(1,2) used(1) unfolding ids_ok_def by auto
    show "set (concat (map holds ?vs')) \<subseteq> used \<union> deId ` set ds" using used(2) held by blast
    have "distinct (concat (map holds ?vs))" using parts(1) unfolding ids_ok_def by blast
    then show "distinct (concat (map holds ?vs'))" using ds(1,2) used(2) by (simp, blast)
  qed (use used in auto)
  show "waits_ok (rows @ ds) ?vs' ss lost"
    unfolding waits_ok_def
  proof (intro ballI)
    fix v k assume v: "v \<in> set ?vs'" "k \<in> set (fst v)"
    show "quits_told ss lost k \<and> (\<forall>d \<in> set (rows @ ds). deId d = k \<longrightarrow> deStatus d = DeliveryPending)"
    proof (cases "v \<in> set xs \<union> set ys")
      case True
      then have "quits_told ss lost k \<and> (\<forall>d \<in> set rows. deId d = k \<longrightarrow> deStatus d = DeliveryPending)"
        using parts(2) v(2) unfolding waits_ok_def by auto
      then show ?thesis using ds(3) by auto
    next
      case False
      then have k: "k \<in> deId ` set ds" using v by auto
      then have "k \<notin> deId ` set rows" using ds(2) used(1) by blast
      then show ?thesis using fresh [OF k] ds(3) by auto
    qed
  qed
  show "tries_ok m (rows @ ds) ?vs'"
    unfolding tries_ok_def
  proof (intro ballI)
    fix d assume "d \<in> set (rows @ ds)"
    then consider "d \<in> set rows" "deId d \<notin> deId ` set ds" | "d \<in> set ds"
      using ds(2) used(1) by auto
    then show "deAttempts d \<le> m \<and> (deId d \<in> set (concat (map holds ?vs')) \<longrightarrow> deAttempts d < m)"
    proof cases
      case 1 then show ?thesis using parts(3) unfolding tries_ok_def held by blast
    next
      case 2 then show ?thesis using ds(3) m by simp
    qed
  qed
  show "owed_ok (rows @ ds) ?vs' ss lost"
    using parts(5) fresh by (auto simp: owed_ok_def)
  show "sent_ok (rows @ ds) ?vs' ss" using parts(7) ds(3) by (auto simp: sent_ok_def)
  show "marks_ok ?vs' ss lost" using parts(4) by (auto simp: marks_ok_def)
qed (use runs_invD [OF inv] in blast)

lemma begin_inv:
  assumes inv: "runs_inv m rows vs ss lost used"
    and ks: "distinct ks" "set ks \<inter> set (concat (map holds vs)) = {}"
      "\<forall>k \<in> set ks. \<exists>d \<in> set rows. deId d = k \<and> deStatus d = DeliveryPending \<and> deAttempts d < m"
  shows "runs_inv m rows (vs @ [(ks, None)]) ss lost used"
proof (rule runs_invI)
  note parts = runs_invD [OF inv]
  have ids: "distinct (map deId rows)" "deId ` set rows \<subseteq> used" using parts(1) unfolding ids_ok_def by blast+
  have row: "deStatus d = DeliveryPending \<and> deAttempts d < m" if "d \<in> set rows" "deId d \<in> set ks" for d
    using ks(3) that ids(1) by (metis distinct_map inj_onD)
  have free: "snd v \<noteq> Some (k, t)" if "k \<in> set ks" "v \<in> set vs" for k t v
  proof
    assume "snd v = Some (k, t)"
    with that(2) have "k \<in> set (concat (map holds vs))" by (rule held_mark)
    then show False using ks(2) that(1) by blast
  qed
  have owed: "quits_told ss lost k" if "k \<in> set ks" for k
  proof -
    obtain d where d: "d \<in> set rows" "deId d = k" "deStatus d = DeliveryPending" using ks(3) \<open>k \<in> set ks\<close> by blast
    have "\<forall>v \<in> set vs. snd v \<noteq> Some (deId d, True)" using free \<open>k \<in> set ks\<close> d(2) by simp
    then show ?thesis using parts(5) d unfolding owed_ok_def by blast
  qed
  show "ids_ok rows (vs @ [(ks, None)]) ss used"
  proof -
    have eq: "concat (map holds (vs @ [(ks, None)])) = concat (map holds vs) @ ks" by simp
    have "set ks \<subseteq> used"
    proof
      fix k assume "k \<in> set ks"
      then obtain d where "d \<in> set rows" "deId d = k" using ks(3) by blast
      then show "k \<in> used" using ids(2) by auto
    qed
    moreover have "set (concat (map holds vs)) \<subseteq> used" "distinct (concat (map holds vs))" "fst ` set ss \<subseteq> used"
      using parts(1) unfolding ids_ok_def by blast+
    moreover have "distinct (concat (map holds vs) @ ks)"
      unfolding distinct_append using calculation(3) ks(1,2) by (simp only: Int_commute simp_thms)
    ultimately show ?thesis
      unfolding ids_ok_def eq set_append by (simp only: ids Un_least simp_thms)
  qed
  show "waits_ok rows (vs @ [(ks, None)]) ss lost"
    using parts(2) row owed by (auto simp: waits_ok_def)
  show "tries_ok m rows (vs @ [(ks, None)])" using parts(3) row by (auto simp: tries_ok_def)
  show "marks_ok (vs @ [(ks, None)]) ss lost" using parts(4) by (auto simp: marks_ok_def)
  show "owed_ok rows (vs @ [(ks, None)]) ss lost" using parts(5) by (auto simp: owed_ok_def)
  show "sent_ok rows (vs @ [(ks, None)]) ss" using parts(7) by (auto simp: sent_ok_def)
qed (use runs_invD [OF inv] in blast)

text \<open>A run that dies; what it had told and not marked is lost.\<close>

fun lost_by :: "run_view \<Rightarrow> string list" where
  "lost_by (ks, Some (k, True)) = [k]"
| "lost_by v = []"

lemma crash_inv:
  assumes inv: "runs_inv m rows (xs @ v # ys) ss lost used"
  shows "runs_inv m rows (xs @ ys) ss (lost @ lost_by v) used"
proof (rule runs_invI)
  note parts = runs_invD [OF inv]
  have more: "quits_told ss (lost @ lost_by v) k" if "quits_told ss lost k" for k
    using that by (auto simp: quits_told_def)
  have dead: "quits_told ss (lost @ lost_by v) k" if "snd v = Some (k, True)" for k
    using parts(6) that by (cases v) (auto simp: quits_told_def told_ok_def)
  show "ids_ok rows (xs @ ys) ss used" using parts(1) by (auto simp: ids_ok_def)
  show "waits_ok rows (xs @ ys) ss (lost @ lost_by v)" using parts(2) more by (auto simp: waits_ok_def)
  show "tries_ok m rows (xs @ ys)" using parts(3) by (auto simp: tries_ok_def)
  show "marks_ok (xs @ ys) ss (lost @ lost_by v)" using parts(4) more by (auto simp: marks_ok_def)
  show "owed_ok rows (xs @ ys) ss (lost @ lost_by v)"
    using parts(5) more dead by (auto simp: owed_ok_def)
  show "told_ok ss (lost @ lost_by v)"
    unfolding told_ok_def
  proof
    fix k
    have "told ss k \<le> losses lost k + 1" using parts(6) by (simp add: told_ok_def)
    then show "told ss k \<le> losses (lost @ lost_by v) k + 1" by simp
  qed
  show "sent_ok rows (xs @ ys) ss" using parts(7) by (auto simp: sent_ok_def)
qed

section \<open>The world of alerts\<close>

datatype alert_job = Fanning fan_job | Retrying retry_job

fun job_view :: "alert_job \<Rightarrow> run_view" where
  "job_view (Fanning j) = (fan_waiting j, fan_marking j)"
| "job_view (Retrying j) = (retry_waiting j, retry_marking j)"

text \<open>
  The tables, the clock, the delivery identifiers drawn so far, what was sent and how it was answered,
  what was told by runs that died before they marked it, and the runs under way.
\<close>

record alert_world =
  awDb :: alert_db
  awNow :: int
  awUsed :: "string set"
  awSends :: sends
  awLost :: "string list"
  awJobs :: "alert_job list"

text \<open>
  No retry is under way, and no fan-out still holds a delivery as old as a retry may take up.
\<close>

definition alerts_quiet :: "RetryOptions \<Rightarrow> alert_world \<Rightarrow> bool" where
  "alerts_quiet opts w \<longleftrightarrow>
     (\<forall>j \<in> set (awJobs w).
        case j of
          Retrying r \<Rightarrow> retry_waiting r = [] \<and> retry_marking r = None
        | Fanning f \<Rightarrow>
            (\<forall>d \<in> set (adDeliveries (awDb w)).
               deId d \<in> set (holds (job_view (Fanning f))) \<longrightarrow>
               deCreatedAt d \<ge> awNow w - roStaleAfterSeconds opts * 1000))"

text \<open>With \<open>serial\<close>, a retry starts only when it is quiet.\<close>

inductive alert_step :: "bool \<Rightarrow> RetryOptions \<Rightarrow> alert_world \<Rightarrow> alert_world \<Rightarrow> bool"
  for serial :: bool and opts :: RetryOptions where
  tick: "alert_step serial opts w (w\<lparr>awNow := t\<rparr>)" if "awNow w \<le> t"
| watch: "alert_step serial opts w (w\<lparr>awDb := db\<rparr>)"
    if "snd (postWatch subject body newId (awNow w) (awDb w, log0)) = (db, log1)"
| unwatch: "alert_step serial opts w (w\<lparr>awDb := db\<rparr>)"
    if "snd (deleteWatchRoute subject k (awDb w, log0)) = (db, log1)"
| unsubscribe: "alert_step serial opts w (w\<lparr>awDb := db\<rparr>)"
    if "snd (postUnsubscribe is_uuid pepper fromQuery fromBody (awNow w) (awDb w, log0)) = (db, log1)"
| listing: "alert_step serial opts w (w\<lparr>awDb := db\<rparr>)"
    if "resolveListing parse_url newId slug domain u (awDb w) = Inr (res, db)"
| report: "alert_step serial opts w (w\<lparr>awDb := db\<rparr>)"
    if "recordStockReport snapId eventId (awNow w) r (awDb w) = Inr (res, db)"
| fan_begin: "alert_step serial opts w (w\<lparr>awJobs := awJobs w @ [Fanning (fan_start eventId l message (awDb w))]\<rparr>)"
| fan_go: "alert_step serial opts w
      (w\<lparr>awDb := db, awUsed := awUsed w \<union> deId ` set (adDeliveries db), awSends := awSends w @ fan_sent f',
         awJobs := xs @ Fanning f' # ys\<rparr>)"
    if "awJobs w = xs @ Fanning f # ys" "fan_step tr ids (awNow w) (f, awDb w) = (f', db)"
      "inj ids" "range ids \<inter> awUsed w = {}"
| retry_begin: "alert_step serial opts w
      (w\<lparr>awJobs := awJobs w @ [Retrying (retry_start enabled opts (awNow w) (awDb w))]\<rparr>)"
    if "serial \<longrightarrow> alerts_quiet opts w"
| retry_go: "alert_step serial opts w
      (w\<lparr>awDb := db, awSends := awSends w @ retry_sent r', awJobs := xs @ Retrying r' # ys\<rparr>)"
    if "awJobs w = xs @ Retrying r # ys"
      "retry_step tr (roMaxAttempts opts) (awNow w) (r, awDb w) = (r', db)"
| crash: "alert_step serial opts w
      (w\<lparr>awLost := awLost w @ lost_by (job_view j), awJobs := xs @ ys\<rparr>)"
    if "awJobs w = xs @ j # ys"

text \<open>A start with any catalogue and watches, and no alerts yet.\<close>

definition alerts_start :: "alert_world \<Rightarrow> bool" where
  "alerts_start w \<longleftrightarrow>
     adDeliveries (awDb w) = [] \<and> awUsed w = {} \<and> awSends w = [] \<and> awLost w = [] \<and> awJobs w = []"

definition alerts_reachable :: "bool \<Rightarrow> RetryOptions \<Rightarrow> alert_world \<Rightarrow> bool" where
  "alerts_reachable serial opts w \<longleftrightarrow> (\<exists>w0. alerts_start w0 \<and> (alert_step serial opts)\<^sup>*\<^sup>* w0 w)"

section \<open>The contract gives the invariant\<close>

definition world_inv :: "int \<Rightarrow> alert_world \<Rightarrow> bool" where
  "world_inv m w \<longleftrightarrow>
     runs_inv m (adDeliveries (awDb w)) (map job_view (awJobs w)) (awSends w) (awLost w) (awUsed w)"

context alert_run
begin

text \<open>A step of a run that stands anywhere among the others keeps the invariant of all of them.\<close>

lemma step_inv:
  assumes "active j" "step tr now (j, db) = (j', db')"
    and "runs_inv m (adDeliveries db) (xs @ (waiting j, marking j) # ys) ss lost used"
  shows "runs_inv m (adDeliveries db') (xs @ (waiting j', marking j') # ys) (ss @ sent j') lost used"
  using step_move [OF assms(1,2)] assms(3) by (blast intro: run_move_inv)

lemma step_touches_deliveries_only:
  "active j \<Longrightarrow> step tr now (j, db) = (j', db') \<Longrightarrow> other_tables db' = other_tables db"
  using step_move by blast

end

interpretation fan: alert_run "\<lambda>tr now. fan_step tr ids now" fan_active fan_waiting fan_marking fan_sent
  for ids
proof
  fix tr :: transports and now :: int and j j' :: fan_job and db db' :: alert_db
  show "run_move (fan_waiting j, fan_marking j, adDeliveries db) (fan_sent j')
      (fan_waiting j', fan_marking j', adDeliveries db') \<and> other_tables db' = other_tables db"
    if "fan_active j" "fan_step tr ids now (j, db) = (j', db')"
    using fan_step_move [OF that] .
  show "fan_active (fst (fan_step tr ids now (j, db)))" if "fan_active j"
    using that by (cases "(tr, ids, now, (j, db))" rule: fan_step.cases) (auto split: prod.splits)
qed

interpretation retry: alert_run "\<lambda>tr. retry_step tr m" "\<lambda>_. True" retry_waiting retry_marking retry_sent
  for m
  by unfold_locales (blast dest: retry_step_move | simp)+

section \<open>What each step does to the deliveries\<close>

definition only_fewer :: "alert_db \<Rightarrow> alert_db \<Rightarrow> bool" where
  "only_fewer db db' \<longleftrightarrow> (\<exists>P. adDeliveries db' = filter P (adDeliveries db))"

lemma only_fewerI: "adDeliveries db' = adDeliveries db \<Longrightarrow> only_fewer db db'"
  unfolding only_fewer_def by (rule exI [of _ "\<lambda>_. True"]) simp

lemma delete_watches_fewer: "delete_watches s P db = (n, db') \<Longrightarrow> only_fewer db db'"
  unfolding delete_watches_def only_fewer_def Let_def by auto

lemma update_watches_same: "update_watches s P f db = Inr (n, db') \<Longrightarrow> adDeliveries db' = adDeliveries db"
  by (auto simp: update_watches_def Let_def split: list.splits)

lemma postWatch_same: "snd (postWatch subject body newId now (db, l)) = (db', l') \<Longrightarrow> adDeliveries db' = adDeliveries db"
  by (auto simp: postWatch_def createWatch_def insert_watch_def alert_audit_def Let_def
      split: option.splits if_splits sum.splits watch_error.splits)

lemma deleteWatchRoute_fewer:
  assumes "snd (deleteWatchRoute subject k (db, l)) = (db', l')"
  shows "only_fewer db db'"
proof (cases "\<exists>u. subject = Some u \<and> authorize subject WatchWrite None = None")
  case True
  then obtain u where u: "subject = Some u" "authorize subject WatchWrite None = None" by blast
  obtain n db1 where d: "delete_watches (AsUser (subUserId u)) (\<lambda>w. waId w = k \<and> waUserId w = subUserId u) db = (n, db1)"
    by force
  then have "db' = db1"
    using assms u by (auto simp: deleteWatchRoute_def deleteWatch_def alert_audit_def split: if_splits)
  then show ?thesis using delete_watches_fewer [OF d] by simp
next
  case False
  then have "db' = db" using assms by (auto simp: deleteWatchRoute_def split: option.splits if_splits)
  then show ?thesis by (simp add: only_fewerI)
qed

lemma unsubscribeEmail_fewer:
  assumes "unsubscribeEmail u k now db = Inr (b, db')"
  shows "only_fewer db db'"
proof -
  let ?P = "\<lambda>w. waId w = k \<and> waUserId w = u \<and> EmailAlert \<in> set (waChannels w) \<and> 1 < length (waChannels w)"
  let ?f = "\<lambda>w. w\<lparr>waChannels := removeAll EmailAlert (waChannels w), waUpdatedAt := now\<rparr>"
  obtain n db1 where up: "update_watches (AsUser u) ?P ?f db = Inr (n, db1)"
    using assms by (auto simp: unsubscribeEmail_def split: sum.splits)
  have or: "db' = db1 \<or> (\<exists>Q. db' = snd (delete_watches (AsUser u) Q db1))"
    using assms unfolding unsubscribeEmail_def up by (auto split: if_splits)
  have same: "adDeliveries db1 = adDeliveries db" using update_watches_same [OF up] .
  from or show ?thesis
  proof (elim disjE exE)
    fix Q assume "db' = snd (delete_watches (AsUser u) Q db1)"
    then have "only_fewer db1 db'" by (metis delete_watches_fewer prod.collapse)
    then show ?thesis using same by (simp add: only_fewer_def)
  qed (use same in \<open>simp add: only_fewerI\<close>)
qed

lemma postUnsubscribe_fewer:
  assumes "snd (postUnsubscribe is_uuid pepper q b now (db, l)) = (db', l')"
  shows "only_fewer db db'"
proof -
  have "db' = db \<or> (\<exists>u k r. unsubscribeEmail u k now db = Inr (r, db'))"
    using assms by (auto simp: postUnsubscribe_def split: sum.splits option.splits if_splits prod.splits)
  then show ?thesis using unsubscribeEmail_fewer by (auto simp: only_fewerI)
qed

lemma resolveListing_same:
  "resolveListing parse_url newId slug domain u db = Inr (res, db') \<Longrightarrow> adDeliveries db' = adDeliveries db"
  by (auto simp: resolveListing_def insert_shop_listing_def split: option.splits if_splits sum.splits)

lemma recordStockReport_same:
  "recordStockReport snapId eventId now r db = Inr (res, db') \<Longrightarrow> adDeliveries db' = adDeliveries db"
  by (auto simp: recordStockReport_def write_report_def insert_snapshot_def insert_restock_def Let_def
      split: option.splits if_splits sum.splits)

lemma insert_deliveries_Inr:
  "insert_deliveries now rows db = Inr (ds, db') \<Longrightarrow>
     db' = db\<lparr>adDeliveries := adDeliveries db @ ds\<rparr> \<and> deId ` set ds \<subseteq> fst ` set rows
     \<and> deId ` set ds \<inter> deId ` set (adDeliveries db) = {} \<and> distinct (map deId ds)
     \<and> slot ` set ds \<inter> slot ` set (adDeliveries db) = {} \<and> distinct (map slot ds)
     \<and> (\<forall>d \<in> set ds. deStatus d = DeliveryPending \<and> deAttempts d = 0 \<and> deCreatedAt d = now)"
proof (induction now rows db arbitrary: ds db' rule: insert_deliveries.induct)
  case (2 now newId k rows db)
  show ?case
  proof (cases "newId \<in> deId ` set (adDeliveries db) \<or> k \<in> slot ` set (adDeliveries db)")
    case True
    then have "insert_deliveries now rows db = Inr (ds, db')" using "2.prems" by simp
    note ih = "2.IH"(1) [OF True this]
    then have "deId ` set ds \<subseteq> fst ` set ((newId, k) # rows)" by (simp add: subset_insertI2)
    with ih show ?thesis by simp
  next
    case False
    let ?d = "new_delivery newId now k"
    let ?db = "db\<lparr>adDeliveries := adDeliveries db @ [?d]\<rparr>"
    obtain ds' where r: "insert_deliveries now rows ?db = Inr (ds', db')" "ds = ?d # ds'"
      "\<not> fst k \<notin> reEventId ` set (adEvents db)" "\<not> fst (snd k) \<notin> waId ` set (adWatches db)"
      using "2.prems" False by (auto split: if_splits sum.splits)
    have d: "deId ?d = newId" "slot ?d = k" "deStatus ?d = DeliveryPending" "deAttempts ?d = 0" "deCreatedAt ?d = now"
      by (simp_all add: new_delivery_def slot_def split: prod.splits)
    note ih = "2.IH"(2) [OF False r(3,4,1)]
    have b: "deId ` set ds' \<inter> deId ` set (adDeliveries db) = {}" "newId \<notin> deId ` set ds'"
      "slot ` set ds' \<inter> slot ` set (adDeliveries db) = {}" "k \<notin> slot ` set ds'"
      using ih d(1,2) by auto
    have sub: "deId ` set ds' \<subseteq> fst ` set rows" using ih by blast
    show ?thesis
    proof (intro conjI)
      show "deId ` set ds \<subseteq> fst ` set ((newId, k) # rows)" using sub r(2) d(1) by auto
      show "deId ` set ds \<inter> deId ` set (adDeliveries db) = {}" using b(1) r(2) d(1) False by simp
      show "slot ` set ds \<inter> slot ` set (adDeliveries db) = {}" using b(3) r(2) d(2) False by simp
      show "distinct (map deId ds)" "distinct (map slot ds)" using ih r(2) d(1,2) b(2,4) by auto
    qed (use ih r(2) d in auto)
  qed
qed simp

lemma claimDeliveries_Inr:
  assumes "claimDeliveries ids now eventId targets db = Inr (ds, db')"
  shows "db' = db\<lparr>adDeliveries := adDeliveries db @ ds\<rparr>" "deId ` set ds \<subseteq> range ids" "distinct (map deId ds)"
    "slot ` set ds \<inter> slot ` set (adDeliveries db) = {}" "distinct (map slot ds)"
    "\<forall>d \<in> set ds. deStatus d = DeliveryPending \<and> deAttempts d = 0 \<and> deCreatedAt d = now"
proof -
  define rows where "rows = delivery_slots eventId targets"
  have "insert_deliveries now (zip (map ids [0..<length rows]) rows) db = Inr (ds, db')"
    using assms by (simp add: claimDeliveries_def rows_def Let_def)
  note c = insert_deliveries_Inr [OF this]
  have "fst ` set (zip (map ids [0..<length rows]) rows) \<subseteq> range ids" by (auto dest!: set_zip_leftD)
  from order_trans [OF _ this] c show "deId ` set ds \<subseteq> range ids" by simp
  show "db' = db\<lparr>adDeliveries := adDeliveries db @ ds\<rparr>" "distinct (map deId ds)"
    "slot ` set ds \<inter> slot ` set (adDeliveries db) = {}" "distinct (map slot ds)"
    "\<forall>d \<in> set ds. deStatus d = DeliveryPending \<and> deAttempts d = 0 \<and> deCreatedAt d = now"
    using c by simp_all
qed

section \<open>Every step keeps the invariant\<close>

lemma fewer_inv:
  assumes inv: "world_inv m w" and "only_fewer (awDb w) db"
  shows "world_inv m (w\<lparr>awDb := db\<rparr>)"
proof -
  obtain P where P: "adDeliveries db = filter P (adDeliveries (awDb w))"
    using assms(2) by (auto simp: only_fewer_def)
  have "distinct (map deId (adDeliveries (awDb w)))"
    using inv by (simp add: world_inv_def runs_inv_def ids_ok_def)
  then have "distinct (map deId (adDeliveries db))" by (simp add: P distinct_map_filter)
  then show ?thesis
    using inv runs_inv_fewer [of m "adDeliveries (awDb w)" _ _ _ _ "adDeliveries db"]
    by (simp add: world_inv_def P)
qed

lemma retry_rows_held:
  assumes d: "distinct (map deId (adDeliveries db))"
  shows "distinct (map rdId (claimRetryableDeliveries opts now db))"
    "\<forall>k \<in> set (map rdId (claimRetryableDeliveries opts now db)). \<exists>d \<in> set (adDeliveries db). deId d = k \<and> owed opts now db d"
proof -
  let ?rows = "take (roLimit opts) (sort_key deCreatedAt (filter (owed opts now db) (adDeliveries db)))"
  have owed: "owed opts now db e" "e \<in> set (adDeliveries db)" if "e \<in> set ?rows" for e
    using that by (auto dest: in_set_takeD)
  have same: "map rdId (List.map_filter (retryable_view db) xs) = map deId xs"
    if "\<And>e. e \<in> set xs \<Longrightarrow> owed opts now db e" for xs
    using that
  proof (induction xs)
    case (Cons e es)
    then have "owed opts now db e" by simp
    then obtain v where v: "retryable_view db e = Some v" "rdId v = deId e"
      by (auto simp: owed_def retryable_view_def split: option.splits)
    have "map rdId (List.map_filter (retryable_view db) es) = map deId es" using Cons by simp
    then show ?case using v by (simp add: List.map_filter_def)
  qed (simp add: List.map_filter_def)
  have ks: "map rdId (claimRetryableDeliveries opts now db) = map deId ?rows"
    unfolding claimRetryableDeliveries_def by (rule same) (rule owed(1))
  have "distinct (map deId (sort_key deCreatedAt (filter (owed opts now db) (adDeliveries db))))"
    using d by (simp add: distinct_map inj_on_def distinct_filter)
  then show "distinct (map rdId (claimRetryableDeliveries opts now db))" by (simp add: ks take_map [symmetric])
  show "\<forall>k \<in> set (map rdId (claimRetryableDeliveries opts now db)). \<exists>d \<in> set (adDeliveries db). deId d = k \<and> owed opts now db d"
  proof
    fix k assume "k \<in> set (map rdId (claimRetryableDeliveries opts now db))"
    then obtain e where "e \<in> set ?rows" "deId e = k" unfolding ks set_map by blast
    then show "\<exists>d \<in> set (adDeliveries db). deId d = k \<and> owed opts now db d" using owed by blast
  qed
qed

lemma quiet_free:
  assumes "alerts_quiet opts w" "d \<in> set (adDeliveries (awDb w))" "owed opts (awNow w) (awDb w) d"
  shows "deId d \<notin> set (concat (map holds (map job_view (awJobs w))))"
proof
  assume "deId d \<in> set (concat (map holds (map job_view (awJobs w))))"
  then obtain j where j: "j \<in> set (awJobs w)" "deId d \<in> set (holds (job_view j))" by auto
  have "case j of Retrying r \<Rightarrow> retry_waiting r = [] \<and> retry_marking r = None
      | Fanning f \<Rightarrow> (\<forall>d \<in> set (adDeliveries (awDb w)).
          deId d \<in> set (holds (job_view (Fanning f))) \<longrightarrow>
          deCreatedAt d \<ge> awNow w - roStaleAfterSeconds opts * 1000)"
    using assms(1) j(1) by (simp add: alerts_quiet_def)
  then show False
    using j(2) assms(2,3) by (cases j) (auto simp: owed_def)
qed

lemma retry_begin_inv:
  assumes inv: "world_inv (roMaxAttempts opts) w" and quiet: "alerts_quiet opts w"
  shows "world_inv (roMaxAttempts opts)
           (w\<lparr>awJobs := awJobs w @ [Retrying (retry_start enabled opts (awNow w) (awDb w))]\<rparr>)"
proof -
  define ks where "ks = (if enabled then map rdId (claimRetryableDeliveries opts (awNow w) (awDb w)) else [])"
  have view: "job_view (Retrying (retry_start enabled opts (awNow w) (awDb w))) = (ks, None)"
    by (simp add: retry_start_def ks_def Let_def)
  have "distinct (map deId (adDeliveries (awDb w)))"
    using inv by (simp add: world_inv_def runs_inv_def ids_ok_def)
  note held = retry_rows_held [OF this, of opts "awNow w"]
  have d: "distinct ks" using held(1) by (simp add: ks_def)
  have rows: "\<exists>d \<in> set (adDeliveries (awDb w)). deId d = k \<and> owed opts (awNow w) (awDb w) d" if "k \<in> set ks" for k
    using held(2) that by (auto simp: ks_def split: if_splits)
  have free: "set ks \<inter> set (concat (map holds (map job_view (awJobs w)))) = {}"
    using rows quiet_free [OF quiet] by (metis disjoint_iff)
  have "\<forall>k \<in> set ks. \<exists>d \<in> set (adDeliveries (awDb w)). deId d = k \<and> deStatus d = DeliveryPending
      \<and> deAttempts d < roMaxAttempts opts"
    using rows by (auto simp: owed_def)
  from begin_inv [OF inv [unfolded world_inv_def] d free this] view show ?thesis
    by (simp add: world_inv_def)
qed

lemma fan_go_inv:
  assumes inv: "world_inv m w" and m: "0 < m" and jobs: "awJobs w = xs @ Fanning f # ys"
    and step: "fan_step tr ids (awNow w) (f, awDb w) = (f', db)"
    and fresh: "range ids \<inter> awUsed w = {}"
  shows "world_inv m (w\<lparr>awDb := db, awUsed := awUsed w \<union> deId ` set (adDeliveries db),
           awSends := awSends w @ fan_sent f', awJobs := xs @ Fanning f' # ys\<rparr>)"
proof -
  let ?xs = "map job_view xs" and ?ys = "map job_view ys"
  have inv': "runs_inv m (adDeliveries (awDb w)) (?xs @ (fan_waiting f, fan_marking f) # ?ys)
      (awSends w) (awLost w) (awUsed w)"
    using inv by (simp add: world_inv_def jobs)
  have "\<exists>used. used \<subseteq> awUsed w \<union> deId ` set (adDeliveries db) \<and>
     runs_inv m (adDeliveries db) (?xs @ (fan_waiting f', fan_marking f') # ?ys) (awSends w @ fan_sent f')
       (awLost w) used"
  proof (cases "fan_active f")
    case True
    from fan.step_inv [OF True step inv'] show ?thesis by blast
  next
    case False
    then obtain eventId message targets where f: "f = FanFound eventId message targets" by (cases f) auto
    show ?thesis
    proof (cases "claimDeliveries ids (awNow w) eventId targets (awDb w)")
      case (Inl e)
      then have "f' = FanThrew e" "db = awDb w" using step f by simp_all
      then show ?thesis using inv' f by auto
    next
      case (Inr r)
      obtain ds db1 where r: "r = (ds, db1)" by force
      note c = claimDeliveries_Inr [OF Inr [unfolded r]]
      have f': "fan_waiting f' = map deId ds" "fan_marking f' = None" "fan_sent f' = []" and "db = db1"
        using step f Inr r by auto
      have "runs_inv m (adDeliveries (awDb w) @ ds) (?xs @ (map deId ds, None) # ?ys) (awSends w) (awLost w)
          (awUsed w \<union> deId ` set ds)"
        using inv' f c(2,6) fresh by (intro claim_inv [OF _ m c(3)]) auto
      then show ?thesis
        using f' \<open>db = db1\<close> c(1) by (intro exI [of _ "awUsed w \<union> deId ` set ds"]) auto
    qed
  qed
  then obtain used where used: "used \<subseteq> awUsed w \<union> deId ` set (adDeliveries db)"
    "runs_inv m (adDeliveries db) (?xs @ (fan_waiting f', fan_marking f') # ?ys) (awSends w @ fan_sent f')
       (awLost w) used" by blast
  from runs_inv_used [OF used(2,1)] show ?thesis by (simp add: world_inv_def)
qed

lemma alert_step_inv:
  assumes "alert_step True opts w w'" "world_inv (roMaxAttempts opts) w" "0 < roMaxAttempts opts"
  shows "world_inv (roMaxAttempts opts) w'"
  using assms(1)
proof cases
  case (tick t)
  then show ?thesis using assms(2) by (simp add: world_inv_def)
next
  case (watch subject body newId log0 db log1)
  then show ?thesis using fewer_inv [OF assms(2)] postWatch_same only_fewerI by blast
next
  case (unwatch subject k log0 db log1)
  then show ?thesis using fewer_inv [OF assms(2)] deleteWatchRoute_fewer by blast
next
  case (unsubscribe is_uuid pepper fromQuery fromBody log0 db log1)
  then show ?thesis using fewer_inv [OF assms(2)] postUnsubscribe_fewer by blast
next
  case (listing parse_url newId slug domain u res db)
  then show ?thesis using fewer_inv [OF assms(2)] resolveListing_same only_fewerI by blast
next
  case (report snapId eventId r res db)
  then show ?thesis using fewer_inv [OF assms(2)] recordStockReport_same only_fewerI by blast
next
  case (fan_begin eventId l message)
  have "runs_inv (roMaxAttempts opts) (adDeliveries (awDb w)) (map job_view (awJobs w) @ [([], None)])
      (awSends w) (awLost w) (awUsed w)"
    by (rule begin_inv [OF assms(2) [unfolded world_inv_def]]) simp_all
  then show ?thesis using fan_begin by (simp add: world_inv_def fan_start_def)
next
  case (fan_go xs f ys tr ids f' db)
  then show ?thesis using fan_go_inv [OF assms(2,3)] by blast
next
  case (retry_begin enabled)
  then show ?thesis using retry_begin_inv [OF assms(2)] by simp
next
  case (retry_go xs r ys tr r' db)
  have "runs_inv (roMaxAttempts opts) (adDeliveries (awDb w))
      (map job_view xs @ (retry_waiting r, retry_marking r) # map job_view ys) (awSends w) (awLost w) (awUsed w)"
    using assms(2) retry_go by (simp add: world_inv_def)
  from retry.step_inv [OF _ retry_go(3) this] retry_go show ?thesis by (simp add: world_inv_def)
next
  case (crash xs j ys)
  then show ?thesis using assms(2) crash_inv by (simp add: world_inv_def)
qed

lemma alerts_reachable_inv:
  assumes "alerts_reachable True opts w" "0 < roMaxAttempts opts"
  shows "world_inv (roMaxAttempts opts) w"
proof -
  obtain w0 where w0: "alerts_start w0" "(alert_step True opts)\<^sup>*\<^sup>* w0 w"
    using assms(1) by (auto simp: alerts_reachable_def)
  from w0(2) show ?thesis
  proof induction
    case base
    then show ?case
      using w0(1) by (simp add: alerts_start_def world_inv_def runs_inv_def ids_ok_def waits_ok_def tries_ok_def
          marks_ok_def owed_ok_def told_ok_def sent_ok_def)
  next
    case (step w1 w2)
    then show ?case using alert_step_inv assms(2) by blast
  qed
qed

section \<open>One row per slot\<close>

definition slots_once :: "alert_db \<Rightarrow> bool" where
  "slots_once db \<longleftrightarrow> distinct (map slot (adDeliveries db))"

lemma fewer_slots: "slots_once db \<Longrightarrow> only_fewer db db' \<Longrightarrow> slots_once db'"
  by (auto simp: slots_once_def only_fewer_def distinct_map_filter)

lemma run_move_slots:
  assumes "run_move (ks, mk, rows) sent (ks', mk', rows')"
  shows "map slot rows' = map slot rows"
proof -
  have "map slot (update_row deId k f rows) = map slot rows" if "\<forall>d. slot (f d) = slot d" for f k
    using that by (induction rows) auto
  then show ?thesis using assms by (auto elim!: run_moveE)
qed

lemma alert_step_slots:
  assumes "alert_step serial opts w w'" "slots_once (awDb w)"
  shows "slots_once (awDb w')"
  using assms(1)
proof cases
  case (fan_go xs f ys tr ids f' db)
  show ?thesis
  proof (cases "fan_active f")
    case True
    from run_move_slots fan.step_move [OF True fan_go(3)] have "map slot (adDeliveries db) = map slot (adDeliveries (awDb w))"
      by blast
    then show ?thesis using fan_go assms(2) by (simp add: slots_once_def)
  next
    case False
    then obtain eventId message targets where f: "f = FanFound eventId message targets" by (cases f) auto
    show ?thesis
    proof (cases "claimDeliveries ids (awNow w) eventId targets (awDb w)")
      case (Inr r)
      obtain ds db1 where r: "r = (ds, db1)" by force
      note c = claimDeliveries_Inr [OF Inr [unfolded r]]
      have "db = db1" using fan_go(3) f Inr r by simp
      then show ?thesis using fan_go(1) c(1,4,5) assms(2) by (auto simp: slots_once_def)
    qed (use fan_go f assms(2) in auto)
  qed
next
  case (retry_go xs r ys tr r' db)
  from run_move_slots retry.step_move [OF _ retry_go(3)] have "map slot (adDeliveries db) = map slot (adDeliveries (awDb w))"
    by blast
  then show ?thesis using retry_go assms(2) by (simp add: slots_once_def)
qed (use assms(2) fewer_slots only_fewerI postWatch_same deleteWatchRoute_fewer postUnsubscribe_fewer
    resolveListing_same recordStockReport_same in \<open>simp, blast?\<close>)+

lemma alerts_reachable_slots: "alerts_reachable serial opts w \<Longrightarrow> slots_once (awDb w)"
proof -
  assume "alerts_reachable serial opts w"
  then obtain w0 where w0: "alerts_start w0" "(alert_step serial opts)\<^sup>*\<^sup>* w0 w"
    by (auto simp: alerts_reachable_def)
  from w0(2) show ?thesis
    by induction (use w0(1) alert_step_slots in \<open>auto simp: alerts_start_def slots_once_def\<close>)
qed

end
