(* ===== verification/AlertProps.thy ===== *)
theory AlertProps
  imports AlertRuns
begin

text \<open>
  What the restock alerts promise: an alert is told at most once while retries do not overlap, a restock
  is exactly a listing's return to stock, a listing is only ever registered at an approved shop, and an
  unsubscribe link stops the mail it came with. Beside them the runs that break the stronger readings.
\<close>

section \<open>At most once\<close>

text \<open>C28: While retries do not overlap each other or a fan-out that still holds an old delivery, an alert
  is told at most once more often than a run died between telling it and marking it, whatever else
  happens to the tables; no delivery is tried more often than the limit, one marked as sent was told, and
  an event has one delivery for a watch and a channel.\<close>

theorem alerts_are_told_once:
  assumes "alerts_reachable True opts w" "0 < roMaxAttempts opts"
  shows "told (awSends w) k \<le> losses (awLost w) k + 1
    \<and> (\<forall>d \<in> set (adDeliveries (awDb w)).
         deAttempts d \<le> roMaxAttempts opts
         \<and> (deStatus d = DeliverySent \<longrightarrow> 1 \<le> told (awSends w) (deId d)))
    \<and> distinct (map slot (adDeliveries (awDb w)))"
  using runs_invD [OF alerts_reachable_inv [OF assms, unfolded world_inv_def]]
    alerts_reachable_slots [OF assms(1)]
  by (simp add: told_ok_def tries_ok_def sent_ok_def slots_once_def)

section \<open>A run of one alert\<close>

definition demo_alerts :: alert_db where
  "demo_alerts =
     \<lparr>adUsers = [\<lparr>auUserId = ''ann'', auEmail = ''a@x'', auDisplayName = None\<rparr>],
      adSealed = [\<lparr>spId = ''p'', spSlug = ''box'', spName = ''Box''\<rparr>],
      adRetailers = [\<lparr>reId = ''s'', reName = ''Shop'', reDomain = ''shop.example'', reEnabled = True\<rparr>],
      adListings = [\<lparr>rpId = ''l'', rpRetailerId = ''s'', rpSealedProductId = ''p'',
                     rpUrl = ''https://shop.example/box''\<rparr>],
      adWatches = [\<lparr>waId = ''w'', waUserId = ''ann'', waSealedProductId = Some ''p'',
                    waRetailerProductId = None, waChannels = [EmailAlert], waCreatedAt = 0, waUpdatedAt = 0\<rparr>],
      adSnapshots = [],
      adEvents = [\<lparr>reEventId = ''e'', reRetailerProductId = ''l'', reSnapshotId = ''n'',
                   rePriceCents = Some 999, reCurrency = ''USD'', reDetectedAt = 0\<rparr>],
      adDeliveries = []\<rparr>"

definition alerts_demo_start :: alert_world where
  "alerts_demo_start =
     \<lparr>awDb = demo_alerts, awNow = 0, awUsed = {}, awSends = [], awLost = [], awJobs = []\<rparr>"

definition all_well :: transports where "all_well ch = Some (\<lambda>m r. Delivered)"

definition demo_ids :: "nat \<Rightarrow> string" where "demo_ids n = replicate n (CHR ''d'')"

text \<open>The run at a place takes its next step.\<close>

definition fan_turn :: "alert_world \<Rightarrow> alert_world" where
  "fan_turn w =
     (case awJobs w of
        Fanning f # ys \<Rightarrow>
          (case fan_step all_well demo_ids (awNow w) (f, awDb w) of
             (f', db) \<Rightarrow> w\<lparr>awDb := db, awUsed := awUsed w \<union> deId ` set (adDeliveries db),
                           awSends := awSends w @ fan_sent f', awJobs := Fanning f' # ys\<rparr>)
      | _ \<Rightarrow> w)"

definition retry_turn :: "nat \<Rightarrow> alert_world \<Rightarrow> alert_world" where
  "retry_turn i w =
     (if i < length (awJobs w) then
        (case awJobs w ! i of
           Retrying r \<Rightarrow>
             (case retry_step all_well 5 (awNow w) (r, awDb w) of
                (r', db) \<Rightarrow> w\<lparr>awDb := db, awSends := awSends w @ retry_sent r',
                              awJobs := take i (awJobs w) @ Retrying r' # drop (Suc i) (awJobs w)\<rparr>)
         | _ \<Rightarrow> w)
      else w)"

definition demo_claimed :: alert_world where
  "demo_claimed =
     (let w = fan_turn (alerts_demo_start\<lparr>awJobs := [Fanning (fan_start ''e'' ''l''
                \<lparr>rmProductName = ''Box'', rmRetailerName = ''Shop'', rmUrl = ''u'', rmPriceCents = None,
                 rmCurrency = ''USD'', rmDetectedAt = 0\<rparr> demo_alerts)]\<rparr>)
      in w\<lparr>awJobs := []\<rparr>\<lparr>awNow := 200000\<rparr>)"

definition retry_begun :: "alert_world \<Rightarrow> alert_world" where
  "retry_begun w = w\<lparr>awJobs := awJobs w @ [Retrying (retry_start True default_retry (awNow w) (awDb w))]\<rparr>"

lemma retry_turn_step: "(alert_step serial default_retry)\<^sup>*\<^sup>* w (retry_turn i w)"
proof (cases "i < length (awJobs w) \<and> (\<exists>r. awJobs w ! i = Retrying r)")
  case True
  then obtain r where r: "i < length (awJobs w)" "awJobs w ! i = Retrying r" by blast
  obtain r' db where st: "retry_step all_well 5 (awNow w) (r, awDb w) = (r', db)" by force
  have "awJobs w = take i (awJobs w) @ Retrying r # drop (Suc i) (awJobs w)"
    using id_take_nth_drop [OF r(1)] r(2) by simp
  from alert_step.retry_go [OF this, of all_well default_retry r' db serial] st r show ?thesis
    by (auto simp: retry_turn_def default_retry_def)
next
  case False
  then have "retry_turn i w = w" by (auto simp: retry_turn_def split: alert_job.splits)
  then show ?thesis by simp
qed

lemma demo_claimed_reachable: "alerts_reachable serial default_retry demo_claimed"
proof -
  define job where "job = fan_start ''e'' ''l''
      \<lparr>rmProductName = ''Box'', rmRetailerName = ''Shop'', rmUrl = ''u'', rmPriceCents = None,
       rmCurrency = ''USD'', rmDetectedAt = 0\<rparr> demo_alerts"
  let ?w1 = "alerts_demo_start\<lparr>awJobs := [Fanning job]\<rparr>"
  obtain f' db where st: "fan_step all_well demo_ids 0 (job, demo_alerts) = (f', db)" by force
  have f': "fan_marking f' = None \<and> fan_sent f' = []"
    using st by (auto simp: job_def fan_start_def split: sum.splits)
  let ?w2 = "?w1\<lparr>awDb := db, awUsed := {} \<union> deId ` set (adDeliveries db), awSends := [] @ fan_sent f',
      awJobs := [] @ Fanning f' # []\<rparr>"
  have inj: "inj demo_ids" by (rule injI) (metis demo_ids_def length_replicate)
  have "alert_step serial default_retry alerts_demo_start ?w1"
    using alert_step.fan_begin [of serial default_retry alerts_demo_start] by (simp add: alerts_demo_start_def job_def)
  moreover have "alert_step serial default_retry ?w1 ?w2"
    using alert_step.fan_go [of ?w1 "[]" job "[]" all_well demo_ids f' db serial default_retry] st inj
    by (simp add: alerts_demo_start_def)
  moreover have "alert_step serial default_retry ?w2 (?w2\<lparr>awLost := [], awJobs := []\<rparr>)"
    using alert_step.crash [of ?w2 "[]" "Fanning f'" "[]" serial default_retry] f' by (simp add: alerts_demo_start_def)
  moreover have "alert_step serial default_retry (?w2\<lparr>awLost := [], awJobs := []\<rparr>)
      (?w2\<lparr>awLost := [], awJobs := []\<rparr>\<lparr>awNow := 200000\<rparr>)"
    by (rule alert_step.tick) (simp add: alerts_demo_start_def)
  moreover have "demo_claimed = ?w2\<lparr>awLost := [], awJobs := []\<rparr>\<lparr>awNow := 200000\<rparr>"
    using st f' by (simp add: demo_claimed_def Let_def fan_turn_def job_def [symmetric] alerts_demo_start_def)
  moreover have "alerts_start alerts_demo_start"
    by (simp add: alerts_start_def alerts_demo_start_def demo_alerts_def)
  ultimately show ?thesis
    unfolding alerts_reachable_def by (metis (no_types, lifting) converse_rtranclp_into_rtranclp rtranclp.rtrancl_refl)
qed

lemma reachable_steps:
  "alerts_reachable serial opts w \<Longrightarrow> (alert_step serial opts)\<^sup>*\<^sup>* w w' \<Longrightarrow> alerts_reachable serial opts w'"
  by (auto simp: alerts_reachable_def)

lemma reachable_turn:
  "alerts_reachable serial default_retry w \<Longrightarrow> alerts_reachable serial default_retry (retry_turn i w)"
  by (rule reachable_steps [OF _ retry_turn_step])

lemma reachable_begun:
  "alerts_reachable serial default_retry w \<Longrightarrow> (serial \<longrightarrow> alerts_quiet default_retry w) \<Longrightarrow>
   alerts_reachable serial default_retry (retry_begun w)"
  by (rule reachable_steps) (auto simp: retry_begun_def intro: alert_step.retry_begin)

text \<open>The fan-out died after its claim; a retry tells the alert.\<close>

definition demo_told :: alert_world where
  "demo_told = retry_turn 0 (retry_turn 0 (retry_turn 0 (retry_turn 0 (retry_begun demo_claimed))))"

lemma alerts_are_told_once_witness:
  "told (awSends demo_told) [] \<le> 1 \<and> map deStatus (adDeliveries (awDb demo_told)) = [DeliverySent]"
proof -
  have "awJobs demo_claimed = []" by (simp add: demo_claimed_def Let_def)
  then have "alerts_quiet default_retry demo_claimed" by (simp add: alerts_quiet_def)
  then have "alerts_reachable True default_retry demo_told"
    unfolding demo_told_def by (intro reachable_turn reachable_begun demo_claimed_reachable) simp
  moreover have "0 < roMaxAttempts default_retry" by (simp add: default_retry_def)
  ultimately have "told (awSends demo_told) [] \<le> losses (awLost demo_told) [] + 1"
    using alerts_are_told_once by blast
  moreover have "awLost demo_told = []" "map deStatus (adDeliveries (awDb demo_told)) = [DeliverySent]"
    by code_simp+
  ultimately show ?thesis by simp
qed

text \<open>
  The claim of a retry changes nothing, and its locks are gone when it returns: two retries that overlap
  both tell the alert, though neither died.
\<close>

lemma overlapping_retries_tell_twice:
  "\<exists>w. alerts_reachable False default_retry w \<and> awLost w = [] \<and> told (awSends w) [] = 2"
proof -
  let ?w = "retry_turn 1 (retry_turn 1 (retry_turn 1 (retry_turn 0 (retry_turn 0 (retry_turn 0
      (retry_begun (retry_begun demo_claimed)))))))"
  have "alerts_reachable False default_retry ?w"
    by (intro reachable_turn reachable_begun demo_claimed_reachable) simp_all
  moreover have "awLost ?w = []" "told (awSends ?w) [] = 2" by code_simp+
  ultimately show ?thesis by blast
qed

section \<open>Restocks\<close>

text \<open>The snapshots of a listing, and the ones that found it back in stock.\<close>

definition stock_history :: "string \<Rightarrow> alert_db \<Rightarrow> StockSnapshot list" where
  "stock_history l db = filter (\<lambda>s. ssRetailerProductId s = l) (adSnapshots db)"

fun returns_to_stock :: "StockSnapshot list \<Rightarrow> string list" where
  "returns_to_stock (s # t # ss) =
     (if \<not> ssInStock s \<and> ssInStock t then ssId t # returns_to_stock (t # ss) else returns_to_stock (t # ss))"
| "returns_to_stock ss = []"

lemma returns_snoc:
  "returns_to_stock (ss @ [t]) =
     returns_to_stock ss @ (if ss \<noteq> [] \<and> \<not> ssInStock (last ss) \<and> ssInStock t then [ssId t] else [])"
  by (induction ss rule: returns_to_stock.induct) auto

record timed_report =
  trSnapshotId :: string
  trEventId :: string
  trNow :: int
  trReport :: StockReportInput

text \<open>Reports that come one after the other; one that fails leaves nothing.\<close>

definition report_step :: "timed_report \<Rightarrow> alert_db \<Rightarrow> db_error + alert_db" where
  "report_step r db =
     (case recordStockReport (trSnapshotId r) (trEventId r) (trNow r) (trReport r) db of
        Inl e \<Rightarrow> Inl e | Inr (res, db') \<Rightarrow> Inr db')"

definition event_of_snapshot :: "alert_db \<Rightarrow> RestockEvent \<Rightarrow> bool" where
  "event_of_snapshot db e \<longleftrightarrow>
     (\<exists>s \<in> set (adSnapshots db). ssId s = reSnapshotId e \<and> ssRetailerProductId s = reRetailerProductId e
        \<and> ssPriceCents s = rePriceCents e \<and> ssCurrency s = reCurrency e \<and> ssCheckedAt s = reDetectedAt e)"

definition restock_inv :: "int \<Rightarrow> alert_db \<Rightarrow> bool" where
  "restock_inv now db \<longleftrightarrow>
     sorted (map ssCheckedAt (adSnapshots db)) \<and> (\<forall>s \<in> set (adSnapshots db). ssCheckedAt s \<le> now)
     \<and> (\<forall>l. map reSnapshotId (filter (\<lambda>e. reRetailerProductId e = l) (adEvents db))
            = returns_to_stock (stock_history l db))
     \<and> (\<forall>e \<in> set (adEvents db). event_of_snapshot db e)"

lemma previous_state_last:
  assumes "sorted (map ssCheckedAt (adSnapshots db))"
  shows "previous_state l db =
    (if stock_history l db = [] then None else Some (ssInStock (last (stock_history l db))))"
proof -
  have "sorted (map ssCheckedAt (stock_history l db))"
    using assms by (auto simp: stock_history_def intro: sorted_filter)
  then have "sort_key ssCheckedAt (stock_history l db) = stock_history l db" by (rule sort_key_id_if_sorted)
  then show ?thesis by (auto simp: previous_state_def stock_history_def split: list.splits)
qed

lemma insert_snapshot_Inr:
  "insert_snapshot s db = Inr db' \<Longrightarrow> db' = db\<lparr>adSnapshots := adSnapshots db @ [s]\<rparr>"
  by (auto simp: insert_snapshot_def split: if_splits option.splits)

lemma insert_restock_Inr:
  "insert_restock e db = Inr db' \<Longrightarrow> db' = db\<lparr>adEvents := adEvents db @ [e]\<rparr>"
  by (auto simp: insert_restock_def split: if_splits)

lemma report_step_Inr:
  assumes "report_step r db = Inr db'"
  defines "s \<equiv> new_snapshot (trSnapshotId r) (trNow r) (trReport r)"
    and "e \<equiv> new_event (trEventId r) (trSnapshotId r) (trNow r) (trReport r)"
  shows "adSnapshots db' = adSnapshots db @ [s]
    \<and> adEvents db' = adEvents db @
        (if previous_state (siRetailerProductId (trReport r)) db = Some False \<and> siInStock (trReport r) then [e] else [])"
  using assms by (auto simp: report_step_def recordStockReport_def write_report_def Let_def
      split: sum.splits if_splits dest!: insert_snapshot_Inr insert_restock_Inr)

lemma report_keeps:
  assumes inv: "restock_inv t db" and t: "t \<le> trNow r" and st: "report_step r db = Inr db'"
  shows "restock_inv (trNow r) db'"
proof -
  let ?l = "siRetailerProductId (trReport r)"
  let ?s = "new_snapshot (trSnapshotId r) (trNow r) (trReport r)"
  let ?e = "new_event (trEventId r) (trSnapshotId r) (trNow r) (trReport r)"
  note out = report_step_Inr [OF st]
  have sorted: "sorted (map ssCheckedAt (adSnapshots db))" and old: "\<forall>s \<in> set (adSnapshots db). ssCheckedAt s \<le> t"
    and hist: "\<And>l. map reSnapshotId (filter (\<lambda>e. reRetailerProductId e = l) (adEvents db))
        = returns_to_stock (stock_history l db)"
    and ev: "\<forall>e \<in> set (adEvents db). event_of_snapshot db e"
    using inv by (simp_all add: restock_inv_def)
  have s: "ssCheckedAt ?s = trNow r" "ssRetailerProductId ?s = ?l" "ssInStock ?s = siInStock (trReport r)"
    "ssId ?s = trSnapshotId r" "reSnapshotId ?e = trSnapshotId r" "reRetailerProductId ?e = ?l"
    by (simp_all add: new_snapshot_def new_event_def)
  have "sorted (map ssCheckedAt (adSnapshots db'))"
    using out sorted old t s(1) by (auto simp: sorted_append)
  moreover have "\<forall>x \<in> set (adSnapshots db'). ssCheckedAt x \<le> trNow r"
    using out old t s(1) by auto
  moreover have "map reSnapshotId (filter (\<lambda>e. reRetailerProductId e = l) (adEvents db'))
      = returns_to_stock (stock_history l db')" for l
  proof (cases "l = ?l")
    case True
    have h: "stock_history l db' = stock_history l db @ [?s]"
      using out s(2) True by (simp add: stock_history_def)
    show ?thesis
      unfolding h returns_snoc hist [symmetric]
      using out previous_state_last [OF sorted, of l] s True by auto
  next
    case False
    then have "stock_history l db' = stock_history l db" using out s(2) by (simp add: stock_history_def)
    then show ?thesis using out s(6) False hist [of l] by simp
  qed
  moreover have "\<forall>e \<in> set (adEvents db'). event_of_snapshot db' e"
  proof
    fix e assume "e \<in> set (adEvents db')"
    then consider "e \<in> set (adEvents db)" | "e = ?e" using out by (auto split: if_splits)
    then show "event_of_snapshot db' e"
    proof cases
      case 1 then show ?thesis using ev out by (auto simp: event_of_snapshot_def)
    next
      case 2 then show ?thesis using out by (auto simp: event_of_snapshot_def new_snapshot_def new_event_def)
    qed
  qed
  ultimately show ?thesis by (simp add: restock_inv_def)
qed

lemma reports_keep:
  "restock_inv t db \<Longrightarrow> sorted (t # map trNow rs) \<Longrightarrow> \<exists>t'. restock_inv t' (run_txns report_step db rs)"
proof (induction rs arbitrary: t db)
  case (Cons r rs)
  show ?case
  proof (cases "report_step r db")
    case (Inl e)
    have "sorted (t # map trNow rs)" using Cons.prems(2) by simp
    then show ?thesis using Cons.IH [OF Cons.prems(1)] Inl by simp
  next
    case (Inr db')
    have "sorted (trNow r # map trNow rs)" "t \<le> trNow r" using Cons.prems(2) by simp_all
    then show ?thesis using Cons.IH [OF report_keeps [OF Cons.prems(1) _ Inr]] Inr by simp
  qed
qed auto

text \<open>C29: When reports come one after the other, the restocks of a listing are exactly its returns from
  out of stock to in stock, in their order: a first sighting raises none, and each carries the price,
  the currency and the instant of the report that found it.\<close>

theorem restocks_are_returns_to_stock:
  assumes "adSnapshots db = []" "adEvents db = []" "sorted (map trNow rs)"
  defines "db' \<equiv> run_txns report_step db rs"
  shows "map reSnapshotId (filter (\<lambda>e. reRetailerProductId e = l) (adEvents db'))
      = returns_to_stock (stock_history l db')
    \<and> (\<forall>e \<in> set (adEvents db'). event_of_snapshot db' e)"
proof -
  define t where "t = (case rs of [] \<Rightarrow> 0 | r # _ \<Rightarrow> trNow r)"
  have "sorted (t # map trNow rs)"
    using assms(3) by (cases rs) (auto simp: t_def)
  moreover have "restock_inv t db"
    using assms(1,2) by (simp add: restock_inv_def stock_history_def)
  ultimately show ?thesis
    using reports_keep unfolding db'_def restock_inv_def by blast
qed

definition stock_report_demo :: "bool \<Rightarrow> StockReportInput" where
  "stock_report_demo b =
     \<lparr>siRetailerProductId = ''l'', siInStock = b, siPriceCents = Some 999, siCurrency = None, siRawHash = None\<rparr>"

definition demo_reports :: "timed_report list" where
  "demo_reports =
     [\<lparr>trSnapshotId = ''s1'', trEventId = ''e1'', trNow = 1, trReport = stock_report_demo False\<rparr>,
      \<lparr>trSnapshotId = ''s2'', trEventId = ''e2'', trNow = 2, trReport = stock_report_demo True\<rparr>]"

definition empty_alerts :: alert_db where "empty_alerts = demo_alerts\<lparr>adEvents := []\<rparr>"

lemma restocks_are_returns_to_stock_witness:
  "map reSnapshotId (adEvents (run_txns report_step empty_alerts demo_reports)) = [''s2'']
   \<and> returns_to_stock (stock_history ''l'' (run_txns report_step empty_alerts demo_reports)) = [''s2'']"
proof -
  let ?db = "run_txns report_step empty_alerts demo_reports"
  have "map reSnapshotId (filter (\<lambda>e. reRetailerProductId e = ''l'') (adEvents ?db))
      = returns_to_stock (stock_history ''l'' ?db)"
    using restocks_are_returns_to_stock [of empty_alerts demo_reports "''l''"]
    by (simp add: empty_alerts_def demo_alerts_def demo_reports_def)
  moreover have "filter (\<lambda>e. reRetailerProductId e = ''l'') (adEvents ?db) = adEvents ?db"
    "map reSnapshotId (adEvents ?db) = [''s2'']" by code_simp+
  ultimately show ?thesis by simp
qed

text \<open>
  The transaction of a report locks nothing: two reports that both read before either writes raise two
  restocks of one return.
\<close>

lemma two_reports_one_return:
  "\<exists>db prev r1 db1 r2 db2.
     previous_state ''l'' db = prev
     \<and> write_report ''s2'' ''e2'' 2 (stock_report_demo True) prev db = Inr (r1, db1)
     \<and> write_report ''s3'' ''e3'' 2 (stock_report_demo True) prev db1 = Inr (r2, db2)
     \<and> length (adEvents db2) = 2 \<and> length (returns_to_stock (stock_history ''l'' db2)) = 1"
proof -
  let ?db = "run_txns report_step empty_alerts [demo_reports ! 0]"
  let ?o1 = "write_report ''s2'' ''e2'' 2 (stock_report_demo True) (previous_state ''l'' ?db) ?db"
  let ?o2 = "write_report ''s3'' ''e3'' 2 (stock_report_demo True) (previous_state ''l'' ?db) (snd (projr ?o1))"
  have "\<not> isl ?o1" "\<not> isl ?o2" "length (adEvents (snd (projr ?o2))) = 2"
    "length (returns_to_stock (stock_history ''l'' (snd (projr ?o2)))) = 1" by code_simp+
  moreover have "?o1 = Inr (fst (projr ?o1), snd (projr ?o1))" "?o2 = Inr (fst (projr ?o2), snd (projr ?o2))"
    using calculation(1,2) by (simp_all add: sum.collapse)
  ultimately show ?thesis by blast
qed

section \<open>Unsubscribing\<close>

definition unsubscribe_value :: "string \<Rightarrow> string \<Rightarrow> string \<Rightarrow> string" where
  "unsubscribe_value pepper u k =
     (u @ ''|'' @ k) @ CHR ''.'' # base64url (hmac_sha256 (utf8 pepper) (utf8 (UNSUBSCRIBE_PURPOSE @ '':'' @ u @ ''|'' @ k)))"

lemma unsubscribe_token_value:
  "32 \<le> length pepper \<Longrightarrow> unsubscribe_token pepper u k = Inr t \<Longrightarrow> t = unsubscribe_value pepper u k"
  by (auto simp: unsubscribe_token_def signLink_def mac_Inr unsubscribe_value_def split: if_splits)

lemma cut_at_bar:
  assumes "CHR ''|'' \<notin> set u"
  shows "takeWhile (\<lambda>c. c \<noteq> CHR ''|'') (u @ CHR ''|'' # k) = u"
  using assms by (induction u) auto

lemma readToken_Some_iff:
  assumes "32 \<le> length pepper"
  shows "readToken t pepper = Inr (Some (u, k)) \<longleftrightarrow>
    CHR ''|'' \<notin> set u \<and> u \<noteq> [] \<and> k \<noteq> [] \<and> t = unsubscribe_value pepper u k"
proof
  assume a: "readToken t pepper = Inr (Some (u, k))"
  then obtain v where v: "verifyLink UNSUBSCRIBE_PURPOSE t pepper = Inr (Some v)" "CHR ''|'' \<in> set v"
    by (auto simp: readToken_def Let_def split: sum.splits option.splits if_splits)
  then obtain u' k' where s: "v = u' @ CHR ''|'' # k'" "CHR ''|'' \<notin> set u'" by (meson split_list_first)
  have "u' \<noteq> []" "k' \<noteq> []" "u = u'" "k = k'"
    using a v s cut_at_bar [OF s(2), of k'] by (auto simp: readToken_def Let_def split: if_splits)
  then show "CHR ''|'' \<notin> set u \<and> u \<noteq> [] \<and> k \<noteq> [] \<and> t = unsubscribe_value pepper u k"
    using s v(1) verifyLink_Some_iff [OF assms, of UNSUBSCRIBE_PURPOSE t v] by (simp add: unsubscribe_value_def)
next
  assume a: "CHR ''|'' \<notin> set u \<and> u \<noteq> [] \<and> k \<noteq> [] \<and> t = unsubscribe_value pepper u k"
  then have "verifyLink UNSUBSCRIBE_PURPOSE t pepper = Inr (Some (u @ CHR ''|'' # k))"
    using verifyLink_Some_iff [OF assms, of UNSUBSCRIBE_PURPOSE t "u @ CHR ''|'' # k"]
    by (simp add: unsubscribe_value_def)
  then show "readToken t pepper = Inr (Some (u, k))"
    using a cut_at_bar [of u k] by (simp add: readToken_def Let_def)
qed

lemma watch_checks_iff:
  "first_violated (watch_checks w) = None \<longleftrightarrow>
     1 \<le> length (waChannels w) \<and> (waSealedProductId w = None) \<noteq> (waRetailerProductId w = None)"
  unfolding first_violated_None_iff watch_checks_def by auto

text \<open>What an unsubscribe leaves of the watches.\<close>

definition mail_stopped :: "string \<Rightarrow> string \<Rightarrow> int \<Rightarrow> Watch list \<Rightarrow> Watch list" where
  "mail_stopped u k now ws =
     List.map_filter
       (\<lambda>w. if waUserId w = u \<and> waId w = k \<and> EmailAlert \<in> set (waChannels w)
            then (if waChannels w = [EmailAlert] then None
                  else Some (w\<lparr>waChannels := removeAll EmailAlert (waChannels w), waUpdatedAt := now\<rparr>))
            else Some w) ws"

lemma map_filter_conv: "List.map_filter (\<lambda>w. if P w then None else Some w) ws = filter (\<lambda>w. \<not> P w) ws"
  by (induction ws) (auto simp: List.map_filter_def)

lemma map_filter_eqI:
  "(\<And>x. x \<in> set xs \<Longrightarrow> f x = g x) \<Longrightarrow> List.map_filter f xs = List.map_filter g xs"
  by (induction xs) (auto simp: List.map_filter_def)

lemma unsubscribeEmail_stops:
  assumes ids: "distinct (map waId (adWatches db))"
    and channels: "\<forall>w \<in> set (adWatches db). distinct (waChannels w)
        \<and> first_violated (watch_checks w) = None"
  shows "\<exists>db'. unsubscribeEmail u k now db = Inr (True, db') \<and> adWatches db' = mail_stopped u k now (adWatches db)"
proof -
  let ?P = "\<lambda>w. waId w = k \<and> waUserId w = u \<and> EmailAlert \<in> set (waChannels w) \<and> 1 < length (waChannels w)"
  let ?hit = "\<lambda>w. watch_owned (AsUser u) w \<and> ?P w"
  let ?f = "\<lambda>w. w\<lparr>waChannels := removeAll EmailAlert (waChannels w), waUpdatedAt := now\<rparr>"
  let ?ws = "adWatches db"
  have ok: "first_violated (watch_checks (?f w)) = None" if "w \<in> set ?ws" "?hit w" for w
  proof -
    have "length (removeAll EmailAlert (waChannels w)) = length (waChannels w) - 1"
      using channels that by (simp add: distinct_remove1_removeAll [symmetric] length_remove1)
    then have "1 \<le> length (removeAll EmailAlert (waChannels w))" using that by (simp, arith)
    then show ?thesis
      using channels that(1) unfolding watch_checks_iff by simp
  qed
  have none: "List.map_filter (\<lambda>w. first_violated (watch_checks (?f w))) (filter ?hit ?ws) = []"
    using ok by (auto simp: List.map_filter_def filter_empty_conv)
  have up: "update_watches (AsUser u) ?P ?f db =
      Inr (length (filter ?hit ?ws), db\<lparr>adWatches := map (\<lambda>w. if ?hit w then ?f w else w) ?ws\<rparr>)"
    unfolding update_watches_def Let_def none by simp
  show ?thesis
  proof (cases "filter ?hit ?ws = []")
    case True
    then have no: "\<not> ?hit w" if "w \<in> set ?ws" for w using that unfolding filter_empty_conv by blast
    then have same: "map (\<lambda>w. if ?hit w then ?f w else w) ?ws = ?ws" by (intro map_idI) (simp only: if_False)
    let ?gone = "\<lambda>w. waUserId w = u \<and> waId w = k \<and> waChannels w = [EmailAlert]"
    have "mail_stopped u k now ?ws = List.map_filter (\<lambda>w. if ?gone w then None else Some w) ?ws"
      unfolding mail_stopped_def
    proof (rule map_filter_eqI)
      fix w assume "w \<in> set ?ws"
      then have "\<not> ?hit w" by (rule no)
      then show "(if waUserId w = u \<and> waId w = k \<and> EmailAlert \<in> set (waChannels w)
              then (if waChannels w = [EmailAlert] then None else Some (?f w)) else Some w)
          = (if ?gone w then None else Some w)"
        by (cases "waChannels w") (auto simp: watch_owned_def)
    qed
    then show ?thesis
      unfolding unsubscribeEmail_def up True same map_filter_conv
      by (auto simp: delete_watches_def watch_owned_def Let_def intro!: filter_cong)
  next
    case False
    then obtain w0 where w0: "w0 \<in> set ?ws" "?hit w0" unfolding filter_empty_conv by blast
    have one: "waChannels w \<noteq> [EmailAlert]" if "w \<in> set ?ws" "waId w = k" for w
      using ids that w0 by (metis distinct_map inj_onD less_irrefl_nat length_Cons list.size(3) One_nat_def)
    have "mail_stopped u k now ?ws = List.map_filter (\<lambda>w. Some (if ?hit w then ?f w else w)) ?ws"
      unfolding mail_stopped_def
    proof (rule map_filter_eqI)
      fix w assume w: "w \<in> set ?ws"
      have "1 < length (waChannels w)" if "EmailAlert \<in> set (waChannels w)" "waId w = k"
        using one [OF w that(2)] that(1) by (cases "waChannels w" rule: remdups_adj.cases) auto
      then show "(if waUserId w = u \<and> waId w = k \<and> EmailAlert \<in> set (waChannels w)
              then (if waChannels w = [EmailAlert] then None else Some (?f w)) else Some w)
          = Some (if ?hit w then ?f w else w)"
        using one [OF w] by (auto simp: watch_owned_def)
    qed
    then have "mail_stopped u k now ?ws = map (\<lambda>w. if ?hit w then ?f w else w) ?ws"
      by (simp add: List.map_filter_def comp_def)
    moreover have "0 < length (filter ?hit ?ws)" using False by simp
    ultimately show ?thesis unfolding unsubscribeEmail_def up by simp
  qed
qed

text \<open>
  A watch may name the mail channel twice; such a watch cannot be unsubscribed: what would be left has
  no channel, which its CHECK refuses.
\<close>

lemma doubled_mail_channel_never_stops:
  assumes "w \<in> set (adWatches db)" "waUserId w = u" "waId w = k" "waChannels w = [EmailAlert, EmailAlert]"
  shows "\<exists>e. unsubscribeEmail u k now db = Inl e"
proof -
  let ?P = "\<lambda>w. waId w = k \<and> waUserId w = u \<and> EmailAlert \<in> set (waChannels w) \<and> 1 < length (waChannels w)"
  let ?f = "\<lambda>w. w\<lparr>waChannels := removeAll EmailAlert (waChannels w), waUpdatedAt := now\<rparr>"
  have "w \<in> set (filter (\<lambda>w. watch_owned (AsUser u) w \<and> ?P w) (adWatches db))"
    using assms by (simp add: watch_owned_def)
  moreover have "first_violated (watch_checks (?f w)) \<noteq> None"
    using assms by (simp add: watch_checks_def first_violated_None_iff)
  ultimately have "set (List.map_filter (\<lambda>w. first_violated (watch_checks (?f w)))
      (filter (\<lambda>w. watch_owned (AsUser u) w \<and> ?P w) (adWatches db))) \<noteq> {}"
    unfolding map_filter_set by blast
  then show ?thesis
    by (auto simp: unsubscribeEmail_def update_watches_def Let_def split: list.splits)
qed

lemma doubled_channel_is_accepted:
  "createWatchSchema \<lparr>wiSealedProductId = Some p, wiRetailerProductId = None, wiChannels = [EmailAlert, EmailAlert]\<rparr>"
  by (simp add: createWatchSchema_def)

text \<open>The link of a mail stops that mail and nothing else: a request changes the tables only if its
  token is the one signed for a user and a watch, and then the watch of that id, if it is that user's,
  loses the mail channel, or goes when it had no other, and every other watch stays; the reply is the
  same whether there was anything to stop or not. Watches whose channels repeat are left out.\<close>

theorem unsubscribing_stops_that_mail:
  assumes "32 \<le> length pepper" "distinct (map waId (adWatches (fst s)))"
    and "\<forall>w \<in> set (adWatches (fst s)). distinct (waChannels w) \<and> first_violated (watch_checks w) = None"
  shows "(\<forall>u k t. unsubscribe_token pepper u k = Inr t \<and> CHR ''|'' \<notin> set u \<and> u \<noteq> [] \<and> k \<noteq> [] \<and> is_uuid k \<longrightarrow>
        fst (postUnsubscribe is_uuid pepper (Some t) b now s) = Reply 200 ''Unsubscribed''
        \<and> adWatches (fst (snd (postUnsubscribe is_uuid pepper (Some t) b now s)))
            = mail_stopped u k now (adWatches (fst s)))
    \<and> (snd (postUnsubscribe is_uuid pepper q b now s) \<noteq> s \<longrightarrow>
        (\<exists>u k. tokenOf q b = Some (unsubscribe_value pepper u k) \<and> CHR ''|'' \<notin> set u))"
proof (intro conjI allI impI)
  fix u k t
  assume "unsubscribe_token pepper u k = Inr t \<and> CHR ''|'' \<notin> set u \<and> u \<noteq> [] \<and> k \<noteq> [] \<and> is_uuid k"
  then have t: "unsubscribe_token pepper u k = Inr t" and u: "CHR ''|'' \<notin> set u" "u \<noteq> []" "k \<noteq> []" "is_uuid k"
    by blast+
  have v: "t = unsubscribe_value pepper u k" using unsubscribe_token_value [OF assms(1) t] .
  then have "t \<noteq> []" by (simp add: unsubscribe_value_def)
  then have tok: "tokenOf (Some t) b = Some t" by (cases t) (simp_all add: tokenOf_def)
  have rd: "readToken t pepper = Inr (Some (u, k))" using readToken_Some_iff [OF assms(1)] u v by blast
  obtain db' where db': "unsubscribeEmail u k now (fst s) = Inr (True, db')"
    "adWatches db' = mail_stopped u k now (adWatches (fst s))"
    using unsubscribeEmail_stops [OF assms(2,3)] by blast
  show "fst (postUnsubscribe is_uuid pepper (Some t) b now s) = Reply 200 ''Unsubscribed''"
    "adWatches (fst (snd (postUnsubscribe is_uuid pepper (Some t) b now s))) = mail_stopped u k now (adWatches (fst s))"
    using u(4) tok rd db' by (simp_all add: postUnsubscribe_def)
next
  assume "snd (postUnsubscribe is_uuid pepper q b now s) \<noteq> s"
  moreover have "snd (postUnsubscribe is_uuid pepper q b now s) = s"
    if "\<nexists>t u k. tokenOf q b = Some t \<and> readToken t pepper = Inr (Some (u, k))"
  proof (cases "tokenOf q b")
    case (Some t)
    show ?thesis
    proof (cases "readToken t pepper")
      case (Inr p)
      then have "p = None" using that Some by (cases p) auto
      then show ?thesis using Some Inr by (simp add: postUnsubscribe_def)
    qed (simp add: postUnsubscribe_def Some)
  qed (simp add: postUnsubscribe_def)
  ultimately obtain t u k where t: "tokenOf q b = Some t" "readToken t pepper = Inr (Some (u, k))" by blast
  have "CHR ''|'' \<notin> set u" "t = unsubscribe_value pepper u k"
    using t(2) readToken_Some_iff [OF assms(1), of t u k] by simp_all
  then show "\<exists>u k. tokenOf q b = Some (unsubscribe_value pepper u k) \<and> CHR ''|'' \<notin> set u"
    using t(1) by (intro exI [of _ u] exI [of _ k]) simp
qed

lemma unsubscribing_stops_that_mail_witness:
  "\<exists>t. unsubscribe_token (replicate 32 (CHR ''p'')) ''ann'' ''w'' = Inr t
     \<and> adWatches (fst (snd (postUnsubscribe (\<lambda>_. True) (replicate 32 (CHR ''p'')) (Some t) None 5 (demo_alerts, [])))) = []"
proof -
  obtain t where t: "unsubscribe_token (replicate 32 (CHR ''p'')) ''ann'' ''w'' = Inr t"
    by (simp add: unsubscribe_token_def signLink_def mac_def)
  have "32 \<le> length (replicate 32 (CHR ''p''))" by (simp only: length_replicate)
  moreover have "distinct (map waId (adWatches demo_alerts))"
    "\<forall>w \<in> set (adWatches demo_alerts). distinct (waChannels w) \<and> first_violated (watch_checks w) = None"
    unfolding watch_checks_iff by (simp_all add: demo_alerts_def)
  ultimately have "adWatches (fst (snd (postUnsubscribe (\<lambda>_. True) (replicate 32 (CHR ''p'')) (Some t) None 5 (demo_alerts, []))))
      = mail_stopped ''ann'' ''w'' 5 (adWatches demo_alerts)"
    using unsubscribing_stops_that_mail [of "replicate 32 (CHR ''p'')" "(demo_alerts, [])" "\<lambda>_. True" None 5] t by simp
  also have "\<dots> = []" by (simp add: mail_stopped_def demo_alerts_def)
  finally show ?thesis using t by blast
qed

section \<open>Listings\<close>

lemma find_Some_mem: "find P xs = Some x \<Longrightarrow> x \<in> set xs \<and> P x"
  by (induction xs) (auto split: if_splits)

text \<open>A report is only ever about an address of an enabled shop, and a listing it creates is of the
  product it names.\<close>

lemma resolved_listings_are_approved:
  assumes "resolveListing parse_url newId slug domain u db = Inr (Inr (k, created), db')"
  shows "\<exists>retailer parsed listing.
      retailer \<in> set (adRetailers db) \<and> reEnabled retailer \<and> reDomain retailer = domain
      \<and> parse_url u = Some parsed \<and> urlProtocol parsed = ''https:''
      \<and> hostMatchesDomain (urlHostname parsed) domain
      \<and> listing \<in> set (adListings db') \<and> rpId listing = k \<and> rpRetailerId listing = reId retailer
      \<and> rpUrl listing = u
      \<and> (created \<longrightarrow> rpSealedProductId listing \<in> spId ` {p \<in> set (adSealed db). spSlug p = slug})"
proof -
  obtain product retailer parsed where
    p: "find_row spSlug slug (adSealed db) = Some product"
    and r: "find_row reDomain domain (adRetailers db) = Some retailer" "reEnabled retailer"
    and u: "parse_url u = Some parsed" "urlProtocol parsed = ''https:''"
      "hostMatchesDomain (urlHostname parsed) (reDomain retailer)"
    using assms by (auto simp: resolveListing_def split: option.splits if_splits)
  have "\<exists>listing \<in> set (adListings db'). rpId listing = k \<and> rpRetailerId listing = reId retailer \<and> rpUrl listing = u
      \<and> (created \<longrightarrow> rpSealedProductId listing = spId product)"
    using assms p r u by (auto simp: resolveListing_def insert_shop_listing_def find_listing_def
        dest!: find_Some_mem split: option.splits if_splits sum.splits)
  then show ?thesis
    using find_row_SomeD [OF p] find_row_SomeD [OF r(1)] r(2) u by blast
qed

text \<open>An address that is known keeps the product it was first reported for.\<close>

lemma known_address_keeps_its_product:
  "resolveListing (\<lambda>_. Some \<lparr>urlProtocol = ''https:'', urlHostname = ''shop.example'', urlHash = [], urlQuery = []\<rparr>)
     ''n'' ''case'' ''shop.example'' ''https://shop.example/box''
     (demo_alerts\<lparr>adSealed := adSealed demo_alerts @ [\<lparr>spId = ''q'', spSlug = ''case'', spName = ''Case''\<rparr>]\<rparr>)
   = Inr (Inr (''l'', False),
       demo_alerts\<lparr>adSealed := adSealed demo_alerts @ [\<lparr>spId = ''q'', spSlug = ''case'', spName = ''Case''\<rparr>]\<rparr>)"
  by code_simp

section \<open>Messages of a retry\<close>

text \<open>
  The message of a listing is built once in a run, from the first delivery that needs it: another
  event's alert goes out with that event's price and instant. The transport here answers with what it
  was told to say.
\<close>

definition two_events :: alert_db where
  "two_events = demo_alerts\<lparr>
     adEvents := adEvents demo_alerts @ [\<lparr>reEventId = ''e2'', reRetailerProductId = ''l'', reSnapshotId = ''n2'',
       rePriceCents = Some 1299, reCurrency = ''USD'', reDetectedAt = 1000\<rparr>],
     adDeliveries := [new_delivery ''d1'' 0 (''e'', ''w'', EmailAlert), new_delivery ''d2'' 1000 (''e2'', ''w'', EmailAlert)]\<rparr>"

definition echo :: transports where
  "echo ch = Some (\<lambda>m r. Refused (formatPrice (rmPriceCents m) (rmCurrency m)) True)"

lemma a_retry_says_the_first_price:
  "map (\<lambda>d. (deId d, deLastError d)) (adDeliveries (snd (retryOwedDeliveries echo True default_retry 200000 two_events)))
   = [(''d1'', Some ''9.99 USD''), (''d2'', Some ''9.99 USD'')]"
  by code_simp

text \<open>A watch that goes between the reading of the targets and the claim fails the claim of everyone.\<close>

lemma a_vanished_watch_stops_the_fan_out:
  "\<exists>targets. targets = findFanOutTargets ''l''
       (demo_alerts\<lparr>adWatches := adWatches demo_alerts
          @ [\<lparr>waId = ''v'', waUserId = ''ann'', waSealedProductId = None, waRetailerProductId = Some ''l'',
              waChannels = [DiscordDm], waCreatedAt = 0, waUpdatedAt = 0\<rparr>]\<rparr>)
     \<and> length targets = 2
     \<and> (\<exists>e. claimDeliveries demo_ids 0 ''e'' targets demo_alerts = Inl e)"
proof (intro exI conjI)
  let ?t = "findFanOutTargets ''l''
       (demo_alerts\<lparr>adWatches := adWatches demo_alerts
          @ [\<lparr>waId = ''v'', waUserId = ''ann'', waSealedProductId = None, waRetailerProductId = Some ''l'',
              waChannels = [DiscordDm], waCreatedAt = 0, waUpdatedAt = 0\<rparr>]\<rparr>)"
  show "?t = ?t" ..
  show "length ?t = 2" by code_simp
  show "claimDeliveries demo_ids 0 ''e'' ?t demo_alerts =
      Inl (ForeignKeyViolation ''alert_deliveries_subscription_id_watch_subscriptions_id_fk'')"
    by code_simp
qed

end
