(* ===== verification/ApiKeys.thy ===== *)
theory ApiKeys
  imports MarketRoutes BreakDb Crypto
begin

text \<open>
  API keys (\<open>packages/db/src/schema/ingest.ts\<close>, migrations 0017 and 0040, \<open>queries/api-keys.ts\<close>, the
  key part of \<open>queries/ingest.ts\<close>, \<open>apps/api/src/plugins/api-key.ts\<close>, \<open>routes/developer.ts\<close>): how a key
  is minted, stored as a keyed hash, listed, revoked, presented and counted.
\<close>

section \<open>The table\<close>

datatype ApiKeyScope = IngestWrite | CatalogReadScope | PricesRead

record ApiKey =
  akId :: string
  akOwnerId :: "string option"
  akName :: string
  akPrefix :: string
  akKeyHash :: string
  akScopes :: "ApiKeyScope list"
  akTier :: string
  akLastUsedAt :: "int option"
  akQuotaDay :: "int option"
  akQuotaUsed :: int
  akRevokedAt :: "int option"
  akCreatedAt :: int

record key_db =
  kdUsers :: "string list"
  kdKeys :: "ApiKey list"

text \<open>\<open>None\<close> is the command line, which runs as the owner of the table and under no policy.\<close>

definition key_insert_allowed :: "string option \<Rightarrow> ApiKey \<Rightarrow> bool" where
  "key_insert_allowed u k =
     (case u of None \<Rightarrow> True | Some x \<Rightarrow> akOwnerId k = Some x \<and> IngestWrite \<notin> set (akScopes k))"

definition key_checks :: "ApiKey \<Rightarrow> (string \<times> bool) list" where
  "key_checks k =
     [(''api_keys_name_length'', length (akName k) \<le> 60),
      (''api_keys_name_not_blank'', not_blank (akName k)),
      (''api_keys_owned_keys_are_read_only'', akOwnerId k = None \<or> IngestWrite \<notin> set (akScopes k)),
      (''api_keys_quota_used_not_negative'', 0 \<le> akQuotaUsed k),
      (''api_keys_scopes_not_empty'', 1 \<le> length (akScopes k))]"

definition insert_key :: "string option \<Rightarrow> ApiKey \<Rightarrow> key_db \<Rightarrow> db_error + key_db" where
  "insert_key u k db =
     (if \<not> key_insert_allowed u k then Inl RowSecurity
      else case first_violated (key_checks k) of
        Some n \<Rightarrow> Inl (CheckViolation n)
      | None \<Rightarrow>
          if akId k \<in> akId ` set (kdKeys db) then Inl (UniqueViolation ''api_keys_pkey'')
          else if akPrefix k \<in> akPrefix ` set (kdKeys db) then Inl (UniqueViolation ''api_keys_prefix_key'')
          else if (case akOwnerId k of None \<Rightarrow> False | Some x \<Rightarrow> x \<notin> set (kdUsers db)) then
            Inl (ForeignKeyViolation ''api_keys_owner_id_users_id_fk'')
          else Inr (db\<lparr>kdKeys := kdKeys db @ [k]\<rparr>))"

definition blank_key :: "string \<Rightarrow> int \<Rightarrow> string option \<Rightarrow> string \<Rightarrow> string \<Rightarrow> string \<Rightarrow> ApiKeyScope list \<Rightarrow> ApiKey" where
  "blank_key newId now owner name prefix h scopes =
     \<lparr>akId = newId, akOwnerId = owner, akName = name, akPrefix = prefix, akKeyHash = h, akScopes = scopes,
      akTier = ''free'', akLastUsedAt = None, akQuotaDay = None, akQuotaUsed = 0, akRevokedAt = None,
      akCreatedAt = now\<rparr>"

section \<open>Keys of an account\<close>

definition SELF_SERVE_SCOPES :: "ApiKeyScope list" where
  "SELF_SERVE_SCOPES = [CatalogReadScope, PricesRead]"

definition MAX_KEYS_PER_USER :: nat where "MAX_KEYS_PER_USER = 10"

record ApiKeySummary =
  asId :: string
  asName :: string
  asPrefix :: string
  asScopes :: "ApiKeyScope list"
  asTier :: string
  asLastUsedAt :: "int option"
  asRevokedAt :: "int option"
  asCreatedAt :: int

definition summaryColumns :: "ApiKey \<Rightarrow> ApiKeySummary" where
  "summaryColumns k =
     \<lparr>asId = akId k, asName = akName k, asPrefix = akPrefix k, asScopes = akScopes k, asTier = akTier k,
      asLastUsedAt = akLastUsedAt k, asRevokedAt = akRevokedAt k, asCreatedAt = akCreatedAt k\<rparr>"

definition key_char :: "char \<Rightarrow> bool" where
  "key_char c \<longleftrightarrow> (let n = (of_char c :: nat) in (97 \<le> n \<and> n \<le> 122) \<or> (48 \<le> n \<and> n \<le> 57))"

record key_material =
  kmPrefix :: string
  kmSecret :: string
  kmPlaintext :: string

text \<open>\<open>r16\<close> and \<open>r32\<close> are the bytes of the two tokens.\<close>

definition mintKeyMaterial :: "bool \<Rightarrow> bytes \<Rightarrow> bytes \<Rightarrow> range_error + key_material" where
  "mintKeyMaterial production r16 r32 =
     (case (generateToken 16 r16, generateToken 32 r32) of
        (Inr t, Inr secret) \<Rightarrow>
          let prefix = take 8 (filter key_char (to_lower t)) in
          Inr \<lparr>kmPrefix = prefix, kmSecret = secret,
               kmPlaintext = ''gth_'' @ (if production then ''live'' else ''test'') @ ''_'' @ prefix @ ''_'' @ secret\<rparr>
      | (Inl e, _) \<Rightarrow> Inl e
      | (_, Inl e) \<Rightarrow> Inl e)"

definition listApiKeys :: "string \<Rightarrow> key_db \<Rightarrow> ApiKeySummary list" where
  "listApiKeys ownerId db =
     map summaryColumns (rev (sort_key akCreatedAt
       (rev (filter (\<lambda>k. akOwnerId k = Some ownerId) (kdKeys db)))))"

datatype developer_error = KeyLimitError | NoScope | ScopeNotGranted | KeyRange range_error | KeyDb db_error

definition createUserApiKey ::
  "string \<Rightarrow> int \<Rightarrow> bytes \<Rightarrow> bytes \<Rightarrow> string \<Rightarrow> string \<Rightarrow> ApiKeyScope list \<Rightarrow> string \<Rightarrow> bool \<Rightarrow> key_db
     \<Rightarrow> developer_error + (ApiKeySummary \<times> string) \<times> key_db" where
  "createUserApiKey newId now r16 r32 ownerId name scopes0 pepper production db =
     (let scopes = rev (remdups (rev scopes0)) in
      if scopes = [] then Inl NoScope
      else if \<not> set scopes \<subseteq> set SELF_SERVE_SCOPES then Inl ScopeNotGranted
      else if length (filter (\<lambda>k. akOwnerId k = Some ownerId \<and> akRevokedAt k = None) (kdKeys db))
              \<ge> MAX_KEYS_PER_USER
      then Inl KeyLimitError
      else case mintKeyMaterial production r16 r32 of
        Inl e \<Rightarrow> Inl (KeyRange e)
      | Inr m \<Rightarrow>
          (case hashToken (kmSecret m) pepper of
             Inl e \<Rightarrow> Inl (KeyRange e)
           | Inr h \<Rightarrow>
               let k = blank_key newId now (Some ownerId) (trim name) (kmPrefix m) h scopes in
               case insert_key (Some ownerId) k db of
                 Inl e \<Rightarrow> Inl (KeyDb e)
               | Inr db' \<Rightarrow> Inr ((summaryColumns k, kmPlaintext m), db')))"

definition revoke_where :: "(ApiKey \<Rightarrow> bool) \<Rightarrow> int \<Rightarrow> key_db \<Rightarrow> bool \<times> key_db" where
  "revoke_where P now db =
     (let hit = (\<lambda>k. P k \<and> akRevokedAt k = None) in
      (list_ex hit (kdKeys db),
       db\<lparr>kdKeys := map (\<lambda>k. if hit k then k\<lparr>akRevokedAt := Some now\<rparr> else k) (kdKeys db)\<rparr>))"

definition revokeUserApiKey :: "string \<Rightarrow> string \<Rightarrow> int \<Rightarrow> key_db \<Rightarrow> bool \<times> key_db" where
  "revokeUserApiKey ownerId i now db = revoke_where (\<lambda>k. akId k = i \<and> akOwnerId k = Some ownerId) now db"

section \<open>Keys of the operator\<close>

definition createApiKey ::
  "string \<Rightarrow> int \<Rightarrow> string \<Rightarrow> string \<Rightarrow> string \<Rightarrow> ApiKeyScope list \<Rightarrow> key_db \<Rightarrow> db_error + key_db" where
  "createApiKey newId now name prefix h scopes db =
     insert_key None (blank_key newId now None name prefix h scopes) db"

definition revokeApiKey :: "string \<Rightarrow> int \<Rightarrow> key_db \<Rightarrow> bool \<times> key_db" where
  "revokeApiKey prefix now db = revoke_where (\<lambda>k. akPrefix k = prefix) now db"

section \<open>Presenting a key\<close>

definition findActiveApiKey :: "string \<Rightarrow> key_db \<Rightarrow> ApiKey option" where
  "findActiveApiKey prefix db = find (\<lambda>k. akPrefix k = prefix \<and> akRevokedAt k = None) (kdKeys db)"

definition update_key :: "string \<Rightarrow> (ApiKey \<Rightarrow> ApiKey) \<Rightarrow> key_db \<Rightarrow> key_db" where
  "update_key i f db = db\<lparr>kdKeys := update_row akId i f (kdKeys db)\<rparr>"

definition touchApiKey :: "string \<Rightarrow> int \<Rightarrow> key_db \<Rightarrow> key_db" where
  "touchApiKey i now db = update_key i (\<lambda>k. k\<lparr>akLastUsedAt := Some now\<rparr>) db"

definition secret_char :: "char \<Rightarrow> bool" where
  "secret_char c \<longleftrightarrow>
     (let n = (of_char c :: nat) in
      (65 \<le> n \<and> n \<le> 90) \<or> (97 \<le> n \<and> n \<le> 122) \<or> (48 \<le> n \<and> n \<le> 57) \<or> n = 95 \<or> n = 45)"

text \<open>\<open>/^gth_(?:live|test)_([a-z0-9]{8})_([A-Za-z0-9_-]{32,})$/\<close>: the prefix and the secret.\<close>

definition API_KEY_PATTERN :: "string \<Rightarrow> (string \<times> string) option" where
  "API_KEY_PATTERN s =
     (let prefix = take 8 (drop 9 s); secret = drop 18 s in
      if (take 9 s = ''gth_live_'' \<or> take 9 s = ''gth_test_'')
         \<and> length prefix = 8 \<and> list_all key_char prefix \<and> take 1 (drop 17 s) = ''_''
         \<and> 32 \<le> length secret \<and> list_all secret_char secret
      then Some (prefix, secret) else None)"

record AuthenticatedKey =
  kaId :: string
  kaPrefix :: string
  kaScopes :: "ApiKeyScope list"
  kaTier :: string
  kaOwnerId :: "string option"

datatype key_refusal = ApiKeyError nat string | KeyThrew range_error

text \<open>
  \<open>authorization\<close> is the header. The stamp of the last use is written beside the request and may fail:
  \<open>stamped\<close> says whether it was.
\<close>

definition authenticateApiKey ::
  "string option \<Rightarrow> string \<Rightarrow> bool \<Rightarrow> int \<Rightarrow> key_db \<Rightarrow> (key_refusal + AuthenticatedKey option) \<times> key_db" where
  "authenticateApiKey authorization pepper stamped now db =
     (case authorization of
        None \<Rightarrow> (Inr None, db)
      | Some header \<Rightarrow>
        if \<not> starts_with ''Bearer '' header then (Inr None, db)
        else case API_KEY_PATTERN (trim (drop 7 header)) of
          None \<Rightarrow> (Inl (ApiKeyError 401 ''invalid_api_key''), db)
        | Some (prefix, secret) \<Rightarrow>
          case findActiveApiKey prefix db of
            None \<Rightarrow> (Inl (ApiKeyError 401 ''invalid_api_key''), db)
          | Some k \<Rightarrow>
            case hashToken secret pepper of
              Inl e \<Rightarrow> (Inl (KeyThrew e), db)
            | Inr h \<Rightarrow>
                if \<not> safeEqual h (akKeyHash k) then (Inl (ApiKeyError 401 ''invalid_api_key''), db)
                else (Inr (Some \<lparr>kaId = akId k, kaPrefix = akPrefix k, kaScopes = akScopes k,
                                 kaTier = akTier k, kaOwnerId = akOwnerId k\<rparr>),
                      if stamped then touchApiKey (akId k) now db else db))"

definition requireScope :: "AuthenticatedKey option \<Rightarrow> ApiKeyScope \<Rightarrow> key_refusal option" where
  "requireScope key scope =
     (case key of
        None \<Rightarrow> Some (ApiKeyError 401 ''api_key_required'')
      | Some k \<Rightarrow> if scope \<notin> set (kaScopes k) then Some (ApiKeyError 403 ''insufficient_scope'') else None)"

section \<open>Counting the day\<close>

definition UTC_DAY_MS :: int where "UTC_DAY_MS = 86400000"

definition utc_day :: "int \<Rightarrow> int" where "utc_day now = now div UTC_DAY_MS"

text \<open>The day is the UTC day of the statement; a count past the column's range is an error.\<close>

definition counted_key :: "int \<Rightarrow> ApiKey \<Rightarrow> ApiKey" where
  "counted_key now k =
     k\<lparr>akQuotaDay := Some (utc_day now),
       akQuotaUsed := (if akQuotaDay k = Some (utc_day now) then akQuotaUsed k + 1 else 1)\<rparr>"

definition consumeApiKeyQuota :: "string \<Rightarrow> int \<Rightarrow> key_db \<Rightarrow> db_error + int option \<times> key_db" where
  "consumeApiKeyQuota i now db =
     (case find_row akId i (kdKeys db) of
        None \<Rightarrow> Inr (None, db)
      | Some k \<Rightarrow>
          if \<not> int4 (akQuotaUsed (counted_key now k)) then Inl OutOfRange
          else Inr (Some (akQuotaUsed (counted_key now k)), update_key i (counted_key now) db))"

definition secondsUntilUtcMidnight :: "int \<Rightarrow> int" where
  "secondsUntilUtcMidnight now = max 1 (- (- ((utc_day now + 1) * UTC_DAY_MS - now) div 1000))"

section \<open>The developer console\<close>

type_synonym key_api = "key_db \<times> AuditEntry list"

definition key_audit :: "AuditEntry \<Rightarrow> key_api \<Rightarrow> key_api" where
  "key_audit entry s = (fst s, snd s @ [entry])"

definition createKeySchema :: "string \<Rightarrow> ApiKeyScope list \<Rightarrow> bool" where
  "createKeySchema name scopes \<longleftrightarrow>
     1 \<le> length (trim name) \<and> length (trim name) \<le> 60
     \<and> set scopes \<subseteq> set SELF_SERVE_SCOPES \<and> 1 \<le> length scopes \<and> length scopes \<le> length SELF_SERVE_SCOPES"

definition getDeveloperKeys :: "Subject option \<Rightarrow> key_api \<Rightarrow> reply \<times> ApiKeySummary list" where
  "getDeveloperKeys subject s =
     (case subject of
        None \<Rightarrow> (unauthenticated, [])
      | Some u \<Rightarrow>
          if authorize subject AccountRead None \<noteq> None then (forbidden, [])
          else (Reply 200 ''ok'', listApiKeys (subUserId u) (fst s)))"

definition postDeveloperKey ::
  "string \<Rightarrow> bool \<Rightarrow> Subject option \<Rightarrow> string \<Rightarrow> ApiKeyScope list \<Rightarrow> string \<Rightarrow> bytes \<Rightarrow> bytes \<Rightarrow> int \<Rightarrow> key_api
     \<Rightarrow> reply \<times> string option \<times> key_api" where
  "postDeveloperKey pepper production subject name scopes newId r16 r32 now s =
     (case subject of
        None \<Rightarrow> (unauthenticated, None, s)
      | Some u \<Rightarrow>
          if authorize subject AccountWrite None \<noteq> None then (forbidden, None, s)
          else if \<not> createKeySchema name scopes then (invalid_request, None, s)
          else case createUserApiKey newId now r16 r32 (subUserId u) (trim name) scopes pepper production (fst s) of
            Inl KeyLimitError \<Rightarrow> (Reply 409 ''key_limit_reached'', None, s)
          | Inl _ \<Rightarrow> (internal_error, None, s)
          | Inr ((k, plaintext), db') \<Rightarrow>
              (Reply 201 ''created'', Some plaintext,
               key_audit (user_audit (subUserId u) ''api_key.created'' ''api_key'' (asId k)) (db', snd s)))"

definition deleteDeveloperKey :: "Subject option \<Rightarrow> string \<Rightarrow> int \<Rightarrow> key_api \<Rightarrow> reply \<times> key_api" where
  "deleteDeveloperKey subject i now s =
     (case subject of
        None \<Rightarrow> (unauthenticated, s)
      | Some u \<Rightarrow>
          if authorize subject AccountWrite None \<noteq> None then (forbidden, s)
          else case revokeUserApiKey (subUserId u) i now (fst s) of
            (revoked, db') \<Rightarrow>
              if \<not> revoked then (not_found, (db', snd s))
              else (Reply 204 '''',
                    key_audit (user_audit (subUserId u) ''api_key.revoked'' ''api_key'' i) (db', snd s)))"

end
