(* ===== verification/Quota.thy ===== *)
theory Quota
  imports ApiKeys
begin

text \<open>
  The public API's quotas (\<open>packages/core/src/api-tiers.ts\<close>, \<open>apps/api/src/plugins/quota.ts\<close>): a minute
  window in the memory of the process and a day counted in the table. A store is a map from keys to
  windows; a restart empties it.
\<close>

section \<open>Windows\<close>

record QuotaTier =
  perMinute :: int
  perDay :: int

definition FREE_TIER_LIMITS :: QuotaTier where "FREE_TIER_LIMITS = \<lparr>perMinute = 60, perDay = 1000\<rparr>"

definition TIERS :: "string \<Rightarrow> QuotaTier option" where
  "TIERS t = (if t = ''free'' then Some FREE_TIER_LIMITS else None)"

record quota_window =
  wnCount :: int
  wnResetAt :: int

record QuotaStore =
  qsMinute :: "string \<Rightarrow> quota_window option"
  qsDay :: "string \<Rightarrow> quota_window option"

record quota_counts =
  qcMinute :: int
  qcDay :: int
  qcMinuteResetAt :: int

definition bump :: "(string \<Rightarrow> quota_window option) \<Rightarrow> string \<Rightarrow> int \<Rightarrow> int \<Rightarrow> quota_window" where
  "bump store key now span0 =
     (case store key of
        None \<Rightarrow> \<lparr>wnCount = 1, wnResetAt = now + span0\<rparr>
      | Some w \<Rightarrow>
          if wnResetAt w \<le> now then \<lparr>wnCount = 1, wnResetAt = now + span0\<rparr>
          else w\<lparr>wnCount := wnCount w + 1\<rparr>)"

definition quota_count :: "string \<Rightarrow> int \<Rightarrow> QuotaStore \<Rightarrow> quota_counts \<times> QuotaStore" where
  "quota_count keyId now store =
     (let m = bump (qsMinute store) keyId now 60000; d = bump (qsDay store) keyId now 86400000 in
      (\<lparr>qcMinute = wnCount m, qcDay = wnCount d, qcMinuteResetAt = wnResetAt m\<rparr>,
       \<lparr>qsMinute = (qsMinute store)(keyId := Some m), qsDay = (qsDay store)(keyId := Some d)\<rparr>))"

definition sweep_windows :: "int \<Rightarrow> (string \<Rightarrow> quota_window option) \<Rightarrow> string \<Rightarrow> quota_window option" where
  "sweep_windows now store key =
     (case store key of None \<Rightarrow> None | Some w \<Rightarrow> if wnResetAt w \<le> now then None else Some w)"

definition quota_sweep :: "int \<Rightarrow> QuotaStore \<Rightarrow> QuotaStore" where
  "quota_sweep now store = \<lparr>qsMinute = sweep_windows now (qsMinute store), qsDay = sweep_windows now (qsDay store)\<rparr>"

definition quota_reset :: QuotaStore where
  "quota_reset = \<lparr>qsMinute = (\<lambda>_. None), qsDay = (\<lambda>_. None)\<rparr>"

section \<open>The decision\<close>

record QuotaDecision =
  qdAllowed :: bool
  qdLimit :: int
  qdRemaining :: int
  qdResetSeconds :: int

definition decide :: "quota_counts \<Rightarrow> QuotaTier \<Rightarrow> int option \<Rightarrow> int \<Rightarrow> QuotaDecision" where
  "decide counts tier durableDay now =
     (let dayUsed = max (or_default 0 durableDay) (qcDay counts);
          minuteLeft = perMinute tier - qcMinute counts;
          dayLeft = perDay tier - dayUsed;
          tightest = (if minuteLeft \<le> dayLeft
                      then (perMinute tier, minuteLeft, max 1 (- (- (qcMinuteResetAt counts - now) div 1000)))
                      else (perDay tier, dayLeft, secondsUntilUtcMidnight now))
      in case tightest of (limit, remaining, resetSeconds) \<Rightarrow>
           \<lparr>qdAllowed = (minuteLeft \<ge> 0 \<and> dayLeft \<ge> 0), qdLimit = limit, qdRemaining = max 0 remaining,
            qdResetSeconds = resetSeconds\<rparr>)"

text \<open>
  One request of a key: \<open>None\<close> when the quota does not apply to it. \<open>reachable\<close> says whether the table
  answers; an answer that fails counts as none.
\<close>

definition quota_hook ::
  "bool \<Rightarrow> bool \<Rightarrow> AuthenticatedKey option \<Rightarrow> int \<Rightarrow> QuotaStore \<times> key_db
     \<Rightarrow> QuotaDecision option \<times> QuotaStore \<times> key_db" where
  "quota_hook applies reachable key now s =
     (case key of
        None \<Rightarrow> (None, s)
      | Some k \<Rightarrow>
          if \<not> applies then (None, s)
          else
            let tier = or_default FREE_TIER_LIMITS (TIERS (kaTier k));
                (counts, store) = quota_count (kaId k) now (fst s)
            in if qcMinute counts > perMinute tier
               then (Some (decide counts tier None now), store, snd s)
               else
                 (case (if reachable then consumeApiKeyQuota (kaId k) now (snd s) else Inl OutOfRange) of
                    Inl e \<Rightarrow> (Some (decide counts tier None now), store, snd s)
                  | Inr (durableDay, db') \<Rightarrow> (Some (decide counts tier durableDay now), store, db')))"

section \<open>Runs\<close>

text \<open>
  What happens to the keys and the process while requests come in: a log of the requests that were let
  through, with their instants.
\<close>

record quota_world =
  qwStore :: QuotaStore
  qwDb :: key_db
  qwNow :: int
  qwAdmitted :: "(string \<times> int) list"

inductive quota_step :: "quota_world \<Rightarrow> quota_world \<Rightarrow> bool" where
  request: "quota_step w (w\<lparr>qwStore := store, qwDb := db,
      qwAdmitted := qwAdmitted w @ (if qdAllowed d then [(kaId k, qwNow w)] else [])\<rparr>)"
    if "quota_hook True True (Some k) (qwNow w) (qwStore w, qwDb w) = (Some d, store, db)"
      "kaId k \<in> akId ` set (kdKeys (qwDb w))" "\<forall>x \<in> set (kdKeys (qwDb w)). akQuotaUsed x < 2147483647"
| restart: "quota_step w (w\<lparr>qwStore := quota_reset\<rparr>)"
| swept: "quota_step w (w\<lparr>qwStore := quota_sweep (qwNow w) (qwStore w)\<rparr>)"
| tick: "quota_step w (w\<lparr>qwNow := t\<rparr>)" if "qwNow w \<le> t"
| present: "quota_step w (w\<lparr>qwDb := db\<rparr>)"
    if "authenticateApiKey authorization pepper stamped (qwNow w) (qwDb w) = (res, db)"
| create: "quota_step w (w\<lparr>qwDb := db\<rparr>)"
    if "createUserApiKey newId (qwNow w) r16 r32 owner name scopes pepper production (qwDb w) = Inr (res, db)"
| create_first_party: "quota_step w (w\<lparr>qwDb := db\<rparr>)"
    if "createApiKey newId (qwNow w) name prefix h scopes (qwDb w) = Inr db"
| revoke: "quota_step w (w\<lparr>qwDb := db\<rparr>)" if "revokeUserApiKey owner i (qwNow w) (qwDb w) = (res, db)"
| revoke_first_party: "quota_step w (w\<lparr>qwDb := db\<rparr>)" if "revokeApiKey prefix (qwNow w) (qwDb w) = (res, db)"

definition quota_start :: "quota_world \<Rightarrow> bool" where
  "quota_start w \<longleftrightarrow>
     kdKeys (qwDb w) = [] \<and> qwStore w = quota_reset \<and> qwAdmitted w = []"

definition quota_reachable :: "quota_world \<Rightarrow> bool" where
  "quota_reachable w \<longleftrightarrow> (\<exists>w0. quota_start w0 \<and> quota_step\<^sup>*\<^sup>* w0 w)"

definition admitted_of :: "(string \<times> int) list \<Rightarrow> string \<Rightarrow> int \<Rightarrow> nat" where
  "admitted_of adm i day = length (filter (\<lambda>(k, t). k = i \<and> utc_day t = day) adm)"

section \<open>The invariant\<close>

text \<open>
  For every key row: nothing was let through for a later day than the row's, and for the row's own day
  at most what it counted. An id that has no row was never let through.
\<close>

definition key_counted :: "(string \<times> int) list \<Rightarrow> ApiKey \<Rightarrow> bool" where
  "key_counted adm k \<longleftrightarrow>
     0 \<le> akQuotaUsed k
     \<and> (\<forall>day. int (admitted_of adm (akId k) day) \<le> perDay FREE_TIER_LIMITS
          \<and> (case akQuotaDay k of
               None \<Rightarrow> admitted_of adm (akId k) day = 0
             | Some d \<Rightarrow> (if day = d then int (admitted_of adm (akId k) day) \<le> akQuotaUsed k
                         else day > d \<longrightarrow> admitted_of adm (akId k) day = 0)))"

definition day_reached :: "int \<Rightarrow> ApiKey \<Rightarrow> bool" where
  "day_reached now k \<longleftrightarrow> (case akQuotaDay k of None \<Rightarrow> True | Some d \<Rightarrow> d \<le> utc_day now)"

definition quota_inv :: "quota_world \<Rightarrow> bool" where
  "quota_inv w \<longleftrightarrow>
     distinct (map akId (kdKeys (qwDb w)))
     \<and> (\<forall>k \<in> set (kdKeys (qwDb w)). key_counted (qwAdmitted w) k
          \<and> day_reached (qwNow w) k)
     \<and> fst ` set (qwAdmitted w) \<subseteq> akId ` set (kdKeys (qwDb w))"

lemma quota_inv_cong:
  "quota_inv w \<Longrightarrow> qwDb w' = qwDb w \<Longrightarrow> qwNow w' = qwNow w \<Longrightarrow> qwAdmitted w' = qwAdmitted w \<Longrightarrow> quota_inv w'"
  by (simp add: quota_inv_def)

lemma admitted_of_simps [simp]:
  "admitted_of (adm @ ms) i day = admitted_of adm i day + admitted_of ms i day"
  "admitted_of [] i day = 0"
  "admitted_of [(k, t)] i day = (if k = i \<and> utc_day t = day then 1 else 0)"
  by (simp_all add: admitted_of_def)

lemma admitted_of_absent: "i \<notin> fst ` set adm \<Longrightarrow> admitted_of adm i day = 0"
  by (induction adm) (auto simp: admitted_of_def)

lemma key_counted_iff:
  "key_counted adm k \<longleftrightarrow>
     0 \<le> akQuotaUsed k
     \<and> (\<forall>day. int (admitted_of adm (akId k) day) \<le> 1000
          \<and> (case akQuotaDay k of
               None \<Rightarrow> admitted_of adm (akId k) day = 0
             | Some d \<Rightarrow> (if day = d then int (admitted_of adm (akId k) day) \<le> akQuotaUsed k
                         else day > d \<longrightarrow> admitted_of adm (akId k) day = 0)))"
  by (simp add: key_counted_def FREE_TIER_LIMITS_def)

lemma key_counted_cong:
  "(\<And>day. admitted_of adm (akId k) day = admitted_of adm' (akId k) day) \<Longrightarrow> key_counted adm k = key_counted adm' k"
  by (simp only: key_counted_iff)

lemma hook_out:
  assumes hook: "quota_hook True True (Some a) now (store, db) = (Some d, store', db')"
    and row: "find_row akId (kaId a) (kdKeys db) = Some k" "akQuotaUsed k < 2147483647" "0 \<le> akQuotaUsed k"
  shows "db' = db \<and> \<not> qdAllowed d
    \<or> db' = update_key (kaId a) (counted_key now) db \<and> (qdAllowed d \<longrightarrow> akQuotaUsed (counted_key now k) \<le> 1000)"
proof -
  have tier: "or_default FREE_TIER_LIMITS (TIERS t) = FREE_TIER_LIMITS" for t
    by (simp add: TIERS_def or_default_def)
  obtain counts st where c: "quota_count (kaId a) now store = (counts, st)" by force
  have int4: "int4 (akQuotaUsed (counted_key now k))" using row(2,3) by (simp add: int4_def counted_key_def)
  have used: "consumeApiKeyQuota (kaId a) now db
      = Inr (Some (akQuotaUsed (counted_key now k)), update_key (kaId a) (counted_key now) db)"
    by (simp add: consumeApiKeyQuota_def row(1) int4)
  have dec: "qdAllowed (decide counts FREE_TIER_LIMITS D now) \<longleftrightarrow>
      qcMinute counts \<le> 60 \<and> max (or_default 0 D) (qcDay counts) \<le> 1000" for D
    by (auto simp: decide_def Let_def FREE_TIER_LIMITS_def)
  show ?thesis
  proof (cases "qcMinute counts > 60")
    case True
    then show ?thesis using hook c tier dec by (auto simp: quota_hook_def Let_def FREE_TIER_LIMITS_def)
  next
    case False
    then have "d = decide counts FREE_TIER_LIMITS (Some (akQuotaUsed (counted_key now k))) now"
      "db' = update_key (kaId a) (counted_key now) db"
      using hook c tier used by (auto simp: quota_hook_def Let_def FREE_TIER_LIMITS_def)
    then show ?thesis using dec by (auto simp: or_default_def)
  qed
qed

text \<open>Counting a request.\<close>

lemma counted_row:
  assumes inv: "key_counted adm k" "day_reached now k"
    and used: "b \<longrightarrow> akQuotaUsed (counted_key now k) \<le> 1000"
  shows "key_counted (adm @ (if b then [(akId k, now)] else [])) (counted_key now k)"
proof -
  let ?n = "admitted_of adm (akId k)"
  let ?adm = "adm @ (if b then [(akId k, now)] else [])"
  have n': "admitted_of ?adm (akId k) day = ?n day + (if b \<and> day = utc_day now then 1 else 0)" for day by auto
  have "0 \<le> akQuotaUsed k" and le: "\<And>day. int (?n day) \<le> 1000" using inv(1) by (simp_all add: key_counted_iff)
  have today: "int (?n (utc_day now)) \<le> akQuotaUsed (counted_key now k) - 1"
  proof (cases "akQuotaDay k = Some (utc_day now)")
    case True
    then have "int (?n (utc_day now)) \<le> akQuotaUsed k" using inv(1) by (auto simp: key_counted_iff)
    then show ?thesis using True by (simp add: counted_key_def)
  next
    case False
    then have "?n (utc_day now) = 0"
      using inv by (cases "akQuotaDay k") (auto simp: key_counted_iff day_reached_def)
    then show ?thesis using False by (simp add: counted_key_def)
  qed
  have later: "?n day = 0" if "day > utc_day now" for day
    using inv that by (cases "akQuotaDay k") (auto simp: key_counted_iff day_reached_def)
  show ?thesis
    unfolding key_counted_iff
  proof (intro conjI allI)
    show "0 \<le> akQuotaUsed (counted_key now k)" using \<open>0 \<le> akQuotaUsed k\<close> by (simp add: counted_key_def)
    fix day
    have id: "akId (counted_key now k) = akId k" "akQuotaDay (counted_key now k) = Some (utc_day now)"
      by (simp_all add: counted_key_def)
    show "int (admitted_of ?adm (akId (counted_key now k)) day) \<le> 1000"
      unfolding id n' using le [of day] today used by auto
    show "case akQuotaDay (counted_key now k) of
        None \<Rightarrow> admitted_of ?adm (akId (counted_key now k)) day = 0
      | Some d \<Rightarrow> (if day = d then int (admitted_of ?adm (akId (counted_key now k)) day) \<le> akQuotaUsed (counted_key now k)
          else day > d \<longrightarrow> admitted_of ?adm (akId (counted_key now k)) day = 0)"
      unfolding id n' using today later by auto
  qed
qed

text \<open>Statements that leave the quota columns alone, and may add a fresh key.\<close>

definition quota_columns :: "ApiKey \<Rightarrow> string \<times> int option \<times> int" where
  "quota_columns k = (akId k, akQuotaDay k, akQuotaUsed k)"

definition keeps_quota :: "key_db \<Rightarrow> key_db \<Rightarrow> bool" where
  "keeps_quota db db' \<longleftrightarrow>
     (\<exists>new. map quota_columns (kdKeys db') = map quota_columns (kdKeys db) @ map quota_columns new
        \<and> (\<forall>k \<in> set new. akId k \<notin> akId ` set (kdKeys db) \<and> akQuotaDay k = None \<and> akQuotaUsed k = 0)
        \<and> distinct (map akId new))"

lemma keeps_quota_same: "map quota_columns (kdKeys db') = map quota_columns (kdKeys db) \<Longrightarrow> keeps_quota db db'"
  unfolding keeps_quota_def by (rule exI [of _ "[]"]) simp

lemma insert_key_keeps:
  "insert_key u k db = Inr db' \<Longrightarrow> akQuotaDay k = None \<Longrightarrow> akQuotaUsed k = 0 \<Longrightarrow> keeps_quota db db'"
  unfolding keeps_quota_def by (rule exI [of _ "[k]"]) (auto simp: insert_key_def split: option.splits if_splits)

lemma revoke_where_keeps: "revoke_where P now db = (b, db') \<Longrightarrow> keeps_quota db db'"
  by (rule keeps_quota_same) (auto simp: revoke_where_def Let_def quota_columns_def)

lemma authenticate_keeps: "authenticateApiKey a pepper stamped now db = (res, db') \<Longrightarrow> keeps_quota db db'"
proof (rule keeps_quota_same)
  assume "authenticateApiKey a pepper stamped now db = (res, db')"
  then have "db' = db \<or> (\<exists>i. db' = touchApiKey i now db)"
    by (auto simp: authenticateApiKey_def split: option.splits sum.splits if_splits prod.splits)
  moreover have "map quota_columns (update_row akId i (\<lambda>k. k\<lparr>akLastUsedAt := Some now\<rparr>) ks) = map quota_columns ks"
    for i ks by (induction ks) (auto simp: quota_columns_def)
  ultimately show "map quota_columns (kdKeys db') = map quota_columns (kdKeys db)"
    by (auto simp: touchApiKey_def update_key_def)
qed

lemma createUserApiKey_keeps:
  "createUserApiKey newId now r16 r32 owner name scopes pepper production db = Inr (res, db') \<Longrightarrow> keeps_quota db db'"
  by (auto simp: createUserApiKey_def Let_def blank_key_def split: if_splits sum.splits intro: insert_key_keeps)

lemma createApiKey_keeps: "createApiKey newId now name prefix h scopes db = Inr db' \<Longrightarrow> keeps_quota db db'"
  by (auto simp: createApiKey_def blank_key_def intro: insert_key_keeps)

lemma quota_columns_row:
  "quota_columns k = quota_columns k' \<Longrightarrow> key_counted adm k = key_counted adm k' \<and> akQuotaDay k = akQuotaDay k'"
  by (auto simp: quota_columns_def key_counted_iff split: option.splits)

lemma keeps_quota_inv:
  assumes inv: "quota_inv w" and k: "keeps_quota (qwDb w) db"
  shows "quota_inv (w\<lparr>qwDb := db\<rparr>)"
proof -
  obtain new where new: "map quota_columns (kdKeys db) = map quota_columns (kdKeys (qwDb w)) @ map quota_columns new"
    "\<forall>k \<in> set new. akId k \<notin> akId ` set (kdKeys (qwDb w)) \<and> akQuotaDay k = None \<and> akQuotaUsed k = 0"
    "distinct (map akId new)"
    using k by (auto simp: keeps_quota_def)
  have id: "akId = fst \<circ> quota_columns" by (simp add: quota_columns_def fun_eq_iff)
  have ids: "map akId (kdKeys db) = map akId (kdKeys (qwDb w)) @ map akId new"
    unfolding id map_map [symmetric] new(1) by simp
  have adm: "fst ` set (qwAdmitted w) \<subseteq> akId ` set (kdKeys (qwDb w))" using inv by (simp add: quota_inv_def)
  have rows: "key_counted (qwAdmitted w) x \<and> day_reached (qwNow w) x"
    if "x \<in> set (kdKeys db)" for x
  proof -
    have "quota_columns x \<in> set (map quota_columns (kdKeys (qwDb w)) @ map quota_columns new)"
      using that by (simp add: new(1) [symmetric])
    then consider y where "y \<in> set (kdKeys (qwDb w))" "quota_columns x = quota_columns y"
      | y where "y \<in> set new" "quota_columns x = quota_columns y" by auto
    then show ?thesis
    proof cases
      case (1 y)
      then show ?thesis using inv quota_columns_row [OF 1(2), of "qwAdmitted w"] by (simp add: quota_inv_def day_reached_def)
    next
      case (2 y)
      then have "akId y \<notin> fst ` set (qwAdmitted w)" "akQuotaDay y = None" "akQuotaUsed y = 0"
        using new(2) adm by blast+
      then have "key_counted (qwAdmitted w) y" by (simp add: key_counted_iff admitted_of_absent)
      then show ?thesis using quota_columns_row [OF 2(2), of "qwAdmitted w"] \<open>akQuotaDay y = None\<close> by (simp add: day_reached_def)
    qed
  qed
  have "distinct (map akId (kdKeys db))"
  proof -
    have "set (map akId (kdKeys (qwDb w))) \<inter> set (map akId new) = {}"
    proof (rule equals0I)
      fix i
      assume "i \<in> set (map akId (kdKeys (qwDb w))) \<inter> set (map akId new)"
      then obtain y where "y \<in> set new" "akId y = i" "i \<in> akId ` set (kdKeys (qwDb w))" by auto
      then show False using new(2) by blast
    qed
    then show ?thesis unfolding ids distinct_append using inv new(3) by (simp add: quota_inv_def)
  qed
  moreover have "fst ` set (qwAdmitted w) \<subseteq> akId ` set (kdKeys db)"
  proof -
    have "akId ` set (kdKeys db) = akId ` set (kdKeys (qwDb w)) \<union> akId ` set new"
      using arg_cong [OF ids, of set] by simp
    then show ?thesis using subset_trans [OF adm Un_upper1] by simp
  qed
  ultimately show ?thesis using rows by (simp add: quota_inv_def)
qed

lemma request_inv:
  assumes inv: "quota_inv w"
    and hook: "quota_hook True True (Some a) (qwNow w) (qwStore w, qwDb w) = (Some d, store, db)"
    and known: "kaId a \<in> akId ` set (kdKeys (qwDb w))"
    and small: "\<forall>x \<in> set (kdKeys (qwDb w)). akQuotaUsed x < 2147483647"
  shows "quota_inv (w\<lparr>qwStore := store, qwDb := db,
           qwAdmitted := qwAdmitted w @ (if qdAllowed d then [(kaId a, qwNow w)] else [])\<rparr>)"
proof -
  let ?adm = "qwAdmitted w @ (if qdAllowed d then [(kaId a, qwNow w)] else [])"
  have rows: "\<And>x. x \<in> set (kdKeys (qwDb w)) \<Longrightarrow> key_counted (qwAdmitted w) x
      \<and> day_reached (qwNow w) x"
    and ids: "distinct (map akId (kdKeys (qwDb w)))" and adm: "fst ` set (qwAdmitted w) \<subseteq> akId ` set (kdKeys (qwDb w))"
    using inv by (simp_all add: quota_inv_def)
  obtain k where k: "find_row akId (kaId a) (kdKeys (qwDb w)) = Some k"
    using known by (cases "find_row akId (kaId a) (kdKeys (qwDb w))") (auto simp: find_row_None_iff)
  then have mem: "k \<in> set (kdKeys (qwDb w))" "akId k = kaId a" using find_row_SomeD by fastforce+
  have "0 \<le> akQuotaUsed k" using rows [OF mem(1)] by (simp add: key_counted_iff)
  from hook_out [OF hook k _ this] small mem(1)
  consider "db = qwDb w" "\<not> qdAllowed d"
    | "db = update_key (kaId a) (counted_key (qwNow w)) (qwDb w)"
      "qdAllowed d \<longrightarrow> akQuotaUsed (counted_key (qwNow w) k) \<le> 1000" by blast
  then show ?thesis
  proof cases
    case 1
    then show ?thesis by (intro quota_inv_cong [OF inv]) simp_all
  next
    case 2
    let ?upd = "\<lambda>x. if akId x = kaId a then counted_key (qwNow w) x else x"
    have keys: "kdKeys db = map ?upd (kdKeys (qwDb w))" by (simp add: 2(1) update_key_def update_row_def)
    have same: "map akId (kdKeys db) = map akId (kdKeys (qwDb w))"
      unfolding keys by (induction "kdKeys (qwDb w)") (simp_all add: counted_key_def)
    have row: "key_counted ?adm y \<and> day_reached (qwNow w) y"
      if y: "y \<in> set (kdKeys db)" for y
    proof -
      obtain x where x: "x \<in> set (kdKeys (qwDb w))" "y = ?upd x" using y keys by auto
      show ?thesis
      proof (cases "akId x = kaId a")
        case True
        then have "x = k" using find_row_distinct [OF ids x(1)] k by simp
        with x mem(2) 2(2) counted_row [of "qwAdmitted w" k "qwNow w" "qdAllowed d"] rows [OF mem(1)]
        show ?thesis by (auto simp: counted_key_def day_reached_def)
      next
        case False
        then have "admitted_of ?adm (akId x) day = admitted_of (qwAdmitted w) (akId x) day" for day by auto
        then have "key_counted ?adm x = key_counted (qwAdmitted w) x" by (rule key_counted_cong)
        then show ?thesis using False x(2) rows [OF x(1)] by simp
      qed
    qed
    have "akId ` set (kdKeys db) = akId ` set (kdKeys (qwDb w))" using arg_cong [OF same, of set] by simp
    then have "fst ` set ?adm \<subseteq> akId ` set (kdKeys db)" using adm known by auto
    then show ?thesis using row same ids by (simp add: quota_inv_def)
  qed
qed

lemma quota_step_inv:
  assumes "quota_step w w'" "quota_inv w"
  shows "quota_inv w'"
  using assms(1)
proof cases
  case (request k d store db)
  then show ?thesis using request_inv [OF assms(2)] by blast
next
  case (tick t)
  have "utc_day (qwNow w) \<le> utc_day t" using tick(2) by (simp add: utc_day_def UTC_DAY_MS_def zdiv_mono1)
  then show ?thesis using assms(2) tick(1) by (fastforce simp: quota_inv_def day_reached_def split: option.splits)
next
  case (present authorization pepper stamped res db)
  then show ?thesis using keeps_quota_inv [OF assms(2)] authenticate_keeps by blast
next
  case (create newId r16 r32 owner name scopes pepper production res db)
  then show ?thesis using keeps_quota_inv [OF assms(2)] createUserApiKey_keeps by blast
next
  case (create_first_party newId name prefix h scopes db)
  then show ?thesis using keeps_quota_inv [OF assms(2)] createApiKey_keeps by blast
next
  case (revoke owner i res db)
  then show ?thesis using keeps_quota_inv [OF assms(2)] revoke_where_keeps unfolding revokeUserApiKey_def by blast
next
  case (revoke_first_party prefix res db)
  then show ?thesis using keeps_quota_inv [OF assms(2)] revoke_where_keeps unfolding revokeApiKey_def by blast
qed (intro quota_inv_cong [OF assms(2)]; simp)+

lemma quota_reachable_inv: "quota_reachable w \<Longrightarrow> quota_inv w"
proof -
  assume "quota_reachable w"
  then obtain w0 where w0: "quota_start w0" "quota_step\<^sup>*\<^sup>* w0 w" by (auto simp: quota_reachable_def)
  from w0(2) show ?thesis
    by induction (use w0(1) quota_step_inv in \<open>auto simp: quota_start_def quota_inv_def\<close>)
qed

text \<open>
  The day window of the process runs for a day from a key's first request, not from midnight: a key that
  spent its thousand by the evening is still refused after midnight, when the table starts again at one.
\<close>

lemma yesterday_still_refuses:
  "let store = \<lparr>qsMinute = (\<lambda>_. None), qsDay = (\<lambda>_. Some \<lparr>wnCount = 1000, wnResetAt = UTC_DAY_MS + 43200000\<rparr>)\<rparr>;
       k = \<lparr>akId = ''k'', akOwnerId = None, akName = ''n'', akPrefix = ''p'', akKeyHash = ''h'', akScopes = [PricesRead],
            akTier = ''free'', akLastUsedAt = None, akQuotaDay = Some 0, akQuotaUsed = 1000, akRevokedAt = None,
            akCreatedAt = 0\<rparr>
   in case quota_hook True True
         (Some \<lparr>kaId = ''k'', kaPrefix = ''p'', kaScopes = [PricesRead], kaTier = ''free'', kaOwnerId = None\<rparr>)
         (UTC_DAY_MS + 1000) (store, \<lparr>kdUsers = [], kdKeys = [k]\<rparr>) of
        (Some d, _, db) \<Rightarrow> \<not> qdAllowed d \<and> map akQuotaUsed (kdKeys db) = [1]
      | _ \<Rightarrow> False"
  by (simp add: Let_def quota_hook_def quota_count_def bump_def TIERS_def FREE_TIER_LIMITS_def decide_def
      consumeApiKeyQuota_def counted_key_def utc_day_def UTC_DAY_MS_def or_default_def int4_def update_key_def)

end
