(* ===== verification/KeyProps.thy ===== *)
theory KeyProps
  imports Quota
begin

text \<open>
  What a minted key opens: the text shown once at its creation, presented as a bearer token, is exactly
  its owner's key, for reading only, until it is revoked. The witness of the quota is here too.
\<close>

section \<open>The shape of a key\<close>

lemma of_char_b64_char: "n < 64 \<Longrightarrow> (of_char (b64_char n) :: nat) =
    (if n < 26 then 65 + n else if n < 52 then 71 + n else if n < 62 then n - 4 else if n = 62 then 45 else 95)"
  by (auto simp: b64_char_def of_char_of)

lemma secret_char_b64 [simp]: "n < 64 \<Longrightarrow> secret_char (b64_char n)"
  by (simp add: secret_char_def of_char_b64_char Let_def; linarith)

lemma base64url_secret: "\<forall>b \<in> set bs. b < 256 \<Longrightarrow> list_all secret_char (base64url bs)"
proof (induction bs rule: base64url.induct)
  case (2 a)
  then show ?case using byte_sextets [of a 0 0] by simp
next
  case (3 a b)
  then show ?case using byte_sextets [of a b 0] by simp
next
  case (4 a b c bs)
  then show ?case using byte_sextets [of a b c] by simp
qed simp

lemma length_base64url: "length bs \<le> length (base64url bs)"
  by (induction bs rule: base64url.induct) auto

lemma secret_char_facts:
  "secret_char c \<Longrightarrow> \<not> is_space c" "key_char c \<Longrightarrow> c \<noteq> CHR ''_''" "\<not> key_char (CHR ''_'')"
  by (auto simp: secret_char_def key_char_def is_space_def Let_def)

lemma key_trim_id: "s \<noteq> [] \<Longrightarrow> \<not> is_space (hd s) \<Longrightarrow> \<not> is_space (last s) \<Longrightarrow> trim s = s"
proof -
  assume s: "s \<noteq> []" "\<not> is_space (hd s)" "\<not> is_space (last s)"
  have "dropWhile is_space t = t" if "t \<noteq> []" "\<not> is_space (hd t)" for t
    using that by (cases t) auto
  from this [of s] this [of "rev s"] show ?thesis using s by (simp add: trim_def hd_rev)
qed

definition key_text :: "bool \<Rightarrow> string \<Rightarrow> string \<Rightarrow> string" where
  "key_text production prefix secret =
     ''gth_'' @ (if production then ''live'' else ''test'') @ ''_'' @ prefix @ ''_'' @ secret"

lemma key_text_trim: "secret \<noteq> [] \<Longrightarrow> list_all secret_char secret \<Longrightarrow> trim (key_text production p secret) = key_text production p secret"
proof (rule key_trim_id)
  assume s: "secret \<noteq> []" "list_all secret_char secret"
  then have "secret_char (last secret)" by (simp add: list_all_iff)
  then show "\<not> is_space (last (key_text production p secret))" using s(1) by (simp add: key_text_def secret_char_facts)
qed (simp_all add: key_text_def is_space_def)

text \<open>The pattern takes a key apart, and takes none whose prefix is short.\<close>

lemma key_text_pattern:
  assumes p: "length p \<le> 8" "list_all key_char p"
    and s: "32 \<le> length secret" "list_all secret_char secret"
  shows "API_KEY_PATTERN (key_text production p secret) = (if length p = 8 then Some (p, secret) else None)"
proof -
  let ?h = "''gth_'' @ (if production then ''live'' else ''test'') @ ''_''"
  have h: "length ?h = 9" "?h = ''gth_live_'' \<or> ?h = ''gth_test_''" by (cases production; simp)+
  have k: "key_text production p secret = ?h @ p @ ''_'' @ secret" by (simp add: key_text_def)
  have parts: "take 9 (key_text production p secret) = ?h" "drop 9 (key_text production p secret) = p @ ''_'' @ secret"
    by (cases production; simp add: key_text_def)+
  have d: "drop (9 + n) (key_text production p secret) = drop n (p @ ''_'' @ secret)" for n
    using parts(2) by (simp only: drop_drop [symmetric] add.commute [of 9])
  show ?thesis
  proof (cases "length p = 8")
    case True
    have "drop 17 (key_text production p secret) = ''_'' @ secret" "drop 18 (key_text production p secret) = secret"
      using d [of 8] d [of 9] True by simp_all
    then show ?thesis using True parts h p s by (auto simp: API_KEY_PATTERN_def Let_def)
  next
    case False
    with p(1) have "length p < 8" by simp
    then have "CHR ''_'' \<in> set (take 8 (drop 9 (key_text production p secret)))"
      unfolding parts(2) by (cases "8 - length p") auto
    then have "\<not> list_all key_char (take 8 (drop 9 (key_text production p secret)))"
      using secret_char_facts(3) by (auto simp: list_all_iff)
    then show ?thesis using False by (simp add: API_KEY_PATTERN_def Let_def)
  qed
qed

lemma minted_shape:
  assumes "mintKeyMaterial production r16 r32 = Inr m" "length r32 = 32" "\<forall>b \<in> set r32. b < 256"
  shows "length (kmPrefix m) \<le> 8" "list_all key_char (kmPrefix m)" "32 \<le> length (kmSecret m)"
    "list_all secret_char (kmSecret m)" "kmPlaintext m = key_text production (kmPrefix m) (kmSecret m)"
proof -
  have "list_all key_char (take 8 (filter key_char t))" for t by (auto simp: list_all_iff dest: in_set_takeD)
  then show "length (kmPrefix m) \<le> 8" "list_all key_char (kmPrefix m)" "32 \<le> length (kmSecret m)"
    "list_all secret_char (kmSecret m)" "kmPlaintext m = key_text production (kmPrefix m) (kmSecret m)"
    using assms base64url_secret [of r32] length_base64url [of r32]
    by (auto simp: mintKeyMaterial_def Let_def key_text_def generateToken_def split: if_splits)
qed

section \<open>Creating, presenting, revoking\<close>

lemma created_user_key:
  assumes "createUserApiKey newId now r16 r32 owner name scopes pepper production db = Inr ((s, plain), db')"
  obtains m h where "mintKeyMaterial production r16 r32 = Inr m" "hashToken (kmSecret m) pepper = Inr h"
    "plain = kmPlaintext m" "asPrefix s = kmPrefix m" "asId s = newId" "set (asScopes s) = set scopes"
    "asTier s = ''free''" "set scopes \<subseteq> set SELF_SERVE_SCOPES"
    "kmPrefix m \<notin> akPrefix ` set (kdKeys db)" "newId \<notin> akId ` set (kdKeys db)"
    "kdKeys db' = kdKeys db @ [blank_key newId now (Some owner) (trim name) (kmPrefix m) h (asScopes s)]"
  using assms
  by (auto simp: createUserApiKey_def Let_def summaryColumns_def blank_key_def insert_key_def
      split: if_splits sum.splits option.splits)

lemma find_absent_prefix: "p \<notin> akPrefix ` set ks \<Longrightarrow> find (\<lambda>k. akPrefix k = p \<and> akRevokedAt k = None) ks = None"
  by (auto simp: find_None_iff)

lemma find_absent_revoked:
  "p \<notin> akPrefix ` set ks \<Longrightarrow>
   find (\<lambda>k. akPrefix k = p \<and> akRevokedAt k = None) (map (\<lambda>k. if P k then k\<lparr>akRevokedAt := Some t\<rparr> else k) ks) = None"
  by (auto simp: find_None_iff)

lemma find_append: "find P (xs @ ys) = (case find P xs of None \<Rightarrow> find P ys | Some x \<Rightarrow> Some x)"
  by (induction xs) auto

definition key_opens :: "string \<Rightarrow> ApiKeySummary \<Rightarrow> AuthenticatedKey" where
  "key_opens owner s =
     \<lparr>kaId = asId s, kaPrefix = asPrefix s, kaScopes = asScopes s, kaTier = asTier s, kaOwnerId = Some owner\<rparr>"

text \<open>The text shown when a person creates a key, presented as a bearer token, opens exactly that key
  of that person when its prefix has its eight characters and nothing otherwise; the key never carries the
  scope to write; and once its owner has revoked it the text is refused.\<close>

theorem minted_keys_open_their_account:
  assumes "createUserApiKey newId now r16 r32 owner name scopes pepper production db = Inr ((s, plain), db')"
    and "length r32 = 32" "\<forall>b \<in> set r32. b < 256"
  shows "authenticateApiKey (Some (''Bearer '' @ plain)) pepper stamped t db'
       = (if length (asPrefix s) = 8
          then (Inr (Some (key_opens owner s)), if stamped then touchApiKey newId t db' else db')
          else (Inl (ApiKeyError 401 ''invalid_api_key''), db'))
    \<and> requireScope (Some (key_opens owner s)) IngestWrite = Some (ApiKeyError 403 ''insufficient_scope'')
    \<and> fst (revokeUserApiKey owner newId t db')
    \<and> fst (authenticateApiKey (Some (''Bearer '' @ plain)) pepper stamped t' (snd (revokeUserApiKey owner newId t db')))
       = Inl (ApiKeyError 401 ''invalid_api_key'')"
proof -
  obtain m h where m: "mintKeyMaterial production r16 r32 = Inr m" "hashToken (kmSecret m) pepper = Inr h"
    "plain = kmPlaintext m" "asPrefix s = kmPrefix m" "asId s = newId" "set (asScopes s) = set scopes"
    "asTier s = ''free''" "set scopes \<subseteq> set SELF_SERVE_SCOPES"
    "kmPrefix m \<notin> akPrefix ` set (kdKeys db)" "newId \<notin> akId ` set (kdKeys db)"
    "kdKeys db' = kdKeys db @ [blank_key newId now (Some owner) (trim name) (kmPrefix m) h (asScopes s)]"
    using assms(1) by (rule created_user_key)
  note shape = minted_shape [OF m(1) assms(2,3)]
  have "kmSecret m \<noteq> []" using shape(3) by auto
  then have pat: "API_KEY_PATTERN (trim (drop 7 (''Bearer '' @ plain)))
      = (if length (kmPrefix m) = 8 then Some (kmPrefix m, kmSecret m) else None)"
    using key_text_trim key_text_pattern [OF shape(1-4)] shape m(3) by simp
  have bearer: "starts_with ''Bearer '' (''Bearer '' @ plain)" by (simp add: starts_with_def)
  have found: "findActiveApiKey (kmPrefix m) db'
      = Some (blank_key newId now (Some owner) (trim name) (kmPrefix m) h (asScopes s))"
    using find_absent_prefix [OF m(9)] by (simp add: findActiveApiKey_def m(11) find_append blank_key_def)
  have gone: "findActiveApiKey (kmPrefix m) (snd (revokeUserApiKey owner newId t db')) = None"
    using find_absent_revoked [OF m(9)]
    by (simp add: findActiveApiKey_def revokeUserApiKey_def revoke_where_def Let_def m(11) find_append blank_key_def)
  have "IngestWrite \<notin> set (asScopes s)" using m(6,8) by (auto simp: SELF_SERVE_SCOPES_def)
  moreover have "fst (revokeUserApiKey owner newId t db')"
    by (simp add: revokeUserApiKey_def revoke_where_def Let_def m(11) blank_key_def)
  ultimately show ?thesis
    using bearer pat found gone m(2,4,5,7)
    by (simp add: authenticateApiKey_def requireScope_def key_opens_def blank_key_def safeEqual_eq)
qed

text \<open>A key whose bytes give eight characters, and one whose bytes give only one.\<close>

definition demo_key_db :: key_db where "demo_key_db = \<lparr>kdUsers = [''u''], kdKeys = []\<rparr>"

lemma demo_mint:
  "mintKeyMaterial True (replicate 16 1) (replicate 32 1) \<noteq> Inl TokenTooShort"
  "case mintKeyMaterial True (replicate 16 1) (replicate 32 1) of Inr m \<Rightarrow> kmPrefix m = ''aqebaqeb'' | Inl _ \<Rightarrow> False"
  "case mintKeyMaterial True (replicate 16 255) (replicate 32 1) of Inr m \<Rightarrow> kmPrefix m = ''w'' | Inl _ \<Rightarrow> False"
  by code_simp+

lemma demo_key_created:
  assumes "mintKeyMaterial True r16 r32 = Inr m"
  shows "\<exists>s plain db'. createUserApiKey ''i'' 0 r16 r32 ''u'' ''n'' [PricesRead] (replicate 32 CHR ''x'') True demo_key_db
           = Inr ((s, plain), db') \<and> asPrefix s = kmPrefix m"
proof -
  obtain h where h: "hashToken (kmSecret m) (replicate 32 CHR ''x'') = Inr h"
    by (simp add: hashToken_def MIN_PEPPER_LENGTH_def)
  have n: "trim ''n'' = ''n''" "not_blank ''n''" by code_simp+
  show ?thesis
    by (simp add: createUserApiKey_def Let_def SELF_SERVE_SCOPES_def MAX_KEYS_PER_USER_def demo_key_db_def assms h n
        insert_key_def key_insert_allowed_def blank_key_def key_checks_def summaryColumns_def)
qed

theorem minted_keys_open_their_account_witness:
  "\<exists>s plain db'. createUserApiKey ''i'' 0 (replicate 16 1) (replicate 32 1) ''u'' ''n'' [PricesRead]
        (replicate 32 CHR ''x'') True demo_key_db = Inr ((s, plain), db')
     \<and> authenticateApiKey (Some (''Bearer '' @ plain)) (replicate 32 CHR ''x'') False 5 db'
       = (Inr (Some (key_opens ''u'' s)), db')"
proof -
  obtain m where m: "mintKeyMaterial True (replicate 16 1) (replicate 32 1) = Inr m" "kmPrefix m = ''aqebaqeb''"
    using demo_mint(2) by (auto split: sum.splits)
  obtain s plain db' where c: "createUserApiKey ''i'' 0 (replicate 16 1) (replicate 32 1) ''u'' ''n'' [PricesRead]
      (replicate 32 CHR ''x'') True demo_key_db = Inr ((s, plain), db')" "asPrefix s = kmPrefix m"
    using demo_key_created [OF m(1)] by blast
  show ?thesis
    using minted_keys_open_their_account [OF c(1), of False 5 5] c m(2) by auto
qed

lemma a_short_prefix_opens_nothing:
  "\<exists>m. mintKeyMaterial True (replicate 16 255) (replicate 32 1) = Inr m \<and> API_KEY_PATTERN (kmPlaintext m) = None"
proof -
  obtain m where m: "mintKeyMaterial True (replicate 16 255) (replicate 32 1) = Inr m" "kmPrefix m = ''w''"
    using demo_mint(3) by (auto split: sum.splits)
  have "API_KEY_PATTERN (kmPlaintext m) = None"
    using minted_shape [OF m(1)] key_text_pattern [of "kmPrefix m" "kmSecret m" True] m(2) by simp
  with m show ?thesis by blast
qed

section \<open>A counted request\<close>

text \<open>C30: However often the process restarts, and whatever is done to the keys meanwhile, a key is let
  through at most a thousand times in a UTC day, as long as the table answers.\<close>

theorem daily_quota_survives_restarts:
  assumes "quota_reachable w"
  shows "int (admitted_of (qwAdmitted w) i day) \<le> perDay FREE_TIER_LIMITS"
proof (cases "i \<in> akId ` set (kdKeys (qwDb w))")
  case True
  then show ?thesis using quota_reachable_inv [OF assms] by (auto simp: quota_inv_def key_counted_def)
next
  case False
  then have "i \<notin> fst ` set (qwAdmitted w)" using quota_reachable_inv [OF assms] by (auto simp: quota_inv_def)
  then show ?thesis by (simp add: admitted_of_absent FREE_TIER_LIMITS_def)
qed

definition demo_quota_key :: ApiKey where
  "demo_quota_key = blank_key ''k'' 0 None ''n'' ''p'' ''h'' [PricesRead]"

definition demo_quota :: "key_db \<Rightarrow> quota_world" where
  "demo_quota db = \<lparr>qwStore = quota_reset, qwDb = db, qwNow = 0, qwAdmitted = []\<rparr>"

definition demo_asked :: "QuotaDecision option \<times> QuotaStore \<times> key_db" where
  "demo_asked = quota_hook True True
     (Some \<lparr>kaId = ''k'', kaPrefix = ''p'', kaScopes = [PricesRead], kaTier = ''free'', kaOwnerId = None\<rparr>) 0
     (quota_reset, \<lparr>kdUsers = [], kdKeys = [demo_quota_key]\<rparr>)"

theorem daily_quota_survives_restarts_witness:
  "\<exists>w. quota_reachable w \<and> qwAdmitted w = [(''k'', 0)] \<and> int (admitted_of (qwAdmitted w) ''k'' 0) \<le> perDay FREE_TIER_LIMITS"
proof -
  let ?db = "\<lparr>kdUsers = [], kdKeys = [demo_quota_key]\<rparr>"
  have n: "not_blank ''n''" by code_simp
  have "createApiKey ''k'' 0 ''n'' ''p'' ''h'' [PricesRead] \<lparr>kdUsers = [], kdKeys = []\<rparr> = Inr ?db"
    by (simp add: createApiKey_def insert_key_def key_insert_allowed_def key_checks_def n
        blank_key_def demo_quota_key_def)
  then have one: "quota_step (demo_quota \<lparr>kdUsers = [], kdKeys = []\<rparr>) (demo_quota ?db)"
    using quota_step.create_first_party [of "''k''" "demo_quota \<lparr>kdUsers = [], kdKeys = []\<rparr>" "''n''" "''p''" "''h''" "[PricesRead]" ?db]
    by (simp add: demo_quota_def)
  obtain d store db where ask: "demo_asked = (Some d, store, db)" "qdAllowed d"
    by (simp add: demo_asked_def quota_hook_def quota_count_def bump_def quota_reset_def TIERS_def FREE_TIER_LIMITS_def
        decide_def Let_def consumeApiKeyQuota_def counted_key_def demo_quota_key_def blank_key_def utc_day_def UTC_DAY_MS_def
        or_default_def int4_def)
  let ?w = "demo_quota ?db\<lparr>qwStore := store, qwDb := db, qwAdmitted := [(''k'', 0)]\<rparr>"
  let ?k = "\<lparr>kaId = ''k'', kaPrefix = ''p'', kaScopes = [PricesRead], kaTier = ''free'', kaOwnerId = None\<rparr>"
  have w: "qwStore (demo_quota ?db) = quota_reset" "qwDb (demo_quota ?db) = ?db" "qwNow (demo_quota ?db) = 0"
    "qwAdmitted (demo_quota ?db) = []" by (simp_all add: demo_quota_def)
  have demo_row: "akId demo_quota_key = ''k''" "akQuotaUsed demo_quota_key = 0" by (simp_all add: demo_quota_key_def blank_key_def)
  have hook: "quota_hook True True (Some ?k) (qwNow (demo_quota ?db)) (qwStore (demo_quota ?db), qwDb (demo_quota ?db))
      = (Some d, store, db)" using ask(1) unfolding w demo_asked_def .
  have "quota_step (demo_quota ?db) ?w"
    using quota_step.request [OF hook] ask(2) demo_row by (simp add: w)
  then have "quota_step\<^sup>*\<^sup>* (demo_quota \<lparr>kdUsers = [], kdKeys = []\<rparr>) ?w" by (rule rtranclp.rtrancl_into_rtrancl [OF r_into_rtranclp [of quota_step, OF one]])
  then have "quota_reachable ?w"
    unfolding quota_reachable_def by (intro exI [of _ "demo_quota \<lparr>kdUsers = [], kdKeys = []\<rparr>"]) (simp add: quota_start_def demo_quota_def)
  from daily_quota_survives_restarts [OF this, of "''k''" 0] this show ?thesis by (intro exI [of _ ?w]) simp
qed

end
