(* ===== verification/BreakRoutes.thy ===== *)
theory BreakRoutes
  imports BreakMachine MarketRoutes Csv
begin

text \<open>
  The request handlers of a break (\<open>apps/api/src/routes/breaks.ts\<close>): creating it, its states, packs
  and VOD link, its pull log and evidence, commit and reveal, the public view and its export, the
  overlay's token and its streams. A handler takes the subject, the parsed request, what the platform
  draws and the store; \<open>deps\<close> holds the two format checks of the schema library, the URL parser and
  printer, the cipher, the key ring and the pepper.
\<close>

section \<open>What the handlers are given\<close>

record break_deps =
  bdUuid :: "string \<Rightarrow> bool"
  bdUrl :: "string \<Rightarrow> bool"
  bdHref :: "url \<Rightarrow> string"
  bdPlatform :: platform
  bdPepper :: string
  bdFairness :: bool

type_synonym break_api = "break_db \<times> AuditEntry list"

definition break_audit :: "string \<Rightarrow> string \<Rightarrow> string \<Rightarrow> break_api \<Rightarrow> break_api" where
  "break_audit actor action target s = (fst s, snd s @ [user_audit actor action ''break'' target])"

definition OVERLAY_TOKEN_BYTES :: nat where "OVERLAY_TOKEN_BYTES = 32"

text \<open>\<open>z.int().min(lo).max(hi)\<close> and \<open>z.string().trim().min(1).max(n)\<close>.\<close>

definition z_between :: "int \<Rightarrow> int \<Rightarrow> jsnum \<Rightarrow> bool" where
  "z_between lo hi n \<longleftrightarrow> is_integer n \<and> lo \<le> to_int n \<and> to_int n \<le> hi"

definition z_trimmed :: "nat \<Rightarrow> string \<Rightarrow> bool" where
  "z_trimmed n s \<longleftrightarrow> 1 \<le> length (trim s) \<and> length (trim s) \<le> n"

definition z_https :: "break_deps \<Rightarrow> string \<Rightarrow> bool" where
  "z_https deps l \<longleftrightarrow> bdUrl deps l \<and> starts_with ''https://'' l \<and> length l \<le> 500"

definition z_opt :: "('a \<Rightarrow> bool) \<Rightarrow> 'a option \<Rightarrow> bool" where
  "z_opt P x = (case x of None \<Rightarrow> True | Some y \<Rightarrow> P y)"

record create_break_body =
  cyTitle :: string
  cySealedProductId :: "string option"
  cyCostCents :: "jsnum option"

definition createBreakSchema :: "break_deps \<Rightarrow> create_break_body \<Rightarrow> bool" where
  "createBreakSchema deps body \<longleftrightarrow>
     z_trimmed 120 (cyTitle body) \<and> z_opt (bdUuid deps) (cySealedProductId body)
     \<and> z_opt (z_between 0 100000000) (cyCostCents body)"

record pull_body =
  pyCardVariantId :: "string option"
  pyLabel :: "string option"
  pyValueCentsAtPull :: "jsnum option"

definition pullSchema :: "break_deps \<Rightarrow> pull_body \<Rightarrow> bool" where
  "pullSchema deps body \<longleftrightarrow>
     z_opt (bdUuid deps) (pyCardVariantId body) \<and> z_opt (z_trimmed 120) (pyLabel body)
     \<and> z_opt (z_between 0 100000000) (pyValueCentsAtPull body)
     \<and> ((case pyCardVariantId body of None \<Rightarrow> False | Some c \<Rightarrow> c \<noteq> [])
        \<or> (case pyLabel body of None \<Rightarrow> False | Some l \<Rightarrow> trim l \<noteq> []))"

definition packsSchema :: "jsnum option \<Rightarrow> bool" where
  "packsSchema n \<longleftrightarrow> z_opt (z_between 1 5000) n"

definition vodSchema :: "break_deps \<Rightarrow> string option \<Rightarrow> bool" where
  "vodSchema deps l \<longleftrightarrow> z_opt (z_https deps) l"

record evidence_body =
  eyOffsetSeconds :: "jsnum option"
  eyAt :: "string option"
  eyVodUrl :: "string option"

definition evidenceSchema :: "break_deps \<Rightarrow> evidence_body \<Rightarrow> bool" where
  "evidenceSchema deps body \<longleftrightarrow>
     z_opt (z_between 0 86400) (eyOffsetSeconds body) \<and> z_opt (z_trimmed 20) (eyAt body)
     \<and> z_opt (z_https deps) (eyVodUrl body)
     \<and> ((eyOffsetSeconds body = None) \<noteq> (eyAt body = None))"

definition statusBody :: "BreakStatus \<Rightarrow> bool" where
  "statusBody st \<longleftrightarrow> st = Live \<or> st = Ended"

definition commitSchema :: "jsnum \<Rightarrow> bool" where "commitSchema n \<longleftrightarrow> z_between 2 1000 n"
definition clientSeedSchema :: "string \<Rightarrow> bool" where "clientSeedSchema s \<longleftrightarrow> z_trimmed 200 s"

definition tokenParamSchema :: "string \<Rightarrow> bool" where
  "tokenParamSchema t \<longleftrightarrow> 20 \<le> length t \<and> length t \<le> 200"

text \<open>Which class an error of the queries has; the central handler answers a missing reference.\<close>

definition is_limit_error :: "break_error \<Rightarrow> bool" where
  "is_limit_error e \<longleftrightarrow> e \<in> {BreakLimit, PullLimit, PackLimit}"

definition is_state_error :: "break_error \<Rightarrow> bool" where
  "is_state_error e \<longleftrightarrow>
     (case e of
        BreakNotFound \<Rightarrow> True | BreakNotLive \<Rightarrow> True | BadTransition _ _ \<Rightarrow> True | BadPackCount \<Rightarrow> True
      | BadOffset \<Rightarrow> True | OffsetTooLarge \<Rightarrow> True | VodNotHttps \<Rightarrow> True | PullNotFound \<Rightarrow> True | _ \<Rightarrow> False)"

definition uncaught_break_error :: "break_error \<Rightarrow> reply" where
  "uncaught_break_error e = (if e \<in> {MissingProduct, MissingCard} then not_found else internal_error)"

definition is_commitment_error :: "commitment_error \<Rightarrow> bool" where
  "is_commitment_error e \<longleftrightarrow>
     e \<in> {CommitBreakNotFound, CommitTooLate, AlreadyCommitted, BadClientSeed, NoOpenCommitment,
          RevealTooEarly, NotCommitted, ClientSeedMissing}"

section \<open>Breaks\<close>

text \<open>A break without its token's hash.\<close>

record break_view =
  bvId :: string
  bvTitle :: string
  bvStatus :: BreakStatus
  bvSealedProductId :: "string option"
  bvCostCents :: "int option"
  bvPacksOpened :: "int option"
  bvVodUrl :: "string option"
  bvOverlayTokenVersion :: int
  bvStartedAt :: "int option"
  bvEndedAt :: "int option"

definition withoutTokenHash :: "Break \<Rightarrow> break_view" where
  "withoutTokenHash b =
     \<lparr>bvId = bId b, bvTitle = bTitle b, bvStatus = bStatus b, bvSealedProductId = bSealedProductId b,
      bvCostCents = bCostCents b, bvPacksOpened = bPacksOpened b, bvVodUrl = bVodUrl b,
      bvOverlayTokenVersion = bOverlayTokenVersion b, bvStartedAt = bStartedAt b, bvEndedAt = bEndedAt b\<rparr>"

definition getBreaks :: "Subject option \<Rightarrow> break_api \<Rightarrow> reply \<times> break_view list" where
  "getBreaks subject s =
     (case subject of
        None \<Rightarrow> (unauthenticated, [])
      | Some u \<Rightarrow>
          if authorize subject BreakRead None \<noteq> None then (forbidden, [])
          else (Reply 200 ''ok'', map withoutTokenHash (listBreaks (subUserId u) (fst s))))"

definition postBreak ::
  "break_deps \<Rightarrow> Subject option \<Rightarrow> create_break_body \<Rightarrow> bytes \<Rightarrow> string \<Rightarrow> int \<Rightarrow> break_api
     \<Rightarrow> reply \<times> string option \<times> break_api" where
  "postBreak deps subject body random newId now s =
     (case subject of
        None \<Rightarrow> (unauthenticated, None, s)
      | Some u \<Rightarrow>
          if authorize subject BreakWrite None \<noteq> None then (forbidden, None, s)
          else if \<not> createBreakSchema deps body then (invalid_request, None, s)
          else case generateToken OVERLAY_TOKEN_BYTES random of
            Inl _ \<Rightarrow> (internal_error, None, s)
          | Inr token \<Rightarrow>
            case hashToken token (bdPepper deps) of
              Inl _ \<Rightarrow> (internal_error, None, s)
            | Inr h \<Rightarrow>
              case createBreak (subUserId u)
                     \<lparr>cbTitle = trim (cyTitle body), cbSealedProductId = cySealedProductId body,
                      cbCostCents = map_option to_int (cyCostCents body), cbOverlayTokenHash = h\<rparr> newId now (fst s) of
                Inl e \<Rightarrow> (if is_limit_error e then Reply 409 ''break_limit_reached'' else uncaught_break_error e, None, s)
              | Inr (row, db') \<Rightarrow>
                  (Reply 201 ''created'', Some token,
                   break_audit (subUserId u) ''break.created'' (bId row) (db', snd s)))"

definition break_status_name :: "BreakStatus \<Rightarrow> string" where
  "break_status_name st = (case st of BreakDraft \<Rightarrow> ''draft'' | Live \<Rightarrow> ''live'' | Ended \<Rightarrow> ''ended'')"

definition postBreakStatus ::
  "break_deps \<Rightarrow> Subject option \<Rightarrow> string \<Rightarrow> BreakStatus \<Rightarrow> int \<Rightarrow> break_api \<Rightarrow> reply \<times> break_api" where
  "postBreakStatus deps subject k st now s =
     (case subject of
        None \<Rightarrow> (unauthenticated, s)
      | Some u \<Rightarrow>
          if authorize subject BreakWrite None \<noteq> None then (forbidden, s)
          else if \<not> bdUuid deps k then (invalid_request, s)
          else if \<not> statusBody st then (invalid_request, s)
          else case setBreakStatus (subUserId u) k st now (fst s) of
            Inl e \<Rightarrow> (if is_state_error e then Reply 409 ''invalid_transition'' else uncaught_break_error e, s)
          | Inr (row, db') \<Rightarrow>
              (Reply 200 ''ok'',
               break_audit (subUserId u) (''break.'' @ break_status_name st) (bId row) (db', snd s)))"

definition postPacks ::
  "break_deps \<Rightarrow> Subject option \<Rightarrow> string \<Rightarrow> jsnum option \<Rightarrow> int \<Rightarrow> break_api \<Rightarrow> reply \<times> break_api" where
  "postPacks deps subject k n now s =
     (case subject of
        None \<Rightarrow> (unauthenticated, s)
      | Some u \<Rightarrow>
          if authorize subject BreakWrite None \<noteq> None then (forbidden, s)
          else if \<not> bdUuid deps k then (invalid_request, s)
          else if \<not> packsSchema n then (invalid_request, s)
          else case setPacksOpened (subUserId u) k n now (fst s) of
            Inl e \<Rightarrow>
              (if is_limit_error e then Reply 409 ''pack_count_too_high''
               else if is_state_error e then not_found else uncaught_break_error e, s)
          | Inr (row, db') \<Rightarrow>
              (Reply 200 ''ok'', break_audit (subUserId u) ''break.packs_recorded'' (bId row) (db', snd s)))"

definition postVod ::
  "break_deps \<Rightarrow> Subject option \<Rightarrow> string \<Rightarrow> string option \<Rightarrow> int \<Rightarrow> break_api \<Rightarrow> reply \<times> break_api" where
  "postVod deps subject k l now s =
     (case subject of
        None \<Rightarrow> (unauthenticated, s)
      | Some u \<Rightarrow>
          if authorize subject BreakWrite None \<noteq> None then (forbidden, s)
          else if \<not> bdUuid deps k then (invalid_request, s)
          else if \<not> vodSchema deps l then (invalid_request, s)
          else case setBreakVodUrl (pfParseUrl (bdPlatform deps)) (subUserId u) k l now (fst s) of
            Inl e \<Rightarrow> (if is_state_error e then not_found else uncaught_break_error e, s)
          | Inr (row, db') \<Rightarrow>
              (Reply 200 ''ok'', break_audit (subUserId u) ''break.vod_set'' (bId row) (db', snd s)))"

definition postOverlayToken ::
  "break_deps \<Rightarrow> Subject option \<Rightarrow> string \<Rightarrow> bytes \<Rightarrow> int \<Rightarrow> break_api \<Rightarrow> reply \<times> string option \<times> break_api" where
  "postOverlayToken deps subject k random now s =
     (case subject of
        None \<Rightarrow> (unauthenticated, None, s)
      | Some u \<Rightarrow>
          if authorize subject BreakWrite None \<noteq> None then (forbidden, None, s)
          else if \<not> bdUuid deps k then (invalid_request, None, s)
          else case generateToken OVERLAY_TOKEN_BYTES random of
            Inl _ \<Rightarrow> (internal_error, None, s)
          | Inr token \<Rightarrow>
            case hashToken token (bdPepper deps) of
              Inl _ \<Rightarrow> (internal_error, None, s)
            | Inr h \<Rightarrow>
              case rotateOverlayToken (subUserId u) k h now (fst s) of
                Inl e \<Rightarrow> (if is_state_error e then not_found else uncaught_break_error e, None, s)
              | Inr (row, db') \<Rightarrow>
                  (Reply 200 ''ok'', Some token,
                   break_audit (subUserId u) ''break.overlay_token_rotated'' (bId row) (db', snd s)))"

section \<open>Pulls and their evidence\<close>

record CreatorPull =
  cpuId :: string
  cpuSeq :: int
  cpuLabel :: string
  cpuValueCentsAtPull :: int
  cpuPulledAt :: int
  cpuOffsetSeconds :: "int option"
  cpuVodUrl :: "string option"

definition listPullsForCreator :: "string \<Rightarrow> string \<Rightarrow> break_db \<Rightarrow> CreatorPull list" where
  "listPullsForCreator creatorId breakId db =
     map (\<lambda>p. let ev = find_row pePullId (plId p) (evidenceRows db) in
        \<lparr>cpuId = plId p, cpuSeq = plSeq p, cpuLabel = pull_label db p, cpuValueCentsAtPull = plValueCents p,
         cpuPulledAt = plPulledAt p, cpuOffsetSeconds = map_option peOffsetSeconds ev,
         cpuVodUrl = (case ev of None \<Rightarrow> None | Some e \<Rightarrow> peVodUrl e)\<rparr>)
       (filter (\<lambda>p. case find_row bId (plBreakId p) (breakRows db) of None \<Rightarrow> False | Some b \<Rightarrow> bCreatorId b = creatorId)
          (select_pulls (Person creatorId) breakId db))"

definition getPulls :: "break_deps \<Rightarrow> Subject option \<Rightarrow> string \<Rightarrow> break_api \<Rightarrow> reply \<times> CreatorPull list" where
  "getPulls deps subject k s =
     (case subject of
        None \<Rightarrow> (unauthenticated, [])
      | Some u \<Rightarrow>
          if authorize subject BreakRead None \<noteq> None then (forbidden, [])
          else if \<not> bdUuid deps k then (not_found, [])
          else (Reply 200 ''ok'', listPullsForCreator (subUserId u) k (fst s)))"

definition postPull ::
  "break_deps \<Rightarrow> Subject option \<Rightarrow> string \<Rightarrow> pull_body \<Rightarrow> string \<Rightarrow> int \<Rightarrow> int \<Rightarrow> break_api \<Rightarrow> reply \<times> break_api" where
  "postPull deps subject k body newId now today s =
     (case subject of
        None \<Rightarrow> (unauthenticated, s)
      | Some u \<Rightarrow>
          if authorize subject BreakWrite None \<noteq> None then (forbidden, s)
          else if \<not> bdUuid deps k then (invalid_request, s)
          else if \<not> pullSchema deps body then (invalid_request, s)
          else case logPull (subUserId u) k
                 \<lparr>lpCardVariantId = pyCardVariantId body, lpLabel = map_option trim (pyLabel body),
                  lpValueCentsAtPull = map_option to_int (pyValueCentsAtPull body)\<rparr> newId now today (fst s) of
            Inl e \<Rightarrow>
              (if is_limit_error e then Reply 409 ''pull_limit_reached''
               else if is_state_error e then Reply 409 ''break_not_live'' else uncaught_break_error e, s)
          | Inr (row, db') \<Rightarrow> (Reply 201 ''created'', (db', snd s)))"

text \<open>The offset of a body that passed the schema: given in seconds, or as a person types it.\<close>

definition evidence_offset :: "evidence_body \<Rightarrow> jsnum option" where
  "evidence_offset body =
     (case eyOffsetSeconds body of
        Some n \<Rightarrow> Some n
      | None \<Rightarrow> (case eyAt body of None \<Rightarrow> None | Some t \<Rightarrow> map_option int_num (parseDurationToSeconds (trim t))))"

definition putEvidence ::
  "break_deps \<Rightarrow> Subject option \<Rightarrow> string \<Rightarrow> evidence_body \<Rightarrow> string \<Rightarrow> int \<Rightarrow> break_api \<Rightarrow> reply \<times> break_api" where
  "putEvidence deps subject p body newId now s =
     (case subject of
        None \<Rightarrow> (unauthenticated, s)
      | Some u \<Rightarrow>
          if authorize subject BreakWrite None \<noteq> None then (forbidden, s)
          else if \<not> bdUuid deps p then (not_found, s)
          else if \<not> evidenceSchema deps body then (invalid_request, s)
          else case evidence_offset body of
            None \<Rightarrow> (invalid_request, s)
          | Some n \<Rightarrow>
            case setPullEvidence (pfParseUrl (bdPlatform deps)) (subUserId u) p
                   \<lparr>eiOffsetSeconds = n, eiVodUrl = eyVodUrl body\<rparr> newId now (fst s) of
              Inl e \<Rightarrow> (if is_state_error e then not_found else uncaught_break_error e, s)
            | Inr db' \<Rightarrow> (Reply 200 ''ok'', (db', snd s)))"

definition deleteEvidence :: "break_deps \<Rightarrow> Subject option \<Rightarrow> string \<Rightarrow> break_api \<Rightarrow> reply \<times> break_api" where
  "deleteEvidence deps subject p s =
     (case subject of
        None \<Rightarrow> (unauthenticated, s)
      | Some u \<Rightarrow>
          if authorize subject BreakWrite None \<noteq> None then (forbidden, s)
          else if \<not> bdUuid deps p then (not_found, s)
          else case clearPullEvidence (subUserId u) p (fst s) of
            (removed, db') \<Rightarrow> (if removed then Reply 204 '''' else not_found, (db', snd s)))"

section \<open>Commit and reveal\<close>

text \<open>Who passes the guard the three routes share; without a key ring the routes do not exist.\<close>

definition fairness_guard :: "break_deps \<Rightarrow> Subject option \<Rightarrow> string \<Rightarrow> reply + string" where
  "fairness_guard deps subject k =
     (if \<not> bdFairness deps then Inl not_found
      else case subject of
        None \<Rightarrow> Inl unauthenticated
      | Some u \<Rightarrow>
          if authorize subject BreakWrite None \<noteq> None then Inl forbidden
          else if \<not> bdUuid deps k then Inl not_found
          else Inr (subUserId u))"

definition commitment_refusal :: "string \<Rightarrow> commitment_error \<Rightarrow> reply" where
  "commitment_refusal tag e = (if is_commitment_error e then Reply 409 tag else internal_error)"

definition postCommit ::
  "break_deps \<Rightarrow> Subject option \<Rightarrow> string \<Rightarrow> jsnum \<Rightarrow> bytes \<Rightarrow> bytes \<Rightarrow> string \<Rightarrow> int \<Rightarrow> break_api
     \<Rightarrow> reply \<times> PublicCommitment option \<times> break_api" where
  "postCommit deps subject k n random iv newId now s =
     (case fairness_guard deps subject k of
        Inl r \<Rightarrow> (r, None, s)
      | Inr u \<Rightarrow>
          if \<not> commitSchema n then (invalid_request, None, s)
          else case commitBreak (pfSeal (bdPlatform deps)) u k (to_int n) (pfRing (bdPlatform deps)) random iv newId now (fst s) of
            Inl e \<Rightarrow> (commitment_refusal ''commit_failed'' e, None, s)
          | Inr (c, db') \<Rightarrow> (Reply 201 ''created'', Some c, break_audit u ''break.committed'' k (db', snd s)))"

definition postClientSeed ::
  "break_deps \<Rightarrow> Subject option \<Rightarrow> string \<Rightarrow> string \<Rightarrow> break_api \<Rightarrow> reply \<times> PublicCommitment option \<times> break_api" where
  "postClientSeed deps subject k clientSeed s =
     (case fairness_guard deps subject k of
        Inl r \<Rightarrow> (r, None, s)
      | Inr u \<Rightarrow>
          if \<not> clientSeedSchema clientSeed then (invalid_request, None, s)
          else case setClientSeed u k (trim clientSeed) (fst s) of
            Inl e \<Rightarrow> (commitment_refusal ''client_seed_failed'' e, None, s)
          | Inr (c, db') \<Rightarrow> (Reply 200 ''ok'', Some c, (db', snd s)))"

text \<open>\<open>None\<close> when the shuffle does not return.\<close>

definition postReveal ::
  "break_deps \<Rightarrow> Subject option \<Rightarrow> string \<Rightarrow> int \<Rightarrow> break_api
     \<Rightarrow> (reply \<times> (PublicCommitment \<times> nat list) option \<times> break_api) option" where
  "postReveal deps subject k now s =
     (case fairness_guard deps subject k of
        Inl r \<Rightarrow> Some (r, None, s)
      | Inr u \<Rightarrow>
          (case revealBreak (pfOpen (bdPlatform deps)) u k (pfRing (bdPlatform deps)) now (fst s) of
             None \<Rightarrow> None
           | Some (Inl e) \<Rightarrow> Some (commitment_refusal ''reveal_failed'' e, None, s)
           | Some (Inr (revealed, db')) \<Rightarrow>
               Some (Reply 200 ''ok'', Some revealed, break_audit u ''break.revealed'' k (db', snd s))))"

section \<open>The public view and its export\<close>

record public_page =
  pgBreak :: PublicBreak
  pgCommitment :: "PublicCommitment option"
  pgChain :: ChainStatus

definition getPublic :: "break_deps \<Rightarrow> string \<Rightarrow> break_api \<Rightarrow> reply \<times> public_page option" where
  "getPublic deps k s =
     (if \<not> bdUuid deps k then (not_found, None)
      else case getPublicBreak (pfParseUrl (bdPlatform deps)) (bdHref deps) Anyone k (fst s) of
        None \<Rightarrow> (not_found, None)
      | Some view \<Rightarrow>
          (Reply 200 ''ok'',
           Some \<lparr>pgBreak = view, pgCommitment = getCommitment Anyone k (fst s), pgChain = checkChain Anyone k (fst s)\<rparr>))"

definition units :: "string \<Rightarrow> utf16" where "units s = map unit s"

definition export_pull_row :: "PublicPull \<Rightarrow> csv_value list" where
  "export_pull_row p =
     [CsvInt (ppSeq p), CsvText (units (ppLabel p)), CsvInt (ppValueCentsAtPull p),
      CsvText (units (toISOString (ppPulledAt p)))]"

datatype export = ExportJson PublicBreak | ExportCsv utf16

definition getExport :: "break_deps \<Rightarrow> string \<Rightarrow> string option \<Rightarrow> break_api \<Rightarrow> reply \<times> export option" where
  "getExport deps k format s =
     (let fmt = or_default ''json'' format in
      if \<not> bdUuid deps k \<or> fmt \<notin> {''csv'', ''json''} then (not_found, None)
      else case getPublicBreak (pfParseUrl (bdPlatform deps)) (bdHref deps) Anyone k (fst s) of
        None \<Rightarrow> (not_found, None)
      | Some view \<Rightarrow>
          if fmt = ''json'' then (Reply 200 ''ok'', Some (ExportJson view))
          else (Reply 200 ''ok'',
                Some (ExportCsv (toCsv (map units [''seq'', ''card'', ''value_cents'', ''pulled_at''])
                  (map export_pull_row (pbPulls view))))))"

section \<open>The overlay's streams\<close>

definition MAX_OVERLAY_CONNECTIONS :: nat where "MAX_OVERLAY_CONNECTIONS = 5"

definition getOverlay :: "break_deps \<Rightarrow> string \<Rightarrow> break_api \<Rightarrow> reply \<times> OverlayState option" where
  "getOverlay deps token s =
     (if \<not> tokenParamSchema token then (not_found, None)
      else case hashToken token (bdPepper deps) of
        Inl _ \<Rightarrow> (internal_error, None)
      | Inr h \<Rightarrow>
        case getOverlayState (pfParseUrl (bdPlatform deps)) (bdHref deps) h (fst s) of
          None \<Rightarrow> (not_found, None)
        | Some st \<Rightarrow> (Reply 200 ''ok'', Some st))"

datatype frame = StateFrame OverlayState | RevokedFrame | ClosingFrame | PingFrame

record overlay_stream =
  ovHash :: string
  ovLastSeq :: int
  ovFrames :: "frame list"
  ovClosed :: bool

text \<open>
  The server's side of all streams: the connections counted per token hash, the streams in the order
  they were opened, and the polls that have read the store and not answered yet, with the stream each
  belongs to. Polls of one stream may overlap.
\<close>

record overlay_server =
  ovCount :: "string \<Rightarrow> nat"
  ovStreams :: "overlay_stream list"
  ovAnswers :: "(nat \<times> OverlayState option) list"

definition no_streams :: overlay_server where
  "no_streams = \<lparr>ovCount = (\<lambda>_. 0), ovStreams = [], ovAnswers = []\<rparr>"

definition newest_seq :: "OverlayState \<Rightarrow> int" where
  "newest_seq st = (if osPulls st = [] then 0 else ppSeq (last (osPulls st)))"

definition overlay_send :: "frame \<Rightarrow> overlay_stream \<Rightarrow> overlay_stream" where
  "overlay_send f t = (if ovClosed t then t else t\<lparr>ovFrames := ovFrames t @ [f]\<rparr>)"

definition at_stream :: "nat \<Rightarrow> (overlay_stream \<Rightarrow> overlay_stream) \<Rightarrow> overlay_server \<Rightarrow> overlay_server" where
  "at_stream i f srv =
     (if i < length (ovStreams srv) then srv\<lparr>ovStreams := (ovStreams srv)[i := f (ovStreams srv ! i)]\<rparr> else srv)"

definition stream_cleanup :: "nat \<Rightarrow> overlay_server \<Rightarrow> overlay_server" where
  "stream_cleanup i srv =
     (if i < length (ovStreams srv) \<and> \<not> ovClosed (ovStreams srv ! i)
      then let h = ovHash (ovStreams srv ! i) in
           at_stream i (\<lambda>t. t\<lparr>ovClosed := True\<rparr>) (srv\<lparr>ovCount := (ovCount srv)(h := ovCount srv h - 1)\<rparr>)
      else srv)"

definition openStream :: "break_deps \<Rightarrow> string \<Rightarrow> break_db \<Rightarrow> overlay_server \<Rightarrow> reply \<times> overlay_server" where
  "openStream deps token db srv =
     (if \<not> tokenParamSchema token then (not_found, srv)
      else case hashToken token (bdPepper deps) of
        Inl _ \<Rightarrow> (internal_error, srv)
      | Inr h \<Rightarrow>
        case getOverlayState (pfParseUrl (bdPlatform deps)) (bdHref deps) h db of
          None \<Rightarrow> (not_found, srv)
        | Some initial \<Rightarrow>
            if ovCount srv h \<ge> MAX_OVERLAY_CONNECTIONS then (Reply 429 ''too_many_connections'', srv)
            else (Reply 200 ''event-stream'',
                  srv\<lparr>ovCount := (ovCount srv)(h := ovCount srv h + 1),
                      ovStreams := ovStreams srv
                        @ [\<lparr>ovHash = h, ovLastSeq = newest_seq initial, ovFrames = [StateFrame initial], ovClosed = False\<rparr>]\<rparr>))"

text \<open>A poll: it reads, unless its timer is gone, and later answers.\<close>

definition poll_read :: "break_deps \<Rightarrow> nat \<Rightarrow> break_db \<Rightarrow> overlay_server \<Rightarrow> overlay_server" where
  "poll_read deps i db srv =
     (if i < length (ovStreams srv) \<and> \<not> ovClosed (ovStreams srv ! i)
      then srv\<lparr>ovAnswers := ovAnswers srv
             @ [(i, getOverlayState (pfParseUrl (bdPlatform deps)) (bdHref deps) (ovHash (ovStreams srv ! i)) db)]\<rparr>
      else srv)"

definition poll_answer :: "nat \<Rightarrow> overlay_server \<Rightarrow> overlay_server" where
  "poll_answer j srv =
     (if j < length (ovAnswers srv)
      then let (i, state) = ovAnswers srv ! j;
               rest = srv\<lparr>ovAnswers := take j (ovAnswers srv) @ drop (j + 1) (ovAnswers srv)\<rparr>
           in case state of
                None \<Rightarrow> stream_cleanup i (at_stream i (overlay_send RevokedFrame) rest)
              | Some st \<Rightarrow>
                  at_stream i (\<lambda>t. if newest_seq st \<noteq> ovLastSeq t
                    then overlay_send (StateFrame st) (t\<lparr>ovLastSeq := newest_seq st\<rparr>) else t) rest
      else srv)"

definition stream_heartbeat :: "nat \<Rightarrow> overlay_server \<Rightarrow> overlay_server" where
  "stream_heartbeat i srv = at_stream i (overlay_send PingFrame) srv"

definition stream_idle :: "nat \<Rightarrow> overlay_server \<Rightarrow> overlay_server" where
  "stream_idle i srv = stream_cleanup i (at_stream i (overlay_send ClosingFrame) srv)"

datatype overlay_event =
    OpenStream string break_db | PollRead nat break_db | PollAnswer nat | Heartbeat nat | IdleTimeout nat | SocketClosed nat

definition overlay_step :: "break_deps \<Rightarrow> overlay_event \<Rightarrow> overlay_server \<Rightarrow> overlay_server" where
  "overlay_step deps e srv =
     (case e of
        OpenStream token db \<Rightarrow> snd (openStream deps token db srv)
      | PollRead i db \<Rightarrow> poll_read deps i db srv
      | PollAnswer j \<Rightarrow> poll_answer j srv
      | Heartbeat i \<Rightarrow> stream_heartbeat i srv
      | IdleTimeout i \<Rightarrow> stream_idle i srv
      | SocketClosed i \<Rightarrow> stream_cleanup i srv)"

definition overlay_run :: "break_deps \<Rightarrow> overlay_event list \<Rightarrow> overlay_server \<Rightarrow> overlay_server" where
  "overlay_run deps es srv = fold (overlay_step deps) es srv"

end
