(* ===== verification/BreakApi.thy ===== *)
theory BreakApi
  imports BreakRoutes BreakProps
begin

text \<open>
  The break handlers as one API: every request is at most one operation of the break machine, run for
  the person who asked, and a refusal changes nothing. The overlay's streams are counted rightly and
  learn nothing once their token is gone.
\<close>

section \<open>Requests\<close>

datatype break_request =
    PostBreak create_break_body nat string int
  | PostBreakStatus string BreakStatus int
  | PostPacks string "jsnum option" int
  | PostVod string "string option" int
  | PostOverlayToken string nat int
  | PostPull string pull_body string int int
  | PutEvidence string evidence_body string int
  | DeleteEvidence string
  | PostCommit string jsnum nat nat string int
  | PostClientSeed string string
  | PostReveal string int

definition break_handle ::
  "break_deps \<Rightarrow> Subject option \<Rightarrow> break_request \<Rightarrow> break_api \<Rightarrow> (reply \<times> break_api) option" where
  "break_handle deps subject req s =
     (case req of
        PostBreak body random newId now \<Rightarrow>
          (case postBreak deps subject body (be_bytes 32 random) newId now s of (r, _, s') \<Rightarrow> Some (r, s'))
      | PostBreakStatus k st now \<Rightarrow> Some (postBreakStatus deps subject k st now s)
      | PostPacks k n now \<Rightarrow> Some (postPacks deps subject k n now s)
      | PostVod k l now \<Rightarrow> Some (postVod deps subject k l now s)
      | PostOverlayToken k random now \<Rightarrow>
          (case postOverlayToken deps subject k (be_bytes 32 random) now s of (r, _, s') \<Rightarrow> Some (r, s'))
      | PostPull k body newId now today \<Rightarrow> Some (postPull deps subject k body newId now today s)
      | PutEvidence p body newId now \<Rightarrow> Some (putEvidence deps subject p body newId now s)
      | DeleteEvidence p \<Rightarrow> Some (deleteEvidence deps subject p s)
      | PostCommit k n random iv newId now \<Rightarrow>
          (case postCommit deps subject k n (be_bytes 32 random) (be_bytes 12 iv) newId now s of (r, _, s') \<Rightarrow> Some (r, s'))
      | PostClientSeed k clientSeed \<Rightarrow>
          (case postClientSeed deps subject k clientSeed s of (r, _, s') \<Rightarrow> Some (r, s'))
      | PostReveal k now \<Rightarrow>
          (case postReveal deps subject k now s of None \<Rightarrow> None | Some (r, _, s') \<Rightarrow> Some (r, s')))"

text \<open>Whose operation it is, and which requests leave an entry in the audit log.\<close>

fun break_actor :: "break_op \<Rightarrow> string" where
  "break_actor (CreateBreak u _ _ _) = u"
| "break_actor (SetBreakStatus u _ _ _) = u"
| "break_actor (SetPacksOpened u _ _ _) = u"
| "break_actor (RotateOverlayToken u _ _ _) = u"
| "break_actor (SetBreakVodUrl u _ _ _) = u"
| "break_actor (LogPull u _ _ _ _ _) = u"
| "break_actor (SetPullEvidence u _ _ _ _) = u"
| "break_actor (ClearPullEvidence u _) = u"
| "break_actor (CommitBreak u _ _ _ _ _ _) = u"
| "break_actor (SetClientSeed u _ _) = u"
| "break_actor (RevealBreak u _ _) = u"

fun audited :: "break_request \<Rightarrow> bool" where
  "audited (PostPull _ _ _ _ _) = False"
| "audited (PutEvidence _ _ _ _) = False"
| "audited (DeleteEvidence _) = False"
| "audited (PostClientSeed _ _) = False"
| "audited _ = True"

definition succeeded :: "reply \<Rightarrow> bool" where
  "succeeded r \<longleftrightarrow> (case r of Reply c _ \<Rightarrow> 200 \<le> c \<and> c < 300)"

definition did_one ::
  "break_deps \<Rightarrow> Subject option \<Rightarrow> bool \<Rightarrow> reply \<Rightarrow> break_api \<Rightarrow> break_api \<Rightarrow> bool" where
  "did_one deps subject audit r s s' \<longleftrightarrow>
     (\<exists>u op. subject = Some u \<and> authorize subject BreakWrite None = None \<and> break_actor op = subUserId u
        \<and> break_step (bdPlatform deps) op (fst s) = Inr (fst s') \<and> succeeded r
        \<and> (\<exists>new. snd s' = snd s @ new \<and> (\<forall>e \<in> set new. auActorId e = Some (subUserId u))
             \<and> length new = (if audit then 1 else 0)))"

lemma did_oneI:
  assumes "authorize (Some u) BreakWrite None = None" "break_actor op = subUserId u"
    "break_step (bdPlatform deps) op (fst s) = Inr db" "succeeded r"
  shows "did_one deps (Some u) True r s (break_audit (subUserId u) action k (db, snd s))"
    "did_one deps (Some u) False r s (db, snd s)"
proof -
  have "snd (break_audit (subUserId u) action k (db, snd s)) = snd s @ [user_audit (subUserId u) action ''break'' k]"
    "fst (break_audit (subUserId u) action k (db, snd s)) = db" by (simp_all add: break_audit_def)
  then show "did_one deps (Some u) True r s (break_audit (subUserId u) action k (db, snd s))"
    unfolding did_one_def using assms
    by (intro exI [of _ u] exI [of _ op] conjI exI [of _ "[user_audit (subUserId u) action ''break'' k]"])
       (simp_all add: user_audit_def)
  show "did_one deps (Some u) False r s (db, snd s)"
    unfolding did_one_def using assms by (intro exI [of _ u] exI [of _ op] conjI exI [of _ "[]"]) simp_all
qed

lemma replies_succeed [simp]: "succeeded (Reply 200 t)" "succeeded (Reply 201 t)" "succeeded (Reply 204 t)"
  by (simp_all add: succeeded_def)

section \<open>Each handler\<close>

lemma postBreak_did:
  "postBreak deps subject body (be_bytes 32 random) newId now s = (r, t, s') \<Longrightarrow> s' = s \<or> did_one deps subject True r s s'"
  by (auto simp: postBreak_def split: option.splits sum.splits if_splits
      intro!: did_oneI(1) [where op = "CreateBreak _ _ _ _"] simp: break_step_def)

lemma postBreakStatus_did:
  "postBreakStatus deps subject k st now s = (r, s') \<Longrightarrow> s' = s \<or> did_one deps subject True r s s'"
  by (auto simp: postBreakStatus_def split: option.splits sum.splits if_splits
      intro!: did_oneI(1) [where op = "SetBreakStatus _ _ _ _"] simp: break_step_def)

lemma postPacks_did:
  "postPacks deps subject k n now s = (r, s') \<Longrightarrow> s' = s \<or> did_one deps subject True r s s'"
  by (auto simp: postPacks_def split: option.splits sum.splits if_splits
      intro!: did_oneI(1) [where op = "SetPacksOpened _ _ _ _"] simp: break_step_def)

lemma postVod_did:
  "postVod deps subject k l now s = (r, s') \<Longrightarrow> s' = s \<or> did_one deps subject True r s s'"
  by (auto simp: postVod_def split: option.splits sum.splits if_splits
      intro!: did_oneI(1) [where op = "SetBreakVodUrl _ _ _ _"] simp: break_step_def)

lemma postOverlayToken_did:
  "postOverlayToken deps subject k (be_bytes 32 random) now s = (r, t, s') \<Longrightarrow> s' = s \<or> did_one deps subject True r s s'"
  by (auto simp: postOverlayToken_def split: option.splits sum.splits if_splits
      intro!: did_oneI(1) [where op = "RotateOverlayToken _ _ _ _"] simp: break_step_def)

lemma postPull_did:
  "postPull deps subject k body newId now today s = (r, s') \<Longrightarrow> s' = s \<or> did_one deps subject False r s s'"
  by (auto simp: postPull_def split: option.splits sum.splits if_splits
      intro!: did_oneI(2) [where op = "LogPull _ _ _ _ _ _"] simp: break_step_def)

lemma step_evidence:
  "setPullEvidence (pfParseUrl pf) u p input newId now db = Inr db'
   \<Longrightarrow> break_step pf (SetPullEvidence u p input newId now) db = Inr db'"
  by (simp add: break_step_def)

lemma putEvidence_did:
  "putEvidence deps subject p body newId now s = (r, s') \<Longrightarrow> s' = s \<or> did_one deps subject False r s s'"
  by (auto simp: putEvidence_def split: option.splits sum.splits if_splits
      intro!: did_oneI(2) [OF _ _ step_evidence])

lemma clear_nothing: "clearPullEvidence u p db = (False, db') \<Longrightarrow> db' = db"
  by (auto simp: clearPullEvidence_def Let_def list_ex_iff filter_id_conv)

lemma deleteEvidence_did:
  "deleteEvidence deps subject p s = (r, s') \<Longrightarrow> s' = s \<or> did_one deps subject False r s s'"
proof -
  assume d: "deleteEvidence deps subject p s = (r, s')"
  show ?thesis
  proof (cases "\<exists>u. subject = Some u \<and> authorize subject BreakWrite None = None \<and> bdUuid deps p")
    case True
    then obtain u where u: "subject = Some u" "authorize (Some u) BreakWrite None = None" "bdUuid deps p" by auto
    obtain removed db' where c: "clearPullEvidence (subUserId u) p (fst s) = (removed, db')" by force
    show ?thesis
    proof (cases removed)
      case True
      then have "r = Reply 204 ''''" "s' = (db', snd s)" using d u c by (simp_all add: deleteEvidence_def)
      then show ?thesis
        using did_oneI(2) [of u "ClearPullEvidence (subUserId u) p" deps s db' r] u c by (simp add: break_step_def)
    next
      case False
      then show ?thesis using d u c clear_nothing by (cases s) (auto simp: deleteEvidence_def)
    qed
  next
    case False
    then show ?thesis using d by (auto simp: deleteEvidence_def split: option.splits if_splits)
  qed
qed

lemma fairness_guard_Inr: "fairness_guard deps subject k = Inr x \<longleftrightarrow>
    (\<exists>u. subject = Some u \<and> x = subUserId u \<and> authorize (Some u) BreakWrite None = None
       \<and> bdFairness deps \<and> bdUuid deps k)"
  by (auto simp: fairness_guard_def split: option.splits if_splits)

lemma postCommit_did:
  "postCommit deps subject k n (be_bytes 32 random) (be_bytes 12 iv) newId now s = (r, c, s')
   \<Longrightarrow> s' = s \<or> did_one deps subject True r s s'"
  by (auto simp: postCommit_def fairness_guard_Inr split: sum.splits if_splits
      intro!: did_oneI(1) [where op = "CommitBreak _ _ _ _ _ _ _"] simp: break_step_def)

lemma postClientSeed_did:
  "postClientSeed deps subject k clientSeed s = (r, c, s') \<Longrightarrow> s' = s \<or> did_one deps subject False r s s'"
  by (auto simp: postClientSeed_def fairness_guard_Inr split: sum.splits if_splits
      intro!: did_oneI(2) [where op = "SetClientSeed _ _ _"] simp: break_step_def)

lemma postReveal_did:
  "postReveal deps subject k now s = Some (r, c, s') \<Longrightarrow> s' = s \<or> did_one deps subject True r s s'"
  by (auto simp: postReveal_def fairness_guard_Inr split: sum.splits option.splits if_splits
      intro!: did_oneI(1) [where op = "RevealBreak _ _ _"] simp: break_step_def)

lemmas handlers_did = postBreak_did postBreakStatus_did postPacks_did postVod_did postOverlayToken_did
  postPull_did putEvidence_did deleteEvidence_did postCommit_did postClientSeed_did postReveal_did

lemma break_handle_did:
  assumes "break_handle deps subject req s = Some (r, s')"
  shows "s' = s \<or> did_one deps subject (audited req) r s s'"
  using assms
  by (cases req) (auto simp: break_handle_def split: prod.splits option.splits dest: handlers_did)

section \<open>The whole API\<close>

definition break_requests ::
  "break_deps \<Rightarrow> (Subject option \<times> break_request) list \<Rightarrow> break_api \<Rightarrow> break_api" where
  "break_requests deps reqs s =
     fold (\<lambda>(subject, req) s. case break_handle deps subject req s of None \<Rightarrow> s | Some (r, s') \<Rightarrow> s') reqs s"

lemma creators_write: "authorize (Some u) BreakWrite None = None \<longleftrightarrow> subRole u \<in> {RCreator, RAdmin}"
  by (cases "subRole u")
     (simp_all add: authorize_def can_def BASE_ACTIONS_def CREATOR_ACTIONS_def SELLER_ACTIONS_def)

lemma break_run_one: "break_step pf op db = Inr db' \<Longrightarrow> break_run pf db [op] = db'"
  by (simp add: break_run_def)

text \<open>Any sequence of requests is a run of the break machine.\<close>

lemma break_requests_run: "\<exists>ops. fst (break_requests deps reqs s) = break_run (bdPlatform deps) (fst s) ops"
proof (induction reqs arbitrary: s)
  case Nil
  have "fst s = break_run (bdPlatform deps) (fst s) []" by (simp add: break_run_def)
  then show ?case unfolding break_requests_def by auto
next
  case (Cons q reqs)
  obtain subject req where q: "q = (subject, req)" by force
  let ?s = "case break_handle deps subject req s of None \<Rightarrow> s | Some (r, s') \<Rightarrow> s'"
  have tail: "break_requests deps (q # reqs) s = break_requests deps reqs ?s" by (simp add: break_requests_def q)
  obtain ops where ops: "fst (break_requests deps reqs ?s) = break_run (bdPlatform deps) (fst ?s) ops"
    using Cons.IH by blast
  have "\<exists>op. fst ?s = break_run (bdPlatform deps) (fst s) op"
  proof (cases "break_handle deps subject req s")
    case None
    then show ?thesis by (intro exI [of _ "[]"]) (simp add: break_run_def)
  next
    case (Some x)
    obtain r s' where x: "x = (r, s')" by (cases x) auto
    then have h: "break_handle deps subject req s = Some (r, s')" using Some by simp
    show ?thesis
    proof (cases "s' = s")
      case True
      then show ?thesis using h by (intro exI [of _ "[]"]) (simp add: break_run_def)
    next
      case False
      then have "did_one deps subject (audited req) r s s'" using break_handle_did [OF h] by simp
      then obtain op where "break_step (bdPlatform deps) op (fst s) = Inr (fst s')" unfolding did_one_def by blast
      then show ?thesis using h break_run_one by (intro exI [of _ "[op]"]) simp
    qed
  qed
  then obtain op where "fst ?s = break_run (bdPlatform deps) (fst s) op" by blast
  then show ?case unfolding tail ops by (intro exI [of _ "op @ ops"]) (simp add: break_run_append)
qed


definition demo_creator :: Subject where
  "demo_creator = \<lparr>subUserId = ''ann'', subRole = RCreator, subAuthenticatedAt = None, subAuthMethod = None,
     subSessionId = None\<rparr>"

definition demo_deps :: break_deps where
  "demo_deps = \<lparr>bdUuid = (\<lambda>_. True), bdUrl = (\<lambda>_. True), bdHref = (\<lambda>_. ''''), bdPlatform = demo_platform,
     bdPepper = replicate 32 CHR ''x'', bdFairness = True\<rparr>"

definition demo_drafted :: break_db where
  "demo_drafted = demo_before\<lparr>breakRows := [demo_break], commitmentRows := []\<rparr>"

lemma demo_handled:
  "\<exists>s'. break_handle demo_deps (Some demo_creator) (PostBreakStatus ''b1'' Live 3) (demo_drafted, [])
      = Some (Reply 200 ''ok'', s') \<and> s' \<noteq> (demo_drafted, [])"
proof -
  obtain row db' where "setBreakStatus ''ann'' ''b1'' Live 3 demo_drafted = Inr (row, db')"
    using step_live [of "[]"] by (auto simp: break_step_def demo_drafted_def)
  moreover have "authorize (Some demo_creator) BreakWrite None = None" by (simp add: creators_write demo_creator_def)
  ultimately show ?thesis
    by (simp add: break_handle_def postBreakStatus_def demo_creator_def demo_deps_def statusBody_def break_audit_def)
qed


section \<open>Counting the streams\<close>

lemma length_filter_update:
  "i < length xs \<Longrightarrow> length (filter P (xs[i := x])) + (if P (xs ! i) then 1 else 0)
     = length (filter P xs) + (if P x then 1 else 0)"
proof (induction xs arbitrary: i)
  case (Cons y ys)
  then show ?case by (cases i) auto
qed simp

definition open_streams :: "overlay_server \<Rightarrow> string \<Rightarrow> nat" where
  "open_streams srv h = length (filter (\<lambda>t. ovHash t = h \<and> \<not> ovClosed t) (ovStreams srv))"

definition counted_rightly :: "overlay_server \<Rightarrow> bool" where
  "counted_rightly srv \<longleftrightarrow> (\<forall>h. ovCount srv h = open_streams srv h \<and> open_streams srv h \<le> MAX_OVERLAY_CONNECTIONS)"

definition keeps_life :: "(overlay_stream \<Rightarrow> overlay_stream) \<Rightarrow> bool" where
  "keeps_life f \<longleftrightarrow> (\<forall>t. ovHash (f t) = ovHash t \<and> ovClosed (f t) = ovClosed t)"

lemma keeps_life_send [simp]: "keeps_life (overlay_send f)"
  "keeps_life (\<lambda>t. if c t then overlay_send f (t\<lparr>ovLastSeq := n\<rparr>) else t)"
  by (simp_all add: keeps_life_def overlay_send_def)

lemma at_stream_open: "keeps_life f \<Longrightarrow> open_streams (at_stream i f srv) h = open_streams srv h"
  using length_filter_update [of i "ovStreams srv" "\<lambda>t. ovHash t = h \<and> \<not> ovClosed t" "f (ovStreams srv ! i)"]
  by (auto simp: at_stream_def open_streams_def keeps_life_def split: if_splits)

lemma at_stream_count [simp]: "ovCount (at_stream i f srv) = ovCount srv"
  "length (ovStreams (at_stream i f srv)) = length (ovStreams srv)" "ovAnswers (at_stream i f srv) = ovAnswers srv"
  by (simp_all add: at_stream_def)

lemma at_stream_counted: "keeps_life f \<Longrightarrow> counted_rightly srv \<Longrightarrow> counted_rightly (at_stream i f srv)"
  by (simp add: counted_rightly_def at_stream_open)

lemma cleanup_counted: "counted_rightly srv \<Longrightarrow> counted_rightly (stream_cleanup i srv)"
proof (cases "i < length (ovStreams srv) \<and> \<not> ovClosed (ovStreams srv ! i)")
  case True
  assume c: "counted_rightly srv"
  let ?t = "ovStreams srv ! i"
  let ?P = "\<lambda>h t. ovHash t = h \<and> \<not> ovClosed t"
  have "length (filter (?P h) ((ovStreams srv)[i := ?t\<lparr>ovClosed := True\<rparr>])) + (if h = ovHash ?t then 1 else 0)
      = length (filter (?P h) (ovStreams srv))" for h
    using length_filter_update [of i "ovStreams srv" "?P h" "?t\<lparr>ovClosed := True\<rparr>"] True by (auto split: if_splits)
  then have opened: "open_streams (stream_cleanup i srv) h + (if h = ovHash ?t then 1 else 0) = open_streams srv h" for h
    using True by (simp add: stream_cleanup_def Let_def at_stream_def open_streams_def)
  have count: "ovCount (stream_cleanup i srv) h = (if h = ovHash ?t then ovCount srv h - 1 else ovCount srv h)" for h
    using True by (simp add: stream_cleanup_def Let_def)
  have "ovCount (stream_cleanup i srv) h = open_streams (stream_cleanup i srv) h
      \<and> open_streams (stream_cleanup i srv) h \<le> MAX_OVERLAY_CONNECTIONS" for h
  proof -
    have "ovCount srv h = open_streams srv h" "open_streams srv h \<le> MAX_OVERLAY_CONNECTIONS"
      using c by (simp_all add: counted_rightly_def)
    then show ?thesis using opened [of h] count [of h] by (cases "h = ovHash ?t") simp_all
  qed
  then show ?thesis by (simp add: counted_rightly_def)
qed (auto simp: stream_cleanup_def)

lemma answers_counted: "counted_rightly (srv\<lparr>ovAnswers := as\<rparr>) = counted_rightly srv"
  by (simp add: counted_rightly_def open_streams_def)

lemma open_counted: "counted_rightly srv \<Longrightarrow> counted_rightly (snd (openStream deps token db srv))"
  by (auto simp: openStream_def counted_rightly_def open_streams_def split: sum.splits option.splits)

lemma overlay_step_counted: "counted_rightly srv \<Longrightarrow> counted_rightly (overlay_step deps e srv)"
proof (cases e)
  case (PollAnswer j)
  assume "counted_rightly srv"
  then show ?thesis
    using PollAnswer
    by (auto simp: overlay_step_def poll_answer_def Let_def answers_counted intro!: cleanup_counted at_stream_counted
        split: prod.splits option.splits)
qed (auto simp: overlay_step_def open_counted poll_read_def answers_counted stream_heartbeat_def stream_idle_def
    intro!: cleanup_counted at_stream_counted)

lemma overlay_run_counted: "counted_rightly srv \<Longrightarrow> counted_rightly (overlay_run deps es srv)"
  unfolding overlay_run_def by (induction es arbitrary: srv) (simp_all add: overlay_step_counted)

section \<open>A token that is gone\<close>

definition state_frames :: "overlay_stream \<Rightarrow> frame list" where
  "state_frames t = filter (\<lambda>f. case f of StateFrame _ \<Rightarrow> True | _ \<Rightarrow> False) (ovFrames t)"

definition sees :: "break_deps \<Rightarrow> string \<Rightarrow> break_db \<Rightarrow> OverlayState option" where
  "sees deps h db = getOverlayState (pfParseUrl (bdPlatform deps)) (bdHref deps) h db"

fun event_store :: "overlay_event \<Rightarrow> break_db option" where
  "event_store (OpenStream _ db) = Some db"
| "event_store (PollRead _ db) = Some db"
| "event_store _ = None"

definition token_gone :: "break_deps \<Rightarrow> string \<Rightarrow> overlay_event list \<Rightarrow> bool" where
  "token_gone deps h es \<longleftrightarrow> (\<forall>e \<in> set es. \<forall>db. event_store e = Some db \<longrightarrow> sees deps h db = None)"

definition nothing_pending :: "string \<Rightarrow> overlay_server \<Rightarrow> bool" where
  "nothing_pending h srv \<longleftrightarrow>
     (\<forall>(i, a) \<in> set (ovAnswers srv). i < length (ovStreams srv) \<and> (ovHash (ovStreams srv ! i) = h \<longrightarrow> a = None))"

definition same_view :: "string \<Rightarrow> overlay_server \<Rightarrow> overlay_server \<Rightarrow> bool" where
  "same_view h srv srv' \<longleftrightarrow>
     length (ovStreams srv) \<le> length (ovStreams srv')
     \<and> (\<forall>i < length (ovStreams srv'). ovHash (ovStreams srv' ! i) = h \<longrightarrow>
          i < length (ovStreams srv) \<and> ovHash (ovStreams srv ! i) = h
          \<and> state_frames (ovStreams srv' ! i) = state_frames (ovStreams srv ! i))"

lemma same_view_refl [simp]: "same_view h srv srv"
  by (simp add: same_view_def)

lemma same_view_trans: "same_view h a b \<Longrightarrow> same_view h b c \<Longrightarrow> same_view h a c"
proof -
  assume ab: "same_view h a b" and bc: "same_view h b c"
  show ?thesis
    unfolding same_view_def
  proof (intro conjI allI impI)
    show "length (ovStreams a) \<le> length (ovStreams c)" using ab bc by (simp add: same_view_def)
    fix i
    assume i: "i < length (ovStreams c)" "ovHash (ovStreams c ! i) = h"
    then have b: "i < length (ovStreams b)" "ovHash (ovStreams b ! i) = h"
      "state_frames (ovStreams c ! i) = state_frames (ovStreams b ! i)" using bc by (simp_all add: same_view_def)
    then have "i < length (ovStreams a)" "ovHash (ovStreams a ! i) = h"
      "state_frames (ovStreams b ! i) = state_frames (ovStreams a ! i)" using ab by (simp_all add: same_view_def)
    with b show "i < length (ovStreams a)" "ovHash (ovStreams a ! i) = h"
      "state_frames (ovStreams c ! i) = state_frames (ovStreams a ! i)" by simp_all
  qed
qed

lemma same_view_at:
  assumes "\<And>t. ovHash (f t) = ovHash t" 
    "ovHash (ovStreams srv ! i) = h \<Longrightarrow> state_frames (f (ovStreams srv ! i)) = state_frames (ovStreams srv ! i)"
  shows "same_view h srv (at_stream i f srv)"
  using assms by (auto simp: same_view_def at_stream_def nth_list_update)

lemma pending_cong:
  assumes "map ovHash (ovStreams srv') = map ovHash (ovStreams srv)" "ovAnswers srv' = ovAnswers srv"
  shows "nothing_pending h srv' = nothing_pending h srv"
proof -
  have len: "length (ovStreams srv') = length (ovStreams srv)" using arg_cong [OF assms(1), of length] by simp
  have "ovHash (ovStreams srv' ! i) = ovHash (ovStreams srv ! i)" if "i < length (ovStreams srv)" for i
    using arg_cong [OF assms(1), of "\<lambda>l. l ! i"] that len by simp
  then show ?thesis using len assms(2) by (auto simp: nothing_pending_def)
qed

lemma at_stream_hashes: "(\<And>t. ovHash (f t) = ovHash t) \<Longrightarrow> map ovHash (ovStreams (at_stream i f srv)) = map ovHash (ovStreams srv)"
  by (auto simp: at_stream_def map_update list_update_same_conv)

lemma pending_at: "(\<And>t. ovHash (f t) = ovHash t) \<Longrightarrow> nothing_pending h srv \<Longrightarrow> nothing_pending h (at_stream i f srv)"
  using pending_cong [OF at_stream_hashes] by simp

lemma state_frames_send: "(case f of StateFrame _ \<Rightarrow> False | _ \<Rightarrow> True) \<Longrightarrow> state_frames (overlay_send f t) = state_frames t"
  by (cases f) (simp_all add: state_frames_def overlay_send_def)

lemma overlay_send_hash [simp]: "ovHash (overlay_send f t) = ovHash t"
  by (simp add: overlay_send_def)

lemma cleanup_view: "same_view h srv (stream_cleanup i srv)"
  by (auto simp: same_view_def stream_cleanup_def Let_def at_stream_def nth_list_update state_frames_def)

lemma cleanup_pending: "nothing_pending h srv \<Longrightarrow> nothing_pending h (stream_cleanup i srv)"
proof -
  have "map ovHash (ovStreams (stream_cleanup i srv)) = map ovHash (ovStreams srv)"
    "ovAnswers (stream_cleanup i srv) = ovAnswers srv" by (auto simp: stream_cleanup_def Let_def at_stream_hashes)
  from pending_cong [OF this] show "nothing_pending h srv \<Longrightarrow> nothing_pending h (stream_cleanup i srv)" by (rule iffD2)
qed

lemma send_view: "(case f of StateFrame _ \<Rightarrow> False | _ \<Rightarrow> True) \<Longrightarrow> same_view h srv (at_stream i (overlay_send f) srv)"
  by (rule same_view_at) (simp_all add: state_frames_send)

lemma send_pending: "nothing_pending h srv \<Longrightarrow> nothing_pending h (at_stream i (overlay_send f) srv)"
  by (rule pending_at) simp_all

lemma openStream_opens:
  assumes "snd (openStream deps token db srv) \<noteq> srv"
  obtains k st where "sees deps k db = Some st" "snd (openStream deps token db srv)
        = srv\<lparr>ovCount := (ovCount srv)(k := ovCount srv k + 1), ovStreams := ovStreams srv
            @ [\<lparr>ovHash = k, ovLastSeq = newest_seq st, ovFrames = [StateFrame st], ovClosed = False\<rparr>]\<rparr>"
proof (cases "hashToken token (bdPepper deps)")
  case (Inr k)
  show ?thesis
  proof (cases "sees deps k db")
    case (Some st)
    then show ?thesis using assms Inr that [OF Some] by (auto simp: openStream_def sees_def split: if_splits)
  qed (use assms Inr in \<open>auto simp: openStream_def sees_def split: if_splits\<close>)
qed (use assms in \<open>auto simp: openStream_def split: if_splits\<close>)

lemma opened_quietly:
  assumes "sees deps h db = None" "nothing_pending h srv"
  shows "same_view h srv (snd (openStream deps token db srv)) \<and> nothing_pending h (snd (openStream deps token db srv))"
proof -
  show ?thesis
  proof (cases "snd (openStream deps token db srv) = srv")
    case True
    then show ?thesis using assms by simp
  next
    case False
    then obtain k st where k: "sees deps k db = Some st" "snd (openStream deps token db srv)
        = srv\<lparr>ovCount := (ovCount srv)(k := ovCount srv k + 1), ovStreams := ovStreams srv
            @ [\<lparr>ovHash = k, ovLastSeq = newest_seq st, ovFrames = [StateFrame st], ovClosed = False\<rparr>]\<rparr>"
      by (rule openStream_opens)
    then have "k \<noteq> h" using assms(1) by auto
    then show ?thesis
      unfolding k(2) using assms(2) by (auto simp: same_view_def nothing_pending_def nth_append split: if_splits)
  qed
qed

lemma read_quietly:
  assumes "sees deps h db = None" "nothing_pending h srv"
  shows "same_view h srv (poll_read deps i db srv) \<and> nothing_pending h (poll_read deps i db srv)"
  using assms by (auto simp: poll_read_def same_view_def nothing_pending_def sees_def)

lemma answered_quietly:
  assumes "nothing_pending h srv"
  shows "same_view h srv (poll_answer j srv) \<and> nothing_pending h (poll_answer j srv)"
proof (cases "j < length (ovAnswers srv)")
  case True
  obtain i a where ia: "ovAnswers srv ! j = (i, a)" by force
  let ?rest = "srv\<lparr>ovAnswers := take j (ovAnswers srv) @ drop (j + 1) (ovAnswers srv)\<rparr>"
  have rest: "same_view h srv ?rest" "nothing_pending h ?rest"
    using assms by (auto simp: same_view_def nothing_pending_def dest: in_set_takeD in_set_dropD)
  have "(i, a) \<in> set (ovAnswers srv)" using ia True by (metis nth_mem)
  then have quiet: "ovHash (ovStreams srv ! i) = h \<longrightarrow> a = None" using assms by (auto simp: nothing_pending_def)
  show ?thesis
  proof (cases a)
    case None
    then have "poll_answer j srv = stream_cleanup i (at_stream i (overlay_send RevokedFrame) ?rest)"
      using True ia by (simp add: poll_answer_def)
    then show ?thesis
      using same_view_trans [OF rest(1) same_view_trans [OF send_view cleanup_view]] rest(2)
        cleanup_pending [OF send_pending] by simp
  next
    case (Some st)
    let ?f = "\<lambda>t. if newest_seq st \<noteq> ovLastSeq t then overlay_send (StateFrame st) (t\<lparr>ovLastSeq := newest_seq st\<rparr>) else t"
    have p: "poll_answer j srv = at_stream i ?f ?rest" using True ia Some by (simp add: poll_answer_def)
    have "same_view h ?rest (at_stream i ?f ?rest)"
      by (rule same_view_at) (use quiet Some in auto)
    moreover have "nothing_pending h (at_stream i ?f ?rest)" by (rule pending_at [OF _ rest(2)]) simp
    ultimately show ?thesis using p same_view_trans [OF rest(1)] by simp
  qed
qed (use assms in \<open>simp add: poll_answer_def\<close>)

lemma overlay_step_quietly:
  assumes "\<forall>db. event_store e = Some db \<longrightarrow> sees deps h db = None" "nothing_pending h srv"
  shows "same_view h srv (overlay_step deps e srv) \<and> nothing_pending h (overlay_step deps e srv)"
proof (cases e)
  case (OpenStream token db)
  then show ?thesis using assms opened_quietly by (simp add: overlay_step_def)
next
  case (PollRead i db)
  then show ?thesis using assms read_quietly by (simp add: overlay_step_def)
next
  case (PollAnswer j)
  then show ?thesis using assms answered_quietly by (simp add: overlay_step_def)
next
  case (Heartbeat i)
  then show ?thesis using assms(2) by (simp add: overlay_step_def stream_heartbeat_def send_view send_pending)
next
  case (IdleTimeout i)
  then show ?thesis
    using assms(2) same_view_trans [OF send_view cleanup_view]
    by (simp add: overlay_step_def stream_idle_def cleanup_pending send_pending)
next
  case (SocketClosed i)
  then show ?thesis using assms(2) by (simp add: overlay_step_def cleanup_view cleanup_pending)
qed

lemma overlay_run_quietly:
  "token_gone deps h es \<Longrightarrow> nothing_pending h srv \<Longrightarrow> same_view h srv (overlay_run deps es srv)"
proof (induction es arbitrary: srv)
  case Nil
  then show ?case by (simp add: overlay_run_def)
next
  case (Cons e es)
  have e: "\<forall>db. event_store e = Some db \<longrightarrow> sees deps h db = None" "token_gone deps h es"
    using Cons.prems(1) by (simp_all add: token_gone_def)
  note step = overlay_step_quietly [OF e(1) Cons.prems(2)]
  have "overlay_run deps (e # es) srv = overlay_run deps es (overlay_step deps e srv)" by (simp add: overlay_run_def)
  then show ?case using same_view_trans [OF conjunct1 [OF step] Cons.IH [OF e(2) conjunct2 [OF step]]] by simp
qed

text \<open>A poll that read nothing ends its stream when it answers.\<close>

lemma empty_answer_closes:
  assumes "j < length (ovAnswers srv)" "ovAnswers srv ! j = (i, None)" "i < length (ovStreams srv)"
  shows "ovClosed (ovStreams (poll_answer j srv) ! i)"
  using assms by (auto simp: poll_answer_def stream_cleanup_def Let_def at_stream_def overlay_send_def)

text \<open>C32: Never more than five streams are open on one overlay token, however they are opened, polled and
  closed; and once the token of a break has been rotated, the old one shows nothing: no stream is opened with
  it and no stream that was open with it receives another state, from any poll that reads after the rotation.\<close>

theorem overlay_streams_are_capped_and_cut:
  assumes "platform_ok pf" "db = break_run pf (no_breaks us ps vs ix) ops" "find_break db k = Some b"
    "rotateOverlayToken u k h now db = Inr (b', db')" "h \<noteq> bOverlayTokenHash b"
    "token_gone deps (bOverlayTokenHash b) es" "nothing_pending (bOverlayTokenHash b) srv"
  shows "sees deps (bOverlayTokenHash b) db' = None
    \<and> same_view (bOverlayTokenHash b) srv (overlay_run deps es srv)
    \<and> (\<forall>es' h'. open_streams (overlay_run deps es' no_streams) h' \<le> MAX_OVERLAY_CONNECTIONS)"
proof -
  have "counted_rightly no_streams" by (simp add: counted_rightly_def open_streams_def no_streams_def)
  then have "open_streams (overlay_run deps es' no_streams) h' \<le> MAX_OVERLAY_CONNECTIONS" for es' h'
    using overlay_run_counted by (simp add: counted_rightly_def)
  moreover have "sees deps (bOverlayTokenHash b) db' = None"
    unfolding sees_def using rotation_kills_old_token [OF assms(1-5)] by blast
  ultimately show ?thesis using overlay_run_quietly [OF assms(6,7)] by blast
qed

definition demo_stream_server :: overlay_server where
  "demo_stream_server = \<lparr>ovCount = (\<lambda>h. if h = ''t1'' then 1 else 0),
     ovStreams = [\<lparr>ovHash = ''t1'', ovLastSeq = 0, ovFrames = [], ovClosed = False\<rparr>], ovAnswers = []\<rparr>"

definition demo_rotated :: Break where
  "demo_rotated = demo_ended\<lparr>bOverlayTokenHash := ''t2'', bOverlayTokenVersion := 2, bUpdatedAt := 11\<rparr>"

theorem overlay_streams_are_capped_and_cut_witness:
  "same_view ''t1'' demo_stream_server
     (overlay_run demo_deps [PollRead 0 (demo_after\<lparr>breakRows := [demo_rotated]\<rparr>), PollAnswer 0] demo_stream_server)"
proof -
  let ?db' = "demo_after\<lparr>breakRows := [demo_rotated]\<rparr>"
  have rot: "rotateOverlayToken ''ann'' ''b1'' ''t2'' 11 demo_after = Inr (demo_rotated, ?db')"
    by (simp add: rotateOverlayToken_def updated_break_def update_break_def break_owned_def break_int4_def int4_def
        break_checks_def https_url_def not_blank_def break_unique_violation_def demo_rotated_def
        demo_after_def demo_ended_def demo_live_def demo_break_def)
  have run: "demo_after = break_run demo_platform (no_breaks [''ann''] []
      [\<lparr>cvId = ''v1'', cvCardName = ''Gundam'', cvFinish = ''normal''\<rparr>] []) demo_ops"
    using demo_reached by (simp add: demo_before_def)
  have old: "bOverlayTokenHash demo_ended = ''t1''" by (simp add: demo_ended_def demo_live_def demo_break_def)
  have "sees demo_deps ''t1'' ?db' = None"
    by (simp add: sees_def getOverlayState_def demo_rotated_def)
  then have "token_gone demo_deps ''t1'' [PollRead 0 ?db', PollAnswer 0]" by (simp add: token_gone_def)
  then show ?thesis
    using overlay_streams_are_capped_and_cut [OF demo_platform_ok run demo_after_break rot, of demo_deps
        "[PollRead 0 ?db', PollAnswer 0]" demo_stream_server]
    by (simp add: old nothing_pending_def demo_stream_server_def)
qed

end
