(* ===== verification/CollectionRoutes.thy ===== *)
theory CollectionRoutes
  imports CollectionInvariant BreakRoutes
begin

text \<open>
  The request handlers of collections (\<open>apps/api/src/routes/collections.ts\<close>) over the operations of
  theories \<open>CollectionStore\<close> and \<open>CollectionViews\<close>, and what they add up to: every request is at most
  one operation of its own subject. Reads work for anyone; the policies decide what they find.
\<close>

section \<open>Bodies\<close>

record collection_deps =
  cdUuid :: "string \<Rightarrow> bool"
  cdOrderBy :: "CollectionItemView list \<Rightarrow> CollectionItemView list"
  cdLower :: "utf16 \<Rightarrow> utf16"

type_synonym collection_api = "collection_db \<times> AuditEntry list"

definition collection_audit :: "string \<Rightarrow> string \<Rightarrow> string \<Rightarrow> collection_api \<Rightarrow> collection_api" where
  "collection_audit actor action target s = (fst s, snd s @ [user_audit actor action ''collection'' target])"

definition z_name :: "utf16 \<Rightarrow> bool" where
  "z_name n \<longleftrightarrow> 1 \<le> length (js_trim n) \<and> length (js_trim n) \<le> 80"

definition createCollectionSchema :: "utf16 \<Rightarrow> bool" where "createCollectionSchema name \<longleftrightarrow> z_name name"

definition patchCollectionSchema :: "utf16 option \<Rightarrow> CollectionVisibility option \<Rightarrow> bool" where
  "patchCollectionSchema name vis \<longleftrightarrow> z_opt z_name name \<and> (name \<noteq> None \<or> vis \<noteq> None)"

record add_item_body =
  abCardVariantId :: string
  abCondition :: "CardCondition option"
  abQuantity :: "jsnum option"
  abAcquiredPriceCents :: "jsnum option"
  abCurrency :: "string option"
  abAcquiredAt :: "utf16 option"
  abNotes :: "utf16 option"

definition addItemSchema :: "collection_deps \<Rightarrow> add_item_body \<Rightarrow> bool" where
  "addItemSchema deps body \<longleftrightarrow>
     cdUuid deps (abCardVariantId body)
     \<and> z_opt (z_between 1 100000) (abQuantity body)
     \<and> z_opt (z_between 0 100000000) (abAcquiredPriceCents body)
     \<and> z_opt iso_currency (abCurrency body)
     \<and> z_opt (\<lambda>d. iso_date d \<noteq> None) (abAcquiredAt body)
     \<and> z_opt (\<lambda>n. length n \<le> 500) (abNotes body)"

definition item_of_body :: "add_item_body \<Rightarrow> CollectionItemInput" where
  "item_of_body body =
     \<lparr>iiCardVariantId = abCardVariantId body, iiCondition = abCondition body,
      iiQuantity = map_option to_int (abQuantity body),
      iiAcquiredPriceCents = map_option to_int (abAcquiredPriceCents body),
      iiCurrency = abCurrency body, iiAcquiredAt = Option.bind (abAcquiredAt body) iso_date, iiNotes = abNotes body\<rparr>"

text \<open>In a patch a field may be left out, or be null.\<close>

record patch_item_body =
  qbQuantity :: "jsnum option"
  qbAcquiredPriceCents :: "jsnum option option"
  qbAcquiredAt :: "utf16 option option"
  qbNotes :: "utf16 option option"

definition patchItemSchema :: "patch_item_body \<Rightarrow> bool" where
  "patchItemSchema body \<longleftrightarrow>
     z_opt (z_between 1 100000) (qbQuantity body)
     \<and> z_opt (z_opt (z_between 0 100000000)) (qbAcquiredPriceCents body)
     \<and> z_opt (z_opt (\<lambda>d. iso_date d \<noteq> None)) (qbAcquiredAt body)
     \<and> z_opt (z_opt (\<lambda>n. length n \<le> 500)) (qbNotes body)"

definition patch_of_body :: "patch_item_body \<Rightarrow> ItemPatch" where
  "patch_of_body body =
     \<lparr>ipQuantity = map_option to_int (qbQuantity body),
      ipAcquiredPriceCents = map_option (map_option to_int) (qbAcquiredPriceCents body),
      ipAcquiredAt = map_option (\<lambda>d. Option.bind d iso_date) (qbAcquiredAt body),
      ipNotes = qbNotes body\<rparr>"

text \<open>The query strings: \<open>apply\<close> and \<open>mode\<close> as text, the age already read as a number.\<close>

definition importQuerySchema :: "string option \<Rightarrow> string option \<Rightarrow> bool" where
  "importQuerySchema applied mode \<longleftrightarrow>
     z_opt (\<lambda>a. a \<in> {''true'', ''false''}) applied \<and> z_opt (\<lambda>m. m \<in> {''add'', ''replace''}) mode"

definition valueQuerySchema :: "string option \<Rightarrow> jsnum option \<Rightarrow> bool" where
  "valueQuerySchema currency maxAge \<longleftrightarrow> z_opt iso_currency currency \<and> z_opt (z_between 1 365) maxAge"

definition collection_failure :: "collection_error \<Rightarrow> reply" where
  "collection_failure e = (case e of collection_error.MissingReferenceError _ \<Rightarrow> not_found | _ \<Rightarrow> internal_error)"

definition viewer_of :: "Subject option \<Rightarrow> string option" where
  "viewer_of subject = map_option subUserId subject"

section \<open>Collections\<close>

definition getCollections :: "Subject option \<Rightarrow> collection_api \<Rightarrow> reply \<times> Collection list" where
  "getCollections subject s =
     (case subject of
        None \<Rightarrow> (unauthenticated, [])
      | Some u \<Rightarrow>
          if authorize subject CollectionRead None \<noteq> None then (forbidden, [])
          else (Reply 200 ''ok'', listCollections (subUserId u) (fst s)))"

definition getPublicCollections :: "nat \<Rightarrow> collection_api \<Rightarrow> reply \<times> Collection list" where
  "getPublicCollections limit s = (Reply 200 ''ok'', listPublicCollections limit (fst s))"

definition postCollection ::
  "Subject option \<Rightarrow> utf16 \<Rightarrow> CollectionVisibility option \<Rightarrow> string \<Rightarrow> int \<Rightarrow> collection_api
     \<Rightarrow> reply \<times> collection_api" where
  "postCollection subject name vis newId now s =
     (case subject of
        None \<Rightarrow> (unauthenticated, s)
      | Some u \<Rightarrow>
          if authorize subject CollectionWrite None \<noteq> None then (forbidden, s)
          else if \<not> createCollectionSchema name then (invalid_request, s)
          else case createCollection (subUserId u) (js_trim name) vis newId now (fst s) of
            Inl CollectionLimitError \<Rightarrow> (Reply 409 ''collection_limit_reached'', s)
          | Inl e \<Rightarrow> (collection_failure e, s)
          | Inr (c, db') \<Rightarrow>
              (Reply 201 ''created'', collection_audit (subUserId u) ''collection.created'' (coId c) (db', snd s)))"

record collection_page =
  cpgId :: string
  cpgName :: utf16
  cpgVisibility :: CollectionVisibility
  cpgOwnerId :: "string option"
  cpgItems :: "CollectionItemView list"

definition getCollectionPage ::
  "collection_deps \<Rightarrow> Subject option \<Rightarrow> string \<Rightarrow> collection_api \<Rightarrow> reply \<times> collection_page option" where
  "getCollectionPage deps subject k s =
     (if \<not> cdUuid deps k then (not_found, None)
      else case getCollection (viewer_of subject) k (fst s) of
        None \<Rightarrow> (not_found, None)
      | Some c \<Rightarrow>
          (Reply 200 ''ok'',
           Some \<lparr>cpgId = coId c, cpgName = coName c, cpgVisibility = coVisibility c,
                 cpgOwnerId = (if Some (coOwnerId c) = viewer_of subject then Some (coOwnerId c) else None),
                 cpgItems = listItems (cdOrderBy deps) (viewer_of subject) k (fst s)\<rparr>))"

definition patchCollection ::
  "collection_deps \<Rightarrow> Subject option \<Rightarrow> string \<Rightarrow> utf16 option \<Rightarrow> CollectionVisibility option \<Rightarrow> int \<Rightarrow> collection_api
     \<Rightarrow> reply \<times> collection_api" where
  "patchCollection deps subject k name vis now s =
     (case subject of
        None \<Rightarrow> (unauthenticated, s)
      | Some u \<Rightarrow>
          if authorize subject CollectionWrite None \<noteq> None then (forbidden, s)
          else if \<not> cdUuid deps k then (not_found, s)
          else if \<not> patchCollectionSchema name vis then (invalid_request, s)
          else case updateCollection (subUserId u) k (map_option js_trim name) vis now (fst s) of
            Inl e \<Rightarrow> (collection_failure e, s)
          | Inr (None, db') \<Rightarrow> (not_found, (db', snd s))
          | Inr (Some c, db') \<Rightarrow>
              (Reply 200 ''ok'',
               if vis \<noteq> None
               then collection_audit (subUserId u) ''collection.visibility_changed'' (coId c) (db', snd s)
               else (db', snd s)))"

definition deleteCollectionRoute ::
  "collection_deps \<Rightarrow> Subject option \<Rightarrow> string \<Rightarrow> collection_api \<Rightarrow> reply \<times> collection_api" where
  "deleteCollectionRoute deps subject k s =
     (case subject of
        None \<Rightarrow> (unauthenticated, s)
      | Some u \<Rightarrow>
          if authorize subject CollectionWrite None \<noteq> None then (forbidden, s)
          else if \<not> cdUuid deps k then (not_found, s)
          else case deleteCollection (subUserId u) k (fst s) of
            (removed, db') \<Rightarrow>
              if \<not> removed then (not_found, (db', snd s))
              else (Reply 204 '''', collection_audit (subUserId u) ''collection.deleted'' k (db', snd s)))"

section \<open>Lines\<close>

definition owns_collection :: "Subject \<Rightarrow> string \<Rightarrow> collection_db \<Rightarrow> bool" where
  "owns_collection u k db \<longleftrightarrow>
     (case getCollection (Some (subUserId u)) k db of None \<Rightarrow> False | Some c \<Rightarrow> coOwnerId c = subUserId u)"

definition postItem ::
  "collection_deps \<Rightarrow> Subject option \<Rightarrow> string \<Rightarrow> add_item_body \<Rightarrow> string \<Rightarrow> int \<Rightarrow> collection_api
     \<Rightarrow> reply \<times> collection_api" where
  "postItem deps subject k body newId now s =
     (case subject of
        None \<Rightarrow> (unauthenticated, s)
      | Some u \<Rightarrow>
          if authorize subject CollectionWrite None \<noteq> None then (forbidden, s)
          else if \<not> cdUuid deps k then (not_found, s)
          else if \<not> addItemSchema deps body then (invalid_request, s)
          else if \<not> owns_collection u k (fst s) then (not_found, s)
          else case addItem (subUserId u) k (item_of_body body) newId now (fst s) of
            Inl e \<Rightarrow> (collection_failure e, s)
          | Inr (i, db') \<Rightarrow> (Reply 201 ''created'', (db', snd s)))"

definition patchItem ::
  "collection_deps \<Rightarrow> Subject option \<Rightarrow> string \<Rightarrow> string \<Rightarrow> patch_item_body \<Rightarrow> int \<Rightarrow> collection_api
     \<Rightarrow> reply \<times> collection_api" where
  "patchItem deps subject k itemId body now s =
     (case subject of
        None \<Rightarrow> (unauthenticated, s)
      | Some u \<Rightarrow>
          if authorize subject CollectionWrite None \<noteq> None then (forbidden, s)
          else if \<not> cdUuid deps k \<or> \<not> cdUuid deps itemId then (not_found, s)
          else if \<not> patchItemSchema body then (invalid_request, s)
          else case updateItem (subUserId u) itemId (patch_of_body body) now (fst s) of
            Inl e \<Rightarrow> (collection_failure e, s)
          | Inr (None, db') \<Rightarrow> (not_found, (db', snd s))
          | Inr (Some i, db') \<Rightarrow> (Reply 200 ''ok'', (db', snd s)))"

definition deleteItem ::
  "collection_deps \<Rightarrow> Subject option \<Rightarrow> string \<Rightarrow> string \<Rightarrow> int \<Rightarrow> collection_api \<Rightarrow> reply \<times> collection_api" where
  "deleteItem deps subject k itemId now s =
     (case subject of
        None \<Rightarrow> (unauthenticated, s)
      | Some u \<Rightarrow>
          if authorize subject CollectionWrite None \<noteq> None then (forbidden, s)
          else if \<not> cdUuid deps k \<or> \<not> cdUuid deps itemId then (not_found, s)
          else case removeItem (subUserId u) itemId now (fst s) of
            Inl e \<Rightarrow> (collection_failure e, s)
          | Inr (removed, db') \<Rightarrow> (if removed then Reply 204 '''' else not_found, (db', snd s)))"

section \<open>Valuation, export and import\<close>

definition getValue ::
  "collection_deps \<Rightarrow> Subject option \<Rightarrow> string \<Rightarrow> string option \<Rightarrow> jsnum option \<Rightarrow> int \<Rightarrow> collection_api
     \<Rightarrow> reply \<times> CollectionValuation option" where
  "getValue deps subject k currency maxAge today s =
     (if \<not> cdUuid deps k then (not_found, None)
      else if \<not> valueQuerySchema currency maxAge then (invalid_request, None)
      else case getCollection (viewer_of subject) k (fst s) of
        None \<Rightarrow> (not_found, None)
      | Some _ \<Rightarrow>
          (Reply 200 ''ok'',
           Some (valueCollection (viewer_of subject) k currency (map_option to_int maxAge) today (fst s))))"

definition getCollectionExport ::
  "collection_deps \<Rightarrow> Subject option \<Rightarrow> string \<Rightarrow> collection_api \<Rightarrow> reply \<times> utf16 option" where
  "getCollectionExport deps subject k s =
     (if \<not> cdUuid deps k then (not_found, None)
      else case getCollection (viewer_of subject) k (fst s) of
        None \<Rightarrow> (not_found, None)
      | Some _ \<Rightarrow> (Reply 200 ''ok'', Some (exportCollectionCsv (cdOrderBy deps) (viewer_of subject) k (fst s))))"

text \<open>\<open>None\<close> for a body that is not text.\<close>

definition postImport ::
  "collection_deps \<Rightarrow> Subject option \<Rightarrow> string \<Rightarrow> string option \<Rightarrow> string option \<Rightarrow> utf16 option \<Rightarrow> (nat \<Rightarrow> string)
     \<Rightarrow> int \<Rightarrow> collection_api \<Rightarrow> reply \<times> ImportReport option \<times> collection_api" where
  "postImport deps subject k applied mode doc newId now s =
     (case subject of
        None \<Rightarrow> (unauthenticated, None, s)
      | Some u \<Rightarrow>
          if authorize subject CollectionWrite None \<noteq> None then (forbidden, None, s)
          else if \<not> cdUuid deps k then (not_found, None, s)
          else if \<not> importQuerySchema applied mode then (invalid_request, None, s)
          else case doc of
            None \<Rightarrow> (Reply 415 ''expected_text_csv'', None, s)
          | Some d \<Rightarrow>
              if \<not> owns_collection u k (fst s) then (not_found, None, s)
              else
                let dryRun = (applied \<noteq> Some ''true'');
                    m = (if mode = Some ''replace'' then Replace else Add)
                in case importCollectionCsv (cdLower deps) (subUserId u) k d dryRun m newId now (fst s) of
                     Inl e \<Rightarrow> (collection_failure e, None, s)
                   | Inr (report, db') \<Rightarrow>
                       (Reply 200 ''ok'', Some report,
                        if \<not> dryRun \<and> (irCreated report > 0 \<or> irUpdated report > 0)
                        then collection_audit (subUserId u) ''collection.imported'' k (db', snd s)
                        else (db', snd s)))"

section \<open>Requests as operations\<close>

datatype collection_request =
    PostCollection utf16 "CollectionVisibility option" string int
  | PatchCollection string "utf16 option" "CollectionVisibility option" int
  | DeleteCollectionRequest string
  | PostItem string add_item_body string int
  | PatchItem string string patch_item_body int
  | DeleteItemRequest string string int
  | PostImport string "string option" "string option" "utf16 option" "nat \<Rightarrow> string" int

definition collection_handle ::
  "collection_deps \<Rightarrow> Subject option \<Rightarrow> collection_request \<Rightarrow> collection_api \<Rightarrow> reply \<times> collection_api" where
  "collection_handle deps subject req s =
     (case req of
        PostCollection name vis newId now \<Rightarrow> postCollection subject name vis newId now s
      | PatchCollection k name vis now \<Rightarrow> patchCollection deps subject k name vis now s
      | DeleteCollectionRequest k \<Rightarrow> deleteCollectionRoute deps subject k s
      | PostItem k body newId now \<Rightarrow> postItem deps subject k body newId now s
      | PatchItem k itemId body now \<Rightarrow> patchItem deps subject k itemId body now s
      | DeleteItemRequest k itemId now \<Rightarrow> deleteItem deps subject k itemId now s
      | PostImport k applied mode doc newId now \<Rightarrow>
          (case postImport deps subject k applied mode doc newId now s of (r, _, s') \<Rightarrow> (r, s')))"

definition by_subject :: "collection_deps \<Rightarrow> Subject option \<Rightarrow> collection_db \<Rightarrow> collection_db \<Rightarrow> bool" where
  "by_subject deps subject db db' \<longleftrightarrow>
     (\<exists>u op. subject = Some u \<and> authorize subject CollectionWrite None = None \<and> op_actor op = subUserId u
        \<and> coll_step (cdLower deps) op db = Inr db')"

lemma by_subjectI:
  "authorize (Some u) CollectionWrite None = None \<Longrightarrow> op_actor op = subUserId u
   \<Longrightarrow> coll_step (cdLower deps) op db = Inr db' \<Longrightarrow> by_subject deps (Some u) db db'"
  unfolding by_subject_def by blast

lemma coll_step_of:
  "createCollection u name vis newId now db = Inr (c, db') \<Longrightarrow> coll_step lower (OpCreate u name vis newId now) db = Inr db'"
  "updateCollection u k pname vis now db = Inr (oc, db') \<Longrightarrow> coll_step lower (OpUpdate u k pname vis now) db = Inr db'"
  "deleteCollection u k db = (b, db') \<Longrightarrow> coll_step lower (OpDelete u k) db = Inr db'"
  "addItem u k input newId now db = Inr (i, db') \<Longrightarrow> coll_step lower (OpAddItem u k input newId now) db = Inr db'"
  "updateItem u k p now db = Inr (oi, db') \<Longrightarrow> coll_step lower (OpUpdateItem u k p now) db = Inr db'"
  "removeItem u k now db = Inr (b, db') \<Longrightarrow> coll_step lower (OpRemoveItem u k now) db = Inr db'"
  "importCollectionCsv lower u k doc dryRun mode newIds now db = Inr (rep, db')
     \<Longrightarrow> coll_step lower (OpImport u k doc dryRun mode newIds now) db = Inr db'"
  by simp_all

lemma audit_store [simp]: "fst (collection_audit a b c s) = fst s"
  by (simp add: collection_audit_def)

lemma collection_handlers_by:
  "postCollection subject name vis newId now s = (r, s') \<Longrightarrow> fst s' = fst s \<or> by_subject deps subject (fst s) (fst s')"
  "patchCollection deps subject k pname vis now s = (r, s') \<Longrightarrow> fst s' = fst s \<or> by_subject deps subject (fst s) (fst s')"
  "deleteCollectionRoute deps subject k s = (r, s') \<Longrightarrow> fst s' = fst s \<or> by_subject deps subject (fst s) (fst s')"
  "postItem deps subject k body newId now s = (r, s') \<Longrightarrow> fst s' = fst s \<or> by_subject deps subject (fst s) (fst s')"
  "patchItem deps subject k itemId pbody now s = (r, s') \<Longrightarrow> fst s' = fst s \<or> by_subject deps subject (fst s) (fst s')"
  "deleteItem deps subject k itemId now s = (r, s') \<Longrightarrow> fst s' = fst s \<or> by_subject deps subject (fst s) (fst s')"
  "postImport deps subject k applied mode doc newIds now s = (r, rep, s')
     \<Longrightarrow> fst s' = fst s \<or> by_subject deps subject (fst s) (fst s')"
  subgoal
    by (auto simp: postCollection_def split: option.splits sum.splits collection_error.splits if_splits
        intro!: by_subjectI [OF _ _ coll_step_of(1)])
  subgoal
    by (auto simp: patchCollection_def split: option.splits sum.splits if_splits prod.splits
        intro!: by_subjectI [OF _ _ coll_step_of(2)])
  subgoal
    by (auto simp: deleteCollectionRoute_def split: option.splits if_splits prod.splits
        intro!: by_subjectI [OF _ _ coll_step_of(3)])
  subgoal
    by (auto simp: postItem_def split: option.splits sum.splits if_splits prod.splits
        intro!: by_subjectI [OF _ _ coll_step_of(4)])
  subgoal
    by (auto simp: patchItem_def split: option.splits sum.splits if_splits prod.splits
        intro!: by_subjectI [OF _ _ coll_step_of(5)])
  subgoal
    by (auto simp: deleteItem_def split: option.splits sum.splits if_splits prod.splits
        intro!: by_subjectI [OF _ _ coll_step_of(6)])
  subgoal
    by (auto simp: postImport_def Let_def split: option.splits sum.splits if_splits prod.splits
        intro!: by_subjectI [OF _ _ coll_step_of(7)])
  done

text \<open>A request changes no store, or is one operation of the collection machine by the one who asked.\<close>

lemma collection_requests_are_operations:
  "fst (snd (collection_handle deps subject req s)) = fst s
   \<or> by_subject deps subject (fst s) (fst (snd (collection_handle deps subject req s)))"
proof -
  have "fst s' = fst s \<or> by_subject deps subject (fst s) (fst s')" if "collection_handle deps subject req s = (r, s')" for r s'
    using that by (cases req) (auto simp: collection_handle_def split: prod.splits dest: collection_handlers_by)
  then show ?thesis by (metis prod.collapse)
qed

text \<open>A private collection of somebody else answers every request as one that does not exist.\<close>

lemma private_is_missing:
  assumes "find_row coId k (cCollections db) = Some c" "coVisibility c = Private" "Some (coOwnerId c) \<noteq> viewer_of subject"
    "coOwnerId c \<noteq> []"
  shows "getCollectionPage deps subject k (db, log0) = (not_found, None)"
    "getCollectionExport deps subject k (db, log0) = (not_found, None)"
    "snd (getValue deps subject k currency maxAge today (db, log0)) = None"
proof -
  have "getCollection (viewer_of subject) k db = None"
    using assms by (auto simp: getCollection_def select_collection_def collection_visible_def asViewer_def split: option.splits)
  then show "getCollectionPage deps subject k (db, log0) = (not_found, None)"
    "getCollectionExport deps subject k (db, log0) = (not_found, None)"
    "snd (getValue deps subject k currency maxAge today (db, log0)) = None"
    by (simp_all add: getCollectionPage_def getCollectionExport_def getValue_def)
qed

end
