(* ===== verification/Payments.thy ===== *)
theory Payments
  imports MarketRoutes
begin

text \<open>
  The payment provider's client (\<open>apps/api/src/payments/stripe.ts\<close>): what it asks for and how it reads
  the answers. The provider is not in the repository: its calls are parameters, and what is known of its
  idempotency keys is a hypothesis (\<open>idempotent_provider\<close>), the one the comments of the file state.
\<close>

section \<open>Reading an account\<close>

datatype CapabilityStatus = CapActive | CapPending | CapRestricted | CapUnsupported

definition asCapabilityStatus :: "json \<Rightarrow> CapabilityStatus" where
  "asCapabilityStatus v =
     (if v = JStr ''active'' then CapActive else if v = JStr ''pending'' then CapPending
      else if v = JStr ''restricted'' then CapRestricted else CapUnsupported)"

record AccountStatus =
  asTransfers :: CapabilityStatus
  asPayouts :: CapabilityStatus
  asDetailsSubmitted :: bool

text \<open>\<open>account\<close> is the document the provider sent.\<close>

definition getAccountStatus :: "json \<Rightarrow> AccountStatus" where
  "getAccountStatus account =
     (let balance = opt_field (opt_field (opt_field (opt_field account ''configuration'') ''recipient'')
                      ''capabilities'') ''stripe_balance'';
          deadline = opt_field (opt_field (opt_field (opt_field account ''requirements'') ''summary'')
                      ''minimum_deadline'') ''status''
      in \<lparr>asTransfers = asCapabilityStatus (opt_field (opt_field balance ''stripe_transfers'') ''status''),
          asPayouts = asCapabilityStatus (opt_field (opt_field balance ''payouts'') ''status''),
          asDetailsSubmitted = (if deadline = JUndefined then False else deadline \<noteq> JStr ''past_due'')\<rparr>)"

record V2EventNotification =
  v2Id :: string
  v2Type :: string
  v2RelatedObjectId :: "string option"
  v2RelatedObjectType :: "string option"

datatype v2_error = NotConfigured | BadSignature | BadBody

definition string_field :: "json \<Rightarrow> string option" where
  "string_field v = (case v of JStr s \<Rightarrow> Some s | _ \<Rightarrow> None)"

text \<open>
  \<open>verify\<close> is the provider's check of a header against the raw bytes, \<open>parse\<close> the JSON parser, which fails
  on what is no document. An array is an object too, without any of the properties.
\<close>

definition verifyV2Event ::
  "(string \<Rightarrow> string \<Rightarrow> string \<Rightarrow> bool) \<Rightarrow> (string \<Rightarrow> json option) \<Rightarrow> string option \<Rightarrow> string \<Rightarrow> string
     \<Rightarrow> v2_error + V2EventNotification" where
  "verifyV2Event verify parse secret rawBody signature =
     (case secret of
        None \<Rightarrow> Inl NotConfigured
      | Some s \<Rightarrow>
          if \<not> verify rawBody signature s then Inl BadSignature
          else case parse rawBody of
            None \<Rightarrow> Inl BadBody
          | Some event \<Rightarrow>
              (case (string_field (opt_field event ''id''), string_field (opt_field event ''type'')) of
                 (Some i, Some t) \<Rightarrow>
                   let related = opt_field event ''related_object'' in
                   Inr \<lparr>v2Id = i, v2Type = t, v2RelatedObjectId = string_field (opt_field related ''id''),
                        v2RelatedObjectType = string_field (opt_field related ''type'')\<rparr>
               | _ \<Rightarrow> Inl BadBody))"

section \<open>What is asked of the provider\<close>

definition idempotency :: "string \<Rightarrow> string \<Rightarrow> string" where
  "idempotency scope k = scope @ '':'' @ k"

record CheckoutInput =
  chOrderId :: string
  chDestinationAccountId :: string
  chDescription :: string
  chAmountCents :: int
  chCurrency :: string
  chQuantity :: int
  chApplicationFeeCents :: int
  chSuccessUrl :: string
  chCancelUrl :: string

record CheckoutParams =
  cqQuantity :: int
  cqCurrency :: string
  cqUnitAmount :: int
  cqProductName :: string
  cqApplicationFeeAmount :: int
  cqDestination :: string
  cqIntentOrderId :: string
  cqSessionOrderId :: string
  cqSuccessUrl :: string
  cqCancelUrl :: string
  cqExpiresAt :: int

definition checkout_params :: "CheckoutInput \<Rightarrow> int \<Rightarrow> CheckoutParams" where
  "checkout_params input now =
     \<lparr>cqQuantity = chQuantity input, cqCurrency = chCurrency input, cqUnitAmount = chAmountCents input,
      cqProductName = chDescription input, cqApplicationFeeAmount = chApplicationFeeCents input,
      cqDestination = chDestinationAccountId input, cqIntentOrderId = chOrderId input,
      cqSessionOrderId = chOrderId input, cqSuccessUrl = chSuccessUrl input, cqCancelUrl = chCancelUrl input,
      cqExpiresAt = now div 1000 + 30 * 60\<rparr>"

datatype stripe_error =
    InvalidRequest | Authentication | Permission | IdempotencyMismatch | RateLimited | ApiError | ConnectionError
  | NoSessionUrl

text \<open>\<open>sessions\<close> is the provider's call, under a key: the session's identifier and its page, if it has one.\<close>

definition createCheckoutSession ::
  "(CheckoutParams \<Rightarrow> string \<Rightarrow> stripe_error + string \<times> string option) \<Rightarrow> CheckoutInput \<Rightarrow> int
     \<Rightarrow> stripe_error + string \<times> string" where
  "createCheckoutSession sessions input now =
     (case sessions (checkout_params input now) (idempotency ''checkout'' (chOrderId input)) of
        Inl e \<Rightarrow> Inl e
      | Inr (k, None) \<Rightarrow> Inl NoSessionUrl
      | Inr (k, Some url) \<Rightarrow> Inr (k, url))"

record RefundInput =
  rfPaymentIntentId :: string
  rfOrderId :: string
  rfAmountCents :: "int option"
  rfReason :: "string option"
  rfReverseTransfer :: "bool option"
  rfRefundApplicationFee :: "bool option"

record RefundParams =
  rpPaymentIntent :: string
  rpAmount :: "int option"
  rpReason :: "string option"
  rpReverseTransfer :: bool
  rpRefundApplicationFee :: bool
  rpOrderId :: string

definition refund_params :: "RefundInput \<Rightarrow> RefundParams" where
  "refund_params input =
     \<lparr>rpPaymentIntent = rfPaymentIntentId input, rpAmount = rfAmountCents input, rpReason = rfReason input,
      rpReverseTransfer = or_default True (rfReverseTransfer input),
      rpRefundApplicationFee = or_default True (rfRefundApplicationFee input), rpOrderId = rfOrderId input\<rparr>"

definition refundPayment ::
  "(RefundParams \<Rightarrow> string \<Rightarrow> stripe_error + string \<times> string option) \<Rightarrow> RefundInput \<Rightarrow> stripe_error + string \<times> string option" where
  "refundPayment refunds input = refunds (refund_params input) (idempotency ''refund'' (rfOrderId input))"

section \<open>A connected account\<close>

definition MAX_ACCOUNT_KEY_ATTEMPTS :: nat where "MAX_ACCOUNT_KEY_ATTEMPTS = 5"

definition accountIdempotency :: "string \<Rightarrow> nat \<Rightarrow> string" where
  "accountIdempotency userId attempt =
     (if attempt = 0 then idempotency ''account'' userId
      else ''account:'' @ userId @ ''/'' @ string_of_nat (attempt + 1))"

definition provesNothingWasCreated :: "stripe_error \<Rightarrow> bool" where
  "provesNothingWasCreated e \<longleftrightarrow> e \<in> {InvalidRequest, Authentication, Permission, IdempotencyMismatch}"

text \<open>The parameters vary only in the person and the address; the rest is fixed in the code.\<close>

record account_params =
  apUserId :: string
  apContactEmail :: string

type_synonym 'p create_account = "string \<Rightarrow> account_params \<Rightarrow> 'p \<Rightarrow> (stripe_error + string) \<times> 'p"

text \<open>What the caller does with the answer to one attempt.\<close>

datatype attempt_result = TryNext nat | GotAccount string | GaveUp stripe_error

definition after_attempt :: "nat \<Rightarrow> stripe_error + string \<Rightarrow> attempt_result" where
  "after_attempt attempt answer =
     (case answer of
        Inr accountId \<Rightarrow> GotAccount accountId
      | Inl e \<Rightarrow>
          if attempt + 1 \<ge> MAX_ACCOUNT_KEY_ATTEMPTS \<or> \<not> provesNothingWasCreated e then GaveUp e
          else TryNext (attempt + 1))"

function account_attempts :: "'p create_account \<Rightarrow> account_params \<Rightarrow> nat \<Rightarrow> 'p \<Rightarrow> (stripe_error + string) \<times> 'p" where
  "account_attempts create params attempt p =
     (case create (accountIdempotency (apUserId params) attempt) params p of
        (answer, p') \<Rightarrow>
          (case after_attempt attempt answer of
             GotAccount i \<Rightarrow> (Inr i, p')
           | GaveUp e \<Rightarrow> (Inl e, p')
           | TryNext n \<Rightarrow> account_attempts create params n p'))"
  by pat_completeness auto
termination
  by (relation "measure (\<lambda>(create, params, attempt, p). MAX_ACCOUNT_KEY_ATTEMPTS - attempt)")
     (auto simp: after_attempt_def split: sum.splits if_splits)

text \<open>\<open>hold\<close> is the second call, which puts the payouts on a manual schedule.\<close>

definition createConnectedAccount ::
  "'p create_account \<Rightarrow> (string \<Rightarrow> string \<Rightarrow> 'p \<Rightarrow> stripe_error option \<times> 'p) \<Rightarrow> string \<Rightarrow> string \<Rightarrow> 'p
     \<Rightarrow> (stripe_error + string) \<times> 'p" where
  "createConnectedAccount create hold userId email p =
     (case account_attempts create \<lparr>apUserId = userId, apContactEmail = email\<rparr> 0 p of
        (Inl e, p') \<Rightarrow> (Inl e, p')
      | (Inr accountId, p') \<Rightarrow>
          (case hold accountId (idempotency ''account-hold'' accountId) p' of
             (Some e, p'') \<Rightarrow> (Inl e, p'')
           | (None, p'') \<Rightarrow> (Inr accountId, p'')))"

section \<open>One account per person\<close>

text \<open>
  What the provider promises about keys, over what it remembers of each key (\<open>memo\<close>: the parameters and
  the answer) and the accounts it has made: a remembered key is answered from memory when the parameters
  agree and as a mismatch otherwise; a fresh one is tried, a refusal (a 400, 401 or 403) is remembered and made
  nothing, and any other error leaves open whether there is an account now.
\<close>

definition refused_by_provider :: "stripe_error \<Rightarrow> bool" where
  "refused_by_provider e \<longleftrightarrow> e \<in> {InvalidRequest, Authentication, Permission}"

definition idempotent_provider ::
  "'p create_account \<Rightarrow> ('p \<Rightarrow> string \<Rightarrow> (account_params \<times> (stripe_error + string)) option) \<Rightarrow> ('p \<Rightarrow> string list) \<Rightarrow> bool"
where
  "idempotent_provider create memo made \<longleftrightarrow>
     (\<forall>k params p a. memo p k = Some (params, a) \<longrightarrow> create k params p = (a, p))
     \<and> (\<forall>k params p q a. memo p k = Some (q, a) \<longrightarrow> q \<noteq> params \<longrightarrow> create k params p = (Inl IdempotencyMismatch, p))
     \<and> (\<forall>k params p a p'. memo p k = None \<longrightarrow> create k params p = (a, p') \<longrightarrow>
          (\<forall>k'. k' \<noteq> k \<longrightarrow> memo p' k' = memo p k')
          \<and> (case a of
               Inr i \<Rightarrow> memo p' k = Some (params, Inr i) \<and> made p' = made p @ [i]
             | Inl e \<Rightarrow>
                 if refused_by_provider e then memo p' k = Some (params, Inl e) \<and> made p' = made p
                 else e \<noteq> IdempotencyMismatch \<and>
                    ((memo p' k \<in> {None, Some (params, Inl e)} \<and> made p' = made p)
                    \<or> (\<exists>i. memo p' k \<in> {Some (params, Inr i), Some (params, Inl e)} \<and> made p' = made p @ [i]))))"

text \<open>Any number of requests of one person at once, each between two of its attempts.\<close>

inductive onboarding_step ::
  "'p create_account \<Rightarrow> account_params \<Rightarrow> 'p \<times> attempt_result list \<Rightarrow> 'p \<times> attempt_result list \<Rightarrow> bool"
  for create params where
  arrive: "onboarding_step create params (p, cs) (p, cs @ [TryNext 0])"
| attempt: "onboarding_step create params (p, xs @ TryNext n # ys) (p', xs @ after_attempt n answer # ys)"
    if "create (accountIdempotency (apUserId params) n) params p = (answer, p')"
| die: "onboarding_step create params (p, xs @ c # ys) (p, xs @ ys)"

lemma accountIdempotency_inj [simp]: "accountIdempotency u m = accountIdempotency u n \<longleftrightarrow> m = n"
  by (auto simp: accountIdempotency_def idempotency_def string_of_nat_inj dest: arg_cong [of _ _ length])

definition refused_key where
  "refused_key memo params p n \<longleftrightarrow>
     (\<exists>e. memo p (accountIdempotency (apUserId params) n) = Some (params, Inl e) \<and> provesNothingWasCreated e)"

definition caller_ok where
  "caller_ok memo params p n c \<longleftrightarrow>
     (case c of TryNext a \<Rightarrow> a \<le> n
      | GotAccount i \<Rightarrow> memo p (accountIdempotency (apUserId params) n) = Some (params, Inr i)
      | GaveUp e \<Rightarrow> True)"

text \<open>Keys below \<open>n\<close> hold refusals, those above it are fresh, and only \<open>n\<close> itself may have an account.\<close>

definition keys_inv where
  "keys_inv memo made params n p cs \<longleftrightarrow>
     (\<forall>a < n. refused_key memo params p a)
     \<and> (\<forall>a > n. memo p (accountIdempotency (apUserId params) a) = None)
     \<and> (case memo p (accountIdempotency (apUserId params) n) of
          None \<Rightarrow> made p = []
        | Some (q, Inr i) \<Rightarrow> q = params \<and> made p = [i]
        | Some (q, Inl e) \<Rightarrow> q = params \<and> \<not> provesNothingWasCreated e \<and> length (made p) \<le> 1)
     \<and> (\<forall>c \<in> set cs. caller_ok memo params p n c)"

lemma caller_ok_mono: "caller_ok memo params p n (TryNext a) \<Longrightarrow> n \<le> m \<Longrightarrow> caller_ok memo params p' m (TryNext a)"
  by (simp add: caller_ok_def)

lemma no_account_yet:
  assumes "memo p (accountIdempotency (apUserId params) n) = None" "caller_ok memo params p n c"
  shows "case c of GotAccount i \<Rightarrow> False | _ \<Rightarrow> True"
  using assms by (auto simp: caller_ok_def split: attempt_result.splits)

lemma caller_ok_change:
  assumes "caller_ok memo params p n c" "memo p (accountIdempotency (apUserId params) n) = None" "n \<le> m"
  shows "caller_ok memo params p' m c"
  using no_account_yet [OF assms(2,1)] assms(1,3) by (auto simp: caller_ok_def split: attempt_result.splits)

lemma replayed_attempt:
  assumes inv: "keys_inv memo made params n p (xs @ TryNext a # ys)"
    and c: "caller_ok memo params p n (after_attempt a answer)"
  shows "keys_inv memo made params n p (xs @ after_attempt a answer # ys)"
  using inv c by (auto simp: keys_inv_def)

lemma refusals_prove:
  "e \<noteq> IdempotencyMismatch \<Longrightarrow> provesNothingWasCreated e \<longleftrightarrow> refused_by_provider e"
  by (auto simp: provesNothingWasCreated_def refused_by_provider_def)

lemma fresh_answer:
  "idempotent_provider create memo made \<Longrightarrow> memo p k = None \<Longrightarrow> create k params p = (a, p') \<Longrightarrow>
     (\<forall>k'. k' \<noteq> k \<longrightarrow> memo p' k' = memo p k')
     \<and> (case a of
          Inr i \<Rightarrow> memo p' k = Some (params, Inr i) \<and> made p' = made p @ [i]
        | Inl e \<Rightarrow>
            if refused_by_provider e then memo p' k = Some (params, Inl e) \<and> made p' = made p
            else e \<noteq> IdempotencyMismatch \<and> ((memo p' k \<in> {None, Some (params, Inl e)} \<and> made p' = made p)
               \<or> (\<exists>i. memo p' k \<in> {Some (params, Inr i), Some (params, Inl e)} \<and> made p' = made p @ [i])))"
  unfolding idempotent_provider_def by blast

lemma fresh_call:
  "idempotent_provider create memo made \<Longrightarrow> memo p k = None \<Longrightarrow> create k params p = (a, p') \<Longrightarrow>
     (\<forall>k'. k' \<noteq> k \<longrightarrow> memo p' k' = memo p k')
     \<and> (case a of
          Inr i \<Rightarrow> memo p' k = Some (params, Inr i) \<and> made p' = made p @ [i]
        | Inl e \<Rightarrow>
            if provesNothingWasCreated e then memo p' k = Some (params, Inl e) \<and> made p' = made p
            else (memo p' k \<in> {None, Some (params, Inl e)} \<and> made p' = made p)
               \<or> (\<exists>i. memo p' k \<in> {Some (params, Inr i), Some (params, Inl e)} \<and> made p' = made p @ [i]))"
  using fresh_answer [of create memo made p k params a p'] refusals_prove
  by (cases a) (simp_all add: refused_by_provider_def provesNothingWasCreated_def split: if_splits)

lemma replayed_call:
  "idempotent_provider create memo made \<Longrightarrow> memo p k = Some (params, a) \<Longrightarrow> create k params p = (a, p)"
  unfolding idempotent_provider_def by blast

lemma fresh_attempt:
  assumes prov: "idempotent_provider create memo made"
    and inv: "keys_inv memo made params n p (xs @ TryNext n # ys)"
    and fresh: "memo p (accountIdempotency (apUserId params) n) = None"
    and call: "create (accountIdempotency (apUserId params) n) params p = (answer, p')"
  shows "\<exists>m. keys_inv memo made params m p' (xs @ after_attempt n answer # ys)"
proof -
  let ?k = "accountIdempotency (apUserId params)"
  have none: "made p = []" using inv fresh by (simp add: keys_inv_def)
  have below: "\<forall>a < n. refused_key memo params p a" and above: "\<forall>a > n. memo p (?k a) = None"
    and callers: "\<forall>c \<in> set (xs @ TryNext n # ys). caller_ok memo params p n c"
    using inv by (simp_all add: keys_inv_def)
  have others: "memo p' (?k a) = memo p (?k a)" if "a \<noteq> n" for a
    using fresh_call [OF prov fresh call] that by simp
  have res: "case answer of
               Inr i \<Rightarrow> memo p' (?k n) = Some (params, Inr i) \<and> made p' = [i]
             | Inl e \<Rightarrow>
                 if provesNothingWasCreated e then memo p' (?k n) = Some (params, Inl e) \<and> made p' = []
                 else (memo p' (?k n) \<in> {None, Some (params, Inl e)} \<and> made p' = [])
                    \<or> (\<exists>i. memo p' (?k n) \<in> {Some (params, Inr i), Some (params, Inl e)} \<and> made p' = [i])"
    using fresh_call [OF prov fresh call] none by (cases answer) (auto split: if_splits)
  have below': "\<forall>a < n. refused_key memo params p' a" using below others by (simp add: refused_key_def)
  have rest: "\<forall>c \<in> set (xs @ ys). caller_ok memo params p' m c" if "n \<le> m" for m
    using callers caller_ok_change [of memo params p n, OF _ fresh that] by auto
  show ?thesis
  proof (cases answer)
    case (Inr i)
    then have "keys_inv memo made params n p' (xs @ after_attempt n answer # ys)"
      using res below' others above rest [OF le_refl] by (auto simp: keys_inv_def after_attempt_def caller_ok_def)
    then show ?thesis ..
  next
    case (Inl e)
    show ?thesis
    proof (cases "provesNothingWasCreated e")
      case True
      have "memo p' (?k (Suc n)) = None" using others [of "Suc n"] above by simp
      moreover have "\<forall>a < Suc n. refused_key memo params p' a"
        using below' res Inl True by (auto simp: refused_key_def less_Suc_eq)
      moreover have "\<forall>a > Suc n. memo p' (?k a) = None" using others above by simp
      moreover have "caller_ok memo params p' (Suc n) (after_attempt n answer)"
        using Inl by (auto simp: after_attempt_def caller_ok_def)
      ultimately have "keys_inv memo made params (Suc n) p' (xs @ after_attempt n answer # ys)"
        using res Inl True rest [of "Suc n"] by (auto simp: keys_inv_def)
      then show ?thesis ..
    next
      case False
      then have "after_attempt n answer = GaveUp e" using Inl by (simp add: after_attempt_def)
      then have "keys_inv memo made params n p' (xs @ after_attempt n answer # ys)"
        using res Inl False below' others above rest [OF le_refl] by (auto simp: keys_inv_def caller_ok_def)
      then show ?thesis ..
    qed
  qed
qed

lemma onboarding_step_inv:
  assumes prov: "idempotent_provider create memo made"
    and step: "onboarding_step create params s s'" and inv: "keys_inv memo made params n (fst s) (snd s)"
  shows "\<exists>m. keys_inv memo made params m (fst s') (snd s')"
  using step
proof cases
  case (arrive p cs)
  then have "keys_inv memo made params n (fst s') (snd s')" using inv by (auto simp: keys_inv_def caller_ok_def)
  then show ?thesis ..
next
  case (die p xs c ys)
  then have "keys_inv memo made params n (fst s') (snd s')" using inv by (auto simp: keys_inv_def)
  then show ?thesis ..
next
  case (attempt a p answer p' xs ys)
  let ?k = "accountIdempotency (apUserId params)"
  have inv': "keys_inv memo made params n p (xs @ TryNext a # ys)" using inv attempt(1) by simp
  have replay: "memo p (?k a) = Some (params, x) \<Longrightarrow> answer = x \<and> p' = p" for x
    using replayed_call [OF prov] attempt(3) by fastforce
  have "a \<le> n" using inv' by (auto simp: keys_inv_def caller_ok_def)
  then consider "a < n" | "a = n" "memo p (?k n) = None"
    | x where "a = n" "memo p (?k n) = Some (params, x)"
  proof (cases "a < n")
    case False
    then have "a = n" using \<open>a \<le> n\<close> by simp
    show ?thesis
    proof (cases "memo p (?k n)")
      case (Some qx)
      obtain q x where "qx = (q, x)" by force
      moreover have "q = params" using inv' Some \<open>qx = (q, x)\<close> by (cases x) (simp_all add: keys_inv_def)
      ultimately show ?thesis using that(3) Some \<open>a = n\<close> by simp
    qed (use that(2) \<open>a = n\<close> in simp)
  qed (use that(1) in simp)
  then show ?thesis
  proof cases
    case 1
    then obtain e where e: "memo p (?k a) = Some (params, Inl e)" using inv' by (auto simp: keys_inv_def refused_key_def)
    then have "caller_ok memo params p n (after_attempt a answer)"
      using replay [OF e] 1 by (auto simp: after_attempt_def caller_ok_def)
    then show ?thesis using replayed_attempt [OF inv'] attempt(2) replay [OF e] by auto
  next
    case 2
    then show ?thesis using fresh_attempt [OF prov inv' [unfolded 2(1)] 2(2)] attempt by simp
  next
    case (3 x)
    have "caller_ok memo params p n (after_attempt a answer)"
      using replay [OF 3(2) [folded 3(1)]] 3 inv'
      by (auto simp: after_attempt_def caller_ok_def keys_inv_def split: sum.splits)
    then show ?thesis using replayed_attempt [OF inv'] attempt(2) replay [OF 3(2) [folded 3(1)]] by auto
  qed
qed


text \<open>
  A provider as its comments describe it: the state is what it remembers, the accounts made and what it will
  say to the next fresh keys. A remembered key with other parameters is refused as a mismatch.
\<close>

record demo_provider =
  dpMemo :: "(string \<times> account_params \<times> (stripe_error + string)) list"
  dpMade :: "string list"
  dpNext :: "(stripe_error + string) list"

definition demo_accounts_call :: "demo_provider create_account" where
  "demo_accounts_call k params p =
     (case map_of (dpMemo p) k of
        Some (q, a) \<Rightarrow> (if q = params then (a, p) else (Inl IdempotencyMismatch, p))
      | None \<Rightarrow>
          (case dpNext p of
             [] \<Rightarrow> (Inl ConnectionError, p)
           | a # rest \<Rightarrow>
               if a = Inl IdempotencyMismatch then (Inl ConnectionError, p)
               else (a, p\<lparr>dpMemo := (k, params, a) # dpMemo p,
                     dpMade := dpMade p @ (case a of Inr i \<Rightarrow> [i] | Inl e \<Rightarrow> []), dpNext := rest\<rparr>)))"

lemma demo_create_idempotent: "idempotent_provider demo_accounts_call (\<lambda>p k. map_of (dpMemo p) k) dpMade"
  unfolding idempotent_provider_def demo_accounts_call_def
  by (auto simp: refused_by_provider_def [of ConnectionError] split: list.splits sum.splits if_splits)

definition demo_params :: account_params where
  "demo_params = \<lparr>apUserId = ''u'', apContactEmail = ''a@x''\<rparr>"


text \<open>
  The address must stay: an account was made under the first key and its hold failed, so nothing recorded it;
  after a change of the address the first key is refused as a mismatch, which the client takes as a proof that
  nothing was made, and the second key makes a second account.
\<close>

lemma a_changed_address_makes_a_second_account:
  "let p0 = \<lparr>dpMemo = [], dpMade = [], dpNext = [Inr ''acct_1'', Inr ''acct_2'']\<rparr>;
       (r1, p1) = createConnectedAccount demo_accounts_call (\<lambda>_ _ p. (Some ConnectionError, p)) ''u'' ''a@x'' p0;
       (r2, p2) = createConnectedAccount demo_accounts_call (\<lambda>_ _ p. (None, p)) ''u'' ''b@x'' p1
   in r1 = Inl ConnectionError \<and> r2 = Inr ''acct_2'' \<and> dpMade p2 = [''acct_1'', ''acct_2'']"
  by (simp add: createConnectedAccount_def account_attempts.simps [of demo_accounts_call] demo_accounts_call_def after_attempt_def
      provesNothingWasCreated_def MAX_ACCOUNT_KEY_ATTEMPTS_def)

end
