(* ===== verification/SellerRoutes.thy ===== *)
theory SellerRoutes
  imports Payments BreakRoutes
begin

text \<open>
  Selling (\<open>apps/api/src/routes/seller.ts\<close>), reputation (\<open>apps/api/src/routes/ratings.ts\<close>), the job that
  lifts payout holds (\<open>apps/api/src/job-release-payouts.ts\<close>) and the one that finishes delivered orders
  (\<open>packages/db/src/jobs.ts\<close>). The provider's side is a state of its own that its calls change.
\<close>

section \<open>Becoming a seller\<close>

record seller_view =
  svOnboarded :: bool
  svChargesEnabled :: bool
  svPayoutsEnabled :: bool
  svTransfersStatus :: CapabilityStatus
  svPayoutsStatus :: CapabilityStatus
  svDisplayName :: "string option"

text \<open>\<open>status\<close> is the client's \<open>getAccountStatus\<close>, which may fail.\<close>

definition getSeller ::
  "(string \<Rightarrow> stripe_error + AccountStatus) \<Rightarrow> Subject option \<Rightarrow> api \<Rightarrow> reply \<times> seller_view option" where
  "getSeller status subject s =
     (case subject of
        None \<Rightarrow> (unauthenticated, None)
      | Some u \<Rightarrow>
          if authorize subject ListingRead None \<noteq> None then (forbidden, None)
          else case getSellerAccount (subUserId u) (fst s) of
            None \<Rightarrow>
              (Reply 200 ''ok'',
               Some \<lparr>svOnboarded = False, svChargesEnabled = False, svPayoutsEnabled = False,
                     svTransfersStatus = CapUnsupported, svPayoutsStatus = CapUnsupported, svDisplayName = None\<rparr>)
          | Some account \<Rightarrow>
              (case status (sStripeAccountId account) of
                 Inl _ \<Rightarrow> (internal_error, None)
               | Inr st \<Rightarrow>
                   (Reply 200 ''ok'',
                    Some \<lparr>svOnboarded = asDetailsSubmitted st, svChargesEnabled = (asTransfers st = CapActive),
                          svPayoutsEnabled = (asPayouts st = CapActive), svTransfersStatus = asTransfers st,
                          svPayoutsStatus = asPayouts st, svDisplayName = sDisplayName account\<rparr>)))"

definition displayNameSchema :: "string option \<Rightarrow> bool" where
  "displayNameSchema n \<longleftrightarrow> z_opt (\<lambda>s. 2 \<le> length s \<and> length s \<le> 40) n"

definition patchSeller :: "Subject option \<Rightarrow> string option \<Rightarrow> int \<Rightarrow> api \<Rightarrow> reply \<times> api" where
  "patchSeller subject displayName now s =
     (case subject of
        None \<Rightarrow> (unauthenticated, s)
      | Some u \<Rightarrow>
          if authorize subject ListingWrite None \<noteq> None then (forbidden, s)
          else if \<not> displayNameSchema displayName then (invalid_request, s)
          else
            let chosen = map_option trim displayName in
            case setSellerDisplayName (subUserId u) chosen now (fst s) of
              Inl DisplayNameTakenError \<Rightarrow> (Reply 409 ''name_taken'', s)
            | Inl (SellerDbError (CheckViolation _)) \<Rightarrow> (Reply 400 ''invalid_display_name'', s)
            | Inl _ \<Rightarrow> (internal_error, s)
            | Inr (None, db') \<Rightarrow> (Reply 409 ''not_a_seller'', (db', snd s))
            | Inr (Some account, db') \<Rightarrow>
                (Reply 200 ''ok'',
                 writeAuditLog
                   (user_audit (subUserId u) (if chosen = None then ''seller.name_cleared'' else ''seller.name_set'')
                     ''seller_account'' (sId account)) (db', snd s)))"

text \<open>
  \<open>email\<close> is the address of the person's profile, if there is one; \<open>create\<close> is \<open>createConnectedAccount\<close>
  for this person and address; \<open>worker\<close> says whether the worker's pool is configured and \<open>hold_written\<close>
  whether its statement goes through; \<open>link\<close> is the onboarding link.
\<close>

record 'p onboarding =
  obEmail :: "string option"
  obCreate :: "string \<Rightarrow> 'p \<Rightarrow> (stripe_error + string) \<times> 'p"
  obWorker :: bool
  obHoldWritten :: bool
  obLink :: "string \<Rightarrow> stripe_error + string"

definition onboarding_link :: "'p onboarding \<Rightarrow> string \<Rightarrow> reply \<times> string option" where
  "onboarding_link ob accountId =
     (case obLink ob accountId of Inl _ \<Rightarrow> (internal_error, None) | Inr url \<Rightarrow> (Reply 200 ''ok'', Some url))"

definition postOnboard ::
  "'p onboarding \<Rightarrow> Subject option \<Rightarrow> string \<Rightarrow> int \<Rightarrow> api \<times> 'p \<Rightarrow> (reply \<times> string option) \<times> api \<times> 'p" where
  "postOnboard ob subject newId now s =
     (case subject of
        None \<Rightarrow> ((unauthenticated, None), s)
      | Some u \<Rightarrow>
          if authorize subject ListingWrite None \<noteq> None then ((forbidden, None), s)
          else case getSellerAccount (subUserId u) (fst (fst s)) of
            Some existing \<Rightarrow> (onboarding_link ob (sStripeAccountId existing), s)
          | None \<Rightarrow>
              (case obEmail ob of
                 None \<Rightarrow> ((Reply 409 ''account_unavailable'', None), s)
               | Some email \<Rightarrow>
                   (case obCreate ob email (snd s) of
                      (Inl _, p) \<Rightarrow> ((internal_error, None), (fst s, p))
                    | (Inr accountId, p) \<Rightarrow>
                        (case recordSellerAccount (subUserId u) accountId newId now (fst (fst s)) of
                           Inl _ \<Rightarrow> ((internal_error, None), (fst s, p))
                         | Inr (recorded, db) \<Rightarrow>
                             let acct = sStripeAccountId recorded in
                             if obWorker ob \<and> \<not> obHoldWritten ob then ((internal_error, None), ((db, snd (fst s)), p))
                             else
                               let db' = (if obWorker ob
                                          then snd (holdSellerPayouts acct (now + HOLD_RELEASE_AFTER_DAYS * DAY_MS) now db)
                                          else db);
                                   s' = writeAuditLog (user_audit (subUserId u) ''seller.onboarding_started''
                                          ''seller_account'' (sId recorded)) (db', snd (fst s))
                               in (onboarding_link ob acct, (s', p))))))"

section \<open>Reputation\<close>

definition rateSchema :: "jsnum \<Rightarrow> string option \<Rightarrow> bool" where
  "rateSchema stars comment \<longleftrightarrow> z_between 1 5 stars \<and> z_max 500 comment"

definition postRating ::
  "(string \<Rightarrow> bool) \<Rightarrow> Subject option \<Rightarrow> string \<Rightarrow> jsnum \<Rightarrow> string option \<Rightarrow> string \<Rightarrow> int \<Rightarrow> api \<Rightarrow> reply \<times> api" where
  "postRating uuid subject k stars comment newId now s =
     (case subject of
        None \<Rightarrow> (unauthenticated, s)
      | Some u \<Rightarrow>
          if authorize subject OrderWrite None \<noteq> None then (forbidden, s)
          else if \<not> uuid k then (invalid_request, s)
          else if \<not> rateSchema stars comment then (invalid_request, s)
          else case rateOrder (subUserId u) k (to_int stars) comment newId now (fst s) of
            Inl AlreadyRatedError \<Rightarrow> (Reply 409 ''already_rated'', s)
          | Inl NotRatableError \<Rightarrow> (Reply 403 ''not_ratable'', s)
          | Inl _ \<Rightarrow> (internal_error, s)
          | Inr (rating, db') \<Rightarrow>
              (Reply 201 ''created'',
               writeAuditLog (user_audit (subUserId u) ''order.rated'' ''order'' k) (db', snd s)))"

definition patchRating ::
  "(string \<Rightarrow> bool) \<Rightarrow> Subject option \<Rightarrow> string \<Rightarrow> jsnum \<Rightarrow> string option \<Rightarrow> int \<Rightarrow> api \<Rightarrow> reply \<times> api" where
  "patchRating uuid subject k stars comment now s =
     (case subject of
        None \<Rightarrow> (unauthenticated, s)
      | Some u \<Rightarrow>
          if authorize subject OrderWrite None \<noteq> None then (forbidden, s)
          else if \<not> uuid k then (invalid_request, s)
          else if \<not> rateSchema stars comment then (invalid_request, s)
          else case updateRating (subUserId u) k (to_int stars) comment now (fst s) of
            Inl NotRatableError \<Rightarrow> (not_found, s)
          | Inl _ \<Rightarrow> (internal_error, s)
          | Inr (rating, db') \<Rightarrow> (Reply 200 ''ok'', (db', snd s)))"

definition getRating :: "(string \<Rightarrow> bool) \<Rightarrow> Subject option \<Rightarrow> string \<Rightarrow> api \<Rightarrow> reply \<times> Rating option" where
  "getRating uuid subject k s =
     (case subject of
        None \<Rightarrow> (unauthenticated, None)
      | Some u \<Rightarrow>
          if authorize subject OrderRead None \<noteq> None then (forbidden, None)
          else if \<not> uuid k then (invalid_request, None)
          else case getMyRating (subUserId u) k (fst s) of
            None \<Rightarrow> (not_found, None)
          | Some r \<Rightarrow> (Reply 200 ''ok'', Some r))"

definition getSellerRatings ::
  "Subject option \<Rightarrow> string \<Rightarrow> nat \<Rightarrow> api \<Rightarrow> reply \<times> (Reputation \<times> PublicRating list) option" where
  "getSellerRatings subject k limit s =
     (case subject of
        None \<Rightarrow> (unauthenticated, None)
      | Some u \<Rightarrow>
          if authorize subject ListingRead None \<noteq> None then (forbidden, None)
          else if length k = 0 \<or> length k > 64 then (not_found, None)
          else (Reply 200 ''ok'', Some (getReputation k (fst s), listSellerRatings k limit (fst s))))"

section \<open>Lifting payout holds\<close>

datatype schedule = ManualPayouts | DailyPayouts

text \<open>
  \<open>stripe_ok\<close> and \<open>db_ok\<close> say for which accounts the provider's call and the statement after it go through;
  \<open>audit_ok\<close> the same of the audit entry. The provider keeps one schedule per account.
\<close>

record release_env =
  reStripe :: "string \<Rightarrow> bool"
  reDb :: "string \<Rightarrow> bool"
  reAudit :: "string \<Rightarrow> bool"
  reNow :: int

type_synonym payout_state = "api \<times> (string \<Rightarrow> schedule)"

definition hold_status :: "HeldSeller \<Rightarrow> HoldStatus" where
  "hold_status h = \<lparr>completedOrders = hsCompletedOrders h, firstCompletedAt = hsFirstCompletedAt h\<rparr>"

definition machine_release :: "string \<Rightarrow> AuditEntry" where
  "machine_release acct = machine_audit ''seller.payouts_released'' ''seller_account'' acct"

definition release_one :: "release_env \<Rightarrow> HeldSeller \<Rightarrow> payout_state \<Rightarrow> payout_state" where
  "release_one env h s =
     (let acct = hsStripeAccountId h; book = snd s in
      if canReleaseHold (hold_status h) (reNow env) \<noteq> Release then s
      else if \<not> reStripe env acct then s
      else
        let book' = book(acct := DailyPayouts) in
        if \<not> reDb env acct then (fst s, book')
        else
          let db' = snd (releaseSellerPayouts acct (reNow env) (fst (fst s))) in
          if \<not> reAudit env acct then ((db', snd (fst s)), book')
          else (writeAuditLog (machine_release acct) (db', snd (fst s)), book'))"

definition HELD_SELLERS_LIMIT :: nat where "HELD_SELLERS_LIMIT = 200"

definition releasePayoutHoldsJob :: "release_env \<Rightarrow> payout_state \<Rightarrow> payout_state" where
  "releasePayoutHoldsJob env s = fold (release_one env) (heldSellers HELD_SELLERS_LIMIT (fst (fst s))) s"

section \<open>Finishing delivered orders\<close>

text \<open>The number completed and the orders left alone.\<close>

fun complete_rows ::
  "(string \<Rightarrow> string) \<Rightarrow> int \<Rightarrow> Order list \<Rightarrow> nat \<times> string list \<Rightarrow> market_db \<Rightarrow> (nat \<times> string list) \<times> market_db" where
  "complete_rows evId0 now [] r db = (r, db)"
| "complete_rows evId0 now (order # ready) (completed, skipped) db =
     (case completeOrder (oId order) BySystem None None (evId0 (oId order)) now db of
        Inl e \<Rightarrow> complete_rows evId0 now ready (completed, skipped @ [oId order]) db
      | Inr (_, db') \<Rightarrow> complete_rows evId0 now ready (completed + 1, skipped) db')"

definition completeDeliveredJob ::
  "(string \<Rightarrow> string) \<Rightarrow> int \<Rightarrow> market_db \<Rightarrow> (nat \<times> string list) \<times> market_db" where
  "completeDeliveredJob evId0 now db =
     complete_rows evId0 now (ordersReadyToComplete now AUTO_COMPLETE_AFTER_DAYS db) (0, []) db"

end
