(* ===== verification/SellerProps.thy ===== *)
theory SellerProps
  imports SellerRoutes
begin

text \<open>
  What the release of payouts promises, and two ways a seller stays held: an onboarding whose hold was never
  written, and two hundred older accounts that never sell.
\<close>

section \<open>The job in closed form\<close>

definition may_release :: "release_env \<Rightarrow> HeldSeller \<Rightarrow> bool" where
  "may_release env h \<longleftrightarrow>
     canReleaseHold (hold_status h) (reNow env) = Release \<and> reStripe env (hsStripeAccountId h)"

definition is_released :: "release_env \<Rightarrow> HeldSeller list \<Rightarrow> string \<Rightarrow> bool" where
  "is_released env hs acct \<longleftrightarrow> (\<exists>h \<in> set hs. hsStripeAccountId h = acct \<and> may_release env h)"

definition lifted :: "release_env \<Rightarrow> HeldSeller list \<Rightarrow> SellerAccount \<Rightarrow> SellerAccount" where
  "lifted env hs a =
     (if is_released env hs (sStripeAccountId a) \<and> reDb env (sStripeAccountId a)
      then a\<lparr>sHoldUntil := None, sUpdatedAt := reNow env\<rparr> else a)"

lemma audit_db [simp]: "fst (writeAuditLog e s) = fst s"
  by (simp add: writeAuditLog_def split: prod.splits)

lemma release_one_book:
  "snd (release_one env h s) acct =
     (if hsStripeAccountId h = acct \<and> may_release env h then DailyPayouts else snd s acct)"
  by (auto simp: release_one_def Let_def may_release_def)

lemma release_one_rows:
  "sellerAccounts (fst (fst (release_one env h s))) =
     map (\<lambda>a. if hsStripeAccountId h = sStripeAccountId a \<and> may_release env h \<and> reDb env (sStripeAccountId a)
               then a\<lparr>sHoldUntil := None, sUpdatedAt := reNow env\<rparr> else a) (sellerAccounts (fst (fst s)))"
proof (cases "may_release env h \<and> reDb env (hsStripeAccountId h)")
  case True
  then show ?thesis
    by (auto simp: release_one_def Let_def may_release_def releaseSellerPayouts_def update_by_stripe_def update_row_def)
next
  case False
  have "sellerAccounts (fst (fst (release_one env h s))) = sellerAccounts (fst (fst s))"
    using False by (auto simp: release_one_def Let_def may_release_def)
  moreover have "map (\<lambda>a. if hsStripeAccountId h = sStripeAccountId a \<and> may_release env h \<and> reDb env (sStripeAccountId a)
      then a\<lparr>sHoldUntil := None, sUpdatedAt := reNow env\<rparr> else a) xs = xs" for xs :: "SellerAccount list"
    using False by (intro map_idI) auto
  ultimately show ?thesis by (simp only:)
qed

lemma fold_release_book:
  "snd (fold (release_one env) hs s) acct = (if is_released env hs acct then DailyPayouts else snd s acct)"
  by (induction hs arbitrary: s) (auto simp: is_released_def release_one_book)

lemma fold_release_rows:
  "sellerAccounts (fst (fst (fold (release_one env) hs s))) = map (lifted env hs) (sellerAccounts (fst (fst s)))"
proof (induction hs arbitrary: s)
  case Nil
  then show ?case by (simp add: lifted_def is_released_def map_idI)
next
  case (Cons h hs)
  show ?case
    by (simp add: Cons.IH release_one_rows) (auto simp: lifted_def is_released_def)
qed

section \<open>Who is asked\<close>

definition held_view :: "market_db \<Rightarrow> SellerAccount \<Rightarrow> HeldSeller" where
  "held_view db a =
     (let done = filter (\<lambda>r. oSellerId r = sUserId a \<and> oStatus r = Completed) (orders db)
      in \<lparr>hsUserId = sUserId a, hsStripeAccountId = sStripeAccountId a, hsCompletedOrders = int (length done),
          hsFirstCompletedAt = min_opt (List.map_filter oCompletedAt done)\<rparr>)"

definition asked :: "nat \<Rightarrow> market_db \<Rightarrow> SellerAccount list" where
  "asked limit db = take limit (sort_key sCreatedAt (filter (\<lambda>a. sHoldUntil a \<noteq> None) (sellerAccounts db)))"

lemma heldSellers_asked: "heldSellers limit db = map (held_view db) (asked limit db)"
  unfolding heldSellers_def asked_def held_view_def by simp

lemma asked_held: "a \<in> set (asked limit db) \<Longrightarrow> a \<in> set (sellerAccounts db) \<and> sHoldUntil a \<noteq> None"
  unfolding asked_def by (drule in_set_takeD) simp

lemma is_released_iff:
  assumes "distinct (map sStripeAccountId (sellerAccounts db))" "a \<in> set (sellerAccounts db)"
  shows "is_released env (heldSellers limit db) (sStripeAccountId a)
     \<longleftrightarrow> a \<in> set (asked limit db) \<and> may_release env (held_view db a)"
proof -
  have acct: "hsStripeAccountId (held_view db x) = sStripeAccountId x" for x by (simp add: held_view_def Let_def)
  have same: "x = a" if "x \<in> set (asked limit db)" "sStripeAccountId x = sStripeAccountId a" for x
    using asked_held [OF that(1)] assms that(2) by (auto simp: distinct_map dest: inj_onD)
  show ?thesis
    unfolding is_released_def heldSellers_asked using same acct by auto
qed


text \<open>Two held sellers, one with three finished orders.\<close>

definition demo_held_account :: "string \<Rightarrow> string \<Rightarrow> SellerAccount" where
  "demo_held_account person acct =
     \<lparr>sId = acct, sUserId = person, sStripeAccountId = acct, sChargesEnabled = True, sPayoutsEnabled = True,
      sHoldUntil = Some 5, sDisplayName = None, sCreatedAt = 0, sUpdatedAt = 0\<rparr>"

definition demo_finished :: "string \<Rightarrow> int \<Rightarrow> Order" where
  "demo_finished k t = (new_order ''bob'' demo_order k 0)\<lparr>oSellerId := ''ann'', oStatus := Completed, oCompletedAt := Some t\<rparr>"

definition demo_sellers :: market_db where
  "demo_sellers = (market_run demo_users demo_cards [])
     \<lparr>orders := [demo_finished ''o1'' 0, demo_finished ''o2'' 1, demo_finished ''o3'' 2],
      sellerAccounts := [demo_held_account ''ann'' ''acct_1'', demo_held_account ''bob'' ''acct_2'']\<rparr>"

definition demo_release :: release_env where
  "demo_release = \<lparr>reStripe = \<lambda>_. True, reDb = \<lambda>_. True, reAudit = \<lambda>_. False, reNow = 604800000\<rparr>"

lemmas demo_sale_facts = canReleaseHold_def hold_status_def held_view_def demo_sellers_def demo_held_account_def
  demo_finished_def HOLD_RELEASE_AFTER_ORDERS_def HOLD_RELEASE_AFTER_DAYS_def DAY_MS_def

lemma demo_earned:
  "canReleaseHold (hold_status (held_view demo_sellers (demo_held_account ''ann'' ''acct_1''))) 604800000 = Release"
  by (simp add: demo_sale_facts min_opt_def List.map_filter_simps)

lemma demo_not_earned:
  "canReleaseHold (hold_status (held_view demo_sellers (demo_held_account ''bob'' ''acct_2''))) 604800000 = Hold NoCompletedOrders"
  by (simp add: demo_sale_facts min_opt_def List.map_filter_simps)

lemma demo_sellers_asked:
  "asked HELD_SELLERS_LIMIT demo_sellers = [demo_held_account ''ann'' ''acct_1'', demo_held_account ''bob'' ''acct_2'']"
  by (simp add: asked_def demo_sellers_def demo_held_account_def HELD_SELLERS_LIMIT_def)


section \<open>Held for ever\<close>

text \<open>An onboarding whose hold was not written leaves a row that no later onboarding and no release changes.\<close>

lemma an_unwritten_hold_stays:
  assumes "distinct (map sStripeAccountId (sellerAccounts db))" "a \<in> set (sellerAccounts db)" "sHoldUntil a = None"
    and "getSellerAccount (subUserId u) db = Some a"
  shows "snd (releasePayoutHoldsJob env ((db, log0), book)) (sStripeAccountId a) = book (sStripeAccountId a)"
    "snd (postOnboard ob (Some u) newId now ((db, log0), p)) = ((db, log0), p)"
proof -
  have "a \<notin> set (asked HELD_SELLERS_LIMIT db)" using asked_held assms(3) by blast
  then show "snd (releasePayoutHoldsJob env ((db, log0), book)) (sStripeAccountId a) = book (sStripeAccountId a)"
    using is_released_iff [OF assms(1,2)] by (simp add: releasePayoutHoldsJob_def fold_release_book)
  show "snd (postOnboard ob (Some u) newId now ((db, log0), p)) = ((db, log0), p)"
    using assms(4) by (simp add: postOnboard_def)
qed

text \<open>Whoever has as many older held accounts before them as the job asks for is never asked about.\<close>

lemma taken_have_few_before:
  assumes "x \<in> set (take n (sort_key f xs))"
  shows "length (filter (\<lambda>y. f y < f x) xs) < n"
proof -
  let ?ys = "sort_key f xs"
  obtain i where i: "i < n" "i < length ?ys" "x = ?ys ! i"
    using assms by (auto simp: in_set_conv_nth)
  have "j < i" if "j < length ?ys" "f (?ys ! j) < f x" for j
  proof (rule ccontr)
    assume "\<not> j < i"
    then have "f (?ys ! i) \<le> f (?ys ! j)"
      using sorted_nth_mono [OF sorted_sort_key, of i j f xs] that(1) i(2) by simp
    then show False using that(2) i(3) by simp
  qed
  then have "{j. j < length ?ys \<and> f (?ys ! j) < f x} \<subseteq> {..<i}" by auto
  then have "card {j. j < length ?ys \<and> f (?ys ! j) < f x} \<le> i" using card_mono [of "{..<i}"] by fastforce
  then have "length (filter (\<lambda>y. f y < f x) ?ys) \<le> i" by (simp add: length_filter_conv_card)
  moreover have "mset (filter (\<lambda>y. f y < f x) ?ys) = mset (filter (\<lambda>y. f y < f x) xs)" by simp
  then have "length (filter (\<lambda>y. f y < f x) ?ys) = length (filter (\<lambda>y. f y < f x) xs)" by (metis size_mset)
  ultimately show ?thesis using i(1) by simp
qed

lemma older_sellers_starve_younger:
  assumes "distinct (map sStripeAccountId (sellerAccounts db))" "a \<in> set (sellerAccounts db)"
    and "HELD_SELLERS_LIMIT \<le> length (filter (\<lambda>x. sCreatedAt x < sCreatedAt a) (filter (\<lambda>x. sHoldUntil x \<noteq> None) (sellerAccounts db)))"
  shows "snd (releasePayoutHoldsJob env ((db, log0), book)) (sStripeAccountId a) = book (sStripeAccountId a)"
proof -
  have "a \<notin> set (asked HELD_SELLERS_LIMIT db)"
    using taken_have_few_before [of a HELD_SELLERS_LIMIT sCreatedAt "filter (\<lambda>x. sHoldUntil x \<noteq> None) (sellerAccounts db)"]
      assms(3) by (auto simp: asked_def)
  then show ?thesis
    using is_released_iff [OF assms(1,2)] by (simp add: releasePayoutHoldsJob_def fold_release_book)
qed

end
