(* ===== verification/Switches.thy ===== *)
theory Switches
  imports Access Webhook MarketRoutes
begin

text \<open>
  Kill switches (\<open>packages/db/src/queries/flags.ts\<close>, migration 0039, \<open>plugins/kill-switch.ts\<close>): the table
  of overrides, in which an absent row means on, and the reader every process keeps, with its short memory,
  its one read in flight and its refresh.
\<close>

section \<open>The table\<close>

definition alertsEnabled :: string where "alertsEnabled = ''alerts.enabled''"
definition publicApiEnabled :: string where "publicApiEnabled = ''api.public.enabled''"
definition scannerIngestEnabled :: string where "scannerIngestEnabled = ''scanner.ingest.enabled''"
definition checkoutEnabled :: string where "checkoutEnabled = ''market.checkout.enabled''"

definition ALL_FLAGS :: "string list" where
  "ALL_FLAGS = [alertsEnabled, publicApiEnabled, scannerIngestEnabled, checkoutEnabled]"

definition isKnownFlag :: "string \<Rightarrow> bool" where
  "isKnownFlag key \<longleftrightarrow> List.member ALL_FLAGS key"

record FlagState =
  fsKey :: string
  fsEnabled :: bool
  fsReason :: string
  fsUpdatedAt :: int
  fsUpdatedBy :: "string option"

text \<open>The order of the keys is the database's collation.\<close>

definition listFlagOverrides :: "(FlagState list \<Rightarrow> FlagState list) \<Rightarrow> FlagState list \<Rightarrow> FlagState list" where
  "listFlagOverrides collate rows = collate rows"

definition listed_flag :: "FlagState list \<Rightarrow> string \<Rightarrow> FlagState" where
  "listed_flag rows key =
     (case find_row fsKey key rows of
        Some state \<Rightarrow> state
      | None \<Rightarrow> \<lparr>fsKey = key, fsEnabled = True, fsReason = [], fsUpdatedAt = 0, fsUpdatedBy = None\<rparr>)"

definition listFlags :: "FlagState list \<Rightarrow> FlagState list" where
  "listFlags rows = map (listed_flag rows) ALL_FLAGS"

text \<open>The upsert: a new key is appended, a known one changes in place.\<close>

definition setFlag :: "string \<Rightarrow> bool \<Rightarrow> string \<Rightarrow> string \<Rightarrow> int \<Rightarrow> FlagState list \<Rightarrow> FlagState list" where
  "setFlag key enabled actorId reason now rows =
     (let state = \<lparr>fsKey = key, fsEnabled = enabled, fsReason = reason, fsUpdatedAt = now, fsUpdatedBy = Some actorId\<rparr>
      in if find_row fsKey key rows = None then rows @ [state] else update_row fsKey key (\<lambda>_. state) rows)"

text \<open>What the table says of a key: off only where a row says so.\<close>

definition off_keys :: "FlagState list \<Rightarrow> string set" where
  "off_keys overrides = set (map fsKey (filter (\<lambda>state. \<not> fsEnabled state) overrides))"

definition keyed_flags :: "FlagState list \<Rightarrow> bool" where
  "keyed_flags rows \<longleftrightarrow> distinct (map fsKey rows)"

lemma off_keys_iff: "key \<in> off_keys rows \<longleftrightarrow> (\<exists>state \<in> set rows. fsKey state = key \<and> \<not> fsEnabled state)"
  by (auto simp: off_keys_def)

lemma setFlag_rows:
  "set (setFlag key enabled actorId reason now rows) =
     insert \<lparr>fsKey = key, fsEnabled = enabled, fsReason = reason, fsUpdatedAt = now, fsUpdatedBy = Some actorId\<rparr>
       {r \<in> set rows. fsKey r \<noteq> key}"
proof (cases "find_row fsKey key rows = None")
  case True
  then show ?thesis by (auto simp: setFlag_def Let_def find_row_None_iff)
next
  case False
  then obtain r where "r \<in> set rows" "fsKey r = key" by (auto simp: find_row_None_iff)
  then show ?thesis using False by (auto simp: setFlag_def Let_def update_row_def)
qed

lemma setFlag_off:
  "off_keys (setFlag key enabled actorId reason now rows) = (if enabled then off_keys rows - {key} else insert key (off_keys rows))"
  by (auto simp: off_keys_iff setFlag_rows)

lemma setFlag_keyed: "keyed_flags rows \<Longrightarrow> keyed_flags (setFlag key enabled actorId reason now rows)"
proof -
  have "map fsKey (update_row fsKey key (\<lambda>_. state) rows) = map fsKey rows" if "fsKey state = key" for state :: FlagState
    using that by (auto simp: update_row_def)
  then show "keyed_flags rows \<Longrightarrow> keyed_flags (setFlag key enabled actorId reason now rows)"
    by (auto simp: keyed_flags_def setFlag_def Let_def find_row_None_iff)
qed

text \<open>No operation forgets a row: what was switched, when, by whom and why stays until it is switched again.\<close>

lemma setFlag_remembers:
  "fsKey ` set rows \<subseteq> fsKey ` set (setFlag key enabled actorId reason now rows)
   \<and> (state \<in> set rows \<longrightarrow> fsKey state \<noteq> key \<longrightarrow> state \<in> set (setFlag key enabled actorId reason now rows))"
  by (auto simp: setFlag_rows)

lemma find_flag:
  "keyed_flags rows \<Longrightarrow> find_row fsKey key rows = Some state \<longleftrightarrow> state \<in> set rows \<and> fsKey state = key"
  unfolding keyed_flags_def by (induction rows) auto

lemma listFlags_off:
  assumes "keyed_flags rows"
  shows "fsKey (listed_flag rows key) = key \<and> (fsEnabled (listed_flag rows key) \<longleftrightarrow> key \<notin> off_keys rows)"
proof (cases "find_row fsKey key rows")
  case None
  moreover have "key \<notin> fsKey ` set rows" using None by (simp add: find_row_None_iff)
  ultimately show ?thesis by (auto simp: listed_flag_def off_keys_iff)
next
  case (Some state)
  then have "state \<in> set rows" "fsKey state = key" using find_flag [OF assms] by auto
  moreover have "x = state" if "x \<in> set rows" "fsKey x = key" for x
    using that find_flag [OF assms, of key x] Some by simp
  ultimately have "key \<in> off_keys rows \<longleftrightarrow> \<not> fsEnabled state" unfolding off_keys_iff by metis
  then show ?thesis using Some \<open>fsKey state = key\<close> by (simp add: listed_flag_def)
qed

section \<open>The reader\<close>

definition FLAG_CACHE_TTL_MS :: int where "FLAG_CACHE_TTL_MS = 10000"

text \<open>A read that was started, with the answer of the database once there is one.\<close>

datatype load = Asked | Fetched "FlagState list" | Threw

record reader =
  rdDisabled :: "string set"
  rdReadAt :: "int option"
  rdInFlight :: "load option"

definition createFlagReader :: reader where
  "createFlagReader = \<lparr>rdDisabled = {}, rdReadAt = None, rdInFlight = None\<rparr>"

definition expired :: "int \<Rightarrow> int \<Rightarrow> reader \<Rightarrow> bool" where
  "expired ttlMs now rd = (case rdReadAt rd of None \<Rightarrow> True | Some t \<Rightarrow> ttlMs \<le> now - t)"

definition answer_of :: "string \<Rightarrow> reader \<Rightarrow> bool" where
  "answer_of key rd \<longleftrightarrow> key \<notin> rdDisabled rd"

text \<open>\<open>isEnabled\<close> up to its await: an answer at once, or a wait for the one read.\<close>

definition isEnabled_start :: "int \<Rightarrow> int \<Rightarrow> string \<Rightarrow> reader \<Rightarrow> bool option \<times> reader" where
  "isEnabled_start ttlMs now key rd =
     (if expired ttlMs now rd
      then (None, rd\<lparr>rdInFlight := Some (case rdInFlight rd of Some l \<Rightarrow> l | None \<Rightarrow> Asked)\<rparr>)
      else (Some (answer_of key rd), rd))"

text \<open>\<open>load\<close> after its await, at \<open>now\<close>.\<close>

definition load_end :: "int \<Rightarrow> reader \<Rightarrow> reader" where
  "load_end now rd =
     (case rdInFlight rd of
        Some (Fetched overrides) \<Rightarrow> \<lparr>rdDisabled = off_keys overrides, rdReadAt = Some now, rdInFlight = None\<rparr>
      | Some Threw \<Rightarrow> rd\<lparr>rdReadAt := Some now, rdInFlight := None\<rparr>
      | _ \<Rightarrow> rd)"

definition reader_refresh :: "reader \<Rightarrow> reader" where
  "reader_refresh rd = rd\<lparr>rdReadAt := None\<rparr>"

text \<open>The public surface's hook, given the reader's answer.\<close>

definition killSwitch :: "bool \<Rightarrow> bool \<Rightarrow> reply option" where
  "killSwitch applies enabled =
     (if \<not> applies then None else if enabled then None else Some (Reply 503 ''temporarily_disabled''))"

section \<open>A process and its switches\<close>

text \<open>
  \<open>rows\<close> is the table at every instant. The requests of the process ask, the database answers or fails, the
  answer arrives at most \<open>lag\<close> after it was taken, and the console may refresh; the clock does not go back.
\<close>

record reader_run =
  ruClock :: int
  ruReader :: reader
  ruFetchedAt :: int
  ruWaiting :: "string list"
  ruAnswers :: "(string \<times> int \<times> bool) list"
  ruFailed :: nat

definition reader_start :: "int \<Rightarrow> reader_run" where
  "reader_start now =
     \<lparr>ruClock = now, ruReader = createFlagReader, ruFetchedAt = now, ruWaiting = [], ruAnswers = [], ruFailed = 0\<rparr>"

definition asked_run :: "int \<Rightarrow> string \<Rightarrow> reader_run \<Rightarrow> reader_run" where
  "asked_run ttlMs key s =
     (case isEnabled_start ttlMs (ruClock s) key (ruReader s) of
        (Some v, rd) \<Rightarrow> s\<lparr>ruReader := rd, ruAnswers := ruAnswers s @ [(key, ruClock s, v)]\<rparr>
      | (None, rd) \<Rightarrow> s\<lparr>ruReader := rd, ruWaiting := ruWaiting s @ [key]\<rparr>)"

text \<open>The read comes back and everyone who waits for it is answered.\<close>

definition loaded_run :: "reader_run \<Rightarrow> reader_run" where
  "loaded_run s =
     (let rd = load_end (ruClock s) (ruReader s)
      in s\<lparr>ruReader := rd, ruWaiting := [],
           ruAnswers := ruAnswers s @ map (\<lambda>key. (key, ruClock s, answer_of key rd)) (ruWaiting s)\<rparr>)"

inductive reader_step ::
  "int \<Rightarrow> int \<Rightarrow> (FlagState list \<Rightarrow> FlagState list) \<Rightarrow> (int \<Rightarrow> FlagState list) \<Rightarrow> reader_run \<Rightarrow> reader_run \<Rightarrow> bool"
  for ttlMs lag collate rows where
  tick: "reader_step ttlMs lag collate rows s (s\<lparr>ruClock := ruClock s + d\<rparr>)" if "0 \<le> d"
| ask: "reader_step ttlMs lag collate rows s (asked_run ttlMs key s)"
| fetch: "reader_step ttlMs lag collate rows s
      (s\<lparr>ruReader := ruReader s\<lparr>rdInFlight := Some (Fetched (listFlagOverrides collate (rows (ruClock s))))\<rparr>,
         ruFetchedAt := ruClock s\<rparr>)"
    if "rdInFlight (ruReader s) = Some Asked"
| throw: "reader_step ttlMs lag collate rows s (s\<lparr>ruReader := ruReader s\<lparr>rdInFlight := Some Threw\<rparr>\<rparr>)"
    if "rdInFlight (ruReader s) = Some Asked"
| loaded: "reader_step ttlMs lag collate rows s (loaded_run s)"
    if "rdInFlight (ruReader s) = Some (Fetched overrides)" "ruClock s \<le> ruFetchedAt s + lag"
| failed: "reader_step ttlMs lag collate rows s ((loaded_run s)\<lparr>ruFailed := ruFailed s + 1\<rparr>)"
    if "rdInFlight (ruReader s) = Some Threw"
| refresh: "reader_step ttlMs lag collate rows s (s\<lparr>ruReader := reader_refresh (ruReader s)\<rparr>)"

definition answer_ok where
  "answer_ok ttlMs lag rows failures a \<longleftrightarrow>
     (case a of (key, t, v) \<Rightarrow>
        (\<not> v \<longrightarrow> (\<exists>i \<le> t. key \<in> off_keys (rows i)))
        \<and> (failures = (0::nat) \<longrightarrow> (\<exists>i. t - ttlMs - lag < i \<and> i \<le> (t::int) \<and> (v \<longleftrightarrow> key \<notin> off_keys (rows i)))))"

text \<open>What is remembered was once in the table, and is recent; what is in flight is what the table said.\<close>

definition view_ok where
  "view_ok rows now rd \<longleftrightarrow> rdDisabled rd = {} \<or> (\<exists>i \<le> (now::int). rdDisabled rd = off_keys (rows i))"

definition recent_ok where
  "recent_ok lag rows now rd \<longleftrightarrow>
     (\<forall>r. rdReadAt rd = Some r \<longrightarrow> (\<exists>i. r - lag \<le> i \<and> i \<le> r \<and> r \<le> now \<and> rdDisabled rd = off_keys (rows i)))"

definition flight_ok where
  "flight_ok rows now fetched rd \<longleftrightarrow>
     (\<forall>overrides. rdInFlight rd = Some (Fetched overrides) \<longrightarrow>
        fetched \<le> (now::int) \<and> off_keys overrides = off_keys (rows fetched))"

definition reader_inv where
  "reader_inv ttlMs lag rows s \<longleftrightarrow>
     (\<forall>a \<in> set (ruAnswers s). answer_ok ttlMs lag rows (ruFailed s) a)
     \<and> view_ok rows (ruClock s) (ruReader s)
     \<and> (ruFailed s = 0 \<longrightarrow> recent_ok lag rows (ruClock s) (ruReader s))
     \<and> flight_ok rows (ruClock s) (ruFetchedAt s) (ruReader s)"

lemma answer_ok_more_failures: "answer_ok ttlMs lag rows f a \<Longrightarrow> answer_ok ttlMs lag rows (Suc f) a"
  by (cases a) (simp add: answer_ok_def)

lemma later_ok:
  assumes "0 \<le> d"
  shows "view_ok rows now rd \<Longrightarrow> view_ok rows (now + d) rd"
    "recent_ok lag rows now rd \<Longrightarrow> recent_ok lag rows (now + d) rd"
    "flight_ok rows now fetched rd \<Longrightarrow> flight_ok rows (now + d) fetched rd"
proof -
  have le: "i \<le> now \<Longrightarrow> i \<le> now + d" for i using assms by simp
  show "view_ok rows now rd \<Longrightarrow> view_ok rows (now + d) rd" unfolding view_ok_def using le by blast
  show "recent_ok lag rows now rd \<Longrightarrow> recent_ok lag rows (now + d) rd" unfolding recent_ok_def using le by blast
  show "flight_ok rows now fetched rd \<Longrightarrow> flight_ok rows (now + d) fetched rd" unfolding flight_ok_def using le by blast
qed

lemma cached_answer_ok:
  assumes "view_ok rows now rd" "f = 0 \<longrightarrow> recent_ok lag rows now rd" "rdReadAt rd = Some r" "now - r < ttlMs"
  shows "answer_ok ttlMs lag rows f (key, now, answer_of key rd)"
proof -
  have "\<exists>i \<le> now. key \<in> off_keys (rows i)" if "\<not> answer_of key rd"
    using that assms(1) unfolding view_ok_def answer_of_def by auto
  moreover have "\<exists>i. now - ttlMs - lag < i \<and> i \<le> now \<and> (answer_of key rd \<longleftrightarrow> key \<notin> off_keys (rows i))"
    if zero: "f = 0"
  proof -
    obtain i where i: "r - lag \<le> i" "i \<le> r" "r \<le> now" "rdDisabled rd = off_keys (rows i)"
      using assms(2,3) zero unfolding recent_ok_def by blast
    have "answer_of key rd \<longleftrightarrow> key \<notin> off_keys (rows i)" using i(4) by (simp add: answer_of_def)
    moreover have "now - ttlMs - lag < i" "i \<le> now" using i(1-3) assms(4) by linarith+
    ultimately show ?thesis by blast
  qed
  ultimately show ?thesis unfolding answer_ok_def by simp
qed

lemma reader_inv_ask:
  assumes "reader_inv ttlMs lag rows s" "0 < ttlMs"
  shows "reader_inv ttlMs lag rows (asked_run ttlMs key s)"
proof (cases "expired ttlMs (ruClock s) (ruReader s)")
  case True
  have "flight_ok rows (ruClock s) (ruFetchedAt s)
      (ruReader s\<lparr>rdInFlight := Some (case rdInFlight (ruReader s) of Some l \<Rightarrow> l | None \<Rightarrow> Asked)\<rparr>)"
    using assms(1) by (cases "rdInFlight (ruReader s)") (simp_all add: reader_inv_def flight_ok_def)
  then show ?thesis
    using assms(1) True by (simp add: asked_run_def isEnabled_start_def reader_inv_def view_ok_def recent_ok_def)
next
  case False
  then obtain r where r: "rdReadAt (ruReader s) = Some r" "ruClock s - r < ttlMs"
    by (auto simp: expired_def split: option.splits)
  have "answer_ok ttlMs lag rows (ruFailed s) (key, ruClock s, answer_of key (ruReader s))"
    by (rule cached_answer_ok [OF _ _ r]) (use assms(1) in \<open>simp_all add: reader_inv_def\<close>)
  then show ?thesis using assms(1) False by (auto simp: asked_run_def isEnabled_start_def reader_inv_def)
qed

lemma reader_inv_loaded:
  assumes inv: "reader_inv ttlMs lag rows s" "0 < ttlMs"
    and "rdInFlight (ruReader s) = Some (Fetched overrides)" "ruClock s \<le> ruFetchedAt s + lag"
  shows "reader_inv ttlMs lag rows (loaded_run s)"
proof -
  let ?rd = "\<lparr>rdDisabled = off_keys overrides, rdReadAt = Some (ruClock s), rdInFlight = None\<rparr>"
  have i: "ruFetchedAt s \<le> ruClock s" "off_keys overrides = off_keys (rows (ruFetchedAt s))"
    using inv(1) assms(3) by (simp_all add: reader_inv_def flight_ok_def)
  have rd: "load_end (ruClock s) (ruReader s) = ?rd" using assms(3) by (simp add: load_end_def)
  have v: "view_ok rows (ruClock s) ?rd" unfolding view_ok_def using i by auto
  have "ruClock s - lag \<le> ruFetchedAt s" using assms(4) by simp
  then have r: "recent_ok lag rows (ruClock s) ?rd" unfolding recent_ok_def using i by auto
  have "answer_ok ttlMs lag rows (ruFailed s) (key, ruClock s, answer_of key ?rd)" for key
    by (rule cached_answer_ok [OF v, where r = "ruClock s"]) (use r inv(2) in simp_all)
  then show ?thesis
    using inv(1) v r unfolding reader_inv_def loaded_run_def Let_def rd by (auto simp: flight_ok_def)
qed

lemma reader_inv_failed:
  assumes inv: "reader_inv ttlMs lag rows s" and "rdInFlight (ruReader s) = Some Threw"
  shows "reader_inv ttlMs lag rows ((loaded_run s)\<lparr>ruFailed := ruFailed s + 1\<rparr>)"
proof -
  let ?rd = "(ruReader s)\<lparr>rdReadAt := Some (ruClock s), rdInFlight := None\<rparr>"
  have rd: "load_end (ruClock s) (ruReader s) = ?rd" using assms(2) by (simp add: load_end_def)
  have v: "view_ok rows (ruClock s) ?rd" using inv by (simp add: reader_inv_def view_ok_def)
  have "answer_ok ttlMs lag rows (Suc (ruFailed s)) (key, ruClock s, answer_of key ?rd)" for key
    using v unfolding answer_ok_def view_ok_def answer_of_def by auto
  moreover have "\<forall>a \<in> set (ruAnswers s). answer_ok ttlMs lag rows (Suc (ruFailed s)) a"
    using inv answer_ok_more_failures by (simp add: reader_inv_def)
  ultimately show ?thesis
    using v unfolding reader_inv_def loaded_run_def Let_def rd by (auto simp: flight_ok_def)
qed

lemma reader_step_inv:
  assumes "reader_step ttlMs lag collate rows s s'" "0 < ttlMs" "\<And>xs. set (collate xs) = set xs"
    and inv: "reader_inv ttlMs lag rows s"
  shows "reader_inv ttlMs lag rows s'"
  using assms(1)
proof cases
  case (tick d)
  then show ?thesis using inv by (simp add: reader_inv_def later_ok [OF tick(2)])
next
  case (ask key)
  then show ?thesis using reader_inv_ask [OF inv assms(2)] by simp
next
  case fetch
  have "off_keys (listFlagOverrides collate xs) = off_keys xs" for xs
    using assms(3) [of xs] by (auto simp: off_keys_def listFlagOverrides_def)
  then show ?thesis using inv fetch by (simp add: reader_inv_def view_ok_def recent_ok_def flight_ok_def)
next
  case throw
  then show ?thesis using inv by (simp add: reader_inv_def view_ok_def recent_ok_def flight_ok_def)
next
  case (loaded overrides)
  then show ?thesis using reader_inv_loaded [OF inv assms(2)] by simp
next
  case failed
  then show ?thesis using reader_inv_failed [OF inv] by simp
next
  case refresh
  then show ?thesis using inv by (simp add: reader_inv_def view_ok_def recent_ok_def flight_ok_def reader_refresh_def)
qed

text \<open>C35: Whatever asks, reads, failures and refreshes interleave: a switch is answered off only when the table
  once said so, and as long as no read fails every answer is what the table said less than a time to live and the
  delay of one read ago; so nothing is served ten seconds and one read after it was switched off.\<close>

theorem switches_are_seen_in_time:
  assumes "(reader_step ttlMs lag collate rows)\<^sup>*\<^sup>* (reader_start now0) s"
    and "0 < ttlMs" "\<forall>xs. set (collate xs) = set xs"
    and "(key, t, v) \<in> set (ruAnswers s)"
  shows "(\<not> v \<longrightarrow> (\<exists>i \<le> t. key \<in> off_keys (rows i)))
    \<and> (ruFailed s = 0 \<longrightarrow> (\<exists>i. t - ttlMs - lag < i \<and> i \<le> t \<and> (v \<longleftrightarrow> key \<notin> off_keys (rows i)))
       \<and> (\<forall>since. (\<forall>i \<ge> since. key \<in> off_keys (rows i)) \<and> since + ttlMs + lag \<le> t \<longrightarrow> \<not> v)
       \<and> (\<forall>since. (\<forall>i \<ge> since. key \<notin> off_keys (rows i)) \<and> since + ttlMs + lag \<le> t \<longrightarrow> v))"
proof -
  have "reader_inv ttlMs lag rows (reader_start now0)"
    by (simp add: reader_inv_def reader_start_def createFlagReader_def view_ok_def recent_ok_def flight_ok_def)
  with assms(1) have "reader_inv ttlMs lag rows s"
  proof (induction rule: rtranclp_induct)
    case (step s s')
    then show ?case using reader_step_inv [OF step(2) assms(2)] assms(3) by blast
  qed
  then have ok: "answer_ok ttlMs lag rows (ruFailed s) (key, t, v)" using assms(4) by (simp add: reader_inv_def)
  have recent: "\<exists>i. t - ttlMs - lag < i \<and> i \<le> t \<and> (v \<longleftrightarrow> key \<notin> off_keys (rows i))" if "ruFailed s = 0"
    using ok that by (simp add: answer_ok_def)
  have late: "since \<le> i" if "since + ttlMs + lag \<le> t" "t - ttlMs - lag < i" for i since using that by simp
  show ?thesis
    using ok recent late unfolding answer_ok_def by (simp, blast)
qed

text \<open>A switch thrown at 1 and asked about at 20, with reads that take a moment.\<close>

definition demo_switches :: "int \<Rightarrow> FlagState list" where
  "demo_switches i = (if i < 1 then [] else setFlag checkoutEnabled False ''root'' ''fee bug'' 1 [])"

definition demo_waiting :: reader_run where
  "demo_waiting = asked_run 10 checkoutEnabled (reader_start 0)"

definition demo_taken :: reader_run where
  "demo_taken = demo_waiting\<lparr>ruReader := ruReader demo_waiting\<lparr>rdInFlight := Some (Fetched (listFlagOverrides id (demo_switches 0)))\<rparr>,
                             ruFetchedAt := 0\<rparr>"

definition demo_refreshed :: reader_run where
  "demo_refreshed = demo_taken\<lparr>ruClock := 2, ruReader := reader_refresh (ruReader demo_taken)\<rparr>"

definition demo_stale :: reader_run where
  "demo_stale = asked_run 10 checkoutEnabled (loaded_run demo_refreshed)"

definition demo_asking :: reader_run where
  "demo_asking = asked_run 10 checkoutEnabled (demo_stale\<lparr>ruClock := 20\<rparr>)"

definition demo_seen :: reader_run where
  "demo_seen = loaded_run (demo_asking\<lparr>ruReader := ruReader demo_asking\<lparr>rdInFlight := Some (Fetched (listFlagOverrides id (demo_switches 20)))\<rparr>,
                                      ruFetchedAt := 20\<rparr>)"

lemmas demo_switch_defs = demo_waiting_def demo_taken_def demo_refreshed_def demo_stale_def demo_asking_def demo_seen_def
  asked_run_def isEnabled_start_def expired_def reader_start_def createFlagReader_def loaded_run_def load_end_def
  answer_of_def reader_refresh_def listFlagOverrides_def demo_switches_def off_keys_def setFlag_def

lemma demo_states:
  "demo_waiting = \<lparr>ruClock = 0, ruReader = \<lparr>rdDisabled = {}, rdReadAt = None, rdInFlight = Some Asked\<rparr>, ruFetchedAt = 0,
      ruWaiting = [checkoutEnabled], ruAnswers = [], ruFailed = 0\<rparr>"
  "demo_taken = \<lparr>ruClock = 0, ruReader = \<lparr>rdDisabled = {}, rdReadAt = None, rdInFlight = Some (Fetched [])\<rparr>, ruFetchedAt = 0,
      ruWaiting = [checkoutEnabled], ruAnswers = [], ruFailed = 0\<rparr>"
  "demo_stale = \<lparr>ruClock = 2, ruReader = \<lparr>rdDisabled = {}, rdReadAt = Some 2, rdInFlight = None\<rparr>, ruFetchedAt = 0,
      ruWaiting = [], ruAnswers = [(checkoutEnabled, 2, True), (checkoutEnabled, 2, True)], ruFailed = 0\<rparr>"
  "demo_asking = \<lparr>ruClock = 20, ruReader = \<lparr>rdDisabled = {}, rdReadAt = Some 2, rdInFlight = Some Asked\<rparr>, ruFetchedAt = 0,
      ruWaiting = [checkoutEnabled], ruAnswers = [(checkoutEnabled, 2, True), (checkoutEnabled, 2, True)], ruFailed = 0\<rparr>"
  "demo_seen = \<lparr>ruClock = 20, ruReader = \<lparr>rdDisabled = {checkoutEnabled}, rdReadAt = Some 20, rdInFlight = None\<rparr>,
      ruFetchedAt = 20, ruWaiting = [],
      ruAnswers = [(checkoutEnabled, 2, True), (checkoutEnabled, 2, True), (checkoutEnabled, 20, False)], ruFailed = 0\<rparr>"
  by (simp_all add: demo_switch_defs)

lemma demo_reaches_stale: "(reader_step 10 2 id demo_switches)\<^sup>*\<^sup>* (reader_start 0) demo_stale"
proof -
  let ?R = "reader_step 10 2 id demo_switches"
  have "?R (reader_start 0) demo_waiting" unfolding demo_waiting_def by (rule reader_step.ask)
  moreover have "?R demo_waiting demo_taken"
    using reader_step.fetch [of demo_waiting 10 2 id demo_switches] by (simp add: demo_taken_def demo_states(1))
  moreover have "?R demo_taken (demo_taken\<lparr>ruClock := 2\<rparr>)"
    using reader_step.tick [of 2 10 2 id demo_switches demo_taken] by (simp add: demo_states(2))
  moreover have "?R (demo_taken\<lparr>ruClock := 2\<rparr>) demo_refreshed"
    using reader_step.refresh [of 10 2 id demo_switches "demo_taken\<lparr>ruClock := 2\<rparr>"]
    by (simp add: demo_refreshed_def demo_states(2))
  moreover have "?R demo_refreshed (loaded_run demo_refreshed)"
    by (rule reader_step.loaded [of _ "[]"]) (simp_all add: demo_refreshed_def demo_states(2) reader_refresh_def)
  moreover have "?R (loaded_run demo_refreshed) demo_stale" unfolding demo_stale_def by (rule reader_step.ask)
  ultimately show ?thesis by (meson converse_rtranclp_into_rtranclp rtranclp.rtrancl_refl)
qed

lemma demo_reaches_seen: "(reader_step 10 2 id demo_switches)\<^sup>*\<^sup>* (reader_start 0) demo_seen"
proof -
  let ?R = "reader_step 10 2 id demo_switches"
  let ?taken = "demo_asking\<lparr>ruReader := ruReader demo_asking\<lparr>rdInFlight := Some (Fetched (listFlagOverrides id (demo_switches 20)))\<rparr>,
                            ruFetchedAt := 20\<rparr>"
  have "?R demo_stale (demo_stale\<lparr>ruClock := 20\<rparr>)"
    using reader_step.tick [of 18 10 2 id demo_switches demo_stale] by (simp add: demo_states(3))
  moreover have "?R (demo_stale\<lparr>ruClock := 20\<rparr>) demo_asking" unfolding demo_asking_def by (rule reader_step.ask)
  moreover have "?R demo_asking ?taken"
    using reader_step.fetch [of demo_asking 10 2 id demo_switches] by (simp add: demo_states(4))
  moreover have "?R ?taken demo_seen"
    unfolding demo_seen_def by (rule reader_step.loaded) (simp_all add: demo_states(4))
  ultimately show ?thesis
    using demo_reaches_stale by (meson rtranclp.rtrancl_into_rtrancl)
qed

theorem switches_are_seen_in_time_witness:
  "(\<exists>i \<le> 20. checkoutEnabled \<in> off_keys (demo_switches i))
   \<and> (\<exists>i. 20 - 10 - 2 < i \<and> i \<le> (20::int) \<and> checkoutEnabled \<in> off_keys (demo_switches i))"
  using switches_are_seen_in_time [OF demo_reaches_seen, of checkoutEnabled 20 False] by (simp add: demo_states(5))

text \<open>
  A refresh that comes while a read is out is lost: the read started before the switch was thrown sets the memory
  again, and the console's own process goes on serving.
\<close>

lemma a_refresh_can_be_lost:
  "(reader_step 10 2 id demo_switches)\<^sup>*\<^sup>* (reader_start 0) demo_stale
   \<and> rdReadAt (ruReader demo_refreshed) = None \<and> ruClock demo_refreshed = 2
   \<and> (\<forall>i \<ge> 1. checkoutEnabled \<in> off_keys (demo_switches i))
   \<and> last (ruAnswers demo_stale) = (checkoutEnabled, 2, True) \<and> ruWaiting demo_stale = []"
  using demo_reaches_stale
  by (simp add: demo_states demo_refreshed_def reader_refresh_def demo_switches_def setFlag_off)

end
