(* ===== verification/Watchdog.thy ===== *)
theory Watchdog
  imports AlertStore Switches JsNumber
begin

text \<open>
  Watching the site (\<open>packages/db/src/queries/operations.ts\<close>, \<open>security-events.ts\<close>, \<open>ops-alerts.ts\<close>, migration
  0038, \<open>watchdogJob\<close> of \<open>jobs.ts\<close>): the two summaries, what of them is worth saying, and the right to say it.
\<close>

section \<open>Is the scanner reporting, are alerts going out\<close>

record RetailerHealth =
  rhId :: string
  rhName :: string
  rhDomain :: string
  rhEnabled :: bool
  rhMinIntervalS :: int
  rhListings :: nat
  rhHealthy :: nat
  rhStale :: nat
  rhNeverChecked :: nat
  rhLastCheckedAt :: "int option"

record StaleListing =
  stRetailer :: string
  stProduct :: string
  stLastCheckedAt :: "int option"
  stOverdueSeconds :: "int option"

record RecentRestock =
  rrProduct :: string
  rrRetailer :: string
  rrDetectedAt :: int

record DeliveryFailures =
  dfReason :: string
  dfCount :: nat
  dfLastAt :: int

record OperationsSummary =
  osRetailers :: "RetailerHealth list"
  osStaleListings :: "StaleListing list"
  osLast24h :: nat
  osLast7d :: nat
  osRecent :: "RecentRestock list"
  osByChannel :: "(AlertChannel \<times> DeliveryStatus \<times> nat) list"
  osPending :: nat
  osOldestPendingAt :: "int option"
  osFailures :: "DeliveryFailures list"

definition STALE_LISTING_LIMIT :: nat where "STALE_LISTING_LIMIT = 20"

definition max_opt :: "int list \<Rightarrow> int option" where
  "max_opt xs = (if xs = [] then None else Some (Max (set xs)))"

definition oldest_opt :: "int list \<Rightarrow> int option" where
  "oldest_opt xs = (if xs = [] then None else Some (Min (set xs)))"

definition SECURITY_HOUR_MS :: int where "SECURITY_HOUR_MS = 3600000"

text \<open>A listing's latest check, the \<open>latest\<close> of the queries.\<close>

definition last_checked :: "int \<Rightarrow> alert_db \<Rightarrow> RetailerProduct \<Rightarrow> int option" where
  "last_checked now db l =
     max_opt (map ssCheckedAt (filter (\<lambda>s. ssRetailerProductId s = rpId l \<and> ssCheckedAt s \<le> now) (adSnapshots db)))"

definition stale_before :: "int \<Rightarrow> int \<Rightarrow> int" where
  "stale_before now minIntervalS = now - 2 * minIntervalS * 1000"

text \<open>\<open>interval\<close> is the column \<open>min_interval_s\<close>, which no other part of the program here reads.\<close>

definition retailer_health :: "(Retailer \<Rightarrow> int) \<Rightarrow> int \<Rightarrow> alert_db \<Rightarrow> Retailer \<Rightarrow> RetailerHealth" where
  "retailer_health interval now db r =
     (let ls = filter (\<lambda>l. rpRetailerId l = reId r) (adListings db);
          checks = map (last_checked now db) ls;
          edge = stale_before now (interval r)
      in \<lparr>rhId = reId r, rhName = reName r, rhDomain = reDomain r, rhEnabled = reEnabled r,
          rhMinIntervalS = interval r, rhListings = length ls,
          rhHealthy = length (filter (\<lambda>c. case c of None \<Rightarrow> False | Some t \<Rightarrow> edge \<le> t) checks),
          rhStale = length (filter (\<lambda>c. case c of None \<Rightarrow> False | Some t \<Rightarrow> t < edge) checks),
          rhNeverChecked = length (filter (\<lambda>c. c = None) checks),
          rhLastCheckedAt = max_opt (List.map_filter id checks)\<rparr>)"

text \<open>The cast of the seconds to an integer rounds to the nearest.\<close>

definition overdue_seconds :: "int \<Rightarrow> int \<Rightarrow> int \<Rightarrow> int" where
  "overdue_seconds now minIntervalS t = (now - t + 500) div 1000 - minIntervalS"

definition stale_listing :: "(Retailer \<Rightarrow> int) \<Rightarrow> int \<Rightarrow> alert_db \<Rightarrow> RetailerProduct \<Rightarrow> StaleListing option" where
  "stale_listing interval now db l =
     (case (find_row reId (rpRetailerId l) (adRetailers db), find_row spId (rpSealedProductId l) (adSealed db)) of
        (Some r, Some p) \<Rightarrow>
          let c = last_checked now db l in
          if reEnabled r \<and> (case c of None \<Rightarrow> True | Some t \<Rightarrow> t < stale_before now (interval r))
          then Some \<lparr>stRetailer = reName r, stProduct = spName p, stLastCheckedAt = c,
                     stOverdueSeconds = map_option (overdue_seconds now (interval r)) c\<rparr>
          else None
      | _ \<Rightarrow> None)"

text \<open>Ascending, those never checked first.\<close>

definition longest_silent :: "StaleListing list \<Rightarrow> StaleListing list" where
  "longest_silent xs =
     filter (\<lambda>x. stLastCheckedAt x = None) xs
     @ sort_key (\<lambda>x. case stLastCheckedAt x of Some t \<Rightarrow> t | None \<Rightarrow> 0) (filter (\<lambda>x. stLastCheckedAt x \<noteq> None) xs)"

definition recent_restock :: "alert_db \<Rightarrow> RestockEvent \<Rightarrow> RecentRestock option" where
  "recent_restock db e =
     map_option (\<lambda>c. \<lparr>rrProduct = rcProductName c, rrRetailer = rcRetailerName c, rrDetectedAt = reDetectedAt e\<rparr>)
       (getRestockContext (reRetailerProductId e) db)"

definition CHANNELS_BY_NAME :: "AlertChannel list" where
  "CHANNELS_BY_NAME = [DiscordDm, DiscordWebhook, EmailAlert, WebPush]"

definition STATUSES_BY_NAME :: "DeliveryStatus list" where
  "STATUSES_BY_NAME = [DeliveryFailed, DeliveryPending, DeliverySent, DeliverySkipped]"

definition by_channel :: "int \<Rightarrow> alert_db \<Rightarrow> (AlertChannel \<times> DeliveryStatus \<times> nat) list" where
  "by_channel now db =
     filter (\<lambda>(c, st, n). n \<noteq> 0)
       (concat (map (\<lambda>c. map (\<lambda>st.
            (c, st, length (filter (\<lambda>d. deChannel d = c \<and> deStatus d = st
                \<and> now - 24 * SECURITY_HOUR_MS \<le> deCreatedAt d \<and> deCreatedAt d \<le> now) (adDeliveries db))))
          STATUSES_BY_NAME) CHANNELS_BY_NAME))"

definition failure_reason :: "AlertDelivery \<Rightarrow> string" where
  "failure_reason d =
     (case deLastError d of
        None \<Rightarrow> ''(no reason recorded)''
      | Some e \<Rightarrow> if btrim e = [] then ''(no reason recorded)'' else btrim e)"

text \<open>\<open>arrange\<close> is the order in which the database meets the groups, which decides between equals.\<close>

definition delivery_failures :: "(string list \<Rightarrow> string list) \<Rightarrow> int \<Rightarrow> alert_db \<Rightarrow> DeliveryFailures list" where
  "delivery_failures arrange now db =
     (let failed = filter (\<lambda>d. deStatus d = DeliveryFailed \<and> now - 7 * 24 * SECURITY_HOUR_MS \<le> deCreatedAt d) (adDeliveries db);
          groups = map (\<lambda>reason. let ds = filter (\<lambda>d. failure_reason d = reason) failed
                     in \<lparr>dfReason = reason, dfCount = length ds, dfLastAt = Max (set (map deCreatedAt ds))\<rparr>)
                   (arrange (remdups (map failure_reason failed)))
      in take 10 (sort_key (\<lambda>g. - int (dfCount g)) (sort_key (\<lambda>g. - dfLastAt g) groups)))"

definition getOperationsSummary ::
  "(Retailer \<Rightarrow> int) \<Rightarrow> (Retailer list \<Rightarrow> Retailer list) \<Rightarrow> (string list \<Rightarrow> string list) \<Rightarrow> int \<Rightarrow> alert_db \<Rightarrow> OperationsSummary"
where
  "getOperationsSummary interval by_name arrange now db =
     \<lparr>osRetailers = map (retailer_health interval now db) (by_name (adRetailers db)),
      osStaleListings = take STALE_LISTING_LIMIT
        (longest_silent (List.map_filter (stale_listing interval now db) (adListings db))),
      osLast24h = length (filter (\<lambda>e. now - 24 * SECURITY_HOUR_MS \<le> reDetectedAt e \<and> reDetectedAt e \<le> now) (adEvents db)),
      osLast7d = length (filter (\<lambda>e. now - 7 * 24 * SECURITY_HOUR_MS \<le> reDetectedAt e \<and> reDetectedAt e \<le> now) (adEvents db)),
      osRecent = take 10 (List.map_filter (recent_restock db)
        (sort_key (\<lambda>e. - reDetectedAt e) (filter (\<lambda>e. reDetectedAt e \<le> now) (adEvents db)))),
      osByChannel = by_channel now db,
      osPending = length (filter (\<lambda>d. deStatus d = DeliveryPending) (adDeliveries db)),
      osOldestPendingAt = oldest_opt (map deCreatedAt (filter (\<lambda>d. deStatus d = DeliveryPending) (adDeliveries db))),
      osFailures = delivery_failures arrange now db\<rparr>"

section \<open>What the audit log says\<close>

record SecurityEntry =
  seAction :: string
  seAt :: int
  seIpHash :: "string option"
  seTargetId :: "string option"

record ActionCounts =
  acAction :: string
  acLastHour :: nat
  acLast24h :: nat
  acLast7d :: nat

record NoisySource =
  nsSource :: string
  nsAttempts :: nat
  nsLastAt :: int

record SecuritySummary =
  sumCounts :: "ActionCounts list"
  sumNoisySources :: "NoisySource list"
  sumEndpoints :: "(string \<times> nat) list"

definition WATCHED_ACTIONS :: "string list" where
  "WATCHED_ACTIONS = [''auth.sign_in_failed'', ''auth.rate_limited'', ''api.rate_limited'']"

definition NOISY_LIMIT :: nat where "NOISY_LIMIT = 5"

definition count_since :: "int \<Rightarrow> string \<Rightarrow> SecurityEntry list \<Rightarrow> nat" where
  "count_since edge action xs = length (filter (\<lambda>e. seAction e = action \<and> edge \<le> seAt e) xs)"

definition action_counts :: "int \<Rightarrow> SecurityEntry list \<Rightarrow> string \<Rightarrow> ActionCounts" where
  "action_counts now xs action =
     \<lparr>acAction = action, acLastHour = count_since (now - SECURITY_HOUR_MS) action xs,
      acLast24h = count_since (now - 24 * SECURITY_HOUR_MS) action xs,
      acLast7d = count_since (now - 7 * 24 * SECURITY_HOUR_MS) action xs\<rparr>"

definition short_source :: "string \<Rightarrow> string" where
  "short_source s = drop (length s - 8) s"

definition noisy_source :: "SecurityEntry list \<Rightarrow> string \<Rightarrow> NoisySource" where
  "noisy_source day h =
     (let es = filter (\<lambda>e. seIpHash e = Some h) day
      in \<lparr>nsSource = short_source h, nsAttempts = length es, nsLastAt = Max (set (map seAt es))\<rparr>)"

definition getSecuritySummary ::
  "(string list \<Rightarrow> string list) \<Rightarrow> int \<Rightarrow> SecurityEntry list \<Rightarrow> SecuritySummary" where
  "getSecuritySummary arrange now xs =
     (let day = filter (\<lambda>e. List.member WATCHED_ACTIONS (seAction e) \<and> now - 24 * SECURITY_HOUR_MS \<le> seAt e) xs;
          endpoint = (\<lambda>e. case seTargetId e of None \<Rightarrow> ''unknown'' | Some k \<Rightarrow> k)
      in \<lparr>sumCounts = map (action_counts now xs) WATCHED_ACTIONS,
          sumNoisySources = take NOISY_LIMIT
            (sort_key (\<lambda>n. - int (nsAttempts n)) (sort_key (\<lambda>n. - nsLastAt n)
              (map (noisy_source day) (arrange (remdups (List.map_filter seIpHash day)))))),
          sumEndpoints = take NOISY_LIMIT
            (sort_key (\<lambda>p. - int (snd p))
              (map (\<lambda>k. (k, length (filter (\<lambda>e. endpoint e = k) day))) (arrange (remdups (map endpoint day)))))\<rparr>)"

section \<open>What is worth saying\<close>

datatype Severity = Critical | Warning | Info

text \<open>What a text says, without its wording.\<close>

datatype alert_text =
    FailedSpike nat nat | NoisySourceText string nat | RateLimitStorm nat | BacklogStuck nat int
  | ScannerSilent nat string int | StillOff string int string | AllClear | NeedAttention nat

record Finding =
  fdKey :: string
  fdSeverity :: Severity
  fdText :: alert_text
  fdRepeatAfterS :: int

record WatchdogThresholds =
  thFailedSignInsPerHour :: nat
  thFailedSignInsPerSource :: nat
  thRateLimitedPerHour :: nat
  thStuckBacklogS :: int
  thScannerSilentS :: int

definition DEFAULT_THRESHOLDS :: WatchdogThresholds where
  "DEFAULT_THRESHOLDS =
     \<lparr>thFailedSignInsPerHour = 30, thFailedSignInsPerSource = 15, thRateLimitedPerHour = 200,
      thStuckBacklogS = 15 * 60, thScannerSilentS = 2 * 60 * 60\<rparr>"

definition HOUR_S :: int where "HOUR_S = 3600"
definition DAY_S :: int where "DAY_S = 24 * HOUR_S"

definition ageS :: "int option \<Rightarrow> int \<Rightarrow> rat option" where
  "ageS from now = map_option (\<lambda>t. dbl (of_int (now - t) / 1000)) from"

definition action_count :: "SecuritySummary \<Rightarrow> string \<Rightarrow> nat \<times> nat" where
  "action_count security action =
     (case find (\<lambda>c. acAction c = action) (sumCounts security) of
        None \<Rightarrow> (0, 0)
      | Some c \<Rightarrow> (acLastHour c, acLast24h c))"

definition silent_retailers :: "OperationsSummary \<Rightarrow> int \<Rightarrow> WatchdogThresholds \<Rightarrow> RetailerHealth list" where
  "silent_retailers ops now th =
     filter (\<lambda>r. rhEnabled r \<and> (case ageS (rhLastCheckedAt r) now of None \<Rightarrow> True | Some a \<Rightarrow> of_int (thScannerSilentS th) < a))
       (osRetailers ops)"

definition findings_before_heartbeat ::
  "OperationsSummary \<Rightarrow> SecuritySummary \<Rightarrow> int \<Rightarrow> WatchdogThresholds \<Rightarrow> FlagState list \<Rightarrow> Finding list" where
  "findings_before_heartbeat ops security now th flagsOff =
     (let failed = action_count security ''auth.sign_in_failed'';
          limited = fst (action_count security ''api.rate_limited'') + fst (action_count security ''auth.rate_limited'');
          silent = silent_retailers ops now th
      in (if thFailedSignInsPerHour th \<le> fst failed
          then [\<lparr>fdKey = ''auth.failed_spike'', fdSeverity = Critical, fdText = FailedSpike (fst failed) (snd failed),
                 fdRepeatAfterS = HOUR_S\<rparr>] else [])
       @ (case sumNoisySources security of
            [] \<Rightarrow> []
          | worst # _ \<Rightarrow>
              if thFailedSignInsPerSource th \<le> nsAttempts worst
              then [\<lparr>fdKey = ''auth.noisy_source'', fdSeverity = Warning,
                     fdText = NoisySourceText (nsSource worst) (nsAttempts worst), fdRepeatAfterS = 6 * HOUR_S\<rparr>] else [])
       @ (if thRateLimitedPerHour th \<le> limited
          then [\<lparr>fdKey = ''api.rate_limit_storm'', fdSeverity = Warning, fdText = RateLimitStorm limited,
                 fdRepeatAfterS = 6 * HOUR_S\<rparr>] else [])
       @ (case ageS (osOldestPendingAt ops) now of
            None \<Rightarrow> []
          | Some backlogS \<Rightarrow>
              if of_int (thStuckBacklogS th) < backlogS
              then [\<lparr>fdKey = ''alerts.backlog_stuck'', fdSeverity = Critical,
                     fdText = BacklogStuck (osPending ops) (math_round (dbl (backlogS / 60))), fdRepeatAfterS = 2 * HOUR_S\<rparr>]
              else [])
       @ (case silent of
            [] \<Rightarrow> []
          | r # _ \<Rightarrow>
              [\<lparr>fdKey = ''scanner.silent'', fdSeverity = Critical,
                fdText = ScannerSilent (length silent) (rhName r) (math_round (dbl (of_int (thScannerSilentS th) / 3600))),
                fdRepeatAfterS = 6 * HOUR_S\<rparr>])
       @ map (\<lambda>flag. \<lparr>fdKey = ''flag.off.'' @ fsKey flag, fdSeverity = Warning,
                      fdText = StillOff (fsKey flag) (fsUpdatedAt flag) (fsReason flag), fdRepeatAfterS = DAY_S\<rparr>) flagsOff)"

definition heartbeat_key :: string where "heartbeat_key = ''watchdog.heartbeat''"

definition heartbeat :: "nat \<Rightarrow> Finding" where
  "heartbeat n = \<lparr>fdKey = heartbeat_key, fdSeverity = Info, fdText = (if n = 0 then AllClear else NeedAttention n),
                  fdRepeatAfterS = DAY_S\<rparr>"

definition decideAlerts ::
  "OperationsSummary \<Rightarrow> SecuritySummary \<Rightarrow> int \<Rightarrow> WatchdogThresholds \<Rightarrow> FlagState list \<Rightarrow> Finding list" where
  "decideAlerts ops security now th flagsOff =
     (let findings = findings_before_heartbeat ops security now th flagsOff
      in findings @ [heartbeat (length findings)])"

section \<open>The right to say it\<close>

record OpsAlertState =
  oaKey :: string
  oaLastSentAt :: int
  oaDetail :: alert_text

definition claimAlert :: "Finding \<Rightarrow> int \<Rightarrow> OpsAlertState list \<Rightarrow> bool \<times> OpsAlertState list" where
  "claimAlert f now rows =
     (case find_row oaKey (fdKey f) rows of
        None \<Rightarrow> (True, rows @ [\<lparr>oaKey = fdKey f, oaLastSentAt = now, oaDetail = fdText f\<rparr>])
      | Some r \<Rightarrow>
          if oaLastSentAt r < now - fdRepeatAfterS f * 1000
          then (True, update_row oaKey (fdKey f) (\<lambda>r. r\<lparr>oaLastSentAt := now, oaDetail := fdText f\<rparr>) rows)
          else (False, rows))"

datatype notify_outcome = Notified | NotifyFailed "string option"

datatype watchdog_line =
  HeldBack string | WouldAlert Severity alert_text | Alerted string | FailedToAlert string string

text \<open>\<open>notify\<close>, where there is one, answers for each text; \<open>at\<close> is the database's clock at each claim.\<close>

fun say_findings ::
  "(Severity \<Rightarrow> alert_text \<Rightarrow> notify_outcome) option \<Rightarrow> (Finding \<Rightarrow> int) \<Rightarrow> Finding list \<Rightarrow> OpsAlertState list
     \<Rightarrow> watchdog_line list \<times> OpsAlertState list" where
  "say_findings notify clock [] rows = ([], rows)"
| "say_findings notify clock (f # fs) rows =
     (case claimAlert f (clock f) rows of
        (claimed, rows') \<Rightarrow>
          (case say_findings notify clock fs rows' of
             (ls, rows'') \<Rightarrow>
               ((if \<not> claimed then HeldBack (fdKey f)
                 else case notify of
                   None \<Rightarrow> WouldAlert (fdSeverity f) (fdText f)
                 | Some send \<Rightarrow>
                     (case send (fdSeverity f) (fdText f) of
                        Notified \<Rightarrow> Alerted (fdKey f)
                      | NotifyFailed reason \<Rightarrow>
                          FailedToAlert (fdKey f) (case reason of None \<Rightarrow> ''unknown'' | Some x \<Rightarrow> x))) # ls, rows'')))"

definition watchdogJob ::
  "(Severity \<Rightarrow> alert_text \<Rightarrow> notify_outcome) option \<Rightarrow> (Finding \<Rightarrow> int) \<Rightarrow> OperationsSummary \<Rightarrow> SecuritySummary
     \<Rightarrow> FlagState list \<Rightarrow> int \<Rightarrow> WatchdogThresholds \<Rightarrow> OpsAlertState list \<Rightarrow> watchdog_line list \<times> OpsAlertState list" where
  "watchdogJob notify clock ops security overrides now th rows =
     say_findings notify clock
       (decideAlerts ops security now th (filter (\<lambda>flag. \<not> fsEnabled flag) overrides)) rows"

section \<open>Overlapping runs\<close>

text \<open>
  Any number of runs at once: each decides its findings and claims them one by one, each claim one statement at the
  database's instant. The log keeps every claim and whether it was granted.
\<close>

record claim =
  clKey :: string
  clRepeat :: int
  clAt :: int
  clGranted :: bool

definition claim_of :: "Finding \<Rightarrow> int \<Rightarrow> OpsAlertState list \<Rightarrow> claim" where
  "claim_of f now rows =
     \<lparr>clKey = fdKey f, clRepeat = fdRepeatAfterS f, clAt = now, clGranted = fst (claimAlert f now rows)\<rparr>"

inductive watch_step ::
  "OpsAlertState list \<times> claim list \<times> Finding list list \<Rightarrow> OpsAlertState list \<times> claim list \<times> Finding list list \<Rightarrow> bool"
where
  start: "watch_step (rows, cs, runs) (rows, cs, runs @ [decideAlerts ops security now th flagsOff])"
| claim: "watch_step (rows, cs, xs @ (f # fs) # ys)
      (snd (claimAlert f now rows), cs @ [claim_of f now rows], xs @ fs # ys)"
| die: "watch_step (rows, cs, xs @ r # ys) (rows, cs, xs @ ys)"

lemma find_update_row:
  "\<lbrakk>\<And>r. key (f r) = key r\<rbrakk> \<Longrightarrow>
     find_row key k (update_row key k' f rows) = (if k = k' then map_option f (find_row key k rows) else find_row key k rows)"
  by (induction rows) (auto simp: update_row_def)

definition last_sent :: "string \<Rightarrow> OpsAlertState list \<Rightarrow> int option" where
  "last_sent k rows = map_option oaLastSentAt (find_row oaKey k rows)"

lemma claimAlert_last_sent:
  "fst (claimAlert f now rows) \<longleftrightarrow>
     (case last_sent (fdKey f) rows of None \<Rightarrow> True | Some t \<Rightarrow> t + fdRepeatAfterS f * 1000 < now)"
  "last_sent k (snd (claimAlert f now rows)) =
     (if k = fdKey f \<and> fst (claimAlert f now rows) then Some now else last_sent k rows)"
  by (auto simp: claimAlert_def last_sent_def find_row_append find_update_row split: option.splits)

text \<open>The last grant of a key in the log.\<close>

fun last_grant :: "string \<Rightarrow> claim list \<Rightarrow> int option" where
  "last_grant k [] = None"
| "last_grant k (c # cs) =
     (case last_grant k cs of
        Some t \<Rightarrow> Some t
      | None \<Rightarrow> if clKey c = k \<and> clGranted c then Some (clAt c) else None)"

lemma last_grant_snoc:
  "last_grant k (cs @ [c]) = (if clKey c = k \<and> clGranted c then Some (clAt c) else last_grant k cs)"
  by (induction cs) (auto split: option.splits)

lemma last_grant_in: "last_grant k cs = Some t \<Longrightarrow> \<exists>c \<in> set cs. clKey c = k \<and> clGranted c \<and> clAt c = t"
  by (induction cs) (auto split: option.splits if_splits)

definition claim_ok :: "claim list \<Rightarrow> claim \<Rightarrow> bool" where
  "claim_ok pre c \<longleftrightarrow>
     (clGranted c \<longleftrightarrow> (case last_grant (clKey c) pre of None \<Rightarrow> True | Some t \<Rightarrow> t + clRepeat c * 1000 < clAt c))"

definition claims_ok :: "claim list \<Rightarrow> bool" where
  "claims_ok cs \<longleftrightarrow> (\<forall>pre c post. cs = pre @ c # post \<longrightarrow> claim_ok pre c)"

lemma claims_ok_snoc: "claims_ok cs \<Longrightarrow> claim_ok cs c \<Longrightarrow> claims_ok (cs @ [c])"
  unfolding claims_ok_def
proof (intro allI impI)
  fix pre d post
  assume ok: "\<forall>pre c post. cs = pre @ c # post \<longrightarrow> claim_ok pre c" "claim_ok cs c" and eq: "cs @ [c] = pre @ d # post"
  show "claim_ok pre d"
  proof (cases post rule: rev_cases)
    case Nil
    then show ?thesis using ok(2) eq by simp
  next
    case (snoc ys y)
    then have "cs = pre @ d # ys" using eq by simp
    then show ?thesis using ok(1) by blast
  qed
qed

definition runs_end_with_heartbeat where
  "runs_end_with_heartbeat runs \<longleftrightarrow> (\<forall>r \<in> set runs. r \<noteq> [] \<longrightarrow> (\<exists>n. last r = heartbeat n))"

lemma watch_inv:
  assumes "watch_step\<^sup>*\<^sup>* ([], [], []) (rows, cs, runs)"
  shows "claims_ok cs \<and> (\<forall>k. last_sent k rows = last_grant k cs) \<and> runs_end_with_heartbeat runs"
  using assms
proof (induction "(rows, cs, runs)" arbitrary: rows cs runs rule: rtranclp_induct)
  case base
  then show ?case by (simp add: claims_ok_def last_sent_def runs_end_with_heartbeat_def)
next
  case (step s)
  obtain rows0 cs0 runs0 where s: "s = (rows0, cs0, runs0)" by (cases s) auto
  have ih: "claims_ok cs0" "\<And>k. last_sent k rows0 = last_grant k cs0" "runs_end_with_heartbeat runs0"
    using step.hyps(3) [OF s] by auto
  from step.hyps(2) [unfolded s] show ?case
  proof cases
    case start
    then show ?thesis using ih by (auto simp: runs_end_with_heartbeat_def decideAlerts_def Let_def)
  next
    case (claim xs f fs ys now)
    have "claim_ok cs0 (claim_of f now rows0)"
      by (simp add: claim_ok_def claim_of_def claimAlert_last_sent(1) ih(2) cong: option.case_cong)
    then have "claims_ok (cs0 @ [claim_of f now rows0])" using claims_ok_snoc [OF ih(1)] by simp
    moreover have "last_sent k (snd (claimAlert f now rows0)) = last_grant k (cs0 @ [claim_of f now rows0])" for k
      by (simp add: claimAlert_last_sent(2) last_grant_snoc ih(2) claim_of_def)
    moreover have "runs_end_with_heartbeat (xs @ fs # ys)"
      using ih(3) claim by (auto simp: runs_end_with_heartbeat_def split: if_splits)
    ultimately show ?thesis using claim by simp
  next
    case (die xs r ys)
    then show ?thesis using ih by (auto simp: runs_end_with_heartbeat_def)
  qed
qed

lemma last_grant_before:
  assumes "claims_ok cs" "cs = pre @ c # post" "clGranted c" "d \<in> set pre" "clGranted d" "clKey d = clKey c"
    and "\<forall>x \<in> set cs. 0 \<le> clRepeat x"
  shows "clAt d + clRepeat c * 1000 < clAt c"
proof -
  have up: "\<exists>t. last_grant k xs = Some t \<and> clAt d \<le> t"
    if "\<forall>ys c zs. xs = ys @ c # zs \<longrightarrow> claim_ok ys c" "d \<in> set xs" "clGranted d" "clKey d = k"
      "\<forall>x \<in> set xs. 0 \<le> clRepeat x" for xs k
    using that
  proof (induction xs rule: rev_induct)
    case (snoc x xs)
    have pre: "\<forall>ys c zs. xs = ys @ c # zs \<longrightarrow> claim_ok ys c" using snoc.prems(1) by auto
    show ?case
    proof (cases "d \<in> set xs")
      case False
      then show ?thesis using snoc.prems by (simp add: last_grant_snoc)
    next
      case True
      then obtain t where t: "last_grant k xs = Some t" "clAt d \<le> t"
        using snoc.IH [OF pre] snoc.prems(3-5) by auto
      have "claim_ok xs x" using snoc.prems(1) by simp
      moreover have "0 \<le> clRepeat x" using snoc.prems(5) by simp
      ultimately show ?thesis using t by (auto simp: last_grant_snoc claim_ok_def)
    qed
  qed simp
  have ok: "\<forall>ys c zs. pre = ys @ c # zs \<longrightarrow> claim_ok ys c" using assms(1,2) unfolding claims_ok_def by auto
  have "\<forall>x \<in> set pre. 0 \<le> clRepeat x" using assms(2,7) by simp
  from up [OF ok assms(4,5,6) this] obtain t where t: "last_grant (clKey c) pre = Some t" "clAt d \<le> t" by auto
  have "claim_ok pre c" using assms(1,2) unfolding claims_ok_def by blast
  then show ?thesis using t assms(3) by (simp add: claim_ok_def)
qed

text \<open>C36: Whatever runs of the watchdog overlap and die, an alert is granted at most once per its interval, a claim is
  refused only because it was granted within the interval, and every run that gets to its end has claimed the
  heartbeat, so a day without one means that no run finished.\<close>

theorem watchdog_speaks_once_and_never_falls_silent:
  assumes "watch_step\<^sup>*\<^sup>* ([], [], []) (rows, cs, runs)" "cs = pre @ c # post" "\<forall>x \<in> set cs. 0 \<le> clRepeat x"
  shows "(clGranted c \<longrightarrow> (\<forall>d \<in> set pre. clGranted d \<and> clKey d = clKey c \<longrightarrow> clAt d + clRepeat c * 1000 < clAt c))
    \<and> (\<not> clGranted c \<longrightarrow> (\<exists>d \<in> set pre. clGranted d \<and> clKey d = clKey c \<and> clAt c - clRepeat c * 1000 \<le> clAt d))
    \<and> (\<forall>r \<in> set runs. r \<noteq> [] \<longrightarrow> fdKey (last r) = heartbeat_key \<and> fdRepeatAfterS (last r) = DAY_S)"
proof -
  note inv = watch_inv [OF assms(1)]
  then have ok: "claims_ok cs" and beat: "runs_end_with_heartbeat runs" by auto
  have "\<exists>d \<in> set pre. clGranted d \<and> clKey d = clKey c \<and> clAt c - clRepeat c * 1000 \<le> clAt d" if refused: "\<not> clGranted c"
  proof -
    have "claim_ok pre c" using ok assms(2) unfolding claims_ok_def by blast
    then obtain t where "last_grant (clKey c) pre = Some t" "clAt c \<le> t + clRepeat c * 1000"
      using refused by (auto simp: claim_ok_def split: option.splits)
    then show ?thesis using last_grant_in by fastforce
  qed
  moreover have "fdKey (last r) = heartbeat_key \<and> fdRepeatAfterS (last r) = DAY_S" if "r \<in> set runs" "r \<noteq> []" for r
    using beat that unfolding runs_end_with_heartbeat_def heartbeat_def by force
  ultimately show ?thesis using last_grant_before [OF ok assms(2) _ _ _ _ assms(3)] by blast
qed

definition demo_quiet :: OperationsSummary where
  "demo_quiet = \<lparr>osRetailers = [], osStaleListings = [], osLast24h = 0, osLast7d = 0, osRecent = [], osByChannel = [],
                 osPending = 0, osOldestPendingAt = None, osFailures = []\<rparr>"

definition demo_safe :: SecuritySummary where
  "demo_safe = \<lparr>sumCounts = [], sumNoisySources = [], sumEndpoints = []\<rparr>"

lemma demo_all_clear: "decideAlerts demo_quiet demo_safe now DEFAULT_THRESHOLDS [] = [heartbeat 0]"
  by (simp add: decideAlerts_def findings_before_heartbeat_def demo_quiet_def demo_safe_def action_count_def Let_def
      DEFAULT_THRESHOLDS_def ageS_def silent_retailers_def)

definition demo_claims :: "claim list" where
  "demo_claims = [\<lparr>clKey = heartbeat_key, clRepeat = DAY_S, clAt = 0, clGranted = True\<rparr>,
                  \<lparr>clKey = heartbeat_key, clRepeat = DAY_S, clAt = 900000, clGranted = False\<rparr>]"

lemma demo_claims_reached: "\<exists>rows. watch_step\<^sup>*\<^sup>* ([], [], []) (rows, demo_claims, [[], []])"
proof -
  let ?h = "heartbeat 0"
  let ?rows = "[\<lparr>oaKey = heartbeat_key, oaLastSentAt = 0, oaDetail = AllClear\<rparr>]"
  have k: "fdKey ?h = heartbeat_key" "fdRepeatAfterS ?h = DAY_S" "fdText ?h = AllClear" by (simp_all add: heartbeat_def)
  have first: "claimAlert ?h 0 [] = (True, ?rows)" by (simp add: claimAlert_def k)
  have second: "claimAlert ?h 900000 ?rows = (False, ?rows)" by (simp add: claimAlert_def k DAY_S_def HOUR_S_def)
  have "watch_step ([], [], []) ([], [], [[?h]])"
    using watch_step.start [of "[]" "[]" "[]" demo_quiet demo_safe 0 DEFAULT_THRESHOLDS "[]"] by (simp add: demo_all_clear)
  moreover have "watch_step ([], [], [[?h]]) ([], [], [[?h], [?h]])"
    using watch_step.start [of "[]" "[]" "[[?h]]" demo_quiet demo_safe 0 DEFAULT_THRESHOLDS "[]"] by (simp add: demo_all_clear)
  moreover have "watch_step ([], [], [[?h], [?h]]) (?rows, [claim_of ?h 0 []], [[], [?h]])"
    using watch_step.claim [of "[]" "[]" "[]" ?h "[]" "[[?h]]" 0] by (simp add: first)
  moreover have "watch_step (?rows, [claim_of ?h 0 []], [[], [?h]]) (?rows, demo_claims, [[], []])"
    using watch_step.claim [of ?rows "[claim_of ?h 0 []]" "[[]]" ?h "[]" "[]" 900000]
    by (simp add: first second claim_of_def k demo_claims_def)
  ultimately show ?thesis by (meson converse_rtranclp_into_rtranclp rtranclp.rtrancl_refl)
qed

theorem watchdog_speaks_once_and_never_falls_silent_witness:
  "\<exists>d \<in> set [hd demo_claims]. clGranted d \<and> clKey d = heartbeat_key \<and> 900000 - DAY_S * 1000 \<le> clAt d"
proof -
  obtain rows where run: "watch_step\<^sup>*\<^sup>* ([], [], []) (rows, demo_claims, [[], []])" using demo_claims_reached by blast
  have split: "demo_claims = [hd demo_claims] @ last demo_claims # []" by (simp add: demo_claims_def)
  have "\<forall>x \<in> set demo_claims. 0 \<le> clRepeat x" by (simp add: demo_claims_def DAY_S_def HOUR_S_def)
  from watchdog_speaks_once_and_never_falls_silent [OF run split this] show ?thesis by (simp add: demo_claims_def)
qed

text \<open>All clear is said exactly when nothing else is.\<close>

lemma all_clear_iff:
  "fdText (last (decideAlerts ops security now th flagsOff)) = AllClear
     \<longleftrightarrow> findings_before_heartbeat ops security now th flagsOff = []"
  by (simp add: decideAlerts_def Let_def heartbeat_def)

text \<open>A retailer that is enabled before it has a listing counts as silent, however well the scanner works.\<close>

lemma a_retailer_without_listings_is_silent:
  assumes "\<forall>l \<in> set (adListings db). rpRetailerId l \<noteq> reId r" "reEnabled r" "r \<in> set (by_name (adRetailers db))"
  shows "\<exists>f \<in> set (decideAlerts (getOperationsSummary interval by_name arrange now db) security now th flagsOff).
           fdKey f = ''scanner.silent'' \<and> fdSeverity f = Critical"
proof -
  let ?ops = "getOperationsSummary interval by_name arrange now db"
  have "filter (\<lambda>l. rpRetailerId l = reId r) (adListings db) = []" using assms(1) by (auto simp: filter_empty_conv)
  then have "rhLastCheckedAt (retailer_health interval now db r) = None" "rhEnabled (retailer_health interval now db r)"
    using assms(2) by (simp_all add: retailer_health_def Let_def max_opt_def List.map_filter_simps)
  then have "retailer_health interval now db r \<in> set (silent_retailers ?ops now th)"
    using assms(3) by (simp add: silent_retailers_def getOperationsSummary_def ageS_def)
  then obtain x xs where "silent_retailers ?ops now th = x # xs" by (cases "silent_retailers ?ops now th") auto
  then show ?thesis by (simp add: decideAlerts_def findings_before_heartbeat_def Let_def)
qed

end
