(* ===== verification/AdminRoutes.thy ===== *)
theory AdminRoutes
  imports Payments PriceInvariant Watchdog AccountGuard
begin

text \<open>
  The console (\<open>packages/db/src/queries/moderation.ts\<close>, \<open>apps/api/src/routes/admin.ts\<close>): the queues, and every
  decision behind its four gates, with its reason and its audit entry, over the stores of the other parts.
\<close>

section \<open>The queues\<close>

definition MIN_REASON_LENGTH :: nat where "MIN_REASON_LENGTH = 3"
definition MAX_REASON_LENGTH :: nat where "MAX_REASON_LENGTH = 280"

record PendingReport =
  prId :: string
  prCardVariantId :: string
  prCardName :: "string option"
  prCondition :: CardCondition
  prPriceCents :: int
  prCurrency :: string
  prSaleType :: SaleType
  prObservedAt :: int
  prReportedAt :: int
  prEvidenceRef :: "string option"
  prMedianCents :: "int option"
  prReporterPending :: nat

definition waiting_report :: "PriceObservation \<Rightarrow> bool" where
  "waiting_report o1 \<longleftrightarrow> poSource o1 = User_report \<and> poApprovedAt o1 = None \<and> poRejectedAt o1 = None"

text \<open>The latest median of a card in a condition and currency.\<close>

definition published_median :: "price_db \<Rightarrow> PriceObservation \<Rightarrow> int option" where
  "published_median db o1 =
     (case sort_key (\<lambda>x. - pxDay x)
         (filter (\<lambda>x. pxCardVariantId x = poCardVariantId o1 \<and> pxCondition x = poCondition o1
                    \<and> pxCurrency x = poCurrency o1) (pdIndex db)) of
        [] \<Rightarrow> None | x # _ \<Rightarrow> Some (pxMedianCents x))"

text \<open>A report without a reporter has no others waiting: \<open>null = null\<close> is not true.\<close>

definition pending_report :: "price_db \<Rightarrow> PriceObservation \<Rightarrow> PendingReport" where
  "pending_report db o1 =
     \<lparr>prId = poId o1, prCardVariantId = poCardVariantId o1,
      prCardName = map_option cvCardName (find_row cvId (poCardVariantId o1) (variants (pdBreaks db))),
      prCondition = poCondition o1, prPriceCents = poPriceCents o1, prCurrency = poCurrency o1,
      prSaleType = poSaleType o1, prObservedAt = poObservedAt o1, prReportedAt = poCreatedAt o1,
      prEvidenceRef = poEvidenceRef o1, prMedianCents = published_median db o1,
      prReporterPending =
        length (filter (\<lambda>p. poReporterId o1 \<noteq> None \<and> poReporterId p = poReporterId o1 \<and> waiting_report p)
          (pdObservations db))\<rparr>"

definition listPendingReportsForReview :: "int \<Rightarrow> price_db \<Rightarrow> PendingReport list" where
  "listPendingReportsForReview limit db =
     map (pending_report db) (take (nat (min (max limit 1) 200))
       (sort_key poCreatedAt (filter waiting_report (pdObservations db))))"

definition getModerationQueue :: "price_db \<Rightarrow> PendingReport list \<times> FlaggedObservation list" where
  "getModerationQueue db = (listPendingReportsForReview 50 db, listFlaggedObservations 50 db)"

datatype reason_error = NoReason | ReasonTooLong

definition normaliseReason :: "string \<Rightarrow> reason_error + string" where
  "normaliseReason reason =
     (let trimmed = collapse_spaces (trim reason) in
      if length trimmed < MIN_REASON_LENGTH then Inl NoReason
      else if length trimmed > MAX_REASON_LENGTH then Inl ReasonTooLong
      else Inr trimmed)"

definition decideReport :: "int \<Rightarrow> string \<Rightarrow> bool \<Rightarrow> price_db \<Rightarrow> db_error + bool \<times> price_db" where
  "decideReport now observationId approve db = moderateObservation now observationId approve db"

definition decideFlag :: "int \<Rightarrow> string \<Rightarrow> bool \<Rightarrow> price_db \<Rightarrow> db_error + bool \<times> price_db" where
  "decideFlag now observationId reject db = reviewFlaggedObservation now observationId reject db"

section \<open>The console\<close>

text \<open>
  The state a decision may touch. Audit entries carry the reason of their diff; \<open>awRefunds\<close> lists the refunds
  the provider was asked for, with their keys.
\<close>

record admin_world =
  awMarket :: market_db
  awPrices :: price_db
  awFlags :: "FlagState list"
  awReader :: "reader option"
  awAudit :: "(AuditEntry \<times> string) list"
  awRefunds :: "(RefundParams \<times> string) list"

text \<open>Whether the audit statement goes through, the provider's answer, identifiers and the clock.\<close>

record admin_env =
  aeAudit :: bool
  aeRefund :: "RefundParams \<Rightarrow> string \<Rightarrow> stripe_error + string \<times> string option"
  aeUuid :: "string \<Rightarrow> bool"
  aeEvId :: string
  aeNow :: int

definition guard_reply :: "account_reply \<Rightarrow> reply" where
  "guard_reply r =
     (case r of
        Unauthenticated \<Rightarrow> unauthenticated
      | StepUp PasskeyRequiredError \<Rightarrow> Reply 403 ''passkey_required''
      | StepUp (StepUpRequiredError _) \<Rightarrow> Reply 403 ''step_up_required''
      | _ \<Rightarrow> forbidden)"

definition admin_guarded ::
  "Subject option \<Rightarrow> int \<Rightarrow> (string \<Rightarrow> reply \<times> admin_world) \<Rightarrow> admin_world \<Rightarrow> reply \<times> admin_world" where
  "admin_guarded subject now handler w =
     (case admin_guard subject now of Inl r \<Rightarrow> (guard_reply r, w) | Inr actor \<Rightarrow> handler actor)"

definition admin_audited ::
  "admin_env \<Rightarrow> string \<Rightarrow> string \<Rightarrow> string \<Rightarrow> string \<Rightarrow> string \<Rightarrow> (admin_world \<Rightarrow> reply \<times> admin_world) \<Rightarrow> admin_world
     \<Rightarrow> reply \<times> admin_world" where
  "admin_audited env actor action typ target reason rest w =
     (if aeAudit env then rest (w\<lparr>awAudit := awAudit w @ [(user_audit actor action typ target, reason)]\<rparr>)
      else (internal_error, w))"

definition ok_reply :: "admin_world \<Rightarrow> reply \<times> admin_world" where
  "ok_reply w = (Reply 200 ''ok'', w)"

definition with_reason ::
  "string \<Rightarrow> (string \<Rightarrow> reply \<times> admin_world) \<Rightarrow> admin_world \<Rightarrow> reply \<times> admin_world" where
  "with_reason raw handler w =
     (if length raw > MAX_REASON_LENGTH + 50 then (invalid_request, w)
      else case normaliseReason raw of Inl _ \<Rightarrow> (invalid_request, w) | Inr reason \<Rightarrow> handler reason)"

definition refresh_own :: "admin_world \<Rightarrow> admin_world" where
  "refresh_own w = w\<lparr>awReader := map_option reader_refresh (awReader w)\<rparr>"

definition postSwitch :: "admin_env \<Rightarrow> Subject option \<Rightarrow> string \<Rightarrow> bool \<Rightarrow> string \<Rightarrow> admin_world \<Rightarrow> reply \<times> admin_world" where
  "postSwitch env subject key enabled raw w =
     admin_guarded subject (aeNow env) (\<lambda>actor.
       if \<not> isKnownFlag key then (not_found, w)
       else with_reason raw (\<lambda>reason.
         admin_audited env actor (if enabled then ''flag.enabled'' else ''flag.disabled'') ''feature_flag'' key reason
           (\<lambda>w. ok_reply (refresh_own w))
           (w\<lparr>awFlags := setFlag key enabled actor reason (aeNow env) (awFlags w)\<rparr>)) w) w"

definition getSwitches :: "admin_env \<Rightarrow> Subject option \<Rightarrow> admin_world \<Rightarrow> reply \<times> FlagState list option" where
  "getSwitches env subject w =
     (case admin_guard subject (aeNow env) of
        Inl r \<Rightarrow> (guard_reply r, None) | Inr actor \<Rightarrow> (Reply 200 ''ok'', Some (listFlags (awFlags w))))"

definition getModeration ::
  "admin_env \<Rightarrow> Subject option \<Rightarrow> admin_world \<Rightarrow> reply \<times> (PendingReport list \<times> FlaggedObservation list) option" where
  "getModeration env subject w =
     (case admin_guard subject (aeNow env) of
        Inl r \<Rightarrow> (guard_reply r, None) | Inr actor \<Rightarrow> (Reply 200 ''ok'', Some (getModerationQueue (awPrices w))))"

text \<open>\<open>summary\<close> is the query of the page.\<close>

definition getAdminSummary :: "admin_env \<Rightarrow> Subject option \<Rightarrow> 'a \<Rightarrow> reply \<times> 'a option" where
  "getAdminSummary env subject summary =
     (case admin_guard subject (aeNow env) of
        Inl r \<Rightarrow> (guard_reply r, None) | Inr actor \<Rightarrow> (Reply 200 ''ok'', Some summary))"

definition decided ::
  "admin_env \<Rightarrow> string \<Rightarrow> string \<Rightarrow> string \<Rightarrow> string \<Rightarrow> db_error + bool \<times> price_db \<Rightarrow> admin_world \<Rightarrow> reply \<times> admin_world" where
  "decided env actor action k reason outcome w =
     (case outcome of
        Inl _ \<Rightarrow> (internal_error, w)
      | Inr (False, _) \<Rightarrow> (Reply 409 ''already_decided'', w)
      | Inr (True, prices) \<Rightarrow> admin_audited env actor action ''price_observation'' k reason ok_reply (w\<lparr>awPrices := prices\<rparr>))"

definition postReportDecision ::
  "admin_env \<Rightarrow> Subject option \<Rightarrow> string \<Rightarrow> bool \<Rightarrow> string \<Rightarrow> admin_world \<Rightarrow> reply \<times> admin_world" where
  "postReportDecision env subject k approve raw w =
     admin_guarded subject (aeNow env) (\<lambda>actor.
       if \<not> aeUuid env k then (not_found, w)
       else with_reason raw (\<lambda>reason.
         decided env actor (if approve then ''moderation.report.approve'' else ''moderation.report.reject'') k reason
           (decideReport (aeNow env) k approve (awPrices w)) w) w) w"

definition postFlagDecision ::
  "admin_env \<Rightarrow> Subject option \<Rightarrow> string \<Rightarrow> bool \<Rightarrow> string \<Rightarrow> admin_world \<Rightarrow> reply \<times> admin_world" where
  "postFlagDecision env subject k reject raw w =
     admin_guarded subject (aeNow env) (\<lambda>actor.
       if \<not> aeUuid env k then (not_found, w)
       else with_reason raw (\<lambda>reason.
         decided env actor (if reject then ''moderation.flag.reject'' else ''moderation.flag.clear'') k reason
           (decideFlag (aeNow env) k reject (awPrices w)) w) w) w"

definition postClearName :: "admin_env \<Rightarrow> Subject option \<Rightarrow> string \<Rightarrow> string \<Rightarrow> admin_world \<Rightarrow> reply \<times> admin_world" where
  "postClearName env subject k raw w =
     admin_guarded subject (aeNow env) (\<lambda>actor.
       if length k = 0 \<or> length k > 64 then (not_found, w)
       else with_reason raw (\<lambda>reason.
         case clearSellerDisplayName k (aeNow env) (awMarket w) of
           (False, _) \<Rightarrow> (not_found, w)
         | (True, db) \<Rightarrow> admin_audited env actor ''moderation.seller.name_cleared'' ''seller_account'' k reason ok_reply
             (w\<lparr>awMarket := db\<rparr>)) w) w"

datatype admin_move = DeliverMove | CompleteMove

definition admin_run_move ::
  "admin_move \<Rightarrow> string \<Rightarrow> string \<Rightarrow> string \<Rightarrow> string \<Rightarrow> int \<Rightarrow> market_db \<Rightarrow> order_error + Order \<times> market_db" where
  "admin_run_move m k actor reason evId0 now db =
     (case m of
        DeliverMove \<Rightarrow> markOrderDelivered k ByAdmin (Some actor) (Some reason) evId0 now db
      | CompleteMove \<Rightarrow> completeOrder k ByAdmin (Some actor) (Some reason) evId0 now db)"

definition move_action :: "admin_move \<Rightarrow> string" where
  "move_action m = (case m of DeliverMove \<Rightarrow> ''order.delivered'' | CompleteMove \<Rightarrow> ''order.completed'')"

definition postOrderMove ::
  "admin_env \<Rightarrow> Subject option \<Rightarrow> admin_move \<Rightarrow> string \<Rightarrow> string \<Rightarrow> admin_world \<Rightarrow> reply \<times> admin_world" where
  "postOrderMove env subject m k reason w =
     admin_guarded subject (aeNow env) (\<lambda>actor.
       if \<not> aeUuid env k then (not_found, w)
       else if reason = [] \<or> length reason > ORDER_REASON_MAX_LENGTH then (invalid_request, w)
       else case admin_run_move m k actor reason (aeEvId env) (aeNow env) (awMarket w) of
         Inl OrderNotFoundError \<Rightarrow> (not_found, w)
       | Inl (IllegalTransition _) \<Rightarrow> (Reply 409 ''illegal_transition'', w)
       | Inl _ \<Rightarrow> (internal_error, w)
       | Inr (order, db) \<Rightarrow>
           admin_audited env actor (move_action m) ''order'' (oId order) reason ok_reply (w\<lparr>awMarket := db\<rparr>)) w"

definition refund_input :: "Order \<Rightarrow> string \<Rightarrow> bool option \<Rightarrow> RefundInput" where
  "refund_input order intent reverse =
     \<lparr>rfPaymentIntentId = intent, rfOrderId = oId order, rfAmountCents = None, rfReason = None,
      rfReverseTransfer = reverse, rfRefundApplicationFee = None\<rparr>"

definition ask_refund :: "admin_env \<Rightarrow> RefundInput \<Rightarrow> admin_world \<Rightarrow> reply \<times> admin_world" where
  "ask_refund env input w =
     (let w' = w\<lparr>awRefunds := awRefunds w @ [(refund_params input, idempotency ''refund'' (rfOrderId input))]\<rparr>
      in case refundPayment (aeRefund env) input of
           Inl _ \<Rightarrow> (internal_error, w')
         | Inr _ \<Rightarrow> (Reply 200 ''requested'', w'))"

definition postRefund ::
  "admin_env \<Rightarrow> Subject option \<Rightarrow> string \<Rightarrow> string \<Rightarrow> bool option \<Rightarrow> admin_world \<Rightarrow> reply \<times> admin_world" where
  "postRefund env subject k reason reverse w =
     admin_guarded subject (aeNow env) (\<lambda>actor.
       if \<not> aeUuid env k then (not_found, w)
       else if reason = [] \<or> length reason > ORDER_REASON_MAX_LENGTH then (invalid_request, w)
       else case getOrderById k (awMarket w) of
         None \<Rightarrow> (not_found, w)
       | Some order \<Rightarrow>
           (case oPaymentIntentId order of
              None \<Rightarrow> (Reply 409 ''nothing_to_refund'', w)
            | Some intent \<Rightarrow>
                if oStatus order = Refunded then (Reply 409 ''already_refunded'', w)
                else admin_audited env actor ''order.refund_requested'' ''order'' (oId order) reason
                       (ask_refund env (refund_input order intent reverse)) w)) w"

end
