(* ===== verification/AdminProps.thy ===== *)
theory AdminProps
  imports AdminRoutes
begin

text \<open>
  Every request of the console: behind the gates, one change of one part of the state at most, an operation of
  that part's own machine, and on record with who and why.
\<close>

datatype admin_request =
    SetSwitch string bool string
  | DecideReport string bool string
  | DecideFlag string bool string
  | ClearName string string
  | MoveOrder admin_move string string
  | Refund string string "bool option"

fun run_admin :: "admin_env \<Rightarrow> Subject option \<Rightarrow> admin_request \<Rightarrow> admin_world \<Rightarrow> reply \<times> admin_world" where
  "run_admin env subject (SetSwitch key enabled raw) w = postSwitch env subject key enabled raw w"
| "run_admin env subject (DecideReport k approve raw) w = postReportDecision env subject k approve raw w"
| "run_admin env subject (DecideFlag k reject raw) w = postFlagDecision env subject k reject raw w"
| "run_admin env subject (ClearName k raw) w = postClearName env subject k raw w"
| "run_admin env subject (MoveOrder m k reason) w = postOrderMove env subject m k reason w"
| "run_admin env subject (Refund k reason reverse) w = postRefund env subject k reason reverse w"

definition strong_admin :: "Subject option \<Rightarrow> int \<Rightarrow> string \<Rightarrow> bool" where
  "strong_admin subject now actor \<longleftrightarrow>
     (\<exists>s t. subject = Some s \<and> subUserId s = actor \<and> subRole s = RAdmin \<and> subAuthMethod s = Some Passkey
        \<and> subAuthenticatedAt s = Some t \<and> now - t \<le> ADMIN_STEP_UP_MAX_AGE_MS)"

text \<open>One decision of one kind: at most one part of the state moves, by an operation of its own machine.\<close>

definition admin_change :: "admin_env \<Rightarrow> string \<Rightarrow> admin_world \<Rightarrow> admin_world \<Rightarrow> bool" where
  "admin_change env actor w w' \<longleftrightarrow>
     (\<exists>key enabled reason. isKnownFlag key
        \<and> (\<exists>rd \<in> {awReader w, awReader (refresh_own w)}.
              w' = w\<lparr>awFlags := setFlag key enabled actor reason (aeNow env) (awFlags w), awReader := rd, awAudit := awAudit w'\<rparr>))
   \<or> (\<exists>x prices. (\<exists>k d. x = OpModerate (aeNow env) k d \<or> x = OpReview (aeNow env) k d)
        \<and> price_step x (awPrices w) = Inr prices \<and> w' = w\<lparr>awPrices := prices, awAudit := awAudit w'\<rparr>)
   \<or> (\<exists>x db. (\<exists>k reason. x = SellerOp (ClearDisplayName k (aeNow env))
           \<or> x = OrderOp (MarkDelivered k ByAdmin (Some actor) (Some reason) (aeEvId env) (aeNow env))
           \<or> x = OrderOp (Complete k ByAdmin (Some actor) (Some reason) (aeEvId env) (aeNow env)))
        \<and> market_step x (awMarket w) = Inr db \<and> w' = w\<lparr>awMarket := db, awAudit := awAudit w'\<rparr>)
   \<or> (\<exists>order intent reverse. getOrderById (oId order) (awMarket w) = Some order
        \<and> oPaymentIntentId order = Some intent \<and> oStatus order \<noteq> Refunded
        \<and> w' = w\<lparr>awRefunds := awRefunds w @ [(refund_params (refund_input order intent reverse), idempotency ''refund'' (oId order))],
                 awAudit := awAudit w'\<rparr>)"

definition on_record :: "string \<Rightarrow> admin_world \<Rightarrow> admin_world \<Rightarrow> bool" where
  "on_record actor w w' \<longleftrightarrow>
     (\<exists>action typ target reason. awAudit w' = awAudit w @ [(user_audit actor action typ target, reason)]
        \<and> 1 \<le> length reason \<and> length reason \<le> 280)"

definition recorded :: "admin_env \<Rightarrow> string \<Rightarrow> admin_world \<Rightarrow> admin_world \<Rightarrow> bool" where
  "recorded env actor w w' \<longleftrightarrow> (if aeAudit env then on_record actor w w' else awAudit w' = awAudit w)"

definition admin_done :: "admin_env \<Rightarrow> string \<Rightarrow> admin_world \<Rightarrow> admin_world \<Rightarrow> bool" where
  "admin_done env actor w w' \<longleftrightarrow> w' = w \<or> admin_change env actor w w' \<and> recorded env actor w w'"

lemma admin_granted: "AdminAccess \<in> set (grantsFor role) \<longleftrightarrow> role = RAdmin"
  by (cases role) (simp_all add: BASE_ACTIONS_def CREATOR_ACTIONS_def SELLER_ACTIONS_def)

lemma guarded_done:
  assumes "admin_guarded subject (aeNow env) handler w = (r, w')"
    and "\<And>actor. handler actor = (r, w') \<Longrightarrow> admin_done env actor w w'"
  shows "w' = w \<or> (\<exists>actor. strong_admin subject (aeNow env) actor \<and> admin_done env actor w w')"
proof (cases "admin_guard subject (aeNow env)")
  case (Inl e)
  then show ?thesis using assms(1) by (simp add: admin_guarded_def)
next
  case (Inr actor)
  have "strong_admin subject (aeNow env) actor"
    using Inr
    by (auto simp: admin_guard_def strong_admin_def authorize_None_iff requireAdminStepUp_def requireFreshSession_def
        isFreshSession_def Let_def can_def admin_granted split: option.splits if_splits)
  then show ?thesis using assms Inr by (auto simp: admin_guarded_def)
qed

lemma with_reason_done:
  assumes "with_reason raw handler w = (r, w')"
    and "\<And>reason. 1 \<le> length reason \<Longrightarrow> length reason \<le> 280 \<Longrightarrow> handler reason = (r, w') \<Longrightarrow> admin_done env actor w w'"
  shows "admin_done env actor w w'"
proof (cases "length raw > MAX_REASON_LENGTH + 50")
  case True
  then show ?thesis using assms(1) by (simp add: with_reason_def admin_done_def)
next
  case False
  show ?thesis
  proof (cases "normaliseReason raw")
    case (Inl e)
    then show ?thesis using assms(1) False by (simp add: with_reason_def admin_done_def)
  next
    case (Inr reason)
    then have "1 \<le> length reason" "length reason \<le> 280"
      by (auto simp: normaliseReason_def Let_def MIN_REASON_LENGTH_def MAX_REASON_LENGTH_def split: if_splits)
    then show ?thesis using assms False Inr by (simp add: with_reason_def)
  qed
qed

text \<open>The audit entry of a change that was made: its rest may move what the change itself allows.\<close>

lemma audited_done:
  assumes "admin_audited env actor action typ target reason rest w1 = (r, w')" "awAudit w1 = awAudit w"
    and "1 \<le> length reason" "length reason \<le> 280"
    and "\<And>w2. rest w2 = (r, w') \<Longrightarrow> awAudit w' = awAudit w2"
    and "aeAudit env \<Longrightarrow> rest (w1\<lparr>awAudit := awAudit w @ [(user_audit actor action typ target, reason)]\<rparr>) = (r, w')
           \<Longrightarrow> admin_change env actor w w'"
    and "\<not> aeAudit env \<Longrightarrow> w' = w1 \<Longrightarrow> w' = w \<or> admin_change env actor w w'"
  shows "admin_done env actor w w'"
proof (cases "aeAudit env")
  case True
  let ?w2 = "w1\<lparr>awAudit := awAudit w @ [(user_audit actor action typ target, reason)]\<rparr>"
  have r: "rest ?w2 = (r, w')" using assms(1,2) True by (simp add: admin_audited_def)
  have "awAudit w' = awAudit w @ [(user_audit actor action typ target, reason)]" using assms(5) [OF r] by simp
  then have "on_record actor w w'" unfolding on_record_def using assms(3,4) by blast
  then show ?thesis using assms(6) [OF True r] True by (simp add: admin_done_def recorded_def)
next
  case False
  then have "w' = w1" using assms(1) by (simp add: admin_audited_def)
  then show ?thesis using assms(2,7) False by (auto simp: admin_done_def recorded_def)
qed

lemma clear_name_nothing: "clearSellerDisplayName k now db = (False, db') \<Longrightarrow> db' = db"
  by (auto simp: clearSellerDisplayName_def update_row_def find_row_def find_None_iff intro!: market_db.equality map_idI)

lemma switch_change:
  assumes "isKnownFlag key" "rd = awReader w \<or> rd = awReader (refresh_own w)"
    "w' = w\<lparr>awFlags := setFlag key enabled actor reason (aeNow env) (awFlags w), awReader := rd, awAudit := es\<rparr>"
  shows "admin_change env actor w w'"
  unfolding admin_change_def
  by (rule disjI1, rule exI [of _ key], rule exI [of _ enabled], rule exI [of _ reason]) (use assms in auto)

lemma price_change:
  assumes "price_step x (awPrices w) = Inr prices" "x = OpModerate (aeNow env) k d \<or> x = OpReview (aeNow env) k d"
    "w' = w\<lparr>awPrices := prices, awAudit := es\<rparr>"
  shows "admin_change env actor w w'"
  unfolding admin_change_def by (rule disjI2, rule disjI1) (use assms in auto)

lemma market_change:
  assumes "market_step x (awMarket w) = Inr db"
    "x = SellerOp (ClearDisplayName k (aeNow env))
     \<or> x = OrderOp (MarkDelivered k ByAdmin (Some actor) (Some reason) (aeEvId env) (aeNow env))
     \<or> x = OrderOp (Complete k ByAdmin (Some actor) (Some reason) (aeEvId env) (aeNow env))"
    "w' = w\<lparr>awMarket := db, awAudit := es\<rparr>"
  shows "admin_change env actor w w'"
  unfolding admin_change_def by (rule disjI2, rule disjI2, rule disjI1) (use assms in auto)

lemma refund_change:
  assumes "getOrderById (oId order) (awMarket w) = Some order" "oPaymentIntentId order = Some intent" "oStatus order \<noteq> Refunded"
    "w' = w\<lparr>awRefunds := awRefunds w @ [(refund_params (refund_input order intent reverse), idempotency ''refund'' (oId order))],
            awAudit := es\<rparr>"
  shows "admin_change env actor w w'"
  unfolding admin_change_def by (rule disjI2, rule disjI2, rule disjI2) (use assms in auto)

lemma decided_done:
  assumes "decided env actor action k0 reason outcome w = (r, w')" "1 \<le> length reason" "length reason \<le> 280"
    and step: "\<And>prices. outcome = Inr (True, prices) \<Longrightarrow> price_step x (awPrices w) = Inr prices"
    and x: "x = OpModerate (aeNow env) k d \<or> x = OpReview (aeNow env) k d"
  shows "admin_done env actor w w'"
proof (cases "\<exists>prices. outcome = Inr (True, prices)")
  case False
  then show ?thesis using assms(1)
    by (auto simp: decided_def admin_done_def split: sum.splits prod.splits bool.splits)
next
  case True
  then obtain prices where o: "outcome = Inr (True, prices)" ..
  have a: "admin_audited env actor action ''price_observation'' k0 reason ok_reply (w\<lparr>awPrices := prices\<rparr>) = (r, w')"
    using assms(1) o by (simp add: decided_def)
  have ch: "admin_change env actor w (w\<lparr>awPrices := prices, awAudit := es\<rparr>)" for es
    by (rule price_change [OF step [OF o] x refl])
  show ?thesis
    by (rule audited_done [OF a _ assms(2,3)]) (use ch ch [of "awAudit w"] in \<open>auto simp: ok_reply_def\<close>)
qed

lemma moved_done:
  assumes "admin_audited env actor action typ target reason ok_reply (w\<lparr>awMarket := db\<rparr>) = (r, w')"
    "1 \<le> length reason" "length reason \<le> 280" and step: "market_step x (awMarket w) = Inr db"
    and x: "x = SellerOp (ClearDisplayName k (aeNow env))
     \<or> x = OrderOp (MarkDelivered k ByAdmin (Some actor) (Some reason') (aeEvId env) (aeNow env))
     \<or> x = OrderOp (Complete k ByAdmin (Some actor) (Some reason') (aeEvId env) (aeNow env))"
  shows "admin_done env actor w w'"
proof -
  have ch: "admin_change env actor w (w\<lparr>awMarket := db, awAudit := es\<rparr>)" for es
    by (rule market_change [OF step x refl])
  show ?thesis
    by (rule audited_done [OF assms(1) _ assms(2,3)]) (use ch ch [of "awAudit w"] in \<open>auto simp: ok_reply_def\<close>)
qed

lemma switch_done: "postSwitch env subject key enabled raw w = (r, w') \<Longrightarrow>
  w' = w \<or> (\<exists>actor. strong_admin subject (aeNow env) actor \<and> admin_done env actor w w')"
  unfolding postSwitch_def
proof (erule guarded_done)
  fix actor
  assume h: "(if \<not> isKnownFlag key then (not_found, w)
       else with_reason raw (\<lambda>reason.
         admin_audited env actor (if enabled then ''flag.enabled'' else ''flag.disabled'') ''feature_flag'' key reason
           (\<lambda>w. ok_reply (refresh_own w))
           (w\<lparr>awFlags := setFlag key enabled actor reason (aeNow env) (awFlags w)\<rparr>)) w) = (r, w')"
  show "admin_done env actor w w'"
  proof (cases "isKnownFlag key")
    case True
    have ch: "admin_change env actor w (w\<lparr>awFlags := setFlag key enabled actor reason (aeNow env) (awFlags w), awAudit := es, awReader := rd\<rparr>)"
      if "rd = awReader w \<or> rd = awReader (refresh_own w)" for rd reason es
      by (rule switch_change [OF True that, where enabled = enabled and reason = reason and es = es]) simp
    show ?thesis
    proof (rule with_reason_done [OF h [simplified True, simplified]])
      fix reason :: string
      assume b: "1 \<le> length reason" "length reason \<le> 280"
        and a: "admin_audited env actor (if enabled then ''flag.enabled'' else ''flag.disabled'') ''feature_flag'' key reason
           (\<lambda>w. ok_reply (refresh_own w))
           (w\<lparr>awFlags := setFlag key enabled actor reason (aeNow env) (awFlags w)\<rparr>) = (r, w')"
      show "admin_done env actor w w'"
        by (rule audited_done [OF a _ b])
           (use ch [where rd = "awReader w" and reason = reason and es = "awAudit w"]
               ch [where rd = "awReader (refresh_own w)" and reason = reason] in
             \<open>auto simp: ok_reply_def refresh_own_def\<close>)
    qed
  qed (use h in \<open>simp add: admin_done_def\<close>)
qed

lemma decision_done:
  assumes "admin_guarded subject (aeNow env) (\<lambda>actor.
       if \<not> aeUuid env k then (not_found, w)
       else with_reason raw (\<lambda>reason. decided env actor action k reason outcome w) w) w = (r, w')"
    and step: "\<And>prices. outcome = Inr (True, prices) \<Longrightarrow> price_step x (awPrices w) = Inr prices"
    and x: "x = OpModerate (aeNow env) k d \<or> x = OpReview (aeNow env) k d"
  shows "w' = w \<or> (\<exists>actor. strong_admin subject (aeNow env) actor \<and> admin_done env actor w w')"
  using assms(1)
proof (rule guarded_done)
  fix actor
  assume h: "(if \<not> aeUuid env k then (not_found, w)
       else with_reason raw (\<lambda>reason. decided env actor action k reason outcome w) w) = (r, w')"
  show "admin_done env actor w w'"
  proof (cases "aeUuid env k")
    case True
    show ?thesis
      by (rule with_reason_done [OF h [simplified True, simplified]]) (rule decided_done [OF _ _ _ step x])
  qed (use h in \<open>simp add: admin_done_def\<close>)
qed

lemma clear_done: "postClearName env subject k raw w = (r, w') \<Longrightarrow>
  w' = w \<or> (\<exists>actor. strong_admin subject (aeNow env) actor \<and> admin_done env actor w w')"
  unfolding postClearName_def
proof (erule guarded_done)
  fix actor
  assume h: "(if length k = 0 \<or> length k > 64 then (not_found, w)
       else with_reason raw (\<lambda>reason.
         case clearSellerDisplayName k (aeNow env) (awMarket w) of
           (False, _) \<Rightarrow> (not_found, w)
         | (True, db) \<Rightarrow> admin_audited env actor ''moderation.seller.name_cleared'' ''seller_account'' k reason ok_reply
             (w\<lparr>awMarket := db\<rparr>)) w) = (r, w')"
  show "admin_done env actor w w'"
  proof (cases "length k = 0 \<or> length k > 64")
    case False
    obtain b db where c: "clearSellerDisplayName k (aeNow env) (awMarket w) = (b, db)" by (cases "clearSellerDisplayName k (aeNow env) (awMarket w)")
    have step: "market_step (SellerOp (ClearDisplayName k (aeNow env))) (awMarket w) = Inr db" using c by simp
    show ?thesis
    proof (rule with_reason_done [OF h [unfolded if_not_P [OF False]]])
      fix reason :: string
      assume b: "1 \<le> length reason" "length reason \<le> 280"
        and a: "(case clearSellerDisplayName k (aeNow env) (awMarket w) of
           (False, _) \<Rightarrow> (not_found, w)
         | (True, db) \<Rightarrow> admin_audited env actor ''moderation.seller.name_cleared'' ''seller_account'' k reason ok_reply
             (w\<lparr>awMarket := db\<rparr>)) = (r, w')"
      show "admin_done env actor w w'"
      proof (cases b)
        case True
        with a c have "admin_audited env actor ''moderation.seller.name_cleared'' ''seller_account'' k reason ok_reply
             (w\<lparr>awMarket := db\<rparr>) = (r, w')" by simp
        then show ?thesis by (rule moved_done [OF _ b step]) simp
      qed (use a c in \<open>simp add: admin_done_def\<close>)
    qed
  qed (use h in \<open>simp add: admin_done_def\<close>)
qed

lemma move_done: "postOrderMove env subject m k reason w = (r, w') \<Longrightarrow>
  w' = w \<or> (\<exists>actor. strong_admin subject (aeNow env) actor \<and> admin_done env actor w w')"
  unfolding postOrderMove_def
proof (erule guarded_done)
  fix actor
  assume h: "(if \<not> aeUuid env k then (not_found, w)
       else if reason = [] \<or> length reason > ORDER_REASON_MAX_LENGTH then (invalid_request, w)
       else case admin_run_move m k actor reason (aeEvId env) (aeNow env) (awMarket w) of
         Inl OrderNotFoundError \<Rightarrow> (not_found, w)
       | Inl (IllegalTransition _) \<Rightarrow> (Reply 409 ''illegal_transition'', w)
       | Inl _ \<Rightarrow> (internal_error, w)
       | Inr (order, db) \<Rightarrow>
           admin_audited env actor (move_action m) ''order'' (oId order) reason ok_reply (w\<lparr>awMarket := db\<rparr>)) = (r, w')"
  show "admin_done env actor w w'"
  proof (cases "admin_run_move m k actor reason (aeEvId env) (aeNow env) (awMarket w)")
    case (Inl e)
    then show ?thesis using h by (auto simp: admin_done_def split: if_splits order_error.splits)
  next
    case (Inr p)
    obtain order db where p: "p = (order, db)" by (cases p)
    show ?thesis
    proof (cases "\<not> aeUuid env k \<or> reason = [] \<or> length reason > ORDER_REASON_MAX_LENGTH")
      case True
      then show ?thesis using h by (auto simp: admin_done_def split: if_splits)
    next
      case False
      then have b: "1 \<le> length reason" "length reason \<le> 280" by (cases reason; simp add: ORDER_REASON_MAX_LENGTH_def)+
      have a: "admin_audited env actor (move_action m) ''order'' (oId order) reason ok_reply (w\<lparr>awMarket := db\<rparr>) = (r, w')"
        using h False Inr p by simp
      let ?x = "OrderOp (case m of
          DeliverMove \<Rightarrow> MarkDelivered k ByAdmin (Some actor) (Some reason) (aeEvId env) (aeNow env)
        | CompleteMove \<Rightarrow> Complete k ByAdmin (Some actor) (Some reason) (aeEvId env) (aeNow env))"
      have "market_step ?x (awMarket w) = Inr db"
        using Inr p by (cases m) (simp_all add: admin_run_move_def committed_def)
      then show ?thesis by (rule moved_done [OF a b]) (cases m; simp)
    qed
  qed
qed

lemma refund_done: "postRefund env subject k reason reverse w = (r, w') \<Longrightarrow>
  w' = w \<or> (\<exists>actor. strong_admin subject (aeNow env) actor \<and> admin_done env actor w w')"
  unfolding postRefund_def
proof (erule guarded_done)
  fix actor
  assume h: "(if \<not> aeUuid env k then (not_found, w)
       else if reason = [] \<or> length reason > ORDER_REASON_MAX_LENGTH then (invalid_request, w)
       else case getOrderById k (awMarket w) of
         None \<Rightarrow> (not_found, w)
       | Some order \<Rightarrow>
           (case oPaymentIntentId order of
              None \<Rightarrow> (Reply 409 ''nothing_to_refund'', w)
            | Some intent \<Rightarrow>
                if oStatus order = Refunded then (Reply 409 ''already_refunded'', w)
                else admin_audited env actor ''order.refund_requested'' ''order'' (oId order) reason
                       (ask_refund env (refund_input order intent reverse)) w)) = (r, w')"
  show "admin_done env actor w w'"
  proof (cases "w' = w")
    case False
    then obtain order intent where o: "getOrderById k (awMarket w) = Some order" "oPaymentIntentId order = Some intent"
      "oStatus order \<noteq> Refunded" and b: "reason \<noteq> []" "length reason \<le> ORDER_REASON_MAX_LENGTH"
      and a: "admin_audited env actor ''order.refund_requested'' ''order'' (oId order) reason
                (ask_refund env (refund_input order intent reverse)) w = (r, w')"
      using h by (auto split: if_splits option.splits)
    have key: "oId order = k" using o(1) by (auto simp: getOrderById_def select_order_def dest: find_row_SomeD split: option.splits if_splits)
    have ch: "admin_change env actor w (w\<lparr>awAudit := es, awRefunds := awRefunds w @
          [(refund_params (refund_input order intent reverse), idempotency ''refund'' (oId order))]\<rparr>)" for es
      by (rule refund_change [OF _ o(2,3), where reverse = reverse and es = es]) (use o(1) key in simp_all)
    have len: "1 \<le> length reason" "length reason \<le> 280" using b by (cases reason; simp add: ORDER_REASON_MAX_LENGTH_def)+
    show ?thesis
      by (rule audited_done [OF a refl len])
         (use ch in \<open>auto simp: ask_refund_def Let_def refund_input_def split: sum.splits\<close>)
  qed (simp add: admin_done_def)
qed


definition demo_admin :: Subject where
  "demo_admin = \<lparr>subUserId = ''root'', subRole = RAdmin, subAuthenticatedAt = Some 0, subAuthMethod = Some Passkey,
                 subSessionId = None\<rparr>"

definition demo_console :: admin_world where
  "demo_console =
     \<lparr>awMarket = demo_shop,
      awPrices = \<lparr>pdUsers = [], pdVariants = [], pdBreaks = \<lparr>accounts = [], products = [], variants = [], indexDaily = [],
        breakRows = [], pullRows = [], evidenceRows = [], commitmentRows = []\<rparr>, pdObservations = [], pdIndex = [], pdSales = []\<rparr>,
      awFlags = [], awReader = None, awAudit = [], awRefunds = []\<rparr>"

definition demo_console_env :: "bool \<Rightarrow> admin_env" where
  "demo_console_env ok = \<lparr>aeAudit = ok, aeRefund = \<lambda>_ _. Inl RateLimited, aeUuid = \<lambda>_. True, aeEvId = ''e'', aeNow = 60000\<rparr>"

lemma demo_switched:
  "run_admin (demo_console_env True) (Some demo_admin) (SetSwitch checkoutEnabled False ''fee bug'') demo_console =
     (Reply 200 ''ok'', demo_console\<lparr>awFlags := setFlag checkoutEnabled False ''root'' ''fee bug'' 60000 [],
        awAudit := [(user_audit ''root'' ''flag.disabled'' ''feature_flag'' checkoutEnabled, ''fee bug'')]\<rparr>)"
  by code_simp


text \<open>The decision comes first: when the audit statement fails the switch stays thrown, and nothing says who did it.\<close>

lemma a_decision_can_go_unrecorded:
  "run_admin (demo_console_env False) (Some demo_admin) (SetSwitch checkoutEnabled False ''fee bug'') demo_console =
     (internal_error, demo_console\<lparr>awFlags := setFlag checkoutEnabled False ''root'' ''fee bug'' 60000 []\<rparr>)"
  by code_simp

end
