(* ===== verification/IngestRoutes.thy ===== *)
theory IngestRoutes
  imports AlertRuns ApiKeys BreakRoutes PriceInvariant
begin

text \<open>
  Stock reports from the scanner (\<open>apps/api/src/routes/ingest.ts\<close>, with the message of \<open>index.ts\<close>) and the
  live-sale logger (\<open>apps/api/src/routes/live-sales.ts\<close>), over the alert and the price stores.
\<close>

section \<open>Stock reports\<close>

record StockObservation =
  obInStock :: bool
  obPriceCents :: "jsnum option"
  obCurrency :: "string option"
  obRawHash :: "string option"

datatype stock_report = ById string StockObservation | ByUrl string string string StockObservation

fun report_observation :: "stock_report \<Rightarrow> StockObservation" where
  "report_observation (ById k ob) = ob"
| "report_observation (ByUrl slug domain u ob) = ob"

definition lower_alnum :: "char \<Rightarrow> bool" where
  "lower_alnum c \<longleftrightarrow> is_digit c \<or> (of_char c :: nat) \<in> {97..122}"

definition lower_alpha :: "char \<Rightarrow> bool" where
  "lower_alpha c \<longleftrightarrow> (of_char c :: nat) \<in> {97..122}"

definition productSlug :: "string \<Rightarrow> bool" where
  "productSlug s \<longleftrightarrow> 3 \<le> length s \<and> length s \<le> 80 \<and> lower_alnum (hd s) \<and> lower_alnum (last s)
     \<and> list_all (\<lambda>c. lower_alnum c \<or> c = CHR ''-'') s"

text \<open>The part after the last dot is the top level; before it stands at least one character.\<close>

definition retailerDomain :: "string \<Rightarrow> bool" where
  "retailerDomain s \<longleftrightarrow>
     (let tld = rev (takeWhile (\<lambda>c. c \<noteq> CHR ''.'') (rev s)); name = take (length s - length tld - 1) s
      in CHR ''.'' \<in> set s \<and> 2 \<le> length tld \<and> list_all lower_alpha tld
         \<and> name \<noteq> [] \<and> lower_alnum (hd name) \<and> list_all (\<lambda>c. lower_alnum c \<or> c = CHR ''-'' \<or> c = CHR ''.'') name)"

text \<open>
  What the handler is given: the format checks and the parser of the platform, the answers of the two switches
  (asked once, and once per restock), the transports, fresh identifiers by report, and the clock.
\<close>

record ingest_deps =
  idUuid :: "string \<Rightarrow> bool"
  idUrl :: "string \<Rightarrow> bool"
  idParse :: "string \<Rightarrow> url option"
  idIngestOn :: bool
  idAlertsOn :: "nat \<Rightarrow> bool"
  idTransports :: transports
  idIds :: "nat \<Rightarrow> nat \<Rightarrow> string"
  idNow :: int

definition observationSchema :: "StockObservation \<Rightarrow> bool" where
  "observationSchema ob \<longleftrightarrow>
     z_opt (z_between 0 100000000) (obPriceCents ob) \<and> z_opt iso_currency (obCurrency ob) \<and> z_max 128 (obRawHash ob)"

fun reportSchema :: "ingest_deps \<Rightarrow> stock_report \<Rightarrow> bool" where
  "reportSchema deps (ById k ob) \<longleftrightarrow> idUuid deps k \<and> observationSchema ob"
| "reportSchema deps (ByUrl slug domain u ob) \<longleftrightarrow>
     productSlug slug \<and> retailerDomain domain \<and> idUrl deps u \<and> starts_with ''https://'' u \<and> length u \<le> 2048
     \<and> observationSchema ob"

definition ingestSchema :: "ingest_deps \<Rightarrow> stock_report list \<Rightarrow> bool" where
  "ingestSchema deps reports \<longleftrightarrow> 1 \<le> length reports \<and> length reports \<le> 100 \<and> list_all (reportSchema deps) reports"

datatype ingest_auth = Keyed string | AuthFailed nat | AuthThrew

definition authenticate ::
  "string option \<Rightarrow> string \<Rightarrow> bool \<Rightarrow> int \<Rightarrow> key_db \<Rightarrow> ingest_auth \<times> key_db" where
  "authenticate authorization pepper stamped now kdb =
     (case authenticateApiKey authorization pepper stamped now kdb of
        (Inr None, kdb') \<Rightarrow> (AuthFailed 401, kdb')
      | (Inr (Some key), kdb') \<Rightarrow>
          (if List.member (kaScopes key) IngestWrite then (Keyed (kaId key), kdb') else (AuthFailed 403, kdb'))
      | (Inl (ApiKeyError status _), kdb') \<Rightarrow> (AuthFailed status, kdb')
      | (Inl (KeyThrew _), kdb') \<Rightarrow> (AuthThrew, kdb'))"

record ingest_result =
  igRetailerProductId :: string
  igRestock :: bool
  igDeliveries :: nat
  igListingCreated :: bool

text \<open>The listing a report is about: its identifier and whether it is new.\<close>

fun report_listing ::
  "ingest_deps \<Rightarrow> nat \<Rightarrow> stock_report \<Rightarrow> alert_db \<Rightarrow> (reply + string \<times> bool) \<times> alert_db" where
  "report_listing deps i (ById k ob) db = (Inr (k, False), db)"
| "report_listing deps i (ByUrl slug domain u ob) db =
     (case resolveListing (idParse deps) (idIds deps i 0) slug domain u db of
        Inl e \<Rightarrow> (Inl internal_error, db)
      | Inr (Inl failure, db') \<Rightarrow> (Inl (Reply 422 ''unprocessable_report''), db')
      | Inr (Inr listing, db') \<Rightarrow> (Inr listing, db'))"

definition report_input :: "string \<Rightarrow> StockObservation \<Rightarrow> StockReportInput" where
  "report_input l ob =
     \<lparr>siRetailerProductId = l, siInStock = obInStock ob, siPriceCents = map_option to_int (obPriceCents ob),
      siCurrency = obCurrency ob, siRawHash = obRawHash ob\<rparr>"

text \<open>What follows a recorded report: the alerts of a restock, when sending is on and the listing has a message.\<close>

definition tell_restock ::
  "ingest_deps \<Rightarrow> nat \<Rightarrow> string \<Rightarrow> StockReportInput \<Rightarrow> RestockEvent \<Rightarrow> alert_db \<Rightarrow> db_error + nat \<times> alert_db" where
  "tell_restock deps i l input e db =
     (case (if idAlertsOn deps i
            then buildMessage l (siPriceCents input) (or_default ''USD'' (siCurrency input)) (idNow deps) db else None) of
        None \<Rightarrow> Inr (0, db)
      | Some message \<Rightarrow>
          (case dispatchRestockEvent (idTransports deps) (\<lambda>j. idIds deps i (j + 3)) (idNow deps) (reEventId e) l message db of
             Inl err \<Rightarrow> Inl err
           | Inr (dispatched, db') \<Rightarrow> Inr (dpClaimed dispatched, db')))"

definition ingest_one ::
  "ingest_deps \<Rightarrow> nat \<Rightarrow> stock_report \<Rightarrow> alert_db \<times> AuditEntry list \<Rightarrow> (reply + ingest_result) \<times> alert_db \<times> AuditEntry list"
where
  "ingest_one deps i report s =
     (case report_listing deps i report (fst s) of
        (Inl r, db) \<Rightarrow> (Inl r, (db, snd s))
      | (Inr (l, created), db) \<Rightarrow>
          let input = report_input l (report_observation report) in
          (case recordStockReport (idIds deps i 1) (idIds deps i 2) (idNow deps) input db of
             Inl e \<Rightarrow> (Inl (Reply 422 ''unprocessable_report''), (db, snd s))
           | Inr (outcome, db') \<Rightarrow>
               (case irEvent outcome of
                  None \<Rightarrow>
                    (Inr \<lparr>igRetailerProductId = l, igRestock = False, igDeliveries = 0, igListingCreated = created\<rparr>,
                     (db', snd s))
                | Some e \<Rightarrow>
                    (case tell_restock deps i l input e db' of
                       Inl err \<Rightarrow> (Inl internal_error, (db', snd s))
                     | Inr (n, db'') \<Rightarrow>
                         (Inr \<lparr>igRetailerProductId = l, igRestock = True, igDeliveries = n, igListingCreated = created\<rparr>,
                          (db'', snd s @ [machine_audit ''stock.restock_detected'' ''retailer_product'' l]))))))"

fun ingest_reports ::
  "ingest_deps \<Rightarrow> nat \<Rightarrow> stock_report list \<Rightarrow> ingest_result list \<Rightarrow> alert_db \<times> AuditEntry list
     \<Rightarrow> (reply \<times> ingest_result list option) \<times> alert_db \<times> AuditEntry list" where
  "ingest_reports deps i [] results s = ((Reply 202 ''accepted'', Some results), s)"
| "ingest_reports deps i (report # reports) results s =
     (case ingest_one deps i report s of
        (Inl r, s') \<Rightarrow> ((r, None), s')
      | (Inr res, s') \<Rightarrow> ingest_reports deps (Suc i) reports (results @ [res]) s')"

definition postStock ::
  "ingest_deps \<Rightarrow> string \<Rightarrow> bool \<Rightarrow> string option \<Rightarrow> stock_report list \<Rightarrow> key_db \<times> alert_db \<times> AuditEntry list
     \<Rightarrow> (reply \<times> ingest_result list option) \<times> key_db \<times> alert_db \<times> AuditEntry list" where
  "postStock deps pepper stamped authorization reports s =
     (case s of (kdb, w) \<Rightarrow>
       (case authenticate authorization pepper stamped (idNow deps) kdb of
          (AuthThrew, kdb') \<Rightarrow> ((internal_error, None), (kdb', w))
        | (AuthFailed status, kdb') \<Rightarrow>
            ((if status = 401 then Reply 401 ''unauthenticated'' else Reply status ''forbidden'', None), (kdb', w))
        | (Keyed _, kdb') \<Rightarrow>
            if \<not> ingestSchema deps reports then ((invalid_request, None), (kdb', w))
            else if \<not> idIngestOn deps then ((Reply 503 ''temporarily_disabled'', None), (kdb', w))
            else (case ingest_reports deps 0 reports [] w of (r, w') \<Rightarrow> (r, (kdb', w')))))"

section \<open>The live-sale logger\<close>

definition logSchema :: "break_deps \<Rightarrow> LogLiveSaleInput \<Rightarrow> bool" where
  "logSchema deps input \<longleftrightarrow>
     z_opt (bdUuid deps) (liCardVariantId input) \<and> z_opt (z_trimmed 120) (liLabel input)
     \<and> z_between 0 100000000 (liPriceCents input) \<and> z_opt iso_currency (liCurrency input)
     \<and> z_opt (z_https deps) (liStreamRef input) \<and> z_max 80 (liBuyerHandle input)
     \<and> (liCardVariantId input \<noteq> None \<or> liLabel input \<noteq> None)"

definition parsed_sale :: "LogLiveSaleInput \<Rightarrow> LogLiveSaleInput" where
  "parsed_sale input = input\<lparr>liLabel := map_option trim (liLabel input)\<rparr>"

definition getLiveSales ::
  "Subject option \<Rightarrow> field_crypto \<Rightarrow> int \<Rightarrow> price_db \<Rightarrow> reply \<times> SellerLiveSale list option" where
  "getLiveSales subject fc limit db =
     (case subject of
        None \<Rightarrow> (unauthenticated, None)
      | Some u \<Rightarrow>
          if authorize subject LiveSaleRead None \<noteq> None then (forbidden, None)
          else case listLiveSales (subUserId u) fc limit db of
            Inl _ \<Rightarrow> (internal_error, None)
          | Inr items \<Rightarrow> (Reply 200 ''ok'', Some items))"

definition postLiveSale ::
  "break_deps \<Rightarrow> Subject option \<Rightarrow> LogLiveSaleInput \<Rightarrow> field_crypto \<Rightarrow> string \<Rightarrow> int \<Rightarrow> price_db \<times> AuditEntry list
     \<Rightarrow> reply \<times> price_db \<times> AuditEntry list" where
  "postLiveSale deps subject body fc newId now s =
     (case subject of
        None \<Rightarrow> (unauthenticated, s)
      | Some u \<Rightarrow>
          if authorize subject LiveSaleWrite None \<noteq> None then (forbidden, s)
          else if \<not> logSchema deps body then (invalid_request, s)
          else case logLiveSale newId now (subUserId u) (parsed_sale body) fc (fst s) of
            Inl LiveSaleLimitError \<Rightarrow> (Reply 409 ''daily_limit_reached'', s)
          | Inl (BuyerHandleError _) \<Rightarrow> (invalid_request, s)
          | Inl LiveSaleState \<Rightarrow> (invalid_request, s)
          | Inl (LiveSaleMissingReference _) \<Rightarrow> (not_found, s)
          | Inl _ \<Rightarrow> (internal_error, s)
          | Inr db' \<Rightarrow>
              (Reply 201 ''created'', (db', snd s @ [user_audit (subUserId u) ''live_sale.logged'' ''live_sale'' newId])))"

definition deleteLiveSaleRoute ::
  "break_deps \<Rightarrow> Subject option \<Rightarrow> string \<Rightarrow> price_db \<times> AuditEntry list \<Rightarrow> reply \<times> price_db \<times> AuditEntry list" where
  "deleteLiveSaleRoute deps subject k s =
     (case subject of
        None \<Rightarrow> (unauthenticated, s)
      | Some u \<Rightarrow>
          if authorize subject LiveSaleWrite None \<noteq> None then (forbidden, s)
          else if \<not> bdUuid deps k then (not_found, s)
          else case deleteLiveSale (subUserId u) k (fst s) of
            (False, _) \<Rightarrow> (not_found, s)
          | (True, db') \<Rightarrow>
              (Reply 204 ''no_content'', (db', snd s @ [user_audit (subUserId u) ''live_sale.deleted'' ''live_sale'' k])))"

section \<open>The switch of the alerts\<close>

text \<open>Nothing a report reads or writes of the stock's history depends on the deliveries.\<close>

definition with_deliveries :: "AlertDelivery list \<Rightarrow> alert_db \<Rightarrow> alert_db" where
  "with_deliveries ds db = db\<lparr>adDeliveries := ds\<rparr>"

lemma with_deliveries_sel [simp]:
  "adSnapshots (with_deliveries ds db) = adSnapshots db" "adEvents (with_deliveries ds db) = adEvents db"
  "adListings (with_deliveries ds db) = adListings db" "adRetailers (with_deliveries ds db) = adRetailers db"
  "adSealed (with_deliveries ds db) = adSealed db" "adUsers (with_deliveries ds db) = adUsers db"
  "adWatches (with_deliveries ds db) = adWatches db"
  by (simp_all add: with_deliveries_def)

lemma with_deliveries_put:
  "adSnapshots_update f (with_deliveries ds db) = with_deliveries ds (adSnapshots_update f db)"
  "adEvents_update g (with_deliveries ds db) = with_deliveries ds (adEvents_update g db)"
  "adListings_update h (with_deliveries ds db) = with_deliveries ds (adListings_update h db)"
  by (simp_all add: with_deliveries_def)

lemma same_other_tables: "other_tables db1 = other_tables db2 \<longleftrightarrow> db2 = with_deliveries (adDeliveries db2) db1"
proof
  assume "other_tables db1 = other_tables db2"
  then have "with_deliveries (adDeliveries db2) (other_tables db1) = with_deliveries (adDeliveries db2) (other_tables db2)" by simp
  then show "db2 = with_deliveries (adDeliveries db2) db1" by (simp add: with_deliveries_def other_tables_def)
next
  assume "db2 = with_deliveries (adDeliveries db2) db1"
  then have "other_tables db2 = other_tables (with_deliveries (adDeliveries db2) db1)" by simp
  then show "other_tables db1 = other_tables db2" by (simp add: with_deliveries_def other_tables_def)
qed

lemma recordStockReport_frame:
  "recordStockReport a b n r (with_deliveries ds db) = map_sum id (map_prod id (with_deliveries ds)) (recordStockReport a b n r db)"
  by (auto simp: recordStockReport_def previous_state_def write_report_def insert_snapshot_def insert_restock_def
      with_deliveries_put Let_def split: option.splits sum.splits)

lemma report_listing_frame:
  "report_listing deps i report (with_deliveries ds db) = map_prod id (with_deliveries ds) (report_listing deps i report db)"
proof (cases report)
  case (ByUrl slug domain u ob)
  show ?thesis
    by (simp add: ByUrl resolveListing_def find_listing_def insert_shop_listing_def with_deliveries_put
        split: option.splits sum.splits prod.splits)
qed simp

lemma buildMessage_frame: "buildMessage l p c n (with_deliveries ds db) = buildMessage l p c n db"
  by (simp add: buildMessage_def getRestockContext_def cong: option.case_cong)

lemma tell_restock_frame:
  "tell_restock deps i l input e db = Inr (n, db') \<Longrightarrow> other_tables db' = other_tables db"
proof -
  have rest: "other_tables (snd (fan_rest tr now m ts ds s)) = other_tables (snd s)" for tr now m ts ds and s :: "DispatchResult \<times> alert_db"
  proof (induction ds arbitrary: s)
    case (Cons d ds)
    obtain r x where s: "s = (r, x)" by (cases s)
    have "other_tables (snd (fan_mark now d (fan_decide tr ts m d) s)) = other_tables (snd s)"
      using fan_mark_updates [of now d "fan_decide tr ts m d" r x] s by auto
    then show ?case using Cons by simp
  qed simp
  assume "tell_restock deps i l input e db = Inr (n, db')"
  then show ?thesis
    using rest by (auto simp: tell_restock_def dispatchRestockEvent_def Let_def other_tables_def [symmetric] dest!: claimDeliveries_Inr(1)
        split: option.splits sum.splits prod.splits if_splits)
      (metis other_tables_def alert_db.surjective alert_db.update_convs(8) snd_conv)+
qed

definition alerts_off :: "ingest_deps \<Rightarrow> ingest_deps" where
  "alerts_off deps = deps\<lparr>idAlertsOn := \<lambda>_. False\<rparr>"

definition untold :: "ingest_result \<Rightarrow> ingest_result" where
  "untold r = r\<lparr>igDeliveries := 0\<rparr>"

lemma alerts_off_sel [simp]:
  "idUuid (alerts_off deps) = idUuid deps" "idUrl (alerts_off deps) = idUrl deps"
  "idParse (alerts_off deps) = idParse deps" "idIngestOn (alerts_off deps) = idIngestOn deps"
  "idAlertsOn (alerts_off deps) = (\<lambda>_. False)" "idIds (alerts_off deps) = idIds deps"
  "idNow (alerts_off deps) = idNow deps"
  by (simp_all add: alerts_off_def)

lemma tell_restock_off [simp]: "tell_restock (alerts_off deps) i l input e db = Inr (0, db)"
  by (simp add: tell_restock_def)

lemma report_listing_off [simp]: "report_listing (alerts_off deps) i report db = report_listing deps i report db"
  by (cases report) simp_all

lemma ingestSchema_off [simp]: "ingestSchema (alerts_off deps) reports = ingestSchema deps reports"
proof -
  have "reportSchema (alerts_off deps) = reportSchema deps"
  proof
    show "reportSchema (alerts_off deps) r = reportSchema deps r" for r by (cases r) simp_all
  qed
  then show ?thesis by (simp add: ingestSchema_def)
qed

lemma ingest_one_off:
  assumes "ingest_one deps i report (db, au) = (Inr res, (db', au'))"
  shows "ingest_one (alerts_off deps) i report (with_deliveries ds db, au)
     = (Inr (untold res), (with_deliveries ds db', au'))"
proof -
  obtain l created db1 where l: "report_listing deps i report db = (Inr (l, created), db1)"
    using assms by (auto simp: ingest_one_def split: prod.splits sum.splits)
  let ?input = "report_input l (report_observation report)"
  obtain outcome db2 where o: "recordStockReport (idIds deps i 1) (idIds deps i 2) (idNow deps) ?input db1 = Inr (outcome, db2)"
    using assms by (auto simp: ingest_one_def l Let_def split: prod.splits sum.splits)
  show ?thesis
  proof (cases "irEvent outcome")
    case None
    then show ?thesis
      using assms by (auto simp: ingest_one_def l o report_listing_frame recordStockReport_frame untold_def Let_def simp del: One_nat_def)
  next
    case (Some e)
    then obtain n where n: "tell_restock deps i l ?input e db2 = Inr (n, db')"
      using assms by (auto simp: ingest_one_def l o Let_def simp del: One_nat_def split: sum.splits)
    have "with_deliveries ds db' = with_deliveries ds db2"
      using tell_restock_frame [OF n] by (simp add: same_other_tables with_deliveries_def)
        (metis alert_db.update_convs(8) alert_db.surjective)
    then show ?thesis
      using assms Some n by (auto simp: ingest_one_def l o report_listing_frame recordStockReport_frame untold_def Let_def simp del: One_nat_def)
  qed
qed

lemma ingest_reports_off:
  "ingest_reports deps i reports results (db, au) = ((c, Some rs), (db', au'))
   \<Longrightarrow> ingest_reports (alerts_off deps) i reports (map untold results) (with_deliveries ds db, au)
     = ((c, Some (map untold rs)), (with_deliveries ds db', au'))"
proof (induction reports arbitrary: i results db au)
  case (Cons report reports)
  obtain res db1 au1 where one: "ingest_one deps i report (db, au) = (Inr res, (db1, au1))"
    using Cons.prems by (auto split: prod.splits sum.splits)
  show ?case
    using Cons.IH [of "Suc i" "results @ [res]" db1 au1] Cons.prems by (simp add: one ingest_one_off [OF one])
qed simp

lemma with_own_deliveries [simp]: "with_deliveries (adDeliveries db) db = db"
  by (simp add: with_deliveries_def)

text \<open>
  "Turning alerting off during an incident must not also make the shop's stock history wrong": a batch that is
  accepted with alerts is accepted without them, with the same listings, snapshots, restocks, audit entries and
  answer but for the number of deliveries, and with the deliveries as they were.
\<close>

theorem silencing_alerts_keeps_the_history:
  assumes "postStock deps pepper stamped authorization reports (kdb, db, au) = ((c, Some rs), (kdb', db', au'))"
  shows "postStock (alerts_off deps) pepper stamped authorization reports (kdb, db, au)
     = ((c, Some (map untold rs)), (kdb', with_deliveries (adDeliveries db) db', au'))"
proof -
  have "ingest_reports deps 0 reports [] (db, au) = ((c, Some rs), (db', au'))"
    and "fst (authenticate authorization pepper stamped (idNow deps) kdb) \<noteq> AuthThrew"
    using assms by (auto simp: postStock_def split: ingest_auth.splits prod.splits if_splits)
  from ingest_reports_off [OF this(1), of "adDeliveries db"] assms show ?thesis
    by (auto simp: postStock_def split: ingest_auth.splits prod.splits if_splits)
qed

section \<open>Who writes, and how much of a batch\<close>

text \<open>A stock report is recorded only for a key with the scope, with the switch on, and from a well-formed batch.\<close>

lemma postStock_writes_only_with_the_scope:
  assumes "snd (snd (postStock deps pepper stamped authorization reports (kdb, w))) \<noteq> w"
  obtains key kdb' where "authenticateApiKey authorization pepper stamped (idNow deps) kdb = (Inr (Some key), kdb')"
    and "IngestWrite \<in> set (kaScopes key)" and "idIngestOn deps" and "ingestSchema deps reports"
  using assms
  by (auto simp: postStock_def authenticate_def
      split: sum.splits option.splits prod.splits if_splits key_refusal.splits ingest_auth.splits)

text \<open>The reports before the first refused one stay recorded, under an answer that names none of them.\<close>

lemma ingest_reports_append:
  "ingest_reports deps i reports results s = ((c, Some rs), s1)
   \<Longrightarrow> ingest_reports deps i (reports @ more_reports) results s
      = ingest_reports deps (i + length reports) more_reports rs s1"
  by (induction reports arbitrary: i results s) (auto split: prod.splits sum.splits)

lemma a_refused_report_hides_the_earlier_ones:
  assumes "ingest_reports deps 0 reports [] s = ((c, Some rs), s1)"
    and "ingest_one deps (length reports) bad s1 = (Inl refusal, s2)"
  shows "ingest_reports deps 0 (reports @ bad # rest) [] s = ((refusal, None), s2)"
  using ingest_reports_append [OF assms(1)] assms(2) by simp

text \<open>A live-sale request changes nothing, or is one operation of the price machine with its audit entry.\<close>

lemma live_sale_requests_are_operations:
  assumes "postLiveSale deps subject body fc newId now (db, au) = (r, (db', au')) \<and> (db', au') \<noteq> (db, au)
     \<or> deleteLiveSaleRoute deps subject k (db, au) = (r, (db', au')) \<and> (db', au') \<noteq> (db, au)"
  shows "\<exists>u. subject = Some u \<and> authorize subject LiveSaleWrite None = None
     \<and> (price_step (OpLogSale newId now (subUserId u) (parsed_sale body) fc) db = Inr db'
           \<and> au' = au @ [user_audit (subUserId u) ''live_sale.logged'' ''live_sale'' newId]
        \<or> price_step (OpDeleteSale (subUserId u) k) db = Inr db'
           \<and> au' = au @ [user_audit (subUserId u) ''live_sale.deleted'' ''live_sale'' k])"
  using assms
proof
  assume "postLiveSale deps subject body fc newId now (db, au) = (r, (db', au')) \<and> (db', au') \<noteq> (db, au)"
  then show ?thesis
    by (auto simp: postLiveSale_def or_fail_def split: option.splits sum.splits if_splits live_sale_error.splits)
next
  assume "deleteLiveSaleRoute deps subject k (db, au) = (r, (db', au')) \<and> (db', au') \<noteq> (db, au)"
  then show ?thesis
    by (auto simp: deleteLiveSaleRoute_def split: option.splits prod.splits bool.splits if_splits)
qed

end
