(* ===== verification/Rarity.thy ===== *)
theory Rarity
  imports JsNumber
begin

text \<open>
  Hit rates against published pack odds (\<open>packages/core/src/rarity.ts\<close>): the normal quantile, the interval, the
  verdicts and the handles. The arithmetic is an argument, so that the same definitions read as the doubles the
  program computes with (\<open>dbl_arith\<close>) and as the formulas it means (\<open>exact_arith\<close>).
\<close>

section \<open>Arithmetic\<close>

record 'a arith =
  arRnd :: "'a \<Rightarrow> 'a"
  arSqrt :: "'a \<Rightarrow> 'a"
  arLog :: "'a \<Rightarrow> 'a"
  arPow :: "'a \<Rightarrow> 'a \<Rightarrow> 'a"

definition fadd :: "'a::linordered_field arith \<Rightarrow> 'a \<Rightarrow> 'a \<Rightarrow> 'a" where "fadd ar x y = arRnd ar (x + y)"
definition fsub :: "'a::linordered_field arith \<Rightarrow> 'a \<Rightarrow> 'a \<Rightarrow> 'a" where "fsub ar x y = arRnd ar (x - y)"
definition fmul :: "'a::linordered_field arith \<Rightarrow> 'a \<Rightarrow> 'a \<Rightarrow> 'a" where "fmul ar x y = arRnd ar (x * y)"
definition fdiv :: "'a::linordered_field arith \<Rightarrow> 'a \<Rightarrow> 'a \<Rightarrow> 'a" where "fdiv ar x y = arRnd ar (x / y)"

text \<open>A decimal literal, as digits over a power of ten.\<close>

definition lit :: "'a::linordered_field arith \<Rightarrow> int \<Rightarrow> nat \<Rightarrow> 'a" where
  "lit ar m k = arRnd ar (of_int m / 10 ^ k)"

definition dbl_arith :: "(rat \<Rightarrow> rat) \<Rightarrow> (rat \<Rightarrow> rat) \<Rightarrow> (rat \<Rightarrow> rat \<Rightarrow> rat) \<Rightarrow> rat arith" where
  "dbl_arith sq lg pw = \<lparr>arRnd = dbl, arSqrt = sq, arLog = lg, arPow = pw\<rparr>"

definition exact_arith :: "real arith" where
  "exact_arith = \<lparr>arRnd = (\<lambda>x. x), arSqrt = sqrt, arLog = ln, arPow = (\<lambda>x y. x powr y)\<rparr>"

section \<open>The normal quantile\<close>

datatype odds_error = OddsRangeError string

definition MIN_PACKS_FOR_ODDS :: int where "MIN_PACKS_FOR_ODDS = 30"
definition MIN_EXPECTED_HITS :: int where "MIN_EXPECTED_HITS = 5"
definition ODDS_CONFIDENCE :: "'a::linordered_field arith \<Rightarrow> 'a" where "ODDS_CONFIDENCE ar = lit ar 95 2"
definition LOW_TAIL :: "'a::linordered_field arith \<Rightarrow> 'a" where "LOW_TAIL ar = lit ar 2425 5"

definition acklam_A :: "'a::linordered_field arith \<Rightarrow> 'a list" where
  "acklam_A ar = [lit ar (-3969683028665376) 14, lit ar 2209460984245205 13, lit ar (-2759285104469687) 13,
     lit ar 138357751867269 12, lit ar (-3066479806614716) 14, lit ar 2506628277459239 15]"

definition acklam_B :: "'a::linordered_field arith \<Rightarrow> 'a list" where
  "acklam_B ar = [lit ar (-5447609879822406) 14, lit ar 1615858368580409 13, lit ar (-1556989798598866) 13,
     lit ar 6680131188771972 14, lit ar (-1328068155288572) 14]"

definition acklam_C :: "'a::linordered_field arith \<Rightarrow> 'a list" where
  "acklam_C ar = [lit ar (-7784894002430293) 18, lit ar (-3223964580411365) 16, lit ar (-2400758277161838) 15,
     lit ar (-2549732539343734) 15, lit ar 4374664141464968 15, lit ar 2938163982698783 15]"

definition acklam_D :: "'a::linordered_field arith \<Rightarrow> 'a list" where
  "acklam_D ar = [lit ar 7784695709041462 18, lit ar 3224671290700398 16, lit ar 2445134137142996 15,
     lit ar 3754408661907416 15]"

text \<open>\<open>((c0 * q + c1) * q + c2) * q + ...\<close>, the first coefficient standing by itself.\<close>

definition horner :: "'a::linordered_field arith \<Rightarrow> 'a list \<Rightarrow> 'a \<Rightarrow> 'a" where
  "horner ar cs q = foldl (\<lambda>acc c. fadd ar (fmul ar acc q) c) (hd cs) (tl cs)"

definition quantile_tail :: "'a::linordered_field arith \<Rightarrow> 'a \<Rightarrow> 'a" where
  "quantile_tail ar p =
     (let q = arSqrt ar (fmul ar (- 2) (arLog ar p))
      in fdiv ar (horner ar (acklam_C ar) q) (horner ar (acklam_D ar @ [1]) q))"

definition quantile_centre :: "'a::linordered_field arith \<Rightarrow> 'a \<Rightarrow> 'a" where
  "quantile_centre ar p =
     (let q = fsub ar p (lit ar 5 1); r = fmul ar q q
      in fdiv ar (fmul ar (horner ar (acklam_A ar) r) q) (horner ar (acklam_B ar @ [1]) r))"

text \<open>
  The upper tail calls the function again on \<open>1 - p\<close>, which is never in the upper tail itself
  (\<open>the_mirrored_call_ends\<close>): the second call is \<open>quantile_below\<close>.
\<close>

definition quantile_below :: "'a::linordered_field arith \<Rightarrow> 'a \<Rightarrow> odds_error + 'a" where
  "quantile_below ar p =
     (if \<not> (0 < p \<and> p < 1) then Inl (OddsRangeError ''quantile needs 0 < p < 1'')
      else if p < LOW_TAIL ar then Inr (quantile_tail ar p) else Inr (quantile_centre ar p))"

definition normalQuantile :: "'a::linordered_field arith \<Rightarrow> 'a \<Rightarrow> odds_error + 'a" where
  "normalQuantile ar p =
     (if \<not> (0 < p \<and> p < 1) then Inl (OddsRangeError ''quantile needs 0 < p < 1'')
      else if p < LOW_TAIL ar then Inr (quantile_tail ar p)
      else if fsub ar 1 (LOW_TAIL ar) < p then map_sum id uminus (quantile_below ar (fsub ar 1 p))
      else Inr (quantile_centre ar p))"

definition zFor :: "'a::linordered_field arith \<Rightarrow> 'a \<Rightarrow> int \<Rightarrow> odds_error + 'a" where
  "zFor ar confidence comparisons =
     (if \<not> (0 < confidence \<and> confidence < 1) then Inl (OddsRangeError ''confidence must be passes 0..1'')
      else if comparisons < 1 then Inl (OddsRangeError ''comparisons must be a positive integer'')
      else let alphaPerTest = fsub ar 1 (arPow ar confidence (fdiv ar 1 (of_int comparisons)))
           in normalQuantile ar (fsub ar 1 (fdiv ar alphaPerTest 2)))"

section \<open>The interval\<close>

definition wilsonInterval :: "'a::linordered_field arith \<Rightarrow> int \<Rightarrow> int \<Rightarrow> 'a \<Rightarrow> odds_error + 'a \<times> 'a" where
  "wilsonInterval ar successes trials z =
     (if successes < 0 then Inl (OddsRangeError ''successes must be a non-negative integer'')
      else if trials < 1 then Inl (OddsRangeError ''trials must be a positive integer'')
      else if successes > trials then Inl (OddsRangeError ''successes exceeds trials'')
      else
        let n = of_int trials;
            phat = fdiv ar (of_int successes) n;
            z2 = fmul ar z z;
            denominator = fadd ar 1 (fdiv ar z2 n);
            centre = fdiv ar (fadd ar phat (fdiv ar z2 (fmul ar 2 n))) denominator;
            spread = fmul ar (fdiv ar z denominator)
              (arSqrt ar (fadd ar (fdiv ar (fmul ar phat (fsub ar 1 phat)) n)
                                  (fdiv ar z2 (fmul ar (fmul ar 4 n) n))))
        in Inr (max 0 (fsub ar centre spread), min 1 (fadd ar centre spread)))"

section \<open>Verdicts\<close>

record PublishedOdds =
  poNumerator :: int
  poDenominator :: int

datatype OddsVerdict = Unpublished | Insufficient | NotComparable | ConsistentOdds | AboveOdds | BelowOdds

record 'a RarityComparison =
  raRarity :: string
  raHits :: int
  raPacks :: int
  raObservedRate :: "'a option"
  raPublished :: "PublishedOdds option"
  raPublishedRate :: "'a option"
  raLowRate :: "'a option"
  raHighRate :: "'a option"
  raVerdict :: OddsVerdict

definition ratePerPack :: "'a::linordered_field arith \<Rightarrow> PublishedOdds option \<Rightarrow> odds_error + 'a option" where
  "ratePerPack ar odds =
     (case odds of
        None \<Rightarrow> Inr None
      | Some r \<Rightarrow>
          if poDenominator r < 1 \<or> poNumerator r < 0
          then Inl (OddsRangeError ''published odds must be a non-negative rate over at least one pack'')
          else Inr (Some (fdiv ar (of_int (poNumerator r)) (of_int (poDenominator r)))))"

record odds_row =
  orRarity :: string
  orHits :: int
  orPacks :: int
  orPublished :: "PublishedOdds option"

definition verdict_base :: "'a::linordered_field arith \<Rightarrow> odds_row \<Rightarrow> 'a option \<Rightarrow> 'a RarityComparison" where
  "verdict_base ar row rate =
     \<lparr>raRarity = orRarity row, raHits = orHits row, raPacks = orPacks row,
      raObservedRate = (if 0 < orPacks row then Some (fdiv ar (of_int (orHits row)) (of_int (orPacks row))) else None),
      raPublished = orPublished row, raPublishedRate = rate, raLowRate = None, raHighRate = None,
      raVerdict = Unpublished\<rparr>"

definition compareToOdds ::
  "'a::linordered_field arith \<Rightarrow> odds_row \<Rightarrow> int \<Rightarrow> 'a \<Rightarrow> odds_error + 'a RarityComparison" where
  "compareToOdds ar row comparisons confidence =
     (case ratePerPack ar (orPublished row) of
        Inl e \<Rightarrow> Inl e
      | Inr publishedRate \<Rightarrow>
          let base = verdict_base ar row publishedRate in
          (case publishedRate of
             None \<Rightarrow> Inr base
           | Some rate \<Rightarrow>
               if orHits row > orPacks row then Inr (base\<lparr>raVerdict := NotComparable\<rparr>)
               else if orPacks row < MIN_PACKS_FOR_ODDS
                 \<or> fmul ar (of_int (orPacks row)) rate < of_int MIN_EXPECTED_HITS
               then Inr (base\<lparr>raVerdict := Insufficient\<rparr>)
               else
                 (case zFor ar confidence comparisons of
                    Inl e \<Rightarrow> Inl e
                  | Inr z \<Rightarrow>
                      (case wilsonInterval ar (orHits row) (orPacks row) z of
                         Inl e \<Rightarrow> Inl e
                       | Inr (low, high) \<Rightarrow>
                           Inr (base\<lparr>raLowRate := Some low, raHighRate := Some high,
                                     raVerdict := (if rate < low then AboveOdds
                                                   else if high < rate then BelowOdds else ConsistentOdds)\<rparr>)))))"

fun all_or_error :: "('e + 'b) list \<Rightarrow> 'e + 'b list" where
  "all_or_error [] = Inr []"
| "all_or_error (x # xs) = (case x of Inl e \<Rightarrow> Inl e | Inr y \<Rightarrow> map_sum id ((#) y) (all_or_error xs))"

text \<open>Only rarities with published odds are tests.\<close>

definition odds_tests :: "odds_row list \<Rightarrow> int" where
  "odds_tests rows = max 1 (int (length (filter (\<lambda>r. orPublished r \<noteq> None) rows)))"

definition compareRarities ::
  "'a::linordered_field arith \<Rightarrow> odds_row list \<Rightarrow> 'a option \<Rightarrow> odds_error + 'a RarityComparison list" where
  "compareRarities ar rows confidence =
     all_or_error (map (\<lambda>row. compareToOdds ar row (odds_tests rows)
                                (case confidence of None \<Rightarrow> ODDS_CONFIDENCE ar | Some c \<Rightarrow> c)) rows)"

section \<open>Handles\<close>

definition RESERVED_HANDLES :: "string list" where
  "RESERVED_HANDLES =
     [''about'', ''admin'', ''administrator'', ''api'', ''docs'', ''gth'', ''gundam'', ''help'', ''me'', ''methodology'',
      ''new'', ''official'', ''root'', ''settings'', ''staff'', ''support'', ''system'']"

definition handle_alnum :: "char \<Rightarrow> bool" where
  "handle_alnum c \<longleftrightarrow> (of_char c :: nat) \<in> {48..57} \<or> (of_char c :: nat) \<in> {97..122}"

definition HANDLE_PATTERN :: "string \<Rightarrow> bool" where
  "HANDLE_PATTERN s \<longleftrightarrow> 3 \<le> length s \<and> length s \<le> 32 \<and> handle_alnum (hd s) \<and> handle_alnum (last s)
     \<and> list_all (\<lambda>c. handle_alnum c \<or> c = CHR ''-'') s"

definition isValidHandle :: "string \<Rightarrow> bool" where
  "isValidHandle handle \<longleftrightarrow> HANDLE_PATTERN handle \<and> \<not> List.member RESERVED_HANDLES handle"

section \<open>Facts shared by the theorems\<close>

lemma exact_ops [simp]:
  "fadd exact_arith x y = x + y" "fsub exact_arith x y = x - y" "fmul exact_arith x y = x * y"
  "fdiv exact_arith x y = x / y" "lit exact_arith m k = of_int m / 10 ^ k"
  "arSqrt exact_arith = sqrt" "arLog exact_arith = ln" "arPow exact_arith x y = x powr y"
  by (simp_all add: exact_arith_def fadd_def fsub_def fmul_def fdiv_def lit_def)

lemma dbl_ops [simp]:
  "fadd (dbl_arith s l p) x y = dbl (x + y)" "fsub (dbl_arith s l p) x y = dbl (x - y)"
  "fmul (dbl_arith s l p) x y = dbl (x * y)" "fdiv (dbl_arith s l p) x y = dbl (x / y)"
  "lit (dbl_arith s l p) m k = dbl (of_int m / 10 ^ k)" "arPow (dbl_arith s l p) = p"
  by (simp_all add: dbl_arith_def fadd_def fsub_def fmul_def fdiv_def lit_def)

lemma all_or_error_Inr: "all_or_error rs = Inr ys \<longleftrightarrow> rs = map Inr ys"
proof (induction rs arbitrary: ys)
  case (Cons x xs)
  show ?case
  proof (cases x)
    case (Inr y)
    then show ?thesis by (cases ys; cases "all_or_error xs") (auto simp: Cons.IH [symmetric])
  qed auto
qed auto

lemma the_mirrored_call_ends:
  assumes "fsub (dbl_arith s l w) 1 (LOW_TAIL (dbl_arith s l w)) < p"
  shows "fsub (dbl_arith s l w) 1 p \<le> fsub (dbl_arith s l w) 1 (LOW_TAIL (dbl_arith s l w))"
proof -
  have half: "dbl (1 / 2) = 1 / 2" using js.rnd_exact [of 1 1] by simp
  have "dbl (2425 / 100000) \<le> dbl (1 / 2)" by (rule js.rnd_mono) simp
  then have "1 / 2 \<le> dbl (1 - dbl (2425 / 100000))"
    using js.rnd_mono [of "1 / 2" "1 - dbl (2425 / 100000)"] by (simp add: half)
  moreover from this have "dbl (1 - p) \<le> dbl (1 / 2)"
    using assms by (intro js.rnd_mono) (simp add: LOW_TAIL_def)
  ultimately show ?thesis by (simp add: LOW_TAIL_def half)
qed

section \<open>The score test\<close>

text \<open>The ends of the interval are the two solutions of \<open>(f - p)\<^sup>2 = w p (1 - p)\<close>.\<close>

lemma wilson_identity:
  fixes f w p :: real
  assumes "0 \<le> w"
  shows "(1 + w) * ((p - (f + w / 2) / (1 + w))\<^sup>2 - (w * (f * (1 - f)) + w\<^sup>2 / 4) / (1 + w)\<^sup>2)
     = (f - p)\<^sup>2 - w * (p * (1 - p))"
proof -
  have d: "1 + w \<noteq> 0" using assms by simp
  have "(p - (f + w / 2) / (1 + w)) = ((1 + w) * p - (f + w / 2)) / (1 + w)"
    using d by (simp add: field_simps)
  then have "(1 + w) * ((p - (f + w / 2) / (1 + w))\<^sup>2 - (w * (f * (1 - f)) + w\<^sup>2 / 4) / (1 + w)\<^sup>2)
     = (((1 + w) * p - (f + w / 2))\<^sup>2 - (w * (f * (1 - f)) + w\<^sup>2 / 4)) / (1 + w)"
    using d by (simp add: power_divide diff_divide_distrib [symmetric] power2_eq_square)
  also have "((1 + w) * p - (f + w / 2))\<^sup>2 - (w * (f * (1 - f)) + w\<^sup>2 / 4)
     = (1 + w) * ((f - p)\<^sup>2 - w * (p * (1 - p)))"
    by (simp add: power2_eq_square algebra_simps)
  finally show ?thesis using d by simp
qed

lemma wilson_exact:
  assumes "wilsonInterval exact_arith h n z = Inr (low, high)" "0 < z" "0 \<le> p" "p \<le> 1"
  defines "f \<equiv> of_int h / of_int n" and "passes \<equiv> (of_int h / of_int n - p)\<^sup>2 \<le> z\<^sup>2 * (p * (1 - p)) / of_int n"
  shows "p < low \<longleftrightarrow> \<not> passes \<and> p < f" and "high < p \<longleftrightarrow> \<not> passes \<and> f < p"
proof -
  have hn: "0 \<le> h" "1 \<le> n" "h \<le> n" using assms(1) by (auto simp: wilsonInterval_def split: if_splits)
  define m :: real where "m = of_int n"
  define w where "w = z * z / m"
  have m: "1 \<le> m" using hn by (simp add: m_def)
  have w: "0 < w" using m assms(2) by (simp add: w_def)
  have f: "0 \<le> f" "f \<le> 1" using hn m by (simp_all add: f_def m_def [symmetric]) (simp_all add: m_def)
  define c where "c = (f + z * z / (2 * m)) / (1 + w)"
  define s where "s = z / (1 + w) * sqrt (f * (1 - f) / m + z * z / (4 * m * m))"
  have low: "low = max 0 (c - s)" and high: "high = min 1 (c + s)"
    using assms(1) hn
    by (simp_all only: wilsonInterval_def Let_def exact_ops f_def m_def w_def c_def s_def) auto
  have c: "c = (f + w / 2) / (1 + w)" by (simp add: c_def w_def)
  have rad: "0 \<le> f * (1 - f) / m + z * z / (4 * m * m)" using f m by simp
  then have s0: "0 \<le> s" using w assms(2) by (simp add: s_def)
  have "s\<^sup>2 = (z\<^sup>2 * (f * (1 - f) / m + z * z / (4 * m * m))) / (1 + w)\<^sup>2"
    by (simp only: s_def power_mult_distrib power_divide real_sqrt_pow2 [OF rad] times_divide_eq_left)
  also have "z\<^sup>2 * (f * (1 - f) / m + z * z / (4 * m * m)) = w * (f * (1 - f)) + w\<^sup>2 / 4"
    using m by (simp add: w_def power2_eq_square field_simps)
  finally have s2: "s\<^sup>2 = (w * (f * (1 - f)) + w\<^sup>2 / 4) / (1 + w)\<^sup>2" .
  have at_rate: "\<bar>q - c\<bar> \<le> s \<longleftrightarrow> (f - q)\<^sup>2 \<le> w * (q * (1 - q))" for q
  proof -
    have "\<bar>q - c\<bar> \<le> s \<longleftrightarrow> (q - c)\<^sup>2 \<le> s\<^sup>2" using abs_le_square_iff [of "q - c" s] s0 by simp
    also have "\<dots> \<longleftrightarrow> (1 + w) * ((q - c)\<^sup>2 - s\<^sup>2) \<le> 0" using w by (simp add: mult_le_0_iff)
    finally show ?thesis using wilson_identity [of w q f] w by (simp add: s2 c)
  qed
  have f_in: "\<bar>f - c\<bar> \<le> s" using at_rate [of f] f w by simp
  have passes: "passes \<longleftrightarrow> \<bar>p - c\<bar> \<le> s" unfolding at_rate by (simp add: passes_def f_def w_def m_def power2_eq_square)
  show "p < low \<longleftrightarrow> \<not> passes \<and> p < f" unfolding passes low using f_in assms(3) by arith
  show "high < p \<longleftrightarrow> \<not> passes \<and> f < p" unfolding passes high using f_in assms(4) by arith
qed

definition score_verdict :: "real \<Rightarrow> odds_row \<Rightarrow> OddsVerdict" where
  "score_verdict z row =
     (case orPublished row of
        None \<Rightarrow> Unpublished
      | Some odds \<Rightarrow>
          let f = of_int (orHits row) / of_int (orPacks row); r = of_int (poNumerator odds) / of_int (poDenominator odds)
          in if orHits row > orPacks row then NotComparable
             else if orPacks row < 30 \<or> orPacks row * poNumerator odds < 5 * poDenominator odds then Insufficient
             else if (f - r)\<^sup>2 \<le> z\<^sup>2 * (r * (1 - r)) / of_int (orPacks row) then ConsistentOdds
             else if r < f then AboveOdds else BelowOdds)"

text \<open>A row as the tables give it: counts are not negative, a published rate is at most one per pack.\<close>

definition odds_row_ok :: "odds_row \<Rightarrow> bool" where
  "odds_row_ok row \<longleftrightarrow> 0 \<le> orHits row \<and> 0 \<le> orPacks row
     \<and> (case orPublished row of None \<Rightarrow> True
        | Some odds \<Rightarrow> 1 \<le> poDenominator odds \<and> 1 \<le> poNumerator odds \<and> poNumerator odds \<le> poDenominator odds)"

lemma floor_exact:
  assumes "1 \<le> (d :: int)"
  shows "of_int n * (of_int p / of_int d) < (5 :: real) \<longleftrightarrow> n * p < 5 * d"
proof -
  have "of_int n * (of_int p / of_int d) < (5 :: real) \<longleftrightarrow> of_int (n * p) < (of_int (5 * d) :: real)"
    using assms by (simp add: field_simps)
  then show ?thesis by (simp only: of_int_less_iff)
qed

lemma compareToOdds_exact:
  assumes "compareToOdds exact_arith row k conf = Inr res" "zFor exact_arith conf k = Inr z" "0 < z" "odds_row_ok row"
  shows "raVerdict res = score_verdict z row"
proof (cases "orPublished row")
  case None
  then show ?thesis using assms(1)
    by (auto simp: compareToOdds_def ratePerPack_def verdict_base_def score_verdict_def)
next
  case (Some odds)
  then have ok: "1 \<le> poDenominator odds" "1 \<le> poNumerator odds" "poNumerator odds \<le> poDenominator odds"
    using assms(4) by (simp_all add: odds_row_ok_def)
  define r :: real where "r = of_int (poNumerator odds) / of_int (poDenominator odds)"
  have r: "0 \<le> r" "r \<le> 1" using ok by (simp_all add: r_def)
  note defs = compareToOdds_def ratePerPack_def score_verdict_def verdict_base_def MIN_PACKS_FOR_ODDS_def
    MIN_EXPECTED_HITS_def Let_def
  show ?thesis
  proof (cases "orHits row > orPacks row \<or> orPacks row < 30 \<or> orPacks row * poNumerator odds < 5 * poDenominator odds")
    case True
    then show ?thesis using assms(1) Some ok
      by (auto simp: defs floor_exact [OF ok(1)] simp del: times_divide_eq_right split: if_splits sum.splits)
  next
    case False
    then obtain low high where lh: "wilsonInterval exact_arith (orHits row) (orPacks row) z = Inr (low, high)"
      and v: "raVerdict res = (if r < low then AboveOdds else if high < r then BelowOdds else ConsistentOdds)"
      using assms(1,2) Some ok
      by (auto simp: defs floor_exact [OF ok(1)] r_def simp del: times_divide_eq_right split: if_splits sum.splits prod.splits)
    define f :: real where "f = of_int (orHits row) / of_int (orPacks row)"
    define P where "P \<longleftrightarrow> (f - r)\<^sup>2 \<le> z\<^sup>2 * (r * (1 - r)) / of_int (orPacks row)"
    have "r < low \<longleftrightarrow> \<not> P \<and> r < f" "high < r \<longleftrightarrow> \<not> P \<and> f < r"
      using wilson_exact [OF lh assms(3) r] by (simp_all only: P_def f_def)
    moreover have "P" if "f = r" using that r assms(4) by (simp add: P_def odds_row_ok_def)
    moreover have "score_verdict z row = (if P then ConsistentOdds else if r < f then AboveOdds else BelowOdds)"
      using False Some by (simp add: score_verdict_def r_def f_def P_def Let_def)
    ultimately show ?thesis by (auto simp: v)
  qed
qed

text \<open>C38: In exact arithmetic the verdict of every rarity is the two-sided score test of its published rate, at the
  confidence shared among the rarities that have one: consistent exactly when the squared distance of the observed
  rate is within \<open>z\<^sup>2 r (1 - r) / n\<close>, above or below on the side the observation lies, and no test at all below thirty
  packs or five expected hits.
\<close>

theorem verdicts_are_score_tests:
  assumes "compareRarities exact_arith rows confidence = Inr results"
    and "zFor exact_arith (case confidence of None \<Rightarrow> ODDS_CONFIDENCE exact_arith | Some c \<Rightarrow> c) (odds_tests rows) = Inr z"
    and "0 < z" and "\<forall>row \<in> set rows. odds_row_ok row"
  shows "map raVerdict results = map (score_verdict z) rows"
proof -
  let ?go = "\<lambda>row. compareToOdds exact_arith row (odds_tests rows)
    (case confidence of None \<Rightarrow> ODDS_CONFIDENCE exact_arith | Some c \<Rightarrow> c)"
  have m: "map ?go rows = map Inr results" using assms(1) by (simp add: compareRarities_def all_or_error_Inr)
  show ?thesis
  proof (rule nth_equalityI)
    show l: "length (map raVerdict results) = length (map (score_verdict z) rows)"
      using arg_cong [OF m, of length] by simp
    fix i
    assume i: "i < length (map raVerdict results)"
    then have "?go (rows ! i) = Inr (results ! i)"
      using arg_cong [OF m, of "\<lambda>xs. xs ! i"] l by simp
    then show "map raVerdict results ! i = map (score_verdict z) rows ! i"
      using compareToOdds_exact [OF _ assms(2,3)] assms(4) i l by simp
  qed
qed

definition demo_rows_of_odds :: "odds_row list" where
  "demo_rows_of_odds =
     [\<lparr>orRarity = ''SR'', orHits = 0, orPacks = 360, orPublished = Some \<lparr>poNumerator = 1, poDenominator = 12\<rparr>\<rparr>,
      \<lparr>orRarity = ''promo'', orHits = 4, orPacks = 360, orPublished = None\<rparr>]"

lemma demo_z:
  "\<exists>z. zFor exact_arith (ODDS_CONFIDENCE exact_arith) (odds_tests demo_rows_of_odds) = Inr z \<and> 1959 / 1000 < z \<and> z < 1961 / 1000"
  by (rule exI [of _ "1565713706127574936278201074 / 798848201913635967184059665"])
    (simp add: zFor_def ODDS_CONFIDENCE_def odds_tests_def demo_rows_of_odds_def normalQuantile_def quantile_centre_def
      LOW_TAIL_def horner_def acklam_A_def acklam_B_def)

lemma demo_odds_report: "\<exists>results. compareRarities exact_arith demo_rows_of_odds None = Inr results"
proof -
  obtain z where "zFor exact_arith (ODDS_CONFIDENCE exact_arith) (odds_tests demo_rows_of_odds) = Inr z"
    using demo_z by auto
  then show ?thesis
    by (simp add: compareRarities_def demo_rows_of_odds_def compareToOdds_def ratePerPack_def
        MIN_PACKS_FOR_ODDS_def MIN_EXPECTED_HITS_def wilsonInterval_def Let_def)
qed

text \<open>No hit in 360 packs of one-in-twelve odds is below them, and says so.\<close>

lemma verdicts_are_score_tests_witness:
  "\<exists>results. compareRarities exact_arith demo_rows_of_odds None = Inr results
     \<and> map raVerdict results = [BelowOdds, Unpublished]"
proof -
  obtain z where z: "zFor exact_arith (ODDS_CONFIDENCE exact_arith) (odds_tests demo_rows_of_odds) = Inr z"
    "1959 / 1000 < z" "z < 1961 / 1000" using demo_z by auto
  obtain results where r: "compareRarities exact_arith demo_rows_of_odds None = Inr results" using demo_odds_report by auto
  have "z\<^sup>2 < (1961 / 1000)\<^sup>2" using z by (intro power_strict_mono) simp_all
  then have "\<not> (0 - 1 / 12)\<^sup>2 \<le> z\<^sup>2 * (1 / 12 * (1 - 1 / 12)) / (360 :: real)"
    by (simp add: power2_eq_square)
  then have "map (score_verdict z) demo_rows_of_odds = [BelowOdds, Unpublished]"
    by (simp add: demo_rows_of_odds_def score_verdict_def)
  moreover have "\<forall>row \<in> set demo_rows_of_odds. odds_row_ok row"
    by (simp add: demo_rows_of_odds_def odds_row_ok_def)
  ultimately show ?thesis using verdicts_are_score_tests [OF r, of z] r z by simp
qed

section \<open>The same in doubles\<close>

lemma dbl_eval:
  assumes "2 powi k \<le> x" "x < 2 powi (k + 1)"
  shows "dbl x = of_int (round_even (x * 2 powi (52 - k))) * 2 powi (k - 52)"
proof -
  have x: "0 < x" using assms(1) by (meson order_less_le_trans zero_less_numeral zero_less_power_int)
  have "bin_exp x = k"
  proof (rule antisym)
    have "2 powi bin_exp x < (2 powi (k + 1) :: rat)" using bin_exp_bounds(1) [OF x] assms(2) by linarith
    then show "bin_exp x \<le> k" using power_int_increasing [of "k + 1" "bin_exp x" "2 :: rat"] by force
    have "2 powi k < (2 powi (bin_exp x + 1) :: rat)" using bin_exp_bounds(2) [OF x] assms(1) by linarith
    then show "k \<le> bin_exp x" using power_int_increasing [of "bin_exp x + 1" k "2 :: rat"] by force
  qed
  with x show ?thesis by (simp add: dbl_def dbl_pos_def Let_def)
qed

text \<open>Rounding never offers a comparison below five expected hits, and withholds one at most at exactly five.\<close>

lemma floor_in_doubles:
  assumes "1 \<le> d" "0 \<le> p" "p \<le> d" "30 \<le> n" "n * d \<le> 2 ^ 50"
  shows "n * p < 5 * d \<Longrightarrow> dbl (of_int n * dbl (of_int p / of_int d)) < 5"
    and "5 * d < n * p \<Longrightarrow> 5 \<le> dbl (of_int n * dbl (of_int p / of_int d))"
proof -
  let ?r = "of_int p / of_int d :: rat"
  have dp: "0 < (of_int d :: rat)" using assms(1) by simp
  have r1: "?r \<le> 1" "0 \<le> ?r" using assms dp by simp_all
  have small: "of_int n * (1 / 2 ^ 53) \<le> 1 / (8 * of_int d :: rat)"
  proof -
    have "of_int (n * d) \<le> (of_int (2 ^ 50) :: rat)" using assms(5) by (simp only: of_int_le_iff)
    then show ?thesis using dp by (simp add: field_simps)
  qed
  have d30: "30 * of_int d \<le> (2 ^ 50 :: rat)"
  proof -
    have "30 * d \<le> n * d" using assms by (intro mult_right_mono) simp_all
    then have "of_int (30 * d) \<le> (of_int (2 ^ 50) :: rat)" using assms(5) by (simp only: of_int_le_iff)
    then show ?thesis by simp
  qed
  have n0: "0 \<le> (of_int n :: rat)" using assms(4) by simp
  {
    assume lt: "n * p < 5 * d"
    define q :: rat where "q = of_int \<lceil>?r * 2 ^ 53\<rceil> / 2 ^ 53"
    have m: "\<lceil>?r * 2 ^ 53\<rceil> \<le> 2 ^ 53" "0 \<le> \<lceil>?r * 2 ^ 53\<rceil>"
      using mult_right_mono [OF r1(1), of "2 ^ 53"] mult_right_mono [OF r1(2), of "2 ^ 53"]
      by (simp_all only: ceiling_le_iff le_ceiling_iff) simp_all
    have rq: "?r \<le> q" "q \<le> ?r + 1 / 2 ^ 53" by (simp_all add: q_def field_simps) (linarith)+
    have "dbl ?r \<le> dbl q" by (rule js.rnd_mono) (rule rq)
    also have "dbl q = q" unfolding q_def by (rule js.rnd_exact) (use m in simp)
    finally have "of_int n * dbl ?r \<le> of_int n * q" using n0 by (simp add: mult_left_mono)
    also have "\<dots> \<le> of_int n * (?r + 1 / 2 ^ 53)" using rq n0 by (intro mult_left_mono)
    also have "\<dots> \<le> of_int n * ?r + 1 / (8 * of_int d)" using small by (simp add: distrib_left)
    also have "\<dots> \<le> 5 - 1 / 2 ^ 50"
    proof -
      have "of_int (n * p + 1) \<le> (of_int (5 * d) :: rat)" using lt by (simp only: of_int_le_iff)
      then have "of_int n * ?r \<le> 5 - 1 / of_int d" using dp by (simp add: field_simps)
      moreover have "1 / 2 ^ 50 \<le> 1 / (8 * of_int d :: rat)" using d30 dp by (simp add: field_simps)
      moreover have "1 / (8 * of_int d) + 1 / (8 * of_int d) \<le> (1 / of_int d :: rat)" using dp by (simp add: field_simps)
      ultimately show ?thesis by linarith
    qed
    finally have "dbl (of_int n * dbl ?r) \<le> dbl (5 - 1 / 2 ^ 50)" by (rule js.rnd_mono)
    also have "dbl (5 - 1 / 2 ^ 50) = 5 - 1 / 2 ^ 50" using js.rnd_exact [of "5 * 2 ^ 50 - 1" 50] by simp
    finally show "dbl (of_int n * dbl ?r) < 5" by simp
  }
  {
    assume gt: "5 * d < n * p"
    define q :: rat where "q = of_int \<lfloor>?r * 2 ^ 53\<rfloor> / 2 ^ 53"
    have m: "\<lfloor>?r * 2 ^ 53\<rfloor> \<le> 2 ^ 53" "0 \<le> \<lfloor>?r * 2 ^ 53\<rfloor>"
      using mult_right_mono [OF r1(1), of "2 ^ 53"] mult_right_mono [OF r1(2), of "2 ^ 53"]
      by (simp_all only: floor_le_iff le_floor_iff) simp_all
    have rq: "q \<le> ?r" "?r \<le> q + 1 / 2 ^ 53" by (simp_all add: q_def field_simps) (linarith)+
    have "of_int (5 * d + 1) \<le> (of_int (n * p) :: rat)" using gt by (simp only: of_int_le_iff)
    then have "of_int (5 * d + 1) / of_int d \<le> (of_int (n * p) / of_int d :: rat)"
      using dp by (intro divide_right_mono) simp_all
    then have "5 + 1 / of_int d \<le> of_int n * ?r" using dp by (simp add: add_divide_distrib)
    also have "\<dots> \<le> of_int n * (q + 1 / 2 ^ 53)" using rq n0 by (intro mult_left_mono)
    also have "\<dots> \<le> of_int n * q + 1 / (8 * of_int d)" using small by (simp add: distrib_left)
    finally have "5 + 1 / of_int d - 1 / (8 * of_int d) \<le> of_int n * q" by simp
    moreover have "0 \<le> 1 / of_int d - 1 / (8 * of_int d :: rat)" using dp by (simp add: field_simps)
    ultimately have "5 \<le> of_int n * q" by linarith
    also have "\<dots> = of_int n * dbl q" unfolding q_def using m by (subst js.rnd_exact) simp_all
    also have "\<dots> \<le> of_int n * dbl ?r" using n0 js.rnd_mono [OF rq(1)] by (intro mult_left_mono)
    finally show "5 \<le> dbl (of_int n * dbl ?r)" using js.rnd_mono [of 5] js.rnd_int [of 5] by fastforce
  }
qed

lemma compared_iff:
  assumes "compareToOdds ar row k conf = Inr res" "orPublished row = Some odds" "1 \<le> poDenominator odds" "0 \<le> poNumerator odds"
  shows "raVerdict res \<in> {ConsistentOdds, AboveOdds, BelowOdds} \<longleftrightarrow>
    \<not> orHits row > orPacks row \<and> \<not> orPacks row < 30
    \<and> \<not> fmul ar (of_int (orPacks row)) (fdiv ar (of_int (poNumerator odds)) (of_int (poDenominator odds))) < 5"
  using assms
  by (auto simp: compareToOdds_def ratePerPack_def verdict_base_def MIN_PACKS_FOR_ODDS_def MIN_EXPECTED_HITS_def
      Let_def split: if_splits sum.splits prod.splits)

text \<open>C39: In the doubles the program computes with, whatever the platform's square root, logarithm and power answer, a
  verdict other than "unpublished", "not comparable" and "insufficient" is given only for a published rate, thirty
  packs, no more hits than packs and five expected hits, counted exactly; and it is given whenever the expected hits
  exceed five.
\<close>

theorem no_verdict_without_evidence:
  assumes "compareRarities (dbl_arith sq lg pw) rows confidence = Inr results"
    and "i < length rows" and "odds_row_ok (rows ! i)" and "orPublished (rows ! i) = Some odds"
    and "orPacks (rows ! i) * poDenominator odds \<le> 2 ^ 50"
  shows "(raVerdict (results ! i) \<in> {ConsistentOdds, AboveOdds, BelowOdds} \<longrightarrow>
      orHits (rows ! i) \<le> orPacks (rows ! i) \<and> 30 \<le> orPacks (rows ! i)
      \<and> 5 * poDenominator odds \<le> orPacks (rows ! i) * poNumerator odds)
    \<and> (orHits (rows ! i) \<le> orPacks (rows ! i) \<and> 30 \<le> orPacks (rows ! i)
      \<and> 5 * poDenominator odds < orPacks (rows ! i) * poNumerator odds
      \<longrightarrow> raVerdict (results ! i) \<in> {ConsistentOdds, AboveOdds, BelowOdds})"
proof -
  let ?ar = "dbl_arith sq lg pw" and ?row = "rows ! i"
  have "map (\<lambda>row. compareToOdds ?ar row (odds_tests rows)
      (case confidence of None \<Rightarrow> ODDS_CONFIDENCE ?ar | Some c \<Rightarrow> c)) rows = map Inr results"
    using assms(1) by (simp add: compareRarities_def all_or_error_Inr)
  from arg_cong [OF this, of "\<lambda>xs. xs ! i"] arg_cong [OF this, of length]
  have res: "compareToOdds ?ar ?row (odds_tests rows)
      (case confidence of None \<Rightarrow> ODDS_CONFIDENCE ?ar | Some c \<Rightarrow> c) = Inr (results ! i)"
    using assms(2) by simp
  have ok: "1 \<le> poDenominator odds" "0 \<le> poNumerator odds" "poNumerator odds \<le> poDenominator odds"
    using assms(3,4) by (simp_all add: odds_row_ok_def)
  have floor: "30 \<le> orPacks ?row \<Longrightarrow> orPacks ?row * poNumerator odds < 5 * poDenominator odds
      \<Longrightarrow> dbl (of_int (orPacks ?row) * dbl (of_int (poNumerator odds) / of_int (poDenominator odds))) < 5"
    and above: "30 \<le> orPacks ?row \<Longrightarrow> 5 * poDenominator odds < orPacks ?row * poNumerator odds
      \<Longrightarrow> 5 \<le> dbl (of_int (orPacks ?row) * dbl (of_int (poNumerator odds) / of_int (poDenominator odds)))"
    using floor_in_doubles [OF ok _ assms(5)] by auto
  have "raVerdict (results ! i) \<in> {ConsistentOdds, AboveOdds, BelowOdds} \<longleftrightarrow>
    \<not> orHits ?row > orPacks ?row \<and> \<not> orPacks ?row < 30
    \<and> \<not> dbl (of_int (orPacks ?row) * dbl (of_int (poNumerator odds) / of_int (poDenominator odds))) < 5"
    using compared_iff [OF res assms(4) ok(1,2)] by simp
  then show ?thesis using floor above by (meson leD linorder_not_less)
qed

definition demo_row_of_odds :: odds_row where
  "demo_row_of_odds =
     \<lparr>orRarity = ''SR'', orHits = 30, orPacks = 360, orPublished = Some \<lparr>poNumerator = 1, poDenominator = 12\<rparr>\<rparr>"

lemma zFor_half: "\<exists>z. zFor (dbl_arith (\<lambda>x. x) (\<lambda>x. x) (\<lambda>x y. x)) (1 / 2) 1 = Inr z"
proof -
  have d: "dbl 1 = 1" "dbl (1 / 2) = 1 / 2" "dbl (1 / 4) = 1 / 4" "dbl (3 / 4) = 3 / 4"
    using js.rnd_exact [of 1 0] js.rnd_exact [of 1 1] js.rnd_exact [of 1 2] js.rnd_exact [of 3 2] by simp_all
  show ?thesis by (simp add: zFor_def normalQuantile_def quantile_below_def Let_def d)
qed

lemma compareToOdds_returns:
  assumes "zFor ar conf k = Inr z" "odds_row_ok row"
  shows "\<exists>res. compareToOdds ar row k conf = Inr res"
  using assms
  by (cases "orPublished row")
    (auto simp: compareToOdds_def ratePerPack_def wilsonInterval_def odds_row_ok_def MIN_PACKS_FOR_ODDS_def Let_def)

lemma no_verdict_without_evidence_witness:
  "\<exists>results. compareRarities (dbl_arith (\<lambda>x. x) (\<lambda>x. x) (\<lambda>x y. x)) [demo_row_of_odds] (Some (1 / 2)) = Inr results
     \<and> raVerdict (results ! 0) \<in> {ConsistentOdds, AboveOdds, BelowOdds}"
proof -
  obtain z where z: "zFor (dbl_arith (\<lambda>x. x) (\<lambda>x. x) (\<lambda>x y. x)) (1 / 2) 1 = Inr z" using zFor_half by auto
  obtain results where r:
    "compareRarities (dbl_arith (\<lambda>x. x) (\<lambda>x. x) (\<lambda>x y. x)) [demo_row_of_odds] (Some (1 / 2)) = Inr results"
    using compareToOdds_returns [OF z, of demo_row_of_odds]
    by (auto simp: compareRarities_def odds_tests_def demo_row_of_odds_def odds_row_ok_def)
  show ?thesis
    using no_verdict_without_evidence [OF r, of 0 "\<lparr>poNumerator = 1, poDenominator = 12\<rparr>"] r
    by (simp add: demo_row_of_odds_def odds_row_ok_def)
qed

text \<open>At one in 249, 1245 packs are exactly five expected hits, and the doubles fall just short.\<close>

lemma five_expected_hits_can_be_short:
  "dbl (1245 * dbl (1 / 249)) < 5"
proof -
  have "dbl (1 / 249) = of_int (round_even (1 / 249 * 2 ^ 60)) / 2 ^ 60"
    using dbl_eval [of "-8" "1 / 249"] by (simp add: power_int_def power_divide)
  also have "round_even (1 / 249 * 2 ^ 60) = 4630206845810630"
  proof -
    have "\<lfloor>1152921504606846976 / 249 :: rat\<rfloor> = 4630206845810630" by (rule floor_unique) simp_all
    then show ?thesis by (simp add: round_even_def Let_def)
  qed
  finally have a: "1245 * dbl (1 / 249) = 1245 * 4630206845810630 / 2 ^ 60" by simp
  have "dbl (1245 * dbl (1 / 249)) = of_int (round_even (1245 * 4630206845810630 / 2 ^ 60 * 2 ^ 50)) / 2 ^ 50"
    unfolding a using dbl_eval [of 2 "1245 * 4630206845810630 / 2 ^ 60"] by (simp add: power_int_def power_divide)
  also have "round_even (1245 * 4630206845810630 / 2 ^ 60 * 2 ^ 50) = 5629499534213119"
  proof -
    have "\<lfloor>2882303761517117175 / 512 :: rat\<rfloor> = 5629499534213119" by (rule floor_unique) simp_all
    then show ?thesis by (simp add: round_even_def Let_def)
  qed
  finally show ?thesis by simp
qed

end
