(* ===== verification/Profiles.thy ===== *)
theory Profiles
  imports Rarity BreakRoutes
begin

text \<open>
  Public pages of breakers: the tables \<open>creator_profiles\<close> and \<open>pack_odds\<close> with their policies
  (\<open>packages/db/src/schema/profiles.ts\<close>, migration 0022), \<open>packages/db/src/queries/profiles.ts\<close> over the store
  of breaks, and the routes of one's own page (\<open>apps/api/src/routes/profile.ts\<close>).
\<close>

section \<open>Tables\<close>

record CreatorProfile =
  cpId :: string
  cpUserId :: string
  cpHandle :: string
  cpDisplayName :: string
  cpBio :: "string option"
  cpPublished :: bool
  cpCreatedAt :: int
  cpUpdatedAt :: int

record PackOdds =
  pkSealedProductId :: string
  pkRarity :: string
  pkOdds :: PublishedOdds
  pkSourceUrl :: string
  pkPublishedAt :: "int option"

text \<open>\<open>pfRarities\<close> is the join of variants to their card's rarity.\<close>

record profile_db =
  pfProfiles :: "CreatorProfile list"
  pfOdds :: "PackOdds list"
  pfRarities :: "(string \<times> string option) list"
  pfBreaks :: break_db

definition profile_visible :: "viewer \<Rightarrow> CreatorProfile \<Rightarrow> bool" where
  "profile_visible v p \<longleftrightarrow> v = Person (cpUserId p) \<or> cpPublished p"

definition profile_owned :: "string \<Rightarrow> CreatorProfile \<Rightarrow> bool" where
  "profile_owned u p \<longleftrightarrow> cpUserId p = u"

definition profile_checks :: "CreatorProfile \<Rightarrow> (string \<times> bool) list" where
  "profile_checks p =
     [(''creator_profiles_bio_length'', case cpBio p of None \<Rightarrow> True | Some b \<Rightarrow> length b \<le> 280),
      (''creator_profiles_display_name_length'',
         1 \<le> length (btrim (cpDisplayName p)) \<and> length (btrim (cpDisplayName p)) \<le> 60),
      (''creator_profiles_handle_format'', HANDLE_PATTERN (cpHandle p))]"

definition pack_odds_checks :: "PackOdds \<Rightarrow> (string \<times> bool) list" where
  "pack_odds_checks o1 =
     [(''pack_odds_denominator_positive'', 1 \<le> poDenominator (pkOdds o1)),
      (''pack_odds_numerator_range'',
         1 \<le> poNumerator (pkOdds o1) \<and> poNumerator (pkOdds o1) \<le> poDenominator (pkOdds o1)),
      (''pack_odds_source_https'', starts_with ''https://'' (pkSourceUrl o1))]"

text \<open>
  \<open>insert ... on conflict (user_id) do update\<close>, as \<open>u\<close>: the proposed row passes the insert policy and the CHECKs
  first; then the index on \<open>user_id\<close> decides between the two statements.
\<close>

definition profile_set :: "CreatorProfile \<Rightarrow> int \<Rightarrow> CreatorProfile \<Rightarrow> CreatorProfile" where
  "profile_set p now old =
     old\<lparr>cpHandle := cpHandle p, cpDisplayName := cpDisplayName p, cpBio := cpBio p,
         cpPublished := cpPublished p, cpUpdatedAt := now\<rparr>"

definition upsert_profile ::
  "string \<Rightarrow> int \<Rightarrow> CreatorProfile \<Rightarrow> string list \<Rightarrow> CreatorProfile list \<Rightarrow> db_error + CreatorProfile \<times> CreatorProfile list" where
  "upsert_profile u now p people rows =
     (if \<not> profile_owned u p then Inl RowSecurity
      else case first_violated (profile_checks p) of
        Some c \<Rightarrow> Inl (CheckViolation c)
      | None \<Rightarrow>
          (case find_row cpUserId (cpUserId p) rows of
             Some old \<Rightarrow>
               if \<not> profile_owned u old then Inl RowSecurity
               else if cpHandle p \<in> cpHandle ` set (filter (\<lambda>x. cpId x \<noteq> cpId old) rows)
               then Inl (UniqueViolation ''creator_profiles_handle_key'')
               else Inr (profile_set p now old, update_row cpId (cpId old) (profile_set p now) rows)
           | None \<Rightarrow>
               if cpId p \<in> cpId ` set rows then Inl (UniqueViolation ''creator_profiles_pkey'')
               else if cpHandle p \<in> cpHandle ` set rows then Inl (UniqueViolation ''creator_profiles_handle_key'')
               else if cpUserId p \<notin> set people then Inl (ForeignKeyViolation ''creator_profiles_user_id_users_id_fk'')
               else Inr (p, rows @ [p])))"

section \<open>One's own page\<close>

record ProfileInput =
  pnHandle :: string
  pnDisplayName :: string
  pnBio :: "string option"
  pnPublished :: bool

datatype profile_error = ProfileError string | ProfileDbError db_error

text \<open>\<open>lower\<close> is the platform's \<open>toLowerCase\<close>.\<close>

definition proposed_profile :: "(string \<Rightarrow> string) \<Rightarrow> string \<Rightarrow> int \<Rightarrow> string \<Rightarrow> ProfileInput \<Rightarrow> CreatorProfile" where
  "proposed_profile lower newId now u input =
     \<lparr>cpId = newId, cpUserId = u, cpHandle = lower (trim (pnHandle input)), cpDisplayName = trim (pnDisplayName input),
      cpBio = (case map_option trim (pnBio input) of None \<Rightarrow> None | Some b \<Rightarrow> if b = [] then None else Some b),
      cpPublished = pnPublished input, cpCreatedAt = now, cpUpdatedAt = now\<rparr>"

definition upsertProfile ::
  "(string \<Rightarrow> string) \<Rightarrow> string \<Rightarrow> int \<Rightarrow> string \<Rightarrow> ProfileInput \<Rightarrow> profile_db
     \<Rightarrow> profile_error + CreatorProfile \<times> profile_db" where
  "upsertProfile lower newId now u input db =
     (let chosen = lower (trim (pnHandle input)); displayName = trim (pnDisplayName input);
          bio = map_option trim (pnBio input)
      in if \<not> isValidHandle chosen then Inl (ProfileError ''that handle is not available'')
         else if length displayName = 0 \<or> length displayName > 60
         then Inl (ProfileError ''a display name must be between 1 and 60 characters'')
         else if (case bio of None \<Rightarrow> False | Some b \<Rightarrow> length b > 280)
         then Inl (ProfileError ''a bio must be 280 characters or fewer'')
         else
           (case upsert_profile u now (proposed_profile lower newId now u input) (accounts (pfBreaks db)) (pfProfiles db) of
              Inl e \<Rightarrow>
                if isUniqueViolation e (Some ''creator_profiles_handle_key'')
                then Inl (ProfileError ''that handle is already taken'') else Inl (ProfileDbError e)
            | Inr (row, rows) \<Rightarrow> Inr (row, db\<lparr>pfProfiles := rows\<rparr>)))"

definition getMyProfile :: "string \<Rightarrow> profile_db \<Rightarrow> CreatorProfile option" where
  "getMyProfile u db = find (\<lambda>p. cpUserId p = u \<and> profile_visible (Person u) p) (pfProfiles db)"

definition deleteMyProfile :: "string \<Rightarrow> profile_db \<Rightarrow> bool \<times> profile_db" where
  "deleteMyProfile u db =
     (let gone = (\<lambda>p. cpUserId p = u \<and> profile_owned u p)
      in (list_ex gone (pfProfiles db), db\<lparr>pfProfiles := filter (\<lambda>p. \<not> gone p) (pfProfiles db)\<rparr>))"

record ProfileSummary =
  psHandle :: string
  psDisplayName :: string
  psBio :: "string option"

definition profile_summary :: "CreatorProfile \<Rightarrow> ProfileSummary" where
  "profile_summary p = \<lparr>psHandle = cpHandle p, psDisplayName = cpDisplayName p, psBio = cpBio p\<rparr>"

definition listPublishedProfiles :: "viewer \<Rightarrow> int \<Rightarrow> profile_db \<Rightarrow> ProfileSummary list" where
  "listPublishedProfiles v limit db =
     map profile_summary (take (nat (min (max limit 1) 100))
       (sort_key (\<lambda>p. - cpCreatedAt p) (filter (\<lambda>p. cpPublished p \<and> profile_visible v p) (pfProfiles db))))"

section \<open>What a page counts\<close>

text \<open>
  \<open>pvColl\<close> ranks texts as the database collates them, \<open>pvArrange\<close> is the order in which it meets the groups of a
  \<open>group by\<close>.
\<close>

record profile_env =
  pvArith :: "rat arith"
  pvColl :: "string \<Rightarrow> nat"
  pvArrange :: "string list \<Rightarrow> string list"

definition creator_breaks :: "viewer \<Rightarrow> string \<Rightarrow> profile_db \<Rightarrow> Break list" where
  "creator_breaks v u db = filter (\<lambda>b. bCreatorId b = u \<and> break_visible v b) (breakRows (pfBreaks db))"

definition pulls_of :: "viewer \<Rightarrow> Break list \<Rightarrow> profile_db \<Rightarrow> BreakPull list" where
  "pulls_of v bs db =
     filter (\<lambda>p. plBreakId p \<in> bId ` set bs \<and> pull_visible v (pfBreaks db) p) (pullRows (pfBreaks db))"

definition rarity_of :: "profile_db \<Rightarrow> BreakPull \<Rightarrow> string option" where
  "rarity_of db p = Option.bind (plCardVariantId p) (\<lambda>k. Option.bind (map_of (pfRarities db) k) id)"

record BreakerTotals =
  btBreaks :: nat
  btEndedBreaks :: nat
  btPulls :: nat
  btTotalValueCents :: int
  btPacksOpened :: int
  btBreaksWithoutPackCount :: nat

definition breakerTotals :: "viewer \<Rightarrow> string \<Rightarrow> profile_db \<Rightarrow> BreakerTotals" where
  "breakerTotals v u db =
     (let bs = creator_breaks v u db; pulls = pulls_of v bs db; ended = filter (\<lambda>b. bStatus b = Ended) bs
      in \<lparr>btBreaks = length bs, btEndedBreaks = length ended, btPulls = length pulls,
          btTotalValueCents = sum_list (map plValueCents pulls),
          btPacksOpened = sum_list (List.map_filter bPacksOpened ended),
          btBreaksWithoutPackCount = length (filter (\<lambda>b. bPacksOpened b = None) ended)\<rparr>)"

definition breakerRarityCounts :: "profile_env \<Rightarrow> viewer \<Rightarrow> string \<Rightarrow> profile_db \<Rightarrow> (string \<times> nat) list" where
  "breakerRarityCounts env v u db =
     (let rs = List.map_filter (rarity_of db) (pulls_of v (creator_breaks v u db) db)
      in sort_key (\<lambda>x. - int (snd x)) (sort_key (\<lambda>x. pvColl env (fst x))
           (map (\<lambda>r. (r, length (filter (\<lambda>x. x = r) rs))) (pvArrange env (remdups rs)))))"

section \<open>Hit rates\<close>

record RarityTallyRow =
  rtSealedProductId :: string
  rtProductName :: string
  rtBreaks :: nat
  rtPacks :: int
  rtUnidentifiedPulls :: nat
  rtRarity :: "string option"
  rtHits :: nat
  rtOdds :: "PackOdds option"

definition eligible_breaks :: "viewer \<Rightarrow> string \<Rightarrow> profile_db \<Rightarrow> Break list" where
  "eligible_breaks v u db =
     filter (\<lambda>b. bStatus b = Ended \<and> bPacksOpened b \<noteq> None \<and> bSealedProductId b \<noteq> None) (creator_breaks v u db)"

definition product_rows :: "profile_env \<Rightarrow> viewer \<Rightarrow> string \<Rightarrow> profile_db \<Rightarrow> string \<Rightarrow> RarityTallyRow list" where
  "product_rows env v u db k =
     (case map_of (products (pfBreaks db)) k of
        None \<Rightarrow> []
      | Some name \<Rightarrow>
          let bs = filter (\<lambda>b. bSealedProductId b = Some k) (eligible_breaks v u db);
              pulls = pulls_of v bs db;
              odds = filter (\<lambda>x. pkSealedProductId x = k) (pfOdds db);
              row = (\<lambda>r. \<lparr>rtSealedProductId = k, rtProductName = name, rtBreaks = length bs,
                         rtPacks = sum_list (List.map_filter bPacksOpened bs),
                         rtUnidentifiedPulls = length (filter (\<lambda>p. rarity_of db p = None) pulls),
                         rtRarity = r,
                         rtHits = (case r of None \<Rightarrow> 0 | Some _ \<Rightarrow> length (filter (\<lambda>p. rarity_of db p = r) pulls)),
                         rtOdds = (case r of None \<Rightarrow> None | Some x \<Rightarrow> find_row pkRarity x odds)\<rparr>);
              rarities = pvArrange env (remdups (List.map_filter (rarity_of db) pulls @ map pkRarity odds))
          in if rarities = [] then [row None] else map (\<lambda>r. row (Some r)) rarities)"

definition tally_rows :: "profile_env \<Rightarrow> viewer \<Rightarrow> string \<Rightarrow> profile_db \<Rightarrow> RarityTallyRow list" where
  "tally_rows env v u db =
     sort_key (\<lambda>r. - rtPacks r)
       (sort_key (\<lambda>r. case rtRarity r of None \<Rightarrow> 1 | Some _ \<Rightarrow> (0 :: nat))
         (sort_key (\<lambda>r. case rtRarity r of None \<Rightarrow> 0 | Some x \<Rightarrow> pvColl env x)
           (concat (map (product_rows env v u db)
              (pvArrange env (remdups (List.map_filter bSealedProductId (eligible_breaks v u db))))))))"

record OddsReport =
  opSealedProductId :: string
  opProductName :: string
  opBreaks :: nat
  opPacks :: int
  opUnidentifiedPulls :: nat
  opRarities :: "rat RarityComparison list"
  opSources :: "(string \<times> string \<times> int option) list"

text \<open>A report while it is collected: its raw rows beside it.\<close>

type_synonym raw_report = "OddsReport \<times> odds_row list"

definition add_tally :: "RarityTallyRow \<Rightarrow> raw_report \<Rightarrow> raw_report" where
  "add_tally row rep =
     (case rtRarity row of
        None \<Rightarrow> rep
      | Some rarity \<Rightarrow>
          ((fst rep)\<lparr>opSources := opSources (fst rep) @
              (case rtOdds row of None \<Rightarrow> [] | Some x \<Rightarrow> [(rarity, pkSourceUrl x, pkPublishedAt x)])\<rparr>,
           snd rep @ [\<lparr>orRarity = rarity, orHits = int (rtHits row), orPacks = opPacks (fst rep),
                       orPublished = map_option pkOdds (rtOdds row)\<rparr>]))"

definition new_report :: "RarityTallyRow \<Rightarrow> raw_report" where
  "new_report row =
     (\<lparr>opSealedProductId = rtSealedProductId row, opProductName = rtProductName row, opBreaks = rtBreaks row,
       opPacks = rtPacks row, opUnidentifiedPulls = rtUnidentifiedPulls row, opRarities = [], opSources = []\<rparr>, [])"

fun by_product :: "RarityTallyRow list \<Rightarrow> raw_report list \<Rightarrow> raw_report list" where
  "by_product [] reports = reports"
| "by_product (row # rows) reports =
     by_product rows
       (if list_ex (\<lambda>rep. opSealedProductId (fst rep) = rtSealedProductId row) reports
        then update_row (\<lambda>rep. opSealedProductId (fst rep)) (rtSealedProductId row) (add_tally row) reports
        else reports @ [add_tally row (new_report row)])"

definition finished_report :: "profile_env \<Rightarrow> raw_report \<Rightarrow> odds_error + OddsReport" where
  "finished_report env rep =
     map_sum id (\<lambda>rs. (fst rep)\<lparr>opRarities := rs\<rparr>) (compareRarities (pvArith env) (snd rep) None)"

definition breakerOddsReports :: "profile_env \<Rightarrow> viewer \<Rightarrow> string \<Rightarrow> profile_db \<Rightarrow> odds_error + OddsReport list" where
  "breakerOddsReports env v u db = all_or_error (map (finished_report env) (by_product (tally_rows env v u db) []))"

section \<open>Recent breaks and the badge\<close>

definition PROFILE_CHAIN_SAMPLE :: nat where "PROFILE_CHAIN_SAMPLE = 25"
definition PROFILE_RECENT_BREAKS :: nat where "PROFILE_RECENT_BREAKS = 10"

record RecentBreak =
  rbId :: string
  rbTitle :: string
  rbProductName :: "string option"
  rbStatus :: BreakStatus
  rbPacksOpened :: "int option"
  rbPulls :: nat
  rbTotalCents :: int
  rbEndedAt :: "int option"

definition break_moment :: "Break \<Rightarrow> int" where
  "break_moment b =
     (case bEndedAt b of Some t \<Rightarrow> t | None \<Rightarrow> (case bStartedAt b of Some t \<Rightarrow> t | None \<Rightarrow> bCreatedAt b))"

definition recent_break :: "viewer \<Rightarrow> profile_db \<Rightarrow> Break \<Rightarrow> RecentBreak" where
  "recent_break v db b =
     (let pulls = pulls_of v [b] db
      in \<lparr>rbId = bId b, rbTitle = bTitle b,
          rbProductName = Option.bind (bSealedProductId b) (map_of (products (pfBreaks db))),
          rbStatus = bStatus b, rbPacksOpened = bPacksOpened b, rbPulls = length pulls,
          rbTotalCents = sum_list (map plValueCents pulls), rbEndedAt = bEndedAt b\<rparr>)"

definition breakerRecentBreaks :: "viewer \<Rightarrow> string \<Rightarrow> profile_db \<Rightarrow> RecentBreak list" where
  "breakerRecentBreaks v u db =
     map (recent_break v db) (take PROFILE_RECENT_BREAKS (sort_key (\<lambda>b. - break_moment b) (creator_breaks v u db)))"

datatype FairnessBadge = BadgeVerified | BadgeNone | BadgeBroken

record BreakerFairness =
  bfCommitted :: nat
  bfRevealed :: nat
  bfChainsChecked :: nat
  bfEndedBreaks :: nat
  bfChainsValid :: nat
  bfChainsBroken :: nat
  bfChainsUnverifiable :: nat
  bfBadge :: FairnessBadge

definition creator_commitments :: "viewer \<Rightarrow> string \<Rightarrow> profile_db \<Rightarrow> Commitment list" where
  "creator_commitments v u db =
     filter (\<lambda>c. cmBreakId c \<in> bId ` set (creator_breaks v u db) \<and> commitment_visible v (pfBreaks db) c)
       (commitmentRows (pfBreaks db))"

text \<open>\<open>order by ended_at desc\<close> puts a missing instant first.\<close>

definition chain_sample :: "viewer \<Rightarrow> string \<Rightarrow> profile_db \<Rightarrow> string list" where
  "chain_sample v u db =
     (let ended = filter (\<lambda>b. bStatus b = Ended) (creator_breaks v u db)
      in map bId (take PROFILE_CHAIN_SAMPLE
           (filter (\<lambda>b. bEndedAt b = None) ended
            @ sort_key (\<lambda>b. - the (bEndedAt b)) (filter (\<lambda>b. bEndedAt b \<noteq> None) ended))))"

definition breakerFairness :: "viewer \<Rightarrow> string \<Rightarrow> profile_db \<Rightarrow> BreakerFairness" where
  "breakerFairness v u db =
     (let cs = creator_commitments v u db;
          revealed = length (filter (\<lambda>c. cmRevealedSeed c \<noteq> None) cs);
          statuses = map (csState \<circ> snd) (checkChains v (chain_sample v u db) (pfBreaks db));
          broken = length (filter (\<lambda>s. s = ChainInvalid) statuses)
      in \<lparr>bfCommitted = length cs, bfRevealed = revealed, bfChainsChecked = length statuses,
          bfEndedBreaks = length (filter (\<lambda>b. bStatus b = Ended) (creator_breaks v u db)),
          bfChainsValid = length (filter (\<lambda>s. s = ChainValid) statuses), bfChainsBroken = broken,
          bfChainsUnverifiable = length (filter (\<lambda>s. s = Unverifiable) statuses),
          bfBadge = (if broken > 0 then BadgeBroken else if revealed > 0 then BadgeVerified else BadgeNone)\<rparr>)"

record BreakerProfile =
  bpSummary :: ProfileSummary
  bpTotals :: BreakerTotals
  bpFairness :: BreakerFairness
  bpRarityCounts :: "(string \<times> nat) list"
  bpOddsReports :: "OddsReport list"
  bpRecentBreaks :: "RecentBreak list"

definition getBreakerProfile ::
  "profile_env \<Rightarrow> (string \<Rightarrow> string) \<Rightarrow> viewer \<Rightarrow> string \<Rightarrow> profile_db \<Rightarrow> odds_error + BreakerProfile option" where
  "getBreakerProfile env lower v chosen db =
     (case find (\<lambda>p. cpHandle p = lower chosen \<and> cpPublished p \<and> profile_visible v p) (pfProfiles db) of
        None \<Rightarrow> Inr None
      | Some p \<Rightarrow>
          (case breakerOddsReports env v (cpUserId p) db of
             Inl e \<Rightarrow> Inl e
           | Inr reports \<Rightarrow>
               Inr (Some \<lparr>bpSummary = profile_summary p, bpTotals = breakerTotals v (cpUserId p) db,
                          bpFairness = breakerFairness v (cpUserId p) db,
                          bpRarityCounts = breakerRarityCounts env v (cpUserId p) db, bpOddsReports = reports,
                          bpRecentBreaks = breakerRecentBreaks v (cpUserId p) db\<rparr>)))"

section \<open>Routes\<close>

definition profileSchema :: "(string \<Rightarrow> string) \<Rightarrow> ProfileInput \<Rightarrow> bool" where
  "profileSchema lower body \<longleftrightarrow>
     HANDLE_PATTERN (lower (trim (pnHandle body))) \<and> z_trimmed 60 (pnDisplayName body)
     \<and> z_opt (\<lambda>b. length (trim b) \<le> 280) (pnBio body)"

definition parsed_profile :: "(string \<Rightarrow> string) \<Rightarrow> ProfileInput \<Rightarrow> ProfileInput" where
  "parsed_profile lower body =
     body\<lparr>pnHandle := lower (trim (pnHandle body)), pnDisplayName := trim (pnDisplayName body),
          pnBio := map_option trim (pnBio body)\<rparr>"

type_synonym profile_api = "profile_db \<times> AuditEntry list"

definition getProfileRoute :: "Subject option \<Rightarrow> profile_db \<Rightarrow> reply \<times> CreatorProfile option" where
  "getProfileRoute subject db =
     (case subject of
        None \<Rightarrow> (unauthenticated, None)
      | Some u \<Rightarrow>
          if authorize subject ProfileWrite None \<noteq> None then (forbidden, None)
          else (Reply 200 ''ok'', getMyProfile (subUserId u) db))"

definition putProfileRoute ::
  "(string \<Rightarrow> string) \<Rightarrow> string \<Rightarrow> int \<Rightarrow> Subject option \<Rightarrow> ProfileInput \<Rightarrow> profile_api
     \<Rightarrow> reply \<times> profile_api" where
  "putProfileRoute lower newId now subject body s =
     (case subject of
        None \<Rightarrow> (unauthenticated, s)
      | Some u \<Rightarrow>
          if authorize subject ProfileWrite None \<noteq> None then (forbidden, s)
          else if \<not> profileSchema lower body then (invalid_request, s)
          else
            (case upsertProfile lower newId now (subUserId u) (parsed_profile lower body) (fst s) of
               Inl (ProfileError _) \<Rightarrow> (Reply 409 ''profile_rejected'', s)
             | Inl (ProfileDbError _) \<Rightarrow> (internal_error, s)
             | Inr (row, db) \<Rightarrow>
                 (Reply 200 ''ok'', (db, snd s @ [user_audit (subUserId u) ''profile.saved'' ''creator_profile'' (cpId row)]))))"

definition deleteProfileRoute :: "Subject option \<Rightarrow> profile_api \<Rightarrow> reply \<times> profile_api" where
  "deleteProfileRoute subject s =
     (case subject of
        None \<Rightarrow> (unauthenticated, s)
      | Some u \<Rightarrow>
          if authorize subject ProfileWrite None \<noteq> None then (forbidden, s)
          else (case deleteMyProfile (subUserId u) (fst s) of
            (False, _) \<Rightarrow> (not_found, s)
          | (True, db) \<Rightarrow>
              (Reply 204 ''no_content'',
               (db, snd s @ [user_audit (subUserId u) ''profile.deleted'' ''creator_profile'' (subUserId u)]))))"

end
