(* ===== verification/ProfileProps.thy ===== *)
theory ProfileProps
  imports Profiles BreakProps
begin

text \<open>
  What a public page shows: a function of what is public, whoever's it is; nothing but what its owner typed; and a
  badge that an honest log never loses to itself.
\<close>

section \<open>What is public\<close>

definition public_profile :: "CreatorProfile \<Rightarrow> CreatorProfile" where
  "public_profile p = p\<lparr>cpId := [], cpUpdatedAt := 0\<rparr>"

definition public_columns_of_break :: "Break \<Rightarrow> Break" where
  "public_columns_of_break b = b\<lparr>bOverlayTokenHash := [], bOverlayTokenVersion := 0, bCostCents := None, bVodUrl := None\<rparr>"

definition public_columns_of_commitment :: "Commitment \<Rightarrow> Commitment" where
  "public_columns_of_commitment c =
     c\<lparr>cmId := [], cmCommitment := [], cmSeedEncrypted := [], cmClientSeed := None,
       cmRevealedSeed := map_option (\<lambda>_. []) (cmRevealedSeed c)\<rparr>"

text \<open>
  The store without drafts, their logs and commitments, without unpublished pages, accounts, evidence and prices,
  and without tokens, costs, VOD addresses, commitments and seeds.
\<close>

definition public_part :: "profile_db \<Rightarrow> profile_db" where
  "public_part db =
     (let bdb = pfBreaks db
      in db\<lparr>pfProfiles := map public_profile (filter cpPublished (pfProfiles db)),
            pfBreaks := bdb\<lparr>accounts := [], variants := [], indexDaily := [], evidenceRows := [],
              breakRows := map public_columns_of_break (filter (\<lambda>b. bStatus b \<noteq> BreakDraft) (breakRows bdb)),
              pullRows := filter (pull_visible Anyone bdb) (pullRows bdb),
              commitmentRows := map public_columns_of_commitment
                (filter (commitment_visible Anyone bdb) (commitmentRows bdb))\<rparr>\<rparr>)"

lemma public_columns_of_break_sel [simp]:
  "bId (public_columns_of_break b) = bId b" "bCreatorId (public_columns_of_break b) = bCreatorId b"
  "bStatus (public_columns_of_break b) = bStatus b" "bTitle (public_columns_of_break b) = bTitle b"
  "bSealedProductId (public_columns_of_break b) = bSealedProductId b"
  "bPacksOpened (public_columns_of_break b) = bPacksOpened b" "bStartedAt (public_columns_of_break b) = bStartedAt b"
  "bEndedAt (public_columns_of_break b) = bEndedAt b" "bCreatedAt (public_columns_of_break b) = bCreatedAt b"
  by (simp_all add: public_columns_of_break_def)

lemma public_part_sel [simp]:
  "pfRarities (public_part db) = pfRarities db" "pfOdds (public_part db) = pfOdds db"
  "products (pfBreaks (public_part db)) = products (pfBreaks db)"
  "pullRows (pfBreaks (public_part db)) = filter (pull_visible Anyone (pfBreaks db)) (pullRows (pfBreaks db))"
  "breakRows (pfBreaks (public_part db)) =
     map public_columns_of_break (filter (\<lambda>b. bStatus b \<noteq> BreakDraft) (breakRows (pfBreaks db)))"
  "pfProfiles (public_part db) = map public_profile (filter cpPublished (pfProfiles db))"
  "commitmentRows (pfBreaks (public_part db)) = map public_columns_of_commitment
     (filter (commitment_visible Anyone (pfBreaks db)) (commitmentRows (pfBreaks db)))"
  by (simp_all add: public_part_def Let_def)

lemma visible_anyone [simp]: "break_visible Anyone b \<longleftrightarrow> bStatus b \<noteq> BreakDraft"
  by (simp add: break_visible_def)

lemma pull_visible_public [simp]: "pull_visible Anyone (pfBreaks (public_part db)) p = pull_visible Anyone (pfBreaks db) p"
  by (auto simp: pull_visible_def list_ex_iff)

lemma commitment_visible_public:
  "commitment_visible Anyone (pfBreaks (public_part db)) c = commitment_visible Anyone (pfBreaks db) c"
  by (auto simp: commitment_visible_def list_ex_iff)

lemma insort_key_map: "insort_key f (g x) (map g xs) = map g (insort_key (\<lambda>y. f (g y)) x xs)"
  by (induction xs) auto

lemma sort_key_map: "sort_key f (map g xs) = map g (sort_key (\<lambda>y. f (g y)) xs)"
  by (induction xs) (simp_all add: insort_key_map)

lemma creator_breaks_public:
  "creator_breaks Anyone u (public_part db) = map public_columns_of_break (creator_breaks Anyone u db)"
  by (simp add: creator_breaks_def filter_map comp_def conj_commute conj_left_commute)

lemma pulls_of_public [simp]: "pulls_of Anyone (map public_columns_of_break bs) (public_part db) = pulls_of Anyone bs db"
  by (simp add: pulls_of_def image_image) (auto intro!: filter_cong)

lemma pulls_of_public_one [simp]: "pulls_of Anyone [public_columns_of_break b] (public_part db) = pulls_of Anyone [b] db"
  using pulls_of_public [of "[b]" db] by simp

lemma rarity_of_public [simp]: "rarity_of (public_part db) = rarity_of db"
  by (simp add: rarity_of_def fun_eq_iff)

lemma map_filter_comp: "List.map_filter f (map g xs) = List.map_filter (\<lambda>x. f (g x)) xs"
  by (simp add: List.map_filter_def filter_map comp_def)

lemma eligible_breaks_public:
  "eligible_breaks Anyone u (public_part db) = map public_columns_of_break (eligible_breaks Anyone u db)"
  by (simp add: eligible_breaks_def creator_breaks_public filter_map comp_def)

lemma product_rows_public: "product_rows env Anyone u (public_part db) k = product_rows env Anyone u db k"
  by (cases "map_of (products (pfBreaks db)) k")
    (simp_all add: product_rows_def eligible_breaks_public filter_map comp_def map_filter_comp Let_def cong: if_cong)

lemma breakerOddsReports_public: "breakerOddsReports env Anyone u (public_part db) = breakerOddsReports env Anyone u db"
proof -
  have "product_rows env Anyone u (public_part db) = product_rows env Anyone u db"
    by (rule ext) (rule product_rows_public)
  then show ?thesis by (simp add: breakerOddsReports_def tally_rows_def eligible_breaks_public map_filter_comp)
qed

lemma breakerTotals_public: "breakerTotals Anyone u (public_part db) = breakerTotals Anyone u db"
  by (simp add: breakerTotals_def creator_breaks_public filter_map comp_def map_filter_comp Let_def)

lemma breakerRecentBreaks_public: "breakerRecentBreaks Anyone u (public_part db) = breakerRecentBreaks Anyone u db"
proof -
  have "break_moment (public_columns_of_break b) = break_moment b" for b
    by (simp add: break_moment_def cong: option.case_cong)
  moreover have "recent_break Anyone (public_part db) (public_columns_of_break b) = recent_break Anyone db b" for b
    by (simp add: recent_break_def)
  ultimately show ?thesis
    by (simp add: breakerRecentBreaks_def creator_breaks_public sort_key_map take_map comp_def)
qed

lemma breakerRarityCounts_public: "breakerRarityCounts env Anyone u (public_part db) = breakerRarityCounts env Anyone u db"
  by (simp add: breakerRarityCounts_def creator_breaks_public)

lemma chain_sample_public: "chain_sample Anyone u (public_part db) = chain_sample Anyone u db"
  by (simp add: chain_sample_def creator_breaks_public filter_map comp_def sort_key_map take_map Let_def
      map_append [symmetric] del: map_append)

lemma checkChains_public: "checkChains Anyone ks (pfBreaks (public_part db)) = checkChains Anyone ks (pfBreaks db)"
  by (simp add: checkChains_def conj_commute conj_left_commute)

lemma creator_commitments_public:
  "creator_commitments Anyone u (public_part db) = map public_columns_of_commitment (creator_commitments Anyone u db)"
proof -
  have c: "commitment_visible Anyone (pfBreaks (public_part db)) (public_columns_of_commitment c)
      = commitment_visible Anyone (pfBreaks db) c" for c
    by (simp add: commitment_visible_public) (simp add: commitment_visible_def public_columns_of_commitment_def)
  have k: "cmBreakId (public_columns_of_commitment c) = cmBreakId c" for c
    by (simp add: public_columns_of_commitment_def)
  show ?thesis
    by (simp add: creator_commitments_def creator_breaks_public filter_map comp_def c k image_image)
      (auto intro!: arg_cong [where f = "map public_columns_of_commitment"] filter_cong)
qed

lemma breakerFairness_public: "breakerFairness Anyone u (public_part db) = breakerFairness Anyone u db"
proof -
  have r: "(\<exists>y. cmRevealedSeed (public_columns_of_commitment c) = Some y) = (\<exists>y. cmRevealedSeed c = Some y)" for c
    by (simp add: public_columns_of_commitment_def)
  show ?thesis
    by (simp add: breakerFairness_def creator_commitments_public chain_sample_public checkChains_public r filter_map
        comp_def creator_breaks_public Let_def)
qed

text \<open>C40: Everything the public sees of a breaker - the list of pages, and of a page its counts, hit rates, verdicts,
  recent breaks and badge - is a function of what is public: it comes out the same from a store without drafts and
  unpublished pages, without accounts, overlay tokens, costs, VOD addresses, evidence, commitments and seeds. An
  unknown and an unpublished address have the same answer.
\<close>

theorem public_page_shows_only_what_is_public:
  "getBreakerProfile env lower Anyone name (public_part db) = getBreakerProfile env lower Anyone name db
   \<and> listPublishedProfiles Anyone n (public_part db) = listPublishedProfiles Anyone n db"
proof -
  have p: "cpHandle (public_profile p) = cpHandle p" "cpPublished (public_profile p) = cpPublished p"
    "cpUserId (public_profile p) = cpUserId p" "cpCreatedAt (public_profile p) = cpCreatedAt p"
    "profile_summary (public_profile p) = profile_summary p"
    "profile_visible Anyone (public_profile p) = cpPublished p" "profile_visible Anyone p = cpPublished p" for p
    by (simp_all add: public_profile_def profile_summary_def profile_visible_def)
  have find_public: "find (\<lambda>p. cpHandle p = lower name \<and> cpPublished p \<and> profile_visible Anyone p) (map public_profile (filter cpPublished rows))
      = map_option public_profile (find (\<lambda>p. cpHandle p = lower name \<and> cpPublished p \<and> profile_visible Anyone p) rows)" for rows
    by (induction rows) (simp_all add: p)
  have f: "find (\<lambda>p. cpHandle p = lower name \<and> cpPublished p \<and> profile_visible Anyone p) (pfProfiles (public_part db))
      = map_option public_profile
          (find (\<lambda>p. cpHandle p = lower name \<and> cpPublished p \<and> profile_visible Anyone p) (pfProfiles db))"
    by (simp add: find_public)
  show ?thesis
  proof
    show "getBreakerProfile env lower Anyone name (public_part db) = getBreakerProfile env lower Anyone name db"
      unfolding getBreakerProfile_def f
      by (simp add: p breakerOddsReports_public breakerTotals_public breakerFairness_public breakerRarityCounts_public
          breakerRecentBreaks_public cong: option.case_cong sum.case_cong)
    show "listPublishedProfiles Anyone n (public_part db) = listPublishedProfiles Anyone n db"
      by (simp add: listPublishedProfiles_def filter_map comp_def p sort_key_map take_map)
  qed
qed

section \<open>What a page says\<close>

datatype profile_op = SavePage string int string ProfileInput | DeletePage string

fun profile_step :: "(string \<Rightarrow> string) \<Rightarrow> profile_op \<Rightarrow> profile_db \<Rightarrow> profile_error + profile_db" where
  "profile_step lower (SavePage newId now u input) db = map_sum id snd (upsertProfile lower newId now u input db)"
| "profile_step lower (DeletePage u) db = Inr (snd (deleteMyProfile u db))"

definition pages_ok :: "profile_db \<Rightarrow> bool" where
  "pages_ok db \<longleftrightarrow> distinct (map cpId (pfProfiles db)) \<and> distinct (map cpUserId (pfProfiles db))
     \<and> distinct (map cpHandle (pfProfiles db)) \<and> (\<forall>p \<in> set (pfProfiles db). isValidHandle (cpHandle p))"

lemma upsert_profile_Inr:
  assumes "upsert_profile u now p people rows = Inr (row, rows')"
  obtains (insert) "rows' = rows @ [p]" "row = p" "cpId p \<notin> cpId ` set rows" "cpHandle p \<notin> cpHandle ` set rows"
      "cpUserId p \<notin> cpUserId ` set rows" "cpUserId p = u"
  | (update) old where "old \<in> set rows" "cpUserId old = u" "cpUserId p = u" "row = profile_set p now old"
      "rows' = update_row cpId (cpId old) (profile_set p now) rows"
      "cpHandle p \<notin> cpHandle ` set (filter (\<lambda>x. cpId x \<noteq> cpId old) rows)"
proof (cases "find_row cpUserId (cpUserId p) rows")
  case None
  then have "rows' = rows @ [p] \<and> row = p \<and> cpId p \<notin> cpId ` set rows \<and> cpHandle p \<notin> cpHandle ` set rows \<and> cpUserId p = u"
    using assms by (auto simp: upsert_profile_def profile_owned_def split: if_splits option.splits)
  with None show ?thesis by (intro insert) (simp_all add: find_row_None_iff)
next
  case (Some old)
  have "old \<in> set rows" "cpUserId old = cpUserId p" using find_row_SomeD [OF Some] by auto
  then show ?thesis using assms Some
    by (intro update [of old]) (simp_all add: upsert_profile_def profile_owned_def split: if_splits option.splits)
qed

lemma upsertProfile_Inr:
  assumes "upsertProfile lower newId now u input db = Inr (row, db')"
  shows "isValidHandle (cpHandle (proposed_profile lower newId now u input))"
    and "\<exists>rows. upsert_profile u now (proposed_profile lower newId now u input) (accounts (pfBreaks db)) (pfProfiles db)
           = Inr (row, rows) \<and> db' = db\<lparr>pfProfiles := rows\<rparr>"
  using assms by (auto simp: upsertProfile_def proposed_profile_def Let_def split: if_splits sum.splits)

interpretation page_set: keyed_table cpId "profile_set p now" for p now
  by unfold_locales (simp add: profile_set_def)

lemma distinct_update_handle:
  "distinct (map cpId rows) \<Longrightarrow> distinct (map cpHandle rows) \<Longrightarrow> cpHandle p \<notin> cpHandle ` set (filter (\<lambda>x. cpId x \<noteq> k) rows)
   \<Longrightarrow> distinct (map cpHandle (update_row cpId k (profile_set p now) rows))"
proof (induction rows)
  case (Cons r rows)
  show ?case
  proof (cases "cpId r = k")
    case True
    then have "update_row cpId k (profile_set p now) rows = rows"
      using Cons.prems(1) True unfolding update_row_def by (intro map_idI) (auto simp: image_iff)
    moreover have "filter (\<lambda>x. cpId x \<noteq> k) rows = rows"
      using Cons.prems(1) True by (intro filter_True) (auto simp: image_iff)
    moreover have "cpHandle (profile_set p now r) = cpHandle p" by (simp add: profile_set_def)
    ultimately show ?thesis using Cons.prems True by simp
  next
    case False
    then have "cpHandle r \<notin> cpHandle ` set (update_row cpId k (profile_set p now) rows)"
      using Cons.prems by (auto simp: set_update_row profile_set_def split: if_splits)
    then show ?thesis using Cons False by (auto split: if_splits)
  qed
qed simp

lemma upsertProfile_keeps:
  assumes "pages_ok db" "upsertProfile lower newId now u input db = Inr (row, db')"
  shows "pages_ok db'"
proof -
  let ?p = "proposed_profile lower newId now u input"
  obtain rows where r: "upsert_profile u now ?p (accounts (pfBreaks db)) (pfProfiles db) = Inr (row, rows)"
    and db': "db' = db\<lparr>pfProfiles := rows\<rparr>" using upsertProfile_Inr(2) [OF assms(2)] by auto
  have valid: "isValidHandle (cpHandle ?p)" by (rule upsertProfile_Inr(1) [OF assms(2)])
  note ok = assms(1) [unfolded pages_ok_def]
  from r show ?thesis
  proof (cases rule: upsert_profile_Inr)
    case insert
    then show ?thesis using ok valid by (auto simp: pages_ok_def db')
  next
    case (update old)
    have "map cpUserId rows = map cpUserId (pfProfiles db)"
      unfolding update(5) by (simp add: update_row_def profile_set_def cong: map_cong)
    moreover have "\<forall>p \<in> set rows. isValidHandle (cpHandle p)"
      using ok valid unfolding update(5) by (auto simp: set_update_row profile_set_def)
    ultimately show ?thesis
      using ok page_set.distinct_update distinct_update_handle [OF _ _ update(6)]
      by (simp add: pages_ok_def db' update(5))
  qed
qed

lemma deleteMyProfile_keeps: "pages_ok db \<Longrightarrow> pages_ok (snd (deleteMyProfile u db))"
  by (auto simp: pages_ok_def deleteMyProfile_def Let_def distinct_map_filter)

interpretation pages: txn_machine "profile_step lower" pages_ok for lower
proof
  show "pages_ok s' " if "pages_ok s" "profile_step lower x s = Inr s'" for s s' x
  proof (cases x)
    case (SavePage newId now u input)
    then show ?thesis using that
      by (cases "upsertProfile lower newId now u input s") (auto intro: upsertProfile_keeps)
  next
    case (DeletePage u)
    then show ?thesis using that by (auto intro: deleteMyProfile_keeps)
  qed
qed

text \<open>A page and the request that wrote it.\<close>

definition typed_by_owner :: "(string \<Rightarrow> string) \<Rightarrow> profile_op list \<Rightarrow> CreatorProfile \<Rightarrow> bool" where
  "typed_by_owner lower ops p \<longleftrightarrow>
     (\<exists>newId now input. SavePage newId now (cpUserId p) input \<in> set ops \<and> cpPublished p = pnPublished input
        \<and> cpHandle p = lower (trim (pnHandle input)) \<and> cpDisplayName p = trim (pnDisplayName input)
        \<and> (cpBio p = None \<or> cpBio p = map_option trim (pnBio input)))"

lemma typed_by_owner_more: "typed_by_owner lower ops p \<Longrightarrow> typed_by_owner lower (ops @ more_ops) p"
  by (auto simp: typed_by_owner_def)

lemma step_typed:
  assumes "pages_ok db" "\<forall>p \<in> set (pfProfiles db). typed_by_owner lower ops p" "profile_step lower x db = Inr db'"
    and "p \<in> set (pfProfiles db')"
  shows "typed_by_owner lower (ops @ [x]) p"
proof (cases x)
  case (SavePage newId now u input)
  let ?p = "proposed_profile lower newId now u input"
  obtain row where "upsertProfile lower newId now u input db = Inr (row, db')"
    using assms(3) SavePage by (cases "upsertProfile lower newId now u input db") auto
  then obtain rows where r: "upsert_profile u now ?p (accounts (pfBreaks db)) (pfProfiles db) = Inr (row, rows)"
    and db': "db' = db\<lparr>pfProfiles := rows\<rparr>" using upsertProfile_Inr(2) by blast
  have new: "typed_by_owner lower (ops @ [x]) q"
    if "cpUserId q = u" "cpHandle q = cpHandle ?p" "cpDisplayName q = cpDisplayName ?p" "cpBio q = cpBio ?p"
      "cpPublished q = cpPublished ?p" for q
    unfolding typed_by_owner_def
    by (rule exI [of _ newId], rule exI [of _ now], rule exI [of _ input])
      (use that SavePage in \<open>auto simp: proposed_profile_def split: option.splits\<close>)
  from r show ?thesis
  proof (cases rule: upsert_profile_Inr)
    case insert
    then show ?thesis using assms(2,4) new [of ?p] by (auto simp: db' typed_by_owner_more)
  next
    case (update old)
    from assms(4) obtain q where q: "q \<in> set (pfProfiles db)" "p = (if cpId q = cpId old then profile_set ?p now q else q)"
      by (auto simp: db' update(5) set_update_row)
    show ?thesis
    proof (cases "cpId q = cpId old")
      case True
      then have "q = old" using assms(1) q(1) update(1) by (auto simp: pages_ok_def distinct_map inj_on_def)
      then show ?thesis using q(2) update(2) by (intro new) (simp_all add: profile_set_def)
    next
      case False
      then show ?thesis using q assms(2) by (simp add: typed_by_owner_more)
    qed
  qed
next
  case (DeletePage u)
  then show ?thesis using assms by (auto simp: deleteMyProfile_def Let_def typed_by_owner_more)
qed

text \<open>
  After any saves and deletions of pages, in any order, an address is one page and a person has at most one; every
  address has the published form and is none of the reserved ones; and a page says nothing, and is not published,
  but by a request its owner made.
\<close>

theorem pages_hold_what_their_owner_typed:
  assumes "pfProfiles start = []" "db = run_txns (profile_step lower) start ops"
  shows "pages_ok db \<and> (\<forall>p \<in> set (pfProfiles db). typed_by_owner lower ops p)"
proof -
  have "pages_ok (run_txns (profile_step lower) s xs)
      \<and> (\<forall>p \<in> set (pfProfiles (run_txns (profile_step lower) s xs)). typed_by_owner lower (done_ops @ xs) p)"
    if "pages_ok s" "\<forall>p \<in> set (pfProfiles s). typed_by_owner lower done_ops p" for s xs done_ops
    using that
  proof (induction xs arbitrary: s done_ops)
    case (Cons x xs)
    show ?case
    proof (cases "profile_step lower x s")
      case (Inl e)
      then show ?thesis
        using Cons.IH [of s "done_ops @ [x]"] Cons.prems typed_by_owner_more by simp
    next
      case (Inr s')
      then show ?thesis
        using Cons.IH [of s' "done_ops @ [x]"] pages.step_inv [OF Cons.prems(1) Inr]
          step_typed [OF Cons.prems Inr] by simp
    qed
  qed simp
  from this [of start "[]" ops] assms show ?thesis by (simp add: pages_ok_def)
qed

section \<open>The badge\<close>

text \<open>The status of every log of a sample is the status the log has by itself.\<close>

lemma map_fst_map_set: "map fst (map_set k v m) = (if k \<in> fst ` set m then map fst m else map fst m @ [k])"
  by (auto simp: map_set_def)

lemma group_rows_spec:
  assumes "\<forall>k b. (k, b) \<in> set acc \<longrightarrow> b = filter (\<lambda>r. plBreakId r = k) before \<and> k \<in> plBreakId ` set before"
    and "distinct (map fst acc)" and "plBreakId ` set before \<subseteq> fst ` set acc"
  shows "(k, b) \<in> set (group_rows rows acc)
     \<Longrightarrow> b = filter (\<lambda>r. plBreakId r = k) (before @ rows) \<and> k \<in> plBreakId ` set (before @ rows)"
  using assms
proof (induction rows arbitrary: acc before)
  case (Cons r rows)
  let ?k = "plBreakId r"
  define acc' where "acc' = (case map_of acc ?k of Some bucket \<Rightarrow> map_set ?k (bucket @ [r]) acc | None \<Rightarrow> map_set ?k [r] acc)"
  have "(k, b) \<in> set (group_rows rows acc')" using Cons.prems(1) by (simp add: acc'_def)
  moreover have "\<forall>k b. (k, b) \<in> set acc' \<longrightarrow>
      b = filter (\<lambda>x. plBreakId x = k) (before @ [r]) \<and> k \<in> plBreakId ` set (before @ [r])"
  proof (cases "map_of acc ?k")
    case None
    then have new: "?k \<notin> fst ` set acc" by (simp add: map_of_eq_None_iff)
    then have "?k \<notin> plBreakId ` set before" using Cons.prems(4) by auto
    then have "filter (\<lambda>x. plBreakId x = ?k) before = []" by (auto simp: filter_empty_conv image_iff)
    then show ?thesis using Cons.prems(2) new None
      by (auto simp: acc'_def map_set_def) (metis fst_conv image_eqI)+
  next
    case (Some bucket)
    then have "(?k, bucket) \<in> set acc" by (rule map_of_SomeD)
    then have "?k \<in> fst ` set acc" "(?k, bucket) \<in> set acc" by force+
    then show ?thesis using Cons.prems(2) Some
      by (auto simp: acc'_def map_set_def split: if_splits)
  qed
  moreover have "distinct (map fst acc')" "plBreakId ` set (before @ [r]) \<subseteq> fst ` set acc'"
    using Cons.prems(3,4) by (auto simp: acc'_def map_set_keys map_fst_map_set split: option.splits)
  ultimately show ?case using Cons.IH [of acc' "before @ [r]"] by simp
qed auto

lemma checkChains_spec:
  assumes "(k, s) \<in> set (checkChains v ks db)"
  shows "k \<in> set ks \<and> select_pulls v k db \<noteq> [] \<and> s = statusOf (select_pulls v k db)"
proof -
  let ?rows = "filter (\<lambda>p. plBreakId p \<in> set ks \<and> pull_visible v db p) (pullRows db)"
  have "ks \<noteq> []" using assms by (auto simp: checkChains_def)
  then obtain b where b: "(k, b) \<in> set (group_rows (sort_key plBreakId (sort_key plSeq ?rows)) [])" "s = statusOf b"
    using assms by (auto simp: checkChains_def Let_def)
  have g: "b = filter (\<lambda>r. plBreakId r = k) (sort_key plBreakId (sort_key plSeq ?rows))"
    and k: "k \<in> plBreakId ` set ?rows"
    using group_rows_spec [OF _ _ _ b(1), of "[]"] by simp_all
  note g
  also have "filter (\<lambda>r. plBreakId r = k) (sort_key plBreakId (sort_key plSeq ?rows))
      = sort_key plSeq (filter (\<lambda>r. plBreakId r = k) ?rows)"
    by (simp only: sort_key_stable filter_sort)
  also have "filter (\<lambda>r. plBreakId r = k) ?rows = filter (\<lambda>p. plBreakId p = k \<and> pull_visible v db p) (pullRows db)"
    using k by (auto intro!: filter_cong)
  finally have "b = select_pulls v k db" by (simp add: select_pulls_def)
  moreover have "select_pulls v k db \<noteq> []"
  proof -
    obtain p where "p \<in> set (pullRows db)" "plBreakId p = k" "pull_visible v db p" using k by auto
    then have "p \<in> set (select_pulls v k db)" by (simp add: select_pulls_def)
    then show ?thesis by auto
  qed
  ultimately show ?thesis using b(2) k by auto
qed

lemma honest_status:
  assumes "break_inv pf db" "find_break db k = Some b" "break_visible v b" "select_pulls v k db \<noteq> []"
  shows "csState (statusOf (select_pulls v k db)) = ChainValid"
proof -
  have rows: "select_pulls v k db = log_of k db" by (rule own_log [OF assms(1-3)])
  have "log_ok (log_of k db)" using assms(1) by (simp add: break_inv_def)
  then have "verify_from GENESIS_HASH (map linked_row (log_of k db)) = None"
    and "\<not> list_ex (\<lambda>r. plPrevHash r = None \<or> plRowHash r = None) (log_of k db)"
    by (auto simp: log_ok_def list_ex_iff)
  then show ?thesis using assms(4) by (simp add: rows statusOf_def verifyChain_def Let_def)
qed

text \<open>
  Whatever a creator does with their breaks, no chain of theirs is ever found broken or unprovable by their page, and
  the badge is "verified" exactly when a commitment the reader may see has been revealed.
\<close>

theorem badge_of_honest_logs:
  assumes "platform_ok pf" "pfBreaks db = break_run pf (no_breaks us ps vs ix) ops"
  shows "bfChainsValid (breakerFairness v u db) = bfChainsChecked (breakerFairness v u db)
    \<and> bfChainsBroken (breakerFairness v u db) = 0 \<and> bfChainsUnverifiable (breakerFairness v u db) = 0
    \<and> bfBadge (breakerFairness v u db) = (if 0 < bfRevealed (breakerFairness v u db) then BadgeVerified else BadgeNone)"
proof -
  let ?bdb = "pfBreaks db" and ?states = "map (csState \<circ> snd) (checkChains v (chain_sample v u db) (pfBreaks db))"
  have inv: "break_inv pf ?bdb" unfolding assms(2) by (rule run_keeps [OF assms(1)])
  have valid: "csState s = ChainValid" if "(k, s) \<in> set (checkChains v (chain_sample v u db) ?bdb)" for k s
  proof -
    have ks: "k \<in> set (chain_sample v u db)" "select_pulls v k ?bdb \<noteq> []" "s = statusOf (select_pulls v k ?bdb)"
      using checkChains_spec [OF that] by auto
    from ks(1) obtain b where b: "b \<in> set (breakRows ?bdb)" "bId b = k" "break_visible v b"
      by (auto simp: chain_sample_def creator_breaks_def Let_def dest!: in_set_takeD)
    have "find_break ?bdb k = Some b"
      using find_row_distinct [of bId "breakRows ?bdb" b] inv b by (simp add: find_break_def break_inv_def)
    then show ?thesis using honest_status [OF inv _ b(3) ks(2)] ks(3) by simp
  qed
  have all: "\<forall>st \<in> set ?states. st = ChainValid" using valid by auto
  then have "filter (\<lambda>st. st = ChainValid) ?states = ?states" "filter (\<lambda>st. st = ChainInvalid) ?states = []"
    "filter (\<lambda>st. st = Unverifiable) ?states = []"
    by (auto simp: filter_empty_conv intro!: filter_True)
  then show ?thesis by (simp only: breakerFairness_def Let_def BreakerFairness.simps) simp
qed

text \<open>
  "\<open>verified\<close> needs a revealed commitment and no broken chain - the two halves of the claim": but no broken chain is
  not a valid one. A creator whose logs all predate the chain, or who has no pull at all, is verified by the reveal.
\<close>

definition old_break :: Break where
  "old_break = \<lparr>bId = ''b1'', bCreatorId = ''ann'', bTitle = ''Case'', bSealedProductId = None, bCostCents = None,
     bPacksOpened = None, bVodUrl = None, bStatus = Ended, bOverlayTokenHash = ''t1'', bOverlayTokenVersion = 1,
     bStartedAt = Some 1, bEndedAt = Some 2, bCreatedAt = 0, bUpdatedAt = 2\<rparr>"

definition unchained_db :: profile_db where
  "unchained_db = \<lparr>pfProfiles = [], pfOdds = [], pfRarities = [],
     pfBreaks = (no_breaks [''ann''] [] [] [])\<lparr>breakRows := [old_break],
       pullRows := [\<lparr>plId = ''p1'', plBreakId = ''b1'', plCardVariantId = None, plLabel = Some ''Zaku'', plValueCents = 100,
                    plValueSource = Manual, plPrevHash = None, plRowHash = None, plSeq = 1, plPulledAt = 1\<rparr>],
       commitmentRows := [\<lparr>cmId = ''m1'', cmBreakId = ''b1'', cmCommitment = [], cmSeedEncrypted = [], cmClientSeed = Some ''x'',
                          cmRevealedSeed = Some ''y'', cmSlotCount = 2, cmAlgorithm = ''v1'', cmCommittedAt = 0,
                          cmRevealedAt = Some 3\<rparr>]\<rparr>\<rparr>"

lemma a_verified_badge_without_a_valid_chain:
  "bfBadge (breakerFairness Anyone ''ann'' unchained_db) = BadgeVerified
   \<and> bfChainsValid (breakerFairness Anyone ''ann'' unchained_db) = 0
   \<and> bfChainsUnverifiable (breakerFairness Anyone ''ann'' unchained_db) = 1"
  by (simp add: breakerFairness_def creator_commitments_def chain_sample_def creator_breaks_def unchained_db_def old_break_def
      no_breaks_def checkChains_def pull_visible_def commitment_visible_def statusOf_def map_set_def PROFILE_CHAIN_SAMPLE_def)

end
