(* ===== verification/Spec2Isabelle.thy ===== *)
theory Spec2Isabelle
  imports MarketProps BreakProps PhotoRace CollectionProps SignInLimits PriceProps KeyRotation AccountProps AlertProps KeyProps BreakApi CollectionRoutes SellerProps
    AdminProps Watchdog IngestRoutes ProfileProps
begin

text \<open>
  Gundam TCG hub: a card catalogue with prices, a marketplace and provably fair pack breaks
  (TypeScript, \<open>packages/*\<close> and \<open>apps/*\<close>). This development models its rules and the state they
  guard.

  \<^bold>\<open>Conventions.\<close> Strings are character lists, one character per code unit; instants are integers
  of milliseconds and every \<open>new Date()\<close> of an operation is its argument \<open>now\<close>; a fresh identifier,
  token or random byte is an argument. JavaScript numbers that reach a check are \<open>jsnum\<close> (a
  rational, NaN or an infinity) and arithmetic that leaves the integers is rounded to 53 bits by
  \<open>dbl\<close>. An exception is a value of an error type in a sum; a database transaction is a function
  from the store to an error or a result with the new store, so a rollback is the old store.
  Transactions are atomic: the queries lock the rows they decide on (stock reports, which do not,
  are split where another may come in between). A row policy is a predicate of
  the session (\<open>AsUser u\<close>, \<open>Worker\<close>, ...), a CHECK or unique index a named test, and an insert
  runs them in the order the database does.

  \<^bold>\<open>Foundations.\<close> \<open>Prelude\<close> (keyed tables, transactions and the two interfaces \<open>keyed_table\<close> and
  \<open>monotone_machine\<close>, numerals, strings), \<open>JsNumber\<close> (doubles, with the interface
  \<open>double_rounding\<close>), \<open>Json\<close>, \<open>Sha256\<close> (SHA-256 and HMAC written out on bytes, UTF-8, hex).

  \<^bold>\<open>Marketplace.\<close> \<open>Fees\<close>, \<open>OrderRules\<close>, \<open>MarketRules\<close> (\<open>packages/core\<close>: fees, the order state
  machine, payout holds, fraud limits, listing rules); \<open>MarketDb\<close> (\<open>packages/db/src/schema/market.ts\<close>
  and the policies of the migrations); \<open>OrderStore\<close>, \<open>ListingStore\<close>, \<open>PhotoStore\<close>, \<open>RatingStore\<close>,
  \<open>SellerStore\<close> (\<open>packages/db/src/queries\<close>); \<open>OrderLedger\<close> (the abstract ledger the order queries
  refine); \<open>MarketMachine\<close>, \<open>MarketInvariant\<close>, \<open>MarketProps\<close> (all of it as one machine, its
  invariant and what it promises: the audit trail, who may move an order, one open order per
  listing, payment at most once, ratings as receipts); \<open>Access\<close> (\<open>packages/auth/src/authorize.ts\<close>);
  \<open>Webhook\<close> (\<open>apps/api/src/routes/stripe-webhook.ts\<close> as runs of the machine); \<open>MarketRoutes\<close> (the
  handlers of \<open>market.ts\<close>, \<open>checkout.ts\<close>, \<open>fulfilment.ts\<close>).

  \<^bold>\<open>Photos.\<close> \<open>ImageInspect\<close> (\<open>packages/security/src/images.ts\<close>: the header walks over 8-bit words
  and the structure of JPEG and PNG files they are shown to read); \<open>Reencode\<close>
  (\<open>packages/photos/src/reencode.ts\<close>, the box filter in doubles); \<open>PhotoPipeline\<close> (the scanner's
  protocol, the bucket, \<open>processUpload\<close> and the handlers of \<open>routes/photos.ts\<close>); \<open>PhotoRace\<close> (all
  of it interleaved at its awaits: what a view link can show, and the race that swaps a picture).

  \<^bold>\<open>Breaks.\<close> \<open>Fairness\<close> and \<open>PullChain\<close> (\<open>packages/core/src/fairness.ts\<close>: the shuffle, its
  commitment and the hash chain of a pull log); \<open>Crypto\<close> (\<open>packages/security\<close>: field encryption,
  tokens, signed links); \<open>Vod\<close> (offsets into a recording); \<open>BreakDb\<close>, \<open>BreakStore\<close>, \<open>CommitReveal\<close>
  (schema, policies and queries of breaks and commitments); \<open>BreakMachine\<close>, \<open>BreakInvariant\<close>,
  \<open>BreakDemo\<close>, \<open>BreakProps\<close> (the machine of every break operation, its invariant, a concrete run,
  and what it promises: logs that verify, history that only grows, reveals that honour their
  commitment, seeds that stay secret until the end).

  \<^bold>\<open>Collections.\<close> \<open>JsDate\<close> (instants as text), \<open>Csv\<close> (\<open>packages/security/src/csv.ts\<close> over UTF-16
  texts), \<open>CollectionCsv\<close> (\<open>packages/core/src/collections.ts\<close>: columns, money, the row schema);
  \<open>CollectionStore\<close>, \<open>CollectionViews\<close> (\<open>packages/db/src/queries/collections.ts\<close>: tables and
  policies, operations; item list, valuation, export, import); \<open>CollectionInvariant\<close> and
  \<open>CollectionProps\<close> (every operation as statements of one session, the invariant, and what it
  promises: strangers change and learn nothing, the valuation is its sums, an import does what its
  file says).

  \<^bold>\<open>Sign-in, accounts and passkeys.\<close> \<open>SignInLimits\<close> (\<open>packages/auth/src/identifier-limit.ts\<close>: the
  limiter of sign-in mails per address, its map in insertion order); \<open>SignInRecords\<close>
  (\<open>packages/auth/src\<close>: step-up, hashed addresses, refused attempts, device names, the passkey
  rules); \<open>AccountGuard\<close> (\<open>packages/auth/src/auth.ts\<close>, the queries and routes of sessions and
  passkeys over one store of accounts, sessions, devices and passkeys); \<open>AccountProps\<close> (its steps,
  and that an inbox alone never takes over an account that has a passkey).

  \<^bold>\<open>Price index and live sales.\<close> \<open>PriceRules\<close> (\<open>packages/core/src/pricing.ts\<close>: the trimmed median
  and its quantiles in doubles); \<open>PriceDb\<close> (\<open>schema/pricing.ts\<close>, \<open>schema/live-sales.ts\<close>, their
  policies); \<open>PriceStore\<close> (\<open>queries/pricing.ts\<close>: reports, moderation, the rollup); \<open>LiveSaleStore\<close>
  (\<open>queries/live-sales.ts\<close>: logging, voiding, the two-level ingest into the observations);
  \<open>PriceInvariant\<close> and \<open>PriceProps\<close> (the machine of all of it and what it promises: every group
  with enough evidence is published with the summary of its bucket, no session moves the index by
  itself, no sale is counted twice).

  \<^bold>\<open>Key rotation.\<close> \<open>KeyRotation\<close> (\<open>queries/key-rotation.ts\<close>: one locale \<open>encrypted_column\<close>,
  interpreted on the columns the run rewrites; a run loses no value and reports every key still
  needed).

  \<^bold>\<open>Restock alerts.\<close> \<open>WatchStore\<close> (\<open>schema/watches.ts\<close>, \<open>queries/watches.ts\<close>, the routes of watches
  and of the unsubscribe link); \<open>AlertStore\<close> (\<open>queries/ingest.ts\<close>, \<open>queries/listings.ts\<close>: stock reports,
  transitions, delivery slots; the read and the write of a report are two definitions, because its
  transaction locks nothing between them); \<open>AlertDispatch\<close> (\<open>packages/alerts\<close>: transports, fan-out,
  retries, each also as a run that stands at its awaits); \<open>AlertRuns\<close> (all of it interleaved, over
  the locale \<open>alert_run\<close>) and \<open>AlertProps\<close> (an alert is told once per surviving run, restocks are
  returns to stock, unsubscribing stops one mail).

  \<^bold>\<open>API keys.\<close> \<open>ApiKeys\<close> (\<open>queries/api-keys.ts\<close>, the routes and the bearer check), \<open>Quota\<close> (the daily
  count in the row and the shared check), \<open>KeyProps\<close> (a day's quota survives restarts; a minted key
  opens its account until it is revoked).

  \<^bold>\<open>Requests of breaks and collections.\<close> \<open>BreakRoutes\<close> (\<open>routes/breaks.ts\<close>, with the overlay's event
  streams and their overlapping polls) and \<open>BreakApi\<close> (every request is a run of the break machine;
  streams are capped and cut); \<open>CollectionRoutes\<close> (\<open>routes/collections.ts\<close> likewise).

  \<^bold>\<open>Money in and out.\<close> \<open>Payments\<close> (\<open>apps/api/src/payments/stripe.ts\<close>: what is asked of the provider,
  under which idempotency key, and how its answers are read; any interleaving of a person's
  onboardings makes at most one account); \<open>SellerRoutes\<close> (\<open>routes/seller.ts\<close>, \<open>routes/ratings.ts\<close>,
  \<open>job-release-payouts.ts\<close>, the completion job of \<open>packages/db/src/jobs.ts\<close>); \<open>SellerProps\<close> (payouts are
  released when earned, and who stays held for ever).

  \<^bold>\<open>Running it.\<close> \<open>Switches\<close> (\<open>packages/db/src/flags.ts\<close>: the switches of an emergency, their reader and
  its cache, as runs of asks, reads and refreshes that interleave); \<open>Watchdog\<close> (\<open>queries/operations.ts\<close>,
  \<open>queries/security-events.ts\<close>, \<open>queries/ops-alerts.ts\<close> and the watchdog of \<open>jobs.ts\<close>: what is worth
  saying, said once per interval, and the heartbeat that makes silence mean something); \<open>AdminRoutes\<close>
  and \<open>AdminProps\<close> (\<open>queries/moderation.ts\<close>, \<open>routes/admin.ts\<close>: every console request is gated, is an
  operation of one machine and leaves an entry with a name and a reason); \<open>IngestRoutes\<close>
  (\<open>routes/ingest.ts\<close>, \<open>routes/live-sales.ts\<close>: stock reports under a scoped key, whose history does not
  depend on the switch of the alerts; the live-sale requests as operations of the price machine).

  \<^bold>\<open>Public pages.\<close> \<open>Rarity\<close> (\<open>packages/core/src/rarity.ts\<close>: quantile, interval and verdicts on pack odds, with
  the arithmetic as an argument, so that one definition is both the doubles and the formula); \<open>Profiles\<close>
  (\<open>schema/profiles.ts\<close>, \<open>queries/profiles.ts\<close>, \<open>routes/profile.ts\<close>); \<open>ProfileProps\<close> (a page is a function of what
  is public, says nothing but what its owner typed, and an honest log never breaks its badge).

  \<^bold>\<open>Parameters.\<close> What is not in the repository is an argument: AES-256-GCM, the URL parser,
  \<open>JSON.parse\<close>, the payment provider's client and signature check, the image codecs, clamd and the
  object store's failures. A property that relies on one of them says what it relies on, and its
  witness instantiates it.

  \<^bold>\<open>Termination.\<close> Loops are total functions with measures, but for the rejection sampling of the
  shuffle, which is a \<open>partial_function\<close> and is shown to return on every stream that does not run
  into rejected bytes for ever. No fuel is used.

  \<^bold>\<open>Not modelled.\<close> The web pages (\<open>apps/web\<close>), which hold no rules of their own; HTTP plumbing,
  logging, the per-route rate limits of the framework and the OpenAPI document; command-line tools
  and seeds; the S3 requests and their signatures; the network below the mail, Discord and payment
  calls, whose answers are parameters; the digests' collision resistance (where a
  statement would need it, it exhibits the collision instead).
\<close>

end
